(* ===== verification/Prelude.thy ===== *)
theory Prelude
  imports Main "HOL-Library.Word" "HOL-Library.Char_ord" "HOL-Library.List_Lexorder"
    "HOL-Library.Product_Lexorder"
begin

text \<open>
  Shared vocabulary of the development: the result type of fallible Rust code, instants,
  the parts of the Rust standard library that several components use (first minimum of an
  iterator, prefix tests, splitting and joining of strings) and the generic lemmas about them.

  A Rust \<open>String\<close> is its sequence of UTF-8 bytes, so it is a \<open>string\<close> here (a list of
  8-bit characters) and the byte-wise order of \<open>String\<close> is the lexicographic order of
  \<open>HOL-Library.List_Lexorder\<close> over \<open>HOL-Library.Char_ord\<close>. A tuple is compared
  lexicographically (\<open>HOL-Library.Product_Lexorder\<close>).
\<close>

named_theorems store_defs \<open>definitions of the store operations, unfolded together\<close>
named_theorems engine_defs \<open>definitions of the engine's state transformers\<close>
named_theorems run_frame \<open>which fields of a record an operation leaves alone\<close>

text \<open>\<open>i64::MAX\<close>.\<close>

definition i64_max :: nat where
  "i64_max = 2 ^ 63 - 1"

section \<open>Results of fallible code\<close>

text \<open>
  \<open>Ok\<close> and \<open>Err\<close> are the constructors of Rust's \<open>Result\<close>; \<open>Panic\<close> is the third way a
  call can end: an index out of range, an \<open>unwrap\<close> or \<open>expect\<close> of an absent value, or a
  library call that documents a panic.
\<close>

datatype ('e, 'a) res = Ok 'a | Err 'e | Panic

fun bind_res :: "('e, 'a) res \<Rightarrow> ('a \<Rightarrow> ('e, 'b) res) \<Rightarrow> ('e, 'b) res" where
  "bind_res (Ok x) f = f x"
| "bind_res (Err e) f = Err e"
| "bind_res Panic f = Panic"

definition is_ok :: "('e, 'a) res \<Rightarrow> bool" where
  "is_ok r = (case r of Ok _ \<Rightarrow> True | _ \<Rightarrow> False)"

lemma bind_res_cong [fundef_cong]:
  assumes "r = r'" and "\<And>x. r' = Ok x \<Longrightarrow> f x = g x"
  shows "bind_res r f = bind_res r' g"
  using assms by (cases r') auto

lemma bind_res_eq_Ok [simp]:
  "bind_res r f = Ok y \<longleftrightarrow> (\<exists>x. r = Ok x \<and> f x = Ok y)"
  by (cases r) auto

lemma bind_res_eq_Err:
  "bind_res r f = Err e \<longleftrightarrow> r = Err e \<or> (\<exists>x. r = Ok x \<and> f x = Err e)"
  by (cases r) auto

lemma bind_res_eq_Panic:
  "bind_res r f = Panic \<longleftrightarrow> r = Panic \<or> (\<exists>x. r = Ok x \<and> f x = Panic)"
  by (cases r) auto

lemma is_ok_simps [simp]: "is_ok (Ok x)" "\<not> is_ok (Err e)" "\<not> is_ok Panic"
  by (simp_all add: is_ok_def)

lemma is_ok_iff: "is_ok r \<longleftrightarrow> (\<exists>x. r = Ok x)"
  by (cases r) simp_all

text \<open>\<open>iter.map(f).collect::<Result<Vec<_>, _>>()\<close>: the first error ends the traversal.\<close>

fun map_res :: "('a \<Rightarrow> ('e, 'b) res) \<Rightarrow> 'a list \<Rightarrow> ('e, 'b list) res" where
  "map_res f [] = Ok []"
| "map_res f (x # xs) = bind_res (f x) (\<lambda>y. bind_res (map_res f xs) (\<lambda>ys. Ok (y # ys)))"

lemma map_res_cong [fundef_cong]:
  assumes "xs = ys" and "\<And>x. x \<in> set ys \<Longrightarrow> f x = g x"
  shows "map_res f xs = map_res g ys"
  using assms(2) unfolding assms(1) by (induction ys) simp_all

lemma map_res_Ok_length: "map_res f xs = Ok ys \<Longrightarrow> length ys = length xs"
  by (induction xs arbitrary: ys) auto

lemma map_res_Ok_nth:
  "map_res f xs = Ok ys \<Longrightarrow> i < length xs \<Longrightarrow> f (xs ! i) = Ok (ys ! i)"
proof (induction xs arbitrary: ys i)
  case (Cons x xs)
  then show ?case by (cases i) auto
qed simp

lemma map_res_Ok_iff:
  "map_res f xs = Ok ys \<longleftrightarrow> list_all2 (\<lambda>x y. f x = Ok y) xs ys"
proof (induction xs arbitrary: ys)
  case (Cons x xs)
  then show ?case by (cases ys) auto
qed auto

lemma map_res_Ok_set:
  "map_res f xs = Ok ys \<Longrightarrow> y \<in> set ys \<Longrightarrow> \<exists>x \<in> set xs. f x = Ok y"
  by (auto simp: map_res_Ok_iff list_all2_conv_all_nth in_set_conv_nth) (metis nth_mem)

lemma map_res_total: "(\<And>x. x \<in> set xs \<Longrightarrow> \<exists>y. f x = Ok y) \<Longrightarrow> \<exists>ys. map_res f xs = Ok ys"
proof (induction xs)
  case (Cons x xs)
  then obtain y ys where "f x = Ok y" "map_res f xs = Ok ys" by fastforce
  then show ?case by simp
qed simp

lemma map_res_Err:
  assumes "map_res f xs = Err e" obtains x where "x \<in> set xs" "f x = Err e"
  using assms by (induction xs) (auto simp: bind_res_eq_Err)

lemma map_res_Panic:
  assumes "map_res f xs = Panic" obtains x where "x \<in> set xs" "f x = Panic"
  using assms by (induction xs) (auto simp: bind_res_eq_Panic)

section \<open>Instants\<close>

text \<open>
  A \<open>chrono::DateTime<Utc>\<close> is its number of nanoseconds since the Unix epoch; a
  \<open>TimeDelta\<close> and a \<open>std::time::Duration\<close> are numbers of nanoseconds. The arithmetic of
  the \<open>chrono\<close> crate is not part of the repository: it is a parameter, with the documented
  behaviour as the predicate \<open>chrono_documented\<close>.
\<close>

type_synonym time = int

record chrono_ops =
  dt_add :: "time \<Rightarrow> int \<Rightarrow> time option"
    \<comment> \<open>\<open>DateTime<Utc> + TimeDelta\<close>: \<open>None\<close> where the addition panics (date out of range)\<close>
  td_from_std :: "nat \<Rightarrow> int option"
    \<comment> \<open>\<open>TimeDelta::from_std\<close>: \<open>None\<close> for \<open>OutOfRangeError\<close>\<close>
  dt_rfc3339 :: "time \<Rightarrow> string"
    \<comment> \<open>\<open>DateTime::to_rfc3339\<close>\<close>
  dt_serialize :: "time \<Rightarrow> string"
    \<comment> \<open>the text serde writes for a \<open>DateTime<Utc>\<close>\<close>

definition chrono_documented :: "chrono_ops \<Rightarrow> bool" where
  "chrono_documented ch \<longleftrightarrow>
     (\<forall>t d r. dt_add ch t d = Some r \<longrightarrow> r = t + d) \<and>
     (\<forall>n d. td_from_std ch n = Some d \<longrightarrow> d = int n)"

lemma dt_add_Some:
  "chrono_documented ch \<Longrightarrow> dt_add ch t d = Some r \<Longrightarrow> r = t + d"
  by (simp add: chrono_documented_def)

lemma td_from_std_Some:
  "chrono_documented ch \<Longrightarrow> td_from_std ch n = Some d \<Longrightarrow> d = int n"
  by (simp add: chrono_documented_def)

text \<open>An instance for the closed examples: the addition is defined between two bounds.\<close>

definition chrono_between :: "int \<Rightarrow> int \<Rightarrow> chrono_ops" where
  "chrono_between lo hi =
     \<lparr> dt_add = (\<lambda>t d. if lo \<le> t + d \<and> t + d \<le> hi then Some (t + d) else None),
       td_from_std = (\<lambda>n. if int n \<le> (2 ^ 63 - 1) * 1000000 then Some (int n) else None),
       dt_rfc3339 = (\<lambda>t. ''t''), dt_serialize = (\<lambda>t. ''t'') \<rparr>"

lemma chrono_between_documented: "chrono_documented (chrono_between lo hi)"
  by (auto simp: chrono_documented_def chrono_between_def split: if_splits)

section \<open>Iterators and strings of the standard library\<close>

text \<open>\<open>Iterator::min_by\<close> returns the first of several equally small elements.\<close>

fun min_by_key :: "('a \<Rightarrow> 'k::linorder) \<Rightarrow> 'a list \<Rightarrow> 'a option" where
  "min_by_key f [] = None"
| "min_by_key f (x # xs) =
     (case min_by_key f xs of
        None \<Rightarrow> Some x
      | Some y \<Rightarrow> if f x \<le> f y then Some x else Some y)"

lemma min_by_key_None [simp]: "min_by_key f xs = None \<longleftrightarrow> xs = []"
  by (cases xs) (auto split: option.splits)

lemma min_by_key_Some:
  "min_by_key f xs = Some x \<Longrightarrow> x \<in> set xs \<and> (\<forall>y \<in> set xs. f x \<le> f y)"
proof (induction xs arbitrary: x)
  case (Cons a xs)
  show ?case
  proof (cases "min_by_key f xs")
    case None
    with Cons.prems show ?thesis by simp
  next
    case (Some y)
    from Cons.IH [OF Some] have "y \<in> set xs" "\<forall>z \<in> set xs. f y \<le> f z" by auto
    with Some Cons.prems show ?thesis by (auto split: if_splits)
  qed
qed simp

text \<open>\<open>Iterator::max_by\<close> returns the last of several equally large elements.\<close>

fun max_by_rel :: "('a \<Rightarrow> 'a \<Rightarrow> bool) \<Rightarrow> 'a list \<Rightarrow> 'a option" where
  "max_by_rel le [] = None"
| "max_by_rel le (x # xs) =
     (case max_by_rel le xs of
        None \<Rightarrow> Some x
      | Some y \<Rightarrow> if le x y then Some y else Some x)"

lemma max_by_rel_in: "max_by_rel le xs = Some x \<Longrightarrow> x \<in> set xs"
  by (induction xs arbitrary: x) (auto split: option.splits if_splits)

lemma max_by_rel_None [simp]: "max_by_rel le xs = None \<longleftrightarrow> xs = []"
  by (cases xs) (auto split: option.splits)

lemma max_by_rel_upper:
  assumes total: "\<And>a b. le a b \<or> le b a"
    and trans: "\<And>a b c. le a b \<Longrightarrow> le b c \<Longrightarrow> le a c"
  shows "max_by_rel le xs = Some x \<Longrightarrow> y \<in> set xs \<Longrightarrow> le y x"
proof (induction xs arbitrary: x y)
  case (Cons a xs)
  show ?case
  proof (cases "max_by_rel le xs")
    case None
    with Cons.prems total [of y y] show ?thesis by simp
  next
    case (Some z)
    have z: "\<And>y. y \<in> set xs \<Longrightarrow> le y z" using Cons.IH [OF Some] .
    from Cons.prems Some consider "le a z" "x = z" | "\<not> le a z" "x = a"
      by (auto split: if_splits)
    then show ?thesis
    proof cases
      case 1
      with Cons.prems(2) z show ?thesis by auto
    next
      case 2
      with total have "le z a" by blast
      with Cons.prems(2) z 2 trans total show ?thesis by (metis set_ConsD)
    qed
  qed
qed simp

text \<open>\<open>str::starts_with\<close> on bytes.\<close>

fun starts_with :: "string \<Rightarrow> string \<Rightarrow> bool" where
  "starts_with s [] = True"
| "starts_with [] (p # ps) = False"
| "starts_with (c # cs) (p # ps) = (c = p \<and> starts_with cs ps)"

lemma starts_with_iff: "starts_with s p \<longleftrightarrow> (\<exists>r. s = p @ r)"
  by (induction s p rule: starts_with.induct) auto

lemma starts_with_refl [simp]: "starts_with s s"
  by (simp add: starts_with_iff)

text \<open>\<open>str::split(c)\<close>: the pieces between the separators, always at least one.\<close>

fun split_on :: "char \<Rightarrow> string \<Rightarrow> string list" where
  "split_on c [] = [[]]"
| "split_on c (x # xs) =
     (if x = c then [] # split_on c xs
      else (case split_on c xs of [] \<Rightarrow> [[x]] | p # ps \<Rightarrow> (x # p) # ps))"

text \<open>\<open>parts.join(sep)\<close>.\<close>

fun join_with :: "string \<Rightarrow> string list \<Rightarrow> string" where
  "join_with sep [] = []"
| "join_with sep [p] = p"
| "join_with sep (p # q # ps) = p @ sep @ join_with sep (q # ps)"

lemma split_on_not_Nil [simp]: "split_on c s \<noteq> []"
  by (cases s) (auto split: list.splits)

lemma join_split [simp]: "join_with [c] (split_on c s) = s"
proof (induction s)
  case (Cons x xs)
  obtain p ps where ps: "split_on c xs = p # ps" by (cases "split_on c xs") auto
  with Cons show ?case by (cases ps) auto
qed simp

lemma split_on_no_sep: "p \<in> set (split_on c s) \<Longrightarrow> c \<notin> set p"
proof (induction s arbitrary: p)
  case (Cons x xs)
  obtain q qs where "split_on c xs = q # qs" by (cases "split_on c xs") auto
  with Cons show ?case by (auto split: if_splits)
qed simp

lemma split_on_append:
  "c \<notin> set p \<Longrightarrow> split_on c (p @ c # s) = p # split_on c s"
  by (induction p) auto

lemma split_on_plain: "c \<notin> set p \<Longrightarrow> split_on c p = [p]"
  by (induction p) auto

lemma split_join:
  "ps \<noteq> [] \<Longrightarrow> \<forall>p \<in> set ps. c \<notin> set p \<Longrightarrow> split_on c (join_with [c] ps) = ps"
  by (induction ps rule: induct_list012) (auto simp: split_on_append split_on_plain)

text \<open>Decimal text of an unsigned integer, and \<open>str::parse::<u64>\<close>.\<close>

definition digit_char :: "nat \<Rightarrow> char" where
  "digit_char d = char_of (48 + d)"

definition is_ascii_digit :: "char \<Rightarrow> bool" where
  "is_ascii_digit c = (48 \<le> (of_char c :: nat) \<and> (of_char c :: nat) \<le> 57)"

definition digit_value :: "char \<Rightarrow> nat" where
  "digit_value c = of_char c - 48"

fun show_nat :: "nat \<Rightarrow> string" where
  "show_nat n = (if n < 10 then [digit_char n] else show_nat (n div 10) @ [digit_char (n mod 10)])"

declare show_nat.simps [simp del]

definition decimal_value :: "string \<Rightarrow> nat" where
  "decimal_value s = foldl (\<lambda>acc c. acc * 10 + digit_value c) 0 s"

definition parse_u64 :: "string \<Rightarrow> nat option" where
  "parse_u64 s =
     (let t = (case s of [] \<Rightarrow> [] | c # cs \<Rightarrow> if c = CHR ''+'' then cs else s) in
      if t \<noteq> [] \<and> list_all is_ascii_digit t \<and> decimal_value t < 2 ^ 64
      then Some (decimal_value t) else None)"

lemma digit_char_props [simp]:
  "d < 10 \<Longrightarrow> is_ascii_digit (digit_char d)"
  "d < 10 \<Longrightarrow> digit_value (digit_char d) = d"
  by (simp_all add: is_ascii_digit_def digit_char_def digit_value_def)

lemma show_nat_digits: "list_all is_ascii_digit (show_nat n)"
proof (induction n rule: show_nat.induct)
  case (1 n)
  then show ?case by (subst show_nat.simps) auto
qed

lemma show_nat_not_Nil [simp]: "show_nat n \<noteq> []"
  by (subst show_nat.simps) simp

lemma decimal_value_snoc [simp]: "decimal_value (s @ [c]) = decimal_value s * 10 + digit_value c"
  by (simp add: decimal_value_def)

lemma decimal_value_single: "decimal_value [c] = digit_value c"
  by (simp add: decimal_value_def)

lemma decimal_value_show [simp]: "decimal_value (show_nat n) = n"
proof (induction n rule: show_nat.induct)
  case (1 n)
  show ?case
  proof (cases "n < 10")
    case True
    then show ?thesis by (subst show_nat.simps) (simp add: decimal_value_single)
  next
    case False
    with "1.IH" have "decimal_value (show_nat (n div 10)) = n div 10" by simp
    with False show ?thesis by (subst show_nat.simps) simp
  qed
qed

lemma plus_not_digit [simp]: "\<not> is_ascii_digit (CHR ''+'')"
  by (simp add: is_ascii_digit_def)

lemma parse_u64_digits:
  assumes "list_all is_ascii_digit s" "s \<noteq> []"
  shows "parse_u64 s = (if decimal_value s < 2 ^ 64 then Some (decimal_value s) else None)"
  using assms by (cases s) (auto simp: parse_u64_def)

lemma parse_show_nat: "n < 2 ^ 64 \<Longrightarrow> parse_u64 (show_nat n) = Some n"
  by (simp add: parse_u64_digits show_nat_digits)

text \<open>\<open>Option::get_or_insert\<close> leaves a present value alone.\<close>

definition get_or_insert :: "'a option \<Rightarrow> 'a \<Rightarrow> 'a option" where
  "get_or_insert x v = (case x of None \<Rightarrow> Some v | Some w \<Rightarrow> Some w)"

lemma get_or_insert_simps [simp]:
  "get_or_insert None v = Some v" "get_or_insert (Some w) v = Some w"
  by (simp_all add: get_or_insert_def)

lemma get_or_insert_not_None [simp]: "get_or_insert x v \<noteq> None"
  by (simp add: get_or_insert_def split: option.splits)

text \<open>\<open>Vec::dedup\<close> after \<open>sort\<close>: equal neighbours are merged.\<close>

definition sort_dedup :: "'a::linorder list \<Rightarrow> 'a list" where
  "sort_dedup xs = remdups_adj (sort xs)"

lemma set_sort_dedup [simp]: "set (sort_dedup xs) = set xs"
  by (simp add: sort_dedup_def)

lemma distinct_remdups_adj_sorted: "sorted xs \<Longrightarrow> distinct (remdups_adj xs)"
  by (induction xs rule: remdups_adj.induct) (auto simp: order.antisym)

lemma sort_dedup_distinct [simp]: "distinct (sort_dedup xs)"
  by (simp add: sort_dedup_def distinct_remdups_adj_sorted)

text \<open>\<open>slice.get(i)\<close>, and the index expression \<open>xs[i]\<close> that panics out of range.\<close>

definition get_at :: "'a list \<Rightarrow> nat \<Rightarrow> 'a option" where
  "get_at xs i = (if i < length xs then Some (xs ! i) else None)"

lemma get_at_Some [simp]: "get_at xs i = Some x \<longleftrightarrow> i < length xs \<and> xs ! i = x"
  by (auto simp: get_at_def)

lemma get_at_None [simp]: "get_at xs i = None \<longleftrightarrow> length xs \<le> i"
  by (auto simp: get_at_def)

definition index_at :: "'a list \<Rightarrow> nat \<Rightarrow> ('e, 'a) res" where
  "index_at xs i = (if i < length xs then Ok (xs ! i) else Panic)"

lemma index_at_Ok [simp]: "index_at xs i = Ok x \<longleftrightarrow> i < length xs \<and> xs ! i = x"
  by (auto simp: index_at_def)

lemma index_at_inside [simp]: "i < length xs \<Longrightarrow> index_at xs i = Ok (xs ! i)"
  by (simp add: index_at_def)

text \<open>Applying a function to the elements from a position on: \<open>iter_mut().skip(n)\<close>.\<close>

definition map_from :: "nat \<Rightarrow> ('a \<Rightarrow> 'a) \<Rightarrow> 'a list \<Rightarrow> 'a list" where
  "map_from n f xs = take n xs @ map f (drop n xs)"

lemma length_map_from [simp]: "length (map_from n f xs) = length xs"
  by (simp add: map_from_def)

lemma nth_map_from:
  "i < length xs \<Longrightarrow> map_from n f xs ! i = (if i < n then xs ! i else f (xs ! i))"
  by (cases "n \<le> length xs") (auto simp: map_from_def nth_append)

section \<open>Machines\<close>

text \<open>
  A step relation with an invariant. Components whose threads or callers interleave state their
  guarantee as such a machine; runs, and runs restricted by a guard, keep the invariant, and what every
  guarded step can only lower is lower after a guarded run.
\<close>

locale invariant_machine =
  fixes step :: "'s \<Rightarrow> 's \<Rightarrow> bool" and inv :: "'s \<Rightarrow> bool"
  assumes step_inv: "inv s \<Longrightarrow> step s s' \<Longrightarrow> inv s'"
begin

lemma steps_inv: "step\<^sup>*\<^sup>* s s' \<Longrightarrow> inv s \<Longrightarrow> inv s'"
  by (induction rule: rtranclp_induct) (auto intro: step_inv)

lemma guarded_steps:
  assumes "(\<lambda>x y. step x y \<and> P x)\<^sup>*\<^sup>* s s'" "inv s"
    and "\<And>x y. inv x \<Longrightarrow> P x \<Longrightarrow> step x y \<Longrightarrow> f y \<le> (f x :: 'o :: order)"
  shows "inv s' \<and> f s' \<le> f s"
  using assms(1)
proof (induction rule: rtranclp_induct)
  case (step y z)
  then show ?case using assms(3) [of y z] step_inv [of y z] by auto
qed (simp add: assms(2))

end

end
