(* ===== verification/BTree_Map.thy ===== *)
theory BTree_Map
  imports Prelude
begin

text \<open>
  The ordered map \<open>std::collections::BTreeMap\<close> as the store uses it: an association list
  with strictly increasing keys, so that iteration (\<open>values\<close>, \<open>retain\<close>) is in key order
  and every operation computes. The locale \<open>ordered_map\<close> states the contract its clients
  rely on; it is interpreted on these definitions at the end.
\<close>

type_synonym ('k, 'v) btree = "('k \<times> 'v) list"

fun bt_insert :: "'k::linorder \<Rightarrow> 'v \<Rightarrow> ('k, 'v) btree \<Rightarrow> ('k, 'v) btree" where
  "bt_insert k v [] = [(k, v)]"
| "bt_insert k v ((j, w) # m) =
     (if k < j then (k, v) # (j, w) # m
      else if k = j then (k, v) # m
      else (j, w) # bt_insert k v m)"

definition bt_get :: "('k, 'v) btree \<Rightarrow> 'k \<Rightarrow> 'v option" where
  "bt_get m k = map_of m k"

definition bt_contains :: "('k, 'v) btree \<Rightarrow> 'k \<Rightarrow> bool" where
  "bt_contains m k = (bt_get m k \<noteq> None)"

definition bt_remove :: "'k \<Rightarrow> ('k, 'v) btree \<Rightarrow> ('k, 'v) btree" where
  "bt_remove k m = filter (\<lambda>e. fst e \<noteq> k) m"

definition bt_retain :: "('k \<Rightarrow> 'v \<Rightarrow> bool) \<Rightarrow> ('k, 'v) btree \<Rightarrow> ('k, 'v) btree" where
  "bt_retain P m = filter (\<lambda>e. P (fst e) (snd e)) m"

definition bt_values :: "('k, 'v) btree \<Rightarrow> 'v list" where
  "bt_values m = map snd m"

definition bt_keys :: "('k, 'v) btree \<Rightarrow> 'k list" where
  "bt_keys m = map fst m"

text \<open>In-place change of a present value through \<open>get_mut\<close>.\<close>

definition bt_modify :: "'k \<Rightarrow> ('v \<Rightarrow> 'v) \<Rightarrow> ('k, 'v) btree \<Rightarrow> ('k, 'v) btree" where
  "bt_modify k f m = map (\<lambda>e. if fst e = k then (k, f (snd e)) else e) m"

definition bt_wf :: "('k::linorder, 'v) btree \<Rightarrow> bool" where
  "bt_wf m = sorted_wrt (<) (map fst m)"

section \<open>Lookups\<close>

lemma bt_get_empty [simp]: "bt_get [] k = None"
  by (simp add: bt_get_def)

lemma bt_get_Cons [simp]: "bt_get ((k, v) # m) j = (if j = k then Some v else bt_get m j)"
  by (simp add: bt_get_def)

lemma bt_get_insert [simp]:
  "bt_get (bt_insert k v m) j = (if j = k then Some v else bt_get m j)"
  by (induction k v m rule: bt_insert.induct) (auto simp: bt_get_def)

lemma bt_get_remove [simp]:
  "bt_get (bt_remove k m) j = (if j = k then None else bt_get m j)"
  by (induction m) (auto simp: bt_get_def bt_remove_def)

lemma bt_get_modify [simp]:
  "bt_get (bt_modify k f m) j = (if j = k then map_option f (bt_get m j) else bt_get m j)"
  by (induction m) (auto simp: bt_get_def bt_modify_def)

lemma bt_contains_simps [simp]:
  "bt_contains (bt_insert k v m) j \<longleftrightarrow> j = k \<or> bt_contains m j"
  "bt_contains (bt_remove k m) j \<longleftrightarrow> j \<noteq> k \<and> bt_contains m j"
  "bt_contains (bt_modify k f m) j \<longleftrightarrow> bt_contains m j"
  "\<not> bt_contains [] j"
  by (auto simp: bt_contains_def)

section \<open>Well-formedness\<close>

lemma bt_wf_empty [simp]: "bt_wf []"
  by (simp add: bt_wf_def)

lemma bt_wf_Cons:
  "bt_wf ((k, v) # m) \<longleftrightarrow> (\<forall>j \<in> fst ` set m. k < j) \<and> bt_wf m"
  by (auto simp: bt_wf_def)

lemma fst_set_bt_insert [simp]: "fst ` set (bt_insert k v m) = insert k (fst ` set m)"
  by (induction k v m rule: bt_insert.induct) auto

lemma bt_wf_insert [simp]: "bt_wf m \<Longrightarrow> bt_wf (bt_insert k v m)"
proof (induction k v m rule: bt_insert.induct)
  case (2 k v j w m)
  then show ?case by (auto simp: bt_wf_Cons)
qed (simp add: bt_wf_def)

lemma bt_wf_filter: "bt_wf m \<Longrightarrow> bt_wf (filter P m)"
  unfolding bt_wf_def by (induction m) auto

lemma bt_wf_remove [simp]: "bt_wf m \<Longrightarrow> bt_wf (bt_remove k m)"
  by (simp add: bt_remove_def bt_wf_filter)

lemma bt_wf_retain [simp]: "bt_wf m \<Longrightarrow> bt_wf (bt_retain P m)"
  by (simp add: bt_retain_def bt_wf_filter)

lemma map_fst_bt_modify [simp]: "map fst (bt_modify k f m) = map fst m"
  by (induction m) (auto simp: bt_modify_def)

lemma bt_wf_modify [simp]: "bt_wf (bt_modify k f m) = bt_wf m"
  by (simp add: bt_wf_def)

lemma bt_wf_distinct: "bt_wf m \<Longrightarrow> distinct (map fst m)"
  by (auto simp: bt_wf_def strict_sorted_iff)

lemma bt_get_iff: "bt_wf m \<Longrightarrow> bt_get m k = Some v \<longleftrightarrow> (k, v) \<in> set m"
  by (simp add: bt_get_def map_of_eq_Some_iff bt_wf_distinct)

lemma bt_get_in_set: "bt_get m k = Some v \<Longrightarrow> (k, v) \<in> set m"
  by (simp add: bt_get_def map_of_SomeD)

lemma in_bt_values: "bt_wf m \<Longrightarrow> v \<in> set (bt_values m) \<longleftrightarrow> (\<exists>k. bt_get m k = Some v)"
  by (force simp: bt_values_def bt_get_iff)

lemma bt_get_value: "bt_get m k = Some v \<Longrightarrow> v \<in> set (bt_values m)"
  by (force simp: bt_values_def dest: bt_get_in_set)

lemma bt_get_retain [simp]:
  assumes wf: "bt_wf m"
  shows "bt_get (bt_retain P m) k =
    (case bt_get m k of None \<Rightarrow> None | Some v \<Rightarrow> if P k v then Some v else None)"
proof -
  have mem: "\<And>v. bt_get (bt_retain P m) k = Some v \<longleftrightarrow> bt_get m k = Some v \<and> P k v"
    using wf bt_wf_retain [OF wf, of P] by (auto simp: bt_get_iff bt_retain_def)
  show ?thesis
    by (cases "bt_get (bt_retain P m) k")
       (use mem in \<open>auto split: option.splits\<close>)
qed

lemma set_bt_keys: "set (bt_keys m) = {k. bt_contains m k}"
  by (auto simp: bt_keys_def bt_contains_def bt_get_def map_of_eq_None_iff)

lemma sorted_bt_keys: "bt_wf m \<Longrightarrow> sorted_wrt (<) (bt_keys m)"
  by (simp add: bt_wf_def bt_keys_def)

section \<open>The contract of an ordered map\<close>

locale ordered_map =
  fixes empty :: 'm
    and lookup :: "'m \<Rightarrow> 'k::linorder \<Rightarrow> 'v option"
    and insert_entry :: "'k \<Rightarrow> 'v \<Rightarrow> 'm \<Rightarrow> 'm"
    and remove_entry :: "'k \<Rightarrow> 'm \<Rightarrow> 'm"
    and entry_values :: "'m \<Rightarrow> 'v list"
    and entry_keys :: "'m \<Rightarrow> 'k list"
    and wf :: "'m \<Rightarrow> bool"
  assumes wf_empty: "wf empty"
    and wf_insert: "wf m \<Longrightarrow> wf (insert_entry k v m)"
    and wf_remove: "wf m \<Longrightarrow> wf (remove_entry k m)"
    and lookup_empty: "lookup empty k = None"
    and lookup_insert: "lookup (insert_entry k v m) j = (if j = k then Some v else lookup m j)"
    and lookup_remove: "lookup (remove_entry k m) j = (if j = k then None else lookup m j)"
    and values_iff: "wf m \<Longrightarrow> v \<in> set (entry_values m) \<longleftrightarrow> (\<exists>k. lookup m k = Some v)"
    and keys_sorted: "wf m \<Longrightarrow> sorted_wrt (<) (entry_keys m)"
    and keys_iff: "k \<in> set (entry_keys m) \<longleftrightarrow> lookup m k \<noteq> None"
begin

text \<open>A client's view: inserting and removing keep the other entries, and keys are unique.\<close>

lemma remove_insert_same: "lookup (remove_entry k (insert_entry k v m)) = lookup (remove_entry k m)"
  by (rule ext) (simp add: lookup_insert lookup_remove)

lemma insert_insert_same: "lookup (insert_entry k v (insert_entry k w m)) = lookup (insert_entry k v m)"
  by (rule ext) (simp add: lookup_insert)

lemma insert_swap:
  "j \<noteq> k \<Longrightarrow>
   lookup (insert_entry j v (insert_entry k w m)) = lookup (insert_entry k w (insert_entry j v m))"
  by (rule ext) (simp add: lookup_insert)

lemma keys_distinct: "wf m \<Longrightarrow> distinct (entry_keys m)"
  using keys_sorted strict_sorted_iff by blast

lemma value_after_insert:
  assumes "wf m" and "v' \<in> set (entry_values (insert_entry k v m))"
  shows "v' = v \<or> v' \<in> set (entry_values m)"
proof -
  from assms obtain j where "lookup (insert_entry k v m) j = Some v'"
    using values_iff wf_insert by blast
  then show ?thesis
    using assms(1) by (auto simp: lookup_insert values_iff split: if_splits)
qed

lemma value_after_remove:
  assumes "wf m" and "v' \<in> set (entry_values (remove_entry k m))"
  shows "v' \<in> set (entry_values m)"
proof -
  from assms obtain j where "lookup (remove_entry k m) j = Some v'"
    using values_iff wf_remove by blast
  then show ?thesis
    using assms(1) by (auto simp: lookup_remove values_iff split: if_splits)
qed

end

interpretation btree: ordered_map "[]" bt_get bt_insert bt_remove bt_values bt_keys bt_wf
  by unfold_locales (auto simp: in_bt_values sorted_bt_keys set_bt_keys bt_contains_def)

end
