(* ===== verification/Json.thy ===== *)
theory Json
  imports BTree_Map
begin

text \<open>
  The JSON values of \<open>serde_json\<close> that the repository stores and reads. A number is an
  unsigned or a negative integer or a finite double \<open>m * 2 ^ e\<close> in lowest terms (\<open>m\<close> odd, or
  both parts zero), so that equality of values is equality of the datatype. An object is the
  ordered map \<open>BTreeMap<String, Value>\<close> (the crate is built without \<open>preserve_order\<close>).
\<close>

datatype json_number = PosInt nat | NegInt int | Float int int

datatype json =
    JNull
  | JBool bool
  | JNum json_number
  | JStr string
  | JArr "json list"
  | JObj "(string \<times> json) list"

fun as_str :: "json \<Rightarrow> string option" where
  "as_str (JStr s) = Some s"
| "as_str _ = None"

fun as_array :: "json \<Rightarrow> json list option" where
  "as_array (JArr xs) = Some xs"
| "as_array _ = None"

fun as_object :: "json \<Rightarrow> (string \<times> json) list option" where
  "as_object (JObj m) = Some m"
| "as_object _ = None"

text \<open>\<open>Value::get\<close> with a string key: only an object has members.\<close>

fun jget :: "json \<Rightarrow> string \<Rightarrow> json option" where
  "jget (JObj m) k = bt_get m k"
| "jget _ k = None"

text \<open>An object literal \<open>json!({...})\<close> inserts its members one after another.\<close>

definition jobj :: "(string \<times> json) list \<Rightarrow> json" where
  "jobj es = JObj (foldl (\<lambda>m (k, v). bt_insert k v m) [] es)"

text \<open>
  \<open>value[key] = item\<close>: an object gains or replaces the member, \<open>null\<close> becomes an object,
  every other value panics.
\<close>

fun jset :: "json \<Rightarrow> string \<Rightarrow> json \<Rightarrow> ('e, json) res" where
  "jset (JObj m) k v = Ok (JObj (bt_insert k v m))"
| "jset JNull k v = Ok (JObj (bt_insert k v []))"
| "jset _ k v = Panic"

definition jstring_at :: "json \<Rightarrow> string \<Rightarrow> string option" where
  "jstring_at v k = Option.bind (jget v k) as_str"

text \<open>\<open>value.get(k).and_then(Value::as_array).into_iter().flatten()\<close>.\<close>

definition jarray_at :: "json \<Rightarrow> string \<Rightarrow> json list" where
  "jarray_at v k = (case Option.bind (jget v k) as_array of None \<Rightarrow> [] | Some xs \<Rightarrow> xs)"

section \<open>JSON pointers\<close>

text \<open>
  \<open>Value::pointer\<close> (RFC 6901): the reference tokens are the pieces after the first slash,
  with \<open>~1\<close> and \<open>~0\<close> unescaped in that order; a token selects an object member, or an
  array element when it is a decimal index without a sign or a leading zero.
\<close>

fun replace_tilde :: "char \<Rightarrow> char \<Rightarrow> string \<Rightarrow> string" where
  "replace_tilde d r (a # b # s) =
     (if a = CHR ''~'' \<and> b = d then r # replace_tilde d r s else a # replace_tilde d r (b # s))"
| "replace_tilde d r s = s"

definition unescape_token :: "string \<Rightarrow> string" where
  "unescape_token s = replace_tilde (CHR ''0'') (CHR ''~'') (replace_tilde (CHR ''1'') (CHR ''/'') s)"

definition parse_index :: "string \<Rightarrow> nat option" where
  "parse_index s =
     (if starts_with s ''+'' \<or> (starts_with s ''0'' \<and> length s \<noteq> 1) then None else parse_u64 s)"

fun pointer_step :: "json \<Rightarrow> string \<Rightarrow> json option" where
  "pointer_step (JObj m) t = bt_get m t"
| "pointer_step (JArr xs) t = Option.bind (parse_index t) (get_at xs)"
| "pointer_step _ t = None"

fun pointer_tokens :: "json \<Rightarrow> string list \<Rightarrow> json option" where
  "pointer_tokens v [] = Some v"
| "pointer_tokens v (t # ts) = Option.bind (pointer_step v t) (\<lambda>w. pointer_tokens w ts)"

definition jpointer :: "json \<Rightarrow> string \<Rightarrow> json option" where
  "jpointer v p =
     (case p of
        [] \<Rightarrow> Some v
      | c # cs \<Rightarrow> if c = CHR ''/'' then pointer_tokens v (map unescape_token (split_on (CHR ''/'') cs))
                  else None)"

text \<open>\<open>id.replace('~', "~0").replace('/', "~1")\<close>, the inverse of the unescaping above.\<close>

definition replace_char :: "char \<Rightarrow> string \<Rightarrow> string \<Rightarrow> string" where
  "replace_char c r s = concat (map (\<lambda>x. if x = c then r else [x]) s)"

definition escape_token :: "string \<Rightarrow> string" where
  "escape_token s = replace_char (CHR ''/'') ''~1'' (replace_char (CHR ''~'') ''~0'' s)"

section \<open>Lemmas\<close>

lemma jget_jobj: "jget (jobj es) k = map_of (rev es) k"
proof -
  have "bt_get (foldl (\<lambda>m (k, v). bt_insert k v m) m0 es) k =
        (case map_of (rev es) k of None \<Rightarrow> bt_get m0 k | Some v \<Rightarrow> Some v)" for m0
    by (induction es arbitrary: m0) (auto simp: map_add_def split: option.splits)
  then show ?thesis by (auto simp: jobj_def split: option.splits)
qed

lemma escape_token_simps [simp]:
  "escape_token [] = []"
  "escape_token (c # s) =
     (if c = CHR ''~'' then ''~0'' else if c = CHR ''/'' then ''~1'' else [c]) @ escape_token s"
  by (auto simp: escape_token_def replace_char_def)

lemma escape_token_no_slash: "CHR ''/'' \<notin> set (escape_token s)"
  by (induction s) auto

text \<open>After the first pass only the escapes of \<open>~\<close> are left.\<close>

lemma unescape_pass1:
  "replace_tilde (CHR ''1'') (CHR ''/'') (escape_token s) = replace_char (CHR ''~'') ''~0'' s"
proof (induction s)
  case (Cons c s)
  have tail: "replace_tilde (CHR ''1'') (CHR ''/'') (c # escape_token s) =
      c # replace_char (CHR ''~'') ''~0'' s"
    if "c \<noteq> CHR ''~''" for c
    using that Cons.IH by (cases "escape_token s") (auto simp: replace_char_def)
  have "replace_tilde (CHR ''1'') (CHR ''/'') (CHR ''~'' # CHR ''0'' # escape_token s) =
      CHR ''~'' # CHR ''0'' # replace_char (CHR ''~'') ''~0'' s"
    using tail [of "CHR ''0''"] by simp
  with Cons.IH tail [of c] show ?case by (auto simp: replace_char_def)
qed (simp add: replace_char_def)

lemma replace_tilde_Cons:
  "a \<noteq> CHR ''~'' \<Longrightarrow> replace_tilde d r (a # s) = a # replace_tilde d r s"
  by (cases s) auto

lemma unescape_pass2:
  "replace_tilde (CHR ''0'') (CHR ''~'') (replace_char (CHR ''~'') ''~0'' s) = s"
  by (induction s) (auto simp: replace_char_def replace_tilde_Cons)

lemma unescape_escape [simp]: "unescape_token (escape_token s) = s"
  by (simp add: unescape_token_def unescape_pass1 unescape_pass2)

lemma jset_get: "jset v k x = Ok w \<Longrightarrow> jget w k = Some x"
  by (cases v) auto

end
