(* ===== verification/Runtime_Model.thy ===== *)
theory Runtime_Model
  imports Json
begin

text \<open>
  The data of the durable runtime (\<open>crates/mdbase-runtime/src/model.rs\<close>, \<open>store.rs\<close>,
  \<open>error.rs\<close>): planned runs, run records, attempts, timers, claims and outcomes, and the
  operations the data model itself defines: admission of a plan as a run record,
  cancellation, and the portable \<open>runtime_run\<close> and \<open>runtime_timer\<close> records.

  An index or a length (\<open>usize\<close>) is a \<open>nat\<close>. The journal cursor is a \<open>nat\<close> too: the store
  keeps one dedupe entry per cursor ever issued, so a \<open>u64\<close> cursor cannot wrap before memory
  is exhausted. A run's revision is a \<open>u64\<close> that is incremented without a check, so it is a
  64-bit word; a timer generation is checked against its ceiling before it is incremented.
\<close>

section \<open>Errors\<close>

datatype runtime_error =
    Diagnostic string string
  | StoreError string
  | ProviderError string
  | SerializationError string
  | ClockError string

type_synonym 'a rresult = "(runtime_error, 'a) res"

fun error_code :: "runtime_error \<Rightarrow> string" where
  "error_code (Diagnostic code message) = code"
| "error_code (StoreError _) = ''runtime_store_error''"
| "error_code (ProviderError _) = ''action_provider_error''"
| "error_code (SerializationError _) = ''runtime_serialization_error''"
| "error_code (ClockError _) = ''runtime_clock_error''"

text \<open>The \<open>Display\<close> text that \<open>thiserror\<close> derives from the attributes.\<close>

fun error_text :: "runtime_error \<Rightarrow> string" where
  "error_text (Diagnostic code message) = code @ '': '' @ message"
| "error_text (StoreError m) = ''runtime store error: '' @ m"
| "error_text (ProviderError m) = ''runtime provider error: '' @ m"
| "error_text (SerializationError m) = ''runtime serialization error: '' @ m"
| "error_text (ClockError m) = ''runtime clock error: '' @ m"

record runtime_failure =
  rf_code :: string
  rf_message :: string

definition runtime_failure_new :: "string \<Rightarrow> string \<Rightarrow> runtime_failure" where
  "runtime_failure_new code message = \<lparr> rf_code = code, rf_message = message \<rparr>"

section \<open>Contracts and identities of the interoperability crate\<close>

text \<open>
  The structs of the external crate \<open>mdbase_interop\<close> that the runtime stores, field by field
  as the runtime constructs and reads them. How the crate serializes them is a parameter.
\<close>

record exact_contract_reference =
  ecr_id :: string
  ecr_version :: string
  ecr_digest :: string

record implementation_identity =
  ii_application :: string
  ii_implementation :: string
  ii_version :: string
  ii_instance_id :: "string option"

record interop_ser =
  ser_contract :: "exact_contract_reference \<Rightarrow> json"
  ser_identity :: "implementation_identity \<Rightarrow> json"

section \<open>Plans\<close>

datatype concurrency_policy = Skip | Queue | Replace | Allow

datatype on_error = Stop | Continue

record event_journal_entry =
  ej_cursor :: nat
  ej_source_runtime :: string
  ej_event_id :: string
  ej_envelope :: json
  ej_received_at :: time

record planned_for_each =
  pf_items :: json
  pf_binding :: string

record planned_step =
  ps_id :: string
  ps_action :: string
  ps_action_version :: string
  ps_action_digest :: string
  ps_action_contract :: json
  ps_provider :: implementation_identity
  ps_provider_declaration_digest :: string
  ps_handler_id :: string
  ps_condition :: "string option"
  ps_input :: json
  ps_for_each :: "planned_for_each option"
  ps_idempotent :: bool
  ps_cooperative_cancellation :: bool

record planned_run =
  pr_id :: string
  pr_workflow :: string
  pr_workflow_version :: string
  pr_workflow_revision :: string
  pr_catalog_revision :: string
  pr_policy_id :: string
  pr_policy_revision :: string
  pr_trigger :: string
  pr_event_id :: string
  pr_event_type :: string
  pr_event_contract :: exact_contract_reference
  pr_event_source :: implementation_identity
  pr_source_declaration_digest :: string
  pr_event_cursor :: nat
  pr_event :: json
  pr_executor :: string
  pr_idempotency_key :: string
  pr_idempotency_scope :: string
  pr_concurrency_group :: string
  pr_concurrency_policy :: concurrency_policy
  pr_replacement_blockers :: "string list"
  pr_on_error :: on_error
  pr_not_before :: time
  pr_timeout_at :: "time option"
  pr_minimum_interval_ms :: "nat option"
  pr_vars :: json
  pr_workflow_value :: json
  pr_steps :: "planned_step list"
  pr_created_at :: time

section \<open>Runs\<close>

datatype run_status =
    RunQueued | RunRunning | RunWaiting | RunSucceeded | RunFailed | RunCancelled | RunIndeterminate

fun terminal :: "run_status \<Rightarrow> bool" where
  "terminal RunSucceeded = True"
| "terminal RunFailed = True"
| "terminal RunCancelled = True"
| "terminal RunIndeterminate = True"
| "terminal _ = False"

fun occupies_concurrency_group :: "run_status \<Rightarrow> bool" where
  "occupies_concurrency_group RunQueued = True"
| "occupies_concurrency_group RunRunning = True"
| "occupies_concurrency_group RunWaiting = True"
| "occupies_concurrency_group _ = False"

datatype step_status =
    StepPending | StepRunning | StepSucceeded | StepFailed | StepSkipped | StepCancelled
  | StepTimedOut | StepIndeterminate

datatype attempt_status =
    AttemptDispatching | AttemptSucceeded | AttemptFailed | AttemptIndeterminate

record action_attempt =
  aa_step_id :: string
  aa_item_index :: "nat option"
  aa_invocation_id :: string
  aa_action :: string
  aa_action_version :: string
  aa_attempt :: "32 word"
  aa_status :: attempt_status
  aa_idempotent :: bool
  aa_input :: json
  aa_output :: "json option"
  aa_receipt :: "json option"
  aa_error :: "runtime_failure option"
  aa_started_at :: time
  aa_finished_at :: "time option"

record step_record =
  sr_id :: string
  sr_action :: string
  sr_status :: step_status
  sr_outputs :: "json list"
  sr_error :: "runtime_failure option"
  sr_started_at :: "time option"
  sr_finished_at :: "time option"

record run_record =
  rr_plan :: planned_run
  rr_status :: run_status
  rr_revision :: "64 word"
  rr_next_step :: nat
  rr_steps :: "step_record list"
  rr_attempts :: "action_attempt list"
  rr_active_attempt :: "nat option"
  rr_cancel_requested_at :: "time option"
  rr_created_at :: time
  rr_started_at :: "time option"
  rr_updated_at :: time
  rr_finished_at :: "time option"

abbreviation run_id :: "run_record \<Rightarrow> string" where
  "run_id r \<equiv> pr_id (rr_plan r)"

definition pending_step :: "planned_step \<Rightarrow> step_record" where
  "pending_step s =
     \<lparr> sr_id = ps_id s, sr_action = ps_action s, sr_status = StepPending, sr_outputs = [],
       sr_error = None, sr_started_at = None, sr_finished_at = None \<rparr>"

definition admitted :: "planned_run \<Rightarrow> run_record" where
  "admitted plan =
     \<lparr> rr_plan = plan, rr_status = RunQueued, rr_revision = 0, rr_next_step = 0,
       rr_steps = map pending_step (pr_steps plan), rr_attempts = [], rr_active_attempt = None,
       rr_cancel_requested_at = None, rr_created_at = pr_created_at plan, rr_started_at = None,
       rr_updated_at = pr_created_at plan, rr_finished_at = None \<rparr>"

text \<open>A pending step becomes skipped; every other step keeps its state.\<close>

definition skip_pending :: "time \<Rightarrow> step_record \<Rightarrow> step_record" where
  "skip_pending now s =
     (if sr_status s = StepPending
      then s\<lparr>sr_status := StepSkipped, sr_finished_at := Some now\<rparr> else s)"

definition cancel_step :: "time \<Rightarrow> step_record \<Rightarrow> step_record" where
  "cancel_step now s = s\<lparr>sr_status := StepCancelled, sr_finished_at := Some now\<rparr>"

text \<open>\<open>if let Some(step) = steps.get_mut(i) { ... }\<close>.\<close>

definition modify_at :: "nat \<Rightarrow> ('a \<Rightarrow> 'a) \<Rightarrow> 'a list \<Rightarrow> 'a list" where
  "modify_at i f xs = (if i < length xs then xs[i := f (xs ! i)] else xs)"

definition request_cancel_run :: "time \<Rightarrow> run_record \<Rightarrow> run_record \<times> bool" where
  "request_cancel_run now r =
     (if terminal (rr_status r) then (r, False)
      else
        let r1 = r\<lparr>rr_cancel_requested_at := get_or_insert (rr_cancel_requested_at r) now,
                   rr_updated_at := now\<rparr>
        in if rr_status r1 = RunQueued \<or> rr_status r1 = RunWaiting
           then
             let current = rr_next_step r1;
                 steps1 = modify_at current (cancel_step now) (rr_steps r1);
                 steps2 = map_from (current + 1) (skip_pending now) steps1
             in (r1\<lparr>rr_steps := steps2, rr_next_step := length steps2,
                    rr_status := RunCancelled, rr_finished_at := Some now\<rparr>, True)
           else (r1, True))"

section \<open>Dispatches and outcomes\<close>

datatype dispatch_outcome = NotApplied | Unknown

record dispatch_failure =
  df_code :: string
  df_message :: string
  df_outcome :: dispatch_outcome

record cancellation_outcome =
  co_accepted :: bool
  co_terminal :: bool
  co_invocation_id :: "string option"
  co_provider_notified :: bool
  co_provider_error :: "runtime_failure option"

record action_invocation =
  ai_kind :: string
  ai_profile_version :: string
  ai_invocation_id :: string
  ai_attempt_id :: string
  ai_request_id :: string
  ai_contract :: exact_contract_reference
  ai_caller :: implementation_identity
  ai_provider :: implementation_identity
  ai_provider_declaration_digest :: string
  ai_handler_id :: string
  ai_admitted_at :: string
  ai_correlation_id :: "string option"
  ai_causation_id :: "string option"
  ai_subject :: "string option"
  ai_idempotency_key :: "string option"
  ai_deadline :: "string option"
  ai_authorization_context :: "json option"
  ai_input :: json

record action_dispatch =
  ad_invocation :: action_invocation
  ad_run_id :: string
  ad_workflow :: string
  ad_step_id :: string
  ad_item_index :: "nat option"
  ad_invocation_id :: string
  ad_attempt :: "32 word"
  ad_action :: string
  ad_contract :: exact_contract_reference
  ad_provider :: implementation_identity
  ad_provider_declaration_digest :: string
  ad_handler_id :: string
  ad_input :: json
  ad_event :: json
  ad_executor :: string
  ad_correlation_id :: string
  ad_causation_id :: string
  ad_deadline :: "time option"

section \<open>Timers\<close>

datatype timer_status = TimerScheduled | TimerFiring | TimerFired | TimerCancelled

record timer_record =
  tr_id :: string
  tr_generation :: nat
  tr_status :: timer_status
  tr_fire_at :: time
  tr_event_contract :: exact_contract_reference
  tr_event_source :: implementation_identity
  tr_source_uri :: string
  tr_subject :: "string option"
  tr_data :: json
  tr_created_at :: time
  tr_updated_at :: time
  tr_fired_at :: "time option"

text \<open>\<open>matches!(status, TimerStatus::Scheduled | TimerStatus::Firing)\<close>.\<close>

definition timer_active :: "timer_status \<Rightarrow> bool" where
  "timer_active s = (s = TimerScheduled \<or> s = TimerFiring)"

section \<open>Claims, events and pages of the store interface\<close>

record prepared_event =
  pe_source_runtime :: string
  pe_event_id :: string
  pe_envelope :: json
  pe_received_at :: time
  pe_runs :: "planned_run list"

record admit_outcome =
  ao_cursor :: nat
  ao_duplicate :: bool
  ao_admitted_run_ids :: "string list"
  ao_skipped_run_ids :: "string list"
  ao_cancellation_requested_run_ids :: "string list"

record claim =
  cl_run :: run_record
  cl_worker :: string
  cl_token :: string
  cl_expires_at :: time

record timer_claim =
  tc_timer :: timer_record
  tc_worker :: string
  tc_token :: string
  tc_expires_at :: time

record timer_reconcile_outcome =
  to_timers :: "timer_record list"
  to_cancelled_ids :: "string list"

record event_page =
  ep_events :: "event_journal_entry list"
  ep_retained_after :: nat
  ep_head :: nat
  ep_has_more :: bool
  ep_reset_required :: bool

record store_snapshot =
  ss_events :: "event_journal_entry list"
  ss_runs :: "run_record list"
  ss_timers :: "timer_record list"

section \<open>Portable records\<close>

text \<open>\<open>serde(rename_all = "snake_case")\<close> on the status enums.\<close>

fun run_status_name :: "run_status \<Rightarrow> string" where
  "run_status_name RunQueued = ''queued''"
| "run_status_name RunRunning = ''running''"
| "run_status_name RunWaiting = ''waiting''"
| "run_status_name RunSucceeded = ''succeeded''"
| "run_status_name RunFailed = ''failed''"
| "run_status_name RunCancelled = ''cancelled''"
| "run_status_name RunIndeterminate = ''indeterminate''"

fun step_status_name :: "step_status \<Rightarrow> string" where
  "step_status_name StepPending = ''pending''"
| "step_status_name StepRunning = ''running''"
| "step_status_name StepSucceeded = ''succeeded''"
| "step_status_name StepFailed = ''failed''"
| "step_status_name StepSkipped = ''skipped''"
| "step_status_name StepCancelled = ''cancelled''"
| "step_status_name StepTimedOut = ''timed_out''"
| "step_status_name StepIndeterminate = ''indeterminate''"

fun timer_status_name :: "timer_status \<Rightarrow> string" where
  "timer_status_name TimerScheduled = ''scheduled''"
| "timer_status_name TimerFiring = ''firing''"
| "timer_status_name TimerFired = ''fired''"
| "timer_status_name TimerCancelled = ''cancelled''"

definition insert_option :: "string \<Rightarrow> json option \<Rightarrow> (string \<times> json) list \<Rightarrow> (string \<times> json) list" where
  "insert_option name v m = (case v of None \<Rightarrow> m | Some x \<Rightarrow> bt_insert name x m)"

definition map_from_iter :: "(string \<times> json) list \<Rightarrow> (string \<times> json) list" where
  "map_from_iter es = foldl (\<lambda>m (k, v). bt_insert k v m) [] es"

definition admitted_plan_step :: "interop_ser \<Rightarrow> planned_step \<Rightarrow> json" where
  "admitted_plan_step io s =
     jobj [(''id'', JStr (ps_id s)),
           (''contract'',
             jobj [(''id'', JStr (ps_action s)), (''version'', JStr (ps_action_version s)),
                   (''digest'', JStr (ps_action_digest s))]),
           (''provider'', ser_identity io (ps_provider s)),
           (''provider_declaration_digest'', JStr (ps_provider_declaration_digest s)),
           (''handler_id'', JStr (ps_handler_id s))]"

definition admitted_plan_value :: "interop_ser \<Rightarrow> planned_run \<Rightarrow> json" where
  "admitted_plan_value io p =
     jobj [(''profile_version'', JStr ''0.2''),
           (''workflow_revision'', JStr (pr_workflow_revision p)),
           (''event'',
             jobj [(''contract'', ser_contract io (pr_event_contract p)),
                   (''source'', ser_identity io (pr_event_source p)),
                   (''source_declaration_digest'', JStr (pr_source_declaration_digest p))]),
           (''steps'', JArr (map (admitted_plan_step io) (pr_steps p)))]"

definition run_materialized_contract :: "chrono_ops \<Rightarrow> interop_ser \<Rightarrow> run_record \<Rightarrow> json" where
  "run_materialized_contract ch io r =
     (let p = rr_plan r;
          at = (\<lambda>t. JStr (dt_serialize ch t));
          value0 = map_from_iter
            [(''type'', JStr ''runtime_run''), (''id'', JStr (pr_id p)),
             (''workflow_id'', JStr (pr_workflow p)),
             (''workflow_version'', JStr (pr_workflow_version p)),
             (''workflow_revision'', JStr (pr_workflow_revision p)),
             (''event_contract'', ser_contract io (pr_event_contract p)),
             (''event_source'', ser_identity io (pr_event_source p)),
             (''trigger_id'', JStr (pr_trigger p)), (''event_id'', JStr (pr_event_id p)),
             (''policy_id'', JStr (pr_policy_id p)),
             (''policy_revision'', JStr (pr_policy_revision p)),
             (''executor'', JStr (pr_executor p)),
             (''idempotency_key'', JStr (pr_idempotency_key p)),
             (''concurrency_group'', JStr (pr_concurrency_group p)),
             (''status'', JStr (run_status_name (rr_status r))),
             (''created_at'', at (rr_created_at r)), (''updated_at'', at (rr_updated_at r))];
          value1 = (if 0 < pr_event_cursor p
                    then bt_insert ''event_cursor'' (JNum (PosInt (pr_event_cursor p))) value0
                    else value0);
          value2 = bt_insert ''admitted_plan'' (admitted_plan_value io p) value1;
          value3 = insert_option ''timeout_at'' (map_option at (pr_timeout_at p)) value2;
          value4 = insert_option ''started_at'' (map_option at (rr_started_at r)) value3;
          value5 = insert_option ''finished_at'' (map_option at (rr_finished_at r)) value4
      in JObj value5)"

definition timer_materialized_contract :: "chrono_ops \<Rightarrow> interop_ser \<Rightarrow> timer_record \<Rightarrow> json" where
  "timer_materialized_contract ch io t =
     (let at = (\<lambda>x. JStr (dt_serialize ch x));
          event = insert_option ''subject'' (map_option JStr (tr_subject t))
            (map_from_iter [(''contract'', ser_contract io (tr_event_contract t)),
                            (''data'', tr_data t)]);
          value = map_from_iter
            [(''type'', JStr ''runtime_timer''), (''id'', JStr (tr_id t)),
             (''generation'', JNum (PosInt (tr_generation t))),
             (''status'', JStr (timer_status_name (tr_status t))),
             (''fire_at'', at (tr_fire_at t)), (''event'', JObj event),
             (''missed_run_policy'', JStr ''fire_once''),
             (''created_at'', at (tr_created_at t)), (''updated_at'', at (tr_updated_at t))]
      in JObj (insert_option ''fired_at'' (map_option at (tr_fired_at t)) value))"

section \<open>Lemmas on the data model\<close>

lemma occupies_iff_not_terminal: "occupies_concurrency_group s \<longleftrightarrow> \<not> terminal s"
  by (cases s) simp_all

lemma length_modify_at [simp]: "length (modify_at i f xs) = length xs"
  by (simp add: modify_at_def)

lemma nth_modify_at:
  "j < length xs \<Longrightarrow> modify_at i f xs ! j = (if j = i then f (xs ! j) else xs ! j)"
  by (auto simp: modify_at_def)

lemma skip_pending_frame [run_frame, simp]:
  "sr_id (skip_pending now s) = sr_id s"
  "sr_outputs (skip_pending now s) = sr_outputs s"
  by (simp_all add: skip_pending_def)

lemma skip_pending_status [simp]:
  "sr_status (skip_pending now s) =
     (if sr_status s = StepPending then StepSkipped else sr_status s)"
  by (simp add: skip_pending_def)

lemma admitted_simps [simp]:
  "rr_plan (admitted p) = p" "rr_status (admitted p) = RunQueued"
  "rr_revision (admitted p) = 0" "rr_next_step (admitted p) = 0"
  "rr_attempts (admitted p) = []" "rr_active_attempt (admitted p) = None"
  "rr_cancel_requested_at (admitted p) = None" "rr_created_at (admitted p) = pr_created_at p"
  "length (rr_steps (admitted p)) = length (pr_steps p)"
  by (simp_all add: admitted_def)

text \<open>
  The shape every run record has between store operations: one step record per planned step,
  the step counter inside the plan, the active attempt inside the attempt list and, while the run is
  going on, being dispatched for the current step, and the status and the finish time in step.
\<close>

definition run_wf :: "run_record \<Rightarrow> bool" where
  "run_wf r \<longleftrightarrow>
     length (rr_steps r) = length (pr_steps (rr_plan r)) \<and>
     rr_next_step r \<le> length (rr_steps r) \<and>
     (\<forall>i. rr_active_attempt r = Some i \<longrightarrow> i < length (rr_attempts r)) \<and>
     (\<forall>i. rr_active_attempt r = Some i \<longrightarrow> \<not> terminal (rr_status r) \<longrightarrow>
        rr_next_step r < length (rr_steps r) \<and> aa_status (rr_attempts r ! i) = AttemptDispatching) \<and>
     (terminal (rr_status r) \<longrightarrow> rr_finished_at r \<noteq> None)"

lemma admitted_wf [simp]: "run_wf (admitted p)"
  by (simp add: run_wf_def)

lemma request_cancel_run_frame [run_frame]:
  assumes "request_cancel_run now r = (r', b)"
  shows "rr_plan r' = rr_plan r" and "rr_attempts r' = rr_attempts r"
    and "rr_active_attempt r' = rr_active_attempt r" and "rr_revision r' = rr_revision r"
    and "rr_created_at r' = rr_created_at r" and "length (rr_steps r') = length (rr_steps r)"
  using assms by (auto simp: request_cancel_run_def Let_def split: if_splits)

lemma request_cancel_run_wf:
  "request_cancel_run now r = (r', b) \<Longrightarrow> run_wf r \<Longrightarrow> run_wf r'"
  by (auto simp: request_cancel_run_def run_wf_def Let_def split: if_splits)

lemma request_cancel_run_status:
  "request_cancel_run now r = (r', b) \<Longrightarrow>
     rr_status r' = (if rr_status r = RunQueued \<or> rr_status r = RunWaiting
                     then RunCancelled else rr_status r)"
  by (auto simp: request_cancel_run_def Let_def split: if_splits)

lemma request_cancel_run_accepts:
  "snd (request_cancel_run now r) \<longleftrightarrow> \<not> terminal (rr_status r)"
  by (auto simp: request_cancel_run_def Let_def)

end
