(* ===== verification/Timer_Rules.thy ===== *)
theory Timer_Rules
  imports Runtime_Model
begin

text \<open>
  The pure rules of \<open>crates/mdbase-runtime/src/timer.rs\<close>: when a stored timer already is the
  desired one, and which generation the next schedule gets. Every store shares them.
\<close>

record timer_request =
  tq_id :: string
  tq_fire_at :: time
  tq_contract :: exact_contract_reference
  tq_source :: implementation_identity
  tq_source_uri :: string
  tq_subject :: "string option"
  tq_data :: json

definition timer_record_of :: "timer_request \<Rightarrow> time \<Rightarrow> timer_record" where
  "timer_record_of q now =
     \<lparr> tr_id = tq_id q, tr_generation = 0, tr_status = TimerScheduled, tr_fire_at = tq_fire_at q,
       tr_event_contract = tq_contract q, tr_event_source = tq_source q,
       tr_source_uri = tq_source_uri q, tr_subject = tq_subject q, tr_data = tq_data q,
       tr_created_at = now, tr_updated_at = now, tr_fired_at = None \<rparr>"

definition timer_matches :: "timer_record \<Rightarrow> timer_record \<Rightarrow> bool" where
  "timer_matches current desired \<longleftrightarrow>
     tr_status current \<noteq> TimerCancelled \<and>
     tr_fire_at current = tr_fire_at desired \<and>
     tr_event_contract current = tr_event_contract desired \<and>
     tr_event_source current = tr_event_source desired \<and>
     tr_source_uri current = tr_source_uri desired \<and>
     tr_subject current = tr_subject desired \<and>
     tr_data current = tr_data desired"

definition TIMER_GENERATION_MAX :: nat where
  "TIMER_GENERATION_MAX = 2 ^ 63 - 1"

definition next_timer_generation_value :: "timer_record option \<Rightarrow> string \<Rightarrow> nat rresult" where
  "next_timer_generation_value current tid =
     (let generation = (case current of None \<Rightarrow> 0 | Some t \<Rightarrow> tr_generation t) in
      if TIMER_GENERATION_MAX \<le> generation
      then Err (Diagnostic ''timer_generation_exhausted''
                  (''Timer '' @ tid @ '' exhausted its generation counter.''))
      else Ok (generation + 1))"

definition next_timer_generation ::
  "timer_record option \<Rightarrow> timer_record \<Rightarrow> time \<Rightarrow> timer_record rresult" where
  "next_timer_generation current desired now =
     bind_res (next_timer_generation_value current (tr_id desired)) (\<lambda>generation.
       let d1 = desired\<lparr>tr_generation := generation\<rparr>;
           d2 = (case current of None \<Rightarrow> d1 | Some c \<Rightarrow> d1\<lparr>tr_created_at := tr_created_at c\<rparr>)
       in Ok (d2\<lparr>tr_status := TimerScheduled, tr_updated_at := now, tr_fired_at := None\<rparr>))"

section \<open>Lemmas\<close>

text \<open>The generation a timer has in a store: 0 when it was never scheduled.\<close>

definition generation_of :: "timer_record option \<Rightarrow> nat" where
  "generation_of t = (case t of None \<Rightarrow> 0 | Some r \<Rightarrow> tr_generation r)"

lemma next_generation_value_Ok [simp]:
  "next_timer_generation_value current tid = Ok g \<longleftrightarrow>
     g = generation_of current + 1 \<and> g \<le> TIMER_GENERATION_MAX"
  by (auto simp: next_timer_generation_value_def generation_of_def Let_def split: option.splits)

lemma next_generation_value_not_panic [simp]:
  "next_timer_generation_value current tid \<noteq> Panic"
  by (simp add: next_timer_generation_value_def Let_def)

lemma next_timer_generation_Ok:
  assumes "next_timer_generation current desired now = Ok t"
  shows "tr_id t = tr_id desired" and "tr_generation t = generation_of current + 1"
    and "tr_status t = TimerScheduled" and "tr_updated_at t = now" and "tr_fired_at t = None"
    and "tr_generation t \<le> TIMER_GENERATION_MAX"
    and "tr_created_at t = (case current of None \<Rightarrow> tr_created_at desired | Some c \<Rightarrow> tr_created_at c)"
    and "timer_matches t desired"
  using assms by (auto simp: next_timer_generation_def timer_matches_def Let_def split: option.splits)

lemma next_timer_generation_not_panic [simp]: "next_timer_generation current desired now \<noteq> Panic"
  by (simp add: next_timer_generation_def bind_res_eq_Panic Let_def)

lemma next_timer_generation_Err:
  "next_timer_generation current desired now = Err e \<longleftrightarrow>
     TIMER_GENERATION_MAX \<le> generation_of current \<and>
     e = Diagnostic ''timer_generation_exhausted''
           (''Timer '' @ tr_id desired @ '' exhausted its generation counter.'')"
  by (auto simp: next_timer_generation_def next_timer_generation_value_def generation_of_def
      bind_res_eq_Err Let_def)

end
