(* ===== verification/Memory_Store.thy ===== *)
theory Memory_Store
  imports Timer_Rules
begin

text \<open>
  The in-memory runtime store of \<open>crates/mdbase-runtime/src/memory.rs\<close>. One \<open>Mutex\<close> guards
  the whole state, so every operation is one atomic transition \<open>mem_state \<Rightarrow> mem_state \<times> result\<close>;
  a panic while the lock is held poisons it (\<open>with_lock\<close>). \<open>Ulid::new()\<close> is an argument
  of the operations that mint a lease token.
\<close>

record lease =
  le_worker :: string
  le_token :: string
  le_expires_at :: time

record mem_state =
  ms_next_cursor :: nat
  ms_retained_after :: nat
  ms_events :: "event_journal_entry list"
  ms_event_index :: "(string \<times> string, nat) btree"
  ms_runs :: "(string, run_record) btree"
  ms_run_leases :: "(string, lease) btree"
  ms_timers :: "(string, timer_record) btree"
  ms_timer_leases :: "(string, lease) btree"

definition mem_empty :: mem_state where
  "mem_empty =
     \<lparr> ms_next_cursor = 0, ms_retained_after = 0, ms_events = [], ms_event_index = [],
       ms_runs = [], ms_run_leases = [], ms_timers = [], ms_timer_leases = [] \<rparr>"

section \<open>Scheduling rules\<close>

text \<open>
  The iterator's \<open>any\<close> stops at the first run that suppresses the plan; the addition of the
  interval to an instant is the one of the \<open>chrono\<close> crate, which panics out of range.
\<close>

fun interval_any :: "chrono_ops \<Rightarrow> planned_run \<Rightarrow> int \<Rightarrow> run_record list \<Rightarrow> bool rresult" where
  "interval_any ch plan delta [] = Ok False"
| "interval_any ch plan delta (run # runs) =
     (if pr_workflow (rr_plan run) = pr_workflow plan \<and> pr_trigger (rr_plan run) = pr_trigger plan
      then (case dt_add ch (pr_created_at (rr_plan run)) delta of
              None \<Rightarrow> Panic
            | Some t \<Rightarrow> if pr_created_at plan < t then Ok True
                        else interval_any ch plan delta runs)
      else interval_any ch plan delta runs)"

definition minimum_interval_suppresses :: "chrono_ops \<Rightarrow> mem_state \<Rightarrow> planned_run \<Rightarrow> bool rresult" where
  "minimum_interval_suppresses ch st plan =
     (case pr_minimum_interval_ms plan of
        None \<Rightarrow> Ok False
      | Some interval \<Rightarrow>
          interval_any ch plan (int (min interval i64_max) * 1000000) (bt_values (ms_runs st)))"

definition active_group_runs :: "mem_state \<Rightarrow> string \<Rightarrow> string list" where
  "active_group_runs st grp =
     map run_id (filter (\<lambda>run. pr_concurrency_group (rr_plan run) = grp \<and>
                               occupies_concurrency_group (rr_status run))
                        (bt_values (ms_runs st)))"

definition blocked_by_group :: "mem_state \<Rightarrow> run_record \<Rightarrow> bool" where
  "blocked_by_group st run \<longleftrightarrow>
     list_ex (\<lambda>other.
        run_id other \<noteq> run_id run \<and>
        pr_concurrency_group (rr_plan other) = pr_concurrency_group (rr_plan run) \<and>
        (rr_status other = RunRunning \<or> rr_status other = RunWaiting \<or>
         (rr_status other = RunQueued \<and>
          (pr_event_cursor (rr_plan other), run_id other) < (pr_event_cursor (rr_plan run), run_id run))))
      (bt_values (ms_runs st))"

definition blocked_by_indeterminate :: "mem_state \<Rightarrow> run_record \<Rightarrow> bool" where
  "blocked_by_indeterminate st run \<longleftrightarrow>
     list_ex (\<lambda>rid. case bt_get (ms_runs st) rid of
                      None \<Rightarrow> False
                    | Some blocker \<Rightarrow> rr_status blocker = RunIndeterminate)
      (pr_replacement_blockers (rr_plan run))"

definition group_is_runnable :: "mem_state \<Rightarrow> run_record \<Rightarrow> bool" where
  "group_is_runnable st run \<longleftrightarrow>
     pr_concurrency_policy (rr_plan run) = Allow \<or>
     (\<not> blocked_by_group st run \<and> \<not> blocked_by_indeterminate st run)"

definition validate_claim :: "mem_state \<Rightarrow> claim \<Rightarrow> unit rresult" where
  "validate_claim st c =
     (case bt_get (ms_run_leases st) (run_id (cl_run c)) of
        None \<Rightarrow> Err (Diagnostic ''stale_lease'' ''Run lease is absent.'')
      | Some lease \<Rightarrow>
          if le_worker lease \<noteq> cl_worker c \<or> le_token lease \<noteq> cl_token c
          then Err (Diagnostic ''stale_lease'' ''Run lease belongs to another worker.'')
          else Ok ())"

definition add_std_duration :: "chrono_ops \<Rightarrow> time \<Rightarrow> nat \<Rightarrow> time rresult" where
  "add_std_duration ch now duration =
     (case td_from_std ch duration of
        None \<Rightarrow> Err (ClockError ''lease duration is too large'')
      | Some delta \<Rightarrow> (case dt_add ch now delta of None \<Rightarrow> Panic | Some t \<Rightarrow> Ok t))"

section \<open>Admission\<close>

text \<open>Queued debounced runs of the same workflow, trigger and executor become obsolete.\<close>

definition obsolete_run :: "time \<Rightarrow> planned_run \<Rightarrow> run_record \<Rightarrow> bool" where
  "obsolete_run received plan run \<longleftrightarrow>
     rr_status run = RunQueued \<and>
     pr_workflow (rr_plan run) = pr_workflow plan \<and>
     pr_trigger (rr_plan run) = pr_trigger plan \<and>
     pr_executor (rr_plan run) = pr_executor plan \<and>
     received < pr_not_before (rr_plan run)"

definition remove_run :: "string \<Rightarrow> mem_state \<Rightarrow> mem_state" where
  "remove_run rid st =
     st\<lparr>ms_runs := bt_remove rid (ms_runs st), ms_run_leases := bt_remove rid (ms_run_leases st)\<rparr>"

definition drop_obsolete :: "time \<Rightarrow> planned_run \<Rightarrow> mem_state \<Rightarrow> mem_state" where
  "drop_obsolete received plan st =
     (if received < pr_not_before plan
      then foldl (\<lambda>s rid. remove_run rid s) st
             (map run_id (filter (obsolete_run received plan) (bt_values (ms_runs st))))
      else st)"

definition idempotency_taken :: "mem_state \<Rightarrow> planned_run \<Rightarrow> bool" where
  "idempotency_taken st plan \<longleftrightarrow>
     list_ex (\<lambda>run. pr_idempotency_scope (rr_plan run) = pr_idempotency_scope plan \<and>
                    pr_idempotency_key (rr_plan run) = pr_idempotency_key plan)
       (bt_values (ms_runs st))"

text \<open>One iteration of the loop that cancels the active runs of a replaced group.\<close>

definition cancel_active :: "time \<Rightarrow> mem_state \<times> string list \<Rightarrow> string \<Rightarrow> mem_state \<times> string list" where
  "cancel_active received acc rid =
     (let (st, cancelled) = acc in
      case bt_get (ms_runs st) rid of
        None \<Rightarrow> (st, cancelled)
      | Some run \<Rightarrow>
          let (run1, accepted) = request_cancel_run received run;
              run2 = (if accepted then run1\<lparr>rr_revision := rr_revision run1 + 1\<rparr> else run1);
              cancelled2 = (if accepted then cancelled @ [rid] else cancelled);
              st1 = st\<lparr>ms_runs := bt_insert rid run2 (ms_runs st)\<rparr>;
              st2 = (if terminal (rr_status run2)
                     then st1\<lparr>ms_run_leases := bt_remove rid (ms_run_leases st1)\<rparr> else st1)
          in (st2, cancelled2))"

text \<open>The accumulators of the loop over \<open>event.runs\<close>.\<close>

record admit_acc =
  ac_state :: mem_state
  ac_admitted :: "string list"
  ac_skipped :: "string list"
  ac_cancelled :: "string list"

definition admit_plan :: "chrono_ops \<Rightarrow> time \<Rightarrow> nat \<Rightarrow> planned_run \<Rightarrow> admit_acc \<Rightarrow> admit_acc rresult" where
  "admit_plan ch received cursor plan0 acc =
     (let plan = plan0\<lparr>pr_event_cursor := cursor\<rparr>;
          skip = (\<lambda>a. Ok (a\<lparr>ac_skipped := ac_skipped a @ [pr_id plan]\<rparr>)) in
      bind_res (minimum_interval_suppresses ch (ac_state acc) plan) (\<lambda>suppressed.
        if suppressed then skip acc
        else
          let st1 = drop_obsolete received plan (ac_state acc);
              acc1 = acc\<lparr>ac_state := st1\<rparr> in
          if idempotency_taken st1 plan then skip acc1
          else
            let active = active_group_runs st1 (pr_concurrency_group plan) in
            if pr_concurrency_policy plan = Skip \<and> active \<noteq> [] then skip acc1
            else
              let plan2 = (if pr_concurrency_policy plan = Replace
                           then plan\<lparr>pr_replacement_blockers := active\<rparr> else plan);
                  (st2, cancelled2) = (if pr_concurrency_policy plan = Replace
                           then foldl (cancel_active received) (st1, ac_cancelled acc) active
                           else (st1, ac_cancelled acc))
              in Ok (acc1\<lparr>ac_state := st2\<lparr>ms_runs := bt_insert (pr_id plan2) (admitted plan2) (ms_runs st2)\<rparr>,
                          ac_admitted := ac_admitted acc @ [pr_id plan2],
                          ac_cancelled := cancelled2\<rparr>)))"

fun admit_plans :: "chrono_ops \<Rightarrow> time \<Rightarrow> nat \<Rightarrow> planned_run list \<Rightarrow> admit_acc \<Rightarrow> admit_acc rresult" where
  "admit_plans ch received cursor [] acc = Ok acc"
| "admit_plans ch received cursor (p # ps) acc =
     bind_res (admit_plan ch received cursor p acc) (admit_plans ch received cursor ps)"

definition journal_event :: "prepared_event \<Rightarrow> mem_state \<Rightarrow> mem_state" where
  "journal_event event st =
     (let cursor = ms_next_cursor st + 1 in
      st\<lparr>ms_next_cursor := cursor,
         ms_events := ms_events st @
           [\<lparr> ej_cursor = cursor, ej_source_runtime = pe_source_runtime event,
              ej_event_id = pe_event_id event, ej_envelope = pe_envelope event,
              ej_received_at = pe_received_at event \<rparr>],
         ms_event_index :=
           bt_insert (pe_source_runtime event, pe_event_id event) cursor (ms_event_index st)\<rparr>)"

definition admit :: "chrono_ops \<Rightarrow> prepared_event \<Rightarrow> mem_state \<Rightarrow> (mem_state \<times> admit_outcome) rresult" where
  "admit ch event st =
     (case bt_get (ms_event_index st) (pe_source_runtime event, pe_event_id event) of
        Some cursor \<Rightarrow>
          Ok (st, \<lparr> ao_cursor = cursor, ao_duplicate = True, ao_admitted_run_ids = [],
                    ao_skipped_run_ids = [], ao_cancellation_requested_run_ids = [] \<rparr>)
      | None \<Rightarrow>
          let st1 = journal_event event st;
              cursor = ms_next_cursor st1 in
          bind_res (admit_plans ch (pe_received_at event) cursor (pe_runs event)
                     \<lparr> ac_state = st1, ac_admitted = [], ac_skipped = [], ac_cancelled = [] \<rparr>)
            (\<lambda>acc. Ok (ac_state acc,
               \<lparr> ao_cursor = cursor, ao_duplicate = False,
                 ao_admitted_run_ids = ac_admitted acc, ao_skipped_run_ids = ac_skipped acc,
                 ao_cancellation_requested_run_ids = sort_dedup (ac_cancelled acc) \<rparr>)))"

section \<open>Runs\<close>

definition mem_admit_event ::
  "chrono_ops \<Rightarrow> prepared_event \<Rightarrow> mem_state \<Rightarrow> mem_state \<times> admit_outcome rresult" where
  "mem_admit_event ch event st =
     (case admit ch event st of
        Ok (st1, outcome) \<Rightarrow> (st1, Ok outcome)
      | Err e \<Rightarrow> (st, Err e)
      | Panic \<Rightarrow> (st, Panic))"

definition live_leases :: "time \<Rightarrow> (string, lease) btree \<Rightarrow> (string, lease) btree" where
  "live_leases now leases = bt_retain (\<lambda>_ lease. now < le_expires_at lease) leases"

definition claimable :: "mem_state \<Rightarrow> string \<Rightarrow> time \<Rightarrow> run_record \<Rightarrow> bool" where
  "claimable st executor now run \<longleftrightarrow>
     pr_executor (rr_plan run) = executor \<and>
     \<not> terminal (rr_status run) \<and>
     rr_status run \<noteq> RunWaiting \<and>
     pr_not_before (rr_plan run) \<le> now \<and>
     \<not> bt_contains (ms_run_leases st) (run_id run) \<and>
     group_is_runnable st run"

definition start_run :: "time \<Rightarrow> run_record \<Rightarrow> run_record" where
  "start_run now run =
     (if rr_status run = RunQueued
      then run\<lparr>rr_status := RunRunning, rr_started_at := get_or_insert (rr_started_at run) now,
               rr_updated_at := now\<rparr>
      else run)"

definition mem_claim_run ::
  "chrono_ops \<Rightarrow> string \<Rightarrow> string \<Rightarrow> string \<Rightarrow> time \<Rightarrow> nat \<Rightarrow> mem_state \<Rightarrow> mem_state \<times> claim option rresult" where
  "mem_claim_run ch ulid executor worker now lease_for st =
     (let st1 = st\<lparr>ms_run_leases := live_leases now (ms_run_leases st)\<rparr> in
      case min_by_key (\<lambda>run. (rr_created_at run, run_id run))
             (filter (claimable st1 executor now) (bt_values (ms_runs st1))) of
        None \<Rightarrow> (st1, Ok None)
      | Some candidate \<Rightarrow>
          let rid = run_id candidate;
              token = ''lease_'' @ ulid in
          case add_std_duration ch now lease_for of
            Err e \<Rightarrow> (st1, Err e)
          | Panic \<Rightarrow> (st1, Panic)
          | Ok expires_at \<Rightarrow>
              (case bt_get (ms_runs st1) rid of
                 None \<Rightarrow> (st1, Panic)
               | Some run0 \<Rightarrow>
                   let run = start_run now run0 in
                   (st1\<lparr>ms_runs := bt_insert rid run (ms_runs st1),
                        ms_run_leases := bt_insert rid
                          \<lparr> le_worker = worker, le_token = token, le_expires_at = expires_at \<rparr>
                          (ms_run_leases st1)\<rparr>,
                    Ok (Some \<lparr> cl_run = run, cl_worker = worker, cl_token = token,
                               cl_expires_at = expires_at \<rparr>))))"

fun admit_all :: "chrono_ops \<Rightarrow> prepared_event list \<Rightarrow> mem_state \<Rightarrow> mem_state rresult" where
  "admit_all ch [] st = Ok st"
| "admit_all ch (e # es) st = bind_res (admit ch e st) (\<lambda>(st1, _). admit_all ch es st1)"

definition mem_commit_run ::
  "chrono_ops \<Rightarrow> claim \<Rightarrow> prepared_event list \<Rightarrow> mem_state \<Rightarrow> mem_state \<times> claim rresult" where
  "mem_commit_run ch c emitted st =
     (case validate_claim st c of
        Err e \<Rightarrow> (st, Err e)
      | Panic \<Rightarrow> (st, Panic)
      | Ok _ \<Rightarrow>
          (case bt_get (ms_runs st) (run_id (cl_run c)) of
             None \<Rightarrow> (st, Panic)
           | Some stored \<Rightarrow>
               if rr_revision stored \<noteq> rr_revision (cl_run c)
               then (st, Err (Diagnostic ''stale_lease'' ''The run changed after this worker claimed it.''))
               else
                 let run = (cl_run c)\<lparr>rr_revision := rr_revision (cl_run c) + 1\<rparr>;
                     st1 = st\<lparr>ms_runs := bt_insert (run_id run) run (ms_runs st)\<rparr> in
                 case admit_all ch emitted st1 of
                   Err e \<Rightarrow> (st1, Err e)
                 | Panic \<Rightarrow> (st1, Panic)
                 | Ok st2 \<Rightarrow>
                     (if terminal (rr_status run)
                      then st2\<lparr>ms_run_leases := bt_remove (run_id run) (ms_run_leases st2)\<rparr>
                      else st2,
                      Ok (c\<lparr>cl_run := run\<rparr>))))"

definition mem_get_run :: "string \<Rightarrow> mem_state \<Rightarrow> mem_state \<times> run_record option rresult" where
  "mem_get_run rid st = (st, Ok (bt_get (ms_runs st) rid))"

definition mem_request_cancel :: "string \<Rightarrow> time \<Rightarrow> mem_state \<Rightarrow> mem_state \<times> bool rresult" where
  "mem_request_cancel rid now st =
     (case bt_get (ms_runs st) rid of
        None \<Rightarrow> (st, Ok False)
      | Some run \<Rightarrow>
          let (run1, accepted) = request_cancel_run now run in
          if \<not> accepted then (st, Ok False)
          else
            let run2 = run1\<lparr>rr_revision := rr_revision run1 + 1\<rparr>;
                st1 = st\<lparr>ms_runs := bt_insert rid run2 (ms_runs st)\<rparr> in
            (if terminal (rr_status run2)
             then st1\<lparr>ms_run_leases := bt_remove rid (ms_run_leases st1)\<rparr> else st1, Ok True))"

section \<open>Journal\<close>

definition mem_events_after :: "nat \<Rightarrow> nat \<Rightarrow> mem_state \<Rightarrow> mem_state \<times> event_page rresult" where
  "mem_events_after after limit0 st =
     (let limit = max 1 (min limit0 10000);
          reset_required = after < ms_retained_after st;
          events = (if reset_required then []
                    else take (limit + 1) (filter (\<lambda>e. after < ej_cursor e) (ms_events st)))
      in (st, Ok \<lparr> ep_events = take limit events, ep_retained_after = ms_retained_after st,
                   ep_head = ms_next_cursor st, ep_has_more = (limit < length events),
                   ep_reset_required = reset_required \<rparr>))"

definition mem_prune_events_through :: "nat \<Rightarrow> mem_state \<Rightarrow> mem_state \<times> nat rresult" where
  "mem_prune_events_through cursor st =
     (let pruned = max (min cursor (ms_next_cursor st)) (ms_retained_after st) in
      (st\<lparr>ms_events := filter (\<lambda>e. pruned < ej_cursor e) (ms_events st),
          ms_retained_after := pruned\<rparr>, Ok pruned))"

section \<open>Timers\<close>

definition mem_upsert_timer :: "timer_record \<Rightarrow> mem_state \<Rightarrow> mem_state \<times> timer_record rresult" where
  "mem_upsert_timer t0 st =
     (case next_timer_generation_value (bt_get (ms_timers st) (tr_id t0)) (tr_id t0) of
        Err e \<Rightarrow> (st, Err e)
      | Panic \<Rightarrow> (st, Panic)
      | Ok g \<Rightarrow>
          let t = t0\<lparr>tr_generation := g, tr_status := TimerScheduled\<rparr> in
          (st\<lparr>ms_timer_leases := bt_remove (tr_id t) (ms_timer_leases st),
              ms_timers := bt_insert (tr_id t) t (ms_timers st)\<rparr>, Ok t))"

definition schedule_timer :: "timer_record \<Rightarrow> mem_state \<Rightarrow> mem_state" where
  "schedule_timer t st =
     st\<lparr>ms_timer_leases := bt_remove (tr_id t) (ms_timer_leases st),
        ms_timers := bt_insert (tr_id t) t (ms_timers st)\<rparr>"

definition mem_reconcile_timer_exact ::
  "timer_record \<Rightarrow> time \<Rightarrow> mem_state \<Rightarrow> mem_state \<times> timer_record rresult" where
  "mem_reconcile_timer_exact desired now st =
     (let current = bt_get (ms_timers st) (tr_id desired);
          reschedule =
            (case next_timer_generation current desired now of
               Err e \<Rightarrow> (st, Err e)
             | Panic \<Rightarrow> (st, Panic)
             | Ok nxt \<Rightarrow> (schedule_timer nxt st, Ok nxt))
      in case current of
           None \<Rightarrow> reschedule
         | Some c \<Rightarrow> if timer_matches c desired then (st, Ok c) else reschedule)"

definition cancel_timer_entry :: "string \<Rightarrow> time \<Rightarrow> mem_state \<Rightarrow> mem_state" where
  "cancel_timer_entry tid now st =
     st\<lparr>ms_timers := bt_modify tid (\<lambda>t. t\<lparr>tr_status := TimerCancelled, tr_updated_at := now\<rparr>) (ms_timers st),
        ms_timer_leases := bt_remove tid (ms_timer_leases st)\<rparr>"

definition mem_cancel_timer ::
  "string \<Rightarrow> nat option \<Rightarrow> time \<Rightarrow> mem_state \<Rightarrow> mem_state \<times> bool rresult" where
  "mem_cancel_timer tid generation now st =
     (case bt_get (ms_timers st) tid of
        None \<Rightarrow> (st, Ok False)
      | Some t \<Rightarrow>
          if (case generation of None \<Rightarrow> False | Some expected \<Rightarrow> expected \<noteq> tr_generation t)
             \<or> \<not> timer_active (tr_status t)
          then (st, Ok False)
          else (cancel_timer_entry tid now st, Ok True))"

text \<open>One desired member: the stored timer unchanged, or its next schedule.\<close>

definition plan_desired ::
  "time \<Rightarrow> mem_state \<Rightarrow> timer_record \<Rightarrow> (timer_record \<times> bool) rresult" where
  "plan_desired now st desired =
     (let current = bt_get (ms_timers st) (tr_id desired);
          reschedule = bind_res (next_timer_generation current desired now) (\<lambda>t. Ok (t, True))
      in case current of
           None \<Rightarrow> reschedule
         | Some c \<Rightarrow> if timer_matches c desired then Ok (c, False) else reschedule)"

definition apply_planned :: "mem_state \<Rightarrow> timer_record \<times> bool \<Rightarrow> mem_state" where
  "apply_planned st p = (if snd p then schedule_timer (fst p) st else st)"

definition omitted_timers :: "string \<Rightarrow> timer_record list \<Rightarrow> mem_state \<Rightarrow> string list" where
  "omitted_timers id_prefix desired st =
     map tr_id (filter (\<lambda>t. starts_with (tr_id t) id_prefix \<and>
                            tr_id t \<notin> set (map tr_id desired) \<and> timer_active (tr_status t))
                       (bt_values (ms_timers st)))"

definition mem_reconcile_timers ::
  "string \<Rightarrow> timer_record list \<Rightarrow> time \<Rightarrow> mem_state \<Rightarrow> mem_state \<times> timer_reconcile_outcome rresult" where
  "mem_reconcile_timers id_prefix desired now st =
     (case map_res (plan_desired now st) desired of
        Err e \<Rightarrow> (st, Err e)
      | Panic \<Rightarrow> (st, Panic)
      | Ok planned \<Rightarrow>
          let cancel = omitted_timers id_prefix desired st;
              st1 = foldl (\<lambda>s tid. cancel_timer_entry tid now s) st cancel;
              st2 = foldl apply_planned st1 planned
          in (st2, Ok \<lparr> to_timers = sort_key tr_id (map fst planned), to_cancelled_ids = sort cancel \<rparr>))"

definition mem_timers :: "string \<Rightarrow> mem_state \<Rightarrow> mem_state \<times> timer_record list rresult" where
  "mem_timers id_prefix st =
     (st, Ok (filter (\<lambda>t. starts_with (tr_id t) id_prefix) (bt_values (ms_timers st))))"

definition timer_due :: "mem_state \<Rightarrow> time \<Rightarrow> timer_record \<Rightarrow> bool" where
  "timer_due st now t \<longleftrightarrow>
     timer_active (tr_status t) \<and> tr_fire_at t \<le> now \<and> \<not> bt_contains (ms_timer_leases st) (tr_id t)"

definition mem_claim_due_timer ::
  "chrono_ops \<Rightarrow> string \<Rightarrow> string \<Rightarrow> time \<Rightarrow> nat \<Rightarrow> mem_state \<Rightarrow> mem_state \<times> timer_claim option rresult" where
  "mem_claim_due_timer ch ulid worker now lease_for st =
     (let st1 = st\<lparr>ms_timer_leases := live_leases now (ms_timer_leases st)\<rparr> in
      case min_by_key (\<lambda>t. (tr_fire_at t, tr_id t))
             (filter (timer_due st1 now) (bt_values (ms_timers st1))) of
        None \<Rightarrow> (st1, Ok None)
      | Some candidate \<Rightarrow>
          let tid = tr_id candidate;
              token = ''timer_lease_'' @ ulid in
          case add_std_duration ch now lease_for of
            Err e \<Rightarrow> (st1, Err e)
          | Panic \<Rightarrow> (st1, Panic)
          | Ok expires_at \<Rightarrow>
              (case bt_get (ms_timers st1) tid of
                 None \<Rightarrow> (st1, Panic)
               | Some t0 \<Rightarrow>
                   let t = t0\<lparr>tr_status := TimerFiring, tr_updated_at := now\<rparr> in
                   (st1\<lparr>ms_timers := bt_insert tid t (ms_timers st1),
                        ms_timer_leases := bt_insert tid
                          \<lparr> le_worker = worker, le_token = token, le_expires_at = expires_at \<rparr>
                          (ms_timer_leases st1)\<rparr>,
                    Ok (Some \<lparr> tc_timer = t, tc_worker = worker, tc_token = token,
                               tc_expires_at = expires_at \<rparr>))))"

definition mem_fire_timer ::
  "chrono_ops \<Rightarrow> timer_claim \<Rightarrow> timer_record \<Rightarrow> prepared_event \<Rightarrow> mem_state \<Rightarrow>
     mem_state \<times> admit_outcome rresult" where
  "mem_fire_timer ch c fired event st =
     (let tid = tr_id (tc_timer c) in
      case bt_get (ms_timer_leases st) tid of
        None \<Rightarrow> (st, Err (Diagnostic ''stale_lease'' ''Timer lease is absent.''))
      | Some lease \<Rightarrow>
          if le_token lease \<noteq> tc_token c \<or> le_worker lease \<noteq> tc_worker c \<or>
             (case bt_get (ms_timers st) tid of
                None \<Rightarrow> True
              | Some t \<Rightarrow> tr_generation t \<noteq> tr_generation (tc_timer c))
          then (st, Err (Diagnostic ''stale_timer_generation''
                           ''Timer generation or lease changed before firing.''))
          else
            let st1 = st\<lparr>ms_timers := bt_insert (tr_id fired) fired (ms_timers st),
                         ms_timer_leases := bt_remove tid (ms_timer_leases st)\<rparr> in
            case admit ch event st1 of
              Ok (st2, outcome) \<Rightarrow> (st2, Ok outcome)
            | Err e \<Rightarrow> (st1, Err e)
            | Panic \<Rightarrow> (st1, Panic))"

definition mem_snapshot :: "mem_state \<Rightarrow> mem_state \<times> store_snapshot rresult" where
  "mem_snapshot st =
     (st, Ok \<lparr> ss_events = ms_events st, ss_runs = bt_values (ms_runs st),
              ss_timers = bt_values (ms_timers st) \<rparr>)"

section \<open>The lock\<close>

text \<open>
  \<open>state.lock().map_err(...)\<close> at the head of every trait method: a poisoned lock is a store
  error, and a panic under the lock poisons it for good.
\<close>

record mem_store =
  st_state :: mem_state
  st_poisoned :: bool

definition store_new :: mem_store where
  "store_new = \<lparr> st_state = mem_empty, st_poisoned = False \<rparr>"

definition with_lock :: "(mem_state \<Rightarrow> mem_state \<times> 'a rresult) \<Rightarrow> mem_store \<Rightarrow> mem_store \<times> 'a rresult" where
  "with_lock f s =
     (if st_poisoned s then (s, Err (StoreError ''in-memory store lock poisoned''))
      else let (st, r) = f (st_state s) in
           (s\<lparr>st_state := st, st_poisoned := (r = Panic)\<rparr>, r))"

lemmas mem_op_defs [store_defs] =
  mem_admit_event_def mem_claim_run_def mem_commit_run_def mem_get_run_def mem_request_cancel_def
  mem_events_after_def mem_prune_events_through_def mem_upsert_timer_def mem_reconcile_timer_exact_def
  mem_cancel_timer_def mem_reconcile_timers_def mem_timers_def mem_claim_due_timer_def
  mem_fire_timer_def mem_snapshot_def

end
