(* ===== verification/Store_Invariant.thy ===== *)
theory Store_Invariant
  imports Memory_Store
begin

text \<open>
  The invariant of the runtime store and its preservation. The invariant has one part per
  concern (maps, run records, leases, concurrency groups, idempotency, journal, timers), each
  over the components it speaks about, so that an operation which leaves a component alone
  keeps its part by simplification. The primitive changes an operation makes (dropping a run,
  letting a run evolve, admitting a run) are treated once.
\<close>

section \<open>The parts of the invariant\<close>

definition runs_wf :: "nat \<Rightarrow> (string, run_record) btree \<Rightarrow> bool" where
  "runs_wf next runs \<longleftrightarrow>
     bt_wf runs \<and>
     (\<forall>k r. bt_get runs k = Some r \<longrightarrow>
        run_id r = k \<and> run_wf r \<and> pr_event_cursor (rr_plan r) \<le> next)"

text \<open>A run lease belongs to a stored run that is not terminal.\<close>

definition leases_wf :: "(string, run_record) btree \<Rightarrow> (string, lease) btree \<Rightarrow> bool" where
  "leases_wf runs leases \<longleftrightarrow>
     bt_wf leases \<and>
     (\<forall>k l. bt_get leases k = Some l \<longrightarrow> (\<exists>r. bt_get runs k = Some r \<and> \<not> terminal (rr_status r)))"

definition in_progress :: "run_record \<Rightarrow> bool" where
  "in_progress r \<longleftrightarrow> rr_status r = RunRunning \<or> rr_status r = RunWaiting"

definition serialised :: "run_record \<Rightarrow> bool" where
  "serialised r \<longleftrightarrow> pr_concurrency_policy (rr_plan r) \<noteq> Allow"

text \<open>Mutual exclusion: no two runs of one group whose policy serialises are in progress.\<close>

definition groups_wf :: "(string, run_record) btree \<Rightarrow> bool" where
  "groups_wf runs \<longleftrightarrow>
     (\<forall>k1 k2 r1 r2.
        bt_get runs k1 = Some r1 \<longrightarrow> bt_get runs k2 = Some r2 \<longrightarrow>
        in_progress r1 \<longrightarrow> in_progress r2 \<longrightarrow> serialised r1 \<longrightarrow> serialised r2 \<longrightarrow>
        pr_concurrency_group (rr_plan r1) = pr_concurrency_group (rr_plan r2) \<longrightarrow> k1 = k2)"

definition same_idempotency :: "planned_run \<Rightarrow> planned_run \<Rightarrow> bool" where
  "same_idempotency p q \<longleftrightarrow>
     pr_idempotency_scope p = pr_idempotency_scope q \<and> pr_idempotency_key p = pr_idempotency_key q"

definition idem_wf :: "(string, run_record) btree \<Rightarrow> bool" where
  "idem_wf runs \<longleftrightarrow>
     (\<forall>k1 k2 r1 r2. bt_get runs k1 = Some r1 \<longrightarrow> bt_get runs k2 = Some r2 \<longrightarrow>
        same_idempotency (rr_plan r1) (rr_plan r2) \<longrightarrow> k1 = k2)"

definition event_key :: "event_journal_entry \<Rightarrow> string \<times> string" where
  "event_key e = (ej_source_runtime e, ej_event_id e)"

definition journal_wf ::
  "nat \<Rightarrow> nat \<Rightarrow> event_journal_entry list \<Rightarrow> (string \<times> string, nat) btree \<Rightarrow> bool" where
  "journal_wf next retained events index \<longleftrightarrow>
     bt_wf index \<and> retained \<le> next \<and>
     sorted_wrt (<) (map ej_cursor events) \<and>
     (\<forall>e \<in> set events. retained < ej_cursor e \<and> bt_get index (event_key e) = Some (ej_cursor e)) \<and>
     (\<forall>k c. bt_get index k = Some c \<longrightarrow> 0 < c \<and> c \<le> next) \<and>
     (\<forall>k c. bt_get index k = Some c \<longrightarrow> retained < c \<longrightarrow>
        (\<exists>e \<in> set events. ej_cursor e = c \<and> event_key e = k)) \<and>
     (\<forall>k1 k2 c. bt_get index k1 = Some c \<longrightarrow> bt_get index k2 = Some c \<longrightarrow> k1 = k2)"

text \<open>A timer lease belongs to a timer that is firing; generations stay below the ceiling.\<close>

definition timers_wf :: "(string, timer_record) btree \<Rightarrow> (string, lease) btree \<Rightarrow> bool" where
  "timers_wf timers leases \<longleftrightarrow>
     bt_wf timers \<and> bt_wf leases \<and>
     (\<forall>k t. bt_get timers k = Some t \<longrightarrow>
        tr_id t = k \<and> 1 \<le> tr_generation t \<and> tr_generation t \<le> TIMER_GENERATION_MAX) \<and>
     (\<forall>k l. bt_get leases k = Some l \<longrightarrow>
        (\<exists>t. bt_get timers k = Some t \<and> tr_status t = TimerFiring))"

definition mem_inv :: "mem_state \<Rightarrow> bool" where
  "mem_inv st \<longleftrightarrow>
     runs_wf (ms_next_cursor st) (ms_runs st) \<and>
     leases_wf (ms_runs st) (ms_run_leases st) \<and>
     groups_wf (ms_runs st) \<and>
     idem_wf (ms_runs st) \<and>
     journal_wf (ms_next_cursor st) (ms_retained_after st) (ms_events st) (ms_event_index st) \<and>
     timers_wf (ms_timers st) (ms_timer_leases st)"

lemmas inv_part_defs =
  runs_wf_def leases_wf_def groups_wf_def idem_wf_def journal_wf_def timers_wf_def

lemma mem_inv_empty: "mem_inv mem_empty"
  by (simp add: mem_inv_def mem_empty_def inv_part_defs)

text \<open>How a run record may change: same plan, same admission time, a status that stays or ends.\<close>

definition run_evolves :: "run_record \<Rightarrow> run_record \<Rightarrow> bool" where
  "run_evolves r r' \<longleftrightarrow>
     rr_plan r' = rr_plan r \<and> rr_created_at r' = rr_created_at r \<and> run_wf r' \<and>
     (rr_status r' = rr_status r \<or> terminal (rr_status r'))"

lemma run_evolves_trans [trans]:
  "run_evolves a b \<Longrightarrow> run_evolves b c \<Longrightarrow> run_evolves a c"
  by (auto simp: run_evolves_def)

lemma terminal_not_in_progress [simp]: "terminal (rr_status r) \<Longrightarrow> \<not> in_progress r"
  by (auto simp: in_progress_def)

lemma run_wf_revision [simp]: "run_wf (r\<lparr>rr_revision := v\<rparr>) = run_wf r"
  by (simp add: run_wf_def)

lemma request_cancel_evolves:
  assumes "request_cancel_run now r = (r', b)" "run_wf r"
  shows "run_evolves r r'" and "run_evolves r (r'\<lparr>rr_revision := v\<rparr>)"
  using request_cancel_run_frame [OF assms(1)] request_cancel_run_wf [OF assms]
    request_cancel_run_status [OF assms(1)]
  by (auto simp: run_evolves_def)

section \<open>Primitive changes\<close>

text \<open>Letting a stored run evolve; its lease goes when the run became terminal.\<close>

definition put_run :: "string \<Rightarrow> run_record \<Rightarrow> mem_state \<Rightarrow> mem_state" where
  "put_run k r st =
     (let st1 = st\<lparr>ms_runs := bt_insert k r (ms_runs st)\<rparr> in
      if terminal (rr_status r) then st1\<lparr>ms_run_leases := bt_remove k (ms_run_leases st1)\<rparr> else st1)"

lemma put_run_simps [simp]:
  "ms_runs (put_run k r st) = bt_insert k r (ms_runs st)"
  "ms_run_leases (put_run k r st) =
     (if terminal (rr_status r) then bt_remove k (ms_run_leases st) else ms_run_leases st)"
  "ms_next_cursor (put_run k r st) = ms_next_cursor st"
  "ms_retained_after (put_run k r st) = ms_retained_after st"
  "ms_events (put_run k r st) = ms_events st"
  "ms_event_index (put_run k r st) = ms_event_index st"
  "ms_timers (put_run k r st) = ms_timers st"
  "ms_timer_leases (put_run k r st) = ms_timer_leases st"
  by (simp_all add: put_run_def Let_def)

lemma runs_wfD:
  assumes "runs_wf n runs" "bt_get runs k = Some r"
  shows "run_id r = k" and "run_wf r" and "pr_event_cursor (rr_plan r) \<le> n"
  using assms unfolding runs_wf_def by blast+

lemma runs_wf_insert:
  "runs_wf n runs \<Longrightarrow> run_id r = k \<Longrightarrow> run_wf r \<Longrightarrow> pr_event_cursor (rr_plan r) \<le> n \<Longrightarrow>
   runs_wf n (bt_insert k r runs)"
  unfolding runs_wf_def by auto

lemma groups_wf_insert:
  assumes "groups_wf runs"
    and "in_progress r \<Longrightarrow> serialised r \<Longrightarrow>
         (\<forall>j s. bt_get runs j = Some s \<longrightarrow> in_progress s \<longrightarrow> serialised s \<longrightarrow>
            pr_concurrency_group (rr_plan s) = pr_concurrency_group (rr_plan r) \<longrightarrow> j = k)"
  shows "groups_wf (bt_insert k r runs)"
proof -
  have "k1 = k2"
    if "bt_get (bt_insert k r runs) k1 = Some r1" "bt_get (bt_insert k r runs) k2 = Some r2"
      "in_progress r1" "in_progress r2" "serialised r1" "serialised r2"
      "pr_concurrency_group (rr_plan r1) = pr_concurrency_group (rr_plan r2)" for k1 k2 r1 r2
  proof (cases "k1 = k \<or> k2 = k")
    case True
    with that assms(2) show ?thesis by (auto split: if_splits)
  next
    case False
    with that have "bt_get runs k1 = Some r1" "bt_get runs k2 = Some r2" by auto
    with that assms(1) show ?thesis unfolding groups_wf_def by blast
  qed
  then show ?thesis unfolding groups_wf_def by blast
qed

lemma groups_wf_mono:
  "groups_wf runs \<Longrightarrow> (\<And>k r. bt_get runs' k = Some r \<Longrightarrow> bt_get runs k = Some r) \<Longrightarrow> groups_wf runs'"
  unfolding groups_wf_def by blast

lemma idem_wf_mono:
  "idem_wf runs \<Longrightarrow> (\<And>k r. bt_get runs' k = Some r \<Longrightarrow> bt_get runs k = Some r) \<Longrightarrow> idem_wf runs'"
  unfolding idem_wf_def by blast

lemma idem_wf_insert:
  assumes "idem_wf runs"
    and "\<And>j s. bt_get runs j = Some s \<Longrightarrow> same_idempotency (rr_plan s) (rr_plan r) \<Longrightarrow> j = k"
  shows "idem_wf (bt_insert k r runs)"
  using assms unfolding idem_wf_def same_idempotency_def by auto

lemma mem_inv_put_run:
  assumes inv: "mem_inv st" and old: "bt_get (ms_runs st) k = Some r" and ev: "run_evolves r r'"
  shows "mem_inv (put_run k r' st)"
proof -
  have "groups_wf (bt_insert k r' (ms_runs st))"
  proof (rule groups_wf_insert)
    show "groups_wf (ms_runs st)" using inv by (simp add: mem_inv_def)
    assume "in_progress r'" "serialised r'"
    with ev have r: "in_progress r" "serialised r" and g: "rr_plan r' = rr_plan r"
      by (auto simp: run_evolves_def serialised_def in_progress_def)
    then show "\<forall>j s. bt_get (ms_runs st) j = Some s \<longrightarrow> in_progress s \<longrightarrow> serialised s \<longrightarrow>
        pr_concurrency_group (rr_plan s) = pr_concurrency_group (rr_plan r') \<longrightarrow> j = k"
      using inv old unfolding mem_inv_def groups_wf_def by metis
  qed
  moreover have "idem_wf (bt_insert k r' (ms_runs st))"
  proof (rule idem_wf_insert)
    show "idem_wf (ms_runs st)" using inv by (simp add: mem_inv_def)
    show "j = k" if "bt_get (ms_runs st) j = Some s" "same_idempotency (rr_plan s) (rr_plan r')" for j s
      using that inv old ev unfolding mem_inv_def idem_wf_def run_evolves_def by metis
  qed
  moreover have "runs_wf (ms_next_cursor st) (bt_insert k r' (ms_runs st))"
    using inv old ev by (auto simp: mem_inv_def runs_wf_def run_evolves_def)
  moreover have "leases_wf (bt_insert k r' (ms_runs st)) (ms_run_leases (put_run k r' st))"
    using inv by (auto simp: mem_inv_def leases_wf_def)
  ultimately show ?thesis using inv by (simp add: mem_inv_def)
qed

lemma remove_run_simps [simp]:
  "ms_runs (remove_run k st) = bt_remove k (ms_runs st)"
  "ms_run_leases (remove_run k st) = bt_remove k (ms_run_leases st)"
  "ms_next_cursor (remove_run k st) = ms_next_cursor st"
  "ms_retained_after (remove_run k st) = ms_retained_after st"
  "ms_events (remove_run k st) = ms_events st"
  "ms_event_index (remove_run k st) = ms_event_index st"
  "ms_timers (remove_run k st) = ms_timers st"
  "ms_timer_leases (remove_run k st) = ms_timer_leases st"
  by (simp_all add: remove_run_def)

lemma mem_inv_remove_run:
  assumes "mem_inv st" shows "mem_inv (remove_run k st)"
proof -
  have "groups_wf (bt_remove k (ms_runs st))"
    by (rule groups_wf_mono [of "ms_runs st"]) (use assms in \<open>auto simp: mem_inv_def split: if_splits\<close>)
  moreover have "idem_wf (bt_remove k (ms_runs st))"
    by (rule idem_wf_mono [of "ms_runs st"]) (use assms in \<open>auto simp: mem_inv_def split: if_splits\<close>)
  moreover have "runs_wf (ms_next_cursor st) (bt_remove k (ms_runs st))"
    "leases_wf (bt_remove k (ms_runs st)) (bt_remove k (ms_run_leases st))"
    using assms by (auto simp: mem_inv_def runs_wf_def leases_wf_def split: if_splits)
  ultimately show ?thesis using assms by (simp add: mem_inv_def)
qed

lemma mem_inv_admit_run:
  assumes inv: "mem_inv st"
    and free: "\<not> idempotency_taken st p"
    and cursor: "pr_event_cursor p \<le> ms_next_cursor st"
  shows "mem_inv (st\<lparr>ms_runs := bt_insert (pr_id p) (admitted p) (ms_runs st)\<rparr>)"
proof -
  have wf: "bt_wf (ms_runs st)" using inv by (simp add: mem_inv_def runs_wf_def)
  have "groups_wf (bt_insert (pr_id p) (admitted p) (ms_runs st))"
    using inv by (intro groups_wf_insert) (auto simp: mem_inv_def in_progress_def)
  moreover have "idem_wf (bt_insert (pr_id p) (admitted p) (ms_runs st))"
  proof (rule idem_wf_insert)
    show "idem_wf (ms_runs st)" using inv by (simp add: mem_inv_def)
    show "j = pr_id p"
      if "bt_get (ms_runs st) j = Some s" "same_idempotency (rr_plan s) (rr_plan (admitted p))" for j s
      using that free bt_get_value [OF that(1)]
      by (auto simp: idempotency_taken_def list_ex_iff same_idempotency_def)
  qed
  ultimately show ?thesis
    using inv cursor by (auto simp: mem_inv_def runs_wf_def leases_wf_def)
qed

section \<open>Admission\<close>

lemma foldl_keeps:
  "P s \<Longrightarrow> (\<And>s x. x \<in> set xs \<Longrightarrow> P s \<Longrightarrow> P (f s x)) \<Longrightarrow> P (foldl f s xs)"
  by (induction xs arbitrary: s) auto

lemma drop_obsolete_inv: "mem_inv st \<Longrightarrow> mem_inv (drop_obsolete received p st)"
  unfolding drop_obsolete_def by (auto intro!: foldl_keeps mem_inv_remove_run)

lemma remove_runs_frame:
  "ms_next_cursor (foldl (\<lambda>s rid. remove_run rid s) st ids) = ms_next_cursor st"
  "ms_events (foldl (\<lambda>s rid. remove_run rid s) st ids) = ms_events st"
  "ms_event_index (foldl (\<lambda>s rid. remove_run rid s) st ids) = ms_event_index st"
  "ms_retained_after (foldl (\<lambda>s rid. remove_run rid s) st ids) = ms_retained_after st"
  "ms_timers (foldl (\<lambda>s rid. remove_run rid s) st ids) = ms_timers st"
  "ms_timer_leases (foldl (\<lambda>s rid. remove_run rid s) st ids) = ms_timer_leases st"
  by (induction ids arbitrary: st) simp_all

lemma drop_obsolete_frame [run_frame, simp]:
  "ms_next_cursor (drop_obsolete received p st) = ms_next_cursor st"
  "ms_events (drop_obsolete received p st) = ms_events st"
  "ms_event_index (drop_obsolete received p st) = ms_event_index st"
  "ms_retained_after (drop_obsolete received p st) = ms_retained_after st"
  "ms_timers (drop_obsolete received p st) = ms_timers st"
  "ms_timer_leases (drop_obsolete received p st) = ms_timer_leases st"
  unfolding drop_obsolete_def by (simp_all add: remove_runs_frame)

text \<open>One cancellation of a replaced run is an evolution of that run.\<close>

lemma cancel_active_cases:
  obtains "bt_get (ms_runs st) rid = None" "cancel_active received (st, cs) rid = (st, cs)"
  | r r' b where "bt_get (ms_runs st) rid = Some r" "request_cancel_run received r = (r', b)"
      "cancel_active received (st, cs) rid =
         (put_run rid (if b then r'\<lparr>rr_revision := rr_revision r' + 1\<rparr> else r') st,
          if b then cs @ [rid] else cs)"
proof (cases "bt_get (ms_runs st) rid")
  case None
  then show ?thesis using that(1) by (simp add: cancel_active_def)
next
  case (Some r)
  obtain r' b where rb: "request_cancel_run received r = (r', b)" by fastforce
  show ?thesis using that(2) [OF Some rb] Some rb
    by (simp add: cancel_active_def put_run_def Let_def)
qed

lemma cancel_active_inv: "mem_inv st \<Longrightarrow> mem_inv (fst (cancel_active received (st, cs) rid))"
proof (rule cancel_active_cases [of st rid received cs])
  fix r r' b
  assume inv: "mem_inv st" and r: "bt_get (ms_runs st) rid = Some r"
    and rc: "request_cancel_run received r = (r', b)"
    and eq: "cancel_active received (st, cs) rid =
      (put_run rid (if b then r'\<lparr>rr_revision := rr_revision r' + 1\<rparr> else r') st,
       if b then cs @ [rid] else cs)"
  from inv r have "run_wf r" by (simp add: mem_inv_def runs_wf_def)
  from mem_inv_put_run [OF inv r] request_cancel_evolves [OF rc this] eq
  show "mem_inv (fst (cancel_active received (st, cs) rid))" by simp
qed simp

lemma cancel_active_frame [run_frame]:
  "ms_next_cursor (fst (cancel_active received a rid)) = ms_next_cursor (fst a)"
  "ms_events (fst (cancel_active received a rid)) = ms_events (fst a)"
  "ms_event_index (fst (cancel_active received a rid)) = ms_event_index (fst a)"
  "ms_retained_after (fst (cancel_active received a rid)) = ms_retained_after (fst a)"
  "ms_timers (fst (cancel_active received a rid)) = ms_timers (fst a)"
  "ms_timer_leases (fst (cancel_active received a rid)) = ms_timer_leases (fst a)"
  by (cases a; cases "bt_get (ms_runs (fst a)) rid";
      auto simp: cancel_active_def Let_def split: prod.splits)+

text \<open>Cancelling keeps every run's plan, hence every idempotency reservation.\<close>

definition same_plans :: "mem_state \<Rightarrow> mem_state \<Rightarrow> bool" where
  "same_plans st st' \<longleftrightarrow>
     (\<forall>k. map_option rr_plan (bt_get (ms_runs st') k) = map_option rr_plan (bt_get (ms_runs st) k))"

lemma same_plans_refl [simp]: "same_plans st st"
  by (simp add: same_plans_def)

lemma cancel_active_same_plans: "same_plans st (fst (cancel_active received (st, cs) rid))"
  by (rule cancel_active_cases [of st rid received cs])
     (auto simp: same_plans_def dest: request_cancel_run_frame)

lemma idempotency_taken_iff:
  assumes "bt_wf (ms_runs s)"
  shows "idempotency_taken s p \<longleftrightarrow>
    (\<exists>k r. bt_get (ms_runs s) k = Some r \<and> same_idempotency (rr_plan r) p)"
  unfolding idempotency_taken_def list_ex_iff same_idempotency_def Bex_def in_bt_values [OF assms]
  by blast

lemma same_plans_D:
  assumes "same_plans st st'"
  shows "bt_get (ms_runs st) k = Some r \<Longrightarrow> \<exists>r'. bt_get (ms_runs st') k = Some r' \<and> rr_plan r' = rr_plan r"
    and "bt_get (ms_runs st') k = Some r \<Longrightarrow> \<exists>r'. bt_get (ms_runs st) k = Some r' \<and> rr_plan r' = rr_plan r"
proof -
  have eq: "map_option rr_plan (bt_get (ms_runs st') k) = map_option rr_plan (bt_get (ms_runs st) k)"
    using assms by (simp add: same_plans_def)
  show "bt_get (ms_runs st) k = Some r \<Longrightarrow> \<exists>r'. bt_get (ms_runs st') k = Some r' \<and> rr_plan r' = rr_plan r"
    and "bt_get (ms_runs st') k = Some r \<Longrightarrow> \<exists>r'. bt_get (ms_runs st) k = Some r' \<and> rr_plan r' = rr_plan r"
    using eq by (auto simp: map_option_eq_Some dest: sym)
qed

lemma same_plans_idempotency:
  assumes "same_plans st st'" "bt_wf (ms_runs st)" "bt_wf (ms_runs st')"
  shows "idempotency_taken st' p = idempotency_taken st p"
proof -
  note D = same_plans_D [OF assms(1)]
  show ?thesis
    unfolding idempotency_taken_iff [OF assms(2)] idempotency_taken_iff [OF assms(3)]
  proof
    assume "\<exists>k r. bt_get (ms_runs st') k = Some r \<and> same_idempotency (rr_plan r) p"
    with D(2) show "\<exists>k r. bt_get (ms_runs st) k = Some r \<and> same_idempotency (rr_plan r) p" by metis
  next
    assume "\<exists>k r. bt_get (ms_runs st) k = Some r \<and> same_idempotency (rr_plan r) p"
    with D(1) show "\<exists>k r. bt_get (ms_runs st') k = Some r \<and> same_idempotency (rr_plan r) p" by metis
  qed
qed

lemma cancel_fold_invariant:
  assumes "mem_inv st"
  shows "mem_inv (fst (foldl (cancel_active received) (st, cs) ids)) \<and>
         same_plans st (fst (foldl (cancel_active received) (st, cs) ids)) \<and>
         ms_next_cursor (fst (foldl (cancel_active received) (st, cs) ids)) = ms_next_cursor st"
  (is "?P (foldl (cancel_active received) (st, cs) ids)")
proof (rule foldl_keeps [where P = ?P])
  show "?P (st, cs)" using assms by simp
  fix a rid assume a: "?P a"
  obtain s d where [simp]: "a = (s, d)" by fastforce
  have "same_plans st (fst (cancel_active received a rid))"
    using a cancel_active_same_plans [of s received d rid] by (simp add: same_plans_def)
  with a show "?P (cancel_active received a rid)"
    using cancel_active_inv [of s received d rid] cancel_active_frame(1) [of received a rid] by simp
qed

lemma bt_wf_runs: "mem_inv st \<Longrightarrow> bt_wf (ms_runs st)"
  by (simp add: mem_inv_def runs_wf_def)

text \<open>The four ways the loop body for one planned run can end.\<close>

lemma admit_plan_cases:
  fixes ch received cursor p acc
  defines "plan \<equiv> p\<lparr>pr_event_cursor := cursor\<rparr>"
  defines "st1 \<equiv> drop_obsolete received plan (ac_state acc)"
  defines "active \<equiv> active_group_runs st1 (pr_concurrency_group p)"
  assumes "admit_plan ch received cursor p acc = Ok acc'"
  obtains
    (suppressed) "minimum_interval_suppresses ch (ac_state acc) plan = Ok True"
      "acc' = acc\<lparr>ac_skipped := ac_skipped acc @ [pr_id p]\<rparr>"
  | (skipped) "idempotency_taken st1 plan \<or> pr_concurrency_policy p = Skip \<and> active \<noteq> []"
      "acc' = acc\<lparr>ac_state := st1, ac_skipped := ac_skipped acc @ [pr_id p]\<rparr>"
  | (replaced) st2 cs where "\<not> idempotency_taken st1 plan" "pr_concurrency_policy p = Replace"
      "foldl (cancel_active received) (st1, ac_cancelled acc) active = (st2, cs)"
      "acc' = acc\<lparr>ac_state := st2\<lparr>ms_runs := bt_insert (pr_id p)
                (admitted (plan\<lparr>pr_replacement_blockers := active\<rparr>)) (ms_runs st2)\<rparr>,
              ac_admitted := ac_admitted acc @ [pr_id p], ac_cancelled := cs\<rparr>"
  | (queued) "\<not> idempotency_taken st1 plan" "pr_concurrency_policy p \<noteq> Replace"
      "pr_concurrency_policy p = Skip \<Longrightarrow> active = []"
      "acc' = acc\<lparr>ac_state := st1\<lparr>ms_runs := bt_insert (pr_id p) (admitted plan) (ms_runs st1)\<rparr>,
              ac_admitted := ac_admitted acc @ [pr_id p]\<rparr>"
proof -
  have plan: "pr_id plan = pr_id p" "pr_concurrency_policy plan = pr_concurrency_policy p"
    "pr_concurrency_group plan = pr_concurrency_group p" by (simp_all add: plan_def)
  from assms(4) obtain b where b: "minimum_interval_suppresses ch (ac_state acc) plan = Ok b"
    and rest: "admit_plan ch received cursor p acc = Ok acc'"
    by (auto simp: admit_plan_def Let_def plan_def)
  obtain st2 cs where fold: "foldl (cancel_active received) (st1, ac_cancelled acc) active = (st2, cs)"
    by fastforce
  note unfolded = rest [unfolded admit_plan_def Let_def, folded plan_def, folded st1_def,
    unfolded plan, folded active_def, unfolded b bind_res.simps fold prod.case]
  show ?thesis
  proof (cases b)
    case True
    with unfolded b show ?thesis by (intro suppressed) simp_all
  next
    case nb: False
    show ?thesis
    proof (cases "idempotency_taken st1 plan \<or> pr_concurrency_policy p = Skip \<and> active \<noteq> []")
      case True
      with unfolded nb show ?thesis by (intro skipped) (auto split: if_splits)
    next
      case False
      show ?thesis
      proof (cases "pr_concurrency_policy p = Replace")
        case True
        with unfolded nb False fold plan show ?thesis by (intro replaced) auto
      next
        case nr: False
        with unfolded nb False plan show ?thesis by (intro queued) (auto split: if_splits)
      qed
    qed
  qed
qed

lemma admit_plan_inv:
  assumes "admit_plan ch received cursor p acc = Ok acc'" "mem_inv (ac_state acc)"
    and "cursor \<le> ms_next_cursor (ac_state acc)"
  shows "mem_inv (ac_state acc') \<and> ms_next_cursor (ac_state acc') = ms_next_cursor (ac_state acc)"
  using assms(1)
proof (cases rule: admit_plan_cases)
  case (replaced st2 cs)
  let ?plan = "p\<lparr>pr_event_cursor := cursor\<rparr>"
  let ?st1 = "drop_obsolete received ?plan (ac_state acc)"
  have st1: "mem_inv ?st1" using assms(2) by (rule drop_obsolete_inv)
  from cancel_fold_invariant [OF st1] replaced(3)
  have st2: "mem_inv st2" "same_plans ?st1 st2" "ms_next_cursor st2 = ms_next_cursor (ac_state acc)"
    by (metis fst_conv drop_obsolete_frame(1))+
  have "\<not> idempotency_taken st2 ?plan"
    using same_plans_idempotency [OF st2(2)] st1 st2(1) replaced(1) bt_wf_runs by metis
  then have free: "\<not> idempotency_taken st2 (?plan\<lparr>pr_replacement_blockers := x\<rparr>)" for x
    by (simp add: idempotency_taken_def)
  show ?thesis using mem_inv_admit_run [OF st2(1) free] st2(3) assms(3) replaced(4) by simp
next
  case queued
  then show ?thesis
    using mem_inv_admit_run [OF drop_obsolete_inv [OF assms(2)] queued(1)] assms(3) by simp
qed (use assms(2) drop_obsolete_inv in auto)

lemma admit_plans_inv:
  "admit_plans ch received cursor ps acc = Ok acc' \<Longrightarrow> mem_inv (ac_state acc) \<Longrightarrow>
   cursor \<le> ms_next_cursor (ac_state acc) \<Longrightarrow>
   mem_inv (ac_state acc') \<and> ms_next_cursor (ac_state acc') = ms_next_cursor (ac_state acc)"
proof (induction ps arbitrary: acc)
  case (Cons p ps)
  from Cons.prems(1) obtain acc1 where 1: "admit_plan ch received cursor p acc = Ok acc1"
    and 2: "admit_plans ch received cursor ps acc1 = Ok acc'" by auto
  from admit_plan_inv [OF 1 Cons.prems(2,3)] Cons.IH [OF 2] Cons.prems(3) show ?case by simp
qed simp

lemma journal_wf_snoc:
  assumes j: "journal_wf next ret evs idx" and fresh: "bt_get idx (event_key e) = None"
    and c: "ej_cursor e = Suc next"
  shows "journal_wf (Suc next) ret (evs @ [e]) (bt_insert (event_key e) (Suc next) idx)"
proof -
  have wf: "bt_wf idx" "ret \<le> next" "sorted_wrt (<) (map ej_cursor evs)"
    and evs: "\<And>x. x \<in> set evs \<Longrightarrow> ret < ej_cursor x \<and> bt_get idx (event_key x) = Some (ej_cursor x)"
    and bound: "\<And>k c. bt_get idx k = Some c \<Longrightarrow> 0 < c \<and> c \<le> next"
    and compl: "\<And>k c. bt_get idx k = Some c \<Longrightarrow> ret < c \<Longrightarrow> \<exists>x \<in> set evs. ej_cursor x = c \<and> event_key x = k"
    and inj: "\<And>k1 k2 c. bt_get idx k1 = Some c \<Longrightarrow> bt_get idx k2 = Some c \<Longrightarrow> k1 = k2"
    using j unfolding journal_wf_def by blast+
  have new: "bt_get idx k \<noteq> Some (Suc next)" for k using bound by fastforce
  have neq: "event_key x \<noteq> event_key e" if "x \<in> set evs" for x using evs [OF that] fresh by auto
  have lt: "ej_cursor x < Suc next" if "x \<in> set evs" for x using evs [OF that] bound by fastforce
  show ?thesis unfolding journal_wf_def
  proof (intro conjI)
    show "bt_wf (bt_insert (event_key e) (Suc next) idx)" "ret \<le> Suc next" using wf by simp_all
    show "sorted_wrt (<) (map ej_cursor (evs @ [e]))" using wf lt c by (auto simp: sorted_wrt_append)
    show "\<forall>x \<in> set (evs @ [e]). ret < ej_cursor x \<and>
        bt_get (bt_insert (event_key e) (Suc next) idx) (event_key x) = Some (ej_cursor x)"
      using evs neq wf c by auto
    show "\<forall>k d. bt_get (bt_insert (event_key e) (Suc next) idx) k = Some d \<longrightarrow> 0 < d \<and> d \<le> Suc next"
      using bound by (auto simp: le_SucI split: if_splits)
    show "\<forall>k d. bt_get (bt_insert (event_key e) (Suc next) idx) k = Some d \<longrightarrow> ret < d \<longrightarrow>
        (\<exists>x \<in> set (evs @ [e]). ej_cursor x = d \<and> event_key x = k)"
      using compl c by (auto split: if_splits)
    show "\<forall>k1 k2 d. bt_get (bt_insert (event_key e) (Suc next) idx) k1 = Some d \<longrightarrow>
        bt_get (bt_insert (event_key e) (Suc next) idx) k2 = Some d \<longrightarrow> k1 = k2"
      using inj new by (metis bt_get_insert option.inject)
  qed
qed

lemma journal_event_inv:
  assumes inv: "mem_inv st"
    and fresh: "bt_get (ms_event_index st) (pe_source_runtime e, pe_event_id e) = None"
  shows "mem_inv (journal_event e st)"
proof -
  let ?e = "\<lparr> ej_cursor = Suc (ms_next_cursor st), ej_source_runtime = pe_source_runtime e,
    ej_event_id = pe_event_id e, ej_envelope = pe_envelope e, ej_received_at = pe_received_at e \<rparr>"
  have "journal_wf (ms_next_cursor st) (ms_retained_after st) (ms_events st) (ms_event_index st)"
    using inv by (simp add: mem_inv_def)
  from journal_wf_snoc [OF this, of ?e] fresh
  have "journal_wf (Suc (ms_next_cursor st)) (ms_retained_after st) (ms_events st @ [?e])
      (bt_insert (pe_source_runtime e, pe_event_id e) (Suc (ms_next_cursor st)) (ms_event_index st))"
    by (simp add: event_key_def)
  moreover have "runs_wf (Suc (ms_next_cursor st)) (ms_runs st)"
    using inv by (auto simp: mem_inv_def runs_wf_def le_SucI)
  ultimately show ?thesis
    using inv by (simp add: mem_inv_def journal_event_def Let_def)
qed

lemma journal_event_frame [run_frame, simp]:
  "ms_next_cursor (journal_event e st) = Suc (ms_next_cursor st)"
  "ms_runs (journal_event e st) = ms_runs st"
  "ms_run_leases (journal_event e st) = ms_run_leases st"
  "ms_timers (journal_event e st) = ms_timers st"
  "ms_timer_leases (journal_event e st) = ms_timer_leases st"
  "ms_retained_after (journal_event e st) = ms_retained_after st"
  by (simp_all add: journal_event_def Let_def)

lemma admit_inv:
  assumes "admit ch e st = Ok (st', out)" "mem_inv st"
  shows "mem_inv st'"
proof (cases "bt_get (ms_event_index st) (pe_source_runtime e, pe_event_id e)")
  case None
  with assms(1) obtain acc where
    acc: "admit_plans ch (pe_received_at e) (Suc (ms_next_cursor st)) (pe_runs e)
       \<lparr> ac_state = journal_event e st, ac_admitted = [], ac_skipped = [], ac_cancelled = [] \<rparr> = Ok acc"
    and st': "st' = ac_state acc"
    by (auto simp: admit_def Let_def)
  from admit_plans_inv [OF acc] journal_event_inv [OF assms(2) None] st' show ?thesis by simp
next
  case (Some c)
  with assms show ?thesis by (simp add: admit_def)
qed

lemma admit_all_inv: "admit_all ch es st = Ok st' \<Longrightarrow> mem_inv st \<Longrightarrow> mem_inv st'"
proof (induction es arbitrary: st)
  case (Cons e es)
  then show ?case by (auto dest: admit_inv)
qed simp

text \<open>Admission has no error path of its own: it succeeds, or the interval addition panics.\<close>

lemma minimum_interval_not_Err: "minimum_interval_suppresses ch st p \<noteq> Err e"
proof -
  have "interval_any ch p d rs \<noteq> Err e" for d rs
    by (induction rs) (auto split: option.splits)
  then show ?thesis by (simp add: minimum_interval_suppresses_def split: option.splits)
qed

lemma admit_plan_not_Err: "admit_plan ch received cursor p acc \<noteq> Err e"
  by (auto simp: admit_plan_def Let_def bind_res_eq_Err minimum_interval_not_Err
      split: prod.splits if_splits)

lemma admit_not_Err: "admit ch e st \<noteq> Err er"
proof -
  have "admit_plans ch received cursor ps acc \<noteq> Err er" for received cursor ps acc
    by (induction ps arbitrary: acc) (auto simp: bind_res_eq_Err admit_plan_not_Err)
  then show ?thesis by (auto simp: admit_def Let_def bind_res_eq_Err split: option.splits)
qed

lemma admit_all_not_Err: "admit_all ch es st \<noteq> Err er"
  by (induction es arbitrary: st) (auto simp: bind_res_eq_Err admit_not_Err)

section \<open>Operations on runs\<close>

lemma leases_wf_retain: "leases_wf runs leases \<Longrightarrow> leases_wf runs (live_leases now leases)"
  by (auto simp: leases_wf_def live_leases_def split: option.splits if_splits)

lemma start_run_frame [run_frame, simp]:
  "rr_plan (start_run now r) = rr_plan r" "rr_steps (start_run now r) = rr_steps r"
  "rr_attempts (start_run now r) = rr_attempts r"
  "rr_active_attempt (start_run now r) = rr_active_attempt r"
  "rr_next_step (start_run now r) = rr_next_step r"
  "rr_revision (start_run now r) = rr_revision r"
  "rr_created_at (start_run now r) = rr_created_at r"
  "rr_cancel_requested_at (start_run now r) = rr_cancel_requested_at r"
  "rr_status (start_run now r) = (if rr_status r = RunQueued then RunRunning else rr_status r)"
  by (simp_all add: start_run_def)

lemma start_run_wf: "run_wf r \<Longrightarrow> run_wf (start_run now r)"
  by (auto simp: run_wf_def start_run_def)

text \<open>What a successful claim did, and that the other results only dropped expired leases.\<close>

lemma mem_claim_run_cases:
  fixes st now
  defines "st1 \<equiv> st\<lparr>ms_run_leases := live_leases now (ms_run_leases st)\<rparr>"
  assumes claim: "mem_claim_run ch ulid executor worker now lease_for st = (st', res)"
    and wf: "runs_wf (ms_next_cursor st) (ms_runs st)"
  obtains
    (none) "st' = st1" "res = Ok None"
      "\<forall>r \<in> set (bt_values (ms_runs st)). \<not> claimable st1 executor now r"
  | (clock) "st' = st1" "\<And>c. res \<noteq> Ok c" "\<not> is_ok (add_std_duration ch now lease_for)"
  | (claimed) r expires_at where
      "bt_get (ms_runs st) (run_id r) = Some r" "claimable st1 executor now r"
      "\<forall>q \<in> set (bt_values (ms_runs st)). claimable st1 executor now q \<longrightarrow>
         (rr_created_at r, run_id r) \<le> (rr_created_at q, run_id q)"
      "add_std_duration ch now lease_for = Ok expires_at"
      "st' = st1\<lparr>ms_runs := bt_insert (run_id r) (start_run now r) (ms_runs st),
                 ms_run_leases := bt_insert (run_id r)
                   \<lparr> le_worker = worker, le_token = ''lease_'' @ ulid, le_expires_at = expires_at \<rparr>
                   (ms_run_leases st1)\<rparr>"
      "res = Ok (Some \<lparr> cl_run = start_run now r, cl_worker = worker, cl_token = ''lease_'' @ ulid,
                        cl_expires_at = expires_at \<rparr>)"
proof (cases "min_by_key (\<lambda>run. (rr_created_at run, run_id run))
    (filter (claimable st1 executor now) (bt_values (ms_runs st1)))")
  case None
  with claim show ?thesis
    by (intro none) (auto simp: mem_claim_run_def Let_def st1_def filter_empty_conv)
next
  case (Some r)
  from min_by_key_Some [OF Some]
  have r: "r \<in> set (bt_values (ms_runs st))" "claimable st1 executor now r"
    and least: "\<forall>q \<in> set (bt_values (ms_runs st)). claimable st1 executor now q \<longrightarrow>
         (rr_created_at r, run_id r) \<le> (rr_created_at q, run_id q)"
    by (auto simp: st1_def)
  from r(1) wf have get: "bt_get (ms_runs st) (run_id r) = Some r"
    by (auto simp: runs_wf_def in_bt_values)
  show ?thesis
  proof (cases "add_std_duration ch now lease_for")
    case (Ok e)
    with claim Some get show ?thesis
      by (intro claimed [OF get r(2) least Ok]) (auto simp: mem_claim_run_def Let_def st1_def)
  qed (use claim Some in \<open>auto simp: mem_claim_run_def Let_def st1_def intro: clock\<close>)
qed

lemma not_blocked_by_group:
  assumes "\<not> blocked_by_group st r" "bt_get (ms_runs st) k = Some q" "run_id q = k" "k \<noteq> run_id r"
    and "pr_concurrency_group (rr_plan q) = pr_concurrency_group (rr_plan r)"
  shows "\<not> in_progress q"
    and "rr_status q = RunQueued \<Longrightarrow>
         (pr_event_cursor (rr_plan r), run_id r) \<le> (pr_event_cursor (rr_plan q), run_id q)"
  using assms bt_get_value [OF assms(2)]
  by (auto simp: blocked_by_group_def list_ex_iff in_progress_def not_less)

lemma mem_claim_run_inv:
  assumes claim: "mem_claim_run ch ulid executor worker now lease_for st = (st', res)"
    and inv: "mem_inv st"
  shows "mem_inv st'"
proof -
  let ?st1 = "st\<lparr>ms_run_leases := live_leases now (ms_run_leases st)\<rparr>"
  have inv1: "mem_inv ?st1" using inv leases_wf_retain by (auto simp: mem_inv_def)
  have wf: "runs_wf (ms_next_cursor st) (ms_runs st)" using inv by (simp add: mem_inv_def)
  from claim wf show ?thesis
  proof (cases rule: mem_claim_run_cases)
    case (claimed r e)
    have keyed: "run_id q = k" if "bt_get (ms_runs st) k = Some q" for k q
      using that wf by (simp add: runs_wf_def)
    have groups: "groups_wf (bt_insert (run_id r) (start_run now r) (ms_runs st))"
    proof (rule groups_wf_insert)
      show "groups_wf (ms_runs st)" using inv by (simp add: mem_inv_def)
      assume "serialised (start_run now r)"
      with claimed(2) have "\<not> blocked_by_group ?st1 r"
        by (simp add: claimable_def group_is_runnable_def serialised_def)
      then show "\<forall>j s. bt_get (ms_runs st) j = Some s \<longrightarrow> in_progress s \<longrightarrow> serialised s \<longrightarrow>
          pr_concurrency_group (rr_plan s) = pr_concurrency_group (rr_plan (start_run now r)) \<longrightarrow>
          j = run_id r"
        using not_blocked_by_group(1) [of ?st1 r] keyed by auto
    qed
    have idem: "idem_wf (bt_insert (run_id r) (start_run now r) (ms_runs st))"
    proof (rule idem_wf_insert)
      show "idem_wf (ms_runs st)" using inv by (simp add: mem_inv_def)
      show "j = run_id r" if "bt_get (ms_runs st) j = Some s"
        "same_idempotency (rr_plan s) (rr_plan (start_run now r))" for j s
        using that claimed(1) inv unfolding mem_inv_def idem_wf_def by simp
    qed
    have runs: "runs_wf (ms_next_cursor st) (bt_insert (run_id r) (start_run now r) (ms_runs st))"
      using wf runs_wfD [OF wf claimed(1)] by (auto intro!: runs_wf_insert start_run_wf)
    have "leases_wf (ms_runs st') (ms_run_leases st')"
      using inv1 claimed(2) by (auto simp: claimed(5) mem_inv_def leases_wf_def claimable_def)
    with groups idem runs inv1 show ?thesis by (simp add: claimed(5) mem_inv_def)
  qed (use inv1 in auto)
qed

lemma mem_commit_run_cases:
  assumes "mem_commit_run ch c es st = (st', res)"
  obtains
    (rejected) msg where "st' = st" "res = Err (Diagnostic ''stale_lease'' msg)"
  | (no_run) "bt_get (ms_runs st) (run_id (cl_run c)) = None" "res = Panic"
  | (emit_failed) "res = Panic" "\<And>x. admit_all ch es (st\<lparr>ms_runs :=
        bt_insert (run_id (cl_run c)) ((cl_run c)\<lparr>rr_revision := rr_revision (cl_run c) + 1\<rparr>) (ms_runs st)\<rparr>)
        \<noteq> Ok x"
  | (committed) stored l st2 where
      "bt_get (ms_run_leases st) (run_id (cl_run c)) = Some l"
      "le_worker l = cl_worker c" "le_token l = cl_token c"
      "bt_get (ms_runs st) (run_id (cl_run c)) = Some stored"
      "rr_revision stored = rr_revision (cl_run c)"
      "admit_all ch es (st\<lparr>ms_runs := bt_insert (run_id (cl_run c))
          ((cl_run c)\<lparr>rr_revision := rr_revision (cl_run c) + 1\<rparr>) (ms_runs st)\<rparr>) = Ok st2"
      "st' = (if terminal (rr_status (cl_run c))
              then st2\<lparr>ms_run_leases := bt_remove (run_id (cl_run c)) (ms_run_leases st2)\<rparr> else st2)"
      "res = Ok (c\<lparr>cl_run := (cl_run c)\<lparr>rr_revision := rr_revision (cl_run c) + 1\<rparr>\<rparr>)"
proof (cases "bt_get (ms_run_leases st) (run_id (cl_run c))")
  case None
  with assms show ?thesis by (intro rejected) (auto simp: mem_commit_run_def validate_claim_def)
next
  case lease: (Some l)
  show ?thesis
  proof (cases "le_worker l = cl_worker c \<and> le_token l = cl_token c")
    case False
    with assms lease show ?thesis
      by (intro rejected) (auto simp: mem_commit_run_def validate_claim_def)
  next
    case holder: True
    with lease have valid: "validate_claim st c = Ok ()" by (simp add: validate_claim_def)
    show ?thesis
    proof (cases "bt_get (ms_runs st) (run_id (cl_run c))")
      case None
      with assms valid show ?thesis by (intro no_run) (auto simp: mem_commit_run_def)
    next
      case stored: (Some r)
      show ?thesis
      proof (cases "rr_revision r = rr_revision (cl_run c)")
        case False
        with assms valid stored show ?thesis by (intro rejected) (auto simp: mem_commit_run_def)
      next
        case rev: True
        let ?st1 = "st\<lparr>ms_runs := bt_insert (run_id (cl_run c))
          ((cl_run c)\<lparr>rr_revision := rr_revision (cl_run c) + 1\<rparr>) (ms_runs st)\<rparr>"
        show ?thesis
        proof (cases "admit_all ch es ?st1")
          case (Ok st2)
          with assms valid stored rev holder show ?thesis
            by (intro committed [OF lease _ _ stored rev Ok])
               (auto simp: mem_commit_run_def Let_def split: if_splits)
        next
          case (Err e)
          then show ?thesis by (simp add: admit_all_not_Err)
        next
          case Panic
          with assms valid stored rev show ?thesis
            by (intro emit_failed) (auto simp: mem_commit_run_def Let_def)
        qed
      qed
    qed
  qed
qed

text \<open>A claim whose run is an evolution of the stored run it was taken from.\<close>

definition claim_evolves :: "mem_state \<Rightarrow> claim \<Rightarrow> bool" where
  "claim_evolves st c \<longleftrightarrow>
     (\<forall>l stored. bt_get (ms_run_leases st) (run_id (cl_run c)) = Some l \<longrightarrow>
        le_token l = cl_token c \<longrightarrow> bt_get (ms_runs st) (run_id (cl_run c)) = Some stored \<longrightarrow>
        rr_revision stored = rr_revision (cl_run c) \<longrightarrow> run_evolves stored (cl_run c))"

text \<open>
  Committing with emitted events: the run is stored first, the events are admitted next, and
  the lease of a terminal run goes last. Admission never reads a run lease and only removes
  leases, so taking the lease out before the events gives the same state.
\<close>

definition drop_lease :: "string \<Rightarrow> mem_state \<Rightarrow> mem_state" where
  "drop_lease k st = st\<lparr>ms_run_leases := bt_remove k (ms_run_leases st)\<rparr>"

lemma drop_lease_simps [simp]:
  "ms_runs (drop_lease k st) = ms_runs st"
  "ms_run_leases (drop_lease k st) = bt_remove k (ms_run_leases st)"
  "ms_next_cursor (drop_lease k st) = ms_next_cursor st"
  "ms_event_index (drop_lease k st) = ms_event_index st"
  by (simp_all add: drop_lease_def)

lemma bt_remove_commute: "bt_remove j (bt_remove k m) = bt_remove k (bt_remove j m)"
  by (simp add: bt_remove_def conj_commute)

lemma drop_lease_remove_run: "remove_run rid (drop_lease k st) = drop_lease k (remove_run rid st)"
  by (simp add: remove_run_def drop_lease_def bt_remove_commute)

lemma drop_lease_drop_obsolete:
  "drop_obsolete received p (drop_lease k st) = drop_lease k (drop_obsolete received p st)"
proof -
  have "foldl (\<lambda>s rid. remove_run rid s) (drop_lease k st) ids =
      drop_lease k (foldl (\<lambda>s rid. remove_run rid s) st ids)" for ids
    by (induction ids arbitrary: st) (simp_all add: drop_lease_remove_run)
  then show ?thesis by (simp add: drop_obsolete_def)
qed

lemma drop_lease_cancel_active:
  "cancel_active received (drop_lease k st, cs) rid =
     (let (s, d) = cancel_active received (st, cs) rid in (drop_lease k s, d))"
  by (cases "bt_get (ms_runs st) rid")
     (auto simp: cancel_active_def Let_def drop_lease_def bt_remove_commute split: prod.splits)

lemma drop_lease_cancel_fold:
  "foldl (cancel_active received) (drop_lease k st, cs) ids =
     (let (s, d) = foldl (cancel_active received) (st, cs) ids in (drop_lease k s, d))"
proof (induction ids arbitrary: st cs)
  case (Cons i ids)
  obtain s d where "cancel_active received (st, cs) i = (s, d)" by fastforce
  with Cons drop_lease_cancel_active [of received k st cs i] show ?case by simp
qed simp

lemma drop_lease_admit_plan:
  "admit_plan ch received cursor p (acc\<lparr>ac_state := drop_lease k (ac_state acc)\<rparr>) =
     bind_res (admit_plan ch received cursor p acc) (\<lambda>a. Ok (a\<lparr>ac_state := drop_lease k (ac_state a)\<rparr>))"
proof -
  let ?p = "p\<lparr>pr_event_cursor := cursor\<rparr>"
  let ?st1 = "drop_obsolete received ?p (ac_state acc)"
  let ?act = "active_group_runs ?st1 (pr_concurrency_group p)"
  have same: "minimum_interval_suppresses ch (drop_lease k st) q = minimum_interval_suppresses ch st q"
    "idempotency_taken (drop_lease k st) q = idempotency_taken st q"
    "active_group_runs (drop_lease k st) g = active_group_runs st g" for st q g
    by (simp_all add: minimum_interval_suppresses_def idempotency_taken_def active_group_runs_def
        split: option.splits)
  obtain s d where fold: "foldl (cancel_active received) (?st1, ac_cancelled acc) ?act = (s, d)"
    by fastforce
  with drop_lease_cancel_fold [of received k ?st1 "ac_cancelled acc" ?act]
  have fold': "foldl (cancel_active received) (drop_lease k ?st1, ac_cancelled acc) ?act = (drop_lease k s, d)"
    by simp
  have upd: "drop_lease k st\<lparr>ms_runs := x\<rparr> = drop_lease k (st\<lparr>ms_runs := x\<rparr>)" for st x
    by (simp add: drop_lease_def)
  show ?thesis
    by (cases "minimum_interval_suppresses ch (ac_state acc) ?p")
       (simp_all add: admit_plan_def Let_def same drop_lease_drop_obsolete fold fold' upd)
qed

lemma drop_lease_admit_plans:
  "admit_plans ch received cursor ps (acc\<lparr>ac_state := drop_lease k (ac_state acc)\<rparr>) =
     bind_res (admit_plans ch received cursor ps acc) (\<lambda>a. Ok (a\<lparr>ac_state := drop_lease k (ac_state a)\<rparr>))"
proof (induction ps arbitrary: acc)
  case (Cons p ps)
  then show ?case
    by (cases "admit_plan ch received cursor p acc") (simp_all add: drop_lease_admit_plan)
qed simp

lemma drop_lease_admit:
  "admit ch e (drop_lease k st) = bind_res (admit ch e st) (\<lambda>(s, out). Ok (drop_lease k s, out))"
proof (cases "bt_get (ms_event_index st) (pe_source_runtime e, pe_event_id e)")
  case None
  have j: "journal_event e (drop_lease k st) = drop_lease k (journal_event e st)"
    by (simp add: journal_event_def drop_lease_def Let_def)
  let ?acc = "\<lparr> ac_state = journal_event e st, ac_admitted = [], ac_skipped = [], ac_cancelled = [] \<rparr>"
  from drop_lease_admit_plans [where acc = ?acc and k = k]
  show ?thesis
    by (cases "admit_plans ch (pe_received_at e) (Suc (ms_next_cursor st)) (pe_runs e) ?acc")
       (simp_all add: admit_def None Let_def j)
qed (simp add: admit_def)

lemma drop_lease_admit_all:
  "admit_all ch es (drop_lease k st) = bind_res (admit_all ch es st) (\<lambda>s. Ok (drop_lease k s))"
proof (induction es arbitrary: st)
  case (Cons e es)
  then show ?case by (cases "admit ch e st") (auto simp: drop_lease_admit split: prod.splits)
qed simp

lemma mem_commit_run_inv:
  assumes commit: "mem_commit_run ch c es st = (st', res)" "res \<noteq> Panic" and inv: "mem_inv st"
    and ev: "claim_evolves st c"
  shows "mem_inv st'"
  using commit(1)
proof (cases rule: mem_commit_run_cases)
  case (committed stored l st2)
  let ?r = "(cl_run c)\<lparr>rr_revision := rr_revision (cl_run c) + 1\<rparr>"
  let ?k = "run_id (cl_run c)"
  let ?st1 = "st\<lparr>ms_runs := bt_insert ?k ?r (ms_runs st)\<rparr>"
  from ev committed(1,3,4,5) have "run_evolves stored (cl_run c)" by (simp add: claim_evolves_def)
  then have "run_evolves stored ?r" by (simp add: run_evolves_def)
  from mem_inv_put_run [OF inv committed(4) this]
  have put: "mem_inv (if terminal (rr_status ?r) then drop_lease ?k ?st1 else ?st1)"
    by (simp add: put_run_def drop_lease_def Let_def split: if_splits)
  show ?thesis
  proof (cases "terminal (rr_status (cl_run c))")
    case True
    from committed(6) have "admit_all ch es (drop_lease ?k ?st1) = Ok (drop_lease ?k st2)"
      by (simp add: drop_lease_admit_all)
    with put True have "mem_inv (drop_lease ?k st2)" by (auto intro: admit_all_inv)
    with True committed(7) show ?thesis by (simp add: drop_lease_def)
  next
    case False
    with put committed(6,7) show ?thesis by (auto intro: admit_all_inv)
  qed
qed (use inv commit in auto)

lemma mem_request_cancel_cases:
  assumes "mem_request_cancel rid now st = (st', res)"
  obtains
    (refused) "st' = st" "res = Ok False"
      "bt_get (ms_runs st) rid = None \<or> (\<exists>r. bt_get (ms_runs st) rid = Some r \<and> terminal (rr_status r))"
  | (accepted) r r' where "bt_get (ms_runs st) rid = Some r" "\<not> terminal (rr_status r)"
      "request_cancel_run now r = (r', True)" "res = Ok True"
      "st' = put_run rid (r'\<lparr>rr_revision := rr_revision r' + 1\<rparr>) st"
proof (cases "bt_get (ms_runs st) rid")
  case None
  with assms show ?thesis by (intro refused) (simp_all add: mem_request_cancel_def)
next
  case (Some r)
  obtain r' b where rb: "request_cancel_run now r = (r', b)" by fastforce
  with request_cancel_run_accepts [of now r] have b: "b \<longleftrightarrow> \<not> terminal (rr_status r)" by simp
  show ?thesis
  proof (cases b)
    case True
    with rb b assms Some show ?thesis
      by (intro accepted [OF Some]) (auto simp: mem_request_cancel_def put_run_def Let_def)
  next
    case False
    with rb b assms Some show ?thesis by (intro refused) (auto simp: mem_request_cancel_def)
  qed
qed

lemma mem_request_cancel_inv:
  assumes "mem_request_cancel rid now st = (st', res)" "mem_inv st"
  shows "mem_inv st'"
  using assms(1)
proof (cases rule: mem_request_cancel_cases)
  case (accepted r r')
  from assms(2) accepted(1) have "run_wf r" by (simp add: mem_inv_def runs_wf_def)
  from request_cancel_evolves(2) [OF accepted(3) this] mem_inv_put_run [OF assms(2) accepted(1)]
  show ?thesis by (simp add: accepted(5))
qed (use assms(2) in auto)

section \<open>Operations on the journal\<close>

lemma journal_wf_prune:
  assumes j: "journal_wf next ret evs idx" and ge: "ret \<le> n" "n \<le> next"
  shows "journal_wf next n (filter (\<lambda>e. n < ej_cursor e) evs) idx"
proof -
  have "sorted_wrt (<) (map ej_cursor (filter (\<lambda>e. n < ej_cursor e) evs))"
    using j unfolding journal_wf_def sorted_wrt_map by (blast intro: sorted_wrt_filter)
  with j ge show ?thesis unfolding journal_wf_def
    by (auto simp: less_le_trans) (metis le_less_trans)+
qed

lemma mem_prune_inv:
  assumes "mem_prune_events_through cursor st = (st', res)" "mem_inv st"
  shows "mem_inv st'"
proof -
  let ?n = "max (min cursor (ms_next_cursor st)) (ms_retained_after st)"
  have j: "journal_wf (ms_next_cursor st) (ms_retained_after st) (ms_events st) (ms_event_index st)"
    using assms(2) by (simp add: mem_inv_def)
  then have "?n \<le> ms_next_cursor st" by (simp add: journal_wf_def)
  from journal_wf_prune [OF j _ this] assms show ?thesis
    by (auto simp: mem_prune_events_through_def Let_def mem_inv_def)
qed

section \<open>Operations on timers\<close>

lemma timers_wf_schedule:
  assumes "timers_wf timers leases" "tr_id t = k" "1 \<le> tr_generation t"
    "tr_generation t \<le> TIMER_GENERATION_MAX"
  shows "timers_wf (bt_insert k t timers) (bt_remove k leases)"
  using assms unfolding timers_wf_def by auto

lemma timers_wf_cancel:
  assumes "timers_wf timers leases"
  shows "timers_wf (bt_modify k (\<lambda>t. t\<lparr>tr_status := TimerCancelled, tr_updated_at := now\<rparr>) timers)
           (bt_remove k leases)"
  using assms unfolding timers_wf_def by (auto split: if_splits)

lemma schedule_timer_inv:
  "mem_inv st \<Longrightarrow> 1 \<le> tr_generation t \<Longrightarrow> tr_generation t \<le> TIMER_GENERATION_MAX \<Longrightarrow>
   mem_inv (schedule_timer t st)"
  by (auto simp: mem_inv_def schedule_timer_def intro: timers_wf_schedule)

lemma cancel_timer_entry_inv: "mem_inv st \<Longrightarrow> mem_inv (cancel_timer_entry tid now st)"
  by (auto simp: mem_inv_def cancel_timer_entry_def intro: timers_wf_cancel)

lemma mem_upsert_timer_inv:
  "mem_upsert_timer t st = (st', res) \<Longrightarrow> mem_inv st \<Longrightarrow> mem_inv st'"
  by (auto simp: mem_upsert_timer_def Let_def mem_inv_def
      intro!: timers_wf_schedule split: res.splits)

lemma mem_reconcile_timer_exact_inv:
  assumes "mem_reconcile_timer_exact desired now st = (st', res)" "mem_inv st"
  shows "mem_inv st'"
proof -
  have "mem_inv (schedule_timer t st)"
    if "next_timer_generation cur desired now = Ok t" for cur t
    using next_timer_generation_Ok [OF that] assms(2) by (intro schedule_timer_inv) auto
  with assms show ?thesis
    by (auto simp: mem_reconcile_timer_exact_def Let_def split: option.splits res.splits if_splits)
qed

lemma mem_cancel_timer_inv:
  "mem_cancel_timer tid gen now st = (st', res) \<Longrightarrow> mem_inv st \<Longrightarrow> mem_inv st'"
  by (auto simp: mem_cancel_timer_def intro: cancel_timer_entry_inv split: option.splits if_splits)

lemma plan_desired_generation:
  assumes "plan_desired now st d = Ok (t, changed)" "mem_inv st"
  shows "tr_id t = tr_id d" "1 \<le> tr_generation t" "tr_generation t \<le> TIMER_GENERATION_MAX"
proof -
  have "tr_id t = tr_id d \<and> 1 \<le> tr_generation t \<and> tr_generation t \<le> TIMER_GENERATION_MAX"
  proof (cases "next_timer_generation (bt_get (ms_timers st) (tr_id d)) d now = Ok t")
    case True
    then show ?thesis using next_timer_generation_Ok [OF True] by simp
  next
    case False
    with assms(1) have "bt_get (ms_timers st) (tr_id d) = Some t"
      by (auto simp: plan_desired_def Let_def split: option.splits if_splits)
    with assms(2) show ?thesis unfolding mem_inv_def timers_wf_def by blast
  qed
  then show "tr_id t = tr_id d" "1 \<le> tr_generation t" "tr_generation t \<le> TIMER_GENERATION_MAX"
    by auto
qed

lemma mem_reconcile_timers_inv:
  assumes "mem_reconcile_timers pre desired now st = (st', res)" "mem_inv st"
  shows "mem_inv st'"
proof (cases "map_res (plan_desired now st) desired")
  case (Ok planned)
  let ?st1 = "foldl (\<lambda>s tid. cancel_timer_entry tid now s) st (omitted_timers pre desired st)"
  have "mem_inv ?st1"
    by (rule foldl_keeps [where P = mem_inv]) (auto intro: assms(2) cancel_timer_entry_inv)
  then have "mem_inv (foldl apply_planned ?st1 planned)"
  proof (rule foldl_keeps [where P = mem_inv])
    fix s p assume p: "p \<in> set planned" and s: "mem_inv s"
    from map_res_Ok_set [OF Ok p] obtain d where "plan_desired now st d = Ok (fst p, snd p)" by auto
    from plan_desired_generation [OF this assms(2)] s show "mem_inv (apply_planned s p)"
      by (auto simp: apply_planned_def intro: schedule_timer_inv)
  qed
  with Ok assms(1) show ?thesis by (auto simp: mem_reconcile_timers_def Let_def)
qed (use assms in \<open>auto simp: mem_reconcile_timers_def\<close>)

lemma mem_claim_due_timer_cases:
  fixes st now
  defines "st1 \<equiv> st\<lparr>ms_timer_leases := live_leases now (ms_timer_leases st)\<rparr>"
  assumes claim: "mem_claim_due_timer ch ulid worker now lease_for st = (st', res)"
    and wf: "timers_wf (ms_timers st) (ms_timer_leases st)"
  obtains
    (none) "st' = st1" "res = Ok None"
      "\<forall>t \<in> set (bt_values (ms_timers st)). \<not> timer_due st1 now t"
  | (clock) "st' = st1" "\<And>c. res \<noteq> Ok c" "\<not> is_ok (add_std_duration ch now lease_for)"
  | (claimed) t expires_at where
      "bt_get (ms_timers st) (tr_id t) = Some t" "timer_due st1 now t"
      "\<forall>q \<in> set (bt_values (ms_timers st)). timer_due st1 now q \<longrightarrow>
         (tr_fire_at t, tr_id t) \<le> (tr_fire_at q, tr_id q)"
      "add_std_duration ch now lease_for = Ok expires_at"
      "st' = st1\<lparr>ms_timers := bt_insert (tr_id t)
                   (t\<lparr>tr_status := TimerFiring, tr_updated_at := now\<rparr>) (ms_timers st),
                 ms_timer_leases := bt_insert (tr_id t)
                   \<lparr> le_worker = worker, le_token = ''timer_lease_'' @ ulid, le_expires_at = expires_at \<rparr>
                   (ms_timer_leases st1)\<rparr>"
      "res = Ok (Some \<lparr> tc_timer = t\<lparr>tr_status := TimerFiring, tr_updated_at := now\<rparr>,
                        tc_worker = worker, tc_token = ''timer_lease_'' @ ulid,
                        tc_expires_at = expires_at \<rparr>)"
proof (cases "min_by_key (\<lambda>t. (tr_fire_at t, tr_id t)) (filter (timer_due st1 now) (bt_values (ms_timers st1)))")
  case None
  with claim show ?thesis
    by (intro none) (auto simp: mem_claim_due_timer_def Let_def st1_def filter_empty_conv)
next
  case (Some t)
  from min_by_key_Some [OF Some]
  have t: "t \<in> set (bt_values (ms_timers st))" "timer_due st1 now t"
    and least: "\<forall>q \<in> set (bt_values (ms_timers st)). timer_due st1 now q \<longrightarrow>
         (tr_fire_at t, tr_id t) \<le> (tr_fire_at q, tr_id q)"
    by (auto simp: st1_def)
  from t(1) wf have get: "bt_get (ms_timers st) (tr_id t) = Some t"
    by (auto simp: timers_wf_def in_bt_values)
  show ?thesis
  proof (cases "add_std_duration ch now lease_for")
    case (Ok e)
    with claim Some get show ?thesis
      by (intro claimed [OF get t(2) least Ok]) (auto simp: mem_claim_due_timer_def Let_def st1_def)
  qed (use claim Some in \<open>auto simp: mem_claim_due_timer_def Let_def st1_def intro: clock\<close>)
qed

lemma timers_wf_retain: "timers_wf timers leases \<Longrightarrow> timers_wf timers (live_leases now leases)"
  unfolding timers_wf_def live_leases_def by (auto split: option.splits if_splits)

lemma timers_wf_fire_claim:
  assumes wf: "timers_wf timers leases" and t: "bt_get timers (tr_id t) = Some t"
  shows "timers_wf (bt_insert (tr_id t) (t\<lparr>tr_status := TimerFiring, tr_updated_at := now\<rparr>) timers)
           (bt_insert (tr_id t) l leases)"
proof -
  have "1 \<le> tr_generation t" "tr_generation t \<le> TIMER_GENERATION_MAX"
    using wf t unfolding timers_wf_def by blast+
  with wf show ?thesis unfolding timers_wf_def by auto
qed

lemma mem_claim_due_timer_inv:
  assumes claim: "mem_claim_due_timer ch ulid worker now lease_for st = (st', res)"
    and inv: "mem_inv st"
  shows "mem_inv st'"
proof -
  have wf: "timers_wf (ms_timers st) (ms_timer_leases st)" using inv by (simp add: mem_inv_def)
  note wf1 = timers_wf_retain [OF wf, of now]
  from claim wf show ?thesis
  proof (cases rule: mem_claim_due_timer_cases)
    case (claimed t e)
    from timers_wf_fire_claim [OF wf1 claimed(1)] inv show ?thesis
      by (simp add: claimed(5) mem_inv_def)
  qed (use inv wf1 in \<open>auto simp: mem_inv_def\<close>)
qed

text \<open>How the runtime derives the fired record from its claim: same timer, same generation.\<close>

definition fires_claim :: "timer_claim \<Rightarrow> timer_record \<Rightarrow> bool" where
  "fires_claim c fired \<longleftrightarrow>
     tr_id fired = tr_id (tc_timer c) \<and> tr_generation fired = tr_generation (tc_timer c) \<and>
     tr_status fired = TimerFired"

lemma mem_fire_timer_cases:
  assumes "mem_fire_timer ch c fired e st = (st', res)"
  obtains
    (rejected) code msg where "st' = st" "res = Err (Diagnostic code msg)"
      "code = ''stale_lease'' \<or> code = ''stale_timer_generation''"
  | (fired) l t where
      "bt_get (ms_timer_leases st) (tr_id (tc_timer c)) = Some l"
      "le_token l = tc_token c" "le_worker l = tc_worker c"
      "bt_get (ms_timers st) (tr_id (tc_timer c)) = Some t"
      "tr_generation t = tr_generation (tc_timer c)"
      "(case admit ch e (st\<lparr>ms_timers := bt_insert (tr_id fired) fired (ms_timers st),
                    ms_timer_leases := bt_remove (tr_id (tc_timer c)) (ms_timer_leases st)\<rparr>) of
          Ok (st2, out) \<Rightarrow> st' = st2 \<and> res = Ok out
        | Err _ \<Rightarrow> False
        | Panic \<Rightarrow> res = Panic)"
proof (cases "bt_get (ms_timer_leases st) (tr_id (tc_timer c))")
  case None
  with assms show ?thesis
    by (intro rejected [of "''stale_lease''"]) (auto simp: mem_fire_timer_def)
next
  case lease: (Some l)
  let ?bad = "le_token l \<noteq> tc_token c \<or> le_worker l \<noteq> tc_worker c \<or>
     (case bt_get (ms_timers st) (tr_id (tc_timer c)) of
        None \<Rightarrow> True | Some t \<Rightarrow> tr_generation t \<noteq> tr_generation (tc_timer c))"
  show ?thesis
  proof (cases ?bad)
    case True
    with assms lease show ?thesis
      by (intro rejected [of "''stale_timer_generation''"]) (auto simp: mem_fire_timer_def Let_def)
  next
    case False
    then obtain t where t: "bt_get (ms_timers st) (tr_id (tc_timer c)) = Some t"
      "tr_generation t = tr_generation (tc_timer c)" by (auto split: option.splits)
    let ?st1 = "st\<lparr>ms_timers := bt_insert (tr_id fired) fired (ms_timers st),
      ms_timer_leases := bt_remove (tr_id (tc_timer c)) (ms_timer_leases st)\<rparr>"
    from assms lease False t show ?thesis
      by (intro fired [OF lease _ _ t])
         (cases "admit ch e ?st1"; auto simp: mem_fire_timer_def Let_def admit_not_Err)+
  qed
qed

lemma mem_fire_timer_inv:
  assumes "mem_fire_timer ch c fired e st = (st', res)" "res \<noteq> Panic" "mem_inv st" "fires_claim c fired"
  shows "mem_inv st'"
  using assms(1)
proof (cases rule: mem_fire_timer_cases)
  case (fired l t)
  let ?st1 = "st\<lparr>ms_timers := bt_insert (tr_id fired) fired (ms_timers st),
    ms_timer_leases := bt_remove (tr_id (tc_timer c)) (ms_timer_leases st)\<rparr>"
  have "1 \<le> tr_generation t" "tr_generation t \<le> TIMER_GENERATION_MAX"
    using assms(3) fired(4) unfolding mem_inv_def timers_wf_def by blast+
  with fired(5) assms(3,4) have "mem_inv ?st1"
    by (auto simp: mem_inv_def fires_claim_def intro!: timers_wf_schedule)
  with fired(6) assms(2) show ?thesis
    by (auto split: res.splits prod.splits intro: admit_inv)
qed (use assms in auto)

section \<open>The store as a transition system\<close>

text \<open>
  Every interleaving of the runtimes, workers and timer loops that share a store is a sequence
  of atomic operations. A commit carries an evolution of the claimed run, and a firing the
  record derived from its claim: the two things the engine guarantees.
\<close>

datatype store_op =
    AdmitEvent prepared_event
  | ClaimRun string string string time nat
  | CommitRun claim "prepared_event list"
  | RequestCancel string time
  | PruneEvents nat
  | UpsertTimer timer_record
  | ReconcileTimerExact timer_record time
  | CancelTimer string "nat option" time
  | ReconcileTimers string "timer_record list" time
  | ClaimDueTimer string string time nat
  | FireTimer timer_claim timer_record prepared_event

inductive store_step :: "chrono_ops \<Rightarrow> store_op \<Rightarrow> mem_state \<Rightarrow> mem_state \<Rightarrow> bool" for ch where
  step_admit: "mem_admit_event ch e st = (st', Ok out) \<Longrightarrow> store_step ch (AdmitEvent e) st st'"
| step_claim: "mem_claim_run ch ulid executor worker now lease_for st = (st', res) \<Longrightarrow> res \<noteq> Panic \<Longrightarrow>
    store_step ch (ClaimRun ulid executor worker now lease_for) st st'"
| step_commit: "mem_commit_run ch c es st = (st', res) \<Longrightarrow> res \<noteq> Panic \<Longrightarrow> claim_evolves st c \<Longrightarrow>
    store_step ch (CommitRun c es) st st'"
| step_cancel: "mem_request_cancel rid now st = (st', res) \<Longrightarrow>
    store_step ch (RequestCancel rid now) st st'"
| step_prune: "mem_prune_events_through cursor st = (st', res) \<Longrightarrow>
    store_step ch (PruneEvents cursor) st st'"
| step_upsert: "mem_upsert_timer t st = (st', res) \<Longrightarrow> store_step ch (UpsertTimer t) st st'"
| step_exact: "mem_reconcile_timer_exact t now st = (st', res) \<Longrightarrow>
    store_step ch (ReconcileTimerExact t now) st st'"
| step_cancel_timer: "mem_cancel_timer tid gen now st = (st', res) \<Longrightarrow>
    store_step ch (CancelTimer tid gen now) st st'"
| step_reconcile: "mem_reconcile_timers pre ts now st = (st', res) \<Longrightarrow>
    store_step ch (ReconcileTimers pre ts now) st st'"
| step_claim_timer: "mem_claim_due_timer ch ulid worker now lease_for st = (st', res) \<Longrightarrow> res \<noteq> Panic \<Longrightarrow>
    store_step ch (ClaimDueTimer ulid worker now lease_for) st st'"
| step_fire: "mem_fire_timer ch tc fired e st = (st', res) \<Longrightarrow> res \<noteq> Panic \<Longrightarrow> fires_claim tc fired \<Longrightarrow>
    store_step ch (FireTimer tc fired e) st st'"

inductive_cases store_step_admitE: "store_step ch (AdmitEvent e) st st'"
inductive_cases store_step_commitE: "store_step ch (CommitRun c es) st st'"

inductive store_run :: "chrono_ops \<Rightarrow> store_op list \<Rightarrow> mem_state \<Rightarrow> mem_state \<Rightarrow> bool" for ch where
  run_Nil: "store_run ch [] st st"
| run_Cons: "store_step ch op st st1 \<Longrightarrow> store_run ch ops st1 st2 \<Longrightarrow> store_run ch (op # ops) st st2"

inductive_cases store_run_NilE: "store_run ch [] st st'"
inductive_cases store_run_ConsE: "store_run ch (op # ops) st st'"

definition reachable :: "chrono_ops \<Rightarrow> mem_state \<Rightarrow> bool" where
  "reachable ch st \<longleftrightarrow> (\<exists>ops. store_run ch ops mem_empty st)"

lemma store_step_inv: "store_step ch op st st' \<Longrightarrow> mem_inv st \<Longrightarrow> mem_inv st'"
proof (induction rule: store_step.induct)
  case (step_admit e st st' out)
  then show ?case
    by (auto simp: mem_admit_event_def intro: admit_inv split: res.splits prod.splits)
qed (blast intro: mem_claim_run_inv mem_commit_run_inv mem_request_cancel_inv mem_prune_inv
    mem_upsert_timer_inv mem_reconcile_timer_exact_inv mem_cancel_timer_inv mem_reconcile_timers_inv
    mem_claim_due_timer_inv mem_fire_timer_inv)+

lemma store_run_keeps:
  assumes "store_run ch ops st st'" "P st"
    and "\<And>op s s'. op \<in> set ops \<Longrightarrow> store_step ch op s s' \<Longrightarrow> P s \<Longrightarrow> P s'"
  shows "P st'"
  using assms by (induction rule: store_run.induct) auto

lemma store_run_inv: "store_run ch ops st st' \<Longrightarrow> mem_inv st \<Longrightarrow> mem_inv st'"
  by (erule store_run_keeps) (auto intro: store_step_inv)

lemma reachable_inv: "reachable ch st \<Longrightarrow> mem_inv st"
  by (auto simp: reachable_def intro: store_run_inv mem_inv_empty)

lemma reachable_empty: "reachable ch mem_empty"
  unfolding reachable_def by (blast intro: run_Nil)

lemma store_run_snoc:
  "store_run ch ops st st1 \<Longrightarrow> store_step ch op st1 st2 \<Longrightarrow> store_run ch (ops @ [op]) st st2"
  by (induction rule: store_run.induct) (auto intro: store_run.intros)

lemma reachable_step: "reachable ch st \<Longrightarrow> store_step ch op st st' \<Longrightarrow> reachable ch st'"
  unfolding reachable_def by (blast intro: store_run_snoc)

end
