(* ===== verification/Store_Examples.thy ===== *)
theory Store_Examples
  imports Store_Invariant
begin

text \<open>
  A small concrete history of the runtime store. The closed examples of the property theories
  evaluate the definitions on these states.
\<close>

section \<open>Example history\<close>

text \<open>
  A small history for the closed examples: two queued runs of one group are admitted, the
  first is claimed, its worker commits success, and the second is claimed.
\<close>

definition ex_chrono :: chrono_ops where
  "ex_chrono = chrono_between (- 1000000) 1000000"

definition ex_contract :: exact_contract_reference where
  "ex_contract = \<lparr> ecr_id = ''c'', ecr_version = ''1'', ecr_digest = ''d'' \<rparr>"

definition ex_identity :: implementation_identity where
  "ex_identity =
     \<lparr> ii_application = ''a'', ii_implementation = ''i'', ii_version = ''1'', ii_instance_id = None \<rparr>"

definition ex_step :: planned_step where
  "ex_step =
     \<lparr> ps_id = ''s'', ps_action = ''act'', ps_action_version = ''1'', ps_action_digest = ''d'',
       ps_action_contract = JNull, ps_provider = ex_identity, ps_provider_declaration_digest = ''pd'',
       ps_handler_id = ''h'', ps_condition = None, ps_input = JNull, ps_for_each = None,
       ps_idempotent = False, ps_cooperative_cancellation = False \<rparr>"

definition ex_plan :: "string \<Rightarrow> concurrency_policy \<Rightarrow> planned_run" where
  "ex_plan rid policy =
     \<lparr> pr_id = rid, pr_workflow = ''w'', pr_workflow_version = ''1'', pr_workflow_revision = ''wr'',
       pr_catalog_revision = ''cr'', pr_policy_id = ''p'', pr_policy_revision = ''pr'',
       pr_trigger = ''t'', pr_event_id = ''e'', pr_event_type = ''c'', pr_event_contract = ex_contract,
       pr_event_source = ex_identity, pr_source_declaration_digest = ''sd'', pr_event_cursor = 0,
       pr_event = JNull, pr_executor = ''local'', pr_idempotency_key = rid,
       pr_idempotency_scope = ''local:w'', pr_concurrency_group = ''g'',
       pr_concurrency_policy = policy, pr_replacement_blockers = [], pr_on_error = Stop,
       pr_not_before = 0, pr_timeout_at = None, pr_minimum_interval_ms = None, pr_vars = JNull,
       pr_workflow_value = JNull, pr_steps = [ex_step], pr_created_at = 0 \<rparr>"

definition ex_event :: "string \<Rightarrow> planned_run list \<Rightarrow> prepared_event" where
  "ex_event eid runs =
     \<lparr> pe_source_runtime = ''src'', pe_event_id = eid, pe_envelope = JNull, pe_received_at = 5,
       pe_runs = runs \<rparr>"

lemmas ex_defs = ex_chrono_def chrono_between_def ex_contract_def ex_identity_def ex_step_def
  ex_plan_def ex_event_def

definition ex_run :: "nat \<Rightarrow> string \<Rightarrow> run_record" where
  "ex_run cursor rid = admitted ((ex_plan rid Queue)\<lparr>pr_event_cursor := cursor\<rparr>)"

definition ex_entry :: "nat \<Rightarrow> string \<Rightarrow> event_journal_entry" where
  "ex_entry cursor eid =
     \<lparr> ej_cursor = cursor, ej_source_runtime = ''src'', ej_event_id = eid, ej_envelope = JNull,
       ej_received_at = 5 \<rparr>"

text \<open>After one event that admits the runs \<open>r1\<close> and \<open>r2\<close>.\<close>

definition ex_st1 :: mem_state where
  "ex_st1 = mem_empty\<lparr>ms_next_cursor := 1, ms_events := [ex_entry 1 ''e1''],
     ms_event_index := [((''src'', ''e1''), 1)],
     ms_runs := [(''r1'', ex_run 1 ''r1''), (''r2'', ex_run 1 ''r2'')]\<rparr>"

definition ex_out1 :: admit_outcome where
  "ex_out1 = \<lparr> ao_cursor = 1, ao_duplicate = False, ao_admitted_run_ids = [''r1'', ''r2''],
     ao_skipped_run_ids = [], ao_cancellation_requested_run_ids = [] \<rparr>"

lemma ex_admit:
  "mem_admit_event ex_chrono (ex_event ''e1'' [ex_plan ''r1'' Queue, ex_plan ''r2'' Queue]) mem_empty =
     (ex_st1, Ok ex_out1)"
  by code_simp

text \<open>Worker \<open>wA\<close> claims \<open>r1\<close>, commits it as succeeded, and worker \<open>wB\<close> claims \<open>r2\<close>.\<close>

definition ex_st2 :: mem_state where
  "ex_st2 = ex_st1\<lparr>
     ms_runs := [(''r1'', start_run 10 (ex_run 1 ''r1'')), (''r2'', ex_run 1 ''r2'')],
     ms_run_leases := [(''r1'', \<lparr> le_worker = ''wA'', le_token = ''lease_U1'', le_expires_at = 110 \<rparr>)]\<rparr>"

definition ex_claim1 :: claim where
  "ex_claim1 = \<lparr> cl_run = start_run 10 (ex_run 1 ''r1''), cl_worker = ''wA'', cl_token = ''lease_U1'',
     cl_expires_at = 110 \<rparr>"

lemma ex_claim: "mem_claim_run ex_chrono ''U1'' ''local'' ''wA'' 10 100 ex_st1 = (ex_st2, Ok (Some ex_claim1))"
  by code_simp

definition ex_done :: claim where
  "ex_done = ex_claim1\<lparr>cl_run := (cl_run ex_claim1)\<lparr>rr_status := RunSucceeded, rr_finished_at := Some 20\<rparr>\<rparr>"

definition ex_st3 :: mem_state where
  "ex_st3 = ex_st1\<lparr>
     ms_runs := [(''r1'', (cl_run ex_done)\<lparr>rr_revision := 1\<rparr>), (''r2'', ex_run 1 ''r2'')]\<rparr>"

lemma ex_commit:
  "mem_commit_run ex_chrono ex_done [] ex_st2 =
     (ex_st3, Ok (ex_done\<lparr>cl_run := (cl_run ex_done)\<lparr>rr_revision := 1\<rparr>\<rparr>))"
  by code_simp

text \<open>The lease of \<open>wA\<close> expired and \<open>wB\<close> takes the run over.\<close>

definition ex_st2b :: mem_state where
  "ex_st2b = ex_st2\<lparr>
     ms_run_leases := [(''r1'', \<lparr> le_worker = ''wB'', le_token = ''lease_U2'', le_expires_at = 400 \<rparr>)]\<rparr>"

definition ex_claim2 :: claim where
  "ex_claim2 = \<lparr> cl_run = start_run 10 (ex_run 1 ''r1''), cl_worker = ''wB'', cl_token = ''lease_U2'',
     cl_expires_at = 400 \<rparr>"

lemma ex_takeover:
  "mem_claim_run ex_chrono ''U2'' ''local'' ''wB'' 300 100 ex_st2 = (ex_st2b, Ok (Some ex_claim2))"
  by code_simp

lemma ex_claim_evolves: "claim_evolves ex_st2 ex_done"
proof -
  have "bt_get (ms_runs ex_st2) (run_id (cl_run ex_done)) = Some (start_run 10 (ex_run 1 ''r1''))"
    by code_simp
  moreover have "run_evolves (start_run 10 (ex_run 1 ''r1'')) (cl_run ex_done)"
    by (simp add: run_evolves_def run_wf_def ex_done_def ex_claim1_def ex_run_def)
  ultimately show ?thesis by (auto simp: claim_evolves_def)
qed

lemma ex_steps:
  "store_step ex_chrono (AdmitEvent (ex_event ''e1'' [ex_plan ''r1'' Queue, ex_plan ''r2'' Queue])) mem_empty ex_st1"
  "store_step ex_chrono (ClaimRun ''U1'' ''local'' ''wA'' 10 100) ex_st1 ex_st2"
  "store_step ex_chrono (CommitRun ex_done []) ex_st2 ex_st3"
  by (auto intro: step_admit [OF ex_admit] step_claim [OF ex_claim] step_commit [OF ex_commit]
      ex_claim_evolves)

lemma ex_reachable: "reachable ex_chrono ex_st1" "reachable ex_chrono ex_st2" "reachable ex_chrono ex_st3"
  using reachable_empty ex_steps by (blast intro: reachable_step)+

end
