(* ===== verification/Store_Properties.thy ===== *)
theory Store_Properties
  imports Store_Examples
begin

text \<open>
  What the store promises its clients: deduplication that survives pruning, fencing of stale
  workers, mutual exclusion and first-in-first-out order inside a concurrency group, terminal
  runs that never change again, complete journal pages, and generation-safe timers that fire
  at most once. The closed examples at the end of a group apply each statement to a small
  history.
\<close>

section \<open>Frames\<close>

lemma cancel_fold_frame:
  "ms_timers (fst (foldl (cancel_active received) a ids)) = ms_timers (fst a)"
  "ms_timer_leases (fst (foldl (cancel_active received) a ids)) = ms_timer_leases (fst a)"
  "ms_events (fst (foldl (cancel_active received) a ids)) = ms_events (fst a)"
  "ms_event_index (fst (foldl (cancel_active received) a ids)) = ms_event_index (fst a)"
  "ms_next_cursor (fst (foldl (cancel_active received) a ids)) = ms_next_cursor (fst a)"
  "ms_retained_after (fst (foldl (cancel_active received) a ids)) = ms_retained_after (fst a)"
  by (induction ids arbitrary: a) (simp_all add: cancel_active_frame)

definition same_outside_runs :: "mem_state \<Rightarrow> mem_state \<Rightarrow> bool" where
  "same_outside_runs st st' \<longleftrightarrow>
     ms_timers st' = ms_timers st \<and> ms_timer_leases st' = ms_timer_leases st \<and>
     ms_events st' = ms_events st \<and> ms_event_index st' = ms_event_index st \<and>
     ms_next_cursor st' = ms_next_cursor st \<and> ms_retained_after st' = ms_retained_after st"

lemma admit_plan_outside:
  assumes "admit_plan ch received cursor p acc = Ok acc'"
  shows "same_outside_runs (ac_state acc) (ac_state acc')"
  using assms
proof (cases rule: admit_plan_cases)
  case (replaced st2 cs)
  let ?st1 = "drop_obsolete received (p\<lparr>pr_event_cursor := cursor\<rparr>) (ac_state acc)"
  from replaced(3) cancel_fold_frame [where a = "(?st1, ac_cancelled acc)"]
  have "same_outside_runs ?st1 st2" unfolding same_outside_runs_def by (metis fst_conv)
  then show ?thesis by (simp add: replaced(4) same_outside_runs_def)
qed (simp_all add: same_outside_runs_def)

lemma admit_plans_outside:
  "admit_plans ch received cursor ps acc = Ok acc' \<Longrightarrow>
   same_outside_runs (ac_state acc) (ac_state acc')"
proof (induction ps arbitrary: acc)
  case (Cons p ps)
  then show ?case using admit_plan_outside unfolding same_outside_runs_def by fastforce
qed (simp add: same_outside_runs_def)

lemma admit_cases:
  assumes "admit ch e st = Ok (st', out)"
  obtains
    (duplicate) cursor where
      "bt_get (ms_event_index st) (pe_source_runtime e, pe_event_id e) = Some cursor" "st' = st"
      "out = \<lparr> ao_cursor = cursor, ao_duplicate = True, ao_admitted_run_ids = [],
               ao_skipped_run_ids = [], ao_cancellation_requested_run_ids = [] \<rparr>"
  | (fresh) acc where
      "bt_get (ms_event_index st) (pe_source_runtime e, pe_event_id e) = None"
      "admit_plans ch (pe_received_at e) (Suc (ms_next_cursor st)) (pe_runs e)
         \<lparr> ac_state = journal_event e st, ac_admitted = [], ac_skipped = [], ac_cancelled = [] \<rparr> = Ok acc"
      "st' = ac_state acc" "same_outside_runs (journal_event e st) st'"
      "out = \<lparr> ao_cursor = Suc (ms_next_cursor st), ao_duplicate = False,
               ao_admitted_run_ids = ac_admitted acc, ao_skipped_run_ids = ac_skipped acc,
               ao_cancellation_requested_run_ids = sort_dedup (ac_cancelled acc) \<rparr>"
proof (cases "bt_get (ms_event_index st) (pe_source_runtime e, pe_event_id e)")
  case None
  with assms show ?thesis
    by (auto simp: admit_def Let_def dest: admit_plans_outside intro!: fresh)
next
  case (Some c)
  with assms show ?thesis by (intro duplicate) (auto simp: admit_def)
qed

lemma admit_timers:
  "admit ch e st = Ok (st', out) \<Longrightarrow> ms_timers st' = ms_timers st \<and> ms_timer_leases st' = ms_timer_leases st"
  by (erule admit_cases) (auto simp: same_outside_runs_def)

lemma admit_index_mono:
  "admit ch e st = Ok (st', out) \<Longrightarrow> bt_get (ms_event_index st) k = Some c \<Longrightarrow>
   bt_get (ms_event_index st') k = Some c"
  by (erule admit_cases) (auto simp: same_outside_runs_def journal_event_def Let_def)

lemma admit_all_keeps:
  assumes "admit_all ch es st = Ok st'" "P st"
    and "\<And>e s s' out. e \<in> set es \<Longrightarrow> admit ch e s = Ok (s', out) \<Longrightarrow> P s \<Longrightarrow> P s'"
  shows "P st'"
  using assms
proof (induction es arbitrary: st)
  case (Cons e es)
  from Cons.prems(1) obtain s out where "admit ch e st = Ok (s, out)" "admit_all ch es s = Ok st'"
    by auto
  with Cons show ?case by (metis list.set_intros)
qed simp

lemma mem_admit_event_Ok:
  "mem_admit_event ch e st = (st', Ok out) \<longleftrightarrow> admit ch e st = Ok (st', out)"
  by (auto simp: mem_admit_event_def split: res.splits prod.splits)

text \<open>Operations that leave the dedupe index alone.\<close>

lemma index_frame_timers:
  "mem_upsert_timer t st = (st', r1) \<Longrightarrow> ms_event_index st' = ms_event_index st"
  "mem_reconcile_timer_exact t now st = (st', r2) \<Longrightarrow> ms_event_index st' = ms_event_index st"
  "mem_cancel_timer tid gen now st = (st', r3) \<Longrightarrow> ms_event_index st' = ms_event_index st"
  by (auto simp: mem_upsert_timer_def mem_reconcile_timer_exact_def mem_cancel_timer_def
      schedule_timer_def cancel_timer_entry_def Let_def split: res.splits option.splits if_splits)

lemma cancel_entries_frame:
  "ms_event_index (foldl (\<lambda>s tid. cancel_timer_entry tid now s) st ids) = ms_event_index st"
  "ms_runs (foldl (\<lambda>s tid. cancel_timer_entry tid now s) st ids) = ms_runs st"
  by (induction ids arbitrary: st) (simp_all add: cancel_timer_entry_def)

lemma apply_planned_frame:
  "ms_event_index (foldl apply_planned st ps) = ms_event_index st"
  "ms_runs (foldl apply_planned st ps) = ms_runs st"
  by (induction ps arbitrary: st) (simp_all add: apply_planned_def schedule_timer_def)

lemma index_frame_reconcile:
  "mem_reconcile_timers pre ts now st = (st', res) \<Longrightarrow> ms_event_index st' = ms_event_index st"
  by (auto simp: mem_reconcile_timers_def Let_def apply_planned_frame cancel_entries_frame
      split: res.splits)

lemma index_frame_claims:
  "mem_claim_run ch ulid ex w now d st = (st', r1) \<Longrightarrow> ms_event_index st' = ms_event_index st"
  "mem_claim_due_timer ch ulid w now d st = (st', r2) \<Longrightarrow> ms_event_index st' = ms_event_index st"
  by (auto simp: mem_claim_run_def mem_claim_due_timer_def Let_def split: res.splits option.splits)

lemma mem_commit_index_mono:
  assumes "mem_commit_run ch c es st = (st', res)" "res \<noteq> Panic" "bt_get (ms_event_index st) k = Some x"
  shows "bt_get (ms_event_index st') k = Some x"
  using assms(1)
proof (cases rule: mem_commit_run_cases)
  case (committed stored l st2)
  from committed(6) have "bt_get (ms_event_index st2) k = Some x"
    by (rule admit_all_keeps [where P = "\<lambda>s. bt_get (ms_event_index s) k = Some x"])
       (auto simp: assms(3) dest: admit_index_mono)
  then show ?thesis by (simp add: committed(7))
qed (use assms in auto)

lemma mem_fire_index_mono:
  assumes "mem_fire_timer ch c fired e st = (st', res)" "res \<noteq> Panic" "bt_get (ms_event_index st) k = Some x"
  shows "bt_get (ms_event_index st') k = Some x"
  using assms(1)
  by (cases rule: mem_fire_timer_cases)
     (use assms(2,3) in \<open>auto split: res.splits prod.splits dest!: admit_index_mono\<close>)

lemma store_step_index_mono:
  "store_step ch op st st' \<Longrightarrow> bt_get (ms_event_index st) k = Some c \<Longrightarrow>
   bt_get (ms_event_index st') k = Some c"
proof (induction rule: store_step.induct)
  case (step_admit e st st' out)
  then show ?case by (simp add: mem_admit_event_Ok admit_index_mono)
next
  case (step_cancel rid now st st' res)
  from step_cancel(1) show ?case
    by (cases rule: mem_request_cancel_cases) (use step_cancel in auto)
next
  case (step_prune cursor st st' res)
  then show ?case by (auto simp: mem_prune_events_through_def Let_def)
qed (simp_all add: index_frame_timers index_frame_reconcile index_frame_claims
      mem_commit_index_mono mem_fire_index_mono)

section \<open>Deduplication\<close>

text \<open>
  C1: An event is admitted at most once. After an event was admitted, any event with the same
  source and id, delivered in any later state of the store (other deliveries, claims, commits,
  cancellations, timers and pruning of the journal in between), is reported as a duplicate
  with the cursor of the first delivery, and the store does not change.
\<close>

theorem admit_deduplicates:
  assumes "mem_admit_event ch e st = (st1, Ok out)"
    and "store_run ch ops st1 st2"
    and "pe_source_runtime e' = pe_source_runtime e" "pe_event_id e' = pe_event_id e"
  shows "mem_admit_event ch e' st2 =
    (st2, Ok \<lparr> ao_cursor = ao_cursor out, ao_duplicate = True, ao_admitted_run_ids = [],
               ao_skipped_run_ids = [], ao_cancellation_requested_run_ids = [] \<rparr>)"
proof -
  let ?k = "(pe_source_runtime e, pe_event_id e)"
  from assms(1) have "bt_get (ms_event_index st1) ?k = Some (ao_cursor out)"
    unfolding mem_admit_event_Ok
    by (cases rule: admit_cases) (auto simp: same_outside_runs_def journal_event_def Let_def)
  then have "bt_get (ms_event_index st2) ?k = Some (ao_cursor out)"
    using store_run_keeps [OF assms(2), where P = "\<lambda>s. bt_get (ms_event_index s) ?k = Some (ao_cursor out)"]
      store_step_index_mono by blast
  with assms(3,4) show ?thesis by (simp add: mem_admit_event_Ok admit_def)
qed

theorem admit_deduplicates_witness:
  "mem_admit_event ex_chrono (ex_event ''e1'' []) ex_st3 =
     (ex_st3, Ok \<lparr> ao_cursor = 1, ao_duplicate = True, ao_admitted_run_ids = [],
                   ao_skipped_run_ids = [], ao_cancellation_requested_run_ids = [] \<rparr>)"
proof -
  have run: "store_run ex_chrono [ClaimRun ''U1'' ''local'' ''wA'' 10 100, CommitRun ex_done []] ex_st1 ex_st3"
    by (intro run_Cons [OF ex_steps(2)] run_Cons [OF ex_steps(3)] run_Nil)
  show ?thesis
    using admit_deduplicates [OF ex_admit run, of "ex_event ''e1'' []"]
    by (simp add: ex_event_def ex_out1_def)
qed

section \<open>The invariant and mutual exclusion\<close>

text \<open>
  C2: In every state that any interleaving of store operations reaches from the empty store,
  the whole invariant holds: ordered maps, run records of the right shape under their own id,
  leases only on stored runs that are not terminal, at most one serialised run in progress per
  concurrency group, no two runs with one idempotency reservation, a journal whose cursors
  increase, are unique and agree with the dedupe index, and timers with generations in range
  and leases only while firing.
\<close>

theorem reachable_invariant: "reachable ch st \<Longrightarrow> mem_inv st"
  by (rule reachable_inv)

theorem reachable_invariant_witness: "mem_inv ex_st2"
  using reachable_invariant [OF ex_reachable(2)] .

text \<open>
  C3: Mutual exclusion of a concurrency group: in a reachable state two stored runs of the same
  group whose policies are \<open>skip\<close>, \<open>queue\<close> or \<open>replace\<close> are never both running or waiting.
\<close>

theorem group_mutual_exclusion:
  assumes "reachable ch st"
    and "bt_get (ms_runs st) k1 = Some r1" "bt_get (ms_runs st) k2 = Some r2"
    and "rr_status r1 \<in> {RunRunning, RunWaiting}" "rr_status r2 \<in> {RunRunning, RunWaiting}"
    and "pr_concurrency_policy (rr_plan r1) \<noteq> Allow" "pr_concurrency_policy (rr_plan r2) \<noteq> Allow"
    and "pr_concurrency_group (rr_plan r1) = pr_concurrency_group (rr_plan r2)"
  shows "k1 = k2 \<and> r1 = r2"
proof -
  have "groups_wf (ms_runs st)" using reachable_inv [OF assms(1)] by (simp add: mem_inv_def)
  then have "k1 = k2"
    using assms unfolding groups_wf_def in_progress_def serialised_def by blast
  with assms(2,3) show ?thesis by simp
qed

theorem group_mutual_exclusion_witness:
  "bt_get (ms_runs ex_st2) ''r1'' = Some (start_run 10 (ex_run 1 ''r1'')) \<and>
   rr_status (ex_run 1 ''r2'') \<notin> {RunRunning, RunWaiting} \<and>
   (''r1'' = ''r1'' \<and> start_run 10 (ex_run 1 ''r1'') = start_run 10 (ex_run 1 ''r1''))"
proof -
  let ?r = "start_run 10 (ex_run 1 ''r1'')"
  have r1: "bt_get (ms_runs ex_st2) ''r1'' = Some ?r" by code_simp
  have r2: "bt_get (ms_runs ex_st2) ''r2'' = Some (ex_run 1 ''r2'')" by code_simp
  have ok: "rr_status ?r \<in> {RunRunning, RunWaiting}" "pr_concurrency_policy (rr_plan ?r) \<noteq> Allow"
    "pr_concurrency_policy (rr_plan (ex_run 1 ''r2'')) \<noteq> Allow"
    "pr_concurrency_group (rr_plan ?r) = pr_concurrency_group (rr_plan (ex_run 1 ''r2''))" by code_simp+
  have "rr_status (ex_run 1 ''r2'') \<notin> {RunRunning, RunWaiting}"
    using group_mutual_exclusion [OF ex_reachable(2) r1 r2 ok(1) _ ok(2-4)] by auto
  with r1 group_mutual_exclusion [OF ex_reachable(2) r1 r1 ok(1) ok(1) ok(2) ok(2) refl]
  show ?thesis by blast
qed

section \<open>Claims\<close>

text \<open>
  C6: \<open>claim_run\<close> hands out exactly the right run: with the expired leases dropped, it returns no
  claim iff no stored run is claimable (right executor, not terminal or waiting, ready, not
  leased, its group runnable); otherwise it returns the claimable run with the least creation
  time and id, now running, under a lease of the caller that ends \<open>lease_for\<close> after \<open>now\<close>, and no
  other run, timer or event changes.
\<close>

theorem claim_run_correct:
  fixes st now
  defines "st1 \<equiv> st\<lparr>ms_run_leases := live_leases now (ms_run_leases st)\<rparr>"
  assumes ch: "chrono_documented ch" and inv: "mem_inv st"
    and claim: "mem_claim_run ch ulid executor worker now lease_for st = (st', Ok result)"
  shows "case result of
      None \<Rightarrow> st' = st1 \<and> (\<forall>k r. bt_get (ms_runs st) k = Some r \<longrightarrow> \<not> claimable st1 executor now r)
    | Some c \<Rightarrow>
        (\<exists>r. bt_get (ms_runs st) (run_id r) = Some r \<and> claimable st1 executor now r \<and>
             pr_executor (rr_plan r) = executor \<and> rr_status r \<in> {RunQueued, RunRunning} \<and>
             pr_not_before (rr_plan r) \<le> now \<and> bt_get (ms_run_leases st1) (run_id r) = None \<and>
             (\<forall>k q. bt_get (ms_runs st) k = Some q \<longrightarrow> claimable st1 executor now q \<longrightarrow>
                (rr_created_at r, run_id r) \<le> (rr_created_at q, run_id q)) \<and>
             c = \<lparr> cl_run = start_run now r, cl_worker = worker, cl_token = ''lease_'' @ ulid,
                   cl_expires_at = now + int lease_for \<rparr> \<and>
             st' = st1\<lparr>ms_runs := bt_insert (run_id r) (start_run now r) (ms_runs st),
                       ms_run_leases := bt_insert (run_id r)
                         \<lparr> le_worker = worker, le_token = ''lease_'' @ ulid,
                           le_expires_at = now + int lease_for \<rparr> (ms_run_leases st1)\<rparr>)"
proof -
  have wf: "runs_wf (ms_next_cursor st) (ms_runs st)" using inv by (simp add: mem_inv_def)
  have vals: "q \<in> set (bt_values (ms_runs st))" if "bt_get (ms_runs st) k = Some q" for k q
    using that by (rule bt_get_value)
  from claim wf show ?thesis
  proof (cases rule: mem_claim_run_cases)
    case none
    then show ?thesis using vals by (auto simp: st1_def)
  next
    case clock
    then show ?thesis by blast
  next
    case (claimed r e)
    from claimed(4) obtain d where d: "td_from_std ch lease_for = Some d" "dt_add ch now d = Some e"
      by (auto simp: add_std_duration_def split: option.splits)
    then have "e = now + int lease_for"
      using dt_add_Some [OF ch d(2)] td_from_std_Some [OF ch d(1)] by simp
    moreover have "pr_executor (rr_plan r) = executor" "rr_status r \<in> {RunQueued, RunRunning}"
        "pr_not_before (rr_plan r) \<le> now" "bt_get (ms_run_leases st1) (run_id r) = None"
      using claimed(2) by (cases "rr_status r"; simp add: claimable_def st1_def bt_contains_def)+
    ultimately show ?thesis using claimed vals by (auto simp: st1_def)
  qed
qed

theorem claim_run_correct_witness:
  "\<exists>r. bt_get (ms_runs ex_st1) (run_id r) = Some r \<and>
       cl_run ex_claim1 = start_run 10 r \<and> cl_expires_at ex_claim1 = 10 + int 100"
proof -
  have doc: "chrono_documented ex_chrono" by (simp add: ex_chrono_def chrono_between_documented)
  from claim_run_correct [OF doc reachable_inv [OF ex_reachable(1)] ex_claim]
  obtain r where "bt_get (ms_runs ex_st1) (run_id r) = Some r"
    "ex_claim1 = \<lparr> cl_run = start_run 10 r, cl_worker = ''wA'', cl_token = ''lease_'' @ ''U1'',
                   cl_expires_at = 10 + int 100 \<rparr>"
    by auto
  then show ?thesis by (metis claim.select_convs(1,4))
qed

text \<open>
  C7: A serialised group is served in event order: when \<open>claim_run\<close> starts a queued run whose
  policy is not \<open>allow\<close>, no other run of its group is running or waiting, no queued run of the
  group precedes it in (event cursor, id) order, and none of the runs it replaced is
  indeterminate.
\<close>

theorem claim_run_fifo:
  assumes inv: "mem_inv st"
    and claim: "mem_claim_run ch ulid executor worker now lease_for st = (st', Ok (Some c))"
    and serial: "pr_concurrency_policy (rr_plan (cl_run c)) \<noteq> Allow"
    and other: "bt_get (ms_runs st) k = Some q" "k \<noteq> run_id (cl_run c)"
      "pr_concurrency_group (rr_plan q) = pr_concurrency_group (rr_plan (cl_run c))"
  shows "rr_status q \<noteq> RunRunning \<and> rr_status q \<noteq> RunWaiting \<and>
    (rr_status q = RunQueued \<longrightarrow>
       (pr_event_cursor (rr_plan (cl_run c)), run_id (cl_run c)) < (pr_event_cursor (rr_plan q), k)) \<and>
    (k \<in> set (pr_replacement_blockers (rr_plan (cl_run c))) \<longrightarrow> rr_status q \<noteq> RunIndeterminate)"
proof -
  let ?st1 = "st\<lparr>ms_run_leases := live_leases now (ms_run_leases st)\<rparr>"
  have wf: "runs_wf (ms_next_cursor st) (ms_runs st)" using inv by (simp add: mem_inv_def)
  from claim wf show ?thesis
  proof (cases rule: mem_claim_run_cases)
    case (claimed r e)
    from claimed(6) have c: "cl_run c = start_run now r" by simp
    have free: "\<not> blocked_by_group ?st1 r" "\<not> blocked_by_indeterminate ?st1 r"
      using claimed(2) serial by (auto simp: c claimable_def group_is_runnable_def)
    have q: "bt_get (ms_runs ?st1) k = Some q" "run_id q = k" using other(1) runs_wfD [OF wf other(1)] by auto
    from not_blocked_by_group [OF free(1) q] other(2,3) q(2)
    have "\<not> in_progress q" "rr_status q = RunQueued \<Longrightarrow>
        (pr_event_cursor (rr_plan r), run_id r) \<le> (pr_event_cursor (rr_plan q), k)"
      by (auto simp: c)
    moreover have "k \<in> set (pr_replacement_blockers (rr_plan r)) \<Longrightarrow> rr_status q \<noteq> RunIndeterminate"
      using free(2) other(1) by (auto simp: blocked_by_indeterminate_def list_ex_iff)
    ultimately show ?thesis using other(2) by (auto simp: c in_progress_def less_le)
  next
    case clock
    then show ?thesis by blast
  qed simp_all
qed

theorem claim_run_fifo_witness:
  "(pr_event_cursor (rr_plan (cl_run ex_claim1)), run_id (cl_run ex_claim1)) < ((1::nat), ''r2'')"
proof -
  have r2: "bt_get (ms_runs ex_st1) ''r2'' = Some (ex_run 1 ''r2'')" by code_simp
  have neq: "''r2'' \<noteq> run_id (cl_run ex_claim1)" by code_simp
  have status: "rr_status (ex_run 1 ''r2'') = RunQueued" and cur: "pr_event_cursor (rr_plan (ex_run 1 ''r2'')) = 1"
    by code_simp+
  have grp: "pr_concurrency_group (rr_plan (ex_run 1 ''r2'')) = pr_concurrency_group (rr_plan (cl_run ex_claim1))"
    and pol: "pr_concurrency_policy (rr_plan (cl_run ex_claim1)) \<noteq> Allow"
    by code_simp+
  show ?thesis
    using claim_run_fifo [OF reachable_inv [OF ex_reachable(1)] ex_claim pol r2 neq grp] status cur by simp
qed

end
