(* ===== verification/Store_Fencing.thy ===== *)
theory Store_Fencing
  imports Store_Properties
begin

text \<open>
  Fencing of workers: which claim may commit, that a worker whose lease was taken over can
  never commit again, and that a finished run never changes. Each statement over a history
  reduces to a step lemma: run leases are only ever created by \<open>claim_run\<close>, and a stored
  terminal run is only ever replaced by a plan that reuses its id.
\<close>

section \<open>Run leases over a step\<close>

text \<open>No lease of \<open>new\<close> is younger than \<open>old\<close>.\<close>

definition leases_sub :: "(string, lease) btree \<Rightarrow> (string, lease) btree \<Rightarrow> bool" where
  "leases_sub new old \<longleftrightarrow> (\<forall>k l. bt_get new k = Some l \<longrightarrow> bt_get old k = Some l)"

lemma leases_sub_refl [simp]: "leases_sub m m"
  by (simp add: leases_sub_def)

lemma leases_sub_trans [trans]: "leases_sub a b \<Longrightarrow> leases_sub b c \<Longrightarrow> leases_sub a c"
  by (simp add: leases_sub_def)

lemma leases_sub_remove [simp]: "leases_sub (bt_remove k m) m"
  by (simp add: leases_sub_def)

lemma cancel_active_leases: "leases_sub (ms_run_leases (fst (cancel_active received a rid))) (ms_run_leases (fst a))"
  by (cases a, rule cancel_active_cases [of "fst a" rid received "snd a"]) auto

lemma cancel_fold_leases:
  "leases_sub (ms_run_leases (fst (foldl (cancel_active received) a ids))) (ms_run_leases (fst a))"
proof (induction ids arbitrary: a)
  case (Cons rid ids)
  show ?case using leases_sub_trans [OF Cons cancel_active_leases] by simp
qed simp

lemma remove_runs_leases:
  "leases_sub (ms_run_leases (foldl (\<lambda>s rid. remove_run rid s) st ids)) (ms_run_leases st)"
proof (induction ids arbitrary: st)
  case (Cons rid ids)
  from Cons [of "remove_run rid st"] show ?case by (auto intro: leases_sub_trans)
qed simp

lemma drop_obsolete_leases: "leases_sub (ms_run_leases (drop_obsolete received p st)) (ms_run_leases st)"
  by (simp add: drop_obsolete_def remove_runs_leases)

lemma admit_plan_leases:
  assumes "admit_plan ch received cursor p acc = Ok acc'"
  shows "leases_sub (ms_run_leases (ac_state acc')) (ms_run_leases (ac_state acc))"
  using assms
proof (cases rule: admit_plan_cases)
  case (replaced st2 cs)
  let ?st1 = "drop_obsolete received (p\<lparr>pr_event_cursor := cursor\<rparr>) (ac_state acc)"
  have "leases_sub (ms_run_leases st2) (ms_run_leases ?st1)"
    using cancel_fold_leases [of received "(?st1, ac_cancelled acc)"] replaced(3) by (metis fst_conv)
  with replaced(4) drop_obsolete_leases show ?thesis by (auto intro: leases_sub_trans)
qed (auto simp: drop_obsolete_leases)

lemma admit_plans_leases:
  "admit_plans ch received cursor ps acc = Ok acc' \<Longrightarrow>
   leases_sub (ms_run_leases (ac_state acc')) (ms_run_leases (ac_state acc))"
proof (induction ps arbitrary: acc)
  case (Cons p ps)
  then show ?case by (auto intro: leases_sub_trans dest: admit_plan_leases)
qed simp

lemma admit_leases: "admit ch e st = Ok (st', out) \<Longrightarrow> leases_sub (ms_run_leases st') (ms_run_leases st)"
  by (erule admit_cases) (auto dest: admit_plans_leases)

lemma mem_commit_leases:
  assumes "mem_commit_run ch c es st = (st', res)" "res \<noteq> Panic"
  shows "leases_sub (ms_run_leases st') (ms_run_leases st)"
  using assms(1)
proof (cases rule: mem_commit_run_cases)
  case (committed stored l st2)
  from committed(6) have "leases_sub (ms_run_leases st2) (ms_run_leases st)"
    by (rule admit_all_keeps [where P = "\<lambda>s. leases_sub (ms_run_leases s) (ms_run_leases st)"])
       (auto dest!: admit_leases intro: leases_sub_trans)
  then show ?thesis by (auto simp: committed(7) intro: leases_sub_trans [OF leases_sub_remove])
qed (use assms in auto)

lemma mem_fire_leases:
  assumes "mem_fire_timer ch c fired e st = (st', res)" "res \<noteq> Panic"
  shows "leases_sub (ms_run_leases st') (ms_run_leases st)"
  using assms(1)
  by (cases rule: mem_fire_timer_cases)
     (use assms(2) in \<open>auto split: res.splits prod.splits dest!: admit_leases\<close>)

lemma cancel_entries_runs_frame:
  "ms_run_leases (foldl (\<lambda>s tid. cancel_timer_entry tid now s) st ids) = ms_run_leases st"
  by (induction ids arbitrary: st) (simp_all add: cancel_timer_entry_def)

lemma apply_planned_runs_frame: "ms_run_leases (foldl apply_planned st ps) = ms_run_leases st"
  by (induction ps arbitrary: st) (simp_all add: apply_planned_def schedule_timer_def)

text \<open>The timer operations that touch neither runs nor run leases.\<close>

lemma cancel_timer_entry_runs [simp]:
  "ms_runs (cancel_timer_entry tid now st) = ms_runs st"
  "ms_run_leases (cancel_timer_entry tid now st) = ms_run_leases st"
  by (simp_all add: cancel_timer_entry_def)

lemma timer_ops_runs_frame:
  "mem_upsert_timer t st = (st', r1) \<Longrightarrow> ms_runs st' = ms_runs st \<and> ms_run_leases st' = ms_run_leases st"
  "mem_reconcile_timer_exact t now st = (st', r2) \<Longrightarrow> ms_runs st' = ms_runs st \<and> ms_run_leases st' = ms_run_leases st"
  "mem_cancel_timer tid gen now st = (st', r3) \<Longrightarrow> ms_runs st' = ms_runs st \<and> ms_run_leases st' = ms_run_leases st"
  "mem_reconcile_timers pre ts now st = (st', r4) \<Longrightarrow> ms_runs st' = ms_runs st \<and> ms_run_leases st' = ms_run_leases st"
  "mem_claim_due_timer ch ulid w now d st = (st', r5) \<Longrightarrow> ms_runs st' = ms_runs st \<and> ms_run_leases st' = ms_run_leases st"
  by (auto simp: mem_upsert_timer_def mem_reconcile_timer_exact_def mem_cancel_timer_def
      mem_reconcile_timers_def mem_claim_due_timer_def apply_planned_frame cancel_entries_frame
      cancel_entries_runs_frame apply_planned_runs_frame
      schedule_timer_def Let_def split: res.splits option.splits if_splits)

text \<open>The token a claim operation mints.\<close>

fun minted_token :: "store_op \<Rightarrow> string option" where
  "minted_token (ClaimRun ulid _ _ _ _) = Some (''lease_'' @ ulid)"
| "minted_token _ = None"

lemma mem_claim_leases:
  assumes "mem_claim_run ch ulid ex w now d st = (st', res)" "bt_get (ms_run_leases st') k = Some l"
    and "bt_wf (ms_run_leases st)"
  shows "bt_get (ms_run_leases st) k = Some l \<or> le_token l = ''lease_'' @ ulid"
  using assms
  by (auto simp: mem_claim_run_def live_leases_def Let_def split: option.splits res.splits if_splits)

lemma store_step_leases:
  "store_step ch op st st' \<Longrightarrow> mem_inv st \<Longrightarrow> bt_get (ms_run_leases st') k = Some l \<Longrightarrow>
   bt_get (ms_run_leases st) k = Some l \<or> minted_token op = Some (le_token l)"
proof (induction rule: store_step.induct)
  case (step_admit e st st' out)
  then show ?case using admit_leases by (auto simp: mem_admit_event_Ok leases_sub_def)
next
  case (step_claim ulid executor worker now lease_for st st' res)
  then have "bt_wf (ms_run_leases st)" by (simp add: mem_inv_def leases_wf_def)
  with step_claim mem_claim_leases show ?case by fastforce
next
  case (step_commit c es st st' res)
  then show ?case using mem_commit_leases by (fastforce simp: leases_sub_def)
next
  case (step_cancel rid now st st' res)
  from step_cancel(1) show ?case
    by (cases rule: mem_request_cancel_cases) (use step_cancel in \<open>auto split: if_splits\<close>)
next
  case (step_prune cursor st st' res)
  then show ?case by (auto simp: mem_prune_events_through_def Let_def)
next
  case (step_fire tc fired e st st' res)
  then show ?case using mem_fire_leases by (fastforce simp: leases_sub_def)
qed (simp_all add: timer_ops_runs_frame)

section \<open>Which claims may commit\<close>

definition holds_lease :: "mem_state \<Rightarrow> claim \<Rightarrow> bool" where
  "holds_lease st c =
     (case bt_get (ms_run_leases st) (run_id (cl_run c)) of
        None \<Rightarrow> False
      | Some l \<Rightarrow> le_worker l = cl_worker c \<and> le_token l = cl_token c)"

definition at_revision :: "mem_state \<Rightarrow> claim \<Rightarrow> bool" where
  "at_revision st c =
     (case bt_get (ms_runs st) (run_id (cl_run c)) of
        None \<Rightarrow> False
      | Some r \<Rightarrow> rr_revision r = rr_revision (cl_run c))"

definition bump_revision :: "claim \<Rightarrow> claim" where
  "bump_revision c = c\<lparr>cl_run := (cl_run c)\<lparr>rr_revision := rr_revision (cl_run c) + 1\<rparr>\<rparr>"

lemma bump_revision_simps [simp]:
  "cl_run (bump_revision c) = (cl_run c)\<lparr>rr_revision := rr_revision (cl_run c) + 1\<rparr>"
  "cl_worker (bump_revision c) = cl_worker c" "cl_token (bump_revision c) = cl_token c"
  by (simp_all add: bump_revision_def)

lemma leased_run_stored:
  assumes "mem_inv st" "bt_get (ms_run_leases st) k = Some l"
  obtains r where "bt_get (ms_runs st) k = Some r" "\<not> terminal (rr_status r)"
  using assms unfolding mem_inv_def leases_wf_def by blast

lemma commit_refused:
  assumes "mem_inv st" "\<not> (holds_lease st c \<and> at_revision st c)"
  obtains msg where "mem_commit_run ch c es st = (st, Err (Diagnostic ''stale_lease'' msg))"
proof -
  obtain st' res where run: "mem_commit_run ch c es st = (st', res)" by fastforce
  from run show ?thesis
  proof (cases rule: mem_commit_run_cases)
    case no_run
    with assms run that show ?thesis
      by (auto simp: mem_commit_run_def validate_claim_def split: option.splits if_splits
          elim: leased_run_stored)
  next
    case emit_failed
    with assms run that show ?thesis
      by (auto simp: mem_commit_run_def validate_claim_def holds_lease_def at_revision_def
          split: option.splits if_splits elim: leased_run_stored)
  next
    case (committed stored l st2)
    with assms show ?thesis by (simp add: holds_lease_def at_revision_def)
  qed (use run that in auto)
qed

lemma commit_run_ok:
  "holds_lease st c \<and> at_revision st c \<Longrightarrow> mem_commit_run ch c [] st =
     (put_run (run_id (cl_run c)) (cl_run (bump_revision c)) st, Ok (bump_revision c))"
  by (auto simp: holds_lease_def at_revision_def mem_commit_run_def validate_claim_def put_run_def
      bump_revision_def Let_def split: option.splits)

text \<open>
  A worker commits exactly when it holds the run's lease and nobody changed the run since it
  read it. An accepted commit without emitted events stores the claimed run with its revision
  raised by one, releases the lease when the run is terminal, and changes nothing else; every
  other commit is refused as stale and leaves the store as it was.
\<close>

theorem commit_run_fenced:
  assumes "mem_inv st"
  shows "if holds_lease st c \<and> at_revision st c
         then mem_commit_run ch c [] st =
                (put_run (run_id (cl_run c)) (cl_run (bump_revision c)) st, Ok (bump_revision c))
         else \<exists>msg. mem_commit_run ch c es st = (st, Err (Diagnostic ''stale_lease'' msg))"
proof (cases "holds_lease st c \<and> at_revision st c")
  case True
  then show ?thesis using commit_run_ok by simp
next
  case False
  with commit_refused [OF assms False] show ?thesis by metis
qed

theorem commit_run_fenced_witness:
  "mem_commit_run ex_chrono ex_done [] ex_st2 =
     (put_run ''r1'' (cl_run (bump_revision ex_done)) ex_st2, Ok (bump_revision ex_done))"
proof -
  have ok: "holds_lease ex_st2 ex_done \<and> at_revision ex_st2 ex_done" and
    rid: "run_id (cl_run ex_done) = ''r1''" by code_simp+
  from commit_run_fenced [OF reachable_inv [OF ex_reachable(2)], of ex_done ex_chrono] ok rid
  show ?thesis by simp
qed

text \<open>
  C4: A worker that lost its lease is fenced for good. Once another claim of the same run was
  handed out under a different token, every later commit of the old claim is refused as stale
  and changes nothing, whatever happens in between, as long as no later claim draws the same
  lease token again.
\<close>

theorem stale_worker_fenced:
  assumes inv: "mem_inv st0"
    and takeover: "mem_claim_run ch ulid executor worker now lease_for st0 = (st1, Ok (Some c2))"
      "run_id (cl_run c2) = run_id (cl_run c)" "cl_token c2 \<noteq> cl_token c"
    and later: "store_run ch ops st1 st2"
    and fresh: "\<forall>op \<in> set ops. minted_token op \<noteq> Some (cl_token c)"
  shows "\<exists>msg. mem_commit_run ch c es st2 = (st2, Err (Diagnostic ''stale_lease'' msg))"
proof -
  let ?P = "\<lambda>s. mem_inv s \<and> (\<forall>l. bt_get (ms_run_leases s) (run_id (cl_run c)) = Some l \<longrightarrow>
                               le_token l \<noteq> cl_token c)"
  have wf: "runs_wf (ms_next_cursor st0) (ms_runs st0)" using inv by (simp add: mem_inv_def)
  from takeover(1) wf have "bt_get (ms_run_leases st1) (run_id (cl_run c2)) =
      Some \<lparr> le_worker = cl_worker c2, le_token = cl_token c2, le_expires_at = cl_expires_at c2 \<rparr>"
    by (cases rule: mem_claim_run_cases) auto
  then have "?P st1" using takeover(2,3) mem_claim_run_inv [OF takeover(1) inv] by simp
  with later have "?P st2"
  proof (rule store_run_keeps)
    fix op s s' assume "op \<in> set ops" "store_step ch op s s'" "?P s"
    then show "?P s'" using store_step_inv store_step_leases fresh by metis
  qed
  then have "mem_inv st2" "\<not> (holds_lease st2 c \<and> at_revision st2 c)"
    by (auto simp: holds_lease_def split: option.splits)
  then show ?thesis using commit_refused by metis
qed

theorem stale_worker_fenced_witness:
  "\<exists>msg. mem_commit_run ex_chrono ex_done [] (fst (mem_request_cancel ''r1'' 310 ex_st2b)) =
     (fst (mem_request_cancel ''r1'' 310 ex_st2b), Err (Diagnostic ''stale_lease'' msg))"
proof -
  have "store_run ex_chrono [RequestCancel ''r1'' 310] ex_st2b (fst (mem_request_cancel ''r1'' 310 ex_st2b))"
    by (rule run_Cons [OF step_cancel run_Nil]) (rule prod.collapse [symmetric])
  moreover have "run_id (cl_run ex_claim2) = run_id (cl_run ex_done)" "cl_token ex_claim2 \<noteq> cl_token ex_done"
    by code_simp+
  ultimately show ?thesis
    using stale_worker_fenced [OF reachable_inv [OF ex_reachable(2)] ex_takeover, of ex_done
        "[RequestCancel ''r1'' 310]"] by simp
qed

section \<open>Finished runs\<close>

lemma mem_inv_runs: "mem_inv st \<Longrightarrow> runs_wf (ms_next_cursor st) (ms_runs st)"
  by (simp add: mem_inv_def)

text \<open>The plans an operation may admit.\<close>

fun op_plans :: "store_op \<Rightarrow> planned_run list" where
  "op_plans (AdmitEvent e) = pe_runs e"
| "op_plans (CommitRun _ es) = concat (map pe_runs es)"
| "op_plans (FireTimer _ _ e) = pe_runs e"
| "op_plans _ = []"

text \<open>The run \<open>r\<close> is stored under \<open>k\<close> and is finished.\<close>

definition finished_at :: "string \<Rightarrow> run_record \<Rightarrow> mem_state \<Rightarrow> bool" where
  "finished_at k r st \<longleftrightarrow> mem_inv st \<and> bt_get (ms_runs st) k = Some r \<and> terminal (rr_status r)"

lemma finished_atD:
  assumes "finished_at k r st"
  shows "mem_inv st" "bt_get (ms_runs st) k = Some r" "terminal (rr_status r)" "run_id r = k"
proof -
  from assms show "mem_inv st" "bt_get (ms_runs st) k = Some r" "terminal (rr_status r)"
    by (simp_all add: finished_at_def)
  then show "run_id r = k" using runs_wfD(1) mem_inv_runs by blast
qed

lemma remove_runs_keep:
  "k \<notin> set ids \<Longrightarrow> bt_get (ms_runs (foldl (\<lambda>s rid. remove_run rid s) st ids)) k = bt_get (ms_runs st) k"
  by (induction ids arbitrary: st) auto

lemma drop_obsolete_finished:
  assumes "finished_at k r st" shows "finished_at k r (drop_obsolete received p st)"
proof -
  note D = finished_atD [OF assms]
  have "k \<notin> set (map run_id (filter (obsolete_run received p) (bt_values (ms_runs st))))"
  proof
    assume "k \<in> set (map run_id (filter (obsolete_run received p) (bt_values (ms_runs st))))"
    then obtain q where q: "q \<in> set (bt_values (ms_runs st))" "obsolete_run received p q" "run_id q = k"
      by auto
    from q(1) obtain j where j: "bt_get (ms_runs st) j = Some q"
      unfolding in_bt_values [OF bt_wf_runs [OF D(1)]] by (elim exE)
    with q(3) have "bt_get (ms_runs st) k = Some q" using runs_wfD(1) [OF mem_inv_runs [OF D(1)] j] by simp
    with D q(2) show False by (simp add: obsolete_run_def)
  qed
  with D drop_obsolete_inv [OF D(1)] show ?thesis
    by (simp add: finished_at_def drop_obsolete_def remove_runs_keep)
qed

lemma cancel_active_finished:
  assumes "finished_at k r (fst a)" shows "finished_at k r (fst (cancel_active received a rid))"
proof -
  obtain s cs where a: "a = (s, cs)" by fastforce
  note D = finished_atD [OF assms [unfolded a fst_conv]]
  have "bt_get (ms_runs (fst (cancel_active received (s, cs) rid))) k = Some r"
    using D by (auto simp: cancel_active_def request_cancel_run_def Let_def split: option.splits)
  with D cancel_active_inv [OF D(1)] show ?thesis by (simp add: finished_at_def a)
qed

lemma admit_run_finished:
  assumes "finished_at k r st" "\<not> idempotency_taken st p" "pr_event_cursor p \<le> ms_next_cursor st"
    and "pr_id p = k \<Longrightarrow> same_idempotency (rr_plan r) p"
  shows "finished_at k r (st\<lparr>ms_runs := bt_insert (pr_id p) (admitted p) (ms_runs st)\<rparr>)"
proof -
  note D = finished_atD [OF assms(1)]
  have "pr_id p \<noteq> k"
    using assms(2,4) D(2) idempotency_taken_iff [OF bt_wf_runs [OF D(1)]] by blast
  with D mem_inv_admit_run [OF D(1) assms(2,3)] show ?thesis by (simp add: finished_at_def)
qed

lemma admit_plan_finished:
  assumes "admit_plan ch received cursor p acc = Ok acc'" "finished_at k r (ac_state acc)"
    and "cursor \<le> ms_next_cursor (ac_state acc)" "pr_id p = k \<Longrightarrow> same_idempotency (rr_plan r) p"
  shows "finished_at k r (ac_state acc')"
  using assms(1)
proof (cases rule: admit_plan_cases)
  case (replaced st2 cs)
  let ?st1 = "drop_obsolete received (p\<lparr>pr_event_cursor := cursor\<rparr>) (ac_state acc)"
  have st1: "finished_at k r ?st1" using assms(2) by (rule drop_obsolete_finished)
  have fold: "foldl (cancel_active received) (?st1, ac_cancelled acc)
      (active_group_runs ?st1 (pr_concurrency_group p)) = (st2, cs)" using replaced(3) .
  have st2: "finished_at k r st2"
    using foldl_keeps [where P = "\<lambda>a. finished_at k r (fst a)" and f = "cancel_active received"
        and s = "(?st1, ac_cancelled acc)" and xs = "active_group_runs ?st1 (pr_concurrency_group p)"]
      st1 cancel_active_finished fold by force
  from cancel_fold_invariant [OF finished_atD(1) [OF st1], of received "ac_cancelled acc"
      "active_group_runs ?st1 (pr_concurrency_group p)"] fold
  have same: "same_plans ?st1 st2" "ms_next_cursor st2 = ms_next_cursor (ac_state acc)" by simp_all
  have "\<not> idempotency_taken st2 (p\<lparr>pr_event_cursor := cursor\<rparr>)"
    using same_plans_idempotency [OF same(1) bt_wf_runs [OF finished_atD(1) [OF st1]]
        bt_wf_runs [OF finished_atD(1) [OF st2]]] replaced(1) by simp
  then have "\<not> idempotency_taken st2 (p\<lparr>pr_event_cursor := cursor, pr_replacement_blockers := x\<rparr>)" for x
    by (simp add: idempotency_taken_def)
  from admit_run_finished [OF st2 this] same(2) assms(3,4) show ?thesis
    by (simp add: replaced(4) same_idempotency_def)
next
  case queued
  from admit_run_finished [OF drop_obsolete_finished [OF assms(2)] queued(1)] assms(3,4)
  show ?thesis by (simp add: queued(4) same_idempotency_def)
qed (use assms(2) drop_obsolete_finished in auto)

lemma admit_plans_finished:
  "admit_plans ch received cursor ps acc = Ok acc' \<Longrightarrow> finished_at k r (ac_state acc) \<Longrightarrow>
   cursor \<le> ms_next_cursor (ac_state acc) \<Longrightarrow>
   (\<And>p. p \<in> set ps \<Longrightarrow> pr_id p = k \<Longrightarrow> same_idempotency (rr_plan r) p) \<Longrightarrow>
   finished_at k r (ac_state acc')"
proof (induction ps arbitrary: acc)
  case (Cons p ps)
  from Cons.prems(1) obtain acc1 where 1: "admit_plan ch received cursor p acc = Ok acc1"
    and 2: "admit_plans ch received cursor ps acc1 = Ok acc'" by auto
  have "finished_at k r (ac_state acc1)" using admit_plan_finished [OF 1 Cons.prems(2,3)] Cons.prems(4) by simp
  moreover have "ms_next_cursor (ac_state acc1) = ms_next_cursor (ac_state acc)"
    using admit_plan_inv [OF 1 finished_atD(1) [OF Cons.prems(2)] Cons.prems(3)] by simp
  ultimately show ?case using Cons.IH [OF 2] Cons.prems(3,4) by simp
qed simp

lemma admit_finished:
  assumes "admit ch e st = Ok (st', out)" "finished_at k r st"
    and "\<And>p. p \<in> set (pe_runs e) \<Longrightarrow> pr_id p = k \<Longrightarrow> same_idempotency (rr_plan r) p"
  shows "finished_at k r st'"
  using assms(1)
proof (cases rule: admit_cases)
  case (fresh acc)
  note D = finished_atD [OF assms(2)]
  have "finished_at k r (journal_event e st)"
    using D journal_event_inv [OF D(1) fresh(1)] by (simp add: finished_at_def)
  from admit_plans_finished [OF fresh(2)] this assms(3) show ?thesis
    by (simp add: fresh(3) journal_event_def Let_def)
qed (use assms(2) in auto)

lemma admit_all_finished:
  assumes "admit_all ch es st = Ok st'" "finished_at k r st"
    and "\<And>p. p \<in> set (concat (map pe_runs es)) \<Longrightarrow> pr_id p = k \<Longrightarrow> same_idempotency (rr_plan r) p"
  shows "finished_at k r st'"
  using assms(1,2)
proof (rule admit_all_keeps)
  fix e s s' out assume e: "e \<in> set es" "admit ch e s = Ok (s', out)" "finished_at k r s"
  then show "finished_at k r s'" by (intro admit_finished [OF e(2,3)] assms(3)) auto
qed

lemma finished_not_leased:
  assumes "finished_at k r st" shows "bt_get (ms_run_leases st) k = None"
proof (cases "bt_get (ms_run_leases st) k")
  case (Some l)
  from leased_run_stored [OF finished_atD(1) [OF assms] Some] finished_atD(2,3) [OF assms]
  show ?thesis by auto
qed

lemma mem_commit_finished:
  assumes "mem_commit_run ch c es st = (st', res)" "res \<noteq> Panic" "claim_evolves st c" "finished_at k r st"
    and "\<And>p. p \<in> set (concat (map pe_runs es)) \<Longrightarrow> pr_id p = k \<Longrightarrow> same_idempotency (rr_plan r) p"
  shows "finished_at k r st'"
  using assms(1)
proof (cases rule: mem_commit_run_cases)
  case (committed stored l st2)
  note D = finished_atD [OF assms(4)]
  let ?rid = "run_id (cl_run c)" and ?run = "cl_run (bump_revision c)"
  have other: "?rid \<noteq> k" using committed(1) finished_not_leased [OF assms(4)] by auto
  have inv': "mem_inv st'" using mem_commit_run_inv [OF assms(1) assms(2) D(1) assms(3)] .
  have "bt_get (ms_runs (put_run ?rid ?run st)) k = Some r" using other D by simp
  moreover have ev: "run_evolves stored ?run"
    using assms(3) committed(1,3,4,5) by (auto simp: claim_evolves_def run_evolves_def)
  ultimately have fin: "finished_at k r (put_run ?rid ?run st)"
    using mem_inv_put_run [OF D(1) committed(4) ev] D by (simp add: finished_at_def)
  have "bt_get (ms_runs st') k = Some r"
  proof (cases "terminal (rr_status (cl_run c))")
    case True
    then have put: "put_run ?rid ?run st = drop_lease ?rid (st\<lparr>ms_runs := bt_insert ?rid ?run (ms_runs st)\<rparr>)"
      by (simp add: put_run_def drop_lease_def)
    have "admit_all ch es (put_run ?rid ?run st) = Ok (drop_lease ?rid st2)"
      unfolding put drop_lease_admit_all using committed(6) by simp
    then have "finished_at k r (drop_lease ?rid st2)"
      using fin assms(5) by (rule admit_all_finished)
    then show ?thesis using True by (simp add: committed(7) finished_at_def)
  next
    case False
    then have "admit_all ch es (put_run ?rid ?run st) = Ok st2"
      using committed(6) by (simp add: put_run_def)
    then have "finished_at k r st2"
      using fin assms(5) by (rule admit_all_finished)
    then show ?thesis using False by (simp add: committed(7) finished_at_def)
  qed
  with inv' D show ?thesis by (simp add: finished_at_def)
qed (use assms in auto)

lemma mem_claim_finished:
  assumes "mem_claim_run ch ulid ex w now d st = (st', res)" "finished_at k r st"
  shows "finished_at k r st'"
proof -
  note D = finished_atD [OF assms(2)]
  have inv': "mem_inv st'" using mem_claim_run_inv [OF assms(1) D(1)] .
  from assms(1) mem_inv_runs [OF D(1)] have "bt_get (ms_runs st') k = Some r"
  proof (cases rule: mem_claim_run_cases)
    case (claimed q e)
    have "run_id q \<noteq> k"
    proof
      assume "run_id q = k"
      with claimed(1) D(2) have "q = r" by simp
      with claimed(2) D(3) show False by (simp add: claimable_def)
    qed
    with claimed(5) D(2) show ?thesis by simp
  qed (use D(2) in simp_all)
  with inv' D show ?thesis by (simp add: finished_at_def)
qed

lemma mem_fire_finished:
  assumes "mem_fire_timer ch c fired e st = (st', res)" "res \<noteq> Panic" "fires_claim c fired" "finished_at k r st"
    and "\<And>p. p \<in> set (pe_runs e) \<Longrightarrow> pr_id p = k \<Longrightarrow> same_idempotency (rr_plan r) p"
  shows "finished_at k r st'"
  using assms(1)
proof (cases rule: mem_fire_timer_cases)
  case (fired l t)
  note D = finished_atD [OF assms(4)]
  let ?st1 = "st\<lparr>ms_timers := bt_insert (tr_id fired) fired (ms_timers st),
    ms_timer_leases := bt_remove (tr_id (tc_timer c)) (ms_timer_leases st)\<rparr>"
  have "1 \<le> tr_generation t" "tr_generation t \<le> TIMER_GENERATION_MAX"
    using D(1) fired(4) unfolding mem_inv_def timers_wf_def by blast+
  with fired(5) assms(3) D have "finished_at k r ?st1"
    by (auto simp: finished_at_def mem_inv_def fires_claim_def intro!: timers_wf_schedule)
  with fired(6) assms(2,5) show ?thesis
    by (auto split: res.splits prod.splits intro: admit_finished)
qed (use assms in auto)

lemma finished_frame:
  "finished_at k r st \<Longrightarrow> mem_inv st' \<Longrightarrow> ms_runs st' = ms_runs st \<Longrightarrow> finished_at k r st'"
  by (simp add: finished_at_def)

lemma store_step_finished:
  assumes "store_step ch op st st'" "finished_at k r st"
    and "\<And>p. p \<in> set (op_plans op) \<Longrightarrow> pr_id p = k \<Longrightarrow> same_idempotency (rr_plan r) p"
  shows "finished_at k r st'"
proof -
  note D = finished_atD [OF assms(2)]
  have inv': "mem_inv st'" using store_step_inv [OF assms(1) D(1)] .
  note frame = finished_frame [OF assms(2) inv']
  from assms(1) show ?thesis
  proof (cases rule: store_step.cases)
    case (step_admit e out)
    then show ?thesis using admit_finished [OF _ assms(2)] assms(3) by (auto simp: mem_admit_event_Ok)
  next
    case (step_claim ulid executor worker now lease_for res)
    then show ?thesis using mem_claim_finished assms(2) by blast
  next
    case (step_commit c es res)
    then show ?thesis using mem_commit_finished [OF step_commit(2,3,4) assms(2)] assms(3) by auto
  next
    case (step_cancel rid now res)
    from step_cancel(2) show ?thesis
    proof (cases rule: mem_request_cancel_cases)
      case (accepted q q')
      with D have "rid \<noteq> k" by auto
      with accepted D inv' show ?thesis by (simp add: finished_at_def)
    qed (use assms(2) in auto)
  next
    case (step_prune cursor res)
    then show ?thesis by (intro frame) (auto simp: mem_prune_events_through_def Let_def)
  next
    case (step_fire tc fired e res)
    then show ?thesis using mem_fire_finished [OF step_fire(2,3,4) assms(2)] assms(3) by auto
  qed (auto intro!: frame dest: timer_ops_runs_frame)
qed

text \<open>
  C5: A finished run is final. Once a stored run succeeded, failed, was cancelled or became
  indeterminate, every later state of the store holds exactly that record, whatever workers,
  cancellations and deliveries do, provided that no plan is admitted that reuses the run's id
  without also carrying its idempotency scope and key.
\<close>

theorem terminal_run_immutable:
  assumes "reachable ch st" "bt_get (ms_runs st) k = Some r" "terminal (rr_status r)"
    and "store_run ch ops st st'"
    and "\<forall>op \<in> set ops. \<forall>p \<in> set (op_plans op). pr_id p = k \<longrightarrow> same_idempotency (rr_plan r) p"
  shows "bt_get (ms_runs st') k = Some r"
proof -
  have "finished_at k r st" using assms(1,2,3) reachable_inv by (simp add: finished_at_def)
  with assms(4) have "finished_at k r st'"
    by (rule store_run_keeps) (use assms(5) in \<open>auto intro: store_step_finished\<close>)
  then show ?thesis by (rule finished_atD)
qed

theorem terminal_run_immutable_witness:
  "bt_get (ms_runs (fst (mem_request_cancel ''r1'' 310 ex_st3))) ''r1'' =
     Some ((cl_run ex_done)\<lparr>rr_revision := 1\<rparr>)"
proof -
  have r: "bt_get (ms_runs ex_st3) ''r1'' = Some ((cl_run ex_done)\<lparr>rr_revision := 1\<rparr>)"
    and fin: "terminal (rr_status ((cl_run ex_done)\<lparr>rr_revision := 1\<rparr>))" by code_simp+
  have run: "store_run ex_chrono [RequestCancel ''r1'' 310] ex_st3 (fst (mem_request_cancel ''r1'' 310 ex_st3))"
    by (rule run_Cons [OF step_cancel run_Nil]) (rule prod.collapse [symmetric])
  show ?thesis by (rule terminal_run_immutable [OF ex_reachable(3) r fin run]) simp
qed

end
