(* ===== verification/Store_Admission.thy ===== *)
theory Store_Admission
  imports Store_Fencing "HOL-Library.Multiset"
begin

text \<open>
  What admission, cancellation and the journal promise: every planned run of a delivery is
  accounted for, a replacing run cancels what it replaces, a cancellation is recorded before
  anything else happens to the run, journal pages neither lose nor repeat an event, and a panic
  under the lock takes the store out of service.
\<close>

section \<open>Accounting of a delivery\<close>

lemma admit_plan_accounts:
  assumes "admit_plan ch received cursor p acc = Ok acc'"
  shows "ac_admitted acc' = ac_admitted acc @ [pr_id p] \<and> ac_skipped acc' = ac_skipped acc \<or>
         ac_admitted acc' = ac_admitted acc \<and> ac_skipped acc' = ac_skipped acc @ [pr_id p]"
  using assms by (cases rule: admit_plan_cases) simp_all

lemma admit_plans_accounts:
  "admit_plans ch received cursor ps acc = Ok acc' \<Longrightarrow>
   mset (ac_admitted acc') + mset (ac_skipped acc') =
     mset (ac_admitted acc) + mset (ac_skipped acc) + mset (map pr_id ps)"
proof (induction ps arbitrary: acc)
  case (Cons p ps)
  from Cons.prems obtain acc1 where 1: "admit_plan ch received cursor p acc = Ok acc1"
    and 2: "admit_plans ch received cursor ps acc1 = Ok acc'" by auto
  from admit_plan_accounts [OF 1] Cons.IH [OF 2] show ?case by auto
qed simp

text \<open>
  A delivery accounts for every run it planned: a new event gets the next cursor and is
  appended to the journal, and the ids of its planned runs are exactly the admitted ids
  together with the skipped ids, each as often as it was planned.
\<close>

theorem admit_event_accounts:
  assumes "mem_admit_event ch e st = (st', Ok out)" "\<not> ao_duplicate out"
  shows "ao_cursor out = ms_next_cursor st + 1 \<and> ms_next_cursor st' = ao_cursor out \<and>
    ms_events st' = ms_events st @
      [\<lparr> ej_cursor = ao_cursor out, ej_source_runtime = pe_source_runtime e,
         ej_event_id = pe_event_id e, ej_envelope = pe_envelope e, ej_received_at = pe_received_at e \<rparr>] \<and>
    mset (ao_admitted_run_ids out @ ao_skipped_run_ids out) = mset (map pr_id (pe_runs e))"
proof -
  from assms(1) have "admit ch e st = Ok (st', out)" by (simp add: mem_admit_event_Ok)
  then show ?thesis
  proof (cases rule: admit_cases)
    case (fresh acc)
    from admit_plans_accounts [OF fresh(2)] fresh(4,5) show ?thesis
      by (simp add: same_outside_runs_def journal_event_def Let_def)
  qed (use assms(2) in simp)
qed

theorem admit_event_accounts_witness:
  "mset (ao_admitted_run_ids ex_out1 @ ao_skipped_run_ids ex_out1) = mset [''r1'', ''r2'']"
  using admit_event_accounts [OF ex_admit] by (simp add: ex_out1_def ex_event_def ex_plan_def)

section \<open>Replacement\<close>

lemma request_cancel_run_marks:
  "request_cancel_run now r = (r', b) \<Longrightarrow> \<not> terminal (rr_status r) \<Longrightarrow>
   rr_cancel_requested_at r' \<noteq> None"
  by (auto simp: request_cancel_run_def get_or_insert_def Let_def split: if_splits option.splits)

text \<open>How the cancellation of a replaced group leaves one run.\<close>

definition told_to_stop :: "run_record \<Rightarrow> bool" where
  "told_to_stop r \<longleftrightarrow> terminal (rr_status r) \<or> rr_status r = RunRunning \<and> rr_cancel_requested_at r \<noteq> None"

lemma request_cancel_stops:
  assumes "request_cancel_run now r = (r', b)" shows "told_to_stop r'"
  using assms request_cancel_run_status [OF assms] request_cancel_run_marks [OF assms]
  by (cases "rr_status r") (auto simp: told_to_stop_def)

lemma cancel_active_stops:
  assumes "bt_get (ms_runs (fst a)) rid = Some r"
  shows "\<exists>r'. bt_get (ms_runs (fst (cancel_active received a rid))) rid = Some r' \<and> told_to_stop r'"
proof -
  obtain s cs where a: "a = (s, cs)" by fastforce
  obtain r' b where rb: "request_cancel_run received r = (r', b)" by fastforce
  from request_cancel_stops [OF rb] assms rb show ?thesis
    by (auto simp: a cancel_active_def Let_def told_to_stop_def)
qed

lemma cancel_active_keeps_stopped:
  assumes "bt_get (ms_runs (fst a)) k = Some r" "told_to_stop r"
  shows "\<exists>r'. bt_get (ms_runs (fst (cancel_active received a rid))) k = Some r' \<and> told_to_stop r'"
proof (cases "k = rid")
  case True
  then show ?thesis using cancel_active_stops assms(1) by blast
next
  case False
  obtain s cs where a: "a = (s, cs)" by fastforce
  from assms False show ?thesis
    by (auto simp: a cancel_active_def Let_def split: option.splits prod.splits)
qed

lemma cancel_fold_same_plans:
  "same_plans st (fst (foldl (cancel_active received) (st, cs) ids))"
proof (induction ids rule: rev_induct)
  case (snoc rid ids)
  obtain s d where a: "foldl (cancel_active received) (st, cs) ids = (s, d)" by fastforce
  with snoc cancel_active_same_plans [of s received d rid] show ?case by (simp add: same_plans_def)
qed simp

lemma cancel_fold_stops:
  assumes "k \<in> set ids" "\<forall>k \<in> set ids. \<exists>r. bt_get (ms_runs (fst a)) k = Some r"
  shows "\<exists>r. bt_get (ms_runs (fst (foldl (cancel_active received) a ids))) k = Some r \<and> told_to_stop r"
  using assms
proof (induction ids arbitrary: a rule: rev_induct)
  case (snoc rid ids)
  let ?a = "foldl (cancel_active received) a ids"
  show ?case
  proof (cases "k \<in> set ids")
    case True
    with snoc obtain r where "bt_get (ms_runs (fst ?a)) k = Some r" "told_to_stop r" by fastforce
    then show ?thesis using cancel_active_keeps_stopped by simp
  next
    case False
    with snoc.prems(1) have "k = rid" by simp
    obtain s cs where a: "a = (s, cs)" by fastforce
    have "same_plans s (fst ?a)" unfolding a by (rule cancel_fold_same_plans)
    with snoc.prems(2) a \<open>k = rid\<close> obtain r where "bt_get (ms_runs (fst ?a)) rid = Some r"
      by (auto dest: same_plans_D(1))
    then show ?thesis using cancel_active_stops \<open>k = rid\<close> by simp
  qed
qed simp

lemma remove_runs_get:
  "bt_get (ms_runs (foldl (\<lambda>s rid. remove_run rid s) st ids)) k =
     (if k \<in> set ids then None else bt_get (ms_runs st) k)"
  by (induction ids arbitrary: st) auto

lemma stored_runs:
  assumes "mem_inv st"
  shows "q \<in> set (bt_values (ms_runs st)) \<longleftrightarrow> bt_get (ms_runs st) (run_id q) = Some q"
  using in_bt_values [OF bt_wf_runs [OF assms]] runs_wfD(1) [OF mem_inv_runs [OF assms]] by metis

lemma drop_obsolete_get:
  assumes "mem_inv st" "bt_get (ms_runs st) k = Some q"
  shows "bt_get (ms_runs (drop_obsolete received p st)) k =
    (if received < pr_not_before p \<and> obsolete_run received p q then None else Some q)"
proof -
  have id: "run_id q = k" using runs_wfD(1) [OF mem_inv_runs [OF assms(1)] assms(2)] .
  have "k \<in> set (map run_id (filter (obsolete_run received p) (bt_values (ms_runs st)))) \<longleftrightarrow>
      obsolete_run received p q"
  proof
    assume "k \<in> set (map run_id (filter (obsolete_run received p) (bt_values (ms_runs st))))"
    then obtain x where x: "run_id x = k" "x \<in> set (bt_values (ms_runs st))" "obsolete_run received p x"
      by auto
    with assms(2) stored_runs [OF assms(1), of x] show "obsolete_run received p q" by simp
  next
    assume "obsolete_run received p q"
    with id bt_get_value [OF assms(2)]
    show "k \<in> set (map run_id (filter (obsolete_run received p) (bt_values (ms_runs st))))" by force
  qed
  with assms(2) show ?thesis by (simp add: drop_obsolete_def remove_runs_get)
qed

lemma active_group_runs_iff:
  assumes "mem_inv st"
  shows "k \<in> set (active_group_runs st g) \<longleftrightarrow>
    (\<exists>q. bt_get (ms_runs st) k = Some q \<and> pr_concurrency_group (rr_plan q) = g \<and> \<not> terminal (rr_status q))"
proof -
  have "k \<in> set (active_group_runs st g) \<longleftrightarrow>
      (\<exists>q \<in> set (bt_values (ms_runs st)). run_id q = k \<and> pr_concurrency_group (rr_plan q) = g \<and>
         \<not> terminal (rr_status q))"
    by (auto simp: active_group_runs_def occupies_iff_not_terminal)
  also have "\<dots> \<longleftrightarrow> (\<exists>q. bt_get (ms_runs st) k = Some q \<and> pr_concurrency_group (rr_plan q) = g \<and>
      \<not> terminal (rr_status q))" (is "?L \<longleftrightarrow> ?R")
  proof
    assume ?L
    then show ?R unfolding Bex_def stored_runs [OF assms] by blast
  next
    assume ?R
    then obtain q where q: "bt_get (ms_runs st) k = Some q" "pr_concurrency_group (rr_plan q) = g"
      "\<not> terminal (rr_status q)" by blast
    with runs_wfD(1) [OF mem_inv_runs [OF assms] q(1)] bt_get_value [OF q(1)] show ?L by blast
  qed
  finally show ?thesis .
qed

text \<open>What the rest of a delivery does to a stopped run: it may remove it, but not revive it.\<close>

definition stopped_at :: "string \<Rightarrow> mem_state \<Rightarrow> bool" where
  "stopped_at k st \<longleftrightarrow> (\<forall>q. bt_get (ms_runs st) k = Some q \<longrightarrow> told_to_stop q)"

lemma drop_obsolete_stopped: "stopped_at k st \<Longrightarrow> stopped_at k (drop_obsolete received p st)"
  by (auto simp: stopped_at_def drop_obsolete_def remove_runs_get split: if_splits)

lemma cancel_active_stopped:
  assumes "stopped_at k (fst a)"
  shows "stopped_at k (fst (cancel_active received a rid))"
proof (cases "bt_get (ms_runs (fst a)) k")
  case None
  obtain s cs where a: "a = (s, cs)" by fastforce
  show ?thesis
    by (cases rule: cancel_active_cases [of s rid received cs]) (use None a in \<open>auto simp: stopped_at_def put_run_def Let_def split: if_splits\<close>)
next
  case (Some r)
  with assms have "told_to_stop r" by (simp add: stopped_at_def)
  from cancel_active_keeps_stopped [OF Some this, of received rid] show ?thesis by (auto simp: stopped_at_def)
qed

lemma cancel_fold_stopped: "stopped_at k (fst a) \<Longrightarrow> stopped_at k (fst (foldl (cancel_active received) a ids))"
  by (induction ids arbitrary: a) (simp_all add: cancel_active_stopped)

lemma admit_plan_stopped:
  assumes "admit_plan ch received cursor p acc = Ok acc'" "stopped_at k (ac_state acc)" "k \<noteq> pr_id p"
  shows "stopped_at k (ac_state acc')"
  using assms(1)
proof (cases rule: admit_plan_cases)
  case (replaced st2 cs)
  have "stopped_at k (fst (drop_obsolete received (p\<lparr>pr_event_cursor := cursor\<rparr>) (ac_state acc), ac_cancelled acc))"
    using drop_obsolete_stopped [OF assms(2)] by simp
  from cancel_fold_stopped [OF this] replaced(3) have "stopped_at k st2" by (metis fst_conv)
  then show ?thesis using replaced(4) assms(3) by (simp add: stopped_at_def)
qed (use assms(2,3) drop_obsolete_stopped [OF assms(2)] in \<open>auto simp: stopped_at_def\<close>)

lemma admit_plans_stopped:
  "admit_plans ch received cursor ps acc = Ok acc' \<Longrightarrow> stopped_at k (ac_state acc) \<Longrightarrow> k \<notin> pr_id ` set ps \<Longrightarrow>
   stopped_at k (ac_state acc')"
  by (induction ps arbitrary: acc) (auto dest: admit_plan_stopped)

lemma admit_plans_append:
  "admit_plans ch received cursor (ps @ qs) acc = bind_res (admit_plans ch received cursor ps acc) (admit_plans ch received cursor qs)"
proof (induction ps arbitrary: acc)
  case (Cons p ps)
  then show ?case by (cases "admit_plan ch received cursor p acc") simp_all
qed simp

text \<open>One plan with the \<open>replace\<close> policy that is admitted.\<close>

lemma admit_plan_replaces:
  assumes inv: "mem_inv (ac_state before)" and step: "admit_plan ch received cursor p before = Ok after"
    and plan: "pr_concurrency_policy p = Replace" "ac_admitted after = ac_admitted before @ [pr_id p]"
    and old: "bt_get (ms_runs (ac_state before)) k = Some q" "\<not> terminal (rr_status q)"
      "pr_concurrency_group (rr_plan q) = pr_concurrency_group p" "k \<noteq> pr_id p"
  shows "if received < pr_not_before p \<and> obsolete_run received p q
         then bt_get (ms_runs (ac_state after)) k = None
         else \<exists>q' n. bt_get (ms_runs (ac_state after)) k = Some q' \<and> told_to_stop q' \<and>
                bt_get (ms_runs (ac_state after)) (pr_id p) = Some n \<and> rr_status n = RunQueued \<and>
                k \<in> set (pr_replacement_blockers (rr_plan n))"
proof -
  let ?p = "p\<lparr>pr_event_cursor := cursor\<rparr>"
  let ?st1 = "drop_obsolete received ?p (ac_state before)"
  let ?active = "active_group_runs ?st1 (pr_concurrency_group p)"
  let ?fold = "foldl (cancel_active received) (?st1, ac_cancelled before) ?active"
  from step obtain st2 cs where fold: "?fold = (st2, cs)"
    and after: "ac_state after = st2\<lparr>ms_runs := bt_insert (pr_id p)
                (admitted (?p\<lparr>pr_replacement_blockers := ?active\<rparr>)) (ms_runs st2)\<rparr>"
    by (cases rule: admit_plan_cases) (use plan in \<open>auto\<close>)
  have inv1: "mem_inv ?st1" using drop_obsolete_inv [OF inv] .
  have get1: "bt_get (ms_runs ?st1) k = (if received < pr_not_before p \<and> obsolete_run received p q then None else Some q)"
    using drop_obsolete_get [OF inv, of k q received ?p] old(1) by (simp add: obsolete_run_def)
  note act = active_group_runs_iff [OF inv1, of _ "pr_concurrency_group p"]
  show ?thesis
  proof (cases "received < pr_not_before p \<and> obsolete_run received p q")
    case True
    have "same_plans ?st1 st2" using cancel_fold_same_plans [of ?st1 received "ac_cancelled before" ?active] fold by simp
    then have "bt_get (ms_runs st2) k = None"
      using get1 True by (metis same_plans_D(2) option.exhaust option.distinct(1))
    with True show ?thesis using old(4) by (simp add: after)
  next
    case False
    then have "k \<in> set ?active" using act get1 old(2,3) by auto
    moreover have "\<forall>j \<in> set ?active. \<exists>r. bt_get (ms_runs (fst (?st1, ac_cancelled before))) j = Some r" using act by auto
    ultimately have "\<exists>r. bt_get (ms_runs (fst ?fold)) k = Some r \<and> told_to_stop r" by (rule cancel_fold_stops)
    with fold obtain r where "bt_get (ms_runs st2) k = Some r" "told_to_stop r" by auto
    with False \<open>k \<in> set ?active\<close> show ?thesis using old(4) by (simp add: after)
  qed
qed

definition admission_start :: "prepared_event \<Rightarrow> mem_state \<Rightarrow> admit_acc" where
  "admission_start e st = \<lparr>ac_state = journal_event e st, ac_admitted = [], ac_skipped = [], ac_cancelled = []\<rparr>"

text \<open>
  C8: A run admitted with the \<open>replace\<close> policy stops its group. Take any delivery of a new event, with
  any number of planned runs, and any plan \<open>p\<close> of it with that policy; \<open>before\<close> and \<open>after\<close> are the
  states around its turn. If \<open>p\<close> is admitted, then every other run of its group that had not finished
  is removed by it, when that run was still waiting out its debounce for the same workflow, trigger and
  executor; otherwise the run is cancelled at once or, when it is running, has its cancellation
  recorded, and the new run lists it among the runs that block it. The rest of the delivery does not
  revive it: unless a later plan of the delivery carries its id, it is still stopped or gone at the end.
\<close>

theorem replace_stops_group:
  assumes inv: "mem_inv st" and run: "mem_admit_event ch e st = (st', Ok out)" "\<not> ao_duplicate out"
    and plan: "pe_runs e = ps @ p # rs" "pr_concurrency_policy p = Replace"
  shows "\<exists>before after. admit_plans ch (pe_received_at e) (Suc (ms_next_cursor st)) ps (admission_start e st) = Ok before
    \<and> admit_plan ch (pe_received_at e) (Suc (ms_next_cursor st)) p before = Ok after
    \<and> (ac_admitted after = ac_admitted before @ [pr_id p] \<longrightarrow>
        (\<forall>k q. bt_get (ms_runs (ac_state before)) k = Some q \<and> \<not> terminal (rr_status q)
            \<and> pr_concurrency_group (rr_plan q) = pr_concurrency_group p \<and> k \<noteq> pr_id p \<longrightarrow>
          (if pe_received_at e < pr_not_before p \<and> obsolete_run (pe_received_at e) p q
           then bt_get (ms_runs (ac_state after)) k = None
           else \<exists>q' n. bt_get (ms_runs (ac_state after)) k = Some q' \<and> told_to_stop q' \<and>
                  bt_get (ms_runs (ac_state after)) (pr_id p) = Some n \<and> rr_status n = RunQueued \<and>
                  k \<in> set (pr_replacement_blockers (rr_plan n)))
          \<and> (k \<notin> pr_id ` set rs \<longrightarrow> stopped_at k st')))"
proof -
  let ?t = "pe_received_at e" and ?c = "Suc (ms_next_cursor st)"
  from run(1) have "admit ch e st = Ok (st', out)" by (simp add: mem_admit_event_Ok)
  then obtain acc where fresh: "bt_get (ms_event_index st) (pe_source_runtime e, pe_event_id e) = None"
    and all: "admit_plans ch ?t ?c (pe_runs e) (admission_start e st) = Ok acc" and st': "st' = ac_state acc"
    by (cases rule: admit_cases) (use run(2) in \<open>auto simp: admission_start_def\<close>)
  from all obtain before after where before: "admit_plans ch ?t ?c ps (admission_start e st) = Ok before"
    and after: "admit_plan ch ?t ?c p before = Ok after" and rest: "admit_plans ch ?t ?c rs after = Ok acc"
    by (auto simp: plan(1) admit_plans_append bind_res_eq_Ok)
  have "mem_inv (journal_event e st)" using journal_event_inv [OF inv fresh] .
  then have invb: "mem_inv (ac_state before)"
    using admit_plans_inv [OF before] by (simp add: admission_start_def journal_event_frame)
  let ?outcome = "\<lambda>k q. if ?t < pr_not_before p \<and> obsolete_run ?t p q
       then bt_get (ms_runs (ac_state after)) k = None
       else \<exists>q' n. bt_get (ms_runs (ac_state after)) k = Some q' \<and> told_to_stop q' \<and>
              bt_get (ms_runs (ac_state after)) (pr_id p) = Some n \<and> rr_status n = RunQueued \<and>
              k \<in> set (pr_replacement_blockers (rr_plan n))"
  have later: "k \<notin> pr_id ` set rs \<longrightarrow> stopped_at k st'" if "?outcome k q" for k q
  proof -
    have "stopped_at k (ac_state after)" using that by (auto simp: stopped_at_def split: if_splits)
    then show ?thesis using admit_plans_stopped [OF rest] st' by simp
  qed
  have "?outcome k q" if "ac_admitted after = ac_admitted before @ [pr_id p]" "bt_get (ms_runs (ac_state before)) k = Some q"
      "\<not> terminal (rr_status q)" "pr_concurrency_group (rr_plan q) = pr_concurrency_group p" "k \<noteq> pr_id p" for k q
    using admit_plan_replaces [OF invb after plan(2) that] .
  with later before after show ?thesis by blast
qed

definition ex_replace :: prepared_event where
  "ex_replace = ex_event ''e2'' [ex_plan ''r9'' Replace]"

definition ex_replaced :: mem_state where
  "ex_replaced = fst (mem_admit_event ex_chrono ex_replace ex_st2)"

definition ex_replace_out :: admit_outcome where
  "ex_replace_out = \<lparr> ao_cursor = 2, ao_duplicate = False, ao_admitted_run_ids = [''r9''],
     ao_skipped_run_ids = [], ao_cancellation_requested_run_ids = [''r1'', ''r2''] \<rparr>"

lemma ex_replace_ok: "mem_admit_event ex_chrono ex_replace ex_st2 = (ex_replaced, Ok ex_replace_out)"
proof -
  have "snd (mem_admit_event ex_chrono ex_replace ex_st2) = Ok ex_replace_out" by code_simp
  then show ?thesis by (simp add: ex_replaced_def prod_eq_iff)
qed

theorem replace_stops_group_witness:
  "\<exists>q n. bt_get (ms_runs ex_replaced) ''r1'' = Some q \<and> told_to_stop q \<and>
     bt_get (ms_runs ex_replaced) ''r9'' = Some n \<and> ''r1'' \<in> set (pr_replacement_blockers (rr_plan n))"
proof -
  let ?p = "ex_plan ''r9'' Replace"
  have plan: "pe_runs ex_replace = [] @ ?p # []" "pr_concurrency_policy ?p = Replace" "\<not> ao_duplicate ex_replace_out"
    by code_simp+
  from replace_stops_group [OF reachable_inv [OF ex_reachable(2)] ex_replace_ok plan(3,1,2)] obtain after where
    after: "admit_plan ex_chrono (pe_received_at ex_replace) (Suc (ms_next_cursor ex_st2)) ?p (admission_start ex_replace ex_st2) = Ok after"
    and stops: "ac_admitted after = [pr_id ?p] \<longrightarrow>
        (\<forall>k q. bt_get (ms_runs ex_st2) k = Some q \<and> \<not> terminal (rr_status q)
            \<and> pr_concurrency_group (rr_plan q) = pr_concurrency_group ?p \<and> k \<noteq> pr_id ?p \<longrightarrow>
          (if pe_received_at ex_replace < pr_not_before ?p \<and> obsolete_run (pe_received_at ex_replace) ?p q
           then bt_get (ms_runs (ac_state after)) k = None
           else \<exists>q' n. bt_get (ms_runs (ac_state after)) k = Some q' \<and> told_to_stop q' \<and>
                  bt_get (ms_runs (ac_state after)) (pr_id ?p) = Some n \<and> rr_status n = RunQueued \<and>
                  k \<in> set (pr_replacement_blockers (rr_plan n))))"
    by (auto simp: admission_start_def)
  have final: "ac_state after = ex_replaced" "ac_admitted after = [pr_id ?p]"
  proof -
    have "admit ex_chrono ex_replace ex_st2 = Ok (ex_replaced, ex_replace_out)" using ex_replace_ok by (simp add: mem_admit_event_Ok)
    then show "ac_state after = ex_replaced" "ac_admitted after = [pr_id ?p]"
      using after plan(1) by (cases rule: admit_cases; auto simp: ex_replace_out_def ex_plan_def admission_start_def)+
  qed
  have old: "bt_get (ms_runs ex_st2) ''r1'' = Some (start_run 10 (ex_run 1 ''r1''))"
    "\<not> terminal (rr_status (start_run 10 (ex_run 1 ''r1'')))"
    "pr_concurrency_group (rr_plan (start_run 10 (ex_run 1 ''r1''))) = pr_concurrency_group ?p"
    "''r1'' \<noteq> pr_id ?p" by code_simp+
  have "\<not> (pe_received_at ex_replace < pr_not_before ?p)" and "pr_id ?p = ''r9''" by code_simp+
  with stops [THEN mp, OF final(2), rule_format, OF conjI [OF old(1) conjI [OF old(2) conjI [OF old(3,4)]]]] final(1)
  show ?thesis by auto
qed

section \<open>Cancellation\<close>

text \<open>
  \<open>request_cancel\<close> is refused exactly for a run that is unknown or finished, and then changes
  nothing. Otherwise the run keeps its plan and its attempts, its revision grows by one, the time
  of the first request is kept, and a run that is not executing (queued or waiting) is cancelled
  at once: its current step is cancelled, the later pending steps are skipped and its lease is
  released.
\<close>

theorem request_cancel_correct:
  "mem_request_cancel rid now st =
     (case bt_get (ms_runs st) rid of
        None \<Rightarrow> (st, Ok False)
      | Some r \<Rightarrow>
          if terminal (rr_status r) then (st, Ok False)
          else let marked = r\<lparr>rr_cancel_requested_at := get_or_insert (rr_cancel_requested_at r) now,
                              rr_updated_at := now\<rparr> in
               if rr_status r = RunRunning
               then (put_run rid (marked\<lparr>rr_revision := rr_revision r + 1\<rparr>) st, Ok True)
               else (put_run rid (marked\<lparr>
                        rr_steps := map_from (Suc (rr_next_step r)) (skip_pending now)
                                      (modify_at (rr_next_step r) (cancel_step now) (rr_steps r)),
                        rr_next_step := length (rr_steps r), rr_status := RunCancelled,
                        rr_finished_at := Some now, rr_revision := rr_revision r + 1\<rparr>) st, Ok True))"
proof (cases "bt_get (ms_runs st) rid")
  case (Some r)
  then show ?thesis
    by (cases "rr_status r") (simp_all add: mem_request_cancel_def request_cancel_run_def put_run_def Let_def)
qed (simp add: mem_request_cancel_def)

section \<open>Journal pages\<close>

lemma filter_after_prefix:
  assumes "sorted_wrt (<) (map f (as @ bs))" "as \<noteq> []"
  shows "filter (\<lambda>e. f (last as) < (f e :: nat)) (as @ bs) = bs"
proof -
  have "\<forall>b \<in> set bs. f (last as) < f b" using assms by (auto simp: sorted_wrt_append)
  moreover have "\<forall>a \<in> set as. \<not> f (last as) < f a"
    using assms
  proof (induction as)
    case (Cons a as)
    then show ?case by (cases "as = []") (auto simp: not_less less_imp_le)
  qed simp
  ultimately show ?thesis by (simp add: filter_id_conv filter_empty_conv)
qed

lemma filter_after_page:
  assumes "sorted_wrt (<) (map f xs)" "take n (filter (\<lambda>e. after < f e) xs) \<noteq> []"
  shows "filter (\<lambda>e. f (last (take n (filter (\<lambda>e. after < f e) xs))) < (f e :: nat)) xs =
    drop n (filter (\<lambda>e. after < f e) xs)" (is "filter ?Q xs = drop n ?p")
proof -
  have "last (take n ?p) \<in> set ?p" using assms(2) last_in_set in_set_takeD by metis
  then have "filter ?Q xs = filter ?Q ?p" by (auto simp: filter_filter intro!: filter_cong)
  moreover have "sorted_wrt (<) (map f (take n ?p @ drop n ?p))"
    unfolding append_take_drop_id using assms(1) by (simp add: sorted_wrt_map sorted_wrt_filter)
  ultimately show ?thesis using filter_after_prefix [OF _ assms(2)] by (metis append_take_drop_id)
qed

text \<open>
  Journal pages neither lose nor repeat events. A reader whose position is retained gets, in
  cursor order, the next events after its position, never none while events remain; what it has
  not read yet is exactly what lies after the last cursor of the page, and \<open>has_more\<close> says whether
  that is anything. A reader whose position was pruned is told to reset and gets no events.
\<close>

theorem events_after_complete:
  assumes "journal_wf (ms_next_cursor st) (ms_retained_after st) (ms_events st) (ms_event_index st)"
    and "mem_events_after after limit st = (st', Ok page)"
  shows "st' = st \<and> (ep_reset_required page \<longleftrightarrow> after < ms_retained_after st) \<and>
    ep_head page = ms_next_cursor st \<and> ep_retained_after page = ms_retained_after st \<and>
    (if ep_reset_required page then ep_events page = [] \<and> \<not> ep_has_more page
     else let pending = filter (\<lambda>e. after < ej_cursor e) (ms_events st);
              position = (if ep_events page = [] then after else ej_cursor (last (ep_events page)))
          in pending = ep_events page @ filter (\<lambda>e. position < ej_cursor e) (ms_events st) \<and>
             (ep_has_more page \<longleftrightarrow> filter (\<lambda>e. position < ej_cursor e) (ms_events st) \<noteq> []) \<and>
             (ep_events page = [] \<longleftrightarrow> pending = []))"
proof -
  let ?p = "filter (\<lambda>e. after < ej_cursor e) (ms_events st)" and ?n = "max 1 (min limit 10000)"
  have sorted: "sorted_wrt (<) (map ej_cursor (ms_events st))" using assms(1) by (simp add: journal_wf_def)
  have more: "n < length (take (Suc n) ?p) \<longleftrightarrow> n < length ?p" for n by auto
  show ?thesis
  proof (cases "after < ms_retained_after st")
    case True
    with assms(2) show ?thesis by (auto simp: mem_events_after_def Let_def)
  next
    case False
    then have "mem_events_after after limit st = (st, Ok \<lparr> ep_events = take ?n (take (Suc ?n) ?p),
        ep_retained_after = ms_retained_after st, ep_head = ms_next_cursor st,
        ep_has_more = (?n < length (take (Suc ?n) ?p)), ep_reset_required = False \<rparr>)"
      by (simp only: mem_events_after_def Let_def if_False Suc_eq_plus1)
    with assms(2) have "st' = st" and pg: "page = \<lparr> ep_events = take ?n (take (Suc ?n) ?p),
        ep_retained_after = ms_retained_after st, ep_head = ms_next_cursor st,
        ep_has_more = (?n < length (take (Suc ?n) ?p)), ep_reset_required = False \<rparr>"
      by (metis prod.inject res.inject(1))+
    then have page: "st' = st" "ep_events page = take ?n ?p" "\<not> ep_reset_required page"
      "ep_has_more page \<longleftrightarrow> ?n < length ?p" "ep_head page = ms_next_cursor st"
      "ep_retained_after page = ms_retained_after st"
      unfolding pg event_page.select_convs more take_take by (simp_all only: min.absorb1 le_Suc_eq order.refl simp_thms)
    have empty: "take ?n ?p = [] \<longleftrightarrow> ?p = []" by auto
    show ?thesis
    proof (cases "?p = []")
      case True
      then show ?thesis using page False by simp
    next
      case nonempty: False
      then have "filter (\<lambda>e. ej_cursor (last (take ?n ?p)) < ej_cursor e) (ms_events st) = drop ?n ?p"
        using filter_after_page [OF sorted] empty by simp
      with page False nonempty empty show ?thesis by (simp only: Let_def if_False) auto
    qed
  qed
qed

theorem events_after_complete_witness:
  "ep_events \<lparr> ep_events = [ex_entry 1 ''e1''], ep_retained_after = 0, ep_head = 1, ep_has_more = False,
       ep_reset_required = False \<rparr> @ filter (\<lambda>e. 1 < ej_cursor e) (ms_events ex_st1) =
   filter (\<lambda>e. 0 < ej_cursor e) (ms_events ex_st1)"
proof -
  have page: "mem_events_after 0 5 ex_st1 = (ex_st1, Ok \<lparr> ep_events = [ex_entry 1 ''e1''],
      ep_retained_after = 0, ep_head = 1, ep_has_more = False, ep_reset_required = False \<rparr>)"
    by code_simp
  have "journal_wf (ms_next_cursor ex_st1) (ms_retained_after ex_st1) (ms_events ex_st1) (ms_event_index ex_st1)"
    using reachable_inv [OF ex_reachable(1)] by (simp add: mem_inv_def)
  from events_after_complete [OF this page] show ?thesis by (simp add: ex_entry_def Let_def)
qed

text \<open>
  Pruning is clamped between what was pruned before and the head of the journal, drops exactly
  the events up to the returned cursor, and keeps the head, the runs and the dedupe index; a second
  pruning up to an earlier cursor changes nothing.
\<close>

theorem prune_events_correct:
  assumes "mem_inv st" "mem_prune_events_through cursor st = (st', Ok pruned)"
  shows "ms_retained_after st \<le> pruned \<and> pruned \<le> ms_next_cursor st \<and>
    (cursor \<le> ms_next_cursor st \<longrightarrow> ms_retained_after st \<le> cursor \<longrightarrow> pruned = cursor) \<and>
    st' = st\<lparr>ms_events := filter (\<lambda>e. pruned < ej_cursor e) (ms_events st), ms_retained_after := pruned\<rparr> \<and>
    (\<forall>c. c \<le> pruned \<longrightarrow> mem_prune_events_through c st' = (st', Ok pruned))"
proof -
  have le: "ms_retained_after st \<le> ms_next_cursor st" using assms(1) by (simp add: mem_inv_def journal_wf_def)
  from assms(2) have p: "pruned = max (min cursor (ms_next_cursor st)) (ms_retained_after st)"
    and st': "st' = st\<lparr>ms_events := filter (\<lambda>e. pruned < ej_cursor e) (ms_events st), ms_retained_after := pruned\<rparr>"
    by (auto simp: mem_prune_events_through_def Let_def)
  have "mem_prune_events_through c st' = (st', Ok pruned)" if "c \<le> pruned" for c
  proof -
    have "max (min c (ms_next_cursor st)) pruned = pruned" using that by auto
    then show ?thesis by (simp add: mem_prune_events_through_def st' Let_def)
  qed
  with st' p le show ?thesis by auto
qed

theorem prune_events_correct_witness:
  "mem_prune_events_through 0 (fst (mem_prune_events_through 7 ex_st1)) =
     (fst (mem_prune_events_through 7 ex_st1), Ok 1)"
proof -
  have "snd (mem_prune_events_through 7 ex_st1) = Ok 1" by code_simp
  then have "mem_prune_events_through 7 ex_st1 = (fst (mem_prune_events_through 7 ex_st1), Ok 1)"
    by (simp add: prod_eq_iff)
  from prune_events_correct [OF reachable_inv [OF ex_reachable(1)] this] show ?thesis by blast
qed

section \<open>The lock\<close>

text \<open>The range of \<open>chrono::DateTime<Utc>\<close>: from \<open>MIN_UTC\<close> to \<open>MAX_UTC\<close>, in nanoseconds.\<close>

definition chrono_utc :: chrono_ops where
  "chrono_utc = chrono_between (- 8334601228800 * 10 ^ 9) (8210266876799 * 10 ^ 9 + 999999999)"

lemma interval_any_panics:
  assumes "q \<in> set runs" "pr_workflow (rr_plan q) = pr_workflow p" "pr_trigger (rr_plan q) = pr_trigger p"
    and "\<forall>r \<in> set runs. pr_workflow (rr_plan r) = pr_workflow p \<and> pr_trigger (rr_plan r) = pr_trigger p
      \<longrightarrow> dt_add ch (pr_created_at (rr_plan r)) delta = None"
  shows "interval_any ch p delta runs = Panic"
  using assms by (induction runs) auto

text \<open>
  C9: A minimum interval that leads out of the range of dates poisons the store. Take the delivery of a
  new event and a plan of it whose turn comes, with a \<open>minimum_interval\<close>, and a stored run of the same
  workflow and trigger. If the interval, clamped to the milliseconds of an \<open>i64\<close> as the code does, added
  to the creation of such a run is not a date, then the admission panics while the store is locked,
  and from then on every operation of the store fails with a poisoned-lock error.
\<close>

theorem interval_overflow_poisons_store:
  assumes fresh: "bt_get (ms_event_index st) (pe_source_runtime e, pe_event_id e) = None"
    and turn: "pe_runs e = ps @ p # rs"
      "admit_plans ch (pe_received_at e) (Suc (ms_next_cursor st)) ps (admission_start e st) = Ok before"
    and interval: "pr_minimum_interval_ms p = Some interval"
    and earlier: "q \<in> set (bt_values (ms_runs (ac_state before)))"
      "pr_workflow (rr_plan q) = pr_workflow p" "pr_trigger (rr_plan q) = pr_trigger p"
    and range: "\<forall>r \<in> set (bt_values (ms_runs (ac_state before))).
      pr_workflow (rr_plan r) = pr_workflow p \<and> pr_trigger (rr_plan r) = pr_trigger p
      \<longrightarrow> dt_add ch (pr_created_at (rr_plan r)) (int (min interval i64_max) * 1000000) = None"
  shows "\<exists>s. with_lock (mem_admit_event ch e) \<lparr>st_state = st, st_poisoned = False\<rparr> = (s, Panic)
    \<and> (\<forall>f. with_lock f s = (s, Err (StoreError ''in-memory store lock poisoned'')))"
proof -
  let ?c = "Suc (ms_next_cursor st)"
  have "minimum_interval_suppresses ch (ac_state before) (p\<lparr>pr_event_cursor := ?c\<rparr>) = Panic"
    using interval_any_panics [of q "bt_values (ms_runs (ac_state before))" "p\<lparr>pr_event_cursor := ?c\<rparr>" ch] earlier range interval
    by (simp add: minimum_interval_suppresses_def del: of_nat_min)
  then have "admit_plan ch (pe_received_at e) ?c p before = Panic" by (simp add: admit_plan_def Let_def)
  then have "admit_plans ch (pe_received_at e) ?c (pe_runs e) (admission_start e st) = Panic"
    using turn by (simp add: admit_plans_append)
  then have "snd (mem_admit_event ch e st) = Panic"
    using fresh by (simp add: mem_admit_event_def admit_def admission_start_def Let_def)
  then show ?thesis by (auto simp: with_lock_def split: prod.splits)
qed

definition ex_interval_plan :: planned_run where
  "ex_interval_plan = (ex_plan ''r3'' Allow)\<lparr>pr_minimum_interval_ms := Some (100000000000 * 86400000)\<rparr>"

text \<open>\<open>"100000000000d"\<close> with the real range of dates.\<close>

theorem interval_overflow_poisons_store_witness:
  "\<exists>s. with_lock (mem_admit_event chrono_utc (ex_event ''e2'' [ex_interval_plan])) \<lparr>st_state = ex_st1, st_poisoned = False\<rparr>
     = (s, Panic)"
proof -
  let ?e = "ex_event ''e2'' [ex_interval_plan]"
  have new: "bt_get (ms_event_index ex_st1) (pe_source_runtime ?e, pe_event_id ?e) = None" by (simp add: ex_st1_def ex_event_def)
  have turn: "pe_runs ?e = [] @ ex_interval_plan # []" by (simp add: ex_event_def)
  have start: "admit_plans chrono_utc (pe_received_at ?e) (Suc (ms_next_cursor ex_st1)) [] (admission_start ?e ex_st1)
      = Ok (admission_start ?e ex_st1)" by simp
  have "bt_values (ms_runs ex_st1) = [ex_run 1 ''r1'', ex_run 1 ''r2'']" by code_simp
  then have runs: "bt_values (ms_runs (ac_state (admission_start ?e ex_st1))) = [ex_run 1 ''r1'', ex_run 1 ''r2'']"
    by (simp add: admission_start_def)
  have plan: "pr_minimum_interval_ms ex_interval_plan = Some (100000000000 * 86400000)"
    "pr_workflow (rr_plan (ex_run 1 k)) = pr_workflow ex_interval_plan" "pr_trigger (rr_plan (ex_run 1 k)) = pr_trigger ex_interval_plan"
    "pr_created_at (rr_plan (ex_run 1 k)) = 0" for k
    by (simp_all add: ex_interval_plan_def ex_run_def ex_plan_def)
  have add: "dt_add chrono_utc 0 (int (min (100000000000 * 86400000) i64_max) * 1000000) = None"
    by (simp add: chrono_utc_def chrono_between_def i64_max_def)
  show ?thesis
    using interval_overflow_poisons_store [OF new turn start plan(1), of "ex_run 1 ''r1''"] runs plan add by (auto simp del: of_nat_min)
qed

end
