(* ===== verification/Timer_Properties.thy ===== *)
theory Timer_Properties
  imports Store_Fencing
begin

text \<open>
  The life of one timer. A timer and its lease move through a small state machine
  (\<open>timer_move\<close>): scheduling raises the generation, a due timer is claimed, a claimed timer fires
  or its lease ends, and an active timer can be cancelled. Every operation of the store refines
  one move of every timer; that generations never decrease and that a generation fires at most once
  follow from the machine alone.
\<close>

section \<open>The state machine of one timer\<close>

inductive timer_move ::
  "timer_record option \<Rightarrow> lease option \<Rightarrow> timer_record option \<Rightarrow> lease option \<Rightarrow> bool" where
  move_keep: "l' = l \<or> l' = None \<Longrightarrow> timer_move t l t l'"
| move_schedule: "tr_generation r = generation_of t + 1 \<Longrightarrow> tr_generation r \<le> TIMER_GENERATION_MAX \<Longrightarrow>
    tr_status r = TimerScheduled \<Longrightarrow> timer_move t l (Some r) None"
| move_cancel: "timer_active (tr_status r) \<Longrightarrow>
    timer_move (Some r) l (Some (r\<lparr>tr_status := TimerCancelled, tr_updated_at := now\<rparr>)) None"
| move_claim: "timer_active (tr_status r) \<Longrightarrow>
    timer_move (Some r) l (Some (r\<lparr>tr_status := TimerFiring, tr_updated_at := now\<rparr>)) (Some l')"
| move_fire: "tr_generation r' = tr_generation r \<Longrightarrow> tr_status r' = TimerFired \<Longrightarrow>
    timer_move (Some r) (Some l) (Some r') None"

inductive_cases timer_moveE: "timer_move t l t' l'"

lemma timer_move_generation: "timer_move t l t' l' \<Longrightarrow> generation_of t \<le> generation_of t'"
  by (erule timer_moveE) (auto simp: generation_of_def)

text \<open>A generation that is over: superseded, or neither active nor leased.\<close>

definition generation_over :: "nat \<Rightarrow> timer_record option \<Rightarrow> lease option \<Rightarrow> bool" where
  "generation_over g t l \<longleftrightarrow>
     g < generation_of t \<or>
     (\<exists>r. t = Some r \<and> g = tr_generation r \<and> \<not> timer_active (tr_status r) \<and> l = None)"

lemma timer_move_over:
  "timer_move t l t' l' \<Longrightarrow> generation_over g t l \<Longrightarrow> generation_over g t' l'"
  by (erule timer_moveE) (auto simp: generation_over_def generation_of_def timer_active_def)

section \<open>Refinement\<close>

abbreviation timer_at :: "mem_state \<Rightarrow> string \<Rightarrow> timer_record option" where
  "timer_at st tid \<equiv> bt_get (ms_timers st) tid"

abbreviation timer_lease_at :: "mem_state \<Rightarrow> string \<Rightarrow> lease option" where
  "timer_lease_at st tid \<equiv> bt_get (ms_timer_leases st) tid"

definition moves :: "string \<Rightarrow> mem_state \<Rightarrow> mem_state \<Rightarrow> bool" where
  "moves tid st st' \<longleftrightarrow>
     timer_move (timer_at st tid) (timer_lease_at st tid) (timer_at st' tid) (timer_lease_at st' tid)"

lemma moves_frame:
  "ms_timers st' = ms_timers st \<Longrightarrow> ms_timer_leases st' = ms_timer_leases st \<Longrightarrow> moves tid st st'"
  by (simp add: moves_def move_keep)

lemma moves_schedule:
  "tr_generation r = generation_of (timer_at st (tr_id r)) + 1 \<Longrightarrow>
   tr_generation r \<le> TIMER_GENERATION_MAX \<Longrightarrow> tr_status r = TimerScheduled \<Longrightarrow>
   moves tid st (schedule_timer r st)"
  by (simp add: moves_def schedule_timer_def move_keep move_schedule)

lemma moves_cancel:
  assumes "timer_at st k = Some r" "timer_active (tr_status r)"
  shows "moves tid st (cancel_timer_entry k now st)"
  using assms by (auto simp: moves_def cancel_timer_entry_def intro: move_keep move_cancel)

lemma upsert_moves: "mem_upsert_timer t st = (st', res) \<Longrightarrow> moves tid st st'"
  by (auto simp: mem_upsert_timer_def Let_def moves_def move_keep move_schedule split: res.splits)

lemma exact_moves:
  assumes "mem_reconcile_timer_exact d now st = (st', res)" shows "moves tid st st'"
proof -
  have "moves tid st (schedule_timer t st)"
    if "next_timer_generation (timer_at st (tr_id d)) d now = Ok t" for t
    using next_timer_generation_Ok [OF that] by (intro moves_schedule) auto
  with assms show ?thesis
    by (auto simp: mem_reconcile_timer_exact_def Let_def intro: moves_frame
        split: option.splits res.splits if_splits)
qed

lemma cancel_timer_moves: "mem_cancel_timer k gen now st = (st', res) \<Longrightarrow> moves tid st st'"
  by (auto simp: mem_cancel_timer_def intro: moves_frame moves_cancel split: option.splits if_splits)

lemma claim_due_moves:
  assumes "mem_claim_due_timer ch ulid w now d st = (st', res)" "mem_inv st"
  shows "moves tid st st'"
proof -
  have wf: "timers_wf (ms_timers st) (ms_timer_leases st)" using assms(2) by (simp add: mem_inv_def)
  then have live: "bt_get (live_leases now (ms_timer_leases st)) tid \<in> {timer_lease_at st tid, None}"
    by (auto simp: live_leases_def timers_wf_def split: option.splits)
  from assms(1) wf show ?thesis
  proof (cases rule: mem_claim_due_timer_cases)
    case (claimed t e)
    then show ?thesis using live by (auto simp: moves_def timer_due_def intro: move_keep move_claim)
  qed (use live in \<open>auto simp: moves_def intro: move_keep\<close>)
qed

lemma fire_moves:
  assumes "mem_fire_timer ch c fired e st = (st', res)" "res \<noteq> Panic" "fires_claim c fired"
  shows "moves tid st st'"
  using assms(1)
proof (cases rule: mem_fire_timer_cases)
  case (fired l t)
  let ?st1 = "st\<lparr>ms_timers := bt_insert (tr_id fired) fired (ms_timers st),
    ms_timer_leases := bt_remove (tr_id (tc_timer c)) (ms_timer_leases st)\<rparr>"
  from fired(6) assms(2) have "ms_timers st' = ms_timers ?st1" "ms_timer_leases st' = ms_timer_leases ?st1"
    by (auto split: res.splits prod.splits dest!: admit_timers)
  then show ?thesis using fired(1,4,5) assms(3)
    by (auto simp: moves_def fires_claim_def intro: move_keep move_fire)
qed (auto intro: moves_frame)

lemma commit_moves:
  assumes "mem_commit_run ch c es st = (st', res)" "res \<noteq> Panic"
  shows "moves tid st st'"
  using assms(1)
proof (cases rule: mem_commit_run_cases)
  case (committed stored l st2)
  from committed(6) have "ms_timers st2 = ms_timers st \<and> ms_timer_leases st2 = ms_timer_leases st"
    by (rule admit_all_keeps) (auto dest: admit_timers)
  then show ?thesis by (auto simp: committed(7) intro: moves_frame)
qed (use assms in \<open>auto intro: moves_frame\<close>)

text \<open>Reconciling a set: omitted timers are cancelled first, then the changed members scheduled.\<close>

lemma cancel_entries_at:
  "timer_at (foldl (\<lambda>s k. cancel_timer_entry k now s) st ids) tid =
     (if tid \<in> set ids
      then map_option (\<lambda>t. t\<lparr>tr_status := TimerCancelled, tr_updated_at := now\<rparr>) (timer_at st tid)
      else timer_at st tid)"
  "timer_lease_at (foldl (\<lambda>s k. cancel_timer_entry k now s) st ids) tid =
     (if tid \<in> set ids then None else timer_lease_at st tid)"
  by (induction ids arbitrary: st) (auto simp: cancel_timer_entry_def option.map_comp o_def)

lemma omitted_timers_iff:
  assumes "mem_inv st"
  shows "tid \<in> set (omitted_timers pre ds st) \<longleftrightarrow>
    (\<exists>t. timer_at st tid = Some t \<and> starts_with tid pre \<and> tid \<notin> tr_id ` set ds \<and> timer_active (tr_status t))"
proof -
  have wf: "bt_wf (ms_timers st)" and id: "\<And>k t. timer_at st k = Some t \<Longrightarrow> tr_id t = k"
    using assms by (auto simp: mem_inv_def timers_wf_def)
  have "tid \<in> set (omitted_timers pre ds st) \<longleftrightarrow>
    (\<exists>t. (\<exists>k. timer_at st k = Some t) \<and> tr_id t = tid \<and> starts_with tid pre \<and> tid \<notin> tr_id ` set ds \<and>
         timer_active (tr_status t))"
    unfolding in_bt_values [OF wf, symmetric] by (auto simp: omitted_timers_def)
  then show ?thesis using id by metis
qed

lemma plan_desired_cases:
  assumes "plan_desired now st d = Ok (t, changed)"
  obtains (kept) "\<not> changed" "timer_at st (tr_id d) = Some t" "timer_matches t d"
  | (changed) "changed" "next_timer_generation (timer_at st (tr_id d)) d now = Ok t"
      "\<forall>c. timer_at st (tr_id d) = Some c \<longrightarrow> \<not> timer_matches c d"
  using assms by (auto simp: plan_desired_def Let_def split: option.splits if_splits)

text \<open>What the second fold leaves of one timer: untouched, or scheduled from the old generation.\<close>

definition rescheduled :: "string \<Rightarrow> mem_state \<Rightarrow> mem_state \<Rightarrow> bool" where
  "rescheduled tid st s \<longleftrightarrow>
     (\<exists>r. timer_at s tid = Some r \<and> tr_generation r = generation_of (timer_at st tid) + 1 \<and>
          tr_generation r \<le> TIMER_GENERATION_MAX \<and> tr_status r = TimerScheduled) \<and>
     timer_lease_at s tid = None"

lemma apply_planned_rescheduled:
  assumes "plan_desired now st d = Ok p"
    and "timer_at s tid = timer_at s0 tid \<and> timer_lease_at s tid = timer_lease_at s0 tid \<or> rescheduled tid st s"
  shows "timer_at (apply_planned s p) tid = timer_at s0 tid \<and>
           timer_lease_at (apply_planned s p) tid = timer_lease_at s0 tid \<or>
         rescheduled tid st (apply_planned s p)"
proof -
  obtain t ch where p: "p = (t, ch)" by fastforce
  from assms(1)[unfolded p] show ?thesis
  proof (cases rule: plan_desired_cases)
    case kept
    then show ?thesis using assms(2) by (simp add: p apply_planned_def)
  next
    case changed
    from next_timer_generation_Ok [OF changed(2)] have
      r: "tr_id t = tr_id d" "tr_generation t = generation_of (timer_at st (tr_id d)) + 1"
         "tr_generation t \<le> TIMER_GENERATION_MAX" "tr_status t = TimerScheduled" by auto
    then show ?thesis using assms(2) changed(1)
      by (auto simp: p apply_planned_def schedule_timer_def rescheduled_def)
  qed
qed

lemma planned_fold_rescheduled:
  assumes "\<forall>p \<in> set ps. \<exists>d. plan_desired now st d = Ok p"
  shows "timer_at (foldl apply_planned s ps) tid = timer_at s tid \<and>
           timer_lease_at (foldl apply_planned s ps) tid = timer_lease_at s tid \<or>
         rescheduled tid st (foldl apply_planned s ps)"
  using assms
proof (induction ps rule: rev_induct)
  case (snoc p ps)
  then obtain d where "plan_desired now st d = Ok p" by auto
  from apply_planned_rescheduled [OF this] snoc show ?case by simp
qed simp

lemma reconcile_moves:
  assumes "mem_reconcile_timers pre ds now st = (st', res)" "mem_inv st"
  shows "moves tid st st'"
proof (cases "map_res (plan_desired now st) ds")
  case (Ok ps)
  let ?st1 = "foldl (\<lambda>s k. cancel_timer_entry k now s) st (omitted_timers pre ds st)"
  from Ok assms(1) have st': "st' = foldl apply_planned ?st1 ps"
    by (auto simp: mem_reconcile_timers_def Let_def)
  have "\<forall>p \<in> set ps. \<exists>d. plan_desired now st d = Ok p" using map_res_Ok_set [OF Ok] by blast
  from planned_fold_rescheduled [OF this, of ?st1 tid]
  show ?thesis
  proof
    assume "timer_at (foldl apply_planned ?st1 ps) tid = timer_at ?st1 tid \<and>
      timer_lease_at (foldl apply_planned ?st1 ps) tid = timer_lease_at ?st1 tid"
    then show ?thesis using omitted_timers_iff [OF assms(2), of tid pre ds]
      by (auto simp: st' moves_def cancel_entries_at intro: move_keep move_cancel)
  next
    assume "rescheduled tid st (foldl apply_planned ?st1 ps)"
    then show ?thesis by (auto simp: st' moves_def rescheduled_def move_schedule)
  qed
qed (use assms(1) in \<open>auto simp: mem_reconcile_timers_def intro: moves_frame\<close>)

lemma store_step_moves:
  assumes "store_step ch op st st'" "mem_inv st"
  shows "moves tid st st'"
proof -
  from assms(1) show ?thesis
  proof (cases rule: store_step.cases)
    case (step_admit e out)
    then show ?thesis using admit_timers by (auto simp: mem_admit_event_Ok intro: moves_frame)
  next
    case (step_claim ulid executor worker now lease_for res)
    then show ?thesis
      by (intro moves_frame) (auto simp: mem_claim_run_def Let_def split: option.splits res.splits)
  next
    case (step_cancel rid now res)
    from step_cancel(2) show ?thesis
      by (cases rule: mem_request_cancel_cases) (auto intro: moves_frame)
  next
    case (step_prune cursor res)
    then show ?thesis by (intro moves_frame) (auto simp: mem_prune_events_through_def Let_def)
  qed (use assms(2) in \<open>blast intro: commit_moves upsert_moves exact_moves cancel_timer_moves
        reconcile_moves claim_due_moves fire_moves\<close>)+
qed

text \<open>
  Every store operation moves every timer along the timer state machine: it leaves the timer
  alone (at most ending its lease), schedules the next generation within the ceiling, cancels an
  active timer, claims an active timer, or turns a leased timer into a fired one of the same
  generation.
\<close>

theorem store_step_timer_machine:
  assumes "store_step ch op st st'" "mem_inv st"
  shows "timer_move (timer_at st tid) (timer_lease_at st tid) (timer_at st' tid) (timer_lease_at st' tid)"
  using store_step_moves [OF assms] by (simp add: moves_def)

definition ex_timer :: timer_record where
  "ex_timer = \<lparr> tr_id = ''t'', tr_generation = 0, tr_status = TimerScheduled, tr_fire_at = 50,
     tr_event_contract = ex_contract, tr_event_source = ex_identity, tr_source_uri = ''u'',
     tr_subject = None, tr_data = JNull, tr_created_at = 0, tr_updated_at = 0, tr_fired_at = None \<rparr>"

definition ex_timer_at :: "timer_status \<Rightarrow> time \<Rightarrow> timer_record" where
  "ex_timer_at status now = ex_timer\<lparr>tr_generation := 1, tr_status := status, tr_updated_at := now\<rparr>"

definition ex_tst1 :: mem_state where
  "ex_tst1 = mem_empty\<lparr>ms_timers := [(''t'', ex_timer_at TimerScheduled 0)]\<rparr>"

definition ex_tclaim :: timer_claim where
  "ex_tclaim = \<lparr> tc_timer = ex_timer_at TimerFiring 60, tc_worker = ''wA'', tc_token = ''timer_lease_U3'',
     tc_expires_at = 160 \<rparr>"

definition ex_tst2 :: mem_state where
  "ex_tst2 = mem_empty\<lparr>ms_timers := [(''t'', ex_timer_at TimerFiring 60)],
     ms_timer_leases := [(''t'', \<lparr> le_worker = ''wA'', le_token = ''timer_lease_U3'', le_expires_at = 160 \<rparr>)]\<rparr>"

definition ex_tst3 :: mem_state where
  "ex_tst3 = fst (mem_fire_timer ex_chrono ex_tclaim (ex_timer_at TimerFired 70) (ex_event ''te'' []) ex_tst2)"

lemma ex_timer_schedule:
  "mem_upsert_timer ex_timer mem_empty = (ex_tst1, Ok (ex_timer_at TimerScheduled 0))"
  by (simp add: mem_upsert_timer_def next_timer_generation_value_def TIMER_GENERATION_MAX_def
      ex_timer_def ex_tst1_def ex_timer_at_def mem_empty_def bt_remove_def Let_def)

lemma ex_timer_claim:
  "mem_claim_due_timer ex_chrono ''U3'' ''wA'' 60 100 ex_tst1 = (ex_tst2, Ok (Some ex_tclaim))"
  by code_simp

lemma ex_fire:
  "\<exists>out. mem_fire_timer ex_chrono ex_tclaim (ex_timer_at TimerFired 70) (ex_event ''te'' []) ex_tst2 =
     (ex_tst3, Ok out)"
proof -
  have "is_ok (snd (mem_fire_timer ex_chrono ex_tclaim (ex_timer_at TimerFired 70) (ex_event ''te'' []) ex_tst2))"
    by code_simp
  then show ?thesis by (auto simp: is_ok_iff ex_tst3_def prod_eq_iff)
qed

lemma ex_timer_reachable: "reachable ex_chrono ex_tst1" "reachable ex_chrono ex_tst2"
proof -
  show 1: "reachable ex_chrono ex_tst1"
    using reachable_step [OF reachable_empty step_upsert [OF ex_timer_schedule]] .
  show "reachable ex_chrono ex_tst2"
    by (rule reachable_step [OF 1 step_claim_timer [OF ex_timer_claim]]) simp
qed

theorem store_step_timer_machine_witness:
  "timer_move (Some (ex_timer_at TimerScheduled 0)) None (timer_at ex_tst2 ''t'') (timer_lease_at ex_tst2 ''t'')"
proof -
  have "timer_at ex_tst1 ''t'' = Some (ex_timer_at TimerScheduled 0)" "timer_lease_at ex_tst1 ''t'' = None"
    by (simp_all add: ex_tst1_def mem_empty_def)
  moreover have "store_step ex_chrono (ClaimDueTimer ''U3'' ''wA'' 60 100) ex_tst1 ex_tst2"
    by (rule step_claim_timer [OF ex_timer_claim]) simp
  ultimately show ?thesis
    using store_step_timer_machine [OF _ reachable_inv [OF ex_timer_reachable(1)], of _ _ _ "''t''"] by metis
qed

section \<open>Generations\<close>

text \<open>
  A timer's generation never decreases, whatever happens to the store, and it never exceeds the
  largest generation that every store can hold.
\<close>

theorem timer_generation_monotone:
  assumes "mem_inv st" "store_run ch ops st st'"
  shows "generation_of (timer_at st tid) \<le> generation_of (timer_at st' tid) \<and>
         generation_of (timer_at st' tid) \<le> TIMER_GENERATION_MAX"
proof -
  let ?P = "\<lambda>s. mem_inv s \<and> generation_of (timer_at st tid) \<le> generation_of (timer_at s tid)"
  from assms(2) have P: "?P st'"
  proof (rule store_run_keeps)
    show "?P st" using assms(1) by simp
    fix op s s' assume "store_step ch op s s'" "?P s"
    then show "?P s'"
      using store_step_inv store_step_moves timer_move_generation unfolding moves_def by (meson order.trans)
  qed
  then have "generation_of (timer_at st' tid) \<le> TIMER_GENERATION_MAX"
    by (auto simp: mem_inv_def timers_wf_def generation_of_def split: option.splits)
  with P show ?thesis by simp
qed

theorem timer_generation_monotone_witness:
  "generation_of (timer_at ex_tst1 ''t'') \<le> generation_of (timer_at ex_tst2 ''t'')"
  using timer_generation_monotone [OF reachable_inv [OF ex_timer_reachable(1)]
      run_Cons [OF step_claim_timer [OF ex_timer_claim] run_Nil]] by simp

text \<open>
  C15: A scheduled generation fires at most once. After a timer fired, every later attempt to fire the
  same generation of it, by any worker with any claim, is refused and leaves the store as it was.
\<close>

theorem timer_fires_once:
  assumes "mem_inv st" "mem_fire_timer ch c fired e st = (st1, Ok out)" "fires_claim c fired"
    and "store_run ch ops st1 st2"
    and "tr_id (tc_timer c') = tr_id (tc_timer c)" "tr_generation (tc_timer c') = tr_generation (tc_timer c)"
  shows "\<exists>code msg. mem_fire_timer ch c' fired' e' st2 = (st2, Err (Diagnostic code msg)) \<and>
    (code = ''stale_lease'' \<or> code = ''stale_timer_generation'')"
proof -
  let ?tid = "tr_id (tc_timer c)" and ?g = "tr_generation (tc_timer c)"
  let ?P = "\<lambda>s. mem_inv s \<and> generation_over ?g (timer_at s ?tid) (timer_lease_at s ?tid)"
  have "generation_over ?g (timer_at st1 ?tid) (timer_lease_at st1 ?tid)"
    using assms(2)
  proof (cases rule: mem_fire_timer_cases)
    case (fired l t)
    then have "timer_at st1 ?tid = Some fired" "timer_lease_at st1 ?tid = None"
      using assms(3) by (auto simp: fires_claim_def split: res.splits prod.splits dest!: admit_timers)
    then show ?thesis using assms(3) by (simp add: generation_over_def fires_claim_def timer_active_def)
  qed simp
  moreover have "mem_inv st1" using mem_fire_timer_inv [OF assms(2) _ assms(1,3)] by simp
  ultimately have "?P st1" by simp
  with assms(4) have P: "?P st2"
  proof (rule store_run_keeps)
    fix op s s' assume "store_step ch op s s'" "?P s"
    then show "?P s'"
      using store_step_inv store_step_moves timer_move_over unfolding moves_def by meson
  qed
  obtain st3 res where run: "mem_fire_timer ch c' fired' e' st2 = (st3, res)" by fastforce
  then show ?thesis
  proof (cases rule: mem_fire_timer_cases)
    case (fired l t)
    with P assms(5,6) show ?thesis by (auto simp: generation_over_def generation_of_def)
  qed (use run in blast)
qed

theorem timer_fires_once_witness:
  "\<exists>code msg. mem_fire_timer ex_chrono ex_tclaim (ex_timer_at TimerFired 80) (ex_event ''te2'' []) ex_tst3 =
     (ex_tst3, Err (Diagnostic code msg))"
proof -
  obtain out where "mem_fire_timer ex_chrono ex_tclaim (ex_timer_at TimerFired 70) (ex_event ''te'' []) ex_tst2 =
     (ex_tst3, Ok out)" using ex_fire by blast
  moreover have "fires_claim ex_tclaim (ex_timer_at TimerFired 70)"
    by (simp add: fires_claim_def ex_tclaim_def ex_timer_at_def)
  ultimately show ?thesis
    using timer_fires_once [OF reachable_inv [OF ex_timer_reachable(2)] _ _ run_Nil refl refl] by blast
qed

section \<open>Reconciliation\<close>

lemma planned_fold_at:
  assumes "distinct (map (\<lambda>p. tr_id (fst p)) ps)"
  shows "timer_at (foldl apply_planned s ps) tid =
    (case find (\<lambda>p. tr_id (fst p) = tid) ps of
       Some (t, True) \<Rightarrow> Some t | _ \<Rightarrow> timer_at s tid)"
  using assms
proof (induction ps arbitrary: s)
  case (Cons p ps)
  obtain t ch where p: "p = (t, ch)" by fastforce
  show ?case
  proof (cases "tr_id t = tid")
    case True
    with Cons.prems p have "find (\<lambda>p. tr_id (fst p) = tid) ps = None" by (force simp: find_None_iff)
    with Cons p True show ?thesis by (cases ch) (simp_all add: apply_planned_def schedule_timer_def)
  next
    case False
    then have "timer_at (apply_planned s p) tid = timer_at s tid"
      by (simp add: p apply_planned_def schedule_timer_def)
    with Cons p False show ?thesis by (auto split: option.split)
  qed
qed simp

lemma planned_ids: "map_res (plan_desired now st) ds = Ok ps \<Longrightarrow> mem_inv st \<Longrightarrow> map (\<lambda>p. tr_id (fst p)) ps = map tr_id ds"
  unfolding map_res_Ok_iff
  by (induction rule: list_all2_induct) (auto dest: plan_desired_generation(1))

lemma find_distinct:
  "distinct (map f xs) \<Longrightarrow> x \<in> set xs \<Longrightarrow> find (\<lambda>y. f y = f x) xs = Some x"
  by (induction xs) (auto simp: image_iff)

text \<open>The set that a reconciliation asks for, timer by timer.\<close>

definition reconciled ::
  "string \<Rightarrow> timer_record list \<Rightarrow> time \<Rightarrow> (string \<Rightarrow> timer_record option) \<Rightarrow> string \<Rightarrow> timer_record option" where
  "reconciled pre ds now timers tid =
     (case find (\<lambda>d. tr_id d = tid) ds of
        Some d \<Rightarrow>
          (case timers tid of
             Some c \<Rightarrow> if timer_matches c d then Some c
                       else Some (d\<lparr>tr_generation := tr_generation c + 1, tr_created_at := tr_created_at c,
                                   tr_status := TimerScheduled, tr_updated_at := now, tr_fired_at := None\<rparr>)
           | None \<Rightarrow> Some (d\<lparr>tr_generation := 1, tr_status := TimerScheduled, tr_updated_at := now,
                             tr_fired_at := None\<rparr>))
      | None \<Rightarrow>
          map_option (\<lambda>c. if starts_with tid pre \<and> timer_active (tr_status c)
                          then c\<lparr>tr_status := TimerCancelled, tr_updated_at := now\<rparr> else c)
            (timers tid))"

lemma reconcile_member_at:
  assumes inv: "mem_inv st" and distinct: "distinct (map tr_id ds)"
    and plan: "map_res (plan_desired now st) ds = Ok ps" and d: "d \<in> set ds"
    and s: "timer_at s (tr_id d) = timer_at st (tr_id d)"
  shows "timer_at (foldl apply_planned s ps) (tr_id d) = reconciled pre ds now (bt_get (ms_timers st)) (tr_id d)"
proof -
  note ids = planned_ids [OF plan inv]
  from d obtain i where i: "i < length ds" "ds ! i = d" by (auto simp: in_set_conv_nth)
  define p where "p = ps ! i"
  have p: "p \<in> set ps" "plan_desired now st d = Ok p"
    using map_res_Ok_nth [OF plan i(1)] map_res_Ok_length [OF plan] i by (auto simp: p_def)
  obtain t ch where tc: "p = (t, ch)" by fastforce
  have t: "tr_id t = tr_id d" using plan_desired_generation(1) p(2) inv tc by blast
  have "find (\<lambda>q. tr_id (fst q) = tr_id (fst p)) ps = Some p"
    using find_distinct [of "\<lambda>q. tr_id (fst q)" ps p] p(1) distinct ids by simp
  then have at: "timer_at (foldl apply_planned s ps) (tr_id d) = (if ch then Some t else timer_at st (tr_id d))"
    using planned_fold_at [of ps s "tr_id d"] distinct ids t s by (auto simp: tc)
  have f: "find (\<lambda>x. tr_id x = tr_id d) ds = Some d" using find_distinct [OF distinct d] .
  from p(2)[unfolded tc] show ?thesis
  proof (cases rule: plan_desired_cases)
    case kept
    then show ?thesis by (simp add: at reconciled_def f)
  next
    case changed
    then show ?thesis
      by (auto simp: at reconciled_def f next_timer_generation_def generation_of_def Let_def split: option.splits)
  qed
qed

text \<open>
  Reconciling a set of timers is all or nothing and establishes the desired set. When a member
  has exhausted its generations the call fails and the store is unchanged. When it succeeds on a
  set of distinct timers: every desired timer that already was scheduled as desired keeps its record
  and generation, and every other one is scheduled as desired with the next generation; every other
  active timer under the prefix is cancelled and reported; and all other timers are as before.
\<close>

theorem reconcile_timers_correct:
  assumes inv: "mem_inv st" and distinct: "distinct (map tr_id ds)"
    and run: "mem_reconcile_timers pre ds now st = (st', res)"
  shows "case res of
      Panic \<Rightarrow> False
    | Err e \<Rightarrow> st' = st \<and> error_code e = ''timer_generation_exhausted''
    | Ok out \<Rightarrow>
        (\<forall>tid. timer_at st' tid = reconciled pre ds now (bt_get (ms_timers st)) tid) \<and>
        set (to_cancelled_ids out) = {tid. \<exists>c. timer_at st tid = Some c \<and> starts_with tid pre \<and>
           tid \<notin> tr_id ` set ds \<and> timer_active (tr_status c)}"
proof (cases "map_res (plan_desired now st) ds")
  case (Ok ps)
  let ?om = "omitted_timers pre ds st"
  let ?st1 = "foldl (\<lambda>s k. cancel_timer_entry k now s) st ?om"
  from Ok run have st': "st' = foldl apply_planned ?st1 ps"
    and res: "res = Ok \<lparr> to_timers = sort_key tr_id (map fst ps), to_cancelled_ids = sort ?om \<rparr>"
    by (auto simp: mem_reconcile_timers_def Let_def)
  note om = omitted_timers_iff [OF inv, of _ pre ds]
  have "timer_at st' tid = reconciled pre ds now (bt_get (ms_timers st)) tid" for tid
  proof (cases "tid \<in> tr_id ` set ds")
    case True
    then obtain d where d: "d \<in> set ds" "tid = tr_id d" by blast
    with om have "timer_at ?st1 (tr_id d) = timer_at st (tr_id d)" by (simp add: cancel_entries_at)
    from reconcile_member_at [OF inv distinct Ok d(1) this] show ?thesis by (simp add: st' d(2))
  next
    case False
    then have nf: "find (\<lambda>d. tr_id d = tid) ds = None" by (auto simp: find_None_iff)
    have "tid \<notin> set (map (\<lambda>p. tr_id (fst p)) ps)" using False planned_ids [OF Ok inv] by simp
    then have "find (\<lambda>p. tr_id (fst p) = tid) ps = None" by (force simp: find_None_iff)
    then have "timer_at st' tid = timer_at ?st1 tid"
      using planned_fold_at [of ps ?st1 tid] distinct planned_ids [OF Ok inv] by (simp add: st')
    then show ?thesis using False om
      by (cases "timer_at st tid") (auto simp: reconciled_def nf cancel_entries_at)
  qed
  moreover have "set ?om = {tid. \<exists>c. timer_at st tid = Some c \<and> starts_with tid pre \<and>
      tid \<notin> tr_id ` set ds \<and> timer_active (tr_status c)}" using om by blast
  ultimately show ?thesis by (simp add: res)
next
  case (Err e)
  then obtain d where "plan_desired now st d = Err e" by (rule map_res_Err)
  with Err run show ?thesis
    by (auto simp: mem_reconcile_timers_def plan_desired_def bind_res_eq_Err next_timer_generation_Err Let_def
        split: option.splits if_splits)
next
  case Panic
  then obtain d where "plan_desired now st d = Panic" by (rule map_res_Panic)
  then show ?thesis
    by (auto simp: plan_desired_def bind_res_eq_Panic Let_def split: option.splits if_splits)
qed

theorem reconcile_timers_correct_witness:
  "timer_at (fst (mem_reconcile_timers ''t'' [] 9 ex_tst1)) ''t'' =
     Some (ex_timer_at TimerScheduled 0 \<lparr>tr_status := TimerCancelled, tr_updated_at := 9\<rparr>)"
proof -
  obtain st' res where run: "mem_reconcile_timers ''t'' [] 9 ex_tst1 = (st', res)" by fastforce
  have ok: "is_ok (snd (mem_reconcile_timers ''t'' [] 9 ex_tst1))" by (simp add: mem_reconcile_timers_def Let_def)
  have "timer_at ex_tst1 ''t'' = Some (ex_timer_at TimerScheduled 0)" by (simp add: ex_tst1_def)
  then have "reconciled ''t'' [] 9 (bt_get (ms_timers ex_tst1)) ''t'' =
      Some (ex_timer_at TimerScheduled 0 \<lparr>tr_status := TimerCancelled, tr_updated_at := 9\<rparr>)"
    by (simp add: reconciled_def ex_timer_at_def timer_active_def)
  moreover have "timer_at st' ''t'' = reconciled ''t'' [] 9 (bt_get (ms_timers ex_tst1)) ''t''"
    using reconcile_timers_correct [OF reachable_inv [OF ex_timer_reachable(1)] _ run] ok run
    by (auto simp: is_ok_iff)
  ultimately show ?thesis using run by simp
qed

end
