(* ===== verification/Cel.thy ===== *)
theory Cel
  imports Runtime_Model
begin

text \<open>
  The workflow expression facade of \<open>src/cel.rs\<close>: compilation limits, single expressions and
  the recursive evaluation of \<open>{"$expr": ...}\<close> templates. The parser and the evaluator behind it
  stand on the external \<open>cel\<close> crates and are parameters; a program is identified by its source.
\<close>

record cel_host =
  cel_parse :: "string \<Rightarrow> string option"
    \<comment> \<open>\<open>Program::parse\<close>: \<open>None\<close> when the source parses, otherwise the message\<close>
  cel_clock :: "time \<Rightarrow> string option \<Rightarrow> string option"
    \<comment> \<open>\<open>EvaluationClock::from_utc\<close>: \<open>None\<close> when the timezone is known, otherwise the message\<close>
  cel_eval :: "string \<Rightarrow> json \<Rightarrow> time \<Rightarrow> string option \<Rightarrow> (string, json) res"
    \<comment> \<open>\<open>host::evaluate\<close> of a parsed program under bindings and a clock\<close>

record cel_error =
  ce_code :: string
  ce_message :: string

definition MAX_SOURCE_BYTES :: nat where
  "MAX_SOURCE_BYTES = 64 * 1024"

definition cel_compile :: "cel_host \<Rightarrow> string \<Rightarrow> (cel_error, string) res" where
  "cel_compile host source =
     (if MAX_SOURCE_BYTES < length source
      then Err \<lparr> ce_code = ''expression_source_limit_exceeded'',
                 ce_message = ''CEL source is '' @ show_nat (length source) @
                   '' bytes; the configured limit is '' @ show_nat MAX_SOURCE_BYTES @ '' bytes.'' \<rparr>
      else case cel_parse host source of
             None \<Rightarrow> Ok source
           | Some message \<Rightarrow>
               Err \<lparr> ce_code = (if message = ''expression_depth_exceeded''
                                then ''expression_depth_exceeded'' else ''expression_compile_error''),
                     ce_message = message \<rparr>)"

definition evaluate_compiled ::
  "cel_host \<Rightarrow> string \<Rightarrow> json \<Rightarrow> time \<Rightarrow> string option \<Rightarrow> (cel_error, json) res" where
  "evaluate_compiled host program bindings now timezone =
     (case cel_eval host program bindings now timezone of
        Ok v \<Rightarrow> Ok v
      | Err message \<Rightarrow> Err \<lparr> ce_code = ''expression_evaluation_error'', ce_message = message \<rparr>
      | Panic \<Rightarrow> Panic)"

definition evaluate_runtime_expression ::
  "cel_host \<Rightarrow> string \<Rightarrow> json \<Rightarrow> time \<Rightarrow> string option \<Rightarrow> (cel_error, json) res" where
  "evaluate_runtime_expression host source bindings now timezone =
     bind_res (cel_compile host source) (\<lambda>program.
       case cel_clock host now timezone of
         Some message \<Rightarrow> Err \<lparr> ce_code = ''invalid_timezone'', ce_message = message \<rparr>
       | None \<Rightarrow> evaluate_compiled host program bindings now timezone)"

text \<open>The \<open>$expr\<close> member of a template object: the value, or \<open>null\<close> and one diagnostic.\<close>

definition evaluate_expr_member ::
  "cel_host \<Rightarrow> json \<Rightarrow> json \<Rightarrow> time \<Rightarrow> string option \<Rightarrow> ('e, json \<times> cel_error list) res" where
  "evaluate_expr_member host v bindings now timezone =
     (case as_str v of
        None \<Rightarrow> Ok (JNull, [\<lparr> ce_code = ''expression_compile_error'',
                              ce_message = ''$expr must contain a string.'' \<rparr>])
      | Some source \<Rightarrow>
          (case bind_res (cel_compile host source) (\<lambda>program. evaluate_compiled host program bindings now timezone) of
             Ok value \<Rightarrow> Ok (value, [])
           | Err e \<Rightarrow> Ok (JNull, [e])
           | Panic \<Rightarrow> Panic))"

text \<open>Objects and arrays are evaluated member by member; the diagnostics accumulate in order.\<close>

fun evaluate_template_value ::
  "cel_host \<Rightarrow> json \<Rightarrow> time \<Rightarrow> string option \<Rightarrow> json \<Rightarrow> (unit, json \<times> cel_error list) res" where
  "evaluate_template_value host bindings now timezone (JObj m) =
     (if map fst m = [''$expr'']
      then evaluate_expr_member host (snd (hd m)) bindings now timezone
      else bind_res (map_res (\<lambda>(k, v). bind_res (evaluate_template_value host bindings now timezone v)
                                 (\<lambda>(w, es). Ok ((k, w), es))) m)
             (\<lambda>rs. Ok (JObj (map fst rs), concat (map snd rs))))"
| "evaluate_template_value host bindings now timezone (JArr xs) =
     bind_res (map_res (evaluate_template_value host bindings now timezone) xs)
       (\<lambda>rs. Ok (JArr (map fst rs), concat (map snd rs)))"
| "evaluate_template_value host bindings now timezone v = Ok (v, [])"

definition evaluate_runtime_template ::
  "cel_host \<Rightarrow> json \<Rightarrow> json \<Rightarrow> time \<Rightarrow> string option \<Rightarrow> (cel_error list, json) res" where
  "evaluate_runtime_template host template bindings now timezone =
     (case cel_clock host now timezone of
        Some message \<Rightarrow> Err [\<lparr> ce_code = ''invalid_timezone'', ce_message = message \<rparr>]
      | None \<Rightarrow>
          (case evaluate_template_value host bindings now timezone template of
             Ok (v, errors) \<Rightarrow> if errors = [] then Ok v else Err errors
           | Err _ \<Rightarrow> Panic
           | Panic \<Rightarrow> Panic))"

text \<open>\<open>expression_errors\<close> of \<open>engine.rs\<close> and \<open>cel_errors\<close> of \<open>planner.rs\<close>.\<close>

definition expression_errors :: "cel_error list \<Rightarrow> runtime_error" where
  "expression_errors es =
     Diagnostic ''workflow_expression_error''
       (join_with ''; '' (map (\<lambda>e. ce_code e @ '': '' @ ce_message e) es))"

section \<open>Evaluation returns\<close>

definition cel_returns :: "cel_host \<Rightarrow> bool" where
  "cel_returns host \<longleftrightarrow> (\<forall>e b n tz. cel_eval host e b n tz \<noteq> Panic)"

lemma evaluate_compiled_returns: "cel_returns host \<Longrightarrow> evaluate_compiled host e b n tz \<noteq> Panic"
  by (auto simp: evaluate_compiled_def cel_returns_def split: res.splits)

lemma cel_compile_returns [simp]: "cel_compile host source \<noteq> Panic"
  by (simp add: cel_compile_def split: option.splits)

lemma evaluate_expression_returns:
  "cel_returns host \<Longrightarrow> evaluate_runtime_expression host e b n tz \<noteq> Panic"
  by (auto simp: evaluate_runtime_expression_def bind_res_eq_Panic evaluate_compiled_returns split: option.splits)

lemma expr_member_total:
  assumes "cel_returns host" shows "\<exists>x. evaluate_expr_member host v b n tz = Ok x"
proof (cases "as_str v")
  case (Some source)
  have "bind_res (cel_compile host source) (\<lambda>p. evaluate_compiled host p b n tz) \<noteq> Panic"
    using evaluate_compiled_returns [OF assms] by (simp add: bind_res_eq_Panic)
  with Some show ?thesis by (auto simp: evaluate_expr_member_def split: res.splits)
qed (simp add: evaluate_expr_member_def)

lemma template_value_total:
  "cel_returns host \<Longrightarrow> \<exists>x. evaluate_template_value host bindings now timezone v = Ok x"
proof (induction host bindings now timezone v rule: evaluate_template_value.induct)
  case (1 host bindings now timezone m)
  show ?case
  proof (cases "map fst m = [''$expr'']")
    case True
    with expr_member_total [OF "1.prems"] show ?thesis by simp
  next
    case False
    have "\<exists>ys. map_res (\<lambda>(k, v). bind_res (evaluate_template_value host bindings now timezone v)
          (\<lambda>(w, es). Ok ((k, w), es))) m = Ok ys"
    proof (rule map_res_total)
      fix x assume x: "x \<in> set m"
      obtain k v where kv: "x = (k, v)" by fastforce
      obtain w es where "evaluate_template_value host bindings now timezone v = Ok (w, es)"
        using "1.IH" [OF False x kv [symmetric] "1.prems"] by auto
      then show "\<exists>y. (case x of (k, v) \<Rightarrow> bind_res (evaluate_template_value host bindings now timezone v)
          (\<lambda>(w, es). Ok ((k, w), es))) = Ok y" by (simp add: kv)
    qed
    with False show ?thesis by auto
  qed
next
  case (2 host bindings now timezone xs)
  have "\<exists>ys. map_res (evaluate_template_value host bindings now timezone) xs = Ok ys"
    by (rule map_res_total) (rule "2.IH" [OF _ "2.prems"])
  then show ?case by auto
qed simp_all

lemma evaluate_template_returns:
  assumes "cel_returns host" shows "evaluate_runtime_template host v b n tz \<noteq> Panic"
  using template_value_total [OF assms, of b n tz v]
  by (auto simp: evaluate_runtime_template_def split: option.splits if_splits)

section \<open>Templates without expressions\<close>

text \<open>A template is inert when no object in it is an expression object.\<close>

fun inert :: "json \<Rightarrow> bool" where
  "inert (JObj m) = (map fst m \<noteq> [''$expr''] \<and> list_all (\<lambda>(k, v). inert v) m)"
| "inert (JArr xs) = list_all inert xs"
| "inert v = True"

lemma map_res_all_Ok: "(\<And>x. x \<in> set xs \<Longrightarrow> f x = Ok (g x)) \<Longrightarrow> map_res f xs = Ok (map g xs)"
  by (induction xs) auto

lemma inert_template_value:
  "inert v \<Longrightarrow> evaluate_template_value host bindings now timezone v = Ok (v, [])"
proof (induction host bindings now timezone v rule: evaluate_template_value.induct)
  case (1 host bindings now timezone m)
  have "map_res (\<lambda>(k, v). bind_res (evaluate_template_value host bindings now timezone v)
          (\<lambda>(w, es). Ok ((k, w), es))) m = Ok (map (\<lambda>x. (x, [])) m)"
  proof (rule map_res_all_Ok)
    fix x assume x: "x \<in> set m"
    obtain k v where kv: "x = (k, v)" by fastforce
    have "inert v" "map fst m \<noteq> [''$expr'']" using "1.prems" x kv by (auto simp: list_all_iff)
    then have "evaluate_template_value host bindings now timezone v = Ok (v, [])"
      using "1.IH" x kv by blast
    then show "(case x of (k, v) \<Rightarrow> bind_res (evaluate_template_value host bindings now timezone v)
        (\<lambda>(w, es). Ok ((k, w), es))) = Ok (x, [])"
      by (simp add: kv)
  qed
  with 1 show ?case by (simp add: o_def)
next
  case (2 host bindings now timezone xs)
  have "map_res (evaluate_template_value host bindings now timezone) xs = Ok (map (\<lambda>x. (x, [])) xs)"
    using 2 by (intro map_res_all_Ok) (simp add: list_all_iff)
  then show ?case by (simp add: o_def)
qed simp_all

text \<open>
  Evaluating a template only replaces expression objects: in a known timezone a template without
  any \<open>{"$expr": ...}\<close> object evaluates to itself, whatever the bindings are.
\<close>

theorem inert_template_identity:
  assumes "inert template" "cel_clock host now timezone = None"
  shows "evaluate_runtime_template host template bindings now timezone = Ok template"
  using inert_template_value [OF assms(1)] assms(2) by (simp add: evaluate_runtime_template_def)

definition ex_cel :: cel_host where
  "ex_cel = \<lparr> cel_parse = (\<lambda>s. if s = ''bad'' then Some ''syntax'' else None), cel_clock = (\<lambda>_ _. None),
     cel_eval = (\<lambda>s b now tz. if s = ''true'' then Ok (JBool True) else Ok JNull) \<rparr>"

theorem inert_template_identity_witness:
  "evaluate_runtime_template ex_cel (jobj [(''path'', JArr [JStr ''a'', JNull])]) JNull 0 None =
     Ok (jobj [(''path'', JArr [JStr ''a'', JNull])])"
  by (rule inert_template_identity) (simp_all add: jobj_def ex_cel_def)

end
