(* ===== verification/Provider.thy ===== *)
theory Provider
  imports Cel
begin

text \<open>
  Action providers, the host's registry of live handlers, the dispatch authorizer and the manual
  clock (\<open>provider.rs\<close>, \<open>clock.rs\<close>). A trait object is the record of its methods; a provider is code
  of the embedding host, so what its methods return is a parameter, indexed by the moment of the
  call. \<open>ProviderBinding\<close> derives its order from its fields in declaration order, so a binding is the
  pair of the declaration digest and the handler id.
\<close>

record action_error =
  ae_code :: string
  ae_message :: string

text \<open>The fields of the external \<open>ActionOutcome\<close> and \<open>ActionCancellation\<close> that the runtime uses.\<close>

record action_outcome =
  ou_kind :: string
  ou_profile_version :: string
  ou_request_id :: string
  ou_invocation_id :: string
  ou_attempt_id :: string
  ou_contract :: exact_contract_reference
  ou_provider :: implementation_identity
  ou_provider_declaration_digest :: string
  ou_status :: string
  ou_output :: "json option"
  ou_error :: "action_error option"

record action_cancellation =
  an_kind :: string
  an_profile_version :: string
  an_cancellation_id :: string
  an_request_id :: string
  an_caller :: implementation_identity
  an_requested_at :: string
  an_reason :: "string option"

record action_provider =
  pv_dispatch :: "nat \<Rightarrow> action_invocation \<Rightarrow> (dispatch_failure, action_outcome) res"
  pv_cancel :: "nat \<Rightarrow> action_cancellation \<Rightarrow> (dispatch_failure, unit) res"

text \<open>The trait's default \<open>cancel\<close> acknowledges.\<close>

definition default_cancel :: "nat \<Rightarrow> action_cancellation \<Rightarrow> (dispatch_failure, unit) res" where
  "default_cancel tick request = Ok ()"

datatype authorization_decision = AuthAllow | AuthDeny string string

definition deny_all_authorize :: "nat \<Rightarrow> action_dispatch \<Rightarrow> authorization_decision" where
  "deny_all_authorize tick request =
     AuthDeny ''host_authorization_required''
       ''The embedding host has not installed a dispatch authorizer.''"

type_synonym provider_binding = "string \<times> string"
type_synonym provider_registry = "(provider_binding, action_provider) btree"

definition registry_register ::
  "provider_binding \<Rightarrow> action_provider \<Rightarrow> provider_registry \<Rightarrow> provider_registry \<times> action_provider option" where
  "registry_register binding provider reg = (bt_insert binding provider reg, bt_get reg binding)"

definition registry_register_handlers ::
  "string \<Rightarrow> string list \<Rightarrow> action_provider \<Rightarrow> provider_registry \<Rightarrow> provider_registry" where
  "registry_register_handlers digest handler_ids provider reg =
     foldl (\<lambda>r handler_id. bt_insert (digest, handler_id) provider r) reg handler_ids"

definition registry_unregister ::
  "provider_binding \<Rightarrow> provider_registry \<Rightarrow> provider_registry \<times> action_provider option" where
  "registry_unregister binding reg = (bt_remove binding reg, bt_get reg binding)"

definition registry_get :: "provider_registry \<Rightarrow> string \<Rightarrow> string \<Rightarrow> action_provider option" where
  "registry_get reg digest handler_id = bt_get reg (digest, handler_id)"

definition registry_bindings :: "provider_registry \<Rightarrow> provider_binding list" where
  "registry_bindings reg = bt_keys reg"

lemma register_handlers_get:
  "bt_get (foldl (\<lambda>r h. bt_insert (digest, h) p r) reg hs) (d, k) =
     (if d = digest \<and> k \<in> set hs then Some p else bt_get reg (d, k))"
  by (induction hs arbitrary: reg) auto

text \<open>
  The registry resolves exactly the bindings the host made: registering handlers of one
  declaration makes each of them resolve to the new provider and leaves every other binding alone,
  and unregistering a binding removes that binding only and returns what it resolved to.
\<close>

theorem registry_resolves:
  "registry_get (registry_register_handlers digest hs p reg) d h =
     (if d = digest \<and> h \<in> set hs then Some p else registry_get reg d h) \<and>
   registry_get (fst (registry_unregister (digest, k) reg)) d h =
     (if d = digest \<and> h = k then None else registry_get reg d h) \<and>
   snd (registry_unregister (digest, k) reg) = registry_get reg digest k \<and>
   registry_get (fst (registry_register (digest, k) p reg)) d h =
     (if d = digest \<and> h = k then Some p else registry_get reg d h)"
  by (simp add: registry_get_def registry_register_handlers_def registry_unregister_def
      registry_register_def register_handlers_get)

section \<open>Manual clock\<close>

definition manual_clock_set :: "time \<Rightarrow> time \<Rightarrow> time" where
  "manual_clock_set now clock = now"

definition manual_clock_advance :: "chrono_ops \<Rightarrow> int \<Rightarrow> time \<Rightarrow> time rresult" where
  "manual_clock_advance ch duration clock =
     (case dt_add ch clock duration of None \<Rightarrow> Panic | Some t \<Rightarrow> Ok t)"

end
