(* ===== verification/Effects.thy ===== *)
theory Effects
  imports Provider
begin

text \<open>
  The world in which the runtime runs: the shared store, the clock and the host. An asynchronous
  method is a function from the world to the world and a result. Time passes and other workers act on
  the shared store between any two calls of one worker; the world's tick numbers the calls, the
  clock and the interference are functions of the tick, so that a statement for all of them is a
  statement about every interleaving. The trace records, in order, what the worker made durable and
  what it sent to providers.
\<close>

record runtime_config =
  rc_runtime_id :: string
  rc_executor_id :: string
  rc_worker_id :: string
  rc_actor_id :: string
  rc_actor_kind :: string
  rc_identity :: implementation_identity
  rc_timezone :: "string option"
  rc_lease_duration :: nat
  rc_max_items :: nat

text \<open>The methods of the \<open>RuntimeStore\<close> trait object.\<close>

record 's store_ops =
  so_admit :: "prepared_event \<Rightarrow> 's \<Rightarrow> 's \<times> admit_outcome rresult"
  so_claim :: "string \<Rightarrow> string \<Rightarrow> string \<Rightarrow> time \<Rightarrow> nat \<Rightarrow> 's \<Rightarrow> 's \<times> claim option rresult"
  so_commit :: "claim \<Rightarrow> prepared_event list \<Rightarrow> 's \<Rightarrow> 's \<times> claim rresult"
  so_get_run :: "string \<Rightarrow> 's \<Rightarrow> 's \<times> run_record option rresult"
  so_events_after :: "nat \<Rightarrow> nat \<Rightarrow> 's \<Rightarrow> 's \<times> event_page rresult"
  so_prune :: "nat \<Rightarrow> 's \<Rightarrow> 's \<times> nat rresult"
  so_request_cancel :: "string \<Rightarrow> time \<Rightarrow> 's \<Rightarrow> 's \<times> bool rresult"
  so_upsert_timer :: "timer_record \<Rightarrow> 's \<Rightarrow> 's \<times> timer_record rresult"
  so_reconcile_timer_exact :: "timer_record \<Rightarrow> time \<Rightarrow> 's \<Rightarrow> 's \<times> timer_record rresult"
  so_cancel_timer :: "string \<Rightarrow> nat option \<Rightarrow> time \<Rightarrow> 's \<Rightarrow> 's \<times> bool rresult"
  so_reconcile_timers :: "string \<Rightarrow> timer_record list \<Rightarrow> time \<Rightarrow> 's \<Rightarrow> 's \<times> timer_reconcile_outcome rresult"
  so_timers :: "string \<Rightarrow> 's \<Rightarrow> 's \<times> timer_record list rresult"
  so_claim_due_timer :: "string \<Rightarrow> string \<Rightarrow> time \<Rightarrow> nat \<Rightarrow> 's \<Rightarrow> 's \<times> timer_claim option rresult"
  so_fire_timer :: "timer_claim \<Rightarrow> timer_record \<Rightarrow> prepared_event \<Rightarrow> 's \<Rightarrow> 's \<times> admit_outcome rresult"

text \<open>
  What the runtime calls outside the repository: dates, expressions, JSON schemas (the compiled
  schema is its validator, which lists the instance path and text of each error), contract digests,
  hashes, and the serialization of outcomes.
\<close>

record host =
  h_chrono :: chrono_ops
  h_cel :: cel_host
  h_schema :: "json \<Rightarrow> (string, json \<Rightarrow> (string \<times> string) list) res"
  h_contract_digest :: "json \<Rightarrow> (string, string) res"
  h_sha256 :: "string \<Rightarrow> string"
    \<comment> \<open>lower-case hexadecimal text of the SHA-256 digest, 64 characters\<close>
  h_ser_outcome :: "action_outcome \<Rightarrow> json"

record 's runtime =
  rt_store :: "'s store_ops"
  rt_providers :: provider_registry
  rt_authorizer :: "nat \<Rightarrow> action_dispatch \<Rightarrow> authorization_decision"
  rt_clock :: "nat \<Rightarrow> time"
  rt_config :: runtime_config
  rt_host :: host
  rt_ulid :: "nat \<Rightarrow> string"
    \<comment> \<open>\<open>Ulid::new()\<close> at a tick\<close>
  rt_elapses :: "nat \<Rightarrow> nat \<Rightarrow> bool"
    \<comment> \<open>whether the timer of \<open>tokio::time::timeout\<close>, started at a tick, wins against the call\<close>
  rt_others :: "nat \<Rightarrow> 's \<Rightarrow> 's"
    \<comment> \<open>what other workers did to the store before the call at a tick\<close>

datatype trace_event =
    Committed claim
  | Dispatched action_invocation
  | CancelSent action_cancellation

record 's world =
  w_store :: 's
  w_tick :: nat
  w_trace :: "trace_event list"

type_synonym ('s, 'a) action = "'s world \<Rightarrow> 's world \<times> 'a rresult"

section \<open>Composition\<close>

definition act_return :: "'a \<Rightarrow> ('s, 'a) action" where
  "act_return x w = (w, Ok x)"

definition act_lift :: "'a rresult \<Rightarrow> ('s, 'a) action" where
  "act_lift r w = (w, r)"

text \<open>\<open>let x = m.await?; f(x)\<close>.\<close>

definition act_bind :: "('s, 'a) action \<Rightarrow> ('a \<Rightarrow> ('s, 'b) action) \<Rightarrow> ('s, 'b) action" where
  "act_bind m f w =
     (case m w of
        (w1, Ok x) \<Rightarrow> f x w1
      | (w1, Err e) \<Rightarrow> (w1, Err e)
      | (w1, Panic) \<Rightarrow> (w1, Panic))"

text \<open>\<open>match m.await { Ok(x) => f(x), Err(e) => g(e) }\<close>.\<close>

definition act_match ::
  "('s, 'a) action \<Rightarrow> ('a \<Rightarrow> ('s, 'b) action) \<Rightarrow> (runtime_error \<Rightarrow> ('s, 'b) action) \<Rightarrow> ('s, 'b) action" where
  "act_match m f g w =
     (case m w of
        (w1, Ok x) \<Rightarrow> f x w1
      | (w1, Err e) \<Rightarrow> g e w1
      | (w1, Panic) \<Rightarrow> (w1, Panic))"

definition clock_now :: "'s runtime \<Rightarrow> ('s, time) action" where
  "clock_now rt w = (w\<lparr>w_tick := Suc (w_tick w)\<rparr>, Ok (rt_clock rt (w_tick w)))"

text \<open>A call of the shared store, after what the others did to it.\<close>

definition store_call :: "'s runtime \<Rightarrow> ('s \<Rightarrow> 's \<times> 'a rresult) \<Rightarrow> ('s, 'a) action" where
  "store_call rt f w =
     (let (s, r) = f (rt_others rt (w_tick w) (w_store w)) in
      (w\<lparr>w_store := s, w_tick := Suc (w_tick w)\<rparr>, r))"

text \<open>\<open>self.store.commit_run(claim, Vec::new()).await\<close>, with the durable claim put on the trace.\<close>

definition commit_claim :: "'s runtime \<Rightarrow> claim \<Rightarrow> ('s, claim) action" where
  "commit_claim rt c w =
     (case store_call rt (so_commit (rt_store rt) c []) w of
        (w1, Ok c1) \<Rightarrow> (w1\<lparr>w_trace := w_trace w1 @ [Committed c1]\<rparr>, Ok c1)
      | (w1, r) \<Rightarrow> (w1, r))"

section \<open>Simplification rules\<close>

lemma act_bind_simps [simp]:
  "m w = (w1, Ok x) \<Longrightarrow> act_bind m f w = f x w1"
  "m w = (w1, Err e) \<Longrightarrow> act_bind m f w = (w1, Err e)"
  "m w = (w1, Panic) \<Longrightarrow> act_bind m f w = (w1, Panic)"
  by (simp_all add: act_bind_def)

lemma act_bind_cases:
  assumes "act_bind m f w = (w', r)"
  obtains (ok) w1 x where "m w = (w1, Ok x)" "f x w1 = (w', r)"
  | (err) e where "m w = (w', Err e)" "r = Err e"
  | (panic) "m w = (w', Panic)" "r = Panic"
  using assms by (auto simp: act_bind_def split: prod.splits res.splits)

lemma act_match_cases:
  assumes "act_match m f g w = (w', r)"
  obtains (ok) w1 x where "m w = (w1, Ok x)" "f x w1 = (w', r)"
  | (err) w1 e where "m w = (w1, Err e)" "g e w1 = (w', r)"
  | (panic) "m w = (w', Panic)" "r = Panic"
  using assms by (auto simp: act_match_def split: prod.splits res.splits)

lemma act_bind_assoc: "act_bind (act_bind m f) g = act_bind m (\<lambda>x. act_bind (f x) g)"
  by (auto simp: act_bind_def fun_eq_iff split: prod.splits res.splits)

lemma act_bind_pure [simp]:
  "act_bind (act_lift (Ok x)) f = f x" "act_bind (act_return x) f = f x"
  by (simp_all add: act_bind_def act_lift_def act_return_def fun_eq_iff)

lemma act_return_simp [simp]: "act_return x w = (w, Ok x)"
  by (simp add: act_return_def)

lemma act_lift_simp [simp]: "act_lift r w = (w, r)"
  by (simp add: act_lift_def)

lemma clock_now_simp [simp]: "clock_now rt w = (w\<lparr>w_tick := Suc (w_tick w)\<rparr>, Ok (rt_clock rt (w_tick w)))"
  by (simp add: clock_now_def)

end
