(* ===== verification/Engine.thy ===== *)
theory Engine
  imports Effects
begin

text \<open>
  The engine of \<open>crates/mdbase-runtime/src/engine.rs\<close>: preparing and dispatching actions, the
  ways a step and a run can fail, cancellation, and the execution of a claimed run. Each method of
  \<open>Runtime\<close> is one definition over the world; \<open>execute_claim\<close> is the composition of its phases.
\<close>

section \<open>Pure helpers\<close>

definition runtime_failure_of :: "runtime_error \<Rightarrow> runtime_failure" where
  "runtime_failure_of e = runtime_failure_new (error_code e) (error_text e)"

definition stable_id :: "host \<Rightarrow> string \<Rightarrow> string \<Rightarrow> string" where
  "stable_id h prefix source = prefix @ ''_'' @ take 26 (h_sha256 h source)"

text \<open>\<open>iter_mut().skip(start)\<close>: pending steps from \<open>start\<close> on become skipped.\<close>

definition skip_remaining_steps :: "nat \<Rightarrow> time \<Rightarrow> run_record \<Rightarrow> run_record" where
  "skip_remaining_steps start now r = r\<lparr>rr_steps := map_from start (skip_pending now) (rr_steps r)\<rparr>"

definition step_output :: "json list \<Rightarrow> json" where
  "step_output outputs = (case outputs of [] \<Rightarrow> JNull | [one] \<Rightarrow> one | many \<Rightarrow> JArr many)"

definition bindings :: "run_record \<Rightarrow> json" where
  "bindings r =
     jobj [(''event'', pr_event (rr_plan r)),
           (''workflow'', jobj [(''id'', JStr (pr_workflow (rr_plan r))),
                                (''version'', JStr (pr_workflow_version (rr_plan r)))]),
           (''trigger'', jobj [(''id'', JStr (pr_trigger (rr_plan r))),
                               (''event'', JStr (pr_event_type (rr_plan r)))]),
           (''vars'', pr_vars (rr_plan r)),
           (''steps'', JObj (map_from_iter
              (map (\<lambda>s. (sr_id s, jobj [(''status'', JStr (step_status_name (sr_status s))),
                                         (''output'', step_output (sr_outputs s))]))
                   (rr_steps r))))]"

definition validate_action_value :: "host \<Rightarrow> json \<Rightarrow> string \<Rightarrow> json \<Rightarrow> (string, unit) res" where
  "validate_action_value h artifact schema_field value =
     (case jpointer artifact (''/'' @ schema_field @ ''/value'') of
        None \<Rightarrow> Err (''Pinned action artifact has no inline '' @ schema_field @ ''.'')
      | Some schema \<Rightarrow>
          (case h_schema h schema of
             Err e \<Rightarrow> Err (''Pinned '' @ schema_field @ '' does not compile: '' @ e)
           | Panic \<Rightarrow> Panic
           | Ok validate \<Rightarrow>
               (case validate value of
                  [] \<Rightarrow> Ok ()
                | errors \<Rightarrow> Err (join_with ''; '' (map (\<lambda>(path, e). path @ '': '' @ e) errors)))))"

text \<open>Whether the outcome names exactly the invocation it answers.\<close>

definition evidence_matches :: "action_invocation \<Rightarrow> action_outcome \<Rightarrow> bool" where
  "evidence_matches i out \<longleftrightarrow>
     ou_kind out = ''mdbase.action.outcome'' \<and> ou_profile_version out = ''0.1'' \<and>
     ou_request_id out = ai_request_id i \<and> ou_invocation_id out = ai_invocation_id i \<and>
     ou_attempt_id out = ai_attempt_id i \<and> ou_contract out = ai_contract i \<and>
     ou_provider out = ai_provider i \<and>
     ou_provider_declaration_digest out = ai_provider_declaration_digest i"

definition outcome_failure :: "action_outcome \<Rightarrow> string \<Rightarrow> string \<Rightarrow> dispatch_outcome \<Rightarrow> dispatch_failure" where
  "outcome_failure out code message kind =
     \<lparr> df_code = (case ou_error out of None \<Rightarrow> code | Some e \<Rightarrow> ae_code e),
       df_message = (case ou_error out of None \<Rightarrow> message | Some e \<Rightarrow> ae_message e),
       df_outcome = kind \<rparr>"

definition normalize_outcome ::
  "host \<Rightarrow> action_invocation \<Rightarrow> action_outcome \<Rightarrow> (dispatch_failure, json \<times> json) res" where
  "normalize_outcome h i out =
     (if \<not> evidence_matches i out
      then Err \<lparr> df_code = ''action_outcome_evidence_mismatch'',
                 df_message = ''Provider outcome does not match the admitted invocation evidence.'',
                 df_outcome = Unknown \<rparr>
      else
        let receipt = h_ser_outcome h out in
        if ou_status out = ''succeeded''
        then (case ou_output out of
                Some output \<Rightarrow> Ok (output, receipt)
              | None \<Rightarrow> Err \<lparr> df_code = ''action_output_missing'',
                              df_message = ''Successful action outcome has no output.'',
                              df_outcome = Unknown \<rparr>)
        else if ou_status out = ''indeterminate''
        then Err (outcome_failure out ''action_outcome_indeterminate''
                    ''Provider reported an indeterminate outcome.'' Unknown)
        else Err (outcome_failure out ''action_failed''
                    (''Provider reported action status '' @ ou_status out @ ''.'') NotApplied))"

definition pinned_action :: "host \<Rightarrow> planned_step \<Rightarrow> json rresult" where
  "pinned_action h planned =
     (let action = ps_action_contract planned in
      if jstring_at action ''id'' \<noteq> Some (ps_action planned) \<or>
         jstring_at action ''version'' \<noteq> Some (ps_action_version planned) \<or>
         h_contract_digest h action \<noteq> Ok (ps_action_digest planned)
      then Err (Diagnostic ''pinned_action_corrupt''
                  (''Pinned action '' @ ps_action planned @ '' does not match its revision.''))
      else Ok action)"

text \<open>\<open>{:?}\<close> of an \<open>Option<usize>\<close>.\<close>

fun debug_index :: "nat option \<Rightarrow> string" where
  "debug_index None = ''None''"
| "debug_index (Some n) = ''Some('' @ show_nat n @ '')''"

definition index_or_zero :: "nat option \<Rightarrow> nat" where
  "index_or_zero i = (case i of None \<Rightarrow> 0 | Some n \<Rightarrow> n)"

definition item_source :: "string \<Rightarrow> string \<Rightarrow> nat option \<Rightarrow> string" where
  "item_source run step i = run @ '':'' @ step @ '':'' @ show_nat (index_or_zero i)"

text \<open>Indexing that panics out of range: \<open>run.steps[i]\<close> and \<open>run.attempts[i]\<close>.\<close>

definition with_step :: "nat \<Rightarrow> (step_record \<Rightarrow> step_record) \<Rightarrow> run_record \<Rightarrow> run_record rresult" where
  "with_step i f r =
     (if i < length (rr_steps r) then Ok (r\<lparr>rr_steps := (rr_steps r)[i := f (rr_steps r ! i)]\<rparr>) else Panic)"

definition with_attempt :: "nat \<Rightarrow> (action_attempt \<Rightarrow> action_attempt) \<Rightarrow> run_record \<Rightarrow> run_record rresult" where
  "with_attempt i f r =
     (if i < length (rr_attempts r)
      then Ok (r\<lparr>rr_attempts := (rr_attempts r)[i := f (rr_attempts r ! i)]\<rparr>) else Panic)"

definition commit_run_value :: "'s runtime \<Rightarrow> claim \<Rightarrow> run_record rresult \<Rightarrow> ('s, claim) action" where
  "commit_run_value rt c r = act_bind (act_lift r) (\<lambda>run. commit_claim rt (c\<lparr>cl_run := run\<rparr>))"

section \<open>Building and authorizing a dispatch\<close>

definition dispatch_value ::
  "'s runtime \<Rightarrow> claim \<Rightarrow> planned_step \<Rightarrow> nat option \<Rightarrow> string \<Rightarrow> 32 word \<Rightarrow> json \<Rightarrow> ('s, action_dispatch) action" where
  "dispatch_value rt c planned item_index invocation_id attempt input =
     (let plan = rr_plan (cl_run c);
          h = rt_host rt;
          correlation_id = (case jstring_at (pr_event plan) ''correlationid'' of
                              None \<Rightarrow> pr_event_id plan | Some s \<Rightarrow> s);
          request_id = stable_id h ''req'' (item_source (pr_id plan) (ps_id planned) item_index);
          attempt_id = stable_id h ''attempt'' (request_id @ '':'' @ show_nat (unat attempt));
          contract = \<lparr> ecr_id = ps_action planned, ecr_version = ps_action_version planned,
                       ecr_digest = ps_action_digest planned \<rparr> in
      act_bind (clock_now rt) (\<lambda>now. act_return
        \<lparr> ad_invocation =
            \<lparr> ai_kind = ''mdbase.action.invocation'', ai_profile_version = ''0.1'',
              ai_invocation_id = invocation_id, ai_attempt_id = attempt_id, ai_request_id = request_id,
              ai_contract = contract, ai_caller = rc_identity (rt_config rt),
              ai_provider = ps_provider planned,
              ai_provider_declaration_digest = ps_provider_declaration_digest planned,
              ai_handler_id = ps_handler_id planned,
              ai_admitted_at = dt_rfc3339 (h_chrono h) now,
              ai_correlation_id = Some correlation_id, ai_causation_id = Some (pr_event_id plan),
              ai_subject = jstring_at (pr_event plan) ''subject'',
              ai_idempotency_key = (if ps_idempotent planned
                                    then Some (pr_idempotency_key plan @ '':'' @ debug_index item_index)
                                    else None),
              ai_deadline = map_option (dt_rfc3339 (h_chrono h)) (pr_timeout_at plan),
              ai_authorization_context = None, ai_input = input \<rparr>,
          ad_run_id = pr_id plan, ad_workflow = pr_workflow plan, ad_step_id = ps_id planned,
          ad_item_index = item_index, ad_invocation_id = invocation_id, ad_attempt = attempt,
          ad_action = ps_action planned, ad_contract = contract, ad_provider = ps_provider planned,
          ad_provider_declaration_digest = ps_provider_declaration_digest planned,
          ad_handler_id = ps_handler_id planned, ad_input = input, ad_event = pr_event plan,
          ad_executor = rc_executor_id (rt_config rt), ad_correlation_id = correlation_id,
          ad_causation_id = pr_event_id plan, ad_deadline = pr_timeout_at plan \<rparr>))"

definition authorize :: "'s runtime \<Rightarrow> action_dispatch \<Rightarrow> ('s, unit) action" where
  "authorize rt d w =
     (w\<lparr>w_tick := Suc (w_tick w)\<rparr>,
      case rt_authorizer rt (w_tick w) d of
        AuthAllow \<Rightarrow> Ok ()
      | AuthDeny code message \<Rightarrow> Err (Diagnostic code message))"

section \<open>How steps and runs end\<close>

definition fail_step :: "'s runtime \<Rightarrow> claim \<Rightarrow> runtime_failure \<Rightarrow> ('s, claim) action" where
  "fail_step rt c failure =
     act_bind (clock_now rt) (\<lambda>now.
       commit_run_value rt c
         (bind_res (with_step (rr_next_step (cl_run c))
             (\<lambda>s. s\<lparr>sr_status := StepFailed, sr_error := Some failure, sr_finished_at := Some now\<rparr>) (cl_run c))
           (\<lambda>r. Ok (r\<lparr>rr_active_attempt := None, rr_updated_at := now\<rparr>))))"

text \<open>The common end of a run: later steps skipped, step counter at the end, status and times set.\<close>

definition close_run :: "run_status \<Rightarrow> time \<Rightarrow> run_record \<Rightarrow> run_record" where
  "close_run status now r =
     (let r1 = skip_remaining_steps (Suc (rr_next_step r)) now r in
      r1\<lparr>rr_next_step := length (rr_steps r1), rr_status := status, rr_finished_at := Some now,
         rr_updated_at := now\<rparr>)"

definition advance_failed_step :: "'s runtime \<Rightarrow> claim \<Rightarrow> ('s, claim) action" where
  "advance_failed_step rt c =
     act_bind (clock_now rt) (\<lambda>now.
       commit_run_value rt c (Ok
         (if pr_on_error (rr_plan (cl_run c)) = Stop
          then close_run RunFailed now (cl_run c)
          else (cl_run c)\<lparr>rr_next_step := Suc (rr_next_step (cl_run c)), rr_updated_at := now\<rparr>)))"

definition advance_after_failure :: "'s runtime \<Rightarrow> claim \<Rightarrow> runtime_failure \<Rightarrow> ('s, claim) action" where
  "advance_after_failure rt c failure = act_bind (fail_step rt c failure) (advance_failed_step rt)"

definition finish_cancelled :: "'s runtime \<Rightarrow> claim \<Rightarrow> ('s, claim) action" where
  "finish_cancelled rt c =
     act_bind (clock_now rt) (\<lambda>now.
       let r = cl_run c;
           r1 = r\<lparr>rr_steps := modify_at (rr_next_step r) (cancel_step now) (rr_steps r)\<rparr>
       in commit_run_value rt c (Ok ((close_run RunCancelled now r1)\<lparr>rr_active_attempt := None\<rparr>)))"

definition indeterminate_attempt :: "runtime_failure \<Rightarrow> time \<Rightarrow> action_attempt \<Rightarrow> action_attempt" where
  "indeterminate_attempt failure now a =
     a\<lparr>aa_status := AttemptIndeterminate, aa_error := Some failure, aa_finished_at := Some now\<rparr>"

definition indeterminate_step :: "runtime_failure \<Rightarrow> time \<Rightarrow> step_record \<Rightarrow> step_record" where
  "indeterminate_step failure now s =
     s\<lparr>sr_status := StepIndeterminate, sr_error := Some failure, sr_finished_at := Some now\<rparr>"

definition indeterminate_active_attempt ::
  "'s runtime \<Rightarrow> claim \<Rightarrow> nat \<Rightarrow> string \<Rightarrow> string \<Rightarrow> ('s, claim) action" where
  "indeterminate_active_attempt rt c active code message =
     act_bind (clock_now rt) (\<lambda>now.
       let failure = runtime_failure_new code message in
       commit_run_value rt c
         (bind_res (with_attempt active (indeterminate_attempt failure now) (cl_run c)) (\<lambda>r1.
          bind_res (with_step (rr_next_step r1) (indeterminate_step failure now) r1) (\<lambda>r2.
          Ok ((close_run RunIndeterminate now r2)\<lparr>rr_active_attempt := None\<rparr>)))))"

definition failed_attempt :: "runtime_failure \<Rightarrow> time \<Rightarrow> action_attempt \<Rightarrow> action_attempt" where
  "failed_attempt failure now a =
     a\<lparr>aa_status := AttemptFailed, aa_error := Some failure, aa_finished_at := Some now\<rparr>"

definition fail_active_attempt ::
  "'s runtime \<Rightarrow> claim \<Rightarrow> nat \<Rightarrow> runtime_failure \<Rightarrow> ('s, claim) action" where
  "fail_active_attempt rt c active failure =
     act_bind (clock_now rt) (\<lambda>now.
     act_bind (act_lift (with_attempt active (failed_attempt failure now) (cl_run c))) (\<lambda>r.
       fail_step rt (c\<lparr>cl_run := r\<lparr>rr_active_attempt := None\<rparr>\<rparr>) failure))"

definition deadline_elapsed :: "'s runtime \<Rightarrow> run_record \<Rightarrow> ('s, bool) action" where
  "deadline_elapsed rt r =
     (case pr_timeout_at (rr_plan r) of
        None \<Rightarrow> act_return False
      | Some deadline \<Rightarrow> act_bind (clock_now rt) (\<lambda>now. act_return (deadline \<le> now)))"

definition timed_out_step :: "string \<Rightarrow> time \<Rightarrow> step_record \<Rightarrow> step_record" where
  "timed_out_step message now s =
     s\<lparr>sr_status := StepTimedOut, sr_error := Some (runtime_failure_new ''workflow_timed_out'' message),
       sr_finished_at := Some now\<rparr>"

definition timeout_run :: "'s runtime \<Rightarrow> claim \<Rightarrow> ('s, claim) action" where
  "timeout_run rt c =
     act_bind (clock_now rt) (\<lambda>now.
       let r = cl_run c;
           r1 = r\<lparr>rr_steps := modify_at (rr_next_step r)
                    (timed_out_step ''The workflow exceeded its execution deadline.'' now) (rr_steps r)\<rparr>
       in commit_run_value rt c (Ok ((close_run RunFailed now r1)\<lparr>rr_active_attempt := None\<rparr>)))"

section \<open>Dispatching\<close>

text \<open>
  The call of the provider. With a deadline it races \<open>tokio\<close>'s timer, started with the time that is
  left; a lost race leaves the outcome of the dispatch unknown.
\<close>

definition call_provider ::
  "'s runtime \<Rightarrow> action_provider \<Rightarrow> time option \<Rightarrow> action_invocation \<Rightarrow>
     ('s, (dispatch_failure, action_outcome) res) action" where
  "call_provider rt provider timeout_at invocation =
     (let call = (\<lambda>remaining w.
            let w1 = w\<lparr>w_tick := Suc (w_tick w), w_trace := w_trace w @ [Dispatched invocation]\<rparr> in
            if (case remaining of None \<Rightarrow> False | Some d \<Rightarrow> rt_elapses rt (w_tick w) d)
            then (w1, Ok (Err \<lparr> df_code = ''action_dispatch_timed_out'',
                    df_message = ''The workflow deadline elapsed while the action was dispatching.'',
                    df_outcome = Unknown \<rparr>))
            else (w1, case pv_dispatch provider (w_tick w) invocation of Panic \<Rightarrow> Panic | r \<Rightarrow> Ok r))
      in case timeout_at of
           None \<Rightarrow> call None
         | Some deadline \<Rightarrow> act_bind (clock_now rt) (\<lambda>now. call (Some (nat (deadline - now)))))"

definition record_output_invalid ::
  "'s runtime \<Rightarrow> claim \<Rightarrow> nat \<Rightarrow> json \<Rightarrow> string \<Rightarrow> ('s, claim) action" where
  "record_output_invalid rt c active receipt message =
     (let failure = runtime_failure_new ''action_output_invalid'' message in
      act_bind (clock_now rt) (\<lambda>now.
      act_bind (act_lift (with_attempt active
          (\<lambda>a. (failed_attempt failure now a)\<lparr>aa_receipt := Some receipt\<rparr>) (cl_run c))) (\<lambda>r.
        fail_step rt (c\<lparr>cl_run := r\<lparr>rr_active_attempt := None\<rparr>\<rparr>) failure)))"

definition succeeded_attempt :: "json \<Rightarrow> json \<Rightarrow> time \<Rightarrow> action_attempt \<Rightarrow> action_attempt" where
  "succeeded_attempt output receipt now a =
     a\<lparr>aa_status := AttemptSucceeded, aa_output := Some output, aa_receipt := Some receipt,
       aa_finished_at := Some now\<rparr>"

definition record_success ::
  "'s runtime \<Rightarrow> claim \<Rightarrow> nat \<Rightarrow> json \<Rightarrow> json \<Rightarrow> json \<Rightarrow> ('s, claim) action" where
  "record_success rt c active pinned output receipt =
     (case validate_action_value (rt_host rt) pinned ''output_schema'' output of
        Panic \<Rightarrow> act_lift Panic
      | Err message \<Rightarrow> record_output_invalid rt c active receipt message
      | Ok _ \<Rightarrow>
          act_bind (clock_now rt) (\<lambda>now.
          act_bind (act_lift (with_attempt active (succeeded_attempt output receipt now) (cl_run c))) (\<lambda>r.
          act_bind (deadline_elapsed rt r) (\<lambda>late.
            commit_run_value rt c
              (if late
               then bind_res (with_step (rr_next_step r)
                      (timed_out_step ''The action completed after the workflow deadline.'' now) r)
                      (\<lambda>r1. Ok ((close_run RunFailed now r1)\<lparr>rr_active_attempt := None\<rparr>))
               else bind_res (with_step (rr_next_step r) (\<lambda>s. s\<lparr>sr_outputs := sr_outputs s @ [output]\<rparr>) r)
                      (\<lambda>r1. Ok (r1\<lparr>rr_active_attempt := None, rr_updated_at := now\<rparr>)))))))"

definition record_not_applied ::
  "'s runtime \<Rightarrow> claim \<Rightarrow> nat \<Rightarrow> dispatch_failure \<Rightarrow> ('s, claim) action" where
  "record_not_applied rt c active f =
     (let failure = runtime_failure_new (df_code f) (df_message f) in
      act_bind (clock_now rt) (\<lambda>now.
      act_bind (act_lift (with_attempt active (failed_attempt failure now) (cl_run c))) (\<lambda>r.
      let c1 = c\<lparr>cl_run := r\<lparr>rr_active_attempt := None\<rparr>\<rparr> in
      act_bind (deadline_elapsed rt (cl_run c1)) (\<lambda>late.
        if late then timeout_run rt c1 else fail_step rt c1 failure))))"

definition record_unknown ::
  "'s runtime \<Rightarrow> claim \<Rightarrow> nat \<Rightarrow> dispatch_failure \<Rightarrow> ('s, claim) action" where
  "record_unknown rt c active f =
     act_bind (clock_now rt) (\<lambda>now.
       commit_run_value rt c
         (bind_res (with_attempt active
             (indeterminate_attempt (runtime_failure_new (df_code f) (df_message f)) now) (cl_run c)) (\<lambda>r1.
          bind_res (with_step (rr_next_step r1)
             (indeterminate_step (runtime_failure_new ''action_outcome_indeterminate'' (df_message f)) now) r1) (\<lambda>r2.
          Ok (close_run RunIndeterminate now r2)))))"

definition record_outcome ::
  "'s runtime \<Rightarrow> claim \<Rightarrow> nat \<Rightarrow> action_attempt \<Rightarrow> json \<Rightarrow> (dispatch_failure, json \<times> json) res \<Rightarrow> ('s, claim) action" where
  "record_outcome rt c active attempt pinned result =
     (case result of
        Panic \<Rightarrow> act_lift Panic
      | Ok (output, receipt) \<Rightarrow> record_success rt c active pinned output receipt
      | Err f \<Rightarrow>
          if df_outcome f = NotApplied then record_not_applied rt c active f
          else if aa_idempotent attempt
          then act_lift (Err (ProviderError (df_code f @ '': '' @ df_message f @ '' (safe to replay '' @
                              aa_invocation_id attempt @ '')'')))
          else record_unknown rt c active f)"

definition no_handler_failure :: "planned_step \<Rightarrow> runtime_failure" where
  "no_handler_failure planned =
     runtime_failure_new ''unsupported_action_handler''
       (''No live handler is registered for declaration '' @ ps_provider_declaration_digest planned @
        '' handler '' @ ps_handler_id planned @ ''.'')"

text \<open>From the authorization of the dispatch on.\<close>

definition send_dispatch ::
  "'s runtime \<Rightarrow> claim \<Rightarrow> nat \<Rightarrow> action_attempt \<Rightarrow> planned_step \<Rightarrow> json \<Rightarrow> action_dispatch \<Rightarrow> ('s, claim) action" where
  "send_dispatch rt c active attempt planned pinned dispatch =
     act_match (authorize rt dispatch)
       (\<lambda>_. case registry_get (rt_providers rt) (ps_provider_declaration_digest planned)
                   (ps_handler_id planned) of
               None \<Rightarrow> fail_active_attempt rt c active (no_handler_failure planned)
             | Some provider \<Rightarrow>
                 act_bind (call_provider rt provider (pr_timeout_at (rr_plan (cl_run c)))
                             (ad_invocation dispatch)) (\<lambda>reply.
                   record_outcome rt c active attempt pinned
                     (bind_res reply (normalize_outcome (rt_host rt) (ad_invocation dispatch)))))
       (\<lambda>e. fail_active_attempt rt c active (runtime_failure_of e))"

definition dispatch_active_attempt :: "'s runtime \<Rightarrow> claim \<Rightarrow> nat \<Rightarrow> ('s, claim) action" where
  "dispatch_active_attempt rt c active =
     act_bind (act_lift (index_at (rr_attempts (cl_run c)) active)) (\<lambda>attempt.
       case get_at (pr_steps (rr_plan (cl_run c))) (rr_next_step (cl_run c)) of
         None \<Rightarrow> act_lift (Err (Diagnostic ''invalid_run_state''
                             ''Active attempt has no corresponding planned step.''))
       | Some planned \<Rightarrow>
           (case pinned_action (rt_host rt) planned of
              Panic \<Rightarrow> act_lift Panic
            | Err e \<Rightarrow> fail_active_attempt rt c active (runtime_failure_of e)
            | Ok pinned \<Rightarrow>
                act_bind (dispatch_value rt c planned (aa_item_index attempt) (aa_invocation_id attempt)
                            (aa_attempt attempt) (aa_input attempt))
                  (send_dispatch rt c active attempt planned pinned)))"

section \<open>Cancellation signals\<close>

definition cancel_reply :: "bool \<Rightarrow> bool \<Rightarrow> string option \<Rightarrow> bool \<Rightarrow> runtime_failure option \<Rightarrow> cancellation_outcome" where
  "cancel_reply accepted is_terminal invocation notified error =
     \<lparr> co_accepted = accepted, co_terminal = is_terminal, co_invocation_id = invocation,
       co_provider_notified = notified, co_provider_error = error \<rparr>"

text \<open>\<open>provider.cancel\<close>, racing the lease interval.\<close>

definition call_cancel ::
  "'s runtime \<Rightarrow> action_provider \<Rightarrow> action_cancellation \<Rightarrow> ('s, runtime_failure option) action" where
  "call_cancel rt provider request w =
     (let w1 = w\<lparr>w_tick := Suc (w_tick w), w_trace := w_trace w @ [CancelSent request]\<rparr> in
      if rt_elapses rt (w_tick w) (rc_lease_duration (rt_config rt))
      then (w1, Ok (Some (runtime_failure_new ''action_cancellation_timed_out''
              ''The provider did not acknowledge cancellation before the lease interval.'')))
      else (w1, case pv_cancel provider (w_tick w) request of
                  Ok _ \<Rightarrow> Ok None
                | Err f \<Rightarrow> Ok (Some (runtime_failure_new (df_code f) (df_message f)))
                | Panic \<Rightarrow> Panic))"

definition cancellation_outcome_of :: "'s runtime \<Rightarrow> run_record \<Rightarrow> ('s, cancellation_outcome) action" where
  "cancellation_outcome_of rt r =
     (if terminal (rr_status r) then act_return (cancel_reply True True None False None)
      else case Option.bind (rr_active_attempt r) (get_at (rr_attempts r)) of
        None \<Rightarrow> act_return (cancel_reply True False None False None)
      | Some active \<Rightarrow>
          let invocation = Some (aa_invocation_id active) in
          (case get_at (pr_steps (rr_plan r)) (rr_next_step r) of
             None \<Rightarrow> act_return (cancel_reply True False invocation False None)
           | Some planned \<Rightarrow>
               if \<not> ps_cooperative_cancellation planned
               then act_return (cancel_reply True False invocation False None)
               else case registry_get (rt_providers rt) (ps_provider_declaration_digest planned)
                           (ps_handler_id planned) of
                 None \<Rightarrow> act_return (cancel_reply True False invocation False (Some (no_handler_failure planned)))
               | Some provider \<Rightarrow>
                   act_bind (clock_now rt) (\<lambda>now.
                   act_bind (call_cancel rt provider
                     \<lparr> an_kind = ''mdbase.action.cancel'', an_profile_version = ''0.1'',
                       an_cancellation_id = stable_id (rt_host rt) ''cancel''
                         (pr_id (rr_plan r) @ '':'' @ aa_invocation_id active),
                       an_request_id = stable_id (rt_host rt) ''req''
                         (item_source (pr_id (rr_plan r)) (aa_step_id active) (aa_item_index active)),
                       an_caller = rc_identity (rt_config rt),
                       an_requested_at = dt_rfc3339 (h_chrono (rt_host rt)) now,
                       an_reason = Some ''runtime_run_cancelled'' \<rparr>) (\<lambda>error.
                   act_return (cancel_reply True False invocation (error = None) error)))))"

section \<open>Execution of a claimed run\<close>

datatype worker_outcome = Idle | Completed string run_status | Deferred string string

text \<open>A phase either returns from \<open>execute_claim\<close> or goes on with the claim.\<close>

datatype flow = Return worker_outcome | Proceed claim

definition completed :: "claim \<Rightarrow> run_status \<Rightarrow> worker_outcome" where
  "completed c status = Completed (pr_id (rr_plan (cl_run c))) status"

definition is_cooperative :: "run_record \<Rightarrow> bool" where
  "is_cooperative r =
     (case get_at (pr_steps (rr_plan r)) (rr_next_step r) of
        None \<Rightarrow> False | Some s \<Rightarrow> ps_cooperative_cancellation s)"

definition resume_cancelled :: "'s runtime \<Rightarrow> claim \<Rightarrow> ('s, flow) action" where
  "resume_cancelled rt c =
     (if rr_cancel_requested_at (cl_run c) = None then act_return (Proceed c)
      else case rr_active_attempt (cl_run c) of
        None \<Rightarrow> act_bind (finish_cancelled rt c) (\<lambda>c1. act_return (Return (completed c1 RunCancelled)))
      | Some active \<Rightarrow>
          if \<not> is_cooperative (cl_run c) then act_return (Proceed c)
          else act_bind (act_lift (index_at (rr_attempts (cl_run c)) active)) (\<lambda>attempt.
            if aa_status attempt \<noteq> AttemptDispatching then act_return (Proceed c)
            else act_bind (cancellation_outcome_of rt (cl_run c)) (\<lambda>_.
                 act_bind (indeterminate_active_attempt rt c active
                   ''action_cancellation_outcome_indeterminate''
                   ''A cooperative action was cancelled while its dispatch outcome was not durable.'') (\<lambda>c1.
                 act_return (Return (completed c1 RunIndeterminate))))))"

definition check_deadline :: "'s runtime \<Rightarrow> claim \<Rightarrow> ('s, flow) action" where
  "check_deadline rt c =
     act_bind (deadline_elapsed rt (cl_run c)) (\<lambda>late.
       if late then act_bind (timeout_run rt c) (\<lambda>c1. act_return (Return (completed c1 (rr_status (cl_run c1)))))
       else act_return (Proceed c))"

text \<open>The second check applies only when no attempt is active.\<close>

definition check_idle_deadline :: "'s runtime \<Rightarrow> claim \<Rightarrow> ('s, flow) action" where
  "check_idle_deadline rt c =
     (if rr_active_attempt (cl_run c) = None then check_deadline rt c else act_return (Proceed c))"

definition after_resumed_dispatch :: "'s runtime \<Rightarrow> claim \<Rightarrow> ('s, flow) action" where
  "after_resumed_dispatch rt c =
     (if terminal (rr_status (cl_run c)) then act_return (Return (completed c (rr_status (cl_run c))))
      else act_bind (act_lift (index_at (rr_steps (cl_run c)) (rr_next_step (cl_run c)))) (\<lambda>s.
        if sr_status s \<noteq> StepFailed then act_return (Proceed c)
        else act_bind (advance_failed_step rt c) (\<lambda>c1.
          if terminal (rr_status (cl_run c1))
          then act_return (Return (completed c1 (rr_status (cl_run c1))))
          else act_return (Proceed c1))))"

definition resume_dispatch :: "'s runtime \<Rightarrow> claim \<Rightarrow> ('s, flow) action" where
  "resume_dispatch rt c =
     (case rr_active_attempt (cl_run c) of
        None \<Rightarrow> act_return (Proceed c)
      | Some active \<Rightarrow>
          act_bind (act_lift (index_at (rr_attempts (cl_run c)) active)) (\<lambda>attempt.
            if aa_status attempt \<noteq> AttemptDispatching then act_return (Proceed c)
            else if \<not> aa_idempotent attempt
            then act_bind (indeterminate_active_attempt rt c active ''action_outcome_indeterminate''
                   ''A non-idempotent dispatch was interrupted before its outcome became durable.'') (\<lambda>c1.
                 act_return (Return (completed c1 RunIndeterminate)))
            else act_bind (dispatch_active_attempt rt c active) (after_resumed_dispatch rt)))"

subsection \<open>One step\<close>

text \<open>How an iteration of the step loop ends: \<open>continue\<close>, \<open>break\<close> or \<open>return\<close>.\<close>

datatype step_flow = Next claim | Break claim | Leave worker_outcome

definition after_failure :: "'s runtime \<Rightarrow> claim \<Rightarrow> runtime_failure \<Rightarrow> ('s, step_flow) action" where
  "after_failure rt c failure =
     act_bind (advance_after_failure rt c failure) (\<lambda>c1.
       act_return (if terminal (rr_status (cl_run c1)) then Break c1 else Next c1))"

text \<open>The condition of a step: an error, or whether it is exactly \<open>true\<close>.\<close>

definition step_condition :: "'s runtime \<Rightarrow> claim \<Rightarrow> planned_step \<Rightarrow> ('s, (runtime_failure, bool) res) action" where
  "step_condition rt c planned =
     (case ps_condition planned of
        None \<Rightarrow> act_return (Ok True)
      | Some condition \<Rightarrow>
          act_bind (clock_now rt) (\<lambda>now.
            case evaluate_runtime_expression (h_cel (rt_host rt)) condition (bindings (cl_run c)) now
                   (rc_timezone (rt_config rt)) of
              Ok v \<Rightarrow> act_return (Ok (v = JBool True))
            | Err e \<Rightarrow> act_return (Err (runtime_failure_new (ce_code e) (ce_message e)))
            | Panic \<Rightarrow> act_lift Panic))"

definition step_items :: "'s runtime \<Rightarrow> claim \<Rightarrow> planned_step \<Rightarrow> ('s, (runtime_failure, json list) res) action" where
  "step_items rt c planned =
     (case ps_for_each planned of
        None \<Rightarrow> act_return (Ok [JNull])
      | Some for_each \<Rightarrow>
          act_bind (clock_now rt) (\<lambda>now.
            case evaluate_runtime_template (h_cel (rt_host rt)) (pf_items for_each) (bindings (cl_run c)) now
                   (rc_timezone (rt_config rt)) of
              Panic \<Rightarrow> act_lift Panic
            | Err es \<Rightarrow> act_return (Err (runtime_failure_of (expression_errors es)))
            | Ok v \<Rightarrow>
                act_return (case as_array v of
                  None \<Rightarrow> Err (runtime_failure_new ''workflow_expression_type''
                             (''for_each for step '' @ ps_id planned @ '' must evaluate to a list.''))
                | Some items \<Rightarrow> Ok items)))"

definition skip_step :: "'s runtime \<Rightarrow> claim \<Rightarrow> ('s, claim) action" where
  "skip_step rt c =
     act_bind (clock_now rt) (\<lambda>now.
       commit_run_value rt c
         (bind_res (with_step (rr_next_step (cl_run c))
             (\<lambda>s. s\<lparr>sr_status := StepSkipped, sr_finished_at := Some now\<rparr>) (cl_run c))
           (\<lambda>r. Ok (r\<lparr>rr_next_step := Suc (rr_next_step r), rr_updated_at := now\<rparr>))))"

definition start_step :: "'s runtime \<Rightarrow> claim \<Rightarrow> ('s, claim) action" where
  "start_step rt c =
     act_bind (act_lift (index_at (rr_steps (cl_run c)) (rr_next_step (cl_run c)))) (\<lambda>s.
     act_bind (case sr_started_at s of None \<Rightarrow> clock_now rt | Some t \<Rightarrow> act_return t) (\<lambda>started.
     act_bind (clock_now rt) (\<lambda>now.
       commit_run_value rt c
         (bind_res (with_step (rr_next_step (cl_run c))
             (\<lambda>s. s\<lparr>sr_status := StepRunning, sr_started_at := Some started\<rparr>) (cl_run c))
           (\<lambda>r. Ok (r\<lparr>rr_updated_at := now\<rparr>))))))"

definition succeed_step :: "'s runtime \<Rightarrow> claim \<Rightarrow> nat \<Rightarrow> ('s, claim) action" where
  "succeed_step rt c step_index =
     act_bind (clock_now rt) (\<lambda>now.
       commit_run_value rt c
         (bind_res (with_step step_index
             (\<lambda>s. s\<lparr>sr_status := StepSucceeded, sr_finished_at := Some now\<rparr>) (cl_run c))
           (\<lambda>r. Ok (r\<lparr>rr_next_step := Suc (rr_next_step r), rr_updated_at := now\<rparr>))))"

subsection \<open>One item\<close>

definition item_bindings :: "claim \<Rightarrow> planned_step \<Rightarrow> json \<Rightarrow> json rresult" where
  "item_bindings c planned item =
     (case ps_for_each planned of
        None \<Rightarrow> Ok (bindings (cl_run c))
      | Some for_each \<Rightarrow> jset (bindings (cl_run c)) (pf_binding for_each) item)"

definition attempt_number :: "run_record \<Rightarrow> planned_step \<Rightarrow> nat option \<Rightarrow> 32 word" where
  "attempt_number r planned item_index =
     of_nat (length (filter (\<lambda>a. aa_step_id a = ps_id planned \<and> aa_item_index a = item_index)
                            (rr_attempts r))) + 1"

definition new_attempt ::
  "planned_step \<Rightarrow> nat option \<Rightarrow> string \<Rightarrow> 32 word \<Rightarrow> json \<Rightarrow> time \<Rightarrow> action_attempt" where
  "new_attempt planned item_index invocation_id number input now =
     \<lparr> aa_step_id = ps_id planned, aa_item_index = item_index, aa_invocation_id = invocation_id,
       aa_action = ps_action planned, aa_action_version = ps_action_version planned, aa_attempt = number,
       aa_status = AttemptDispatching, aa_idempotent = ps_idempotent planned, aa_input = input,
       aa_output = None, aa_receipt = None, aa_error = None, aa_started_at = now,
       aa_finished_at = None \<rparr>"

text \<open>The attempt becomes durable before the provider hears of it.\<close>

definition begin_attempt :: "'s runtime \<Rightarrow> claim \<Rightarrow> action_attempt \<Rightarrow> ('s, claim) action" where
  "begin_attempt rt c attempt =
     act_bind (clock_now rt) (\<lambda>now.
       commit_claim rt (c\<lparr>cl_run := (cl_run c)\<lparr>rr_attempts := rr_attempts (cl_run c) @ [attempt],
                            rr_active_attempt := Some (length (rr_attempts (cl_run c))),
                            rr_updated_at := now\<rparr>\<rparr>))"

text \<open>Authorizing, recording and dispatching an item whose input is valid; \<open>True\<close> is \<open>break\<close>.\<close>

definition dispatch_item ::
  "'s runtime \<Rightarrow> nat \<Rightarrow> claim \<Rightarrow> planned_step \<Rightarrow> nat option \<Rightarrow> json \<Rightarrow> ('s, claim \<times> bool) action" where
  "dispatch_item rt step_index c planned item_index input =
     (let number = attempt_number (cl_run c) planned item_index;
          invocation_id = stable_id (rt_host rt) ''inv''
            (item_source (pr_id (rr_plan (cl_run c))) (ps_id planned) item_index) in
      act_bind (dispatch_value rt c planned item_index invocation_id number input) (\<lambda>dispatch.
      act_match (authorize rt dispatch)
        (\<lambda>_. act_bind (clock_now rt) (\<lambda>started.
             act_bind (begin_attempt rt c (new_attempt planned item_index invocation_id number input started)) (\<lambda>c1.
             act_bind (dispatch_active_attempt rt c1 (length (rr_attempts (cl_run c)))) (\<lambda>c2.
               if terminal (rr_status (cl_run c2)) then act_return (c2, True)
               else act_bind (act_lift (index_at (rr_steps (cl_run c2)) step_index)) (\<lambda>s.
                      act_return (c2, sr_status s = StepFailed))))))
        (\<lambda>e. act_bind (fail_step rt c (runtime_failure_of e)) (\<lambda>c1. act_return (c1, True)))))"

definition run_item ::
  "'s runtime \<Rightarrow> nat \<Rightarrow> planned_step \<Rightarrow> claim \<Rightarrow> nat \<times> json \<Rightarrow> ('s, claim \<times> bool) action" where
  "run_item rt step_index planned c indexed =
     (let item_index = map_option (\<lambda>_. fst indexed) (ps_for_each planned);
          fail = (\<lambda>failure. act_bind (fail_step rt c failure) (\<lambda>c1. act_return (c1, True))) in
      act_bind (act_lift (item_bindings c planned (snd indexed))) (\<lambda>binds.
      act_bind (clock_now rt) (\<lambda>now.
        case evaluate_runtime_template (h_cel (rt_host rt)) (ps_input planned) binds now
               (rc_timezone (rt_config rt)) of
          Panic \<Rightarrow> act_lift Panic
        | Err es \<Rightarrow> fail (runtime_failure_of (expression_errors es))
        | Ok input \<Rightarrow>
            (case pinned_action (rt_host rt) planned of
               Panic \<Rightarrow> act_lift Panic
             | Err e \<Rightarrow> fail (runtime_failure_of e)
             | Ok pinned \<Rightarrow>
                 (case validate_action_value (rt_host rt) pinned ''input_schema'' input of
                    Panic \<Rightarrow> act_lift Panic
                  | Err message \<Rightarrow> fail (runtime_failure_new ''action_input_invalid'' message)
                  | Ok _ \<Rightarrow> dispatch_item rt step_index c planned item_index input)))))"

fun item_loop ::
  "'s runtime \<Rightarrow> nat \<Rightarrow> planned_step \<Rightarrow> (nat \<times> json) list \<Rightarrow> claim \<Rightarrow> ('s, claim) action" where
  "item_loop rt step_index planned [] c = act_return c"
| "item_loop rt step_index planned (i # items) c =
     act_bind (run_item rt step_index planned c i) (\<lambda>(c1, stop).
       if stop then act_return c1 else item_loop rt step_index planned items c1)"

text \<open>The step after its items were expanded.\<close>

definition run_step :: "'s runtime \<Rightarrow> claim \<Rightarrow> planned_step \<Rightarrow> json list \<Rightarrow> ('s, step_flow) action" where
  "run_step rt c planned items =
     (let step_index = rr_next_step (cl_run c) in
      act_bind (start_step rt c) (\<lambda>c1.
      act_bind (act_lift (index_at (rr_steps (cl_run c1)) step_index)) (\<lambda>s.
      act_bind (item_loop rt step_index planned (drop (length (sr_outputs s)) (enumerate 0 items)) c1) (\<lambda>c2.
        if terminal (rr_status (cl_run c2)) then act_return (Break c2)
        else act_bind (act_lift (index_at (rr_steps (cl_run c2)) step_index)) (\<lambda>s2.
          if sr_status s2 = StepFailed
          then act_bind (advance_failed_step rt c2) (\<lambda>c3.
                 act_return (if terminal (rr_status (cl_run c3)) then Break c3 else Next c3))
          else act_bind (succeed_step rt c2 step_index) (\<lambda>c3. act_return (Next c3)))))))"

definition item_limit_failure :: "'s runtime \<Rightarrow> planned_step \<Rightarrow> nat \<Rightarrow> runtime_failure" where
  "item_limit_failure rt planned count =
     runtime_failure_new ''workflow_item_limit''
       (''Step '' @ ps_id planned @ '' expanded '' @ show_nat count @ '' items; limit is '' @
        show_nat (rc_max_items (rt_config rt)) @ ''.'')"

definition execute_step :: "'s runtime \<Rightarrow> claim \<Rightarrow> planned_step \<Rightarrow> ('s, step_flow) action" where
  "execute_step rt c planned =
     act_bind (step_condition rt c planned) (\<lambda>condition.
       case condition of
         Panic \<Rightarrow> act_lift Panic
       | Err failure \<Rightarrow> after_failure rt c failure
       | Ok False \<Rightarrow> act_bind (skip_step rt c) (\<lambda>c1. act_return (Next c1))
       | Ok True \<Rightarrow>
           act_bind (step_items rt c planned) (\<lambda>expanded.
             case expanded of
               Panic \<Rightarrow> act_lift Panic
             | Err failure \<Rightarrow> after_failure rt c failure
             | Ok items \<Rightarrow>
                 if rc_max_items (rt_config rt) < length items
                 then after_failure rt c (item_limit_failure rt planned (length items))
                 else run_step rt c planned items))"

definition step_iteration :: "'s runtime \<Rightarrow> claim \<Rightarrow> ('s, step_flow) action" where
  "step_iteration rt c =
     act_bind (deadline_elapsed rt (cl_run c)) (\<lambda>late.
       if late then act_bind (timeout_run rt c) (\<lambda>c1. act_return (Break c1))
       else if rr_cancel_requested_at (cl_run c) \<noteq> None
       then act_bind (finish_cancelled rt c) (\<lambda>c1. act_return (Leave (completed c1 RunCancelled)))
       else act_bind (act_lift (index_at (pr_steps (rr_plan (cl_run c))) (rr_next_step (cl_run c))))
              (execute_step rt c))"

text \<open>The \<open>while\<close> loop over the steps, with fuel: \<open>None\<close> means that the fuel did not suffice.\<close>

fun step_loop :: "'s runtime \<Rightarrow> nat \<Rightarrow> claim \<Rightarrow> 's world \<Rightarrow> ('s world \<times> flow rresult) option" where
  "step_loop rt 0 c w = None"
| "step_loop rt (Suc fuel) c w =
     (if rr_next_step (cl_run c) < length (pr_steps (rr_plan (cl_run c)))
      then (case step_iteration rt c w of
              (w1, Ok (Next c1)) \<Rightarrow> step_loop rt fuel c1 w1
            | (w1, Ok (Break c1)) \<Rightarrow> Some (w1, Ok (Proceed c1))
            | (w1, Ok (Leave out)) \<Rightarrow> Some (w1, Ok (Return out))
            | (w1, Err e) \<Rightarrow> Some (w1, Err e)
            | (w1, Panic) \<Rightarrow> Some (w1, Panic))
      else Some (w, Ok (Proceed c)))"

definition finish_run :: "'s runtime \<Rightarrow> claim \<Rightarrow> ('s, claim) action" where
  "finish_run rt c =
     (if \<not> terminal (rr_status (cl_run c)) \<and>
         length (pr_steps (rr_plan (cl_run c))) \<le> rr_next_step (cl_run c)
      then act_bind (clock_now rt) (\<lambda>now.
        commit_claim rt (c\<lparr>cl_run := (cl_run c)\<lparr>
          rr_status := (if list_ex (\<lambda>s. sr_status s = StepFailed) (rr_steps (cl_run c))
                        then RunFailed else RunSucceeded),
          rr_finished_at := Some now, rr_updated_at := now\<rparr>\<rparr>))
      else act_return c)"

text \<open>The phases before the loop, in order.\<close>

definition flow_bind :: "('s, flow) action \<Rightarrow> (claim \<Rightarrow> ('s, flow) action) \<Rightarrow> ('s, flow) action" where
  "flow_bind m f = act_bind m (\<lambda>x. case x of Return out \<Rightarrow> act_return (Return out) | Proceed c \<Rightarrow> f c)"

definition prepare_claim :: "'s runtime \<Rightarrow> claim \<Rightarrow> ('s, flow) action" where
  "prepare_claim rt c =
     flow_bind (resume_cancelled rt c) (\<lambda>c1.
     flow_bind (check_idle_deadline rt c1) (\<lambda>c2.
     flow_bind (resume_dispatch rt c2) (check_deadline rt)))"

definition execute_claim ::
  "'s runtime \<Rightarrow> nat \<Rightarrow> claim \<Rightarrow> 's world \<Rightarrow> ('s world \<times> worker_outcome rresult) option" where
  "execute_claim rt fuel c w =
     (case prepare_claim rt c w of
        (w1, Err e) \<Rightarrow> Some (w1, Err e)
      | (w1, Panic) \<Rightarrow> Some (w1, Panic)
      | (w1, Ok (Return out)) \<Rightarrow> Some (w1, Ok out)
      | (w1, Ok (Proceed c1)) \<Rightarrow>
          (case step_loop rt fuel c1 w1 of
             None \<Rightarrow> None
           | Some (w2, Err e) \<Rightarrow> Some (w2, Err e)
           | Some (w2, Panic) \<Rightarrow> Some (w2, Panic)
           | Some (w2, Ok (Return out)) \<Rightarrow> Some (w2, Ok out)
           | Some (w2, Ok (Proceed c2)) \<Rightarrow>
               Some (act_bind (finish_run rt c2) (\<lambda>c3. act_return (completed c3 (rr_status (cl_run c3)))) w2)))"

end
