(* ===== verification/Engine_Contract.thy ===== *)
theory Engine_Contract
  imports Engine Store_Fencing
begin

text \<open>
  What the engine relies on and what it guarantees. The store's side is the locale \<open>run_store\<close>: a
  commit returns the same claim with its revision raised, or an error, and never panics. The engine's
  side is a discipline on the trace of one execution: every commit is an evolution of the run that was
  durable before, and a provider is called only for the attempt that is durable as being dispatched
  and that the host authorized. The rules of this theory carry that discipline through the
  composition of actions; \<open>Engine_Correct\<close> applies them to every method.
\<close>

section \<open>The discipline of a trace\<close>

text \<open>The claim that is durable after a trace event.\<close>

fun advance :: "claim \<Rightarrow> trace_event \<Rightarrow> claim" where
  "advance d (Committed c) = c"
| "advance d _ = d"

definition durable :: "claim \<Rightarrow> trace_event list \<Rightarrow> claim" where
  "durable d t = foldl advance d t"

text \<open>The invocation belongs to the attempt that the durable run records as being dispatched.\<close>

definition write_ahead :: "claim \<Rightarrow> action_invocation \<Rightarrow> bool" where
  "write_ahead d i \<longleftrightarrow>
     \<not> terminal (rr_status (cl_run d)) \<and>
     (case rr_active_attempt (cl_run d) of
        None \<Rightarrow> False
      | Some k \<Rightarrow>
          k < length (rr_attempts (cl_run d)) \<and>
          aa_status (rr_attempts (cl_run d) ! k) = AttemptDispatching \<and>
          aa_invocation_id (rr_attempts (cl_run d) ! k) = ai_invocation_id i \<and>
          aa_input (rr_attempts (cl_run d) ! k) = ai_input i)"

definition authorized :: "'s runtime \<Rightarrow> action_invocation \<Rightarrow> bool" where
  "authorized rt i \<longleftrightarrow> (\<exists>tick d. rt_authorizer rt tick d = AuthAllow \<and> ad_invocation d = i)"

definition same_lease :: "claim \<Rightarrow> claim \<Rightarrow> bool" where
  "same_lease d c \<longleftrightarrow>
     cl_worker c = cl_worker d \<and> cl_token c = cl_token d \<and> cl_expires_at c = cl_expires_at d"

definition event_ok :: "'s runtime \<Rightarrow> claim \<Rightarrow> trace_event \<Rightarrow> bool" where
  "event_ok rt d e =
     (case e of
        Committed c \<Rightarrow> run_evolves (cl_run d) (cl_run c) \<and> same_lease d c \<and>
                       rr_revision (cl_run c) = rr_revision (cl_run d) + 1
      | Dispatched i \<Rightarrow> write_ahead d i \<and> authorized rt i
      | CancelSent _ \<Rightarrow> True)"

fun trace_ok :: "'s runtime \<Rightarrow> claim \<Rightarrow> trace_event list \<Rightarrow> bool" where
  "trace_ok rt d [] = True"
| "trace_ok rt d (e # t) = (event_ok rt d e \<and> trace_ok rt (advance d e) t)"

lemma durable_simps [simp]:
  "durable d [] = d" "durable d (e # t) = durable (advance d e) t"
  "durable d (t @ [e]) = advance (durable d t) e"
  by (simp_all add: durable_def)

lemma trace_ok_snoc [simp]: "trace_ok rt d (t @ [e]) \<longleftrightarrow> trace_ok rt d t \<and> event_ok rt (durable d t) e"
  by (induction t arbitrary: d) auto

lemma trace_ok_prefix: "trace_ok rt d (t1 @ t2) \<Longrightarrow> trace_ok rt d t1"
  by (induction t1 arbitrary: d) auto

lemma trace_ok_split: "trace_ok rt d (t1 @ e # t2) \<Longrightarrow> event_ok rt (durable d t1) e"
  by (induction t1 arbitrary: d) auto

lemma run_evolves_refl [simp]: "run_wf r \<Longrightarrow> run_evolves r r"
  by (simp add: run_evolves_def)

lemma trace_ok_evolves:
  "trace_ok rt d t \<Longrightarrow> run_wf (cl_run d) \<Longrightarrow>
   run_evolves (cl_run d) (cl_run (durable d t)) \<and> same_lease d (durable d t)"
proof (induction t arbitrary: d)
  case (Cons e t)
  show ?case
  proof (cases e)
    case (Committed c)
    with Cons have ev: "run_evolves (cl_run d) (cl_run c)" "same_lease d c" "trace_ok rt c t"
      by (auto simp: event_ok_def)
    then have "run_wf (cl_run c)" by (simp add: run_evolves_def)
    with Cons.IH [of c] ev Committed show ?thesis
      by (auto simp: same_lease_def intro: run_evolves_trans)
  qed (use Cons in auto)
qed (simp add: same_lease_def)

section \<open>The contract of the store\<close>

text \<open>A claim that the worker changed in memory since it was durable.\<close>

definition drafts :: "claim \<Rightarrow> claim \<Rightarrow> bool" where
  "drafts d c \<longleftrightarrow>
     run_evolves (cl_run d) (cl_run c) \<and> same_lease d c \<and> rr_revision (cl_run c) = rr_revision (cl_run d)"

text \<open>
  \<open>sane d s\<close>: the store \<open>s\<close> is in order for the worker whose durable claim is \<open>d\<close>. Committing a
  draft of that claim makes the draft durable with its revision raised, or is refused.
\<close>

locale run_store =
  fixes ops :: "'s store_ops" and sane :: "claim \<Rightarrow> 's \<Rightarrow> bool"
  assumes commit_contract:
    "sane d s \<Longrightarrow> drafts d c \<Longrightarrow> so_commit ops c [] s = (s', r) \<Longrightarrow>
     (case r of Ok c' \<Rightarrow> c' = bump_revision c \<and> sane c' s' | Err _ \<Rightarrow> sane d s' | Panic \<Rightarrow> False)"

text \<open>Code of the host and of the libraries reports failures as values.\<close>

definition host_returns :: "'s runtime \<Rightarrow> bool" where
  "host_returns rt \<longleftrightarrow>
     (\<forall>b p n i. bt_get (rt_providers rt) b = Some p \<longrightarrow> pv_dispatch p n i \<noteq> Panic) \<and>
     (\<forall>b p n i. bt_get (rt_providers rt) b = Some p \<longrightarrow> pv_cancel p n i \<noteq> Panic) \<and>
     cel_returns (h_cel (rt_host rt)) \<and>
     (\<forall>v. h_schema (rt_host rt) v \<noteq> Panic)"

locale engine = run_store "rt_store rt" sane
  for rt :: "'s runtime" and sane :: "claim \<Rightarrow> 's \<Rightarrow> bool" +
  assumes others_sane: "sane d s \<Longrightarrow> sane d (rt_others rt n s)"
    and host_sane: "sane d s \<Longrightarrow> host_returns rt"

text \<open>
  \<open>sync rt sane d0 t0 c w\<close>: since the execution started with the durable claim \<open>d0\<close> and the trace
  \<open>t0\<close>, the trace kept the discipline and \<open>c\<close> is the claim that is durable now.
\<close>

definition sync ::
  "'s runtime \<Rightarrow> (claim \<Rightarrow> 's \<Rightarrow> bool) \<Rightarrow> claim \<Rightarrow> trace_event list \<Rightarrow> claim \<Rightarrow> 's world \<Rightarrow> bool" where
  "sync rt sane d0 t0 c w \<longleftrightarrow>
     sane c (w_store w) \<and> run_wf (cl_run d0) \<and>
     (\<exists>t. w_trace w = t0 @ t \<and> trace_ok rt d0 t \<and> durable d0 t = c)"

definition ready ::
  "'s runtime \<Rightarrow> (claim \<Rightarrow> 's \<Rightarrow> bool) \<Rightarrow> claim \<Rightarrow> trace_event list \<Rightarrow> claim \<Rightarrow> 's world \<Rightarrow> bool" where
  "ready rt sane d0 t0 c w \<longleftrightarrow> (\<exists>d. sync rt sane d0 t0 d w \<and> drafts d c)"

lemma sync_run:
  assumes "sync rt sane d0 t0 c w"
  shows "run_evolves (cl_run d0) (cl_run c)" "run_wf (cl_run c)" "rr_plan (cl_run c) = rr_plan (cl_run d0)"
proof -
  from assms obtain t where t: "trace_ok rt d0 t" "durable d0 t = c" "run_wf (cl_run d0)"
    by (auto simp: sync_def)
  from trace_ok_evolves [OF t(1,3)] t(2) show "run_evolves (cl_run d0) (cl_run c)" by simp
  then show "run_wf (cl_run c)" "rr_plan (cl_run c) = rr_plan (cl_run d0)"
    by (simp_all add: run_evolves_def)
qed

lemma sync_tick [simp]: "sync rt sane d0 t0 c (w\<lparr>w_tick := n\<rparr>) = sync rt sane d0 t0 c w"
  by (simp add: sync_def)

lemma ready_tick [simp]: "ready rt sane d0 t0 c (w\<lparr>w_tick := n\<rparr>) = ready rt sane d0 t0 c w"
  by (simp add: ready_def)

lemma ready_run:
  assumes "ready rt sane d0 t0 c w"
  shows "run_wf (cl_run c)" "rr_plan (cl_run c) = rr_plan (cl_run d0)"
  using assms by (auto simp: ready_def drafts_def run_evolves_def dest: sync_run(3))

lemma sync_ready: "sync rt sane d0 t0 c w \<Longrightarrow> ready rt sane d0 t0 c w"
  unfolding ready_def drafts_def same_lease_def using sync_run(2) run_evolves_refl by blast

text \<open>Changing the run in memory, as long as it stays an evolution with the same revision.\<close>

lemma ready_evolve:
  assumes "ready rt sane d0 t0 c w" "run_evolves (cl_run c) r" "rr_revision r = rr_revision (cl_run c)"
  shows "ready rt sane d0 t0 (c\<lparr>cl_run := r\<rparr>) w"
  using assms by (auto simp: ready_def drafts_def same_lease_def intro: run_evolves_trans)

section \<open>Specifications of actions\<close>

text \<open>
  From a world with \<open>P\<close>, with a host that returns, the action does not panic, ends with \<open>Q\<close> when it succeeds, and when it
  fails leaves a store and a trace in order.
\<close>

definition spec ::
  "'s runtime \<Rightarrow> (claim \<Rightarrow> 's \<Rightarrow> bool) \<Rightarrow> claim \<Rightarrow> trace_event list \<Rightarrow>
     ('s world \<Rightarrow> bool) \<Rightarrow> ('s, 'a) action \<Rightarrow> ('a \<Rightarrow> 's world \<Rightarrow> bool) \<Rightarrow> bool" where
  "spec rt sane d0 t0 P m Q \<longleftrightarrow>
     (\<forall>w w' r. host_returns rt \<longrightarrow> P w \<longrightarrow> m w = (w', r) \<longrightarrow>
        (case r of Ok x \<Rightarrow> Q x w' | Err _ \<Rightarrow> (\<exists>c. sync rt sane d0 t0 c w') | Panic \<Rightarrow> False))"

lemma specI:
  assumes "\<And>w w' x. host_returns rt \<Longrightarrow> P w \<Longrightarrow> m w = (w', Ok x) \<Longrightarrow> Q x w'"
    and "\<And>w w' e. host_returns rt \<Longrightarrow> P w \<Longrightarrow> m w = (w', Err e) \<Longrightarrow> \<exists>c. sync rt sane d0 t0 c w'"
    and "\<And>w w'. host_returns rt \<Longrightarrow> P w \<Longrightarrow> m w = (w', Panic) \<Longrightarrow> False"
  shows "spec rt sane d0 t0 P m Q"
  using assms by (auto simp: spec_def split: res.split)

lemma specD:
  assumes "spec rt sane d0 t0 P m Q" "host_returns rt" "P w" "m w = (w', r)"
  shows "case r of Ok x \<Rightarrow> Q x w' | Err _ \<Rightarrow> (\<exists>c. sync rt sane d0 t0 c w') | Panic \<Rightarrow> False"
  using assms by (auto simp: spec_def)

lemma spec_bind:
  assumes "spec rt sane d0 t0 P m R" and "\<And>x. spec rt sane d0 t0 (R x) (f x) Q"
  shows "spec rt sane d0 t0 P (act_bind m f) Q"
  unfolding spec_def
proof (intro allI impI)
  fix w w' r assume h: "host_returns rt" and P: "P w" and run: "act_bind m f w = (w', r)"
  from run show "case r of Ok x \<Rightarrow> Q x w' | Err _ \<Rightarrow> (\<exists>c. sync rt sane d0 t0 c w') | Panic \<Rightarrow> False"
  proof (cases rule: act_bind_cases)
    case (ok w1 x)
    from specD [OF assms(1) h P ok(1)] have "R x w1" by simp
    from specD [OF assms(2) h this ok(2)] show ?thesis .
  qed (use specD [OF assms(1) h P] in auto)
qed

lemma spec_return: "(\<And>w. P w \<Longrightarrow> Q x w) \<Longrightarrow> spec rt sane d0 t0 P (act_return x) Q"
  by (simp add: spec_def)

lemma spec_pre: "spec rt sane d0 t0 R m Q \<Longrightarrow> (\<And>w. P w \<Longrightarrow> R w) \<Longrightarrow> spec rt sane d0 t0 P m Q"
  by (auto simp: spec_def)

lemma spec_post:
  assumes "spec rt sane d0 t0 P m R" and "\<And>x w. R x w \<Longrightarrow> Q x w"
  shows "spec rt sane d0 t0 P m Q"
proof (rule specI)
  show "Q x w'" if "host_returns rt" "P w" "m w = (w', Ok x)" for w w' x
    using specD [OF assms(1) that] assms(2) by simp
  show "\<exists>c. sync rt sane d0 t0 c w'" if "host_returns rt" "P w" "m w = (w', Err e)" for w w' e
    using specD [OF assms(1) that] by simp
  show False if "host_returns rt" "P w" "m w = (w', Panic)" for w w' using specD [OF assms(1) that] by simp
qed

lemma spec_assume: "(\<And>w. P w \<Longrightarrow> B) \<Longrightarrow> (B \<Longrightarrow> spec rt sane d0 t0 P m Q) \<Longrightarrow> spec rt sane d0 t0 P m Q"
  by (auto simp: spec_def)

lemma spec_host: "(host_returns rt \<Longrightarrow> spec rt sane d0 t0 P m Q) \<Longrightarrow> spec rt sane d0 t0 P m Q"
  by (auto simp: spec_def)

lemma spec_side: "spec rt sane d0 t0 (\<lambda>w. P w \<and> B) m Q \<longleftrightarrow> (B \<longrightarrow> spec rt sane d0 t0 P m Q)"
  by (auto simp: spec_def)

text \<open>Reading the clock changes nothing that a \<open>ready\<close> or \<open>sync\<close> precondition speaks about.\<close>

definition tickless :: "('s world \<Rightarrow> bool) \<Rightarrow> bool" where
  "tickless P \<longleftrightarrow> (\<forall>w n. P (w\<lparr>w_tick := n\<rparr>) = P w)"

lemma tickless_sync [simp]: "tickless (sync rt sane d0 t0 c)" "tickless (ready rt sane d0 t0 c)"
  by (simp_all add: tickless_def)

lemma tickless_conj [simp]: "tickless (\<lambda>w. P w \<and> B) = (tickless P \<or> \<not> B)"
  by (auto simp: tickless_def)

lemma spec_clock:
  assumes "tickless P" "\<And>now. spec rt sane d0 t0 P (f now) Q"
  shows "spec rt sane d0 t0 P (act_bind (clock_now rt) f) Q"
  using assms unfolding spec_def tickless_def act_bind_def by fastforce

lemma spec_lift_Ok:
  assumes "r = Ok x" "spec rt sane d0 t0 P (f x) Q"
  shows "spec rt sane d0 t0 P (act_bind (act_lift r) f) Q"
  using assms by (simp add: spec_def act_bind_def)

context engine
begin

lemma store_commit:
  assumes "sync rt sane d0 t0 d w" "drafts d c" "commit_claim rt c w = (w', r)"
  shows "case r of
      Ok c' \<Rightarrow> c' = bump_revision c \<and> sync rt sane d0 t0 c' w'
    | Err _ \<Rightarrow> sync rt sane d0 t0 d w'
    | Panic \<Rightarrow> False"
proof -
  let ?s = "rt_others rt (w_tick w) (w_store w)"
  obtain s1 r1 where run: "so_commit (rt_store rt) c [] ?s = (s1, r1)" by fastforce
  have "sane d ?s" using assms(1) others_sane by (simp add: sync_def)
  note ctr = commit_contract [OF this assms(2) run]
  from assms(1) obtain t where t: "w_trace w = t0 @ t" "trace_ok rt d0 t" "durable d0 t = d" "run_wf (cl_run d0)"
    by (auto simp: sync_def)
  show ?thesis
  proof (cases r1)
    case (Ok c')
    with ctr have c': "c' = bump_revision c" "sane c' s1" by auto
    have "event_ok rt d (Committed c')"
      using assms(2) by (auto simp: event_ok_def drafts_def same_lease_def c'(1) run_evolves_def bump_revision_def)
    with t have "trace_ok rt d0 (t @ [Committed c'])" "durable d0 (t @ [Committed c']) = c'" by simp_all
    moreover have "w' = w\<lparr>w_store := s1, w_tick := Suc (w_tick w), w_trace := w_trace w @ [Committed c']\<rparr>"
      using assms(3) run Ok by (simp add: commit_claim_def store_call_def)
    ultimately have "sync rt sane d0 t0 c' w'"
      unfolding sync_def using c'(2) t(1,4) by (intro conjI exI [of _ "t @ [Committed c']"]) simp_all
    moreover have "r = Ok c'" using assms(3) run Ok by (simp add: commit_claim_def store_call_def)
    ultimately show ?thesis using c' by simp
  next
    case (Err e)
    then have "w' = w\<lparr>w_store := s1, w_tick := Suc (w_tick w)\<rparr>" "r = Err e"
      using assms(3) run by (simp_all add: commit_claim_def store_call_def)
    then show ?thesis using assms(1) ctr Err by (simp add: sync_def)
  next
    case Panic
    then show ?thesis using ctr by simp
  qed
qed

lemma spec_commit:
  assumes "\<And>w. P w \<Longrightarrow> ready rt sane d0 t0 c w"
  shows "spec rt sane d0 t0 P (commit_claim rt c)
           (\<lambda>c' w. c' = bump_revision c \<and> sync rt sane d0 t0 c' w)"
  unfolding spec_def
proof (intro allI impI)
  fix w w' r assume "P w" and run: "commit_claim rt c w = (w', r)"
  with assms obtain d where "sync rt sane d0 t0 d w" "drafts d c" by (auto simp: ready_def)
  from store_commit [OF this run]
  show "case r of Ok c' \<Rightarrow> c' = bump_revision c \<and> sync rt sane d0 t0 c' w'
      | Err _ \<Rightarrow> (\<exists>c. sync rt sane d0 t0 c w') | Panic \<Rightarrow> False"
    by (auto split: res.splits)
qed

text \<open>Committing a changed run: the change is an evolution, and the new durable claim has \<open>Q\<close>.\<close>

lemma spec_commit_value:
  assumes "\<And>w. P w \<Longrightarrow> ready rt sane d0 t0 c w"
    and "run_wf (cl_run c) \<Longrightarrow> rr_plan (cl_run c) = rr_plan (cl_run d0) \<Longrightarrow>
      case r of
        Ok run \<Rightarrow> run_evolves (cl_run c) run \<and> rr_revision run = rr_revision (cl_run c) \<and>
          (\<forall>w. sync rt sane d0 t0 (bump_revision (c\<lparr>cl_run := run\<rparr>)) w \<longrightarrow>
               Q (bump_revision (c\<lparr>cl_run := run\<rparr>)) w)
      | _ \<Rightarrow> False"
  shows "spec rt sane d0 t0 P (commit_run_value rt c r) Q"
proof (rule spec_assume)
  show "run_wf (cl_run c) \<and> rr_plan (cl_run c) = rr_plan (cl_run d0)" if "P w" for w
    using ready_run [OF assms(1) [OF that]] by simp
  assume "run_wf (cl_run c) \<and> rr_plan (cl_run c) = rr_plan (cl_run d0)"
  with assms(2) obtain run where run: "r = Ok run" "run_evolves (cl_run c) run"
    "rr_revision run = rr_revision (cl_run c)"
    and Q: "\<And>w. sync rt sane d0 t0 (bump_revision (c\<lparr>cl_run := run\<rparr>)) w \<Longrightarrow>
               Q (bump_revision (c\<lparr>cl_run := run\<rparr>)) w"
    by (auto split: res.splits)
  have "spec rt sane d0 t0 P (commit_claim rt (c\<lparr>cl_run := run\<rparr>))
      (\<lambda>c' w. c' = bump_revision (c\<lparr>cl_run := run\<rparr>) \<and> sync rt sane d0 t0 c' w)"
    by (rule spec_commit) (rule ready_evolve [OF assms(1) run(2,3)])
  then show ?thesis
    unfolding commit_run_value_def by (intro spec_lift_Ok [OF run(1)]) (auto elim: spec_post intro: Q)
qed

end

end
