(* ===== verification/Engine_Correct.thy ===== *)
theory Engine_Correct
  imports Engine_Contract
begin

text \<open>
  The methods of the engine keep the discipline of \<open>Engine_Contract\<close>: the rules for the ways a step and
  a run can end, for dispatching, for one item and one step, and for the whole execution of a claim,
  which returns after at most one iteration per remaining step.
\<close>

section \<open>Evolutions of a run\<close>

lemma with_step_Ok [simp]:
  "i < length (rr_steps r) \<Longrightarrow> with_step i f r = Ok (r\<lparr>rr_steps := (rr_steps r)[i := f (rr_steps r ! i)]\<rparr>)"
  by (simp add: with_step_def)

lemma with_attempt_Ok [simp]:
  "i < length (rr_attempts r) \<Longrightarrow>
   with_attempt i f r = Ok (r\<lparr>rr_attempts := (rr_attempts r)[i := f (rr_attempts r ! i)]\<rparr>)"
  by (simp add: with_attempt_def)

lemma close_run_simps [simp]:
  "rr_plan (close_run s now r) = rr_plan r" "rr_revision (close_run s now r) = rr_revision r"
  "rr_created_at (close_run s now r) = rr_created_at r" "rr_status (close_run s now r) = s"
  "rr_next_step (close_run s now r) = length (rr_steps r)"
  "length (rr_steps (close_run s now r)) = length (rr_steps r)"
  "rr_attempts (close_run s now r) = rr_attempts r"
  "rr_active_attempt (close_run s now r) = rr_active_attempt r"
  "rr_finished_at (close_run s now r) = Some now"
  by (simp_all add: close_run_def skip_remaining_steps_def Let_def)

lemma evolve_close:
  assumes "run_wf r" "terminal s" "rr_plan r1 = rr_plan r" "rr_created_at r1 = rr_created_at r"
    "length (rr_steps r1) = length (rr_steps r)" "length (rr_attempts r1) = length (rr_attempts r)"
    "rr_active_attempt r1 = rr_active_attempt r"
  shows "run_evolves r (close_run s now r1)"
    and "run_evolves r ((close_run s now r1)\<lparr>rr_active_attempt := None\<rparr>)"
  using assms by (auto simp: run_evolves_def run_wf_def)

lemma run_wf_steps: "run_wf r \<Longrightarrow> length (rr_steps r) = length (pr_steps (rr_plan r))"
  by (simp add: run_wf_def)

lemma run_wf_active: "run_wf r \<Longrightarrow> rr_active_attempt r = Some i \<Longrightarrow> i < length (rr_attempts r)"
  by (simp add: run_wf_def)

text \<open>The side conditions on a changed run that the rules below discharge by simplification.\<close>

lemmas evolve_defs = run_evolves_def run_wf_def

context engine
begin

abbreviation synced :: "claim \<Rightarrow> trace_event list \<Rightarrow> claim \<Rightarrow> 's world \<Rightarrow> bool" where
  "synced \<equiv> sync rt sane"

abbreviation prepared :: "claim \<Rightarrow> trace_event list \<Rightarrow> claim \<Rightarrow> 's world \<Rightarrow> bool" where
  "prepared \<equiv> ready rt sane"

abbreviation ensures ::
  "claim \<Rightarrow> trace_event list \<Rightarrow> ('s world \<Rightarrow> bool) \<Rightarrow> ('s, 'a) action \<Rightarrow> ('a \<Rightarrow> 's world \<Rightarrow> bool) \<Rightarrow> bool" where
  "ensures \<equiv> spec rt sane"

section \<open>How steps and runs end\<close>

text \<open>The run is still going, at the same step.\<close>

lemma fail_step_spec:
  assumes "rr_next_step (cl_run c) < length (rr_steps (cl_run c))" "\<not> terminal (rr_status (cl_run c))"
  shows "ensures d0 t0 (prepared d0 t0 c) (fail_step rt c failure)
    (\<lambda>c' w. synced d0 t0 c' w \<and> rr_status (cl_run c') = rr_status (cl_run c) \<and>
            rr_next_step (cl_run c') = rr_next_step (cl_run c) \<and>
            rr_active_attempt (cl_run c') = None \<and>
            sr_status (rr_steps (cl_run c') ! rr_next_step (cl_run c')) = StepFailed)"
  unfolding fail_step_def
  by (rule spec_clock, simp, rule spec_commit_value) (use assms in \<open>auto simp: evolve_defs\<close>)

lemma advance_failed_step_spec:
  assumes "rr_next_step (cl_run c) < length (rr_steps (cl_run c))" "\<not> terminal (rr_status (cl_run c))"
    "rr_active_attempt (cl_run c) = None"
  shows "ensures d0 t0 (prepared d0 t0 c) (advance_failed_step rt c)
    (\<lambda>c' w. synced d0 t0 c' w \<and>
       (if pr_on_error (rr_plan (cl_run d0)) = Stop then rr_status (cl_run c') = RunFailed
        else rr_status (cl_run c') = rr_status (cl_run c) \<and>
             rr_next_step (cl_run c') = Suc (rr_next_step (cl_run c)) \<and>
             rr_active_attempt (cl_run c') = None))"
  unfolding advance_failed_step_def
  by (rule spec_clock, simp, rule spec_commit_value)
     (use assms in \<open>auto simp: evolve_defs\<close>)

lemma finish_cancelled_spec:
  "ensures d0 t0 (prepared d0 t0 c) (finish_cancelled rt c)
     (\<lambda>c' w. synced d0 t0 c' w \<and> rr_status (cl_run c') = RunCancelled)"
  unfolding finish_cancelled_def Let_def
  by (rule spec_clock, simp, rule spec_commit_value) (auto intro!: evolve_close)

lemma timeout_run_spec:
  "ensures d0 t0 (prepared d0 t0 c) (timeout_run rt c)
     (\<lambda>c' w. synced d0 t0 c' w \<and> rr_status (cl_run c') = RunFailed)"
  unfolding timeout_run_def Let_def
  by (rule spec_clock, simp, rule spec_commit_value) (auto intro!: evolve_close)

lemma indeterminate_active_attempt_spec:
  assumes "active < length (rr_attempts (cl_run c))"
    "rr_next_step (cl_run c) < length (rr_steps (cl_run c))"
  shows "ensures d0 t0 (prepared d0 t0 c) (indeterminate_active_attempt rt c active code message)
     (\<lambda>c' w. synced d0 t0 c' w \<and> rr_status (cl_run c') = RunIndeterminate)"
  unfolding indeterminate_active_attempt_def Let_def
  by (rule spec_clock, simp, rule spec_commit_value) (use assms in \<open>auto intro!: evolve_close\<close>)

text \<open>Going on with a changed claim.\<close>

lemma spec_change:
  assumes "ensures d0 t0 (prepared d0 t0 (c\<lparr>cl_run := r\<rparr>)) m Q"
    and "run_wf (cl_run c) \<Longrightarrow> run_evolves (cl_run c) r" "rr_revision r = rr_revision (cl_run c)"
  shows "ensures d0 t0 (prepared d0 t0 c) m Q"
  using assms(1)
proof (rule spec_pre)
  show "prepared d0 t0 (c\<lparr>cl_run := r\<rparr>) w" if "prepared d0 t0 c w" for w
    using ready_evolve [OF that _ assms(3)] assms(2) ready_run(1) [OF that] by blast
qed

section \<open>Dispatching\<close>

text \<open>How a dispatch leaves the claim: the run ended, or the attempt is settled at the same step.\<close>

definition settled :: "claim \<Rightarrow> trace_event list \<Rightarrow> claim \<Rightarrow> claim \<Rightarrow> 's world \<Rightarrow> bool" where
  "settled d0 t0 c c' w \<longleftrightarrow>
     synced d0 t0 c' w \<and>
     (terminal (rr_status (cl_run c')) \<or>
      rr_status (cl_run c') = rr_status (cl_run c) \<and> rr_next_step (cl_run c') = rr_next_step (cl_run c) \<and>
      rr_active_attempt (cl_run c') = None)"

lemma fail_active_attempt_spec:
  assumes "active < length (rr_attempts (cl_run c))"
    "rr_next_step (cl_run c) < length (rr_steps (cl_run c))" "\<not> terminal (rr_status (cl_run c))"
  shows "ensures d0 t0 (prepared d0 t0 c) (fail_active_attempt rt c active failure) (settled d0 t0 c)"
  unfolding fail_active_attempt_def
  apply (rule spec_clock, simp)
  apply (rule spec_lift_Ok, rule with_attempt_Ok [OF assms(1)])
  apply (rule spec_change [OF spec_post [OF fail_step_spec]])
  using assms by (auto simp: evolve_defs settled_def)

lemma deadline_elapsed_spec:
  assumes "tickless P" shows "ensures d0 t0 P (deadline_elapsed rt r) (\<lambda>_. P)"
  using assms unfolding deadline_elapsed_def
  by (auto split: option.splits intro!: spec_return spec_clock)

lemma record_output_invalid_spec:
  assumes "active < length (rr_attempts (cl_run c))"
    "rr_next_step (cl_run c) < length (rr_steps (cl_run c))" "\<not> terminal (rr_status (cl_run c))"
  shows "ensures d0 t0 (prepared d0 t0 c) (record_output_invalid rt c active receipt message) (settled d0 t0 c)"
  unfolding record_output_invalid_def Let_def
  apply (rule spec_clock, simp)
  apply (rule spec_lift_Ok, rule with_attempt_Ok [OF assms(1)])
  apply (rule spec_change [OF spec_post [OF fail_step_spec]])
  using assms by (auto simp: evolve_defs settled_def)

lemma validate_returns: "host_returns rt \<Longrightarrow> validate_action_value (rt_host rt) artifact field v \<noteq> Panic"
  by (auto simp: validate_action_value_def host_returns_def split: option.splits res.splits list.splits)

lemma pinned_returns: "pinned_action h planned \<noteq> Panic"
  by (simp add: pinned_action_def Let_def)

lemma record_success_spec:
  assumes "active < length (rr_attempts (cl_run c))"
    "rr_next_step (cl_run c) < length (rr_steps (cl_run c))" "\<not> terminal (rr_status (cl_run c))"
  shows "ensures d0 t0 (prepared d0 t0 c) (record_success rt c active pinned output receipt) (settled d0 t0 c)"
proof (rule spec_host)
  assume host: "host_returns rt"
  show ?thesis
  proof (cases "validate_action_value (rt_host rt) pinned ''output_schema'' output")
    case (Ok u)
    show ?thesis
      unfolding record_success_def Ok res.case
      apply (rule spec_clock, simp)
      apply (rule spec_lift_Ok, rule with_attempt_Ok [OF assms(1)])
      apply (rule spec_bind, rule deadline_elapsed_spec, simp)
      apply (rule spec_commit_value)
      using assms by (auto simp: settled_def evolve_defs intro!: evolve_close)
  qed (use record_output_invalid_spec [OF assms] validate_returns [OF host] in \<open>simp_all add: record_success_def\<close>)
qed

lemma record_not_applied_spec:
  assumes "active < length (rr_attempts (cl_run c))"
    "rr_next_step (cl_run c) < length (rr_steps (cl_run c))" "\<not> terminal (rr_status (cl_run c))"
  shows "ensures d0 t0 (prepared d0 t0 c) (record_not_applied rt c active f) (settled d0 t0 c)"
  unfolding record_not_applied_def Let_def
  apply (rule spec_clock, simp)
  apply (rule spec_lift_Ok, rule with_attempt_Ok [OF assms(1)])
  apply (rule spec_bind, rule deadline_elapsed_spec, simp)
  subgoal for now late
    apply (cases late; simp only: if_True if_False)
     apply (rule spec_change [OF spec_post [OF timeout_run_spec]])
    using assms apply (auto simp: evolve_defs settled_def)[3]
    apply (rule spec_change [OF spec_post [OF fail_step_spec]])
    using assms by (auto simp: evolve_defs settled_def)
  done

lemma record_unknown_spec:
  assumes "active < length (rr_attempts (cl_run c))"
    "rr_next_step (cl_run c) < length (rr_steps (cl_run c))"
  shows "ensures d0 t0 (prepared d0 t0 c) (record_unknown rt c active f) (settled d0 t0 c)"
  unfolding record_unknown_def
  by (rule spec_clock, simp, rule spec_commit_value) (use assms in \<open>auto simp: settled_def intro!: evolve_close\<close>)

lemma normalize_returns: "normalize_outcome h i out \<noteq> Panic"
  by (simp add: normalize_outcome_def Let_def split: option.splits)

lemma record_outcome_spec:
  assumes "active < length (rr_attempts (cl_run c))"
    "rr_next_step (cl_run c) < length (rr_steps (cl_run c))" "\<not> terminal (rr_status (cl_run c))"
    and "result \<noteq> Panic"
  shows "ensures d0 t0 (prepared d0 t0 c) (record_outcome rt c active attempt pinned result) (settled d0 t0 c)"
proof (cases result)
  case (Ok x)
  then show ?thesis using record_success_spec [OF assms(1-3)] by (cases x) (simp add: record_outcome_def)
next
  case (Err f)
  have "ensures d0 t0 (prepared d0 t0 c) (act_lift (Err e)) (settled d0 t0 c)" for e
    by (auto simp: spec_def ready_def)
  then show ?thesis
    using record_not_applied_spec [OF assms(1-3)] record_unknown_spec [OF assms(1,2)]
    by (simp add: record_outcome_def Err)
qed (use assms(4) in simp)

lemma dispatch_value_spec:
  assumes "tickless P"
  shows "ensures d0 t0 P (dispatch_value rt c planned item iid n input)
    (\<lambda>d w. P w \<and> ai_invocation_id (ad_invocation d) = iid \<and> ai_input (ad_invocation d) = input)"
  unfolding dispatch_value_def Let_def by (rule spec_clock [OF assms], rule spec_return) simp

lemma authorize_spec:
  assumes "tickless P"
    and "\<And>tick. rt_authorizer rt tick d = AuthAllow \<Longrightarrow> ensures d0 t0 P (f ()) Q"
    and "\<And>e. ensures d0 t0 P (g e) Q"
  shows "ensures d0 t0 P (act_match (authorize rt d) f g) Q"
  unfolding spec_def
proof (intro allI impI)
  fix w w' r
  assume h: "host_returns rt" and P: "P w" and run: "act_match (authorize rt d) f g w = (w', r)"
  have P1: "P (w\<lparr>w_tick := Suc (w_tick w)\<rparr>)" using assms(1) P by (simp add: tickless_def)
  show "case r of Ok x \<Rightarrow> Q x w' | Err _ \<Rightarrow> (\<exists>c. synced d0 t0 c w') | Panic \<Rightarrow> False"
  proof (cases "rt_authorizer rt (w_tick w) d")
    case AuthAllow
    with run have "f () (w\<lparr>w_tick := Suc (w_tick w)\<rparr>) = (w', r)" by (simp add: act_match_def authorize_def)
    from specD [OF assms(2) [OF AuthAllow] h P1 this] show ?thesis .
  next
    case (AuthDeny code m)
    with run have "g (Diagnostic code m) (w\<lparr>w_tick := Suc (w_tick w)\<rparr>) = (w', r)"
      by (simp add: act_match_def authorize_def)
    from specD [OF assms(3) h P1 this] show ?thesis .
  qed
qed

text \<open>A provider is called only under the discipline; the call leaves the durable claim alone.\<close>

lemma sync_dispatched:
  assumes "synced d0 t0 c w" "write_ahead c i" "authorized rt i"
  shows "synced d0 t0 c (w\<lparr>w_tick := n, w_trace := w_trace w @ [Dispatched i]\<rparr>)"
proof -
  from assms(1) obtain t where "w_trace w = t0 @ t" "trace_ok rt d0 t" "durable d0 t = c"
    "sane c (w_store w)" "run_wf (cl_run d0)" by (auto simp: sync_def)
  then show ?thesis using assms(2,3)
    unfolding sync_def by (intro conjI exI [of _ "t @ [Dispatched i]"]) (simp_all add: event_ok_def)
qed

lemma call_provider_spec:
  assumes "write_ahead c i" "authorized rt i" "bt_get (rt_providers rt) b = Some p"
  shows "ensures d0 t0 (synced d0 t0 c) (call_provider rt p deadline i)
    (\<lambda>reply w. synced d0 t0 c w \<and> reply \<noteq> Panic)"
proof (rule spec_host)
  assume host: "host_returns rt"
  have p: "pv_dispatch p n i \<noteq> Panic" for n using host assms(3) unfolding host_returns_def by blast
  show ?thesis
    unfolding call_provider_def Let_def
    by (cases deadline)
       (auto simp: spec_def act_bind_def sync_dispatched assms p split: option.splits if_splits res.splits)
qed

lemma call_and_record_spec:
  assumes "write_ahead c i" "authorized rt i" "registry_get (rt_providers rt) dg h = Some p"
    and "active < length (rr_attempts (cl_run c))"
    "rr_next_step (cl_run c) < length (rr_steps (cl_run c))" "\<not> terminal (rr_status (cl_run c))"
  shows "ensures d0 t0 (synced d0 t0 c)
      (act_bind (call_provider rt p (pr_timeout_at (rr_plan (cl_run c))) i)
         (\<lambda>reply. record_outcome rt c active attempt pinned (bind_res reply (normalize_outcome (rt_host rt) i))))
      (settled d0 t0 c)"
proof (rule spec_bind [OF call_provider_spec [OF assms(1,2)]])
  show "bt_get (rt_providers rt) (dg, h) = Some p" using assms(3) by (simp add: registry_get_def)
  fix reply
  show "ensures d0 t0 (\<lambda>w. synced d0 t0 c w \<and> reply \<noteq> Panic)
     (record_outcome rt c active attempt pinned (bind_res reply (normalize_outcome (rt_host rt) i))) (settled d0 t0 c)"
    unfolding spec_side
  proof
    assume "reply \<noteq> Panic"
    then have ok: "bind_res reply (normalize_outcome (rt_host rt) i) \<noteq> Panic"
      by (simp add: bind_res_eq_Panic normalize_returns)
    show "ensures d0 t0 (synced d0 t0 c)
      (record_outcome rt c active attempt pinned (bind_res reply (normalize_outcome (rt_host rt) i))) (settled d0 t0 c)"
      by (rule spec_pre [OF record_outcome_spec [OF assms(4-6) ok] sync_ready])
  qed
qed

lemma send_dispatch_spec:
  assumes "rr_active_attempt (cl_run c) = Some active"
    "aa_status (rr_attempts (cl_run c) ! active) = AttemptDispatching"
    "active < length (rr_attempts (cl_run c))"
    "rr_next_step (cl_run c) < length (rr_steps (cl_run c))" "\<not> terminal (rr_status (cl_run c))"
    and "ai_invocation_id (ad_invocation d) = aa_invocation_id (rr_attempts (cl_run c) ! active)"
    "ai_input (ad_invocation d) = aa_input (rr_attempts (cl_run c) ! active)"
  shows "ensures d0 t0 (synced d0 t0 c) (send_dispatch rt c active attempt planned pinned d) (settled d0 t0 c)"
proof -
  have fail: "ensures d0 t0 (synced d0 t0 c) (fail_active_attempt rt c active e) (settled d0 t0 c)" for e
    by (rule spec_pre [OF fail_active_attempt_spec [OF assms(3-5)] sync_ready])
  have wa: "write_ahead c (ad_invocation d)" using assms by (simp add: write_ahead_def)
  show ?thesis
    unfolding send_dispatch_def
  proof (rule authorize_spec [OF tickless_sync(1)])
    fix tick assume "rt_authorizer rt tick d = AuthAllow"
    then have "authorized rt (ad_invocation d)" by (auto simp: authorized_def)
    from call_and_record_spec [OF wa this _ assms(3-5)] fail
    show "ensures d0 t0 (synced d0 t0 c)
      (case registry_get (rt_providers rt) (ps_provider_declaration_digest planned) (ps_handler_id planned) of
         None \<Rightarrow> fail_active_attempt rt c active (no_handler_failure planned)
       | Some provider \<Rightarrow>
           act_bind (call_provider rt provider (pr_timeout_at (rr_plan (cl_run c))) (ad_invocation d))
             (\<lambda>reply. record_outcome rt c active attempt pinned
                (bind_res reply (normalize_outcome (rt_host rt) (ad_invocation d))))) (settled d0 t0 c)"
      by (auto split: option.split)
  qed (rule fail)
qed

lemma dispatch_active_attempt_spec:
  assumes "rr_active_attempt (cl_run c) = Some active"
    "aa_status (rr_attempts (cl_run c) ! active) = AttemptDispatching"
    "active < length (rr_attempts (cl_run c))"
    "rr_next_step (cl_run c) < length (rr_steps (cl_run c))" "\<not> terminal (rr_status (cl_run c))"
  shows "ensures d0 t0 (synced d0 t0 c) (dispatch_active_attempt rt c active) (settled d0 t0 c)"
proof (rule spec_assume)
  assume "run_wf (cl_run c)"
  then have n: "rr_next_step (cl_run c) < length (pr_steps (rr_plan (cl_run c)))"
    using assms(4) by (simp add: run_wf_steps)
  let ?pl = "pr_steps (rr_plan (cl_run c)) ! rr_next_step (cl_run c)"
  show ?thesis
  proof (cases "pinned_action (rt_host rt) ?pl")
    case (Ok pinned)
    have send: "ensures d0 t0 (\<lambda>w. synced d0 t0 c w \<and>
          ai_invocation_id (ad_invocation d) = aa_invocation_id (rr_attempts (cl_run c) ! active) \<and>
          ai_input (ad_invocation d) = aa_input (rr_attempts (cl_run c) ! active))
        (send_dispatch rt c active (rr_attempts (cl_run c) ! active) ?pl pinned d) (settled d0 t0 c)" for d
      unfolding spec_side using send_dispatch_spec [OF assms] by blast
    show ?thesis
      using spec_bind [OF dispatch_value_spec [OF tickless_sync(1)] send] assms(3) n
      by (simp add: dispatch_active_attempt_def get_at_def Ok act_bind_def [of "act_lift _"] spec_def)
  next
    case (Err e)
    from spec_pre [OF fail_active_attempt_spec [OF assms(3-5)] sync_ready] assms(3) n show ?thesis
      by (simp add: dispatch_active_attempt_def get_at_def Err act_bind_def [of "act_lift _"] spec_def)
  qed (use pinned_returns in simp)
qed (rule sync_run)

section \<open>The phases before the step loop\<close>

text \<open>The run is over and the outcome reports its durable status.\<close>

definition reported :: "claim \<Rightarrow> trace_event list \<Rightarrow> worker_outcome \<Rightarrow> 's world \<Rightarrow> bool" where
  "reported d0 t0 out w \<longleftrightarrow>
     (\<exists>c'. synced d0 t0 c' w \<and> terminal (rr_status (cl_run c')) \<and> out = completed c' (rr_status (cl_run c')))"

lemma reportedI:
  "synced d0 t0 c' w \<Longrightarrow> rr_status (cl_run c') = st \<Longrightarrow> terminal st \<Longrightarrow> reported d0 t0 (completed c' st) w"
  by (auto simp: reported_def)

definition going :: "claim \<Rightarrow> trace_event list \<Rightarrow> claim \<Rightarrow> 's world \<Rightarrow> bool" where
  "going d0 t0 c w \<longleftrightarrow> synced d0 t0 c w \<and> \<not> terminal (rr_status (cl_run c))"

lemma tickless_going [simp]: "tickless (going d0 t0 c)"
  by (simp add: tickless_def going_def)

lemma going_ready: "going d0 t0 c w \<Longrightarrow> prepared d0 t0 c w"
  by (simp add: going_def sync_ready)

lemma going_wf: "going d0 t0 c w \<Longrightarrow> run_wf (cl_run c)"
  by (auto simp: going_def dest: sync_run(2))

definition flow_ok :: "claim \<Rightarrow> trace_event list \<Rightarrow> (claim \<Rightarrow> bool) \<Rightarrow> flow \<Rightarrow> 's world \<Rightarrow> bool" where
  "flow_ok d0 t0 B x w = (case x of Return out \<Rightarrow> reported d0 t0 out w | Proceed c \<Rightarrow> going d0 t0 c w \<and> B c)"

lemma cancellation_outcome_spec:
  "ensures d0 t0 (going d0 t0 c) (cancellation_outcome_of rt r) (\<lambda>_. going d0 t0 c)"
proof -
  have sent: "going d0 t0 c (w\<lparr>w_tick := n, w_trace := w_trace w @ [CancelSent q]\<rparr>)"
    if g: "going d0 t0 c w" for w n q
  proof -
    from g obtain t where "w_trace w = t0 @ t" "trace_ok rt d0 t" "durable d0 t = c"
      "sane c (w_store w)" "run_wf (cl_run d0)" "\<not> terminal (rr_status (cl_run c))"
      by (auto simp: going_def sync_def)
    then show ?thesis
      unfolding going_def sync_def by (intro conjI exI [of _ "t @ [CancelSent q]"]) (simp_all add: event_ok_def)
  qed
  have call: "ensures d0 t0 (going d0 t0 c) (call_cancel rt p q) (\<lambda>_. going d0 t0 c)"
    if "registry_get (rt_providers rt) dg h = Some p" for p dg h q
  proof (rule spec_host)
    assume host: "host_returns rt"
    have "pv_cancel p n q \<noteq> Panic" for n
      using host that unfolding host_returns_def registry_get_def by blast
    then show ?thesis
      by (auto simp: spec_def call_cancel_def Let_def sent split: if_splits res.splits)
  qed
  show ?thesis
    unfolding cancellation_outcome_of_def Let_def
    by (auto split: option.split intro!: spec_return spec_clock call spec_bind [OF call])
qed

lemma resume_cancelled_spec:
  "ensures d0 t0 (going d0 t0 c) (resume_cancelled rt c) (flow_ok d0 t0 (\<lambda>c'. c' = c))"
proof (rule spec_assume, erule going_wf)
  assume wf: "run_wf (cl_run c)"
  have go: "ensures d0 t0 (going d0 t0 c) (act_return (Proceed c)) (flow_ok d0 t0 (\<lambda>c'. c' = c))"
    by (rule spec_return) (simp add: flow_ok_def)
  have fin: "ensures d0 t0 (going d0 t0 c)
      (act_bind (finish_cancelled rt c) (\<lambda>c1. act_return (Return (completed c1 RunCancelled))))
      (flow_ok d0 t0 (\<lambda>c'. c' = c))"
    by (rule spec_bind [OF spec_pre [OF finish_cancelled_spec going_ready]], assumption, rule spec_return)
       (auto simp: flow_ok_def intro!: reportedI)
  have ind: "ensures d0 t0 (going d0 t0 c)
      (act_bind (cancellation_outcome_of rt (cl_run c)) (\<lambda>_.
       act_bind (indeterminate_active_attempt rt c active code m) (\<lambda>c1.
       act_return (Return (completed c1 RunIndeterminate))))) (flow_ok d0 t0 (\<lambda>c'. c' = c))"
    if a: "rr_active_attempt (cl_run c) = Some active" for active code m
  proof (rule spec_assume)
    show "\<not> terminal (rr_status (cl_run c))" if "going d0 t0 c w" for w using that by (simp add: going_def)
    assume nt: "\<not> terminal (rr_status (cl_run c))"
    with wf a have "active < length (rr_attempts (cl_run c))"
      "rr_next_step (cl_run c) < length (rr_steps (cl_run c))" by (auto simp: run_wf_def)
    note ind = indeterminate_active_attempt_spec [OF this]
    show ?thesis
      by (rule spec_bind [OF cancellation_outcome_spec], rule spec_bind [OF spec_pre [OF ind going_ready]],
          assumption, rule spec_return) (auto simp: flow_ok_def intro!: reportedI)
  qed
  show ?thesis
    unfolding resume_cancelled_def
    using go fin ind run_wf_active [OF wf]
    by (auto split: option.split)
qed

lemma check_deadline_spec:
  "ensures d0 t0 (going d0 t0 c) (check_deadline rt c) (flow_ok d0 t0 (\<lambda>c'. c' = c))"
  unfolding check_deadline_def
proof (rule spec_bind [OF deadline_elapsed_spec [OF tickless_going]])
  fix late
  have "ensures d0 t0 (going d0 t0 c)
      (act_bind (timeout_run rt c) (\<lambda>c1. act_return (Return (completed c1 (rr_status (cl_run c1))))))
      (flow_ok d0 t0 (\<lambda>c'. c' = c))"
    by (rule spec_bind [OF spec_pre [OF timeout_run_spec going_ready]], assumption, rule spec_return)
       (auto simp: flow_ok_def intro!: reportedI)
  then show "ensures d0 t0 (going d0 t0 c)
      (if late then act_bind (timeout_run rt c) (\<lambda>c1. act_return (Return (completed c1 (rr_status (cl_run c1)))))
       else act_return (Proceed c)) (flow_ok d0 t0 (\<lambda>c'. c' = c))"
    by (auto intro!: spec_return simp: flow_ok_def)
qed

lemma check_idle_deadline_spec:
  "ensures d0 t0 (going d0 t0 c) (check_idle_deadline rt c) (flow_ok d0 t0 (\<lambda>c'. c' = c))"
  using check_deadline_spec
  by (auto simp: check_idle_deadline_def flow_ok_def intro!: spec_return)

lemma idle: "going d0 t0 c w \<Longrightarrow> rr_active_attempt (cl_run c) = Some i \<Longrightarrow>
    i < length (rr_attempts (cl_run c)) \<and> rr_next_step (cl_run c) < length (rr_steps (cl_run c)) \<and>
    aa_status (rr_attempts (cl_run c) ! i) = AttemptDispatching"
  using going_wf [of d0 t0 c w] by (auto simp: going_def run_wf_def)

lemma synced_steps: "synced d0 t0 c w \<Longrightarrow> length (rr_steps (cl_run c)) = length (pr_steps (rr_plan (cl_run d0)))"
  using sync_run(2,3) [of rt sane d0 t0 c w] by (simp add: run_wf_def)

lemma after_resumed_dispatch_spec:
  assumes "rr_next_step (cl_run c) < length (pr_steps (rr_plan (cl_run d0)))" "\<not> terminal (rr_status (cl_run c))"
  shows "ensures d0 t0 (settled d0 t0 c c1) (after_resumed_dispatch rt c1)
    (flow_ok d0 t0 (\<lambda>c'. rr_active_attempt (cl_run c') = None))"
proof (cases "terminal (rr_status (cl_run c1))")
  case True
  then show ?thesis
    unfolding after_resumed_dispatch_def
    by (auto simp: settled_def flow_ok_def intro!: spec_return reportedI)
next
  case False
  show ?thesis
  proof (rule spec_assume)
    show "rr_next_step (cl_run c1) < length (rr_steps (cl_run c1)) \<and> rr_active_attempt (cl_run c1) = None"
      if "settled d0 t0 c c1 w" for w
      using that False assms synced_steps [of d0 t0 c1 w] by (auto simp: settled_def)
    assume c1: "rr_next_step (cl_run c1) < length (rr_steps (cl_run c1)) \<and> rr_active_attempt (cl_run c1) = None"
    have adv: "ensures d0 t0 (settled d0 t0 c c1)
      (act_bind (advance_failed_step rt c1) (\<lambda>c2. if terminal (rr_status (cl_run c2))
          then act_return (Return (completed c2 (rr_status (cl_run c2)))) else act_return (Proceed c2)))
      (flow_ok d0 t0 (\<lambda>c'. rr_active_attempt (cl_run c') = None))"
      apply (rule spec_bind [OF spec_pre [OF advance_failed_step_spec]])
      using c1 False by (auto simp: settled_def flow_ok_def going_def sync_ready split: if_splits
          intro!: spec_return reportedI)
    then show ?thesis
      unfolding after_resumed_dispatch_def
      using False c1 by (auto simp: settled_def flow_ok_def going_def intro!: spec_return)
  qed
qed

lemma resume_dispatch_spec:
  "ensures d0 t0 (going d0 t0 c) (resume_dispatch rt c)
     (flow_ok d0 t0 (\<lambda>c'. rr_active_attempt (cl_run c') = None))"
proof (cases "rr_active_attempt (cl_run c)")
  case None
  then show ?thesis by (auto simp: resume_dispatch_def flow_ok_def intro!: spec_return)
next
  case (Some active)
  show ?thesis
  proof (rule spec_assume)
    show "active < length (rr_attempts (cl_run c)) \<and> rr_next_step (cl_run c) < length (rr_steps (cl_run c)) \<and>
      aa_status (rr_attempts (cl_run c) ! active) = AttemptDispatching \<and> \<not> terminal (rr_status (cl_run c)) \<and>
      rr_next_step (cl_run c) < length (pr_steps (rr_plan (cl_run d0)))"
      if "going d0 t0 c w" for w
      using idle [OF that Some] that synced_steps [of d0 t0 c w] by (auto simp: going_def)
    assume a: "active < length (rr_attempts (cl_run c)) \<and> rr_next_step (cl_run c) < length (rr_steps (cl_run c)) \<and>
      aa_status (rr_attempts (cl_run c) ! active) = AttemptDispatching \<and> \<not> terminal (rr_status (cl_run c)) \<and>
      rr_next_step (cl_run c) < length (pr_steps (rr_plan (cl_run d0)))"
    have ind: "ensures d0 t0 (going d0 t0 c)
       (act_bind (indeterminate_active_attempt rt c active code m) (\<lambda>c1.
          act_return (Return (completed c1 RunIndeterminate))))
       (flow_ok d0 t0 (\<lambda>c'. rr_active_attempt (cl_run c') = None))" for code m
      by (rule spec_bind [OF spec_pre [OF indeterminate_active_attempt_spec going_ready]], use a in simp,
          use a in simp, assumption, rule spec_return) (auto simp: flow_ok_def intro!: reportedI)
    have disp: "ensures d0 t0 (going d0 t0 c)
       (act_bind (dispatch_active_attempt rt c active) (after_resumed_dispatch rt))
       (flow_ok d0 t0 (\<lambda>c'. rr_active_attempt (cl_run c') = None))"
      apply (rule spec_bind [OF spec_pre [OF dispatch_active_attempt_spec [OF Some]]])
      using a by (auto simp: going_def intro!: after_resumed_dispatch_spec)
    show ?thesis unfolding resume_dispatch_def using a ind disp by (simp add: Some)
  qed
qed

lemma spec_flow_bind:
  assumes "ensures d0 t0 P m (flow_ok d0 t0 B)"
    and "\<And>c. B c \<Longrightarrow> ensures d0 t0 (going d0 t0 c) (f c) (flow_ok d0 t0 B')"
  shows "ensures d0 t0 P (flow_bind m f) (flow_ok d0 t0 B')"
  unfolding flow_bind_def
proof (rule spec_bind [OF assms(1)])
  fix x
  show "ensures d0 t0 (flow_ok d0 t0 B x)
      (case x of Return out \<Rightarrow> act_return (Return out) | Proceed c \<Rightarrow> f c) (flow_ok d0 t0 B')"
  proof (cases x)
    case (Return out)
    then show ?thesis by (auto simp: flow_ok_def intro!: spec_return)
  next
    case (Proceed c)
    have "flow_ok d0 t0 B (Proceed c) = (\<lambda>w. going d0 t0 c w \<and> B c)"
      by (simp add: fun_eq_iff flow_ok_def)
    with Proceed assms(2) show ?thesis by (simp add: spec_side)
  qed
qed

lemma prepare_claim_spec:
  "ensures d0 t0 (going d0 t0 c) (prepare_claim rt c)
     (flow_ok d0 t0 (\<lambda>c'. rr_active_attempt (cl_run c') = None))"
  unfolding prepare_claim_def
  by (intro spec_flow_bind [OF resume_cancelled_spec] spec_flow_bind [OF check_idle_deadline_spec]
      spec_flow_bind [OF resume_dispatch_spec])
     (rule spec_post [OF check_deadline_spec], auto simp: flow_ok_def split: flow.splits)

section \<open>Items\<close>

lemma cel: "host_returns rt \<Longrightarrow> cel_returns (h_cel (rt_host rt))"
  by (simp add: host_returns_def)

lemma bindings_object: "\<exists>m. bindings r = JObj m"
  by (simp add: bindings_def jobj_def)

lemma item_bindings_Ok: "\<exists>v. item_bindings c planned item = Ok v"
  using bindings_object [of "cl_run c"] by (auto simp: item_bindings_def split: option.splits)

lemma commit_claim_value: "commit_claim rt (c\<lparr>cl_run := r\<rparr>) = commit_run_value rt c (Ok r)"
  by (simp add: commit_run_value_def)

text \<open>Between two items of the step \<open>k\<close>.\<close>

definition at_step :: "claim \<Rightarrow> trace_event list \<Rightarrow> nat \<Rightarrow> claim \<Rightarrow> 's world \<Rightarrow> bool" where
  "at_step d0 t0 k c w \<longleftrightarrow>
     going d0 t0 c w \<and> rr_next_step (cl_run c) = k \<and> rr_active_attempt (cl_run c) = None \<and>
     k < length (pr_steps (rr_plan (cl_run d0)))"

lemma tickless_at_step [simp]: "tickless (at_step d0 t0 k c)"
  by (simp add: tickless_def at_step_def going_def)

lemma at_step_facts:
  assumes "at_step d0 t0 k c w"
  shows "prepared d0 t0 c w" "rr_next_step (cl_run c) < length (rr_steps (cl_run c))"
    "\<not> terminal (rr_status (cl_run c))" "rr_next_step (cl_run c) = k" "rr_active_attempt (cl_run c) = None"
    "k < length (pr_steps (rr_plan (cl_run d0)))" "synced d0 t0 c w" "k < length (rr_steps (cl_run c))"
  using assms synced_steps [of d0 t0 c w] by (auto simp: at_step_def going_def sync_ready)

text \<open>After an item: the run is over, or the next item can follow.\<close>

definition item_ok :: "claim \<Rightarrow> trace_event list \<Rightarrow> nat \<Rightarrow> claim \<times> bool \<Rightarrow> 's world \<Rightarrow> bool" where
  "item_ok d0 t0 k x w \<longleftrightarrow>
     synced d0 t0 (fst x) w \<and>
     (if terminal (rr_status (cl_run (fst x))) then snd x else at_step d0 t0 k (fst x) w)"

lemma begin_attempt_spec:
  assumes "aa_status a = AttemptDispatching"
  shows "ensures d0 t0 (at_step d0 t0 k c) (begin_attempt rt c a)
    (\<lambda>c' w. synced d0 t0 c' w \<and> rr_attempts (cl_run c') = rr_attempts (cl_run c) @ [a] \<and>
       rr_active_attempt (cl_run c') = Some (length (rr_attempts (cl_run c))) \<and>
       rr_status (cl_run c') = rr_status (cl_run c) \<and> rr_next_step (cl_run c') = k)"
proof (rule spec_assume)
  let ?B = "k < length (pr_steps (rr_plan (cl_run d0))) \<and> rr_next_step (cl_run c) = k \<and> \<not> terminal (rr_status (cl_run c))"
  show ?B if "at_step d0 t0 k c w" for w using at_step_facts [OF that] by simp
  assume B: ?B
  show ?thesis
    unfolding begin_attempt_def commit_claim_value
    by (rule spec_clock, simp, rule spec_commit_value)
       (use B assms in \<open>auto simp: evolve_defs nth_append dest: at_step_facts(1)\<close>)
qed

lemma fail_item_spec:
  "ensures d0 t0 (at_step d0 t0 k c)
     (act_bind (fail_step rt c failure) (\<lambda>c1. act_return (c1, True))) (item_ok d0 t0 k)"
proof (rule spec_assume)
  let ?B = "rr_next_step (cl_run c) < length (rr_steps (cl_run c)) \<and> \<not> terminal (rr_status (cl_run c)) \<and>
    rr_next_step (cl_run c) = k \<and> k < length (pr_steps (rr_plan (cl_run d0)))"
  show ?B if "at_step d0 t0 k c w" for w using at_step_facts [OF that] by simp
  assume B: ?B
  show ?thesis
    by (rule spec_bind [OF spec_pre [OF fail_step_spec]], use B in simp, use B in simp,
        erule at_step_facts(1), rule spec_return)
       (use B in \<open>auto simp: item_ok_def at_step_def going_def\<close>)
qed

lemma dispatched_item_spec:
  assumes "\<not> terminal (rr_status (cl_run c))" "k < length (pr_steps (rr_plan (cl_run d0)))"
  shows "ensures d0 t0
    (\<lambda>w. synced d0 t0 c1 w \<and> rr_attempts (cl_run c1) = rr_attempts (cl_run c) @ [a] \<and>
       rr_active_attempt (cl_run c1) = Some (length (rr_attempts (cl_run c))) \<and>
       rr_status (cl_run c1) = rr_status (cl_run c) \<and> rr_next_step (cl_run c1) = k \<and>
       aa_status a = AttemptDispatching)
    (act_bind (dispatch_active_attempt rt c1 (length (rr_attempts (cl_run c)))) (\<lambda>c2.
       if terminal (rr_status (cl_run c2)) then act_return (c2, True)
       else act_bind (act_lift (index_at (rr_steps (cl_run c2)) k)) (\<lambda>s. act_return (c2, sr_status s = StepFailed))))
    (item_ok d0 t0 k)"
  unfolding spec_side
proof (rule impI, rule spec_assume)
  assume B: "rr_attempts (cl_run c1) = rr_attempts (cl_run c) @ [a] \<and>
       rr_active_attempt (cl_run c1) = Some (length (rr_attempts (cl_run c))) \<and>
       rr_status (cl_run c1) = rr_status (cl_run c) \<and> rr_next_step (cl_run c1) = k \<and>
       aa_status a = AttemptDispatching"
  show "k < length (rr_steps (cl_run c1))" if "synced d0 t0 c1 w" for w
    using synced_steps [OF that] assms(2) by simp
  assume k: "k < length (rr_steps (cl_run c1))"
  have after: "ensures d0 t0 (settled d0 t0 c1 c2)
     (if terminal (rr_status (cl_run c2)) then act_return (c2, True)
      else act_bind (act_lift (index_at (rr_steps (cl_run c2)) k)) (\<lambda>s. act_return (c2, sr_status s = StepFailed)))
     (item_ok d0 t0 k)" for c2
  proof (cases "terminal (rr_status (cl_run c2))")
    case True
    then show ?thesis by (auto simp: settled_def item_ok_def intro!: spec_return)
  next
    case False
    show ?thesis
    proof (rule spec_assume)
      show "k < length (rr_steps (cl_run c2))" if "settled d0 t0 c1 c2 w" for w
        using that synced_steps [of d0 t0 c2 w] assms(2) by (simp add: settled_def)
      assume "k < length (rr_steps (cl_run c2))"
      then have "index_at (rr_steps (cl_run c2)) k = Ok (rr_steps (cl_run c2) ! k)" by simp
      with False show ?thesis
        by (simp only: if_False, intro spec_lift_Ok spec_return)
           (use False B assms in \<open>auto simp: settled_def item_ok_def at_step_def going_def\<close>)
    qed
  qed
  show "ensures d0 t0 (synced d0 t0 c1)
    (act_bind (dispatch_active_attempt rt c1 (length (rr_attempts (cl_run c)))) (\<lambda>c2.
       if terminal (rr_status (cl_run c2)) then act_return (c2, True)
       else act_bind (act_lift (index_at (rr_steps (cl_run c2)) k)) (\<lambda>s. act_return (c2, sr_status s = StepFailed))))
    (item_ok d0 t0 k)"
    by (rule spec_bind [OF dispatch_active_attempt_spec after]) (use B k assms in auto)
qed

lemma dispatch_item_spec:
  "ensures d0 t0 (at_step d0 t0 k c) (dispatch_item rt k c planned item input) (item_ok d0 t0 k)"
proof (rule spec_assume)
  let ?B = "\<not> terminal (rr_status (cl_run c)) \<and> k < length (pr_steps (rr_plan (cl_run d0)))"
  show ?B if "at_step d0 t0 k c w" for w using at_step_facts [OF that] by simp
  assume B: ?B
  show ?thesis
    unfolding dispatch_item_def Let_def
    apply (rule spec_bind [OF dispatch_value_spec [OF tickless_at_step]])
    apply (rule spec_pre [of _ _ _ _ "at_step d0 t0 k c"])
     apply (rule authorize_spec [OF tickless_at_step])
      apply (rule spec_clock [OF tickless_at_step])
      apply (rule spec_bind [OF spec_post [OF begin_attempt_spec] dispatched_item_spec])
    using B fail_item_spec by (auto simp: new_attempt_def)
qed

end

end
