(* ===== verification/Engine_Run.thy ===== *)
theory Engine_Run
  imports Engine_Correct
begin

text \<open>
  The step loop of \<open>execute_claim\<close>: one item, the items of a step, one iteration, and the whole
  execution, which returns after at most one iteration per remaining step. The lemmas are about every
  store and host with the contract of \<open>engine\<close>.
\<close>

context engine
begin

section \<open>The items of a step\<close>

lemma run_item_spec:
  "ensures d0 t0 (at_step d0 t0 k c) (run_item rt k planned c i) (item_ok d0 t0 k)"
proof (rule spec_host)
  assume host: "host_returns rt"
  obtain binds where binds: "item_bindings c planned (snd i) = Ok binds" using item_bindings_Ok by blast
  let ?item = "map_option (\<lambda>_. fst i) (ps_for_each planned)"
  have "ensures d0 t0 (at_step d0 t0 k c)
      (case evaluate_runtime_template (h_cel (rt_host rt)) (ps_input planned) binds now
             (rc_timezone (rt_config rt)) of
         Ok input \<Rightarrow>
           (case pinned_action (rt_host rt) planned of
              Ok pinned \<Rightarrow>
                (case validate_action_value (rt_host rt) pinned ''input_schema'' input of
                   Ok _ \<Rightarrow> dispatch_item rt k c planned ?item input
                 | Err message \<Rightarrow> act_bind (fail_step rt c (runtime_failure_new ''action_input_invalid'' message))
                                   (\<lambda>c1. act_return (c1, True))
                 | Panic \<Rightarrow> act_lift Panic)
            | Err e \<Rightarrow> act_bind (fail_step rt c (runtime_failure_of e)) (\<lambda>c1. act_return (c1, True))
            | Panic \<Rightarrow> act_lift Panic)
       | Err es \<Rightarrow> act_bind (fail_step rt c (runtime_failure_of (expression_errors es)))
                    (\<lambda>c1. act_return (c1, True))
       | Panic \<Rightarrow> act_lift Panic) (item_ok d0 t0 k)" for now
    using fail_item_spec dispatch_item_spec evaluate_template_returns [OF cel [OF host]] pinned_returns validate_returns [OF host]
    by (auto split: res.split)
  then show ?thesis
    unfolding run_item_def Let_def by (intro spec_lift_Ok [OF binds] spec_clock tickless_at_step)
qed

text \<open>After the items of the step \<open>k\<close>.\<close>

definition items_done :: "claim \<Rightarrow> trace_event list \<Rightarrow> nat \<Rightarrow> claim \<Rightarrow> 's world \<Rightarrow> bool" where
  "items_done d0 t0 k c w \<longleftrightarrow>
     synced d0 t0 c w \<and> (\<not> terminal (rr_status (cl_run c)) \<longrightarrow> at_step d0 t0 k c w)"

lemma item_loop_spec:
  "ensures d0 t0 (at_step d0 t0 k c) (item_loop rt k planned items c) (items_done d0 t0 k)"
proof (induction items arbitrary: c)
  case Nil
  show ?case unfolding item_loop.simps by (rule spec_return) (simp add: items_done_def at_step_def going_def)
next
  case (Cons i items)
  have rest: "ensures d0 t0 (item_ok d0 t0 k x)
      (case x of (c1, stop) \<Rightarrow> if stop then act_return c1 else item_loop rt k planned items c1)
      (items_done d0 t0 k)" for x
  proof (cases x)
    case (Pair c1 stop)
    show ?thesis
    proof (cases stop)
      case True
      with Pair show ?thesis by (auto simp: item_ok_def items_done_def intro!: spec_return)
    next
      case False
      with Pair have "item_ok d0 t0 k x w \<Longrightarrow> at_step d0 t0 k c1 w" for w
        by (simp add: item_ok_def split: if_splits)
      from spec_pre [OF Cons.IH this] Pair False show ?thesis by simp
    qed
  qed
  show ?case unfolding item_loop.simps by (rule spec_bind [OF run_item_spec rest])
qed

section \<open>One step\<close>

definition step_ok :: "claim \<Rightarrow> trace_event list \<Rightarrow> nat \<Rightarrow> step_flow \<Rightarrow> 's world \<Rightarrow> bool" where
  "step_ok d0 t0 k x w =
     (case x of
        Next c \<Rightarrow> going d0 t0 c w \<and> rr_active_attempt (cl_run c) = None \<and> rr_next_step (cl_run c) = Suc k
      | Break c \<Rightarrow> synced d0 t0 c w \<and> terminal (rr_status (cl_run c))
      | Leave out \<Rightarrow> reported d0 t0 out w)"

lemma spec_at_step:
  assumes "rr_next_step (cl_run c) < length (rr_steps (cl_run c)) \<Longrightarrow> \<not> terminal (rr_status (cl_run c)) \<Longrightarrow>
     rr_next_step (cl_run c) = k \<Longrightarrow> rr_active_attempt (cl_run c) = None \<Longrightarrow>
     k < length (pr_steps (rr_plan (cl_run d0))) \<Longrightarrow>
     ensures d0 t0 (at_step d0 t0 k c) m Q"
  shows "ensures d0 t0 (at_step d0 t0 k c) m Q"
proof (rule spec_assume)
  let ?B = "rr_next_step (cl_run c) < length (rr_steps (cl_run c)) \<and> \<not> terminal (rr_status (cl_run c)) \<and>
     rr_next_step (cl_run c) = k \<and> rr_active_attempt (cl_run c) = None \<and>
     k < length (pr_steps (rr_plan (cl_run d0)))"
  show ?B if "at_step d0 t0 k c w" for w using at_step_facts [OF that] by simp
  assume B: ?B
  show "ensures d0 t0 (at_step d0 t0 k c) m Q" by (rule assms) (use B in simp_all)
qed

lemma advance_step_spec:
  "ensures d0 t0 (at_step d0 t0 k c)
     (act_bind (advance_failed_step rt c) (\<lambda>c1.
        act_return (if terminal (rr_status (cl_run c1)) then Break c1 else Next c1))) (step_ok d0 t0 k)"
proof (rule spec_at_step)
  assume B: "rr_next_step (cl_run c) < length (rr_steps (cl_run c))" "\<not> terminal (rr_status (cl_run c))"
    "rr_next_step (cl_run c) = k" "rr_active_attempt (cl_run c) = None"
  show ?thesis
    by (rule spec_bind [OF spec_pre [OF advance_failed_step_spec [OF B(1,2,4)] at_step_facts(1)]],
        assumption, rule spec_return)
       (use B in \<open>auto simp: step_ok_def going_def split: if_splits\<close>)
qed

lemma after_failure_spec:
  "ensures d0 t0 (at_step d0 t0 k c) (after_failure rt c failure) (step_ok d0 t0 k)"
proof (rule spec_at_step)
  assume B: "rr_next_step (cl_run c) < length (rr_steps (cl_run c))" "\<not> terminal (rr_status (cl_run c))"
    "rr_next_step (cl_run c) = k" "k < length (pr_steps (rr_plan (cl_run d0)))"
  have failed: "ensures d0 t0 (at_step d0 t0 k c) (fail_step rt c failure) (at_step d0 t0 k)"
    by (rule spec_post [OF spec_pre [OF fail_step_spec [OF B(1,2)] at_step_facts(1)]], assumption)
       (use B in \<open>auto simp: at_step_def going_def\<close>)
  show ?thesis
    unfolding after_failure_def advance_after_failure_def act_bind_assoc
    by (rule spec_bind [OF failed advance_step_spec])
qed

lemma skip_step_spec:
  "ensures d0 t0 (at_step d0 t0 k c) (act_bind (skip_step rt c) (\<lambda>c1. act_return (Next c1))) (step_ok d0 t0 k)"
proof (rule spec_at_step)
  assume B: "rr_next_step (cl_run c) < length (rr_steps (cl_run c))" "\<not> terminal (rr_status (cl_run c))"
    "rr_next_step (cl_run c) = k" "rr_active_attempt (cl_run c) = None"
  have "ensures d0 t0 (at_step d0 t0 k c) (skip_step rt c) (\<lambda>c1. step_ok d0 t0 k (Next c1))"
    unfolding skip_step_def
    by (rule spec_clock, simp, rule spec_commit_value, erule at_step_facts(1))
       (use B in \<open>auto simp: evolve_defs step_ok_def going_def\<close>)
  then show ?thesis by (rule spec_bind) (rule spec_return)
qed

lemma succeed_step_spec:
  "ensures d0 t0 (at_step d0 t0 k c) (act_bind (succeed_step rt c k) (\<lambda>c1. act_return (Next c1))) (step_ok d0 t0 k)"
proof (rule spec_at_step)
  assume B: "rr_next_step (cl_run c) < length (rr_steps (cl_run c))" "\<not> terminal (rr_status (cl_run c))"
    "rr_next_step (cl_run c) = k" "rr_active_attempt (cl_run c) = None"
  have "ensures d0 t0 (at_step d0 t0 k c) (succeed_step rt c k) (\<lambda>c1. step_ok d0 t0 k (Next c1))"
    unfolding succeed_step_def
    by (rule spec_clock, simp, rule spec_commit_value, erule at_step_facts(1))
       (use B in \<open>auto simp: evolve_defs step_ok_def going_def\<close>)
  then show ?thesis by (rule spec_bind) (rule spec_return)
qed

lemma start_step_spec:
  "ensures d0 t0 (at_step d0 t0 k c) (start_step rt c) (at_step d0 t0 k)"
proof (rule spec_at_step)
  assume B: "rr_next_step (cl_run c) < length (rr_steps (cl_run c))" "\<not> terminal (rr_status (cl_run c))"
    "rr_next_step (cl_run c) = k" "rr_active_attempt (cl_run c) = None"
    "k < length (pr_steps (rr_plan (cl_run d0)))"
  have commit: "ensures d0 t0 (at_step d0 t0 k c)
     (commit_run_value rt c (bind_res (with_step (rr_next_step (cl_run c))
             (\<lambda>s. s\<lparr>sr_status := StepRunning, sr_started_at := Some started\<rparr>) (cl_run c))
           (\<lambda>r. Ok (r\<lparr>rr_updated_at := now\<rparr>)))) (at_step d0 t0 k)" for started now
    by (rule spec_commit_value, erule at_step_facts(1))
       (use B in \<open>auto simp: evolve_defs at_step_def going_def\<close>)
  have started: "ensures d0 t0 (at_step d0 t0 k c)
     (case x of None \<Rightarrow> clock_now rt | Some t \<Rightarrow> act_return t) (\<lambda>_. at_step d0 t0 k c)" for x
    using tickless_at_step [of d0 t0 k c]
    by (auto simp: spec_def tickless_def split: option.splits)
  show ?thesis
    unfolding start_step_def
    by (rule spec_lift_Ok [OF index_at_inside [OF B(1)]], rule spec_bind [OF started],
        rule spec_clock, simp, rule commit)
qed

lemma run_step_spec:
  "ensures d0 t0 (at_step d0 t0 k c) (run_step rt c planned items) (step_ok d0 t0 k)"
proof (rule spec_at_step)
  assume k: "rr_next_step (cl_run c) = k"
  have over: "ensures d0 t0 (items_done d0 t0 k c2)
      (if terminal (rr_status (cl_run c2)) then act_return (Break c2)
       else act_bind (act_lift (index_at (rr_steps (cl_run c2)) k)) (\<lambda>s2.
          if sr_status s2 = StepFailed
          then act_bind (advance_failed_step rt c2) (\<lambda>c3.
                 act_return (if terminal (rr_status (cl_run c3)) then Break c3 else Next c3))
          else act_bind (succeed_step rt c2 k) (\<lambda>c3. act_return (Next c3)))) (step_ok d0 t0 k)" for c2
  proof (cases "terminal (rr_status (cl_run c2))")
    case True
    then show ?thesis by (auto simp: items_done_def step_ok_def intro!: spec_return)
  next
    case False
    have "ensures d0 t0 (at_step d0 t0 k c2)
       (act_bind (act_lift (index_at (rr_steps (cl_run c2)) k)) (\<lambda>s2.
          if sr_status s2 = StepFailed
          then act_bind (advance_failed_step rt c2) (\<lambda>c3.
                 act_return (if terminal (rr_status (cl_run c3)) then Break c3 else Next c3))
          else act_bind (succeed_step rt c2 k) (\<lambda>c3. act_return (Next c3)))) (step_ok d0 t0 k)"
      by (rule spec_at_step, rule spec_lift_Ok [OF index_at_inside])
         (use advance_step_spec succeed_step_spec in auto)
    from spec_pre [OF this, of "items_done d0 t0 k c2"] False show ?thesis by (simp add: items_done_def)
  qed
  have loop: "ensures d0 t0 (at_step d0 t0 k c1)
     (act_bind (act_lift (index_at (rr_steps (cl_run c1)) k)) (\<lambda>s.
      act_bind (item_loop rt k planned (drop (length (sr_outputs s)) (enumerate 0 items)) c1) (\<lambda>c2.
        if terminal (rr_status (cl_run c2)) then act_return (Break c2)
        else act_bind (act_lift (index_at (rr_steps (cl_run c2)) k)) (\<lambda>s2.
          if sr_status s2 = StepFailed
          then act_bind (advance_failed_step rt c2) (\<lambda>c3.
                 act_return (if terminal (rr_status (cl_run c3)) then Break c3 else Next c3))
          else act_bind (succeed_step rt c2 k) (\<lambda>c3. act_return (Next c3)))))) (step_ok d0 t0 k)" for c1
    by (rule spec_at_step, rule spec_lift_Ok [OF index_at_inside], simp, rule spec_bind [OF item_loop_spec over])
  show ?thesis unfolding run_step_def Let_def k by (rule spec_bind [OF start_step_spec loop])
qed

text \<open>The condition and the items of a step are evaluated; a failure is a value.\<close>

lemma step_condition_spec:
  "ensures d0 t0 (at_step d0 t0 k c) (step_condition rt c planned)
     (\<lambda>r w. at_step d0 t0 k c w \<and> r \<noteq> Panic)"
proof (rule spec_host)
  assume "host_returns rt"
  note returns = evaluate_expression_returns [OF cel [OF this]]
  show ?thesis
    unfolding step_condition_def
    by (cases "ps_condition planned")
       (use returns in \<open>auto split: res.split intro!: spec_return spec_clock\<close>)
qed

lemma step_items_spec:
  "ensures d0 t0 (at_step d0 t0 k c) (step_items rt c planned)
     (\<lambda>r w. at_step d0 t0 k c w \<and> r \<noteq> Panic)"
proof (rule spec_host)
  assume "host_returns rt"
  note returns = evaluate_template_returns [OF cel [OF this]]
  show ?thesis
    unfolding step_items_def
    by (cases "ps_for_each planned")
       (use returns in \<open>auto split: res.split option.split intro!: spec_return spec_clock\<close>)
qed

lemma execute_step_spec:
  "ensures d0 t0 (at_step d0 t0 k c) (execute_step rt c planned) (step_ok d0 t0 k)"
proof -
  have items: "ensures d0 t0 (\<lambda>w. at_step d0 t0 k c w \<and> expanded \<noteq> Panic)
     (case expanded of
         Ok items \<Rightarrow> if rc_max_items (rt_config rt) < length items
                     then after_failure rt c (item_limit_failure rt planned (length items))
                     else run_step rt c planned items
       | Err failure \<Rightarrow> after_failure rt c failure
       | Panic \<Rightarrow> act_lift Panic) (step_ok d0 t0 k)" for expanded
    unfolding spec_side using after_failure_spec run_step_spec by (auto split: res.split)
  have "ensures d0 t0 (\<lambda>w. at_step d0 t0 k c w \<and> condition \<noteq> Panic)
     (case condition of
         Ok False \<Rightarrow> act_bind (skip_step rt c) (\<lambda>c1. act_return (Next c1))
       | Ok True \<Rightarrow> act_bind (step_items rt c planned) (\<lambda>expanded.
           case expanded of
             Ok items \<Rightarrow> if rc_max_items (rt_config rt) < length items
                         then after_failure rt c (item_limit_failure rt planned (length items))
                         else run_step rt c planned items
           | Err failure \<Rightarrow> after_failure rt c failure
           | Panic \<Rightarrow> act_lift Panic)
       | Err failure \<Rightarrow> after_failure rt c failure
       | Panic \<Rightarrow> act_lift Panic) (step_ok d0 t0 k)" for condition
    unfolding spec_side using after_failure_spec skip_step_spec spec_bind [OF step_items_spec items]
    by (auto split: res.split bool.split)
  then show ?thesis unfolding execute_step_def by (rule spec_bind [OF step_condition_spec])
qed

lemma step_iteration_spec:
  "ensures d0 t0 (at_step d0 t0 k c) (step_iteration rt c) (step_ok d0 t0 k)"
  unfolding step_iteration_def
proof (rule spec_bind [OF deadline_elapsed_spec [OF tickless_at_step]])
  fix late
  have time: "ensures d0 t0 (at_step d0 t0 k c)
      (act_bind (timeout_run rt c) (\<lambda>c1. act_return (Break c1))) (step_ok d0 t0 k)"
    by (rule spec_bind [OF spec_pre [OF timeout_run_spec at_step_facts(1)]], assumption, rule spec_return)
       (simp add: step_ok_def)
  have cancel: "ensures d0 t0 (at_step d0 t0 k c)
      (act_bind (finish_cancelled rt c) (\<lambda>c1. act_return (Leave (completed c1 RunCancelled)))) (step_ok d0 t0 k)"
    by (rule spec_bind [OF spec_pre [OF finish_cancelled_spec at_step_facts(1)]], assumption, rule spec_return)
       (auto simp: step_ok_def intro!: reportedI)
  have step: "ensures d0 t0 (at_step d0 t0 k c)
      (act_bind (act_lift (index_at (pr_steps (rr_plan (cl_run c))) (rr_next_step (cl_run c))))
         (execute_step rt c)) (step_ok d0 t0 k)"
  proof (rule spec_assume)
    show "rr_next_step (cl_run c) < length (pr_steps (rr_plan (cl_run c)))" if "at_step d0 t0 k c w" for w
      using at_step_facts [OF that] sync_run(3) [of rt sane d0 t0 c w] by simp
  qed (rule spec_lift_Ok [OF index_at_inside execute_step_spec])
  show "ensures d0 t0 (at_step d0 t0 k c)
     (if late then act_bind (timeout_run rt c) (\<lambda>c1. act_return (Break c1))
      else if rr_cancel_requested_at (cl_run c) \<noteq> None
      then act_bind (finish_cancelled rt c) (\<lambda>c1. act_return (Leave (completed c1 RunCancelled)))
      else act_bind (act_lift (index_at (pr_steps (rr_plan (cl_run c))) (rr_next_step (cl_run c))))
             (execute_step rt c)) (step_ok d0 t0 k)"
    using time cancel step by simp
qed

section \<open>The whole execution\<close>

definition loop_ok :: "claim \<Rightarrow> trace_event list \<Rightarrow> flow \<Rightarrow> 's world \<Rightarrow> bool" where
  "loop_ok d0 t0 x w =
     (case x of
        Return out \<Rightarrow> reported d0 t0 out w
      | Proceed c \<Rightarrow> synced d0 t0 c w \<and>
          (terminal (rr_status (cl_run c)) \<or>
           rr_active_attempt (cl_run c) = None \<and> rr_next_step (cl_run c) = length (pr_steps (rr_plan (cl_run d0)))))"

definition returns_ok ::
  "claim \<Rightarrow> trace_event list \<Rightarrow> ('a \<Rightarrow> 's world \<Rightarrow> bool) \<Rightarrow> ('s world \<times> 'a rresult) option \<Rightarrow> bool" where
  "returns_ok d0 t0 Q x =
     (case x of
        None \<Rightarrow> False
      | Some (w, r) \<Rightarrow> (case r of Ok y \<Rightarrow> Q y w | Err _ \<Rightarrow> (\<exists>c. synced d0 t0 c w) | Panic \<Rightarrow> False))"

lemma going_bounds:
  assumes "going d0 t0 c w"
  shows "rr_next_step (cl_run c) \<le> length (pr_steps (rr_plan (cl_run d0)))" "rr_plan (cl_run c) = rr_plan (cl_run d0)"
  using assms going_wf [OF assms] sync_run(3) [of rt sane d0 t0 c w] by (auto simp: going_def run_wf_def)

text \<open>One iteration per remaining step is enough.\<close>

lemma step_loop_returns:
  assumes "going d0 t0 c w" "rr_active_attempt (cl_run c) = None"
    "length (pr_steps (rr_plan (cl_run d0))) - rr_next_step (cl_run c) < fuel" "host_returns rt"
  shows "returns_ok d0 t0 (loop_ok d0 t0) (step_loop rt fuel c w)"
  using assms
proof (induction fuel arbitrary: c w)
  case (Suc fuel)
  note plan = going_bounds [OF Suc.prems(1)]
  show ?case
  proof (cases "rr_next_step (cl_run c) < length (pr_steps (rr_plan (cl_run d0)))")
    case False
    with Suc.prems plan show ?thesis by (auto simp: returns_ok_def loop_ok_def going_def)
  next
    case True
    obtain w1 r where run: "step_iteration rt c w = (w1, r)" by fastforce
    have "at_step d0 t0 (rr_next_step (cl_run c)) c w" using Suc.prems True by (simp add: at_step_def)
    note res = specD [OF step_iteration_spec Suc.prems(4) this run]
    show ?thesis
    proof (cases r)
      case (Ok x)
      show ?thesis
      proof (cases x)
        case (Next c1)
        with res Ok have "going d0 t0 c1 w1" "rr_active_attempt (cl_run c1) = None"
          "rr_next_step (cl_run c1) = Suc (rr_next_step (cl_run c))" by (simp_all add: step_ok_def)
        with Suc.IH [of c1 w1] Suc.prems(3,4) True Next Ok run plan show ?thesis by simp
      qed (use res Ok run True plan in \<open>auto simp: returns_ok_def loop_ok_def step_ok_def\<close>)
    qed (use res run True plan in \<open>auto simp: returns_ok_def\<close>)
  qed
qed simp

lemma finish_run_spec:
  assumes "terminal (rr_status (cl_run c)) \<or>
      rr_active_attempt (cl_run c) = None \<and> rr_next_step (cl_run c) = length (pr_steps (rr_plan (cl_run d0)))"
  shows "ensures d0 t0 (synced d0 t0 c) (finish_run rt c)
           (\<lambda>c' w. synced d0 t0 c' w \<and> terminal (rr_status (cl_run c')))"
proof (rule spec_assume)
  show "rr_plan (cl_run c) = rr_plan (cl_run d0)" if "synced d0 t0 c w" for w
    using sync_run(3) [OF that] .
  assume plan: "rr_plan (cl_run c) = rr_plan (cl_run d0)"
  show ?thesis
  proof (cases "terminal (rr_status (cl_run c))")
    case True
    then have "finish_run rt c = act_return c" by (simp add: finish_run_def)
    with True show ?thesis by (simp only:) (rule spec_return, simp)
  next
    case False
    with assms plan have cond: "\<not> terminal (rr_status (cl_run c)) \<and>
        length (pr_steps (rr_plan (cl_run c))) \<le> rr_next_step (cl_run c)" by simp
    show ?thesis
      unfolding finish_run_def if_P [OF cond] commit_claim_value
      by (rule spec_clock, simp, rule spec_commit_value, erule sync_ready)
         (use assms False in \<open>auto simp: evolve_defs\<close>)
  qed
qed

lemma execute_claim_returns:
  assumes "sane c (w_store w)" "run_wf (cl_run c)" "\<not> terminal (rr_status (cl_run c))"
    "length (pr_steps (rr_plan (cl_run c))) < fuel"
  shows "returns_ok c (w_trace w) (reported c (w_trace w)) (execute_claim rt fuel c w)"
proof -
  let ?t0 = "w_trace w"
  note host = host_sane [OF assms(1)]
  have "synced c ?t0 c w" unfolding sync_def using assms by (intro conjI exI [of _ "[]"]) simp_all
  with assms have start: "going c ?t0 c w" by (simp add: going_def)
  obtain w1 r where run: "prepare_claim rt c w = (w1, r)" by fastforce
  note prep = specD [OF prepare_claim_spec host start run]
  show ?thesis
  proof (cases "\<exists>c1. r = Ok (Proceed c1)")
    case False
    with prep run show ?thesis
      by (auto simp: execute_claim_def returns_ok_def flow_ok_def split: res.splits flow.splits)
  next
    case True
    then obtain c1 where r: "r = Ok (Proceed c1)" by blast
    with prep have c1: "going c ?t0 c1 w1" "rr_active_attempt (cl_run c1) = None" by (simp_all add: flow_ok_def)
    have "length (pr_steps (rr_plan (cl_run c))) - rr_next_step (cl_run c1) < fuel" using assms(4) by simp
    note loop = step_loop_returns [OF c1 this host]
    then obtain w2 r2 where run2: "step_loop rt fuel c1 w1 = Some (w2, r2)"
      by (auto simp: returns_ok_def split: option.splits)
    show ?thesis
    proof (cases "\<exists>c2. r2 = Ok (Proceed c2)")
      case False
      with loop run run2 r show ?thesis
        by (auto simp: execute_claim_def returns_ok_def loop_ok_def split: res.splits flow.splits)
    next
      case True
      then obtain c2 where r2: "r2 = Ok (Proceed c2)" by blast
      with loop run2 have c2: "synced c ?t0 c2 w2" "terminal (rr_status (cl_run c2)) \<or>
         rr_active_attempt (cl_run c2) = None \<and> rr_next_step (cl_run c2) = length (pr_steps (rr_plan (cl_run c)))"
        by (simp_all add: returns_ok_def loop_ok_def)
      have fin: "ensures c ?t0 (synced c ?t0 c2)
          (act_bind (finish_run rt c2) (\<lambda>c3. act_return (completed c3 (rr_status (cl_run c3))))) (reported c ?t0)"
        by (rule spec_bind [OF finish_run_spec [OF c2(2)]], rule spec_return) (auto simp: reported_def)
      obtain w3 r3 where run3:
        "act_bind (finish_run rt c2) (\<lambda>c3. act_return (completed c3 (rr_status (cl_run c3)))) w2 = (w3, r3)"
        by fastforce
      from specD [OF fin host c2(1) run3] run run2 run3 r r2 show ?thesis
        by (simp add: execute_claim_def returns_ok_def)
    qed
  qed
qed

end

end
