(* ===== verification/Store_Rely.thy ===== *)
theory Store_Rely
  imports Store_Fencing
begin

text \<open>
  What a worker can rely on while others use the store. As long as the lease of its claim stands,
  the stored run is the one it made durable last, or carries a higher revision. Operations of other
  workers keep this (\<open>foreign\<close>), and so do the worker's own commits.
\<close>

section \<open>The claim and the stored run\<close>

definition fresh_copy :: "claim \<Rightarrow> run_record \<Rightarrow> bool" where
  "fresh_copy d r \<longleftrightarrow>
     rr_plan r = rr_plan (cl_run d) \<and> (r = cl_run d \<or> rr_revision (cl_run d) < rr_revision r)"

text \<open>With a bound on the revision that the stored run has reached.\<close>

definition fenced_by :: "claim \<Rightarrow> nat \<Rightarrow> mem_state \<Rightarrow> bool" where
  "fenced_by d m st \<longleftrightarrow>
     mem_inv st \<and>
     (\<forall>l r. bt_get (ms_run_leases st) (run_id (cl_run d)) = Some l \<longrightarrow> le_token l = cl_token d \<longrightarrow>
        bt_get (ms_runs st) (run_id (cl_run d)) = Some r \<longrightarrow> fresh_copy d r \<and> unat (rr_revision r) \<le> m)"

definition fenced :: "claim \<Rightarrow> mem_state \<Rightarrow> bool" where
  "fenced d st \<longleftrightarrow> (\<exists>m. fenced_by d m st)"

lemma fenced_inv: "fenced_by d m st \<Longrightarrow> mem_inv st"
  by (simp add: fenced_by_def)

lemma fencedI:
  assumes "mem_inv st'"
    and "\<And>l r'. bt_get (ms_run_leases st') (run_id (cl_run d)) = Some l \<Longrightarrow> le_token l = cl_token d \<Longrightarrow>
      bt_get (ms_runs st') (run_id (cl_run d)) = Some r' \<Longrightarrow> fresh_copy d r' \<and> unat (rr_revision r') \<le> m"
  shows "fenced_by d m st'"
  using assms by (simp add: fenced_by_def)

lemma fencedD:
  assumes "fenced_by d m st" "bt_get (ms_run_leases st) (run_id (cl_run d)) = Some l" "le_token l = cl_token d"
    "bt_get (ms_runs st) (run_id (cl_run d)) = Some r"
  shows "fresh_copy d r" "unat (rr_revision r) \<le> m"
  using assms by (simp_all add: fenced_by_def)

lemma fenced_mono: "fenced_by d m st \<Longrightarrow> m \<le> n \<Longrightarrow> fenced_by d n st"
  unfolding fenced_by_def using le_trans by blast

lemma fenced_frame:
  "fenced_by d m st \<Longrightarrow> mem_inv st' \<Longrightarrow> ms_runs st' = ms_runs st \<Longrightarrow> ms_run_leases st' = ms_run_leases st \<Longrightarrow>
   fenced_by d m st'"
  by (simp add: fenced_by_def)

lemma fenced_remove_run: "fenced_by d m st \<Longrightarrow> fenced_by d m (remove_run k st)"
  by (auto simp: fenced_by_def mem_inv_remove_run split: if_splits)

lemma fenced_drop_obsolete: "fenced_by d m st \<Longrightarrow> fenced_by d m (drop_obsolete received p st)"
  unfolding drop_obsolete_def by (auto intro!: foldl_keeps fenced_remove_run)

text \<open>Storing a changed run: another one, the same one unchanged, or with its revision raised.\<close>

lemma fenced_put_other:
  assumes "fenced_by d m st" "bt_get (ms_runs st) k = Some r" "run_evolves r r'" "k = run_id (cl_run d) \<Longrightarrow> r' = r"
  shows "fenced_by d m (put_run k r' st)"
proof (rule fencedI)
  show "mem_inv (put_run k r' st)" using mem_inv_put_run [OF fenced_inv [OF assms(1)] assms(2,3)] .
  fix l q assume q: "bt_get (ms_run_leases (put_run k r' st)) (run_id (cl_run d)) = Some l"
    "le_token l = cl_token d" "bt_get (ms_runs (put_run k r' st)) (run_id (cl_run d)) = Some q"
  then have "bt_get (ms_run_leases st) (run_id (cl_run d)) = Some l" by (auto split: if_splits)
  moreover have "bt_get (ms_runs st) (run_id (cl_run d)) = Some q"
    using q(3) assms(2,4) by (cases "k = run_id (cl_run d)") simp_all
  ultimately show "fresh_copy d q \<and> unat (rr_revision q) \<le> m"
    using fencedD [OF assms(1) _ q(2)] by blast
qed

lemma fenced_put_raised:
  assumes "fenced_by d m st" "bt_get (ms_runs st) k = Some r" "run_evolves r r'"
    and "rr_revision r' = rr_revision r + 1" "Suc m < 2 ^ 64"
  shows "fenced_by d (Suc m) (put_run k r' st)"
proof (cases "k = run_id (cl_run d)")
  case False
  then show ?thesis using fenced_mono [OF fenced_put_other [OF assms(1-3)]] by simp
next
  case True
  show ?thesis
  proof (rule fencedI)
    show "mem_inv (put_run k r' st)" using mem_inv_put_run [OF fenced_inv [OF assms(1)] assms(2,3)] .
    fix l q assume q: "bt_get (ms_run_leases (put_run k r' st)) (run_id (cl_run d)) = Some l"
      "le_token l = cl_token d" "bt_get (ms_runs (put_run k r' st)) (run_id (cl_run d)) = Some q"
    then have l: "bt_get (ms_run_leases st) (run_id (cl_run d)) = Some l" and qr: "q = r'"
      using True by (auto split: if_splits)
    have r: "fresh_copy d r" "unat (rr_revision r) \<le> m"
      using fencedD [OF assms(1) l q(2)] assms(2) True by simp_all
    then have "unat (rr_revision r + 1) = Suc (unat (rr_revision r))"
      using assms(5) by (subst unat_word_ariths(1)) simp
    then have "unat (rr_revision r') = Suc (unat (rr_revision r))" using assms(4) by simp
    with r assms(3) qr show "fresh_copy d q \<and> unat (rr_revision q) \<le> Suc m"
      by (auto simp: fresh_copy_def run_evolves_def word_less_nat_alt)
  qed
qed

lemma fenced_cancel_active:
  assumes "fenced_by d m (fst a)"
  shows "rid \<noteq> run_id (cl_run d) \<Longrightarrow> fenced_by d m (fst (cancel_active received a rid))"
    and "Suc m < 2 ^ 64 \<Longrightarrow> fenced_by d (Suc m) (fst (cancel_active received a rid))"
proof -
  obtain s cs where a: "a = (s, cs)" by fastforce
  have fenced: "fenced_by d m s" using assms a by simp
  have "(rid \<noteq> run_id (cl_run d) \<longrightarrow> fenced_by d m (fst (cancel_active received (s, cs) rid))) \<and>
        (Suc m < 2 ^ 64 \<longrightarrow> fenced_by d (Suc m) (fst (cancel_active received (s, cs) rid)))"
  proof (rule cancel_active_cases [of s rid received cs])
    fix r r' b
    assume r: "bt_get (ms_runs s) rid = Some r" and req: "request_cancel_run received r = (r', b)"
      and res: "cancel_active received (s, cs) rid =
         (put_run rid (if b then r'\<lparr>rr_revision := rr_revision r' + 1\<rparr> else r') s, if b then cs @ [rid] else cs)"
    have wf: "run_wf r" using runs_wfD(2) [OF mem_inv_runs r] fenced_inv [OF fenced] by auto
    have ev: "run_evolves r (if b then r'\<lparr>rr_revision := rr_revision r' + 1\<rparr> else r')"
      using request_cancel_evolves [OF req wf] by (simp add: run_evolves_def)
    have rev: "rr_revision r' = rr_revision r" using request_cancel_run_frame(4) [OF req] .
    have same: "\<not> b \<Longrightarrow> r' = r" using req by (auto simp: request_cancel_run_def Let_def split: if_splits)
    show ?thesis
      using fenced_put_other [OF fenced r ev] fenced_put_raised [OF fenced r ev] rev same
        fenced_mono [of d m _ "Suc m"]
      by (cases b) (simp_all add: res)
  qed (use fenced fenced_mono [OF fenced, of "Suc m"] in simp)
  then show "rid \<noteq> run_id (cl_run d) \<Longrightarrow> fenced_by d m (fst (cancel_active received a rid))"
    and "Suc m < 2 ^ 64 \<Longrightarrow> fenced_by d (Suc m) (fst (cancel_active received a rid))"
    by (simp_all add: a)
qed

lemma fenced_cancel_fold:
  "fenced_by d m (fst a) \<Longrightarrow> Suc m < 2 ^ 64 \<Longrightarrow> distinct ids \<Longrightarrow>
   fenced_by d (if run_id (cl_run d) \<in> set ids then Suc m else m) (fst (foldl (cancel_active received) a ids))"
proof (induction ids rule: rev_induct)
  case (snoc rid ids)
  then have IH: "fenced_by d (if run_id (cl_run d) \<in> set ids then Suc m else m)
      (fst (foldl (cancel_active received) a ids))" by simp
  show ?case
  proof (cases "rid = run_id (cl_run d)")
    case True
    with snoc.prems have "run_id (cl_run d) \<notin> set ids" by auto
    with IH have "fenced_by d m (fst (foldl (cancel_active received) a ids))" by simp
    from fenced_cancel_active(2) [OF this snoc.prems(2)] True show ?thesis by simp
  next
    case False
    from fenced_cancel_active(1) [OF IH False] False show ?thesis by (auto split: if_splits)
  qed
qed simp

lemma active_group_distinct:
  assumes "mem_inv st" shows "distinct (active_group_runs st g)"
proof -
  have wf: "bt_wf (ms_runs st)" using bt_wf_runs [OF assms] .
  have "run_id r = k" if "(k, r) \<in> set (ms_runs st)" for k r
    using that runs_wfD(1) [OF mem_inv_runs [OF assms]] bt_wf_distinct [OF wf]
    by (simp add: bt_get_def)
  then have "map run_id (bt_values (ms_runs st)) = map fst (ms_runs st)"
    by (auto simp: bt_values_def)
  then have "distinct (map run_id (bt_values (ms_runs st)))" using bt_wf_distinct [OF wf] by simp
  then show ?thesis unfolding active_group_runs_def by (rule distinct_map_filter)
qed

text \<open>Admitting a plan, unless it reuses the id of the run for something else.\<close>

lemma fenced_admit_run:
  assumes "fenced_by d m st" "\<not> idempotency_taken st p" "pr_event_cursor p \<le> ms_next_cursor st"
    and "pr_id p = run_id (cl_run d) \<Longrightarrow> same_idempotency (rr_plan (cl_run d)) p"
  shows "fenced_by d m (st\<lparr>ms_runs := bt_insert (pr_id p) (admitted p) (ms_runs st)\<rparr>)"
proof (rule fencedI)
  note inv = fenced_inv [OF assms(1)]
  show "mem_inv (st\<lparr>ms_runs := bt_insert (pr_id p) (admitted p) (ms_runs st)\<rparr>)"
    using mem_inv_admit_run [OF inv assms(2,3)] .
  fix l q
  assume "bt_get (ms_run_leases (st\<lparr>ms_runs := bt_insert (pr_id p) (admitted p) (ms_runs st)\<rparr>)) (run_id (cl_run d)) = Some l"
    and tok: "le_token l = cl_token d"
    and q: "bt_get (ms_runs (st\<lparr>ms_runs := bt_insert (pr_id p) (admitted p) (ms_runs st)\<rparr>)) (run_id (cl_run d)) = Some q"
  then have l: "bt_get (ms_run_leases st) (run_id (cl_run d)) = Some l" by simp
  then obtain r where r: "bt_get (ms_runs st) (run_id (cl_run d)) = Some r" using leased_run_stored [OF inv] by blast
  with assms(1) l tok have copy: "fresh_copy d r" "unat (rr_revision r) \<le> m" by (simp_all add: fenced_by_def)
  then have "rr_plan r = rr_plan (cl_run d)" by (simp add: fresh_copy_def)
  moreover have "\<not> same_idempotency (rr_plan r) p"
    using assms(2) r unfolding idempotency_taken_iff [OF bt_wf_runs [OF inv]] by blast
  ultimately have "pr_id p \<noteq> run_id (cl_run d)" using assms(4) by auto
  with q r copy show "fresh_copy d q \<and> unat (rr_revision q) \<le> m" by simp
qed

lemma fenced_admit_plan:
  assumes "admit_plan ch received cursor p acc = Ok acc'" "fenced_by d m (ac_state acc)"
    and "cursor \<le> ms_next_cursor (ac_state acc)"
    and "pr_id p = run_id (cl_run d) \<Longrightarrow> same_idempotency (rr_plan (cl_run d)) p"
    and "Suc m < 2 ^ 64"
  shows "fenced_by d (Suc m) (ac_state acc')"
  using assms(1)
proof (cases rule: admit_plan_cases)
  case (replaced st2 cs)
  let ?st1 = "drop_obsolete received (p\<lparr>pr_event_cursor := cursor\<rparr>) (ac_state acc)"
  have st1: "fenced_by d m ?st1" using assms(2) by (rule fenced_drop_obsolete)
  have fold: "foldl (cancel_active received) (?st1, ac_cancelled acc)
      (active_group_runs ?st1 (pr_concurrency_group p)) = (st2, cs)" using replaced(3) .
  have st2: "fenced_by d (Suc m) st2"
    using fenced_cancel_fold [of d m "(?st1, ac_cancelled acc)"
        "active_group_runs ?st1 (pr_concurrency_group p)" received]
      st1 assms(5) active_group_distinct [OF fenced_inv [OF st1]] fold fenced_mono [of d m _ "Suc m"]
    by (simp split: if_splits)
  from cancel_fold_invariant [OF fenced_inv [OF st1], of received "ac_cancelled acc"
      "active_group_runs ?st1 (pr_concurrency_group p)"] fold
  have same: "same_plans ?st1 st2" "ms_next_cursor st2 = ms_next_cursor (ac_state acc)" by simp_all
  have "\<not> idempotency_taken st2 (p\<lparr>pr_event_cursor := cursor\<rparr>)"
    using same_plans_idempotency [OF same(1) bt_wf_runs [OF fenced_inv [OF st1]]
        bt_wf_runs [OF fenced_inv [OF st2]]] replaced(1) by simp
  then have "\<not> idempotency_taken st2 (p\<lparr>pr_event_cursor := cursor, pr_replacement_blockers := x\<rparr>)" for x
    by (simp add: idempotency_taken_def)
  from fenced_admit_run [OF st2 this] same(2) assms(3,4) show ?thesis
    by (simp add: replaced(4) same_idempotency_def)
next
  case queued
  have "fenced_by d (Suc m) (ac_state acc)" using assms(2) fenced_mono [of d m _ "Suc m"] by simp
  from fenced_admit_run [OF fenced_drop_obsolete [OF this] queued(1)] assms(3,4)
  show ?thesis by (simp add: queued(4) same_idempotency_def)
qed (use fenced_mono [OF assms(2), of "Suc m"] fenced_drop_obsolete in auto)

lemma fenced_admit_plans:
  "admit_plans ch received cursor ps acc = Ok acc' \<Longrightarrow> fenced_by d m (ac_state acc) \<Longrightarrow>
   cursor \<le> ms_next_cursor (ac_state acc) \<Longrightarrow>
   (\<And>p. p \<in> set ps \<Longrightarrow> pr_id p = run_id (cl_run d) \<Longrightarrow> same_idempotency (rr_plan (cl_run d)) p) \<Longrightarrow>
   m + length ps < 2 ^ 64 \<Longrightarrow> fenced_by d (m + length ps) (ac_state acc')"
proof (induction ps arbitrary: acc m)
  case (Cons p ps)
  from Cons.prems(1) obtain acc1 where 1: "admit_plan ch received cursor p acc = Ok acc1"
    and 2: "admit_plans ch received cursor ps acc1 = Ok acc'" by auto
  have "fenced_by d (Suc m) (ac_state acc1)" using fenced_admit_plan [OF 1 Cons.prems(2,3)] Cons.prems(4,5) by simp
  moreover have "ms_next_cursor (ac_state acc1) = ms_next_cursor (ac_state acc)"
    using admit_plan_inv [OF 1 fenced_inv [OF Cons.prems(2)] Cons.prems(3)] by simp
  ultimately show ?case using Cons.IH [OF 2] Cons.prems(3,4,5) by force
qed simp

lemma fenced_admit:
  assumes "admit ch e st = Ok (st', out)" "fenced_by d m st"
    and "\<And>p. p \<in> set (pe_runs e) \<Longrightarrow> pr_id p = run_id (cl_run d) \<Longrightarrow> same_idempotency (rr_plan (cl_run d)) p"
    and "m + length (pe_runs e) < 2 ^ 64"
  shows "fenced_by d (m + length (pe_runs e)) st'"
  using assms(1)
proof (cases rule: admit_cases)
  case duplicate
  with fenced_mono [OF assms(2), of "m + length (pe_runs e)"] show ?thesis by simp
next
  case (fresh acc)
  have "fenced_by d m (journal_event e st)"
    by (rule fenced_frame [OF assms(2) journal_event_inv [OF fenced_inv [OF assms(2)] fresh(1)]])
       (simp_all add: journal_event_def Let_def)
  from fenced_admit_plans [OF fresh(2)] this assms(3,4) show ?thesis
    by (simp add: fresh(3) journal_event_def Let_def)
qed

lemma fenced_admit_all:
  "admit_all ch es st = Ok st' \<Longrightarrow> fenced_by d m st \<Longrightarrow>
   (\<And>p. p \<in> set (concat (map pe_runs es)) \<Longrightarrow> pr_id p = run_id (cl_run d) \<Longrightarrow>
      same_idempotency (rr_plan (cl_run d)) p) \<Longrightarrow>
   m + length (concat (map pe_runs es)) < 2 ^ 64 \<Longrightarrow>
   fenced_by d (m + length (concat (map pe_runs es))) st'"
proof (induction es arbitrary: st m)
  case (Cons e es)
  from Cons.prems(1) obtain s out where e: "admit ch e st = Ok (s, out)" "admit_all ch es s = Ok st'" by auto
  have "fenced_by d (m + length (pe_runs e)) s"
    using fenced_admit [OF e(1) Cons.prems(2)] Cons.prems(3,4) by simp
  from Cons.IH [OF e(2) this] Cons.prems(3,4) show ?case by (simp add: add.assoc)
qed simp

section \<open>Operations of others\<close>

definition op_weight :: "store_op \<Rightarrow> nat" where
  "op_weight op = Suc (length (op_plans op))"

text \<open>
  An operation of someone else: it does not mint or use the token of the claim and admits no plan
  that reuses the run's id for something else.
\<close>

definition foreign :: "claim \<Rightarrow> store_op \<Rightarrow> bool" where
  "foreign d op \<longleftrightarrow>
     minted_token op \<noteq> Some (cl_token d) \<and>
     (case op of CommitRun c _ \<Rightarrow> cl_token c \<noteq> cl_token d | _ \<Rightarrow> True) \<and>
     list_all (\<lambda>p. pr_id p = run_id (cl_run d) \<longrightarrow> same_idempotency (rr_plan (cl_run d)) p) (op_plans op)"

text \<open>The 64-bit revision counter of the run cannot wrap around in the operation.\<close>

definition counter_room :: "claim \<Rightarrow> store_op \<Rightarrow> mem_state \<Rightarrow> bool" where
  "counter_room d op st =
     (case bt_get (ms_runs st) (run_id (cl_run d)) of
        None \<Rightarrow> op_weight op < 2 ^ 64
      | Some r \<Rightarrow> unat (rr_revision r) + op_weight op < 2 ^ 64)"

lemma foreign_plans:
  "foreign d op \<Longrightarrow> p \<in> set (op_plans op) \<Longrightarrow> pr_id p = run_id (cl_run d) \<Longrightarrow> same_idempotency (rr_plan (cl_run d)) p"
  by (auto simp: foreign_def list_all_iff)

lemma fenced_claim:
  assumes "mem_claim_run ch ulid ex w now dur st = (st', res)" "fenced_by d m st" "''lease_'' @ ulid \<noteq> cl_token d"
  shows "fenced_by d m st'"
proof (rule fencedI)
  note inv = fenced_inv [OF assms(2)]
  show "mem_inv st'" using mem_claim_run_inv [OF assms(1) inv] .
  fix l q assume l: "bt_get (ms_run_leases st') (run_id (cl_run d)) = Some l" "le_token l = cl_token d"
    and q: "bt_get (ms_runs st') (run_id (cl_run d)) = Some q"
  have "bt_wf (ms_run_leases st)" using inv by (simp add: mem_inv_def leases_wf_def)
  from mem_claim_leases [OF assms(1) l(1) this] l(2) assms(3)
  have old: "bt_get (ms_run_leases st) (run_id (cl_run d)) = Some l" by auto
  from assms(1) mem_inv_runs [OF inv] have "bt_get (ms_runs st) (run_id (cl_run d)) = Some q"
  proof (cases rule: mem_claim_run_cases)
    case (claimed r e)
    have "run_id r \<noteq> run_id (cl_run d)"
    proof
      assume "run_id r = run_id (cl_run d)"
      with claimed(5) l(1) have "le_token l = ''lease_'' @ ulid" by auto
      with l(2) assms(3) show False by simp
    qed
    with claimed(5) q show ?thesis by simp
  qed (use q in simp_all)
  with fencedD [OF assms(2) old l(2)] show "fresh_copy d q \<and> unat (rr_revision q) \<le> m" by blast
qed

lemma fenced_commit_other:
  assumes "mem_commit_run ch c es st = (st', res)" "res \<noteq> Panic" "claim_evolves st c" "fenced_by d m st"
    and other: "cl_token c \<noteq> cl_token d"
    and plans: "\<And>p. p \<in> set (concat (map pe_runs es)) \<Longrightarrow> pr_id p = run_id (cl_run d) \<Longrightarrow>
      same_idempotency (rr_plan (cl_run d)) p"
    and room: "Suc m + length (concat (map pe_runs es)) < 2 ^ 64"
  shows "fenced_by d (Suc m + length (concat (map pe_runs es))) st'"
  using assms(1)
proof (cases rule: mem_commit_run_cases)
  case (committed stored l st2)
  let ?rid = "run_id (cl_run c)" and ?run = "cl_run (bump_revision c)"
  have ev: "run_evolves stored ?run"
    using assms(3) committed(1,3,4,5) by (auto simp: claim_evolves_def run_evolves_def)
  have fin: "fenced_by d (Suc m) (put_run ?rid ?run st)"
    by (rule fenced_put_raised [OF assms(4) committed(4) ev]) (use committed(5) room in simp_all)
  show ?thesis
  proof (cases "terminal (rr_status (cl_run c))")
    case True
    then have put: "put_run ?rid ?run st = drop_lease ?rid (st\<lparr>ms_runs := bt_insert ?rid ?run (ms_runs st)\<rparr>)"
      by (simp add: put_run_def drop_lease_def)
    have "admit_all ch es (put_run ?rid ?run st) = Ok (drop_lease ?rid st2)"
      unfolding put drop_lease_admit_all using committed(6) by simp
    from fenced_admit_all [OF this fin plans room] show ?thesis
      using True by (simp add: committed(7) drop_lease_def)
  next
    case False
    then have "admit_all ch es (put_run ?rid ?run st) = Ok st2"
      using committed(6) by (simp add: put_run_def)
    from fenced_admit_all [OF this fin plans room] show ?thesis using False by (simp add: committed(7))
  qed
qed (use assms(2) fenced_mono [OF assms(4)] in auto)

lemma fenced_fire:
  assumes "mem_fire_timer ch c fired e st = (st', res)" "res \<noteq> Panic" "fires_claim c fired" "fenced_by d m st"
    and "\<And>p. p \<in> set (pe_runs e) \<Longrightarrow> pr_id p = run_id (cl_run d) \<Longrightarrow> same_idempotency (rr_plan (cl_run d)) p"
    and "m + length (pe_runs e) < 2 ^ 64"
  shows "fenced_by d (m + length (pe_runs e)) st'"
  using assms(1)
proof (cases rule: mem_fire_timer_cases)
  case (fired l t)
  note inv = fenced_inv [OF assms(4)]
  let ?st1 = "st\<lparr>ms_timers := bt_insert (tr_id fired) fired (ms_timers st),
    ms_timer_leases := bt_remove (tr_id (tc_timer c)) (ms_timer_leases st)\<rparr>"
  have "1 \<le> tr_generation t" "tr_generation t \<le> TIMER_GENERATION_MAX"
    using inv fired(4) unfolding mem_inv_def timers_wf_def by blast+
  with fired(5) assms(3) inv have "mem_inv ?st1"
    by (auto simp: mem_inv_def fires_claim_def intro!: timers_wf_schedule)
  from fenced_frame [OF assms(4) this] have "fenced_by d m ?st1" by simp
  with fired(6) assms(2,5,6) show ?thesis
    by (auto split: res.splits prod.splits intro: fenced_admit)
qed (use fenced_mono [OF assms(4)] in auto)

lemma fenced_cancel:
  assumes "mem_request_cancel rid now st = (st', res)" "fenced_by d m st" "Suc m < 2 ^ 64"
  shows "fenced_by d (Suc m) st'"
  using assms(1)
proof (cases rule: mem_request_cancel_cases)
  case (accepted r r')
  have wf: "run_wf r" using runs_wfD(2) [OF mem_inv_runs accepted(1)] fenced_inv [OF assms(2)] by simp
  have ev: "run_evolves r (r'\<lparr>rr_revision := rr_revision r' + 1\<rparr>)"
    using request_cancel_evolves [OF accepted(3) wf] by (simp add: run_evolves_def)
  have "rr_revision (r'\<lparr>rr_revision := rr_revision r' + 1\<rparr>) = rr_revision r + 1"
    using request_cancel_run_frame(4) [OF accepted(3)] by simp
  from fenced_put_raised [OF assms(2) accepted(1) ev this assms(3)] show ?thesis by (simp only: accepted(5))
qed (use fenced_mono [OF assms(2), of "Suc m"] in simp)

lemma step_fenced_by:
  assumes "store_step ch op st st'" "fenced_by d m st" "foreign d op" "m + op_weight op < 2 ^ 64"
  shows "fenced_by d (m + op_weight op) st'"
proof -
  have inv': "mem_inv st'" using store_step_inv [OF assms(1) fenced_inv [OF assms(2)]] .
  have up: "fenced_by d m st' \<Longrightarrow> ?thesis" by (erule fenced_mono) simp
  note frame = up [OF fenced_frame [OF assms(2) inv']]
  note plans = foreign_plans [OF assms(3)]
  from assms(1) show ?thesis
  proof (cases rule: store_step.cases)
    case (step_admit e out)
    then have "fenced_by d (m + length (pe_runs e)) st'"
      using fenced_admit [OF _ assms(2), of ch e st' out] plans assms(4)
      by (auto simp: mem_admit_event_Ok op_weight_def)
    then show ?thesis by (rule fenced_mono) (simp add: op_weight_def step_admit)
  next
    case (step_claim ulid executor worker now lease_for res)
    then have "''lease_'' @ ulid \<noteq> cl_token d" using assms(3) by (simp add: foreign_def)
    from up [OF fenced_claim [OF step_claim(2) assms(2) this]] show ?thesis .
  next
    case (step_commit c es res)
    with assms(3) have "cl_token c \<noteq> cl_token d" by (simp add: foreign_def)
    from fenced_commit_other [OF step_commit(2,3,4) assms(2) this] plans assms(4) step_commit(1)
    show ?thesis by (auto simp: op_weight_def)
  next
    case (step_cancel rid now res)
    then show ?thesis using fenced_cancel [OF _ assms(2)] assms(4) by (simp add: op_weight_def)
  next
    case (step_prune cursor res)
    then show ?thesis by (intro frame) (auto simp: mem_prune_events_through_def Let_def)
  next
    case (step_fire tc fired e res)
    then have "fenced_by d (m + length (pe_runs e)) st'"
      using fenced_fire [OF step_fire(2,3,4) assms(2)] plans assms(4) by (auto simp: op_weight_def)
    then show ?thesis by (rule fenced_mono) (simp add: op_weight_def step_fire)
  qed ((rule frame; auto dest: timer_ops_runs_frame)+)
qed

lemma store_step_fenced:
  assumes "store_step ch op st st'" "fenced d st" "foreign d op" "counter_room d op st"
  shows "fenced d st'"
proof -
  from assms(2) obtain m where m: "fenced_by d m st" by (auto simp: fenced_def)
  show ?thesis
  proof (cases "bt_get (ms_runs st) (run_id (cl_run d))")
    case None
    then have "fenced_by d 0 st" using m by (simp add: fenced_by_def)
    from step_fenced_by [OF assms(1) this assms(3)] show ?thesis
      using assms(4) None by (auto simp: counter_room_def fenced_def)
  next
    case (Some r)
    with m have "fenced_by d (unat (rr_revision r)) st" by (simp add: fenced_by_def)
    from step_fenced_by [OF assms(1) this assms(3)] show ?thesis
      using assms(4) Some by (auto simp: counter_room_def fenced_def)
  qed
qed

text \<open>Any number of operations of others, one after the other.\<close>

inductive interference :: "chrono_ops \<Rightarrow> claim \<Rightarrow> mem_state \<Rightarrow> mem_state \<Rightarrow> bool" for ch d where
  idle: "interference ch d st st"
| step: "store_step ch op st st1 \<Longrightarrow> foreign d op \<Longrightarrow> counter_room d op st \<Longrightarrow>
    interference ch d st1 st2 \<Longrightarrow> interference ch d st st2"

lemma interference_fenced: "interference ch d st st' \<Longrightarrow> fenced d st \<Longrightarrow> fenced d st'"
  by (induction rule: interference.induct) (auto intro: store_step_fenced)

lemma interference_reachable: "interference ch d st st' \<Longrightarrow> reachable ch st \<Longrightarrow> reachable ch st'"
  by (induction rule: interference.induct) (auto intro: reachable_step)

lemma interference_finished:
  "interference ch d st st' \<Longrightarrow> finished_at (run_id (cl_run d)) (cl_run d) st \<Longrightarrow>
   finished_at (run_id (cl_run d)) (cl_run d) st'"
  by (induction rule: interference.induct) (auto intro: store_step_finished foreign_plans)

text \<open>Only the token, the run id and the plan of the claim matter.\<close>

lemma interference_cong:
  assumes "interference ch d st st'" "cl_token c = cl_token d" "rr_plan (cl_run c) = rr_plan (cl_run d)"
  shows "interference ch c st st'"
  using assms
proof (induction rule: interference.induct)
  case (step op st st1 st2)
  then have "foreign c op" "counter_room c op st"
    by (auto simp: foreign_def counter_room_def split: store_op.splits)
  with step show ?case by (auto intro: interference.step)
qed (rule idle)

section \<open>The worker's own commits\<close>

text \<open>A fresh claim is in step with the store.\<close>

lemma claim_fenced:
  assumes "mem_claim_run ch ulid ex w now dur st = (st', Ok (Some c))" "mem_inv st"
  shows "fenced c st'" "run_wf (cl_run c)" "\<not> terminal (rr_status (cl_run c))"
proof -
  have inv': "mem_inv st'" using mem_claim_run_inv [OF assms] .
  from assms(1) mem_inv_runs [OF assms(2)]
  have "bt_get (ms_runs st') (run_id (cl_run c)) = Some (cl_run c) \<and>
    (\<exists>l. bt_get (ms_run_leases st') (run_id (cl_run c)) = Some l)"
    by (cases rule: mem_claim_run_cases) (auto simp: start_run_def)
  then obtain l where c: "bt_get (ms_runs st') (run_id (cl_run c)) = Some (cl_run c)"
    "bt_get (ms_run_leases st') (run_id (cl_run c)) = Some l" by blast
  then have "fenced_by c (unat (rr_revision (cl_run c))) st'"
    using inv' by (auto simp: fenced_by_def fresh_copy_def)
  then show "fenced c st'" by (auto simp: fenced_def)
  show "run_wf (cl_run c)" using runs_wfD(2) [OF mem_inv_runs [OF inv'] c(1)] .
  from leased_run_stored [OF inv' c(2)] c(1) show "\<not> terminal (rr_status (cl_run c))" by auto
qed

lemma own_commit_evolves:
  assumes "fenced d st" "run_evolves (cl_run d) (cl_run c)" "cl_token c = cl_token d"
    "rr_revision (cl_run c) = rr_revision (cl_run d)"
  shows "claim_evolves st c"
proof -
  have "rr_plan (cl_run c) = rr_plan (cl_run d)" using assms(2) by (simp add: run_evolves_def)
  then have id: "run_id (cl_run c) = run_id (cl_run d)" by simp
  from assms(1) obtain m where m: "fenced_by d m st" by (auto simp: fenced_def)
  show ?thesis unfolding claim_evolves_def id assms(3,4)
  proof (intro allI impI)
    fix l stored
    assume "bt_get (ms_run_leases st) (run_id (cl_run d)) = Some l" "le_token l = cl_token d"
      "bt_get (ms_runs st) (run_id (cl_run d)) = Some stored" and rev: "rr_revision stored = rr_revision (cl_run d)"
    then have "fresh_copy d stored" using fencedD(1) [OF m] by blast
    with rev have "stored = cl_run d" by (simp add: fresh_copy_def)
    with assms(2) show "run_evolves stored (cl_run c)" by simp
  qed
qed

lemma own_commit:
  assumes "fenced d st" "run_evolves (cl_run d) (cl_run c)" "cl_token c = cl_token d"
    "rr_revision (cl_run c) = rr_revision (cl_run d)" "mem_commit_run ch c [] st = (st', res)"
  shows "store_step ch (CommitRun c []) st st'"
    and "case res of Ok c' \<Rightarrow> c' = bump_revision c \<and> fenced c' st' \<and>
        bt_get (ms_runs st') (run_id (cl_run c')) = Some (cl_run c') | Err _ \<Rightarrow> st' = st | Panic \<Rightarrow> False"
proof -
  note ev = own_commit_evolves [OF assms(1-4)]
  have inv: "mem_inv st" using assms(1) fenced_inv by (auto simp: fenced_def)
  have not_panic: "res \<noteq> Panic"
  proof (cases "holds_lease st c \<and> at_revision st c")
    case True
    from commit_run_ok [OF this, of ch] assms(5) show ?thesis by auto
  next
    case False
    obtain msg where "mem_commit_run ch c [] st = (st, Err (Diagnostic ''stale_lease'' msg))"
      by (rule commit_refused [OF inv False])
    with assms(5) show ?thesis by auto
  qed
  from step_commit [OF assms(5) not_panic ev] show step: "store_step ch (CommitRun c []) st st'" .
  from assms(5)
  show "case res of Ok c' \<Rightarrow> c' = bump_revision c \<and> fenced c' st' \<and>
        bt_get (ms_runs st') (run_id (cl_run c')) = Some (cl_run c') | Err _ \<Rightarrow> st' = st | Panic \<Rightarrow> False"
  proof (cases rule: mem_commit_run_cases)
    case (committed stored l st2)
    have stored: "bt_get (ms_runs st') (run_id (cl_run c)) = Some (cl_run (bump_revision c))"
      using committed(6,7) by (auto split: if_splits)
    then have "fenced_by (bump_revision c) (unat (rr_revision (cl_run c) + 1)) st'"
      using store_step_inv [OF step inv] by (auto simp: fenced_by_def fresh_copy_def)
    then have "fenced (bump_revision c) st'" by (auto simp: fenced_def)
    with stored show ?thesis by (simp add: committed(8) bump_revision_def)
  qed (use not_panic in auto)
qed

end
