(* ===== verification/Engine_Memory.thy ===== *)
theory Engine_Memory
  imports Engine_Run Store_Rely
begin

text \<open>
  The engine over the in-memory store. \<open>memory_ops\<close> is the \<open>RuntimeStore\<close> implementation of
  \<open>MemoryRuntimeStore\<close>: every method under the lock. It meets the contract of \<open>run_store\<close>, and a
  runtime over it, with other workers interfering, the contract of \<open>engine\<close>, so that the execution
  of a claimed run is one more participant in the transition system of the store.
\<close>

section \<open>The in-memory store as a store interface\<close>

definition memory_ops :: "chrono_ops \<Rightarrow> mem_store store_ops" where
  "memory_ops ch =
     \<lparr> so_admit = (\<lambda>e. with_lock (mem_admit_event ch e)),
       so_claim = (\<lambda>ulid executor worker now lease. with_lock (mem_claim_run ch ulid executor worker now lease)),
       so_commit = (\<lambda>c es. with_lock (mem_commit_run ch c es)),
       so_get_run = (\<lambda>rid. with_lock (mem_get_run rid)),
       so_events_after = (\<lambda>cursor limit. with_lock (mem_events_after cursor limit)),
       so_prune = (\<lambda>cursor. with_lock (mem_prune_events_through cursor)),
       so_request_cancel = (\<lambda>rid now. with_lock (mem_request_cancel rid now)),
       so_upsert_timer = (\<lambda>t. with_lock (mem_upsert_timer t)),
       so_reconcile_timer_exact = (\<lambda>t now. with_lock (mem_reconcile_timer_exact t now)),
       so_cancel_timer = (\<lambda>tid gen now. with_lock (mem_cancel_timer tid gen now)),
       so_reconcile_timers = (\<lambda>pre ts now. with_lock (mem_reconcile_timers pre ts now)),
       so_timers = (\<lambda>pre. with_lock (mem_timers pre)),
       so_claim_due_timer = (\<lambda>ulid worker now lease. with_lock (mem_claim_due_timer ch ulid worker now lease)),
       so_fire_timer = (\<lambda>c t e. with_lock (mem_fire_timer ch c t e)) \<rparr>"

definition memory_runtime :: "chrono_ops \<Rightarrow> mem_store runtime \<Rightarrow> mem_store runtime" where
  "memory_runtime ch rt = rt\<lparr>rt_store := memory_ops ch\<rparr>"

lemma memory_runtime_simps [simp]:
  "rt_store (memory_runtime ch rt) = memory_ops ch" "rt_others (memory_runtime ch rt) = rt_others rt"
  "rt_authorizer (memory_runtime ch rt) = rt_authorizer rt" "rt_providers (memory_runtime ch rt) = rt_providers rt"
  "rt_host (memory_runtime ch rt) = rt_host rt" "host_returns (memory_runtime ch rt) = host_returns rt"
  by (simp_all add: memory_runtime_def host_returns_def)

section \<open>What the worker relies on\<close>

text \<open>
  Others only use the store's operations, without the worker's token; a panic of one of them
  poisons the lock for good.
\<close>

definition others_rely :: "chrono_ops \<Rightarrow> mem_store runtime \<Rightarrow> claim \<Rightarrow> bool" where
  "others_rely ch rt d \<longleftrightarrow>
     (\<forall>n s. st_poisoned (rt_others rt n s) \<or>
            \<not> st_poisoned s \<and> interference ch d (st_state s) (st_state (rt_others rt n s)))"

definition in_step :: "chrono_ops \<Rightarrow> claim \<Rightarrow> mem_state \<Rightarrow> bool" where
  "in_step ch d st \<longleftrightarrow>
     reachable ch st \<and> fenced d st \<and>
     (terminal (rr_status (cl_run d)) \<longrightarrow> finished_at (run_id (cl_run d)) (cl_run d) st)"

definition mem_sane :: "chrono_ops \<Rightarrow> mem_store runtime \<Rightarrow> claim \<Rightarrow> mem_store \<Rightarrow> bool" where
  "mem_sane ch rt d s \<longleftrightarrow>
     host_returns rt \<and> others_rely ch rt d \<and> (st_poisoned s \<or> in_step ch d (st_state s))"

lemma others_rely_cong:
  "others_rely ch rt d \<Longrightarrow> cl_token c = cl_token d \<Longrightarrow> rr_plan (cl_run c) = rr_plan (cl_run d) \<Longrightarrow> others_rely ch rt c"
  unfolding others_rely_def using interference_cong by blast

lemma in_step_commit:
  assumes "in_step ch d st" "drafts d c" "mem_commit_run ch c [] st = (st', r)"
  shows "case r of Ok c' \<Rightarrow> c' = bump_revision c \<and> in_step ch c' st' | Err _ \<Rightarrow> st' = st | Panic \<Rightarrow> False"
proof -
  from assms(1,2) have "fenced d st" "run_evolves (cl_run d) (cl_run c)" "cl_token c = cl_token d"
    "rr_revision (cl_run c) = rr_revision (cl_run d)"
    by (simp_all add: in_step_def drafts_def same_lease_def)
  note own = own_commit [OF this assms(3)]
  have "reachable ch st'" using reachable_step [OF _ own(1)] assms(1) by (simp add: in_step_def)
  with own(2) show ?thesis
    by (auto simp: in_step_def finished_at_def fenced_def dest: fenced_inv split: res.splits)
qed

lemma mem_sane_commit:
  assumes "mem_sane ch rt d s" "drafts d c" "with_lock (mem_commit_run ch c []) s = (s', r)"
  shows "case r of Ok c' \<Rightarrow> c' = bump_revision c \<and> mem_sane ch rt c' s' | Err _ \<Rightarrow> mem_sane ch rt d s' | Panic \<Rightarrow> False"
proof (cases "st_poisoned s")
  case True
  with assms show ?thesis by (auto simp: with_lock_def)
next
  case False
  obtain st' where run: "mem_commit_run ch c [] (st_state s) = (st', r)"
    and s': "s' = s\<lparr>st_state := st', st_poisoned := (r = Panic)\<rparr>"
    using assms(3) False by (auto simp: with_lock_def split: prod.splits)
  have "in_step ch d (st_state s)" using assms(1) False by (simp add: mem_sane_def)
  note res = in_step_commit [OF this assms(2) run]
  have rely: "others_rely ch rt (bump_revision c)"
    by (rule others_rely_cong [of ch rt d])
       (use assms(1,2) in \<open>simp_all add: mem_sane_def drafts_def same_lease_def run_evolves_def\<close>)
  show ?thesis
  proof (cases r)
    case (Ok c')
    with res have c': "c' = bump_revision c" "in_step ch c' st'" by auto
    with Ok rely assms(1) s' show ?thesis by (simp add: mem_sane_def)
  next
    case (Err e)
    with res have "st' = st_state s" by simp
    with Err assms(1) s' False show ?thesis by (simp add: mem_sane_def)
  qed (use res in simp)
qed

lemma mem_sane_others:
  assumes "mem_sane ch rt d s" shows "mem_sane ch rt d (rt_others rt n s)"
proof (cases "st_poisoned (rt_others rt n s)")
  case False
  with assms have int: "interference ch d (st_state s) (st_state (rt_others rt n s))"
    and "in_step ch d (st_state s)"
    by (auto simp: mem_sane_def others_rely_def)
  then have "in_step ch d (st_state (rt_others rt n s))"
    unfolding in_step_def
    using interference_fenced [OF int] interference_reachable [OF int] interference_finished [OF int] by blast
  with assms show ?thesis by (simp add: mem_sane_def)
qed (use assms in \<open>simp add: mem_sane_def\<close>)

interpretation memory_store: run_store "memory_ops ch" "mem_sane ch rt" for ch rt
  by unfold_locales (use mem_sane_commit in \<open>simp add: memory_ops_def\<close>)

interpretation memory: engine "memory_runtime ch rt" "mem_sane ch rt" for ch rt
proof
  show "case r of Ok c' \<Rightarrow> c' = bump_revision c \<and> mem_sane ch rt c' s' | Err x \<Rightarrow> mem_sane ch rt d s' | Panic \<Rightarrow> False"
    if "mem_sane ch rt d s" "drafts d c" "so_commit (rt_store (memory_runtime ch rt)) c [] s = (s', r)" for d s c s' r
    using mem_sane_commit [OF that(1,2)] that(3) by (simp add: memory_ops_def)
  show "mem_sane ch rt d (rt_others (memory_runtime ch rt) n s)" if "mem_sane ch rt d s" for d s n
    using mem_sane_others [OF that] by simp
  show "host_returns (memory_runtime ch rt)" if "mem_sane ch rt d s" for d s
    using that by (simp add: mem_sane_def)
qed

section \<open>Dispatches in a trace\<close>

fun is_dispatch :: "trace_event \<Rightarrow> bool" where
  "is_dispatch (Dispatched i) = True"
| "is_dispatch _ = False"

lemma list_ex_dispatch: "list_ex is_dispatch t \<longleftrightarrow> (\<exists>i. Dispatched i \<in> set t)"
proof (induction t)
  case (Cons e t)
  then show ?case by (cases e) auto
qed simp

section \<open>A worker that just claimed a run\<close>

definition worker_ready :: "chrono_ops \<Rightarrow> mem_store runtime \<Rightarrow> claim \<Rightarrow> mem_store world \<Rightarrow> bool" where
  "worker_ready ch rt c w \<longleftrightarrow>
     host_returns rt \<and> others_rely ch rt c \<and> \<not> st_poisoned (w_store w) \<and>
     (\<exists>st ulid executor worker now lease. reachable ch st \<and>
        mem_claim_run ch ulid executor worker now lease st = (st_state (w_store w), Ok (Some c)))"

lemma worker_readyD:
  assumes "worker_ready ch rt c w"
  shows "mem_sane ch rt c (w_store w)" "run_wf (cl_run c)" "\<not> terminal (rr_status (cl_run c))"
proof -
  from assms obtain st ulid executor worker now lease where st: "reachable ch st"
    "mem_claim_run ch ulid executor worker now lease st = (st_state (w_store w), Ok (Some c))"
    by (auto simp: worker_ready_def)
  note c = claim_fenced [OF st(2) reachable_inv [OF st(1)]]
  have "reachable ch (st_state (w_store w))" using reachable_step [OF st(1) step_claim [OF st(2)]] by simp
  with assms c show "mem_sane ch rt c (w_store w)" "run_wf (cl_run c)" "\<not> terminal (rr_status (cl_run c))"
    by (simp_all add: worker_ready_def mem_sane_def in_step_def)
qed

lemma worker_prepared:
  assumes "worker_ready ch rt c w"
  shows "host_returns (memory_runtime ch rt)" "memory.prepared ch rt c (w_trace w) c w"
proof -
  show "host_returns (memory_runtime ch rt)" using assms by (simp add: worker_ready_def)
  have "sync (memory_runtime ch rt) (mem_sane ch rt) c (w_trace w) c w"
    unfolding sync_def using worker_readyD [OF assms] by (intro conjI exI [of _ "[]"]) simp_all
  then show "memory.prepared ch rt c (w_trace w) c w" by (rule sync_ready)
qed

lemma worker_returns:
  assumes "worker_ready ch rt c w" "length (pr_steps (rr_plan (cl_run c))) < fuel"
  shows "memory.returns_ok ch rt c (w_trace w) (memory.reported ch rt c (w_trace w))
           (execute_claim (memory_runtime ch rt) fuel c w)"
  by (rule memory.execute_claim_returns [OF worker_readyD [OF assms(1)] assms(2)])

text \<open>However the execution ends, its trace kept the discipline and the store is in order.\<close>

lemma worker_synced:
  assumes "worker_ready ch rt c w" "length (pr_steps (rr_plan (cl_run c))) < fuel"
    and "execute_claim (memory_runtime ch rt) fuel c w = Some (w', r)"
  obtains c' where "sync (memory_runtime ch rt) (mem_sane ch rt) c (w_trace w) c' w'" "r \<noteq> Panic"
    "\<And>out. r = Ok out \<Longrightarrow> terminal (rr_status (cl_run c')) \<and> out = completed c' (rr_status (cl_run c'))"
proof (cases r)
  case (Ok out)
  with worker_returns [OF assms(1,2)] assms(3) have "memory.reported ch rt c (w_trace w) out w'"
    by (simp add: memory.returns_ok_def)
  with that Ok show ?thesis by (auto simp: memory.reported_def)
qed (use worker_returns [OF assms(1,2)] assms(3) that in \<open>auto simp: memory.returns_ok_def\<close>)

end
