(* ===== verification/Engine_Examples.thy ===== *)
theory Engine_Examples
  imports Engine_Memory Store_Examples
begin

text \<open>
  A concrete runtime over the in-memory store, with one provider that answers every invocation with
  matching evidence, and the claims at which the properties of the engine are evaluated: a fresh run,
  a run whose dispatch was interrupted, and a run whose cancellation was requested.
\<close>

section \<open>The runtime\<close>

definition ex_action :: json where
  "ex_action = jobj [(''id'', JStr ''act''), (''input_schema'', jobj [(''value'', JNull)]),
     (''output_schema'', jobj [(''value'', JNull)]), (''version'', JStr ''1'')]"

definition ex_live_step :: planned_step where
  "ex_live_step = ex_step\<lparr>ps_action_contract := ex_action\<rparr>"

definition ex_answer :: "action_invocation \<Rightarrow> action_outcome" where
  "ex_answer i =
     \<lparr> ou_kind = ''mdbase.action.outcome'', ou_profile_version = ''0.1'', ou_request_id = ai_request_id i,
       ou_invocation_id = ai_invocation_id i, ou_attempt_id = ai_attempt_id i, ou_contract = ai_contract i,
       ou_provider = ai_provider i, ou_provider_declaration_digest = ai_provider_declaration_digest i,
       ou_status = ''succeeded'', ou_output = Some (JBool True), ou_error = None \<rparr>"

definition ex_provider :: action_provider where
  "ex_provider = \<lparr> pv_dispatch = (\<lambda>_ i. Ok (ex_answer i)), pv_cancel = default_cancel \<rparr>"

definition ex_host :: host where
  "ex_host = \<lparr> h_chrono = ex_chrono, h_cel = ex_cel, h_schema = (\<lambda>_. Ok (\<lambda>_. [])),
     h_contract_digest = (\<lambda>_. Ok ''d''), h_sha256 = (\<lambda>s. s), h_ser_outcome = (\<lambda>_. JNull) \<rparr>"

definition ex_config :: runtime_config where
  "ex_config = \<lparr> rc_runtime_id = ''rt'', rc_executor_id = ''local'', rc_worker_id = ''wA'', rc_actor_id = ''actor'',
     rc_actor_kind = ''service'', rc_identity = ex_identity, rc_timezone = None, rc_lease_duration = 100,
     rc_max_items = 10 \<rparr>"

definition ex_runtime :: "mem_store runtime" where
  "ex_runtime = \<lparr> rt_store = memory_ops ex_chrono,
     rt_providers = fst (registry_register (''pd'', ''h'') ex_provider []),
     rt_authorizer = (\<lambda>_ _. AuthAllow), rt_clock = (\<lambda>n. 20 + int n), rt_config = ex_config, rt_host = ex_host,
     rt_ulid = (\<lambda>_. ''U''), rt_elapses = (\<lambda>_ _. False), rt_others = (\<lambda>_ s. s) \<rparr>"

definition ex_denying :: "mem_store runtime" where
  "ex_denying = ex_runtime\<lparr>rt_authorizer := deny_all_authorize\<rparr>"

lemma ex_host_returns: "host_returns ex_runtime" "host_returns ex_denying"
  by (auto simp: host_returns_def ex_denying_def ex_runtime_def ex_host_def ex_cel_def cel_returns_def
      registry_register_def bt_get_def ex_provider_def default_cancel_def split: if_splits)

lemma ex_rely: "others_rely ex_chrono ex_runtime d" "others_rely ex_chrono ex_denying d"
  by (auto simp: others_rely_def ex_denying_def ex_runtime_def intro: idle)

definition ex_world :: "mem_state \<Rightarrow> mem_store world" where
  "ex_world st = \<lparr> w_store = \<lparr> st_state = st, st_poisoned = False \<rparr>, w_tick = 0, w_trace = [] \<rparr>"

lemma ex_ready:
  assumes "reachable ex_chrono st" "mem_claim_run ex_chrono ulid executor worker now lease st = (st', Ok (Some c))"
  shows "worker_ready ex_chrono ex_runtime c (ex_world st')" "worker_ready ex_chrono ex_denying c (ex_world st')"
  unfolding worker_ready_def ex_world_def using assms ex_host_returns ex_rely by fastforce+

section \<open>The claims\<close>

definition ex_live_event :: prepared_event where
  "ex_live_event = ex_event ''e1'' [(ex_plan ''r1'' Queue)\<lparr>pr_steps := [ex_live_step]\<rparr>]"

definition ex_live_st :: mem_state where
  "ex_live_st = fst (mem_admit_event ex_chrono ex_live_event mem_empty)"

definition ex_claimed :: "string \<Rightarrow> time \<Rightarrow> mem_state \<Rightarrow> mem_state \<times> claim" where
  "ex_claimed ulid now st =
     (case mem_claim_run ex_chrono ulid ''local'' ''wA'' now 100 st of
        (st', Ok (Some c)) \<Rightarrow> (st', c) | (st', _) \<Rightarrow> (st', ex_claim1))"

lemma ex_claimed_ok:
  assumes "snd (mem_claim_run ex_chrono ulid ''local'' ''wA'' now 100 st) = Ok (Some (snd (ex_claimed ulid now st)))"
  shows "mem_claim_run ex_chrono ulid ''local'' ''wA'' now 100 st =
           (fst (ex_claimed ulid now st), Ok (Some (snd (ex_claimed ulid now st))))"
  using assms by (cases "mem_claim_run ex_chrono ulid ''local'' ''wA'' now 100 st")
    (auto simp: ex_claimed_def split: res.splits option.splits)

definition ex_begun :: claim where
  "ex_begun = (snd (ex_claimed ''U1'' 10 ex_live_st))\<lparr>cl_run :=
     (cl_run (snd (ex_claimed ''U1'' 10 ex_live_st)))\<lparr>
        rr_attempts := [new_attempt ex_live_step None ''inv'' 1 JNull 11], rr_active_attempt := Some 0\<rparr>\<rparr>"

definition ex_begun_st :: mem_state where
  "ex_begun_st = fst (mem_commit_run ex_chrono ex_begun [] (fst (ex_claimed ''U1'' 10 ex_live_st)))"

definition ex_cancelled_st :: mem_state where
  "ex_cancelled_st = fst (mem_request_cancel ''r1'' 50 (fst (ex_claimed ''U1'' 10 ex_live_st)))"

lemma ex_live_reachable: "reachable ex_chrono ex_live_st"
proof -
  have "is_ok (snd (mem_admit_event ex_chrono ex_live_event mem_empty))" by code_simp
  then obtain out where "mem_admit_event ex_chrono ex_live_event mem_empty = (ex_live_st, Ok out)"
    unfolding ex_live_st_def by (cases "mem_admit_event ex_chrono ex_live_event mem_empty")
      (auto simp: is_ok_def split: res.splits)
  from reachable_step [OF reachable_empty step_admit [OF this]] show ?thesis .
qed

lemma ex_claims:
  "snd (mem_claim_run ex_chrono ''U1'' ''local'' ''wA'' 10 100 ex_live_st) = Ok (Some (snd (ex_claimed ''U1'' 10 ex_live_st)))"
  "snd (mem_claim_run ex_chrono ''U2'' ''local'' ''wA'' 300 100 ex_begun_st) = Ok (Some (snd (ex_claimed ''U2'' 300 ex_begun_st)))"
  "snd (mem_claim_run ex_chrono ''U2'' ''local'' ''wA'' 300 100 ex_cancelled_st) = Ok (Some (snd (ex_claimed ''U2'' 300 ex_cancelled_st)))"
  by code_simp+

lemmas ex_claim_runs = ex_claims [THEN ex_claimed_ok]

lemma ex_first_reachable: "reachable ex_chrono (fst (ex_claimed ''U1'' 10 ex_live_st))"
  using reachable_step [OF ex_live_reachable step_claim [OF ex_claim_runs(1)]] by simp

lemma ex_cancelled_reachable: "reachable ex_chrono ex_cancelled_st"
  unfolding ex_cancelled_st_def
  by (rule reachable_step [OF ex_first_reachable step_cancel]) (rule prod.collapse [symmetric])

lemma ex_begun_reachable: "reachable ex_chrono ex_begun_st"
proof -
  let ?c = "snd (ex_claimed ''U1'' 10 ex_live_st)"
  note c = claim_fenced [OF ex_claim_runs(1) reachable_inv [OF ex_live_reachable]]
  have "rr_next_step (cl_run ?c) = 0" "length (rr_steps (cl_run ?c)) = 1" by code_simp+
  then have "run_evolves (cl_run ?c) (cl_run ex_begun)"
    using c(2) by (auto simp: run_evolves_def run_wf_def ex_begun_def new_attempt_def)
  from own_commit(1) [OF c(1) this] have "store_step ex_chrono (CommitRun ex_begun [])
      (fst (ex_claimed ''U1'' 10 ex_live_st)) ex_begun_st"
    by (simp add: ex_begun_def ex_begun_st_def prod_eq_iff)
  from reachable_step [OF ex_first_reachable this] show ?thesis .
qed

definition ex_fresh :: claim where
  "ex_fresh = snd (ex_claimed ''U1'' 10 ex_live_st)"

definition ex_fresh_world :: "mem_store world" where
  "ex_fresh_world = ex_world (fst (ex_claimed ''U1'' 10 ex_live_st))"

lemma ex_fresh_ready:
  "worker_ready ex_chrono ex_runtime ex_fresh ex_fresh_world" "worker_ready ex_chrono ex_denying ex_fresh ex_fresh_world"
  unfolding ex_fresh_def ex_fresh_world_def by (rule ex_ready [OF ex_live_reachable ex_claim_runs(1)])+

lemma ex_fresh_steps: "length (pr_steps (rr_plan (cl_run ex_fresh))) < 2"
  by code_simp

lemma ex_denied: "execute_claim (memory_runtime ex_chrono ex_denying) 2 ex_fresh ex_fresh_world \<noteq> None"
  by code_simp

lemma ex_fresh_run:
  "map_option snd (execute_claim (memory_runtime ex_chrono ex_runtime) 2 ex_fresh ex_fresh_world) =
     Some (Ok (Completed ''r1'' RunSucceeded))"
  by code_simp

lemma ex_fresh_dispatches:
  "case execute_claim (memory_runtime ex_chrono ex_runtime) 2 ex_fresh ex_fresh_world of
     None \<Rightarrow> False
   | Some (w', r) \<Rightarrow> list_ex is_dispatch (w_trace w')"
  by code_simp

lemma ex_fresh_unpoisoned:
  "case execute_claim (memory_runtime ex_chrono ex_runtime) 2 ex_fresh ex_fresh_world of
     None \<Rightarrow> False | Some (w', r) \<Rightarrow> \<not> st_poisoned (w_store w')"
  by code_simp

end
