(* ===== verification/Engine_Properties.thy ===== *)
theory Engine_Properties
  imports Engine_Examples
begin

text \<open>
  What the engine guarantees over the in-memory store: the execution of a claimed run returns without
  panicking, keeps the write-ahead discipline towards providers, reports what the store holds, and is
  a sequence of legal store transitions. Then the branches that decide whether a provider is called at
  all: recovery of an interrupted dispatch, a missing authorizer, a cancellation request, and the
  evidence a provider's outcome has to carry.
\<close>

section \<open>Execution\<close>

text \<open>
  C13: Executing a claimed run always comes to an end: with fuel for one iteration per planned step the
  execution returns, and it returns a result or an error value, never a panic, whatever the store
  contains, the other workers do and the providers, expressions and schemas answer.
\<close>

theorem execute_claim_terminates:
  assumes "worker_ready ch rt c w" "length (pr_steps (rr_plan (cl_run c))) < fuel"
  shows "\<exists>w' r. execute_claim (memory_runtime ch rt) fuel c w = Some (w', r) \<and> r \<noteq> Panic"
  using worker_returns [OF assms] by (auto simp: memory.returns_ok_def split: option.splits)

theorem execute_claim_terminates_witness:
  "\<exists>w' r. execute_claim (memory_runtime ex_chrono ex_runtime) 2 ex_fresh ex_fresh_world = Some (w', r) \<and> r \<noteq> Panic"
  by (rule execute_claim_terminates [OF ex_fresh_ready(1) ex_fresh_steps])

text \<open>
  C11: Providers are called write-ahead. Every dispatch in an execution is for the active attempt of the
  run as it is durable at that moment: the attempt is recorded as dispatching under the invocation's id
  and input, the run is not finished, and the host authorized exactly this invocation.
\<close>

theorem dispatch_write_ahead:
  assumes "worker_ready ch rt c w" "length (pr_steps (rr_plan (cl_run c))) < fuel"
    and "execute_claim (memory_runtime ch rt) fuel c w = Some (w', r)"
  shows "\<exists>t. w_trace w' = w_trace w @ t \<and>
    (\<forall>t1 i t2. t = t1 @ Dispatched i # t2 \<longrightarrow> write_ahead (durable c t1) i \<and> authorized rt i)"
proof -
  obtain c' where "sync (memory_runtime ch rt) (mem_sane ch rt) c (w_trace w) c' w'"
    by (rule worker_synced [OF assms])
  then obtain t where t: "w_trace w' = w_trace w @ t" "trace_ok (memory_runtime ch rt) c t"
    by (auto simp: sync_def)
  have "write_ahead (durable c t1) i \<and> authorized rt i" if "t = t1 @ Dispatched i # t2" for t1 i t2
    using trace_ok_split [of "memory_runtime ch rt" c t1 "Dispatched i" t2] t(2) that
    by (simp add: event_ok_def authorized_def)
  with t(1) show ?thesis by blast
qed

theorem dispatch_write_ahead_witness:
  "\<exists>t1 i t2. w_trace (fst (the (execute_claim (memory_runtime ex_chrono ex_runtime) 2 ex_fresh ex_fresh_world))) = t1 @ Dispatched i # t2 \<and>
     write_ahead (durable ex_fresh t1) i \<and> authorized ex_runtime i"
proof -
  obtain w' r where run: "execute_claim (memory_runtime ex_chrono ex_runtime) 2 ex_fresh ex_fresh_world = Some (w', r)"
    using ex_fresh_run by fastforce
  have "list_ex is_dispatch (w_trace w')"
    using ex_fresh_dispatches run by simp
  then obtain i where "Dispatched i \<in> set (w_trace w')" by (auto simp: list_ex_dispatch)
  then obtain t1 t2 where t: "w_trace w' = t1 @ Dispatched i # t2" by (auto simp: in_set_conv_decomp)
  have "w_trace ex_fresh_world = []" by (simp add: ex_fresh_world_def ex_world_def)
  with dispatch_write_ahead [OF ex_fresh_ready(1) ex_fresh_steps run] t
  have "write_ahead (durable ex_fresh t1) i \<and> authorized ex_runtime i" by auto
  with t run show ?thesis by (intro exI [of _ t1] exI [of _ i] exI [of _ t2]) simp
qed

text \<open>
  What the worker reports is what is stored. When the execution returns an outcome, it is
  \<open>Completed\<close> with the run's id and a final status, and the store holds, under that id, exactly the run
  the worker committed last, with that status, unless a panic elsewhere poisoned the store.
\<close>

theorem execute_claim_reports_stored_run:
  assumes "worker_ready ch rt c w" "length (pr_steps (rr_plan (cl_run c))) < fuel"
    and "execute_claim (memory_runtime ch rt) fuel c w = Some (w', Ok out)"
  shows "\<exists>t run. w_trace w' = w_trace w @ t \<and> run = cl_run (durable c t) \<and>
    out = Completed (run_id (cl_run c)) (rr_status run) \<and> terminal (rr_status run) \<and>
    (st_poisoned (w_store w') \<or> bt_get (ms_runs (st_state (w_store w'))) (run_id (cl_run c)) = Some run)"
proof -
  obtain c' where c': "sync (memory_runtime ch rt) (mem_sane ch rt) c (w_trace w) c' w'"
    "terminal (rr_status (cl_run c')) \<and> out = completed c' (rr_status (cl_run c'))"
    using worker_synced [OF assms] by (metis (no_types, lifting))
  from c'(1) obtain t where t: "w_trace w' = w_trace w @ t" "durable c t = c'"
    and sane: "mem_sane ch rt c' (w_store w')" by (auto simp: sync_def)
  have "rr_plan (cl_run c') = rr_plan (cl_run c)" using sync_run(3) [OF c'(1)] .
  with c'(2) sane have "out = Completed (run_id (cl_run c)) (rr_status (cl_run c'))"
    "st_poisoned (w_store w') \<or> bt_get (ms_runs (st_state (w_store w'))) (run_id (cl_run c)) = Some (cl_run c')"
    by (auto simp: completed_def mem_sane_def in_step_def finished_at_def)
  with t c'(2) show ?thesis by (intro exI [of _ t] exI [of _ "cl_run c'"]) simp
qed

theorem execute_claim_reports_stored_run_witness:
  "\<exists>w' run. execute_claim (memory_runtime ex_chrono ex_runtime) 2 ex_fresh ex_fresh_world = Some (w', Ok (Completed ''r1'' RunSucceeded)) \<and>
     bt_get (ms_runs (st_state (w_store w'))) ''r1'' = Some run \<and> rr_status run = RunSucceeded"
proof -
  obtain w' where run: "execute_claim (memory_runtime ex_chrono ex_runtime) 2 ex_fresh ex_fresh_world = Some (w', Ok (Completed ''r1'' RunSucceeded))"
    using ex_fresh_run by fastforce
  have "run_id (cl_run ex_fresh) = ''r1''" by code_simp
  moreover have "\<not> st_poisoned (w_store w')" using ex_fresh_unpoisoned run by simp
  ultimately show ?thesis
    using execute_claim_reports_stored_run [OF ex_fresh_ready(1) ex_fresh_steps run] run by auto
qed

text \<open>
  C12: The engine is a lawful client of the store. Whatever an execution did, every commit in its trace is
  an evolution of the run that was durable before it, under the same lease and with the revision raised
  by one, and the store it leaves is a reachable state of the store's transition system, so that all
  invariants of the store hold for it, unless a panic elsewhere poisoned the store.
\<close>

theorem engine_refines_store:
  assumes "worker_ready ch rt c w" "length (pr_steps (rr_plan (cl_run c))) < fuel"
    and "execute_claim (memory_runtime ch rt) fuel c w = Some (w', r)"
  shows "(st_poisoned (w_store w') \<or> reachable ch (st_state (w_store w'))) \<and>
    (\<exists>t. w_trace w' = w_trace w @ t \<and>
      (\<forall>t1 d t2. t = t1 @ Committed d # t2 \<longrightarrow>
         run_evolves (cl_run (durable c t1)) (cl_run d) \<and> same_lease c d \<and>
         rr_revision (cl_run d) = rr_revision (cl_run (durable c t1)) + 1))"
proof -
  obtain c' where c': "sync (memory_runtime ch rt) (mem_sane ch rt) c (w_trace w) c' w'"
    by (rule worker_synced [OF assms])
  then obtain t where t: "w_trace w' = w_trace w @ t" "trace_ok (memory_runtime ch rt) c t"
    and sane: "mem_sane ch rt c' (w_store w')" by (auto simp: sync_def)
  have "run_evolves (cl_run (durable c t1)) (cl_run d) \<and> same_lease c d \<and>
      rr_revision (cl_run d) = rr_revision (cl_run (durable c t1)) + 1"
    if "t = t1 @ Committed d # t2" for t1 d t2
  proof -
    from t(2) that have t1: "trace_ok (memory_runtime ch rt) c t1" and
      ev: "event_ok (memory_runtime ch rt) (durable c t1) (Committed d)"
      using trace_ok_split trace_ok_prefix by blast+
    from trace_ok_evolves [OF t1 worker_readyD(2) [OF assms(1)]] ev show ?thesis
      by (auto simp: event_ok_def same_lease_def)
  qed
  with t(1) sane show ?thesis by (auto simp: mem_sane_def in_step_def)
qed

theorem engine_refines_store_witness:
  "\<exists>w'. execute_claim (memory_runtime ex_chrono ex_runtime) 2 ex_fresh ex_fresh_world = Some (w', Ok (Completed ''r1'' RunSucceeded)) \<and>
     reachable ex_chrono (st_state (w_store w'))"
proof -
  obtain w' where run: "execute_claim (memory_runtime ex_chrono ex_runtime) 2 ex_fresh ex_fresh_world = Some (w', Ok (Completed ''r1'' RunSucceeded))"
    using ex_fresh_run by fastforce
  moreover have "\<not> st_poisoned (w_store w')" using ex_fresh_unpoisoned run by simp
  ultimately show ?thesis using engine_refines_store [OF ex_fresh_ready(1) ex_fresh_steps run] by blast
qed

section \<open>When a provider is not called\<close>

text \<open>
  Without an authorizer of the host nothing is dispatched: under the default authorizer, which
  denies everything, no execution ever calls a provider.
\<close>

theorem deny_all_never_dispatches:
  assumes "worker_ready ch rt c w" "length (pr_steps (rr_plan (cl_run c))) < fuel"
    and "execute_claim (memory_runtime ch rt) fuel c w = Some (w', r)"
    and "rt_authorizer rt = deny_all_authorize"
  shows "\<exists>t. w_trace w' = w_trace w @ t \<and> \<not> list_ex is_dispatch t"
proof -
  obtain c' where "sync (memory_runtime ch rt) (mem_sane ch rt) c (w_trace w) c' w'"
    by (rule worker_synced [OF assms(1-3)])
  then obtain t where t: "w_trace w' = w_trace w @ t" "trace_ok (memory_runtime ch rt) c t"
    by (auto simp: sync_def)
  have "Dispatched i \<notin> set t" for i
  proof
    assume "Dispatched i \<in> set t"
    then obtain t1 t2 where "t = t1 @ Dispatched i # t2" by (auto simp: in_set_conv_decomp)
    with trace_ok_split [of "memory_runtime ch rt" c t1 "Dispatched i" t2] t(2)
    show False by (simp add: event_ok_def authorized_def assms(4) deny_all_authorize_def)
  qed
  then have "\<not> list_ex is_dispatch t"
    by (auto simp: list_ex_dispatch)
  with t(1) show ?thesis by blast
qed

theorem deny_all_never_dispatches_witness:
  "\<exists>w' r. execute_claim (memory_runtime ex_chrono ex_denying) 2 ex_fresh ex_fresh_world = Some (w', r) \<and>
     \<not> list_ex is_dispatch (w_trace w')"
proof -
  obtain w' r where run: "execute_claim (memory_runtime ex_chrono ex_denying) 2 ex_fresh ex_fresh_world = Some (w', r)"
    using ex_denied by fastforce
  moreover have "rt_authorizer ex_denying = deny_all_authorize" "w_trace ex_fresh_world = []"
    by (simp_all add: ex_denying_def ex_fresh_world_def ex_world_def)
  ultimately show ?thesis using deny_all_never_dispatches [OF ex_fresh_ready(2) ex_fresh_steps run] by auto
qed

text \<open>The worker commits one run; nothing else happens to the trace.\<close>

lemma commit_run_value_trace:
  assumes "commit_run_value rt c v w = (w', r)"
  shows "\<exists>t. w_trace w' = w_trace w @ t \<and> (\<forall>i. Dispatched i \<notin> set t)"
proof (cases v)
  case (Ok run)
  with assms have "commit_claim rt (c\<lparr>cl_run := run\<rparr>) w = (w', r)" by (simp add: commit_run_value_def)
  then show ?thesis by (auto simp: commit_claim_def store_call_def Let_def split: prod.splits res.splits)
qed (use assms in \<open>auto simp: commit_run_value_def\<close>)

text \<open>
  C14: A dispatch that may have reached its provider is not repeated unless the action is idempotent. When a
  claimed run is recovered with an active attempt that was being dispatched and is not idempotent,
  and no cancellation is pending, the execution calls no provider, and when it succeeds the run is
  completed as indeterminate.
\<close>

theorem interrupted_dispatch_not_repeated:
  assumes "worker_ready ch rt c w" "rr_active_attempt (cl_run c) = Some k"
    and "\<not> aa_idempotent (rr_attempts (cl_run c) ! k)" "rr_cancel_requested_at (cl_run c) = None"
  shows "\<exists>w' r t. execute_claim (memory_runtime ch rt) fuel c w = Some (w', r) \<and>
    w_trace w' = w_trace w @ t \<and> (\<forall>i. Dispatched i \<notin> set t) \<and>
    (r = Ok (Completed (run_id (cl_run c)) RunIndeterminate) \<or> (\<exists>e. r = Err e))"
proof -
  let ?rt = "memory_runtime ch rt" and ?m = "''A non-idempotent dispatch was interrupted before its outcome became durable.''"
  note D = worker_readyD [OF assms(1)]
  have k: "k < length (rr_attempts (cl_run c))" "rr_next_step (cl_run c) < length (rr_steps (cl_run c))"
    "aa_status (rr_attempts (cl_run c) ! k) = AttemptDispatching"
    using D(2,3) assms(2) by (auto simp: run_wf_def)
  obtain w1 r1 where run: "indeterminate_active_attempt ?rt c k ''action_outcome_indeterminate'' ?m w = (w1, r1)"
    by fastforce
  note res = specD [OF memory.indeterminate_active_attempt_spec [OF k(1,2)] worker_prepared [OF assms(1)] run]
  obtain t where t: "w_trace w1 = w_trace w @ t" "\<forall>i. Dispatched i \<notin> set t"
    using run unfolding indeterminate_active_attempt_def Let_def
    by (auto simp: act_bind_def dest!: commit_run_value_trace)
  have prep: "prepare_claim ?rt c w =
      (case r1 of Ok c1 \<Rightarrow> (w1, Ok (Return (completed c1 RunIndeterminate))) | Err e \<Rightarrow> (w1, Err e) | Panic \<Rightarrow> (w1, Panic))"
    using assms(2,3,4) k(1,3) run
    by (simp add: prepare_claim_def flow_bind_def resume_cancelled_def check_idle_deadline_def
        resume_dispatch_def act_bind_def [of "act_bind _ _"] act_bind_def [of "indeterminate_active_attempt _ _ _ _ _"]
        split: res.split)
  show ?thesis
  proof (cases r1)
    case (Ok c1)
    with res have "rr_plan (cl_run c1) = rr_plan (cl_run c)" using sync_run(3) by fastforce
    with Ok prep t show ?thesis by (auto simp: execute_claim_def completed_def)
  qed (use res prep t in \<open>auto simp: execute_claim_def\<close>)
qed

theorem interrupted_dispatch_not_repeated_witness:
  "\<exists>w' r t. execute_claim (memory_runtime ex_chrono ex_runtime) 2 (snd (ex_claimed ''U2'' 300 ex_begun_st)) (ex_world (fst (ex_claimed ''U2'' 300 ex_begun_st))) = Some (w', r) \<and>
     w_trace w' = w_trace (ex_world (fst (ex_claimed ''U2'' 300 ex_begun_st))) @ t \<and> \<not> list_ex is_dispatch t"
proof -
  have "rr_active_attempt (cl_run (snd (ex_claimed ''U2'' 300 ex_begun_st))) = Some 0" "\<not> aa_idempotent (rr_attempts (cl_run (snd (ex_claimed ''U2'' 300 ex_begun_st))) ! 0)"
    "rr_cancel_requested_at (cl_run (snd (ex_claimed ''U2'' 300 ex_begun_st))) = None" by code_simp+
  from interrupted_dispatch_not_repeated [OF ex_ready(1) [OF ex_begun_reachable ex_claim_runs(2)] this, of 2]
  obtain w' r t where "execute_claim (memory_runtime ex_chrono ex_runtime) 2 (snd (ex_claimed ''U2'' 300 ex_begun_st)) (ex_world (fst (ex_claimed ''U2'' 300 ex_begun_st))) = Some (w', r)"
    "w_trace w' = w_trace (ex_world (fst (ex_claimed ''U2'' 300 ex_begun_st))) @ t" "\<forall>i. Dispatched i \<notin> set t" by blast
  moreover from this(3) have "\<not> list_ex is_dispatch t"
    by (auto simp: list_ex_dispatch)
  ultimately show ?thesis by blast
qed

text \<open>
  A requested cancellation takes effect before the next dispatch. When a run is claimed whose
  cancellation was requested and no attempt is active, the execution calls no provider, and when it
  succeeds the run is completed as cancelled.
\<close>

theorem cancelled_run_not_dispatched:
  assumes "worker_ready ch rt c w" "rr_active_attempt (cl_run c) = None"
    and "rr_cancel_requested_at (cl_run c) \<noteq> None"
  shows "\<exists>w' r t. execute_claim (memory_runtime ch rt) fuel c w = Some (w', r) \<and>
    w_trace w' = w_trace w @ t \<and> (\<forall>i. Dispatched i \<notin> set t) \<and>
    (r = Ok (Completed (run_id (cl_run c)) RunCancelled) \<or> (\<exists>e. r = Err e))"
proof -
  let ?rt = "memory_runtime ch rt"
  note D = worker_readyD [OF assms(1)]
  obtain w1 r1 where run: "finish_cancelled ?rt c w = (w1, r1)" by fastforce
  note res = specD [OF memory.finish_cancelled_spec worker_prepared [OF assms(1)] run]
  obtain t where t: "w_trace w1 = w_trace w @ t" "\<forall>i. Dispatched i \<notin> set t"
    using run unfolding finish_cancelled_def Let_def
    by (auto simp: act_bind_def dest!: commit_run_value_trace)
  have prep: "prepare_claim ?rt c w =
      (case r1 of Ok c1 \<Rightarrow> (w1, Ok (Return (completed c1 RunCancelled))) | Err e \<Rightarrow> (w1, Err e) | Panic \<Rightarrow> (w1, Panic))"
    using assms(2,3) run
    by (auto simp: prepare_claim_def flow_bind_def resume_cancelled_def
        act_bind_def [of "act_bind _ _"] act_bind_def [of "finish_cancelled _ _"] split: res.split)
  show ?thesis
  proof (cases r1)
    case (Ok c1)
    with res have "rr_plan (cl_run c1) = rr_plan (cl_run c)" using sync_run(3) by fastforce
    with Ok prep t show ?thesis by (auto simp: execute_claim_def completed_def)
  qed (use res prep t in \<open>auto simp: execute_claim_def\<close>)
qed

theorem cancelled_run_not_dispatched_witness:
  "\<exists>w' r t. execute_claim (memory_runtime ex_chrono ex_runtime) 2 (snd (ex_claimed ''U2'' 300 ex_cancelled_st)) (ex_world (fst (ex_claimed ''U2'' 300 ex_cancelled_st))) = Some (w', r) \<and>
     w_trace w' = w_trace (ex_world (fst (ex_claimed ''U2'' 300 ex_cancelled_st))) @ t \<and> \<not> list_ex is_dispatch t"
proof -
  have "rr_active_attempt (cl_run (snd (ex_claimed ''U2'' 300 ex_cancelled_st))) = None" "rr_cancel_requested_at (cl_run (snd (ex_claimed ''U2'' 300 ex_cancelled_st))) \<noteq> None" by code_simp+
  from cancelled_run_not_dispatched [OF ex_ready(1) [OF ex_cancelled_reachable ex_claim_runs(3)] this, of 2]
  obtain w' r t where "execute_claim (memory_runtime ex_chrono ex_runtime) 2 (snd (ex_claimed ''U2'' 300 ex_cancelled_st)) (ex_world (fst (ex_claimed ''U2'' 300 ex_cancelled_st))) = Some (w', r)"
    "w_trace w' = w_trace (ex_world (fst (ex_claimed ''U2'' 300 ex_cancelled_st))) @ t" "\<forall>i. Dispatched i \<notin> set t" by blast
  moreover from this(3) have "\<not> list_ex is_dispatch t"
    by (auto simp: list_ex_dispatch)
  ultimately show ?thesis by blast
qed

text \<open>
  A provider's answer counts as success only with matching evidence. The engine accepts an output
  exactly when the outcome names this invocation, attempt, request, contract, provider and declaration,
  has the status \<open>succeeded\<close> and carries an output; an outcome for another invocation leaves the
  dispatch's effect unknown, whatever status it claims.
\<close>

theorem outcome_needs_evidence:
  "normalize_outcome h i out = Ok (output, receipt) \<longleftrightarrow>
     evidence_matches i out \<and> ou_status out = ''succeeded'' \<and> ou_output out = Some output \<and>
     receipt = h_ser_outcome h out"
  by (auto simp: normalize_outcome_def Let_def split: option.splits)

end
