(* ===== verification/Admission.thy ===== *)
theory Admission
  imports Effects
begin

text \<open>
  The admission catalog of \<open>crates/mdbase-runtime/src/admission.rs\<close> and the record check of
  \<open>schemas.rs\<close>: which contracts, declarations and runtime records a catalog accepts, which workflows an
  event starts, which provider implements a step and which capabilities the policy allows. Contract
  and event validation, the decoding of declarations, SemVer, canonical JSON and the compiled
  schemas are code of other crates and appear as the fields of \<open>interop_host\<close>.
\<close>

section \<open>The interoperability crate\<close>

record contract_requirement =
  rq_id :: string
  rq_version :: string
  rq_digest :: "string option"

record provider_selector =
  sel_application :: "string option"
  sel_implementation :: "string option"
  sel_instance_id :: "string option"

record event_binding =
  eb_requirement :: contract_requirement
  eb_resolved :: exact_contract_reference

record event_source_declaration =
  es_source :: implementation_identity
  es_contracts :: "event_binding list"
  es_declaration_digest :: string

record action_handler =
  hd_handler_id :: string
  hd_requirement :: contract_requirement
  hd_resolved :: exact_contract_reference
  hd_idempotency_mode :: "string option"
  hd_cancellation :: "string option"

record action_provider_declaration =
  ap_provider :: implementation_identity
  ap_handlers :: "action_handler list"
  ap_declaration_digest :: string

record cloud_event =
  cv_id :: string
  cv_event_type :: string
  cv_mdbasecontractversion :: string
  cv_mdbasecontractdigest :: string
  cv_mdbaseapplication :: string
  cv_mdbaseimplementation :: string
  cv_mdbaseimplementationversion :: string
  cv_mdbaseinstanceid :: "string option"

text \<open>A validation issue is its instance path and its message.\<close>

type_synonym issues = "(string \<times> string) list"

record interop_host =
  io_contract_artifact :: "json \<Rightarrow> (issues, unit) res"
  io_event_source :: "json \<Rightarrow> (issues, event_source_declaration) res"
  io_action_provider :: "json \<Rightarrow> (issues, action_provider_declaration) res"
  io_event :: "json \<Rightarrow> json \<Rightarrow> (issues, unit) res"
  io_cloud_event :: "json \<Rightarrow> (string, cloud_event) res"
  io_requirement :: "json \<Rightarrow> (string, contract_requirement) res"
  io_selector :: "json \<Rightarrow> (string, provider_selector) res"
  io_ser :: interop_ser
  io_ser_source :: "event_source_declaration \<Rightarrow> json"
  io_ser_provider :: "action_provider_declaration \<Rightarrow> json"
  io_jcs :: "json \<Rightarrow> (string, string) res"
    \<comment> \<open>\<open>serde_jcs::to_vec\<close>\<close>
  io_req_error :: "string \<Rightarrow> string option"
    \<comment> \<open>the error of \<open>VersionReq::parse\<close>, if any\<close>
  io_version_error :: "string \<Rightarrow> string option"
    \<comment> \<open>the error of \<open>Version::parse\<close>, if any\<close>
  io_req_matches :: "string \<Rightarrow> string \<Rightarrow> bool"
  io_version_le :: "string \<Rightarrow> string \<Rightarrow> bool"
  io_embedded_schema :: "string \<Rightarrow> json"
    \<comment> \<open>the schema file the crate embeds for a record type\<close>

text \<open>What SemVer documents of its precedence.\<close>

definition semver_documented :: "interop_host \<Rightarrow> bool" where
  "semver_documented io \<longleftrightarrow>
     (\<forall>a b. io_version_le io a b \<or> io_version_le io b a) \<and>
     (\<forall>a b c. io_version_le io a b \<longrightarrow> io_version_le io b c \<longrightarrow> io_version_le io a c)"

section \<open>Shared helpers\<close>

text \<open>\<open>map_err\<close>.\<close>

fun map_err :: "('e \<Rightarrow> 'f) \<Rightarrow> ('e, 'a) res \<Rightarrow> ('f, 'a) res" where
  "map_err f (Ok x) = Ok x"
| "map_err f (Err e) = Err (f e)"
| "map_err f Panic = Panic"

lemma map_err_Ok [simp]: "map_err f r = Ok x \<longleftrightarrow> r = Ok x"
  by (cases r) auto

definition required_string :: "json \<Rightarrow> string \<Rightarrow> string rresult" where
  "required_string v field =
     (case jstring_at v field of
        Some s \<Rightarrow> Ok s
      | None \<Rightarrow> Err (Diagnostic ''invalid_runtime_value''
                       (''Runtime value requires string '' @ field @ ''.'')))"

definition interop_error :: "string \<Rightarrow> issues \<Rightarrow> runtime_error" where
  "interop_error code issues =
     Diagnostic code (join_with ''; '' (map (\<lambda>(path, message). path @ '' '' @ message) issues))"

definition canonical_digest :: "host \<Rightarrow> interop_host \<Rightarrow> json \<Rightarrow> string rresult" where
  "canonical_digest h io v =
     bind_res (map_err (\<lambda>e. Diagnostic ''canonicalization_failed''
                 (''Could not canonicalize portable runtime value: '' @ e)) (io_jcs io v))
       (\<lambda>canonical. Ok (''sha256:'' @ h_sha256 h canonical))"

definition verify_declaration_digest :: "host \<Rightarrow> interop_host \<Rightarrow> json \<Rightarrow> string \<Rightarrow> unit rresult" where
  "verify_declaration_digest h io v field =
     bind_res (required_string v field) (\<lambda>expected.
       case as_object v of
         None \<Rightarrow> Panic
       | Some m \<Rightarrow>
           bind_res (canonical_digest h io (JObj (bt_remove field m))) (\<lambda>actual.
             if actual = expected then Ok ()
             else Err (Diagnostic ''declaration_digest_conflict''
                    (''Declaration digest '' @ expected @ '' does not match canonical content '' @ actual @ ''.''))))"

section \<open>Runtime records\<close>

definition record_types :: "string list" where
  "record_types = [''runtime_workflow'', ''runtime_policy'', ''runtime_provider_registration'',
     ''runtime_capability_grant'', ''runtime_run'', ''runtime_action_attempt'', ''runtime_checkpoint'',
     ''runtime_timer'', ''runtime_diagnostic'', ''runtime_dead_letter'']"

text \<open>The lazily built table; an embedded schema that does not compile is a panic.\<close>

definition schemas :: "host \<Rightarrow> interop_host \<Rightarrow> (string, json \<Rightarrow> (string \<times> string) list) btree rresult" where
  "schemas h io =
     bind_res (map_res (\<lambda>t. case h_schema h (io_embedded_schema io t) of
                           Ok validate \<Rightarrow> Ok (t, validate) | _ \<Rightarrow> Panic) record_types)
       (\<lambda>entries. Ok (foldl (\<lambda>m (t, v). bt_insert t v m) [] entries))"

definition validate_runtime_record :: "host \<Rightarrow> interop_host \<Rightarrow> json \<Rightarrow> unit rresult" where
  "validate_runtime_record h io v =
     (case jstring_at v ''type'' of
        None \<Rightarrow> Err (Diagnostic ''invalid_runtime_record'' ''Runtime record requires a string type.'')
      | Some record_type \<Rightarrow>
          bind_res (schemas h io) (\<lambda>table.
            case bt_get table record_type of
              None \<Rightarrow> Err (Diagnostic ''unknown_runtime_record_type''
                       (record_type @ '' is not in the standard Runtime 0.2 pack.''))
            | Some validate \<Rightarrow>
                (case validate v of
                   [] \<Rightarrow> Ok ()
                 | errors \<Rightarrow> Err (Diagnostic ''invalid_runtime_record''
                     (join_with ''; '' (map (\<lambda>(path, e). path @ '': '' @ e) errors))))))"

fun unique_ids :: "string \<Rightarrow> json list \<Rightarrow> string list \<Rightarrow> unit rresult" where
  "unique_ids field [] ids = Ok ()"
| "unique_ids field (v # vs) ids =
     bind_res (required_string v ''id'') (\<lambda>i.
       if i \<in> set ids
       then Err (Diagnostic ''duplicate_workflow_id'' (''Workflow repeats '' @ field @ '' ID '' @ i @ ''.''))
       else unique_ids field vs (i # ids))"

definition assert_unique_ids :: "json \<Rightarrow> string \<Rightarrow> unit rresult" where
  "assert_unique_ids workflow field = unique_ids field (jarray_at workflow field) []"

definition check_workflow :: "host \<Rightarrow> interop_host \<Rightarrow> json \<Rightarrow> unit rresult" where
  "check_workflow h io workflow =
     bind_res (validate_runtime_record h io workflow) (\<lambda>_.
     bind_res (assert_unique_ids workflow ''triggers'') (\<lambda>_.
       assert_unique_ids workflow ''steps''))"

definition validate_runtime_records :: "host \<Rightarrow> interop_host \<Rightarrow> json list \<Rightarrow> json \<Rightarrow> unit rresult" where
  "validate_runtime_records h io workflows policy =
     bind_res (validate_runtime_record h io policy) (\<lambda>_.
       if jget policy ''enabled'' \<noteq> Some (JBool True)
       then Err (Diagnostic ''runtime_policy_disabled''
                   ''Admission requires one verified, enabled runtime_policy record.'')
       else bind_res (map_res (check_workflow h io) workflows) (\<lambda>_. Ok ()))"

section \<open>Contracts and requirements\<close>

record resolved_contract =
  rc_reference :: exact_contract_reference
  rc_artifact :: json

definition invalid_requirement :: "contract_requirement \<Rightarrow> string \<Rightarrow> runtime_error" where
  "invalid_requirement q e =
     Diagnostic ''invalid_contract_requirement''
       (rq_id q @ '' has invalid SemVer requirement '' @ rq_version q @ '': '' @ e)"

definition requirement_matches ::
  "interop_host \<Rightarrow> contract_requirement \<Rightarrow> exact_contract_reference \<Rightarrow> bool rresult" where
  "requirement_matches io q exact =
     (if rq_id q \<noteq> ecr_id exact \<or> (case rq_digest q of None \<Rightarrow> False | Some d \<Rightarrow> d \<noteq> ecr_digest exact)
      then Ok False
      else case io_req_error io (rq_version q) of
        Some e \<Rightarrow> Err (invalid_requirement q e)
      | None \<Rightarrow>
          (case io_version_error io (ecr_version exact) of
             Some e \<Rightarrow> Err (Diagnostic ''invalid_contract''
                        (''Resolved version '' @ ecr_version exact @ '' is invalid: '' @ e))
           | None \<Rightarrow> Ok (io_req_matches io (rq_version q) (ecr_version exact))))"

text \<open>\<open>unwrap_or(false)\<close>.\<close>

definition or_false :: "bool rresult \<Rightarrow> bool" where
  "or_false r = (case r of Ok b \<Rightarrow> b | _ \<Rightarrow> False)"

definition requirements_overlap ::
  "interop_host \<Rightarrow> resolved_contract list \<Rightarrow> contract_requirement \<Rightarrow> contract_requirement \<Rightarrow> bool" where
  "requirements_overlap io contracts left right =
     list_ex (\<lambda>c. ecr_id (rc_reference c) = rq_id left \<and>
                  or_false (requirement_matches io left (rc_reference c)) \<and>
                  or_false (requirement_matches io right (rc_reference c))) contracts"

definition contract_type :: "resolved_contract \<Rightarrow> string option" where
  "contract_type c = jstring_at (rc_artifact c) ''contract_type''"

definition eligible_contract ::
  "interop_host \<Rightarrow> contract_requirement \<Rightarrow> string \<Rightarrow> resolved_contract \<Rightarrow> bool" where
  "eligible_contract io q kind c \<longleftrightarrow>
     ecr_id (rc_reference c) = rq_id q \<and> contract_type c = Some kind \<and>
     (case rq_digest q of None \<Rightarrow> True | Some d \<Rightarrow> d = ecr_digest (rc_reference c)) \<and>
     io_version_error io (ecr_version (rc_reference c)) = None \<and>
     io_req_matches io (rq_version q) (ecr_version (rc_reference c))"

definition resolve_requirement ::
  "interop_host \<Rightarrow> resolved_contract list \<Rightarrow> contract_requirement \<Rightarrow> string \<Rightarrow> resolved_contract rresult" where
  "resolve_requirement io contracts q kind =
     (case io_req_error io (rq_version q) of
        Some e \<Rightarrow> Err (invalid_requirement q e)
      | None \<Rightarrow>
          (case max_by_rel (\<lambda>a b. io_version_le io (ecr_version (rc_reference a)) (ecr_version (rc_reference b)))
                  (filter (eligible_contract io q kind) contracts) of
             Some c \<Rightarrow> Ok c
           | None \<Rightarrow> Err (Diagnostic ''unknown_contract''
               (''No '' @ kind @ '' contract '' @ rq_id q @ '' satisfies '' @ rq_version q @ ''.''))))"

fun resolve_contracts_from ::
  "host \<Rightarrow> interop_host \<Rightarrow> json list \<Rightarrow> resolved_contract list \<Rightarrow> resolved_contract list rresult" where
  "resolve_contracts_from h io [] contracts = Ok contracts"
| "resolve_contracts_from h io (artifact # rest) contracts =
     bind_res (map_err (interop_error ''invalid_contract'') (io_contract_artifact io artifact)) (\<lambda>_.
     bind_res (required_string artifact ''id'') (\<lambda>i.
     bind_res (required_string artifact ''version'') (\<lambda>version.
     bind_res (map_err (Diagnostic ''invalid_contract'') (h_contract_digest h artifact)) (\<lambda>digest.
       case List.find (\<lambda>c. ecr_id (rc_reference c) = i \<and> ecr_version (rc_reference c) = version) contracts of
         Some existing \<Rightarrow>
           if ecr_digest (rc_reference existing) \<noteq> digest
           then Err (Diagnostic ''contract_digest_conflict'' (i @ '' '' @ version @ '' has conflicting digests.''))
           else resolve_contracts_from h io rest contracts
       | None \<Rightarrow>
           resolve_contracts_from h io rest
             (contracts @ [\<lparr> rc_reference = \<lparr> ecr_id = i, ecr_version = version, ecr_digest = digest \<rparr>,
                             rc_artifact = artifact \<rparr>])))))"

definition resolve_contracts :: "host \<Rightarrow> interop_host \<Rightarrow> json list \<Rightarrow> resolved_contract list rresult" where
  "resolve_contracts h io artifacts = resolve_contracts_from h io artifacts []"

section \<open>Declarations\<close>

definition declared_bindings ::
  "event_source_declaration list \<Rightarrow> action_provider_declaration list \<Rightarrow>
     (contract_requirement \<times> exact_contract_reference \<times> string) list" where
  "declared_bindings sources providers =
     map (\<lambda>b. (eb_requirement b, eb_resolved b, ''event'')) (concat (map es_contracts sources)) @
     map (\<lambda>a. (hd_requirement a, hd_resolved a, ''action'')) (concat (map ap_handlers providers))"

definition check_binding ::
  "interop_host \<Rightarrow> resolved_contract list \<Rightarrow> contract_requirement \<times> exact_contract_reference \<times> string \<Rightarrow> unit rresult" where
  "check_binding io contracts b =
     (case b of (q, resolved, expected) \<Rightarrow>
        bind_res (requirement_matches io q resolved) (\<lambda>matches.
          if \<not> matches \<or>
             list_all (\<lambda>c. rc_reference c \<noteq> resolved \<or> contract_type c \<noteq> Some expected) contracts
          then Err (Diagnostic ''invalid_implementation_declaration''
                 (''Declaration does not resolve '' @ ecr_id resolved @ '' '' @ ecr_version resolved @
                  '' to a registered '' @ expected @ '' contract.''))
          else Ok ()))"

definition validate_declaration_contracts ::
  "interop_host \<Rightarrow> resolved_contract list \<Rightarrow> event_source_declaration list \<Rightarrow>
     action_provider_declaration list \<Rightarrow> unit rresult" where
  "validate_declaration_contracts io contracts sources providers =
     bind_res (map_res (check_binding io contracts) (declared_bindings sources providers)) (\<lambda>_. Ok ())"

definition provider_selector_of :: "interop_host \<Rightarrow> json \<Rightarrow> provider_selector rresult" where
  "provider_selector_of io v =
     map_err (\<lambda>e. Diagnostic ''invalid_provider_selector'' (''Provider selector is invalid: '' @ e))
       (io_selector io v)"

definition requirement_of :: "interop_host \<Rightarrow> json option \<Rightarrow> string \<Rightarrow> contract_requirement rresult" where
  "requirement_of io v label =
     map_err (\<lambda>e. Diagnostic ''invalid_contract_requirement''
                    (label @ '' has an invalid contract requirement: '' @ e))
       (io_requirement io (case v of None \<Rightarrow> JNull | Some x \<Rightarrow> x))"

text \<open>\<open>is_none_or\<close> on the three parts of a selector.\<close>

definition matches_selector :: "implementation_identity \<Rightarrow> provider_selector \<Rightarrow> bool" where
  "matches_selector identity selector \<longleftrightarrow>
     (case sel_application selector of None \<Rightarrow> True | Some v \<Rightarrow> v = ii_application identity) \<and>
     (case sel_implementation selector of None \<Rightarrow> True | Some v \<Rightarrow> v = ii_implementation identity) \<and>
     (case sel_instance_id selector of None \<Rightarrow> True | Some v \<Rightarrow> ii_instance_id identity = Some v)"

section \<open>The catalog\<close>

record admission_catalog =
  ca_contracts :: "resolved_contract list"
  ca_event_sources :: "event_source_declaration list"
  ca_action_providers :: "action_provider_declaration list"
  ca_workflows :: "json list"
  ca_policy :: json
  ca_revision :: string

definition load_event_source :: "host \<Rightarrow> interop_host \<Rightarrow> json \<Rightarrow> event_source_declaration rresult" where
  "load_event_source h io v =
     bind_res (map_err (interop_error ''invalid_event_source'') (io_event_source io v)) (\<lambda>declaration.
     bind_res (verify_declaration_digest h io v ''declaration_digest'') (\<lambda>_. Ok declaration))"

definition load_action_provider :: "host \<Rightarrow> interop_host \<Rightarrow> json \<Rightarrow> action_provider_declaration rresult" where
  "load_action_provider h io v =
     bind_res (map_err (interop_error ''invalid_action_provider'') (io_action_provider io v)) (\<lambda>declaration.
     bind_res (verify_declaration_digest h io v ''declaration_digest'') (\<lambda>_. Ok declaration))"

definition catalog_new ::
  "host \<Rightarrow> interop_host \<Rightarrow> json list \<Rightarrow> json list \<Rightarrow> json list \<Rightarrow> json list \<Rightarrow> json \<Rightarrow> admission_catalog rresult" where
  "catalog_new h io artifacts event_sources action_providers workflows policy =
     bind_res (resolve_contracts h io artifacts) (\<lambda>contracts.
     bind_res (map_res (load_event_source h io) event_sources) (\<lambda>sources.
     bind_res (map_res (load_action_provider h io) action_providers) (\<lambda>providers.
     bind_res (validate_declaration_contracts io contracts sources providers) (\<lambda>_.
     bind_res (validate_runtime_records h io workflows policy) (\<lambda>_.
     bind_res (canonical_digest h io (jobj
         [(''contracts'', JArr (map (\<lambda>c. ser_contract (io_ser io) (rc_reference c)) contracts)),
          (''event_sources'', JArr (map (io_ser_source io) sources)),
          (''action_providers'', JArr (map (io_ser_provider io) providers)),
          (''workflows'', JArr workflows), (''policy'', policy)])) (\<lambda>revision.
       Ok \<lparr> ca_contracts = contracts, ca_event_sources = sources, ca_action_providers = providers,
             ca_workflows = workflows, ca_policy = policy, ca_revision = revision \<rparr>))))))"

definition selected_executor :: "admission_catalog \<Rightarrow> string \<Rightarrow> string option" where
  "selected_executor ca workflow_id =
     (case Option.bind (jpointer (ca_policy ca) (''/executors/workflows/'' @ escape_token workflow_id)) as_str of
        Some executor \<Rightarrow> Some executor
      | None \<Rightarrow> Option.bind (jpointer (ca_policy ca) ''/executors/default'') as_str)"

section \<open>Steps\<close>

record admitted_action =
  ac_id :: string
  ac_contract :: exact_contract_reference
  ac_artifact :: json
  ac_provider :: implementation_identity
  ac_provider_declaration_digest :: string
  ac_handler_id :: string
  ac_idempotent :: bool
  ac_cooperative_cancellation :: bool

definition selection_applies ::
  "interop_host \<Rightarrow> admission_catalog \<Rightarrow> contract_requirement \<Rightarrow> json \<Rightarrow> bool" where
  "selection_applies io ca action selection =
     (case jget selection ''contract'' of
        None \<Rightarrow> False
      | Some v \<Rightarrow>
          (case io_requirement io v of
             Ok candidate \<Rightarrow>
               rq_id candidate = rq_id action \<and> requirements_overlap io (ca_contracts ca) candidate action
           | _ \<Rightarrow> False))"

definition policy_selector ::
  "interop_host \<Rightarrow> admission_catalog \<Rightarrow> contract_requirement \<Rightarrow> provider_selector option rresult" where
  "policy_selector io ca action =
     (case filter (selection_applies io ca action) (jarray_at (ca_policy ca) ''provider_selections'') of
        [] \<Rightarrow> Ok None
      | [selection] \<Rightarrow>
          (case jget selection ''selector'' of
             None \<Rightarrow> Ok None
           | Some v \<Rightarrow> bind_res (provider_selector_of io v) (\<lambda>s. Ok (Some s)))
      | _ \<Rightarrow> Err (Diagnostic ''ambiguous_provider_policy''
               (''Runtime policy has multiple provider selections for '' @ rq_id action @ ''.'')))"

definition eligible_handlers ::
  "action_provider_declaration list \<Rightarrow> exact_contract_reference \<Rightarrow> provider_selector option \<Rightarrow>
     (action_provider_declaration \<times> action_handler) list" where
  "eligible_handlers providers contract selector =
     filter (\<lambda>(d, _). case selector of None \<Rightarrow> True | Some s \<Rightarrow> matches_selector (ap_provider d) s)
       (concat (map (\<lambda>d. map (Pair d) (filter (\<lambda>a. hd_resolved a = contract) (ap_handlers d))) providers))"

definition admitted_action_of ::
  "string \<Rightarrow> resolved_contract \<Rightarrow> action_provider_declaration \<times> action_handler \<Rightarrow> admitted_action" where
  "admitted_action_of i contract selected =
     (case selected of (declaration, handler) \<Rightarrow>
        \<lparr> ac_id = i, ac_contract = rc_reference contract, ac_artifact = rc_artifact contract,
          ac_provider = ap_provider declaration,
          ac_provider_declaration_digest = ap_declaration_digest declaration,
          ac_handler_id = hd_handler_id handler,
          ac_idempotent = (hd_idempotency_mode handler = Some ''request''),
          ac_cooperative_cancellation = (hd_cancellation handler = Some ''cooperative'') \<rparr>)"

text \<open>
  The policy's selection is computed, and its errors reported, even when the step selects a provider
  itself: the argument of \<open>Option::or\<close> is evaluated first.
\<close>

definition step_selector ::
  "interop_host \<Rightarrow> admission_catalog \<Rightarrow> json \<Rightarrow> contract_requirement \<Rightarrow> provider_selector option rresult" where
  "step_selector io ca stp q =
     bind_res (case jget stp ''provider'' of
                 None \<Rightarrow> Ok None
               | Some v \<Rightarrow> bind_res (provider_selector_of io v) (\<lambda>s. Ok (Some s))) (\<lambda>own.
     bind_res (policy_selector io ca q) (\<lambda>policy.
       Ok (case own of None \<Rightarrow> policy | Some s \<Rightarrow> Some s)))"

definition admit_step :: "interop_host \<Rightarrow> admission_catalog \<Rightarrow> json \<Rightarrow> admitted_action rresult" where
  "admit_step io ca stp =
     bind_res (required_string stp ''id'') (\<lambda>i.
     bind_res (requirement_of io (jget stp ''action'') ''workflow step'') (\<lambda>q.
     bind_res (resolve_requirement io (ca_contracts ca) q ''action'') (\<lambda>contract.
     bind_res (step_selector io ca stp q) (\<lambda>selector.
       let name = ecr_id (rc_reference contract) @ '' '' @ ecr_version (rc_reference contract) in
       case eligible_handlers (ca_action_providers ca) (rc_reference contract) selector of
         [] \<Rightarrow> Err (Diagnostic
                (if selector \<noteq> None then ''requested_provider_unavailable'' else ''no_provider'')
                (''No eligible provider implements '' @ name @ ''.''))
       | [selected] \<Rightarrow> Ok (admitted_action_of i contract selected)
       | _ \<Rightarrow> Err (Diagnostic ''ambiguous_provider''
                (name @ '' has multiple eligible providers; select one explicitly.''))))))"

section \<open>Capabilities\<close>

definition grant_actions_match :: "interop_host \<Rightarrow> admitted_action option \<Rightarrow> json \<Rightarrow> bool" where
  "grant_actions_match io action grant =
     (case Option.bind (jget grant ''actions'') as_array of
        None \<Rightarrow> True
      | Some requirements \<Rightarrow>
          (case action of
             None \<Rightarrow> False
           | Some a \<Rightarrow> list_ex (\<lambda>v. case io_requirement io v of
                                      Ok q \<Rightarrow> or_false (requirement_matches io q (ac_contract a))
                                    | _ \<Rightarrow> False) requirements))"

definition grant_providers_match :: "interop_host \<Rightarrow> admitted_action option \<Rightarrow> json \<Rightarrow> bool" where
  "grant_providers_match io action grant =
     (case Option.bind (jget grant ''providers'') as_array of
        None \<Rightarrow> True
      | Some selectors \<Rightarrow>
          (case action of
             None \<Rightarrow> False
           | Some a \<Rightarrow> list_ex (\<lambda>v. case provider_selector_of io v of
                                      Ok s \<Rightarrow> matches_selector (ac_provider a) s
                                    | _ \<Rightarrow> False) selectors))"

definition matching_grants :: "interop_host \<Rightarrow> string \<Rightarrow> admitted_action option \<Rightarrow> json \<Rightarrow> json list" where
  "matching_grants io capability action policy =
     filter (\<lambda>grant. jstring_at grant ''capability'' = Some capability \<and>
                     grant_actions_match io action grant \<and> grant_providers_match io action grant)
       (jarray_at policy ''grants'')"

definition authorize_capability ::
  "interop_host \<Rightarrow> string \<Rightarrow> admitted_action option \<Rightarrow> json \<Rightarrow> unit rresult" where
  "authorize_capability io capability action policy =
     (let matching = matching_grants io capability action policy;
          has_mode = (\<lambda>mode. list_ex (\<lambda>grant. jstring_at grant ''mode'' = Some mode) matching) in
      if has_mode ''allow'' \<and> \<not> has_mode ''deny'' then Ok ()
      else Err (Diagnostic ''capability_denied''
                  (''Runtime policy does not allow capability '' @ capability @ ''.'')))"

text \<open>\<open>value.pointer("/requires/capabilities")\<close> as the strings of an array.\<close>

definition required_capabilities :: "json \<Rightarrow> string list" where
  "required_capabilities v =
     (case Option.bind (jpointer v ''/requires/capabilities'') as_array of
        None \<Rightarrow> [] | Some xs \<Rightarrow> List.map_filter as_str xs)"

definition authorize_requirements ::
  "interop_host \<Rightarrow> json \<Rightarrow> admitted_action list \<Rightarrow> json \<Rightarrow> unit rresult" where
  "authorize_requirements io workflow steps policy =
     bind_res (map_res (\<lambda>c. authorize_capability io c None policy) (required_capabilities workflow)) (\<lambda>_.
     bind_res (map_res (\<lambda>(stp, admitted). map_res (\<lambda>c. authorize_capability io c (Some admitted) policy)
                                            (required_capabilities stp))
                       (zip (jarray_at workflow ''steps'') steps)) (\<lambda>_. Ok ()))"

section \<open>Events\<close>

record admitted_workflow =
  aw_workflow :: json
  aw_trigger :: json
  aw_workflow_revision :: string
  aw_policy_id :: string
  aw_policy_revision :: string
  aw_event_contract :: exact_contract_reference
  aw_event_source :: implementation_identity
  aw_source_declaration_digest :: string
  aw_steps :: "admitted_action list"

definition event_identity :: "cloud_event \<Rightarrow> implementation_identity" where
  "event_identity e =
     \<lparr> ii_application = cv_mdbaseapplication e, ii_implementation = cv_mdbaseimplementation e,
       ii_version = cv_mdbaseimplementationversion e, ii_instance_id = cv_mdbaseinstanceid e \<rparr>"

definition find_event_contract :: "admission_catalog \<Rightarrow> cloud_event \<Rightarrow> resolved_contract rresult" where
  "find_event_contract ca e =
     (case List.find (\<lambda>c. ecr_id (rc_reference c) = cv_event_type e \<and>
                          ecr_version (rc_reference c) = cv_mdbasecontractversion e \<and>
                          ecr_digest (rc_reference c) = cv_mdbasecontractdigest e) (ca_contracts ca) of
        Some c \<Rightarrow> Ok c
      | None \<Rightarrow> Err (Diagnostic ''unknown_contract''
          (''Event '' @ cv_id e @ '' references unavailable contract '' @ cv_event_type e @ '' '' @
           cv_mdbasecontractversion e @ '' ('' @ cv_mdbasecontractdigest e @ '').'')))"

definition find_event_source ::
  "admission_catalog \<Rightarrow> cloud_event \<Rightarrow> exact_contract_reference \<Rightarrow> event_source_declaration rresult" where
  "find_event_source ca e contract =
     (case List.find (\<lambda>d. es_source d = event_identity e \<and>
                          list_ex (\<lambda>b. eb_resolved b = contract) (es_contracts d)) (ca_event_sources ca) of
        Some d \<Rightarrow> Ok d
      | None \<Rightarrow> Err (Diagnostic ''event_source_unavailable''
          (''Event '' @ cv_id e @ '' does not identify a verified source for '' @ ecr_id contract @ '' '' @
           ecr_version contract @ ''.'')))"

text \<open>One trigger of one enabled workflow; \<open>None\<close> is \<open>continue\<close>.\<close>

definition admit_trigger ::
  "host \<Rightarrow> interop_host \<Rightarrow> admission_catalog \<Rightarrow> exact_contract_reference \<Rightarrow> implementation_identity \<Rightarrow>
     string \<Rightarrow> json \<Rightarrow> json \<Rightarrow> admitted_workflow option rresult" where
  "admit_trigger h io ca contract source source_digest workflow trigger =
     bind_res (requirement_of io (jget trigger ''event'') ''workflow trigger'') (\<lambda>q.
     bind_res (if rq_id q \<noteq> ecr_id contract then Ok False else requirement_matches io q contract) (\<lambda>matches.
       if \<not> matches then Ok None
       else
         bind_res (map_res (admit_step io ca) (jarray_at workflow ''steps'')) (\<lambda>steps.
         bind_res (authorize_requirements io workflow steps (ca_policy ca)) (\<lambda>_.
         bind_res (canonical_digest h io workflow) (\<lambda>workflow_revision.
         bind_res (required_string (ca_policy ca) ''id'') (\<lambda>policy_id.
         bind_res (canonical_digest h io (ca_policy ca)) (\<lambda>policy_revision.
           Ok (Some \<lparr> aw_workflow = workflow, aw_trigger = trigger, aw_workflow_revision = workflow_revision,
                       aw_policy_id = policy_id, aw_policy_revision = policy_revision,
                       aw_event_contract = contract, aw_event_source = source,
                       aw_source_declaration_digest = source_digest, aw_steps = steps \<rparr>))))))))"

definition admit_event :: "host \<Rightarrow> interop_host \<Rightarrow> admission_catalog \<Rightarrow> json \<Rightarrow> admitted_workflow list rresult" where
  "admit_event h io ca event =
     bind_res (map_err (\<lambda>e. Diagnostic ''invalid_runtime_event''
                 (''Event is not a structured mdbase CloudEvent: '' @ e)) (io_cloud_event io event)) (\<lambda>ce.
     bind_res (find_event_contract ca ce) (\<lambda>contract.
     bind_res (map_err (interop_error ''invalid_runtime_event'') (io_event io (rc_artifact contract) event)) (\<lambda>_.
     bind_res (find_event_source ca ce (rc_reference contract)) (\<lambda>source.
     bind_res (map_res (\<lambda>(workflow, trigger).
           admit_trigger h io ca (rc_reference contract) (event_identity ce) (es_declaration_digest source)
             workflow trigger)
         (concat (map (\<lambda>workflow. map (Pair workflow) (jarray_at workflow ''triggers''))
            (filter (\<lambda>workflow. jget workflow ''enabled'' = Some (JBool True)) (ca_workflows ca))))) (\<lambda>admitted.
       Ok (List.map_filter id admitted))))))"

end
