(* ===== verification/Planner.thy ===== *)
theory Planner
  imports Admission Engine
begin

text \<open>
  The planner of \<open>crates/mdbase-runtime/src/planner.rs\<close>: an admitted event becomes planned runs, with
  variables evaluated in dependency order, conditions, keys and groups evaluated, durations parsed and
  every step pinned to its contract and provider. The dependency pattern of the \<open>regex\<close> crate and
  \<open>serde_json::to_string\<close> are parameters.
\<close>

record planner_host =
  pl_to_string :: "json \<Rightarrow> (string, string) res"
  pl_var_names :: "string \<Rightarrow> string list"
    \<comment> \<open>the first groups of all matches of \<open>\bvars\.([A-Za-z_][A-Za-z0-9_]*)\b\<close>\<close>

definition cel_errors :: "cel_error list \<Rightarrow> runtime_error" where
  "cel_errors es =
     Diagnostic ''workflow_expression_error''
       (join_with ''; '' (map (\<lambda>e. ce_code e @ '': '' @ ce_message e) es))"

section \<open>Durations\<close>

definition duration_multiplier :: "string \<Rightarrow> nat option" where
  "duration_multiplier unit =
     (if unit = ''ms'' then Some 1
      else if unit = ''s'' then Some 1000
      else if unit = ''m'' then Some 60000
      else if unit = ''h'' then Some 3600000
      else if unit = ''d'' then Some 86400000
      else None)"

definition parse_duration_ms :: "string \<Rightarrow> nat rresult" where
  "parse_duration_ms v =
     (let digits = takeWhile is_ascii_digit v;
          unit = dropWhile is_ascii_digit v;
          invalid = Err (Diagnostic ''invalid_duration'' v) in
      if unit = [] then invalid
      else case parse_u64 digits of
        None \<Rightarrow> invalid
      | Some amount \<Rightarrow>
          (case duration_multiplier unit of
             None \<Rightarrow> invalid
           | Some multiplier \<Rightarrow>
               if amount * multiplier < 2 ^ 64 then Ok (amount * multiplier)
               else Err (Diagnostic ''duration_out_of_range'' ''Duration exceeds u64 milliseconds.'')))"

text \<open>A duration longer than the range of dates is accepted.\<close>

lemma long_interval_accepted: "parse_duration_ms ''100000000000d'' = Ok 8640000000000000000"
  by (simp add: parse_duration_ms_def duration_multiplier_def parse_u64_def decimal_value_def is_ascii_digit_def digit_value_def Let_def)

text \<open>\<open>.and_then(Value::as_str).map(parse_duration_ms).transpose()?\<close>.\<close>

definition duration_at :: "json option \<Rightarrow> nat option rresult" where
  "duration_at v =
     (case Option.bind v as_str of
        None \<Rightarrow> Ok None
      | Some s \<Rightarrow> bind_res (parse_duration_ms s) (\<lambda>d. Ok (Some d)))"

text \<open>\<open>now + TimeDelta::milliseconds(i64::try_from(ms)?)\<close>: the addition panics out of range.\<close>

definition after_ms :: "host \<Rightarrow> time \<Rightarrow> nat \<Rightarrow> string \<Rightarrow> time rresult" where
  "after_ms h now ms message =
     (if i64_max < ms then Err (Diagnostic ''duration_out_of_range'' message)
      else case dt_add (h_chrono h) now (int ms * 1000000) of None \<Rightarrow> Panic | Some t \<Rightarrow> Ok t)"

text \<open>The bound as an integer numeral, for evaluation.\<close>

lemma after_ms_code [code]:
  "after_ms h now ms message =
     (if 9223372036854775807 < int ms then Err (Diagnostic ''duration_out_of_range'' message)
      else case dt_add (h_chrono h) now (int ms * 1000000) of None \<Rightarrow> Panic | Some t \<Rightarrow> Ok t)"
proof -
  have "i64_max < ms \<longleftrightarrow> 9223372036854775807 < int ms" by (simp add: i64_max_def)
  then show ?thesis by (simp only: after_ms_def)
qed

section \<open>Variables\<close>

type_synonym var_dependencies = "(string \<times> string list) list"

definition variable_dependencies ::
  "planner_host \<Rightarrow> (string \<times> json) list \<Rightarrow> var_dependencies rresult" where
  "variable_dependencies pl vars =
     map_res (\<lambda>(name, v).
       bind_res (map_err SerializationError (pl_to_string pl v)) (\<lambda>source.
         Ok (name, filter (\<lambda>d. d \<in> set (bt_keys vars)) (pl_var_names pl source)))) vars"

text \<open>One round: the ready variables are evaluated one after the other.\<close>

fun evaluate_ready ::
  "host \<Rightarrow> json \<Rightarrow> time \<Rightarrow> string option \<Rightarrow> (string \<times> json) list \<Rightarrow> string list \<Rightarrow>
     (string \<times> json) list \<Rightarrow> (string \<times> json) list rresult" where
  "evaluate_ready h binds now tz vars [] result = Ok result"
| "evaluate_ready h binds now tz vars (name # names) result =
     bind_res (jset binds ''vars'' (JObj result)) (\<lambda>activation.
       case bt_get vars name of
         None \<Rightarrow> Panic
       | Some template \<Rightarrow>
           bind_res (map_err cel_errors (evaluate_runtime_template (h_cel h) template activation now tz)) (\<lambda>v.
             evaluate_ready h binds now tz vars names (bt_insert name v result)))"

lemma evaluate_ready_keys:
  assumes "evaluate_ready h binds now tz vars names result = Ok result1"
  shows "bt_get result1 d = None \<longleftrightarrow> d \<notin> set names \<and> bt_get result d = None"
  using assms
proof (induction names arbitrary: result)
  case (Cons name names)
  then obtain v where "evaluate_ready h binds now tz vars names (bt_insert name v result) = Ok result1"
    by (auto split: option.splits)
  from Cons.IH [OF this] show ?case by auto
qed simp

text \<open>The names without a value whose dependencies all have one.\<close>

definition ready_vars :: "(string \<times> json) list \<Rightarrow> var_dependencies \<Rightarrow> string list" where
  "ready_vars result dependencies =
     map fst (filter (\<lambda>(name, deps).
       bt_get result name = None \<and> list_all (\<lambda>d. bt_get result d \<noteq> None) deps) dependencies)"

definition unvalued :: "(string \<times> json) list \<Rightarrow> var_dependencies \<Rightarrow> string list" where
  "unvalued result dependencies = filter (\<lambda>n. bt_get result n = None) (map fst dependencies)"

lemma ready_subset_unvalued: "set (ready_vars result dependencies) \<subseteq> set (unvalued result dependencies)"
  by (auto simp: ready_vars_def unvalued_def)

lemma unvalued_decreases:
  assumes "evaluate_ready h binds now tz vars ready result = Ok result1"
    and "ready = ready_vars result dependencies" and "ready \<noteq> []"
  shows "length (unvalued result1 dependencies) < length (unvalued result dependencies)"
proof -
  have eq: "unvalued result1 dependencies = filter (\<lambda>n. n \<notin> set ready) (unvalued result dependencies)"
    using evaluate_ready_keys [OF assms(1)] by (auto simp: unvalued_def intro!: filter_cong)
  obtain n where "n \<in> set ready" using assms(3) by (cases ready) auto
  then show ?thesis
    using ready_subset_unvalued assms(2) unfolding eq by (intro length_filter_less [of n]) auto
qed

text \<open>The loop until every variable has a value; each round gives a value to a name that has none.\<close>

function vars_loop ::
  "host \<Rightarrow> json \<Rightarrow> time \<Rightarrow> string option \<Rightarrow> (string \<times> json) list \<Rightarrow> var_dependencies \<Rightarrow>
     (string \<times> json) list \<Rightarrow> (string \<times> json) list rresult" where
  "vars_loop h binds now tz vars dependencies result =
     (if length vars \<le> length result then Ok result
      else let ready = ready_vars result dependencies in
        if ready = []
        then Err (Diagnostic ''circular_workflow_variable'' ''Workflow variables contain a dependency cycle.'')
        else bind_res (evaluate_ready h binds now tz vars ready result)
               (vars_loop h binds now tz vars dependencies))"
  by pat_completeness auto
termination
  by (relation "measure (\<lambda>(h, binds, now, tz, vars, dependencies, result). length (unvalued result dependencies))")
    (simp_all add: unvalued_decreases)

declare vars_loop.simps [simp del]

definition evaluate_vars ::
  "host \<Rightarrow> planner_host \<Rightarrow> json option \<Rightarrow> json \<Rightarrow> time \<Rightarrow> string option \<Rightarrow> json rresult" where
  "evaluate_vars h pl vars binds now tz =
     (case Option.bind vars as_object of
        None \<Rightarrow> Ok (JObj [])
      | Some vs \<Rightarrow>
          bind_res (variable_dependencies pl vs) (\<lambda>dependencies.
          bind_res (vars_loop h binds now tz vs dependencies []) (\<lambda>result.
            Ok (JObj result))))"

section \<open>Conditions and strings\<close>

definition condition_matches :: "host \<Rightarrow> json option \<Rightarrow> json \<Rightarrow> time \<Rightarrow> string option \<Rightarrow> bool rresult" where
  "condition_matches h condition binds now tz =
     (case Option.bind (Option.bind condition (\<lambda>v. jget v ''$expr'')) as_str of
        None \<Rightarrow> Ok True
      | Some source \<Rightarrow>
          bind_res (map_err (\<lambda>e. Diagnostic (ce_code e) (ce_message e))
              (evaluate_runtime_expression (h_cel h) source binds now tz))
            (\<lambda>v. Ok (v = JBool True)))"

definition evaluated_string ::
  "host \<Rightarrow> json \<Rightarrow> json \<Rightarrow> time \<Rightarrow> string option \<Rightarrow> string \<Rightarrow> string rresult" where
  "evaluated_string h v binds now tz label =
     bind_res (map_err cel_errors (evaluate_runtime_template (h_cel h) v binds now tz)) (\<lambda>w.
       case as_str w of
         Some s \<Rightarrow> Ok s
       | None \<Rightarrow> Err (Diagnostic ''workflow_expression_type'' (''Evaluated '' @ label @ '' must be a string.'')))"

definition string_or ::
  "host \<Rightarrow> json option \<Rightarrow> json \<Rightarrow> time \<Rightarrow> string option \<Rightarrow> string \<Rightarrow> string \<Rightarrow> string rresult" where
  "string_or h v binds now tz label fallback =
     (case v of None \<Rightarrow> Ok fallback | Some x \<Rightarrow> evaluated_string h x binds now tz label)"

definition concurrency_policy_of :: "json \<Rightarrow> concurrency_policy rresult" where
  "concurrency_policy_of workflow =
     (case Option.bind (jpointer workflow ''/run/concurrency/policy'') as_str of
        None \<Rightarrow> Ok Allow
      | Some s \<Rightarrow>
          if s = ''skip'' then Ok Skip
          else if s = ''queue'' then Ok Queue
          else if s = ''replace'' then Ok Replace
          else if s = ''allow'' then Ok Allow
          else Err (Diagnostic ''invalid_workflow'' (''Unsupported concurrency policy '' @ s @ ''.'')))"

definition on_error_of :: "json \<Rightarrow> on_error rresult" where
  "on_error_of workflow =
     (case Option.bind (jpointer workflow ''/run/on_error'') as_str of
        None \<Rightarrow> Ok Stop
      | Some s \<Rightarrow>
          if s = ''stop'' then Ok Stop
          else if s = ''continue'' then Ok Continue
          else Err (Diagnostic ''invalid_workflow'' (''Unsupported on_error policy '' @ s @ ''.'')))"

section \<open>Steps\<close>

definition planned_step_of :: "admitted_workflow \<Rightarrow> json \<Rightarrow> planned_step rresult" where
  "planned_step_of aw stp =
     bind_res (required_string stp ''id'') (\<lambda>i.
       case List.find (\<lambda>b. ac_id b = i) (aw_steps aw) of
         None \<Rightarrow> Err (Diagnostic ''unresolved_action''
                  (''Admitted plan has no action binding for step '' @ i @ ''.''))
       | Some binding \<Rightarrow>
           Ok \<lparr> ps_id = i, ps_action = ecr_id (ac_contract binding),
                ps_action_version = ecr_version (ac_contract binding),
                ps_action_digest = ecr_digest (ac_contract binding),
                ps_action_contract = ac_artifact binding, ps_provider = ac_provider binding,
                ps_provider_declaration_digest = ac_provider_declaration_digest binding,
                ps_handler_id = ac_handler_id binding,
                ps_condition = Option.bind (jpointer stp ''/if/$expr'') as_str,
                ps_input = (case jget stp ''input'' of None \<Rightarrow> jobj [] | Some v \<Rightarrow> v),
                ps_for_each = map_option (\<lambda>v.
                   \<lparr> pf_items = (case jget v ''items'' of None \<Rightarrow> JNull | Some x \<Rightarrow> x),
                     pf_binding = (case jstring_at v ''as'' of None \<Rightarrow> ''item'' | Some s \<Rightarrow> s) \<rparr>)
                   (jget stp ''for_each''),
                ps_idempotent = ac_idempotent binding,
                ps_cooperative_cancellation = ac_cooperative_cancellation binding \<rparr>)"

definition plan_steps :: "json \<Rightarrow> admitted_workflow \<Rightarrow> planned_step list rresult" where
  "plan_steps workflow aw = map_res (planned_step_of aw) (jarray_at workflow ''steps'')"

section \<open>Runs\<close>

definition trigger_bindings :: "json \<Rightarrow> string \<Rightarrow> string \<Rightarrow> json \<Rightarrow> json" where
  "trigger_bindings event workflow_id workflow_version trigger =
     jobj [(''event'', event),
           (''workflow'', jobj [(''id'', JStr workflow_id), (''version'', JStr workflow_version)]),
           (''trigger'', trigger), (''vars'', jobj []), (''steps'', jobj [])]"

text \<open>The run of an admitted workflow whose conditions hold.\<close>

definition plan_run ::
  "host \<Rightarrow> admission_catalog \<Rightarrow> runtime_config \<Rightarrow> json \<Rightarrow> string \<Rightarrow> string \<Rightarrow> time \<Rightarrow> admitted_workflow \<Rightarrow>
     string \<Rightarrow> string \<Rightarrow> string \<Rightarrow> json \<Rightarrow> json \<Rightarrow> planned_run rresult" where
  "plan_run h ca config event event_id event_type now aw workflow_id workflow_version trigger_id vars binds =
     (let workflow = aw_workflow aw; trigger = aw_trigger aw; tz = rc_timezone config in
      bind_res (string_or h (jpointer workflow ''/run/idempotency/key'') binds now tz ''idempotency key''
                 (workflow_id @ '':'' @ event_id @ '':'' @ trigger_id)) (\<lambda>idempotency_key.
      bind_res (string_or h (jpointer workflow ''/run/concurrency/group'') binds now tz ''concurrency group''
                 workflow_id) (\<lambda>concurrency_group.
      bind_res (concurrency_policy_of workflow) (\<lambda>policy.
      bind_res (on_error_of workflow) (\<lambda>on_error.
      bind_res (duration_at (jget trigger ''debounce'')) (\<lambda>debounce.
      bind_res (duration_at (jget trigger ''minimum_interval'')) (\<lambda>minimum_interval.
      bind_res (after_ms h now (case debounce of None \<Rightarrow> 0 | Some d \<Rightarrow> d)
                 ''Trigger debounce exceeds the supported range.'') (\<lambda>not_before.
      bind_res (duration_at (jpointer workflow ''/run/limits/timeout'')) (\<lambda>timeout.
      bind_res (case timeout of
                  None \<Rightarrow> Ok None
                | Some t \<Rightarrow> bind_res (after_ms h now t ''Workflow timeout exceeds the supported range.'')
                              (\<lambda>deadline. Ok (Some deadline))) (\<lambda>timeout_at.
      bind_res (plan_steps workflow aw) (\<lambda>steps.
        Ok \<lparr> pr_id = stable_id h ''run'' (rc_executor_id config @ '':'' @ workflow_id @ '':'' @ trigger_id @
                        '':'' @ event_id @ '':'' @ idempotency_key),
              pr_workflow = workflow_id, pr_workflow_version = workflow_version,
              pr_workflow_revision = aw_workflow_revision aw, pr_catalog_revision = ca_revision ca,
              pr_policy_id = aw_policy_id aw, pr_policy_revision = aw_policy_revision aw,
              pr_trigger = trigger_id, pr_event_id = event_id, pr_event_type = event_type,
              pr_event_contract = aw_event_contract aw, pr_event_source = aw_event_source aw,
              pr_source_declaration_digest = aw_source_declaration_digest aw, pr_event_cursor = 0,
              pr_event = event, pr_executor = rc_executor_id config, pr_idempotency_key = idempotency_key,
              pr_idempotency_scope = rc_executor_id config @ '':'' @ workflow_id,
              pr_concurrency_group = concurrency_group, pr_concurrency_policy = policy,
              pr_replacement_blockers = [], pr_on_error = on_error, pr_not_before = not_before,
              pr_timeout_at = timeout_at, pr_minimum_interval_ms = minimum_interval, pr_vars = vars,
              pr_workflow_value = workflow, pr_steps = steps, pr_created_at = now \<rparr>)))))))))))"

text \<open>One admitted workflow; \<open>None\<close> is \<open>continue\<close>.\<close>

definition plan_admitted ::
  "host \<Rightarrow> planner_host \<Rightarrow> admission_catalog \<Rightarrow> runtime_config \<Rightarrow> json \<Rightarrow> string \<Rightarrow> string \<Rightarrow> time \<Rightarrow>
     admitted_workflow \<Rightarrow> planned_run option rresult" where
  "plan_admitted h pl ca config event event_id event_type now aw =
     (let workflow = aw_workflow aw; trigger = aw_trigger aw; tz = rc_timezone config in
      bind_res (required_string workflow ''id'') (\<lambda>workflow_id.
      bind_res (required_string workflow ''version'') (\<lambda>workflow_version.
        if (case selected_executor ca workflow_id of None \<Rightarrow> False | Some e \<Rightarrow> e \<noteq> rc_executor_id config)
        then Ok None
        else
          bind_res (required_string trigger ''id'') (\<lambda>trigger_id.
          let binds0 = trigger_bindings event workflow_id workflow_version trigger in
          bind_res (evaluate_vars h pl (jget workflow ''vars'') binds0 now tz) (\<lambda>vars.
          bind_res (jset binds0 ''vars'' vars) (\<lambda>binds.
          bind_res (condition_matches h (jget trigger ''if'') binds now tz) (\<lambda>trigger_matches.
          bind_res (if \<not> trigger_matches then Ok False
                    else condition_matches h (jget workflow ''if'') binds now tz) (\<lambda>both_match.
            if \<not> both_match then Ok None
            else bind_res (plan_run h ca config event event_id event_type now aw workflow_id
                             workflow_version trigger_id vars binds) (\<lambda>run. Ok (Some run))))))))))"

definition plan_event ::
  "host \<Rightarrow> interop_host \<Rightarrow> planner_host \<Rightarrow> admission_catalog \<Rightarrow> json \<Rightarrow> time \<Rightarrow> runtime_config \<Rightarrow>
     planned_run list rresult" where
  "plan_event h io pl ca event now config =
     bind_res (required_string event ''id'') (\<lambda>event_id.
     bind_res (required_string event ''type'') (\<lambda>event_type.
     bind_res (admit_event h io ca event) (\<lambda>aw.
     bind_res (map_res (plan_admitted h pl ca config event event_id event_type now) aw) (\<lambda>plans.
       Ok (List.map_filter id plans)))))"

end
