(* ===== verification/Service.thy ===== *)
theory Service
  imports Planner Timer_Rules
begin

text \<open>
  The public methods of \<open>Runtime\<close>: delivery of events, the worker and its drain loop, reads,
  cancellation (\<open>crates/mdbase-runtime/src/engine.rs\<close>), the timer methods (\<open>timer.rs\<close>) and the
  Watch bridge (\<open>activity.rs\<close>). A method is an action on the world of \<open>Effects\<close>; \<open>work_once\<close>
  and \<open>drain\<close> carry the fuel of the step loop of the engine.
\<close>

section \<open>Construction\<close>

record 's runtime_builder =
  rb_store :: "'s store_ops"
  rb_providers :: provider_registry
  rb_authorizer :: "nat \<Rightarrow> action_dispatch \<Rightarrow> authorization_decision"
  rb_clock :: "nat \<Rightarrow> time"
  rb_config :: runtime_config

text \<open>\<open>Ulid::new()\<close> and the crate's version are the arguments.\<close>

definition default_config :: "string \<Rightarrow> string \<Rightarrow> runtime_config" where
  "default_config ulid crate_version =
     \<lparr> rc_runtime_id = ''mdbase-runtime'', rc_executor_id = ''local'', rc_worker_id = ''worker_'' @ ulid,
       rc_actor_id = ''local-user'', rc_actor_kind = ''user'',
       rc_identity = \<lparr> ii_application = ''mdbase'', ii_implementation = ''mdbase-runtime'',
                       ii_version = crate_version, ii_instance_id = None \<rparr>,
       rc_timezone = None, rc_lease_duration = 30000000000, rc_max_items = 1000 \<rparr>"

definition builder_new ::
  "'s store_ops \<Rightarrow> (nat \<Rightarrow> time) \<Rightarrow> string \<Rightarrow> string \<Rightarrow> 's runtime_builder" where
  "builder_new store system_clock ulid crate_version =
     \<lparr> rb_store = store, rb_providers = [], rb_authorizer = deny_all_authorize, rb_clock = system_clock,
       rb_config = default_config ulid crate_version \<rparr>"

text \<open>The environment of a runtime (host code, identifiers, time-outs, interference) is the model's.\<close>

definition build :: "'s runtime \<Rightarrow> 's runtime_builder \<Rightarrow> 's runtime rresult" where
  "build env b =
     Ok (env\<lparr>rt_store := rb_store b, rt_providers := rb_providers b, rt_authorizer := rb_authorizer b,
             rt_clock := rb_clock b, rt_config := rb_config b\<rparr>)"

section \<open>Delivery\<close>

record delivery_outcome =
  do_cursor :: nat
  do_duplicate :: bool
  do_admitted_run_ids :: "string list"
  do_skipped_run_ids :: "string list"
  do_cancellation_requested_run_ids :: "string list"

definition delivery_outcome_of :: "admit_outcome \<Rightarrow> delivery_outcome" where
  "delivery_outcome_of a =
     \<lparr> do_cursor = ao_cursor a, do_duplicate = ao_duplicate a, do_admitted_run_ids = ao_admitted_run_ids a,
       do_skipped_run_ids = ao_skipped_run_ids a,
       do_cancellation_requested_run_ids = ao_cancellation_requested_run_ids a \<rparr>"

definition prepare_event ::
  "'s runtime \<Rightarrow> interop_host \<Rightarrow> planner_host \<Rightarrow> admission_catalog \<Rightarrow> json \<Rightarrow> time \<Rightarrow> prepared_event rresult" where
  "prepare_event rt io pl ca event received_at =
     (case jstring_at event ''source'' of
        None \<Rightarrow> Err (Diagnostic ''invalid_runtime_event'' ''Structured CloudEvent source is required.'')
      | Some source_runtime \<Rightarrow>
          (case jstring_at event ''id'' of
             None \<Rightarrow> Err (Diagnostic ''invalid_runtime_event'' ''Event id is required.'')
           | Some event_id \<Rightarrow>
               bind_res (plan_event (rt_host rt) io pl ca event received_at (rt_config rt)) (\<lambda>runs.
                 Ok \<lparr> pe_source_runtime = source_runtime, pe_event_id = event_id, pe_envelope = event,
                       pe_received_at = received_at, pe_runs = runs \<rparr>)))"

definition notify_cancellation_request :: "'s runtime \<Rightarrow> string \<Rightarrow> ('s, unit) action" where
  "notify_cancellation_request rt rid =
     act_match (store_call rt (so_get_run (rt_store rt) rid))
       (\<lambda>found. case found of
          None \<Rightarrow> act_return ()
        | Some run \<Rightarrow> act_bind (cancellation_outcome_of rt run) (\<lambda>_. act_return ()))
       (\<lambda>_. act_return ())"

fun notify_all :: "'s runtime \<Rightarrow> string list \<Rightarrow> ('s, unit) action" where
  "notify_all rt [] = act_return ()"
| "notify_all rt (rid # ids) = act_bind (notify_cancellation_request rt rid) (\<lambda>_. notify_all rt ids)"

definition deliver_prepared_event :: "'s runtime \<Rightarrow> prepared_event \<Rightarrow> ('s, delivery_outcome) action" where
  "deliver_prepared_event rt prepared =
     act_bind (store_call rt (so_admit (rt_store rt) prepared)) (\<lambda>admitted.
     act_bind (notify_all rt (ao_cancellation_requested_run_ids admitted)) (\<lambda>_.
       act_return (delivery_outcome_of admitted)))"

definition deliver_event ::
  "'s runtime \<Rightarrow> interop_host \<Rightarrow> planner_host \<Rightarrow> admission_catalog \<Rightarrow> json \<Rightarrow> ('s, delivery_outcome) action" where
  "deliver_event rt io pl ca event =
     act_bind (clock_now rt) (\<lambda>now.
     act_bind (act_lift (prepare_event rt io pl ca event now)) (deliver_prepared_event rt))"

section \<open>The worker\<close>

definition claim_next :: "'s runtime \<Rightarrow> ('s, claim option) action" where
  "claim_next rt =
     act_bind (clock_now rt) (\<lambda>now w.
       store_call rt (so_claim (rt_store rt) (rt_ulid rt (w_tick w)) (rc_executor_id (rt_config rt))
         (rc_worker_id (rt_config rt)) now (rc_lease_duration (rt_config rt))) w)"

definition work_once :: "'s runtime \<Rightarrow> nat \<Rightarrow> 's world \<Rightarrow> ('s world \<times> worker_outcome rresult) option" where
  "work_once rt fuel w =
     (case claim_next rt w of
        (w1, Err e) \<Rightarrow> Some (w1, Err e)
      | (w1, Panic) \<Rightarrow> Some (w1, Panic)
      | (w1, Ok None) \<Rightarrow> Some (w1, Ok Idle)
      | (w1, Ok (Some c)) \<Rightarrow> execute_claim rt fuel c w1)"

fun drain_from ::
  "'s runtime \<Rightarrow> nat \<Rightarrow> nat \<Rightarrow> worker_outcome list \<Rightarrow> 's world \<Rightarrow>
     ('s world \<times> worker_outcome list rresult) option" where
  "drain_from rt fuel 0 outcomes w = Some (w, Ok outcomes)"
| "drain_from rt fuel (Suc n) outcomes w =
     (case work_once rt fuel w of
        None \<Rightarrow> None
      | Some (w1, Err e) \<Rightarrow> Some (w1, Err e)
      | Some (w1, Panic) \<Rightarrow> Some (w1, Panic)
      | Some (w1, Ok outcome) \<Rightarrow>
          if outcome = Idle then Some (w1, Ok outcomes)
          else drain_from rt fuel n (outcomes @ [outcome]) w1)"

definition drain :: "'s runtime \<Rightarrow> nat \<Rightarrow> nat \<Rightarrow> 's world \<Rightarrow> ('s world \<times> worker_outcome list rresult) option" where
  "drain rt fuel max_runs w = drain_from rt fuel max_runs [] w"

definition events_after :: "'s runtime \<Rightarrow> nat \<Rightarrow> nat \<Rightarrow> ('s, event_page) action" where
  "events_after rt after limit = store_call rt (so_events_after (rt_store rt) after limit)"

definition get_run :: "'s runtime \<Rightarrow> string \<Rightarrow> ('s, run_record option) action" where
  "get_run rt rid = store_call rt (so_get_run (rt_store rt) rid)"

definition prune_events_through :: "'s runtime \<Rightarrow> nat \<Rightarrow> ('s, nat) action" where
  "prune_events_through rt cursor = store_call rt (so_prune (rt_store rt) cursor)"

definition cancel_run :: "'s runtime \<Rightarrow> string \<Rightarrow> ('s, cancellation_outcome) action" where
  "cancel_run rt rid =
     act_bind (clock_now rt) (\<lambda>now.
     act_bind (store_call rt (so_request_cancel (rt_store rt) rid now)) (\<lambda>accepted.
       if \<not> accepted then act_return (cancel_reply False True None False None)
       else act_bind (store_call rt (so_get_run (rt_store rt) rid)) (\<lambda>found.
         case found of
           None \<Rightarrow> act_lift (Err (StoreError ''cancelled run disappeared from the runtime store''))
         | Some run \<Rightarrow> cancellation_outcome_of rt run)))"

section \<open>Timers\<close>

record timer_reconcile_request =
  tx_id_prefix :: string
  tx_timers :: "timer_request list"

datatype timer_fire_outcome = TimerIdle | TimerFiredAs string nat delivery_outcome

definition upsert_timer :: "'s runtime \<Rightarrow> timer_request \<Rightarrow> ('s, timer_record) action" where
  "upsert_timer rt q =
     act_bind (clock_now rt) (\<lambda>now. store_call rt (so_upsert_timer (rt_store rt) (timer_record_of q now)))"

definition reconcile_timer_exact :: "'s runtime \<Rightarrow> timer_request \<Rightarrow> ('s, timer_record) action" where
  "reconcile_timer_exact rt q =
     act_bind (clock_now rt) (\<lambda>now.
       store_call rt (so_reconcile_timer_exact (rt_store rt) (timer_record_of q now) now))"

definition cancel_timer :: "'s runtime \<Rightarrow> string \<Rightarrow> nat option \<Rightarrow> ('s, bool) action" where
  "cancel_timer rt tid generation =
     act_bind (clock_now rt) (\<lambda>now. store_call rt (so_cancel_timer (rt_store rt) tid generation now))"

fun desired_timers ::
  "string \<Rightarrow> time \<Rightarrow> timer_request list \<Rightarrow> string list \<Rightarrow> timer_record list rresult" where
  "desired_timers id_prefix now [] ids = Ok []"
| "desired_timers id_prefix now (q # qs) ids =
     (if \<not> starts_with (tq_id q) id_prefix
      then Err (Diagnostic ''timer_outside_reconciliation_prefix''
                  (''Timer '' @ tq_id q @ '' is outside reconciliation prefix '' @ id_prefix @ ''.''))
      else if tq_id q \<in> set ids
      then Err (Diagnostic ''duplicate_timer_id'' (''Timer '' @ tq_id q @ '' appears more than once.''))
      else bind_res (desired_timers id_prefix now qs (tq_id q # ids)) (\<lambda>rest.
             Ok (timer_record_of q now # rest)))"

definition reconcile_timers ::
  "'s runtime \<Rightarrow> timer_reconcile_request \<Rightarrow> ('s, timer_reconcile_outcome) action" where
  "reconcile_timers rt request =
     (if tx_id_prefix request = []
      then act_lift (Err (Diagnostic ''invalid_timer_prefix''
             ''Timer reconciliation requires a non-empty ID prefix.''))
      else act_bind (clock_now rt) (\<lambda>now.
           act_bind (act_lift (desired_timers (tx_id_prefix request) now (tx_timers request) [])) (\<lambda>desired.
             store_call rt (so_reconcile_timers (rt_store rt) (tx_id_prefix request) desired now))))"

definition timers :: "'s runtime \<Rightarrow> string \<Rightarrow> ('s, timer_record list) action" where
  "timers rt id_prefix =
     (if id_prefix = []
      then act_lift (Err (Diagnostic ''invalid_timer_prefix'' ''Timer listing requires a non-empty ID prefix.''))
      else act_bind (store_call rt (so_timers (rt_store rt) id_prefix)) (\<lambda>found.
             act_return (sort_key tr_id found)))"

text \<open>\<open>now.signed_duration_since(t).num_milliseconds().max(0)\<close>.\<close>

definition late_by_ms :: "time \<Rightarrow> time \<Rightarrow> nat" where
  "late_by_ms now fire_at = nat ((now - fire_at) div 1000000)"

definition timer_key :: "timer_record \<Rightarrow> string" where
  "timer_key t = ''timer:'' @ tr_id t @ '':'' @ show_nat (tr_generation t)"

definition contract_urn :: "exact_contract_reference \<Rightarrow> string" where
  "contract_urn c =
     ''urn:mdbase:contract:'' @ ecr_id c @ '':'' @ ecr_version c @ '':'' @ ecr_digest c"

definition jset_some :: "json \<Rightarrow> string \<Rightarrow> string option \<Rightarrow> ('e, json) res" where
  "jset_some v k x = (case x of None \<Rightarrow> Ok v | Some s \<Rightarrow> jset v k (JStr s))"

definition timer_event :: "host \<Rightarrow> timer_record \<Rightarrow> time \<Rightarrow> json rresult" where
  "timer_event h t now =
     (let c = tr_event_contract t; s = tr_event_source t; at = dt_rfc3339 (h_chrono h) in
      bind_res (jset_some (jobj
        [(''specversion'', JStr ''1.0''), (''id'', JStr (stable_id h ''evt'' (timer_key t))),
         (''source'', JStr (tr_source_uri t)), (''type'', JStr (ecr_id c)),
         (''time'', JStr (at (tr_fire_at t))), (''datacontenttype'', JStr ''application/json''),
         (''dataschema'', JStr (contract_urn c)),
         (''data'', jobj
            [(''timer_id'', JStr (tr_id t)), (''generation'', JNum (PosInt (tr_generation t))),
             (''scheduled_for'', JStr (at (tr_fire_at t))), (''fired_at'', JStr (at now)),
             (''late_by_ms'', JNum (PosInt (late_by_ms now (tr_fire_at t)))), (''data'', tr_data t)]),
         (''mdbaseprofile'', JStr ''0.1''), (''mdbasecontractversion'', JStr (ecr_version c)),
         (''mdbasecontractdigest'', JStr (ecr_digest c)), (''mdbaseapplication'', JStr (ii_application s)),
         (''mdbaseimplementation'', JStr (ii_implementation s)),
         (''mdbaseimplementationversion'', JStr (ii_version s)),
         (''correlationid'', JStr (stable_id h ''corr'' (timer_key t)))])
        ''mdbaseinstanceid'' (ii_instance_id s)) (\<lambda>event.
      jset_some event ''subject'' (tr_subject t)))"

definition claim_timer :: "'s runtime \<Rightarrow> time \<Rightarrow> ('s, timer_claim option) action" where
  "claim_timer rt now w =
     store_call rt (so_claim_due_timer (rt_store rt) (rt_ulid rt (w_tick w)) (rc_worker_id (rt_config rt)) now
       (rc_lease_duration (rt_config rt))) w"

definition fired_record :: "timer_record \<Rightarrow> time \<Rightarrow> timer_record" where
  "fired_record t now = t\<lparr>tr_status := TimerFired, tr_updated_at := now, tr_fired_at := Some now\<rparr>"

definition fire_due_timer ::
  "'s runtime \<Rightarrow> interop_host \<Rightarrow> planner_host \<Rightarrow> admission_catalog \<Rightarrow> ('s, timer_fire_outcome) action" where
  "fire_due_timer rt io pl ca =
     act_bind (clock_now rt) (\<lambda>now.
     act_bind (claim_timer rt now) (\<lambda>found.
       case found of
         None \<Rightarrow> act_return TimerIdle
       | Some c \<Rightarrow>
           act_bind (act_lift (timer_event (rt_host rt) (tc_timer c) now)) (\<lambda>event.
           act_bind (act_lift (prepare_event rt io pl ca event now)) (\<lambda>prepared.
           act_bind (store_call rt (so_fire_timer (rt_store rt) c (fired_record (tc_timer c) now) prepared))
             (\<lambda>delivery. act_return (TimerFiredAs (tr_id (tc_timer c)) (tr_generation (tc_timer c))
                            (delivery_outcome_of delivery)))))))"

section \<open>Activities and Watch events\<close>

record status_transition_activity =
  sa_id :: string
  sa_name :: string
  sa_record_type :: string
  sa_status_field :: string
  sa_status_value :: string
  sa_action :: string
  sa_delay :: nat
    \<comment> \<open>a \<open>Duration\<close>, in nanoseconds\<close>

text \<open>The \<open>Debug\<close> text of a string and \<open>str::trim\<close> depend on the Unicode tables.\<close>

record text_host =
  tx_debug :: "string \<Rightarrow> string"
  tx_trim :: "string \<Rightarrow> string"

definition is_ascii_alphabetic :: "char \<Rightarrow> bool" where
  "is_ascii_alphabetic c =
     (let n = of_char c :: nat in (65 \<le> n \<and> n \<le> 90) \<or> (97 \<le> n \<and> n \<le> 122))"

definition runtime_identifier :: "string \<Rightarrow> bool" where
  "runtime_identifier v =
     (case v of
        [] \<Rightarrow> False
      | c # cs \<Rightarrow> is_ascii_alphabetic c \<and>
          list_all (\<lambda>x. is_ascii_alphabetic x \<or> is_ascii_digit x \<or> x \<in> set ''._:-'') cs)"

definition check_identifiers :: "text_host \<Rightarrow> (string \<times> string) list \<Rightarrow> unit list rresult" where
  "check_identifiers tx =
     map_res (\<lambda>(label, v).
       if runtime_identifier v then Ok ()
       else Err (Diagnostic ''invalid_status_activity''
              (label @ '' '' @ tx_debug tx v @ '' is not a runtime identifier.'')))"

definition string_literal :: "planner_host \<Rightarrow> string \<Rightarrow> string rresult" where
  "string_literal pl s = (case pl_to_string pl (JStr s) of Ok t \<Rightarrow> Ok t | _ \<Rightarrow> Panic)"

definition activity_trigger :: "string \<Rightarrow> nat \<Rightarrow> string \<Rightarrow> string \<Rightarrow> json" where
  "activity_trigger condition delay_ms i event =
     jobj [(''id'', JStr i),
           (''event'', jobj [(''id'', JStr event), (''version'', JStr ''^1.0.0'')]),
           (''if'', jobj [(''$expr'', JStr condition)]),
           (''debounce'', JStr (show_nat delay_ms @ ''ms''))]"

definition activity_workflow :: "status_transition_activity \<Rightarrow> string \<Rightarrow> nat \<Rightarrow> json" where
  "activity_workflow a condition delay_ms =
     jobj
       [(''type'', JStr ''runtime_workflow''), (''id'', JStr (sa_id a)), (''version'', JStr ''1.0.0''),
        (''name'', JStr (sa_name a)),
        (''description'', JStr ''Run an application action after a record remains in a configured status.''),
        (''enabled'', JBool True),
        (''triggers'', JArr
           [activity_trigger condition delay_ms ''created'' ''mdbase.record.created'',
            activity_trigger condition delay_ms ''modified'' ''mdbase.record.modified'',
            activity_trigger condition delay_ms ''renamed'' ''mdbase.record.renamed'']),
        (''steps'', JArr [jobj
           [(''id'', JStr ''apply''),
            (''action'', jobj [(''id'', JStr (sa_action a)), (''version'', JStr ''^1.0.0'')]),
            (''input'', jobj
               [(''path'', jobj [(''$expr'', JStr ''event.data.path'')]),
                (''if_revision'', jobj [(''$expr'', JStr ''event.data.revision'')]),
                (''status_field'', JStr (sa_status_field a)), (''status_value'', JStr (sa_status_value a))])]]),
        (''run'', jobj
           [(''concurrency'', jobj
               [(''group'', jobj [(''$expr'', JStr ''event.data.path'')]), (''policy'', JStr ''replace'')]),
            (''on_error'', JStr ''stop'')])]"

definition workflow_contract ::
  "planner_host \<Rightarrow> text_host \<Rightarrow> status_transition_activity \<Rightarrow> json rresult" where
  "workflow_contract pl tx a =
     bind_res (check_identifiers tx
       [(''activity id'', sa_id a), (''record type'', sa_record_type a), (''action'', sa_action a)]) (\<lambda>_.
     if tx_trim tx (sa_name a) = []
     then Err (Diagnostic ''invalid_status_activity'' ''Activity name cannot be empty.'')
     else if tx_trim tx (sa_status_field a) = []
     then Err (Diagnostic ''invalid_status_activity'' ''Status field cannot be empty.'')
     else if 2 ^ 64 \<le> sa_delay a div 1000000
     then Err (Diagnostic ''duration_out_of_range'' ''Activity delay exceeds the supported range.'')
     else
       bind_res (string_literal pl (sa_record_type a)) (\<lambda>record_type.
       bind_res (string_literal pl (sa_status_field a)) (\<lambda>status_field.
       bind_res (string_literal pl (sa_status_value a)) (\<lambda>status_value.
         Ok (activity_workflow a
               (''event.data.types.exists(record_type, record_type == '' @ record_type @
                '') && event.data.after['' @ status_field @ ''] == '' @ status_value)
               (sa_delay a div 1000000))))))"

record watch_event =
  we_event_type :: string
  we_sequence :: nat
  we_occurred_at :: string
  we_payload :: json

definition watch_data :: "watch_event \<Rightarrow> json rresult" where
  "watch_data e =
     (if we_event_type e = ''mdbase.record.renamed'' \<and> jget (we_payload e) ''path'' = None
      then (case jget (we_payload e) ''to'' of
              None \<Rightarrow> Ok (we_payload e) | Some path \<Rightarrow> jset (we_payload e) ''path'' path)
      else Ok (we_payload e))"

definition watch_event_envelope ::
  "text_host \<Rightarrow> string \<Rightarrow> watch_event \<Rightarrow> exact_contract_reference \<Rightarrow> implementation_identity \<Rightarrow> string \<Rightarrow>
     string option \<Rightarrow> json rresult" where
  "watch_event_envelope tx ulid e contract source source_uri subject =
     (if CHR '':'' \<notin> set source_uri
      then Err (Diagnostic ''invalid_runtime_event''
             (''CloudEvent source '' @ tx_debug tx source_uri @ '' must be an absolute URI-reference.''))
      else if we_event_type e \<noteq> ecr_id contract
      then Err (Diagnostic ''event_contract_mismatch''
             (''Watch event '' @ we_event_type e @ '' does not match contract '' @ ecr_id contract @ ''.''))
      else
        bind_res (watch_data e) (\<lambda>data.
        bind_res (jset_some (jobj
          [(''specversion'', JStr ''1.0''), (''id'', JStr (''watch_'' @ ulid)), (''source'', JStr source_uri),
           (''type'', JStr (we_event_type e)), (''time'', JStr (we_occurred_at e)),
           (''datacontenttype'', JStr ''application/json''), (''dataschema'', JStr (contract_urn contract)),
           (''data'', data), (''mdbaseprofile'', JStr ''0.1''),
           (''mdbasecontractversion'', JStr (ecr_version contract)),
           (''mdbasecontractdigest'', JStr (ecr_digest contract)),
           (''mdbaseapplication'', JStr (ii_application source)),
           (''mdbaseimplementation'', JStr (ii_implementation source)),
           (''mdbaseimplementationversion'', JStr (ii_version source))])
          ''mdbaseinstanceid'' (ii_instance_id source)) (\<lambda>envelope.
        jset_some envelope ''subject'' subject)))"

definition deliver_watch_event ::
  "'s runtime \<Rightarrow> interop_host \<Rightarrow> planner_host \<Rightarrow> text_host \<Rightarrow> admission_catalog \<Rightarrow> watch_event \<Rightarrow>
     exact_contract_reference \<Rightarrow> implementation_identity \<Rightarrow> string \<Rightarrow> string option \<Rightarrow> ('s, delivery_outcome) action" where
  "deliver_watch_event rt io pl tx ca e contract source source_uri subject w =
     act_bind (act_lift (watch_event_envelope tx (rt_ulid rt (w_tick w)) e contract source source_uri subject))
       (deliver_event rt io pl ca) w"

end
