(* ===== verification/Admission_Examples.thy ===== *)
theory Admission_Examples
  imports Admission
begin

text \<open>
  A concrete interoperability host and a catalog with one event contract, two versions of an action
  contract, one event source, one action provider, one workflow and a policy: the inputs at which the
  properties of admission, planning and delivery are evaluated. The host's decoders read the members
  that the examples use; its digests are constant.
\<close>

section \<open>The host\<close>

definition ad_identity :: implementation_identity where
  "ad_identity = \<lparr> ii_application = ''app'', ii_implementation = ''impl'', ii_version = ''1'', ii_instance_id = None \<rparr>"

definition ad_ref :: "string \<Rightarrow> string \<Rightarrow> exact_contract_reference" where
  "ad_ref i v = \<lparr> ecr_id = i, ecr_version = v, ecr_digest = ''d'' \<rparr>"

definition ad_requirement :: "string \<Rightarrow> contract_requirement" where
  "ad_requirement i = \<lparr> rq_id = i, rq_version = ''^1'', rq_digest = None \<rparr>"

definition ad_source :: event_source_declaration where
  "ad_source = \<lparr> es_source = ad_identity,
     es_contracts = [\<lparr> eb_requirement = ad_requirement ''ev'', eb_resolved = ad_ref ''ev'' ''1.0.0'' \<rparr>],
     es_declaration_digest = ''sha256:x'' \<rparr>"

definition ad_handler :: action_handler where
  "ad_handler = \<lparr> hd_handler_id = ''h'', hd_requirement = ad_requirement ''act'',
     hd_resolved = ad_ref ''act'' ''1.2.0'', hd_idempotency_mode = Some ''request'', hd_cancellation = None \<rparr>"

definition ad_provider :: action_provider_declaration where
  "ad_provider = \<lparr> ap_provider = ad_identity, ap_handlers = [ad_handler], ap_declaration_digest = ''sha256:x'' \<rparr>"

definition ad_decode_requirement :: "json \<Rightarrow> (string, contract_requirement) res" where
  "ad_decode_requirement v =
     (case jstring_at v ''id'' of
        None \<Rightarrow> Err ''missing id''
      | Some i \<Rightarrow> (case jstring_at v ''version'' of
           None \<Rightarrow> Err ''missing version''
         | Some r \<Rightarrow> Ok \<lparr> rq_id = i, rq_version = r, rq_digest = None \<rparr>))"

definition ad_decode_event :: "json \<Rightarrow> (string, cloud_event) res" where
  "ad_decode_event v =
     (case jstring_at v ''id'' of
        None \<Rightarrow> Err ''missing id''
      | Some i \<Rightarrow> Ok \<lparr> cv_id = i, cv_event_type = ''ev'', cv_mdbasecontractversion = ''1.0.0'',
                         cv_mdbasecontractdigest = ''d'', cv_mdbaseapplication = ''app'',
                         cv_mdbaseimplementation = ''impl'', cv_mdbaseimplementationversion = ''1'',
                         cv_mdbaseinstanceid = None \<rparr>)"

definition ad_ser :: interop_ser where
  "ad_ser = \<lparr> ser_contract = (\<lambda>c. JStr (ecr_id c)), ser_identity = (\<lambda>i. JStr (ii_application i)) \<rparr>"

definition ad_io :: interop_host where
  "ad_io = \<lparr> io_contract_artifact = (\<lambda>_. Ok ()), io_event_source = (\<lambda>_. Ok ad_source),
     io_action_provider = (\<lambda>_. Ok ad_provider), io_event = (\<lambda>_ _. Ok ()), io_cloud_event = ad_decode_event,
     io_requirement = ad_decode_requirement,
     io_selector = (\<lambda>v. Ok \<lparr> sel_application = jstring_at v ''application'', sel_implementation = None,
                                sel_instance_id = None \<rparr>),
     io_ser = ad_ser, io_ser_source = (\<lambda>_. JNull), io_ser_provider = (\<lambda>_. JNull), io_jcs = (\<lambda>_. Ok ''x''),
     io_req_error = (\<lambda>_. None), io_version_error = (\<lambda>_. None), io_req_matches = (\<lambda>_ _. True),
     io_version_le = (\<lambda>a b. a \<le> b), io_embedded_schema = (\<lambda>_. JNull) \<rparr>"

lemma ad_semver: "semver_documented ad_io"
  by (auto simp: semver_documented_def ad_io_def)

definition ad_cel :: cel_host where
  "ad_cel = ex_cel"

definition ad_host :: host where
  "ad_host = \<lparr> h_chrono = chrono_between (- 100000000000) 100000000000, h_cel = ad_cel, h_schema = (\<lambda>_. Ok (\<lambda>_. [])),
     h_contract_digest = (\<lambda>_. Ok ''d''), h_sha256 = (\<lambda>s. s), h_ser_outcome = (\<lambda>_. JNull) \<rparr>"

section \<open>The catalog\<close>

definition ad_contract :: "string \<Rightarrow> string \<Rightarrow> string \<Rightarrow> json" where
  "ad_contract i v kind = jobj [(''id'', JStr i), (''version'', JStr v), (''contract_type'', JStr kind)]"

definition ad_requires :: "string \<Rightarrow> json" where
  "ad_requires i = jobj [(''id'', JStr i), (''version'', JStr ''^1'')]"

definition ad_declaration :: json where
  "ad_declaration = jobj [(''declaration_digest'', JStr ''sha256:x'')]"

definition ad_step :: json where
  "ad_step = jobj [(''id'', JStr ''s''), (''action'', ad_requires ''act''),
     (''requires'', jobj [(''capabilities'', JArr [JStr ''net''])])]"

definition ad_workflow_named :: "string \<Rightarrow> string \<Rightarrow> json" where
  "ad_workflow_named i trigger = jobj [(''type'', JStr ''runtime_workflow''), (''id'', JStr i), (''version'', JStr ''1''),
     (''enabled'', JBool True),
     (''triggers'', JArr [jobj [(''id'', JStr trigger), (''event'', ad_requires ''ev'')]]),
     (''vars'', jobj [(''a'', JStr ''vars.b''), (''b'', JStr ''one'')]),
     (''run'', jobj [(''idempotency'', jobj [(''key'', JStr ''k'')])]), (''steps'', JArr [ad_step])]"

definition ad_workflow :: json where
  "ad_workflow = ad_workflow_named ''wf'' ''t''"

definition ad_policy :: json where
  "ad_policy = jobj [(''type'', JStr ''runtime_policy''), (''id'', JStr ''pol''), (''enabled'', JBool True),
     (''grants'', JArr [jobj [(''capability'', JStr ''net''), (''mode'', JStr ''allow'')]])]"

definition ad_artifacts :: "json list" where
  "ad_artifacts = [ad_contract ''ev'' ''1.0.0'' ''event'', ad_contract ''act'' ''1.0.0'' ''action'',
     ad_contract ''act'' ''1.2.0'' ''action'']"

definition ad_catalog_of :: "json list \<Rightarrow> admission_catalog" where
  "ad_catalog_of workflows =
     (case catalog_new ad_host ad_io ad_artifacts [ad_declaration] [ad_declaration] workflows ad_policy of
        Ok ca \<Rightarrow> ca
      | _ \<Rightarrow> \<lparr> ca_contracts = [], ca_event_sources = [], ca_action_providers = [], ca_workflows = [],
              ca_policy = JNull, ca_revision = [] \<rparr>)"

definition ad_catalog :: admission_catalog where
  "ad_catalog = ad_catalog_of [ad_workflow]"

lemma ad_catalog_of_built:
  assumes "is_ok (catalog_new ad_host ad_io ad_artifacts [ad_declaration] [ad_declaration] workflows ad_policy)"
  shows "catalog_new ad_host ad_io ad_artifacts [ad_declaration] [ad_declaration] workflows ad_policy =
    Ok (ad_catalog_of workflows)"
  using assms by (auto simp: ad_catalog_of_def is_ok_iff)

lemma ad_catalog_built:
  "catalog_new ad_host ad_io ad_artifacts [ad_declaration] [ad_declaration] [ad_workflow] ad_policy = Ok ad_catalog"
proof -
  have "is_ok (catalog_new ad_host ad_io ad_artifacts [ad_declaration] [ad_declaration] [ad_workflow] ad_policy)"
    by code_simp
  from ad_catalog_of_built [OF this] show ?thesis by (simp add: ad_catalog_def)
qed

definition ad_event :: json where
  "ad_event = jobj [(''id'', JStr ''e1''), (''type'', JStr ''ev''), (''source'', JStr ''urn:app'')]"

definition ad_admitted :: "admitted_workflow list" where
  "ad_admitted = (case admit_event ad_host ad_io ad_catalog ad_event of Ok ws \<Rightarrow> ws | _ \<Rightarrow> [])"

lemma ad_admitted_ok: "admit_event ad_host ad_io ad_catalog ad_event = Ok ad_admitted"
proof -
  have "is_ok (admit_event ad_host ad_io ad_catalog ad_event)" by code_simp
  then show ?thesis by (auto simp: ad_admitted_def is_ok_iff)
qed

lemma ad_admitted_one: "length ad_admitted = 1"
  by code_simp

end
