(* ===== verification/Admission_Properties.thy ===== *)
theory Admission_Properties
  imports Admission_Examples
begin

text \<open>
  What the admission catalog guarantees. A catalog that was built is well formed: one digest per
  contract version, every declared binding resolved to a registered contract of its kind, ids unique
  in every workflow, the policy enabled. A requirement resolves to the greatest eligible version, a
  step to the only eligible handler, and an admitted workflow only needs capabilities that the policy
  grants and does not deny.
\<close>

section \<open>Shared lemmas\<close>

lemma required_string_Ok [simp]: "required_string v field = Ok s \<longleftrightarrow> jstring_at v field = Some s"
  by (auto simp: required_string_def split: option.splits)

lemma find_Some_in: "List.find P xs = Some x \<Longrightarrow> x \<in> set xs \<and> P x"
  by (auto simp: find_Some_iff in_set_conv_nth)

lemma map_filter_id: "set (List.map_filter id xs) = {x. Some x \<in> set xs}"
proof -
  have "set (List.map_filter id xs) = the ` {x \<in> set xs. x \<noteq> None}" by (simp add: List.map_filter_def)
  also have "\<dots> = {x. Some x \<in> set xs}" by (force simp: image_iff)
  finally show ?thesis .
qed

lemma map_res_Ok_all: "map_res f xs = Ok ys \<Longrightarrow> x \<in> set xs \<Longrightarrow> \<exists>y \<in> set ys. f x = Ok y"
  by (auto simp: map_res_Ok_iff list_all2_conv_all_nth in_set_conv_nth)

lemma or_false_iff [simp]: "or_false r \<longleftrightarrow> r = Ok True"
  by (auto simp: or_false_def split: res.splits)

lemma requirement_matches_True:
  "requirement_matches io q c = Ok True \<longleftrightarrow>
     rq_id q = ecr_id c \<and> (\<forall>d. rq_digest q = Some d \<longrightarrow> d = ecr_digest c) \<and>
     io_req_error io (rq_version q) = None \<and> io_version_error io (ecr_version c) = None \<and>
     io_req_matches io (rq_version q) (ecr_version c)"
  by (auto simp: requirement_matches_def split: option.splits)

section \<open>Well-formed catalogs\<close>

text \<open>A registered contract is its artifact's id and version with the digest of the artifact.\<close>

definition contract_ok :: "host \<Rightarrow> resolved_contract \<Rightarrow> bool" where
  "contract_ok h c \<longleftrightarrow>
     jstring_at (rc_artifact c) ''id'' = Some (ecr_id (rc_reference c)) \<and>
     jstring_at (rc_artifact c) ''version'' = Some (ecr_version (rc_reference c)) \<and>
     h_contract_digest h (rc_artifact c) = Ok (ecr_digest (rc_reference c))"

definition contract_name :: "resolved_contract \<Rightarrow> string \<times> string" where
  "contract_name c = (ecr_id (rc_reference c), ecr_version (rc_reference c))"

definition binding_ok ::
  "interop_host \<Rightarrow> resolved_contract list \<Rightarrow> contract_requirement \<times> exact_contract_reference \<times> string \<Rightarrow> bool" where
  "binding_ok io contracts b \<longleftrightarrow>
     (case b of (q, resolved, kind) \<Rightarrow>
        requirement_matches io q resolved = Ok True \<and>
        (\<exists>c \<in> set contracts. rc_reference c = resolved \<and> contract_type c = Some kind))"

definition ids_unique :: "json \<Rightarrow> string \<Rightarrow> bool" where
  "ids_unique workflow field \<longleftrightarrow>
     (\<exists>ids. distinct ids \<and> map (\<lambda>v. jstring_at v ''id'') (jarray_at workflow field) = map Some ids)"

definition catalog_wf :: "host \<Rightarrow> interop_host \<Rightarrow> admission_catalog \<Rightarrow> bool" where
  "catalog_wf h io ca \<longleftrightarrow>
     distinct (map contract_name (ca_contracts ca)) \<and>
     (\<forall>c \<in> set (ca_contracts ca). contract_ok h c) \<and>
     (\<forall>b \<in> set (declared_bindings (ca_event_sources ca) (ca_action_providers ca)).
        binding_ok io (ca_contracts ca) b) \<and>
     (\<forall>w \<in> set (ca_workflows ca). ids_unique w ''triggers'' \<and> ids_unique w ''steps'') \<and>
     jget (ca_policy ca) ''enabled'' = Some (JBool True)"

lemma resolve_contracts_from_wf:
  assumes "resolve_contracts_from h io artifacts contracts = Ok result"
    and "distinct (map contract_name contracts)" "\<forall>c \<in> set contracts. contract_ok h c"
  shows "distinct (map contract_name result) \<and> (\<forall>c \<in> set result. contract_ok h c)"
  using assms
proof (induction artifacts arbitrary: contracts)
  case (Cons artifact rest)
  from Cons.prems(1) obtain i version digest where parts:
    "jstring_at artifact ''id'' = Some i" "jstring_at artifact ''version'' = Some version"
    "h_contract_digest h artifact = Ok digest" by auto
  let ?c = "\<lparr> rc_reference = \<lparr> ecr_id = i, ecr_version = version, ecr_digest = digest \<rparr>, rc_artifact = artifact \<rparr>"
  show ?case
  proof (cases "List.find (\<lambda>c. ecr_id (rc_reference c) = i \<and> ecr_version (rc_reference c) = version) contracts")
    case None
    then have "contract_name ?c \<notin> contract_name ` set contracts"
      by (auto simp: find_None_iff contract_name_def)
    moreover have "contract_ok h ?c" using parts by (simp add: contract_ok_def)
    moreover have "resolve_contracts_from h io rest (contracts @ [?c]) = Ok result"
      using Cons.prems(1) parts None by simp
    ultimately show ?thesis
      by (intro Cons.IH [of "contracts @ [?c]"]) (use Cons.prems(2,3) in auto)
  next
    case (Some e)
    then have "resolve_contracts_from h io rest contracts = Ok result"
      using Cons.prems(1) by (simp add: parts split: if_splits)
    from Cons.IH [OF this Cons.prems(2,3)] show ?thesis .
  qed
qed simp

lemma unique_ids_Ok:
  "unique_ids field vs ids = Ok u \<Longrightarrow>
   \<exists>new. map (\<lambda>v. jstring_at v ''id'') vs = map Some new \<and> distinct new \<and> set new \<inter> set ids = {}"
proof (induction vs arbitrary: ids)
  case (Cons v vs)
  then obtain i where i: "jstring_at v ''id'' = Some i" "i \<notin> set ids" "unique_ids field vs (i # ids) = Ok u"
    by (auto split: if_splits)
  from Cons.IH [OF i(3)] obtain new where
    "map (\<lambda>v. jstring_at v ''id'') vs = map Some new" "distinct new" "set new \<inter> set (i # ids) = {}" by blast
  then show ?case using i by (intro exI [of _ "i # new"]) auto
qed simp

lemma assert_unique_ids_Ok: "assert_unique_ids workflow field = Ok u \<Longrightarrow> ids_unique workflow field"
  using unique_ids_Ok by (fastforce simp: assert_unique_ids_def ids_unique_def)

lemma check_binding_Ok: "check_binding io contracts b = Ok u \<Longrightarrow> binding_ok io contracts b"
  by (auto simp: check_binding_def binding_ok_def list_all_iff split: prod.splits if_splits)

lemma catalog_new_wf:
  assumes "catalog_new h io artifacts sources providers workflows policy = Ok ca"
  shows "catalog_wf h io ca"
proof -
  from assms obtain us vs where c: "resolve_contracts_from h io artifacts [] = Ok (ca_contracts ca)"
    and b: "map_res (check_binding io (ca_contracts ca))
              (declared_bindings (ca_event_sources ca) (ca_action_providers ca)) = Ok us"
    and w: "map_res (check_workflow h io) (ca_workflows ca) = Ok vs"
    and p: "jget (ca_policy ca) ''enabled'' = Some (JBool True)"
    by (auto simp: catalog_new_def resolve_contracts_def validate_declaration_contracts_def
        validate_runtime_records_def split: if_splits)
  have "binding_ok io (ca_contracts ca) x"
    if "x \<in> set (declared_bindings (ca_event_sources ca) (ca_action_providers ca))" for x
    using map_res_Ok_all [OF b that] check_binding_Ok by blast
  moreover have "ids_unique x ''triggers'' \<and> ids_unique x ''steps''" if "x \<in> set (ca_workflows ca)" for x
    using map_res_Ok_all [OF w that] by (auto simp: check_workflow_def intro: assert_unique_ids_Ok)
  ultimately show ?thesis
    using resolve_contracts_from_wf [OF c] p by (simp add: catalog_wf_def)
qed

text \<open>
  C17: A catalog that was constructed is well formed. Registered contracts have distinct names and carry
  the id, version and digest of their artifact; every event or action that a declaration binds meets
  the declared requirement and is a registered contract of that kind; the ids of triggers and of steps
  are unique within each workflow; and the policy is enabled.
\<close>

theorem catalog_new_well_formed:
  assumes "catalog_new h io artifacts sources providers workflows policy = Ok ca"
  shows "catalog_wf h io ca"
  using assms by (rule catalog_new_wf)

theorem catalog_new_well_formed_witness: "catalog_wf ad_host ad_io ad_catalog"
  by (rule catalog_new_well_formed [OF ad_catalog_built])

section \<open>Resolution\<close>

text \<open>
  A requirement resolves to the greatest eligible version. Resolution succeeds exactly when the
  requirement parses and some registered contract of the kind has the id, the pinned digest (if any) and
  a version in range; the contract it returns is one of those and no eligible version is above it.
\<close>

theorem resolve_requirement_greatest:
  assumes "semver_documented io"
  shows "case resolve_requirement io contracts q kind of
      Ok c \<Rightarrow> c \<in> set contracts \<and> eligible_contract io q kind c \<and>
        (\<forall>c' \<in> set contracts. eligible_contract io q kind c' \<longrightarrow>
           io_version_le io (ecr_version (rc_reference c')) (ecr_version (rc_reference c)))
    | Err _ \<Rightarrow> io_req_error io (rq_version q) \<noteq> None \<or> (\<forall>c \<in> set contracts. \<not> eligible_contract io q kind c)
    | Panic \<Rightarrow> False"
proof (cases "io_req_error io (rq_version q)")
  case None
  let ?le = "\<lambda>a b. io_version_le io (ecr_version (rc_reference a)) (ecr_version (rc_reference b))"
  let ?m = "max_by_rel ?le (filter (eligible_contract io q kind) contracts)"
  show ?thesis
  proof (cases ?m)
    case (Some c)
    have "?le c' c" if "c' \<in> set contracts" "eligible_contract io q kind c'" for c'
      by (rule max_by_rel_upper [OF _ _ Some]) (use assms that in \<open>auto simp: semver_documented_def\<close>)
    with max_by_rel_in [OF Some] Some None show ?thesis by (simp add: resolve_requirement_def)
  qed (use None in \<open>auto simp: resolve_requirement_def filter_empty_conv\<close>)
qed (simp add: resolve_requirement_def)

theorem resolve_requirement_greatest_witness:
  "\<exists>c. resolve_requirement ad_io (ca_contracts ad_catalog) (ad_requirement ''act'') ''action'' = Ok c \<and>
       eligible_contract ad_io (ad_requirement ''act'') ''action'' c \<and> ecr_version (rc_reference c) = ''1.2.0''"
proof -
  have "case resolve_requirement ad_io (ca_contracts ad_catalog) (ad_requirement ''act'') ''action'' of
      Ok c \<Rightarrow> ecr_version (rc_reference c) = ''1.2.0'' | _ \<Rightarrow> False" by code_simp
  with resolve_requirement_greatest [OF ad_semver, of "ca_contracts ad_catalog" "ad_requirement ''act''" "''action''"]
  show ?thesis by (auto split: res.splits)
qed

section \<open>Steps\<close>

definition allowed_by :: "provider_selector option \<Rightarrow> action_provider_declaration \<Rightarrow> bool" where
  "allowed_by selector d = (case selector of None \<Rightarrow> True | Some s \<Rightarrow> matches_selector (ap_provider d) s)"

lemma eligible_handlers_iff:
  "(d, x) \<in> set (eligible_handlers providers contract selector) \<longleftrightarrow>
     d \<in> set providers \<and> x \<in> set (ap_handlers d) \<and> hd_resolved x = contract \<and> allowed_by selector d"
  by (auto simp: eligible_handlers_def allowed_by_def)

lemma admit_step_cases:
  assumes "admit_step io ca stp = Ok a"
  obtains i q contract selector d x where
    "jstring_at stp ''id'' = Some i" "requirement_of io (jget stp ''action'') ''workflow step'' = Ok q"
    "resolve_requirement io (ca_contracts ca) q ''action'' = Ok contract" "step_selector io ca stp q = Ok selector"
    "eligible_handlers (ca_action_providers ca) (rc_reference contract) selector = [(d, x)]"
    "a = admitted_action_of i contract (d, x)"
proof -
  from assms obtain i q contract selector where parts:
    "jstring_at stp ''id'' = Some i" "requirement_of io (jget stp ''action'') ''workflow step'' = Ok q"
    "resolve_requirement io (ca_contracts ca) q ''action'' = Ok contract" "step_selector io ca stp q = Ok selector"
    by (auto simp: admit_step_def)
  let ?hs = "eligible_handlers (ca_action_providers ca) (rc_reference contract) selector"
  from assms parts obtain e where "?hs = [e]" "a = admitted_action_of i contract e"
    by (auto simp: admit_step_def Let_def split: list.splits)
  then show ?thesis using that parts by (cases e) auto
qed

lemma resolve_requirement_in:
  assumes "resolve_requirement io contracts q kind = Ok c"
  shows "c \<in> set contracts" "eligible_contract io q kind c"
proof -
  from assms have "max_by_rel (\<lambda>a b. io_version_le io (ecr_version (rc_reference a)) (ecr_version (rc_reference b)))
      (filter (eligible_contract io q kind) contracts) = Some c"
    by (auto simp: resolve_requirement_def split: option.splits)
  from max_by_rel_in [OF this] show "c \<in> set contracts" "eligible_contract io q kind c" by simp_all
qed

text \<open>
  An admitted step is pinned to the only handler that implements it. The step's contract is a
  registered action contract that meets its requirement; provider, declaration digest and handler
  come from a declared handler of exactly that contract that the selector of the step (or else of the
  policy) allows; and no other declared handler is eligible.
\<close>

theorem admitted_step_has_only_handler:
  assumes "admit_step io ca stp = Ok a"
  shows "\<exists>q contract selector d x.
      contract \<in> set (ca_contracts ca) \<and> eligible_contract io q ''action'' contract \<and>
      ac_contract a = rc_reference contract \<and> ac_artifact a = rc_artifact contract \<and>
      step_selector io ca stp q = Ok selector \<and>
      d \<in> set (ca_action_providers ca) \<and> x \<in> set (ap_handlers d) \<and> hd_resolved x = ac_contract a \<and>
      allowed_by selector d \<and> ac_provider a = ap_provider d \<and>
      ac_provider_declaration_digest a = ap_declaration_digest d \<and> ac_handler_id a = hd_handler_id x \<and>
      (\<forall>d' \<in> set (ca_action_providers ca). \<forall>x' \<in> set (ap_handlers d').
         hd_resolved x' = ac_contract a \<and> allowed_by selector d' \<longrightarrow> d' = d \<and> x' = x)"
  using assms
proof (cases rule: admit_step_cases)
  case (1 i q contract selector d x)
  have "(d', x') \<in> set (eligible_handlers (ca_action_providers ca) (rc_reference contract) selector) \<longleftrightarrow>
      d' = d \<and> x' = x" for d' x'
    using 1(5) by auto
  then have only: "d' \<in> set (ca_action_providers ca) \<and> x' \<in> set (ap_handlers d') \<and>
      hd_resolved x' = rc_reference contract \<and> allowed_by selector d' \<longleftrightarrow> d' = d \<and> x' = x" for d' x'
    by (simp add: eligible_handlers_iff)
  then have self: "d \<in> set (ca_action_providers ca)" "x \<in> set (ap_handlers d)"
      "hd_resolved x = rc_reference contract" "allowed_by selector d" by blast+
  have fields: "ac_contract a = rc_reference contract" "ac_artifact a = rc_artifact contract"
    "ac_provider a = ap_provider d" "ac_provider_declaration_digest a = ap_declaration_digest d"
    "ac_handler_id a = hd_handler_id x"
    by (simp_all add: 1(6) admitted_action_of_def)
  show ?thesis
    unfolding fields using resolve_requirement_in [OF 1(3)] 1(4) self only by blast
qed

theorem admitted_step_has_only_handler_witness:
  "\<exists>a d x. admit_step ad_io ad_catalog ad_step = Ok a \<and> d \<in> set (ca_action_providers ad_catalog) \<and>
     x \<in> set (ap_handlers d) \<and> hd_resolved x = ac_contract a \<and> ac_handler_id a = hd_handler_id x"
proof -
  have "is_ok (admit_step ad_io ad_catalog ad_step)" by code_simp
  then obtain a where "admit_step ad_io ad_catalog ad_step = Ok a" by (auto simp: is_ok_iff)
  with admitted_step_has_only_handler [OF this] show ?thesis by blast
qed

section \<open>Capabilities\<close>

text \<open>Some applicable grant allows the capability and no applicable grant denies it.\<close>

definition granted :: "interop_host \<Rightarrow> json \<Rightarrow> string \<Rightarrow> admitted_action option \<Rightarrow> bool" where
  "granted io policy capability action \<longleftrightarrow>
     (\<exists>g \<in> set (matching_grants io capability action policy). jstring_at g ''mode'' = Some ''allow'') \<and>
     (\<forall>g \<in> set (matching_grants io capability action policy). jstring_at g ''mode'' \<noteq> Some ''deny'')"

lemma authorize_capability_Ok [simp]:
  "authorize_capability io capability action policy = Ok u \<longleftrightarrow> granted io policy capability action"
  by (auto simp: authorize_capability_def granted_def list_ex_iff Let_def)

lemma authorize_requirements_granted:
  assumes "authorize_requirements io workflow steps policy = Ok u"
    and "length steps = length (jarray_at workflow ''steps'')"
  shows "\<forall>c \<in> set (required_capabilities workflow). granted io policy c None"
    and "\<forall>i < length steps. \<forall>c \<in> set (required_capabilities (jarray_at workflow ''steps'' ! i)).
           granted io policy c (Some (steps ! i))"
proof -
  from assms(1) obtain us vs where
    w: "map_res (\<lambda>c. authorize_capability io c None policy) (required_capabilities workflow) = Ok us" and
    s: "map_res (\<lambda>(stp, a). map_res (\<lambda>c. authorize_capability io c (Some a) policy) (required_capabilities stp))
          (zip (jarray_at workflow ''steps'') steps) = Ok vs"
    by (auto simp: authorize_requirements_def)
  show "\<forall>c \<in> set (required_capabilities workflow). granted io policy c None"
    using map_res_Ok_all [OF w] by auto
  show "\<forall>i < length steps. \<forall>c \<in> set (required_capabilities (jarray_at workflow ''steps'' ! i)).
           granted io policy c (Some (steps ! i))"
  proof (intro allI impI ballI)
    fix i c assume i: "i < length steps" and c: "c \<in> set (required_capabilities (jarray_at workflow ''steps'' ! i))"
    then have "(jarray_at workflow ''steps'' ! i, steps ! i) \<in> set (zip (jarray_at workflow ''steps'') steps)"
      using assms(2) by (auto simp: in_set_zip)
    from map_res_Ok_all [OF s this] obtain ys where
      "map_res (\<lambda>c. authorize_capability io c (Some (steps ! i)) policy)
         (required_capabilities (jarray_at workflow ''steps'' ! i)) = Ok ys" by auto
    from map_res_Ok_all [OF this c] show "granted io policy c (Some (steps ! i))" by auto
  qed
qed

lemma admit_event_member:
  assumes "admit_event h io ca event = Ok ws" "aw \<in> set ws"
  obtains contract identity digest workflow trigger where
    "contract \<in> set (ca_contracts ca)" "workflow \<in> set (ca_workflows ca)"
    "jget workflow ''enabled'' = Some (JBool True)" "trigger \<in> set (jarray_at workflow ''triggers'')"
    "admit_trigger h io ca (rc_reference contract) identity digest workflow trigger = Ok (Some aw)"
proof -
  from assms(1) obtain ce contract rs and source :: event_source_declaration where found: "find_event_contract ca ce = Ok contract"
    and rs: "map_res (\<lambda>(workflow, trigger).
        admit_trigger h io ca (rc_reference contract) (event_identity ce) (es_declaration_digest source) workflow trigger)
      (concat (map (\<lambda>workflow. map (Pair workflow) (jarray_at workflow ''triggers''))
         (filter (\<lambda>workflow. jget workflow ''enabled'' = Some (JBool True)) (ca_workflows ca)))) = Ok rs"
    and ws: "List.map_filter id rs = ws"
    unfolding admit_event_def bind_res_eq_Ok res.inject by blast
  from assms(2) have "Some aw \<in> set rs" by (simp add: ws [symmetric] map_filter_id)
  from map_res_Ok_set [OF rs this] obtain workflow trigger where
    "workflow \<in> set (ca_workflows ca)" "jget workflow ''enabled'' = Some (JBool True)"
    "trigger \<in> set (jarray_at workflow ''triggers'')"
    "admit_trigger h io ca (rc_reference contract) (event_identity ce) (es_declaration_digest source) workflow trigger
       = Ok (Some aw)" by auto
  moreover have "contract \<in> set (ca_contracts ca)"
    using found by (auto simp: find_event_contract_def split: option.splits dest: find_Some_in)
  ultimately show ?thesis using that by blast
qed

lemma admit_trigger_Some:
  assumes "admit_trigger h io ca contract identity digest workflow trigger = Ok (Some aw)"
  shows "aw_workflow aw = workflow" "aw_trigger aw = trigger"
    "map_res (admit_step io ca) (jarray_at workflow ''steps'') = Ok (aw_steps aw)"
    "authorize_requirements io workflow (aw_steps aw) (ca_policy ca) = Ok ()"
  using assms by (auto simp: admit_trigger_def split: if_splits)

text \<open>
  C16: Admission never exceeds the policy's grants. For every admitted workflow each capability that
  the workflow or one of its steps requires is allowed by a grant that applies (to this action and
  provider, for a step) and denied by none; and every step of the workflow has its admitted action.
\<close>

theorem admitted_capabilities_granted:
  assumes "admit_event h io ca event = Ok ws" and "aw \<in> set ws"
  shows "length (aw_steps aw) = length (jarray_at (aw_workflow aw) ''steps'') \<and>
    (\<forall>c \<in> set (required_capabilities (aw_workflow aw)). granted io (ca_policy ca) c None) \<and>
    (\<forall>i < length (aw_steps aw). \<forall>c \<in> set (required_capabilities (jarray_at (aw_workflow aw) ''steps'' ! i)).
       granted io (ca_policy ca) c (Some (aw_steps aw ! i)))"
  using assms
proof (cases rule: admit_event_member)
  case (1 contract identity digest workflow trigger)
  note aw = admit_trigger_Some [OF 1(5)]
  from map_res_Ok_length [OF aw(3)] have "length (aw_steps aw) = length (jarray_at workflow ''steps'')" .
  with authorize_requirements_granted [OF aw(4) this] show ?thesis unfolding aw(1) by blast
qed

theorem admitted_capabilities_granted_witness:
  "granted ad_io (ca_policy ad_catalog) ''net'' (Some (aw_steps (ad_admitted ! 0) ! 0))"
proof -
  have "ad_admitted ! 0 \<in> set ad_admitted" by (rule nth_mem) (simp add: ad_admitted_one)
  note granted = admitted_capabilities_granted [OF ad_admitted_ok this]
  have "0 < length (aw_steps (ad_admitted ! 0))"
    "''net'' \<in> set (required_capabilities (jarray_at (aw_workflow (ad_admitted ! 0)) ''steps'' ! 0))" by code_simp+
  with granted show ?thesis by blast
qed

end
