(* ===== verification/Planner_Properties.thy ===== *)
theory Planner_Properties
  imports Planner Admission_Properties
begin

text \<open>
  Properties of the planner: durations read back what is printed, variables are evaluated in an order
  of their dependencies and a reported cycle is one, and a planned run carries exactly the evidence
  that the catalog pinned, so that the engine's own check of it cannot fail.
\<close>

section \<open>Examples\<close>

definition ad_pl :: planner_host where
  "ad_pl = \<lparr> pl_to_string = (\<lambda>v. Ok (case v of JStr s \<Rightarrow> s | _ \<Rightarrow> [])),
     pl_var_names = (\<lambda>s. if starts_with s ''vars.'' then [drop 5 s] else []) \<rparr>"

definition ad_config :: runtime_config where
  "ad_config = \<lparr> rc_runtime_id = ''rt'', rc_executor_id = ''local'', rc_worker_id = ''w'', rc_actor_id = ''actor'',
     rc_actor_kind = ''service'', rc_identity = ad_identity, rc_timezone = None, rc_lease_duration = 100,
     rc_max_items = 10 \<rparr>"

definition ad_plan :: "json list \<Rightarrow> planned_run list" where
  "ad_plan workflows =
     (case plan_event ad_host ad_io ad_pl (ad_catalog_of workflows) ad_event 0 ad_config of Ok runs \<Rightarrow> runs | _ \<Rightarrow> [])"

lemma ad_cel_returns: "cel_returns (h_cel ad_host)"
  by (simp add: ad_host_def ad_cel_def ex_cel_def cel_returns_def)

section \<open>Durations\<close>

lemma multiplier_unit:
  assumes "duration_multiplier u = Some m"
  shows "takeWhile is_ascii_digit u = []" "dropWhile is_ascii_digit u = u" "u \<noteq> []" "0 < m"
  using assms by (auto simp: duration_multiplier_def is_ascii_digit_def split: if_splits)

lemma parse_duration_show:
  assumes "duration_multiplier u = Some m" and "n * m < 2 ^ 64"
  shows "parse_duration_ms (show_nat n @ u) = Ok (n * m)"
proof -
  have digits: "takeWhile is_ascii_digit (show_nat n @ u) = show_nat n" "dropWhile is_ascii_digit (show_nat n @ u) = u"
    using show_nat_digits [of n] multiplier_unit [OF assms(1)]
    by (simp_all add: takeWhile_append2 dropWhile_append2 list_all_iff)
  have "n * 1 \<le> n * m" using multiplier_unit(4) [OF assms(1)] by (intro mult_le_mono2) simp
  then have "n < 2 ^ 64" using assms(2) by linarith
  then have "parse_u64 (show_nat n) = Some n" by (rule parse_show_nat)
  with digits assms multiplier_unit(3) [OF assms(1)] show ?thesis by (simp add: parse_duration_ms_def Let_def)
qed

lemma parse_duration_Ok:
  assumes "parse_duration_ms v = Ok d"
  shows "d < 2 ^ 64"
  using assms by (auto simp: parse_duration_ms_def Let_def split: if_splits option.splits)

section \<open>Variables\<close>

text \<open>Every name is preceded by its dependencies.\<close>

definition in_order :: "var_dependencies \<Rightarrow> string list \<Rightarrow> bool" where
  "in_order deps order \<longleftrightarrow>
     (\<forall>i < length order. \<forall>ds. (order ! i, ds) \<in> set deps \<longrightarrow> set ds \<subseteq> set (take i order))"

text \<open>A set of variables each of which needs another one of the set.\<close>

definition cyclic :: "var_dependencies \<Rightarrow> string set \<Rightarrow> bool" where
  "cyclic deps S \<longleftrightarrow> S \<noteq> {} \<and> (\<forall>n \<in> S. \<exists>ds. (n, ds) \<in> set deps \<and> set ds \<inter> S \<noteq> {})"

lemma in_order_append:
  assumes "in_order deps order" and "\<And>n ds. n \<in> set later \<Longrightarrow> (n, ds) \<in> set deps \<Longrightarrow> set ds \<subseteq> set order"
  shows "in_order deps (order @ later)"
  unfolding in_order_def
proof (intro allI impI)
  fix i ds assume i: "i < length (order @ later)" and ds: "((order @ later) ! i, ds) \<in> set deps"
  show "set ds \<subseteq> set (take i (order @ later))"
  proof (cases "i < length order")
    case True
    with assms(1) ds show ?thesis by (auto simp: in_order_def nth_append)
  next
    case False
    with i have "(order @ later) ! i \<in> set later" by (simp add: nth_append)
    with assms(2) ds have "set ds \<subseteq> set order" by blast
    with False show ?thesis by auto
  qed
qed

lemma ready_vars_in:
  assumes "distinct (map fst deps)" "n \<in> set (ready_vars result deps)" "(n, ds) \<in> set deps"
    and "d \<in> set ds"
  shows "bt_get result d \<noteq> None"
proof -
  from assms(2) obtain es where es: "(n, es) \<in> set deps" "list_all (\<lambda>d. bt_get result d \<noteq> None) es"
    by (auto simp: ready_vars_def)
  with eq_key_imp_eq_value [OF assms(1,3)] have "es = ds" by blast
  with es(2) assms(4) show ?thesis by (simp add: list_all_iff)
qed

lemma ready_vars_distinct: "distinct (map fst deps) \<Longrightarrow> distinct (ready_vars result deps)"
  by (simp add: ready_vars_def distinct_map_filter)

lemma ready_vars_Nil: "ready_vars result deps = [] \<Longrightarrow>
    (n, ds) \<in> set deps \<Longrightarrow> bt_get result n = None \<Longrightarrow> \<exists>d \<in> set ds. bt_get result d = None"
  by (auto simp: ready_vars_def filter_empty_conv list_all_iff)

lemma evaluate_ready_wf:
  "evaluate_ready h binds now tz vars names result = Ok result1 \<Longrightarrow> bt_wf result \<Longrightarrow> bt_wf result1"
  by (induction names arbitrary: result) (auto split: option.splits)

lemma evaluate_ready_Err:
  "evaluate_ready h binds now tz vars names result = Err e \<Longrightarrow> error_code e = ''workflow_expression_error''"
proof (induction names arbitrary: result)
  case (Cons name names)
  have "map_err cel_errors r = Err e \<Longrightarrow> error_code e = ''workflow_expression_error''" for r :: "(cel_error list, json) res"
    by (cases r) (auto simp: cel_errors_def)
  moreover have "jset binds ''vars'' (JObj result) \<noteq> Err e" by (cases binds) auto
  ultimately show ?case using Cons by (auto simp: bind_res_eq_Err split: option.splits)
qed simp

lemma length_bt_keys: "bt_wf m \<Longrightarrow> set order = {k. bt_get m k \<noteq> None} \<Longrightarrow> distinct order \<Longrightarrow> length order = length m"
proof -
  assume m: "bt_wf m" and order: "set order = {k. bt_get m k \<noteq> None}" "distinct order"
  have "set order = fst ` set m"
    unfolding order(1) by (auto simp: bt_get_def map_of_eq_None_iff)
  then have "card (set order) = length m"
    using bt_wf_distinct [OF m] by (metis distinct_card length_map set_map)
  with order(2) show ?thesis by (simp add: distinct_card)
qed

text \<open>The invariant of the loop: the names with a value, in the order in which they got it.\<close>

definition valued :: "var_dependencies \<Rightarrow> (string \<times> json) list \<Rightarrow> string list \<Rightarrow> bool" where
  "valued deps result order \<longleftrightarrow>
     bt_wf result \<and> distinct order \<and> set order = {k. bt_get result k \<noteq> None} \<and>
     set order \<subseteq> fst ` set deps \<and> in_order deps order"

lemma valued_round:
  assumes "valued deps result order" "distinct (map fst deps)"
    and "evaluate_ready h binds now tz vars (ready_vars result deps) result = Ok result1"
  shows "valued deps result1 (order @ ready_vars result deps)"
proof -
  note V = assms(1) [unfolded valued_def]
  have fresh: "bt_get result n = None" if "n \<in> set (ready_vars result deps)" for n
    using that by (auto simp: ready_vars_def)
  have "bt_wf result1" using evaluate_ready_wf [OF assms(3)] V by simp
  moreover have "distinct (order @ ready_vars result deps)"
    using V ready_vars_distinct [OF assms(2)] fresh by auto
  moreover have "set (order @ ready_vars result deps) = {k. bt_get result1 k \<noteq> None}"
    using V evaluate_ready_keys [OF assms(3)] by auto
  moreover have "set (order @ ready_vars result deps) \<subseteq> fst ` set deps"
    using V ready_subset_unvalued [of result deps] by (auto simp: unvalued_def)
  moreover have "in_order deps (order @ ready_vars result deps)"
    using V ready_vars_in [OF assms(2)] by (intro in_order_append) auto
  ultimately show ?thesis by (simp add: valued_def)
qed

lemma evaluate_ready_returns:
  assumes "cel_returns (h_cel h)" "set names \<subseteq> fst ` set vars"
  shows "evaluate_ready h (JObj b) now tz vars names result \<noteq> Panic"
  using assms(2)
proof (induction names arbitrary: result)
  case (Cons name names)
  then obtain template where "bt_get vars name = Some template"
    by (cases "bt_get vars name") (auto simp: bt_get_def map_of_eq_None_iff)
  moreover have "map_err cel_errors r = Panic \<longleftrightarrow> r = Panic" for r :: "(cel_error list, json) res"
    by (cases r) auto
  ultimately show ?case
    using Cons evaluate_template_returns [OF assms(1)] by (auto simp: bind_res_eq_Panic)
qed simp

lemma stuck_cyclic:
  assumes "ready_vars result deps = []" "set order = {k. bt_get result k \<noteq> None}"
    and "set order \<subset> fst ` set deps" and "\<forall>(n, ds) \<in> set deps. set ds \<subseteq> fst ` set deps"
  shows "cyclic deps (fst ` set deps - set order)"
proof -
  have "\<exists>ds. (n, ds) \<in> set deps \<and> set ds \<inter> (fst ` set deps - set order) \<noteq> {}"
    if "n \<in> fst ` set deps - set order" for n
  proof -
    from that obtain ds where ds: "(n, ds) \<in> set deps" by force
    from ready_vars_Nil [OF assms(1) ds] that assms(2) obtain d where "d \<in> set ds" "d \<notin> set order" by auto
    with assms(4) ds show ?thesis by blast
  qed
  with assms(3) show ?thesis by (auto simp: cyclic_def)
qed

lemma vars_loop_outcome:
  assumes "valued deps result order" "map fst deps = map fst vars" "distinct (map fst deps)"
    and "\<forall>(n, ds) \<in> set deps. set ds \<subseteq> fst ` set deps" and "cel_returns (h_cel h)"
  shows "case vars_loop h (JObj b) now tz vars deps result of
      Ok final \<Rightarrow> \<exists>order. valued deps final order \<and> set order = fst ` set deps
    | Err e \<Rightarrow> error_code e = ''workflow_expression_error'' \<or>
        error_code e = ''circular_workflow_variable'' \<and> (\<exists>S. cyclic deps S)
    | Panic \<Rightarrow> False"
  using assms
proof (induction h "JObj b" now tz vars deps result arbitrary: order rule: vars_loop.induct)
  case (1 h now tz vars deps result)
  from "1.prems"(1) have V: "bt_wf result" "distinct order" "set order = {k. bt_get result k \<noteq> None}"
    "set order \<subseteq> fst ` set deps" unfolding valued_def by blast+
  have len: "card (set order) = length result"
    using length_bt_keys [OF V(1,3,2)] distinct_card [OF V(2)] by simp
  have names: "card (fst ` set deps) = length vars"
    using distinct_card [OF "1.prems"(3)] "1.prems"(2) by (metis length_map set_map)
  consider (complete) "length vars \<le> length result"
    | (stuck) "\<not> length vars \<le> length result" "ready_vars result deps = []"
    | (round) "\<not> length vars \<le> length result" "ready_vars result deps \<noteq> []" by blast
  then show ?case
  proof cases
    case complete
    have "set order = fst ` set deps"
      by (rule card_seteq [OF _ V(4)]) (use complete len names in simp_all)
    with "1.prems"(1) complete show ?thesis by (subst vars_loop.simps) auto
  next
    case stuck
    with len names have "set order \<noteq> fst ` set deps" by auto
    with stuck_cyclic [OF stuck(2) V(3) _ "1.prems"(4)] V(4) stuck
    show ?thesis by (subst vars_loop.simps) auto
  next
    case round
    show ?thesis
    proof (cases "evaluate_ready h (JObj b) now tz vars (ready_vars result deps) result")
      case (Ok result1)
      with "1.hyps" [OF round(1) refl round(2) Ok valued_round [OF "1.prems"(1,3) Ok] "1.prems"(2-5)] round
      show ?thesis by (subst vars_loop.simps) simp
    next
      case (Err e)
      with evaluate_ready_Err [OF Err] round show ?thesis by (subst vars_loop.simps) simp
    next
      case Panic
      have "set (ready_vars result deps) \<subseteq> fst ` set vars"
        using ready_subset_unvalued [of result deps] "1.prems"(2) by (auto simp: unvalued_def)
      with evaluate_ready_returns [OF "1.prems"(5)] Panic show ?thesis by blast
    qed
  qed
qed

lemma variable_dependencies_Ok:
  assumes "variable_dependencies pl vs = Ok deps"
  shows "map fst deps = map fst vs" and "\<forall>(n, ds) \<in> set deps. set ds \<subseteq> fst ` set deps"
proof -
  show eq: "map fst deps = map fst vs"
    using assms unfolding variable_dependencies_def map_res_Ok_iff
    by (induction rule: list_all2_induct) auto
  then have keys: "fst ` set deps = set (bt_keys vs)" by (metis bt_keys_def set_map)
  show "\<forall>(n, ds) \<in> set deps. set ds \<subseteq> fst ` set deps"
    using map_res_Ok_set [OF assms [unfolded variable_dependencies_def]] unfolding keys by fastforce
qed

text \<open>
  Variables are evaluated in an order of their dependencies, or a real cycle is reported. When the
  evaluation succeeds there is an order of all variables in which each comes after the variables its
  template mentions, and exactly the declared variables have a value; when it reports a circular
  dependency, some non-empty set of variables exists in which each one needs another one of the set;
  every other error is one of an expression, and the loop always ends.
\<close>

theorem variables_follow_dependencies:
  assumes "bt_wf vs" and "variable_dependencies pl vs = Ok deps" and "cel_returns (h_cel h)"
  shows "case evaluate_vars h pl (Some (JObj vs)) (JObj b) now tz of
      Ok v \<Rightarrow> \<exists>order result. v = JObj result \<and> set (bt_keys result) = set (bt_keys vs) \<and>
        distinct order \<and> set order = set (bt_keys vs) \<and> in_order deps order
    | Err e \<Rightarrow> error_code e = ''workflow_expression_error'' \<or>
        error_code e = ''circular_workflow_variable'' \<and> (\<exists>S. cyclic deps S)
    | Panic \<Rightarrow> False"
proof -
  note deps = variable_dependencies_Ok [OF assms(2)]
  have dist: "distinct (map fst deps)" using bt_wf_distinct [OF assms(1)] deps(1) by simp
  have keys: "fst ` set deps = set (bt_keys vs)" using deps(1) by (metis bt_keys_def set_map)
  have "valued deps [] []" by (simp add: valued_def in_order_def bt_wf_def)
  note loop = vars_loop_outcome [OF this deps(1) dist deps(2) assms(3), where b = b and now = now and tz = tz]
  have result: "set (bt_keys final) = set order" if "valued deps final order" for final order
    using that by (auto simp: valued_def set_bt_keys bt_contains_def)
  show ?thesis
  proof (cases "vars_loop h (JObj b) now tz vs deps []")
    case (Ok final)
    with loop obtain order where "valued deps final order" "set order = set (bt_keys vs)" unfolding keys by auto
    with result [of final order] show ?thesis
      by (auto simp: evaluate_vars_def assms(2) Ok valued_def)
  qed (use loop in \<open>auto simp: evaluate_vars_def assms(2)\<close>)
qed

theorem variables_follow_dependencies_witness:
  "\<exists>order result. evaluate_vars ad_host ad_pl (Some (JObj [(''a'', JStr ''vars.b''), (''b'', JStr ''one'')])) (JObj []) 0 None
      = Ok (JObj result) \<and> set order = {''a'', ''b''} \<and> in_order [(''a'', [''b'']), (''b'', [])] order"
proof -
  let ?vs = "[(''a'', JStr ''vars.b''), (''b'', JStr ''one'')]"
  let ?e = "evaluate_vars ad_host ad_pl (Some (JObj ?vs)) (JObj []) 0 None"
  have wf: "bt_wf ?vs" by code_simp
  have deps: "variable_dependencies ad_pl ?vs = Ok [(''a'', [''b'']), (''b'', [])]" by code_simp
  have ok: "is_ok ?e" by code_simp
  then obtain v where "?e = Ok v" by (auto simp: is_ok_iff)
  with variables_follow_dependencies [OF wf deps ad_cel_returns, of "[]" 0 None]
  show ?thesis by (auto simp: bt_keys_def)
qed

section \<open>Planned runs\<close>

lemma plan_event_run:
  assumes "plan_event h io pl ca event now config = Ok runs" "run \<in> set runs"
  obtains event_id event_type ws aw where "admit_event h io ca event = Ok ws" "aw \<in> set ws"
    "plan_admitted h pl ca config event event_id event_type now aw = Ok (Some run)"
proof -
  from assms(1) obtain event_id event_type ws plans where ws: "admit_event h io ca event = Ok ws"
    and plans: "map_res (plan_admitted h pl ca config event event_id event_type now) ws = Ok plans"
    and runs: "List.map_filter id plans = runs"
    unfolding plan_event_def bind_res_eq_Ok res.inject by blast
  from assms(2) have "Some run \<in> set plans" by (simp add: runs [symmetric] map_filter_id)
  from map_res_Ok_set [OF plans this] ws that show ?thesis by blast
qed

lemma plan_admitted_run:
  assumes "plan_admitted h pl ca config event event_id event_type now aw = Ok (Some run)"
  obtains workflow_id workflow_version trigger_id vars binds where
    "selected_executor ca workflow_id = None \<or> selected_executor ca workflow_id = Some (rc_executor_id config)"
    "plan_run h ca config event event_id event_type now aw workflow_id workflow_version trigger_id vars binds = Ok run"
proof -
  from assms obtain workflow_id workflow_version where i: "jstring_at (aw_workflow aw) ''id'' = Some workflow_id"
    "jstring_at (aw_workflow aw) ''version'' = Some workflow_version" by (auto simp: plan_admitted_def Let_def)
  have ex: "selected_executor ca workflow_id = None \<or> selected_executor ca workflow_id = Some (rc_executor_id config)"
    using assms i by (auto simp: plan_admitted_def Let_def split: if_splits option.splits)
  then have "\<not> (case selected_executor ca workflow_id of None \<Rightarrow> False | Some e \<Rightarrow> e \<noteq> rc_executor_id config)"
    by auto
  with assms i obtain trigger_id vars binds where
    "plan_run h ca config event event_id event_type now aw workflow_id workflow_version trigger_id vars binds = Ok run"
    by (auto simp: plan_admitted_def Let_def split: if_splits)
  with ex that show ?thesis by blast
qed

lemma plan_run_Ok:
  assumes "plan_run h ca config event event_id event_type now aw workflow_id workflow_version trigger_id vars binds = Ok run"
  shows "pr_workflow run = workflow_id" "pr_executor run = rc_executor_id config"
    "plan_steps (aw_workflow aw) aw = Ok (pr_steps run)"
  using assms unfolding plan_run_def Let_def bind_res_eq_Ok by auto

lemma planned_step_Ok:
  assumes "planned_step_of aw stp = Ok s"
  obtains a where "a \<in> set (aw_steps aw)" "jstring_at stp ''id'' = Some (ps_id s)" "ac_id a = ps_id s"
    "ps_action s = ecr_id (ac_contract a)" "ps_action_version s = ecr_version (ac_contract a)"
    "ps_action_digest s = ecr_digest (ac_contract a)" "ps_action_contract s = ac_artifact a"
proof -
  from assms obtain i where i: "jstring_at stp ''id'' = Some i" by (auto simp: planned_step_of_def)
  with assms obtain a where a: "List.find (\<lambda>b. ac_id b = i) (aw_steps aw) = Some a"
    by (cases "List.find (\<lambda>b. ac_id b = i) (aw_steps aw)") (simp_all add: planned_step_of_def required_string_def)
  with assms i find_Some_in [OF a] show ?thesis
    by (intro that [of a]) (auto simp: planned_step_of_def required_string_def)
qed

lemma admitted_contract_ok:
  assumes "catalog_wf h io ca" "admit_step io ca stp = Ok a"
  shows "jstring_at (ac_artifact a) ''id'' = Some (ecr_id (ac_contract a))"
    "jstring_at (ac_artifact a) ''version'' = Some (ecr_version (ac_contract a))"
    "h_contract_digest h (ac_artifact a) = Ok (ecr_digest (ac_contract a))"
  using assms(2)
proof (atomize (full), cases rule: admit_step_cases)
  case (1 i q contract selector d x)
  with resolve_requirement_in(1) [OF 1(3)] assms(1) have "contract_ok h contract" by (simp add: catalog_wf_def)
  with 1(6) show "jstring_at (ac_artifact a) ''id'' = Some (ecr_id (ac_contract a)) \<and>
    jstring_at (ac_artifact a) ''version'' = Some (ecr_version (ac_contract a)) \<and>
    h_contract_digest h (ac_artifact a) = Ok (ecr_digest (ac_contract a))"
    by (simp add: contract_ok_def admitted_action_of_def)
qed

lemma plan_steps_ids:
  assumes "plan_steps workflow aw = Ok steps"
  shows "map (\<lambda>v. jstring_at v ''id'') (jarray_at workflow ''steps'') = map Some (map ps_id steps)"
  using assms unfolding plan_steps_def map_res_Ok_iff
  by (induction rule: list_all2_induct) (auto elim: planned_step_Ok)

lemma ids_unique_distinct:
  assumes "ids_unique w field" "map (\<lambda>v. jstring_at v ''id'') (jarray_at w field) = map Some ids"
  shows "distinct ids"
proof -
  from assms obtain ids' where "distinct ids'" "map Some ids' = map Some ids" unfolding ids_unique_def by metis
  then show ?thesis by (simp add: inj_map_eq_map)
qed

text \<open>
  A planned run carries the evidence that the engine checks before every dispatch. For a catalog
  that was constructed, every step of every planned run passes the engine's pinned-action check (the
  pinned artifact has the id, version and digest that the step names), step ids are distinct and are
  the workflow's, and the run belongs to this executor, which is the one the policy selects for the
  workflow when it selects one.
\<close>

theorem planned_run_pinned:
  assumes "catalog_new h io artifacts sources providers workflows policy = Ok ca"
    and "plan_event h io pl ca event now config = Ok runs" and "run \<in> set runs"
  shows "(\<forall>s \<in> set (pr_steps run). pinned_action h s = Ok (ps_action_contract s)) \<and>
    distinct (map ps_id (pr_steps run)) \<and> pr_executor run = rc_executor_id config \<and>
    (selected_executor ca (pr_workflow run) = None \<or> selected_executor ca (pr_workflow run) = Some (pr_executor run))"
proof -
  note wf = catalog_new_wf [OF assms(1)]
  from plan_event_run [OF assms(2,3)] obtain event_id event_type ws aw where
    aw: "admit_event h io ca event = Ok ws" "aw \<in> set ws"
      "plan_admitted h pl ca config event event_id event_type now aw = Ok (Some run)" .
  from plan_admitted_run [OF aw(3)] obtain workflow_id workflow_version trigger_id vars binds where
    ex: "selected_executor ca workflow_id = None \<or> selected_executor ca workflow_id = Some (rc_executor_id config)"
    and run: "plan_run h ca config event event_id event_type now aw workflow_id workflow_version trigger_id vars binds
      = Ok run" .
  obtain identity digest workflow trigger and contract :: resolved_contract where "contract \<in> set (ca_contracts ca)"
    and w: "workflow \<in> set (ca_workflows ca)" and "jget workflow ''enabled'' = Some (JBool True)"
      "trigger \<in> set (jarray_at workflow ''triggers'')"
    and adm: "admit_trigger h io ca (rc_reference contract) identity digest workflow trigger = Ok (Some aw)"
    using aw(1,2) by (rule admit_event_member)
  note tr = admit_trigger_Some [OF adm] and steps = plan_run_Ok(3) [OF run]
  have "pinned_action h s = Ok (ps_action_contract s)" if "s \<in> set (pr_steps run)" for s
  proof -
    from map_res_Ok_set [OF steps [unfolded plan_steps_def] that] obtain stp where "planned_step_of aw stp = Ok s" by blast
    then obtain a where a: "a \<in> set (aw_steps aw)" "ps_action s = ecr_id (ac_contract a)"
      "ps_action_version s = ecr_version (ac_contract a)" "ps_action_digest s = ecr_digest (ac_contract a)"
      "ps_action_contract s = ac_artifact a" by (rule planned_step_Ok)
    from map_res_Ok_set [OF tr(3) a(1)] admitted_contract_ok [OF wf] a show ?thesis
      by (auto simp: pinned_action_def Let_def)
  qed
  moreover have "distinct (map ps_id (pr_steps run))"
    by (rule ids_unique_distinct [OF _ plan_steps_ids [OF steps]]) (use wf w in \<open>simp add: catalog_wf_def tr(1)\<close>)
  ultimately show ?thesis using ex plan_run_Ok(1,2) [OF run] by simp
qed

theorem planned_run_pinned_witness:
  "\<exists>run s. plan_event ad_host ad_io ad_pl ad_catalog ad_event 0 ad_config = Ok [run] \<and> pr_steps run = [s] \<and>
     pinned_action ad_host s = Ok (ps_action_contract s) \<and> pr_executor run = ''local''"
proof -
  have "case plan_event ad_host ad_io ad_pl ad_catalog ad_event 0 ad_config of
      Ok runs \<Rightarrow> length runs = 1 \<and> length (pr_steps (runs ! 0)) = 1 | _ \<Rightarrow> False" by code_simp
  then obtain runs where runs: "plan_event ad_host ad_io ad_pl ad_catalog ad_event 0 ad_config = Ok runs"
    "length runs = 1" "length (pr_steps (runs ! 0)) = 1" by (auto split: res.splits)
  from runs(2,3) obtain run s where "runs = [run]" "pr_steps run = [s]"
    by (auto simp: length_Suc_conv)
  with planned_run_pinned [OF ad_catalog_built runs(1), of run] runs(1) show ?thesis
    by (simp add: ad_config_def)
qed

text \<open>
  C18: Run ids are not injective in workflow and trigger. The id hashes the executor, workflow, trigger,
  event and key joined by colons, and identifiers may contain colons: a workflow \<open>a:b\<close> with trigger
  \<open>c\<close> and a workflow \<open>a\<close> with trigger \<open>b:c\<close> that compute the same idempotency key get
  the same run id for an event, whatever the hash, although their idempotency scopes differ.
\<close>

theorem run_id_not_injective:
  assumes "plan_run h ca config event event_id event_type now aw1 (a @ '':'' @ b) version1 c vars1 binds1 = Ok r1"
    and "plan_run h ca config event event_id event_type now aw2 a version2 (b @ '':'' @ c) vars2 binds2 = Ok r2"
    and "pr_idempotency_key r1 = pr_idempotency_key r2"
  shows "pr_id r1 = pr_id r2 \<and> pr_workflow r1 \<noteq> pr_workflow r2 \<and> pr_idempotency_scope r1 \<noteq> pr_idempotency_scope r2"
proof -
  have "pr_id r = stable_id h ''run'' (rc_executor_id config @ '':'' @ workflow_id @ '':'' @ trigger_id @ '':'' @
      event_id @ '':'' @ pr_idempotency_key r) \<and> pr_workflow r = workflow_id \<and>
      pr_idempotency_scope r = rc_executor_id config @ '':'' @ workflow_id"
    if "plan_run h ca config event event_id event_type now aw workflow_id version trigger_id vars binds = Ok r"
    for aw workflow_id version trigger_id vars binds r
    using that unfolding plan_run_def Let_def bind_res_eq_Ok by auto
  from this [OF assms(1)] this [OF assms(2)] assms(3) show ?thesis by simp
qed

definition ad_colliding :: "admitted_workflow list" where
  "ad_colliding =
     (case admit_event ad_host ad_io (ad_catalog_of [ad_workflow_named ''a:b'' ''c'', ad_workflow_named ''a'' ''b:c'']) ad_event of
        Ok ws \<Rightarrow> ws | _ \<Rightarrow> [])"

definition ad_colliding_run :: "nat \<Rightarrow> string \<Rightarrow> string \<Rightarrow> planned_run rresult" where
  "ad_colliding_run i workflow_id trigger_id =
     plan_run ad_host ad_catalog ad_config ad_event ''e1'' ''ev'' 0 (ad_colliding ! i) workflow_id ''1'' trigger_id
       (JObj []) (JObj [])"

theorem run_id_not_injective_witness:
  "\<exists>r1 r2. ad_colliding_run 0 ''a:b'' ''c'' = Ok r1 \<and> ad_colliding_run 1 ''a'' ''b:c'' = Ok r2 \<and> pr_id r1 = pr_id r2"
proof -
  have "case ad_colliding_run 0 ''a:b'' ''c'' of Ok r \<Rightarrow> pr_idempotency_key r = ''k'' | _ \<Rightarrow> False"
    "case ad_colliding_run 1 ''a'' ''b:c'' of Ok r \<Rightarrow> pr_idempotency_key r = ''k'' | _ \<Rightarrow> False" by code_simp+
  then obtain r1 r2 where r: "ad_colliding_run 0 ''a:b'' ''c'' = Ok r1" "ad_colliding_run 1 ''a'' ''b:c'' = Ok r2"
    "pr_idempotency_key r1 = pr_idempotency_key r2" by (auto split: res.splits)
  from run_id_not_injective [where a = "''a''" and b = "''b''" and c = "''c''", simplified, OF r(1) [unfolded ad_colliding_run_def]
      r(2) [unfolded ad_colliding_run_def] r(3)] r(1,2)
  show ?thesis by blast
qed

end
