(* ===== verification/Service_Properties.thy ===== *)
theory Service_Properties
  imports Service Engine_Examples Planner_Properties Store_Properties
begin

text \<open>
  Properties of the public methods over the in-memory store: draining ends and reports finished runs,
  a cancellation is durable before a provider hears of it, a fired timer and its event become durable
  together, and a status activity is a workflow that the planner reads back as it was meant.
\<close>

section \<open>Fuel\<close>

lemma step_loop_fuel: "step_loop rt fuel c w = Some x \<Longrightarrow> fuel \<le> more_fuel \<Longrightarrow> step_loop rt more_fuel c w = Some x"
proof (induction fuel arbitrary: more_fuel c w)
  case (Suc fuel)
  then obtain n where n: "more_fuel = Suc n" "fuel \<le> n" by (cases more_fuel) auto
  with Suc show ?case by (auto split: if_splits prod.splits res.splits step_flow.splits)
qed simp

lemma execute_claim_fuel:
  "execute_claim rt fuel c w = Some x \<Longrightarrow> fuel \<le> more_fuel \<Longrightarrow> execute_claim rt more_fuel c w = Some x"
  unfolding execute_claim_def
  by (auto split: prod.splits res.splits flow.splits option.splits dest: step_loop_fuel)

lemma work_once_fuel:
  "work_once rt fuel w = Some x \<Longrightarrow> fuel \<le> more_fuel \<Longrightarrow> work_once rt more_fuel w = Some x"
  unfolding work_once_def by (auto split: prod.splits res.splits option.splits dest: execute_claim_fuel)

lemma drain_from_fuel:
  "drain_from rt fuel n outs w = Some x \<Longrightarrow> fuel \<le> more_fuel \<Longrightarrow> drain_from rt more_fuel n outs w = Some x"
proof (induction n arbitrary: outs w)
  case (Suc n)
  from Suc.prems(1) obtain y where "work_once rt fuel w = Some y" by (auto split: option.splits)
  with work_once_fuel [OF this Suc.prems(2)] Suc show ?case by (auto split: prod.splits res.splits if_splits)
qed simp

section \<open>Draining\<close>

text \<open>
  The host returns, the lease interval stays in the range of dates, others use the store through its
  operations and never with a token of this worker, and the store is reachable (or poisoned by a
  panic of somebody else).
\<close>

definition service_ready :: "chrono_ops \<Rightarrow> mem_store runtime \<Rightarrow> mem_store world \<Rightarrow> bool" where
  "service_ready ch rt w \<longleftrightarrow>
     host_returns rt \<and>
     (\<forall>n. add_std_duration ch (rt_clock rt n) (rc_lease_duration (rt_config rt)) \<noteq> Panic) \<and>
     (\<forall>d n. cl_token d = ''lease_'' @ rt_ulid rt n \<longrightarrow> others_rely ch rt d) \<and>
     (st_poisoned (w_store w) \<or> reachable ch (st_state (w_store w)))"

lemma memory_runtime_more [simp]:
  "rt_clock (memory_runtime ch rt) = rt_clock rt" "rt_config (memory_runtime ch rt) = rt_config rt"
  "rt_ulid (memory_runtime ch rt) = rt_ulid rt"
  by (simp_all add: memory_runtime_def)

lemma service_others:
  assumes "service_ready ch rt w"
  shows "st_poisoned (rt_others rt n (w_store w)) \<or> reachable ch (st_state (rt_others rt n (w_store w)))"
proof -
  obtain d :: claim where "cl_token d = ''lease_'' @ rt_ulid rt 0" by (meson claim.select_convs(3))
  with assms have "others_rely ch rt d" by (auto simp: service_ready_def)
  with assms show ?thesis by (auto simp: others_rely_def service_ready_def dest: interference_reachable)
qed

text \<open>The claim either fails, leaving the service ready, or hands a fresh claim to the worker.\<close>

lemma claim_next_returns:
  assumes "service_ready ch rt w" "claim_next (memory_runtime ch rt) w = (w1, r)"
  shows "r \<noteq> Panic \<and> service_ready ch rt w1 \<and> (\<forall>c. r = Ok (Some c) \<longrightarrow> worker_ready ch rt c w1)"
proof -
  let ?s = "rt_others rt (Suc (w_tick w)) (w_store w)"
  let ?op = "mem_claim_run ch (rt_ulid rt (Suc (w_tick w))) (rc_executor_id (rt_config rt)) (rc_worker_id (rt_config rt))
    (rt_clock rt (w_tick w)) (rc_lease_duration (rt_config rt))"
  obtain s1 r1 where run: "with_lock ?op ?s = (s1, r1)" by fastforce
  then have w1: "w_store w1 = s1" "r = r1"
    using assms(2) by (auto simp: claim_next_def act_bind_def store_call_def memory_ops_def)
  show ?thesis
  proof (cases "st_poisoned ?s")
    case True
    with run w1 assms(1) show ?thesis by (auto simp: with_lock_def service_ready_def)
  next
    case False
    obtain st1 where st1: "?op (st_state ?s) = (st1, r1)" "s1 = ?s\<lparr>st_state := st1, st_poisoned := (r1 = Panic)\<rparr>"
      using run False by (auto simp: with_lock_def split: prod.splits)
    from service_others [OF assms(1)] False have reach: "reachable ch (st_state ?s)" by blast
    have "r1 \<noteq> Panic"
    proof (cases rule: mem_claim_run_cases [OF st1(1) mem_inv_runs [OF reachable_inv [OF reach]]])
      case 2
      then show ?thesis
        using st1(1) assms(1) by (auto simp: service_ready_def mem_claim_run_def Let_def split: option.splits res.splits)
    qed auto
    moreover from reachable_step [OF reach step_claim [OF st1(1) this]] have "reachable ch st1" .
    moreover have "worker_ready ch rt c w1" if "r = Ok (Some c)" for c
    proof -
      have "cl_token c = ''lease_'' @ rt_ulid rt (Suc (w_tick w))"
        using st1(1) that w1(2) by (auto simp: mem_claim_run_def Let_def split: option.splits res.splits)
      with assms(1) have "others_rely ch rt c" by (auto simp: service_ready_def)
      with assms(1) st1 reach w1 that \<open>r1 \<noteq> Panic\<close> show ?thesis
        unfolding worker_ready_def service_ready_def by force
    qed
    ultimately show ?thesis using assms(1) w1 st1(2) by (auto simp: service_ready_def)
  qed
qed

definition finished_outcome :: "worker_outcome \<Rightarrow> bool" where
  "finished_outcome out = (case out of Completed _ status \<Rightarrow> terminal status | _ \<Rightarrow> False)"

lemma execute_claim_service:
  assumes "service_ready ch rt w" "worker_ready ch rt c w"
  obtains fuel w' r where "execute_claim (memory_runtime ch rt) fuel c w = Some (w', r)" "r \<noteq> Panic"
    "service_ready ch rt w'" "\<forall>out. r = Ok out \<longrightarrow> finished_outcome out"
proof -
  let ?fuel = "Suc (length (pr_steps (rr_plan (cl_run c))))"
  have fuel: "length (pr_steps (rr_plan (cl_run c))) < ?fuel" by simp
  from worker_returns [OF assms(2) fuel] obtain w' r where
    run: "execute_claim (memory_runtime ch rt) ?fuel c w = Some (w', r)"
    by (auto simp: memory.returns_ok_def split: option.splits)
  obtain c' where c': "sync (memory_runtime ch rt) (mem_sane ch rt) c (w_trace w) c' w'" "r \<noteq> Panic"
    "\<forall>out. r = Ok out \<longrightarrow> terminal (rr_status (cl_run c')) \<and> out = completed c' (rr_status (cl_run c'))"
    using worker_synced [OF assms(2) fuel run] by metis
  have "service_ready ch rt w'"
    using assms(1) c'(1) by (auto simp: service_ready_def sync_def mem_sane_def in_step_def)
  moreover have "finished_outcome out" if "r = Ok out" for out
    using c'(3) that by (auto simp: finished_outcome_def completed_def)
  ultimately show ?thesis using that run c'(2) by blast
qed

lemma work_once_returns:
  assumes "service_ready ch rt w"
  obtains fuel w' r where "work_once (memory_runtime ch rt) fuel w = Some (w', r)" "r \<noteq> Panic"
    "service_ready ch rt w'" "\<forall>out. r = Ok out \<longrightarrow> out = Idle \<or> finished_outcome out"
proof -
  obtain w1 r1 where claim: "claim_next (memory_runtime ch rt) w = (w1, r1)" by fastforce
  note C = claim_next_returns [OF assms claim]
  show ?thesis
  proof (cases "\<exists>c. r1 = Ok (Some c)")
    case True
    then obtain c where c: "r1 = Ok (Some c)" by blast
    with C have "service_ready ch rt w1" "worker_ready ch rt c w1" by auto
    then obtain fuel w' r where "execute_claim (memory_runtime ch rt) fuel c w1 = Some (w', r)" "r \<noteq> Panic"
      "service_ready ch rt w'" "\<forall>out. r = Ok out \<longrightarrow> finished_outcome out"
      by (rule execute_claim_service)
    with c claim show ?thesis by (intro that [of fuel w' r]) (auto simp: work_once_def)
  next
    case False
    with C claim show ?thesis
      by (cases r1) (auto simp: work_once_def split: option.splits intro: that [of 0])
  qed
qed

lemma drain_from_returns:
  assumes "service_ready ch rt w"
  shows "\<exists>fuel w' r. drain_from (memory_runtime ch rt) fuel n outs w = Some (w', r) \<and> r \<noteq> Panic \<and>
    service_ready ch rt w' \<and>
    (\<forall>result. r = Ok result \<longrightarrow> (\<exists>new. result = outs @ new \<and> length new \<le> n \<and> list_all finished_outcome new))"
  using assms
proof (induction n arbitrary: outs w)
  case (Suc n)
  obtain k w1 r1 where once: "work_once (memory_runtime ch rt) k w = Some (w1, r1)" "r1 \<noteq> Panic"
    "service_ready ch rt w1" "\<forall>out. r1 = Ok out \<longrightarrow> out = Idle \<or> finished_outcome out"
    by (rule work_once_returns [OF Suc.prems])
  show ?case
  proof (cases "\<exists>out. r1 = Ok out \<and> out \<noteq> Idle")
    case False
    with once show ?thesis by (intro exI [of _ k] exI [of _ w1]) (cases r1; auto)
  next
    case True
    then obtain out where out: "r1 = Ok out" "out \<noteq> Idle" "finished_outcome out" using once(4) by blast
    from Suc.IH [OF once(3), of "outs @ [out]"] obtain j w2 r2 where
      rest: "drain_from (memory_runtime ch rt) j n (outs @ [out]) w1 = Some (w2, r2)" "r2 \<noteq> Panic" "service_ready ch rt w2"
      "\<forall>result. r2 = Ok result \<longrightarrow> (\<exists>new. result = (outs @ [out]) @ new \<and> length new \<le> n \<and> list_all finished_outcome new)"
      by blast
    have "drain_from (memory_runtime ch rt) (max j k) (Suc n) outs w = Some (w2, r2)"
      using work_once_fuel [OF once(1), of "max j k"] drain_from_fuel [OF rest(1), of "max j k"] out by simp
    moreover have "\<exists>new. result = outs @ new \<and> length new \<le> Suc n \<and> list_all finished_outcome new"
      if "r2 = Ok result" for result
    proof -
      from rest(4) that obtain more where "result = (outs @ [out]) @ more" "length more \<le> n" "list_all finished_outcome more"
        by blast
      with out(3) show ?thesis by (intro exI [of _ "out # more"]) simp
    qed
    ultimately show ?thesis using rest(2,3) by blast
  qed
qed auto

text \<open>
  C19: Draining ends and reports finished runs only. With enough fuel for the plans it meets,
  \<open>drain\<close> returns a value or an error and never panics; it reports at most \<open>max_runs\<close> outcomes, each the
  completion of a run with a final status, and leaves the store ready for the next call, while
  other participants use the same store.
\<close>

theorem drain_finishes_runs:
  assumes "service_ready ch rt w"
  shows "\<exists>enough. \<forall>fuel \<ge> enough. \<exists>w' r. drain (memory_runtime ch rt) fuel max_runs w = Some (w', r) \<and>
    r \<noteq> Panic \<and> service_ready ch rt w' \<and>
    (\<forall>outs. r = Ok outs \<longrightarrow> length outs \<le> max_runs \<and> list_all finished_outcome outs)"
proof -
  from drain_from_returns [OF assms, of max_runs "[]"] obtain enough w' r where
    d: "drain_from (memory_runtime ch rt) enough max_runs [] w = Some (w', r)" "r \<noteq> Panic" "service_ready ch rt w'"
    "\<forall>outs. r = Ok outs \<longrightarrow> length outs \<le> max_runs \<and> list_all finished_outcome outs" by auto
  have "drain (memory_runtime ch rt) fuel max_runs w = Some (w', r)" if "enough \<le> fuel" for fuel
    using drain_from_fuel [OF d(1) that] by (simp add: drain_def)
  with d(2-4) show ?thesis by blast
qed

definition ex_steady :: "mem_store runtime" where
  "ex_steady = ex_runtime\<lparr>rt_clock := (\<lambda>_. 20), rt_host := ad_host\<rparr>"

lemma ex_steady_ready: "service_ready ex_chrono ex_steady (ex_world ex_live_st)"
proof -
  have "host_returns ex_steady"
    using ex_host_returns(1) ad_cel_returns by (simp add: host_returns_def ex_steady_def ad_host_def ex_host_def)
  moreover have "others_rely ex_chrono ex_steady d" for d
    using ex_rely(1) by (simp add: others_rely_def ex_steady_def)
  moreover have "add_std_duration ex_chrono 20 100 \<noteq> Panic"
    by (simp add: add_std_duration_def ex_chrono_def chrono_between_def)
  ultimately show ?thesis
    using ex_live_reachable
    by (simp add: service_ready_def ex_world_def) (simp add: ex_steady_def ex_runtime_def ex_config_def)
qed

theorem drain_finishes_runs_witness:
  "\<exists>fuel w' r. drain (memory_runtime ex_chrono ex_steady) fuel 3 (ex_world ex_live_st) = Some (w', r) \<and> r \<noteq> Panic"
  using drain_finishes_runs [OF ex_steady_ready, of 3] by blast

section \<open>Calls of the store\<close>

lemma with_lock_Ok:
  assumes "with_lock f s = (s', Ok x)"
  shows "\<not> st_poisoned s" "f (st_state s) = (st_state s', Ok x)"
proof -
  show "\<not> st_poisoned s" using assms by (auto simp: with_lock_def)
  obtain st r where "f (st_state s) = (st, r)" by fastforce
  with assms \<open>\<not> st_poisoned s\<close> show "f (st_state s) = (st_state s', Ok x)" by (auto simp: with_lock_def)
qed

lemma store_call_trace: "store_call rt f w = (w', r) \<Longrightarrow> w_trace w' = w_trace w"
  by (auto simp: store_call_def split: prod.splits)

section \<open>Cancellation\<close>

text \<open>At most one signal is sent, and only a sent signal can be reported as delivered.\<close>

definition signals :: "mem_store world \<Rightarrow> mem_store world \<Rightarrow> cancellation_outcome rresult \<Rightarrow> bool" where
  "signals w w' r \<longleftrightarrow>
     (w_trace w' = w_trace w \<and> (\<forall>out. r = Ok out \<longrightarrow> \<not> co_provider_notified out)) \<or>
     (\<exists>request. w_trace w' = w_trace w @ [CancelSent request])"

lemma cancellation_outcome_signals:
  assumes "cancellation_outcome_of rt r w = (w', res)"
  shows "signals w w' res" "w_store w' = w_store w" "\<forall>out. res = Ok out \<longrightarrow> co_accepted out"
  using assms unfolding cancellation_outcome_of_def
  by (auto simp: signals_def cancel_reply_def call_cancel_def act_bind_def Let_def
      split: if_splits option.splits prod.splits res.splits)

lemma request_cancel_recorded: "request_cancel_run now r = (r', True) \<Longrightarrow> rr_cancel_requested_at r' \<noteq> None"
  by (auto simp: request_cancel_run_def get_or_insert_def Let_def split: if_splits option.splits)

text \<open>What follows the request, and its store and trace.\<close>

definition after_request :: "'s runtime \<Rightarrow> string \<Rightarrow> ('s, cancellation_outcome) action" where
  "after_request rt rid =
     act_bind (store_call rt (so_get_run (rt_store rt) rid)) (\<lambda>found.
       case found of
         None \<Rightarrow> act_lift (Err (StoreError ''cancelled run disappeared from the runtime store''))
       | Some run \<Rightarrow> cancellation_outcome_of rt run)"

lemma after_request_signals:
  assumes "after_request rt rid w = (w', r)"
  shows "signals w w' r \<and> (\<forall>out. r = Ok out \<longrightarrow> co_accepted out)"
  using assms unfolding after_request_def
proof (cases rule: act_bind_cases)
  case (ok w2 found)
  have same: "w_trace w2 = w_trace w" using store_call_trace [OF ok(1)] .
  show ?thesis
  proof (cases found)
    case None
    with ok(2) same show ?thesis by (auto simp: signals_def)
  next
    case (Some run)
    with ok(2) have "cancellation_outcome_of rt run w2 = (w', r)" by simp
    from cancellation_outcome_signals [OF this] same show ?thesis by (simp add: signals_def)
  qed
qed (auto simp: signals_def dest!: store_call_trace)

lemma cancel_run_memory:
  fixes rt :: "mem_store runtime" and w :: "mem_store world"
  defines "now \<equiv> rt_clock rt (w_tick w)" and "s0 \<equiv> rt_others rt (Suc (w_tick w)) (w_store w)"
  assumes req: "with_lock (mem_request_cancel rid now) s0 = (s, b)"
  shows "cancel_run (memory_runtime ch rt) rid w =
      (let w1 = w\<lparr>w_store := s, w_tick := Suc (Suc (w_tick w))\<rparr> in
       case b of Ok True \<Rightarrow> after_request (memory_runtime ch rt) rid w1
       | Ok False \<Rightarrow> (w1, Ok (cancel_reply False True None False None))
       | Err e \<Rightarrow> (w1, Err e) | Panic \<Rightarrow> (w1, Panic))"
proof -
  have "store_call (memory_runtime ch rt) (so_request_cancel (memory_ops ch) rid now) (w\<lparr>w_tick := Suc (w_tick w)\<rparr>)
      = (w\<lparr>w_store := s, w_tick := Suc (Suc (w_tick w))\<rparr>, b)"
    using req by (simp add: store_call_def memory_ops_def s0_def)
  then show ?thesis by (cases b) (auto simp: cancel_run_def after_request_def now_def split: bool.splits)
qed

text \<open>
  Cancellation is durable before any provider is told. Whatever \<open>cancel_run\<close> does, with other
  participants acting on the store in between: it sends at most one cancellation signal, a signal goes out
  only after the store accepted the request and holds the run with its cancellation recorded, a reported
  notification was sent, and a refused request sends nothing.
\<close>

theorem cancellation_durable_before_signal:
  assumes "cancel_run (memory_runtime ch rt) rid w = (w', r)"
  shows "w_trace w' = w_trace w \<and> (\<forall>out. r = Ok out \<longrightarrow> \<not> co_provider_notified out) \<or>
    (\<exists>request s run.
       w_trace w' = w_trace w @ [CancelSent request] \<and> (\<forall>out. r = Ok out \<longrightarrow> co_accepted out) \<and>
       with_lock (mem_request_cancel rid (rt_clock rt (w_tick w)))
         (rt_others rt (Suc (w_tick w)) (w_store w)) = (s, Ok True) \<and>
       bt_get (ms_runs (st_state s)) rid = Some run \<and> rr_cancel_requested_at run \<noteq> None)"
proof -
  obtain s b where req: "with_lock (mem_request_cancel rid (rt_clock rt (w_tick w)))
      (rt_others rt (Suc (w_tick w)) (w_store w)) = (s, b)" by fastforce
  note split = cancel_run_memory [OF this, of ch]
  show ?thesis
  proof (cases "b = Ok True")
    case False
    with split assms show ?thesis by (cases b) (auto simp: cancel_reply_def Let_def)
  next
    case True
    from with_lock_Ok(2) [OF req [unfolded True]]
    obtain run where run: "bt_get (ms_runs (st_state s)) rid = Some run" "rr_cancel_requested_at run \<noteq> None"
      by (cases rule: mem_request_cancel_cases) (use request_cancel_recorded in auto)
    from True split assms have
      "after_request (memory_runtime ch rt) rid (w\<lparr>w_store := s, w_tick := Suc (Suc (w_tick w))\<rparr>) = (w', r)"
      by (simp add: Let_def)
    from after_request_signals [OF this] req True run show ?thesis by (auto simp: signals_def)
  qed
qed

theorem cancellation_durable_before_signal_witness:
  "\<exists>w' r. cancel_run (memory_runtime ex_chrono ex_steady) ''r1'' (ex_world ex_live_st) = (w', r) \<and>
     (w_trace w' = [] \<or> (\<exists>request. w_trace w' = [CancelSent request]))"
proof -
  obtain w' r where run: "cancel_run (memory_runtime ex_chrono ex_steady) ''r1'' (ex_world ex_live_st) = (w', r)" by fastforce
  with cancellation_durable_before_signal [OF run] show ?thesis by (auto simp: ex_world_def)
qed

section \<open>Timers\<close>

lemma show_nat_no_colon: "CHR '':'' \<notin> set (show_nat n)"
  using show_nat_digits [of n] by (auto simp: list_all_iff is_ascii_digit_def)

lemma timer_key_inj: "timer_key t = timer_key u \<longleftrightarrow> tr_id t = tr_id u \<and> tr_generation t = tr_generation u"
proof
  assume "timer_key t = timer_key u"
  then have eq: "tr_id t @ CHR '':'' # show_nat (tr_generation t) = tr_id u @ CHR '':'' # show_nat (tr_generation u)"
    by (simp add: timer_key_def)
  have "a = c \<and> b = d" if "a @ x # b = c @ x # d" "x \<notin> set b" "x \<notin> set d" for a b c d :: string and x
    using that by (auto simp: append_eq_append_conv2 append_eq_Cons_conv Cons_eq_append_conv)
  from this [OF eq show_nat_no_colon show_nat_no_colon]
  have "tr_id t = tr_id u" "show_nat (tr_generation t) = show_nat (tr_generation u)" by auto
  then show "tr_id t = tr_id u \<and> tr_generation t = tr_generation u" by (metis decimal_value_show)
qed (simp add: timer_key_def)

lemma jset_some_get:
  "jset_some v k x = Ok v' \<Longrightarrow> j \<noteq> k \<Longrightarrow> jget v' j = jget v j"
  by (cases v) (auto simp: jset_some_def split: option.splits)

lemma timer_event_identity:
  assumes "timer_event h t now = Ok event"
  shows "jstring_at event ''source'' = Some (tr_source_uri t)"
    "jstring_at event ''id'' = Some (stable_id h ''evt'' (timer_key t))"
proof -
  from assms obtain base event1 where base: "jset_some base ''mdbaseinstanceid'' (ii_instance_id (tr_event_source t)) = (Ok event1 :: json rresult)"
    "jset_some event1 ''subject'' (tr_subject t) = (Ok event :: json rresult)"
    "jget base ''source'' = Some (JStr (tr_source_uri t))"
    "jget base ''id'' = Some (JStr (stable_id h ''evt'' (timer_key t)))"
    unfolding timer_event_def Let_def bind_res_eq_Ok by (auto simp: jget_jobj intro: that)
  have "jget event k = jget base k" if "k \<noteq> ''mdbaseinstanceid''" "k \<noteq> ''subject''" for k
    using jset_some_get [OF base(1) that(1)] jset_some_get [OF base(2) that(2)] by simp
  then show "jstring_at event ''source'' = Some (tr_source_uri t)"
    "jstring_at event ''id'' = Some (stable_id h ''evt'' (timer_key t))"
    by (simp_all add: jstring_at_def base(3,4))
qed

lemma admit_indexes:
  "admit ch e st = Ok (st', out) \<Longrightarrow>
   bt_get (ms_event_index st') (pe_source_runtime e, pe_event_id e) = Some (ao_cursor out)"
  by (erule admit_cases) (auto simp: same_outside_runs_def journal_event_def Let_def)

text \<open>
  A timer and its event become durable together, once per generation. When
  \<open>fire_due_timer\<close> reports a timer as fired, the store holds that timer as fired at that generation and its journal index
  holds, under the reported cursor, the event whose id is derived from exactly this timer and
  generation: no other timer or generation derives its id from the same text.
\<close>

theorem fired_timer_is_delivered:
  assumes "fire_due_timer (memory_runtime ch rt) io pl ca w = (w', Ok (TimerFiredAs tid generation d))"
  shows "\<exists>t. bt_get (ms_timers (st_state (w_store w'))) tid = Some t \<and> tr_id t = tid \<and>
    tr_status t = TimerFired \<and> tr_generation t = generation \<and> tr_fired_at t = Some (rt_clock rt (w_tick w)) \<and>
    bt_get (ms_event_index (st_state (w_store w'))) (tr_source_uri t, stable_id (rt_host rt) ''evt'' (timer_key t))
      = Some (do_cursor d) \<and>
    (\<forall>u. timer_key u = timer_key t \<longleftrightarrow> tr_id u = tid \<and> tr_generation u = generation)"
proof -
  let ?rt = "memory_runtime ch rt" and ?now = "rt_clock rt (w_tick w)"
  from assms obtain w1 event prepared out and c :: timer_claim where
    event: "timer_event (rt_host rt) (tc_timer c) ?now = Ok event"
    and prep: "prepare_event ?rt io pl ca event ?now = Ok prepared"
    and fire: "store_call ?rt (so_fire_timer (memory_ops ch) c (fired_record (tc_timer c) ?now) prepared) w1 = (w', Ok out)"
    and ids: "tid = tr_id (tc_timer c)" "generation = tr_generation (tc_timer c)" "d = delivery_outcome_of out"
    unfolding fire_due_timer_def
    by (auto elim!: act_bind_cases split: option.splits)
  let ?s = "rt_others rt (w_tick w1) (w_store w1)" and ?fired = "fired_record (tc_timer c) ?now"
  have key: "pe_source_runtime prepared = tr_source_uri (tc_timer c)"
    "pe_event_id prepared = stable_id (rt_host rt) ''evt'' (timer_key (tc_timer c))"
    using prep timer_event_identity [OF event] by (auto simp: prepare_event_def)
  from fire have locked: "with_lock (mem_fire_timer ch c ?fired prepared) ?s = (w_store w', Ok out)"
    by (auto simp: store_call_def memory_ops_def split: prod.splits)
  from with_lock_Ok(2) [OF locked] obtain st1 where adm: "admit ch prepared st1 = Ok (st_state (w_store w'), out)"
    and st1: "bt_get (ms_timers st1) (tr_id ?fired) = Some ?fired"
    by (cases rule: mem_fire_timer_cases) (auto split: res.splits prod.splits)
  have fields: "tr_id ?fired = tid" "tr_status ?fired = TimerFired" "tr_generation ?fired = generation"
    "tr_fired_at ?fired = Some ?now" "do_cursor d = ao_cursor out"
    using ids by (simp_all add: fired_record_def delivery_outcome_of_def)
  have "bt_get (ms_timers (st_state (w_store w'))) tid = Some ?fired"
    using admit_timers [OF adm] st1 fields(1) by simp
  moreover have "bt_get (ms_event_index (st_state (w_store w')))
      (tr_source_uri ?fired, stable_id (rt_host rt) ''evt'' (timer_key ?fired)) = Some (do_cursor d)"
    using admit_indexes [OF adm] fields(5) by (simp add: key timer_key_def fired_record_def)
  moreover have "\<forall>u. timer_key u = timer_key ?fired \<longleftrightarrow> tr_id u = tid \<and> tr_generation u = generation"
    by (simp add: timer_key_inj fields)
  ultimately show ?thesis using fields(1-4) by blast
qed

definition ex_due_timer :: timer_record where
  "ex_due_timer = \<lparr> tr_id = ''tm'', tr_generation = 1, tr_status = TimerScheduled, tr_fire_at = 5,
     tr_event_contract = ad_ref ''ev'' ''1.0.0'', tr_event_source = ad_identity, tr_source_uri = ''urn:timer'',
     tr_subject = None, tr_data = JNull, tr_created_at = 0, tr_updated_at = 0, tr_fired_at = None \<rparr>"

definition ex_timer_world :: "mem_store world" where
  "ex_timer_world = ex_world (mem_empty\<lparr>ms_timers := [(''tm'', ex_due_timer)]\<rparr>)"

theorem fired_timer_is_delivered_witness:
  "\<exists>w' d t. fire_due_timer (memory_runtime ex_chrono ex_steady) ad_io ad_pl ad_catalog ex_timer_world =
       (w', Ok (TimerFiredAs ''tm'' 1 d)) \<and>
     bt_get (ms_timers (st_state (w_store w'))) ''tm'' = Some t \<and> tr_status t = TimerFired"
proof -
  obtain w' r where run: "fire_due_timer (memory_runtime ex_chrono ex_steady) ad_io ad_pl ad_catalog ex_timer_world = (w', r)"
    by fastforce
  have "case snd (fire_due_timer (memory_runtime ex_chrono ex_steady) ad_io ad_pl ad_catalog ex_timer_world) of
      Ok (TimerFiredAs tid generation d) \<Rightarrow> tid = ''tm'' \<and> generation = 1 | _ \<Rightarrow> False" by code_simp
  with run obtain d where "r = Ok (TimerFiredAs ''tm'' 1 d)" by (auto split: res.splits timer_fire_outcome.splits)
  with fired_timer_is_delivered [of ex_chrono ex_steady ad_io ad_pl ad_catalog ex_timer_world w' "''tm''" 1 d] run
  show ?thesis by blast
qed

section \<open>Activities\<close>

lemma activity_trigger_parts:
  assumes "delay < 2 ^ 64"
  shows "jstring_at (activity_trigger condition delay i event) ''id'' = Some i"
    "duration_at (jget (activity_trigger condition delay i event) ''debounce'') = Ok (Some delay)"
proof -
  have "parse_duration_ms (show_nat delay @ ''ms'') = Ok (delay * 1)"
    by (rule parse_duration_show) (use assms in \<open>simp_all add: duration_multiplier_def\<close>)
  then show "duration_at (jget (activity_trigger condition delay i event) ''debounce'') = Ok (Some delay)"
    by (simp add: activity_trigger_def jget_jobj duration_at_def)
  show "jstring_at (activity_trigger condition delay i event) ''id'' = Some i"
    by (simp add: activity_trigger_def jget_jobj jstring_at_def)
qed

lemma activity_workflow_members:
  "jget (activity_workflow a condition delay) ''id'' = Some (JStr (sa_id a))"
  "jarray_at (activity_workflow a condition delay) ''triggers'' =
     [activity_trigger condition delay ''created'' ''mdbase.record.created'',
      activity_trigger condition delay ''modified'' ''mdbase.record.modified'',
      activity_trigger condition delay ''renamed'' ''mdbase.record.renamed'']"
  "map (\<lambda>v. jstring_at v ''id'') (jarray_at (activity_workflow a condition delay) ''steps'') = [Some ''apply'']"
  by (simp_all add: activity_workflow_def jget_jobj jarray_at_def jstring_at_def)

lemma pointer_step_jobj: "pointer_step (jobj es) t = map_of (rev es) t"
proof -
  have "pointer_step (jobj es) t = jget (jobj es) t" by (simp add: jobj_def)
  then show ?thesis by (simp add: jget_jobj)
qed

lemma activity_run_policy:
  "concurrency_policy_of (activity_workflow a condition delay) = Ok Replace"
  "on_error_of (activity_workflow a condition delay) = Ok Stop"
  by (simp_all add: concurrency_policy_of_def on_error_of_def jpointer_def unescape_token_def activity_workflow_def
      pointer_step_jobj)

text \<open>
  A status activity is read back as it was meant. When \<open>workflow_contract\<close> accepts an activity, the
  workflow record it returns has the activity's id, distinct trigger and step ids (so that a catalog
  accepts them), a debounce on every trigger that the planner parses to exactly the configured delay in
  milliseconds, and is planned to replace older runs and to stop at the first error.
\<close>

theorem activity_round_trip:
  assumes "workflow_contract pl tx a = Ok workflow"
  shows "jget workflow ''id'' = Some (JStr (sa_id a)) \<and> runtime_identifier (sa_id a) \<and>
    assert_unique_ids workflow ''triggers'' = Ok () \<and> assert_unique_ids workflow ''steps'' = Ok () \<and>
    (\<forall>trigger \<in> set (jarray_at workflow ''triggers'').
       duration_at (jget trigger ''debounce'') = Ok (Some (sa_delay a div 1000000))) \<and>
    concurrency_policy_of workflow = Ok Replace \<and> on_error_of workflow = Ok Stop"
proof -
  from assms obtain condition where wf: "workflow = activity_workflow a condition (sa_delay a div 1000000)"
    and delay: "sa_delay a div 1000000 < 2 ^ 64" and i: "runtime_identifier (sa_id a)"
    unfolding workflow_contract_def check_identifiers_def
    by (auto simp: not_le split: if_splits)
  have step: "unique_ids field [v] [] = Ok ()" if "jstring_at v ''id'' = Some x" for v x field
    using that by (simp add: required_string_def)
  have "assert_unique_ids workflow ''triggers'' = Ok ()"
    by (simp add: wf assert_unique_ids_def activity_workflow_members(2) required_string_def activity_trigger_parts [OF delay])
  moreover have "assert_unique_ids workflow ''steps'' = Ok ()"
    using activity_workflow_members(3) [of a condition "sa_delay a div 1000000"] step
    by (auto simp: wf assert_unique_ids_def map_eq_Cons_conv)
  ultimately show ?thesis
    using activity_trigger_parts(2) [OF delay] i
    by (simp add: wf activity_workflow_members(1,2) activity_run_policy)
qed

definition ex_text :: text_host where
  "ex_text = \<lparr> tx_debug = id, tx_trim = id \<rparr>"

definition ex_activity :: status_transition_activity where
  "ex_activity = \<lparr> sa_id = ''act'', sa_name = ''Archive'', sa_record_type = ''task'', sa_status_field = ''status'',
     sa_status_value = ''done'', sa_action = ''app.archive'', sa_delay = 5000000000 \<rparr>"

theorem activity_round_trip_witness:
  "\<exists>workflow. workflow_contract ad_pl ex_text ex_activity = Ok workflow \<and> concurrency_policy_of workflow = Ok Replace \<and>
     map (\<lambda>t. duration_at (jget t ''debounce'')) (jarray_at workflow ''triggers'') =
       replicate (length (jarray_at workflow ''triggers'')) (Ok (Some 5000))"
proof -
  have "is_ok (workflow_contract ad_pl ex_text ex_activity)"
    by (simp add: workflow_contract_def check_identifiers_def runtime_identifier_def is_ascii_alphabetic_def
        is_ascii_digit_def ex_text_def ex_activity_def string_literal_def ad_pl_def)
  then obtain workflow where wf: "workflow_contract ad_pl ex_text ex_activity = Ok workflow" by (auto simp: is_ok_iff)
  from activity_round_trip [OF wf] wf show ?thesis
    by (auto simp: ex_activity_def map_replicate_const [symmetric] intro!: exI [of _ workflow] map_cong)
qed

end
