(* ===== verification/Rust_Text.thy ===== *)
theory Rust_Text
  imports Prelude
begin

text \<open>
  The text operations of the Rust standard library that the collection components use. A
  \<open>String\<close> is its UTF-8 bytes; \<open>utf8_chars\<close> is \<open>str::chars\<close> with a \<open>char\<close> as its Unicode
  scalar value. Splitting, prefix, suffix and substring tests are byte-wise, which agrees with
  the character-wise reading because no encoded character occurs inside another.
\<close>

section \<open>Characters\<close>

text \<open>\<open>str::chars\<close>. A truncated sequence cannot occur in a \<open>String\<close>; it yields its bytes.\<close>

fun utf8_chars :: "string \<Rightarrow> nat list" where
  "utf8_chars [] = []"
| "utf8_chars (b # bs) =
     (let n = of_char b in
      if n < 128 then n # utf8_chars bs
      else if n < 224 then
        (case bs of
           b1 # r \<Rightarrow> ((n mod 32) * 64 + of_char b1 mod 64) # utf8_chars r
         | _ \<Rightarrow> n # utf8_chars bs)
      else if n < 240 then
        (case bs of
           b1 # b2 # r \<Rightarrow> ((n mod 16) * 4096 + (of_char b1 mod 64) * 64 + of_char b2 mod 64)
                            # utf8_chars r
         | _ \<Rightarrow> n # utf8_chars bs)
      else
        (case bs of
           b1 # b2 # b3 # r \<Rightarrow>
             ((n mod 8) * 262144 + (of_char b1 mod 64) * 4096 + (of_char b2 mod 64) * 64
                + of_char b3 mod 64) # utf8_chars r
         | _ \<Rightarrow> n # utf8_chars bs))"

text \<open>\<open>char::encode_utf8\<close>.\<close>

definition utf8_encode :: "nat \<Rightarrow> string" where
  "utf8_encode n =
     (if n < 128 then [char_of n]
      else if n < 2048 then [char_of (192 + n div 64), char_of (128 + n mod 64)]
      else if n < 65536 then
        [char_of (224 + n div 4096), char_of (128 + (n div 64) mod 64), char_of (128 + n mod 64)]
      else
        [char_of (240 + n div 262144), char_of (128 + (n div 4096) mod 64),
         char_of (128 + (n div 64) mod 64), char_of (128 + n mod 64)])"

text \<open>A literal ASCII character as the scalar value it denotes.\<close>

abbreviation scalar :: "char \<Rightarrow> nat" where
  "scalar c \<equiv> of_char c"

lemma lead_byte:
  "q < 32 \<Longrightarrow> (192 + q) mod 32 = (q :: nat)"
  "q < 16 \<Longrightarrow> (224 + q) mod 16 = (q :: nat)"
  "q < 8 \<Longrightarrow> (240 + q) mod 8 = (q :: nat)"
  by (simp_all add: mod_add_left_eq [symmetric, of _ q])

lemma continuation_byte: "(128 + m mod 64) mod 64 = m mod (64 :: nat)"
  by (simp add: mod_add_left_eq [symmetric, of _ "m mod 64"])

lemma base_64:
  fixes n :: nat
  shows "n div 4096 * 4096 + n div 64 mod 64 * 64 + n mod 64 = n"
    and "n div 262144 * 262144 + n div 4096 mod 64 * 4096 + n div 64 mod 64 * 64 + n mod 64 = n"
proof -
  have split: "m div 64 * 64 + m mod 64 = m" for m :: nat by simp
  have d: "n div 4096 = n div 64 div 64" "n div 262144 = n div 64 div 64 div 64"
    by (simp_all add: div_mult2_eq [symmetric])
  show "n div 4096 * 4096 + n div 64 mod 64 * 64 + n mod 64 = n"
    using split [of n] split [of "n div 64"] unfolding d by linarith
  show "n div 262144 * 262144 + n div 4096 mod 64 * 4096 + n div 64 mod 64 * 64 + n mod 64 = n"
    using split [of n] split [of "n div 64"] split [of "n div 64 div 64"] unfolding d by linarith
qed

lemma utf8_chars_encode:
  assumes "n < 1114112"
  shows "utf8_chars (utf8_encode n @ s) = n # utf8_chars s"
proof -
  consider "n < 128" | "128 \<le> n" "n < 2048" | "2048 \<le> n" "n < 65536" | "65536 \<le> n" by linarith
  then show ?thesis
  proof cases
    case 1
    then show ?thesis by (simp add: utf8_encode_def Let_def)
  next
    case 2
    then have "n div 64 < 32" by linarith
    then show ?thesis using 2 by (simp add: utf8_encode_def Let_def lead_byte continuation_byte)
  next
    case 3
    then have "n div 4096 < 16" by linarith
    then show ?thesis using 3 base_64(1) [of n] by (simp add: utf8_encode_def Let_def lead_byte continuation_byte)
  next
    case 4
    with assms have "n div 262144 < 8" by linarith
    then show ?thesis using 4 base_64(2) [of n] by (simp add: utf8_encode_def Let_def lead_byte continuation_byte)
  qed
qed

lemma utf8_chars_ascii: "\<forall>c \<in> set s. scalar c < 128 \<Longrightarrow> utf8_chars s = map scalar s"
  by (induction s) (simp_all add: Let_def)

text \<open>\<open>char::is_control\<close>: the general category \<open>Cc\<close>.\<close>

definition is_control :: "nat \<Rightarrow> bool" where
  "is_control n \<longleftrightarrow> n < 32 \<or> (127 \<le> n \<and> n < 160)"

text \<open>\<open>u8::to_ascii_uppercase\<close> and \<open>str::to_ascii_uppercase\<close>.\<close>

definition upper_char :: "char \<Rightarrow> char" where
  "upper_char c = (if 97 \<le> scalar c \<and> scalar c \<le> 122 then char_of (scalar c - 32) else c)"

definition to_ascii_uppercase :: "string \<Rightarrow> string" where
  "to_ascii_uppercase s = map upper_char s"

definition is_ascii_alphabetic :: "char \<Rightarrow> bool" where
  "is_ascii_alphabetic c \<longleftrightarrow>
     (65 \<le> scalar c \<and> scalar c \<le> 90) \<or> (97 \<le> scalar c \<and> scalar c \<le> 122)"

section \<open>Prefixes, suffixes and substrings\<close>

definition ends_with :: "string \<Rightarrow> string \<Rightarrow> bool" where
  "ends_with s p = starts_with (rev s) (rev p)"

definition strip_prefix :: "string \<Rightarrow> string \<Rightarrow> string option" where
  "strip_prefix s p = (if starts_with s p then Some (drop (length p) s) else None)"

definition strip_suffix :: "string \<Rightarrow> string \<Rightarrow> string option" where
  "strip_suffix s p = (if ends_with s p then Some (take (length s - length p) s) else None)"

text \<open>\<open>str::find\<close> of a non-empty text, and \<open>str::contains\<close>.\<close>

fun find_str :: "string \<Rightarrow> string \<Rightarrow> nat option" where
  "find_str p s =
     (if starts_with s p then Some 0
      else (case s of [] \<Rightarrow> None | _ # r \<Rightarrow> map_option Suc (find_str p r)))"

declare find_str.simps [simp del]

definition contains_str :: "string \<Rightarrow> string \<Rightarrow> bool" where
  "contains_str s p \<longleftrightarrow> find_str p s \<noteq> None"

text \<open>\<open>str::split_once\<close> and \<open>str::rsplit_once\<close> at a character.\<close>

definition split_once :: "char \<Rightarrow> string \<Rightarrow> (string \<times> string) option" where
  "split_once c s =
     (if c \<in> set s then Some (takeWhile (\<lambda>x. x \<noteq> c) s, tl (dropWhile (\<lambda>x. x \<noteq> c) s)) else None)"

definition rsplit_once :: "char \<Rightarrow> string \<Rightarrow> (string \<times> string) option" where
  "rsplit_once c s =
     map_option (\<lambda>(a, b). (rev b, rev a)) (split_once c (rev s))"

lemma ends_with_iff: "ends_with s p \<longleftrightarrow> (\<exists>r. s = r @ p)"
proof
  assume "ends_with s p"
  then obtain r where "rev s = rev p @ r" by (auto simp: ends_with_def starts_with_iff)
  then have "s = rev r @ p" by (metis rev_append rev_rev_ident)
  then show "\<exists>r. s = r @ p" ..
qed (auto simp: ends_with_def starts_with_iff)

lemma strip_prefix_iff: "strip_prefix s p = Some r \<longleftrightarrow> s = p @ r"
  by (auto simp: strip_prefix_def starts_with_iff)

lemma strip_suffix_iff: "strip_suffix s p = Some r \<longleftrightarrow> s = r @ p"
  by (auto simp: strip_suffix_def ends_with_iff)

lemma split_at_first:
  assumes "c \<notin> set a"
  shows "takeWhile (\<lambda>x. x \<noteq> c) (a @ c # b) = a" "dropWhile (\<lambda>x. x \<noteq> c) (a @ c # b) = c # b"
  using assms by (induction a) auto

lemma split_once_iff:
  "split_once c s = Some (a, b) \<longleftrightarrow> s = a @ c # b \<and> c \<notin> set a"
proof
  assume eq: "split_once c s = Some (a, b)"
  then have "c \<in> set s" by (auto simp: split_once_def split: if_splits)
  then obtain a' b' where "s = a' @ c # b'" "c \<notin> set a'" by (meson split_list_first)
  with eq show "s = a @ c # b \<and> c \<notin> set a" by (auto simp: split_once_def split_at_first)
qed (auto simp: split_once_def split_at_first)

lemma rsplit_once_iff:
  "rsplit_once c s = Some (a, b) \<longleftrightarrow> s = a @ c # b \<and> c \<notin> set b"
proof -
  have "rsplit_once c s = Some (a, b) \<longleftrightarrow> split_once c (rev s) = Some (rev b, rev a)"
    by (auto simp: rsplit_once_def)
  also have "\<dots> \<longleftrightarrow> rev s = rev b @ c # rev a \<and> c \<notin> set b" by (simp add: split_once_iff)
  also have "rev s = rev b @ c # rev a \<longleftrightarrow> s = a @ c # b"
    by (metis append.assoc append_Cons append_Nil rev.simps(2) rev_append rev_swap)
  finally show ?thesis .
qed

section \<open>Trimming\<close>

text \<open>
  The encodings of the characters with the Unicode property \<open>White_Space\<close>; \<open>str::trim\<close> removes
  them at both ends.
\<close>

definition white_space_texts :: "string list" where
  "white_space_texts =
     [[CHR 0x09], [CHR 0x0A], [CHR 0x0B], [CHR 0x0C], [CHR 0x0D], [CHR 0x20],
      [CHR 0xC2, CHR 0x85], [CHR 0xC2, CHR 0xA0], [CHR 0xE1, CHR 0x9A, CHR 0x80],
      [CHR 0xE2, CHR 0x80, CHR 0x80], [CHR 0xE2, CHR 0x80, CHR 0x81],
      [CHR 0xE2, CHR 0x80, CHR 0x82], [CHR 0xE2, CHR 0x80, CHR 0x83],
      [CHR 0xE2, CHR 0x80, CHR 0x84], [CHR 0xE2, CHR 0x80, CHR 0x85],
      [CHR 0xE2, CHR 0x80, CHR 0x86], [CHR 0xE2, CHR 0x80, CHR 0x87],
      [CHR 0xE2, CHR 0x80, CHR 0x88], [CHR 0xE2, CHR 0x80, CHR 0x89],
      [CHR 0xE2, CHR 0x80, CHR 0x8A], [CHR 0xE2, CHR 0x80, CHR 0xA8],
      [CHR 0xE2, CHR 0x80, CHR 0xA9], [CHR 0xE2, CHR 0x80, CHR 0xAF],
      [CHR 0xE2, CHR 0x81, CHR 0x9F], [CHR 0xE3, CHR 0x80, CHR 0x80]]"

function strip_leading :: "string list \<Rightarrow> string \<Rightarrow> string" where
  "strip_leading ws s =
     (case List.find (\<lambda>w. w \<noteq> [] \<and> starts_with s w) ws of
        Some w \<Rightarrow> strip_leading ws (drop (length w) s)
      | None \<Rightarrow> s)"
  by pat_completeness auto
termination
proof (relation "measure (\<lambda>(ws, s). length s)")
  fix ws :: "string list" and s w
  assume "List.find (\<lambda>w. w \<noteq> [] \<and> starts_with s w) ws = Some w"
  then have "w \<noteq> []" "starts_with s w" by (auto simp: find_Some_iff)
  then show "((ws, drop (length w) s), ws, s) \<in> measure (\<lambda>(ws, s). length s)"
    by (auto simp: starts_with_iff)
qed simp

declare strip_leading.simps [simp del]

definition trim :: "string \<Rightarrow> string" where
  "trim s = rev (strip_leading (map rev white_space_texts) (rev (strip_leading white_space_texts s)))"

text \<open>\<open>str::split_whitespace().next()\<close>.\<close>

fun until_white_space :: "string \<Rightarrow> string" where
  "until_white_space [] = []"
| "until_white_space (c # cs) =
     (if list_ex (starts_with (c # cs)) white_space_texts then [] else c # until_white_space cs)"

end
