(* ===== verification/Glob.thy ===== *)
theory Glob
  imports Rust_Text
begin

text \<open>
  Collection path globs, \<open>matching/glob.rs\<close>: the portable matcher of version 0.3 with its
  character classes, and the legacy exclude matcher. The second half states what a portable glob
  means without the matcher's backtracking, as the existence of a division of the path among the
  pattern's components (and of a component among the pattern's characters), and proves that the
  matcher decides exactly that.
\<close>

section \<open>Character classes\<close>

record char_class =
  cc_negated :: bool
  cc_ranges :: "(nat \<times> nat) list"

text \<open>\<open>CharClass::matches\<close>.\<close>

definition class_matches :: "char_class \<Rightarrow> nat \<Rightarrow> bool" where
  "class_matches k c \<longleftrightarrow> list_ex (\<lambda>(low, high). low \<le> c \<and> c \<le> high) (cc_ranges k) \<noteq> cc_negated k"

text \<open>The loop of \<open>parse_class\<close> from \<open>index\<close> on.\<close>

function class_loop ::
  "nat list \<Rightarrow> bool \<Rightarrow> (nat \<times> nat) list \<Rightarrow> bool \<Rightarrow> nat \<Rightarrow> (char_class \<times> nat list) option" where
  "class_loop body negated ranges first index =
     (if index < length body then
        let c = body ! index in
        if c = scalar CHR '']'' \<and> \<not> first then
          Some (\<lparr>cc_negated = negated, cc_ranges = ranges\<rparr>, drop (index + 1) body)
        else if index + 2 < length body \<and> body ! (index + 1) = scalar CHR ''-''
                \<and> body ! (index + 2) \<noteq> scalar CHR '']'' then
          class_loop body negated (ranges @ [(c, body ! (index + 2))]) False (index + 3)
        else class_loop body negated (ranges @ [(c, c)]) False (index + 1)
      else None)"
  by pat_completeness auto
termination
  by (relation "measure (\<lambda>(body, _, _, _, index). length body - index)") auto

declare class_loop.simps [simp del]

definition parse_class :: "nat list \<Rightarrow> (char_class \<times> nat list) option" where
  "parse_class body =
     (let (negated, index) =
        (case body of c # _ \<Rightarrow> if c = scalar CHR ''!'' then (True, 1) else (False, 0)
                    | [] \<Rightarrow> (False, 0))
      in class_loop body negated [] True index)"

lemma class_loop_shorter:
  "class_loop body negated ranges first index = Some (k, after) \<Longrightarrow> length after < length body"
proof (induction body negated ranges first index rule: class_loop.induct)
  case (1 body negated ranges first index)
  then show ?case
    by (subst (asm) (3) class_loop.simps) (auto simp: Let_def split: if_splits)
qed

lemma class_loop_negated:
  "class_loop body negated ranges first index = Some (k, after) \<Longrightarrow> cc_negated k = negated"
proof (induction body negated ranges first index rule: class_loop.induct)
  case (1 body negated ranges first index)
  then show ?case
    by (subst (asm) (3) class_loop.simps) (auto simp: Let_def split: if_splits)
qed

lemma parse_class_shorter: "parse_class body = Some (k, after) \<Longrightarrow> length after < length body"
  unfolding parse_class_def Let_def by (auto split: prod.splits dest: class_loop_shorter)

text \<open>
  A class closes at the first bracket after its first character: a range never swallows a closing
  bracket, and a bracket that comes first is a member of the class.
\<close>

lemma drop_three:
  assumes "i + 2 < length xs"
  shows "drop i xs = [xs ! i, xs ! (i + 1), xs ! (i + 2)] @ drop (i + 3) xs"
  using assms Cons_nth_drop_Suc [of i xs] Cons_nth_drop_Suc [of "Suc i" xs]
    Cons_nth_drop_Suc [of "Suc (Suc i)" xs]
  by (simp add: eval_nat_numeral)

lemma class_loop_closes:
  "class_loop body negated ranges False index =
     Some (k, after) \<Longrightarrow> \<exists>inner. drop index body = inner @ scalar CHR '']'' # after
       \<and> scalar CHR '']'' \<notin> set inner"
proof (induction body negated ranges False index rule: class_loop.induct)
  case (1 body negated ranges index)
  show ?case
  proof (cases "index < length body")
    case True
    then have drop1: "drop index body = body ! index # drop (index + 1) body"
      by (simp add: Cons_nth_drop_Suc)
    show ?thesis
    proof (cases "body ! index = scalar CHR '']''")
      case close: True
      with "1.prems" True have "after = drop (index + 1) body"
        by (subst (asm) class_loop.simps) (simp add: Let_def)
      with close drop1 show ?thesis by (intro exI [of _ "[]"]) simp
    next
      case False
      show ?thesis
      proof (cases "index + 2 < length body \<and> body ! (index + 1) = scalar CHR ''-''
                     \<and> body ! (index + 2) \<noteq> scalar CHR '']''")
        case range: True
        then have "drop index body
            = [body ! index, body ! (index + 1), body ! (index + 2)] @ drop (index + 3) body"
          by (intro drop_three) simp
        moreover from "1.prems" True False range
        have "class_loop body negated (ranges @ [(body ! index, body ! (index + 2))]) False (index + 3)
                = Some (k, after)"
          by (subst (asm) class_loop.simps) (simp add: Let_def)
        then obtain inner where "drop (index + 3) body = inner @ scalar CHR '']'' # after"
            "scalar CHR '']'' \<notin> set inner"
          using "1.hyps"(1) True False range by auto
        ultimately show ?thesis using False range
          by (intro exI [of _ "[body ! index, body ! (index + 1), body ! (index + 2)] @ inner"]) auto
      next
        case single: False
        from "1.prems" True False single
        have "class_loop body negated (ranges @ [(body ! index, body ! index)]) False (index + 1)
                = Some (k, after)"
          by (subst (asm) class_loop.simps) (auto simp: Let_def split: if_splits)
        then obtain inner where "drop (index + 1) body = inner @ scalar CHR '']'' # after"
            "scalar CHR '']'' \<notin> set inner"
          using "1.hyps"(2) True False single by auto
        with False drop1 show ?thesis by (intro exI [of _ "body ! index # inner"]) auto
      qed
    qed
  next
    case False
    with "1.prems" show ?thesis by (subst (asm) class_loop.simps) simp
  qed
qed

lemma class_first_loop:
  assumes "class_loop body negated [] True index = Some (k, after)"
  shows "\<exists>c inner. drop index body = c # inner @ scalar CHR '']'' # after
    \<and> scalar CHR '']'' \<notin> set inner"
proof (cases "index < length body")
  case True
  then have drop1: "drop index body = body ! index # drop (index + 1) body"
    by (simp add: Cons_nth_drop_Suc)
  show ?thesis
  proof (cases "index + 2 < length body \<and> body ! (index + 1) = scalar CHR ''-''
                 \<and> body ! (index + 2) \<noteq> scalar CHR '']''")
    case range: True
    with assms True
    have "class_loop body negated [(body ! index, body ! (index + 2))] False (index + 3)
            = Some (k, after)"
      by (subst (asm) class_loop.simps) (simp add: Let_def)
    from class_loop_closes [OF this] obtain inner where
      "drop (index + 3) body = inner @ scalar CHR '']'' # after" "scalar CHR '']'' \<notin> set inner"
      by blast
    with range drop_three [of index body] show ?thesis
      by (intro exI [of _ "body ! index"] exI [of _ "[body ! (index + 1), body ! (index + 2)] @ inner"])
         auto
  next
    case False
    with assms True have "class_loop body negated [(body ! index, body ! index)] False (index + 1)
            = Some (k, after)"
      by (subst (asm) class_loop.simps) (auto simp: Let_def split: if_splits)
    from class_loop_closes [OF this] drop1 show ?thesis by auto
  qed
next
  case False
  with assms show ?thesis by (subst (asm) class_loop.simps) simp
qed

lemma parse_class_closes:
  assumes "parse_class body = Some (k, after)"
  shows "\<exists>bang c inner. body = bang @ c # inner @ scalar CHR '']'' # after
    \<and> bang \<in> {[], [scalar CHR ''!'']} \<and> cc_negated k = (bang \<noteq> [])
    \<and> scalar CHR '']'' \<notin> set inner"
proof (cases "\<exists>rest. body = scalar CHR ''!'' # rest")
  case True
  then obtain rest where body: "body = scalar CHR ''!'' # rest" by blast
  with assms have loop: "class_loop body True [] True 1 = Some (k, after)"
    by (simp add: parse_class_def)
  from class_first_loop [OF this] body class_loop_negated [OF loop] show ?thesis
    by (intro exI [of _ "[scalar CHR ''!'']"]) auto
next
  case False
  with assms have loop: "class_loop body False [] True 0 = Some (k, after)"
    by (auto simp: parse_class_def split: list.splits if_splits)
  from class_first_loop [OF this] class_loop_negated [OF loop] show ?thesis by force
qed

section \<open>The portable matcher\<close>

function match_segment :: "nat list \<Rightarrow> nat list \<Rightarrow> bool" where
  "match_segment text pattern =
     (case pattern of
        [] \<Rightarrow> text = []
      | head # rest \<Rightarrow>
          if head = scalar CHR ''*'' then
            match_segment text rest
              \<or> (case text of _ # remaining \<Rightarrow> match_segment remaining pattern | [] \<Rightarrow> False)
          else if head = scalar CHR ''?'' then
            (case text of _ # remaining \<Rightarrow> match_segment remaining rest | [] \<Rightarrow> False)
          else if head = scalar CHR ''['' then
            (case parse_class rest of
               Some (class, after) \<Rightarrow>
                 (case text of c # remaining \<Rightarrow> class_matches class c \<and> match_segment remaining after
                             | [] \<Rightarrow> False)
             | None \<Rightarrow>
                 (case text of c # remaining \<Rightarrow> c = scalar CHR ''['' \<and> match_segment remaining rest
                             | [] \<Rightarrow> False))
          else
            (case text of c # remaining \<Rightarrow> c = head \<and> match_segment remaining rest
                        | [] \<Rightarrow> False))"
  by pat_completeness auto
termination
  by (relation "measure (\<lambda>(text, pattern). length text + length pattern)")
     (auto dest: parse_class_shorter)

declare match_segment.simps [simp del]

function match_components :: "string list \<Rightarrow> string list \<Rightarrow> bool" where
  "match_components path [] = (path = [])"
| "match_components path (first # rest) =
     (if first = ''**'' then
        match_components path rest
          \<or> (case path of _ # remaining \<Rightarrow> match_components remaining (first # rest) | [] \<Rightarrow> False)
      else
        (case path of
           component # remaining \<Rightarrow>
             match_segment (utf8_chars component) (utf8_chars first)
               \<and> match_components remaining rest
         | [] \<Rightarrow> False))"
  by pat_completeness auto
termination
  by (relation "measure (\<lambda>(path, pattern). length path + length pattern)") auto

declare match_components.simps(2) [simp del]

definition portable_glob_match :: "string \<Rightarrow> string \<Rightarrow> bool" where
  "portable_glob_match pattern path =
     match_components (split_on CHR ''/'' path) (split_on CHR ''/'' pattern)"

section \<open>The legacy exclude matcher\<close>

definition match_glob_pattern :: "string \<Rightarrow> string \<Rightarrow> bool" where
  "match_glob_pattern pattern path =
     (case strip_suffix pattern ''/**'' of
        Some prefix \<Rightarrow> starts_with path (prefix @ ''/'') \<or> path = prefix
      | None \<Rightarrow>
          if starts_with pattern ''*.'' then ends_with path (drop 1 pattern)
          else
            (case split_on CHR ''*'' pattern of
               [before, after] \<Rightarrow> starts_with path before \<and> ends_with path after
             | _ \<Rightarrow> path = pattern \<or> starts_with path (pattern @ ''/'')))"

section \<open>What a portable glob means\<close>

text \<open>
  A segment pattern is a sequence of elements: a run of any characters, any one character, one
  character of a class, or a literal character.
\<close>

datatype glob_element = Any_Run | Any_Char | One_Of char_class | Literal nat

function segment_elements :: "nat list \<Rightarrow> glob_element list" where
  "segment_elements [] = []"
| "segment_elements (head # rest) =
     (if head = scalar CHR ''*'' then Any_Run # segment_elements rest
      else if head = scalar CHR ''?'' then Any_Char # segment_elements rest
      else if head = scalar CHR ''['' then
        (case parse_class rest of
           Some (class, after) \<Rightarrow> One_Of class # segment_elements after
         | None \<Rightarrow> Literal head # segment_elements rest)
      else Literal head # segment_elements rest)"
  by pat_completeness auto
termination
  by (relation "measure length") (auto dest: parse_class_shorter)

fun element_accepts :: "glob_element \<Rightarrow> nat list \<Rightarrow> bool" where
  "element_accepts Any_Run piece = True"
| "element_accepts Any_Char piece = (length piece = 1)"
| "element_accepts (One_Of class) piece = (\<exists>c. piece = [c] \<and> class_matches class c)"
| "element_accepts (Literal l) piece = (piece = [l])"

definition segment_accepts :: "string \<Rightarrow> string \<Rightarrow> bool" where
  "segment_accepts pattern component \<longleftrightarrow>
     (\<exists>pieces. concat pieces = utf8_chars component \<and>
        list_all2 element_accepts (segment_elements (utf8_chars pattern)) pieces)"

definition component_accepts :: "string \<Rightarrow> string list \<Rightarrow> bool" where
  "component_accepts pattern components \<longleftrightarrow>
     pattern = ''**'' \<or> (\<exists>c. components = [c] \<and> segment_accepts pattern c)"

definition glob_accepts :: "string \<Rightarrow> string \<Rightarrow> bool" where
  "glob_accepts pattern path \<longleftrightarrow>
     (\<exists>groups. concat groups = split_on CHR ''/'' path \<and>
        list_all2 component_accepts (split_on CHR ''/'' pattern) groups)"

text \<open>
  The two levels of the matcher are the same backtracking over a division of a list: an
  element either takes any prefix or exactly one item.
\<close>

definition division :: "('e \<Rightarrow> 'x list \<Rightarrow> bool) \<Rightarrow> 'e list \<Rightarrow> 'x list \<Rightarrow> bool" where
  "division accepts es xs \<longleftrightarrow> (\<exists>pieces. concat pieces = xs \<and> list_all2 accepts es pieces)"

lemma division_Nil [simp]: "division accepts [] xs \<longleftrightarrow> xs = []"
  by (auto simp: division_def)

lemma division_Cons:
  "division accepts (e # es) xs \<longleftrightarrow>
     (\<exists>p r. xs = p @ r \<and> accepts e p \<and> division accepts es r)"
proof
  assume "division accepts (e # es) xs"
  then obtain ps where "concat ps = xs" "list_all2 accepts (e # es) ps"
    by (auto simp: division_def)
  then show "\<exists>p r. xs = p @ r \<and> accepts e p \<and> division accepts es r"
    by (cases ps) (auto simp: division_def)
next
  assume "\<exists>p r. xs = p @ r \<and> accepts e p \<and> division accepts es r"
  then obtain p ps where "xs = p @ concat ps" "accepts e p" "list_all2 accepts es ps"
    by (auto simp: division_def)
  then show "division accepts (e # es) xs"
    unfolding division_def by (intro exI [of _ "p # ps"]) simp
qed

lemma division_any:
  assumes "\<And>p. accepts e p"
  shows "division accepts (e # es) xs \<longleftrightarrow>
    division accepts es xs \<or> (case xs of _ # r \<Rightarrow> division accepts (e # es) r | [] \<Rightarrow> False)"
proof (cases xs)
  case (Cons x r)
  have "division accepts (e # es) (x # r) \<longleftrightarrow> (\<exists>p q. x # r = p @ q \<and> division accepts es q)"
    by (simp add: division_Cons assms)
  also have "\<dots> \<longleftrightarrow> division accepts es (x # r) \<or> (\<exists>p q. r = p @ q \<and> division accepts es q)"
    by (auto simp: Cons_eq_append_conv)
  finally show ?thesis using Cons by (simp add: division_Cons assms)
qed (simp add: division_Cons assms)

lemma division_one:
  assumes "\<And>p. accepts e p \<longleftrightarrow> (\<exists>c. p = [c] \<and> P c)"
  shows "division accepts (e # es) xs \<longleftrightarrow>
    (case xs of c # r \<Rightarrow> P c \<and> division accepts es r | [] \<Rightarrow> False)"
proof -
  have "division accepts (e # es) xs \<longleftrightarrow> (\<exists>c r. xs = [c] @ r \<and> P c \<and> division accepts es r)"
    unfolding division_Cons assms by blast
  then show ?thesis by (simp split: list.splits)
qed

text \<open>The equations of \<open>match_segment\<close> by the first character of the pattern.\<close>

lemma match_segment_Nil: "match_segment chars [] \<longleftrightarrow> chars = []"
  by (simp add: match_segment.simps)

lemma match_segment_star:
  "match_segment chars (scalar CHR ''*'' # rest) \<longleftrightarrow> match_segment chars rest
     \<or> (case chars of _ # r \<Rightarrow> match_segment r (scalar CHR ''*'' # rest) | [] \<Rightarrow> False)"
  by (subst match_segment.simps) simp

lemma match_segment_any:
  "match_segment chars (scalar CHR ''?'' # rest) \<longleftrightarrow>
     (case chars of _ # r \<Rightarrow> match_segment r rest | [] \<Rightarrow> False)"
  by (subst match_segment.simps) simp

lemma match_segment_class:
  "parse_class rest = Some (k, after) \<Longrightarrow> match_segment chars (scalar CHR ''['' # rest) \<longleftrightarrow>
     (case chars of c # r \<Rightarrow> class_matches k c \<and> match_segment r after | [] \<Rightarrow> False)"
  by (subst match_segment.simps) simp

lemma match_segment_literal:
  assumes "head \<noteq> scalar CHR ''*''" "head \<noteq> scalar CHR ''?''"
    and "head = scalar CHR ''['' \<longrightarrow> parse_class rest = None"
  shows "match_segment chars (head # rest) \<longleftrightarrow>
    (case chars of c # r \<Rightarrow> c = head \<and> match_segment r rest | [] \<Rightarrow> False)"
  using assms by (subst match_segment.simps) (auto split: list.splits)

lemma match_segment_division:
  "match_segment chars pattern \<longleftrightarrow> division element_accepts (segment_elements pattern) chars"
proof (induction pattern arbitrary: chars rule: segment_elements.induct)
  case 1
  then show ?case by (simp add: match_segment_Nil)
next
  case (2 head rest)
  consider (star) "head = scalar CHR ''*''" | (any) "head = scalar CHR ''?''"
    | (one) k after where "head = scalar CHR ''[''" "parse_class rest = Some (k, after)"
    | (lit) "head \<noteq> scalar CHR ''*''" "head \<noteq> scalar CHR ''?''"
        "head = scalar CHR ''['' \<longrightarrow> parse_class rest = None"
    by (metis not_None_eq surj_pair)
  then show ?case
  proof cases
    case star
    show ?thesis
    proof (induction chars)
      case Nil
      from 2(1) star show ?case
        by (simp add: match_segment_star [simplified] division_any [of element_accepts Any_Run])
    next
      case (Cons c r)
      have "division element_accepts (Any_Run # segment_elements rest) (c # r) \<longleftrightarrow>
          division element_accepts (segment_elements rest) (c # r)
            \<or> division element_accepts (Any_Run # segment_elements rest) r"
        by (subst division_any) simp_all
      with 2(1) star Cons show ?case
        by (simp add: match_segment_star [of "c # r", simplified])
    qed
  next
    case any
    with 2(2) show ?thesis
      by (simp add: match_segment_any [simplified] length_Suc_conv
            division_one [of element_accepts Any_Char "\<lambda>_. True"] split: list.splits)
  next
    case one
    then have "match_segment chars after \<longleftrightarrow>
        division element_accepts (segment_elements after) chars" for chars
      using 2(4) by simp
    with one show ?thesis
      by (simp add: match_segment_class [simplified]
            division_one [of element_accepts "One_Of k" "class_matches k"] split: list.splits)
  next
    case lit
    then have "segment_elements (head # rest) = Literal head # segment_elements rest"
      by auto
    moreover have "match_segment chars rest \<longleftrightarrow>
        division element_accepts (segment_elements rest) chars" for chars
      using 2(3,5) lit by (cases "head = scalar CHR ''[''") auto
    ultimately show ?thesis
      by (simp add: match_segment_literal [OF lit]
            division_one [of element_accepts "Literal head" "\<lambda>c. c = head"] split: list.splits)
  qed
qed

lemma segment_accepts_iff:
  "segment_accepts pattern component \<longleftrightarrow>
     match_segment (utf8_chars component) (utf8_chars pattern)"
  by (simp add: match_segment_division segment_accepts_def division_def)

lemma match_components_division:
  "match_components path pattern \<longleftrightarrow> division component_accepts pattern path"
proof (induction path pattern rule: match_components.induct)
  case (2 path first rest)
  show ?case
  proof (cases "first = ''**''")
    case True
    then have "division component_accepts (first # rest) path \<longleftrightarrow>
        division component_accepts rest path
          \<or> (case path of _ # r \<Rightarrow> division component_accepts (first # rest) r | [] \<Rightarrow> False)"
      by (intro division_any) (simp add: component_accepts_def)
    with True 2(1,2) show ?thesis
      by (subst match_components.simps) (simp split: list.splits)
  next
    case False
    then have "division component_accepts (first # rest) path \<longleftrightarrow>
        (case path of c # r \<Rightarrow> segment_accepts first c \<and> division component_accepts rest r
                    | [] \<Rightarrow> False)"
      by (intro division_one) (simp add: component_accepts_def)
    with False 2(3) show ?thesis
      by (subst match_components.simps) (simp add: segment_accepts_iff split: list.splits)
  qed
qed simp

lemma portable_glob_match_iff: "portable_glob_match pattern path \<longleftrightarrow> glob_accepts pattern path"
  by (simp add: portable_glob_match_def glob_accepts_def match_components_division division_def)

end
