(* ===== verification/Collection_Path.thy ===== *)
theory Collection_Path
  imports Json Glob
begin

text \<open>
  Logical paths below a collection root (\<open>api/collection_path.rs\<close>), the exclusions of a
  collection (\<open>matching/engine.rs\<close>) and the two namespaces built on them: ordinary records
  (\<open>record_path.rs\<close>) and ordinary files (\<open>file_path.rs\<close>), with the classification of
  structural resources (\<open>runtime/snapshot.rs\<close>). The file system is the parameter
  \<open>entry_exists\<close>; the \<open>regex\<close> crate is a parameter too. \<open>std::path\<close> is that of a Unix
  platform.
\<close>

section \<open>Paths of the standard library\<close>

text \<open>\<open>Path::components\<close>, a root component being the text \<open>/\<close>.\<close>

definition std_components :: "string \<Rightarrow> string list" where
  "std_components s =
     (if starts_with s ''/'' then [''/'']
      else if hd (split_on CHR ''/'' s) = ''.'' then [''.''] else [])
     @ filter (\<lambda>c. c \<noteq> [] \<and> c \<noteq> ''.'') (split_on CHR ''/'' s)"

text \<open>The components of \<open>Path::parent\<close>.\<close>

definition parent_components :: "string \<Rightarrow> string list option" where
  "parent_components s =
     (case rev (std_components s) of
        [] \<Rightarrow> None
      | c # cs \<Rightarrow> if c = ''/'' then None else Some (rev cs))"

text \<open>\<open>PathBuf::push\<close> and \<open>Path::join\<close>.\<close>

definition path_push :: "string \<Rightarrow> string \<Rightarrow> string" where
  "path_push base c =
     (if starts_with c ''/'' then c
      else if base = [] \<or> ends_with base ''/'' then base @ c
      else base @ ''/'' @ c)"

text \<open>\<open>Path::starts_with\<close> compares components.\<close>

definition path_starts_with :: "string \<Rightarrow> string \<Rightarrow> bool" where
  "path_starts_with s base =
     (take (length (std_components base)) (std_components s) = std_components base)"

text \<open>\<open>Path::file_name\<close> and \<open>Path::extension\<close>.\<close>

definition file_name :: "string \<Rightarrow> string option" where
  "file_name s =
     (case rev (std_components s) of
        c # _ \<Rightarrow> if c \<in> {''/'', ''.'', ''..''} then None else Some c
      | [] \<Rightarrow> None)"

definition path_extension :: "string \<Rightarrow> string option" where
  "path_extension s =
     (case Option.bind (file_name s) (rsplit_once CHR ''.'') of
        Some (stem, ext) \<Rightarrow> if stem = [] then None else Some ext
      | None \<Rightarrow> None)"

section \<open>Collection paths\<close>

datatype collection_path = CollectionPath (as_path: string)

datatype collection_path_error =
    PathEmpty | PathAbsolute | PathTraversal | PathCurrentDirectory | PathEmptyComponent
  | PathNullByte | PathNonUnicode | PathPlatformUnsafe

text \<open>\<open>CollectionPath::to_path_buf\<close> collects the components; \<open>under\<close> joins them to a root.\<close>

definition to_path_buf :: "collection_path \<Rightarrow> string" where
  "to_path_buf p = foldl path_push [] (split_on CHR ''/'' (as_path p))"

definition path_under :: "collection_path \<Rightarrow> string \<Rightarrow> string" where
  "path_under p root = path_push root (to_path_buf p)"

definition is_reserved_device_suffix :: "string \<Rightarrow> bool" where
  "is_reserved_device_suffix value \<longleftrightarrow>
     value \<in> set ([''1'', ''2'', ''3'', ''4'', ''5'', ''6'', ''7'', ''8'', ''9'']
                  @ map utf8_encode [185, 178, 179])"

definition reserved_device :: "string \<Rightarrow> bool" where
  "reserved_device basename \<longleftrightarrow>
     basename \<in> set [''CON'', ''PRN'', ''AUX'', ''NUL'']
     \<or> (case strip_prefix basename ''COM'' of Some r \<Rightarrow> is_reserved_device_suffix r | None \<Rightarrow> False)
     \<or> (case strip_prefix basename ''LPT'' of Some r \<Rightarrow> is_reserved_device_suffix r | None \<Rightarrow> False)"

definition unsafe_char :: "nat \<Rightarrow> bool" where
  "unsafe_char c \<longleftrightarrow> c \<in> set (map scalar ''<>:\"|?*'') \<or> is_control c"

definition validate_portable_component :: "string \<Rightarrow> (collection_path_error, unit) res" where
  "validate_portable_component component =
     (if list_ex unsafe_char (utf8_chars component) then Err PathPlatformUnsafe
      else if ends_with component ''.'' \<or> ends_with component '' '' then Err PathPlatformUnsafe
      else if reserved_device (to_ascii_uppercase
                (case split_once CHR ''.'' component of Some (basename, _) \<Rightarrow> basename
                                                      | None \<Rightarrow> component))
        then Err PathPlatformUnsafe
      else Ok ())"

definition check_component :: "string \<Rightarrow> (collection_path_error, unit) res" where
  "check_component component =
     (if component = [] then Err PathEmptyComponent
      else if component = ''.'' then Err PathCurrentDirectory
      else if component = ''..'' then Err PathTraversal
      else validate_portable_component component)"

text \<open>The loop of \<open>from_str\<close> over the components.\<close>

fun collect_components :: "string list \<Rightarrow> (collection_path_error, string list) res" where
  "collect_components [] = Ok []"
| "collect_components (c # cs) =
     bind_res (check_component c) (\<lambda>_.
     bind_res (collect_components cs) (\<lambda>rest. Ok (c # rest)))"

definition backslash :: char where
  "backslash = CHR 0x5C"

definition slashes :: "string \<Rightarrow> string" where
  "slashes s = map (\<lambda>c. if c = backslash then CHR ''/'' else c) s"

definition windows_prefix :: "string \<Rightarrow> bool" where
  "windows_prefix s = (case s of a # b # _ \<Rightarrow> is_ascii_alphabetic a \<and> b = CHR '':'' | _ \<Rightarrow> False)"

definition collection_path_from_str :: "string \<Rightarrow> (collection_path_error, collection_path) res" where
  "collection_path_from_str input =
     (if input = [] then Err PathEmpty
      else if CHR 0x00 \<in> set input then Err PathNullByte
      else if starts_with input ''/'' \<or> starts_with input [backslash] \<or> windows_prefix input
        then Err PathAbsolute
      else
        bind_res (collect_components (split_on CHR ''/'' (slashes input))) (\<lambda>components.
        Ok (CollectionPath (join_with ''/'' components))))"

text \<open>\<open>TryFrom<&Path>\<close>: \<open>None\<close> is a path that is not Unicode.\<close>

definition collection_path_try_from ::
  "string option \<Rightarrow> (collection_path_error, collection_path) res" where
  "collection_path_try_from path =
     (case path of None \<Rightarrow> Err PathNonUnicode | Some value \<Rightarrow> collection_path_from_str value)"

section \<open>Settings and exclusions\<close>

record settings =
  st_extensions :: "string list"
  st_exclude :: "string list"
  st_include_subfolders :: bool
  st_types_folder :: string
  st_contracts_folder :: string
  st_migrations_folder :: string
  st_explicit_type_keys :: "string list"
  st_write_defaults :: bool
  st_default_validation :: string
  st_default_strict :: json
  st_timezone :: "string option"
  st_id_field :: string
  st_id_field_explicit :: bool
  st_write_nulls :: string
  st_write_empty_lists :: bool
  st_rename_update_refs :: bool
  st_cache_folder :: string

definition default_settings :: settings where
  "default_settings =
     \<lparr>st_extensions = [],
      st_exclude = [''.git'', ''node_modules'', ''.mdbase''],
      st_include_subfolders = True,
      st_types_folder = ''_types'',
      st_contracts_folder = ''_contracts'',
      st_migrations_folder = ''_types/_migrations'',
      st_explicit_type_keys = [''type'', ''types''],
      st_write_defaults = True,
      st_default_validation = ''warn'',
      st_default_strict = JBool False,
      st_timezone = None,
      st_id_field = ''id'',
      st_id_field_explicit = False,
      st_write_nulls = ''omit'',
      st_write_empty_lists = True,
      st_rename_update_refs = True,
      st_cache_folder = ''.mdbase''\<rparr>"

datatype spec_profile = V02 | V03

text \<open>The parts of a loaded \<open>Collection\<close> that decide about paths.\<close>

record collection =
  col_spec_profile :: spec_profile
  col_settings :: settings
  col_config_extensions :: "(string \<times> json) list"

text \<open>\<open>path.starts_with(&format!("{folder}/")) || path == folder\<close>.\<close>

definition in_folder :: "string \<Rightarrow> string \<Rightarrow> bool" where
  "in_folder folder path \<longleftrightarrow> starts_with path (folder @ ''/'') \<or> path = folder"

definition is_excluded_without_nested_collection :: "collection \<Rightarrow> string \<Rightarrow> bool" where
  "is_excluded_without_nested_collection col rel_path =
     (let st = col_settings col in
      if in_folder (st_types_folder st) rel_path then True
      else if in_folder (st_contracts_folder st) rel_path then True
      else if in_folder (st_cache_folder st) rel_path then True
      else if in_folder (st_migrations_folder st) rel_path then True
      else if st_cache_folder st \<noteq> ''.mdbase'' \<and> in_folder ''.mdbase'' rel_path then True
      else if rel_path \<in> set [''mdbase.yaml'', ''mdbase.lock.yaml''] then True
      else if col_spec_profile col = V03 then
        list_ex (\<lambda>c. starts_with c ''.'' \<or> c = ''node_modules'') (split_on CHR ''/'' rel_path)
          \<or> list_ex (\<lambda>pattern. portable_glob_match pattern rel_path) (st_exclude st)
      else if list_ex (\<lambda>pattern. match_glob_pattern pattern rel_path) (st_exclude st) then True
      else \<not> st_include_subfolders st \<and> CHR ''/'' \<in> set rel_path)"

text \<open>
  \<open>entry_exists\<close> answers for a path below the root; \<open>None\<close> is an I/O error, which counts as
  an existing entry.
\<close>

type_synonym root_entries = "string \<Rightarrow> bool option"

fun nested_below :: "root_entries \<Rightarrow> string \<Rightarrow> string list \<Rightarrow> bool" where
  "nested_below entry_exists current [] = False"
| "nested_below entry_exists current (c # cs) =
     (let here = path_push current c in
      if (case entry_exists (path_push here ''mdbase.yaml'') of Some b \<Rightarrow> b | None \<Rightarrow> True) then True
      else nested_below entry_exists here cs)"

definition is_in_nested_collection :: "root_entries \<Rightarrow> string \<Rightarrow> bool" where
  "is_in_nested_collection entry_exists rel_path =
     nested_below entry_exists [] (case parent_components rel_path of Some cs \<Rightarrow> cs | None \<Rightarrow> [])"

definition is_excluded :: "root_entries \<Rightarrow> collection \<Rightarrow> string \<Rightarrow> bool" where
  "is_excluded entry_exists col rel_path \<longleftrightarrow>
     is_excluded_without_nested_collection col rel_path
     \<or> is_in_nested_collection entry_exists rel_path"

definition is_user_excluded :: "root_entries \<Rightarrow> collection \<Rightarrow> string \<Rightarrow> bool" where
  "is_user_excluded entry_exists col rel_path \<longleftrightarrow>
     list_ex (\<lambda>pattern. match_glob_pattern pattern rel_path) (st_exclude (col_settings col))
     \<or> is_in_nested_collection entry_exists rel_path"

definition is_valid_extension :: "collection \<Rightarrow> string \<Rightarrow> bool" where
  "is_valid_extension col path \<longleftrightarrow>
     ends_with path ''.md''
     \<or> list_ex (\<lambda>ext. ends_with path (''.'' @ ext)) (st_extensions (col_settings col))"

definition is_record_path :: "root_entries \<Rightarrow> collection \<Rightarrow> string \<Rightarrow> bool" where
  "is_record_path entry_exists col rel_path \<longleftrightarrow>
     \<not> is_excluded entry_exists col rel_path \<and> is_valid_extension col rel_path"

section \<open>Record paths\<close>

definition has_hidden_component :: "string \<Rightarrow> bool" where
  "has_hidden_component path = list_ex (\<lambda>c. starts_with c ''.'') (split_on CHR ''/'' (slashes path))"

datatype record_path_error =
    RecordInvalidPath collection_path_error | RecordHiddenComponent | RecordReserved
  | RecordUnsupportedExtension

fun map_err_path :: "('e \<Rightarrow> 'f) \<Rightarrow> ('e, 'a) res \<Rightarrow> ('f, 'a) res" where
  "map_err_path f (Ok x) = Ok x"
| "map_err_path f (Err e) = Err (f e)"
| "map_err_path f Panic = Panic"

definition excluded_mode :: "root_entries \<Rightarrow> collection \<Rightarrow> bool \<Rightarrow> string \<Rightarrow> bool" where
  "excluded_mode entry_exists col check_nested path =
     (if check_nested then is_excluded entry_exists col path
      else is_excluded_without_nested_collection col path)"

definition validate_record_path_mode ::
  "root_entries \<Rightarrow> collection \<Rightarrow> bool \<Rightarrow> string \<Rightarrow> (record_path_error, collection_path) res" where
  "validate_record_path_mode entry_exists col check_nested input =
     bind_res (map_err_path RecordInvalidPath (collection_path_from_str input)) (\<lambda>path.
     if has_hidden_component (as_path path) then Err RecordHiddenComponent
     else if excluded_mode entry_exists col check_nested (as_path path) then Err RecordReserved
     else if \<not> is_valid_extension col (as_path path) then Err RecordUnsupportedExtension
     else Ok path)"

definition validate_record_path ::
  "root_entries \<Rightarrow> collection \<Rightarrow> string \<Rightarrow> (record_path_error, collection_path) res" where
  "validate_record_path entry_exists col path = validate_record_path_mode entry_exists col True path"

definition validate_record_path_after_traversal ::
  "root_entries \<Rightarrow> collection \<Rightarrow> string \<Rightarrow> (record_path_error, collection_path) res" where
  "validate_record_path_after_traversal entry_exists col path =
     validate_record_path_mode entry_exists col False path"

section \<open>Structural resources and file paths\<close>

datatype resource_kind =
    ResConfiguration | ResLock | ResContract | ResSchema | ResType | ResView

definition is_schema_resource_path :: "string \<Rightarrow> bool" where
  "is_schema_resource_path path \<longleftrightarrow>
     list_all (\<lambda>c. \<not> starts_with c ''.'') (split_on CHR ''/'' path)
     \<and> list_ex (\<lambda>c. c \<in> set [''schemas'', ''_schemas'']) (split_on CHR ''/'' path)"

text \<open>
  The \<open>regex\<close> crate: \<open>Regex::new(source)\<close> succeeds or not, a compiled expression matches a text
  or not, and \<open>regex::escape\<close>.
\<close>

record regex_ops =
  rx_valid :: "string \<Rightarrow> bool"
  rx_is_match :: "string \<Rightarrow> string \<Rightarrow> bool"
  rx_escape :: "string \<Rightarrow> string"

text \<open>The source text \<open>glob_regex\<close> compiles, from the characters that are left.\<close>

fun glob_regex_body :: "regex_ops \<Rightarrow> nat list \<Rightarrow> string" where
  "glob_regex_body rx [] = ''''"
| "glob_regex_body rx (c # cs) =
     (if c = scalar CHR ''*'' then
        (case cs of
           d # rest \<Rightarrow>
             if d = scalar CHR ''*'' then
               (case rest of
                  e # after \<Rightarrow> if e = scalar CHR ''/'' then ''(?:.*/)?'' @ glob_regex_body rx after
                               else ''.*'' @ glob_regex_body rx rest
                | [] \<Rightarrow> ''.*'' @ glob_regex_body rx rest)
             else ''[^/]*'' @ glob_regex_body rx cs
         | [] \<Rightarrow> ''[^/]*'' @ glob_regex_body rx cs)
      else if c = scalar CHR ''?'' then ''[^/]'' @ glob_regex_body rx cs
      else rx_escape rx (utf8_encode c) @ glob_regex_body rx cs)"

definition glob_regex :: "regex_ops \<Rightarrow> string \<Rightarrow> string option" where
  "glob_regex rx pattern =
     (let source = ''^'' @ glob_regex_body rx (utf8_chars (slashes pattern)) @ ''$'' in
      if rx_valid rx source then Some source else None)"

definition is_configured_obsidian_source :: "regex_ops \<Rightarrow> collection \<Rightarrow> string \<Rightarrow> bool" where
  "is_configured_obsidian_source rx col path =
     (let includes =
        (case Option.bind (Option.bind (Option.bind
                 (bt_get (col_config_extensions col) ''x-obsidian'')
                 (\<lambda>v. jget v ''bases'')) (\<lambda>v. jget v ''include'')) as_array of
           Some items \<Rightarrow> List.map_filter as_str items | None \<Rightarrow> [])
      in list_ex (\<lambda>regex. rx_is_match rx regex (slashes path))
           (List.map_filter (glob_regex rx) includes))"

definition structural_resource_kind ::
  "regex_ops \<Rightarrow> collection \<Rightarrow> string \<Rightarrow> resource_kind option" where
  "structural_resource_kind rx col portable =
     (let extension = path_extension portable in
      if portable \<in> set [''mdbase.lock.yaml'', ''mdbase.provisions.yaml''] then Some ResLock
      else if path_starts_with portable (st_types_folder (col_settings col))
              \<and> extension \<in> set [Some ''md'', Some ''yaml'', Some ''yml''] then Some ResType
      else if path_starts_with portable (st_contracts_folder (col_settings col))
              \<and> extension = Some ''md'' then Some ResContract
      else if extension = Some ''json'' \<and> is_schema_resource_path portable then Some ResSchema
      else if extension = Some ''base'' \<and> \<not> is_valid_extension col portable
              \<and> \<not> has_hidden_component portable
              \<and> is_configured_obsidian_source rx col portable then Some ResView
      else None)"

datatype file_path_error =
    FileInvalidPath collection_path_error | FileHiddenComponent | FileReserved | FileRecordPath

definition validate_file_path_mode ::
  "root_entries \<Rightarrow> regex_ops \<Rightarrow> collection \<Rightarrow> bool \<Rightarrow> string
    \<Rightarrow> (file_path_error, collection_path) res" where
  "validate_file_path_mode entry_exists rx col check_nested input =
     bind_res (map_err_path FileInvalidPath (collection_path_from_str input)) (\<lambda>path.
     if has_hidden_component (as_path path) then Err FileHiddenComponent
     else if excluded_mode entry_exists col check_nested (as_path path)
             \<or> structural_resource_kind rx col (as_path path) \<noteq> None then Err FileReserved
     else if is_valid_extension col (as_path path) then Err FileRecordPath
     else Ok path)"

definition validate_file_path ::
  "root_entries \<Rightarrow> regex_ops \<Rightarrow> collection \<Rightarrow> string \<Rightarrow> (file_path_error, collection_path) res" where
  "validate_file_path entry_exists rx col path =
     validate_file_path_mode entry_exists rx col True path"

definition validate_file_path_after_traversal ::
  "root_entries \<Rightarrow> regex_ops \<Rightarrow> collection \<Rightarrow> string \<Rightarrow> (file_path_error, collection_path) res" where
  "validate_file_path_after_traversal entry_exists rx col path =
     validate_file_path_mode entry_exists rx col False path"

section \<open>Opening a collection: settings and control folders\<close>

text \<open>\<open>value[key]\<close> of a value that is read: a missing member is \<open>null\<close>.\<close>

definition jindex :: "json \<Rightarrow> string \<Rightarrow> json" where
  "jindex v k = (case jget v k of Some x \<Rightarrow> x | None \<Rightarrow> JNull)"

fun as_bool :: "json \<Rightarrow> bool option" where
  "as_bool (JBool b) = Some b"
| "as_bool _ = None"

definition strings_at :: "json \<Rightarrow> string \<Rightarrow> string list \<Rightarrow> string list" where
  "strings_at v k dflt =
     (case as_array (jindex v k) of Some items \<Rightarrow> List.map_filter as_str items | None \<Rightarrow> dflt)"

definition string_at :: "json \<Rightarrow> string \<Rightarrow> string \<Rightarrow> string" where
  "string_at v k dflt = (case as_str (jindex v k) of Some s \<Rightarrow> s | None \<Rightarrow> dflt)"

definition bool_at :: "json \<Rightarrow> string \<Rightarrow> bool \<Rightarrow> bool" where
  "bool_at v k dflt = (case as_bool (jindex v k) of Some b \<Rightarrow> b | None \<Rightarrow> dflt)"

definition spec_profile_of :: "json \<Rightarrow> spec_profile" where
  "spec_profile_of config =
     (if as_str (jindex config ''spec_profile'') = Some ''v0.3'' then V03 else V02)"

definition settings_of :: "spec_profile \<Rightarrow> json \<Rightarrow> settings" where
  "settings_of profile v =
     \<lparr>st_extensions = strings_at v ''extensions'' [],
      st_exclude = strings_at v ''exclude'' [''.git'', ''node_modules'', ''.mdbase''],
      st_include_subfolders = bool_at v ''include_subfolders'' True,
      st_types_folder = string_at v ''types_folder'' ''_types'',
      st_contracts_folder = string_at v ''contracts_folder'' ''_contracts'',
      st_migrations_folder = string_at v ''migrations_folder'' ''_types/_migrations'',
      st_explicit_type_keys = strings_at v ''explicit_type_keys'' [''type'', ''types''],
      st_write_defaults =
        (if profile = V03 then False else bool_at v ''write_defaults'' True),
      st_default_validation = string_at v ''default_validation'' ''warn'',
      st_default_strict = jindex v ''default_strict'',
      st_timezone = as_str (jindex v ''timezone''),
      st_id_field = string_at v ''id_field'' ''id'',
      st_id_field_explicit = bool_at v ''id_field_explicit'' False,
      st_write_nulls =
        (if profile = V03 then ''explicit'' else string_at v ''write_nulls'' ''omit''),
      st_write_empty_lists = bool_at v ''write_empty_lists'' True,
      st_rename_update_refs = bool_at v ''rename_update_refs'' True,
      st_cache_folder = string_at v ''cache_folder'' ''.mdbase''\<rparr>"

definition config_extensions_of :: "json \<Rightarrow> (string \<times> json) list" where
  "config_extensions_of config =
     (case as_object config of
        Some members \<Rightarrow> filter (\<lambda>(key, _). starts_with key ''x-'') members
      | None \<Rightarrow> [])"

text \<open>The messages of \<open>CollectionPathError\<close>.\<close>

fun path_error_message :: "collection_path_error \<Rightarrow> string" where
  "path_error_message PathEmpty = ''collection path must not be empty''"
| "path_error_message PathAbsolute = ''collection path must be relative''"
| "path_error_message PathTraversal = ''collection path must not contain '..' traversal''"
| "path_error_message PathCurrentDirectory = ''collection path must not contain '.' components''"
| "path_error_message PathEmptyComponent = ''collection path must not contain empty components''"
| "path_error_message PathNullByte = ''collection path must not contain a NUL byte''"
| "path_error_message PathNonUnicode = ''collection path must be valid Unicode''"
| "path_error_message PathPlatformUnsafe =
     ''collection path contains a platform-reserved component''"

definition op_error :: "string \<Rightarrow> string \<Rightarrow> json" where
  "op_error code message =
     jobj [(''error'', jobj [(''code'', JStr code), (''message'', JStr message)])]"

text \<open>
  Opening a directory below the root without following links: it opens, there is none, or it
  fails with a message.
\<close>

datatype dir_result = DirOpened | DirNotFound | DirError string

definition normalize_folder ::
  "(string \<Rightarrow> dir_result) \<Rightarrow> string \<Rightarrow> bool \<Rightarrow> string \<Rightarrow> (json, string) res" where
  "normalize_folder open_dir label allow_hidden folder =
     (case collection_path_from_str folder of
        Err e \<Rightarrow> Err (op_error ''invalid_config''
                   (''settings.'' @ label @ '' is not a portable collection path: ''
                      @ path_error_message e))
      | Panic \<Rightarrow> Panic
      | Ok normalized \<Rightarrow>
          if \<not> allow_hidden
             \<and> list_ex (\<lambda>c. starts_with c ''.'') (split_on CHR ''/'' (as_path normalized)) then
            Err (op_error ''invalid_config''
              (''settings.'' @ label @ '' must not use a hidden filesystem namespace''))
          else
            (case open_dir (to_path_buf normalized) of
               DirError e \<Rightarrow> Err (op_error ''path_traversal''
                   (''settings.'' @ label @ '' is not a no-follow directory: '' @ e))
             | _ \<Rightarrow> Ok (as_path normalized)))"

text \<open>The control folders, normalized in the order of \<open>open_held\<close>.\<close>

definition normalize_folders ::
  "(string \<Rightarrow> dir_result) \<Rightarrow> settings \<Rightarrow> (json, settings) res" where
  "normalize_folders open_dir st =
     bind_res (normalize_folder open_dir ''types_folder'' False (st_types_folder st)) (\<lambda>types.
     bind_res (normalize_folder open_dir ''contracts_folder'' False (st_contracts_folder st)) (\<lambda>contracts.
     bind_res (normalize_folder open_dir ''migrations_folder'' False (st_migrations_folder st)) (\<lambda>migrations.
     bind_res (normalize_folder open_dir ''cache_folder'' True (st_cache_folder st)) (\<lambda>cache.
     Ok (st\<lparr>st_types_folder := types, st_contracts_folder := contracts,
            st_migrations_folder := migrations, st_cache_folder := cache\<rparr>)))))"

text \<open>
  The first half of \<open>open_held\<close>: a configuration that loaded with \<open>valid: true\<close> gives the
  settings of the collection; every other result is the error.
\<close>

definition open_settings :: "(string \<Rightarrow> dir_result) \<Rightarrow> json \<Rightarrow> (json, collection) res" where
  "open_settings open_dir config_result =
     (if jget config_result ''valid'' \<noteq> Some (JBool True) then Err config_result
      else
        let config = jindex config_result ''config'';
            profile = spec_profile_of config
        in bind_res (normalize_folders open_dir (settings_of profile (jindex config ''settings''))) (\<lambda>st.
           Ok \<lparr>col_spec_profile = profile, col_settings = st,
               col_config_extensions = config_extensions_of config\<rparr>))"

section \<open>Canonical paths\<close>

text \<open>A text that is its own canonical spelling.\<close>

definition canonical_path :: "string \<Rightarrow> bool" where
  "canonical_path p \<longleftrightarrow> collection_path_from_str p = Ok (CollectionPath p)"

end
