(* ===== verification/Path_Properties.thy ===== *)
theory Path_Properties
  imports Collection_Path
begin

text \<open>
  What the path boundary guarantees: which inputs are collection paths, that an accepted path is
  canonical and stays below the root, that records and files are disjoint namespaces outside the
  control folders, and that a portable glob matches exactly the paths its pattern describes.
\<close>

section \<open>Accepted components\<close>

definition portable_component :: "string \<Rightarrow> bool" where
  "portable_component c \<longleftrightarrow>
     c \<notin> {[], ''.'', ''..''} \<and> (\<forall>x \<in> set (utf8_chars c). \<not> unsafe_char x)
     \<and> \<not> ends_with c ''.'' \<and> \<not> ends_with c '' ''
     \<and> \<not> reserved_device (to_ascii_uppercase (hd (split_on CHR ''.'' c)))"

lemma hd_split_on: "hd (split_on x s) = takeWhile (\<lambda>y. y \<noteq> x) s"
proof (induction s)
  case (Cons y s)
  obtain p ps where "split_on x s = p # ps" by (cases "split_on x s") auto
  with Cons show ?case by simp
qed simp

lemma before_first:
  "(case split_once x s of Some (a, _) \<Rightarrow> a | None \<Rightarrow> s) = hd (split_on x s)"
proof (cases "x \<in> set s")
  case True
  then show ?thesis by (simp add: split_once_def hd_split_on)
next
  case False
  then have "takeWhile (\<lambda>y. y \<noteq> x) s = s" by (metis (mono_tags, lifting) takeWhile_eq_all_conv)
  with False show ?thesis by (simp only: split_once_def hd_split_on if_False option.case)
qed

lemma check_component_iff: "check_component c = Ok () \<longleftrightarrow> portable_component c"
  unfolding check_component_def validate_portable_component_def portable_component_def before_first
  by (auto simp: list_ex_iff)

lemma check_component_no_panic: "check_component c \<noteq> Panic"
  by (auto simp: check_component_def validate_portable_component_def)

lemma collect_components_Ok:
  "collect_components cs = Ok ds \<longleftrightarrow> ds = cs \<and> (\<forall>c \<in> set cs. portable_component c)"
  by (induction cs arbitrary: ds) (auto simp flip: check_component_iff)

lemma collect_components_no_panic: "collect_components cs \<noteq> Panic"
  by (induction cs) (auto simp: bind_res_eq_Panic check_component_no_panic)

section \<open>Canonical paths\<close>

lemma slashes_idem [simp]: "slashes (slashes s) = slashes s"
  by (simp add: slashes_def backslash_def)

lemma backslash_not_in_slashes: "backslash \<notin> set (slashes s)"
  by (auto simp: slashes_def backslash_def)

lemma nul_in_slashes: "CHR 0x00 \<in> set (slashes s) \<longleftrightarrow> CHR 0x00 \<in> set s"
  by (auto simp: slashes_def backslash_def)

text \<open>An input that is rejected as absolute has a component that is not portable anyway.\<close>

lemma absolute_has_bad_component:
  assumes "starts_with s ''/'' \<or> starts_with s [backslash] \<or> windows_prefix s"
  shows "\<exists>c \<in> set (split_on CHR ''/'' (slashes s)). \<not> portable_component c"
proof (cases "windows_prefix s")
  case True
  then obtain a r where s: "s = a # CHR '':'' # r" and a: "is_ascii_alphabetic a"
    by (auto simp: windows_prefix_def split: list.splits)
  then have plain: "a \<noteq> CHR ''/''" "a \<noteq> backslash" "scalar a < 128"
    by (auto simp: is_ascii_alphabetic_def backslash_def)
  obtain p ps where ps: "split_on CHR ''/'' (slashes r) = p # ps"
    by (cases "split_on CHR ''/'' (slashes r)") auto
  have "split_on CHR ''/'' (slashes s) = (a # CHR '':'' # p) # ps"
    using ps plain by (simp add: s slashes_def backslash_def)
  moreover have "scalar CHR '':'' \<in> set (utf8_chars (a # CHR '':'' # p))"
    using plain by (simp add: Let_def)
  then have "\<not> portable_component (a # CHR '':'' # p)"
    by (auto simp: portable_component_def unsafe_char_def)
  ultimately show ?thesis by simp
next
  case False
  with assms obtain r where "s = CHR ''/'' # r \<or> s = backslash # r"
    by (auto simp: starts_with_iff)
  then have "[] \<in> set (split_on CHR ''/'' (slashes s))"
    by (auto simp: slashes_def)
  then show ?thesis by (force simp: portable_component_def)
qed

lemma from_str_iff:
  "collection_path_from_str s = Ok p \<longleftrightarrow>
     as_path p = slashes s \<and> CHR 0x00 \<notin> set s
     \<and> (\<forall>c \<in> set (split_on CHR ''/'' (slashes s)). portable_component c)"
proof (cases "s = [] \<or> CHR 0x00 \<in> set s
              \<or> starts_with s ''/'' \<or> starts_with s [backslash] \<or> windows_prefix s")
  case True
  then have "collection_path_from_str s \<noteq> Ok p"
    by (auto simp: collection_path_from_str_def)
  moreover have "\<not> portable_component []" by (simp add: portable_component_def)
  ultimately show ?thesis using True absolute_has_bad_component [of s]
    by (auto simp: slashes_def)
next
  case False
  then show ?thesis
    by (cases p) (auto simp: collection_path_from_str_def collect_components_Ok)
qed

lemma from_str_components:
  assumes "collection_path_from_str s = Ok p" "c \<in> set (split_on CHR ''/'' (as_path p))"
  shows "portable_component c"
  using assms by (auto simp: from_str_iff)

lemma from_str_idem:
  "collection_path_from_str s = Ok p \<Longrightarrow> collection_path_from_str (as_path p) = Ok p"
  by (auto simp: from_str_iff nul_in_slashes)

section \<open>Confinement\<close>

lemma split_on_subset: "p \<in> set (split_on x s) \<Longrightarrow> set p \<subseteq> set s"
proof (induction s arbitrary: p)
  case (Cons y s)
  obtain q qs where "split_on x s = q # qs" by (cases "split_on x s") auto
  with Cons show ?case by (fastforce split: if_splits)
qed simp

lemma split_on_glue: "split_on x (a @ x # b) = split_on x a @ split_on x b"
proof (induction a)
  case (Cons y a)
  obtain p ps where "split_on x a = p # ps" by (cases "split_on x a") auto
  with Cons show ?case by simp
qed simp

lemma push_portable:
  assumes "portable_component c" "CHR ''/'' \<notin> set c"
  shows "path_push base c =
    (if base = [] \<or> ends_with base ''/'' then base @ c else base @ ''/'' @ c)"
  using assms by (auto simp: path_push_def starts_with_iff)

lemma portable_not_slash_end:
  "\<lbrakk>c \<noteq> []; CHR ''/'' \<notin> set c\<rbrakk> \<Longrightarrow> \<not> ends_with (b @ c) ''/''"
  by (auto simp: ends_with_iff append_eq_append_conv2 Cons_eq_append_conv append_eq_Cons_conv)

lemma join_with_glue: "join_with sep (a # b # cs) = join_with sep ((a @ sep @ b) # cs)"
  by (cases cs) simp_all

lemma foldl_push:
  assumes "\<forall>c \<in> set cs. portable_component c \<and> CHR ''/'' \<notin> set c"
    and "base \<noteq> []" "\<not> ends_with base ''/''"
  shows "foldl path_push base cs = join_with ''/'' (base # cs)"
  using assms
proof (induction cs arbitrary: base)
  case (Cons c cs)
  then have "c \<noteq> []" by (auto simp: portable_component_def)
  with Cons.prems have "\<not> ends_with (base @ ''/'' @ c) ''/''"
    using portable_not_slash_end [of c "base @ ''/''"] by simp
  with Cons.IH [of "base @ ''/'' @ c"] Cons.prems
  have "foldl path_push (base @ ''/'' @ c) cs = join_with ''/'' ((base @ ''/'' @ c) # cs)" by simp
  with Cons.prems show ?case unfolding join_with_glue by (simp add: push_portable)
qed simp

lemma to_path_buf_id:
  assumes "collection_path_from_str s = Ok p"
  shows "to_path_buf p = as_path p"
proof -
  let ?cs = "split_on CHR ''/'' (as_path p)"
  obtain c cs where cs: "?cs = c # cs" by (cases ?cs) auto
  have ok: "\<forall>c \<in> set ?cs. portable_component c \<and> CHR ''/'' \<notin> set c"
    using from_str_components [OF assms] split_on_no_sep by blast
  then have c: "c \<noteq> []" "\<not> ends_with c ''/''" "path_push [] c = c"
    using portable_not_slash_end [of c "[]"] cs
    by (auto simp: portable_component_def push_portable)
  have "to_path_buf p = foldl path_push c cs" using cs c by (simp add: to_path_buf_def)
  also have "\<dots> = join_with ''/'' ?cs" using foldl_push c ok cs by simp
  finally show ?thesis by simp
qed

lemma std_components_below:
  assumes "\<forall>c \<in> set (split_on CHR ''/'' q). portable_component c" "root \<noteq> []"
  shows "std_components (path_push root q) = std_components root @ split_on CHR ''/'' q"
proof -
  have keep: "filter (\<lambda>c. c \<noteq> [] \<and> c \<noteq> ''.'') (split_on CHR ''/'' q) = split_on CHR ''/'' q"
    using assms(1) by (auto simp: filter_id_conv portable_component_def)
  have q: "\<not> starts_with q ''/''"
  proof
    assume "starts_with q ''/''"
    then have "[] \<in> set (split_on CHR ''/'' q)" by (auto simp: starts_with_iff)
    with assms(1) show False by (auto simp: portable_component_def)
  qed
  have root: "starts_with (root @ z) ''/'' = starts_with root ''/''" for z
    using assms(2) by (cases root) auto
  show ?thesis
  proof (cases "ends_with root ''/''")
    case True
    then obtain b where b: "root = b @ ''/''" by (auto simp: ends_with_iff)
    have "split_on CHR ''/'' (root @ q) = split_on CHR ''/'' b @ split_on CHR ''/'' q"
         "split_on CHR ''/'' root = split_on CHR ''/'' b @ [[]]"
      using split_on_glue [of "CHR ''/''" b q] split_on_glue [of "CHR ''/''" b "[]"] b by simp_all
    then show ?thesis using True q keep root assms(2)
      by (simp add: path_push_def std_components_def hd_append)
  next
    case False
    have "split_on CHR ''/'' (root @ ''/'' @ q) = split_on CHR ''/'' root @ split_on CHR ''/'' q"
      using split_on_glue by simp
    then show ?thesis using False q keep root assms(2)
      by (simp add: path_push_def std_components_def hd_append)
  qed
qed

text \<open>
  C32: An accepted collection path is canonical and confined. Parsing its canonical text gives it
  again; below any root directory it names exactly the root's components followed by its own, none
  of which is a parent, current or empty component, hidden in a separator of another platform, a
  reserved device or a text with control characters. So an accepted path can neither leave the
  root nor alias another accepted path.
\<close>

theorem collection_path_confined:
  assumes "collection_path_from_str s = Ok p" and "root \<noteq> []"
  shows "collection_path_from_str (as_path p) = Ok p
    \<and> std_components (path_under p root) = std_components root @ split_on CHR ''/'' (as_path p)
    \<and> (\<forall>c \<in> set (split_on CHR ''/'' (as_path p)). portable_component c \<and> backslash \<notin> set c)"
proof (intro conjI ballI)
  note comps = from_str_components [OF assms(1)]
  show "collection_path_from_str (as_path p) = Ok p" using assms(1) by (rule from_str_idem)
  show "std_components (path_under p root) = std_components root @ split_on CHR ''/'' (as_path p)"
    using std_components_below comps assms by (simp add: path_under_def to_path_buf_id)
  fix c assume c: "c \<in> set (split_on CHR ''/'' (as_path p))"
  then show "portable_component c" by (rule comps)
  have "backslash \<notin> set (as_path p)"
    using assms(1) backslash_not_in_slashes by (auto simp: from_str_iff)
  with c show "backslash \<notin> set c" using split_on_subset by blast
qed

theorem collection_path_confined_witness:
  "std_components (path_under (CollectionPath ''tasks/ready/note.md'') ''/srv/vault'')
     = [''/'', ''srv'', ''vault'', ''tasks'', ''ready'', ''note.md'']
   \<and> collection_path_from_str (''tasks'' @ backslash # ''ready'' @ backslash # ''note.md'') = Ok (CollectionPath ''tasks/ready/note.md'')"
proof -
  have ok: "collection_path_from_str (''tasks'' @ backslash # ''ready'' @ backslash # ''note.md'')
      = Ok (CollectionPath ''tasks/ready/note.md'')"
    by code_simp
  from collection_path_confined [OF this, of "''/srv/vault''"]
  have "std_components (path_under (CollectionPath ''tasks/ready/note.md'') ''/srv/vault'')
      = std_components ''/srv/vault'' @ split_on CHR ''/'' ''tasks/ready/note.md''"
    by simp
  also have "\<dots> = [''/'', ''srv'', ''vault'', ''tasks'', ''ready'', ''note.md'']" by code_simp
  finally show ?thesis using ok by simp
qed

section \<open>Namespaces\<close>

lemma record_path_facts:
  assumes "validate_record_path_mode entry_exists col nested s = Ok p"
  shows "collection_path_from_str s = Ok p" "\<not> has_hidden_component (as_path p)"
    and "\<not> is_excluded_without_nested_collection col (as_path p)"
    and "nested \<Longrightarrow> \<not> is_in_nested_collection entry_exists (as_path p)"
    and "is_valid_extension col (as_path p)"
proof -
  obtain q where q: "map_err_path RecordInvalidPath (collection_path_from_str s) = Ok q"
    using assms by (auto simp: validate_record_path_mode_def)
  then have from_str: "collection_path_from_str s = Ok q"
    by (cases "collection_path_from_str s") auto
  with assms show "collection_path_from_str s = Ok p" "\<not> has_hidden_component (as_path p)"
      "\<not> is_excluded_without_nested_collection col (as_path p)"
      "nested \<Longrightarrow> \<not> is_in_nested_collection entry_exists (as_path p)"
      "is_valid_extension col (as_path p)"
    by (auto simp: validate_record_path_mode_def excluded_mode_def is_excluded_def split: if_splits)
qed

lemma file_path_facts:
  assumes "validate_file_path_mode entry_exists rx col nested s = Ok p"
  shows "collection_path_from_str s = Ok p" "\<not> has_hidden_component (as_path p)"
    and "\<not> is_excluded_without_nested_collection col (as_path p)"
    and "nested \<Longrightarrow> \<not> is_in_nested_collection entry_exists (as_path p)"
    and "\<not> is_valid_extension col (as_path p)"
    and "structural_resource_kind rx col (as_path p) = None"
proof -
  obtain q where q: "map_err_path FileInvalidPath (collection_path_from_str s) = Ok q"
    using assms by (auto simp: validate_file_path_mode_def)
  then have from_str: "collection_path_from_str s = Ok q"
    by (cases "collection_path_from_str s") auto
  with assms show "collection_path_from_str s = Ok p" "\<not> has_hidden_component (as_path p)"
      "\<not> is_excluded_without_nested_collection col (as_path p)"
      "nested \<Longrightarrow> \<not> is_in_nested_collection entry_exists (as_path p)"
      "\<not> is_valid_extension col (as_path p)"
      "structural_resource_kind rx col (as_path p) = None"
    by (auto simp: validate_file_path_mode_def excluded_mode_def is_excluded_def split: if_splits)
qed

lemma not_excluded_outside_folders:
  assumes "\<not> is_excluded_without_nested_collection col path"
  shows "\<forall>folder \<in> {st_types_folder (col_settings col), st_contracts_folder (col_settings col),
      st_migrations_folder (col_settings col), st_cache_folder (col_settings col), ''.mdbase''}.
      \<not> in_folder folder path"
    and "path \<notin> {''mdbase.yaml'', ''mdbase.lock.yaml''}"
  using assms
  by (auto simp: is_excluded_without_nested_collection_def Let_def split: if_splits)

text \<open>
  Records and files are disjoint namespaces, and both are disjoint from the control namespace.
  No path is accepted both as a record and as a file of one collection (whatever its spelling and
  whether or not the nested-collection check ran), and an accepted one lies outside the type,
  contract, migration and cache folders, outside the built-in cache folder, is no control file and
  has no hidden component.
\<close>

theorem record_and_file_paths_disjoint:
  assumes "validate_record_path_mode entry_exists col nested s = Ok p"
    and "validate_file_path_mode entry_exists rx col nested' s' = Ok q"
  shows "p \<noteq> q
    \<and> (\<forall>path \<in> {p, q}.
         \<not> has_hidden_component (as_path path)
         \<and> as_path path \<notin> {''mdbase.yaml'', ''mdbase.lock.yaml''}
         \<and> (\<forall>folder \<in> {st_types_folder (col_settings col), st_contracts_folder (col_settings col),
                st_migrations_folder (col_settings col), st_cache_folder (col_settings col), ''.mdbase''}.
              \<not> in_folder folder (as_path path)))"
  using record_path_facts [OF assms(1)] file_path_facts [OF assms(2)]
    not_excluded_outside_folders [of col "as_path p"] not_excluded_outside_folders [of col "as_path q"]
  by auto

definition ex_collection :: collection where
  "ex_collection = \<lparr>col_spec_profile = V03,
     col_settings = default_settings\<lparr>st_extensions := [''mdx''], st_exclude := [''private/**'']\<rparr>,
     col_config_extensions = []\<rparr>"

definition ex_regex :: regex_ops where
  "ex_regex = \<lparr>rx_valid = (\<lambda>_. True), rx_is_match = (\<lambda>p t. p = t), rx_escape = id\<rparr>"

theorem record_and_file_paths_disjoint_witness:
  "validate_record_path (\<lambda>_. Some False) ex_collection ''notes/example.mdx''
     = Ok (CollectionPath ''notes/example.mdx'')
   \<and> validate_file_path (\<lambda>_. Some False) ex_regex ex_collection ''attachments/photo.png''
     = Ok (CollectionPath ''attachments/photo.png'')
   \<and> \<not> in_folder ''_types'' ''notes/example.mdx'' \<and> \<not> in_folder ''_types'' ''attachments/photo.png''"
proof -
  have r: "validate_record_path_mode (\<lambda>_. Some False) ex_collection True ''notes/example.mdx''
     = Ok (CollectionPath ''notes/example.mdx'')" by code_simp
  have f: "validate_file_path_mode (\<lambda>_. Some False) ex_regex ex_collection True ''attachments/photo.png''
     = Ok (CollectionPath ''attachments/photo.png'')" by code_simp
  have t: "st_types_folder (col_settings ex_collection) = ''_types''"
    by (simp add: ex_collection_def default_settings_def)
  show ?thesis using record_and_file_paths_disjoint [OF r f] r f t
    by (simp add: validate_record_path_def validate_file_path_def)
qed

section \<open>Globs\<close>

text \<open>
  C33: The portable glob matcher decides exactly the declared meaning of a glob: a path matches when
  its components can be divided among the components of the pattern, \<open>**\<close> taking any number of
  them and every other component exactly one, whose characters in turn divide among the pattern's
  elements, \<open>*\<close> taking any run, \<open>?\<close> any one character, a class one of its members and a literal
  itself.
\<close>

theorem portable_glob_exact:
  "portable_glob_match pattern path \<longleftrightarrow> glob_accepts pattern path"
  by (rule portable_glob_match_iff)

end
