(* ===== verification/Link_Paths.thy ===== *)
theory Link_Paths
  imports Collection_Path
begin

text \<open>
  Link texts and the paths they name: \<open>links/parser.rs\<close>, the lexical part of
  \<open>links/resolver.rs\<close> and the lookups of \<open>links/resolution_keys.rs\<close>. Lower-casing with the
  Unicode tables is the parameter \<open>lower\<close>.
\<close>

section \<open>Segments\<close>

text \<open>\<open>count_leading_dotdot\<close>.\<close>

fun count_leading_dotdot :: "string \<Rightarrow> nat" where
  "count_leading_dotdot (a # b # c # rest) =
     (if a = CHR ''.'' \<and> b = CHR ''.'' \<and> c = CHR ''/'' then Suc (count_leading_dotdot rest) else 0)"
| "count_leading_dotdot rest = (if rest = ''..'' then 1 else 0)"

text \<open>One step of the loop of \<open>normalize_segments\<close>.\<close>

definition normalize_step :: "string list \<Rightarrow> string \<Rightarrow> string list" where
  "normalize_step parts segment =
     (if segment = '''' \<or> segment = ''.'' then parts
      else if segment = ''..'' then
        (if parts = [] \<or> last parts = ''..'' then parts @ [''..''] else butlast parts)
      else parts @ [segment])"

definition normalize_segments :: "string \<Rightarrow> string" where
  "normalize_segments path =
     (let parts = foldl normalize_step [] (split_on CHR ''/'' path) in
      if parts = [] then ''.'' else join_with ''/'' parts)"

definition normalize_link_path :: "string \<Rightarrow> string \<Rightarrow> string" where
  "normalize_link_path target source_dir =
     (if starts_with target ''/'' then
        normalize_segments (dropWhile (\<lambda>c. c = CHR ''/'') target)
      else if starts_with target ''./'' \<or> starts_with target ''../'' \<or> target = ''.''
              \<or> target = ''..'' \<or> contains_str target ''/./'' \<or> contains_str target ''/../'' then
        normalize_segments (if source_dir = '''' then target else source_dir @ ''/'' @ target)
      else target)"

section \<open>Parsing a link value\<close>

definition malformed_link :: "string \<Rightarrow> string \<Rightarrow> json" where
  "malformed_link raw message =
     jobj [(''error'', jobj [(''code'', JStr ''malformed_link''), (''message'', JStr message)]),
           (''raw'', JStr raw)]"

definition json_option :: "string option \<Rightarrow> json" where
  "json_option v = (case v of Some s \<Rightarrow> JStr s | None \<Rightarrow> JNull)"

definition is_relative :: "string \<Rightarrow> bool" where
  "is_relative target \<longleftrightarrow> starts_with target ''./'' \<or> starts_with target ''../''"

definition link_value ::
  "string \<Rightarrow> string \<Rightarrow> string option \<Rightarrow> string option \<Rightarrow> string \<Rightarrow> json" where
  "link_value raw target alias anchor format =
     jobj [(''link'', jobj
       [(''raw'', JStr raw), (''target'', JStr target), (''alias'', json_option alias),
        (''anchor'', json_option anchor), (''format'', JStr format),
        (''is_relative'', JBool (is_relative target))])]"

text \<open>A text up to a separator and what follows it.\<close>

definition cut_at :: "char \<Rightarrow> string \<Rightarrow> string \<times> string option" where
  "cut_at c s = (case split_once c s of Some (a, b) \<Rightarrow> (a, Some b) | None \<Rightarrow> (s, None))"

definition has_line_break :: "string \<Rightarrow> bool" where
  "has_line_break s \<longleftrightarrow> CHR 0x0A \<in> set s \<or> CHR 0x0D \<in> set s"

definition parse_wikilink :: "string \<Rightarrow> json" where
  "parse_wikilink value =
     (let inner = drop 2 (take (length value - 2) value) in
      if CHR ''['' \<in> set inner \<or> CHR '']'' \<in> set inner then
        malformed_link value ''Malformed wikilink delimiters''
      else
        let (target_part, alias) = cut_at CHR ''|'' inner;
            (target, anchor) = cut_at CHR ''#'' target_part
        in if trim target = '''' \<or> has_line_break target then
             malformed_link value ''Wikilink target must be nonempty and single-line''
           else link_value value target alias anchor ''wikilink'')"

definition parse_markdown_link :: "string \<Rightarrow> nat \<Rightarrow> json" where
  "parse_markdown_link value bracket_end =
     (let label = drop 1 (take bracket_end value);
          path_str = drop (bracket_end + 2) (take (length value - 1) value)
      in if CHR ''['' \<in> set label \<or> CHR '']'' \<in> set label
            \<or> CHR ''('' \<in> set path_str \<or> CHR '')'' \<in> set path_str
            \<or> contains_str (drop (bracket_end + 2) value) ''](''
         then malformed_link value ''Malformed Markdown link delimiters''
         else
           let (path, anchor) = cut_at CHR ''#'' path_str in
           if trim path = '''' \<or> has_line_break path then
             malformed_link value ''Markdown link target must be nonempty and single-line''
           else link_value value path (Some label) anchor ''markdown'')"

definition parse_link_text :: "string \<Rightarrow> json" where
  "parse_link_text value =
     (if starts_with value ''[['' \<and> ends_with value '']]'' then parse_wikilink value
      else if starts_with value ''[['' then
        malformed_link value ''Malformed or unterminated wikilink syntax''
      else
        (case find_str ''](''  value of
           Some bracket_end \<Rightarrow>
             if starts_with value ''['' \<and> ends_with value '')'' then
               parse_markdown_link value bracket_end
             else if starts_with value ''['' then
               malformed_link value ''Malformed or unterminated Markdown link syntax''
             else link_value value value None None ''path''
         | None \<Rightarrow> link_value value value None None ''path''))"

definition parse_link :: "json \<Rightarrow> json" where
  "parse_link input =
     (case jstring_at input ''value'' of
        Some value \<Rightarrow> parse_link_text value
      | None \<Rightarrow> jobj [(''error'', jobj [(''code'', JStr ''invalid_input''),
                  (''message'', JStr ''parse_link requires 'value' field'')])])"

section \<open>Relative links\<close>

definition normalize_collection_path :: "string \<Rightarrow> string" where
  "normalize_collection_path path = slashes path"

fun crosses_root :: "nat \<Rightarrow> string list \<Rightarrow> bool" where
  "crosses_root depth [] = False"
| "crosses_root depth (segment # rest) =
     (if segment = ''..'' then (if depth = 0 then True else crosses_root (depth - 1) rest)
      else if segment = ''.'' \<or> segment = '''' then crosses_root depth rest
      else crosses_root (depth + 1) rest)"

definition relative_path_crosses_root :: "string \<Rightarrow> string \<Rightarrow> bool" where
  "relative_path_crosses_root target source_dir =
     crosses_root (length (filter (\<lambda>s. s \<noteq> '''') (split_on CHR ''/'' source_dir)))
       (split_on CHR ''/'' target)"

text \<open>The loop of \<open>resolve_relative_link\<close>: a parent of nothing ends it without a result.\<close>

fun pop_segments :: "string list \<Rightarrow> string list \<Rightarrow> string list option" where
  "pop_segments segments [] = Some segments"
| "pop_segments segments (s # rest) =
     (if s = ''.'' then pop_segments segments rest
      else if s = ''..'' then
        (if segments = [] then None else pop_segments (butlast segments) rest)
      else if s \<noteq> '''' then pop_segments (segments @ [s]) rest
      else pop_segments segments rest)"

definition resolve_relative_link :: "string \<Rightarrow> string \<Rightarrow> string option" where
  "resolve_relative_link target source_dir =
     (let base = (if source_dir = '''' then target else source_dir @ ''/'' @ target) in
      map_option (join_with ''/'') (pop_segments [] (split_on CHR ''/'' base)))"

fun common_prefix :: "string list \<Rightarrow> string list \<Rightarrow> nat" where
  "common_prefix (x # xs) (y # ys) = (if x = y then Suc (common_prefix xs ys) else 0)"
| "common_prefix _ _ = 0"

definition path_segments :: "string \<Rightarrow> string list" where
  "path_segments path =
     (if path = '''' then [] else filter (\<lambda>s. s \<noteq> '''') (split_on CHR ''/'' path))"

text \<open>\<open>Path::parent\<close> as text: the components before the last one.\<close>

definition path_parent_text :: "string \<Rightarrow> string" where
  "path_parent_text path =
     (case parent_components path of Some cs \<Rightarrow> foldl path_push [] cs | None \<Rightarrow> '''')"

definition compute_relative_path :: "string \<Rightarrow> string \<Rightarrow> string" where
  "compute_relative_path source_dir target_path =
     (let src_parts = path_segments source_dir;
          tgt_parts = path_segments (path_parent_text target_path);
          target_filename = (case file_name target_path of Some f \<Rightarrow> f | None \<Rightarrow> target_path);
          common = common_prefix src_parts tgt_parts;
          ups = length src_parts - common
      in (if ups = 0 \<and> common = length tgt_parts then ''./''
          else concat (replicate ups ''../'') @ concat (map (\<lambda>p. p @ ''/'') (drop common tgt_parts)))
         @ target_filename)"

section \<open>Lookups\<close>

definition rooted :: "string \<Rightarrow> bool" where
  "rooted target \<longleftrightarrow> starts_with target ''/'' \<or> is_relative target"

text \<open>\<open>link_path\<close>: the path a link names, and whether it starts from the containing folder.\<close>

definition link_path :: "string \<Rightarrow> string \<times> bool" where
  "link_path link0 =
     (let link = trim link0;
          target =
            (case Option.bind (strip_prefix link ''[['') (\<lambda>r. strip_suffix r '']]'') of
               Some inner \<Rightarrow> trim (fst (cut_at CHR ''#'' (fst (cut_at CHR ''|'' inner))))
             | None \<Rightarrow>
                 (case Option.bind (Option.bind (strip_prefix link ''['') (\<lambda>r. strip_suffix r '')''))
                         (\<lambda>inner. map_option (\<lambda>i. drop (i + 2) inner) (find_str ''](''  inner)) of
                    Some rest \<Rightarrow>
                      let destination = trim (fst (cut_at CHR ''#'' rest)) in
                      if rooted destination then destination else ''./'' @ destination
                  | None \<Rightarrow> trim (fst (cut_at CHR ''#'' link))))
      in (target, is_relative target))"

datatype resolution_lookup = LookupSimple string | LookupPath "string list"

definition parent_text :: "string \<Rightarrow> string" where
  "parent_text path = (case rsplit_once CHR ''/'' path of Some (parent, _) \<Rightarrow> parent | None \<Rightarrow> '''')"

definition resolved_target :: "string \<Rightarrow> bool \<Rightarrow> string \<Rightarrow> string" where
  "resolved_target target from_source source_path =
     (case strip_prefix target ''/'' of
        Some below \<Rightarrow> normalize_segments below
      | None \<Rightarrow>
          if from_source then
            let source_dir = parent_text source_path in
            normalize_segments (if source_dir = '''' then target else source_dir @ ''/'' @ target)
          else
            (case strip_suffix target ''.md'' of
               Some name \<Rightarrow> if CHR ''/'' \<notin> set name then name else target
             | None \<Rightarrow> target))"

definition resolution_lookup_of ::
  "(string \<Rightarrow> string) \<Rightarrow> string \<Rightarrow> string \<Rightarrow> resolution_lookup option" where
  "resolution_lookup_of lower link source_path =
     (let (target, from_source) = link_path link in
      if target = '''' then None
      else
        let resolved = resolved_target target from_source source_path in
        if resolved = ''..'' \<or> starts_with resolved ''../'' then None
        else if \<not> from_source \<and> \<not> starts_with target ''/'' \<and> CHR ''/'' \<notin> set resolved then
          Some (LookupSimple (lower resolved))
        else
          Some (LookupPath (resolved #
            (if \<not> ends_with resolved ''.md'' \<and> \<not> ends_with resolved ''.mdx''
             then [resolved @ ''.md''] else []))))"

end
