(* ===== verification/Record_Structure.thy ===== *)
theory Record_Structure
  imports Link_Paths "HOL-Library.Option_ord"
begin

text \<open>
  Structural facts of one record, \<open>runtime/record_structure.rs\<close>: the scanner that finds links and
  embeds in a text, the classification of a target, the traversal of frontmatter values, the
  redaction of body occurrences and the canonical order. The Markdown and YAML front end and the
  removal of code blocks come before: the definitions start from the frontmatter value and the
  stripped body.
\<close>

section \<open>Data\<close>

datatype structural_source_kind = SourceFrontmatter | SourceBody

datatype structural_link_kind = Wikilink | MarkdownLink | WikilinkEmbed | MarkdownImage | LinkPath

datatype structural_resolution =
    Unresolved | Resolved | Missing | Ambiguous | UnsafeTraversal | External | Malformed

record structural_occurrence =
  oc_ordinal :: nat
  oc_source_kind :: structural_source_kind
  oc_kind :: structural_link_kind
  oc_raw :: string
  oc_raw_target :: string
  oc_normalized_target :: "string option"
  oc_alias :: "string option"
  oc_anchor :: "string option"
  oc_field :: "string option"
  oc_relative :: bool
  oc_resolution :: structural_resolution

record record_structure =
  sx_schema_version :: string
  sx_path :: string
  sx_occurrences :: "structural_occurrence list"
  sx_body_tags :: "string list"
  sx_body_links :: "string list"
  sx_body_embeds :: "string list"
  sx_structural_digest :: string

section \<open>Scanning\<close>

text \<open>The text of a sequence of characters.\<close>

definition text_of :: "nat list \<Rightarrow> string" where
  "text_of chars = concat (map utf8_encode chars)"

definition slice :: "'a list \<Rightarrow> nat \<Rightarrow> nat \<Rightarrow> 'a list" where
  "slice xs start stop = take (stop - start) (drop start xs)"

text \<open>\<open>find_closing\<close>: the first position at or after \<open>start\<close> with both characters.\<close>

definition find_closing :: "nat list \<Rightarrow> nat \<Rightarrow> nat \<Rightarrow> nat \<Rightarrow> nat option" where
  "find_closing chars start first second =
     List.find (\<lambda>i. chars ! i = first \<and> chars ! (i + 1) = second) [start..<length chars - 1]"

fun balanced_from :: "nat list \<Rightarrow> nat \<Rightarrow> nat \<Rightarrow> nat \<Rightarrow> nat \<Rightarrow> nat option" where
  "balanced_from [] index depth open_char close_char = None"
| "balanced_from (c # cs) index depth open_char close_char =
     (if c = open_char then balanced_from cs (index + 1) (depth + 1) open_char close_char
      else if c = close_char then
        (if depth - 1 = 0 then Some index
         else balanced_from cs (index + 1) (depth - 1) open_char close_char)
      else balanced_from cs (index + 1) depth open_char close_char)"

definition find_balanced :: "nat list \<Rightarrow> nat \<Rightarrow> nat \<Rightarrow> nat \<Rightarrow> nat option" where
  "find_balanced chars start open_char close_char =
     balanced_from (drop start chars) start 1 open_char close_char"

definition lower_char :: "char \<Rightarrow> char" where
  "lower_char c = (if 65 \<le> scalar c \<and> scalar c \<le> 90 then char_of (scalar c + 32) else c)"

definition is_external_target :: "string \<Rightarrow> bool" where
  "is_external_target target =
     (let lower = map lower_char (trim target) in
      list_ex (starts_with lower)
        [''http://'', ''https://'', ''mailto:'', ''ftp://'', ''data:'', ''//''])"

definition malformed_occurrence ::
  "structural_source_kind \<Rightarrow> structural_link_kind \<Rightarrow> string \<Rightarrow> structural_occurrence" where
  "malformed_occurrence source_kind kind raw =
     \<lparr>oc_ordinal = 0, oc_source_kind = source_kind, oc_kind = kind, oc_raw = raw,
      oc_raw_target = raw, oc_normalized_target = None, oc_alias = None, oc_anchor = None,
      oc_field = None, oc_relative = False, oc_resolution = Malformed\<rparr>"

definition climbs_out :: "string \<Rightarrow> bool" where
  "climbs_out normalized \<longleftrightarrow> normalized = ''..'' \<or> starts_with normalized ''../''"

definition make_occurrence ::
  "structural_source_kind \<Rightarrow> structural_link_kind \<Rightarrow> string \<Rightarrow> string \<Rightarrow> string option
    \<Rightarrow> string option \<Rightarrow> string \<Rightarrow> structural_occurrence" where
  "make_occurrence source_kind kind raw raw_target alias anchor path =
     (let target = trim (fst (cut_at CHR ''#'' raw_target));
          occurrence =
            \<lparr>oc_ordinal = 0, oc_source_kind = source_kind, oc_kind = kind, oc_raw = raw,
             oc_raw_target = raw_target, oc_normalized_target = None, oc_alias = alias,
             oc_anchor = anchor, oc_field = None, oc_relative = is_relative raw_target,
             oc_resolution = Unresolved\<rparr>
      in if target = '''' then occurrence\<lparr>oc_resolution := Malformed\<rparr>
         else if is_external_target target then occurrence\<lparr>oc_resolution := External\<rparr>
         else
           let normalized = normalize_link_path target (path_parent_text path) in
           occurrence\<lparr>oc_resolution := (if climbs_out normalized then UnsafeTraversal else Unresolved),
                      oc_normalized_target := Some normalized\<rparr>)"

text \<open>\<open>str::split_whitespace().next().unwrap_or_default()\<close>.\<close>

definition first_word :: "string \<Rightarrow> string" where
  "first_word s = until_white_space (strip_leading white_space_texts s)"

definition markdown_destination :: "string \<Rightarrow> string option" where
  "markdown_destination value =
     (let v = trim value in
      case strip_prefix v ''<'' of
        Some rest \<Rightarrow> map_option fst (split_once CHR ''>'' rest)
      | None \<Rightarrow> Some (first_word v))"

definition parse_target_occurrence_with_alias ::
  "structural_source_kind \<Rightarrow> structural_link_kind \<Rightarrow> string \<Rightarrow> string \<Rightarrow> string \<Rightarrow> string option
    \<Rightarrow> structural_occurrence" where
  "parse_target_occurrence_with_alias source_kind kind raw inner path explicit_alias =
     (let (target_part, alias) =
        (if kind \<in> {Wikilink, WikilinkEmbed} then
           (case split_once CHR ''|'' inner of
              Some (before, after) \<Rightarrow> (trim before, Some after)
            | None \<Rightarrow> (trim inner, explicit_alias))
         else (trim inner, explicit_alias))
      in case (if kind \<in> {MarkdownLink, MarkdownImage} then markdown_destination target_part
               else Some target_part) of
           None \<Rightarrow> malformed_occurrence source_kind kind raw
         | Some target \<Rightarrow>
             make_occurrence source_kind kind raw target alias (snd (cut_at CHR ''#'' target)) path)"

definition parse_target_occurrence ::
  "structural_source_kind \<Rightarrow> structural_link_kind \<Rightarrow> string \<Rightarrow> string \<Rightarrow> string
    \<Rightarrow> structural_occurrence" where
  "parse_target_occurrence source_kind kind raw inner path =
     parse_target_occurrence_with_alias source_kind kind raw inner path None"

lemma find_closing_bounds:
  "find_closing chars start first second = Some i \<Longrightarrow> start \<le> i \<and> i + 1 < length chars"
  by (auto simp: find_closing_def find_Some_iff)

lemma balanced_from_bounds:
  "balanced_from cs index depth o1 c1 = Some i \<Longrightarrow> index \<le> i \<and> i < index + length cs"
  by (induction cs index depth o1 c1 rule: balanced_from.induct) (auto split: if_splits)

lemma find_balanced_bounds:
  "find_balanced chars start o1 c1 = Some i \<Longrightarrow> start \<le> i \<and> i < length chars"
  by (auto simp: find_balanced_def dest!: balanced_from_bounds)

text \<open>What the scanner does at one position: go on from a later one, or stop, with the occurrence found.\<close>

datatype scan_step =
    ScanGo nat "structural_occurrence option"
  | ScanStop structural_occurrence

definition scan_double ::
  "nat list \<Rightarrow> structural_source_kind \<Rightarrow> string \<Rightarrow> structural_link_kind \<Rightarrow> nat \<Rightarrow> nat \<Rightarrow> scan_step" where
  "scan_double chars source_kind path kind start index =
     (case find_closing chars index (scalar CHR '']'') (scalar CHR '']'') of
        Some stop \<Rightarrow>
          ScanGo (stop + 2) (Some (parse_target_occurrence source_kind kind
            (text_of (slice chars start (stop + 2))) (text_of (slice chars index stop)) path))
      | None \<Rightarrow> ScanStop (malformed_occurrence source_kind kind (text_of (drop start chars))))"

text \<open>A Markdown link or image whose label starts at \<open>label\<close>; \<open>None\<close> when it is none.\<close>

definition scan_markdown ::
  "nat list \<Rightarrow> structural_source_kind \<Rightarrow> string \<Rightarrow> structural_link_kind \<Rightarrow> nat \<Rightarrow> nat
    \<Rightarrow> scan_step option" where
  "scan_markdown chars source_kind path kind start label =
     (case find_balanced chars label (scalar CHR ''['') (scalar CHR '']'') of
        None \<Rightarrow> None
      | Some bracket_end \<Rightarrow>
          if get_at chars (bracket_end + 1) = Some (scalar CHR ''('') then
            (case find_balanced chars (bracket_end + 2) (scalar CHR ''('') (scalar CHR '')'') of
               Some paren_end \<Rightarrow>
                 Some (ScanGo (paren_end + 1) (Some (parse_target_occurrence_with_alias source_kind kind
                   (text_of (slice chars start (paren_end + 1)))
                   (text_of (slice chars (bracket_end + 2) paren_end)) path
                   (Some (text_of (slice chars label bracket_end))))))
             | None \<Rightarrow>
                 Some (ScanStop (malformed_occurrence source_kind kind (text_of (drop start chars)))))
          else None)"

definition scan_at ::
  "nat list \<Rightarrow> structural_source_kind \<Rightarrow> string \<Rightarrow> nat \<Rightarrow> scan_step" where
  "scan_at chars source_kind path index =
     (let at = (\<lambda>i. get_at chars i); c = chars ! index in
      if c = scalar backslash then ScanGo (index + 2) None
      else if c = scalar CHR ''!'' \<and> at (index + 1) = Some (scalar CHR ''['')
              \<and> at (index + 2) = Some (scalar CHR ''['') then
        scan_double chars source_kind path WikilinkEmbed index (index + 3)
      else if c = scalar CHR ''['' \<and> at (index + 1) = Some (scalar CHR ''['') then
        scan_double chars source_kind path Wikilink index (index + 2)
      else
        (case (if c = scalar CHR ''['' \<and> (index = 0 \<or> chars ! (index - 1) \<noteq> scalar CHR ''!'')
               then scan_markdown chars source_kind path MarkdownLink index (index + 1) else None) of
           Some step \<Rightarrow> step
         | None \<Rightarrow>
             (case (if c = scalar CHR ''!'' \<and> at (index + 1) = Some (scalar CHR ''['')
                    then scan_markdown chars source_kind path MarkdownImage index (index + 2) else None) of
                Some step \<Rightarrow> step
              | None \<Rightarrow> ScanGo (index + 1) None)))"

lemma scan_double_progress:
  "scan_double chars sk path kind start index = ScanGo j occ \<Longrightarrow> index < j"
  by (auto simp: scan_double_def dest: find_closing_bounds split: option.splits)

lemma scan_markdown_progress:
  "scan_markdown chars sk path kind start label = Some (ScanGo j occ) \<Longrightarrow> label < j"
  by (auto simp: scan_markdown_def dest!: find_balanced_bounds split: option.splits if_splits)

lemma scan_at_progress:
  assumes "scan_at chars sk path index = ScanGo j occ"
  shows "index < j"
  using assms unfolding scan_at_def Let_def
  by (fastforce dest: scan_double_progress scan_markdown_progress split: option.splits if_splits)

function scan_from ::
  "nat list \<Rightarrow> structural_source_kind \<Rightarrow> string \<Rightarrow> nat \<Rightarrow> structural_occurrence list" where
  "scan_from chars source_kind path index =
     (if index < length chars then
        (case scan_at chars source_kind path index of
           ScanStop occ \<Rightarrow> [occ]
         | ScanGo j found \<Rightarrow>
             (case found of Some occ \<Rightarrow> [occ] | None \<Rightarrow> []) @ scan_from chars source_kind path j)
      else [])"
  by pat_completeness auto
termination
  by (relation "measure (\<lambda>(chars, _, _, index). length chars - index)")
     (auto dest: scan_at_progress)

declare scan_from.simps [simp del]

definition scan_occurrences ::
  "string \<Rightarrow> structural_source_kind \<Rightarrow> string \<Rightarrow> structural_occurrence list" where
  "scan_occurrences body source_kind path = scan_from (utf8_chars body) source_kind path 0"

section \<open>Frontmatter\<close>

definition string_occurrences :: "string \<Rightarrow> string option \<Rightarrow> string \<Rightarrow> structural_occurrence list" where
  "string_occurrences path field value =
     (let found = map (\<lambda>o1. o1\<lparr>oc_field := field\<rparr>) (scan_occurrences value SourceFrontmatter path) in
      if found = [] \<and> trim value \<noteq> '''' \<and> \<not> is_external_target (trim value)
         \<and> (CHR ''/'' \<in> set value \<or> CHR ''.'' \<in> set value) then
        [(parse_target_occurrence SourceFrontmatter LinkPath (trim value) (trim value) path)
           \<lparr>oc_field := field\<rparr>]
      else found)"

fun collect_frontmatter_occurrences ::
  "string \<Rightarrow> string option \<Rightarrow> json \<Rightarrow> structural_occurrence list" where
  "collect_frontmatter_occurrences path field (JStr value) = string_occurrences path field value"
| "collect_frontmatter_occurrences path field (JArr values) =
     concat (map (collect_frontmatter_occurrences path field) values)"
| "collect_frontmatter_occurrences path field (JObj members) =
     concat (map (\<lambda>(key, value).
       collect_frontmatter_occurrences path
         (Some (case field of Some parent \<Rightarrow> parent @ ''.'' @ key | None \<Rightarrow> key)) value) members)"
| "collect_frontmatter_occurrences path field _ = []"

section \<open>The envelope\<close>

definition redact_body_occurrence :: "structural_occurrence \<Rightarrow> structural_occurrence" where
  "redact_body_occurrence occ =
     occ\<lparr>oc_raw := '''', oc_alias := None,
         oc_raw_target :=
           (case oc_resolution occ of
              Malformed \<Rightarrow> ''''
            | External \<Rightarrow> first_word (oc_raw_target occ)
            | _ \<Rightarrow> (case oc_normalized_target occ of Some t \<Rightarrow> t | None \<Rightarrow> ''''))\<rparr>"

fun source_kind_rank :: "structural_source_kind \<Rightarrow> nat" where
  "source_kind_rank SourceFrontmatter = 0"
| "source_kind_rank SourceBody = 1"

fun link_kind_rank :: "structural_link_kind \<Rightarrow> nat" where
  "link_kind_rank Wikilink = 0"
| "link_kind_rank MarkdownLink = 1"
| "link_kind_rank WikilinkEmbed = 2"
| "link_kind_rank MarkdownImage = 3"
| "link_kind_rank LinkPath = 4"

fun resolution_rank :: "structural_resolution \<Rightarrow> nat" where
  "resolution_rank Unresolved = 0"
| "resolution_rank Resolved = 1"
| "resolution_rank Missing = 2"
| "resolution_rank Ambiguous = 3"
| "resolution_rank UnsafeTraversal = 4"
| "resolution_rank External = 5"
| "resolution_rank Malformed = 6"

text \<open>The fields \<open>compare_occurrences\<close> compares, in its order.\<close>

definition occurrence_key :: "structural_occurrence \<Rightarrow>
    nat \<times> nat \<times> string \<times> string \<times> string option \<times> string option \<times> string option \<times> string option
      \<times> bool \<times> nat" where
  "occurrence_key occ =
     (source_kind_rank (oc_source_kind occ), link_kind_rank (oc_kind occ), oc_raw occ,
      oc_raw_target occ, oc_normalized_target occ, oc_alias occ, oc_anchor occ, oc_field occ,
      oc_relative occ, resolution_rank (oc_resolution occ))"

definition structure_occurrences :: "string \<Rightarrow> json option \<Rightarrow> string \<Rightarrow> structural_occurrence list" where
  "structure_occurrences path frontmatter body =
     (let found =
        (case frontmatter of Some v \<Rightarrow> collect_frontmatter_occurrences path None v | None \<Rightarrow> [])
        @ map redact_body_occurrence (scan_occurrences body SourceBody path)
      in map (\<lambda>(i, occ). occ\<lparr>oc_ordinal := i\<rparr>) (enumerate 0 (sort_key occurrence_key found)))"

definition RECORD_STRUCTURE_SCHEMA_VERSION :: string where
  "RECORD_STRUCTURE_SCHEMA_VERSION = ''mdbase-record-structure-v3''"

text \<open>\<open>digest_structure\<close>, with the canonical JSON and the SHA-256 of the libraries.\<close>

definition digest_structure ::
  "(record_structure \<Rightarrow> string) \<Rightarrow> (string \<Rightarrow> string) \<Rightarrow> record_structure \<Rightarrow> string" where
  "digest_structure jcs sha256 structure =
     ''sha256:'' @ sha256 (jcs (structure\<lparr>sx_structural_digest := ''''\<rparr>))"

text \<open>
  The part of \<open>parse\<close> after the front end: the frontmatter mapping (if there is one), the body
  without code, and the tags, links and embeds that queries see.
\<close>

definition parse_structure ::
  "(record_structure \<Rightarrow> string) \<Rightarrow> (string \<Rightarrow> string) \<Rightarrow> string \<Rightarrow> json option \<Rightarrow> string
    \<Rightarrow> string list \<Rightarrow> string list \<Rightarrow> string list \<Rightarrow> record_structure" where
  "parse_structure jcs sha256 path frontmatter body tags links embeds =
     (let structure =
        \<lparr>sx_schema_version = RECORD_STRUCTURE_SCHEMA_VERSION, sx_path = path,
         sx_occurrences = structure_occurrences path frontmatter body,
         sx_body_tags = tags, sx_body_links = links, sx_body_embeds = embeds,
         sx_structural_digest = ''''\<rparr>
      in structure\<lparr>sx_structural_digest := digest_structure jcs sha256 structure\<rparr>)"

definition structural_digest_is_valid ::
  "(record_structure \<Rightarrow> string) \<Rightarrow> (string \<Rightarrow> string) \<Rightarrow> record_structure \<Rightarrow> bool" where
  "structural_digest_is_valid jcs sha256 structure \<longleftrightarrow>
     digest_structure jcs sha256 structure = sx_structural_digest structure"

end
