(* ===== verification/Record_Resolution.thy ===== *)
theory Record_Resolution
  imports Record_Structure
begin

text \<open>
  Bounded link resolution for an identity index owned by a provider,
  \<open>runtime/record_resolution.rs\<close>: the lookup plan of a record's structural occurrences, the
  selection among the candidates an authority returns, the evidence a resolution carries and the
  check of that evidence. Unicode lower-casing, the canonical JSON of \<open>serde_jcs\<close> and SHA-256
  are parameters.
\<close>

section \<open>Data\<close>

datatype resolution_key_kind = KeyPath | KeyBasename | KeyId | KeyTitle

text \<open>The derived order of the enumeration is the order of its variants.\<close>

fun key_kind_rank :: "resolution_key_kind \<Rightarrow> nat" where
  "key_kind_rank KeyPath = 0"
| "key_kind_rank KeyBasename = 1"
| "key_kind_rank KeyId = 2"
| "key_kind_rank KeyTitle = 3"

lemma key_kind_rank_inj [simp]: "key_kind_rank a = key_kind_rank b \<longleftrightarrow> a = b"
  by (cases a; cases b) simp_all

instantiation resolution_key_kind :: linorder
begin

definition less_eq_resolution_key_kind :: "resolution_key_kind \<Rightarrow> resolution_key_kind \<Rightarrow> bool" where
  "less_eq_resolution_key_kind a b \<longleftrightarrow> key_kind_rank a \<le> key_kind_rank b"

definition less_resolution_key_kind :: "resolution_key_kind \<Rightarrow> resolution_key_kind \<Rightarrow> bool" where
  "less_resolution_key_kind a b \<longleftrightarrow> key_kind_rank a < key_kind_rank b"

instance
  by standard
     (auto simp: less_eq_resolution_key_kind_def less_resolution_key_kind_def
        simp flip: key_kind_rank_inj)

end

record lookup_key =
  lk_priority :: nat
  lk_kind :: resolution_key_kind
  lk_value :: string

record occurrence_lookup =
  ol_ordinal :: nat
  ol_alternatives :: "lookup_key list"

record resolution_plan =
  rp_schema_version :: string
  rp_source_path :: string
  rp_structural_digest :: string
  rp_lookups :: "occurrence_lookup list"

record candidate_identity =
  ci_record_id :: string
  ci_path :: string

record resolution_candidate =
  rc_ordinal :: nat
  rc_lookup :: lookup_key
  rc_record_id :: string
  rc_path :: string

datatype resolution_reason =
  ConfiguredId | OnlyCandidate | ExactPath | SameDirectory | ShallowestPath | LexicalTieBreak

record ranked =
  rk_record_id :: string
  rk_path :: string
  rk_reason :: resolution_reason
  rk_selected_kind :: resolution_key_kind
  rk_candidate_count :: nat
  rk_candidate_digest :: string
  rk_alternatives :: "string list"
  rk_alternative_candidates :: "candidate_identity list"

datatype ranked_resolution = RankedMissing | RankedResolved ranked | RankedAmbiguous "string list"

record resolved_occurrence =
  ro_occurrence :: structural_occurrence
  ro_resolution :: structural_resolution
  ro_target_record_id :: "string option"
  ro_target_path :: "string option"
  ro_ambiguous_paths :: "string list"
  ro_reason :: "resolution_reason option"
  ro_selected_lookup :: "lookup_key option"
  ro_candidate_count :: nat
  ro_candidate_digest :: "string option"
  ro_alternatives :: "string list"
  ro_alternative_candidates :: "candidate_identity list"

record resolved_structure =
  rx_schema_version :: string
  rx_path :: string
  rx_structural_digest :: string
  rx_occurrences :: "resolved_occurrence list"
  rx_body_tags :: "string list"
  rx_body_links :: "string list"
  rx_body_embeds :: "string list"

record catalog_error =
  ce_code :: string
  ce_message :: string

definition MAX_STRUCTURAL_OCCURRENCES :: nat where "MAX_STRUCTURAL_OCCURRENCES = 4096"

definition MAX_RESOLUTION_LOOKUPS :: nat where "MAX_RESOLUTION_LOOKUPS = 16384"

definition MAX_RESOLUTION_CANDIDATES :: nat where "MAX_RESOLUTION_CANDIDATES = 16384"

definition MAX_RESOLUTION_ALTERNATIVES :: nat where
  "MAX_RESOLUTION_ALTERNATIVES = MAX_RESOLUTION_CANDIDATES - 1"

text \<open>
  Library code: \<open>str::to_lowercase\<close> with the Unicode tables, \<open>serde_jcs::to_vec\<close> of a kind and
  the ordered identities (\<open>None\<close> is an error) and the hexadecimal SHA-256 digest.
\<close>

record resolution_host =
  rh_lower :: "string \<Rightarrow> string"
  rh_jcs :: "resolution_key_kind \<Rightarrow> (string \<times> string) list \<Rightarrow> string option"
  rh_sha256 :: "string \<Rightarrow> string"

definition invalid_candidate_error :: catalog_error where
  "invalid_candidate_error =
     \<lparr>ce_code = ''invalid_resolution_candidate'',
      ce_message = ''The authority returned an invalid relationship candidate.''\<rparr>"

definition resolution_budget_error :: "string \<Rightarrow> catalog_error" where
  "resolution_budget_error kind =
     \<lparr>ce_code = ''relationship_budget_exceeded'',
      ce_message = ''The record exceeds the bounded '' @ kind @ '' budget.''\<rparr>"

section \<open>Selection\<close>

definition collection_directory :: "string \<Rightarrow> string" where
  "collection_directory path =
     (case rsplit_once CHR ''/'' path of Some (parent, _) \<Rightarrow> parent | None \<Rightarrow> '''')"

definition path_depth :: "string \<Rightarrow> nat" where
  "path_depth path = length (split_on CHR ''/'' path)"

text \<open>The loop over the candidates: an identity must be a bijection of ids and paths.\<close>

fun index_candidates ::
  "candidate_identity list \<Rightarrow> (string, string) btree \<Rightarrow> (string, string) btree
    \<Rightarrow> (catalog_error, (string, string) btree) res" where
  "index_candidates [] by_path by_record_id = Ok by_path"
| "index_candidates (c # cs) by_path by_record_id =
     (if ci_record_id c = '''' then Err invalid_candidate_error
      else
        (case collection_path_from_str (ci_path c) of
           Ok p \<Rightarrow>
             let path = as_path p; rid = ci_record_id c in
             (case bt_get by_record_id rid of
                Some q \<Rightarrow>
                  if q \<noteq> path then Err invalid_candidate_error
                  else
                    (case bt_get by_path path of
                       Some r \<Rightarrow> if r \<noteq> rid then Err invalid_candidate_error
                                 else index_candidates cs by_path by_record_id
                     | None \<Rightarrow> index_candidates cs (bt_insert path rid by_path) by_record_id)
              | None \<Rightarrow>
                  let by_record_id' = bt_insert rid path by_record_id in
                  (case bt_get by_path path of
                     Some r \<Rightarrow> if r \<noteq> rid then Err invalid_candidate_error
                               else index_candidates cs by_path by_record_id'
                   | None \<Rightarrow> index_candidates cs (bt_insert path rid by_path) by_record_id'))
         | _ \<Rightarrow> Err invalid_candidate_error))"

definition basename_reason :: "string \<Rightarrow> candidate_identity list \<Rightarrow> resolution_reason" where
  "basename_reason source_directory candidates =
     (if length candidates = 1 then OnlyCandidate
      else
        let same_directory = length (filter (\<lambda>c. collection_directory (ci_path c) = source_directory)
                                       candidates)
        in if same_directory = 1 then SameDirectory
           else
             let preferred_directory = 0 < same_directory;
                 depths = sort (map (\<lambda>c. path_depth (ci_path c))
                   (filter (\<lambda>c. \<not> preferred_directory
                                  \<or> collection_directory (ci_path c) = source_directory) candidates))
             in if get_at depths 0 \<noteq> get_at depths 1 then ShallowestPath else LexicalTieBreak)"

definition candidate_rank :: "string \<Rightarrow> candidate_identity \<Rightarrow> bool \<times> nat \<times> string \<times> string" where
  "candidate_rank source_directory c =
     (collection_directory (ci_path c) \<noteq> source_directory, path_depth (ci_path c),
      ci_path c, ci_record_id c)"

definition complete_alternative_candidates :: "candidate_identity list \<Rightarrow> candidate_identity list" where
  "complete_alternative_candidates candidates =
     sort_key (\<lambda>c. (ci_path c, ci_record_id c)) candidates"

definition digest_candidate_identities ::
  "resolution_host \<Rightarrow> resolution_key_kind \<Rightarrow> candidate_identity \<Rightarrow> candidate_identity list
    \<Rightarrow> (catalog_error, string) res" where
  "digest_candidate_identities h kind winner alternatives =
     (case rh_jcs h kind (map (\<lambda>c. (ci_record_id c, ci_path c)) (winner # alternatives)) of
        Some canonical \<Rightarrow> Ok (''sha256:'' @ rh_sha256 h canonical)
      | None \<Rightarrow> Err invalid_candidate_error)"

definition single_reason :: "resolution_key_kind \<Rightarrow> (catalog_error, resolution_reason) res" where
  "single_reason kind =
     (case kind of KeyId \<Rightarrow> Ok ConfiguredId | KeyPath \<Rightarrow> Ok ExactPath
                 | KeyBasename \<Rightarrow> Panic | KeyTitle \<Rightarrow> Ok OnlyCandidate)"

text \<open>The choice among the indexed candidates, in path order.\<close>

definition rank_candidates ::
  "resolution_host \<Rightarrow> string \<Rightarrow> resolution_key_kind \<Rightarrow> candidate_identity list
    \<Rightarrow> (catalog_error, ranked_resolution) res" where
  "rank_candidates h source_directory kind candidates =
     (if candidates = [] then Ok RankedMissing
      else if MAX_RESOLUTION_CANDIDATES < length candidates
        then Err (resolution_budget_error ''resolution candidate'')
      else if kind = KeyBasename then
        (case sort_key (candidate_rank source_directory) candidates of
           [] \<Rightarrow> Panic
         | winner # others \<Rightarrow>
             let alternatives = complete_alternative_candidates others in
             bind_res (digest_candidate_identities h kind winner alternatives) (\<lambda>digest.
             Ok (RankedResolved
               \<lparr>rk_record_id = ci_record_id winner, rk_path = ci_path winner,
                rk_reason = basename_reason source_directory candidates, rk_selected_kind = kind,
                rk_candidate_count = length candidates, rk_candidate_digest = digest,
                rk_alternatives = map ci_path alternatives,
                rk_alternative_candidates = alternatives\<rparr>)))
      else
        (case candidates of
           [winner] \<Rightarrow>
             bind_res (digest_candidate_identities h kind winner []) (\<lambda>digest.
             bind_res (single_reason kind) (\<lambda>reason.
             Ok (RankedResolved
               \<lparr>rk_record_id = ci_record_id winner, rk_path = ci_path winner,
                rk_reason = reason, rk_selected_kind = kind,
                rk_candidate_count = length candidates, rk_candidate_digest = digest,
                rk_alternatives = [], rk_alternative_candidates = []\<rparr>)))
         | _ \<Rightarrow> Ok (RankedAmbiguous (map ci_path candidates))))"

definition select_resolution_candidate ::
  "resolution_host \<Rightarrow> string \<Rightarrow> resolution_key_kind \<Rightarrow> candidate_identity list
    \<Rightarrow> (catalog_error, ranked_resolution) res" where
  "select_resolution_candidate h source_path kind input =
     bind_res (map_err_path (\<lambda>_. invalid_candidate_error) (collection_path_from_str source_path)) (\<lambda>source.
     bind_res (index_candidates input [] []) (\<lambda>by_path.
     rank_candidates h (collection_directory (as_path source)) kind
       (map (\<lambda>(path, rid). \<lparr>ci_record_id = rid, ci_path = path\<rparr>) by_path)))"

section \<open>Plans\<close>

definition record_extensions :: "collection \<Rightarrow> string list" where
  "record_extensions col = ''md'' # st_extensions (col_settings col)"

definition simple_wikilink :: "structural_occurrence \<Rightarrow> bool" where
  "simple_wikilink occ \<longleftrightarrow>
     oc_kind occ \<in> {Wikilink, WikilinkEmbed} \<and> \<not> oc_relative occ
     \<and> CHR ''/'' \<notin> set (oc_raw_target occ) \<and> path_extension (oc_raw_target occ) = None"

definition resolution_lookup_alternatives ::
  "resolution_host \<Rightarrow> collection \<Rightarrow> string \<Rightarrow> lookup_key list" where
  "resolution_lookup_alternatives h col target =
     (let paths = [\<lparr>lk_priority = 0, lk_kind = KeyPath, lk_value = target\<rparr>];
          extended = (if path_extension target = None
            then map (\<lambda>ext. \<lparr>lk_priority = 1, lk_kind = KeyPath, lk_value = target @ ''.'' @ ext\<rparr>)
                   (record_extensions col)
            else []);
          names = (if CHR ''/'' \<notin> set target
            then [\<lparr>lk_priority = 2, lk_kind = KeyId, lk_value = rh_lower h target\<rparr>,
                  \<lparr>lk_priority = 3, lk_kind = KeyBasename, lk_value = rh_lower h target\<rparr>,
                  \<lparr>lk_priority = 4, lk_kind = KeyTitle, lk_value = rh_lower h target\<rparr>]
            else [])
      in remdups_adj (sort_key (\<lambda>k. (lk_priority k, lk_kind k, lk_value k)) (paths @ extended @ names)))"

definition resolution_lookup_alternatives_for_occurrence ::
  "resolution_host \<Rightarrow> collection \<Rightarrow> structural_occurrence \<Rightarrow> string \<Rightarrow> lookup_key list" where
  "resolution_lookup_alternatives_for_occurrence h col occ target =
     (if simple_wikilink occ then
        [\<lparr>lk_priority = 0, lk_kind = KeyId, lk_value = rh_lower h target\<rparr>,
         \<lparr>lk_priority = 1, lk_kind = KeyBasename, lk_value = rh_lower h target\<rparr>,
         \<lparr>lk_priority = 2, lk_kind = KeyTitle, lk_value = rh_lower h target\<rparr>]
      else resolution_lookup_alternatives h col target)"

definition planned_lookup ::
  "resolution_host \<Rightarrow> collection \<Rightarrow> structural_occurrence \<Rightarrow> occurrence_lookup option" where
  "planned_lookup h col occ =
     (if oc_resolution occ \<noteq> Unresolved then None
      else map_option (\<lambda>target.
        \<lparr>ol_ordinal = oc_ordinal occ,
         ol_alternatives = resolution_lookup_alternatives_for_occurrence h col occ target\<rparr>)
        (oc_normalized_target occ))"

definition plan_record_resolution ::
  "resolution_host \<Rightarrow> collection \<Rightarrow> record_structure \<Rightarrow> (catalog_error, resolution_plan) res" where
  "plan_record_resolution h col structure =
     (if MAX_STRUCTURAL_OCCURRENCES < length (sx_occurrences structure)
        then Err (resolution_budget_error ''structural occurrence'')
      else
        let lookups = List.map_filter (planned_lookup h col) (sx_occurrences structure) in
        if MAX_RESOLUTION_LOOKUPS < sum_list (map (\<lambda>l. length (ol_alternatives l)) lookups)
          then Err (resolution_budget_error ''resolution lookup'')
        else Ok \<lparr>rp_schema_version = sx_schema_version structure,
                 rp_source_path = sx_path structure,
                 rp_structural_digest = sx_structural_digest structure,
                 rp_lookups = lookups\<rparr>)"

section \<open>Resolving a structure\<close>

type_synonym candidate_groups =
  "(nat, (nat, (string \<times> string, unit) btree) btree) btree"

definition add_to_group :: "resolution_candidate \<Rightarrow> candidate_groups \<Rightarrow> candidate_groups" where
  "add_to_group c groups =
     (let priorities = (case bt_get groups (rc_ordinal c) of Some m \<Rightarrow> m | None \<Rightarrow> []);
          rows = (case bt_get priorities (lk_priority (rc_lookup c)) of Some s \<Rightarrow> s | None \<Rightarrow> [])
      in bt_insert (rc_ordinal c)
           (bt_insert (lk_priority (rc_lookup c)) (bt_insert (rc_record_id c, rc_path c) () rows)
              priorities)
           groups)"

fun group_candidates ::
  "(nat, lookup_key list) btree \<Rightarrow> resolution_candidate list \<Rightarrow> candidate_groups
    \<Rightarrow> (catalog_error, candidate_groups) res" where
  "group_candidates planned [] groups = Ok groups"
| "group_candidates planned (c # cs) groups =
     (if (case bt_get planned (rc_ordinal c) of Some ks \<Rightarrow> rc_lookup c \<in> set ks | None \<Rightarrow> False)
      then group_candidates planned cs (add_to_group c groups)
      else Err \<lparr>ce_code = ''unplanned_resolution_candidate'',
        ce_message = ''The authority returned a relationship candidate outside the closed lookup plan.''\<rparr>)"

definition unresolved_occurrence ::
  "structural_occurrence \<Rightarrow> structural_resolution \<Rightarrow> string list \<Rightarrow> resolved_occurrence" where
  "unresolved_occurrence occ resolution ambiguous_paths =
     \<lparr>ro_occurrence = occ, ro_resolution = resolution, ro_target_record_id = None,
      ro_target_path = None, ro_ambiguous_paths = ambiguous_paths, ro_reason = None,
      ro_selected_lookup = None, ro_candidate_count = 0, ro_candidate_digest = None,
      ro_alternatives = [], ro_alternative_candidates = []\<rparr>"

definition plan_alternatives :: "resolution_plan \<Rightarrow> nat \<Rightarrow> lookup_key list" where
  "plan_alternatives plan ordinal =
     (case List.find (\<lambda>l. ol_ordinal l = ordinal) (rp_lookups plan) of
        Some l \<Rightarrow> ol_alternatives l | None \<Rightarrow> [])"

definition evidence_lookup ::
  "resolution_plan \<Rightarrow> nat \<Rightarrow> nat \<Rightarrow> lookup_key \<Rightarrow> ranked_resolution \<Rightarrow> lookup_key" where
  "evidence_lookup plan ordinal priority selected resolution =
     (case resolution of
        RankedResolved r \<Rightarrow>
          (case List.find (\<lambda>a. lk_priority a = priority \<and> lk_kind a = KeyPath \<and> lk_value a = rk_path r)
                  (plan_alternatives plan ordinal) of
             Some a \<Rightarrow> a | None \<Rightarrow> selected)
      | _ \<Rightarrow> selected)"

definition resolve_occurrence ::
  "resolution_host \<Rightarrow> record_structure \<Rightarrow> resolution_plan \<Rightarrow> candidate_groups
    \<Rightarrow> structural_occurrence \<Rightarrow> (catalog_error, resolved_occurrence) res" where
  "resolve_occurrence h structure plan grouped occ =
     (if oc_resolution occ \<noteq> Unresolved then Ok (unresolved_occurrence occ (oc_resolution occ) [])
      else
        (case bt_get grouped (oc_ordinal occ) of
           Some ((priority, matches) # _) \<Rightarrow>
             (case List.find (\<lambda>a. lk_priority a = priority) (plan_alternatives plan (oc_ordinal occ)) of
                None \<Rightarrow> Err \<lparr>ce_code = ''invalid_resolution_plan'',
                  ce_message = ''The relationship-resolution plan does not define the returned priority.''\<rparr>
              | Some selected \<Rightarrow>
                  bind_res (select_resolution_candidate h (sx_path structure) (lk_kind selected)
                    (map (\<lambda>(rid, path). \<lparr>ci_record_id = rid, ci_path = path\<rparr>) (bt_keys matches)))
                  (\<lambda>resolution.
                     Ok (case resolution of
                       RankedMissing \<Rightarrow> unresolved_occurrence occ Missing []
                     | RankedAmbiguous paths \<Rightarrow> unresolved_occurrence occ Ambiguous paths
                     | RankedResolved r \<Rightarrow>
                         \<lparr>ro_occurrence = occ, ro_resolution = Resolved,
                          ro_target_record_id = Some (rk_record_id r),
                          ro_target_path = Some (rk_path r), ro_ambiguous_paths = [],
                          ro_reason = Some (rk_reason r),
                          ro_selected_lookup =
                            Some (evidence_lookup plan (oc_ordinal occ) priority selected resolution),
                          ro_candidate_count = rk_candidate_count r,
                          ro_candidate_digest = Some (rk_candidate_digest r),
                          ro_alternatives = rk_alternatives r,
                          ro_alternative_candidates = rk_alternative_candidates r\<rparr>)))
         | _ \<Rightarrow> Ok (unresolved_occurrence occ Missing [])))"

definition resolve_record_structure ::
  "resolution_host \<Rightarrow> record_structure \<Rightarrow> resolution_plan \<Rightarrow> resolution_candidate list
    \<Rightarrow> (catalog_error, resolved_structure) res" where
  "resolve_record_structure h structure plan candidates =
     (if rp_schema_version plan \<noteq> sx_schema_version structure
         \<or> rp_source_path plan \<noteq> sx_path structure
         \<or> rp_structural_digest plan \<noteq> sx_structural_digest structure then
        Err \<lparr>ce_code = ''resolution_plan_mismatch'',
          ce_message = ''The relationship-resolution plan does not bind this record structure.''\<rparr>
      else if MAX_RESOLUTION_CANDIDATES < length candidates
        then Err (resolution_budget_error ''resolution candidate'')
      else if \<not> distinct (map ol_ordinal (rp_lookups plan)) then
        Err \<lparr>ce_code = ''invalid_resolution_plan'',
          ce_message = ''The relationship-resolution plan repeats an occurrence ordinal.''\<rparr>
      else
        let planned = foldl (\<lambda>m l. bt_insert (ol_ordinal l) (ol_alternatives l) m) [] (rp_lookups plan) in
        bind_res (group_candidates planned candidates []) (\<lambda>grouped.
        bind_res (map_res (resolve_occurrence h structure plan grouped) (sx_occurrences structure))
          (\<lambda>occurrences.
        Ok \<lparr>rx_schema_version = sx_schema_version structure, rx_path = sx_path structure,
            rx_structural_digest = sx_structural_digest structure, rx_occurrences = occurrences,
            rx_body_tags = sx_body_tags structure, rx_body_links = sx_body_links structure,
            rx_body_embeds = sx_body_embeds structure\<rparr>)))"

section \<open>Checking the evidence\<close>

definition is_collection_path :: "string \<Rightarrow> bool" where
  "is_collection_path path = is_ok (collection_path_from_str path)"

text \<open>\<open>Path::file_stem\<close>.\<close>

definition file_stem :: "string \<Rightarrow> string option" where
  "file_stem path =
     map_option (\<lambda>name.
       case rsplit_once CHR ''.'' name of
         Some (stem, _) \<Rightarrow> if stem = [] then name else stem | None \<Rightarrow> name) (file_name path)"

definition basename_eligible :: "string \<Rightarrow> string \<Rightarrow> bool" where
  "basename_eligible raw_target path =
     (case file_stem path of
        Some stem \<Rightarrow> to_ascii_uppercase stem = to_ascii_uppercase raw_target | None \<Rightarrow> False)"

definition rank_pair :: "string \<Rightarrow> string \<Rightarrow> bool \<times> nat" where
  "rank_pair source_directory path = (collection_directory path \<noteq> source_directory, path_depth path)"

definition reason_is_proven ::
  "resolution_host \<Rightarrow> string \<Rightarrow> resolved_occurrence \<Rightarrow> resolution_reason \<Rightarrow> string \<Rightarrow> string
    \<Rightarrow> lookup_key \<Rightarrow> bool" where
  "reason_is_proven h source_path resolved reason winner record_id lookup =
     (let source_directory = collection_directory source_path;
          occ = ro_occurrence resolved;
          raw = oc_raw_target occ;
          named = (lk_value lookup = rh_lower h raw);
          ranked = (basename_eligible raw winner \<and> list_all (basename_eligible raw) (ro_alternatives resolved))
      in case reason of
        ConfiguredId \<Rightarrow>
          lk_kind lookup = KeyId \<and> named \<and> ro_candidate_count resolved = 1 \<and> record_id \<noteq> ''''
      | OnlyCandidate \<Rightarrow>
          lk_kind lookup \<in> {KeyBasename, KeyTitle} \<and> ro_candidate_count resolved = 1 \<and> named
      | ExactPath \<Rightarrow>
          (case oc_normalized_target occ of
             None \<Rightarrow> False
           | Some target \<Rightarrow>
               lk_kind lookup = KeyPath \<and> ro_candidate_count resolved = 1 \<and> lk_value lookup = winner
               \<and> \<not> simple_wikilink occ
               \<and> (winner = target
                  \<or> (path_extension target = None
                     \<and> list_ex (\<lambda>ext. winner = target @ ext) [''.md'', ''.mdx''])))
      | SameDirectory \<Rightarrow>
          lk_kind lookup = KeyBasename \<and> named \<and> 1 < ro_candidate_count resolved \<and> ranked
          \<and> collection_directory winner = source_directory
          \<and> list_all (\<lambda>path. collection_directory path \<noteq> source_directory) (ro_alternatives resolved)
      | ShallowestPath \<Rightarrow>
          lk_kind lookup = KeyBasename \<and> named \<and> 1 < ro_candidate_count resolved \<and> ranked
          \<and> collection_directory winner \<noteq> source_directory
          \<and> list_all (\<lambda>path. collection_directory path \<noteq> source_directory
                             \<and> path_depth winner < path_depth path) (ro_alternatives resolved)
      | LexicalTieBreak \<Rightarrow>
          lk_kind lookup = KeyBasename \<and> named \<and> 1 < ro_candidate_count resolved \<and> ranked
          \<and> list_all (\<lambda>path. (rank_pair source_directory winner, winner) < (rank_pair source_directory path, path))
              (ro_alternatives resolved)
          \<and> list_ex (\<lambda>path. rank_pair source_directory winner = rank_pair source_directory path)
              (ro_alternatives resolved))"

definition resolved_reason_is_proven :: "resolution_host \<Rightarrow> string \<Rightarrow> resolved_occurrence \<Rightarrow> bool" where
  "resolved_reason_is_proven h source_path resolved =
     (case (ro_reason resolved, ro_target_path resolved, ro_target_record_id resolved,
            ro_selected_lookup resolved, ro_candidate_digest resolved) of
        (Some reason, Some winner, Some record_id, Some lookup, Some bound_digest) \<Rightarrow>
          let winner_identity = \<lparr>ci_record_id = record_id, ci_path = winner\<rparr>;
              others = ro_alternative_candidates resolved;
              canonical = sorted_wrt (<) (map (\<lambda>c. (ci_path c, ci_record_id c)) others);
              unique = list_all (\<lambda>c. ci_record_id c \<noteq> '''' \<and> is_collection_path (ci_path c))
                         (winner_identity # others)
                       \<and> distinct (map ci_record_id (winner_identity # others))
                       \<and> distinct (map ci_path (winner_identity # others))
          in if ro_candidate_count resolved \<noteq> length others + 1
                \<or> ro_candidate_count resolved = 0
                \<or> MAX_RESOLUTION_CANDIDATES < ro_candidate_count resolved
                \<or> ro_alternatives resolved \<noteq> map ci_path others
                \<or> \<not> canonical \<or> \<not> unique
                \<or> digest_candidate_identities h (lk_kind lookup) winner_identity others \<noteq> Ok bound_digest
             then False
             else reason_is_proven h source_path resolved reason winner record_id lookup
      | _ \<Rightarrow> False)"

definition occurrence_evidence_is_valid :: "resolution_host \<Rightarrow> string \<Rightarrow> resolved_occurrence \<Rightarrow> bool" where
  "occurrence_evidence_is_valid h path resolved =
     (let alternatives = ro_alternatives resolved;
          alternatives_valid = (length alternatives \<le> MAX_RESOLUTION_ALTERNATIVES
            \<and> sorted_wrt (<) alternatives
            \<and> list_all is_collection_path alternatives
            \<and> \<not> (case ro_target_path resolved of Some w \<Rightarrow> w \<in> set alternatives | None \<Rightarrow> False))
      in if ro_resolution resolved = Resolved then
           ro_target_record_id resolved \<noteq> None
           \<and> (case ro_target_path resolved of Some p \<Rightarrow> is_collection_path p | None \<Rightarrow> False)
           \<and> ro_ambiguous_paths resolved = [] \<and> alternatives_valid
           \<and> resolved_reason_is_proven h path resolved
         else
           ro_reason resolved = None \<and> ro_selected_lookup resolved = None
           \<and> ro_candidate_count resolved = 0 \<and> ro_candidate_digest resolved = None
           \<and> alternatives = [] \<and> ro_alternative_candidates resolved = [])"

text \<open>\<open>ResolvedRecordStructure::structural_digest_is_valid\<close>: the structure as it was before resolution.\<close>

definition resolved_structural_digest_is_valid ::
  "(record_structure \<Rightarrow> string) \<Rightarrow> (string \<Rightarrow> string) \<Rightarrow> resolved_structure \<Rightarrow> bool" where
  "resolved_structural_digest_is_valid jcs sha256 s \<longleftrightarrow>
     digest_structure jcs sha256
       \<lparr>sx_schema_version = rx_schema_version s, sx_path = rx_path s,
        sx_occurrences = map ro_occurrence (rx_occurrences s),
        sx_body_tags = rx_body_tags s, sx_body_links = rx_body_links s,
        sx_body_embeds = rx_body_embeds s, sx_structural_digest = ''''\<rparr>
       = rx_structural_digest s"

definition resolution_evidence_is_valid :: "resolution_host \<Rightarrow> resolved_structure \<Rightarrow> bool" where
  "resolution_evidence_is_valid h s =
     list_all (occurrence_evidence_is_valid h (rx_path s)) (rx_occurrences s)"

end
