(* ===== verification/Link_Properties.thy ===== *)
theory Link_Properties
  imports Link_Paths Path_Properties
begin

text \<open>
  The three traversals of a relative link (the normalisation of index lookups, the segment stack of
  field resolution and the root-crossing test) agree with one another, rewritten links resolve to
  their target again, and link texts parse back into their parts.
\<close>

section \<open>One traversal\<close>

definition climbs :: "string list \<Rightarrow> bool" where
  "climbs parts \<longleftrightarrow> parts \<noteq> [] \<and> hd parts = ''..''"

lemma climbs_step: "climbs parts \<Longrightarrow> climbs (normalize_step parts s)"
  by (cases parts; cases "tl parts") (auto simp: climbs_def normalize_step_def)

lemma climbs_foldl: "climbs parts \<Longrightarrow> climbs (foldl normalize_step parts ss)"
  by (induction ss arbitrary: parts) (auto simp: climbs_step)

lemma normalize_pop:
  assumes "''..'' \<notin> set names"
  shows "case pop_segments names ss of
      Some r \<Rightarrow> foldl normalize_step names ss = r \<and> ''..'' \<notin> set r
    | None \<Rightarrow> climbs (foldl normalize_step names ss)"
  using assms
proof (induction ss arbitrary: names)
  case (Cons s ss)
  show ?case
  proof (cases "s = ''..''")
    case True
    show ?thesis
    proof (cases "names = []")
      case True
      with \<open>s = ''..''\<close> show ?thesis
        using climbs_foldl [of "[''..'']" ss] by (simp add: climbs_def normalize_step_def)
    next
      case False
      with Cons.prems have "last names \<noteq> ''..''" "''..'' \<notin> set (butlast names)"
        using last_in_set by (fastforce dest: in_set_butlastD)+
      moreover from this True False have "normalize_step names s = butlast names"
        by (simp add: normalize_step_def)
      ultimately show ?thesis using True False Cons.IH [of "butlast names"]
        by (simp split: option.splits)
    qed
  next
    case False
    define next_names where "next_names = (if s \<in> {'''', ''.''} then names else names @ [s])"
    have "normalize_step names s = next_names" "pop_segments names (s # ss) = pop_segments next_names ss"
      and "''..'' \<notin> set next_names"
      using False Cons.prems by (auto simp: normalize_step_def next_names_def)
    with Cons.IH [of next_names] show ?thesis by (simp only: foldl.simps not_False_eq_True simp_thms)
  qed
qed simp

lemma crosses_root_pop: "crosses_root (length names) ss \<longleftrightarrow> pop_segments names ss = None"
proof (induction ss arbitrary: names)
  case (Cons s ss)
  have "crosses_root (length names - 1) ss \<longleftrightarrow> pop_segments (butlast names) ss = None"
    using Cons.IH [of "butlast names"] by simp
  moreover have "crosses_root (length names + 1) ss \<longleftrightarrow> pop_segments (names @ [s]) ss = None"
    using Cons.IH [of "names @ [s]"] by simp
  ultimately show ?case using Cons.IH [of names] by simp
qed simp

lemma pop_segments_append:
  "pop_segments names (xs @ ys) = Option.bind (pop_segments names xs) (\<lambda>n. pop_segments n ys)"
  by (induction names xs rule: pop_segments.induct) auto

lemma pop_segments_plain:
  "\<forall>s \<in> set ss. s \<notin> {'''', ''.'', ''..''} \<Longrightarrow> pop_segments names ss = Some (names @ ss)"
  by (induction ss arbitrary: names) auto

lemma pop_segments_nonempty:
  "pop_segments names ss = Some r \<Longrightarrow> '''' \<notin> set names \<Longrightarrow> '''' \<notin> set r"
  by (induction names ss rule: pop_segments.induct) (auto split: if_splits dest: in_set_butlastD)

lemma join_with_nonempty: "'''' \<notin> set ps \<Longrightarrow> join_with sep ps = '''' \<longleftrightarrow> ps = []"
  by (cases ps; cases "tl ps") auto

section \<open>Source directories\<close>

text \<open>A source directory is the root, written as the empty text, or a collection path.\<close>

definition source_directory :: "string \<Rightarrow> bool" where
  "source_directory dir \<longleftrightarrow> dir = '''' \<or> is_ok (collection_path_from_str dir) \<and> slashes dir = dir"

definition dir_segments :: "string \<Rightarrow> string list" where
  "dir_segments dir = (if dir = '''' then [] else split_on CHR ''/'' dir)"

lemma portable_plain: "portable_component s \<Longrightarrow> s \<notin> {'''', ''.'', ''..''}"
  by (simp add: portable_component_def)

lemma dir_segments_portable:
  assumes "source_directory dir" "s \<in> set (dir_segments dir)"
  shows "portable_component s \<and> CHR ''/'' \<notin> set s"
  using assms split_on_no_sep
  by (auto simp: source_directory_def dir_segments_def is_ok_iff from_str_iff split: if_splits)

lemma dir_segments_filter:
  assumes "source_directory dir"
  shows "filter (\<lambda>s. s \<noteq> '''') (split_on CHR ''/'' dir) = dir_segments dir"
    and "path_segments dir = dir_segments dir"
proof -
  have "\<forall>s \<in> set (dir_segments dir). s \<noteq> ''''"
    using dir_segments_portable [OF assms] portable_plain by blast
  then have keep: "filter (\<lambda>s. s \<noteq> '''') (dir_segments dir) = dir_segments dir"
    by (simp add: filter_id_conv)
  then show "filter (\<lambda>s. s \<noteq> '''') (split_on CHR ''/'' dir) = dir_segments dir"
    by (cases "dir = ''''") (simp_all add: dir_segments_def)
  from keep show "path_segments dir = dir_segments dir"
    by (cases "dir = ''''") (simp_all add: dir_segments_def path_segments_def)
qed

definition joined :: "string \<Rightarrow> string \<Rightarrow> string" where
  "joined dir target = (if dir = '''' then target else dir @ ''/'' @ target)"

lemma pop_joined:
  assumes "source_directory dir"
  shows "pop_segments [] (split_on CHR ''/'' (joined dir target))
    = pop_segments (dir_segments dir) (split_on CHR ''/'' target)"
proof (cases "dir = ''''")
  case False
  then have "split_on CHR ''/'' (joined dir target)
      = dir_segments dir @ split_on CHR ''/'' target"
    using split_on_glue [of "CHR ''/''" dir target] by (simp add: joined_def dir_segments_def)
  moreover have "pop_segments [] (dir_segments dir) = Some (dir_segments dir)"
    using pop_segments_plain [of "dir_segments dir" "[]"] dir_segments_portable [OF assms] portable_plain
    by fastforce
  ultimately show ?thesis by (simp add: pop_segments_append)
qed (simp add: joined_def dir_segments_def)

lemma resolve_relative_joined:
  "resolve_relative_link target dir
     = map_option (join_with ''/'') (pop_segments [] (split_on CHR ''/'' (joined dir target)))"
  by (simp add: resolve_relative_link_def joined_def Let_def)

lemma normalize_step_set: "set (normalize_step parts s) \<subseteq> set parts \<union> {s, ''..''}"
  by (auto simp: normalize_step_def dest: in_set_butlastD)

lemma foldl_normalize_set: "set (foldl normalize_step parts ss) \<subseteq> set parts \<union> set ss \<union> {''..''}"
proof (induction ss arbitrary: parts)
  case (Cons s ss)
  from Cons.IH [of "normalize_step parts s"] normalize_step_set [of parts s] show ?case by auto
qed auto

lemma join_starts_up:
  "climbs parts \<Longrightarrow> join_with ''/'' parts = ''..'' \<or> starts_with (join_with ''/'' parts) ''../''"
  by (cases parts; cases "tl parts") (auto simp: climbs_def starts_with_iff)

lemma join_not_up:
  assumes "parts \<noteq> []" "hd parts \<noteq> ''..''" "\<forall>p \<in> set parts. CHR ''/'' \<notin> set p"
  shows "join_with ''/'' parts \<noteq> ''..'' \<and> \<not> starts_with (join_with ''/'' parts) ''../''"
proof -
  have split: "split_on CHR ''/'' (join_with ''/'' parts) = parts" using assms split_join by auto
  have "hd (split_on CHR ''/'' ''..'') = ''..''" by simp
  moreover have "hd (split_on CHR ''/'' (''../'' @ r)) = ''..''" for r by simp
  ultimately show ?thesis using assms(2) split by (auto simp: starts_with_iff)
qed

lemma normalize_segments_pop:
  "case pop_segments [] (split_on CHR ''/'' s) of
      Some [] \<Rightarrow> normalize_segments s = ''.''
    | Some r \<Rightarrow> normalize_segments s = join_with ''/'' r \<and> r \<noteq> []
                \<and> normalize_segments s \<noteq> ''..'' \<and> \<not> starts_with (normalize_segments s) ''../''
    | None \<Rightarrow> normalize_segments s = ''..'' \<or> starts_with (normalize_segments s) ''../''"
proof -
  let ?ss = "split_on CHR ''/'' s" and ?parts = "foldl normalize_step [] (split_on CHR ''/'' s)"
  have parts: "normalize_segments s = (if ?parts = [] then ''.'' else join_with ''/'' ?parts)"
    by (simp add: normalize_segments_def Let_def)
  have slashless: "\<forall>p \<in> set ?parts. CHR ''/'' \<notin> set p"
    using foldl_normalize_set [of "[]" ?ss] split_on_no_sep by fastforce
  show ?thesis
  proof (cases "pop_segments [] ?ss")
    case None
    then have "climbs ?parts" using normalize_pop [of "[]" ?ss] by simp
    with None parts join_starts_up show ?thesis by (auto simp: climbs_def)
  next
    case (Some r)
    then have r: "?parts = r" "''..'' \<notin> set r" using normalize_pop [of "[]" ?ss] by simp_all
    show ?thesis
    proof (cases r)
      case Nil
      with Some r parts show ?thesis by simp
    next
      case (Cons p ps)
      with r have "hd ?parts \<noteq> ''..''" "?parts \<noteq> []" by auto
      with join_not_up [OF this(2,1) slashless] Some r parts Cons show ?thesis by simp
    qed
  qed
qed

text \<open>
  Relative links have one meaning. For every target and every source directory the root-crossing
  test, the segment stack and the lookup normalisation agree: the test reports a crossing iff the
  stack has no result iff the normalised path climbs above the root (the form every caller
  refuses); otherwise both give the same path, the root itself being written as a dot.
\<close>

theorem relative_links_agree:
  assumes "source_directory dir"
  shows "(relative_path_crosses_root target dir \<longleftrightarrow> resolve_relative_link target dir = None)
    \<and> (resolve_relative_link target dir = None \<longleftrightarrow>
         normalize_segments (joined dir target) = ''..''
         \<or> starts_with (normalize_segments (joined dir target)) ''../'')
    \<and> (\<forall>path. resolve_relative_link target dir = Some path \<longrightarrow>
         normalize_segments (joined dir target) = (if path = '''' then ''.'' else path))"
proof -
  let ?pop = "pop_segments [] (split_on CHR ''/'' (joined dir target))"
  have none: "resolve_relative_link target dir = None \<longleftrightarrow> ?pop = None"
    by (simp add: resolve_relative_joined)
  have cross: "relative_path_crosses_root target dir \<longleftrightarrow> ?pop = None"
    using pop_joined [OF assms]
    by (simp add: relative_path_crosses_root_def dir_segments_filter(1) [OF assms] crosses_root_pop)
  have norm: "?pop = None \<longleftrightarrow> normalize_segments (joined dir target) = ''..''
      \<or> starts_with (normalize_segments (joined dir target)) ''../''"
    using normalize_segments_pop [of "joined dir target"]
    by (auto split: option.splits list.splits)
  have same: "normalize_segments (joined dir target) = (if path = '''' then ''.'' else path)"
    if "resolve_relative_link target dir = Some path" for path
  proof -
    from that obtain r where r: "?pop = Some r" "path = join_with ''/'' r"
      by (auto simp: resolve_relative_joined)
    have empty: "path = '''' \<longleftrightarrow> r = []"
      using pop_segments_nonempty [OF r(1)] unfolding r(2) by (intro join_with_nonempty) simp
    show ?thesis
    proof (cases "r = []")
      case True
      with r(1) normalize_segments_pop [of "joined dir target"] empty show ?thesis by simp
    next
      case False
      then obtain q qs where "r = q # qs" by (cases r) auto
      with r(1) normalize_segments_pop [of "joined dir target"]
      have "normalize_segments (joined dir target) = join_with ''/'' r" by simp
      with False empty r(2) show ?thesis by simp
    qed
  qed
  show ?thesis
    by (intro conjI allI impI) (simp_all only: none cross norm [symmetric] same)
qed

theorem relative_links_agree_witness:
  "resolve_relative_link ''../archive/./old.md'' ''notes/daily'' = Some ''notes/archive/old.md''
   \<and> normalize_segments ''notes/daily/../archive/./old.md'' = ''notes/archive/old.md''
   \<and> relative_path_crosses_root ''../../../x.md'' ''notes/daily''"
proof -
  have dir: "source_directory ''notes/daily''" unfolding source_directory_def by code_simp
  have some: "resolve_relative_link ''../archive/./old.md'' ''notes/daily'' = Some ''notes/archive/old.md''"
    by code_simp
  have none: "resolve_relative_link ''../../../x.md'' ''notes/daily'' = None" by code_simp
  show ?thesis
    using relative_links_agree [OF dir, of "''../archive/./old.md''"]
      relative_links_agree [OF dir, of "''../../../x.md''"] some none
    by (simp add: joined_def)
qed

section \<open>Rewriting links\<close>

lemma split_prefixes:
  assumes "\<forall>p \<in> set ps. CHR ''/'' \<notin> set p" "CHR ''/'' \<notin> set f"
  shows "split_on CHR ''/'' (concat (map (\<lambda>p. p @ ''/'') ps) @ f) = ps @ [f]"
  using assms by (induction ps) (simp_all add: split_on_append split_on_plain)

lemma common_prefix_take:
  "take (common_prefix xs ys) xs = take (common_prefix xs ys) ys"
  "common_prefix xs ys \<le> length xs" "common_prefix xs ys \<le> length ys"
  by (induction xs ys rule: common_prefix.induct) auto

lemma pop_ups:
  "n \<le> length names \<Longrightarrow> pop_segments names (replicate n ''..'') = Some (take (length names - n) names)"
proof (induction n arbitrary: names)
  case (Suc n)
  then have "names \<noteq> []" "n \<le> length (butlast names)" by auto
  with Suc.IH [OF this(2)] show ?case by (simp add: butlast_conv_take min_def)
qed simp

lemma std_components_collection_path:
  assumes "collection_path_from_str s = Ok p"
  shows "std_components (as_path p) = split_on CHR ''/'' (as_path p)"
proof -
  have plain: "\<forall>c \<in> set (split_on CHR ''/'' (as_path p)). c \<notin> {'''', ''.'', ''..''}"
    using from_str_components [OF assms] portable_plain by blast
  then have keep: "filter (\<lambda>c. c \<noteq> [] \<and> c \<noteq> ''.'') (split_on CHR ''/'' (as_path p))
      = split_on CHR ''/'' (as_path p)"
    by (simp add: filter_id_conv)
  have "\<not> starts_with (as_path p) ''/''"
  proof
    assume "starts_with (as_path p) ''/''"
    then have "'''' \<in> set (split_on CHR ''/'' (as_path p))" by (auto simp: starts_with_iff)
    with plain show False by blast
  qed
  moreover have "hd (split_on CHR ''/'' (as_path p)) \<noteq> ''.''"
    using plain hd_in_set [OF split_on_not_Nil] by blast
  ultimately show ?thesis using keep by (simp add: std_components_def)
qed

lemma foldl_push_join:
  assumes "\<forall>c \<in> set cs. portable_component c \<and> CHR ''/'' \<notin> set c"
  shows "foldl path_push [] cs = join_with ''/'' cs"
proof (cases cs)
  case (Cons c rest)
  with assms have "c \<noteq> []" "\<not> ends_with c ''/''" "path_push [] c = c"
    using portable_not_slash_end [of c "[]"] by (auto simp: portable_component_def push_portable)
  with Cons assms foldl_push [of rest c] show ?thesis by simp
qed simp

text \<open>The two halves of a collection path: its directory and its file name.\<close>

lemma collection_path_halves:
  assumes "collection_path_from_str s = Ok p"
  obtains ts f where "split_on CHR ''/'' (as_path p) = ts @ [f]"
    "path_segments (path_parent_text (as_path p)) = ts" "file_name (as_path p) = Some f"
    "\<forall>c \<in> set (ts @ [f]). portable_component c \<and> CHR ''/'' \<notin> set c"
proof -
  let ?cs = "split_on CHR ''/'' (as_path p)"
  define ts f where "ts = butlast ?cs" and "f = last ?cs"
  have cs: "?cs = ts @ [f]" unfolding ts_def f_def by simp
  have ok: "\<forall>c \<in> set (ts @ [f]). portable_component c \<and> CHR ''/'' \<notin> set c"
    unfolding cs [symmetric] using from_str_components [OF assms] split_on_no_sep by blast
  have f: "f \<notin> {''/'', ''.'', ''..''}" using ok by (auto simp: portable_component_def)
  have comps: "std_components (as_path p) = ts @ [f]"
    using std_components_collection_path [OF assms] cs by simp
  then have "parent_components (as_path p) = Some ts" "file_name (as_path p) = Some f"
    using f by (simp_all add: parent_components_def file_name_def)
  moreover have "path_segments (path_parent_text (as_path p)) = ts"
  proof (cases "ts = []")
    case True
    then show ?thesis using \<open>parent_components (as_path p) = Some ts\<close>
      by (simp add: path_parent_text_def path_segments_def)
  next
    case False
    have par: "path_parent_text (as_path p) = join_with ''/'' ts"
      using \<open>parent_components (as_path p) = Some ts\<close> foldl_push_join [of ts] ok
      by (simp add: path_parent_text_def)
    have "'''' \<notin> set ts" using ok by (auto simp: portable_component_def)
    then have "join_with ''/'' ts \<noteq> ''''" "filter (\<lambda>s. s \<noteq> '''') ts = ts"
      using False by (auto simp: join_with_nonempty filter_id_conv)
    moreover have "split_on CHR ''/'' (join_with ''/'' ts) = ts"
      using ok False by (intro split_join) auto
    ultimately show ?thesis unfolding par by (simp add: path_segments_def)
  qed
  ultimately show thesis using that cs ok by blast
qed

lemma split_relative_path:
  assumes "\<forall>c \<in> set (ts @ [f]). portable_component c \<and> CHR ''/'' \<notin> set c"
  shows "split_on CHR ''/'' (concat (replicate n ''../'') @ concat (map (\<lambda>p. p @ ''/'') ts) @ f)
    = replicate n ''..'' @ ts @ [f]"
proof -
  have "concat (replicate n ''../'') @ concat (map (\<lambda>p. p @ ''/'') ts)
      = concat (map (\<lambda>p. p @ ''/'') (replicate n ''..'' @ ts))"
    by (induction n) simp_all
  moreover have "\<forall>p \<in> set (replicate n ''..'' @ ts). CHR ''/'' \<notin> set p" "CHR ''/'' \<notin> set f"
    using assms by (auto simp: in_set_replicate)
  ultimately show ?thesis using split_prefixes [of "replicate n ''..'' @ ts" f] by simp
qed

text \<open>
  A rewritten link leads back to its target. The relative path computed from any source directory
  to any collection path, resolved again from that directory, is exactly the target path: rewriting
  references after a rename neither loses nor redirects a link.
\<close>

theorem relative_path_round_trip:
  assumes "source_directory dir" and "collection_path_from_str s = Ok p"
  shows "resolve_relative_link (compute_relative_path dir (as_path p)) dir = Some (as_path p)"
proof -
  obtain ts f where h: "split_on CHR ''/'' (as_path p) = ts @ [f]"
    "path_segments (path_parent_text (as_path p)) = ts" "file_name (as_path p) = Some f"
    and ok: "\<forall>c \<in> set (ts @ [f]). portable_component c \<and> CHR ''/'' \<notin> set c"
    by (rule collection_path_halves [OF assms(2)])
  let ?src = "dir_segments dir"
  define n where "n = common_prefix ?src ts"
  have n: "take n ?src = take n ts" "n \<le> length ?src" "n \<le> length ts"
    unfolding n_def by (rule common_prefix_take)+
  let ?rel = "compute_relative_path dir (as_path p)"
  have plain: "\<forall>c \<in> set (drop n ts @ [f]). c \<notin> {'''', ''.'', ''..''}"
    using ok portable_plain by (auto dest: in_set_dropD)
  have "pop_segments ?src (split_on CHR ''/'' ?rel) = Some (ts @ [f])"
  proof (cases "length ?src - n = 0 \<and> n = length ts")
    case True
    then have "?rel = ''./'' @ f"
      using h by (simp add: compute_relative_path_def Let_def dir_segments_filter(2) [OF assms(1)] n_def)
    then have "split_on CHR ''/'' ?rel = [''.'', f]"
      using split_on_append [of "CHR ''/''" "''.''" f] ok by (simp add: split_on_plain)
    then show ?thesis using pop_segments_plain [OF plain] n True by simp
  next
    case False
    then have "?rel = concat (replicate (length ?src - n) ''../'')
        @ concat (map (\<lambda>p. p @ ''/'') (drop n ts)) @ f"
      using h by (simp add: compute_relative_path_def Let_def dir_segments_filter(2) [OF assms(1)] n_def)
    then have "split_on CHR ''/'' ?rel = replicate (length ?src - n) ''..'' @ drop n ts @ [f]"
      using split_relative_path [of "drop n ts" f] ok by (auto dest: in_set_dropD)
    moreover have "pop_segments ?src (replicate (length ?src - n) ''..'') = Some (take n ts)"
      using pop_ups [of "length ?src - n" ?src] n by simp
    ultimately show ?thesis
      using pop_segments_plain [OF plain] by (simp add: pop_segments_append)
  qed
  then have "resolve_relative_link ?rel dir = Some (join_with ''/'' (ts @ [f]))"
    by (simp add: resolve_relative_joined pop_joined [OF assms(1)])
  then show ?thesis unfolding h(1) [symmetric] by simp
qed

theorem relative_path_round_trip_witness:
  "resolve_relative_link (compute_relative_path ''notes/daily'' ''notes/archive/old.md'') ''notes/daily''
     = Some ''notes/archive/old.md''
   \<and> compute_relative_path ''notes/daily'' ''notes/archive/old.md'' = ''../archive/old.md''"
proof -
  have dir: "source_directory ''notes/daily''" unfolding source_directory_def by code_simp
  have p: "collection_path_from_str ''notes/archive/old.md'' = Ok (CollectionPath ''notes/archive/old.md'')"
    by code_simp
  have "compute_relative_path ''notes/daily'' ''notes/archive/old.md'' = ''../archive/old.md''"
    by code_simp
  with relative_path_round_trip [OF dir p] show ?thesis by simp
qed

section \<open>Wikilinks\<close>

definition wikilink_text :: "string \<Rightarrow> string option \<Rightarrow> string option \<Rightarrow> string" where
  "wikilink_text target anchor alias =
     ''[['' @ target @ (case anchor of Some a \<Rightarrow> ''#'' @ a | None \<Rightarrow> '''')
       @ (case alias of Some l \<Rightarrow> ''|'' @ l | None \<Rightarrow> '''') @ '']]''"

lemma cut_at_iff:
  "c \<notin> set a \<Longrightarrow> cut_at c (a @ c # b) = (a, Some b)"
  "c \<notin> set a \<Longrightarrow> cut_at c a = (a, None)"
proof -
  show "c \<notin> set a \<Longrightarrow> cut_at c (a @ c # b) = (a, Some b)"
    using split_once_iff [of c "a @ c # b" a b] by (simp add: cut_at_def)
  show "c \<notin> set a \<Longrightarrow> cut_at c a = (a, None)"
    by (simp add: cut_at_def split_once_def)
qed

lemma cut_at_option:
  assumes "c \<notin> set a"
  shows "cut_at c (a @ (case rest of Some r \<Rightarrow> c # r | None \<Rightarrow> '''')) = (a, rest)"
  using cut_at_iff [OF assms] by (cases rest) simp_all

lemma parse_wikilink_inner:
  assumes "CHR ''['' \<notin> set inner" "CHR '']'' \<notin> set inner"
    and "cut_at CHR ''|'' inner = (target_part, alias)" "cut_at CHR ''#'' target_part = (target, anchor)"
    and "trim target \<noteq> ''''" "\<not> has_line_break target"
  shows "parse_link_text (''[['' @ inner @ '']]'') = link_value (''[['' @ inner @ '']]'') target alias anchor ''wikilink''"
proof -
  let ?v = "''[['' @ inner @ '']]''"
  have "starts_with ?v ''[[''" "ends_with ?v '']]''"
    by (auto simp: starts_with_iff ends_with_iff intro: exI [of _ "''[['' @ inner"])
  moreover have "drop 2 (take (length ?v - 2) ?v) = inner" by simp
  ultimately show ?thesis using assms unfolding parse_link_text_def parse_wikilink_def by simp
qed

text \<open>
  Wikilinks parse back into their parts: the text written for a target, an optional anchor and an
  optional alias (free of the delimiters that would end a part, with a target that is not blank and
  has one line) parses to a link value with exactly that target, anchor and alias, marked as a
  wikilink and as relative iff the target starts with a dot segment.
\<close>

theorem wikilink_round_trip:
  assumes "trim target \<noteq> ''''" and "\<not> has_line_break target"
    and "\<forall>c \<in> set target. c \<notin> set ''[]|#''"
    and "\<forall>a. anchor = Some a \<longrightarrow> (\<forall>c \<in> set a. c \<notin> set ''[]|'')"
    and "\<forall>l. alias = Some l \<longrightarrow> (\<forall>c \<in> set l. c \<notin> set ''[]'')"
  shows "parse_link (jobj [(''value'', JStr (wikilink_text target anchor alias))])
    = link_value (wikilink_text target anchor alias) target alias anchor ''wikilink''"
proof -
  define part where "part = target @ (case anchor of Some a \<Rightarrow> CHR ''#'' # a | None \<Rightarrow> '''')"
  define inner where "inner = part @ (case alias of Some l \<Rightarrow> CHR ''|'' # l | None \<Rightarrow> '''')"
  have spelled: "wikilink_text target anchor alias = ''[['' @ inner @ '']]''"
    by (cases anchor; cases "alias") (simp_all add: wikilink_text_def inner_def part_def)
  have hash: "CHR ''#'' \<notin> set target" using assms(3) by auto
  have part_plain: "CHR ''['' \<notin> set part" "CHR '']'' \<notin> set part" "CHR ''|'' \<notin> set part"
    using assms(3,4) unfolding part_def by (auto split: option.splits)
  have "CHR ''['' \<notin> set inner" "CHR '']'' \<notin> set inner"
    using part_plain assms(5) unfolding inner_def by (auto split: option.splits)
  moreover have "cut_at CHR ''|'' inner = (part, alias)"
    unfolding inner_def by (rule cut_at_option [OF part_plain(3)])
  moreover have "cut_at CHR ''#'' part = (target, anchor)"
    unfolding part_def by (rule cut_at_option [OF hash])
  ultimately have "parse_link_text (''[['' @ inner @ '']]'')
      = link_value (''[['' @ inner @ '']]'') target alias anchor ''wikilink''"
    using assms(1,2) by (intro parse_wikilink_inner) simp_all
  then show ?thesis
    unfolding spelled by (simp add: parse_link_def jstring_at_def jget_jobj)
qed

theorem wikilink_round_trip_witness:
  "parse_link (jobj [(''value'', JStr ''[[tasks/plan#goals|The plan]]'')])
     = link_value ''[[tasks/plan#goals|The plan]]'' ''tasks/plan'' (Some ''The plan'') (Some ''goals'') ''wikilink''"
proof -
  have "trim ''tasks/plan'' \<noteq> ''''" "\<not> has_line_break ''tasks/plan''" by code_simp+
  from wikilink_round_trip [OF this, of "Some ''goals''" "Some ''The plan''"]
  show ?thesis by (simp add: wikilink_text_def)
qed

end
