(* ===== verification/Resolution_Selection.thy ===== *)
theory Resolution_Selection
  imports Record_Resolution Link_Properties "HOL-Library.Multiset"
begin

text \<open>
  What the candidate selector guarantees about its result: the candidates it ranks are the canonical
  identities of its input, the winner is strictly first in the documented ranking, and the evidence
  it returns is the complete, ordered rest with the reason that the ranking gives.
\<close>

section \<open>Indexing candidates\<close>

definition canonical_entry :: "candidate_identity \<Rightarrow> (string \<times> string) option" where
  "canonical_entry c =
     (case collection_path_from_str (ci_path c) of
        Ok p \<Rightarrow> Some (as_path p, ci_record_id c) | _ \<Rightarrow> None)"

lemma from_str_canonical: "collection_path_from_str s = Ok p \<Longrightarrow> canonical_path (as_path p)"
  using from_str_idem [of s p] by (cases p) (simp add: canonical_path_def)

lemma canonical_is_collection_path: "canonical_path p \<Longrightarrow> is_collection_path p"
  by (simp add: canonical_path_def is_collection_path_def)

definition identity_index :: "(string, string) btree \<Rightarrow> (string, string) btree \<Rightarrow> bool" where
  "identity_index by_path by_record_id \<longleftrightarrow>
     bt_wf by_path
     \<and> (\<forall>p r. bt_get by_path p = Some r \<longleftrightarrow> bt_get by_record_id r = Some p)
     \<and> (\<forall>p r. bt_get by_path p = Some r \<longrightarrow> r \<noteq> '''' \<and> canonical_path p)"

lemma identity_index_insert:
  assumes "identity_index m n" "bt_get m p = None" "bt_get n r = None" "r \<noteq> ''''" "canonical_path p"
  shows "identity_index (bt_insert p r m) (bt_insert r p n)"
  unfolding identity_index_def
proof (intro conjI allI impI)
  from assms(1) have wf: "bt_wf m" and inv: "\<And>q s. bt_get m q = Some s \<longleftrightarrow> bt_get n s = Some q"
    and ok: "\<And>q s. bt_get m q = Some s \<Longrightarrow> s \<noteq> '''' \<and> canonical_path q"
    by (auto simp: identity_index_def)
  show "bt_wf (bt_insert p r m)" using wf by simp
  fix q s
  show "(bt_get (bt_insert p r m) q = Some s) = (bt_get (bt_insert r p n) s = Some q)"
    using inv [of q s] inv [of p s] inv [of q r] assms(2,3) by auto
  assume "bt_get (bt_insert p r m) q = Some s"
  with ok [of q s] assms(4,5) show "s \<noteq> ''''" "canonical_path q"
    by (auto split: if_splits)
qed

text \<open>A candidate either is already indexed or adds a fresh path and a fresh id.\<close>

lemma index_candidates_step:
  assumes "index_candidates (c # cs) m n = Ok result" and "identity_index m n"
  obtains p where "canonical_entry c = Some (p, ci_record_id c)" "ci_record_id c \<noteq> ''''" "canonical_path p"
    "(bt_get m p = Some (ci_record_id c) \<and> index_candidates cs m n = Ok result)
     \<or> (bt_get m p = None \<and> bt_get n (ci_record_id c) = None
        \<and> index_candidates cs (bt_insert p (ci_record_id c) m) (bt_insert (ci_record_id c) p n) = Ok result)"
proof -
  let ?r = "ci_record_id c"
  from assms(1) obtain q where q: "collection_path_from_str (ci_path c) = Ok q" and r: "?r \<noteq> ''''"
    by (auto split: if_splits res.splits)
  let ?p = "as_path q"
  have inv: "bt_get m ?p = Some ?r \<longleftrightarrow> bt_get n ?r = Some ?p"
    using assms(2) by (simp add: identity_index_def)
  have "(bt_get m ?p = Some ?r \<and> index_candidates cs m n = Ok result)
     \<or> (bt_get m ?p = None \<and> bt_get n ?r = None
        \<and> index_candidates cs (bt_insert ?p ?r m) (bt_insert ?r ?p n) = Ok result)"
    using assms(1) q r inv
    by (cases "bt_get n ?r"; cases "bt_get m ?p") (auto simp: Let_def split: if_splits)
  with q r from_str_canonical [OF q] show thesis
    by (intro that [of ?p]) (auto simp: canonical_entry_def)
qed

lemma set_bt_insert_new: "bt_get m k = None \<Longrightarrow> set (bt_insert k v m) = insert (k, v) (set m)"
  by (induction k v m rule: bt_insert.induct) (auto split: if_splits)

lemma index_candidates_Ok:
  assumes "index_candidates cs m n = Ok result" "identity_index m n"
  shows "(\<exists>n'. identity_index result n') \<and> (\<forall>c \<in> set cs. canonical_entry c \<noteq> None)
    \<and> set result = set m \<union> {e. \<exists>c \<in> set cs. canonical_entry c = Some e}"
  using assms
proof (induction cs arbitrary: m n)
  case Nil
  then show ?case by auto
next
  case (Cons c cs)
  from Cons.prems obtain p where
    c: "canonical_entry c = Some (p, ci_record_id c)" "ci_record_id c \<noteq> ''''" "canonical_path p" and
    step: "(bt_get m p = Some (ci_record_id c) \<and> index_candidates cs m n = Ok result)
     \<or> (bt_get m p = None \<and> bt_get n (ci_record_id c) = None
        \<and> index_candidates cs (bt_insert p (ci_record_id c) m) (bt_insert (ci_record_id c) p n) = Ok result)"
    by (rule index_candidates_step)
  from step show ?case
  proof
    assume known: "bt_get m p = Some (ci_record_id c) \<and> index_candidates cs m n = Ok result"
    then have "(p, ci_record_id c) \<in> set m" by (auto dest: bt_get_in_set)
    with Cons.IH [of m n] known Cons.prems(2) c(1) show ?thesis by auto
  next
    assume new: "bt_get m p = None \<and> bt_get n (ci_record_id c) = None
        \<and> index_candidates cs (bt_insert p (ci_record_id c) m) (bt_insert (ci_record_id c) p n) = Ok result"
    with Cons.IH identity_index_insert [OF Cons.prems(2)] c
    have "(\<exists>n'. identity_index result n') \<and> (\<forall>c \<in> set cs. canonical_entry c \<noteq> None)
      \<and> set result = set (bt_insert p (ci_record_id c) m) \<union> {e. \<exists>c \<in> set cs. canonical_entry c = Some e}"
      by blast
    with new c(1) show ?thesis by (auto simp: set_bt_insert_new)
  qed
qed

definition identity_of :: "string \<times> string \<Rightarrow> candidate_identity" where
  "identity_of e = \<lparr>ci_record_id = snd e, ci_path = fst e\<rparr>"

lemma identity_of_simps [simp]:
  "ci_record_id (identity_of e) = snd e" "ci_path (identity_of e) = fst e"
  by (simp_all add: identity_of_def)

lemma identity_of_inj: "identity_of e = identity_of f \<longleftrightarrow> e = f"
  by (cases e; cases f) (auto simp: identity_of_def)

lemma index_identities:
  assumes "index_candidates input [] [] = Ok by_path"
  shows "distinct (map fst by_path)" "distinct (map snd by_path)"
    "\<forall>e \<in> set by_path. snd e \<noteq> '''' \<and> canonical_path (fst e)"
    "set by_path = {e. \<exists>c \<in> set input. canonical_entry c = Some e}"
proof -
  have "identity_index [] []" by (simp add: identity_index_def)
  from index_candidates_Ok [OF assms this] obtain n where
    idx: "identity_index by_path n"
    and set_eq: "set by_path = {e. \<exists>c \<in> set input. canonical_entry c = Some e}" by auto
  then have wf: "bt_wf by_path"
    and inv: "\<And>p r. bt_get by_path p = Some r \<longleftrightarrow> bt_get n r = Some p"
    and ok: "\<And>p r. bt_get by_path p = Some r \<Longrightarrow> r \<noteq> '''' \<and> canonical_path p"
    by (auto simp: identity_index_def)
  show "distinct (map fst by_path)" by (rule bt_wf_distinct [OF wf])
  show "\<forall>e \<in> set by_path. snd e \<noteq> '''' \<and> canonical_path (fst e)"
    using ok bt_get_iff [OF wf] by auto
  show "set by_path = {e. \<exists>c \<in> set input. canonical_entry c = Some e}" by (rule set_eq)
  have "inj_on snd (set by_path)"
  proof (rule inj_onI)
    fix e f assume e: "e \<in> set by_path" "f \<in> set by_path" "snd e = snd f"
    have "bt_get by_path (fst e) = Some (snd e)" "bt_get by_path (fst f) = Some (snd f)"
      using e(1,2) by (simp_all add: bt_get_iff [OF wf])
    then have "fst e = fst f" using inv e(3) by (metis option.inject)
    with e(3) show "e = f" by (simp add: prod_eq_iff)
  qed
  moreover have "distinct by_path" using bt_wf_distinct [OF wf] by (simp add: distinct_map)
  ultimately show "distinct (map snd by_path)" by (simp add: distinct_map)
qed

section \<open>The ranking\<close>

lemma candidate_rank_inj: "candidate_rank dir c = candidate_rank dir d \<longleftrightarrow> c = d"
  by (cases c; cases d) (auto simp: candidate_rank_def)

lemma sort_key_first:
  assumes "sort_key f xs = w # ws" "distinct xs" "inj_on f (set xs)"
  shows "set xs = insert w (set ws)" "w \<notin> set ws" "distinct ws" "length xs = length ws + 1"
    "\<forall>x \<in> set ws. f w < f x"
proof -
  have set_eq: "set xs = set (w # ws)" and dist: "distinct (w # ws)" and len: "length xs = length (w # ws)"
    using assms(1,2) by (metis set_sort, metis distinct_sort, metis length_sort)
  then show "set xs = insert w (set ws)" "w \<notin> set ws" "distinct ws" "length xs = length ws + 1"
    by simp_all
  have "sorted (map f (w # ws))" using assms(1) sorted_sort_key by metis
  then have "\<forall>x \<in> set ws. f w \<le> f x" by simp
  moreover have "f w \<noteq> f x" if "x \<in> set ws" for x
    using that assms(3) set_eq dist by (auto simp: inj_on_def)
  ultimately show "\<forall>x \<in> set ws. f w < f x" by (simp add: order.strict_iff_order)
qed

definition ranked_key :: "string \<Rightarrow> string \<Rightarrow> (bool \<times> nat) \<times> string" where
  "ranked_key dir path = (rank_pair dir path, path)"

lemma candidate_rank_less:
  assumes "candidate_rank dir c < candidate_rank dir d" "ci_path c \<noteq> ci_path d"
  shows "ranked_key dir (ci_path c) < ranked_key dir (ci_path d)"
  using assms by (auto simp: candidate_rank_def ranked_key_def rank_pair_def less_prod_def')

text \<open>In one directory all collection paths have the same depth.\<close>

lemma length_split_on: "length (split_on x s) = Suc (count_list s x)"
proof (induction s)
  case (Cons y s)
  obtain p ps where "split_on x s = p # ps" by (cases "split_on x s") auto
  with Cons show ?case by simp
qed simp

lemma depth_in_directory:
  assumes "canonical_path p"
  shows "path_depth p = (if collection_directory p = '''' then 1 else path_depth (collection_directory p) + 1)"
proof (cases "rsplit_once CHR ''/'' p")
  case None
  then have "CHR ''/'' \<notin> set p" by (auto simp: rsplit_once_def split_once_def split: if_splits)
  with None show ?thesis by (simp add: collection_directory_def path_depth_def split_on_plain)
next
  case (Some e)
  then obtain a b where e: "p = a @ CHR ''/'' # b" "CHR ''/'' \<notin> set b" "e = (a, b)"
    by (cases e) (auto simp: rsplit_once_iff)
  have "a \<noteq> ''''"
  proof
    assume "a = ''''"
    with e have "'''' \<in> set (split_on CHR ''/'' p)" by simp
    with assms show False
      using from_str_components [of p "CollectionPath p" "''''"]
      by (simp add: canonical_path_def portable_component_def)
  qed
  moreover have "path_depth p = path_depth a + 1"
    using e by (simp add: path_depth_def split_on_glue split_on_plain)
  moreover have "collection_directory p = a" using Some e by (simp add: collection_directory_def)
  ultimately show ?thesis by simp
qed

text \<open>The depths of the ranked candidates of one class are sorted.\<close>

lemma sorted_depths:
  assumes "sort_key (candidate_rank dir) cs = ranked"
    and "\<forall>c \<in> set cs. collection_directory (ci_path c) \<noteq> dir"
  shows "sort (map (\<lambda>c. path_depth (ci_path c)) cs) = map (\<lambda>c. path_depth (ci_path c)) ranked"
proof -
  have set_eq: "set ranked = set cs" using assms(1) by auto
  have "sorted (map (candidate_rank dir) ranked)" using assms(1) by auto
  then have "sorted (map (\<lambda>c. path_depth (ci_path c)) ranked)"
    using assms(2) unfolding set_eq [symmetric]
    by (induction ranked) (auto simp: candidate_rank_def less_eq_prod_def)
  moreover have "mset (map (\<lambda>c. path_depth (ci_path c)) ranked) = mset (map (\<lambda>c. path_depth (ci_path c)) cs)"
    using assms(1) by auto
  ultimately show ?thesis by (metis properties_for_sort)
qed

text \<open>What each reason claims about the winner and the other candidates.\<close>

fun reason_holds :: "string \<Rightarrow> candidate_identity \<Rightarrow> candidate_identity list \<Rightarrow> resolution_reason \<Rightarrow> bool" where
  "reason_holds dir w ws OnlyCandidate \<longleftrightarrow> ws = []"
| "reason_holds dir w ws SameDirectory \<longleftrightarrow> ws \<noteq> [] \<and> collection_directory (ci_path w) = dir
     \<and> (\<forall>c \<in> set ws. collection_directory (ci_path c) \<noteq> dir)"
| "reason_holds dir w ws ShallowestPath \<longleftrightarrow> ws \<noteq> [] \<and> collection_directory (ci_path w) \<noteq> dir
     \<and> (\<forall>c \<in> set ws. collection_directory (ci_path c) \<noteq> dir
          \<and> path_depth (ci_path w) < path_depth (ci_path c))"
| "reason_holds dir w ws LexicalTieBreak \<longleftrightarrow> ws \<noteq> []
     \<and> (\<forall>c \<in> set ws. ranked_key dir (ci_path w) < ranked_key dir (ci_path c))
     \<and> (\<exists>c \<in> set ws. rank_pair dir (ci_path w) = rank_pair dir (ci_path c))"
| "reason_holds dir w ws ConfiguredId \<longleftrightarrow> False"
| "reason_holds dir w ws ExactPath \<longleftrightarrow> False"

definition ranking :: "string \<Rightarrow> candidate_identity list \<Rightarrow> candidate_identity \<Rightarrow> candidate_identity list \<Rightarrow> bool" where
  "ranking dir cs w ws \<longleftrightarrow>
     sort_key (candidate_rank dir) cs = w # ws \<and> distinct (map ci_path cs)
     \<and> (\<forall>c \<in> set cs. canonical_path (ci_path c))"

lemma ranking_first:
  assumes "ranking dir cs w ws"
  shows "set cs = insert w (set ws)" "w \<notin> set ws" "distinct ws" "length cs = length ws + 1"
    "\<forall>c \<in> set ws. candidate_rank dir w < candidate_rank dir c"
    "\<forall>c \<in> set ws. ranked_key dir (ci_path w) < ranked_key dir (ci_path c)"
proof -
  have "distinct cs" "inj_on (candidate_rank dir) (set cs)"
    using assms by (auto simp: ranking_def distinct_map candidate_rank_inj inj_on_def)
  moreover have sorted: "sort_key (candidate_rank dir) cs = w # ws" using assms by (simp add: ranking_def)
  ultimately show first: "set cs = insert w (set ws)" "w \<notin> set ws" "distinct ws" "length cs = length ws + 1"
    "\<forall>c \<in> set ws. candidate_rank dir w < candidate_rank dir c"
    using sort_key_first [OF sorted] by blast+
  have inj: "inj_on ci_path (set cs)" using assms by (simp add: ranking_def distinct_map)
  show "\<forall>c \<in> set ws. ranked_key dir (ci_path w) < ranked_key dir (ci_path c)"
  proof
    fix c assume c: "c \<in> set ws"
    with first(1,2) inj have "ci_path w \<noteq> ci_path c" by (auto simp: inj_on_def)
    with first(5) c candidate_rank_less show "ranked_key dir (ci_path w) < ranked_key dir (ci_path c)"
      by blast
  qed
qed

text \<open>When some candidate is in the source directory, the winner is.\<close>

lemma ranking_prefers_directory:
  assumes "ranking dir cs w ws" "c \<in> set cs" "collection_directory (ci_path c) = dir"
  shows "collection_directory (ci_path w) = dir"
proof (rule ccontr)
  assume w: "collection_directory (ci_path w) \<noteq> dir"
  with assms ranking_first [OF assms(1)] have "candidate_rank dir w < candidate_rank dir c" by auto
  with w assms(3) show False by (simp add: candidate_rank_def less_prod_def')
qed

lemma reason_same_directory:
  assumes r: "ranking dir cs w ws" and one: "length (filter (\<lambda>c. collection_directory (ci_path c) = dir) cs) = 1"
  shows "collection_directory (ci_path w) = dir"
    "\<forall>c \<in> set ws. collection_directory (ci_path c) \<noteq> dir"
proof -
  obtain d where d: "filter (\<lambda>c. collection_directory (ci_path c) = dir) cs = [d]"
    using one by (auto simp: length_Suc_conv)
  then have "d \<in> set cs" "collection_directory (ci_path d) = dir"
    using filter_eq_ConsD [OF d] by auto
  then show w: "collection_directory (ci_path w) = dir" by (rule ranking_prefers_directory [OF r])
  have "c = d" if "c \<in> set cs" "collection_directory (ci_path c) = dir" for c
  proof -
    from that have "c \<in> set (filter (\<lambda>c. collection_directory (ci_path c) = dir) cs)" by simp
    then show ?thesis unfolding d by simp
  qed
  then show "\<forall>c \<in> set ws. collection_directory (ci_path c) \<noteq> dir"
    using w ranking_first [OF r] by blast
qed

lemma reason_several_in_directory:
  assumes r: "ranking dir cs w ws"
    and several: "1 < length (filter (\<lambda>c. collection_directory (ci_path c) = dir) cs)"
  shows "\<exists>c \<in> set ws. rank_pair dir (ci_path w) = rank_pair dir (ci_path c)"
    and "\<exists>d. \<forall>c \<in> set cs. collection_directory (ci_path c) = dir \<longrightarrow> path_depth (ci_path c) = d"
proof -
  have depth: "path_depth (ci_path c) = (if dir = '''' then 1 else path_depth dir + 1)"
    if "c \<in> set cs" "collection_directory (ci_path c) = dir" for c
    using that r depth_in_directory [of "ci_path c"] by (auto simp: ranking_def)
  then show "\<exists>d. \<forall>c \<in> set cs. collection_directory (ci_path c) = dir \<longrightarrow> path_depth (ci_path c) = d"
    by blast
  let ?same = "filter (\<lambda>c. collection_directory (ci_path c) = dir) cs"
  have "distinct ?same" using r by (auto simp: ranking_def distinct_map)
  moreover obtain a b rest where ab: "?same = a # b # rest"
    using several by (cases ?same; cases "tl ?same") auto
  ultimately have "a \<noteq> b" by auto
  moreover have "a \<in> set ?same" "b \<in> set ?same" unfolding ab by simp_all
  ultimately obtain c where c: "c \<in> set cs" "c \<noteq> w" "collection_directory (ci_path c) = dir" by (metis (mono_tags, lifting) filter_set mem_Collect_eq set_filter)
  then have "collection_directory (ci_path w) = dir" by (intro ranking_prefers_directory [OF r])
  with c depth ranking_first [OF r] have "c \<in> set ws" "rank_pair dir (ci_path w) = rank_pair dir (ci_path c)"
    by (auto simp: rank_pair_def)
  then show "\<exists>c \<in> set ws. rank_pair dir (ci_path w) = rank_pair dir (ci_path c)" by blast
qed

lemma get_at_two: "get_at (a # b # xs) 0 = Some a" "get_at (a # b # xs) 1 = Some b"
  by (simp_all add: get_at_def)

lemma reason_outside_directory:
  assumes r: "ranking dir cs w ws" and ws: "ws \<noteq> []"
    and none: "\<forall>c \<in> set cs. collection_directory (ci_path c) \<noteq> dir"
  defines "depths \<equiv> sort (map (\<lambda>c. path_depth (ci_path c)) cs)"
  shows "get_at depths 0 \<noteq> get_at depths 1 \<Longrightarrow>
      \<forall>c \<in> set ws. path_depth (ci_path w) < path_depth (ci_path c)"
    and "get_at depths 0 = get_at depths 1 \<Longrightarrow>
      \<exists>c \<in> set ws. rank_pair dir (ci_path w) = rank_pair dir (ci_path c)"
proof -
  obtain v vs where v: "ws = v # vs" using ws by (cases ws) auto
  have "sort_key (candidate_rank dir) cs = w # ws" using r by (simp add: ranking_def)
  then have depths: "depths = map (\<lambda>c. path_depth (ci_path c)) (w # v # vs)"
    using sorted_depths [of dir cs "w # ws"] none v unfolding depths_def by simp
  have sorted: "sorted (map (\<lambda>c. path_depth (ci_path c)) (w # v # vs))"
    unfolding depths [symmetric] depths_def by simp
  have two: "get_at depths 0 = Some (path_depth (ci_path w))" "get_at depths 1 = Some (path_depth (ci_path v))"
    unfolding depths by (simp_all add: get_at_def)
  show "\<forall>c \<in> set ws. path_depth (ci_path w) < path_depth (ci_path c)"
    if "get_at depths 0 \<noteq> get_at depths 1"
  proof -
    from that have "path_depth (ci_path w) \<noteq> path_depth (ci_path v)" unfolding two by auto
    with sorted have lt: "path_depth (ci_path w) < path_depth (ci_path v)" by simp
    have "path_depth (ci_path v) \<le> path_depth (ci_path c)" if "c \<in> set ws" for c
      using sorted that unfolding v by auto
    with lt show ?thesis by (meson order.strict_trans2)
  qed
  show "\<exists>c \<in> set ws. rank_pair dir (ci_path w) = rank_pair dir (ci_path c)"
    if "get_at depths 0 = get_at depths 1"
  proof -
    have "w \<in> set cs" "v \<in> set cs" using ranking_first(1) [OF r] v by auto
    moreover from that have "path_depth (ci_path w) = path_depth (ci_path v)" unfolding two by simp
    ultimately show ?thesis using none v by (auto simp: rank_pair_def intro!: bexI [of _ v])
  qed
qed

lemma basename_reason_holds:
  assumes r: "ranking dir cs w ws"
  shows "reason_holds dir w ws (basename_reason dir cs)"
proof (cases "length cs = 1")
  case True
  with ranking_first(4) [OF r] show ?thesis by (simp add: basename_reason_def)
next
  case False
  with ranking_first(4) [OF r] have ws: "ws \<noteq> []" by auto
  note less = ranking_first(6) [OF r]
  let ?same = "filter (\<lambda>c. collection_directory (ci_path c) = dir) cs"
  consider "length ?same = 1" | "1 < length ?same" | "length ?same = 0" by linarith
  then show ?thesis
  proof cases
    case 1
    then have "basename_reason dir cs = SameDirectory" using False by (simp add: basename_reason_def)
    with reason_same_directory [OF r 1] ws show ?thesis by simp
  next
    case 2
    from reason_several_in_directory(2) [OF r 2] obtain d where
      "\<forall>c \<in> set cs. collection_directory (ci_path c) = dir \<longrightarrow> path_depth (ci_path c) = d" by blast
    then have d: "\<forall>c \<in> set ?same. path_depth (ci_path c) = d" by simp
    define depths where "depths = sort (map (\<lambda>c. path_depth (ci_path c)) ?same)"
    have "\<forall>x \<in> set depths. x = d" "1 < length depths" using d 2 unfolding depths_def by auto
    then have "get_at depths 0 = Some d" "get_at depths 1 = Some d" by (auto simp: get_at_def)
    then have "get_at depths 0 = get_at depths 1" by (simp only:)
    moreover have "0 < length ?same" "length ?same \<noteq> 1" using 2 by linarith+
    ultimately have "basename_reason dir cs = LexicalTieBreak"
      using False unfolding depths_def basename_reason_def Let_def
      by (simp only: if_False if_True simp_thms)
    with reason_several_in_directory(1) [OF r 2] less ws show ?thesis by simp
  next
    case 3
    then have none: "\<forall>c \<in> set cs. collection_directory (ci_path c) \<noteq> dir"
      by (simp add: filter_empty_conv)
    then have same: "basename_reason dir cs =
        (if get_at (sort (map (\<lambda>c. path_depth (ci_path c)) cs)) 0
             \<noteq> get_at (sort (map (\<lambda>c. path_depth (ci_path c)) cs)) 1
         then ShallowestPath else LexicalTieBreak)"
      using False 3 by (simp add: basename_reason_def Let_def)
    have "w \<in> set cs" "set ws \<subseteq> set cs" using ranking_first(1) [OF r] by auto
    with none reason_outside_directory [OF r ws none] less ws show ?thesis
      unfolding same by auto
  qed
qed

section \<open>The evidence of a selection\<close>

definition winner_of :: "ranked \<Rightarrow> candidate_identity" where
  "winner_of r = \<lparr>ci_record_id = rk_record_id r, ci_path = rk_path r\<rparr>"

text \<open>What a resolved selection guarantees, whatever the kind of the lookup.\<close>

definition sound_evidence ::
  "resolution_host \<Rightarrow> string \<Rightarrow> resolution_key_kind \<Rightarrow> candidate_identity list \<Rightarrow> ranked \<Rightarrow> bool" where
  "sound_evidence h dir kind input r \<longleftrightarrow>
     (let all = winner_of r # rk_alternative_candidates r in
      rk_candidate_count r = length all \<and> length all \<le> MAX_RESOLUTION_CANDIDATES
      \<and> rk_alternatives r = map ci_path (rk_alternative_candidates r)
      \<and> sorted_wrt (<) (map (\<lambda>c. (ci_path c, ci_record_id c)) (rk_alternative_candidates r))
      \<and> distinct (map ci_path all) \<and> distinct (map ci_record_id all)
      \<and> (\<forall>c \<in> set all. ci_record_id c \<noteq> '''' \<and> canonical_path (ci_path c))
      \<and> digest_candidate_identities h kind (winner_of r) (rk_alternative_candidates r)
          = Ok (rk_candidate_digest r)
      \<and> set (map (\<lambda>c. (ci_path c, ci_record_id c)) all)
          = {e. \<exists>c \<in> set input. canonical_entry c = Some e}
      \<and> (if kind = KeyBasename
         then reason_holds dir (winner_of r) (rk_alternative_candidates r) (rk_reason r)
              \<and> (\<forall>c \<in> set (rk_alternative_candidates r).
                   ranked_key dir (rk_path r) < ranked_key dir (ci_path c))
         else rk_alternative_candidates r = [] \<and> single_reason kind = Ok (rk_reason r)))"

lemma sound_evidenceD:
  assumes "sound_evidence h dir kind input r"
  shows "rk_candidate_count r = length (rk_alternative_candidates r) + 1"
    "length (rk_alternative_candidates r) + 1 \<le> MAX_RESOLUTION_CANDIDATES"
    "rk_alternatives r = map ci_path (rk_alternative_candidates r)"
    "sorted_wrt (<) (map (\<lambda>c. (ci_path c, ci_record_id c)) (rk_alternative_candidates r))"
    "distinct (map ci_path (winner_of r # rk_alternative_candidates r))"
    "distinct (map ci_record_id (winner_of r # rk_alternative_candidates r))"
    "\<forall>c \<in> set (winner_of r # rk_alternative_candidates r).
       ci_record_id c \<noteq> '''' \<and> canonical_path (ci_path c)"
    "digest_candidate_identities h kind (winner_of r) (rk_alternative_candidates r)
       = Ok (rk_candidate_digest r)"
    "(\<lambda>c. (ci_path c, ci_record_id c)) ` set (winner_of r # rk_alternative_candidates r)
       = {e. \<exists>c \<in> set input. canonical_entry c = Some e}"
    "kind = KeyBasename \<Longrightarrow>
       reason_holds dir (winner_of r) (rk_alternative_candidates r) (rk_reason r)"
    "kind = KeyBasename \<Longrightarrow> \<forall>c \<in> set (rk_alternative_candidates r).
       ranked_key dir (rk_path r) < ranked_key dir (ci_path c)"
    "kind \<noteq> KeyBasename \<Longrightarrow> rk_alternative_candidates r = [] \<and> single_reason kind = Ok (rk_reason r)"
  using assms unfolding sound_evidence_def Let_def
  by (simp_all only: list.size set_map if_True if_False refl simp_thms split: if_splits) auto

lemma complete_alternatives:
  "set (complete_alternative_candidates ws) = set ws"
  "length (complete_alternative_candidates ws) = length ws"
  "mset (complete_alternative_candidates ws) = mset ws"
  by (simp_all add: complete_alternative_candidates_def)

lemma complete_alternatives_sorted:
  assumes "distinct (map ci_path ws)"
  shows "sorted_wrt (<) (map (\<lambda>c. (ci_path c, ci_record_id c)) (complete_alternative_candidates ws))"
proof -
  let ?k = "\<lambda>c. (ci_path c, ci_record_id c)"
  have "distinct (map ?k ws)" using assms by (auto simp: distinct_map inj_on_def)
  then have "distinct (map ?k (complete_alternative_candidates ws))"
    by (auto simp: distinct_map complete_alternatives complete_alternative_candidates_def)
  moreover have "sorted (map ?k (complete_alternative_candidates ws))"
    by (simp add: complete_alternative_candidates_def)
  ultimately show ?thesis by (simp add: strict_sorted_iff)
qed

lemma reason_holds_cong:
  assumes "set vs = set ws" "length vs = length ws"
  shows "reason_holds dir w vs reason = reason_holds dir w ws reason"
  using assms by (cases reason) auto

lemma rank_evidence:
  assumes "rank_candidates h dir kind cs = Ok (RankedResolved r)"
    and "distinct (map ci_path cs)" and "distinct (map ci_record_id cs)"
    and "\<forall>c \<in> set cs. ci_record_id c \<noteq> '''' \<and> canonical_path (ci_path c)"
    and "set (map (\<lambda>c. (ci_path c, ci_record_id c)) cs) = {e. \<exists>c \<in> set input. canonical_entry c = Some e}"
  shows "sound_evidence h dir kind input r"
proof (cases "kind = KeyBasename")
  case True
  from assms(1) True obtain w ws digest where
    w: "sort_key (candidate_rank dir) cs = w # ws" and
    digest: "digest_candidate_identities h kind w (complete_alternative_candidates ws) = Ok digest" and
    r: "r = \<lparr>rk_record_id = ci_record_id w, rk_path = ci_path w,
             rk_reason = basename_reason dir cs, rk_selected_kind = kind,
             rk_candidate_count = length cs, rk_candidate_digest = digest,
             rk_alternatives = map ci_path (complete_alternative_candidates ws),
             rk_alternative_candidates = complete_alternative_candidates ws\<rparr>" and
    small: "length cs \<le> MAX_RESOLUTION_CANDIDATES"
    by (auto simp: rank_candidates_def Let_def split: if_splits list.splits)
  have rank: "ranking dir cs w ws" using w assms(2,4) by (simp add: ranking_def)
  note first = ranking_first [OF rank]
  have win: "winner_of r = w" by (simp add: winner_of_def r)
  have "mset cs = mset (w # complete_alternative_candidates ws)"
    using w by (metis mset_sort mset.simps(2) complete_alternatives(3))
  then have perm: "mset (map f cs) = mset (map f (w # complete_alternative_candidates ws))" for f :: "candidate_identity \<Rightarrow> string"
    by simp
  have "mset (map ci_path ws) = mset (map ci_path (complete_alternative_candidates ws))"
    by (simp add: complete_alternatives)
  then have "distinct (map ci_path ws)" "distinct (map ci_path (w # complete_alternative_candidates ws))"
    "distinct (map ci_record_id (w # complete_alternative_candidates ws))"
    using assms(2,3) perm by (metis distinct.simps(2) list.map(2) mset_eq_imp_distinct_iff)+
  moreover have "reason_holds dir w (complete_alternative_candidates ws) (basename_reason dir cs)"
    using basename_reason_holds [OF rank] by (simp add: complete_alternatives cong: reason_holds_cong)
  ultimately show ?thesis
    using True digest small first assms(4,5) complete_alternatives_sorted
    unfolding sound_evidence_def Let_def win
    by (auto simp: r complete_alternatives)
next
  case False
  from assms(1) False obtain w digest reason where
    cs: "cs = [w]" and digest: "digest_candidate_identities h kind w [] = Ok digest" and
    "single_reason kind = Ok reason" and
    r: "r = \<lparr>rk_record_id = ci_record_id w, rk_path = ci_path w, rk_reason = reason,
             rk_selected_kind = kind, rk_candidate_count = length cs, rk_candidate_digest = digest,
             rk_alternatives = [], rk_alternative_candidates = []\<rparr>"
    by (auto simp: rank_candidates_def split: if_splits list.splits)
  moreover have "winner_of r = w" by (simp add: winner_of_def r)
  ultimately show ?thesis using False assms(4,5) unfolding sound_evidence_def Let_def
    by (simp add: r MAX_RESOLUTION_CANDIDATES_def)
qed

lemma select_evidence:
  assumes "select_resolution_candidate h source kind input = Ok (RankedResolved r)"
    and "canonical_path source"
  shows "sound_evidence h (collection_directory source) kind input r"
proof -
  have fn: "(\<lambda>(path, rid). \<lparr>ci_record_id = rid, ci_path = path\<rparr>) = identity_of"
    by (auto simp: identity_of_def fun_eq_iff)
  from assms obtain by_path where idx: "index_candidates input [] [] = Ok by_path"
    and rank: "rank_candidates h (collection_directory source) kind (map identity_of by_path) = Ok (RankedResolved r)"
    by (auto simp: select_resolution_candidate_def canonical_path_def fn)
  note ids = index_identities [OF idx]
  have "set (map (\<lambda>c. (ci_path c, ci_record_id c)) (map identity_of by_path))
      = {e. \<exists>c \<in> set input. canonical_entry c = Some e}"
    unfolding ids(4) [symmetric] by (simp add: image_image)
  then show ?thesis
    using ids(1-3) by (intro rank_evidence [OF rank]) (simp_all add: o_def)
qed

end
