(* ===== verification/Resolution_Examples.thy ===== *)
theory Resolution_Examples
  imports Resolution_Selection Path_Properties
begin

text \<open>
  A concrete resolution: the frontmatter field \<open>project\<close> of \<open>notes/today.md\<close> links to \<open>goals\<close>, with or
  without an anchor, and the authority knows \<open>archive/goals.md\<close> and \<open>notes/goals.md\<close>.
\<close>

definition ex_host :: resolution_host where
  "ex_host =
     \<lparr>rh_lower = map lower_char,
      rh_jcs = (\<lambda>kind rows. Some (concat (map (\<lambda>(rid, path). rid @ '':'' @ path @ '';'') rows))),
      rh_sha256 = (\<lambda>s. s)\<rparr>"

definition ex_structure :: "string \<Rightarrow> record_structure" where
  "ex_structure link =
     parse_structure (\<lambda>s. sx_path s) (\<lambda>s. s) ''notes/today.md'' (Some (JObj [(''project'', JStr link)])) '''' [] [] []"


definition ex_occurrence :: "string \<Rightarrow> string \<Rightarrow> string option \<Rightarrow> structural_occurrence" where
  "ex_occurrence raw target anchor =
     \<lparr>oc_ordinal = 0, oc_source_kind = SourceFrontmatter, oc_kind = Wikilink, oc_raw = raw,
      oc_raw_target = target, oc_normalized_target = Some ''goals'', oc_alias = None, oc_anchor = anchor,
      oc_field = Some ''project'', oc_relative = False, oc_resolution = Unresolved\<rparr>"

lemma ex_structure_plain: "sx_occurrences (ex_structure ''[[goals]]'') = [ex_occurrence ''[[goals]]'' ''goals'' None]"
  by code_simp
lemma ex_structure_anchored: "sx_occurrences (ex_structure ''[[goals#q]]'') = [ex_occurrence ''[[goals#q]]'' ''goals#q'' (Some ''q'')]"
  by code_simp
definition ex_rows :: "candidate_identity list" where
  "ex_rows = [\<lparr>ci_record_id = ''r2'', ci_path = ''archive/goals.md''\<rparr>, \<lparr>ci_record_id = ''r1'', ci_path = ''notes/goals.md''\<rparr>]"

lemma ex_paths_canonical: "canonical_path ''notes/today.md'' \<and> canonical_path ''notes/goals.md'' \<and> canonical_path ''archive/goals.md''"
  unfolding canonical_path_def
  by code_simp

lemma ex_indexed: "index_candidates ex_rows [] [] = Ok [(''archive/goals.md'', ''r2''), (''notes/goals.md'', ''r1'')]"
  by code_simp

definition ex_ranked :: ranked where
  "ex_ranked =
     \<lparr>rk_record_id = ''r1'', rk_path = ''notes/goals.md'', rk_reason = SameDirectory,
      rk_selected_kind = KeyBasename, rk_candidate_count = 2,
      rk_candidate_digest = ''sha256:r1:notes/goals.md;r2:archive/goals.md;'',
      rk_alternatives = [''archive/goals.md''],
      rk_alternative_candidates = [\<lparr>ci_record_id = ''r2'', ci_path = ''archive/goals.md''\<rparr>]\<rparr>"

lemma ex_ranking:
  "sort_key (candidate_rank ''notes'') ex_rows = rev ex_rows
   \<and> basename_reason ''notes'' ex_rows = SameDirectory
   \<and> complete_alternative_candidates [\<lparr>ci_record_id = ''r2'', ci_path = ''archive/goals.md''\<rparr>]
     = [\<lparr>ci_record_id = ''r2'', ci_path = ''archive/goals.md''\<rparr>]
   \<and> collection_directory ''notes/today.md'' = ''notes''
   \<and> digest_candidate_identities ex_host KeyBasename \<lparr>ci_record_id = ''r1'', ci_path = ''notes/goals.md''\<rparr>
     [\<lparr>ci_record_id = ''r2'', ci_path = ''archive/goals.md''\<rparr>] = Ok ''sha256:r1:notes/goals.md;r2:archive/goals.md;''"
  by code_simp

lemma ex_select:
  "select_resolution_candidate ex_host ''notes/today.md'' KeyBasename ex_rows = Ok (RankedResolved ex_ranked)"
proof -
  have "rank_candidates ex_host ''notes'' KeyBasename ex_rows = Ok (RankedResolved ex_ranked)"
    using ex_ranking by (simp add: rank_candidates_def MAX_RESOLUTION_CANDIDATES_def ex_rows_def ex_ranked_def)
  then show ?thesis
    using ex_paths_canonical ex_indexed ex_ranking
    by (simp add: select_resolution_candidate_def canonical_path_def ex_rows_def)
qed

definition ex_candidates :: "resolution_candidate list" where
  "ex_candidates =
     map (\<lambda>c. \<lparr>rc_ordinal = 0, rc_lookup = \<lparr>lk_priority = 1, lk_kind = KeyBasename, lk_value = ''goals''\<rparr>,
               rc_record_id = ci_record_id c, rc_path = ci_path c\<rparr>) ex_rows"

definition ex_alternatives :: "lookup_key list" where
  "ex_alternatives =
     [\<lparr>lk_priority = 0, lk_kind = KeyId, lk_value = ''goals''\<rparr>,
      \<lparr>lk_priority = 1, lk_kind = KeyBasename, lk_value = ''goals''\<rparr>,
      \<lparr>lk_priority = 2, lk_kind = KeyTitle, lk_value = ''goals''\<rparr>]"

definition ex_plan :: "string \<Rightarrow> resolution_plan" where
  "ex_plan link =
     \<lparr>rp_schema_version = RECORD_STRUCTURE_SCHEMA_VERSION, rp_source_path = ''notes/today.md'',
      rp_structural_digest = sx_structural_digest (ex_structure link),
      rp_lookups = [\<lparr>ol_ordinal = 0, ol_alternatives = ex_alternatives\<rparr>]\<rparr>"

lemma ex_structure_fields:
  "sx_path (ex_structure link) = ''notes/today.md''"
  "sx_schema_version (ex_structure link) = RECORD_STRUCTURE_SCHEMA_VERSION"
  by (simp_all add: ex_structure_def parse_structure_def Let_def)

lemma ex_planned:
  assumes "sx_occurrences (ex_structure link) = [ex_occurrence raw target anchor]"
    and "simple_wikilink (ex_occurrence raw target anchor)"
  shows "plan_record_resolution ex_host ex_collection (ex_structure link) = Ok (ex_plan link)"
proof -
  have "rh_lower ex_host ''goals'' = ''goals''" by code_simp
  then show ?thesis using assms
    by (simp add: plan_record_resolution_def ex_plan_def List.map_filter_def planned_lookup_def
          resolution_lookup_alternatives_for_occurrence_def ex_structure_fields ex_alternatives_def
          MAX_STRUCTURAL_OCCURRENCES_def MAX_RESOLUTION_LOOKUPS_def ex_occurrence_def)
qed

definition ex_resolved_occurrence :: "structural_occurrence \<Rightarrow> resolved_occurrence" where
  "ex_resolved_occurrence occ =
     \<lparr>ro_occurrence = occ, ro_resolution = Resolved, ro_target_record_id = Some ''r1'',
      ro_target_path = Some ''notes/goals.md'', ro_ambiguous_paths = [], ro_reason = Some SameDirectory,
      ro_selected_lookup = Some \<lparr>lk_priority = 1, lk_kind = KeyBasename, lk_value = ''goals''\<rparr>,
      ro_candidate_count = 2,
      ro_candidate_digest = Some ''sha256:r1:notes/goals.md;r2:archive/goals.md;'',
      ro_alternatives = [''archive/goals.md''],
      ro_alternative_candidates = [\<lparr>ci_record_id = ''r2'', ci_path = ''archive/goals.md''\<rparr>]\<rparr>"

lemma ex_grouped:
  "group_candidates [(0, ex_alternatives)] ex_candidates []
     = Ok [(0, [(1, [((''r1'', ''notes/goals.md''), ()), ((''r2'', ''archive/goals.md''), ())])])]"
  by code_simp

lemma ex_select_sorted:
  "select_resolution_candidate ex_host ''notes/today.md'' KeyBasename (rev ex_rows) = Ok (RankedResolved ex_ranked)"
proof -
  have "index_candidates (rev ex_rows) [] [] = index_candidates ex_rows [] []" by code_simp
  then show ?thesis using ex_select by (simp add: select_resolution_candidate_def)
qed

lemma ex_resolves:
  assumes "sx_occurrences (ex_structure link) = [ex_occurrence raw target anchor]"
  shows "\<exists>resolved. resolve_record_structure ex_host (ex_structure link) (ex_plan link) ex_candidates = Ok resolved
    \<and> rx_occurrences resolved = [ex_resolved_occurrence (ex_occurrence raw target anchor)]"
proof -
  let ?g = "[(0, [(1, [((''r1'', ''notes/goals.md''), ()), ((''r2'', ''archive/goals.md''), ())])])]"
  have find: "List.find (\<lambda>a. lk_priority a = 1) (plan_alternatives (ex_plan link) 0)
      = Some \<lparr>lk_priority = 1, lk_kind = KeyBasename, lk_value = ''goals''\<rparr>"
    by (simp add: plan_alternatives_def ex_plan_def ex_alternatives_def)
  have evidence: "evidence_lookup (ex_plan link) 0 1 \<lparr>lk_priority = 1, lk_kind = KeyBasename, lk_value = ''goals''\<rparr>
      (RankedResolved ex_ranked) = \<lparr>lk_priority = 1, lk_kind = KeyBasename, lk_value = ''goals''\<rparr>"
    by (simp add: evidence_lookup_def plan_alternatives_def ex_plan_def ex_alternatives_def)
  have "resolve_occurrence ex_host (ex_structure link) (ex_plan link) ?g (ex_occurrence raw target anchor)
      = Ok (ex_resolved_occurrence (ex_occurrence raw target anchor))"
    using ex_select_sorted find evidence
    by (simp add: resolve_occurrence_def ex_structure_fields ex_rows_def ex_occurrence_def
          ex_resolved_occurrence_def ex_ranked_def bt_get_def bt_keys_def)
  then show ?thesis using ex_grouped assms
    by (simp add: resolve_record_structure_def ex_structure_fields ex_plan_def MAX_RESOLUTION_CANDIDATES_def
          ex_candidates_def ex_rows_def)
qed
end
