(* ===== verification/Resolution_Properties.thy ===== *)
theory Resolution_Properties
  imports Resolution_Examples Link_Properties
begin

text \<open>
  Resolving a record's links against an authority: only planned rows count, the selected record is
  the first in the documented ranking, and the evidence a resolution carries is accepted by its own
  validator when the authority is exact and the targets are plain. The last theorem shows that
  the validator rejects genuine evidence of anchored links.
\<close>

section \<open>Planned alternatives\<close>

lemma set_sorted_alternatives: "set (remdups_adj (sort_key f xs)) = set xs"
  by simp

lemma alternatives_set:
  "set (resolution_lookup_alternatives_for_occurrence h col occ t) =
     (if simple_wikilink occ then
        {\<lparr>lk_priority = 0, lk_kind = KeyId, lk_value = rh_lower h t\<rparr>,
         \<lparr>lk_priority = 1, lk_kind = KeyBasename, lk_value = rh_lower h t\<rparr>,
         \<lparr>lk_priority = 2, lk_kind = KeyTitle, lk_value = rh_lower h t\<rparr>}
      else
        {\<lparr>lk_priority = 0, lk_kind = KeyPath, lk_value = t\<rparr>}
        \<union> (if path_extension t = None
           then (\<lambda>ext. \<lparr>lk_priority = 1, lk_kind = KeyPath, lk_value = t @ ''.'' @ ext\<rparr>)
                  ` set (record_extensions col)
           else {})
        \<union> (if CHR ''/'' \<notin> set t
           then {\<lparr>lk_priority = 2, lk_kind = KeyId, lk_value = rh_lower h t\<rparr>,
                 \<lparr>lk_priority = 3, lk_kind = KeyBasename, lk_value = rh_lower h t\<rparr>,
                 \<lparr>lk_priority = 4, lk_kind = KeyTitle, lk_value = rh_lower h t\<rparr>}
           else {}))"
  unfolding resolution_lookup_alternatives_for_occurrence_def resolution_lookup_alternatives_def
    Let_def
  by (auto simp del: sort_key_simps simp: set_sorted_alternatives split: if_splits)

lemma alternatives_cases:
  assumes "a \<in> set (resolution_lookup_alternatives_for_occurrence h col occ t)"
  obtains
    (name) "lk_kind a \<noteq> KeyPath" "lk_value a = rh_lower h t"
  | (exact) "\<not> simple_wikilink occ" "lk_kind a = KeyPath" "lk_value a = t"
  | (extended) ext where "\<not> simple_wikilink occ" "lk_kind a = KeyPath"
      "path_extension t = None" "ext \<in> set (record_extensions col)" "lk_value a = t @ ''.'' @ ext"
  using assms unfolding alternatives_set by (auto split: if_splits)

text \<open>At one priority all alternatives have one kind.\<close>

lemma priority_determines_kind:
  assumes "a \<in> set (resolution_lookup_alternatives_for_occurrence h col occ t)"
    and "b \<in> set (resolution_lookup_alternatives_for_occurrence h col occ t)"
    and "lk_priority a = lk_priority b"
  shows "lk_kind a = lk_kind b"
  using assms unfolding alternatives_set by (auto split: if_splits)

section \<open>Grouped rows\<close>

definition in_group :: "candidate_groups \<Rightarrow> nat \<Rightarrow> nat \<Rightarrow> string \<Rightarrow> string \<Rightarrow> bool" where
  "in_group g ordinal priority rid path \<longleftrightarrow>
     (\<exists>m s. bt_get g ordinal = Some m \<and> bt_get m priority = Some s \<and> bt_contains s (rid, path))"

lemma in_group_add:
  "in_group (add_to_group c g) ordinal priority rid path \<Longrightarrow>
     in_group g ordinal priority rid path
     \<or> (ordinal = rc_ordinal c \<and> priority = lk_priority (rc_lookup c)
        \<and> rid = rc_record_id c \<and> path = rc_path c)"
  by (auto simp: in_group_def add_to_group_def bt_contains_def Let_def split: option.splits if_splits)

lemma group_candidates_sound:
  assumes "group_candidates planned cs g0 = Ok g" "in_group g ordinal priority rid path"
  shows "in_group g0 ordinal priority rid path
    \<or> (\<exists>c \<in> set cs. rc_ordinal c = ordinal \<and> lk_priority (rc_lookup c) = priority
         \<and> rc_record_id c = rid \<and> rc_path c = path
         \<and> (\<exists>ks. bt_get planned ordinal = Some ks \<and> rc_lookup c \<in> set ks))"
  using assms
proof (induction cs arbitrary: g0)
  case (Cons c cs)
  from Cons.prems(1) have c: "\<exists>ks. bt_get planned (rc_ordinal c) = Some ks \<and> rc_lookup c \<in> set ks"
    and rest: "group_candidates planned cs (add_to_group c g0) = Ok g"
    by (auto split: if_splits option.splits)
  from Cons.IH [OF rest Cons.prems(2)] c show ?case by (auto dest: in_group_add)
qed simp

lemma foldl_insert_get:
  "bt_get (foldl (\<lambda>m l. bt_insert (f l) (g l) m) m0 ls) k = Some v \<Longrightarrow>
     (\<exists>l \<in> set ls. f l = k \<and> g l = v) \<or> bt_get m0 k = Some v"
  by (induction ls arbitrary: m0) (fastforce split: if_splits)+

section \<open>Selected targets\<close>

text \<open>
  C34: A basename link resolves to the first candidate of the documented ranking, whatever the order of
  the rows: the selected record is one of the rows; every other row lies behind it, first by not
  being in the directory of the source, then by the depth of its path, then by the path itself, and
  is reported as an alternative.
\<close>

theorem selected_target_ranks_first:
  assumes "select_resolution_candidate h source KeyBasename rows = Ok (RankedResolved r)"
    and "canonical_path source"
  shows "(\<exists>c \<in> set rows. canonical_entry c = Some (rk_path r, rk_record_id r))
    \<and> (\<forall>c \<in> set rows. \<forall>path rid. canonical_entry c = Some (path, rid) \<longrightarrow>
         (path = rk_path r \<and> rid = rk_record_id r)
         \<or> (path \<in> set (rk_alternatives r)
            \<and> ((collection_directory (rk_path r) \<noteq> collection_directory source, path_depth (rk_path r)),
                rk_path r)
              < ((collection_directory path \<noteq> collection_directory source, path_depth path), path)))"
proof -
  let ?dir = "collection_directory source"
  have ev: "sound_evidence h ?dir KeyBasename rows r" by (rule select_evidence [OF assms])
  define entry :: "candidate_identity \<Rightarrow> string \<times> string"
    where "entry = (\<lambda>c. (ci_path c, ci_record_id c))"
  have entries: "insert (entry (winner_of r)) (entry ` set (rk_alternative_candidates r))
      = {e. \<exists>c \<in> set rows. canonical_entry c = Some e}"
    using sound_evidenceD(9) [OF ev] by (simp add: entry_def)
  have win: "entry (winner_of r) = (rk_path r, rk_record_id r)" by (simp add: winner_of_def entry_def)
  note alts = sound_evidenceD(3) [OF ev] and behind = sound_evidenceD(11) [OF ev refl]
  show ?thesis
  proof (intro conjI ballI allI impI)
    show "\<exists>c \<in> set rows. canonical_entry c = Some (rk_path r, rk_record_id r)"
    proof -
      have "(rk_path r, rk_record_id r) \<in> {e. \<exists>c \<in> set rows. canonical_entry c = Some e}"
        unfolding entries [symmetric] win by simp
      then show ?thesis by simp
    qed
    fix c path rid assume "c \<in> set rows" "canonical_entry c = Some (path, rid)"
    then have "(path, rid) \<in> insert (entry (winner_of r)) (entry ` set (rk_alternative_candidates r))"
      unfolding entries by blast
    then have "(path, rid) = (rk_path r, rk_record_id r)
        \<or> (\<exists>d \<in> set (rk_alternative_candidates r). path = ci_path d)"
      unfolding win by (auto simp: entry_def)
    then show "(path = rk_path r \<and> rid = rk_record_id r)
         \<or> (path \<in> set (rk_alternatives r)
            \<and> ((collection_directory (rk_path r) \<noteq> ?dir, path_depth (rk_path r)), rk_path r)
              < ((collection_directory path \<noteq> ?dir, path_depth path), path))"
    proof
      assume "\<exists>d \<in> set (rk_alternative_candidates r). path = ci_path d"
      then obtain d where d: "d \<in> set (rk_alternative_candidates r)" "path = ci_path d" by blast
      then have "path \<in> set (rk_alternatives r)" unfolding alts by simp
      moreover have "ranked_key ?dir (rk_path r) < ranked_key ?dir path" using behind d by blast
      ultimately show ?thesis unfolding ranked_key_def rank_pair_def by (intro disjI2 conjI)
    qed simp
  qed
qed

theorem selected_target_ranks_first_witness:
  "select_resolution_candidate ex_host ''notes/today.md'' KeyBasename ex_rows = Ok (RankedResolved ex_ranked)
   \<and> rk_path ex_ranked = ''notes/goals.md''
   \<and> ((collection_directory ''notes/goals.md'' \<noteq> collection_directory ''notes/today.md'', path_depth ''notes/goals.md''),
       ''notes/goals.md'')
     < ((collection_directory ''archive/goals.md'' \<noteq> collection_directory ''notes/today.md'',
         path_depth ''archive/goals.md''), ''archive/goals.md'')"
proof -
  have won: "rk_path ex_ranked = ''notes/goals.md''" by (simp add: ex_ranked_def)
  have row: "\<lparr>ci_record_id = ''r2'', ci_path = ''archive/goals.md''\<rparr> \<in> set ex_rows"
    "canonical_entry \<lparr>ci_record_id = ''r2'', ci_path = ''archive/goals.md''\<rparr> = Some (''archive/goals.md'', ''r2'')"
    using ex_paths_canonical by (simp_all add: ex_rows_def canonical_entry_def canonical_path_def)
  have source: "canonical_path ''notes/today.md''" using ex_paths_canonical by blast
  note ranked = conjunct2 [OF selected_target_ranks_first [OF ex_select source], unfolded won]
  have "''archive/goals.md'' \<noteq> ''notes/goals.md''" by simp
  with ranked [rule_format, OF row] show ?thesis using ex_select won by blast
qed

section \<open>Evidence\<close>

text \<open>
  An exact authority returns rows of records: the path of a row is canonical, a path lookup is
  answered by the record at that path, and a basename lookup by records with that file name.
\<close>

definition exact_rows :: "record_structure \<Rightarrow> resolution_candidate list \<Rightarrow> bool" where
  "exact_rows structure candidates \<longleftrightarrow>
     (\<forall>c \<in> set candidates.
        canonical_path (rc_path c)
        \<and> (lk_kind (rc_lookup c) = KeyPath \<longrightarrow> rc_path c = lk_value (rc_lookup c))
        \<and> (lk_kind (rc_lookup c) = KeyBasename \<longrightarrow>
             (\<forall>occ \<in> set (sx_occurrences structure). oc_ordinal occ = rc_ordinal c \<longrightarrow>
                basename_eligible (oc_raw_target occ) (rc_path c))))"

text \<open>
  A plain structure: a canonical source path, occurrences numbered apart and not resolved yet, each
  unresolved one with a target whose spelling names the same key as its raw target.
\<close>

definition plain_structure :: "resolution_host \<Rightarrow> record_structure \<Rightarrow> bool" where
  "plain_structure h structure \<longleftrightarrow>
     canonical_path (sx_path structure) \<and> distinct (map oc_ordinal (sx_occurrences structure))
     \<and> (\<forall>occ \<in> set (sx_occurrences structure). oc_resolution occ \<noteq> Resolved
          \<and> (oc_resolution occ = Unresolved \<longrightarrow>
               (\<exists>t. oc_normalized_target occ = Some t \<and> rh_lower h t = rh_lower h (oc_raw_target occ))))"

lemma unresolved_evidence:
  "resolution \<noteq> Resolved \<Longrightarrow> occurrence_evidence_is_valid h path (unresolved_occurrence occ resolution paths)"
  by (simp add: occurrence_evidence_is_valid_def unresolved_occurrence_def Let_def)

lemma sorted_paths:
  assumes "sorted_wrt (<) (map (\<lambda>c. (ci_path c, ci_record_id c)) cs)" "distinct (map ci_path cs)"
  shows "sorted_wrt (<) (map ci_path cs)"
  using assms by (induction cs) (auto simp: less_prod_def')

definition resolved_record :: "structural_occurrence \<Rightarrow> lookup_key \<Rightarrow> ranked \<Rightarrow> resolved_occurrence" where
  "resolved_record occ lookup r =
     \<lparr>ro_occurrence = occ, ro_resolution = Resolved,
      ro_target_record_id = Some (rk_record_id r), ro_target_path = Some (rk_path r),
      ro_ambiguous_paths = [], ro_reason = Some (rk_reason r), ro_selected_lookup = Some lookup,
      ro_candidate_count = rk_candidate_count r, ro_candidate_digest = Some (rk_candidate_digest r),
      ro_alternatives = rk_alternatives r, ro_alternative_candidates = rk_alternative_candidates r\<rparr>"

text \<open>The checks that do not depend on the reason.\<close>

lemma evidence_frame:
  assumes ev: "sound_evidence h dir kind input r" and kind: "lk_kind lookup = kind"
    and reason: "reason_is_proven h source ro (rk_reason r) (rk_path r) (rk_record_id r) lookup"
    and ro: "ro = resolved_record occ lookup r"
  shows "occurrence_evidence_is_valid h source ro"
proof -
  note d = sound_evidenceD [OF ev] and ro = ro [unfolded resolved_record_def]
  have win: "\<lparr>ci_record_id = rk_record_id r, ci_path = rk_path r\<rparr> = winner_of r"
    by (simp add: winner_of_def)
  have valid: "list_all (\<lambda>c. ci_record_id c \<noteq> '''' \<and> is_collection_path (ci_path c))
      (winner_of r # rk_alternative_candidates r)"
    using d(7) canonical_is_collection_path by (auto simp: list_all_iff)
  have "resolved_reason_is_proven h source ro"
    using d(1,2,3,4,5,6,8) valid kind reason unfolding resolved_reason_is_proven_def ro
    by (simp add: win Let_def)
  moreover have "length (rk_alternatives r) \<le> MAX_RESOLUTION_ALTERNATIVES"
    using d(2,3) by (simp add: MAX_RESOLUTION_ALTERNATIVES_def)
  moreover have "sorted_wrt (<) (rk_alternatives r)"
    using d(3,4,5) sorted_paths [of "rk_alternative_candidates r"] by simp
  moreover have "list_all is_collection_path (rk_alternatives r)" "is_collection_path (rk_path r)"
    using d(3) valid by (auto simp: list_all_iff winner_of_def)
  moreover have "rk_path r \<notin> set (rk_alternatives r)"
    using d(3,5) by (simp add: winner_of_def)
  ultimately show ?thesis
    by (simp add: occurrence_evidence_is_valid_def ro Let_def)
qed

text \<open>The reason of a lookup by name.\<close>

lemma name_reason:
  assumes ev: "sound_evidence h (collection_directory source) kind input r" and path: "kind \<noteq> KeyPath"
    and lookup: "lk_kind lookup = kind" "lk_value lookup = rh_lower h (oc_raw_target occ)"
    and eligible: "kind = KeyBasename \<Longrightarrow>
      \<forall>c \<in> set (winner_of r # rk_alternative_candidates r). basename_eligible (oc_raw_target occ) (ci_path c)"
  shows "reason_is_proven h source (resolved_record occ lookup r) (rk_reason r) (rk_path r) (rk_record_id r) lookup"
proof (cases "kind = KeyBasename")
  case True
  note d = sound_evidenceD [OF ev]
  let ?alts = "rk_alternative_candidates r" and ?dir = "collection_directory source"
  have holds: "reason_holds ?dir (winner_of r) ?alts (rk_reason r)" using d(10) True by simp
  have elig: "basename_eligible (oc_raw_target occ) (rk_path r)"
    "list_all (basename_eligible (oc_raw_target occ)) (map ci_path ?alts)"
    using eligible True by (auto simp: winner_of_def list_all_iff)
  have w: "ci_path (winner_of r) = rk_path r" by (simp add: winner_of_def)
  from holds show ?thesis
    using True lookup elig d(1)
    unfolding reason_is_proven_def resolved_record_def d(3) Let_def
    by (cases "rk_reason r")
       (auto simp: w list_all_iff list_ex_iff ranked_key_def)
next
  case False
  note d = sound_evidenceD [OF ev]
  from d(12) False have alts: "rk_alternative_candidates r = []" "single_reason kind = Ok (rk_reason r)"
    by simp_all
  moreover have "rk_record_id r \<noteq> ''''" using d(7) by (simp add: winner_of_def)
  ultimately show ?thesis using False path lookup d(1)
    unfolding reason_is_proven_def resolved_record_def Let_def
    by (cases kind) (auto simp: single_reason_def)
qed

lemma path_reason:
  assumes ev: "sound_evidence h dir KeyPath input r"
    and lookup: "lk_kind lookup = KeyPath" "lk_value lookup = rk_path r"
    and target: "oc_normalized_target occ = Some t" "\<not> simple_wikilink occ"
    and spelled: "rk_path r = t
      \<or> (path_extension t = None \<and> (rk_path r = t @ ''.md'' \<or> rk_path r = t @ ''.mdx''))"
  shows "reason_is_proven h source (resolved_record occ lookup r) (rk_reason r) (rk_path r) (rk_record_id r) lookup"
proof -
  note d = sound_evidenceD [OF ev]
  have "rk_alternative_candidates r = []" "rk_reason r = ExactPath"
    using d(12) by (auto simp: single_reason_def)
  then show ?thesis using d(1) lookup target spelled
    unfolding reason_is_proven_def resolved_record_def Let_def by auto
qed

text \<open>The plan has one lookup for an unresolved occurrence, with its alternatives.\<close>

lemma plan_lookup_unique:
  assumes plan: "plan_record_resolution h col structure = Ok plan"
    and dist: "distinct (map ol_ordinal (rp_lookups plan))"
    and occ: "occ \<in> set (sx_occurrences structure)" "oc_resolution occ = Unresolved"
      "oc_normalized_target occ = Some t"
  shows "\<forall>l \<in> set (rp_lookups plan). ol_ordinal l = oc_ordinal occ \<longrightarrow>
      ol_alternatives l = resolution_lookup_alternatives_for_occurrence h col occ t"
    and "plan_alternatives plan (oc_ordinal occ)
      = resolution_lookup_alternatives_for_occurrence h col occ t"
proof -
  let ?l = "\<lparr>ol_ordinal = oc_ordinal occ,
    ol_alternatives = resolution_lookup_alternatives_for_occurrence h col occ t\<rparr>"
  have "rp_lookups plan = List.map_filter (planned_lookup h col) (sx_occurrences structure)"
    using plan by (auto simp: plan_record_resolution_def Let_def split: if_splits)
  moreover have "planned_lookup h col occ = Some ?l" using occ by (simp add: planned_lookup_def)
  ultimately have mem: "?l \<in> set (rp_lookups plan)"
    using occ(1) by (force simp: List.map_filter_def)
  show uniq: "\<forall>l \<in> set (rp_lookups plan). ol_ordinal l = oc_ordinal occ \<longrightarrow>
      ol_alternatives l = resolution_lookup_alternatives_for_occurrence h col occ t"
  proof (intro ballI impI)
    fix l assume "l \<in> set (rp_lookups plan)" "ol_ordinal l = oc_ordinal occ"
    with mem dist have "l = ?l" by (auto simp: distinct_map inj_on_def)
    then show "ol_alternatives l = resolution_lookup_alternatives_for_occurrence h col occ t" by simp
  qed
  show "plan_alternatives plan (oc_ordinal occ) = resolution_lookup_alternatives_for_occurrence h col occ t"
  proof (cases "List.find (\<lambda>l. ol_ordinal l = oc_ordinal occ) (rp_lookups plan)")
    case None
    with mem show ?thesis by (auto simp: find_None_iff)
  next
    case (Some l)
    then have "l \<in> set (rp_lookups plan)" "ol_ordinal l = oc_ordinal occ" by (auto simp: find_Some_iff)
    with uniq Some show ?thesis by (simp add: plan_alternatives_def)
  qed
qed

text \<open>The rows of a group are candidates the plan asked for.\<close>

lemma group_row:
  assumes group: "group_candidates
      (foldl (\<lambda>m l. bt_insert (ol_ordinal l) (ol_alternatives l) m) [] (rp_lookups plan)) candidates [] = Ok g"
    and row: "bt_get g ordinal = Some ((priority, matches) # others)" "(rid, path) \<in> set (bt_keys matches)"
  shows "\<exists>c \<in> set candidates. rc_ordinal c = ordinal \<and> lk_priority (rc_lookup c) = priority
    \<and> rc_record_id c = rid \<and> rc_path c = path
    \<and> (\<exists>l \<in> set (rp_lookups plan). ol_ordinal l = ordinal \<and> rc_lookup c \<in> set (ol_alternatives l))"
proof -
  have "in_group g ordinal priority rid path"
    using row by (auto simp: in_group_def set_bt_keys)
  from group_candidates_sound [OF group this] show ?thesis
    by (force simp: in_group_def dest: foldl_insert_get)
qed

lemma occurrence_evidence:
  assumes plain: "plain_structure h structure" and exact: "exact_rows structure candidates"
    and exts: "set (st_extensions (col_settings col)) \<subseteq> {''md'', ''mdx''}"
    and plan: "plan_record_resolution h col structure = Ok plan"
    and dist: "distinct (map ol_ordinal (rp_lookups plan))"
    and group: "group_candidates
      (foldl (\<lambda>m l. bt_insert (ol_ordinal l) (ol_alternatives l) m) [] (rp_lookups plan)) candidates [] = Ok g"
    and occ: "occ \<in> set (sx_occurrences structure)" "oc_resolution occ = Unresolved"
    and found: "bt_get g (oc_ordinal occ) = Some ((priority, matches) # others)"
      "List.find (\<lambda>a. lk_priority a = priority) (plan_alternatives plan (oc_ordinal occ)) = Some selected"
    and select: "select_resolution_candidate h (sx_path structure) (lk_kind selected)
      (map (\<lambda>(rid, path). \<lparr>ci_record_id = rid, ci_path = path\<rparr>) (bt_keys matches)) = Ok (RankedResolved r)"
  shows "occurrence_evidence_is_valid h (sx_path structure)
    (resolved_record occ (evidence_lookup plan (oc_ordinal occ) priority selected (RankedResolved r)) r)"
proof -
  let ?ord = "oc_ordinal occ" and ?raw = "oc_raw_target occ"
  obtain t where t: "oc_normalized_target occ = Some t" "rh_lower h t = rh_lower h ?raw"
    using plain occ by (auto simp: plain_structure_def)
  define A where "A = resolution_lookup_alternatives_for_occurrence h col occ t"
  note uniq = plan_lookup_unique [OF plan dist occ t(1), folded A_def]
  have sel: "selected \<in> set A" "lk_priority selected = priority"
    using found(2) uniq(2) by (auto simp: find_Some_iff)
  have canon: "canonical_path (sx_path structure)" using plain by (simp add: plain_structure_def)
  let ?rows = "map (\<lambda>(rid, path). \<lparr>ci_record_id = rid, ci_path = path\<rparr>) (bt_keys matches)"
  have ev: "sound_evidence h (collection_directory (sx_path structure)) (lk_kind selected) ?rows r"
    by (rule select_evidence [OF select canon])
  have rows: "\<exists>c \<in> set candidates. rc_path c = ci_path e \<and> rc_ordinal c = ?ord
      \<and> lk_priority (rc_lookup c) = priority \<and> rc_lookup c \<in> set A \<and> lk_kind (rc_lookup c) = lk_kind selected"
    if e: "e \<in> set (winner_of r # rk_alternative_candidates r)" for e
  proof -
    have "(ci_path e, ci_record_id e) \<in> {x. \<exists>row \<in> set ?rows. canonical_entry row = Some x}"
      unfolding sound_evidenceD(9) [OF ev, symmetric] using e by blast
    then obtain rid path where row: "(rid, path) \<in> set (bt_keys matches)"
      and entry: "canonical_entry \<lparr>ci_record_id = rid, ci_path = path\<rparr> = Some (ci_path e, ci_record_id e)"
      by auto
    from group_row [OF group found(1) row] obtain c l where c: "c \<in> set candidates" "rc_ordinal c = ?ord"
      "lk_priority (rc_lookup c) = priority" "rc_path c = path"
      and l: "l \<in> set (rp_lookups plan)" "ol_ordinal l = ?ord" "rc_lookup c \<in> set (ol_alternatives l)"
      by blast
    have "canonical_path path" using exact c by (auto simp: exact_rows_def)
    with entry have "ci_path e = path" by (simp add: canonical_entry_def canonical_path_def)
    moreover have A: "rc_lookup c \<in> set A" using uniq(1) l by auto
    moreover have "lk_kind (rc_lookup c) = lk_kind selected"
      using priority_determines_kind [OF A [unfolded A_def] sel(1) [unfolded A_def]] c(3) sel(2) by simp
    ultimately show ?thesis using c by auto
  qed
  let ?l = "evidence_lookup plan ?ord priority selected (RankedResolved r)"
  show ?thesis
  proof (cases "lk_kind selected = KeyPath")
    case False
    have "lk_kind a \<noteq> KeyPath" if "a \<in> set A" "lk_priority a = priority" for a
      using priority_determines_kind [OF that(1) [unfolded A_def] sel(1) [unfolded A_def]] that(2) sel(2) False
      by simp
    then have "List.find (\<lambda>a. lk_priority a = priority \<and> lk_kind a = KeyPath \<and> lk_value a = rk_path r) A = None"
      by (auto simp: find_None_iff)
    then have l: "?l = selected" by (simp add: evidence_lookup_def uniq(2))
    have "lk_value selected = rh_lower h ?raw"
      using sel(1) [unfolded A_def] t(2) False by (cases rule: alternatives_cases) simp_all
    moreover have "\<forall>e \<in> set (winner_of r # rk_alternative_candidates r). basename_eligible ?raw (ci_path e)"
      if "lk_kind selected = KeyBasename"
    proof
      fix e assume "e \<in> set (winner_of r # rk_alternative_candidates r)"
      from rows [OF this] that exact occ(1) show "basename_eligible ?raw (ci_path e)"
        by (auto simp: exact_rows_def)
    qed
    ultimately have "reason_is_proven h (sx_path structure) (resolved_record occ selected r)
        (rk_reason r) (rk_path r) (rk_record_id r) selected"
      by (intro name_reason [OF ev False]) simp_all
    with l show ?thesis by (auto intro: evidence_frame [OF ev refl])
  next
    case True
    obtain c where c: "c \<in> set candidates" "rc_path c = rk_path r" "rc_lookup c \<in> set A"
      "lk_priority (rc_lookup c) = priority" "lk_kind (rc_lookup c) = KeyPath"
      using rows [of "winner_of r"] True by (auto simp: winner_of_def)
    then have "lk_value (rc_lookup c) = rk_path r" using exact by (auto simp: exact_rows_def)
    with c have "List.find (\<lambda>a. lk_priority a = priority \<and> lk_kind a = KeyPath \<and> lk_value a = rk_path r) A \<noteq> None"
      by (auto simp: find_None_iff)
    then obtain a where a: "List.find (\<lambda>a. lk_priority a = priority \<and> lk_kind a = KeyPath \<and> lk_value a = rk_path r) A = Some a"
      by blast
    then have l: "?l = a" by (simp add: evidence_lookup_def uniq(2))
    have mem: "a \<in> set A" "lk_kind a = KeyPath" "lk_value a = rk_path r"
      using a by (auto simp: find_Some_iff)
    have "\<not> simple_wikilink occ \<and> (rk_path r = t
      \<or> (path_extension t = None \<and> (rk_path r = t @ ''.md'' \<or> rk_path r = t @ ''.mdx'')))"
      using mem(1) [unfolded A_def] mem(2,3) exts
      by (cases rule: alternatives_cases) (auto simp: record_extensions_def)
    with path_reason [OF ev [unfolded True] mem(2,3) t(1)] l mem(2) True show ?thesis
      by (auto intro: evidence_frame [OF ev])
  qed
qed

text \<open>An occurrence that was to be resolved either stays open or gets the record of a winner.\<close>

lemma resolve_occurrence_cases:
  assumes "resolve_occurrence h structure plan grouped occ = Ok ro" "oc_resolution occ = Unresolved"
  obtains (open_end) resolution paths where "resolution \<noteq> Resolved"
      "ro = unresolved_occurrence occ resolution paths"
    | (winner) priority matches rest selected r where
      "bt_get grouped (oc_ordinal occ) = Some ((priority, matches) # rest)"
      "List.find (\<lambda>a. lk_priority a = priority) (plan_alternatives plan (oc_ordinal occ)) = Some selected"
      "select_resolution_candidate h (sx_path structure) (lk_kind selected)
        (map (\<lambda>(rid, path). \<lparr>ci_record_id = rid, ci_path = path\<rparr>) (bt_keys matches)) = Ok (RankedResolved r)"
      "ro = resolved_record occ (evidence_lookup plan (oc_ordinal occ) priority selected (RankedResolved r)) r"
proof (cases "bt_get grouped (oc_ordinal occ)")
  case None
  then show ?thesis using assms by (intro open_end [of Missing "[]"]) (auto simp: resolve_occurrence_def)
next
  case (Some groups)
  show ?thesis
  proof (cases groups)
    case Nil
    then show ?thesis using assms Some by (intro open_end [of Missing "[]"]) (auto simp: resolve_occurrence_def)
  next
    case (Cons pm rest)
    obtain priority matches where pm: "pm = (priority, matches)" by (cases pm)
    note some = Some [unfolded Cons pm]
    from assms some obtain selected where
      sel: "List.find (\<lambda>a. lk_priority a = priority) (plan_alternatives plan (oc_ordinal occ)) = Some selected"
      by (auto simp: resolve_occurrence_def split: option.splits)
    from assms some sel obtain resolution where
      pick: "select_resolution_candidate h (sx_path structure) (lk_kind selected)
        (map (\<lambda>(rid, path). \<lparr>ci_record_id = rid, ci_path = path\<rparr>) (bt_keys matches)) = Ok resolution"
      by (auto simp: resolve_occurrence_def)
    note ro = assms [unfolded resolve_occurrence_def]
    show ?thesis
    proof (cases resolution)
      case RankedMissing
      then show ?thesis using ro some sel pick by (intro open_end [of Missing "[]"]) auto
    next
      case (RankedAmbiguous paths)
      then show ?thesis using ro some sel pick by (intro open_end [of Ambiguous paths]) auto
    next
      case (RankedResolved r)
      then show ?thesis using ro some sel pick by (intro winner [OF some sel]) (auto simp: resolved_record_def)
    qed
  qed
qed

text \<open>What a successful resolution has checked and done.\<close>

lemma resolve_record_structureE:
  assumes "resolve_record_structure h structure plan candidates = Ok resolved"
  obtains g occs where "distinct (map ol_ordinal (rp_lookups plan))"
    and "group_candidates
      (foldl (\<lambda>m l. bt_insert (ol_ordinal l) (ol_alternatives l) m) [] (rp_lookups plan)) candidates [] = Ok g"
    and "map_res (resolve_occurrence h structure plan g) (sx_occurrences structure) = Ok occs"
    and "rx_path resolved = sx_path structure" "rx_occurrences resolved = occs"
  using assms by (auto simp: resolve_record_structure_def Let_def split: if_splits)

text \<open>
  C35: The evidence of a resolution is accepted by its own validator. Resolving a plain structure under
  its plan against exact rows, with the record extensions the validator knows, yields a structure
  whose every occurrence passes \<open>resolution_evidence_is_valid\<close>: candidate count, order, digest
  and the reason for the winner.
\<close>

theorem resolved_evidence_is_valid:
  assumes "plain_structure h structure" and "exact_rows structure candidates"
    and "set (st_extensions (col_settings col)) \<subseteq> {''md'', ''mdx''}"
    and "plan_record_resolution h col structure = Ok plan"
    and "resolve_record_structure h structure plan candidates = Ok resolved"
  shows "resolution_evidence_is_valid h resolved"
proof -
  from assms(5) obtain g occs where
    dist: "distinct (map ol_ordinal (rp_lookups plan))" and
    group: "group_candidates
      (foldl (\<lambda>m l. bt_insert (ol_ordinal l) (ol_alternatives l) m) [] (rp_lookups plan)) candidates [] = Ok g" and
    occs: "map_res (resolve_occurrence h structure plan g) (sx_occurrences structure) = Ok occs" and
    resolved: "rx_path resolved = sx_path structure" "rx_occurrences resolved = occs"
    by (rule resolve_record_structureE)
  have "occurrence_evidence_is_valid h (sx_path structure) ro" if "ro \<in> set occs" for ro
  proof -
    from map_res_Ok_set [OF occs that] obtain occ where occ: "occ \<in> set (sx_occurrences structure)"
      and ro: "resolve_occurrence h structure plan g occ = Ok ro" by blast
    show ?thesis
    proof (cases "oc_resolution occ = Unresolved")
      case False
      moreover have "oc_resolution occ \<noteq> Resolved" using assms(1) occ by (auto simp: plain_structure_def)
      ultimately show ?thesis using ro unresolved_evidence by (auto simp: resolve_occurrence_def)
    next
      case True
      from ro True show ?thesis
      proof (cases rule: resolve_occurrence_cases)
        case (open_end resolution paths)
        then show ?thesis by (simp add: unresolved_evidence)
      next
        case (winner priority matches rest selected r)
        then show ?thesis
          using occurrence_evidence [OF assms(1-4) dist group occ True] by simp
      qed
    qed
  qed
  then show ?thesis by (simp add: resolution_evidence_is_valid_def resolved list_all_iff)
qed

theorem resolved_evidence_is_valid_witness:
  "\<exists>resolved.
     resolve_record_structure ex_host (ex_structure ''[[goals]]'') (ex_plan ''[[goals]]'') ex_candidates = Ok resolved
     \<and> map ro_target_path (rx_occurrences resolved) = [Some ''notes/goals.md'']
     \<and> resolution_evidence_is_valid ex_host resolved"
proof -
  have simple: "simple_wikilink (ex_occurrence ''[[goals]]'' ''goals'' None)" by code_simp
  have plain: "plain_structure ex_host (ex_structure ''[[goals]]'')"
    using ex_paths_canonical
    by (simp add: plain_structure_def ex_structure_plain ex_structure_fields) (simp add: ex_occurrence_def)
  have eligible: "\<forall>c \<in> set ex_candidates. basename_eligible ''goals'' (rc_path c)" by code_simp
  have exact: "exact_rows (ex_structure ''[[goals]]'') ex_candidates"
    using eligible ex_paths_canonical
    by (auto simp: exact_rows_def ex_structure_plain ex_occurrence_def ex_candidates_def ex_rows_def)
  have exts: "set (st_extensions (col_settings ex_collection)) \<subseteq> {''md'', ''mdx''}"
    by (simp add: ex_collection_def)
  note plan = ex_planned [OF ex_structure_plain simple]
  from ex_resolves [OF ex_structure_plain] obtain resolved where
    r: "resolve_record_structure ex_host (ex_structure ''[[goals]]'') (ex_plan ''[[goals]]'') ex_candidates = Ok resolved"
    and occs: "rx_occurrences resolved = [ex_resolved_occurrence (ex_occurrence ''[[goals]]'' ''goals'' None)]"
    by blast
  from resolved_evidence_is_valid [OF plain exact exts plan r] r occs show ?thesis
    by (auto simp: ex_resolved_occurrence_def)
qed

lemma evidence_lookup_planned:
  assumes "List.find (\<lambda>a. lk_priority a = priority) (plan_alternatives plan ordinal) = Some selected"
  shows "evidence_lookup plan ordinal priority selected resolution \<in> set (plan_alternatives plan ordinal)"
  using assms
  by (auto simp: evidence_lookup_def find_Some_iff in_set_conv_nth
        split: ranked_resolution.splits option.splits)

text \<open>
  C36: The validator rejects genuine evidence of anchored links. When an occurrence was resolved by name
  (id, basename or title) and the key of its target is not the key of its raw target, as in
  \<open>[[goals#q]]\<close>, whose raw target keeps the anchor, the structure that
  \<open>resolve_record_structure\<close> returned does not pass \<open>resolution_evidence_is_valid\<close>.
\<close>

theorem anchored_link_evidence_rejected:
  assumes plan: "plan_record_resolution h col structure = Ok plan"
    and resolve: "resolve_record_structure h structure plan candidates = Ok resolved"
    and ro: "ro \<in> set (rx_occurrences resolved)" "ro_resolution ro = Resolved"
    and lookup: "ro_selected_lookup ro = Some l" "lk_kind l \<noteq> KeyPath"
    and target: "oc_normalized_target (ro_occurrence ro) = Some t"
      "rh_lower h t \<noteq> rh_lower h (oc_raw_target (ro_occurrence ro))"
  shows "\<not> resolution_evidence_is_valid h resolved"
proof -
  from resolve obtain g where dist: "distinct (map ol_ordinal (rp_lookups plan))"
    and occs: "map_res (resolve_occurrence h structure plan g) (sx_occurrences structure) = Ok (rx_occurrences resolved)"
    by (metis resolve_record_structureE)
  from map_res_Ok_set [OF occs ro(1)] obtain occ where occ: "occ \<in> set (sx_occurrences structure)"
    and step: "resolve_occurrence h structure plan g occ = Ok ro" by blast
  have unresolved: "oc_resolution occ = Unresolved"
    using step lookup(1) by (auto simp: resolve_occurrence_def unresolved_occurrence_def split: if_splits)
  from step unresolved have "ro_occurrence ro = occ \<and> l \<in> set (plan_alternatives plan (oc_ordinal occ))"
  proof (cases rule: resolve_occurrence_cases)
    case (open_end resolution paths)
    then show ?thesis using ro(2) by (simp add: unresolved_occurrence_def)
  next
    case (winner priority matches rest selected r)
    then show ?thesis using lookup(1) evidence_lookup_planned [OF winner(2)]
      by (auto simp: resolved_record_def)
  qed
  then have is_occ: "ro_occurrence ro = occ"
    and "l \<in> set (resolution_lookup_alternatives_for_occurrence h col occ t)"
    using plan_lookup_unique(2) [OF plan dist occ unresolved] target(1) by auto
  from this(2) have "lk_value l = rh_lower h t"
    using lookup(2) by (cases rule: alternatives_cases) simp_all
  then have "\<not> resolved_reason_is_proven h (rx_path resolved) ro"
    using lookup target(2)
    by (auto simp: resolved_reason_is_proven_def reason_is_proven_def Let_def
          split: option.splits resolution_reason.splits)
  then show ?thesis
    using ro by (auto simp: resolution_evidence_is_valid_def list_all_iff occurrence_evidence_is_valid_def Let_def)
qed

theorem anchored_link_evidence_rejected_witness:
  "\<exists>resolved.
     resolve_record_structure ex_host (ex_structure ''[[goals#q]]'') (ex_plan ''[[goals#q]]'') ex_candidates
       = Ok resolved
     \<and> map ro_target_path (rx_occurrences resolved) = [Some ''notes/goals.md'']
     \<and> \<not> resolution_evidence_is_valid ex_host resolved"
proof -
  let ?occ = "ex_occurrence ''[[goals#q]]'' ''goals#q'' (Some ''q'')"
  have simple: "simple_wikilink ?occ" by code_simp
  have keys: "rh_lower ex_host ''goals'' \<noteq> rh_lower ex_host ''goals#q''" by code_simp
  from ex_resolves [OF ex_structure_anchored] obtain resolved where
    r: "resolve_record_structure ex_host (ex_structure ''[[goals#q]]'') (ex_plan ''[[goals#q]]'') ex_candidates
      = Ok resolved"
    and occs: "rx_occurrences resolved = [ex_resolved_occurrence ?occ]"
    by blast
  have "\<not> resolution_evidence_is_valid ex_host resolved"
    by (rule anchored_link_evidence_rejected [OF ex_planned [OF ex_structure_anchored simple] r,
          where ro = "ex_resolved_occurrence ?occ" and t = "''goals''"
            and l = "\<lparr>lk_priority = 1, lk_kind = KeyBasename, lk_value = ''goals''\<rparr>"])
       (use occs keys in \<open>simp_all add: ex_resolved_occurrence_def ex_occurrence_def\<close>)
  with r occs show ?thesis by (auto simp: ex_resolved_occurrence_def)
qed

end
