(* ===== verification/Operation_Context.thy ===== *)
theory Operation_Context
  imports Collection_Path
begin

text \<open>
  What every call of the collection runtime carries: the errors of \<open>runtime/mod.rs\<close>, the cooperative
  cancellation of \<open>cancellation.rs\<close> and the deadline and capture budgets of
  \<open>runtime/context.rs\<close>. Clones of a token share one flag, so a token names its flag in a store of
  flags; a monotonic instant is a number of nanoseconds. Counters are 64-bit words.
\<close>

type_synonym u64 = "64 word"

definition checked_succ :: "u64 \<Rightarrow> u64 option" where
  "checked_succ w = (if w = - 1 then None else Some (w + 1))"

definition checked_add :: "u64 \<Rightarrow> u64 \<Rightarrow> u64 option" where
  "checked_add a b = (if unat a + unat b < 2 ^ 64 then Some (a + b) else None)"

definition saturating_succ :: "u64 \<Rightarrow> u64" where
  "saturating_succ w = (if w = - 1 then w else w + 1)"

lemma unat_max: "unat (- 1 :: u64) = 2 ^ 64 - 1"
  by (simp add: unsigned_minus_1_eq_mask mask_eq_exp_minus_1)

lemma unat_bound: "unat (w :: u64) < 2 ^ 64"
  using unsigned_less [of w, where ?'a = nat] by simp

lemma unat_add_exact: "unat (a :: u64) + unat b < 2 ^ 64 \<Longrightarrow> unat (a + b) = unat a + unat b"
  by (simp add: unat_word_ariths)

lemma unat_succ:
  assumes "w \<noteq> (- 1 :: u64)"
  shows "unat (w + 1) = unat w + 1"
proof -
  have "unat w \<noteq> unat (- 1 :: u64)" using assms by (simp add: word_unat_eq_iff)
  then have "unat w + unat (1 :: u64) < 2 ^ 64" using unat_bound [of w] unat_max by simp
  from unat_add_exact [OF this] show ?thesis by simp
qed

lemma checked_succ_eq_Some: "checked_succ w = Some v \<longleftrightarrow> w \<noteq> - 1 \<and> v = w + 1"
  by (auto simp: checked_succ_def)

lemma checked_add_eq_Some:
  "checked_add a b = Some c \<longleftrightarrow> c = a + b \<and> unat c = unat a + unat b"
proof -
  have "checked_add a b = Some c \<longleftrightarrow> unat a + unat b < 2 ^ 64 \<and> c = a + b"
    by (auto simp: checked_add_def)
  then show ?thesis using unat_add_exact [of a b] unat_bound [of c] by auto
qed

section \<open>Errors\<close>

datatype capture_limit_kind =
  LimitEntries | LimitFileBytes | LimitAggregateBytes | LimitDepth | LimitResourceEntries
  | LimitRetainedBytes | LimitArithmeticOverflow

record capture_limit_exceeded =
  cl_kind :: capture_limit_kind
  cl_limit :: u64
  cl_attempted :: u64

datatype watch_error =
  WatchCollection string | WatchNotify string | WatchStopped | WatchRescanBackpressure
  | WatchRevisionExhausted

datatype provider_error =
    CollectionOpen string
  | UnsupportedOperation string
  | LockPoisoned
  | OperationCancelled
  | OperationDeadline
  | CaptureLimitExceeded capture_limit_exceeded
  | GenerationExhausted
  | WatermarkExhausted
  | InvalidChangeSet string
  | InvalidChangePage
  | ClaimMismatch
  | RuntimeCapacityExhausted
  | TransactionFailed string string
  | ChangeFeedOwned
  | ChangeFeedFenced
  | InvalidChangeFeedAck
  | ChangeFeedRetentionGap
  | ChangeFeedTransferMismatch
  | ChangeFeedCapacityExhausted
  | CursorCapacityExhausted
  | GenerationExpired
  | InvalidReadCursor
  | WatchFailed watch_error

fun provider_error_code :: "provider_error \<Rightarrow> string" where
  "provider_error_code (CollectionOpen _) = ''collection_open_failed''"
| "provider_error_code (UnsupportedOperation _) = ''unsupported_operation''"
| "provider_error_code LockPoisoned = ''operation_lock_unavailable''"
| "provider_error_code OperationCancelled = ''operation_cancelled''"
| "provider_error_code OperationDeadline = ''operation_deadline''"
| "provider_error_code (CaptureLimitExceeded _) = ''capture_limit_exceeded''"
| "provider_error_code GenerationExhausted = ''generation_exhausted''"
| "provider_error_code WatermarkExhausted = ''change_watermark_exhausted''"
| "provider_error_code (InvalidChangeSet _) = ''invalid_change_set''"
| "provider_error_code InvalidChangePage = ''invalid_change_page''"
| "provider_error_code ClaimMismatch = ''claim_mismatch''"
| "provider_error_code RuntimeCapacityExhausted = ''runtime_capacity_exhausted''"
| "provider_error_code (TransactionFailed code _) = code"
| "provider_error_code ChangeFeedOwned = ''change_feed_owned''"
| "provider_error_code ChangeFeedFenced = ''change_feed_fenced''"
| "provider_error_code InvalidChangeFeedAck = ''invalid_change_feed_ack''"
| "provider_error_code ChangeFeedRetentionGap = ''change_feed_retention_gap''"
| "provider_error_code ChangeFeedTransferMismatch = ''change_feed_transfer_mismatch''"
| "provider_error_code ChangeFeedCapacityExhausted = ''change_feed_capacity_exhausted''"
| "provider_error_code CursorCapacityExhausted = ''cursor_capacity_exhausted''"
| "provider_error_code GenerationExpired = ''generation_expired''"
| "provider_error_code InvalidReadCursor = ''invalid_read_cursor''"
| "provider_error_code (WatchFailed _) = ''watch_failed''"

section \<open>Cancellation\<close>

datatype stop_reason = StopCancelled | StopDeadline

record operation_cancellation =
  can_flag :: nat
  can_deadline :: "nat option"

type_synonym flag_store = "nat \<Rightarrow> bool"

definition new_cancellation :: "nat \<Rightarrow> operation_cancellation" where
  "new_cancellation flag = \<lparr>can_flag = flag, can_deadline = None\<rparr>"

definition cancel :: "operation_cancellation \<Rightarrow> flag_store \<Rightarrow> flag_store" where
  "cancel token flags = flags(can_flag token := True)"

definition with_deadline :: "nat \<Rightarrow> operation_cancellation \<Rightarrow> operation_cancellation" where
  "with_deadline deadline token =
     \<lparr>can_flag = can_flag token,
      can_deadline = Some (case can_deadline token of None \<Rightarrow> deadline | Some current \<Rightarrow> min current deadline)\<rparr>"

definition is_cancelled :: "flag_store \<Rightarrow> operation_cancellation \<Rightarrow> bool" where
  "is_cancelled flags token = flags (can_flag token)"

definition stop_reason_of :: "flag_store \<Rightarrow> nat \<Rightarrow> operation_cancellation \<Rightarrow> stop_reason option" where
  "stop_reason_of flags now token =
     (if is_cancelled flags token then Some StopCancelled
      else if (case can_deadline token of Some deadline \<Rightarrow> deadline \<le> now | None \<Rightarrow> False)
        then Some StopDeadline
      else None)"

definition cancellation_check :: "flag_store \<Rightarrow> nat \<Rightarrow> operation_cancellation \<Rightarrow> (unit, unit) res" where
  "cancellation_check flags now token =
     (if stop_reason_of flags now token \<noteq> None then Err () else Ok ())"

section \<open>Contexts\<close>

record capture_limits =
  max_entries :: u64
  max_file_bytes :: u64
  max_aggregate_bytes :: u64
  max_depth :: u64
  max_resource_entries :: u64
  max_retained_bytes :: u64

definition default_capture_limits :: capture_limits where
  "default_capture_limits =
     \<lparr>max_entries = 100000,
      max_file_bytes = 64 * 1024 * 1024,
      max_aggregate_bytes = 4 * 1024 * 1024 * 1024,
      max_depth = 128,
      max_resource_entries = 10000,
      max_retained_bytes = 4 * 1024 * 1024 * 1024\<rparr>"

record capture_usage =
  us_aggregate :: u64
  us_retained :: u64
  us_exceeded :: "capture_limit_exceeded option"

record operation_context =
  cx_cancellation :: operation_cancellation
  cx_deadline :: nat
  cx_limits :: capture_limits

definition with_capture_limits ::
  "operation_cancellation \<Rightarrow> nat \<Rightarrow> capture_limits \<Rightarrow> operation_context \<times> capture_usage" where
  "with_capture_limits token deadline limits =
     (\<lparr>cx_cancellation = with_deadline deadline token, cx_deadline = deadline, cx_limits = limits\<rparr>,
      \<lparr>us_aggregate = 0, us_retained = 0, us_exceeded = None\<rparr>)"

definition context_new :: "operation_cancellation \<Rightarrow> nat \<Rightarrow> operation_context \<times> capture_usage" where
  "context_new token deadline = with_capture_limits token deadline default_capture_limits"

definition context_check :: "flag_store \<Rightarrow> nat \<Rightarrow> operation_context \<Rightarrow> (provider_error, unit) res" where
  "context_check flags now cx =
     (case stop_reason_of flags now (cx_cancellation cx) of
        Some StopCancelled \<Rightarrow> Err OperationCancelled
      | Some StopDeadline \<Rightarrow> Err OperationDeadline
      | None \<Rightarrow> Ok ())"

definition CANCELLATION_POLL :: nat where "CANCELLATION_POLL = 10000000"

definition next_wait :: "flag_store \<Rightarrow> nat \<Rightarrow> operation_context \<Rightarrow> (provider_error, nat) res" where
  "next_wait flags now cx =
     bind_res (context_check flags now cx) (\<lambda>_. Ok (min (cx_deadline cx - now) CANCELLATION_POLL))"

definition limit_error :: "capture_limit_kind \<Rightarrow> u64 \<Rightarrow> u64 \<Rightarrow> provider_error" where
  "limit_error kind limit attempted =
     CaptureLimitExceeded \<lparr>cl_kind = kind, cl_limit = limit, cl_attempted = attempted\<rparr>"

definition check_limit :: "u64 \<Rightarrow> u64 \<Rightarrow> capture_limit_kind \<Rightarrow> (provider_error, unit) res" where
  "check_limit attempted maximum kind =
     (if maximum < attempted then Err (limit_error kind maximum attempted) else Ok ())"

text \<open>
  The compare-and-exchange loop of \<open>charge\<close>. The list holds the values that failing exchanges
  report, in order (another thread was faster, or the exchange failed spuriously); then the
  exchange succeeds. \<open>Ok\<close> carries the value read by the exchange and the one it stores.
\<close>

fun charge_from ::
  "u64 \<Rightarrow> u64 \<Rightarrow> capture_limit_kind \<Rightarrow> u64 \<Rightarrow> u64 list \<Rightarrow> (provider_error, u64 \<times> u64) res" where
  "charge_from amount maximum kind current failures =
     (case checked_add current amount of
        None \<Rightarrow> Err (limit_error LimitArithmeticOverflow (- 1) (- 1))
      | Some attempted \<Rightarrow>
          if maximum < attempted then Err (limit_error kind maximum attempted)
          else
            (case failures of
               [] \<Rightarrow> Ok (current, attempted)
             | actual # rest \<Rightarrow> charge_from amount maximum kind actual rest))"

declare charge_from.simps [simp del]

text \<open>A charge that no other thread interferes with.\<close>

definition charge :: "u64 \<Rightarrow> u64 \<Rightarrow> capture_limit_kind \<Rightarrow> u64 \<Rightarrow> (provider_error, u64) res" where
  "charge amount maximum kind counter =
     bind_res (charge_from amount maximum kind counter []) (\<lambda>(_, stored). Ok stored)"

text \<open>\<open>record_limit\<close>: the first budget violation of the operation is remembered.\<close>

definition record_limit :: "(provider_error, 'a) res \<Rightarrow> capture_usage \<Rightarrow> capture_usage" where
  "record_limit result usage =
     (case result of
        Err (CaptureLimitExceeded e) \<Rightarrow>
          (case us_exceeded usage of None \<Rightarrow> usage\<lparr>us_exceeded := Some e\<rparr> | Some _ \<Rightarrow> usage)
      | _ \<Rightarrow> usage)"

definition check_recorded ::
  "u64 \<Rightarrow> u64 \<Rightarrow> capture_limit_kind \<Rightarrow> capture_usage \<Rightarrow> capture_usage \<times> (provider_error, unit) res" where
  "check_recorded attempted maximum kind usage =
     (let result = check_limit attempted maximum kind in (record_limit result usage, result))"

definition check_depth :: "operation_context \<Rightarrow> u64 \<Rightarrow> capture_usage \<Rightarrow> capture_usage \<times> (provider_error, unit) res" where
  "check_depth cx depth = check_recorded depth (max_depth (cx_limits cx)) LimitDepth"

definition check_file_bytes ::
  "operation_context \<Rightarrow> u64 \<Rightarrow> capture_usage \<Rightarrow> capture_usage \<times> (provider_error, unit) res" where
  "check_file_bytes cx bytes = check_recorded bytes (max_file_bytes (cx_limits cx)) LimitFileBytes"

definition check_entries ::
  "operation_context \<Rightarrow> u64 \<Rightarrow> capture_usage \<Rightarrow> capture_usage \<times> (provider_error, unit) res" where
  "check_entries cx entries = check_recorded entries (max_entries (cx_limits cx)) LimitEntries"

definition check_resource_entries ::
  "operation_context \<Rightarrow> u64 \<Rightarrow> capture_usage \<Rightarrow> capture_usage \<times> (provider_error, unit) res" where
  "check_resource_entries cx entries =
     check_recorded entries (max_resource_entries (cx_limits cx)) LimitResourceEntries"

definition charge_read ::
  "operation_context \<Rightarrow> u64 \<Rightarrow> capture_usage \<Rightarrow> capture_usage \<times> (provider_error, unit) res" where
  "charge_read cx bytes usage =
     (case charge bytes (max_aggregate_bytes (cx_limits cx)) LimitAggregateBytes (us_aggregate usage) of
        Ok stored \<Rightarrow> (usage\<lparr>us_aggregate := stored\<rparr>, Ok ())
      | Err e \<Rightarrow> (record_limit (Err e :: (provider_error, unit) res) usage, Err e)
      | Panic \<Rightarrow> (usage, Panic))"

definition charge_retained ::
  "operation_context \<Rightarrow> u64 \<Rightarrow> capture_usage \<Rightarrow> capture_usage \<times> (provider_error, unit) res" where
  "charge_retained cx bytes usage =
     (case charge bytes (max_retained_bytes (cx_limits cx)) LimitRetainedBytes (us_retained usage) of
        Ok stored \<Rightarrow> (usage\<lparr>us_retained := stored\<rparr>, Ok ())
      | Err e \<Rightarrow> (record_limit (Err e :: (provider_error, unit) res) usage, Err e)
      | Panic \<Rightarrow> (usage, Panic))"

definition capture_limit_error :: "capture_usage \<Rightarrow> provider_error option" where
  "capture_limit_error usage = map_option CaptureLimitExceeded (us_exceeded usage)"

section \<open>Lemmas\<close>

lemma stop_reason_shared:
  "stop_reason_of (cancel root flags) now (with_deadline d root) = Some StopCancelled"
  by (simp add: stop_reason_of_def is_cancelled_def cancel_def with_deadline_def)

lemma deadline_never_extended:
  assumes "stop_reason_of flags now token = Some r"
  shows "stop_reason_of flags now (with_deadline d token) = Some r"
  using assms
  by (auto simp: stop_reason_of_def is_cancelled_def with_deadline_def split: if_splits option.splits)

lemma charge_Ok:
  "charge amount maximum kind counter = Ok stored \<longleftrightarrow>
     stored = counter + amount \<and> unat stored = unat counter + unat amount \<and> stored \<le> maximum"
proof -
  have "charge amount maximum kind counter = Ok stored \<longleftrightarrow>
      checked_add counter amount = Some stored \<and> stored \<le> maximum"
    by (auto simp: charge_def charge_from.simps split: option.splits if_splits)
  then show ?thesis by (simp add: checked_add_eq_Some)
qed

lemma charge_not_Panic: "charge amount maximum kind counter \<noteq> Panic"
  by (auto simp: charge_def charge_from.simps bind_res_eq_Panic split: option.splits if_splits)

text \<open>Under interference a granted charge is one at the value the exchange read.\<close>

lemma charge_from_Ok:
  "charge_from amount maximum kind current failures = Ok (at, stored) \<Longrightarrow>
     at \<in> set (current # failures) \<and> charge amount maximum kind at = Ok stored"
proof (induction failures arbitrary: current)
  case Nil
  then show ?case
    by (auto simp: charge_from.simps [of _ _ _ _ "[]"] charge_def split: option.splits if_splits)
next
  case (Cons actual rest)
  then have "charge_from amount maximum kind actual rest = Ok (at, stored)"
    by (auto simp: charge_from.simps [of _ _ _ _ "actual # rest"] split: option.splits if_splits)
  from Cons.IH [OF this] show ?case by auto
qed

end
