(* ===== verification/Change_Sets.thy ===== *)
theory Change_Sets
  imports Operation_Context "HOL-Library.Option_ord" "HOL-Library.Multiset"
begin

text \<open>
  Generations, watermarks and canonical changes, \<open>runtime/outcome.rs\<close>: the normalised effects of
  one observation, the immutable batch they form and its pages. A \<open>BTreeSet<String>\<close> is its
  ascending list. Canonical JSON and SHA-256 are parameters.
\<close>

section \<open>Positions\<close>

record collection_generation =
  gn_epoch :: string
  gn_sequence :: u64

definition generation_successor :: "collection_generation \<Rightarrow> (provider_error, collection_generation) res" where
  "generation_successor g =
     (case checked_succ (gn_sequence g) of
        Some n \<Rightarrow> Ok \<lparr>gn_epoch = gn_epoch g, gn_sequence = n\<rparr>
      | None \<Rightarrow> Err GenerationExhausted)"

type_synonym watermark = u64

definition watermark_successor :: "watermark \<Rightarrow> (provider_error, watermark) res" where
  "watermark_successor w = (case checked_succ w of Some v \<Rightarrow> Ok v | None \<Rightarrow> Err WatermarkExhausted)"

section \<open>Changes\<close>

definition btree_set :: "'a::linorder list \<Rightarrow> 'a list" where
  "btree_set xs = sort (remdups xs)"

lemma set_btree_set [simp]: "set (btree_set xs) = set xs"
  by (simp add: btree_set_def)

text \<open>\<open>valid_pointer\<close>: every tilde is followed by \<open>0\<close> or \<open>1\<close>.\<close>

fun valid_pointer :: "string \<Rightarrow> bool" where
  "valid_pointer [] = True"
| "valid_pointer (c # cs) =
     (if c = CHR ''~'' then
        (case cs of
           d # rest \<Rightarrow> (d = CHR ''0'' \<or> d = CHR ''1'') \<and> valid_pointer rest
         | [] \<Rightarrow> False)
      else valid_pointer cs)"

definition canonical_pointer :: "string \<Rightarrow> bool" where
  "canonical_pointer value \<longleftrightarrow>
     \<not> (\<not> starts_with value ''/'' \<or> (CHR ''~'' \<in> set value \<and> \<not> valid_pointer value))"

text \<open>\<open>CanonicalFieldChangeSet::new\<close>.\<close>

definition canonical_field_change_set :: "string list \<Rightarrow> (provider_error, string list) res" where
  "canonical_field_change_set values =
     (let fields = btree_set values in
      case List.find (\<lambda>v. \<not> canonical_pointer v) fields of
        Some v \<Rightarrow> Err (InvalidChangeSet (CHR 0x27 # v @ [CHR 0x27] @ '' is not a canonical JSON Pointer''))
      | None \<Rightarrow> Ok fields)"

text \<open>\<open>CanonicalTypeSet::new\<close>.\<close>

definition canonical_type_set :: "string list \<Rightarrow> string list" where
  "canonical_type_set values = btree_set values"

datatype record_change_kind = ChangeCreated | ChangeUpdated | ChangeDeleted | ChangeRenamed

fun record_change_kind_number :: "record_change_kind \<Rightarrow> nat" where
  "record_change_kind_number ChangeCreated = 0"
| "record_change_kind_number ChangeUpdated = 1"
| "record_change_kind_number ChangeDeleted = 2"
| "record_change_kind_number ChangeRenamed = 3"

record record_change =
  rg_kind :: record_change_kind
  rg_path :: collection_path
  rg_from :: "collection_path option"
  rg_before_revision :: "string option"
  rg_after_revision :: "string option"
  rg_before_types :: "string list"
  rg_after_types :: "string list"
  rg_changed_fields :: "string list"
  rg_body_changed :: bool

datatype resource_change_kind =
  ResourceConfiguration | ResourceTypeDefinition | ResourceContract | ResourceViewSource
  | ResourceFile | ResourceOther

fun resource_change_kind_number :: "resource_change_kind \<Rightarrow> nat" where
  "resource_change_kind_number ResourceConfiguration = 0"
| "resource_change_kind_number ResourceTypeDefinition = 1"
| "resource_change_kind_number ResourceContract = 2"
| "resource_change_kind_number ResourceViewSource = 3"
| "resource_change_kind_number ResourceFile = 4"
| "resource_change_kind_number ResourceOther = 5"

record resource_change =
  rs_kind :: resource_change_kind
  rs_path :: collection_path
  rs_before_revision :: "string option"
  rs_after_revision :: "string option"

datatype canonical_change = RecordEffect record_change | ResourceEffect resource_change

text \<open>\<open>Revision::parse\<close>: an opaque revision is any text but the empty one.\<close>

definition revision_parse :: "string \<Rightarrow> (string, string) res" where
  "revision_parse value = (if value = '''' then Err ''could not decode canonical operation result: revision must not be empty''
      else Ok value)"

fun ordering_key :: "canonical_change \<Rightarrow> nat \<times> string \<times> string option \<times> nat" where
  "ordering_key (RecordEffect c) =
     (0, as_path (rg_path c), map_option as_path (rg_from c), record_change_kind_number (rg_kind c))"
| "ordering_key (ResourceEffect c) =
     (1 + resource_change_kind_number (rs_kind c), as_path (rs_path c), None, 0)"

section \<open>Batches\<close>

record batch_descriptor =
  bd_schema_version :: nat
  bd_count :: nat
  bd_digest :: string

record change_batch =
  cb_descriptor :: batch_descriptor
  cb_items :: "canonical_change list"

record change_page_cursor =
  pc_digest :: string
  pc_next_index :: nat

record change_page =
  pg_items :: "canonical_change list"
  pg_next :: "change_page_cursor option"

text \<open>Library code: \<open>serde_jcs::to_vec\<close> of a change (an error has a message) and the hexadecimal SHA-256.\<close>

record digest_host =
  dh_jcs :: "canonical_change \<Rightarrow> (string, string) res"
  dh_sha256 :: "string \<Rightarrow> string"

definition change_batch_new ::
  "digest_host \<Rightarrow> canonical_change list \<Rightarrow> (provider_error, change_batch) res" where
  "change_batch_new h changes =
     (let items = sort_key ordering_key changes in
      if list_ex (\<lambda>i. ordering_key (items ! i) = ordering_key (items ! (i + 1))) [0..<length items - 1] then
        Err (InvalidChangeSet ''a canonical change batch contains duplicate target identities'')
      else
        bind_res (map_res (\<lambda>item. map_err_path InvalidChangeSet (dh_jcs h item)) items) (\<lambda>bytes.
        Ok \<lparr>cb_descriptor = \<lparr>bd_schema_version = 1, bd_count = length items,
              bd_digest = ''sha256:'' @ dh_sha256 h (concat bytes)\<rparr>,
            cb_items = items\<rparr>))"

definition batch_page ::
  "change_batch \<Rightarrow> change_page_cursor option \<Rightarrow> nat \<Rightarrow> nat \<Rightarrow> (provider_error, change_page) res" where
  "batch_page batch after requested maximum =
     (let digest = bd_digest (cb_descriptor batch); items = cb_items batch in
      case (case after of
              Some cursor \<Rightarrow>
                if pc_digest cursor = digest \<and> pc_next_index cursor \<le> length items
                then Some (pc_next_index cursor) else None
            | None \<Rightarrow> Some 0) of
        None \<Rightarrow> Err InvalidChangePage
      | Some start \<Rightarrow>
          let limit = min requested maximum;
              stop = min (start + limit) (length items)
          in Ok \<lparr>pg_items = take (stop - start) (drop start items),
                 pg_next = (if stop < length items
                   then Some \<lparr>pc_digest = digest, pc_next_index = stop\<rparr> else None)\<rparr>)"

datatype rebuild_reason =
  RebuildRecoveryReconciliation | RebuildExternalChangeUncertain | RebuildControlResourceChange
  | RebuildChangeFeedRetentionGap

datatype change_set = ChangesNone | ChangesExact change_batch | ChangesCollectionWide rebuild_reason

datatype change_origin = KnownMutation | OriginFilesystem | OriginRecoveryReconciliation

record change_event_identity =
  ei_id :: string
  ei_watermark :: watermark

record runtime_change_event =
  re_identity :: change_event_identity
  re_generation :: collection_generation
  re_changes :: change_set
  re_origin :: change_origin
  re_commit_id :: "string option"

section \<open>Lemmas\<close>

lemma adjacent_distinct:
  assumes "sorted (map f xs)"
    and "\<not> list_ex (\<lambda>i. f (xs ! i) = f (xs ! (i + 1))) [0..<length xs - 1]"
  shows "sorted_wrt (<) (map f xs)"
proof -
  have "f (xs ! i) < f (xs ! Suc i)" if "Suc i < length xs" for i
  proof -
    have "f (xs ! i) \<le> f (xs ! Suc i)" using assms(1) that by (auto simp: sorted_iff_nth_Suc)
    moreover have "f (xs ! i) \<noteq> f (xs ! Suc i)" using assms(2) that by (auto simp: list_ex_iff)
    ultimately show ?thesis by simp
  qed
  then show ?thesis by (simp add: sorted_wrt_iff_nth_Suc_transp)
qed

lemma change_batch_new_Ok:
  assumes "change_batch_new h changes = Ok batch"
  shows "mset (cb_items batch) = mset changes"
    and "sorted_wrt (<) (map ordering_key (cb_items batch))"
    and "bd_count (cb_descriptor batch) = length changes"
proof -
  have items: "cb_items batch = sort_key ordering_key changes"
    and "bd_count (cb_descriptor batch) = length changes"
    using assms by (auto simp: change_batch_new_def Let_def split: if_splits)
  then show "mset (cb_items batch) = mset changes" "bd_count (cb_descriptor batch) = length changes"
    by simp_all
  show "sorted_wrt (<) (map ordering_key (cb_items batch))"
    unfolding items
    by (rule adjacent_distinct) (use assms in \<open>auto simp: change_batch_new_def Let_def split: if_splits\<close>)
qed

lemma change_batch_new_duplicate:
  assumes "change_batch_new h changes = Ok batch"
  shows "distinct (map ordering_key changes)"
proof -
  have "distinct (map ordering_key (cb_items batch))"
    using change_batch_new_Ok(2) [OF assms] by (simp add: strict_sorted_iff)
  moreover have "mset (map ordering_key (cb_items batch)) = mset (map ordering_key changes)"
    using change_batch_new_Ok(1) [OF assms] by simp
  ultimately show ?thesis by (metis mset_eq_imp_distinct_iff)
qed

end
