(* ===== verification/Change_Diff.thy ===== *)
theory Change_Diff
  imports Change_Sets
begin

text \<open>
  From two snapshots of a collection to canonical changes, \<open>runtime/diff.rs\<close>: the renames a request
  proves, created, updated and deleted records with the JSON pointers of their changed fields, and
  changed resources.
\<close>

section \<open>Data\<close>

record snapshot_record =
  sr_path :: string
  sr_revision :: string
  sr_frontmatter :: "(string, json) btree"
  sr_body :: string
  sr_types :: "string list"
  sr_document :: string
  sr_frontmatter_error :: "string option"

record snapshot_resource =
  sc_path :: string
  sc_kind :: resource_kind
  sc_revision :: string
  sc_document :: string

record collection_snapshot =
  cs_revision :: string
  cs_resource_revision :: string
  cs_spec_version :: string
  cs_resources :: "snapshot_resource list"
  cs_records :: "snapshot_record list"

datatype operation_kind =
  OpRead | OpQuery | OpListViews | OpExecuteView | OpReadViewSource | OpCreateViewSource
  | OpUpdateViewSource | OpDeleteViewSource | OpValidate | OpBatch | OpCreate | OpUpdate | OpDelete
  | OpRename | OpListTypes | OpReadType | OpCreateType | OpUpdateType | OpAssessTypePack
  | OpApplyTypePack | OpAssessCollectionSetup | OpApplyCollectionSetup

record operation_request =
  rq_operation :: operation_kind
  rq_input :: json

type_synonym record_index = "(string, snapshot_record) btree"

section \<open>Changed fields\<close>

definition child_pointer :: "string \<Rightarrow> string \<Rightarrow> string" where
  "child_pointer parent key = parent @ ''/'' @ escape_token key"

fun collect_visible_fields :: "json \<Rightarrow> string \<Rightarrow> string list" where
  "collect_visible_fields (JObj object) pointer =
     (if object \<noteq> [] then
        concat (map (\<lambda>(key, value). collect_visible_fields value (child_pointer pointer key)) object)
      else if pointer \<noteq> '''' then [pointer] else [])"
| "collect_visible_fields value pointer = (if pointer \<noteq> '''' then [pointer] else [])"

definition json_option_size :: "json option \<Rightarrow> nat" where
  "json_option_size v = (case v of Some x \<Rightarrow> size x | None \<Rightarrow> 0)"

lemma bt_get_size: "bt_get m k = Some v \<Longrightarrow> size v < size (JObj m)"
proof -
  assume "bt_get m k = Some v"
  then have "(k, v) \<in> set m" by (rule bt_get_in_set)
  then have "size v \<le> size_list (size_prod (\<lambda>_. 0) size) m"
    by (induction m) auto
  then show ?thesis by simp
qed

lemma json_option_get: "json_option_size (bt_get m k) < size (JObj m)"
  using bt_get_size [of m k] by (cases "bt_get m k") (auto simp: json_option_size_def)

function collect_changed_fields :: "json option \<Rightarrow> json option \<Rightarrow> string \<Rightarrow> string list" where
  "collect_changed_fields before after pointer =
     (if before = after then []
      else
        (case (before, after) of
           (Some (JObj b), Some (JObj a)) \<Rightarrow>
             concat (map (\<lambda>key. collect_changed_fields (bt_get b key) (bt_get a key) (child_pointer pointer key))
               (btree_set (bt_keys b @ bt_keys a)))
         | _ \<Rightarrow>
             if pointer \<noteq> '''' then [pointer]
             else
               (case (if after \<noteq> None then after else before) of
                  Some value \<Rightarrow> collect_visible_fields value pointer | None \<Rightarrow> [])))"
  by pat_completeness auto
termination
  by (relation "measure (\<lambda>(before, after, _). json_option_size before + json_option_size after)")
     (use json_option_get in \<open>auto simp: json_option_size_def [of "Some _"] simp del: json.size intro: add_less_mono\<close>)

declare collect_changed_fields.simps [simp del]

definition changed_frontmatter :: "(string, json) btree \<Rightarrow> (string, json) btree \<Rightarrow> string list" where
  "changed_frontmatter before after =
     btree_set (collect_changed_fields (Some (JObj before)) (Some (JObj after)) '''')"

definition record_fields :: "snapshot_record \<Rightarrow> string list" where
  "record_fields r = btree_set (collect_visible_fields (JObj (sr_frontmatter r)) '''')"

definition canonical_field_changes ::
  "(string, json) btree \<Rightarrow> (string, json) btree \<Rightarrow> (provider_error, string list) res" where
  "canonical_field_changes before after = canonical_field_change_set (changed_frontmatter before after)"

definition canonical_present_fields :: "(string, json) btree \<Rightarrow> (provider_error, string list) res" where
  "canonical_present_fields value =
     canonical_field_change_set (btree_set (collect_visible_fields (JObj value) ''''))"

section \<open>Changes of records and resources\<close>

definition diff_path :: "string \<Rightarrow> (provider_error, collection_path) res" where
  "diff_path path = map_err_path (\<lambda>e. InvalidChangeSet (path_error_message e)) (collection_path_from_str path)"

definition diff_revision :: "string \<Rightarrow> (provider_error, string) res" where
  "diff_revision value = map_err_path InvalidChangeSet (revision_parse value)"

text \<open>\<open>option.map(f).transpose()\<close>.\<close>

definition map_option_res :: "('a \<Rightarrow> ('e, 'b) res) \<Rightarrow> 'a option \<Rightarrow> ('e, 'b option) res" where
  "map_option_res f v = (case v of Some x \<Rightarrow> bind_res (f x) (\<lambda>y. Ok (Some y)) | None \<Rightarrow> Ok None)"

definition diff_record_change ::
  "record_change_kind \<Rightarrow> string \<Rightarrow> collection_path option \<Rightarrow> snapshot_record option \<Rightarrow> snapshot_record option
    \<Rightarrow> (provider_error, record_change) res" where
  "diff_record_change kind path from before after =
     (let changed =
        (case (before, after) of
           (Some b, Some a) \<Rightarrow> changed_frontmatter (sr_frontmatter b) (sr_frontmatter a)
         | (Some b, None) \<Rightarrow> record_fields b
         | (None, Some a) \<Rightarrow> record_fields a
         | (None, None) \<Rightarrow> [])
      in
        bind_res (diff_path path) (\<lambda>p.
        bind_res (map_option_res (\<lambda>r. diff_revision (sr_revision r)) before) (\<lambda>before_revision.
        bind_res (map_option_res (\<lambda>r. diff_revision (sr_revision r)) after) (\<lambda>after_revision.
        bind_res (canonical_field_change_set changed) (\<lambda>fields.
        Ok \<lparr>rg_kind = kind, rg_path = p, rg_from = from,
            rg_before_revision = before_revision, rg_after_revision = after_revision,
            rg_before_types = canonical_type_set (case before of Some r \<Rightarrow> sr_types r | None \<Rightarrow> []),
            rg_after_types = canonical_type_set (case after of Some r \<Rightarrow> sr_types r | None \<Rightarrow> []),
            rg_changed_fields = fields,
            rg_body_changed = (map_option sr_body before \<noteq> map_option sr_body after)\<rparr>)))))"

text \<open>The rename inputs of a request, and those the two indexes prove.\<close>

definition requested_renames :: "operation_request option \<Rightarrow> json list" where
  "requested_renames request =
     (case request of
        None \<Rightarrow> []
      | Some rq \<Rightarrow>
          (case rq_operation rq of
             OpRename \<Rightarrow> [rq_input rq]
           | OpBatch \<Rightarrow>
               List.map_filter (\<lambda>item. jget item ''input'')
                 (filter (\<lambda>item. jstring_at item ''kind'' = Some ''rename'') (jarray_at (rq_input rq) ''operations''))
           | _ \<Rightarrow> []))"

definition first_member :: "json \<Rightarrow> string \<Rightarrow> string \<Rightarrow> string option" where
  "first_member input key alternative =
     Option.bind (case jget input key of Some v \<Rightarrow> Some v | None \<Rightarrow> jget input alternative) as_str"

definition proven_rename ::
  "record_index \<Rightarrow> record_index \<Rightarrow> json \<Rightarrow> (collection_path \<times> collection_path) option" where
  "proven_rename before after input =
     (case (first_member input ''from'' ''path'', first_member input ''to'' ''new_path'') of
        (Some from_text, Some to_text) \<Rightarrow>
          (case (collection_path_from_str from_text, collection_path_from_str to_text) of
             (Ok from, Ok to) \<Rightarrow>
               if bt_contains before (as_path from) \<and> \<not> bt_contains after (as_path from)
                  \<and> \<not> bt_contains before (as_path to) \<and> bt_contains after (as_path to)
               then Some (from, to) else None
           | _ \<Rightarrow> None)
      | _ \<Rightarrow> None)"

definition proven_requested_renames ::
  "operation_request option \<Rightarrow> record_index \<Rightarrow> record_index \<Rightarrow> (collection_path \<times> collection_path) list" where
  "proven_requested_renames request before after =
     List.map_filter (proven_rename before after) (requested_renames request)"

text \<open>The loop over the proven renames takes both sides out of the indexes.\<close>

fun rename_changes ::
  "(collection_path \<times> collection_path) list \<Rightarrow> record_index \<Rightarrow> record_index
    \<Rightarrow> (provider_error, canonical_change list \<times> record_index \<times> record_index) res" where
  "rename_changes [] before after = Ok ([], before, after)"
| "rename_changes ((from, to) # rest) before after =
     (case (bt_get before (as_path from), bt_get after (as_path to)) of
        (Some old, Some new) \<Rightarrow>
          bind_res (diff_record_change ChangeRenamed (sr_path new) (Some from) (Some old) (Some new)) (\<lambda>change.
          bind_res (rename_changes rest (bt_remove (as_path from) before) (bt_remove (as_path to) after))
            (\<lambda>(changes, before', after'). Ok (RecordEffect change # changes, before', after')))
      | _ \<Rightarrow> Panic)"

definition record_difference ::
  "record_index \<Rightarrow> record_index \<Rightarrow> string \<Rightarrow> (provider_error, canonical_change list) res" where
  "record_difference before after path =
     (case (bt_get before path, bt_get after path) of
        (Some b, Some a) \<Rightarrow>
          if sr_revision b \<noteq> sr_revision a then
            bind_res (diff_record_change ChangeUpdated path None (Some b) (Some a)) (\<lambda>c. Ok [RecordEffect c])
          else Ok []
      | (Some b, None) \<Rightarrow>
          bind_res (diff_record_change ChangeDeleted path None (Some b) None) (\<lambda>c. Ok [RecordEffect c])
      | (None, Some a) \<Rightarrow>
          bind_res (diff_record_change ChangeCreated path None None (Some a)) (\<lambda>c. Ok [RecordEffect c])
      | (None, None) \<Rightarrow> Ok [])"

fun resource_change_kind_of :: "resource_kind \<Rightarrow> resource_change_kind" where
  "resource_change_kind_of ResConfiguration = ResourceConfiguration"
| "resource_change_kind_of ResType = ResourceTypeDefinition"
| "resource_change_kind_of ResContract = ResourceContract"
| "resource_change_kind_of ResView = ResourceViewSource"
| "resource_change_kind_of ResLock = ResourceFile"
| "resource_change_kind_of ResSchema = ResourceFile"

definition resource_difference ::
  "(string, snapshot_resource) btree \<Rightarrow> (string, snapshot_resource) btree \<Rightarrow> string
    \<Rightarrow> (provider_error, canonical_change list) res" where
  "resource_difference before after path =
     (let b = bt_get before path; a = bt_get after path in
      if map_option sc_revision b = map_option sc_revision a then Ok []
      else
        (case (case a of Some r \<Rightarrow> Some r | None \<Rightarrow> b) of
           None \<Rightarrow> Panic
         | Some r \<Rightarrow>
             bind_res (diff_path path) (\<lambda>p.
             bind_res (map_option_res (\<lambda>r. diff_revision (sc_revision r)) b) (\<lambda>before_revision.
             bind_res (map_option_res (\<lambda>r. diff_revision (sc_revision r)) a) (\<lambda>after_revision.
             Ok [ResourceEffect
               \<lparr>rs_kind = resource_change_kind_of (sc_kind r), rs_path = p,
                rs_before_revision = before_revision, rs_after_revision = after_revision\<rparr>])))))"

definition index_by :: "('a \<Rightarrow> string) \<Rightarrow> 'a list \<Rightarrow> (string, 'a) btree" where
  "index_by path xs = foldl (\<lambda>m x. bt_insert (path x) x m) [] xs"

definition canonical_changes ::
  "digest_host \<Rightarrow> collection_snapshot \<Rightarrow> collection_snapshot \<Rightarrow> operation_request option
    \<Rightarrow> (provider_error, change_batch) res" where
  "canonical_changes h before after request =
     (let before_records = index_by sr_path (cs_records before);
          after_records = index_by sr_path (cs_records after);
          before_resources = index_by sc_path (cs_resources before);
          after_resources = index_by sc_path (cs_resources after)
      in
        bind_res (rename_changes (proven_requested_renames request before_records after_records)
            before_records after_records) (\<lambda>(renames, before', after').
        bind_res (map_res (record_difference before' after')
            (btree_set (bt_keys before' @ bt_keys after'))) (\<lambda>records.
        bind_res (map_res (resource_difference before_resources after_resources)
            (btree_set (bt_keys before_resources @ bt_keys after_resources))) (\<lambda>resources.
        change_batch_new h (renames @ concat records @ concat resources)))))"

end
