(* ===== verification/Change_Fields.thy ===== *)
theory Change_Fields
  imports Change_Diff
begin

text \<open>
  The changed fields of a record are exactly its minimal differences: the pointers at which the two
  frontmatters differ while every object above them is present on both sides.
\<close>

section \<open>Pointers\<close>

definition pointer_text :: "string list \<Rightarrow> string" where
  "pointer_text keys = concat (map (\<lambda>k. ''/'' @ escape_token k) keys)"

lemma pointer_text_simps [simp]:
  "pointer_text [] = ''''"
  "pointer_text (k # ks) = ''/'' @ escape_token k @ pointer_text ks"
  by (simp_all add: pointer_text_def)

lemma pointer_text_Nil: "pointer_text ks \<noteq> '''' \<Longrightarrow> ks \<noteq> []"
  by auto

lemma child_pointer_text: "child_pointer p k @ pointer_text ks = p @ pointer_text (k # ks)"
  by (simp add: child_pointer_def)

lemma child_pointer_not_Nil [simp]: "child_pointer p k \<noteq> ''''"
  by (simp add: child_pointer_def)

lemma split_on_pointer:
  "split_on (CHR ''/'') (escape_token k @ pointer_text ks) = escape_token k # map escape_token ks"
proof (induction ks arbitrary: k)
  case Nil
  then show ?case using escape_token_no_slash by (simp add: split_on_plain)
next
  case (Cons j ks)
  have "split_on (CHR ''/'') (escape_token k @ CHR ''/'' # escape_token j @ pointer_text ks)
      = escape_token k # split_on (CHR ''/'') (escape_token j @ pointer_text ks)"
    by (rule split_on_append [OF escape_token_no_slash])
  then show ?case using Cons by simp
qed

text \<open>The value at a path of object keys.\<close>

fun follow :: "json option \<Rightarrow> string list \<Rightarrow> json option" where
  "follow v [] = v"
| "follow (Some (JObj m)) (k # ks) = follow (bt_get m k) ks"
| "follow _ (k # ks) = None"

fun object_at :: "json option \<Rightarrow> bool" where
  "object_at (Some (JObj m)) = True"
| "object_at _ = False"

lemma object_at_iff: "object_at v \<longleftrightarrow> (\<exists>m. v = Some (JObj m))"
  by (cases v rule: object_at.cases) auto

text \<open>A minimal difference: unequal values, not both objects, below objects on both sides.\<close>

fun differs_at :: "json option \<Rightarrow> json option \<Rightarrow> string list \<Rightarrow> bool" where
  "differs_at before after [] \<longleftrightarrow> before \<noteq> after \<and> \<not> (object_at before \<and> object_at after)"
| "differs_at before after (k # ks) \<longleftrightarrow>
     object_at before \<and> object_at after \<and> differs_at (follow before [k]) (follow after [k]) ks"

lemma differs_at_irrefl: "\<not> differs_at v v ks"
  by (induction ks arbitrary: v) auto

lemma collect_changed_fields_set:
  assumes "pointer \<noteq> '''' \<or> (object_at before \<and> object_at after)"
  shows "set (collect_changed_fields before after pointer)
    = (\<lambda>ks. pointer @ pointer_text ks) ` {ks. differs_at before after ks}"
  using assms
proof (induction before after pointer rule: collect_changed_fields.induct)
  case (1 before after pointer)
  show ?case
  proof (cases "before = after")
    case True
    then show ?thesis by (simp add: collect_changed_fields.simps differs_at_irrefl)
  next
    case neq: False
    show ?thesis
    proof (cases "object_at before \<and> object_at after")
      case True
      then obtain b a where ba: "before = Some (JObj b)" "after = Some (JObj a)"
        by (auto simp: object_at_iff)
      let ?keys = "btree_set (bt_keys b @ bt_keys a)"
      have IH: "set (collect_changed_fields (bt_get b k) (bt_get a k) (child_pointer pointer k))
          = (\<lambda>ks. pointer @ pointer_text (k # ks)) ` {ks. differs_at (bt_get b k) (bt_get a k) ks}"
        if "k \<in> set ?keys" for k
        using "1.IH" [OF neq, of before after "JObj b" b "JObj a" a k]
          that ba by (simp add: child_pointer_text)
      have keys: "k \<in> set ?keys" if "differs_at (bt_get b k) (bt_get a k) ks" for k ks
        using that differs_at_irrefl [of None ks] by (cases "bt_get b k"; cases "bt_get a k")
          (auto simp: set_bt_keys bt_contains_def)
      have "set (collect_changed_fields before after pointer)
          = (\<Union>k \<in> set ?keys. set (collect_changed_fields (bt_get b k) (bt_get a k) (child_pointer pointer k)))"
        using neq unfolding ba collect_changed_fields.simps [of "Some (JObj b)" "Some (JObj a)"] by simp
      also have "\<dots> = (\<Union>k \<in> set ?keys. (\<lambda>ks. pointer @ pointer_text (k # ks))
              ` {ks. differs_at (bt_get b k) (bt_get a k) ks})"
        by (rule SUP_cong [OF refl IH])
      also have "\<dots> = (\<lambda>ks. pointer @ pointer_text ks) ` {ks. differs_at before after ks}"
      proof (intro equalityI subsetI)
        fix p assume "p \<in> (\<Union>k \<in> set ?keys. (\<lambda>ks. pointer @ pointer_text (k # ks))
              ` {ks. differs_at (bt_get b k) (bt_get a k) ks})"
        then obtain k ks where "p = pointer @ pointer_text (k # ks)" "differs_at (bt_get b k) (bt_get a k) ks"
          by blast
        then show "p \<in> (\<lambda>ks. pointer @ pointer_text ks) ` {ks. differs_at before after ks}"
          using ba by (intro image_eqI [of _ _ "k # ks"]) auto
      next
        fix p assume "p \<in> (\<lambda>ks. pointer @ pointer_text ks) ` {ks. differs_at before after ks}"
        then obtain ks where p: "p = pointer @ pointer_text ks" and d: "differs_at before after ks" by blast
        from d ba obtain k ks' where ks: "ks = k # ks'" and d': "differs_at (bt_get b k) (bt_get a k) ks'"
          by (cases ks) auto
        show "p \<in> (\<Union>k \<in> set ?keys. (\<lambda>ks. pointer @ pointer_text (k # ks))
              ` {ks. differs_at (bt_get b k) (bt_get a k) ks})"
          using keys [OF d'] d' p ks by blast
      qed
      finally show ?thesis .
    next
      case False
      have only: "{ks. differs_at before after ks} = {[]}"
      proof (intro equalityI subsetI)
        fix ks assume "ks \<in> {ks. differs_at before after ks}"
        with False show "ks \<in> {[]}" by (cases ks) auto
      qed (use neq False in auto)
      have "pointer \<noteq> ''''" using "1.prems" False by blast
      then have "collect_changed_fields before after pointer = [pointer]"
        using neq False
        by (auto simp: collect_changed_fields.simps [of before after] split: option.splits json.splits)
      then show ?thesis by (simp add: only)
    qed
  qed
qed


lemma changed_frontmatter_set:
  "set (changed_frontmatter before after)
     = pointer_text ` {ks. differs_at (Some (JObj before)) (Some (JObj after)) ks}"
  using collect_changed_fields_set [of "''''" "Some (JObj before)" "Some (JObj after)"]
  by (simp add: changed_frontmatter_def)

section \<open>Canonical pointers\<close>

lemma valid_pointer_escape: "valid_pointer (escape_token k @ s) = valid_pointer s"
  by (induction k) auto

lemma valid_pointer_text: "valid_pointer (pointer_text ks)"
  by (induction ks) (auto simp: valid_pointer_escape)

lemma canonical_pointer_text: "ks \<noteq> [] \<Longrightarrow> canonical_pointer (pointer_text ks)"
  using valid_pointer_text [of ks] by (cases ks) (auto simp: canonical_pointer_def)

lemma canonical_field_change_set_Ok:
  assumes "\<forall>v \<in> set values. canonical_pointer v"
  shows "canonical_field_change_set values = Ok (btree_set values)"
proof -
  have "List.find (\<lambda>v. \<not> canonical_pointer v) (btree_set values) = None"
    using assms by (auto simp: find_None_iff)
  then show ?thesis by (simp add: canonical_field_change_set_def)
qed

lemma differs_at_object: "differs_at (Some (JObj b)) (Some (JObj a)) ks \<Longrightarrow> ks \<noteq> []"
  by auto

lemma changed_frontmatter_canonical: "v \<in> set (changed_frontmatter b a) \<Longrightarrow> canonical_pointer v"
  unfolding changed_frontmatter_set using differs_at_object canonical_pointer_text by blast

lemma visible_fields_text:
  "p \<in> set (collect_visible_fields v (pointer_text ps)) \<Longrightarrow> \<exists>ks. ks \<noteq> [] \<and> p = pointer_text ks"
proof (induction v "pointer_text ps" arbitrary: ps rule: collect_visible_fields.induct)
  case (1 object)
  show ?case
  proof (cases "object = []")
    case True
    then show ?thesis using "1.prems" by (auto split: if_splits intro!: exI [of _ ps])
  next
    case False
    with "1.prems" obtain key v where kv: "(key, v) \<in> set object"
      and p: "p \<in> set (collect_visible_fields v (child_pointer (pointer_text ps) key))" by auto
    have child: "child_pointer (pointer_text ps) key = pointer_text (ps @ [key])"
      by (simp add: child_pointer_def pointer_text_def)
    show ?thesis using "1.hyps" [OF False kv refl, of "ps @ [key]"] p child by simp
  qed
qed (use pointer_text_Nil in \<open>auto split: if_splits\<close>)

lemma record_fields_canonical: "v \<in> set (record_fields r) \<Longrightarrow> canonical_pointer v"
  using visible_fields_text [of v "JObj (sr_frontmatter r)" "[]"] canonical_pointer_text
  by (auto simp: record_fields_def)

section \<open>Equal records\<close>

text \<open>JSON objects are ordered maps, at every depth.\<close>

fun json_wf :: "json \<Rightarrow> bool" where
  "json_wf (JObj m) \<longleftrightarrow> bt_wf m \<and> (\<forall>e \<in> set m. json_wf (snd e))"
| "json_wf _ \<longleftrightarrow> True"

lemma bt_eqI:
  assumes "bt_wf m" "bt_wf n" "\<And>k. bt_get m k = bt_get n k"
  shows "m = n"
proof (rule map_sorted_distinct_set_unique [of fst])
  have "set m = set n"
    using assms by (auto simp: bt_get_iff [OF assms(1), symmetric] bt_get_iff [OF assms(2), symmetric])
  then show "set m = set n" "inj_on fst (set m \<union> set n)"
    using bt_wf_distinct [OF assms(1)] by (auto simp: distinct_map)
qed (use assms bt_wf_distinct in \<open>auto simp: bt_wf_def strict_sorted_iff\<close>)

lemma differs_at_complete:
  assumes "json_wf x" "json_wf y" "x \<noteq> y"
  shows "\<exists>ks. differs_at (Some x) (Some y) ks"
  using assms
proof (induction x arbitrary: y)
  case (JObj m)
  show ?case
  proof (cases "object_at (Some y)")
    case False
    then show ?thesis using JObj.prems by (intro exI [of _ "[]"]) auto
  next
    case True
    then obtain n where y: "y = JObj n" by (auto simp: object_at_iff)
    with JObj.prems bt_eqI [of m n] obtain k where k: "bt_get m k \<noteq> bt_get n k" by auto
    have "\<exists>ks. differs_at (bt_get m k) (bt_get n k) ks"
    proof (cases "bt_get m k")
      case None
      then show ?thesis using k by (intro exI [of _ "[]"]) auto
    next
      case (Some v)
      show ?thesis
      proof (cases "bt_get n k")
        case None
        then show ?thesis using k by (intro exI [of _ "[]"]) auto
      next
        case (Some w)
        note v = bt_get_in_set [OF \<open>bt_get m k = Some v\<close>] and w = bt_get_in_set [OF Some]
        have "json_wf v" "json_wf w" "v \<noteq> w"
          using v w JObj.prems y k \<open>bt_get m k = Some v\<close> Some by auto
        from JObj.IH [OF v _ this] show ?thesis using \<open>bt_get m k = Some v\<close> Some by auto
      qed
    qed
    then obtain ks where "differs_at (bt_get m k) (bt_get n k) ks" by blast
    then show ?thesis using y by (intro exI [of _ "k # ks"]) auto
  qed
qed (intro exI [of _ "[]"]; auto)+

lemma follow_differs: "differs_at v w ks \<Longrightarrow> follow v ks \<noteq> follow w ks"
proof (induction ks arbitrary: v w)
  case (Cons k ks)
  then obtain m n where "v = Some (JObj m)" "w = Some (JObj n)" by (auto simp: object_at_iff)
  with Cons show ?case by auto
qed simp

end
