(* ===== verification/Change_Replay.thy ===== *)
theory Change_Replay
  imports Change_Fields
begin

text \<open>
  Replaying a snapshot difference: what a consumer sees who applies the canonical changes of a batch to
  the revisions it knows.
\<close>

section \<open>Replay\<close>

type_synonym revision_map = "string \<Rightarrow> string option"

definition touches :: "canonical_change \<Rightarrow> string set" where
  "touches c =
     (case c of
        RecordEffect r \<Rightarrow> insert (as_path (rg_path r)) (as_path ` set_option (rg_from r))
      | ResourceEffect _ \<Rightarrow> {})"

definition replay_record :: "revision_map \<Rightarrow> canonical_change \<Rightarrow> revision_map" where
  "replay_record m c =
     (case c of
        RecordEffect r \<Rightarrow>
          (case rg_from r of Some from \<Rightarrow> m(as_path from := None) | None \<Rightarrow> m)
            (as_path (rg_path r) := rg_after_revision r)
      | ResourceEffect _ \<Rightarrow> m)"

definition replay_resource :: "revision_map \<Rightarrow> canonical_change \<Rightarrow> revision_map" where
  "replay_resource m c =
     (case c of
        ResourceEffect r \<Rightarrow> m(as_path (rs_path r) := rs_after_revision r)
      | RecordEffect _ \<Rightarrow> m)"

lemma replay_untouched:
  "p \<notin> touches c \<Longrightarrow> replay_record m c p = m p"
  by (auto simp: touches_def replay_record_def split: canonical_change.splits option.splits)

lemma replay_touched:
  "p \<in> touches c \<Longrightarrow> replay_record m c p = replay_record Map.empty c p"
  by (auto simp: touches_def replay_record_def split: canonical_change.splits option.splits)

text \<open>Changes that touch disjoint paths can be replayed in any order.\<close>

definition apart :: "canonical_change list \<Rightarrow> bool" where
  "apart cs \<longleftrightarrow> distinct cs \<and> (\<forall>c \<in> set cs. \<forall>d \<in> set cs. c \<noteq> d \<longrightarrow> touches c \<inter> touches d = {})"

lemma replay_apart:
  assumes "apart cs"
  shows "foldl replay_record m cs p
    = (case List.find (\<lambda>c. p \<in> touches c) cs of
         Some c \<Rightarrow> replay_record Map.empty c p | None \<Rightarrow> m p)"
  using assms
proof (induction cs arbitrary: m)
  case (Cons c cs)
  have IH: "foldl replay_record m' cs p
      = (case List.find (\<lambda>c. p \<in> touches c) cs of
           Some c \<Rightarrow> replay_record Map.empty c p | None \<Rightarrow> m' p)" for m'
    using Cons by (auto simp: apart_def)
  show ?case
  proof (cases "p \<in> touches c")
    case True
    then have "List.find (\<lambda>c. p \<in> touches c) cs = None"
      using Cons.prems by (fastforce simp: apart_def find_None_iff)
    then show ?thesis using IH True replay_touched [OF True, of m] by simp
  next
    case False
    then show ?thesis using IH replay_untouched [OF False, of m] by (auto split: option.splits)
  qed
qed simp

lemma replay_apart_mset:
  assumes "apart cs" "mset ds = mset cs" "c \<in> set cs" "p \<in> touches c"
  shows "foldl replay_record m ds p = replay_record Map.empty c p"
proof -
  have same: "set ds = set cs" "distinct ds" using assms(1,2) by (auto simp: apart_def dest: mset_eq_setD mset_eq_imp_distinct_iff)
  then have "apart ds" using assms(1) by (auto simp: apart_def)
  moreover obtain d where d: "List.find (\<lambda>c. p \<in> touches c) ds = Some d"
    using assms(3,4) same by (cases "List.find (\<lambda>c. p \<in> touches c) ds") (auto simp: find_None_iff)
  moreover have "d \<in> set cs" "p \<in> touches d" using d same by (auto simp: find_Some_iff)
  then have "d = c" using assms by (auto simp: apart_def)
  ultimately show ?thesis by (simp add: replay_apart)
qed

lemma replay_apart_none:
  assumes "\<forall>c \<in> set ds. p \<notin> touches c"
  shows "foldl replay_record m ds p = m p"
  using assms by (induction ds arbitrary: m) (simp_all add: replay_untouched)

section \<open>Indexes\<close>

lemma index_by_foldl:
  "bt_get (foldl (\<lambda>m x. bt_insert (f x) x m) m0 xs) p = Some x \<Longrightarrow>
     (x \<in> set xs \<and> f x = p) \<or> bt_get m0 p = Some x"
  by (induction xs arbitrary: m0) (fastforce split: if_splits)+

lemma index_by_get: "bt_get (index_by f xs) p = Some x \<Longrightarrow> x \<in> set xs \<and> f x = p"
  using index_by_foldl [of f "[]" xs p x] by (simp add: index_by_def)

lemma bt_wf_index_by: "bt_wf (index_by f xs)"
proof -
  have "bt_wf (foldl (\<lambda>m x. bt_insert (f x) x m) m0 xs)" if "bt_wf m0" for m0
    using that by (induction xs arbitrary: m0) simp_all
  then show ?thesis by (simp add: index_by_def)
qed

definition record_revisions :: "collection_snapshot \<Rightarrow> revision_map" where
  "record_revisions s p = map_option sr_revision (bt_get (index_by sr_path (cs_records s)) p)"

definition resource_revisions :: "collection_snapshot \<Rightarrow> revision_map" where
  "resource_revisions s p = map_option sc_revision (bt_get (index_by sc_path (cs_resources s)) p)"

text \<open>A snapshot as captures produce it: canonical paths and revisions that are not empty.\<close>

definition proper_snapshot :: "collection_snapshot \<Rightarrow> bool" where
  "proper_snapshot s \<longleftrightarrow>
     (\<forall>r \<in> set (cs_records s). canonical_path (sr_path r) \<and> sr_revision r \<noteq> '''')
     \<and> (\<forall>r \<in> set (cs_resources s). canonical_path (sc_path r) \<and> sc_revision r \<noteq> '''')"

definition proper_index :: "record_index \<Rightarrow> bool" where
  "proper_index m \<longleftrightarrow> bt_wf m \<and> (\<forall>p r. bt_get m p = Some r \<longrightarrow>
     sr_path r = p \<and> canonical_path p \<and> sr_revision r \<noteq> '''')"

lemma proper_index_by: "proper_snapshot s \<Longrightarrow> proper_index (index_by sr_path (cs_records s))"
  using index_by_get [of sr_path "cs_records s"] bt_wf_index_by [of sr_path "cs_records s"]
  by (fastforce simp: proper_index_def proper_snapshot_def)

lemma proper_index_remove: "proper_index m \<Longrightarrow> proper_index (bt_remove k m)"
  by (auto simp: proper_index_def)

section \<open>Record changes\<close>

lemma diff_path_canonical: "canonical_path p \<Longrightarrow> diff_path p = Ok (CollectionPath p)"
  by (simp add: diff_path_def canonical_path_def)

lemma diff_record_change_total:
  assumes "canonical_path path" "\<forall>r. before = Some r \<longrightarrow> sr_revision r \<noteq> ''''"
    "\<forall>r. after = Some r \<longrightarrow> sr_revision r \<noteq> ''''"
  obtains c where "diff_record_change kind path from before after = Ok c"
    "rg_path c = CollectionPath path" "rg_from c = from" "rg_kind c = kind"
    "rg_after_revision c = map_option sr_revision after"
proof -
  let ?fields = "case (before, after) of
           (Some b, Some a) \<Rightarrow> changed_frontmatter (sr_frontmatter b) (sr_frontmatter a)
         | (Some b, None) \<Rightarrow> record_fields b
         | (None, Some a) \<Rightarrow> record_fields a
         | (None, None) \<Rightarrow> []"
  have "\<forall>v \<in> set ?fields. canonical_pointer v"
    using changed_frontmatter_canonical record_fields_canonical
    by (auto split: option.splits)
  then have fields: "canonical_field_change_set ?fields = Ok (btree_set ?fields)"
    by (rule canonical_field_change_set_Ok)
  have rev: "map_option_res (\<lambda>r. diff_revision (sr_revision r)) v = Ok (map_option sr_revision v)"
    if "\<forall>r. v = Some r \<longrightarrow> sr_revision r \<noteq> ''''" for v
    using that by (cases v) (auto simp: map_option_res_def diff_revision_def revision_parse_def)
  have "\<exists>c. diff_record_change kind path from before after = Ok c \<and> rg_path c = CollectionPath path
      \<and> rg_from c = from \<and> rg_kind c = kind \<and> rg_after_revision c = map_option sr_revision after"
    using fields
    by (auto simp: diff_record_change_def Let_def diff_path_canonical [OF assms(1)]
          rev [OF assms(2)] rev [OF assms(3)])
  then show ?thesis using that by blast
qed


definition proven_pair :: "record_index \<Rightarrow> record_index \<Rightarrow> collection_path \<times> collection_path \<Rightarrow> bool" where
  "proven_pair before after e \<longleftrightarrow>
     bt_contains before (as_path (fst e)) \<and> \<not> bt_contains after (as_path (fst e))
     \<and> \<not> bt_contains before (as_path (snd e)) \<and> bt_contains after (as_path (snd e))"

lemma proven_requested_renames_pairs:
  "e \<in> set (proven_requested_renames request before after) \<Longrightarrow> proven_pair before after e"
  by (auto simp: proven_requested_renames_def List.map_filter_def proven_rename_def proven_pair_def
        split: option.splits res.splits if_splits)

lemma distinct_map_head: "distinct (map f (e # es)) \<Longrightarrow> x \<in> set es \<Longrightarrow> f x \<noteq> f e"
  by (metis distinct.simps(2) image_eqI list.set_map list.simps(9))

definition rename_effect :: "record_index \<Rightarrow> collection_path \<times> collection_path \<Rightarrow> canonical_change \<Rightarrow> bool" where
  "rename_effect after e c \<longleftrightarrow>
     (\<exists>r. c = RecordEffect r \<and> rg_from r = Some (fst e) \<and> as_path (rg_path r) = as_path (snd e)
        \<and> rg_kind r = ChangeRenamed
        \<and> rg_after_revision r = map_option sr_revision (bt_get after (as_path (snd e))))"

lemma rename_changes_total:
  assumes "proper_index before" "proper_index after"
    and "\<forall>e \<in> set es. proven_pair before after e"
    and "distinct (map (as_path \<circ> fst) es)" "distinct (map (as_path \<circ> snd) es)"
  shows "\<exists>cs before' after'. rename_changes es before after = Ok (cs, before', after')
    \<and> proper_index before' \<and> proper_index after'
    \<and> (\<forall>p. bt_get before' p = (if p \<in> (as_path \<circ> fst) ` set es then None else bt_get before p))
    \<and> (\<forall>p. bt_get after' p = (if p \<in> (as_path \<circ> snd) ` set es then None else bt_get after p))
    \<and> list_all2 (rename_effect after) es cs"
  using assms
proof (induction es arbitrary: before after)
  case (Cons e es)
  obtain "from" to where e: "e = (from, to)" by (cases e)
  from Cons.prems(3) e obtain old new where
    old: "bt_get before (as_path from) = Some old" and new: "bt_get after (as_path to) = Some new"
    by (auto simp: proven_pair_def bt_contains_def)
  have facts: "sr_path new = as_path to" "canonical_path (as_path to)" "sr_revision new \<noteq> ''''" "sr_revision old \<noteq> ''''"
    using Cons.prems(1,2) old new by (auto simp: proper_index_def)
  obtain c where c: "diff_record_change ChangeRenamed (sr_path new) (Some from) (Some old) (Some new) = Ok c"
    "rg_path c = CollectionPath (sr_path new)" "rg_from c = Some from" "rg_kind c = ChangeRenamed"
    "rg_after_revision c = map_option sr_revision (Some new)"
    by (rule diff_record_change_total [of "sr_path new" "Some old" "Some new" ChangeRenamed "Some from"])
       (use facts in auto)
  let ?b = "bt_remove (as_path from) before" and ?a = "bt_remove (as_path to) after"
  have pairs: "\<forall>e \<in> set es. proven_pair ?b ?a e"
  proof
    fix x assume x: "x \<in> set es"
    have "as_path (fst x) \<noteq> as_path from" "as_path (snd x) \<noteq> as_path to"
      using distinct_map_head [OF Cons.prems(4) x] distinct_map_head [OF Cons.prems(5) x] e by simp_all
    moreover have "proven_pair before after x" using Cons.prems(3) x by simp
    ultimately show "proven_pair ?b ?a x" by (simp add: proven_pair_def bt_contains_def)
  qed
  have dist: "distinct (map (as_path \<circ> fst) es)" "distinct (map (as_path \<circ> snd) es)"
    using Cons.prems(4,5) by (simp_all add: comp_def)
  from Cons.IH [OF proper_index_remove [OF Cons.prems(1)] proper_index_remove [OF Cons.prems(2)] pairs dist]
  obtain cs before' after' where r: "rename_changes es ?b ?a = Ok (cs, before', after')"
    "proper_index before'" "proper_index after'"
    "\<forall>p. bt_get before' p = (if p \<in> (as_path \<circ> fst) ` set es then None else bt_get ?b p)"
    "\<forall>p. bt_get after' p = (if p \<in> (as_path \<circ> snd) ` set es then None else bt_get ?a p)"
    "list_all2 (rename_effect ?a) es cs"
    by blast
  have "list_all2 (rename_effect after) es cs"
  proof (rule list.rel_mono_strong [OF r(6)])
    fix x d assume x: "x \<in> set es" "d \<in> set cs" "rename_effect ?a x d"
    have "as_path (snd x) \<noteq> as_path to" using distinct_map_head [OF Cons.prems(5) x(1)] e by simp
    with x(3) show "rename_effect after x d" by (simp add: rename_effect_def)
  qed
  moreover have "rename_effect after e (RecordEffect c)" using c new e facts by (simp add: rename_effect_def)
  ultimately show ?case using r c old new e facts by (auto simp: comp_def)
qed simp


definition plain_effect :: "record_index \<Rightarrow> record_index \<Rightarrow> string \<Rightarrow> canonical_change list \<Rightarrow> bool" where
  "plain_effect before after path cs \<longleftrightarrow> length cs \<le> 1
     \<and> (cs = [] \<longrightarrow> map_option sr_revision (bt_get before path) = map_option sr_revision (bt_get after path))
     \<and> (\<forall>c \<in> set cs. \<exists>r. c = RecordEffect r \<and> as_path (rg_path r) = path \<and> rg_from r = None
          \<and> rg_after_revision r = map_option sr_revision (bt_get after path))"

lemma record_difference_total:
  assumes "proper_index before" "proper_index after"
  obtains cs where "record_difference before after path = Ok cs" "plain_effect before after path cs"
proof -
  have proper: "canonical_path path \<and> sr_revision r \<noteq> ''''"
    if "bt_get before path = Some r \<or> bt_get after path = Some r" for r
    using that assms by (auto simp: proper_index_def)
  have effect: "\<exists>c. bind_res (diff_record_change kind path None b a) (\<lambda>c. Ok [RecordEffect c]) = Ok [RecordEffect c]
      \<and> as_path (rg_path c) = path \<and> rg_from c = None \<and> rg_after_revision c = map_option sr_revision a"
    if "b = bt_get before path" "a = bt_get after path" "b \<noteq> None \<or> a \<noteq> None" for kind b a
  proof -
    have rev: "\<forall>r. b = Some r \<longrightarrow> sr_revision r \<noteq> ''''" "\<forall>r. a = Some r \<longrightarrow> sr_revision r \<noteq> ''''"
      using that(1,2) proper by auto
    have "canonical_path path" using that proper by auto
    from diff_record_change_total [OF this rev, of kind None] show ?thesis by (metis bind_res.simps(1) collection_path.sel)
  qed
  show ?thesis
  proof (cases "bt_get before path = None \<and> bt_get after path = None")
    case True
    then show ?thesis by (intro that [of "[]"]) (simp_all add: record_difference_def plain_effect_def)
  next
    case changed: False
    show ?thesis
    proof (cases "map_option sr_revision (bt_get before path) = map_option sr_revision (bt_get after path)")
      case True
      then show ?thesis using changed
        by (intro that [of "[]"]) (auto simp: record_difference_def plain_effect_def split: option.splits)
    next
      case False
      let ?kind = "if bt_get before path = None then ChangeCreated
        else if bt_get after path = None then ChangeDeleted else ChangeUpdated"
      have kind: "record_difference before after path
          = bind_res (diff_record_change ?kind path None (bt_get before path) (bt_get after path))
              (\<lambda>c. Ok [RecordEffect c])"
        using False changed
        by (cases "bt_get before path"; cases "bt_get after path") (auto simp: record_difference_def)
      from effect [OF refl refl, of ?kind] changed obtain c where
        "record_difference before after path = Ok [RecordEffect c]" "as_path (rg_path c) = path"
        "rg_from c = None" "rg_after_revision c = map_option sr_revision (bt_get after path)"
        using kind by auto
      then show ?thesis by (intro that [of "[RecordEffect c]"]) (auto simp: plain_effect_def)
    qed
  qed
qed

section \<open>Disjoint changes\<close>

lemma apartI:
  assumes "sorted_wrt (\<lambda>c d. touches c \<inter> touches d = {}) cs" "\<forall>c \<in> set cs. touches c \<noteq> {}"
  shows "apart cs"
  using assms
proof (induction cs)
  case (Cons c cs)
  then show ?case by (fastforce simp: apart_def)
qed (simp add: apart_def)

lemma rename_effects_apart:
  assumes "list_all2 (rename_effect after) es cs"
    and "\<forall>e \<in> set es. proven_pair before after e"
    and "distinct (map (as_path \<circ> fst) es)" "distinct (map (as_path \<circ> snd) es)"
  shows "sorted_wrt (\<lambda>c d. touches c \<inter> touches d = {}) cs"
    and "\<forall>c \<in> set cs. \<exists>e \<in> set es. touches c = {as_path (fst e), as_path (snd e)}"
proof -
  have len: "length cs = length es" using assms(1) by (simp add: list_all2_lengthD)
  have t: "touches (cs ! i) = {as_path (fst (es ! i)), as_path (snd (es ! i))}" if "i < length es" for i
    using list_all2_nthD [OF assms(1) that] by (auto simp: rename_effect_def touches_def)
  have ne: "as_path (fst (es ! i)) \<noteq> as_path (snd (es ! j))" if "i < length es" "j < length es" for i j
  proof -
    have "proven_pair before after (es ! i)" "proven_pair before after (es ! j)"
      using assms(2) that by simp_all
    then show ?thesis by (auto simp: proven_pair_def)
  qed
  have "as_path (fst (es ! i)) \<noteq> as_path (fst (es ! j))" "as_path (snd (es ! i)) \<noteq> as_path (snd (es ! j))"
    if "i < j" "j < length es" for i j
    using assms(3,4) that by (auto simp: distinct_conv_nth)
  then show "sorted_wrt (\<lambda>c d. touches c \<inter> touches d = {}) cs"
    using ne t len by (auto simp: sorted_wrt_iff_nth_less)
  show "\<forall>c \<in> set cs. \<exists>e \<in> set es. touches c = {as_path (fst e), as_path (snd e)}"
    using t len by (auto simp: in_set_conv_nth) (metis nth_mem)
qed

lemma differences_apart:
  assumes "list_all2 (\<lambda>p cs. length cs \<le> 1 \<and> (\<forall>c \<in> set cs. touches c = {p})) ps css" "distinct ps"
  shows "sorted_wrt (\<lambda>c d. touches c \<inter> touches d = {}) (concat css)"
    and "\<forall>c \<in> set (concat css). \<exists>p \<in> set ps. touches c = {p}"
  using assms
proof (induction ps css rule: list_all2_induct)
  case (Cons p ps cs css)
  { case 1
    have "sorted_wrt (\<lambda>c d. touches c \<inter> touches d = {}) cs" using Cons.hyps by (cases cs) auto
    moreover have "touches c \<inter> touches d = {}" if "c \<in> set cs" "d \<in> set (concat css)" for c d
      using Cons.IH(2) that Cons.hyps 1 by fastforce
    ultimately show ?case using Cons.IH(1) 1 by (auto simp: sorted_wrt_append)
  next
    case 2
    then show ?case using Cons.IH(2) Cons.hyps by auto
  }
qed simp_all


section \<open>Replay of record changes\<close>

lemma touches_plain:
  "as_path (rg_path r) = p \<Longrightarrow> rg_from r = None \<Longrightarrow> touches (RecordEffect r) = {p}"
  by (simp add: touches_def)

lemma replay_plain:
  "rg_from r = None \<Longrightarrow> replay_record Map.empty (RecordEffect r) (as_path (rg_path r)) = rg_after_revision r"
  by (simp add: replay_record_def)

lemma list_all2_left: "list_all2 P xs ys \<Longrightarrow> x \<in> set xs \<Longrightarrow> \<exists>y \<in> set ys. P x y"
  by (induction rule: list_all2_induct) auto

lemma list_all2_right: "list_all2 P xs ys \<Longrightarrow> y \<in> set ys \<Longrightarrow> \<exists>x \<in> set xs. P x y"
  by (induction rule: list_all2_induct) auto

lemma map_res_obtain:
  assumes "\<And>x. x \<in> set xs \<Longrightarrow> \<exists>y. f x = Ok y \<and> P x y"
  obtains ys where "map_res f xs = Ok ys" "list_all2 P xs ys"
proof -
  obtain ys where ys: "map_res f xs = Ok ys" using map_res_total [of xs f] assms by blast
  then have "list_all2 (\<lambda>x y. f x = Ok y) xs ys" by (simp add: map_res_Ok_iff)
  then have "list_all2 P xs ys"
    by (rule list.rel_mono_strong) (use assms in fastforce)
  with ys show ?thesis by (rule that)
qed

lemma plain_effect_touches: "plain_effect before after path cs \<Longrightarrow> c \<in> set cs \<Longrightarrow> touches c = {path}"
  by (auto simp: plain_effect_def touches_plain)

lemma record_differences_obtain:
  assumes "proper_index before" "proper_index after"
  obtains css where "map_res (record_difference before after) ps = Ok css"
    "list_all2 (plain_effect before after) ps css"
proof (rule map_res_obtain [of ps "record_difference before after" "plain_effect before after"])
  fix path
  show "\<exists>cs. record_difference before after path = Ok cs \<and> plain_effect before after path cs"
    by (rule record_difference_total [OF assms, where path = path]) blast
qed

lemma differences_replay:
  assumes effects: "list_all2 (plain_effect before after) ps css"
    and ps: "\<And>p. bt_get before p \<noteq> None \<or> bt_get after p \<noteq> None \<Longrightarrow> p \<in> set ps"
    and single: "\<And>c p. c \<in> set (concat css) \<Longrightarrow> p \<in> touches c \<Longrightarrow> final p = replay_record Map.empty c p"
    and others: "\<And>p. (\<forall>c \<in> set (concat css). p \<notin> touches c) \<Longrightarrow> final p = map_option sr_revision (bt_get before p)"
  shows "final p = map_option sr_revision (bt_get after p)"
proof (cases "\<exists>c \<in> set (concat css). p \<in> touches c")
  case True
  then obtain c where c: "c \<in> set (concat css)" "p \<in> touches c" by blast
  then obtain cs where cs: "cs \<in> set css" "c \<in> set cs" by auto
  from list_all2_right [OF effects cs(1)] obtain q where q: "plain_effect before after q cs" by blast
  with cs(2) c(2) obtain r where "c = RecordEffect r" "as_path (rg_path r) = p" "rg_from r = None"
    "rg_after_revision r = map_option sr_revision (bt_get after p)"
    by (auto simp: plain_effect_def touches_plain)
  then show ?thesis using single [OF c] replay_plain [of r] by simp
next
  case False
  have "map_option sr_revision (bt_get before p) = map_option sr_revision (bt_get after p)"
  proof (cases "p \<in> set ps")
    case True
    then obtain cs where cs: "cs \<in> set css" "plain_effect before after p cs"
      using list_all2_left [OF effects] by blast
    have "cs = []"
    proof (rule ccontr)
      assume "cs \<noteq> []"
      then obtain c where "c \<in> set cs" by (cases cs) auto
      with plain_effect_touches [OF cs(2)] cs(1) False show False by auto
    qed
    with cs(2) show ?thesis by (simp add: plain_effect_def)
  next
    case False
    then show ?thesis using ps [of p] by (metis option.map_disc_iff)
  qed
  then show ?thesis using others [of p] False by auto
qed

lemma records_replay:
  assumes proper: "proper_index before" "proper_index after"
    and pairs: "\<forall>e \<in> set es. proven_pair before after e"
    and dist: "distinct (map (as_path \<circ> fst) es)" "distinct (map (as_path \<circ> snd) es)"
  obtains renames before' after' css where
    "rename_changes es before after = Ok (renames, before', after')"
    "map_res (record_difference before' after') (btree_set (bt_keys before' @ bt_keys after')) = Ok css"
    "apart (renames @ concat css)"
    "\<forall>c \<in> set (renames @ concat css). \<exists>r. c = RecordEffect r"
    "\<forall>ds. mset ds = mset (renames @ concat css) \<longrightarrow>
       foldl replay_record (\<lambda>p. map_option sr_revision (bt_get before p)) ds
         = (\<lambda>p. map_option sr_revision (bt_get after p))"
proof -
  from rename_changes_total [OF proper pairs dist] obtain renames before' after' where
    ren: "rename_changes es before after = Ok (renames, before', after')" and
    proper': "proper_index before'" "proper_index after'" and
    get': "\<forall>p. bt_get before' p = (if p \<in> (as_path \<circ> fst) ` set es then None else bt_get before p)"
      "\<forall>p. bt_get after' p = (if p \<in> (as_path \<circ> snd) ` set es then None else bt_get after p)" and
    effects: "list_all2 (rename_effect after) es renames"
    by blast
  let ?ps = "btree_set (bt_keys before' @ bt_keys after')"
  obtain css where css: "map_res (record_difference before' after') ?ps = Ok css"
    and plain: "list_all2 (plain_effect before' after') ?ps css"
    by (rule record_differences_obtain [OF proper'])
  note rename_apart = rename_effects_apart [OF effects pairs dist]
  have diffs: "list_all2 (\<lambda>p cs. length cs \<le> 1 \<and> (\<forall>c \<in> set cs. touches c = {p})) ?ps css"
    by (rule list.rel_mono_strong [OF plain]) (auto simp: plain_effect_def touches_plain)
  have "distinct ?ps" by (simp add: btree_set_def)
  note diff_apart = differences_apart [OF diffs this]
  have outside: "p \<notin> {as_path (fst e), as_path (snd e)}" if "p \<in> set ?ps" "e \<in> set es" for p e
    using that pairs get' by (fastforce simp: set_bt_keys bt_contains_def proven_pair_def split: if_splits)
  have cross: "touches c \<inter> touches d = {}" if "c \<in> set renames" "d \<in> set (concat css)" for c d
    using rename_apart(2) diff_apart(2) outside that by fastforce
  have apart: "apart (renames @ concat css)"
  proof (rule apartI)
    show "sorted_wrt (\<lambda>c d. touches c \<inter> touches d = {}) (renames @ concat css)"
      using rename_apart(1) diff_apart(1) cross by (simp add: sorted_wrt_append)
    show "\<forall>c \<in> set (renames @ concat css). touches c \<noteq> {}"
      using rename_apart(2) diff_apart(2) by fastforce
  qed
  show ?thesis
  proof (rule that [OF ren css apart])
    have "\<exists>r. c = RecordEffect r" if "c \<in> set renames" for c
      using list_all2_right [OF effects that] by (auto simp: rename_effect_def)
    moreover have "\<exists>r. c = RecordEffect r" if "c \<in> set (concat css)" for c
      using list_all2_right [OF plain] that by (fastforce simp: plain_effect_def)
    ultimately show "\<forall>c \<in> set (renames @ concat css). \<exists>r. c = RecordEffect r" by auto
  next
    show "\<forall>ds. mset ds = mset (renames @ concat css) \<longrightarrow>
       foldl replay_record (\<lambda>p. map_option sr_revision (bt_get before p)) ds
         = (\<lambda>p. map_option sr_revision (bt_get after p))"
    proof (intro allI impI ext)
    fix ds p assume ds: "mset ds = mset (renames @ concat css)"
    let ?final = "foldl replay_record (\<lambda>p. map_option sr_revision (bt_get before p)) ds"
    note one = replay_apart_mset [OF apart ds]
    have set_ds: "set ds = set renames \<union> set (concat css)" using mset_eq_setD [OF ds] by simp
      show "?final p = map_option sr_revision (bt_get after p)"
      proof (cases "\<exists>e \<in> set es. p = as_path (fst e) \<or> p = as_path (snd e)")
        case True
        then obtain e where e: "e \<in> set es" "p = as_path (fst e) \<or> p = as_path (snd e)" by blast
        then obtain c where c: "c \<in> set renames" "rename_effect after e c"
          using list_all2_left [OF effects e(1)] by blast
        have pe: "proven_pair before after e" using pairs e(1) by blast
        have "p \<in> touches c" using c(2) e(2) by (auto simp: rename_effect_def touches_def)
        then have "?final p = replay_record Map.empty c p" using one c(1) by simp
        also have "\<dots> = map_option sr_revision (bt_get after p)"
          using c(2) e(2) pe by (auto simp: rename_effect_def replay_record_def proven_pair_def bt_contains_def)
        finally show ?thesis .
      next
        case False
        define final where "final = (\<lambda>q. if \<exists>e \<in> set es. q = as_path (fst e) \<or> q = as_path (snd e)
          then map_option sr_revision (bt_get after' q) else ?final q)"
        have "final p = map_option sr_revision (bt_get after' p)"
        proof (rule differences_replay [OF plain])
          fix q assume "bt_get before' q \<noteq> None \<or> bt_get after' q \<noteq> None"
          then show "q \<in> set ?ps" by (auto simp: set_bt_keys bt_contains_def)
        next
          fix c q assume c: "c \<in> set (concat css)" "q \<in> touches c"
          then have "q \<in> set ?ps" using diff_apart(2) by fastforce
          then have "final q = ?final q" using outside unfolding final_def by auto
          then show "final q = replay_record Map.empty c q" using one [OF _ c(2)] c(1) by simp
        next
          fix q assume q: "\<forall>c \<in> set (concat css). q \<notin> touches c"
          show "final q = map_option sr_revision (bt_get before' q)"
          proof (cases "\<exists>e \<in> set es. q = as_path (fst e) \<or> q = as_path (snd e)")
            case True
            then show ?thesis using get' pairs by (auto simp: final_def proven_pair_def bt_contains_def)
          next
            case False
            then have "\<forall>c \<in> set ds. q \<notin> touches c" using q rename_apart(2) set_ds by fastforce
            then show ?thesis using replay_apart_none False get' by (auto simp: final_def)
          qed
        qed
        then show ?thesis using False get' by (auto simp: final_def)
      qed
    qed
  qed
qed

end
