(* ===== verification/Change_Properties.thy ===== *)
theory Change_Properties
  imports Change_Replay
begin

text \<open>
  Correctness of canonical changes: the changed fields of a record and the replay of a snapshot
  difference.
\<close>

section \<open>Changed fields\<close>

lemma pointer_tokens_follow:
  assumes "differs_at (Some v) w ks \<or> differs_at w (Some v) ks"
  shows "pointer_tokens v ks = follow (Some v) ks"
  using assms
proof (induction ks arbitrary: v w)
  case (Cons k ks)
  then obtain m n where v: "v = JObj m" and w: "w = Some (JObj n)" by (auto simp: object_at_iff)
  show ?case
  proof (cases "bt_get m k")
    case None
    then show ?thesis using Cons.prems v by (cases ks) auto
  next
    case (Some x)
    then show ?thesis using Cons.IH [of x "bt_get n k"] Cons.prems v w by auto
  qed
qed simp

lemma jpointer_pointer_text:
  "ks \<noteq> [] \<Longrightarrow> jpointer v (pointer_text ks) = pointer_tokens v ks"
proof (cases ks)
  case (Cons k ks')
  have "map unescape_token (split_on (CHR ''/'') (escape_token k @ pointer_text ks')) = k # ks'"
    by (simp add: split_on_pointer comp_def)
  then show ?thesis using Cons by (simp add: jpointer_def)
qed simp

text \<open>
  C25: The changed fields of a record are exactly its minimal differences. For any two frontmatters the
  reported JSON pointers are those of the key paths at which the values differ while both sides are
  objects above and not both objects there; each names, by pointer evaluation, different values in
  the two records; none is reported iff the frontmatters are equal; and they always form a
  canonical field set.
\<close>

theorem changed_fields_exact:
  assumes "json_wf (JObj before)" and "json_wf (JObj after)"
  shows "set (changed_frontmatter before after)
      = pointer_text ` {ks. differs_at (Some (JObj before)) (Some (JObj after)) ks}
    \<and> (changed_frontmatter before after = [] \<longleftrightarrow> before = after)
    \<and> (\<forall>p \<in> set (changed_frontmatter before after). jpointer (JObj before) p \<noteq> jpointer (JObj after) p)
    \<and> canonical_field_changes before after = Ok (changed_frontmatter before after)"
proof (intro conjI ballI)
  let ?d = "differs_at (Some (JObj before)) (Some (JObj after))"
  show "set (changed_frontmatter before after) = pointer_text ` {ks. ?d ks}"
    by (rule changed_frontmatter_set)
  have "changed_frontmatter before after = [] \<longleftrightarrow> {ks. ?d ks} = {}"
    using changed_frontmatter_set [of before after] by (metis image_is_empty set_empty)
  also have "\<dots> \<longleftrightarrow> before = after"
    using differs_at_complete [OF assms] differs_at_irrefl by auto
  finally show "changed_frontmatter before after = [] \<longleftrightarrow> before = after" .
  show "canonical_field_changes before after = Ok (changed_frontmatter before after)"
    using canonical_field_change_set_Ok [of "changed_frontmatter before after"] changed_frontmatter_canonical
    by (simp add: canonical_field_changes_def changed_frontmatter_def btree_set_def sort_key_id_if_sorted
          distinct_remdups_id)
  fix p assume "p \<in> set (changed_frontmatter before after)"
  then obtain ks where p: "p = pointer_text ks" and d: "?d ks" unfolding changed_frontmatter_set by blast
  then show "jpointer (JObj before) p \<noteq> jpointer (JObj after) p"
    using pointer_tokens_follow [of "JObj before" _ ks] pointer_tokens_follow [of "JObj after" _ ks]
      follow_differs [OF d] differs_at_object [OF d] by (simp add: jpointer_pointer_text) metis
qed

theorem changed_fields_exact_witness:
  "changed_frontmatter [(''due'', JStr ''today''), (''meta'', JObj [(''a/b'', JBool True), (''c'', JNull)])]
       [(''meta'', JObj [(''a/b'', JBool False), (''c'', JNull)])]
     = [''/due'', ''/meta/a~1b'']
   \<and> jpointer (JObj [(''due'', JStr ''today''), (''meta'', JObj [(''a/b'', JBool True), (''c'', JNull)])]) ''/meta/a~1b''
     \<noteq> jpointer (JObj [(''meta'', JObj [(''a/b'', JBool False), (''c'', JNull)])]) ''/meta/a~1b''"
proof -
  let ?b = "[(''due'', JStr ''today''), (''meta'', JObj [(''a/b'', JBool True), (''c'', JNull)])]"
  let ?a = "[(''meta'', JObj [(''a/b'', JBool False), (''c'', JNull)])]"
  have wf: "json_wf (JObj ?b)" "json_wf (JObj ?a)" by code_simp+
  have eq: "changed_frontmatter ?b ?a = [''/due'', ''/meta/a~1b'']" by code_simp
  show ?thesis using changed_fields_exact [OF wf] eq by simp
qed

section \<open>Resource changes\<close>

lemma foldl_update_apart:
  assumes "distinct (map key ds)" "\<forall>m. \<forall>c \<in> set ds. f m c = m(key c := val c)"
  shows "c \<in> set ds \<Longrightarrow> foldl f m ds (key c) = val c"
    and "p \<notin> key ` set ds \<Longrightarrow> foldl f m ds p = m p"
  using assms
proof (induction ds arbitrary: m p)
  case (Cons d ds)
  { case 1
    show ?case
    proof (cases "c = d")
      case True
      then have "key c \<notin> key ` set ds" using 1 by auto
      then show ?thesis using Cons.IH(2) [where p = "key c"] 1 True by simp
    next
      case False
      then show ?thesis using Cons.IH(1) 1 by simp
    qed
  next
    case 2
    then show ?case using Cons.IH(2) [where p = p] by simp
  }
qed simp_all

fun resource_path :: "canonical_change \<Rightarrow> string" where
  "resource_path (ResourceEffect r) = as_path (rs_path r)"
| "resource_path (RecordEffect r) = ''''"

fun resource_after :: "canonical_change \<Rightarrow> string option" where
  "resource_after (ResourceEffect r) = rs_after_revision r"
| "resource_after (RecordEffect r) = None"

fun is_resource :: "canonical_change \<Rightarrow> bool" where
  "is_resource (ResourceEffect r) = True"
| "is_resource (RecordEffect r) = False"

type_synonym resource_index = "(string, snapshot_resource) btree"

definition proper_resources :: "resource_index \<Rightarrow> bool" where
  "proper_resources m \<longleftrightarrow> (\<forall>p r. bt_get m p = Some r \<longrightarrow> canonical_path p \<and> sc_revision r \<noteq> '''')"

lemma proper_resources_by: "proper_snapshot s \<Longrightarrow> proper_resources (index_by sc_path (cs_resources s))"
  using index_by_get [of sc_path "cs_resources s"]
  by (fastforce simp: proper_resources_def proper_snapshot_def)

definition resource_effect :: "resource_index \<Rightarrow> resource_index \<Rightarrow> string \<Rightarrow> canonical_change list \<Rightarrow> bool" where
  "resource_effect before after path cs \<longleftrightarrow>
     (cs = [] \<and> map_option sc_revision (bt_get before path) = map_option sc_revision (bt_get after path))
     \<or> (\<exists>r. cs = [ResourceEffect r] \<and> as_path (rs_path r) = path
          \<and> rs_after_revision r = map_option sc_revision (bt_get after path))"

lemma resource_difference_total:
  assumes "proper_resources before" "proper_resources after"
  shows "\<exists>cs. resource_difference before after path = Ok cs \<and> resource_effect before after path cs"
proof (cases "map_option sc_revision (bt_get before path) = map_option sc_revision (bt_get after path)")
  case True
  then show ?thesis by (simp add: resource_difference_def resource_effect_def)
next
  case False
  have rev: "map_option_res (\<lambda>r. diff_revision (sc_revision r)) (bt_get m path) = Ok (map_option sc_revision (bt_get m path))"
    if "proper_resources m" for m
    using that by (cases "bt_get m path") (auto simp: proper_resources_def map_option_res_def diff_revision_def revision_parse_def)
  have some: "bt_get before path \<noteq> None \<or> bt_get after path \<noteq> None" using False by auto
  then have "canonical_path path" using assms by (auto simp: proper_resources_def)
  from diff_path_canonical [OF this] show ?thesis
    using False some rev [OF assms(1)] rev [OF assms(2)]
    by (cases "bt_get before path"; cases "bt_get after path")
       (auto simp: resource_difference_def resource_effect_def Let_def)
qed

lemma resource_effects_paths:
  assumes "list_all2 (resource_effect before after) ps css"
  shows "distinct ps \<Longrightarrow> distinct (map resource_path (concat css))"
    and "set (map resource_path (concat css)) \<subseteq> set ps"
    and "\<forall>c \<in> set (concat css). is_resource c \<and> resource_after c = map_option sc_revision (bt_get after (resource_path c))"
  using assms
  by (induction ps css rule: list_all2_induct) (auto simp: resource_effect_def image_subset_iff)

lemma resources_replay:
  assumes effects: "list_all2 (resource_effect before after) ps css" and "distinct ps"
    and ps: "\<And>p. bt_get before p \<noteq> None \<or> bt_get after p \<noteq> None \<Longrightarrow> p \<in> set ps"
    and ds: "mset (filter is_resource ds) = mset (concat css)"
  shows "foldl replay_resource (\<lambda>p. map_option sc_revision (bt_get before p)) ds
    = (\<lambda>p. map_option sc_revision (bt_get after p))"
proof
  fix p
  let ?m = "\<lambda>p. map_option sc_revision (bt_get before p)" and ?rs = "filter is_resource ds"
  note facts = resource_effects_paths [OF effects]
  have drop: "foldl replay_resource m ds = foldl replay_resource m ?rs" for m
    by (induction ds arbitrary: m) (auto simp: replay_resource_def split: canonical_change.splits)
  have "replay_resource m c = m(resource_path c := resource_after c)" if "is_resource c" for m c
    using that by (cases c) (simp_all add: replay_resource_def)
  then have upd: "\<forall>m. \<forall>c \<in> set ?rs. replay_resource m c = m(resource_path c := resource_after c)" by simp
  have same: "set ?rs = set (concat css)" using mset_eq_setD [OF ds] by simp
  have "mset (map resource_path ?rs) = mset (map resource_path (concat css))" using ds by simp
  then have dist: "distinct (map resource_path ?rs)"
    using facts(1) [OF \<open>distinct ps\<close>] by (metis mset_eq_imp_distinct_iff)
  note fold = foldl_update_apart [OF dist upd]
  show "foldl replay_resource ?m ds p = map_option sc_revision (bt_get after p)"
  proof (cases "p \<in> resource_path ` set ?rs")
    case True
    then obtain c where c: "c \<in> set ?rs" "p = resource_path c" by blast
    have "c \<in> set (concat css)" using c(1) unfolding same .
    then have "resource_after c = map_option sc_revision (bt_get after p)" using facts(3) c(2) by blast
    then show ?thesis using fold(1) [OF c(1)] c(2) drop by simp
  next
    case False
    then have "foldl replay_resource ?m ds p = ?m p" using fold(2) [OF False] drop by simp
    also have "\<dots> = map_option sc_revision (bt_get after p)"
    proof (cases "p \<in> set ps")
      case True
      then obtain cs where cs: "cs \<in> set css" "resource_effect before after p cs"
        using list_all2_left [OF effects] by blast
      have "cs = []"
      proof (rule ccontr)
        assume "cs \<noteq> []"
        with cs(2) obtain r where r: "cs = [ResourceEffect r]" "as_path (rs_path r) = p"
          by (auto simp: resource_effect_def)
        then have "ResourceEffect r \<in> set ?rs" unfolding same using cs(1) by force
        then have "resource_path (ResourceEffect r) \<in> resource_path ` set ?rs" by (rule imageI)
        with False r(2) show False by simp
      qed
      with cs(2) show ?thesis by (simp add: resource_effect_def)
    next
      case False
      then show ?thesis using ps [of p] by (metis option.map_disc_iff)
    qed
    finally show ?thesis .
  qed
qed

section \<open>Batches\<close>

lemma change_batch_new_total:
  assumes "distinct (map ordering_key cs)" "\<forall>c. is_ok (dh_jcs h c)"
  shows "\<exists>batch. change_batch_new h cs = Ok batch"
proof -
  let ?s = "sort_key ordering_key cs"
  have "mset (map ordering_key ?s) = mset (map ordering_key cs)" by simp
  then have dist: "distinct (map ordering_key ?s)" using assms(1) by (metis mset_eq_imp_distinct_iff)
  have "\<not> list_ex (\<lambda>i. ordering_key (?s ! i) = ordering_key (?s ! (i + 1))) [0..<length ?s - 1]"
    using dist by (auto simp: list_ex_iff distinct_conv_nth)
  moreover have "\<exists>bytes. map_res (\<lambda>item. map_err_path InvalidChangeSet (dh_jcs h item)) ?s = Ok bytes"
    by (rule map_res_total) (use assms(2) in \<open>auto simp: is_ok_iff\<close>, metis map_err_path.simps(1))
  ultimately show ?thesis by (auto simp: change_batch_new_def Let_def)
qed


section \<open>Replaying a difference\<close>

lemma record_keys_distinct:
  assumes "apart cs" "\<forall>c \<in> set cs. \<exists>r. c = RecordEffect r"
  shows "distinct (map ordering_key cs)"
proof -
  have "inj_on ordering_key (set cs)"
  proof (rule inj_onI)
    fix c d assume cd: "c \<in> set cs" "d \<in> set cs" "ordering_key c = ordering_key d"
    then obtain r s where "c = RecordEffect r" "d = RecordEffect s" using assms(2) by blast
    then have "as_path (rg_path r) \<in> touches c \<inter> touches d" using cd(3) by (simp add: touches_def)
    then show "c = d" using assms(1) cd by (auto simp: apart_def)
  qed
  then show ?thesis using assms(1) by (simp add: distinct_map apart_def)
qed

lemma resource_keys_distinct:
  assumes "distinct (map resource_path cs)" "\<forall>c \<in> set cs. is_resource c"
  shows "distinct (map ordering_key cs)"
proof -
  have "resource_path c = fst (snd (ordering_key c))" if "is_resource c" for c using that by (cases c) simp_all
  then have "map resource_path cs = map (fst \<circ> snd) (map ordering_key cs)" using assms(2) by simp
  then show ?thesis using assms(1) by (metis distinct_map)
qed

lemma keys_apart:
  assumes "\<forall>c \<in> set cs. \<exists>r. c = RecordEffect r" "\<forall>c \<in> set ds. is_resource c"
  shows "ordering_key ` set cs \<inter> ordering_key ` set ds = {}"
proof -
  have "fst (ordering_key d) \<noteq> 0" if "is_resource d" for d using that by (cases d) simp_all
  moreover have "fst (ordering_key c) = 0" if "\<exists>r. c = RecordEffect r" for c using that by auto
  ultimately show ?thesis using assms by (metis (no_types, lifting) disjoint_iff imageE)
qed

lemma distinct_as_path: "distinct (map f xs) \<Longrightarrow> distinct (map (as_path \<circ> f) xs)"
  by (simp add: distinct_map inj_on_def collection_path.expand)

text \<open>
  C24: The canonical changes of two snapshots replay the difference. For captured snapshots (canonical
  paths, revisions that are not empty) and a request whose renames have distinct sources and
  distinct targets, the difference is always computed, and applying the changes of the batch in
  their canonical order to the record revisions and to the resource revisions of the first
  snapshot yields exactly those of the second; the changes are in strictly ascending order.
\<close>

theorem snapshot_diff_replays:
  assumes "proper_snapshot before" and "proper_snapshot after" and "\<forall>c. is_ok (dh_jcs h c)"
    and "distinct (map fst (proven_requested_renames request (index_by sr_path (cs_records before))
      (index_by sr_path (cs_records after))))"
    and "distinct (map snd (proven_requested_renames request (index_by sr_path (cs_records before))
      (index_by sr_path (cs_records after))))"
  shows "\<exists>batch. canonical_changes h before after request = Ok batch
    \<and> foldl replay_record (record_revisions before) (cb_items batch) = record_revisions after
    \<and> foldl replay_resource (resource_revisions before) (cb_items batch) = resource_revisions after
    \<and> sorted_wrt (<) (map ordering_key (cb_items batch))"
proof -
  let ?B = "index_by sr_path (cs_records before)" and ?A = "index_by sr_path (cs_records after)"
  let ?C = "index_by sc_path (cs_resources before)" and ?D = "index_by sc_path (cs_resources after)"
  let ?es = "proven_requested_renames request ?B ?A" and ?qs = "btree_set (bt_keys ?C @ bt_keys ?D)"
  have pairs: "\<forall>e \<in> set ?es. proven_pair ?B ?A e" using proven_requested_renames_pairs by blast
  obtain renames B' A' css where
    ren: "rename_changes ?es ?B ?A = Ok (renames, B', A')" and
    diff: "map_res (record_difference B' A') (btree_set (bt_keys B' @ bt_keys A')) = Ok css" and
    rec: "apart (renames @ concat css)" "\<forall>c \<in> set (renames @ concat css). \<exists>r. c = RecordEffect r" and
    replay: "\<forall>ds. mset ds = mset (renames @ concat css) \<longrightarrow>
       foldl replay_record (\<lambda>p. map_option sr_revision (bt_get ?B p)) ds
         = (\<lambda>p. map_option sr_revision (bt_get ?A p))"
    by (rule records_replay [OF proper_index_by [OF assms(1)] proper_index_by [OF assms(2)] pairs
          distinct_as_path [OF assms(4)] distinct_as_path [OF assms(5)]])
  obtain rcs where res: "map_res (resource_difference ?C ?D) ?qs = Ok rcs"
    and effects: "list_all2 (resource_effect ?C ?D) ?qs rcs"
    by (rule map_res_obtain [of ?qs "resource_difference ?C ?D" "resource_effect ?C ?D"])
       (rule resource_difference_total [OF proper_resources_by [OF assms(1)] proper_resources_by [OF assms(2)]])
  have dist_qs: "distinct ?qs" by (simp add: btree_set_def)
  note resources = resource_effects_paths [OF effects]
  have is_res: "\<forall>c \<in> set (concat rcs). is_resource c" using resources(3) by blast
  let ?all = "renames @ concat css @ concat rcs"
  have "distinct (map ordering_key ((renames @ concat css) @ concat rcs))"
    using record_keys_distinct [OF rec, unfolded map_append distinct_append set_map] resource_keys_distinct [OF resources(1) [OF dist_qs] is_res]
      keys_apart [OF rec(2) is_res, unfolded set_append image_Un]
    unfolding map_append distinct_append set_map image_Un set_append by blast
  then obtain batch where batch: "change_batch_new h ?all = Ok batch"
    using change_batch_new_total [OF _ assms(3)] by fastforce
  note items = change_batch_new_Ok [OF batch]
  have not_res: "\<forall>c \<in> set (renames @ concat css). \<not> is_resource c" using rec(2) by (metis is_resource.simps(2))
  have recs: "filter (\<lambda>c. \<not> is_resource c) (renames @ concat css) = renames @ concat css"
    "filter is_resource (renames @ concat css) = []"
    using not_res by (simp_all only: filter_id_conv filter_empty_conv)
  have ress: "filter (\<lambda>c. \<not> is_resource c) (concat rcs) = []" "filter is_resource (concat rcs) = concat rcs"
    using is_res by (auto simp: filter_id_conv filter_empty_conv)
  have drop: "foldl replay_record m ds = foldl replay_record m (filter (\<lambda>c. \<not> is_resource c) ds)" for m ds
    by (induction ds arbitrary: m) (auto simp: replay_record_def split: canonical_change.splits)
  have kept: "mset (filter P (cb_items batch)) = mset (filter P ?all)" for P
    using items(1) by (simp only: mset_filter)
  have split: "filter (\<lambda>c. \<not> is_resource c) ?all = renames @ concat css"
    "filter is_resource ?all = concat rcs"
    by (metis append.assoc append_Nil append_Nil2 filter_append recs ress)+
  have parts: "mset (filter (\<lambda>c. \<not> is_resource c) (cb_items batch)) = mset (renames @ concat css)"
    "mset (filter is_resource (cb_items batch)) = mset (concat rcs)"
    by (simp_all only: kept split)
  have "foldl replay_record (record_revisions before) (cb_items batch) = record_revisions after"
    using replay [rule_format, OF parts(1)] drop [of "record_revisions before" "cb_items batch"]
    by (simp add: record_revisions_def [abs_def])
  moreover have "foldl replay_resource (resource_revisions before) (cb_items batch) = resource_revisions after"
    using resources_replay [OF effects dist_qs _ parts(2)]
    by (auto simp: resource_revisions_def [abs_def] set_bt_keys bt_contains_def)
  moreover have "canonical_changes h before after request = Ok batch"
    using ren diff res batch by (simp add: canonical_changes_def Let_def)
  ultimately show ?thesis using items(2) by blast
qed


definition ex_record :: "string \<Rightarrow> string \<Rightarrow> snapshot_record" where
  "ex_record path revision =
     \<lparr>sr_path = path, sr_revision = revision, sr_frontmatter = [(''title'', JStr revision)], sr_body = '''',
      sr_types = [''task''], sr_document = '''', sr_frontmatter_error = None\<rparr>"

definition ex_snapshot :: "snapshot_record list \<Rightarrow> string \<Rightarrow> collection_snapshot" where
  "ex_snapshot records revision =
     \<lparr>cs_revision = '''', cs_resource_revision = '''', cs_spec_version = ''0.3.0'',
      cs_resources = [\<lparr>sc_path = ''mdbase.yaml'', sc_kind = ResConfiguration, sc_revision = revision,
        sc_document = ''''\<rparr>],
      cs_records = records\<rparr>"

definition ex_before :: collection_snapshot where
  "ex_before = ex_snapshot [ex_record ''a.md'' ''r1'', ex_record ''b.md'' ''r2''] ''c1''"

definition ex_after :: collection_snapshot where
  "ex_after = ex_snapshot [ex_record ''b.md'' ''r3'', ex_record ''c.md'' ''r1''] ''c2''"

definition ex_request :: operation_request where
  "ex_request = \<lparr>rq_operation = OpRename,
     rq_input = JObj [(''from'', JStr ''a.md''), (''to'', JStr ''c.md'')]\<rparr>"

definition ex_digest :: digest_host where
  "ex_digest = \<lparr>dh_jcs = (\<lambda>c. Ok (fst (snd (ordering_key c)))), dh_sha256 = id\<rparr>"

theorem snapshot_diff_replays_witness:
  "proven_requested_renames (Some ex_request) (index_by sr_path (cs_records ex_before))
       (index_by sr_path (cs_records ex_after)) = [(CollectionPath ''a.md'', CollectionPath ''c.md'')]
   \<and> (\<exists>batch. canonical_changes ex_digest ex_before ex_after (Some ex_request) = Ok batch
        \<and> foldl replay_record (record_revisions ex_before) (cb_items batch) = record_revisions ex_after)"
proof -
  have canon: "canonical_path ''a.md''" "canonical_path ''b.md''" "canonical_path ''c.md''"
    "canonical_path ''mdbase.yaml''"
    unfolding canonical_path_def by code_simp+
  have proper: "proper_snapshot ex_before" "proper_snapshot ex_after"
    using canon by (simp_all add: proper_snapshot_def ex_before_def ex_after_def ex_snapshot_def ex_record_def)
  have renames: "proven_requested_renames (Some ex_request) (index_by sr_path (cs_records ex_before))
       (index_by sr_path (cs_records ex_after)) = [(CollectionPath ''a.md'', CollectionPath ''c.md'')]"
    by code_simp
  have "\<forall>c. is_ok (dh_jcs ex_digest c)" by (simp add: ex_digest_def)
  from snapshot_diff_replays [OF proper this, of "Some ex_request"] renames show ?thesis by auto
qed

end
