(* ===== verification/Change_Feed.thy ===== *)
theory Change_Feed
  imports Change_Sets
begin

text \<open>
  The durable change feed of a collection, \<open>runtime/feed.rs\<close>: one journal file that keeps the
  unacknowledged change events in watermark order, the single owner with its fencing epoch, the
  acknowledged position and a pending ownership transfer. An operation reads the file, works on the
  journal and writes the file back atomically, or leaves it alone; an error of the write may come after
  the new file is in place. The JSON codec of \<open>serde_json\<close>
  and the errors of the operating system are parameters; the answers of the cooperative
  \<open>context.check()\<close> calls are a function of their number within the operation.
\<close>

section \<open>Data\<close>

datatype stored_change_set = StoredExact "canonical_change list" | StoredCollectionWide rebuild_reason

record stored_event =
  se_id :: string
  se_watermark :: watermark
  se_generation :: collection_generation
  se_changes :: stored_change_set
  se_origin :: change_origin
  se_commit_id :: "string option"

record stored_transfer =
  tr_id :: string
  tr_current :: string
  tr_next :: string
  tr_expected_acked_through :: watermark
  tr_fencing_epoch :: u64

record feed_journal =
  fj_version :: nat
  fj_owner :: "string option"
  fj_fencing_epoch :: u64
  fj_acknowledged_through :: watermark
  fj_head :: watermark
  fj_baseline_through :: "watermark option"
  fj_events :: "stored_event list"
  fj_pending_transfer :: "stored_transfer option"
  fj_last_transfer :: "string option"

record change_feed =
  cf_owner :: string
  cf_fencing_epoch :: u64

record feed_baseline =
  fb_fencing_epoch :: u64
  fb_acknowledged_through :: watermark
  fb_feed_head :: watermark

record baseline_plan =
  bp_baseline :: feed_baseline
  bp_commits :: "string list"
  bp_needs_commit :: bool

record transfer_intent =
  ti_id :: string
  ti_current :: string
  ti_next :: string
  ti_expected_acked_through :: watermark

record transfer_receipt =
  tt_id :: string
  tt_fencing_epoch :: u64
  tt_acknowledged_through :: watermark
  tt_feed_head :: watermark

record feed_transfer =
  ft_feed :: change_feed
  ft_receipt :: transfer_receipt

record change_event_page =
  ep_events :: "runtime_change_event list"
  ep_next :: "watermark option"
  ep_feed_head :: watermark

text \<open>A durable transaction as recovery sees it; \<open>'o\<close> is the outcome of its operation.\<close>

datatype 'o runtime_resolution =
    ResolutionPrepared string
  | ResolutionCommitting string
  | ResolutionCommitted string 'o collection_generation watermark string change_batch
  | ResolutionRejected string 'o
  | ResolutionCancelled string
  | ResolutionManualRecovery string

text \<open>What the feed reads of an \<open>ExecutionOutcome\<close>.\<close>

record execution_effects =
  ee_generation :: collection_generation
  ee_changes :: change_set
  ee_commit_id :: "string option"
  ee_change_event :: "change_event_identity option"

definition FEED_VERSION :: nat where "FEED_VERSION = 1"
definition MAX_UNACKED_EVENTS :: nat where "MAX_UNACKED_EVENTS = 100000"
definition MAX_FEED_BYTES :: nat where "MAX_FEED_BYTES = 64 * 1024 * 1024"
definition MAX_FEED_PAGE_ITEMS :: nat where "MAX_FEED_PAGE_ITEMS = 256"

text \<open>
  How a call that changes the journal file ends: it completes, it fails before the name of the file has
  changed, or it fails in the synchronisation of the directory after it, when the change is already
  visible.
\<close>

datatype file_change = ChangeMade | ChangeRefused string | ChangeUnsynced string

record feed_host =
  fh_decode :: "string \<Rightarrow> (string, feed_journal) res"
  fh_encode :: "feed_journal \<Rightarrow> (string, string) res"
  fh_read_error :: "string option"
  fh_write :: file_change
  fh_digest :: digest_host

type_synonym feed_file = "string option"

type_synonym 'a feed_op = "feed_file \<Rightarrow> feed_file \<times> (provider_error, 'a) res"

definition feed_bind :: "'a feed_op \<Rightarrow> ('a \<Rightarrow> 'b feed_op) \<Rightarrow> 'b feed_op" where
  "feed_bind m f file =
     (case m file of
        (file', Ok x) \<Rightarrow> f x file'
      | (file', Err e) \<Rightarrow> (file', Err e)
      | (file', Panic) \<Rightarrow> (file', Panic))"

definition feed_lift :: "(provider_error, 'a) res \<Rightarrow> 'a feed_op" where
  "feed_lift r file = (file, r)"

type_synonym checks = "nat \<Rightarrow> (provider_error, unit) res"

section \<open>The journal file\<close>

definition corrupt :: "string \<Rightarrow> provider_error" where
  "corrupt message = TransactionFailed ''change_feed_corrupt'' message"

definition feed_io :: "string \<Rightarrow> provider_error" where
  "feed_io message = TransactionFailed ''change_feed_io_failed'' message"

definition default_journal :: feed_journal where
  "default_journal =
     \<lparr>fj_version = FEED_VERSION, fj_owner = None, fj_fencing_epoch = 0, fj_acknowledged_through = 0,
      fj_head = 0, fj_baseline_through = None, fj_events = [], fj_pending_transfer = None,
      fj_last_transfer = None\<rparr>"

definition read_or_default :: "feed_host \<Rightarrow> feed_journal feed_op" where
  "read_or_default h file =
     (file,
      case fh_read_error h of
        Some error \<Rightarrow> Err (feed_io error)
      | None \<Rightarrow>
          (case file of
             Some bytes \<Rightarrow> map_err_path corrupt (fh_decode h bytes)
           | None \<Rightarrow> Ok default_journal))"

fun validate_events :: "watermark \<Rightarrow> watermark \<Rightarrow> stored_event list \<Rightarrow> (provider_error, unit) res" where
  "validate_events previous head [] = Ok ()"
| "validate_events previous head (e # es) =
     (if se_watermark e \<noteq> saturating_succ previous \<or> head < se_watermark e
      then Err (corrupt ''event watermarks are not strictly ordered'')
      else validate_events (se_watermark e) head es)"

definition validate_journal :: "feed_journal \<Rightarrow> (provider_error, unit) res" where
  "validate_journal j =
     (if fj_version j \<noteq> FEED_VERSION \<or> fj_head j < fj_acknowledged_through j
         \<or> (case fj_baseline_through j of Some through \<Rightarrow> fj_head j < through | None \<Rightarrow> False)
      then Err (corrupt ''invalid version or acknowledged position'')
      else
        bind_res (validate_events (fj_acknowledged_through j) (fj_head j) (fj_events j)) (\<lambda>_.
        if (if fj_events j = [] then None else Some (se_watermark (last (fj_events j))))
           \<noteq> (if fj_acknowledged_through j < fj_head j then Some (fj_head j) else None)
        then Err (corrupt ''feed head is not retained in the event sequence'')
        else Ok ()))"

definition persist :: "feed_host \<Rightarrow> feed_journal \<Rightarrow> unit feed_op" where
  "persist h j file =
     (case bind_res (validate_journal j) (\<lambda>_. map_err_path corrupt (fh_encode h j)) of
        Err e \<Rightarrow> (file, Err e)
      | Panic \<Rightarrow> (file, Panic)
      | Ok bytes \<Rightarrow>
          if MAX_FEED_BYTES < length bytes then (file, Err ChangeFeedCapacityExhausted)
          else
            (case fh_write h of
               ChangeMade \<Rightarrow> (Some bytes, Ok ())
             | ChangeRefused error \<Rightarrow> (file, Err (feed_io error))
             | ChangeUnsynced error \<Rightarrow> (Some bytes, Err (feed_io error))))"

definition checked_journal :: "feed_host \<Rightarrow> change_feed \<Rightarrow> feed_journal feed_op" where
  "checked_journal h feed =
     feed_bind (read_or_default h) (\<lambda>j.
     if fj_owner j \<noteq> Some (cf_owner feed) \<or> fj_fencing_epoch j \<noteq> cf_fencing_epoch feed
     then feed_lift (Err ChangeFeedFenced)
     else feed_bind (feed_lift (validate_journal j)) (\<lambda>_. feed_lift (Ok j)))"

section \<open>Appending\<close>

definition next_generation ::
  "collection_generation \<Rightarrow> collection_generation \<Rightarrow> (provider_error, collection_generation) res" where
  "next_generation committed generation =
     (if gn_epoch committed = gn_epoch generation then
        Ok (if gn_sequence generation < gn_sequence committed then committed else generation)
      else generation_successor generation)"

definition recovered_event ::
  "string \<Rightarrow> watermark \<Rightarrow> collection_generation \<Rightarrow> change_batch \<Rightarrow> string \<Rightarrow> stored_event" where
  "recovered_event event_id watermark generation changes commit_id =
     \<lparr>se_id = event_id, se_watermark = watermark, se_generation = generation,
      se_changes = StoredExact (cb_items changes), se_origin = OriginRecoveryReconciliation,
      se_commit_id = Some commit_id\<rparr>"

text \<open>The loop of \<open>reconcile\<close>; the last argument says whether the journal changed.\<close>

fun reconcile_loop ::
  "checks \<Rightarrow> nat \<Rightarrow> 'o runtime_resolution list \<Rightarrow> feed_journal \<Rightarrow> collection_generation \<Rightarrow> bool
    \<Rightarrow> (provider_error, feed_journal \<times> collection_generation \<times> bool) res" where
  "reconcile_loop check n [] j generation changed = Ok (j, generation, changed)"
| "reconcile_loop check n (r # rs) j generation changed =
     bind_res (check n) (\<lambda>_.
     case r of
       ResolutionCommitted commit_id _ committed watermark event_id changes \<Rightarrow>
         if list_ex (\<lambda>e. se_id e = event_id) (fj_events j)
         then reconcile_loop check (n + 1) rs j generation changed
         else if list_ex (\<lambda>e. se_watermark e = watermark \<and> se_id e \<noteq> event_id) (fj_events j)
         then Err (TransactionFailed ''change_feed_corrupt''
                ''two durable events claim one change watermark'')
         else
           bind_res (next_generation committed generation) (\<lambda>generation'.
           reconcile_loop check (n + 1) rs
             (j\<lparr>fj_head := max (fj_head j) watermark,
                fj_events := fj_events j @ [recovered_event event_id watermark generation' changes commit_id]\<rparr>)
             generation' True)
     | _ \<Rightarrow> reconcile_loop check (n + 1) rs j generation changed)"

definition reconcile ::
  "feed_host \<Rightarrow> checks \<Rightarrow> (provider_error, 'o runtime_resolution list) res \<Rightarrow> collection_generation
    \<Rightarrow> (watermark \<times> collection_generation) feed_op" where
  "reconcile h check resolutions initial file =
     feed_bind (feed_lift (check 0)) (\<lambda>_.
     feed_bind (read_or_default h) (\<lambda>j.
     feed_bind (feed_lift (validate_journal j)) (\<lambda>_.
     feed_bind (feed_lift resolutions) (\<lambda>rs.
     feed_bind (feed_lift (reconcile_loop check 1 rs j initial (file = None))) (\<lambda>(j1, generation, changed).
     let j2 = j1\<lparr>fj_events := sort_key se_watermark (fj_events j1)\<rparr> in
     feed_bind (feed_lift (validate_journal j2)) (\<lambda>_.
     feed_bind (if changed then persist h j2 else feed_lift (Ok ())) (\<lambda>_.
     feed_lift (Ok (fj_head j2, generation))))))))) file"

definition ensure_capacity :: "feed_host \<Rightarrow> unit feed_op" where
  "ensure_capacity h =
     feed_bind (read_or_default h) (\<lambda>j file.
     if MAX_UNACKED_EVENTS - 1 \<le> length (fj_events j) then (file, Err ChangeFeedCapacityExhausted)
     else
       (case file of
          Some bytes \<Rightarrow>
            if MAX_FEED_BYTES \<le> length bytes then (file, Err ChangeFeedCapacityExhausted) else (file, Ok ())
        | None \<Rightarrow> (file, Ok ())))"

definition append_known :: "feed_host \<Rightarrow> execution_effects \<Rightarrow> unit feed_op" where
  "append_known h outcome =
     (case (ee_change_event outcome, ee_commit_id outcome, ee_changes outcome) of
        (None, _, _) \<Rightarrow> feed_lift (Err (TransactionFailed ''change_event_missing''
            ''committed mutation is missing its durable event identity''))
      | (Some _, None, _) \<Rightarrow> feed_lift (Err (TransactionFailed ''commit_identity_missing''
            ''committed mutation is missing its transaction identity''))
      | (Some identity, Some commit_id, ChangesExact changes) \<Rightarrow>
          feed_bind (read_or_default h) (\<lambda>j.
          feed_bind (feed_lift (validate_journal j)) (\<lambda>_.
          case List.find (\<lambda>e. se_id e = ei_id identity) (fj_events j) of
            Some existing \<Rightarrow>
              if se_watermark existing = ei_watermark identity \<and> se_commit_id existing = Some commit_id
              then feed_lift (Ok ())
              else feed_lift (Err (TransactionFailed ''change_feed_corrupt''
                     ''change event identity was reused with different metadata''))
          | None \<Rightarrow>
              if ei_watermark identity \<noteq> saturating_succ (fj_head j)
              then feed_lift (Err (TransactionFailed ''change_feed_order_conflict''
                     ''known mutation event is not the next durable watermark''))
              else if MAX_UNACKED_EVENTS - 1 \<le> length (fj_events j)
              then feed_lift (Err ChangeFeedCapacityExhausted)
              else persist h (j\<lparr>fj_head := ei_watermark identity,
                     fj_events := fj_events j @
                       [\<lparr>se_id = ei_id identity, se_watermark = ei_watermark identity,
                         se_generation = ee_generation outcome, se_changes = StoredExact (cb_items changes),
                         se_origin = KnownMutation, se_commit_id = Some commit_id\<rparr>]\<rparr>)))
      | _ \<Rightarrow> feed_lift (Err (TransactionFailed ''known_change_set_missing''
            ''committed mutation must retain exact canonical changes'')))"

definition append_external :: "feed_host \<Rightarrow> runtime_change_event \<Rightarrow> unit feed_op" where
  "append_external h event =
     feed_bind (read_or_default h) (\<lambda>j.
     feed_bind (feed_lift (validate_journal j)) (\<lambda>_.
     if ei_watermark (re_identity event) \<noteq> saturating_succ (fj_head j)
     then feed_lift (Err (TransactionFailed ''change_feed_order_conflict''
            ''filesystem observation is not the next durable watermark''))
     else if MAX_UNACKED_EVENTS \<le> length (fj_events j)
     then feed_lift (Err ChangeFeedCapacityExhausted)
     else
       (case (case re_changes event of
                ChangesExact batch \<Rightarrow>
                  Some (if MAX_UNACKED_EVENTS - 1 \<le> length (fj_events j)
                    then StoredCollectionWide RebuildExternalChangeUncertain
                    else StoredExact (cb_items batch))
              | ChangesCollectionWide reason \<Rightarrow> Some (StoredCollectionWide reason)
              | ChangesNone \<Rightarrow> None) of
          None \<Rightarrow> feed_lift (Ok ())
        | Some changes \<Rightarrow>
            persist h (j\<lparr>fj_head := ei_watermark (re_identity event),
              fj_events := fj_events j @
                [\<lparr>se_id = ei_id (re_identity event), se_watermark = ei_watermark (re_identity event),
                  se_generation = re_generation event, se_changes = changes, se_origin = re_origin event,
                  se_commit_id = None\<rparr>]\<rparr>))))"

section \<open>The owner\<close>

definition feed_open :: "feed_host \<Rightarrow> string \<Rightarrow> change_feed feed_op" where
  "feed_open h owner =
     feed_bind (read_or_default h) (\<lambda>j.
     if fj_owner j \<noteq> None \<and> fj_owner j \<noteq> Some owner then feed_lift (Err ChangeFeedOwned)
     else
       (case checked_succ (fj_fencing_epoch j) of
          None \<Rightarrow> feed_lift (Err WatermarkExhausted)
        | Some epoch \<Rightarrow>
            feed_bind (persist h (j\<lparr>fj_owner := Some owner, fj_fencing_epoch := epoch\<rparr>)) (\<lambda>_.
            feed_lift (Ok \<lparr>cf_owner = owner, cf_fencing_epoch = epoch\<rparr>))))"

definition feed_baseline_of :: "feed_journal \<Rightarrow> watermark \<Rightarrow> feed_baseline" where
  "feed_baseline_of j through =
     \<lparr>fb_fencing_epoch = fj_fencing_epoch j, fb_acknowledged_through = through, fb_feed_head = fj_head j\<rparr>"

definition baseline_plan_of :: "feed_host \<Rightarrow> change_feed \<Rightarrow> baseline_plan feed_op" where
  "baseline_plan_of h feed =
     feed_bind (checked_journal h feed) (\<lambda>j.
     let through = (case fj_baseline_through j of Some t \<Rightarrow> t | None \<Rightarrow> fj_head j) in
     feed_lift (Ok \<lparr>bp_baseline = feed_baseline_of j through,
       bp_commits = List.map_filter se_commit_id (fj_events j),
       bp_needs_commit = (fj_baseline_through j = None)\<rparr>))"

definition commit_baseline :: "feed_host \<Rightarrow> change_feed \<Rightarrow> feed_baseline feed_op" where
  "commit_baseline h feed =
     feed_bind (checked_journal h feed) (\<lambda>j.
     case fj_baseline_through j of
       Some through \<Rightarrow> feed_lift (Ok (feed_baseline_of j through))
     | None \<Rightarrow>
         let through = fj_head j in
         feed_bind (persist h (j\<lparr>fj_baseline_through := Some through, fj_acknowledged_through := through,
           fj_events := []\<rparr>)) (\<lambda>_.
         feed_lift (Ok (feed_baseline_of j through))))"

text \<open>Removing the file of a copied collection; a missing file is fine.\<close>

definition reset_for_fork :: "feed_host \<Rightarrow> unit feed_op" where
  "reset_for_fork h file =
     (case (file, fh_write h) of
        (_, ChangeRefused error) \<Rightarrow> (file, Err (TransactionFailed ''change_feed_reset_failed'' error))
      | (None, _) \<Rightarrow> (None, Ok ())
      | (Some _, ChangeMade) \<Rightarrow> (None, Ok ())
      | (Some _, ChangeUnsynced error) \<Rightarrow> (None, Err (TransactionFailed ''change_feed_reset_failed'' error)))"

definition runtime_event :: "feed_host \<Rightarrow> stored_event \<Rightarrow> (provider_error, runtime_change_event) res" where
  "runtime_event h e =
     bind_res
       (case se_changes e of
          StoredExact changes \<Rightarrow> bind_res (change_batch_new (fh_digest h) changes) (\<lambda>b. Ok (ChangesExact b))
        | StoredCollectionWide reason \<Rightarrow> Ok (ChangesCollectionWide reason)) (\<lambda>changes.
     Ok \<lparr>re_identity = \<lparr>ei_id = se_id e, ei_watermark = se_watermark e\<rparr>,
         re_generation = se_generation e, re_changes = changes, re_origin = se_origin e,
         re_commit_id = se_commit_id e\<rparr>)"

fun runtime_events ::
  "feed_host \<Rightarrow> checks \<Rightarrow> nat \<Rightarrow> stored_event list \<Rightarrow> (provider_error, runtime_change_event list) res" where
  "runtime_events h check n [] = Ok []"
| "runtime_events h check n (e # es) =
     bind_res (check n) (\<lambda>_.
     bind_res (runtime_event h e) (\<lambda>event.
     bind_res (runtime_events h check (n + 1) es) (\<lambda>events. Ok (event # events))))"

definition feed_read ::
  "feed_host \<Rightarrow> checks \<Rightarrow> change_feed \<Rightarrow> watermark option \<Rightarrow> nat \<Rightarrow> change_event_page feed_op" where
  "feed_read h check feed after limit =
     feed_bind (feed_lift (check 0)) (\<lambda>_.
     feed_bind (checked_journal h feed) (\<lambda>j.
     let start = (case after of Some w \<Rightarrow> w | None \<Rightarrow> fj_acknowledged_through j) in
     if start < fj_acknowledged_through j then feed_lift (Err ChangeFeedRetentionGap)
     else if fj_head j \<le> start
     then feed_lift (Ok \<lparr>ep_events = [], ep_next = None, ep_feed_head = fj_head j\<rparr>)
     else
       let stored = take (min limit MAX_FEED_PAGE_ITEMS) (filter (\<lambda>e. start < se_watermark e) (fj_events j));
           next_watermark =
             (if stored = [] then None
              else if se_watermark (last stored) < fj_head j then Some (se_watermark (last stored)) else None)
       in feed_bind (feed_lift (runtime_events h check 1 stored)) (\<lambda>events.
          feed_lift (Ok \<lparr>ep_events = events, ep_next = next_watermark, ep_feed_head = fj_head j\<rparr>))))"

definition commits_of :: "watermark \<Rightarrow> stored_event list \<Rightarrow> string list" where
  "commits_of through events =
     List.map_filter se_commit_id (filter (\<lambda>e. se_watermark e \<le> through) events)"

definition feed_ack :: "feed_host \<Rightarrow> change_feed \<Rightarrow> watermark \<Rightarrow> string list feed_op" where
  "feed_ack h feed through =
     feed_bind (checked_journal h feed) (\<lambda>j.
     if fj_head j < through then feed_lift (Err InvalidChangeFeedAck)
     else if through \<le> fj_acknowledged_through j then feed_lift (Ok [])
     else
       feed_bind (persist h (j\<lparr>fj_events := filter (\<lambda>e. \<not> se_watermark e \<le> through) (fj_events j),
         fj_acknowledged_through := through\<rparr>)) (\<lambda>_.
       feed_lift (Ok (commits_of through (fj_events j)))))"

definition commits_through :: "feed_host \<Rightarrow> change_feed \<Rightarrow> watermark \<Rightarrow> string list feed_op" where
  "commits_through h feed through =
     feed_bind (checked_journal h feed) (\<lambda>j.
     if fj_head j < through then feed_lift (Err InvalidChangeFeedAck)
     else if through \<le> fj_acknowledged_through j then feed_lift (Ok [])
     else feed_lift (Ok (commits_of through (fj_events j))))"

section \<open>Transfers\<close>

definition transfer_result :: "feed_journal \<Rightarrow> string \<Rightarrow> (provider_error, feed_transfer) res" where
  "transfer_result j transfer =
     (case fj_owner j of
        None \<Rightarrow> Panic
      | Some owner \<Rightarrow>
          Ok \<lparr>ft_feed = \<lparr>cf_owner = owner, cf_fencing_epoch = fj_fencing_epoch j\<rparr>,
              ft_receipt = \<lparr>tt_id = transfer, tt_fencing_epoch = fj_fencing_epoch j,
                tt_acknowledged_through = fj_acknowledged_through j, tt_feed_head = fj_head j\<rparr>\<rparr>)"

definition feed_transfer_to :: "feed_host \<Rightarrow> transfer_intent \<Rightarrow> feed_transfer feed_op" where
  "feed_transfer_to h intent =
     feed_bind (read_or_default h) (\<lambda>j.
     case fj_pending_transfer j of
       Some stored \<Rightarrow>
         if tr_id stored = ti_id intent \<and> tr_current stored = ti_current intent
            \<and> tr_next stored = ti_next intent
            \<and> tr_expected_acked_through stored = ti_expected_acked_through intent
            \<and> fj_owner j = Some (ti_next intent)
         then feed_lift (transfer_result j (ti_id intent))
         else feed_lift (Err ChangeFeedTransferMismatch)
     | None \<Rightarrow>
         if fj_owner j \<noteq> Some (ti_current intent)
            \<or> fj_acknowledged_through j \<noteq> ti_expected_acked_through intent
         then feed_lift (Err ChangeFeedTransferMismatch)
         else
           (case checked_succ (fj_fencing_epoch j) of
              None \<Rightarrow> feed_lift (Err WatermarkExhausted)
            | Some epoch \<Rightarrow>
                let j' = j\<lparr>fj_fencing_epoch := epoch, fj_owner := Some (ti_next intent),
                      fj_pending_transfer := Some
                        \<lparr>tr_id = ti_id intent, tr_current = ti_current intent, tr_next = ti_next intent,
                         tr_expected_acked_through = ti_expected_acked_through intent,
                         tr_fencing_epoch = epoch\<rparr>\<rparr>
                in feed_bind (persist h j') (\<lambda>_. feed_lift (transfer_result j' (ti_id intent)))))"

definition ack_transfer :: "feed_host \<Rightarrow> string \<Rightarrow> unit feed_op" where
  "ack_transfer h transfer =
     feed_bind (read_or_default h) (\<lambda>j.
     if (case fj_pending_transfer j of Some t \<Rightarrow> tr_id t = transfer | None \<Rightarrow> False)
     then persist h (j\<lparr>fj_pending_transfer := None, fj_last_transfer := Some transfer\<rparr>)
     else if fj_last_transfer j = Some transfer then feed_lift (Ok ())
     else feed_lift (Err ChangeFeedTransferMismatch))"

end
