(* ===== verification/Feed_Properties.thy ===== *)
theory Feed_Properties
  imports Change_Feed
begin

text \<open>
  Correctness of the change feed under any sequence of operations with any faults: positions and
  epochs only grow, an event stays readable until its watermark is acknowledged, a handle is fenced
  for good by a newer one, pages have no gaps, and reconciliation is idempotent.
\<close>

section \<open>Operations on the file\<close>

text \<open>The codec reads back what it wrote.\<close>

definition feed_codec :: "feed_host \<Rightarrow> bool" where
  "feed_codec h \<longleftrightarrow> (\<forall>j bytes. fh_encode h j = Ok bytes \<longrightarrow> fh_decode h bytes = Ok j)"

definition same_codec :: "feed_host \<Rightarrow> feed_host \<Rightarrow> bool" where
  "same_codec h0 h \<longleftrightarrow> fh_decode h = fh_decode h0 \<and> fh_encode h = fh_encode h0"

text \<open>The journal a file stands for, if it can be decoded.\<close>

definition journal_of :: "feed_host \<Rightarrow> feed_file \<Rightarrow> feed_journal option" where
  "journal_of h file =
     (case file of
        None \<Rightarrow> Some default_journal
      | Some bytes \<Rightarrow> (case fh_decode h bytes of Ok j \<Rightarrow> Some j | _ \<Rightarrow> None))"

lemma journal_of_codec: "same_codec h0 h \<Longrightarrow> journal_of h = journal_of h0"
  by (simp add: journal_of_def [abs_def] same_codec_def)

lemma feed_codec_same: "same_codec h0 h \<Longrightarrow> feed_codec h = feed_codec h0"
  by (simp add: feed_codec_def same_codec_def)

lemma fst_feed_lift [simp]: "feed_lift r file = (file, r)"
  by (simp add: feed_lift_def)

lemma feed_bind_simp:
  "m file = (file, r) \<Longrightarrow>
     feed_bind m f file = (case r of Ok x \<Rightarrow> f x file | Err e \<Rightarrow> (file, Err e) | Panic \<Rightarrow> (file, Panic))"
  by (simp add: feed_bind_def split: res.splits)

lemma feed_bind_lift [simp]:
  "feed_bind (feed_lift r) f file = (case r of Ok x \<Rightarrow> f x file | Err e \<Rightarrow> (file, Err e) | Panic \<Rightarrow> (file, Panic))"
  by (rule feed_bind_simp) simp

lemma read_or_default_Ok:
  "read_or_default h file = (file', Ok j) \<longleftrightarrow> file' = file \<and> fh_read_error h = None \<and> journal_of h file = Some j"
  by (cases "fh_read_error h"; cases "file")
     (auto simp: read_or_default_def journal_of_def split: res.splits)

lemma read_or_default_file: "\<exists>r. read_or_default h file = (file, r)"
  by (simp add: read_or_default_def)

lemma feed_bind_read:
  "feed_bind (read_or_default h) f file =
     (case snd (read_or_default h file) of
        Ok j \<Rightarrow> f j file | Err e \<Rightarrow> (file, Err e) | Panic \<Rightarrow> (file, Panic))"
  by (rule feed_bind_simp) (simp add: read_or_default_def)

lemma snd_read_Ok:
  "snd (read_or_default h file) = Ok j \<longleftrightarrow> fh_read_error h = None \<and> journal_of h file = Some j"
  by (cases "fh_read_error h"; cases "file") (auto simp: read_or_default_def journal_of_def split: res.splits)

definition current_handle :: "feed_journal \<Rightarrow> change_feed \<Rightarrow> bool" where
  "current_handle j feed \<longleftrightarrow> fj_owner j = Some (cf_owner feed) \<and> fj_fencing_epoch j = cf_fencing_epoch feed"

lemma feed_bind_checked:
  "feed_bind (checked_journal h feed) f file =
     (case snd (read_or_default h file) of
        Ok j \<Rightarrow>
          if current_handle j feed then
            (case validate_journal j of
               Ok _ \<Rightarrow> f j file | Err e \<Rightarrow> (file, Err e) | Panic \<Rightarrow> (file, Panic))
          else (file, Err ChangeFeedFenced)
      | Err e \<Rightarrow> (file, Err e) | Panic \<Rightarrow> (file, Panic))"
  unfolding checked_journal_def feed_bind_def [of _ f]
  by (auto simp: feed_bind_read current_handle_def split: res.splits)

lemma map_err_path_Ok [simp]: "map_err_path f r = Ok x \<longleftrightarrow> r = Ok x"
  by (cases r) simp_all

lemma persist_cases:
  obtains (unchanged) "fst (persist h j file) = file" "snd (persist h j file) \<noteq> Ok ()"
    | (written) bytes where "fst (persist h j file) = Some bytes" "fh_encode h j = Ok bytes"
        "validate_journal j = Ok ()"
proof (cases "bind_res (validate_journal j) (\<lambda>_. map_err_path corrupt (fh_encode h j))")
  case (Ok bytes)
  then show ?thesis
    using unchanged written [of bytes]
    by (cases "MAX_FEED_BYTES < length bytes"; cases "fh_write h") (auto simp: persist_def)
qed (use unchanged in \<open>auto simp: persist_def\<close>)

lemma persist_Ok:
  assumes "persist h j file = (file', Ok ())"
  obtains bytes where "file' = Some bytes" "fh_encode h j = Ok bytes" "validate_journal j = Ok ()"
  using assms by (cases rule: persist_cases [of h j "file"]) auto

section \<open>Evolution\<close>

text \<open>How one journal may follow another.\<close>

definition feed_evolution :: "feed_journal \<Rightarrow> feed_journal \<Rightarrow> bool" where
  "feed_evolution j j' \<longleftrightarrow>
     fj_fencing_epoch j \<le> fj_fencing_epoch j'
     \<and> (fj_fencing_epoch j' = fj_fencing_epoch j \<longrightarrow> fj_owner j' = fj_owner j)
     \<and> fj_acknowledged_through j \<le> fj_acknowledged_through j' \<and> fj_head j \<le> fj_head j'
     \<and> (\<forall>e \<in> set (fj_events j). fj_acknowledged_through j' < se_watermark e \<longrightarrow> e \<in> set (fj_events j'))"

lemma feed_evolution_refl: "feed_evolution j j"
  by (simp add: feed_evolution_def)

lemma feed_evolution_trans:
  "feed_evolution a b \<Longrightarrow> feed_evolution b c \<Longrightarrow> feed_evolution a c"
  unfolding feed_evolution_def by (metis order_antisym order_le_less_trans order_trans)

text \<open>What an operation does to the file: nothing, or it writes a valid journal that evolves the old one.\<close>

definition feed_update :: "feed_host \<Rightarrow> feed_file \<Rightarrow> feed_file \<Rightarrow> bool" where
  "feed_update h file file' \<longleftrightarrow>
     file' = file
     \<or> (\<exists>j j'. journal_of h file = Some j \<and> journal_of h file' = Some j'
          \<and> validate_journal j' = Ok () \<and> feed_evolution j j')"

lemma feed_update_refl [simp]: "feed_update h file file"
  by (simp add: feed_update_def)

lemma persist_update:
  assumes "feed_codec h" "journal_of h file = Some j" "validate_journal j' = Ok () \<Longrightarrow> feed_evolution j j'"
  shows "feed_update h file (fst (persist h j' file))"
proof (cases rule: persist_cases [of h j' "file"])
  case unchanged
  then show ?thesis by simp
next
  case (written bytes)
  then have "journal_of h (Some bytes) = Some j'"
    using assms(1) by (simp add: journal_of_def feed_codec_def)
  then show ?thesis using written assms(2,3) by (auto simp: feed_update_def)
qed

lemma feed_bind_persist_fst:
  assumes "\<And>file'. fst (f () file') = file'"
  shows "fst (feed_bind (persist h j) f file) = fst (persist h j file)"
  using assms by (cases "persist h j file") (auto simp: feed_bind_def split: res.splits)


section \<open>Journals\<close>

lemma saturating_succ_less: "w \<noteq> (- 1 :: u64) \<Longrightarrow> saturating_succ w = w + 1 \<and> w < w + 1"
  using unat_succ [of w] by (simp add: saturating_succ_def word_less_nat_alt)

lemma saturating_succ_ge: "w \<le> saturating_succ w"
  using saturating_succ_less [of w] by (cases "w = - 1") (auto simp: saturating_succ_def)

lemma validate_events_bounds:
  "validate_events p head es = Ok () \<Longrightarrow> e \<in> set es \<Longrightarrow> p \<le> se_watermark e \<and> se_watermark e \<le> head"
proof (induction es arbitrary: p)
  case (Cons a es)
  then show ?case using saturating_succ_ge [of p] by (fastforce split: if_splits)
qed simp

lemma validate_journalD:
  assumes "validate_journal j = Ok ()"
  shows "fj_acknowledged_through j \<le> fj_head j"
    and "validate_events (fj_acknowledged_through j) (fj_head j) (fj_events j) = Ok ()"
    and "e \<in> set (fj_events j) \<Longrightarrow> se_watermark e \<le> fj_head j"
  using assms validate_events_bounds [of "fj_acknowledged_through j" "fj_head j" "fj_events j" e]
  by (auto simp: validate_journal_def split: if_splits)

lemmas feed_unfold = feed_bind_read feed_bind_checked snd_read_Ok

lemma reconcile_loop_changed: "reconcile_loop check n rs j g True = Ok (j', g', c') \<Longrightarrow> c'"
proof (induction rs arbitrary: n j g)
  case (Cons r rs)
  then show ?case by (cases r) (auto split: if_splits)
qed simp

lemma reconcile_loop_appends:
  "reconcile_loop check n rs j g c = Ok (j', g', c') \<Longrightarrow>
     \<exists>H es. j' = j\<lparr>fj_head := H, fj_events := fj_events j @ es\<rparr> \<and> fj_head j \<le> H \<and> (es \<noteq> [] \<longrightarrow> c')
       \<and> (c' \<longrightarrow> c \<or> es \<noteq> []) \<and> (es = [] \<longrightarrow> H = fj_head j)"
proof (induction rs arbitrary: n j g c)
  case Nil
  then show ?case by (intro exI [of _ "fj_head j"] exI [of _ "[]"]) auto
next
  case (Cons r rs)
  show ?case
  proof (cases r)
    case (ResolutionCommitted commit_id result committed w event_id changes)
    show ?thesis
    proof (cases "list_ex (\<lambda>e. se_id e = event_id) (fj_events j)")
      case True
      then have "reconcile_loop check (n + 1) rs j g c = Ok (j', g', c')"
        using Cons.prems ResolutionCommitted by auto
      then show ?thesis by (rule Cons.IH)
    next
      case False
      then obtain g1 where loop: "reconcile_loop check (n + 1) rs (j\<lparr>fj_head := max (fj_head j) w,
                fj_events := fj_events j @ [recovered_event event_id w g1 changes commit_id]\<rparr>) g1 True
          = Ok (j', g', c')"
        using Cons.prems ResolutionCommitted by (auto split: if_splits)
      from Cons.IH [OF loop] obtain H es where
        "j' = j\<lparr>fj_head := H, fj_events := fj_events j @ recovered_event event_id w g1 changes commit_id # es\<rparr>"
        "max (fj_head j) w \<le> H"
        by auto
      then show ?thesis using reconcile_loop_changed [OF loop]
        by (intro exI [of _ H] exI [of _ "recovered_event event_id w g1 changes commit_id # es"]) auto
    qed
  qed (use Cons in auto)
qed

text \<open>An operation of \<open>reconcile\<close> either leaves the file or writes the merged journal.\<close>

lemma reconcile_cases:
  obtains (kept) r where "reconcile h check rs g file = (file, r)"
    | (merged) j rs' j1 g1 c where "journal_of h file = Some j" "validate_journal j = Ok ()" "rs = Ok rs'"
        "reconcile_loop check 1 rs' j g (file = None) = Ok (j1, g1, c)" "c"
        "fst (reconcile h check rs g file) = fst (persist h (j1\<lparr>fj_events := sort_key se_watermark (fj_events j1)\<rparr>) file)"
proof (cases "fst (reconcile h check rs g file) = file")
  case True
  then show ?thesis using kept by (cases "reconcile h check rs g file") auto
next
  case neq: False
  then obtain j rs' j1 g1 c where r: "snd (read_or_default h file) = Ok j" "rs = Ok rs'"
      "reconcile_loop check 1 rs' j g (file = None) = Ok (j1, g1, c)" "c" "validate_journal j = Ok ()"
    by (auto simp: reconcile_def feed_bind_read Let_def split: res.splits prod.splits if_splits)
  then have "fst (reconcile h check rs g file)
      = fst (persist h (j1\<lparr>fj_events := sort_key se_watermark (fj_events j1)\<rparr>) file)"
    using neq
    by (auto simp: reconcile_def feed_bind_read Let_def feed_bind_persist_fst split: res.splits prod.splits if_splits)
  with r show ?thesis using merged by (auto simp: snd_read_Ok)
qed

lemma reconcile_update:
  assumes "feed_codec h"
  shows "feed_update h file (fst (reconcile h check rs g file))"
proof (cases rule: reconcile_cases [of h check rs g "file"])
  case (kept r)
  then show ?thesis by simp
next
  case (merged j rs' j1 g1 c)
  from reconcile_loop_appends [OF merged(4)] obtain H es where
    "j1 = j\<lparr>fj_head := H, fj_events := fj_events j @ es\<rparr>" "fj_head j \<le> H" by blast
  then show ?thesis unfolding merged(6)
    by (intro persist_update [OF assms merged(1)]) (auto simp: feed_evolution_def)
qed


lemma append_evolution:
  assumes "w = saturating_succ (fj_head j)"
  shows "feed_evolution j (j\<lparr>fj_head := w, fj_events := fj_events j @ [e]\<rparr>)"
  using saturating_succ_ge [of "fj_head j"] by (simp add: feed_evolution_def assms)

lemma append_known_update:
  assumes "feed_codec h"
  shows "feed_update h file (fst (append_known h outcome file))"
  by (auto simp: append_known_def feed_unfold split: option.splits change_set.splits res.splits
        intro!: persist_update [OF assms] append_evolution)

lemma append_external_update:
  assumes "feed_codec h"
  shows "feed_update h file (fst (append_external h event file))"
  by (auto simp: append_external_def feed_unfold split: option.splits change_set.splits res.splits
        intro!: persist_update [OF assms] append_evolution)

lemma epoch_evolution:
  assumes "checked_succ (fj_fencing_epoch j) = Some epoch" "fj_fencing_epoch j' = epoch"
    "fj_acknowledged_through j' = fj_acknowledged_through j" "fj_head j' = fj_head j" "fj_events j' = fj_events j"
  shows "feed_evolution j j'"
proof -
  have "fj_fencing_epoch j < fj_fencing_epoch j'"
    using assms(1,2) saturating_succ_less by (auto simp: checked_succ_eq_Some)
  then show ?thesis using assms by (auto simp: feed_evolution_def)
qed

lemma feed_open_update:
  assumes "feed_codec h"
  shows "feed_update h file (fst (feed_open h owner file))"
  by (auto simp: feed_open_def feed_unfold feed_bind_persist_fst split: option.splits res.splits
        intro!: persist_update [OF assms] elim: epoch_evolution)

lemma baseline_evolution:
  assumes "validate_journal j = Ok ()"
  shows "feed_evolution j (j\<lparr>fj_baseline_through := Some (fj_head j), fj_acknowledged_through := fj_head j,
    fj_events := []\<rparr>)"
  using validate_journalD [OF assms] by (auto simp: feed_evolution_def leD)

lemma commit_baseline_update:
  assumes "feed_codec h"
  shows "feed_update h file (fst (commit_baseline h feed file))"
  by (auto simp: commit_baseline_def feed_unfold feed_bind_persist_fst Let_def
        split: option.splits res.splits intro!: persist_update [OF assms] baseline_evolution)

lemma feed_ack_update:
  assumes "feed_codec h"
  shows "feed_update h file (fst (feed_ack h feed through file))"
  by (auto simp: feed_ack_def feed_unfold feed_bind_persist_fst feed_evolution_def
        split: option.splits res.splits intro!: persist_update [OF assms])

lemma feed_transfer_update:
  assumes "feed_codec h"
  shows "feed_update h file (fst (feed_transfer_to h intent file))"
  by (auto simp: feed_transfer_to_def feed_unfold feed_bind_persist_fst Let_def split: option.splits res.splits
        intro!: persist_update [OF assms] elim: epoch_evolution)

lemma ack_transfer_update:
  assumes "feed_codec h"
  shows "feed_update h file (fst (ack_transfer h transfer file))"
  by (auto simp: ack_transfer_def feed_unfold feed_evolution_def split: option.splits res.splits
        intro!: persist_update [OF assms])

section \<open>Any sequence of operations\<close>

text \<open>
  One operation on the feed of a collection by any caller, with any outcome of the system calls. The
  codec is fixed. Operations that only read do not appear: they leave the file alone. The removal of the
  journal of a copied collection, \<open>reset_for_fork\<close>, is added to the histories below.
\<close>

inductive feed_step :: "feed_host \<Rightarrow> feed_file \<Rightarrow> feed_file \<Rightarrow> bool" for h0 where
  step_reconcile: "same_codec h0 h \<Longrightarrow>
     feed_step h0 file (fst (reconcile h check (rs :: (provider_error, json runtime_resolution list) res) g file))"
| step_append_known: "same_codec h0 h \<Longrightarrow> feed_step h0 file (fst (append_known h outcome file))"
| step_append_external: "same_codec h0 h \<Longrightarrow> feed_step h0 file (fst (append_external h event file))"
| step_open: "same_codec h0 h \<Longrightarrow> feed_step h0 file (fst (feed_open h owner file))"
| step_baseline: "same_codec h0 h \<Longrightarrow> feed_step h0 file (fst (commit_baseline h feed file))"
| step_ack: "same_codec h0 h \<Longrightarrow> feed_step h0 file (fst (feed_ack h feed through file))"
| step_transfer: "same_codec h0 h \<Longrightarrow> feed_step h0 file (fst (feed_transfer_to h intent file))"
| step_ack_transfer: "same_codec h0 h \<Longrightarrow> feed_step h0 file (fst (ack_transfer h transfer file))"

lemma feed_update_codec: "same_codec h0 h \<Longrightarrow> feed_update h = feed_update h0"
  by (simp add: feed_update_def [abs_def] journal_of_codec)

lemma feed_step_update:
  assumes "feed_codec h0" "feed_step h0 file file'"
  shows "feed_update h0 file file'"
  using assms(2)
  by (induction rule: feed_step.induct)
     (use assms(1) in \<open>metis feed_update_codec feed_codec_same reconcile_update append_known_update
        append_external_update feed_open_update commit_baseline_update feed_ack_update feed_transfer_update
        ack_transfer_update\<close>)+

lemma feed_steps_evolution:
  assumes "feed_codec h0" "(feed_step h0)\<^sup>*\<^sup>* file file'" "journal_of h0 file = Some j"
  shows "\<exists>j'. journal_of h0 file' = Some j' \<and> feed_evolution j j'
    \<and> (file' = file \<or> validate_journal j' = Ok ())"
  using assms(2)
proof (induction rule: rtranclp_induct)
  case base
  then show ?case using assms(3) feed_evolution_refl by auto
next
  case (step f1 f2)
  then obtain j1 where j1: "journal_of h0 f1 = Some j1" "feed_evolution j j1"
    "f1 = file \<or> validate_journal j1 = Ok ()" by blast
  from feed_step_update [OF assms(1) step(2)] show ?case
    unfolding feed_update_def using j1 feed_evolution_trans by (metis option.inject)
qed

text \<open>
  A history of the feed also has resets; its flag says whether one of them removed the journal. A reset
  that is refused, or finds no journal, leaves the file alone.
\<close>

inductive feed_history :: "feed_host \<Rightarrow> bool \<Rightarrow> feed_file \<Rightarrow> feed_file \<Rightarrow> bool" for h0 where
  history_start: "feed_history h0 False file file"
| history_step: "feed_history h0 removed file file1 \<Longrightarrow> feed_step h0 file1 file2 \<Longrightarrow> feed_history h0 removed file file2"
| history_reset: "feed_history h0 removed file file1 \<Longrightarrow> same_codec h0 h \<Longrightarrow> file2 = fst (reset_for_fork h file1)
    \<Longrightarrow> feed_history h0 (removed \<or> file2 \<noteq> file1) file file2"

lemma feed_history_steps: "feed_history h0 removed file file' \<Longrightarrow> \<not> removed \<Longrightarrow> (feed_step h0)\<^sup>*\<^sup>* file file'"
  by (induction rule: feed_history.induct) (auto intro: rtranclp.rtrancl_into_rtrancl)

section \<open>Fencing\<close>

lemma feed_open_Ok:
  assumes "feed_codec h" "feed_open h owner file = (file', Ok feed)"
  shows "\<exists>j j'. journal_of h file = Some j \<and> journal_of h file' = Some j' \<and> current_handle j' feed
    \<and> fj_fencing_epoch j < fj_fencing_epoch j' \<and> validate_journal j' = Ok ()"
proof -
  from assms(2) obtain j epoch where j: "journal_of h file = Some j" "checked_succ (fj_fencing_epoch j) = Some epoch"
    and feed: "feed_bind (persist h (j\<lparr>fj_owner := Some owner, fj_fencing_epoch := epoch\<rparr>))
      (\<lambda>_. feed_lift (Ok \<lparr>cf_owner = owner, cf_fencing_epoch = epoch\<rparr>)) file = (file', Ok feed)"
    by (auto simp: feed_open_def feed_unfold split: res.splits if_splits option.splits)
  let ?j = "j\<lparr>fj_owner := Some owner, fj_fencing_epoch := epoch\<rparr>"
  from feed have "persist h ?j file = (file', Ok ())" "feed = \<lparr>cf_owner = owner, cf_fencing_epoch = epoch\<rparr>"
    by (auto simp: feed_bind_def split: prod.splits res.splits)
  moreover from this(1) obtain bytes where "file' = Some bytes" "fh_encode h ?j = Ok bytes" "validate_journal ?j = Ok ()"
    by (rule persist_Ok)
  moreover have "fj_fencing_epoch j < epoch" using j(2) saturating_succ_less by (auto simp: checked_succ_eq_Some)
  ultimately show ?thesis
    using j(1) assms(1)
    by (intro exI [of _ j] exI [of _ ?j]) (auto simp: current_handle_def journal_of_def feed_codec_def)
qed

lemma feed_transfer_Ok:
  assumes "feed_codec h" "feed_transfer_to h intent file = (file', Ok t)"
  shows "\<exists>j j'. journal_of h file = Some j \<and> journal_of h file' = Some j' \<and> current_handle j' (ft_feed t)"
proof -
  from assms(2) obtain j where j: "journal_of h file = Some j"
    by (auto simp: feed_transfer_to_def feed_unfold split: res.splits)
  have result: "current_handle k (ft_feed t)" if "transfer_result k i = Ok t" for k i
    using that by (auto simp: transfer_result_def current_handle_def split: option.splits)
  show ?thesis
  proof (cases "fj_pending_transfer j")
    case (Some stored)
    then have "file' = file" "transfer_result j (ti_id intent) = Ok t"
      using assms(2) j by (auto simp: feed_transfer_to_def feed_unfold split: res.splits if_splits)
    then show ?thesis using j result by blast
  next
    case None
    then obtain j' where "feed_bind (persist h j') (\<lambda>_. feed_lift (transfer_result j' (ti_id intent))) file = (file', Ok t)"
      using assms(2) j by (auto simp: feed_transfer_to_def feed_unfold Let_def split: res.splits if_splits option.splits)
    then have persisted: "persist h j' file = (file', Ok ())" and t: "transfer_result j' (ti_id intent) = Ok t"
      by (auto simp: feed_bind_def split: prod.splits res.splits)
    from persisted obtain bytes where "file' = Some bytes" "fh_encode h j' = Ok bytes" by (rule persist_Ok)
    then show ?thesis using assms(1) j result [OF t] by (auto simp: journal_of_def feed_codec_def)
  qed
qed

text \<open>A call that hands out a handle: opening the feed, or transferring it to another owner.\<close>

definition issues :: "feed_host \<Rightarrow> feed_file \<Rightarrow> change_feed \<Rightarrow> feed_file \<Rightarrow> bool" where
  "issues h0 file feed file' \<longleftrightarrow>
     (\<exists>h. same_codec h0 h
        \<and> ((\<exists>owner. feed_open h owner file = (file', Ok feed))
           \<or> (\<exists>intent t. feed_transfer_to h intent file = (file', Ok t) \<and> feed = ft_feed t)))"

lemma issuesD:
  assumes "feed_codec h0" "issues h0 file feed file'"
  obtains j j' where "journal_of h0 file = Some j" "journal_of h0 file' = Some j'" "current_handle j' feed" "feed_evolution j j'"
proof -
  from assms(2) obtain h where codec: "same_codec h0 h" and h: "(\<exists>owner. feed_open h owner file = (file', Ok feed))
      \<or> (\<exists>intent t. feed_transfer_to h intent file = (file', Ok t) \<and> feed = ft_feed t)"
    unfolding issues_def by blast
  have ok: "feed_codec h" "journal_of h = journal_of h0" using assms(1) codec by (simp_all add: feed_codec_same journal_of_codec)
  from h have "feed_update h file file'"
    using feed_open_update [OF ok(1), of "file"] feed_transfer_update [OF ok(1), of "file"] by (metis fst_conv)
  moreover from h obtain j j' where j: "journal_of h file = Some j" "journal_of h file' = Some j'" "current_handle j' feed"
    using feed_open_Ok [OF ok(1)] feed_transfer_Ok [OF ok(1)] by blast
  ultimately have "feed_evolution j j'" by (auto simp: feed_update_def feed_evolution_refl)
  then show thesis using that j by (simp add: ok)
qed

text \<open>Every operation of a handle that the journal does not name.\<close>

lemma fenced_operations:
  assumes "journal_of h file = Some j" "\<not> current_handle j feed" "fh_read_error h = None"
  shows "baseline_plan_of h feed file = (file, Err ChangeFeedFenced)"
    and "commit_baseline h feed file = (file, Err ChangeFeedFenced)"
    and "feed_ack h feed through file = (file, Err ChangeFeedFenced)"
    and "commits_through h feed through file = (file, Err ChangeFeedFenced)"
    and "check 0 = Ok () \<Longrightarrow> feed_read h check feed after limit file = (file, Err ChangeFeedFenced)"
proof -
  have "snd (read_or_default h file) = Ok j" using assms by (simp add: snd_read_Ok)
  then show "baseline_plan_of h feed file = (file, Err ChangeFeedFenced)"
    and "commit_baseline h feed file = (file, Err ChangeFeedFenced)"
    and "feed_ack h feed through file = (file, Err ChangeFeedFenced)"
    and "commits_through h feed through file = (file, Err ChangeFeedFenced)"
    and "check 0 = Ok () \<Longrightarrow> feed_read h check feed after limit file = (file, Err ChangeFeedFenced)"
    using assms(2)
    by (simp_all add: baseline_plan_of_def commit_baseline_def feed_ack_def commits_through_def feed_read_def
        feed_bind_checked)
qed

text \<open>
  C21: a handle on the change feed is fenced for good by a newer one. Take a handle that opening or
  transferring the feed gave out, any operations with any faults, and then a different handle that a
  later opening or transfer gave out, to the same owner or another. After any further operations and
  faults every call with the old handle leaves the journal file untouched and fails with
  \<open>ChangeFeedFenced\<close>, provided the file can be read, so that a superseded consumer can neither
  acknowledge events nor read them. The only exception is a history in which \<open>reset_for_fork\<close> removed
  the journal itself, since the epochs of the new journal start again from zero.
\<close>

theorem stale_feed_handle_fenced:
  assumes "feed_codec h0"
    and "issues h0 file0 old file1" "feed_history h0 removed1 file1 file2"
    and "issues h0 file2 new file3" "new \<noteq> old" "feed_history h0 removed2 file3 file"
    and "same_codec h0 h" "fh_read_error h = None" "check 0 = Ok ()"
  shows "removed1 \<or> removed2
    \<or> (feed_read h check old after limit file = (file, Err ChangeFeedFenced)
      \<and> feed_ack h old through file = (file, Err ChangeFeedFenced)
      \<and> commits_through h old through file = (file, Err ChangeFeedFenced)
      \<and> baseline_plan_of h old file = (file, Err ChangeFeedFenced)
      \<and> commit_baseline h old file = (file, Err ChangeFeedFenced))"
proof (cases "removed1 \<or> removed2")
  case False
  then have steps: "(feed_step h0)\<^sup>*\<^sup>* file1 file2" "(feed_step h0)\<^sup>*\<^sup>* file3 file"
    using feed_history_steps [OF assms(3)] feed_history_steps [OF assms(6)] by blast+
  obtain j1 where j1: "journal_of h0 file1 = Some j1" "current_handle j1 old"
    using issuesD [OF assms(1,2)] by metis
  obtain j2 j3 where j2: "journal_of h0 file2 = Some j2" and j3: "journal_of h0 file3 = Some j3" "current_handle j3 new"
    and e23: "feed_evolution j2 j3" using issuesD [OF assms(1,4)] by metis
  from feed_steps_evolution [OF assms(1) steps(1) j1(1)] j2 e23 have "feed_evolution j1 j3"
    using feed_evolution_trans by auto
  then have less: "fj_fencing_epoch j1 < fj_fencing_epoch j3"
    using j1(2) j3(2) assms(5) by (cases old; cases new) (auto simp: feed_evolution_def current_handle_def order.order_iff_strict)
  from feed_steps_evolution [OF assms(1) steps(2) j3(1)] obtain j where
    j: "journal_of h file = Some j" "feed_evolution j3 j" using journal_of_codec [OF assms(7)] by auto
  have "\<not> current_handle j old"
    using less j(2) j1(2) by (auto simp: feed_evolution_def current_handle_def)
  note fenced = fenced_operations [OF j(1) this assms(8)]
  show ?thesis using fenced assms(9) by simp
qed blast

section \<open>Retention\<close>

lemma append_known_Ok:
  assumes "feed_codec h" "append_known h outcome file = (file', Ok ())"
  shows "\<exists>identity commit_id j e. ee_change_event outcome = Some identity \<and> ee_commit_id outcome = Some commit_id
    \<and> journal_of h file' = Some j \<and> validate_journal j = Ok () \<and> e \<in> set (fj_events j)
    \<and> se_id e = ei_id identity \<and> se_watermark e = ei_watermark identity \<and> se_commit_id e = Some commit_id"
proof -
  from assms(2) obtain identity commit_id changes j where
    o: "ee_change_event outcome = Some identity" "ee_commit_id outcome = Some commit_id"
      "ee_changes outcome = ChangesExact changes" "journal_of h file = Some j" "fh_read_error h = None"
      "validate_journal j = Ok ()"
    by (auto simp: append_known_def feed_unfold split: option.splits change_set.splits res.splits)
  show ?thesis
  proof (cases "List.find (\<lambda>e. se_id e = ei_id identity) (fj_events j)")
    case (Some e)
    then have "e \<in> set (fj_events j)" "se_id e = ei_id identity" by (auto simp: find_Some_iff in_set_conv_nth)
    moreover have "se_watermark e = ei_watermark identity \<and> se_commit_id e = Some commit_id \<and> file' = file"
      using assms(2) o Some by (auto simp: append_known_def feed_unfold split: if_splits res.splits)
    ultimately show ?thesis using o by auto
  next
    case None
    let ?j = "j\<lparr>fj_head := ei_watermark identity,
       fj_events := fj_events j @
         [\<lparr>se_id = ei_id identity, se_watermark = ei_watermark identity,
           se_generation = ee_generation outcome, se_changes = StoredExact (cb_items changes),
           se_origin = KnownMutation, se_commit_id = Some commit_id\<rparr>]\<rparr>"
    have "snd (read_or_default h file) = Ok j" using o by (simp add: snd_read_Ok)
    then have "persist h ?j file = (file', Ok ())"
      using assms(2) o None by (auto simp: append_known_def feed_bind_read split: if_splits)
    then have "journal_of h file' = Some ?j" "validate_journal ?j = Ok ()"
      using assms(1) by (auto simp: journal_of_def feed_codec_def elim!: persist_Ok)
    then show ?thesis
      using o by (intro exI [of _ identity] exI [of _ commit_id] exI [of _ ?j] exI [of _ "last (fj_events ?j)"]) simp
  qed
qed

text \<open>
  C20: a committed change is never lost by the feed. After \<open>append_known\<close> has accepted the event of a
  committed mutation, then through any sequence of reconciliations, appends, opens, acknowledgements,
  baselines and transfers, by any callers, with any read faults and with writes that fail before or
  after the new file is in place, the journal stays decodable and valid and holds the event with its
  watermark and commit, until the acknowledged position, which an acknowledgement or the first baseline
  moves, has reached its watermark. The only exception is a history in which \<open>reset_for_fork\<close> removed
  the journal itself.
\<close>

theorem committed_change_retained:
  assumes "feed_codec h0" "same_codec h0 h" "append_known h outcome file0 = (file1, Ok ())"
    "feed_history h0 removed file1 file"
  shows "removed
    \<or> (\<exists>identity commit_id j. ee_change_event outcome = Some identity \<and> ee_commit_id outcome = Some commit_id
      \<and> journal_of h0 file = Some j \<and> validate_journal j = Ok () \<and> ei_watermark identity \<le> fj_head j
      \<and> (ei_watermark identity \<le> fj_acknowledged_through j
         \<or> list_ex (\<lambda>e. se_id e = ei_id identity \<and> se_watermark e = ei_watermark identity
              \<and> se_commit_id e = Some commit_id) (fj_events j)))"
proof (cases removed)
  case False
  then have steps: "(feed_step h0)\<^sup>*\<^sup>* file1 file" using feed_history_steps [OF assms(4)] by blast
  have codec: "feed_codec h" "journal_of h = journal_of h0"
    using assms(1,2) by (simp_all add: feed_codec_same journal_of_codec)
  from append_known_Ok [OF codec(1) assms(3)] obtain identity commit_id j1 e where
    id: "ee_change_event outcome = Some identity" "ee_commit_id outcome = Some commit_id"
    and j1: "journal_of h0 file1 = Some j1" "validate_journal j1 = Ok ()" "e \<in> set (fj_events j1)"
    and e: "se_id e = ei_id identity" "se_watermark e = ei_watermark identity" "se_commit_id e = Some commit_id"
    by (auto simp: codec)
  from feed_steps_evolution [OF assms(1) steps j1(1)] obtain j where
    j: "journal_of h0 file = Some j" "feed_evolution j1 j" "validate_journal j = Ok ()"
    using j1 by auto
  have "ei_watermark identity \<le> fj_head j"
    using validate_journalD(3) [OF j1(2,3)] e(2) j(2) by (auto simp: feed_evolution_def)
  moreover have "ei_watermark identity \<le> fj_acknowledged_through j
       \<or> list_ex (\<lambda>e. se_id e = ei_id identity \<and> se_watermark e = ei_watermark identity
            \<and> se_commit_id e = Some commit_id) (fj_events j)"
    using j(2) j1(3) e by (auto simp: feed_evolution_def list_ex_iff not_le)
  ultimately show ?thesis using id j by auto
qed blast

section \<open>Pages\<close>

lemma validate_events_watermarks:
  assumes "validate_events p head es = Ok ()" "head \<noteq> - 1"
  shows "map (\<lambda>e. unat (se_watermark e)) es = [unat p + 1 ..< unat p + 1 + length es]"
  using assms(1)
proof (induction es arbitrary: p)
  case (Cons e es)
  then have e: "se_watermark e = saturating_succ p" "se_watermark e \<le> head"
    and es: "validate_events (se_watermark e) head es = Ok ()"
    by (auto split: if_splits)
  have "p \<noteq> - 1" using e assms(2) by (auto simp: saturating_succ_def word_order.extremum_unique)
  then have w: "unat (se_watermark e) = unat p + 1"
    using e(1) saturating_succ_less [of p] unat_succ [of p] by simp
  have "[unat p + 1 ..< unat p + 1 + length (e # es)]
      = (unat p + 1) # [unat p + 1 + 1 ..< unat p + 1 + 1 + length es]"
    by (subst upt_rec) simp
  then show ?case using Cons.IH [OF es] w by simp
qed simp

text \<open>The retained events are exactly those after the acknowledged position, up to the head.\<close>

lemma journal_watermarks:
  assumes "validate_journal j = Ok ()" "fj_head j \<noteq> - 1"
  shows "map (\<lambda>e. unat (se_watermark e)) (fj_events j)
    = [unat (fj_acknowledged_through j) + 1 ..< unat (fj_head j) + 1]"
proof -
  note v = validate_events_watermarks [OF validate_journalD(2) [OF assms(1)] assms(2)]
  have le: "unat (fj_acknowledged_through j) \<le> unat (fj_head j)"
    using validate_journalD(1) [OF assms(1)] by (simp add: word_le_nat_alt)
  have "unat (fj_acknowledged_through j) + length (fj_events j) = unat (fj_head j)"
  proof (cases "fj_events j = []")
    case True
    then show ?thesis using assms(1) le by (auto simp: validate_journal_def word_less_nat_alt split: if_splits)
  next
    case False
    then have "unat (se_watermark (last (fj_events j))) = last (map (\<lambda>e. unat (se_watermark e)) (fj_events j))"
      by (simp add: last_map)
    also have "\<dots> = unat (fj_acknowledged_through j) + length (fj_events j)"
      unfolding v using False by (cases "fj_events j") simp_all
    finally have "unat (se_watermark (last (fj_events j))) = unat (fj_acknowledged_through j) + length (fj_events j)" .
    moreover have "se_watermark (last (fj_events j)) = fj_head j"
      using assms(1) False by (auto simp: validate_journal_def split: if_splits)
    ultimately show ?thesis by simp
  qed
  then show ?thesis using v by simp
qed

lemma filter_upt_ge: "filter (\<lambda>i. s < i) [a + 1 ..< b] = [max a s + 1 ..< b]"
  by (induction b) (auto simp: max_def)

lemma take_upt_min: "take m [a ..< b] = [a ..< a + min m (b - a)]"
  by (rule nth_equalityI) auto

lemma events_after:
  assumes "validate_journal j = Ok ()" "fj_head j \<noteq> - 1" "fj_acknowledged_through j \<le> start"
  shows "map (\<lambda>e. unat (se_watermark e)) (filter (\<lambda>e. start < se_watermark e) (fj_events j))
    = [unat start + 1 ..< unat (fj_head j) + 1]"
proof -
  have "map (\<lambda>e. unat (se_watermark e)) (filter (\<lambda>e. start < se_watermark e) (fj_events j))
      = filter (\<lambda>i. unat start < i) (map (\<lambda>e. unat (se_watermark e)) (fj_events j))"
    by (simp add: filter_map o_def word_less_nat_alt)
  also have "\<dots> = [unat start + 1 ..< unat (fj_head j) + 1]"
    using assms(3) by (simp only: journal_watermarks [OF assms(1,2)] filter_upt_ge word_le_nat_alt max_absorb2)
  finally show ?thesis .
qed

lemma runtime_event_watermark: "runtime_event h e = Ok r \<Longrightarrow> ei_watermark (re_identity r) = se_watermark e"
  by (auto simp: runtime_event_def split: stored_change_set.splits)

lemma runtime_events_Ok:
  assumes "\<forall>e \<in> set es. \<exists>r. runtime_event h e = Ok r" "\<forall>n. check n = Ok ()"
  shows "\<exists>rs. runtime_events h check n es = Ok rs
    \<and> map (\<lambda>r. ei_watermark (re_identity r)) rs = map se_watermark es"
  using assms
proof (induction es arbitrary: n)
  case (Cons e es)
  then obtain r rs where "runtime_event h e = Ok r" "runtime_events h check (n + 1) es = Ok rs"
    "map (\<lambda>r. ei_watermark (re_identity r)) rs = map se_watermark es" by fastforce
  moreover have "check n = Ok ()" using Cons.prems(2) by simp
  ultimately show ?case by (intro exI [of _ "r # rs"]) (simp add: runtime_event_watermark)
qed simp

text \<open>
  C22: reading the feed has no gaps and no repetitions. When the journal is valid and names the handle,
  the requested position is not below the acknowledged one, nothing fails and the operation is not
  cancelled, the call returns a page: the watermarks of its events are the consecutive numbers right
  after the position, as many as the limit and the cap of 256 allow and the feed holds; the
  continuation is the last of them exactly when the head lies beyond it. So a reader that follows the
  continuations sees every event up to the head once, in order.
\<close>

theorem feed_reads_without_gaps:
  fixes j :: feed_journal
  assumes "journal_of h file = Some j" "validate_journal j = Ok ()" "current_handle j feed"
    "fh_read_error h = None" "\<forall>i. check i = Ok ()" "fj_head j \<noteq> - 1" "0 < limit"
    "\<forall>e \<in> set (fj_events j). \<exists>r. runtime_event h e = Ok r"
    "start = (case after of Some w \<Rightarrow> w | None \<Rightarrow> fj_acknowledged_through j)"
    "fj_acknowledged_through j \<le> start"
    "n = min (min limit MAX_FEED_PAGE_ITEMS) (unat (fj_head j) - unat start)"
  shows "\<exists>page. feed_read h check feed after limit file = (file, Ok page)
    \<and> map (\<lambda>e. unat (ei_watermark (re_identity e))) (ep_events page) = [unat start + 1 ..< unat start + 1 + n]
    \<and> ep_next page = (if unat start + n < unat (fj_head j) then Some (start + of_nat n) else None)
    \<and> ep_feed_head page = fj_head j"
proof -
  have read: "snd (read_or_default h file) = Ok j" using assms(1,4) by (simp add: snd_read_Ok)
  have check: "check 0 = Ok ()" using assms(5) by simp
  show ?thesis
  proof (cases "fj_head j \<le> start")
    case True
    then show ?thesis using assms read
      by (simp add: feed_read_def feed_bind_checked Let_def leD word_le_nat_alt [of "fj_head j"])
  next
    case False
    define stored where
      "stored = take (min limit MAX_FEED_PAGE_ITEMS) (filter (\<lambda>e. start < se_watermark e) (fj_events j))"
    have w: "map (\<lambda>e. unat (se_watermark e)) stored = [unat start + 1 ..< unat start + 1 + n]"
      unfolding stored_def take_map [symmetric] events_after [OF assms(2,6,10)] take_upt_min assms(11) by simp
    have pos: "0 < n" using False assms(7,11) by (auto simp: MAX_FEED_PAGE_ITEMS_def word_le_nat_alt)
    then have ne: "stored \<noteq> []" using w by auto
    have "unat (se_watermark (last stored)) = last (map (\<lambda>e. unat (se_watermark e)) stored)"
      using ne by (simp add: last_map)
    then have last_nat: "unat (se_watermark (last stored)) = unat start + n" unfolding w using pos by simp
    have "se_watermark (last stored) = of_nat (unat (se_watermark (last stored)))" by simp
    also have "\<dots> = start + of_nat n" unfolding last_nat by simp
    finally have last: "se_watermark (last stored) = start + of_nat n" .
    have "\<forall>e \<in> set stored. \<exists>r. runtime_event h e = Ok r"
      using assms(8) by (auto simp: stored_def dest!: in_set_takeD)
    from runtime_events_Ok [OF this assms(5), of 1] obtain rs where
      rs: "runtime_events h check 1 stored = Ok rs"
      "map (\<lambda>r. ei_watermark (re_identity r)) rs = map se_watermark stored" by blast
    have "map (\<lambda>e. unat (ei_watermark (re_identity e))) rs = map unat (map se_watermark stored)"
      by (simp add: rs(2) [symmetric])
    then have "map (\<lambda>e. unat (ei_watermark (re_identity e))) rs = [unat start + 1 ..< unat start + 1 + n]"
      using w by (simp add: o_def)
    moreover have "feed_read h check feed after limit file
      = (file, Ok \<lparr>ep_events = rs, ep_next = (if unat start + n < unat (fj_head j) then Some (start + of_nat n)
          else None), ep_feed_head = fj_head j\<rparr>)"
      using assms(2,3,10) check read rs(1) ne False
      by (simp add: feed_read_def feed_bind_checked Let_def leD assms(9) [symmetric] stored_def [symmetric]
          word_less_nat_alt [of _ "fj_head j"] last [symmetric] last_nat [symmetric])
    ultimately show ?thesis by simp
  qed
qed

section \<open>Recovery\<close>

definition holds_event :: "feed_journal \<Rightarrow> 'o runtime_resolution \<Rightarrow> bool" where
  "holds_event j r \<longleftrightarrow>
     (case r of
        ResolutionCommitted _ _ _ _ event_id _ \<Rightarrow> list_ex (\<lambda>e. se_id e = event_id) (fj_events j)
      | _ \<Rightarrow> True)"

lemma holds_event_mono:
  "holds_event j r \<Longrightarrow> set (fj_events j) \<subseteq> set (fj_events j') \<Longrightarrow> holds_event j' r"
  by (auto simp: holds_event_def list_ex_iff split: runtime_resolution.splits)

lemma reconcile_loop_subset:
  "reconcile_loop check n rs j g c = Ok (j', g', c') \<Longrightarrow> set (fj_events j) \<subseteq> set (fj_events j')"
  using reconcile_loop_appends by fastforce

lemma reconcile_loop_holds:
  "reconcile_loop check n rs j g c = Ok (j', g', c') \<Longrightarrow> list_all (holds_event j') rs"
proof (induction rs arbitrary: n j g c)
  case (Cons r rs)
  show ?case
  proof (cases "holds_event j r")
    case True
    then have "reconcile_loop check (n + 1) rs j g c = Ok (j', g', c')"
      using Cons.prems by (cases r) (auto simp: holds_event_def split: if_splits)
    then show ?thesis using Cons.IH holds_event_mono [OF True reconcile_loop_subset] by auto
  next
    case False
    then obtain commit_id result committed w event_id changes where
      r: "r = ResolutionCommitted commit_id result committed w event_id changes"
      by (cases r) (auto simp: holds_event_def)
    then obtain g1 where loop: "reconcile_loop check (n + 1) rs (j\<lparr>fj_head := max (fj_head j) w,
                fj_events := fj_events j @ [recovered_event event_id w g1 changes commit_id]\<rparr>) g1 True
          = Ok (j', g', c')"
      using Cons.prems False by (auto simp: holds_event_def split: if_splits)
    have "holds_event j' r"
      using reconcile_loop_subset [OF loop] by (force simp: holds_event_def r list_ex_iff recovered_event_def)
    then show ?thesis using Cons.IH [OF loop] by simp
  qed
qed simp

lemma reconcile_loop_settled:
  assumes "list_all (holds_event j) rs" "\<forall>i. check i = Ok ()"
  shows "reconcile_loop check n rs j g c = Ok (j, g, c)"
  using assms(1)
proof (induction rs arbitrary: n)
  case (Cons r rs)
  moreover have "check n = Ok ()" using assms(2) by simp
  ultimately show ?case by (cases r) (auto simp: holds_event_def)
qed simp

text \<open>A journal with every event, on a file that exists: recovery changes nothing.\<close>

lemma reconcile_settled:
  assumes "journal_of h (Some bytes) = Some j" "fh_read_error h = None" "validate_journal j = Ok ()"
    "list_all (holds_event j) rs" "\<forall>i. check i = Ok ()" "sorted (map se_watermark (fj_events j))"
  shows "reconcile h check (Ok rs) g (Some bytes) = (Some bytes, Ok (fj_head j, g))"
proof -
  have "snd (read_or_default h (Some bytes)) = Ok j" using assms(1,2) by (simp add: snd_read_Ok)
  moreover have "sort_key se_watermark (fj_events j) = fj_events j"
    using assms(6) by (rule sort_key_id_if_sorted)
  moreover have "check 0 = Ok ()" using assms(5) by simp
  ultimately show ?thesis using assms(3) reconcile_loop_settled [OF assms(4,5)]
    by (simp add: reconcile_def feed_bind_read Let_def)
qed

lemma validate_events_sorted:
  "validate_events p head es = Ok () \<Longrightarrow> sorted (map se_watermark es)"
proof (induction es arbitrary: p)
  case (Cons e es)
  then have "validate_events (se_watermark e) head es = Ok ()" by (auto split: if_splits)
  then show ?case using Cons.IH validate_events_bounds by fastforce
qed simp

text \<open>
  C23: recovery of the feed completes and repeats without effect. When \<open>reconcile\<close> succeeds on the
  unacknowledged transactions of the collection, the journal it leaves is valid and holds the event of
  every committed one, and running it again, after a restart say, leaves the file alone and gives the
  same head and generation.
\<close>

theorem reconcile_complete_and_idempotent:
  assumes "feed_codec h" "\<forall>i. check i = Ok ()"
    "reconcile h check (Ok rs) g file = (file', Ok (w, g'))"
  shows "(\<exists>j. journal_of h file' = Some j \<and> validate_journal j = Ok () \<and> fj_head j = w
      \<and> list_all (holds_event j) rs)
    \<and> reconcile h check (Ok rs) g' file' = (file', Ok (w, g'))"
proof -
  have "check 0 = Ok ()" using assms(2) by simp
  with assms(3) obtain j j1 g1 c where j: "fh_read_error h = None" "journal_of h file = Some j"
      "reconcile_loop check 1 rs j g (file = None) = Ok (j1, g1, c)"
    and valid: "validate_journal (j1\<lparr>fj_events := sort_key se_watermark (fj_events j1)\<rparr>) = Ok ()"
    and run: "feed_bind (if c then persist h (j1\<lparr>fj_events := sort_key se_watermark (fj_events j1)\<rparr>)
        else feed_lift (Ok ())) (\<lambda>_. feed_lift (Ok (fj_head j1, g1))) file = (file', Ok (w, g'))"
    by (auto simp: reconcile_def feed_bind_read snd_read_Ok Let_def split: res.splits)
  from run have g1: "g1 = g'" "w = fj_head j1"
    and written: "(if c then persist h (j1\<lparr>fj_events := sort_key se_watermark (fj_events j1)\<rparr>) file
        else (file, Ok ())) = (file', Ok ())"
    by (auto simp: feed_bind_def split: res.splits prod.splits if_splits)
  let ?j = "j1\<lparr>fj_events := sort_key se_watermark (fj_events j1)\<rparr>"
  have holds: "list_all (holds_event ?j) rs"
    using reconcile_loop_holds [OF j(3)] holds_event_mono [of j1 _ ?j] by (auto simp: list_all_iff)
  obtain bytes where bytes: "file' = Some bytes" "journal_of h file' = Some ?j"
  proof (cases c)
    case True
    with written obtain bytes where "file' = Some bytes" "fh_encode h ?j = Ok bytes"
      by (auto elim!: persist_Ok)
    then show ?thesis using assms(1) by (intro that) (simp_all add: journal_of_def feed_codec_def)
  next
    case False
    then have "file' = file" "file \<noteq> None" "j1 = j"
      using written reconcile_loop_appends [OF j(3)] reconcile_loop_changed [of check 1 rs j g j1 g1 c] j(3) by (cases "file"; auto)+
    moreover have "validate_journal j = Ok ()"
      using assms(3) j(2) by (auto simp: reconcile_def feed_bind_read snd_read_Ok split: res.splits)
    from validate_events_sorted [OF validate_journalD(2) [OF this]]
    have "sort_key se_watermark (fj_events j) = fj_events j" by (rule sort_key_id_if_sorted)
    ultimately show ?thesis using j(2) that by auto
  qed
  have "sorted (map se_watermark (fj_events ?j))" by simp
  from reconcile_settled [OF bytes(2) [unfolded bytes(1)] j(1) valid holds assms(2) this, of g'] show ?thesis
    using bytes valid holds g1 by auto
qed

section \<open>An example\<close>

text \<open>A codec that knows a list of journals: a journal is written as its index in unary.\<close>

fun table_encode :: "feed_journal list \<Rightarrow> feed_journal \<Rightarrow> (string, string) res" where
  "table_encode [] j = Err ''unknown journal''"
| "table_encode (k # ks) j =
     (if k = j then Ok '''' else bind_res (table_encode ks j) (\<lambda>bytes. Ok (CHR ''x'' # bytes)))"

fun table_decode :: "feed_journal list \<Rightarrow> string \<Rightarrow> (string, feed_journal) res" where
  "table_decode [] bytes = Err ''not a journal''"
| "table_decode (k # ks) bytes = (case bytes of [] \<Rightarrow> Ok k | _ # rest \<Rightarrow> table_decode ks rest)"

lemma table_codec: "table_encode ks j = Ok bytes \<Longrightarrow> table_decode ks bytes = Ok j"
  by (induction ks arbitrary: bytes) (auto split: if_splits)

definition ex_feed_event :: stored_event where
  "ex_feed_event = \<lparr>se_id = ''e1'', se_watermark = 1, se_generation = \<lparr>gn_epoch = ''g'', gn_sequence = 1\<rparr>,
     se_changes = StoredExact [], se_origin = KnownMutation, se_commit_id = Some ''c1''\<rparr>"

definition ex_journals :: "feed_journal list" where
  "ex_journals =
     (let opened = default_journal\<lparr>fj_owner := Some ''app'', fj_fencing_epoch := 1\<rparr>;
          appended = opened\<lparr>fj_head := 1, fj_events := [ex_feed_event]\<rparr>;
          reopened = appended\<lparr>fj_fencing_epoch := 2\<rparr>
      in [opened, appended, reopened, reopened\<lparr>fj_acknowledged_through := 1, fj_events := []\<rparr>,
          opened\<lparr>fj_head := 1, fj_events := [ex_feed_event\<lparr>se_origin := OriginRecoveryReconciliation\<rparr>]\<rparr>])"

definition ex_feed_host :: feed_host where
  "ex_feed_host = \<lparr>fh_decode = table_decode ex_journals, fh_encode = table_encode ex_journals,
     fh_read_error = None, fh_write = ChangeMade,
     fh_digest = \<lparr>dh_jcs = \<lambda>_. Ok ''{}'', dh_sha256 = \<lambda>_. ''0''\<rparr>\<rparr>"

definition ex_outcome :: execution_effects where
  "ex_outcome = \<lparr>ee_generation = \<lparr>gn_epoch = ''g'', gn_sequence = 1\<rparr>,
     ee_changes = ChangesExact \<lparr>cb_descriptor = \<lparr>bd_schema_version = 1, bd_count = 0, bd_digest = ''sha256:0''\<rparr>,
       cb_items = []\<rparr>,
     ee_commit_id = Some ''c1'', ee_change_event = Some \<lparr>ei_id = ''e1'', ei_watermark = 1\<rparr>\<rparr>"

definition ex_resolution :: "json runtime_resolution" where
  "ex_resolution = ResolutionCommitted ''c1'' JNull \<lparr>gn_epoch = ''g'', gn_sequence = 1\<rparr> 1 ''e1''
     \<lparr>cb_descriptor = \<lparr>bd_schema_version = 1, bd_count = 0, bd_digest = ''sha256:0''\<rparr>, cb_items = []\<rparr>"

lemma ex_feed_codec: "feed_codec ex_feed_host" "same_codec ex_feed_host ex_feed_host"
  by (simp_all add: feed_codec_def same_codec_def ex_feed_host_def table_codec)

abbreviation ex_old :: change_feed where "ex_old \<equiv> \<lparr>cf_owner = ''app'', cf_fencing_epoch = 1\<rparr>"
abbreviation ex_new :: change_feed where "ex_new \<equiv> \<lparr>cf_owner = ''app'', cf_fencing_epoch = 2\<rparr>"

lemmas ex_feed_eval = ex_feed_host_def ex_journals_def ex_feed_event_def ex_outcome_def default_journal_def
  validate_journal_def current_handle_def checked_succ_def saturating_succ_def Let_def FEED_VERSION_def
  MAX_FEED_BYTES_def MAX_UNACKED_EVENTS_def commits_of_def List.map_filter_def

lemma ex_feed_run:
  "feed_open ex_feed_host ''app'' None = (Some '''', Ok ex_old)"
  "append_known ex_feed_host ex_outcome (Some '''') = (Some ''x'', Ok ())"
  "feed_open ex_feed_host ''app'' (Some ''x'') = (Some ''xx'', Ok ex_new)"
  "feed_ack ex_feed_host ex_new 1 (Some ''xx'') = (Some ''xxx'', Ok [''c1''])"
  by (simp_all add: feed_open_def append_known_def feed_ack_def checked_journal_def read_or_default_def
      feed_bind_def persist_def ex_feed_eval)

lemma ex_feed_steps:
  "feed_step ex_feed_host (Some '''') (Some ''x'')" "feed_step ex_feed_host (Some ''x'') (Some ''xx'')"
  "feed_step ex_feed_host (Some ''xx'') (Some ''xxx'')"
  using step_append_known [OF ex_feed_codec(2), of "Some ''''" ex_outcome]
    step_open [OF ex_feed_codec(2), of "Some ''x''" "''app''"]
    step_ack [OF ex_feed_codec(2), of "Some ''xx''" ex_new 1]
  by (simp_all add: ex_feed_run)

text \<open>A write that fails after the new journal is in place: the event is there although the call failed.\<close>

definition ex_unsynced :: feed_host where
  "ex_unsynced = ex_feed_host\<lparr>fh_write := ChangeUnsynced ''io''\<rparr>"

lemma ex_unsynced_append:
  "same_codec ex_feed_host ex_unsynced"
  "append_known ex_unsynced ex_outcome (Some '''') = (Some ''x'', Err (feed_io ''io''))"
  by (simp_all add: same_codec_def ex_unsynced_def append_known_def read_or_default_def feed_bind_def persist_def ex_feed_eval)

lemma ex_feed_history:
  "feed_history ex_feed_host False (Some '''') (Some ''x'')" "feed_history ex_feed_host False (Some ''x'') (Some ''xx'')"
  "feed_history ex_feed_host False (Some ''xx'') (Some ''xxx'')"
  using ex_feed_steps by (blast intro: history_start history_step)+

lemma ex_issues: "issues ex_feed_host None ex_old (Some '''')" "issues ex_feed_host (Some ''x'') ex_new (Some ''xx'')"
  unfolding issues_def using ex_feed_codec(2) ex_feed_run by blast+

theorem stale_feed_handle_fenced_witness:
  "issues ex_feed_host None ex_old (Some '''') \<and> issues ex_feed_host (Some ''x'') ex_new (Some ''xx'') \<and> ex_new \<noteq> ex_old
   \<and> feed_ack ex_feed_host ex_old 1 (Some ''xxx'') = (Some ''xxx'', Err ChangeFeedFenced)
   \<and> feed_read ex_feed_host (\<lambda>_. Ok ()) ex_old None 1 (Some ''xxx'') = (Some ''xxx'', Err ChangeFeedFenced)"
  using stale_feed_handle_fenced [OF ex_feed_codec(1) ex_issues(1) ex_feed_history(1) ex_issues(2) _ ex_feed_history(3)
      ex_feed_codec(2), of "\<lambda>_. Ok ()" None 1 1] ex_issues
  by (simp add: ex_feed_host_def)

theorem committed_change_retained_witness:
  "append_known ex_feed_host ex_outcome (Some '''') = (Some ''x'', Ok ())
   \<and> (\<exists>j. journal_of ex_feed_host (Some ''xx'') = Some j \<and> validate_journal j = Ok ()
      \<and> (1 \<le> fj_acknowledged_through j \<or> list_ex (\<lambda>e. se_id e = ''e1'') (fj_events j)))"
  using committed_change_retained [OF ex_feed_codec ex_feed_run(2) ex_feed_history(2)] ex_feed_run
  by (auto simp: ex_outcome_def list_ex_iff)

theorem feed_reads_without_gaps_witness:
  "\<exists>page. feed_read ex_feed_host (\<lambda>_. Ok ()) ex_new None 10 (Some ''xx'') = (Some ''xx'', Ok page)
     \<and> map (\<lambda>e. unat (ei_watermark (re_identity e))) (ep_events page) = [1] \<and> ep_next page = None"
proof -
  have events: "\<exists>r. runtime_event ex_feed_host ex_feed_event = Ok r"
    by (simp add: runtime_event_def ex_feed_event_def change_batch_new_def)
  have journal: "journal_of ex_feed_host (Some ''xx'') = Some (ex_journals ! 2)" "validate_journal (ex_journals ! 2) = Ok ()"
    "current_handle (ex_journals ! 2) ex_new" "fj_events (ex_journals ! 2) = [ex_feed_event]" "fj_head (ex_journals ! 2) = 1"
    "fj_acknowledged_through (ex_journals ! 2) = 0" "fh_read_error ex_feed_host = None"
    by code_simp+
  show ?thesis
    using feed_reads_without_gaps [of ex_feed_host "Some ''xx''" "ex_journals ! 2" ex_new "\<lambda>_. Ok ()" 10 0 None 1]
      events journal
    by (auto simp: MAX_FEED_PAGE_ITEMS_def)
qed

theorem reconcile_complete_and_idempotent_witness:
  "reconcile ex_feed_host (\<lambda>_. Ok ()) (Ok [ex_resolution]) \<lparr>gn_epoch = ''g'', gn_sequence = 0\<rparr> (Some '''')
     = (Some ''xxxx'', Ok (1, \<lparr>gn_epoch = ''g'', gn_sequence = 1\<rparr>))
   \<and> (\<exists>j. journal_of ex_feed_host (Some ''xxxx'') = Some j \<and> fj_head j = 1 \<and> holds_event j ex_resolution)
   \<and> reconcile ex_feed_host (\<lambda>_. Ok ()) (Ok [ex_resolution]) \<lparr>gn_epoch = ''g'', gn_sequence = 1\<rparr> (Some ''xxxx'')
     = (Some ''xxxx'', Ok (1, \<lparr>gn_epoch = ''g'', gn_sequence = 1\<rparr>))"
proof -
  have "reconcile ex_feed_host (\<lambda>_. Ok ()) (Ok [ex_resolution]) \<lparr>gn_epoch = ''g'', gn_sequence = 0\<rparr> (Some '''')
     = (Some ''xxxx'', Ok (1, \<lparr>gn_epoch = ''g'', gn_sequence = 1\<rparr>))"
    by (simp add: reconcile_def read_or_default_def feed_bind_def persist_def ex_feed_eval ex_resolution_def
        recovered_event_def next_generation_def)
  with reconcile_complete_and_idempotent [OF ex_feed_codec(1) _ this] show ?thesis by auto
qed

end
