(* ===== verification/Runtime_Gate.thy ===== *)
theory Runtime_Gate
  imports Operation_Context
begin

text \<open>
  The gate in front of a collection provider, \<open>runtime/gate.rs\<close>: readers share it, a writer has it
  alone, and a waiting writer keeps new readers out. The code between two points where a thread gives
  up the mutex is one atomic turn; threads interleave between turns in any order. A turn sees what
  \<open>context.check()\<close> and \<open>context.next_wait()\<close> answer at that moment. Counters are machine words, and
  a subtraction below zero is a panic.
\<close>

section \<open>Turns\<close>

record gate_state =
  active_readers :: u64
  writer_active :: bool
  waiting_writers :: u64

definition gate_new :: gate_state where
  "gate_new = \<lparr>active_readers = 0, writer_active = False, waiting_writers = 0\<rparr>"

text \<open>How a turn ends: with the guard, in the condition variable, with an error, with an error and a
  registration still to be withdrawn, or with a panic.\<close>

datatype turn = Granted | Waits | Failed provider_error | Abandons provider_error | TurnPanics

definition saturating_pred :: "u64 \<Rightarrow> u64" where
  "saturating_pred w = (if w = 0 then 0 else w - 1)"

text \<open>One round of the loop in \<open>RuntimeGate::read\<close>.\<close>

definition read_turn ::
  "(provider_error, unit) res \<Rightarrow> (provider_error, nat) res \<Rightarrow> gate_state \<Rightarrow> gate_state \<times> turn" where
  "read_turn check wait s =
     (case check of
        Err e \<Rightarrow> (s, Failed e)
      | Panic \<Rightarrow> (s, TurnPanics)
      | Ok _ \<Rightarrow>
          if \<not> writer_active s \<and> waiting_writers s = 0 then
            (case checked_succ (active_readers s) of
               None \<Rightarrow> (s, Failed LockPoisoned)
             | Some n \<Rightarrow> (s\<lparr>active_readers := n\<rparr>, Granted))
          else
            (case wait of
               Err e \<Rightarrow> (s, Failed e)
             | Panic \<Rightarrow> (s, TurnPanics)
             | Ok _ \<Rightarrow> (s, Waits)))"

text \<open>One round of the loop in \<open>RuntimeGate::write\<close>.\<close>

definition write_turn ::
  "(provider_error, unit) res \<Rightarrow> (provider_error, nat) res \<Rightarrow> gate_state \<Rightarrow> gate_state \<times> turn" where
  "write_turn check wait s =
     (case check of
        Err e \<Rightarrow>
          if waiting_writers s = 0 then (s, TurnPanics)
          else (s\<lparr>waiting_writers := waiting_writers s - 1\<rparr>, Failed e)
      | Panic \<Rightarrow> (s, TurnPanics)
      | Ok _ \<Rightarrow>
          if \<not> writer_active s \<and> active_readers s = 0 then
            if waiting_writers s = 0 then (s, TurnPanics)
            else (s\<lparr>waiting_writers := waiting_writers s - 1, writer_active := True\<rparr>, Granted)
          else
            (case wait of
               Err e \<Rightarrow> (s, Abandons e)
             | Panic \<Rightarrow> (s, TurnPanics)
             | Ok _ \<Rightarrow> (s, Waits)))"

text \<open>A writer registers, then takes its first round.\<close>

definition write_enter ::
  "(provider_error, unit) res \<Rightarrow> (provider_error, nat) res \<Rightarrow> gate_state \<Rightarrow> gate_state \<times> turn" where
  "write_enter check wait s =
     (case checked_succ (waiting_writers s) of
        None \<Rightarrow> (s, Failed LockPoisoned)
      | Some n \<Rightarrow> write_turn check wait (s\<lparr>waiting_writers := n\<rparr>))"

text \<open>The error branch of a failed wait, under the mutex again.\<close>

definition write_abandon :: "gate_state \<Rightarrow> gate_state" where
  "write_abandon s = s\<lparr>waiting_writers := saturating_pred (waiting_writers s)\<rparr>"

definition release_read :: "gate_state \<Rightarrow> gate_state" where
  "release_read s = s\<lparr>active_readers := saturating_pred (active_readers s)\<rparr>"

definition release_write :: "gate_state \<Rightarrow> gate_state" where
  "release_write s = s\<lparr>writer_active := False\<rparr>"

section \<open>Threads\<close>

text \<open>Where a thread stands between its turns.\<close>

datatype phase = Outside | ReaderWaits | WriterWaits | WriterAbandons provider_error | HoldsRead | HoldsWrite | Panicked

fun reader_phase :: "turn \<Rightarrow> phase" where
  "reader_phase Granted = HoldsRead"
| "reader_phase Waits = ReaderWaits"
| "reader_phase (Failed _) = Outside"
| "reader_phase (Abandons _) = Outside"
| "reader_phase TurnPanics = Panicked"

fun writer_phase :: "turn \<Rightarrow> phase" where
  "writer_phase Granted = HoldsWrite"
| "writer_phase Waits = WriterWaits"
| "writer_phase (Failed _) = Outside"
| "writer_phase (Abandons e) = WriterAbandons e"
| "writer_phase TurnPanics = Panicked"

type_synonym gate_config = "gate_state \<times> (nat \<Rightarrow> phase)"

text \<open>A check and a wait that answer: the context never panics.\<close>

definition answers :: "('e, 'a) res \<Rightarrow> bool" where
  "answers r \<longleftrightarrow> r \<noteq> Panic"

inductive gate_step :: "gate_config \<Rightarrow> gate_config \<Rightarrow> bool" where
  reader_turn: "ps t = Outside \<or> ps t = ReaderWaits \<Longrightarrow> answers check \<Longrightarrow> answers wait \<Longrightarrow>
     read_turn check wait s = (s', r) \<Longrightarrow> gate_step (s, ps) (s', ps(t := reader_phase r))"
| writer_enters: "ps t = Outside \<Longrightarrow> answers check \<Longrightarrow> answers wait \<Longrightarrow>
     write_enter check wait s = (s', r) \<Longrightarrow> gate_step (s, ps) (s', ps(t := writer_phase r))"
| writer_turn: "ps t = WriterWaits \<Longrightarrow> answers check \<Longrightarrow> answers wait \<Longrightarrow>
     write_turn check wait s = (s', r) \<Longrightarrow> gate_step (s, ps) (s', ps(t := writer_phase r))"
| writer_abandons: "ps t = WriterAbandons e \<Longrightarrow> gate_step (s, ps) (write_abandon s, ps(t := Outside))"
| reader_releases: "ps t = HoldsRead \<Longrightarrow> gate_step (s, ps) (release_read s, ps(t := Outside))"
| writer_releases: "ps t = HoldsWrite \<Longrightarrow> gate_step (s, ps) (release_write s, ps(t := Outside))"

inductive_cases gate_step_from: "gate_step (s, ps) c"

definition gate_start :: gate_config where
  "gate_start = (gate_new, \<lambda>_. Outside)"

section \<open>Counting threads\<close>

definition threads :: "(phase \<Rightarrow> bool) \<Rightarrow> (nat \<Rightarrow> phase) \<Rightarrow> nat set" where
  "threads P ps = {t. P (ps t)}"

abbreviation pending_writer :: "phase \<Rightarrow> bool" where
  "pending_writer p \<equiv> (case p of WriterWaits \<Rightarrow> True | WriterAbandons _ \<Rightarrow> True | _ \<Rightarrow> False)"

abbreviation inside :: "phase \<Rightarrow> bool" where
  "inside p \<equiv> p \<noteq> Outside"

lemma threads_upd:
  "threads P (ps(t := p)) = (if P p then insert t (threads P ps) else threads P ps - {t})"
  by (auto simp: threads_def)

lemma threads_iff [simp]: "t \<in> threads P ps \<longleftrightarrow> P (ps t)"
  by (simp add: threads_def)

lemma finite_threads: "finite (threads inside ps) \<Longrightarrow> \<not> P Outside \<Longrightarrow> finite (threads P ps)"
  by (rule finite_subset [of _ "threads inside ps"]) (auto simp: threads_def)

lemma card_threads_upd:
  assumes "finite (threads P ps)"
  shows "card (threads P (ps(t := p))) =
    (if P p then (if P (ps t) then card (threads P ps) else card (threads P ps) + 1)
     else (if P (ps t) then card (threads P ps) - 1 else card (threads P ps)))"
  using assms by (auto simp: threads_upd insert_absorb card_insert_if)

lemma card_threads_pos: "finite (threads P ps) \<Longrightarrow> P (ps t) \<Longrightarrow> 0 < card (threads P ps)"
  using card_gt_0_iff [of "threads P ps"] by fastforce

text \<open>The invariant: the counters are the numbers of threads, and a writer is alone.\<close>

definition gate_ok :: "gate_config \<Rightarrow> bool" where
  "gate_ok c \<longleftrightarrow>
     (case c of (s, ps) \<Rightarrow>
       finite (threads inside ps)
       \<and> unat (active_readers s) = card (threads (\<lambda>p. p = HoldsRead) ps)
       \<and> unat (waiting_writers s) = card (threads pending_writer ps)
       \<and> card (threads (\<lambda>p. p = HoldsWrite) ps) = (if writer_active s then 1 else 0)
       \<and> (writer_active s \<longrightarrow> active_readers s = 0)
       \<and> threads (\<lambda>p. p = Panicked) ps = {})"

lemma gate_start_ok: "gate_ok gate_start"
  by (simp add: gate_ok_def gate_start_def gate_new_def threads_def)

lemma unat_saturating_pred: "unat (saturating_pred w) = unat w - 1"
proof (cases "w = 0")
  case False
  then have "0 < unat w" by (simp add: unat_gt_0)
  then have "unat (w - 1) = unat w - 1" by (simp add: unat_sub word_le_nat_alt)
  then show ?thesis using False by (simp add: saturating_pred_def)
qed (simp add: saturating_pred_def)

lemma saturating_pred_0 [simp]: "saturating_pred 0 = 0"
  by (simp add: saturating_pred_def)

lemma pred_saturating: "w \<noteq> 0 \<Longrightarrow> w - 1 = saturating_pred w"
  by (simp add: saturating_pred_def)

section \<open>The invariant is kept\<close>

lemma gate_okD:
  assumes "gate_ok (s, ps)"
  shows "finite (threads inside ps)"
    and "unat (active_readers s) = card (threads (\<lambda>p. p = HoldsRead) ps)"
    and "unat (waiting_writers s) = card (threads pending_writer ps)"
    and "card (threads (\<lambda>p. p = HoldsWrite) ps) = (if writer_active s then 1 else 0)"
    and "writer_active s \<Longrightarrow> active_readers s = 0"
    and "ps t \<noteq> Panicked"
    and "finite (threads (\<lambda>p. p = HoldsRead) ps)" "finite (threads pending_writer ps)"
      "finite (threads (\<lambda>p. p = HoldsWrite) ps)"
  using assms finite_threads [of ps "\<lambda>p. p = HoldsRead"] finite_threads [of ps pending_writer]
    finite_threads [of ps "\<lambda>p. p = HoldsWrite"]
  by (auto simp: gate_ok_def set_eq_iff)

lemma gate_ok_upd:
  assumes "gate_ok (s, ps)"
    and "unat (active_readers s') = card (threads (\<lambda>p. p = HoldsRead) (ps(t := p)))"
    and "unat (waiting_writers s') = card (threads pending_writer (ps(t := p)))"
    and "card (threads (\<lambda>p. p = HoldsWrite) (ps(t := p))) = (if writer_active s' then 1 else 0)"
    and "writer_active s' \<Longrightarrow> active_readers s' = 0" and "p \<noteq> Panicked"
  shows "gate_ok (s', ps(t := p))"
  using assms by (auto simp: gate_ok_def threads_upd)

lemmas gate_counts = card_threads_upd [OF gate_okD(7)] card_threads_upd [OF gate_okD(8)]
  card_threads_upd [OF gate_okD(9)]

lemma reader_turn_ok:
  assumes "gate_ok (s, ps)" "ps t = Outside \<or> ps t = ReaderWaits" "answers check" "answers wait"
    "read_turn check wait s = (s', r)"
  shows "gate_ok (s', ps(t := reader_phase r))"
  using assms(2-5) gate_okD [OF assms(1)]
  by (intro gate_ok_upd [OF assms(1)])
     (auto simp: read_turn_def answers_def gate_counts [OF assms(1)] checked_succ_eq_Some unat_succ
        split: res.splits if_splits option.splits)

lemma writer_turn_ok:
  assumes "gate_ok (s, ps)" "ps t = WriterWaits" "answers check" "answers wait"
    "write_turn check wait s = (s', r)"
  shows "gate_ok (s', ps(t := writer_phase r))"
proof -
  have pos: "waiting_writers s \<noteq> 0"
    using card_threads_pos [OF gate_okD(8) [OF assms(1)], of t] assms(2) gate_okD(3) [OF assms(1)] by auto
  show ?thesis using assms(2-5) gate_okD [OF assms(1)] pos
    by (intro gate_ok_upd [OF assms(1)])
       (auto simp: write_turn_def answers_def gate_counts [OF assms(1)] pred_saturating unat_saturating_pred
          split: res.splits if_splits)
qed

text \<open>A registered writer that takes its first round is like one that waits.\<close>

lemma writer_registers_ok:
  assumes "gate_ok (s, ps)" "ps t = Outside" "checked_succ (waiting_writers s) = Some n"
  shows "gate_ok (s\<lparr>waiting_writers := n\<rparr>, ps(t := WriterWaits))"
  using assms(2,3) gate_okD [OF assms(1)]
  by (intro gate_ok_upd [OF assms(1)]) (auto simp: gate_counts [OF assms(1)] checked_succ_eq_Some unat_succ)

lemma writer_enters_ok:
  assumes "gate_ok (s, ps)" "ps t = Outside" "answers check" "answers wait"
    "write_enter check wait s = (s', r)"
  shows "gate_ok (s', ps(t := writer_phase r))"
proof (cases "checked_succ (waiting_writers s)")
  case None
  then show ?thesis using assms by (auto simp: write_enter_def fun_upd_idem)
next
  case (Some n)
  then have "write_turn check wait (s\<lparr>waiting_writers := n\<rparr>) = (s', r)"
    using assms(5) by (simp add: write_enter_def)
  from writer_turn_ok [OF writer_registers_ok [OF assms(1,2) Some] _ assms(3,4) this, of t]
  show ?thesis by simp
qed

lemma gate_ok_step:
  assumes "gate_step c c'" "gate_ok c"
  shows "gate_ok c'"
  using assms
proof cases
  case (writer_abandons ps t e s)
  then have ok: "gate_ok (s, ps)" using assms(2) by simp
  show ?thesis unfolding writer_abandons(2) using gate_okD [OF ok] writer_abandons(3)
    by (intro gate_ok_upd [OF ok]) (auto simp: write_abandon_def gate_counts [OF ok] unat_saturating_pred)
next
  case (reader_releases ps t s)
  then have ok: "gate_ok (s, ps)" using assms(2) by simp
  show ?thesis unfolding reader_releases(2) using gate_okD [OF ok] reader_releases(3)
    by (intro gate_ok_upd [OF ok])
       (auto simp: release_read_def gate_counts [OF ok] unat_saturating_pred)
next
  case (writer_releases ps t s)
  then have ok: "gate_ok (s, ps)" using assms(2) by simp
  have "writer_active s"
    using card_threads_pos [OF gate_okD(9) [OF ok], of t] writer_releases(3) gate_okD(4) [OF ok] by (auto split: if_splits)
  then show ?thesis unfolding writer_releases(2) using gate_okD [OF ok] writer_releases(3)
    by (intro gate_ok_upd [OF ok]) (auto simp: release_write_def gate_counts [OF ok])
qed (use assms(2) in \<open>auto intro: reader_turn_ok writer_turn_ok writer_enters_ok\<close>)

interpretation gate: invariant_machine gate_step gate_ok
  by unfold_locales (rule gate_ok_step)

lemma gate_ok_reachable: "gate_step\<^sup>*\<^sup>* gate_start c \<Longrightarrow> gate_ok c"
  by (rule gate.steps_inv [OF _ gate_start_ok])

section \<open>Properties\<close>

lemma singleton_writer:
  assumes "gate_ok (s, ps)" "ps t = HoldsWrite"
  shows "writer_active s" "ps u = HoldsWrite \<Longrightarrow> u = t" "ps u \<noteq> HoldsRead"
proof -
  note d = gate_okD [OF assms(1)]
  show active: "writer_active s"
    using card_threads_pos [OF d(9), of t] assms(2) d(4) by (auto split: if_splits)
  then have "card (threads (\<lambda>p. p = HoldsWrite) ps) = 1" using d(4) by simp
  then show "ps u = HoldsWrite \<Longrightarrow> u = t"
    using assms(2) by (auto simp: card_1_singleton_iff set_eq_iff)
  show "ps u \<noteq> HoldsRead" using active d(2,5) card_threads_pos [OF d(7), of u] by auto
qed

text \<open>
  C26: the provider gate excludes. In every state that any interleaving of threads reaches, with any
  cancellations, deadlines and failed waits, a thread that holds the write guard is the only one that
  holds a guard; the reader count is exactly the number of threads holding read guards and the writer
  count the number of registered writers, so neither ever wraps; and no turn has panicked, which also
  means that the mutex is never poisoned.
\<close>

theorem gate_excludes:
  assumes "gate_step\<^sup>*\<^sup>* gate_start (s, ps)"
  shows "(ps t = HoldsWrite \<longrightarrow> writer_active s \<and> (\<forall>u. u \<noteq> t \<longrightarrow> ps u \<noteq> HoldsRead \<and> ps u \<noteq> HoldsWrite))
    \<and> unat (active_readers s) = card (threads (\<lambda>p. p = HoldsRead) ps)
    \<and> unat (waiting_writers s) = card (threads pending_writer ps)
    \<and> ps v \<noteq> Panicked"
  using gate_ok_reachable [OF assms] singleton_writer gate_okD(2,3,6) by blast

lemma gate_step_keeps_readers_out:
  assumes "gate_ok (s, ps)" "gate_step (s, ps) (s', ps')" "ps w = WriterWaits"
  shows "threads (\<lambda>p. p = HoldsRead) ps' \<subseteq> threads (\<lambda>p. p = HoldsRead) ps"
proof -
  have "waiting_writers s \<noteq> 0"
    using card_threads_pos [OF gate_okD(8) [OF assms(1)], of w] assms(3) gate_okD(3) [OF assms(1)] by auto
  then have "snd (read_turn check wait s) \<noteq> Granted" for check wait
    by (auto simp: read_turn_def split: res.splits)
  moreover have "reader_phase r = HoldsRead \<longleftrightarrow> r = Granted" "writer_phase r \<noteq> HoldsRead" for r
    by (cases r; simp)+
  ultimately show ?thesis
    using assms(2) by (cases rule: gate_step_from) (auto simp: threads_upd; metis snd_conv)+
qed

text \<open>A run during which a given writer keeps waiting.\<close>

definition waits_on :: "nat \<Rightarrow> gate_config \<Rightarrow> gate_config \<Rightarrow> bool" where
  "waits_on w c c' \<longleftrightarrow> gate_step c c' \<and> snd c w = WriterWaits"

text \<open>
  A waiting writer is not starved by readers. From the moment a writer waits, and for as long as it
  does, no thread gains a read guard: the set of readers only shrinks, whatever the other threads do.
  Once nobody holds the gate, the next turn of the writer is granted unless its context has stopped.
\<close>

theorem waiting_writer_has_priority:
  assumes "gate_step\<^sup>*\<^sup>* gate_start (s0, ps0)" "(waits_on w)\<^sup>*\<^sup>* (s0, ps0) (s, ps)" "ps w = WriterWaits"
  shows "threads (\<lambda>p. p = HoldsRead) ps \<subseteq> threads (\<lambda>p. p = HoldsRead) ps0
    \<and> (threads (\<lambda>p. p = HoldsRead) ps = {} \<and> threads (\<lambda>p. p = HoldsWrite) ps = {} \<longrightarrow>
         snd (write_turn (Ok ()) wait s) = Granted)"
proof -
  have run: "gate_ok (s, ps) \<and> threads (\<lambda>p. p = HoldsRead) (snd (s, ps)) \<subseteq> threads (\<lambda>p. p = HoldsRead) (snd (s0, ps0))"
  proof (rule gate.guarded_steps [where P = "\<lambda>c. snd c w = WriterWaits"])
    show "(\<lambda>x y. gate_step x y \<and> snd x w = WriterWaits)\<^sup>*\<^sup>* (s0, ps0) (s, ps)"
      using assms(2) by (simp add: waits_on_def [abs_def])
    show "gate_ok (s0, ps0)" using assms(1) by (rule gate_ok_reachable)
  qed (use gate_step_keeps_readers_out in fastforce)
  then have ok: "gate_ok (s, ps)" ..
  have "waiting_writers s \<noteq> 0"
    using card_threads_pos [OF gate_okD(8) [OF ok], of w] assms(3) gate_okD(3) [OF ok] by auto
  moreover have "active_readers s = 0" "\<not> writer_active s"
    if "threads (\<lambda>p. p = HoldsRead) ps = {}" "threads (\<lambda>p. p = HoldsWrite) ps = {}"
    using that gate_okD(2,4) [OF ok] by (auto simp: unat_eq_zero split: if_splits)
  ultimately show ?thesis using run by (auto simp: write_turn_def)
qed

section \<open>An example\<close>

text \<open>Thread 0 reads, thread 1 waits to write, and thread 2 asks to read.\<close>

definition ex_gate :: gate_config where
  "ex_gate = (\<lparr>active_readers = 1, writer_active = False, waiting_writers = 1\<rparr>,
     (\<lambda>_. Outside)(0 := HoldsRead, 1 := WriterWaits))"

lemma ex_gate_reachable: "gate_step\<^sup>*\<^sup>* gate_start ex_gate"
proof -
  have "gate_step gate_start (\<lparr>active_readers = 1, writer_active = False, waiting_writers = 0\<rparr>,
      (\<lambda>_. Outside)(0 := HoldsRead))"
    using reader_turn [of "\<lambda>_. Outside" 0 "Ok ()" "Ok 0" gate_new
        "\<lparr>active_readers = 1, writer_active = False, waiting_writers = 0\<rparr>" Granted]
    by (simp add: gate_start_def answers_def read_turn_def gate_new_def checked_succ_def)
  moreover have "gate_step (\<lparr>active_readers = 1, writer_active = False, waiting_writers = 0\<rparr>,
      (\<lambda>_. Outside)(0 := HoldsRead)) ex_gate"
    using writer_enters [of "(\<lambda>_. Outside)(0 := HoldsRead)" 1 "Ok ()" "Ok 0"
        "\<lparr>active_readers = 1, writer_active = False, waiting_writers = 0\<rparr>"
        "\<lparr>active_readers = 1, writer_active = False, waiting_writers = 1\<rparr>" Waits]
    by (simp add: ex_gate_def answers_def write_enter_def write_turn_def checked_succ_def)
  ultimately show ?thesis by (meson converse_rtranclp_into_rtranclp r_into_rtranclp)
qed

theorem gate_excludes_witness:
  "unat (active_readers (fst ex_gate)) = card (threads (\<lambda>p. p = HoldsRead) (snd ex_gate))
   \<and> unat (waiting_writers (fst ex_gate)) = 1 \<and> snd ex_gate 1 \<noteq> Panicked"
  using gate_excludes [of "fst ex_gate" "snd ex_gate" 0 1] ex_gate_reachable by (simp add: ex_gate_def)

theorem waiting_writer_has_priority_witness:
  "snd ex_gate 1 = WriterWaits
   \<and> threads (\<lambda>p. p = HoldsRead) ((snd ex_gate)(0 := Outside)) \<subseteq> {0}
   \<and> snd (write_turn (Ok ()) (Ok 0) (release_read (fst ex_gate))) = Granted"
proof -
  have "waits_on 1 ex_gate (release_read (fst ex_gate), (snd ex_gate)(0 := Outside))"
    using reader_releases [of "snd ex_gate" 0 "fst ex_gate"] by (simp add: waits_on_def ex_gate_def)
  from waiting_writer_has_priority [of "fst ex_gate" "snd ex_gate" 1, OF _ r_into_rtranclp]
  have "threads (\<lambda>p. p = HoldsRead) ((snd ex_gate)(0 := Outside)) \<subseteq> threads (\<lambda>p. p = HoldsRead) (snd ex_gate)
    \<and> (threads (\<lambda>p. p = HoldsRead) ((snd ex_gate)(0 := Outside)) = {}
        \<and> threads (\<lambda>p. p = HoldsWrite) ((snd ex_gate)(0 := Outside)) = {} \<longrightarrow>
       snd (write_turn (Ok ()) (Ok 0) (release_read (fst ex_gate))) = Granted)"
    using ex_gate_reachable \<open>waits_on 1 ex_gate _\<close> by (simp add: ex_gate_def)
  then show ?thesis by (auto simp: ex_gate_def threads_def)
qed

end
