(* ===== verification/Read_Cursors.thy ===== *)
theory Read_Cursors
  imports Change_Sets
begin

text \<open>
  Generation-pinned reads, \<open>runtime/cursor.rs\<close>: the store of query results that are handed out page by
  page, its capacity and leases, and the authenticated tokens that name a position. A \<open>HashMap\<close> is an
  ordered map here: its iteration order only decides in which order expired entries leave. Pages of a
  lazily evaluated metadata query (\<open>open_metadata\<close>) are not modelled, so the \<open>metadata\<close> of a pinned
  read is always absent; nor is the deprecated projection of an outcome. SHA-256, the parsing of
  UUIDs and the writes of the JSON serializer are parameters.
\<close>

unbundle bit_operations_syntax

section \<open>Data\<close>

datatype query_output = OutputMetadata

record query_value =
  qv_output :: "query_output option"
  qv_records :: "json list"
  qv_total_count :: "nat option"
  qv_has_more :: bool
  qv_meta :: json
  qv_embedded_diagnostics :: "json list"

text \<open>The value of an operation; the variants other than \<open>Query\<close> are told apart by their JSON.\<close>

datatype operation_value = QueryOutcome "query_value option" | OtherOutcome json

record canonical_operation =
  co_valid :: bool
  co_value :: operation_value
  co_diagnostics :: "json list"

record execution_outcome =
  eo_operation :: canonical_operation
  eo_generation :: collection_generation
  eo_changes :: change_set
  eo_commit_id :: "string option"
  eo_change_event :: "change_event_identity option"

definition query_value_of :: "canonical_operation \<Rightarrow> query_value option" where
  "query_value_of operation = (case co_value operation of QueryOutcome (Some q) \<Rightarrow> Some q | _ \<Rightarrow> None)"

definition set_query :: "query_value \<Rightarrow> canonical_operation \<Rightarrow> canonical_operation" where
  "set_query q operation = operation\<lparr>co_value := QueryOutcome (Some q)\<rparr>"

type_synonym read_cursor = string

definition read_cursor_from_token :: "string \<Rightarrow> (provider_error, read_cursor) res" where
  "read_cursor_from_token token =
     (if token = '''' \<or> 256 < length token \<or> \<not> list_all (\<lambda>c. (of_char c :: nat) < 128) token
      then Err InvalidReadCursor else Ok token)"

record read_page =
  rp_outcome :: execution_outcome
  rp_next :: "read_cursor option"

record pinned_read =
  pr_generation :: collection_generation
  pr_template :: canonical_operation
  pr_results :: "json list"
  pr_page_items :: nat
  pr_page_sizes :: "(nat, nat) btree"
  pr_retained_bytes :: u64
  pr_created :: nat
  pr_last_access :: nat

record cursor_store =
  cu_entries :: "(string, pinned_read) btree"
  cu_retained_bytes :: u64
  cu_signing_key :: "8 word list"
  cu_runtime_epoch :: string

definition MAX_ACTIVE_CURSORS :: nat where "MAX_ACTIVE_CURSORS = 32"
definition MAX_CURSOR_BYTES :: u64 where "MAX_CURSOR_BYTES = 32 * 1024 * 1024"
definition DEFAULT_PAGE_ITEMS :: nat where "DEFAULT_PAGE_ITEMS = 100"
definition MAX_PAGE_ITEMS :: nat where "MAX_PAGE_ITEMS = 1000"
definition PAGE_CHOICE_BYTES :: u64 where "PAGE_CHOICE_BYTES = 128"

text \<open>Durations in nanoseconds.\<close>

definition IDLE_LEASE :: nat where "IDLE_LEASE = 30 * 1000000000"
definition HARD_LIFETIME :: nat where "HARD_LIFETIME = 5 * 60 * 1000000000"

text \<open>
  Library code: the bytes of SHA-256, \<open>Uuid::parse_str\<close> followed by its canonical text, and the
  serializer, which writes chunks of given lengths and may end with an error.
\<close>

record cursor_host =
  ch_sha256 :: "8 word list \<Rightarrow> 8 word list"
  ch_parse_uuid :: "string \<Rightarrow> string option"
  ch_writes :: "json list \<Rightarrow> nat list \<times> string option"
  ch_io_message :: "string \<Rightarrow> string"

text \<open>
  What one call meets: the answers of its \<open>context.check()\<close> calls and the instants it reads, by
  number, the result of its reservation of memory and the UUID it generates.
\<close>

record cursor_env =
  en_check :: "nat \<Rightarrow> (provider_error, unit) res"
  en_time :: "nat \<Rightarrow> nat"
  en_reserve :: bool
  en_uuid :: string

type_synonym cursor_state = "cursor_store \<times> capture_usage"
type_synonym 'a cursor_op = "cursor_state \<Rightarrow> cursor_state \<times> (provider_error, 'a) res"

definition cur_bind :: "'a cursor_op \<Rightarrow> ('a \<Rightarrow> 'b cursor_op) \<Rightarrow> 'b cursor_op" where
  "cur_bind m f st =
     (case m st of
        (st', Ok x) \<Rightarrow> f x st'
      | (st', Err e) \<Rightarrow> (st', Err e)
      | (st', Panic) \<Rightarrow> (st', Panic))"

definition cur_lift :: "(provider_error, 'a) res \<Rightarrow> 'a cursor_op" where
  "cur_lift r st = (st, r)"

definition cur_store :: "(cursor_store \<Rightarrow> cursor_store) \<Rightarrow> unit cursor_op" where
  "cur_store f st = ((f (fst st), snd st), Ok ())"

definition cur_charge :: "operation_context \<Rightarrow> u64 \<Rightarrow> unit cursor_op" where
  "cur_charge cx bytes st =
     (let (usage, r) = charge_retained cx bytes (snd st) in ((fst st, usage), r))"

section \<open>Tokens\<close>

definition hex_digit :: "nat \<Rightarrow> char" where
  "hex_digit n = (if n < 10 then char_of (48 + n) else char_of (87 + n))"

definition lower_hex :: "8 word list \<Rightarrow> string" where
  "lower_hex bytes = concat (map (\<lambda>b. [hex_digit (unat b div 16), hex_digit (unat b mod 16)]) bytes)"

definition as_bytes :: "string \<Rightarrow> 8 word list" where
  "as_bytes s = map of_char s"

text \<open>HMAC with a block of 64 bytes and a key of 32.\<close>

definition mac_pad :: "8 word \<Rightarrow> 8 word list \<Rightarrow> 8 word list" where
  "mac_pad byte key = map (\<lambda>i. if i < length key then byte XOR key ! i else byte) [0..<64]"

definition cursor_mac :: "cursor_host \<Rightarrow> 8 word list \<Rightarrow> 8 word list \<Rightarrow> string" where
  "cursor_mac h key message =
     lower_hex (ch_sha256 h (mac_pad 0x5C key @ ch_sha256 h (mac_pad 0x36 key @ message)))"

definition constant_time_equal :: "8 word list \<Rightarrow> 8 word list \<Rightarrow> bool" where
  "constant_time_equal left right \<longleftrightarrow>
     length left = length right
     \<and> foldl (\<lambda>difference (l, r). difference OR (l XOR r)) 0 (zip left right) = 0"

definition cursor_message :: "cursor_store \<Rightarrow> string \<Rightarrow> nat \<Rightarrow> string" where
  "cursor_message store ident next_index =
     ''v1:'' @ cu_runtime_epoch store @ '':'' @ ident @ '':'' @ show_nat next_index"

definition issue :: "cursor_host \<Rightarrow> cursor_store \<Rightarrow> string \<Rightarrow> nat \<Rightarrow> read_cursor" where
  "issue h store ident next_index =
     cursor_message store ident next_index @ '':''
     @ cursor_mac h (cu_signing_key store) (as_bytes (cursor_message store ident next_index))"

definition authenticate ::
  "cursor_host \<Rightarrow> cursor_store \<Rightarrow> read_cursor \<Rightarrow> (provider_error, string \<times> nat) res" where
  "authenticate h store cursor =
     (let parts = split_on CHR '':'' cursor in
      if length parts \<noteq> 5 \<or> parts ! 0 \<noteq> ''v1'' \<or> length (parts ! 4) \<noteq> 64 then Err InvalidReadCursor
      else if parts ! 1 \<noteq> cu_runtime_epoch store then Err GenerationExpired
      else
        (case ch_parse_uuid h (parts ! 2) of
           None \<Rightarrow> Err InvalidReadCursor
         | Some ident \<Rightarrow>
             if ident \<noteq> parts ! 2 then Err InvalidReadCursor
             else
               (case parse_u64 (parts ! 3) of
                  None \<Rightarrow> Err InvalidReadCursor
                | Some next_index \<Rightarrow>
                    if constant_time_equal
                         (as_bytes (cursor_mac h (cu_signing_key store) (as_bytes (cursor_message store ident next_index))))
                         (as_bytes (parts ! 4))
                    then Ok (ident, next_index) else Err InvalidReadCursor)))"

section \<open>The store\<close>

definition cursor_store_new :: "8 word list \<Rightarrow> string \<Rightarrow> cursor_store" where
  "cursor_store_new key epoch =
     \<lparr>cu_entries = [], cu_retained_bytes = 0, cu_signing_key = key, cu_runtime_epoch = epoch\<rparr>"

definition saturating_sub :: "u64 \<Rightarrow> u64 \<Rightarrow> u64" where
  "saturating_sub a b = (if a < b then 0 else a - b)"

definition remove_entry :: "string \<Rightarrow> cursor_store \<Rightarrow> cursor_store" where
  "remove_entry ident store =
     (case bt_get (cu_entries store) ident of
        None \<Rightarrow> store
      | Some removed \<Rightarrow>
          store\<lparr>cu_entries := bt_remove ident (cu_entries store),
                cu_retained_bytes := saturating_sub (cu_retained_bytes store) (pr_retained_bytes removed)\<rparr>)"

definition expired :: "nat \<Rightarrow> pinned_read \<Rightarrow> bool" where
  "expired now entry \<longleftrightarrow> IDLE_LEASE \<le> now - pr_last_access entry \<or> HARD_LIFETIME \<le> now - pr_created entry"

definition remove_expired :: "nat \<Rightarrow> cursor_store \<Rightarrow> cursor_store" where
  "remove_expired now store =
     fold remove_entry (map fst (filter (\<lambda>(_, entry). expired now entry) (cu_entries store))) store"

text \<open>\<open>measured_json_bytes\<close>: the counting writer.\<close>

fun count_writes :: "u64 \<Rightarrow> u64 \<Rightarrow> nat list \<Rightarrow> (provider_error + string, u64) res" where
  "count_writes limit bytes [] = Ok bytes"
| "count_writes limit bytes (n # ns) =
     (case checked_add bytes (of_nat n) of
        None \<Rightarrow> Err (Inr ''capture arithmetic overflow'')
      | Some attempted \<Rightarrow>
          if limit < attempted then Err (Inl (limit_error LimitRetainedBytes limit attempted))
          else count_writes limit attempted ns)"

definition serialization_failed :: "string \<Rightarrow> provider_error" where
  "serialization_failed message = TransactionFailed ''cursor_serialization_failed'' message"

definition measured_json_bytes :: "cursor_host \<Rightarrow> json list \<Rightarrow> u64 \<Rightarrow> (provider_error, u64) res" where
  "measured_json_bytes h value limit =
     (let (writes, error) = ch_writes h value in
      case count_writes limit 0 writes of
        Err (Inl exceeded) \<Rightarrow> Err exceeded
      | Err (Inr message) \<Rightarrow> Err (serialization_failed (ch_io_message h message))
      | Panic \<Rightarrow> Panic
      | Ok bytes \<Rightarrow>
          (case error of Some message \<Rightarrow> Err (serialization_failed message) | None \<Rightarrow> Ok bytes))"

definition set_has_more :: "bool \<Rightarrow> json \<Rightarrow> json" where
  "set_has_more has_more meta =
     (case meta of JObj m \<Rightarrow> JObj (bt_insert ''has_more'' (JBool has_more) m) | _ \<Rightarrow> meta)"

definition clamp_items :: "nat \<Rightarrow> nat" where
  "clamp_items n = max 1 (min n MAX_PAGE_ITEMS)"

definition guard_capacity :: "bool \<Rightarrow> unit cursor_op" where
  "guard_capacity ok = cur_lift (if ok then Ok () else Err CursorCapacityExhausted)"

section \<open>Pages\<close>

text \<open>
  The first requested size at a position is recorded and paid for, so that a repeated request gets
  the same page.
\<close>

definition record_page_size ::
  "operation_context \<Rightarrow> cursor_env \<Rightarrow> string \<Rightarrow> nat \<Rightarrow> nat \<Rightarrow> pinned_read \<Rightarrow> unit cursor_op" where
  "record_page_size cx en ident next_index page_items pinned st =
     (if bt_contains (pr_page_sizes pinned) next_index then (st, Ok ())
      else
        (case (checked_add (pr_retained_bytes pinned) PAGE_CHOICE_BYTES,
               checked_add (cu_retained_bytes (fst st)) PAGE_CHOICE_BYTES) of
           (Some retained_bytes, Some store_bytes) \<Rightarrow>
             cur_bind (guard_capacity (store_bytes \<le> MAX_CURSOR_BYTES)) (\<lambda>_.
             cur_bind (guard_capacity (en_reserve en)) (\<lambda>_.
             cur_bind (cur_charge cx PAGE_CHOICE_BYTES) (\<lambda>_.
             cur_store (\<lambda>store.
               store\<lparr>cu_entries := bt_insert ident
                        (pinned\<lparr>pr_page_sizes := bt_insert next_index page_items (pr_page_sizes pinned),
                               pr_retained_bytes := retained_bytes\<rparr>) (cu_entries store),
                     cu_retained_bytes := store_bytes\<rparr>)))) st
         | _ \<Rightarrow> (st, Err CursorCapacityExhausted)))"

definition page_of :: "pinned_read \<Rightarrow> query_value \<Rightarrow> nat \<Rightarrow> nat \<Rightarrow> canonical_operation" where
  "page_of pinned q start stop =
     set_query
       (q\<lparr>qv_records := take (stop - start) (drop start (pr_results pinned)),
          qv_has_more := (stop < length (pr_results pinned)),
          qv_meta := set_has_more (stop < length (pr_results pinned)) (qv_meta q)\<rparr>)
       (pr_template pinned)"

text \<open>
  The rest of \<open>page_with_limit\<close> for a pinned read and a position; \<open>k\<close> numbers the first check and
  instant of the call.
\<close>

definition finish_page ::
  "cursor_host \<Rightarrow> cursor_env \<Rightarrow> nat \<Rightarrow> string \<Rightarrow> pinned_read \<Rightarrow> nat \<Rightarrow> nat \<Rightarrow> read_page cursor_op" where
  "finish_page h en k ident pinned next_index stop =
     (case query_value_of (pr_template pinned) of
        None \<Rightarrow> cur_lift (Err (TransactionFailed ''cursor_state_invalid''
            ''pinned read no longer contains a typed query''))
      | Some q \<Rightarrow>
          cur_bind (cur_store (\<lambda>store.
            store\<lparr>cu_entries := bt_modify ident (\<lambda>p. p\<lparr>pr_last_access := en_time en (k + 1)\<rparr>) (cu_entries store)\<rparr>)) (\<lambda>_.
          cur_bind (cur_lift (en_check en (k + 1))) (\<lambda>_ st.
          (st, Ok \<lparr>rp_outcome =
                \<lparr>eo_operation = page_of pinned q next_index stop, eo_generation = pr_generation pinned,
                 eo_changes = ChangesNone, eo_commit_id = None, eo_change_event = None\<rparr>,
              rp_next = (if stop < length (pr_results pinned) then Some (issue h (fst st) ident stop) else None)\<rparr>))))"

definition chosen_size :: "pinned_read \<Rightarrow> nat \<Rightarrow> nat option \<Rightarrow> nat" where
  "chosen_size pinned next_index limit =
     (case bt_get (pr_page_sizes pinned) next_index of
        Some n \<Rightarrow> n
      | None \<Rightarrow> clamp_items (case limit of Some n \<Rightarrow> n | None \<Rightarrow> pr_page_items pinned))"

definition page_pinned ::
  "cursor_host \<Rightarrow> operation_context \<Rightarrow> cursor_env \<Rightarrow> nat \<Rightarrow> nat option \<Rightarrow> string \<Rightarrow> nat \<Rightarrow> pinned_read \<Rightarrow> read_page cursor_op" where
  "page_pinned h cx en k limit ident next_index pinned =
     (let total = length (pr_results pinned);
          page_items = chosen_size pinned next_index limit;
          stop = min (next_index + page_items) total
      in
      if total < next_index \<or> (case limit of Some n \<Rightarrow> clamp_items n \<noteq> page_items | None \<Rightarrow> False)
      then cur_lift (Err InvalidReadCursor)
      else
        cur_bind (record_page_size cx en ident next_index page_items pinned) (\<lambda>_.
        finish_page h en k ident pinned next_index stop))"

definition page_at ::
  "cursor_host \<Rightarrow> operation_context \<Rightarrow> cursor_env \<Rightarrow> nat \<Rightarrow> nat option \<Rightarrow> string \<Rightarrow> nat \<Rightarrow> read_page cursor_op" where
  "page_at h cx en k limit ident next_index st =
     (case bt_get (cu_entries (fst st)) ident of
        None \<Rightarrow> (st, Err GenerationExpired)
      | Some pinned \<Rightarrow> page_pinned h cx en k limit ident next_index pinned st)"

definition page_with_limit ::
  "cursor_host \<Rightarrow> operation_context \<Rightarrow> cursor_env \<Rightarrow> nat \<Rightarrow> read_cursor \<Rightarrow> nat option \<Rightarrow> read_page cursor_op" where
  "page_with_limit h cx en k cursor limit =
     cur_bind (cur_lift (en_check en k)) (\<lambda>_.
     cur_bind (cur_store (remove_expired (en_time en k))) (\<lambda>_ st.
     cur_bind (cur_lift (authenticate h (fst st) cursor)) (\<lambda>(ident, next_index).
     page_at h cx en k limit ident next_index) st))"

definition cursor_page ::
  "cursor_host \<Rightarrow> operation_context \<Rightarrow> cursor_env \<Rightarrow> read_cursor \<Rightarrow> read_page cursor_op" where
  "cursor_page h cx en cursor = page_with_limit h cx en 0 cursor None"

section \<open>Opening and releasing\<close>

definition pin_results ::
  "cursor_host \<Rightarrow> operation_context \<Rightarrow> cursor_env \<Rightarrow> execution_outcome \<Rightarrow> query_value \<Rightarrow> nat \<Rightarrow> u64 \<Rightarrow> read_page cursor_op" where
  "pin_results h cx en outcome q page_items retained st =
     (case checked_add (cu_retained_bytes (fst st)) retained of
        None \<Rightarrow> (st, Err CursorCapacityExhausted)
      | Some store_bytes \<Rightarrow>
          cur_bind (guard_capacity (length (cu_entries (fst st)) < MAX_ACTIVE_CURSORS
              \<and> retained \<le> MAX_CURSOR_BYTES \<and> store_bytes \<le> MAX_CURSOR_BYTES)) (\<lambda>_.
          cur_bind (guard_capacity (en_reserve en)) (\<lambda>_.
          cur_bind (cur_charge cx retained) (\<lambda>_.
          cur_bind (cur_store (\<lambda>store.
            store\<lparr>cu_entries := bt_insert (en_uuid en)
                     \<lparr>pr_generation = eo_generation outcome,
                      pr_template = set_query (q\<lparr>qv_records := []\<rparr>) (eo_operation outcome),
                      pr_results = qv_records q, pr_page_items = page_items, pr_page_sizes = [],
                      pr_retained_bytes = retained, pr_created = en_time en 1,
                      pr_last_access = en_time en 1\<rparr> (cu_entries store),
                  cu_retained_bytes := store_bytes\<rparr>)) (\<lambda>_ st.
          page_with_limit h cx en 2 (issue h (fst st) (en_uuid en) 0) None st)))) st)"

definition cursor_open ::
  "cursor_host \<Rightarrow> operation_context \<Rightarrow> cursor_env \<Rightarrow> execution_outcome \<Rightarrow> nat option \<Rightarrow> read_page cursor_op" where
  "cursor_open h cx en outcome page_items =
     cur_bind (cur_lift (en_check en 0)) (\<lambda>_.
     cur_bind (cur_store (remove_expired (en_time en 0))) (\<lambda>_.
     let items = clamp_items (case page_items of Some n \<Rightarrow> n | None \<Rightarrow> DEFAULT_PAGE_ITEMS) in
     case query_value_of (eo_operation outcome) of
       None \<Rightarrow> cur_lift (Ok \<lparr>rp_outcome = outcome, rp_next = None\<rparr>)
     | Some q \<Rightarrow>
         cur_bind (cur_lift (if qv_records q = [] then Ok 0
             else measured_json_bytes h (qv_records q) (max_retained_bytes (cx_limits cx)))) (\<lambda>retained.
         if length (qv_records q) \<le> items then
           cur_bind (cur_charge cx retained) (\<lambda>_.
           cur_lift (Ok \<lparr>rp_outcome = outcome\<lparr>eo_operation :=
               set_query (q\<lparr>qv_has_more := False, qv_meta := set_has_more False (qv_meta q)\<rparr>) (eo_operation outcome)\<rparr>,
             rp_next = None\<rparr>))
         else pin_results h cx en outcome q items retained)))"

definition validate_output ::
  "cursor_host \<Rightarrow> cursor_store \<Rightarrow> read_cursor \<Rightarrow> query_output \<Rightarrow> (provider_error, unit) res" where
  "validate_output h store cursor output =
     bind_res (authenticate h store cursor) (\<lambda>(ident, _).
     case bt_get (cu_entries store) ident of
       None \<Rightarrow> Err GenerationExpired
     | Some pinned \<Rightarrow>
         (case query_value_of (pr_template pinned) of
            Some q \<Rightarrow> if qv_output q = Some output then Ok () else Err InvalidReadCursor
          | None \<Rightarrow> Err InvalidReadCursor))"

definition cursor_release :: "cursor_host \<Rightarrow> read_cursor \<Rightarrow> bool cursor_op" where
  "cursor_release h cursor st =
     (case authenticate h (fst st) cursor of
        Ok (ident, _) \<Rightarrow> ((remove_entry ident (fst st), snd st), Ok (bt_contains (cu_entries (fst st)) ident))
      | Err e \<Rightarrow> (st, Err e)
      | Panic \<Rightarrow> (st, Panic))"

definition measurements :: "nat \<Rightarrow> cursor_store \<Rightarrow> cursor_store \<times> nat \<times> u64" where
  "measurements now store =
     (let store' = remove_expired now store in (store', length (cu_entries store'), cu_retained_bytes store'))"

end
