(* ===== verification/Cursor_Properties.thy ===== *)
theory Cursor_Properties
  imports Read_Cursors
begin

text \<open>
  Correctness of generation-pinned reads: tokens authenticate, the store stays within its capacity and
  accounts for exactly what it retains, and pages are slices of the pinned results that can be asked
  for again.
\<close>

section \<open>Tokens\<close>

lemma xor_eq_0_iff: "l XOR r = 0 \<longleftrightarrow> l = r" for l r :: "8 word"
  by (metis xor.assoc xor.left_neutral xor_self_eq)

lemma constant_time_equal_iff [simp]: "constant_time_equal left right \<longleftrightarrow> left = right"
proof -
  have "foldl (\<lambda>difference (l, r). difference OR (l XOR r)) d (zip left right) = 0
      \<longleftrightarrow> d = 0 \<and> (\<forall>(l, r) \<in> set (zip left right). l = r)" for d
    by (induction left right arbitrary: d rule: list_induct2') (auto simp: or_eq_0_iff xor_eq_0_iff)
  then show ?thesis unfolding constant_time_equal_def
    by (auto simp: list_eq_iff_zip_eq)
qed

lemma as_bytes_inject [simp]: "as_bytes s = as_bytes t \<longleftrightarrow> s = t"
proof -
  have "unat (of_char c :: 8 word) = of_char c" for c
  proof -
    have "unat (of_nat (of_char c) :: 8 word) = of_char c mod 2 ^ 8" by (simp add: unat_of_nat)
    also have "\<dots> = of_char c" by simp
    finally show ?thesis by (simp only: of_nat_of_char)
  qed
  then have "inj (of_char :: char \<Rightarrow> 8 word)" by (metis injI of_char_eq_iff)
  then show ?thesis by (simp add: as_bytes_def inj_map_eq_map)
qed

lemma length_lower_hex [simp]: "length (lower_hex bytes) = 2 * length bytes"
  by (induction bytes) (simp_all add: lower_hex_def)

lemma colon_not_digit: "CHR '':'' \<notin> set (show_nat n)"
  using show_nat_digits [of n] by (auto simp: list_all_iff is_ascii_digit_def)

lemma colon_not_hex: "CHR '':'' \<notin> set (lower_hex bytes)"
proof -
  have "hex_digit n \<noteq> CHR '':''" if "n < 16" for n
  proof -
    have "of_char (hex_digit n) \<noteq> (58 :: nat)" using that by (auto simp: hex_digit_def)
    then show ?thesis by auto
  qed
  moreover have "unat (b :: 8 word) div 16 < 16" for b
    using unsigned_less [of b, where ?'a = nat] by simp
  ultimately have "hex_digit (unat b div 16) \<noteq> CHR '':''" "hex_digit (unat b mod 16) \<noteq> CHR '':''" for b :: "8 word"
    by simp_all
  then show ?thesis by (force simp: lower_hex_def)
qed

definition token_of :: "string list \<Rightarrow> read_cursor" where
  "token_of parts = join_with '':'' parts"

lemma issue_token:
  "issue h store ident n = token_of [''v1'', cu_runtime_epoch store, ident, show_nat n,
     cursor_mac h (cu_signing_key store) (as_bytes (cursor_message store ident n))]"
  by (simp add: issue_def cursor_message_def token_of_def)

lemma split_token:
  "parts \<noteq> [] \<Longrightarrow> \<forall>p \<in> set parts. CHR '':'' \<notin> set p \<Longrightarrow> split_on CHR '':'' (token_of parts) = parts"
  unfolding token_of_def by (rule split_join)

text \<open>What an accepted token is: the issued one, up to the spelling of the position.\<close>

lemma authenticate_Ok:
  assumes "authenticate h store cursor = Ok (ident, n)"
  shows "\<exists>spelling. parse_u64 spelling = Some n \<and> cursor = token_of [''v1'', cu_runtime_epoch store, ident, spelling,
     cursor_mac h (cu_signing_key store) (as_bytes (cursor_message store ident n))]"
proof -
  define parts where "parts = split_on CHR '':'' cursor"
  have "length parts = 5" "parts ! 0 = ''v1''" "parts ! 1 = cu_runtime_epoch store" "parts ! 2 = ident"
    "parse_u64 (parts ! 3) = Some n"
    "parts ! 4 = cursor_mac h (cu_signing_key store) (as_bytes (cursor_message store ident n))"
    using assms
    by (auto simp: authenticate_def Let_def parts_def [symmetric] split: if_splits option.splits)
  moreover from this(1) have "parts = [parts ! 0, parts ! 1, parts ! 2, parts ! 3, parts ! 4]"
    by (auto simp: numeral_eq_Suc length_Suc_conv)
  moreover have "cursor = token_of parts" by (simp add: parts_def token_of_def)
  ultimately show ?thesis by metis
qed

lemma authenticate_issue:
  assumes "CHR '':'' \<notin> set (cu_runtime_epoch store)" "CHR '':'' \<notin> set ident" "ch_parse_uuid h ident = Some ident"
    "\<forall>m. length (ch_sha256 h m) = 32" "n < 2 ^ 64"
  shows "authenticate h store (issue h store ident n) = Ok (ident, n)"
proof -
  let ?mac = "cursor_mac h (cu_signing_key store) (as_bytes (cursor_message store ident n))"
  have "length ?mac = 64" using assms(4) by (simp add: cursor_mac_def)
  moreover have "split_on CHR '':'' (issue h store ident n) = [''v1'', cu_runtime_epoch store, ident, show_nat n, ?mac]"
    unfolding issue_token using assms(1,2) colon_not_digit colon_not_hex
    by (intro split_token) (auto simp: cursor_mac_def)
  ultimately show ?thesis using assms(3,5) by (simp add: authenticate_def parse_show_nat)
qed

text \<open>
  C29: cursor tokens are authenticated. A token that the store issued for a position is read back as
  that position; whatever token is accepted carries the code that the store's secret key gives to the
  position, in the only place, and differs from the issued token at most in the spelling of the
  number; and a runtime of another epoch rejects it as expired.
\<close>

theorem cursor_tokens_authenticate:
  assumes "CHR '':'' \<notin> set (cu_runtime_epoch store)" "CHR '':'' \<notin> set ident" "ch_parse_uuid h ident = Some ident"
    "\<forall>m. length (ch_sha256 h m) = 32" "n < 2 ^ 64" "cu_runtime_epoch other \<noteq> cu_runtime_epoch store"
  shows "authenticate h store (issue h store ident n) = Ok (ident, n)
    \<and> (authenticate h store cursor = Ok (ident, n) \<longrightarrow>
        (\<exists>spelling. parse_u64 spelling = Some n \<and> cursor = ''v1:'' @ cu_runtime_epoch store @ '':'' @ ident @ '':''
           @ spelling @ '':'' @ cursor_mac h (cu_signing_key store) (as_bytes (cursor_message store ident n))))
    \<and> authenticate h other (issue h store ident n) = Err GenerationExpired"
proof (intro conjI impI)
  show "authenticate h store (issue h store ident n) = Ok (ident, n)"
    by (rule authenticate_issue [OF assms(1-5)])
  show "\<exists>spelling. parse_u64 spelling = Some n \<and> cursor = ''v1:'' @ cu_runtime_epoch store @ '':'' @ ident @ '':''
      @ spelling @ '':'' @ cursor_mac h (cu_signing_key store) (as_bytes (cursor_message store ident n))"
    if "authenticate h store cursor = Ok (ident, n)"
    using authenticate_Ok [OF that] by (simp add: token_of_def)
  have "split_on CHR '':'' (issue h store ident n) = [''v1'', cu_runtime_epoch store, ident, show_nat n,
      cursor_mac h (cu_signing_key store) (as_bytes (cursor_message store ident n))]"
    unfolding issue_token using assms(1,2) colon_not_digit colon_not_hex
    by (intro split_token) (auto simp: cursor_mac_def)
  then show "authenticate h other (issue h store ident n) = Err GenerationExpired"
    using assms(4,6) by (simp add: authenticate_def cursor_mac_def)
qed

section \<open>Accounting\<close>

definition pinned_bytes :: "(string, pinned_read) btree \<Rightarrow> nat" where
  "pinned_bytes m = sum_list (map (\<lambda>(_, p). unat (pr_retained_bytes p)) m)"

lemma pinned_bytes_simps [simp]:
  "pinned_bytes [] = 0"
  "pinned_bytes ((k, p) # m) = unat (pr_retained_bytes p) + pinned_bytes m"
  by (simp_all add: pinned_bytes_def)

lemma pinned_bytes_insert:
  assumes "bt_wf m"
  shows "pinned_bytes (bt_insert k p m) + (case bt_get m k of Some q \<Rightarrow> unat (pr_retained_bytes q) | None \<Rightarrow> 0)
    = pinned_bytes m + unat (pr_retained_bytes p)"
    and "length (bt_insert k p m) = length m + (if bt_contains m k then 0 else 1)"
proof -
  have below: "bt_get m k = None" if "k < j" "\<forall>x \<in> set m. j < fst x" for m :: "(string, pinned_read) btree" and k j
    using that by (cases "bt_get m k") (force dest: bt_get_in_set)+
  show "pinned_bytes (bt_insert k p m) + (case bt_get m k of Some q \<Rightarrow> unat (pr_retained_bytes q) | None \<Rightarrow> 0)
      = pinned_bytes m + unat (pr_retained_bytes p)"
    using assms by (induction k p m rule: bt_insert.induct) (auto simp: bt_wf_Cons below split: option.splits)
  show "length (bt_insert k p m) = length m + (if bt_contains m k then 0 else 1)"
    using assms by (induction k p m rule: bt_insert.induct) (auto simp: bt_wf_Cons below bt_contains_def)
qed

lemma pinned_bytes_remove:
  assumes "bt_wf m"
  shows "pinned_bytes (bt_remove k m) + (case bt_get m k of Some q \<Rightarrow> unat (pr_retained_bytes q) | None \<Rightarrow> 0)
    = pinned_bytes m"
  using assms
proof (induction m)
  case (Cons e m)
  moreover obtain j p where "e = (j, p)" by force
  moreover have "bt_get m j = None" using Cons.prems \<open>e = (j, p)\<close>
    by (cases "bt_get m j") (force simp: bt_wf_Cons dest: bt_get_in_set)+
  moreover have "bt_remove j m = m" using Cons.prems \<open>e = (j, p)\<close>
    by (force simp: bt_remove_def bt_wf_Cons filter_id_conv)
  ultimately show ?case by (auto simp: bt_wf_Cons bt_remove_def)
qed (simp add: bt_remove_def)

lemma length_bt_remove: "length (bt_remove k m) \<le> length m"
  by (simp add: bt_remove_def)

lemma pinned_bytes_modify: "(\<And>p. pr_retained_bytes (f p) = pr_retained_bytes p) \<Longrightarrow> pinned_bytes (bt_modify k f m) = pinned_bytes m"
  by (induction m) (auto simp: bt_modify_def)

section \<open>The invariant of the store\<close>

definition pinned_ok :: "pinned_read \<Rightarrow> bool" where
  "pinned_ok p \<longleftrightarrow>
     query_value_of (pr_template p) \<noteq> None
     \<and> 1 \<le> pr_page_items p \<and> pr_page_items p \<le> MAX_PAGE_ITEMS \<and> pr_page_items p < length (pr_results p)
     \<and> (\<forall>i n. bt_get (pr_page_sizes p) i = Some n \<longrightarrow> 1 \<le> n \<and> n \<le> MAX_PAGE_ITEMS)"

definition cursor_ok :: "cursor_store \<Rightarrow> bool" where
  "cursor_ok s \<longleftrightarrow>
     bt_wf (cu_entries s) \<and> length (cu_entries s) \<le> MAX_ACTIVE_CURSORS
     \<and> unat (cu_retained_bytes s) = pinned_bytes (cu_entries s) \<and> cu_retained_bytes s \<le> MAX_CURSOR_BYTES
     \<and> (\<forall>ident p. bt_get (cu_entries s) ident = Some p \<longrightarrow> pinned_ok p)"

lemma cursor_store_new_ok: "cursor_ok (cursor_store_new key epoch)"
  by (simp add: cursor_ok_def cursor_store_new_def)

lemma clamp_items_bounds: "1 \<le> clamp_items n" "clamp_items n \<le> MAX_PAGE_ITEMS"
  by (auto simp: clamp_items_def MAX_PAGE_ITEMS_def)

lemma unat_saturating_sub: "unat (saturating_sub a b) = unat a - unat b"
  by (auto simp: saturating_sub_def unat_sub word_less_nat_alt word_le_nat_alt not_less)

lemma remove_entry_ok:
  assumes "cursor_ok s"
  shows "cursor_ok (remove_entry ident s)"
proof (cases "bt_get (cu_entries s) ident")
  case (Some p)
  have bytes: "pinned_bytes (bt_remove ident (cu_entries s)) + unat (pr_retained_bytes p) = pinned_bytes (cu_entries s)"
    using pinned_bytes_remove [of "cu_entries s" ident] assms Some by (simp add: cursor_ok_def)
  then have "saturating_sub (cu_retained_bytes s) (pr_retained_bytes p) \<le> MAX_CURSOR_BYTES"
    using assms by (auto simp: cursor_ok_def word_le_nat_alt unat_saturating_sub)
  then show ?thesis using assms Some bytes length_bt_remove [of ident "cu_entries s"]
    by (auto simp: remove_entry_def cursor_ok_def unat_saturating_sub split: if_splits)
qed (simp add: remove_entry_def assms)

lemma remove_entry_get:
  "bt_get (cu_entries (remove_entry k s)) ident = (if ident = k then None else bt_get (cu_entries s) ident)"
  by (auto simp: remove_entry_def split: option.splits)

lemma remove_entry_fields [simp]:
  "cu_signing_key (remove_entry k s) = cu_signing_key s" "cu_runtime_epoch (remove_entry k s) = cu_runtime_epoch s"
  by (auto simp: remove_entry_def split: option.splits)

lemma fold_remove_entry:
  "cursor_ok s \<Longrightarrow> cursor_ok (fold remove_entry ks s)"
  "bt_get (cu_entries (fold remove_entry ks s)) ident = (if ident \<in> set ks then None else bt_get (cu_entries s) ident)"
  "cu_signing_key (fold remove_entry ks s) = cu_signing_key s"
  "cu_runtime_epoch (fold remove_entry ks s) = cu_runtime_epoch s"
  by (induction ks arbitrary: s) (auto simp: remove_entry_ok remove_entry_get)

lemma remove_expired_ok: "cursor_ok s \<Longrightarrow> cursor_ok (remove_expired now s)"
  by (simp add: remove_expired_def fold_remove_entry)

lemma remove_expired_fields [simp]:
  "cu_signing_key (remove_expired now s) = cu_signing_key s" "cu_runtime_epoch (remove_expired now s) = cu_runtime_epoch s"
  by (simp_all add: remove_expired_def fold_remove_entry)

text \<open>Exactly the expired entries leave.\<close>

lemma remove_expired_get:
  assumes "bt_wf (cu_entries s)"
  shows "bt_get (cu_entries (remove_expired now s)) ident =
    (case bt_get (cu_entries s) ident of Some p \<Rightarrow> if expired now p then None else Some p | None \<Rightarrow> None)"
proof (cases "bt_get (cu_entries s) ident")
  case (Some p)
  then have "(ident, q) \<in> set (cu_entries s) \<longleftrightarrow> q = p" for q
    using bt_get_iff [OF assms, of ident q] by auto
  then have "ident \<in> set (map fst (filter (\<lambda>(_, entry). expired now entry) (cu_entries s))) \<longleftrightarrow> expired now p"
    by force
  then show ?thesis using Some by (simp add: remove_expired_def fold_remove_entry)
qed (simp add: remove_expired_def fold_remove_entry)

lemma remove_expired_None: "bt_get (cu_entries s) ident = None \<Longrightarrow> bt_get (cu_entries (remove_expired now s)) ident = None"
  by (simp add: remove_expired_def fold_remove_entry)

text \<open>Replacing a present entry by one that retains at least as much, or adding one.\<close>

lemma insert_entry_ok:
  assumes "cursor_ok s" "pinned_ok p" "B \<le> MAX_CURSOR_BYTES"
    and "unat B + (case bt_get (cu_entries s) ident of Some q \<Rightarrow> unat (pr_retained_bytes q) | None \<Rightarrow> 0)
      = unat (cu_retained_bytes s) + unat (pr_retained_bytes p)"
    and "bt_contains (cu_entries s) ident \<or> length (cu_entries s) < MAX_ACTIVE_CURSORS"
  shows "cursor_ok (s\<lparr>cu_entries := bt_insert ident p (cu_entries s), cu_retained_bytes := B\<rparr>)"
  using assms pinned_bytes_insert [of "cu_entries s" ident p] by (auto simp: cursor_ok_def)

lemma touch_entry_ok:
  assumes "cursor_ok s" "\<And>p. pinned_ok p \<Longrightarrow> pinned_ok (f p)" "\<And>p. pr_retained_bytes (f p) = pr_retained_bytes p"
  shows "cursor_ok (s\<lparr>cu_entries := bt_modify ident f (cu_entries s)\<rparr>)"
  using assms by (auto simp: cursor_ok_def pinned_bytes_modify) (simp add: bt_modify_def)

text \<open>Between two stores a pinned read keeps its results, and the page sizes that were chosen stay.\<close>

definition same_read :: "pinned_read \<Rightarrow> pinned_read \<Rightarrow> bool" where
  "same_read p p' \<longleftrightarrow>
     pr_generation p' = pr_generation p \<and> pr_template p' = pr_template p \<and> pr_results p' = pr_results p
     \<and> pr_page_items p' = pr_page_items p
     \<and> (\<forall>i n. bt_get (pr_page_sizes p) i = Some n \<longrightarrow> bt_get (pr_page_sizes p') i = Some n)"

definition reads_kept :: "cursor_store \<Rightarrow> cursor_store \<Rightarrow> bool" where
  "reads_kept b s \<longleftrightarrow>
     cu_signing_key s = cu_signing_key b \<and> cu_runtime_epoch s = cu_runtime_epoch b
     \<and> (\<forall>ident p p'. bt_get (cu_entries b) ident = Some p \<longrightarrow> bt_get (cu_entries s) ident = Some p' \<longrightarrow> same_read p p')"

definition cursor_inv :: "cursor_store \<Rightarrow> cursor_store \<Rightarrow> bool" where
  "cursor_inv b s \<longleftrightarrow> cursor_ok s \<and> reads_kept b s"

lemma same_read_refl [simp]: "same_read p p"
  by (simp add: same_read_def)

lemma same_read_trans: "same_read p q \<Longrightarrow> same_read q r \<Longrightarrow> same_read p r"
  by (simp add: same_read_def)

lemma same_read_touch [simp]: "same_read p (q\<lparr>pr_last_access := t\<rparr>) \<longleftrightarrow> same_read p q"
  by (simp add: same_read_def)

lemma cursor_inv_ok: "cursor_inv b s \<Longrightarrow> cursor_ok s"
  by (simp add: cursor_inv_def)

lemma cursor_inv_refl: "cursor_ok s \<Longrightarrow> cursor_inv s s"
  by (auto simp: cursor_inv_def reads_kept_def)

lemma remove_expired_inv:
  assumes "cursor_inv b s"
  shows "cursor_inv b (remove_expired now s)"
proof -
  have "bt_wf (cu_entries s)" using assms by (simp add: cursor_inv_def cursor_ok_def)
  then show ?thesis using assms remove_expired_ok
    by (auto simp: cursor_inv_def reads_kept_def remove_expired_get split: option.splits if_splits)
qed

lemma remove_entry_inv: "cursor_inv b s \<Longrightarrow> cursor_inv b (remove_entry ident s)"
  by (auto simp: cursor_inv_def reads_kept_def remove_entry_ok remove_entry_get split: if_splits)

lemma touch_entry_inv:
  "cursor_inv b s \<Longrightarrow> cursor_inv b (s\<lparr>cu_entries := bt_modify ident (\<lambda>p. p\<lparr>pr_last_access := t\<rparr>) (cu_entries s)\<rparr>)"
  unfolding cursor_inv_def
proof (elim conjE, intro conjI)
  show "cursor_ok s \<Longrightarrow> cursor_ok (s\<lparr>cu_entries := bt_modify ident (\<lambda>p. p\<lparr>pr_last_access := t\<rparr>) (cu_entries s)\<rparr>)"
    by (rule touch_entry_ok) (auto simp: pinned_ok_def)
  show "reads_kept b s \<Longrightarrow> reads_kept b (s\<lparr>cu_entries := bt_modify ident (\<lambda>p. p\<lparr>pr_last_access := t\<rparr>) (cu_entries s)\<rparr>)"
    by (auto simp: reads_kept_def split: if_splits)
qed

section \<open>Rules\<close>

text \<open>
  From stores that satisfy \<open>P\<close>, the operation leaves the invariant relative to \<open>b\<close> in place however it
  ends, and when it succeeds it establishes \<open>Q\<close>.
\<close>

definition keeps ::
  "cursor_store \<Rightarrow> (cursor_store \<Rightarrow> bool) \<Rightarrow> 'a cursor_op \<Rightarrow> (cursor_store \<Rightarrow> bool) \<Rightarrow> bool" where
  "keeps b P m Q \<longleftrightarrow>
     (\<forall>st. P (fst st) \<longrightarrow>
       cursor_inv b (fst (fst (m st))) \<and> (\<forall>x. snd (m st) = Ok x \<longrightarrow> Q (fst (fst (m st)))))"

abbreviation safe :: "cursor_store \<Rightarrow> 'a cursor_op \<Rightarrow> bool" where
  "safe b m \<equiv> keeps b (cursor_inv b) m (cursor_inv b)"

lemma keeps_bind: "keeps b P m Q \<Longrightarrow> (\<And>x. keeps b Q (f x) R) \<Longrightarrow> keeps b P (cur_bind m f) R"
  unfolding keeps_def cur_bind_def
  by (auto split: prod.splits res.splits) (metis fst_conv snd_conv)+

lemma keeps_lift: "(\<And>s. P s \<Longrightarrow> cursor_inv b s) \<Longrightarrow> keeps b P (cur_lift r) P"
  by (simp add: keeps_def cur_lift_def)

lemma keeps_store: "(\<And>s. P s \<Longrightarrow> cursor_inv b (f s) \<and> Q (f s)) \<Longrightarrow> keeps b P (cur_store f) Q"
  by (simp add: keeps_def cur_store_def)

lemma keeps_charge: "(\<And>s. P s \<Longrightarrow> cursor_inv b s) \<Longrightarrow> keeps b P (cur_charge cx bytes) P"
  by (simp add: keeps_def cur_charge_def split: prod.splits)

lemma keeps_return: "(\<And>s. P s \<Longrightarrow> cursor_inv b s) \<Longrightarrow> keeps b P (\<lambda>st. (st, r st)) P"
  by (simp add: keeps_def)

lemma cur_bind_lift [simp]:
  "cur_bind (cur_lift r) f st = (case r of Ok x \<Rightarrow> f x st | Err e \<Rightarrow> (st, Err e) | Panic \<Rightarrow> (st, Panic))"
  by (simp add: cur_bind_def cur_lift_def split: res.splits)

lemma cur_bind_guard [simp]:
  "cur_bind (guard_capacity c) f st = (if c then f () st else (st, Err CursorCapacityExhausted))"
  by (simp add: guard_capacity_def)

section \<open>Every operation keeps it\<close>

lemma insert_size_inv:
  assumes "cursor_inv b s" "bt_get (cu_entries s) ident = Some pinned" "1 \<le> n" "n \<le> MAX_PAGE_ITEMS"
    "bt_get (pr_page_sizes pinned) i = None" "checked_add (pr_retained_bytes pinned) PAGE_CHOICE_BYTES = Some R"
    "checked_add (cu_retained_bytes s) PAGE_CHOICE_BYTES = Some B" "B \<le> MAX_CURSOR_BYTES"
  shows "cursor_inv b (s\<lparr>cu_entries := bt_insert ident (pinned\<lparr>pr_page_sizes := bt_insert i n (pr_page_sizes pinned),
      pr_retained_bytes := R\<rparr>) (cu_entries s), cu_retained_bytes := B\<rparr>)" (is "cursor_inv b ?s")
proof -
  have ok: "cursor_ok ?s" using assms
    by (intro insert_entry_ok)
       (auto simp: cursor_inv_def cursor_ok_def pinned_ok_def checked_add_eq_Some bt_contains_def)
  have "same_read pinned (pinned\<lparr>pr_page_sizes := bt_insert i n (pr_page_sizes pinned), pr_retained_bytes := R\<rparr>)"
    using assms(5) by (auto simp: same_read_def)
  from same_read_trans [OF _ this] have "reads_kept b ?s"
    using assms(1,2) by (auto simp: cursor_inv_def reads_kept_def)
  with ok show ?thesis by (simp add: cursor_inv_def)
qed

lemma record_page_size_keeps:
  assumes "1 \<le> n" "n \<le> MAX_PAGE_ITEMS" "bt_get (cu_entries s0) ident = Some pinned"
  shows "keeps b (\<lambda>s. cursor_inv b s \<and> s = s0) (record_page_size cx en ident i n pinned) (cursor_inv b)"
proof (cases "bt_contains (pr_page_sizes pinned) i")
  case True
  then show ?thesis by (simp add: keeps_def record_page_size_def)
next
  case False
  then have "bt_get (pr_page_sizes pinned) i = None" by (simp add: bt_contains_def)
  note step = insert_size_inv [of b s0 ident pinned n i, OF _ assms(3,1,2) this]
  show ?thesis using False step
    by (auto simp: keeps_def record_page_size_def cur_bind_def [of "cur_charge _ _"] cur_charge_def cur_store_def
        split: prod.splits res.splits option.splits)
qed

lemma finish_page_keeps: "safe b (finish_page h en k ident pinned i stop)"
  unfolding finish_page_def
  by (auto intro!: keeps_bind [OF keeps_store [where Q = "cursor_inv b"]] keeps_bind [OF keeps_lift [where P = "cursor_inv b"]]
      keeps_lift keeps_return touch_entry_inv split: option.split)

lemma chosen_size_bounds:
  "pinned_ok pinned \<Longrightarrow> 1 \<le> chosen_size pinned i limit \<and> chosen_size pinned i limit \<le> MAX_PAGE_ITEMS"
  using clamp_items_bounds by (auto simp: chosen_size_def pinned_ok_def split: option.splits)

lemma page_at_keeps: "safe b (page_at h cx en k limit ident i)"
proof -
  have "keeps b (\<lambda>s. cursor_inv b s \<and> s = s0) (page_pinned h cx en k limit ident i pinned) (cursor_inv b)"
    if get: "bt_get (cu_entries s0) ident = Some pinned" for s0 pinned
  proof (cases "cursor_ok s0")
    case True
    then have "pinned_ok pinned" using get by (auto simp: cursor_ok_def)
    from chosen_size_bounds [OF this]
    have "keeps b (\<lambda>s. cursor_inv b s \<and> s = s0) (record_page_size cx en ident i (chosen_size pinned i limit) pinned) (cursor_inv b)"
      using get by (intro record_page_size_keeps) auto
    then have "keeps b (\<lambda>s. cursor_inv b s \<and> s = s0) (cur_bind (record_page_size cx en ident i (chosen_size pinned i limit) pinned)
        (\<lambda>_. finish_page h en k ident pinned i stop)) (cursor_inv b)" for stop
      by (rule keeps_bind) (rule finish_page_keeps)
    moreover have "keeps b (\<lambda>s. cursor_inv b s \<and> s = s0) (cur_lift r) (cursor_inv b)" for r :: "(provider_error, read_page) res"
      by (simp add: keeps_def cur_lift_def)
    ultimately show ?thesis by (simp add: page_pinned_def Let_def)
  qed (simp add: keeps_def cursor_inv_def)
  then show ?thesis by (auto simp: keeps_def page_at_def split: option.split)
qed

lemma page_with_limit_keeps: "safe b (page_with_limit h cx en k cursor limit)"
proof -
  have "safe b (\<lambda>st. cur_bind (cur_lift (authenticate h (fst st) cursor)) (\<lambda>(ident, next_index).
     page_at h cx en k limit ident next_index) st)"
    using page_at_keeps unfolding keeps_def by (auto split: res.splits)
  then show ?thesis
    unfolding page_with_limit_def
    by (intro keeps_bind [OF keeps_lift] keeps_bind [OF keeps_store [where Q = "cursor_inv b"]])
       (auto simp: remove_expired_inv)
qed

abbreviation fresh :: "cursor_store \<Rightarrow> cursor_env \<Rightarrow> cursor_store \<Rightarrow> bool" where
  "fresh b en s \<equiv> cursor_inv b s \<and> bt_get (cu_entries s) (en_uuid en) = None \<and> bt_get (cu_entries b) (en_uuid en) = None"

lemma pin_results_keeps:
  assumes "1 \<le> items" "items \<le> MAX_PAGE_ITEMS" "items < length (qv_records q)"
  shows "keeps b (fresh b en) (pin_results h cx en outcome q items retained) (cursor_inv b)"
proof -
  let ?p = "\<lparr>pr_generation = eo_generation outcome,
      pr_template = set_query (q\<lparr>qv_records := []\<rparr>) (eo_operation outcome),
      pr_results = qv_records q, pr_page_items = items, pr_page_sizes = [],
      pr_retained_bytes = retained, pr_created = en_time en 1, pr_last_access = en_time en 1\<rparr>"
  have "cursor_inv b (s\<lparr>cu_entries := bt_insert (en_uuid en) ?p (cu_entries s), cu_retained_bytes := B\<rparr>)" (is "cursor_inv b ?s")
    if "fresh b en s" "checked_add (cu_retained_bytes s) retained = Some B"
      "length (cu_entries s) < MAX_ACTIVE_CURSORS" "B \<le> MAX_CURSOR_BYTES" for s B
  proof -
    have "cursor_ok ?s" using that assms
      by (intro insert_entry_ok)
         (auto simp: cursor_inv_def pinned_ok_def checked_add_eq_Some query_value_of_def set_query_def)
    moreover have "reads_kept b ?s" using that by (auto simp: cursor_inv_def reads_kept_def)
    ultimately show ?thesis by (simp add: cursor_inv_def)
  qed
  moreover have "cursor_inv b (fst (fst (page_with_limit h cx en 2 cursor None (s, u))))" if "cursor_inv b s" for s u cursor
    using page_with_limit_keeps [of b h cx en 2 cursor None] that by (auto simp: keeps_def)
  ultimately show ?thesis
    by (auto simp: keeps_def pin_results_def cur_bind_def [of "cur_charge _ _"] cur_bind_def [of "cur_store _"]
          cur_charge_def cur_store_def split: prod.splits res.splits option.splits)
qed

lemma cursor_open_keeps: "keeps b (fresh b en) (cursor_open h cx en outcome page_items) (cursor_inv b)"
proof -
  have pin: "keeps b (fresh b en) (pin_results h cx en outcome q (clamp_items m) retained) (cursor_inv b)"
    if "clamp_items m < length (qv_records q)" for q retained m
    using that clamp_items_bounds by (intro pin_results_keeps) auto
  have rest: "keeps b (fresh b en) (cur_lift r) (cursor_inv b)"
    "keeps b (fresh b en) (cur_bind (cur_charge cx n) (\<lambda>_. cur_lift r)) (cursor_inv b)"
    for r :: "(provider_error, read_page) res" and n
    by (auto simp: keeps_def cur_lift_def cur_bind_def cur_charge_def split: prod.splits res.splits)
  have expire: "keeps b (fresh b en) (cur_store (remove_expired now)) (fresh b en)" for now
    by (rule keeps_store) (auto simp: remove_expired_inv remove_expired_None)
  show ?thesis
    unfolding cursor_open_def Let_def
    by (intro keeps_bind [OF keeps_lift] keeps_bind [OF expire])
       (auto split: option.split intro!: rest keeps_bind [OF keeps_lift [where P = "fresh b en"]] pin)
qed

section \<open>Any sequence of operations\<close>

text \<open>
  One call on the store, each with its own context and budget. A generated UUID differs from those in
  use.
\<close>

inductive cursor_step :: "cursor_host \<Rightarrow> cursor_store \<Rightarrow> cursor_store \<Rightarrow> bool" for h where
  step_open_cursor: "bt_get (cu_entries s) (en_uuid en) = None \<Longrightarrow>
     cursor_step h s (fst (fst (cursor_open h cx en outcome page_items (s, usage))))"
| step_page: "cursor_step h s (fst (fst (page_with_limit h cx en k cursor limit (s, usage))))"
| step_release: "cursor_step h s (fst (fst (cursor_release h cursor (s, usage))))"
| step_measure: "cursor_step h s (fst (measurements now s))"

lemma cursor_step_inv:
  assumes "cursor_step h s s'" "cursor_ok s"
  shows "cursor_inv s s'"
  using assms(1)
proof cases
  case (step_open_cursor en cx outcome page_items usage)
  then show ?thesis
    using cursor_open_keeps [of s en h cx outcome page_items] cursor_inv_refl [OF assms(2)]
    by (auto simp: keeps_def)
next
  case (step_page cx en k cursor limit usage)
  then show ?thesis
    using page_with_limit_keeps [of s h cx en k cursor limit] cursor_inv_refl [OF assms(2)] by (auto simp: keeps_def)
next
  case (step_release cursor usage)
  then show ?thesis
    using cursor_inv_refl [OF assms(2)] remove_entry_inv
    by (auto simp: cursor_release_def split: res.splits)
next
  case (step_measure now)
  then show ?thesis
    using cursor_inv_refl [OF assms(2)] remove_expired_inv by (simp add: measurements_def Let_def)
qed

interpretation cursors: invariant_machine "cursor_step h" cursor_ok for h
  by unfold_locales (rule cursor_inv_ok [OF cursor_step_inv])

text \<open>
  C27: the cursor store is bounded. After any calls, whatever their outcomes, at most 32 reads are
  pinned; the accounted bytes are exactly the sum of what the pinned reads retain and at most 32 MiB, so
  no subtraction saturates and no sum wraps; every pinned read holds more results than its page size,
  which lies between 1 and 1000 like every page size chosen later; and no page call ends in the
  internal error of a pinned read that is not a query.
\<close>

theorem cursor_store_bounded:
  assumes "(cursor_step h)\<^sup>*\<^sup>* (cursor_store_new key epoch) s"
  shows "length (cu_entries s) \<le> 32
    \<and> unat (cu_retained_bytes s) = pinned_bytes (cu_entries s) \<and> pinned_bytes (cu_entries s) \<le> 33554432
    \<and> (\<forall>ident p. bt_get (cu_entries s) ident = Some p \<longrightarrow>
        1 \<le> pr_page_items p \<and> pr_page_items p \<le> 1000 \<and> pr_page_items p < length (pr_results p)
        \<and> 1 \<le> chosen_size p i limit \<and> chosen_size p i limit \<le> 1000
        \<and> query_value_of (pr_template p) \<noteq> None)"
proof -
  have ok: "cursor_ok s" using cursors.steps_inv [OF assms cursor_store_new_ok] .
  have "unat MAX_CURSOR_BYTES = 33554432" by (simp add: MAX_CURSOR_BYTES_def)
  then have "unat (cu_retained_bytes s) \<le> 33554432"
    using ok by (simp add: cursor_ok_def word_le_nat_alt)
  then show ?thesis using ok chosen_size_bounds
    by (auto simp: cursor_ok_def pinned_ok_def MAX_ACTIVE_CURSORS_def MAX_PAGE_ITEMS_def)
qed

section \<open>Pages\<close>

lemma authenticate_cong:
  assumes "cu_signing_key s' = cu_signing_key s" "cu_runtime_epoch s' = cu_runtime_epoch s"
  shows "authenticate h s' cursor = authenticate h s cursor"
  unfolding authenticate_def cursor_message_def assms ..







section \<open>An example\<close>

definition ex_cursor_host :: cursor_host where
  "ex_cursor_host = \<lparr>ch_sha256 = \<lambda>_. replicate 32 0, ch_parse_uuid = Some, ch_writes = \<lambda>_. ([4], None),
     ch_io_message = \<lambda>m. m\<rparr>"

definition ex_cursor_env :: cursor_env where
  "ex_cursor_env = \<lparr>en_check = \<lambda>_. Ok (), en_time = \<lambda>n. n, en_reserve = True, en_uuid = ''u1''\<rparr>"

definition ex_cursor_context :: operation_context where
  "ex_cursor_context = fst (context_new (new_cancellation 0) 1000)"

definition ex_usage :: capture_usage where
  "ex_usage = \<lparr>us_aggregate = 0, us_retained = 0, us_exceeded = None\<rparr>"

definition ex_query :: execution_outcome where
  "ex_query = \<lparr>eo_operation = \<lparr>co_valid = True, co_value = QueryOutcome (Some
       \<lparr>qv_output = None, qv_records = [JBool True, JBool False], qv_total_count = Some 2, qv_has_more = False,
        qv_meta = JObj [], qv_embedded_diagnostics = []\<rparr>), co_diagnostics = []\<rparr>,
     eo_generation = \<lparr>gn_epoch = ''g'', gn_sequence = 1\<rparr>, eo_changes = ChangesNone, eo_commit_id = None,
     eo_change_event = None\<rparr>"

definition ex_new_store :: cursor_store where
  "ex_new_store = cursor_store_new (replicate 32 0) ''g''"

definition ex_first :: read_cursor where
  "ex_first = issue ex_cursor_host ex_new_store ''u1'' 0"

lemma ex_authenticate:
  "cu_signing_key s = replicate 32 0 \<Longrightarrow> cu_runtime_epoch s = ''g'' \<Longrightarrow>
     authenticate ex_cursor_host s ex_first = Ok (''u1'', 0)"
  using authenticate_issue [of ex_new_store "''u1''" ex_cursor_host 0] authenticate_cong [of s ex_new_store ex_cursor_host ex_first]
  by (simp add: ex_first_def ex_new_store_def cursor_store_new_def ex_cursor_host_def)

definition ex_pinned :: pinned_read where
  "ex_pinned = \<lparr>pr_generation = \<lparr>gn_epoch = ''g'', gn_sequence = 1\<rparr>,
     pr_template = set_query (the (query_value_of (eo_operation ex_query))\<lparr>qv_records := []\<rparr>) (eo_operation ex_query),
     pr_results = [JBool True, JBool False], pr_page_items = 1, pr_page_sizes = [(0, 1)], pr_retained_bytes = 132,
     pr_created = 1, pr_last_access = 3\<rparr>"


lemma ex_host_simps [simp]:
  "ch_writes ex_cursor_host xs = ([4], None)" "en_check ex_cursor_env n = Ok ()" "en_time ex_cursor_env n = n"
  "en_reserve ex_cursor_env" "en_uuid ex_cursor_env = ''u1''"
  "max_retained_bytes (cx_limits ex_cursor_context) = 4294967296"
  by (simp_all add: ex_cursor_host_def ex_cursor_env_def ex_cursor_context_def context_new_def with_capture_limits_def
      default_capture_limits_def)

definition ex_stored :: "pinned_read \<Rightarrow> u64 \<Rightarrow> cursor_store" where
  "ex_stored p bytes = \<lparr>cu_entries = [(''u1'', p)], cu_retained_bytes = bytes, cu_signing_key = replicate 32 0,
     cu_runtime_epoch = ''g''\<rparr>"

lemma ex_issue: "cu_signing_key s = replicate 32 0 \<Longrightarrow> cu_runtime_epoch s = ''g'' \<Longrightarrow> issue ex_cursor_host s ''u1'' 0 = ex_first"
  by (simp add: ex_first_def issue_def cursor_message_def ex_new_store_def cursor_store_new_def)

text \<open>The first page, as the code computes it, and a request for another size.\<close>

lemma ex_pages:
  "\<exists>s usage page. cursor_open ex_cursor_host ex_cursor_context ex_cursor_env ex_query (Some 1) (ex_new_store, ex_usage)
     = ((s, usage), Ok page) \<and> s = ex_stored ex_pinned 132"
  "\<exists>usage page. page_with_limit ex_cursor_host ex_cursor_context ex_cursor_env 4 ex_first (Some 1) (ex_stored ex_pinned 132, ex_usage)
     = ((ex_stored (ex_pinned\<lparr>pr_last_access := 5\<rparr>) 132, usage), Ok page)"
  "snd (page_with_limit ex_cursor_host ex_cursor_context ex_cursor_env 6 ex_first (Some 2)
     (ex_stored (ex_pinned\<lparr>pr_last_access := 5\<rparr>) 132, ex_usage)) = Err InvalidReadCursor"
  by (simp_all add: cursor_open_def pin_results_def page_with_limit_def page_at_def page_pinned_def record_page_size_def
      finish_page_def chosen_size_def cur_bind_def cur_store_def cur_charge_def cur_lift_def guard_capacity_def
      ex_issue ex_authenticate ex_new_store_def cursor_store_new_def ex_usage_def ex_query_def ex_stored_def ex_pinned_def
      remove_expired_def expired_def IDLE_LEASE_def HARD_LIFETIME_def query_value_of_def set_query_def clamp_items_def
      MAX_PAGE_ITEMS_def MAX_ACTIVE_CURSORS_def MAX_CURSOR_BYTES_def PAGE_CHOICE_BYTES_def measured_json_bytes_def
      checked_add_def charge_retained_def charge_def charge_from.simps bt_contains_def bt_modify_def)


lemma ex_open_step: "cursor_step ex_cursor_host ex_new_store (ex_stored ex_pinned 132)"
proof -
  have "bt_get (cu_entries ex_new_store) (en_uuid ex_cursor_env) = None"
    by (simp add: ex_new_store_def cursor_store_new_def)
  from step_open_cursor [OF this, of ex_cursor_host ex_cursor_context ex_query "Some 1" ex_usage] ex_pages(1)
  show ?thesis by auto
qed

lemma ex_open_run: "(cursor_step ex_cursor_host)\<^sup>*\<^sup>* (cursor_store_new (replicate 32 0) ''g'') (ex_stored ex_pinned 132)"
  using ex_open_step by (auto simp: ex_new_store_def)

theorem cursor_tokens_authenticate_witness:
  "authenticate ex_cursor_host ex_new_store (issue ex_cursor_host ex_new_store ''u1'' 1) = Ok (''u1'', 1)
   \<and> authenticate ex_cursor_host (cursor_store_new (replicate 32 0) ''h'') (issue ex_cursor_host ex_new_store ''u1'' 1)
       = Err GenerationExpired"
  using cursor_tokens_authenticate [of ex_new_store "''u1''" ex_cursor_host 1 "cursor_store_new (replicate 32 0) ''h''"]
  by (simp add: ex_new_store_def cursor_store_new_def ex_cursor_host_def)

theorem cursor_store_bounded_witness:
  "length (cu_entries (ex_stored ex_pinned 132)) = 1
   \<and> unat (cu_retained_bytes (ex_stored ex_pinned 132)) = pinned_bytes (cu_entries (ex_stored ex_pinned 132))
   \<and> pr_page_items ex_pinned < length (pr_results ex_pinned)"
  using cursor_store_bounded [OF ex_open_run, of 0 None]
  by (simp add: ex_stored_def)


end
