(* ===== verification/Watch_Events.thy ===== *)
theory Watch_Events
  imports Change_Diff
begin

text \<open>
  What a file watcher reports about records and resources, the event construction of
  \<open>watch/real.rs\<close>, and how the runtime reads such an event back as a canonical change,
  \<open>runtime/external.rs\<close>. The states that the watcher compares come from loading the collection, which
  is not modelled.
\<close>

section \<open>Events of the watcher\<close>

record resource_state =
  es_kind :: resource_kind
  es_revision :: string

record record_state =
  rt_revision :: string
  rt_raw_frontmatter :: "(string, json) btree"
  rt_effective_frontmatter :: json
  rt_types :: json
  rt_body :: string

record pending_event =
  pe_event_type :: string
  pe_payload :: json

type_synonym record_states = "(string, record_state) btree"

fun resource_event_type :: "resource_kind \<Rightarrow> string" where
  "resource_event_type ResConfiguration = ''mdbase.config.changed''"
| "resource_event_type ResType = ''mdbase.type.changed''"
| "resource_event_type ResContract = ''mdbase.contract.changed''"
| "resource_event_type ResSchema = ''mdbase.schema.changed''"
| "resource_event_type ResView = ''mdbase.view.changed''"
| "resource_event_type ResLock = ''mdbase.lock.changed''"

definition changed_fields :: "record_state \<Rightarrow> record_state \<Rightarrow> string list" where
  "changed_fields previous current =
     filter (\<lambda>key. bt_get (rt_raw_frontmatter previous) key \<noteq> bt_get (rt_raw_frontmatter current) key)
       (btree_set (bt_keys (rt_raw_frontmatter previous) @ bt_keys (rt_raw_frontmatter current)))"

definition json_strings :: "string list \<Rightarrow> json" where
  "json_strings xs = JArr (map JStr xs)"

definition renamed_event :: "string \<Rightarrow> string \<Rightarrow> record_state \<Rightarrow> record_state \<Rightarrow> pending_event" where
  "renamed_event from_path to_path previous current =
     \<lparr>pe_event_type = ''mdbase.record.renamed'',
      pe_payload = jobj
        [(''from'', JStr from_path), (''to'', JStr to_path),
         (''before'', rt_effective_frontmatter previous), (''after'', rt_effective_frontmatter current),
         (''raw_before'', JObj (rt_raw_frontmatter previous)), (''raw_after'', JObj (rt_raw_frontmatter current)),
         (''body_changed'', JBool (rt_body previous \<noteq> rt_body current)),
         (''previous_revision'', JStr (rt_revision previous)), (''revision'', JStr (rt_revision current)),
         (''previous_types'', rt_types previous), (''types'', rt_types current)]\<rparr>"

definition deleted_event :: "string \<Rightarrow> record_state \<Rightarrow> pending_event" where
  "deleted_event path previous =
     \<lparr>pe_event_type = ''mdbase.record.deleted'',
      pe_payload = jobj
        [(''path'', JStr path), (''before'', rt_effective_frontmatter previous),
         (''raw_before'', JObj (rt_raw_frontmatter previous)), (''body_changed'', JBool True),
         (''previous_revision'', JStr (rt_revision previous)), (''types'', rt_types previous)]\<rparr>"

definition created_event :: "string \<Rightarrow> record_state \<Rightarrow> pending_event" where
  "created_event path current =
     \<lparr>pe_event_type = ''mdbase.record.created'',
      pe_payload = jobj
        [(''path'', JStr path), (''after'', rt_effective_frontmatter current),
         (''raw_after'', JObj (rt_raw_frontmatter current)), (''body_changed'', JBool True),
         (''changed_fields'', json_strings (bt_keys (rt_raw_frontmatter current))),
         (''revision'', JStr (rt_revision current)), (''types'', rt_types current)]\<rparr>"

definition modified_event :: "string \<Rightarrow> record_state \<Rightarrow> record_state \<Rightarrow> pending_event" where
  "modified_event path previous current =
     \<lparr>pe_event_type = ''mdbase.record.modified'',
      pe_payload = jobj
        [(''path'', JStr path),
         (''before'', rt_effective_frontmatter previous), (''after'', rt_effective_frontmatter current),
         (''raw_before'', JObj (rt_raw_frontmatter previous)), (''raw_after'', JObj (rt_raw_frontmatter current)),
         (''body_changed'', JBool (rt_body previous \<noteq> rt_body current)),
         (''changed_fields'', json_strings (changed_fields previous current)),
         (''previous_revision'', JStr (rt_revision previous)), (''revision'', JStr (rt_revision current)),
         (''previous_types'', rt_types previous), (''types'', rt_types current)]\<rparr>"

text \<open>The closure \<open>revision_counts\<close>: how many of the paths have a revision; indexing a missing path panics.\<close>

definition revision_count :: "string list \<Rightarrow> record_states \<Rightarrow> string \<Rightarrow> nat" where
  "revision_count paths states revision =
     length (filter (\<lambda>path. map_option rt_revision (bt_get states path) = Some revision) paths)"

text \<open>
  The loop over the deleted paths. A deleted and a created path whose revision no other of them has
  become one rename and leave both sets. The counts are those of the initial sets.
\<close>

fun rename_events ::
  "record_states \<Rightarrow> record_states \<Rightarrow> (string \<Rightarrow> nat) \<Rightarrow> (string \<Rightarrow> nat) \<Rightarrow> string list \<Rightarrow> string list \<Rightarrow> string list
    \<Rightarrow> (unit, pending_event list \<times> string list \<times> string list) res" where
  "rename_events before after deleted_revisions created_revisions [] deleted created = Ok ([], deleted, created)"
| "rename_events before after deleted_revisions created_revisions (from_path # rest) deleted created =
     (case bt_get before from_path of
        None \<Rightarrow> Panic
      | Some previous \<Rightarrow>
          if deleted_revisions (rt_revision previous) = 1 \<and> created_revisions (rt_revision previous) = 1 then
            (case List.find (\<lambda>to_path. map_option rt_revision (bt_get after to_path) = Some (rt_revision previous)) created of
               None \<Rightarrow> Panic
             | Some to_path \<Rightarrow>
                 (case bt_get after to_path of
                    None \<Rightarrow> Panic
                  | Some current \<Rightarrow>
                      bind_res (rename_events before after deleted_revisions created_revisions rest
                          (removeAll from_path deleted) (removeAll to_path created)) (\<lambda>(events, deleted', created').
                      Ok (renamed_event from_path to_path previous current # events, deleted', created'))))
          else rename_events before after deleted_revisions created_revisions rest deleted created)"

definition deleted_paths :: "record_states \<Rightarrow> record_states \<Rightarrow> string list" where
  "deleted_paths before after = filter (\<lambda>path. \<not> bt_contains after path) (bt_keys before)"

definition event_at :: "record_states \<Rightarrow> (record_state \<Rightarrow> pending_event) \<Rightarrow> string \<Rightarrow> (unit, pending_event) res" where
  "event_at states f path = (case bt_get states path of Some state \<Rightarrow> Ok (f state) | None \<Rightarrow> Panic)"

definition record_events :: "record_states \<Rightarrow> record_states \<Rightarrow> (unit, pending_event list) res" where
  "record_events before after =
     (let deleted = deleted_paths before after; created = deleted_paths after before in
      bind_res (rename_events before after (revision_count deleted before) (revision_count created after)
          deleted deleted created) (\<lambda>(renamed, deleted', created').
      bind_res (map_res (\<lambda>path. event_at before (deleted_event path) path) deleted') (\<lambda>deletions.
      bind_res (map_res (\<lambda>path. event_at after (created_event path) path) created') (\<lambda>creations.
      Ok (renamed @ deletions @ creations
        @ List.map_filter (\<lambda>path.
            case (bt_get before path, bt_get after path) of
              (Some previous, Some current) \<Rightarrow>
                if rt_revision previous \<noteq> rt_revision current then Some (modified_event path previous current) else None
            | _ \<Rightarrow> None) (bt_keys before))))))"

text \<open>The resource part of \<open>Snapshot::diff\<close>.\<close>

definition resource_event ::
  "(string, resource_state) btree \<Rightarrow> (string, resource_state) btree \<Rightarrow> string \<Rightarrow> (unit, pending_event list) res" where
  "resource_event before after path =
     (let b = bt_get before path; a = bt_get after path in
      if b = a then Ok []
      else
        (case (case a of Some r \<Rightarrow> Some r | None \<Rightarrow> b) of
           None \<Rightarrow> Panic
         | Some r \<Rightarrow>
             let revision = (\<lambda>s. case s of Some r \<Rightarrow> JStr (es_revision r) | None \<Rightarrow> JNull) in
             Ok [\<lparr>pe_event_type = resource_event_type (es_kind r),
                  pe_payload = jobj
                    [(''path'', JStr path), (''previous_revision'', revision b), (''revision'', revision a)]\<rparr>]))"

definition snapshot_events ::
  "(string, resource_state) btree \<Rightarrow> (string, resource_state) btree \<Rightarrow> record_states \<Rightarrow> record_states
    \<Rightarrow> (unit, pending_event list) res" where
  "snapshot_events resources resources' records records' =
     bind_res (map_res (resource_event resources resources') (btree_set (bt_keys resources @ bt_keys resources'))) (\<lambda>events.
     bind_res (record_events records records') (\<lambda>changes. Ok (concat events @ changes)))"

text \<open>
  The record states of \<open>Snapshot::load\<close>, for a captured snapshot. The effective frontmatter, defaults and
  coercions applied, is whatever \<open>effective\<close> says: it only goes into the members \<open>before\<close> and \<open>after\<close> of
  the payloads.
\<close>

definition record_state_of :: "(snapshot_record \<Rightarrow> json) \<Rightarrow> snapshot_record \<Rightarrow> record_state" where
  "record_state_of effective r =
     \<lparr>rt_revision = sr_revision r, rt_raw_frontmatter = sr_frontmatter r, rt_effective_frontmatter = effective r,
      rt_types = json_strings (sr_types r), rt_body = sr_body r\<rparr>"

definition load_records :: "(snapshot_record \<Rightarrow> json) \<Rightarrow> snapshot_record list \<Rightarrow> record_states" where
  "load_records effective records =
     foldl (\<lambda>m r. bt_insert (sr_path r) (record_state_of effective r) m) []
       (filter (\<lambda>r. sr_frontmatter_error r = None) records)"

section \<open>Normalisation\<close>

definition malformed :: "string \<Rightarrow> provider_error" where
  "malformed message = InvalidChangeSet (''filesystem observation is malformed: '' @ message)"

definition event_object :: "json \<Rightarrow> string \<Rightarrow> (provider_error, (string, json) btree) res" where
  "event_object payload field =
     (case Option.bind (jget payload field) as_object of
        Some m \<Rightarrow> Ok m
      | None \<Rightarrow> Err (malformed (''record event '' @ field @ '' is missing'')))"

definition event_path :: "json \<Rightarrow> string \<Rightarrow> (provider_error, collection_path) res" where
  "event_path payload field =
     (case Option.bind (jget payload field) as_str of
        Some value \<Rightarrow> map_err_path (\<lambda>e. malformed (path_error_message e)) (collection_path_from_str value)
      | None \<Rightarrow> Err (malformed (''record event '' @ field @ '' is missing'')))"

definition event_revision :: "json option \<Rightarrow> (provider_error, string option) res" where
  "event_revision value =
     (case value of
        None \<Rightarrow> Ok None
      | Some JNull \<Rightarrow> Ok None
      | Some v \<Rightarrow>
          (case as_str v of
             None \<Rightarrow> Err (malformed ''event revision is not a string'')
           | Some s \<Rightarrow> bind_res (map_err_path malformed (revision_parse s)) (\<lambda>r. Ok (Some r))))"

definition event_types :: "json option \<Rightarrow> string list" where
  "event_types value =
     canonical_type_set (List.map_filter as_str (case Option.bind value as_array of Some xs \<Rightarrow> xs | None \<Rightarrow> []))"

definition event_bool :: "json \<Rightarrow> bool \<Rightarrow> bool" where
  "event_bool payload otherwise =
     (case jget payload ''body_changed'' of Some (JBool b) \<Rightarrow> b | _ \<Rightarrow> otherwise)"

definition record_created :: "json \<Rightarrow> (provider_error, canonical_change) res" where
  "record_created payload =
     bind_res (event_object payload ''raw_after'') (\<lambda>after.
     bind_res (event_path payload ''path'') (\<lambda>path.
     bind_res (event_revision (jget payload ''revision'')) (\<lambda>after_revision.
     bind_res (canonical_present_fields after) (\<lambda>fields.
     Ok (RecordEffect
       \<lparr>rg_kind = ChangeCreated, rg_path = path, rg_from = None, rg_before_revision = None,
        rg_after_revision = after_revision, rg_before_types = [], rg_after_types = event_types (jget payload ''types''),
        rg_changed_fields = fields, rg_body_changed = event_bool payload True\<rparr>)))))"

definition record_modified :: "json \<Rightarrow> (provider_error, canonical_change) res" where
  "record_modified payload =
     bind_res (event_object payload ''raw_before'') (\<lambda>before.
     bind_res (event_object payload ''raw_after'') (\<lambda>after.
     bind_res (event_path payload ''path'') (\<lambda>path.
     bind_res (event_revision (jget payload ''previous_revision'')) (\<lambda>before_revision.
     bind_res (event_revision (jget payload ''revision'')) (\<lambda>after_revision.
     bind_res (canonical_field_changes before after) (\<lambda>fields.
     Ok (RecordEffect
       \<lparr>rg_kind = ChangeUpdated, rg_path = path, rg_from = None, rg_before_revision = before_revision,
        rg_after_revision = after_revision, rg_before_types = event_types (jget payload ''previous_types''),
        rg_after_types = event_types (jget payload ''types''), rg_changed_fields = fields,
        rg_body_changed = event_bool payload True\<rparr>)))))))"

definition record_deleted :: "json \<Rightarrow> (provider_error, canonical_change) res" where
  "record_deleted payload =
     bind_res (event_object payload ''raw_before'') (\<lambda>before.
     bind_res (event_path payload ''path'') (\<lambda>path.
     bind_res (event_revision (jget payload ''previous_revision'')) (\<lambda>before_revision.
     bind_res (canonical_present_fields before) (\<lambda>fields.
     Ok (RecordEffect
       \<lparr>rg_kind = ChangeDeleted, rg_path = path, rg_from = None, rg_before_revision = before_revision,
        rg_after_revision = None, rg_before_types = event_types (jget payload ''types''), rg_after_types = [],
        rg_changed_fields = fields, rg_body_changed = event_bool payload True\<rparr>)))))"

definition record_renamed :: "json \<Rightarrow> (provider_error, canonical_change) res" where
  "record_renamed payload =
     bind_res (event_object payload ''raw_before'') (\<lambda>before.
     bind_res (event_object payload ''raw_after'') (\<lambda>after.
     bind_res (event_path payload ''to'') (\<lambda>path.
     bind_res (event_path payload ''from'') (\<lambda>from_path.
     bind_res (event_revision (jget payload ''previous_revision'')) (\<lambda>before_revision.
     bind_res (event_revision (jget payload ''revision'')) (\<lambda>after_revision.
     bind_res (canonical_field_changes before after) (\<lambda>fields.
     Ok (RecordEffect
       \<lparr>rg_kind = ChangeRenamed, rg_path = path, rg_from = Some from_path, rg_before_revision = before_revision,
        rg_after_revision = after_revision, rg_before_types = event_types (jget payload ''previous_types''),
        rg_after_types = event_types (jget payload ''types''), rg_changed_fields = fields,
        rg_body_changed = event_bool payload False\<rparr>))))))))"

definition resource_changed ::
  "json \<Rightarrow> resource_change_kind \<Rightarrow> string option \<Rightarrow> (provider_error, canonical_change) res" where
  "resource_changed payload kind fixed_path =
     bind_res
       (case fixed_path of
          Some path \<Rightarrow> Ok path
        | None \<Rightarrow>
            (case Option.bind (jget payload ''path'') as_str of
               Some path \<Rightarrow> Ok path
             | None \<Rightarrow> Err (malformed ''resource event path is missing''))) (\<lambda>path.
     bind_res (map_err_path (\<lambda>e. malformed (path_error_message e)) (collection_path_from_str path)) (\<lambda>p.
     bind_res (event_revision (jget payload ''previous_revision'')) (\<lambda>before_revision.
     bind_res (event_revision (jget payload ''revision'')) (\<lambda>after_revision.
     Ok (ResourceEffect
       \<lparr>rs_kind = kind, rs_path = p, rs_before_revision = before_revision, rs_after_revision = after_revision\<rparr>)))))"

text \<open>The change an event stands for; \<open>None\<close> when its type is unknown.\<close>

definition event_change :: "string \<Rightarrow> json \<Rightarrow> (provider_error, canonical_change) res option" where
  "event_change event_type payload =
     (if event_type = ''mdbase.record.created'' then Some (record_created payload)
      else if event_type = ''mdbase.record.modified'' then Some (record_modified payload)
      else if event_type = ''mdbase.record.deleted'' then Some (record_deleted payload)
      else if event_type = ''mdbase.record.renamed'' then Some (record_renamed payload)
      else if event_type = ''mdbase.config.changed''
        then Some (resource_changed payload ResourceConfiguration (Some ''mdbase.yaml''))
      else if event_type = ''mdbase.type.changed'' then Some (resource_changed payload ResourceTypeDefinition None)
      else if event_type = ''mdbase.contract.changed'' then Some (resource_changed payload ResourceContract None)
      else if event_type = ''mdbase.view.changed'' then Some (resource_changed payload ResourceViewSource None)
      else if event_type = ''mdbase.schema.changed'' \<or> event_type = ''mdbase.lock.changed''
        then Some (resource_changed payload ResourceFile None)
      else None)"

definition normalize :: "digest_host \<Rightarrow> pending_event \<Rightarrow> (provider_error, change_set) res" where
  "normalize h event =
     (case event_change (pe_event_type event) (pe_payload event) of
        None \<Rightarrow> Ok (ChangesCollectionWide RebuildExternalChangeUncertain)
      | Some change \<Rightarrow>
          bind_res change (\<lambda>c. bind_res (change_batch_new h [c]) (\<lambda>batch. Ok (ChangesExact batch))))"

definition matches_known :: "digest_host \<Rightarrow> pending_event \<Rightarrow> change_batch \<Rightarrow> bool" where
  "matches_known h event known =
     (case normalize h event of
        Ok (ChangesExact observed) \<Rightarrow> list_all (\<lambda>item. item \<in> set (cb_items known)) (cb_items observed)
      | _ \<Rightarrow> False)"

end
