(* ===== verification/Watch_Properties.thy ===== *)
theory Watch_Properties
  imports Watch_Events Change_Properties
begin

text \<open>
  The watcher and the difference of snapshots agree: what the runtime reads out of the events that a
  watcher reports between two snapshots are the canonical record changes that the runtime computes
  itself, so that the echo of its own mutation is recognised.
\<close>

section \<open>One event\<close>

lemma map_err_res_Ok [simp]: "map_err_path f r = Ok x \<longleftrightarrow> r = Ok x"
  by (cases r) simp_all

lemma event_types_strings [simp]: "event_types (Some (json_strings ts)) = canonical_type_set ts"
proof -
  have "List.map_filter as_str (map JStr ts) = ts" by (induction ts) (simp_all add: List.map_filter_simps)
  then show ?thesis by (simp add: event_types_def json_strings_def)
qed

lemma event_revision_str: "event_revision (Some (JStr s)) = bind_res (map_err_path malformed (revision_parse s)) (\<lambda>r. Ok (Some r))"
  by (simp add: event_revision_def)

lemma canonical_type_set_Nil [simp]: "canonical_type_set [] = []"
  by (simp add: canonical_type_set_def btree_set_def)

lemmas event_unfold = event_change_def event_object_def event_path_def event_bool_def event_revision_str jget_jobj
  record_state_of_def canonical_field_changes_def canonical_present_fields_def
lemmas diff_unfold = diff_record_change_def diff_path_def diff_revision_def map_option_res_def record_fields_def

lemma modified_change:
  assumes "diff_record_change ChangeUpdated path None (Some b) (Some a) = Ok c"
  shows "event_change ''mdbase.record.modified''
    (pe_payload (modified_event path (record_state_of eff b) (record_state_of eff' a))) = Some (Ok (RecordEffect c))"
  using assms by (auto simp: diff_unfold event_unfold modified_event_def record_modified_def Let_def)

lemma created_change:
  assumes "diff_record_change ChangeCreated path None None (Some a) = Ok c"
  shows "event_change ''mdbase.record.created'' (pe_payload (created_event path (record_state_of eff a)))
    = Some (Ok (RecordEffect c))"
  using assms by (auto simp: diff_unfold event_unfold created_event_def record_created_def Let_def)

lemma deleted_change:
  assumes "diff_record_change ChangeDeleted path None (Some b) None = Ok c"
  shows "event_change ''mdbase.record.deleted'' (pe_payload (deleted_event path (record_state_of eff b)))
    = Some (Ok (RecordEffect c))"
  using assms by (auto simp: diff_unfold event_unfold deleted_event_def record_deleted_def Let_def)

lemma renamed_change:
  assumes "diff_record_change ChangeRenamed to_path (Some (CollectionPath from_path)) (Some b) (Some a) = Ok c"
    "canonical_path from_path"
  shows "event_change ''mdbase.record.renamed''
    (pe_payload (renamed_event from_path to_path (record_state_of eff b) (record_state_of eff' a))) = Some (Ok (RecordEffect c))"
  using assms by (auto simp: diff_unfold event_unfold renamed_event_def record_renamed_def Let_def canonical_path_def)

section \<open>Renames\<close>

definition revision_at :: "record_states \<Rightarrow> string \<Rightarrow> string option" where
  "revision_at states path = map_option rt_revision (bt_get states path)"

text \<open>
  What the watcher takes for a rename: a deleted and a created path with one revision that no other
  deleted and no other created path has.
\<close>

definition renamed_pair :: "record_states \<Rightarrow> record_states \<Rightarrow> string \<Rightarrow> string \<Rightarrow> bool" where
  "renamed_pair before after from_path to_path \<longleftrightarrow>
     from_path \<in> set (deleted_paths before after) \<and> to_path \<in> set (deleted_paths after before)
     \<and> revision_at after to_path = revision_at before from_path
     \<and> (\<forall>p \<in> set (deleted_paths before after). revision_at before p = revision_at before from_path \<longrightarrow> p = from_path)
     \<and> (\<forall>p \<in> set (deleted_paths after before). revision_at after p = revision_at before from_path \<longrightarrow> p = to_path)"

definition inferred_from :: "record_states \<Rightarrow> record_states \<Rightarrow> string \<Rightarrow> (string \<times> string) list" where
  "inferred_from before after from_path =
     map (Pair from_path) (filter (renamed_pair before after from_path) (deleted_paths after before))"

definition inferred_renames :: "record_states \<Rightarrow> record_states \<Rightarrow> (string \<times> string) list" where
  "inferred_renames before after = concat (map (inferred_from before after) (deleted_paths before after))"

definition rename_event :: "record_states \<Rightarrow> record_states \<Rightarrow> string \<times> string \<Rightarrow> pending_event" where
  "rename_event before after e =
     renamed_event (fst e) (snd e) (the (bt_get before (fst e))) (the (bt_get after (snd e)))"

lemma filter_singleton:
  assumes "distinct xs" "x \<in> set xs" "\<And>y. y \<in> set xs \<Longrightarrow> P y \<longleftrightarrow> y = x"
  shows "filter P xs = [x]"
  using assms
proof (induction xs)
  case (Cons a xs)
  show ?case
  proof (cases "a = x")
    case True
    moreover have "filter P xs = []" using Cons.prems True by (auto simp: filter_empty_conv)
    ultimately show ?thesis using Cons.prems by simp
  next
    case False
    then show ?thesis using Cons by simp
  qed
qed simp

lemma find_unique:
  assumes "x \<in> set xs" "P x" "\<And>y. y \<in> set xs \<Longrightarrow> P y \<Longrightarrow> y = x"
  shows "List.find P xs = Some x"
proof (cases "List.find P xs")
  case None
  then show ?thesis using assms(1,2) by (auto simp: find_None_iff)
next
  case (Some y)
  then have "y \<in> set xs" "P y" by (auto simp: find_Some_iff)
  from assms(3) [OF this] Some show ?thesis by simp
qed

lemma deleted_paths_props:
  assumes "bt_wf before"
  shows "distinct (deleted_paths before after)"
    "p \<in> set (deleted_paths before after) \<longleftrightarrow> bt_contains before p \<and> \<not> bt_contains after p"
proof -
  have "distinct (bt_keys before)" using sorted_bt_keys [OF assms] by (simp add: strict_sorted_iff)
  then show "distinct (deleted_paths before after)" by (simp add: deleted_paths_def)
qed (auto simp: deleted_paths_def set_bt_keys)

lemma revision_count_1:
  assumes "distinct paths"
  shows "revision_count paths states revision = 1 \<longleftrightarrow>
    (\<exists>p \<in> set paths. revision_at states p = Some revision \<and> (\<forall>q \<in> set paths. revision_at states q = Some revision \<longrightarrow> q = p))"
proof -
  have "revision_count paths states revision = card {p \<in> set paths. revision_at states p = Some revision}"
    unfolding revision_count_def revision_at_def
    using distinct_card [of "filter (\<lambda>p. map_option rt_revision (bt_get states p) = Some revision) paths"] assms by simp
  also have "\<dots> = 1 \<longleftrightarrow> (\<exists>p. {p \<in> set paths. revision_at states p = Some revision} = {p})"
    by (simp add: card_1_singleton_iff)
  finally show ?thesis by auto
qed

lemma rename_events_spec:
  assumes wf: "bt_wf before" "bt_wf after"
    and rest: "distinct rest" "set rest \<subseteq> set (deleted_paths before after)"
    and cr: "set created \<subseteq> set (deleted_paths after before)"
      "\<And>f t. f \<in> set rest \<Longrightarrow> renamed_pair before after f t \<Longrightarrow> t \<in> set created"
  shows "rename_events before after (revision_count (deleted_paths before after) before)
      (revision_count (deleted_paths after before) after) rest deleted created
    = (let pairs = concat (map (inferred_from before after) rest) in
       Ok (map (rename_event before after) pairs, filter (\<lambda>p. p \<notin> fst ` set pairs) deleted,
           filter (\<lambda>p. p \<notin> snd ` set pairs) created))"
  using rest cr
proof (induction rest arbitrary: deleted created)
  case (Cons f rest)
  let ?D = "deleted_paths before after" and ?C = "deleted_paths after before"
  note D = deleted_paths_props [OF wf(1), where after = after] and C = deleted_paths_props [OF wf(2), where after = before]
  obtain previous where f: "f \<in> set ?D" "bt_get before f = Some previous"
    using Cons.prems(2) D(2) by (auto simp: bt_contains_def)
  let ?r = "rt_revision previous"
  have rev: "revision_at before f = Some ?r" using f(2) by (simp add: revision_at_def)
  show ?case
  proof (cases "revision_count ?D before ?r = 1 \<and> revision_count ?C after ?r = 1")
    case True
    then obtain t where t: "t \<in> set ?C" "revision_at after t = Some ?r"
      "\<forall>q \<in> set ?C. revision_at after q = Some ?r \<longrightarrow> q = t"
      using revision_count_1 [OF C(1), of after ?r] by blast
    from True obtain f0 where "\<forall>q \<in> set ?D. revision_at before q = Some ?r \<longrightarrow> q = f0"
      using revision_count_1 [OF D(1), of before ?r] by blast
    then have uniq: "\<forall>q \<in> set ?D. revision_at before q = Some ?r \<longrightarrow> q = f" using f(1) rev by blast
    have pair: "renamed_pair before after f q \<longleftrightarrow> q = t" if "q \<in> set ?C" for q
      unfolding renamed_pair_def rev using that t uniq f(1) by blast
    then have from_f: "inferred_from before after f = [(f, t)]"
      using filter_singleton [OF C(1) t(1)] by (simp add: inferred_from_def)
    have "t \<in> set created" using Cons.prems(4) [of f t] pair t(1) by simp
    moreover have "q = t" if "q \<in> set created" "map_option rt_revision (bt_get after q) = Some ?r" for q
      using that t(3) Cons.prems(3) by (auto simp: revision_at_def)
    ultimately have find: "List.find (\<lambda>q. map_option rt_revision (bt_get after q) = Some ?r) created = Some t"
      using t(2) unfolding revision_at_def by (intro find_unique)
    obtain current where cur: "bt_get after t = Some current" using t(2) by (auto simp: revision_at_def)
    have keep: "t' \<in> set (removeAll t created)" if "f' \<in> set rest" "renamed_pair before after f' t'" for f' t'
    proof -
      have "t' \<noteq> t"
      proof
        assume "t' = t"
        then have "f' \<in> set ?D" "revision_at before f' = Some ?r" using that(2) t(2) by (auto simp: renamed_pair_def)
        then have "f' = f" using uniq by blast
        then show False using that(1) Cons.prems(1) by simp
      qed
      then show ?thesis using Cons.prems(4) [of f' t'] that by simp
    qed
    have "rename_events before after (revision_count ?D before) (revision_count ?C after) rest (removeAll f deleted) (removeAll t created)
      = (let pairs = concat (map (inferred_from before after) rest) in
       Ok (map (rename_event before after) pairs, filter (\<lambda>p. p \<notin> fst ` set pairs) (removeAll f deleted),
           filter (\<lambda>p. p \<notin> snd ` set pairs) (removeAll t created)))"
      using Cons.prems keep by (intro Cons.IH) auto
    then show ?thesis using f(2) True find cur
      by (simp add: from_f Let_def rename_event_def removeAll_filter_not_eq conj_commute cong: conj_cong)
        (auto intro!: filter_cong)
  next
    case False
    have "\<not> renamed_pair before after f q" for q
    proof
      assume pair: "renamed_pair before after f q"
      then have "revision_count ?D before ?r = 1" "revision_count ?C after ?r = 1"
        using pair [unfolded renamed_pair_def rev] rev
        unfolding revision_count_1 [OF D(1)] revision_count_1 [OF C(1)] by blast+
      then show False using False by simp
    qed
    then have "inferred_from before after f = []" by (simp add: inferred_from_def)
    then show ?thesis using f(2) False Cons.IH [of created deleted] Cons.prems by (auto simp: Let_def)
  qed
qed (simp add: Let_def)


section \<open>All events\<close>

text \<open>The states that the watcher loads are the index of the snapshot, state by state.\<close>

definition states_of :: "(snapshot_record \<Rightarrow> json) \<Rightarrow> record_index \<Rightarrow> record_states" where
  "states_of eff m = map (\<lambda>(p, r). (p, record_state_of eff r)) m"

lemma bt_insert_states:
  "bt_insert p (record_state_of eff r) (states_of eff m) = states_of eff (bt_insert p r m)"
  by (induction p r m rule: bt_insert.induct) (auto simp: states_of_def)

lemma load_records_states:
  assumes "\<forall>r \<in> set records. sr_frontmatter_error r = None"
  shows "load_records eff records = states_of eff (index_by sr_path records)"
proof -
  have "foldl (\<lambda>m r. bt_insert (sr_path r) (record_state_of eff r) m) (states_of eff m0) records
      = states_of eff (foldl (\<lambda>m r. bt_insert (sr_path r) r m) m0 records)" for m0
    by (induction records arbitrary: m0) (simp_all add: bt_insert_states)
  from this [of "[]"] have "foldl (\<lambda>m r. bt_insert (sr_path r) (record_state_of eff r) m) [] records
      = states_of eff (index_by sr_path records)" by (simp add: states_of_def index_by_def)
  moreover have "filter (\<lambda>r. sr_frontmatter_error r = None) records = records" using assms by (simp add: filter_id_conv)
  ultimately show ?thesis by (simp add: load_records_def)
qed

lemma states_of_simps [simp]:
  "bt_get (states_of eff m) p = map_option (record_state_of eff) (bt_get m p)"
  "bt_contains (states_of eff m) p = bt_contains m p" "bt_keys (states_of eff m) = bt_keys m"
  "bt_wf (states_of eff m) = bt_wf m"
  by (induction m; force simp: states_of_def bt_contains_def bt_keys_def bt_wf_def bt_get_def)+

lemma record_state_revision [simp]: "rt_revision (record_state_of eff r) = sr_revision r"
  by (simp add: record_state_of_def)

text \<open>The changes of proven renames, in the order of the pairs.\<close>

lemma rename_changes_exact:
  "rename_changes es before after = Ok (cs, before', after') \<Longrightarrow>
     list_all2 (\<lambda>e c. \<exists>old new r. bt_get before (as_path (fst e)) = Some old \<and> bt_get after (as_path (snd e)) = Some new
        \<and> diff_record_change ChangeRenamed (sr_path new) (Some (fst e)) (Some old) (Some new) = Ok r \<and> c = RecordEffect r) es cs
     \<and> (\<forall>p. bt_get before' p = (if p \<in> (as_path \<circ> fst) ` set es then None else bt_get before p))
     \<and> (\<forall>p. bt_get after' p = (if p \<in> (as_path \<circ> snd) ` set es then None else bt_get after p))
     \<and> (bt_wf before \<longrightarrow> bt_wf before') \<and> (bt_wf after \<longrightarrow> bt_wf after')"
proof (induction es arbitrary: before after cs)
  case (Cons e es)
  obtain "from" to where e: "e = (from, to)" by force
  from Cons.prems obtain old new r rest where
    step: "bt_get before (as_path from) = Some old" "bt_get after (as_path to) = Some new"
      "diff_record_change ChangeRenamed (sr_path new) (Some from) (Some old) (Some new) = Ok r" "cs = RecordEffect r # rest"
    and tail: "rename_changes es (bt_remove (as_path from) before) (bt_remove (as_path to) after) = Ok (rest, before', after')"
    by (auto simp: e split: option.splits)
  from Cons.IH [OF tail]
  have "list_all2 (\<lambda>e c. \<exists>old new r. bt_get before (as_path (fst e)) = Some old \<and> bt_get after (as_path (snd e)) = Some new
        \<and> diff_record_change ChangeRenamed (sr_path new) (Some (fst e)) (Some old) (Some new) = Ok r \<and> c = RecordEffect r) es rest"
    by (elim conjE list.rel_mono_strong) (auto split: if_splits)
  then show ?case using Cons.IH [OF tail] step by (auto simp: e)
qed simp


definition change_result :: "digest_host \<Rightarrow> canonical_change \<Rightarrow> (provider_error, change_set) res" where
  "change_result h c = bind_res (change_batch_new h [c]) (\<lambda>batch. Ok (ChangesExact batch))"

lemma normalize_change:
  "event_change (pe_event_type e) (pe_payload e) = Some (Ok c) \<Longrightarrow> normalize h e = change_result h c"
  by (simp add: normalize_def change_result_def)

lemma event_kinds [simp]:
  "pe_event_type (modified_event p a b) = ''mdbase.record.modified''" "pe_event_type (created_event p a) = ''mdbase.record.created''"
  "pe_event_type (deleted_event p a) = ''mdbase.record.deleted''" "pe_event_type (renamed_event p q a b) = ''mdbase.record.renamed''"
  by (simp_all add: modified_event_def created_event_def deleted_event_def renamed_event_def)

text \<open>The events of one path, when its renames are settled.\<close>

definition plain_events :: "record_states \<Rightarrow> record_states \<Rightarrow> string set \<Rightarrow> string set \<Rightarrow> string \<Rightarrow> pending_event list" where
  "plain_events before after froms tos p =
     (case (bt_get before p, bt_get after p) of
        (Some b, Some a) \<Rightarrow> if rt_revision b \<noteq> rt_revision a then [modified_event p b a] else []
      | (Some b, None) \<Rightarrow> if p \<in> froms then [] else [deleted_event p b]
      | (None, Some a) \<Rightarrow> if p \<in> tos then [] else [created_event p a]
      | (None, None) \<Rightarrow> [])"

lemma plain_events_normalize:
  assumes "record_difference B' A' p = Ok cs"
    and "bt_get B' p = (if p \<in> F then None else bt_get B p)" "bt_get A' p = (if p \<in> T then None else bt_get A p)"
    and "p \<in> F \<Longrightarrow> bt_get A p = None" "p \<in> T \<Longrightarrow> bt_get B p = None"
  shows "map (normalize h) (plain_events (states_of eff B) (states_of eff' A) F T p) = map (change_result h) cs"
proof (cases "bt_get B p")
  case None
  then show ?thesis using assms
    by (cases "bt_get A p")
       (auto simp: plain_events_def record_difference_def created_change normalize_change split: if_splits)
next
  case (Some b)
  then show ?thesis using assms
    by (cases "bt_get A p")
       (auto simp: plain_events_def record_difference_def deleted_change modified_change normalize_change split: if_splits)
qed

lemma rename_normalize:
  assumes "proper_index B" "proper_index A" "bt_get B (as_path (fst e)) = Some old" "bt_get A (as_path (snd e)) = Some new"
    "diff_record_change ChangeRenamed (sr_path new) (Some (fst e)) (Some old) (Some new) = Ok r"
  shows "normalize h (rename_event (states_of eff B) (states_of eff' A) (as_path (fst e), as_path (snd e)))
    = change_result h (RecordEffect r)"
proof -
  have "canonical_path (as_path (fst e))" "sr_path new = as_path (snd e)" using assms(1-4) by (auto simp: proper_index_def)
  moreover have "diff_record_change ChangeRenamed (sr_path new) (Some (CollectionPath (as_path (fst e)))) (Some old) (Some new) = Ok r"
    using assms(5) by simp
  ultimately show ?thesis using assms(3,4) renamed_change by (auto simp: rename_event_def intro!: normalize_change)
qed

lemma mset_pieces:
  assumes "distinct K" "distinct S" "set S \<subseteq> set K"
  shows "mset (map f S) = mset (concat (map (\<lambda>p. if p \<in> set S then [f p] else []) K))"
proof -
  have "concat (map (\<lambda>p. if p \<in> set S then [f p] else []) K) = map f (filter (\<lambda>p. p \<in> set S) K)"
    by (induction K) auto
  moreover have "mset (filter (\<lambda>p. p \<in> set S) K) = mset S"
    using assms by (intro set_eq_iff_mset_eq_distinct [THEN iffD1]) auto
  ultimately show ?thesis by (metis mset_map)
qed

lemma mset_concat_append:
  "mset (concat (map (\<lambda>p. a p @ b p) K)) = mset (concat (map a K)) + mset (concat (map b K))"
  by (induction K) simp_all

lemma map_filter_map: "List.map_filter (\<lambda>p. if P p then Some (f p) else None) xs = map f (filter P xs)"
  by (induction xs) (simp_all add: List.map_filter_simps)

lemma renamed_pair_created: "f \<in> S \<Longrightarrow> renamed_pair before after f t \<Longrightarrow> t \<in> set (deleted_paths after before)"
  by (simp add: renamed_pair_def)

lemma inferred_pair:
  "(f, t) \<in> set (inferred_renames before after) \<Longrightarrow>
     f \<in> set (deleted_paths before after) \<and> t \<in> set (deleted_paths after before)"
  by (auto simp: inferred_renames_def inferred_from_def)

text \<open>The watcher's events: the inferred renames, then one event for every other difference.\<close>

lemma record_events_exact:
  assumes wf: "bt_wf before" "bt_wf after" and K: "distinct K"
    "\<And>p. bt_contains before p \<or> bt_contains after p \<Longrightarrow> p \<notin> fst ` set pairs \<Longrightarrow> p \<notin> snd ` set pairs \<Longrightarrow> p \<in> set K"
    and pairs: "pairs = inferred_renames before after"
  shows "\<exists>events. record_events before after = Ok events
    \<and> mset events = mset (map (rename_event before after) pairs)
       + mset (concat (map (plain_events before after (fst ` set pairs) (snd ` set pairs)) K))"
proof -
  let ?D = "filter (\<lambda>p. p \<notin> fst ` set pairs) (deleted_paths before after)"
  let ?C = "filter (\<lambda>p. p \<notin> snd ` set pairs) (deleted_paths after before)"
  let ?changed = "\<lambda>p. bt_contains before p \<and> bt_contains after p \<and> revision_at before p \<noteq> revision_at after p"
  let ?M = "filter ?changed (bt_keys before)"
  let ?del = "\<lambda>p. deleted_event p (the (bt_get before p))" and ?cre = "\<lambda>p. created_event p (the (bt_get after p))"
  let ?mod = "\<lambda>p. modified_event p (the (bt_get before p)) (the (bt_get after p))"
  note D = deleted_paths_props [OF wf(1), where after = after] and C = deleted_paths_props [OF wf(2), where after = before]
  have loop: "rename_events before after (revision_count (deleted_paths before after) before)
      (revision_count (deleted_paths after before) after) (deleted_paths before after) (deleted_paths before after)
      (deleted_paths after before) = Ok (map (rename_event before after) pairs, ?D, ?C)"
    using rename_events_spec [OF wf D(1) order_refl order_refl renamed_pair_created]
    by (simp add: pairs inferred_renames_def Let_def)
  have sides: "p \<in> fst ` set pairs \<Longrightarrow> bt_contains before p \<and> \<not> bt_contains after p"
    "p \<in> snd ` set pairs \<Longrightarrow> bt_contains after p \<and> \<not> bt_contains before p" for p
    using inferred_pair [of _ _ before after] D(2) [of p] C(2) [of p] by (auto simp: pairs)
  have dels: "map_res (\<lambda>path. event_at before (deleted_event path) path) ?D = Ok (map ?del ?D)"
    and cres: "map_res (\<lambda>path. event_at after (created_event path) path) ?C = Ok (map ?cre ?C)"
    unfolding map_res_Ok_iff list.rel_map
    using D(2) C(2) by (auto simp: event_at_def bt_contains_def intro!: list.rel_refl_strong)
  have mods: "List.map_filter (\<lambda>path.
            case (bt_get before path, bt_get after path) of
              (Some previous, Some current) \<Rightarrow>
                if rt_revision previous \<noteq> rt_revision current then Some (modified_event path previous current) else None
            | _ \<Rightarrow> None) (bt_keys before) = map ?mod ?M"
    unfolding map_filter_map [symmetric]
    by (rule arg_cong [where f = "\<lambda>f. List.map_filter f (bt_keys before)"], rule ext)
       (auto simp: bt_contains_def revision_at_def split: option.splits)
  have sub: "set ?D \<subseteq> set K" "set ?C \<subseteq> set K" "set ?M \<subseteq> set K"
    unfolding subset_iff set_filter mem_Collect_eq D(2) C(2) set_bt_keys using K(2) sides by blast+
  have dist: "distinct ?D" "distinct ?C" "distinct ?M"
    using D(1) C(1) sorted_bt_keys [OF wf(1)] by (simp_all add: strict_sorted_iff)
  have pieces: "plain_events before after (fst ` set pairs) (snd ` set pairs) p =
      (if p \<in> set ?D then [?del p] else []) @ (if p \<in> set ?C then [?cre p] else []) @ (if p \<in> set ?M then [?mod p] else [])" for p
    using D(2) C(2) by (auto simp: plain_events_def set_bt_keys bt_contains_def revision_at_def split: option.splits)
  define rest where "rest = map ?del ?D @ map ?cre ?C @ map ?mod ?M"
  have events: "record_events before after = Ok (map (rename_event before after) pairs @ rest)"
    by (simp add: record_events_def rest_def Let_def loop dels cres mods [unfolded prod.case])
  have rest: "mset rest = mset (concat (map (plain_events before after (fst ` set pairs) (snd ` set pairs)) K))"
    unfolding rest_def pieces mset_concat_append mset_append
      mset_pieces [OF K(1) dist(1) sub(1), of ?del] mset_pieces [OF K(1) dist(2) sub(2), of ?cre]
      mset_pieces [OF K(1) dist(3) sub(3), of ?mod] ..
  show ?thesis by (intro exI conjI, rule events) (simp only: mset_append rest)
qed


text \<open>An event that normalises to a change of the known batch is recognised.\<close>

lemma known_normalized:
  assumes "\<forall>c. is_ok (dh_jcs h c)" and e: "e \<in> set events"
    and same: "mset (map (normalize h) events) = mset (map (change_result h) (filter P (cb_items known)))"
  shows "matches_known h e known"
proof -
  have "normalize h e \<in> set (map (normalize h) events)" using e by simp
  then have "normalize h e \<in> set (map (change_result h) (filter P (cb_items known)))"
    unfolding mset_eq_setD [OF same] .
  then obtain c where c: "normalize h e = change_result h c" "c \<in> set (cb_items known)" by auto
  obtain batch where batch: "change_batch_new h [c] = Ok batch"
    using change_batch_new_total [OF _ assms(1), of "[c]"] by auto
  have "cb_items batch = [c]" using change_batch_new_Ok(1) [OF batch] by simp
  with c batch show ?thesis by (simp add: matches_known_def change_result_def)
qed

lemma resource_differences_are_resources:
  assumes "map_res (resource_difference before after) ps = Ok rcs"
  shows "\<forall>c \<in> set (concat rcs). is_resource c"
proof -
  have "\<forall>c \<in> set cs. is_resource c" if "resource_difference before after p = Ok cs" for p cs
    using that by (auto simp: resource_difference_def Let_def split: if_splits option.splits)
  then have "list_all2 (\<lambda>p cs. \<forall>c \<in> set cs. is_resource c) ps rcs"
    using assms by (auto simp: map_res_Ok_iff elim!: list_all2_mono)
  then show ?thesis by (induction rule: list_all2_induct) auto
qed

lemma record_changes_are_records:
  assumes "rename_changes es before after = Ok (renames, before', after')"
    and "map_res (record_difference before' after') ps = Ok css"
  shows "\<forall>c \<in> set (renames @ concat css). \<not> is_resource c"
proof -
  have "list_all2 (\<lambda>e c. \<not> is_resource c) es renames"
    using rename_changes_exact [OF assms(1)] by (auto elim: list_all2_mono)
  then have "\<forall>c \<in> set renames. \<not> is_resource c" by (induction rule: list_all2_induct) auto
  moreover have "\<forall>c \<in> set cs. \<not> is_resource c" if "record_difference before' after' p = Ok cs" for p cs
    using that by (auto simp: record_difference_def split: if_splits option.splits)
  then have "list_all2 (\<lambda>p cs. \<forall>c \<in> set cs. \<not> is_resource c) ps css"
    using assms(2) by (auto simp: map_res_Ok_iff elim!: list_all2_mono)
  then have "\<forall>c \<in> set (concat css). \<not> is_resource c" by (induction rule: list_all2_induct) auto
  ultimately show ?thesis by auto
qed

lemma mset_map_same: "mset xs = mset ys \<Longrightarrow> mset (map f xs) = mset (map f ys)"
  by simp

lemma filter_mset_items:
  "change_batch_new h cs = Ok known \<Longrightarrow> mset (filter P (cb_items known)) = mset (filter P cs)"
  using change_batch_new_Ok(1) by (metis mset_filter)


text \<open>
  C30: the watcher and the snapshot difference report the same record changes. For two captured
  snapshots without unreadable frontmatter, when the renames that the request proves are those that the
  watcher infers from revisions (none in both, for instance), the watcher's events between the
  snapshots are computed without panicking, and what the runtime normalises them to is, one for one
  and as a multiset, what it makes of the record changes in its own canonical batch. In particular
  every event of the runtime's own mutation is recognised as known and not reported again.
\<close>

theorem watch_events_agree_with_diff:
  assumes "proper_snapshot before" "proper_snapshot after" "\<forall>c. is_ok (dh_jcs h c)"
    and "\<forall>r \<in> set (cs_records before @ cs_records after). sr_frontmatter_error r = None"
    and "canonical_changes h before after request = Ok known"
    and "mset (map (\<lambda>(f, t). (as_path f, as_path t)) (proven_requested_renames request
           (index_by sr_path (cs_records before)) (index_by sr_path (cs_records after))))
      = mset (inferred_renames (load_records eff (cs_records before)) (load_records eff' (cs_records after)))"
  shows "\<exists>events. record_events (load_records eff (cs_records before)) (load_records eff' (cs_records after)) = Ok events
    \<and> mset (map (normalize h) events)
      = mset (map (change_result h) (filter (\<lambda>c. \<not> is_resource c) (cb_items known)))
    \<and> list_all (\<lambda>e. matches_known h e known) events"
proof -
  let ?B = "index_by sr_path (cs_records before)" and ?A = "index_by sr_path (cs_records after)"
  let ?b = "states_of eff ?B" and ?a = "states_of eff' ?A"
  let ?es = "proven_requested_renames request ?B ?A" and ?paths = "\<lambda>(f, t). (as_path f, as_path t)"
  let ?pairs = "inferred_renames ?b ?a"
  have load: "load_records eff (cs_records before) = ?b" "load_records eff' (cs_records after) = ?a"
    using assms(4) by (simp_all add: load_records_states)
  have wf: "bt_wf ?b" "bt_wf ?a" by (simp_all add: bt_wf_index_by)
  have msets: "mset (map ?paths ?es) = mset ?pairs" using assms(6) by (simp only: load)
  from assms(5) obtain renames B' A' css rcs where
    ren: "rename_changes ?es ?B ?A = Ok (renames, B', A')" and
    diff: "map_res (record_difference B' A') (btree_set (bt_keys B' @ bt_keys A')) = Ok css" and
    res: "map_res (resource_difference (index_by sc_path (cs_resources before)) (index_by sc_path (cs_resources after)))
      (btree_set (bt_keys (index_by sc_path (cs_resources before)) @ bt_keys (index_by sc_path (cs_resources after)))) = Ok rcs" and
    batch: "change_batch_new h (renames @ concat css @ concat rcs) = Ok known"
    by (auto simp: canonical_changes_def Let_def)
  note exact = rename_changes_exact [OF ren]
  let ?K = "btree_set (bt_keys B' @ bt_keys A')"
  have sides: "fst ` set ?pairs = (as_path \<circ> fst) ` set ?es" "snd ` set ?pairs = (as_path \<circ> snd) ` set ?es"
    unfolding mset_eq_setD [OF msets, symmetric] set_map image_image split_beta comp_def fst_conv snd_conv by (rule refl)+
  have K: "p \<in> set ?K" if "bt_contains ?b p \<or> bt_contains ?a p" "p \<notin> fst ` set ?pairs" "p \<notin> snd ` set ?pairs" for p
    using that exact unfolding sides by (auto simp: set_bt_keys bt_contains_def)
  from record_events_exact [OF wf _ K refl] obtain events where
    events: "record_events ?b ?a = Ok events" "mset events = mset (map (rename_event ?b ?a) ?pairs)
       + mset (concat (map (plain_events ?b ?a (fst ` set ?pairs) (snd ` set ?pairs)) ?K))"
    by (auto simp: btree_set_def)
  have pairs: "proven_pair ?B ?A e" if "e \<in> set ?es" for e using that proven_requested_renames_pairs by blast
  have "map (normalize h) (map (rename_event ?b ?a) (map ?paths ?es)) = map (change_result h) renames"
    using rename_normalize [OF proper_index_by [OF assms(1)] proper_index_by [OF assms(2)]] exact
    by (auto simp: list.rel_eq [symmetric] list.rel_map elim!: list.rel_mono_strong)
  then have renamed: "mset (map (normalize h) (map (rename_event ?b ?a) ?pairs)) = mset (map (change_result h) renames)"
    using mset_map_same [OF mset_map_same [OF msets, of "rename_event ?b ?a"], of "normalize h"] by (simp only:)
  have out: "p \<in> (as_path \<circ> fst) ` set ?es \<Longrightarrow> bt_get ?A p = None" "p \<in> (as_path \<circ> snd) ` set ?es \<Longrightarrow> bt_get ?B p = None" for p
    using pairs by (auto simp: proven_pair_def bt_contains_def)
  have "list_all2 (\<lambda>p cs. record_difference B' A' p = Ok cs) ?K css" using diff by (simp add: map_res_Ok_iff)
  then have "list_all2 (\<lambda>p cs. map (normalize h) (plain_events ?b ?a (fst ` set ?pairs) (snd ` set ?pairs) p) = map (change_result h) cs) ?K css"
    by (rule list_all2_mono) (use exact out in \<open>auto simp: sides intro!: plain_events_normalize\<close>)
  then have plain: "map (normalize h) (concat (map (plain_events ?b ?a (fst ` set ?pairs) (snd ` set ?pairs)) ?K)) = map (change_result h) (concat css)"
    by (induction rule: list_all2_induct) simp_all
  have all: "mset (map (normalize h) events) = mset (map (change_result h) (renames @ concat css))"
    using arg_cong [OF events(2), of "image_mset (normalize h)"] renamed plain by (simp add: mset_map [symmetric] del: mset_map)
  have is_res: "\<forall>c \<in> set (concat rcs). is_resource c"
    using res by (rule resource_differences_are_resources)
  have not_res: "\<forall>c \<in> set (renames @ concat css). \<not> is_resource c"
    using ren diff by (rule record_changes_are_records)
  have "mset (filter (\<lambda>c. \<not> is_resource c) (cb_items known)) = mset (renames @ concat css)"
    using is_res not_res unfolding filter_mset_items [OF batch] by (simp add: filter_id_conv filter_empty_conv)
  with all have same: "mset (map (normalize h) events) = mset (map (change_result h) (filter (\<lambda>c. \<not> is_resource c) (cb_items known)))"
    by (metis mset_map)
  have "list_all (\<lambda>e. matches_known h e known) events"
    unfolding list_all_iff using same by (blast intro: known_normalized [OF assms(3)])
  with same events(1) show ?thesis unfolding load by blast
qed


definition ex_states :: "collection_snapshot \<Rightarrow> record_states" where
  "ex_states snapshot = load_records (\<lambda>r. JObj (sr_frontmatter r)) (cs_records snapshot)"

theorem watch_events_agree_with_diff_witness:
  "\<exists>known events. canonical_changes ex_digest ex_before ex_after (Some ex_request) = Ok known
     \<and> record_events (ex_states ex_before) (ex_states ex_after) = Ok events
     \<and> length events = length (filter (\<lambda>c. \<not> is_resource c) (cb_items known))
     \<and> list_all (\<lambda>e. matches_known ex_digest e known) events"
proof -
  have canon: "canonical_path ''a.md''" "canonical_path ''b.md''" "canonical_path ''c.md''" "canonical_path ''mdbase.yaml''"
    unfolding canonical_path_def by code_simp+
  have proper: "proper_snapshot ex_before" "proper_snapshot ex_after"
    using canon by (simp_all add: proper_snapshot_def ex_before_def ex_after_def ex_snapshot_def ex_record_def)
  have renames: "proven_requested_renames (Some ex_request) (index_by sr_path (cs_records ex_before))
       (index_by sr_path (cs_records ex_after)) = [(CollectionPath ''a.md'', CollectionPath ''c.md'')]"
    by code_simp
  have inferred: "inferred_renames (ex_states ex_before) (ex_states ex_after) = [(''a.md'', ''c.md'')]"
    by code_simp
  have jcs: "\<forall>c. is_ok (dh_jcs ex_digest c)" by (simp add: ex_digest_def)
  have parsed: "\<forall>r \<in> set (cs_records ex_before @ cs_records ex_after). sr_frontmatter_error r = None"
    by (simp add: ex_before_def ex_after_def ex_snapshot_def ex_record_def)
  have "is_ok (canonical_changes ex_digest ex_before ex_after (Some ex_request))" by code_simp
  then obtain known where known: "canonical_changes ex_digest ex_before ex_after (Some ex_request) = Ok known"
    by (cases "canonical_changes ex_digest ex_before ex_after (Some ex_request)") simp_all
  from watch_events_agree_with_diff [OF proper jcs parsed known, of "\<lambda>r. JObj (sr_frontmatter r)" "\<lambda>r. JObj (sr_frontmatter r)"]
  obtain events where "record_events (ex_states ex_before) (ex_states ex_after) = Ok events"
    "mset (map (normalize ex_digest) events) = mset (map (change_result ex_digest) (filter (\<lambda>c. \<not> is_resource c) (cb_items known)))"
    "list_all (\<lambda>e. matches_known ex_digest e known) events"
    using renames inferred by (auto simp: ex_states_def)
  with known mset_eq_length show ?thesis by fastforce
qed

end
