(* ===== verification/Disk.thy ===== *)
theory Disk
  imports BTree_Map "HOL-Library.Word"
begin

text \<open>
  The file system below a held collection root, and programs over it that may fail or be killed.
  A name is a directory, a symbolic link or a file; a file name points to an inode, so that two
  names of one file are told apart from two equal files. Paths are the lists of normal components
  of a \<open>std::path::Path\<close>, the empty list being the root. Every call of the operating system asks
  the replies of the environment whether it takes place, is refused with an error, or whether the
  process is killed; a call that ends early may have done part of its work. The crash triples at
  the end say what holds after a program whatever the replies are.
\<close>

type_synonym bytes = "8 word list"
type_synonym path = "string list"

datatype node = NDir | NSymlink | NFile nat

record inode =
  in_bytes :: bytes
  in_readonly :: bool

record disk =
  dk_names :: "(path, node) btree"
  dk_inodes :: "(nat, inode) btree"
  dk_next :: nat

datatype io_error = NotFound | AlreadyExists | PermissionDenied | InvalidInput | OtherIo

definition node_at :: "disk \<Rightarrow> path \<Rightarrow> node option" where
  "node_at d p = (if p = [] then Some NDir else bt_get (dk_names d) p)"

fun node_content :: "(nat, inode) btree \<Rightarrow> node option \<Rightarrow> bytes option" where
  "node_content inodes (Some (NFile i)) = map_option in_bytes (bt_get inodes i)"
| "node_content inodes (Some NDir) = None"
| "node_content inodes (Some NSymlink) = None"
| "node_content inodes None = None"

definition file_at :: "disk \<Rightarrow> path \<Rightarrow> bytes option" where
  "file_at d p = node_content (dk_inodes d) (node_at d p)"

definition link_count :: "disk \<Rightarrow> nat \<Rightarrow> nat" where
  "link_count d i = length (filter (\<lambda>(_, n). n = NFile i) (dk_names d))"

section \<open>Programs\<close>

text \<open>
  A reply may carry how far the call went: the bytes that a write has written, or the names that a
  recursive removal has removed.
\<close>

record progress =
  pg_written :: nat
  pg_removed :: "path list"

datatype reply = Proceed | Refuse io_error progress | Kill progress

record world =
  w_disk :: disk
  w_replies :: "nat \<Rightarrow> reply"
  w_uuids :: "nat \<Rightarrow> string"
  w_mtimes :: "nat \<Rightarrow> string option"
  w_time :: nat

datatype ('e, 'a) exit = Done 'a | Failed 'e | Killed

type_synonym ('e, 'a) prog = "world \<Rightarrow> world \<times> ('e, 'a) exit"

definition pr_return :: "'a \<Rightarrow> ('e, 'a) prog" where
  "pr_return x w = (w, Done x)"

definition pr_fail :: "'e \<Rightarrow> ('e, 'a) prog" where
  "pr_fail e w = (w, Failed e)"

definition pr_bind :: "('e, 'a) prog \<Rightarrow> ('a \<Rightarrow> ('e, 'b) prog) \<Rightarrow> ('e, 'b) prog" where
  "pr_bind m f w =
     (case m w of
        (w', Done x) \<Rightarrow> f x w'
      | (w', Failed e) \<Rightarrow> (w', Failed e)
      | (w', Killed) \<Rightarrow> (w', Killed))"

definition pr_attempt :: "('e, 'a) prog \<Rightarrow> ('f, 'e + 'a) prog" where
  "pr_attempt m w =
     (case m w of
        (w', Done x) \<Rightarrow> (w', Done (Inr x))
      | (w', Failed e) \<Rightarrow> (w', Done (Inl e))
      | (w', Killed) \<Rightarrow> (w', Killed))"

definition pr_map_err :: "('e \<Rightarrow> 'f) \<Rightarrow> ('e, 'a) prog \<Rightarrow> ('f, 'a) prog" where
  "pr_map_err f m w =
     (case m w of
        (w', Done x) \<Rightarrow> (w', Done x)
      | (w', Failed e) \<Rightarrow> (w', Failed (f e))
      | (w', Killed) \<Rightarrow> (w', Killed))"

definition pr_uuid :: "('e, string) prog" where
  "pr_uuid w = (w\<lparr>w_time := Suc (w_time w)\<rparr>, Done (w_uuids w (w_time w)))"

definition pr_mtime :: "('e, string option) prog" where
  "pr_mtime w = (w\<lparr>w_time := Suc (w_time w)\<rparr>, Done (w_mtimes w (w_time w)))"

text \<open>\<open>work\<close> is the effect of the call, \<open>part\<close> what an interrupted call leaves.\<close>

definition syscall ::
  "(disk \<Rightarrow> io_error + 'a \<times> disk) \<Rightarrow> (progress \<Rightarrow> disk \<Rightarrow> disk) \<Rightarrow> (io_error, 'a) prog" where
  "syscall work part w =
     (let w' = w\<lparr>w_time := Suc (w_time w)\<rparr> in
      case w_replies w (w_time w) of
        Proceed \<Rightarrow>
          (case work (w_disk w) of
             Inl e \<Rightarrow> (w', Failed e)
           | Inr (x, d) \<Rightarrow> (w'\<lparr>w_disk := d\<rparr>, Done x))
      | Refuse e pg \<Rightarrow> (w'\<lparr>w_disk := part pg (w_disk w)\<rparr>, Failed e)
      | Kill pg \<Rightarrow> (w'\<lparr>w_disk := part pg (w_disk w)\<rparr>, Killed))"

lemma pr_bind_simps [simp]: "pr_bind (pr_return x) f = f x" "pr_bind (pr_fail e) f = pr_fail e"
  by (simp_all add: fun_eq_iff pr_bind_def pr_return_def pr_fail_def)

section \<open>Calls of the operating system\<close>

text \<open>A handle of an opened directory is its path; a handle of a file is what the name stood for.\<close>

datatype handle = HDir | HFile nat

definition sys_clone :: "(io_error, unit) prog" where
  "sys_clone = syscall (\<lambda>d. Inr ((), d)) (\<lambda>_ d. d)"

definition sys_open_dir :: "path \<Rightarrow> (io_error, path) prog" where
  "sys_open_dir p =
     syscall (\<lambda>d. case node_at d p of
         None \<Rightarrow> Inl NotFound
       | Some NDir \<Rightarrow> Inr (p, d)
       | Some _ \<Rightarrow> Inl OtherIo) (\<lambda>_ d. d)"

text \<open>A name can be added when its directory exists and the name is free.\<close>

definition add_name :: "path \<Rightarrow> disk \<Rightarrow> (io_error + 'a) \<Rightarrow> io_error + 'a" where
  "add_name p d r =
     (if p \<noteq> [] \<and> node_at d (butlast p) \<noteq> Some NDir then Inl NotFound
      else if node_at d p \<noteq> None then Inl AlreadyExists else r)"

definition sys_mkdir :: "path \<Rightarrow> (io_error, unit) prog" where
  "sys_mkdir p =
     syscall (\<lambda>d. add_name p d (Inr ((), d\<lparr>dk_names := bt_insert p NDir (dk_names d)\<rparr>))) (\<lambda>_ d. d)"

text \<open>Opening for reading without following links: a directory can be opened, too.\<close>

definition sys_open :: "path \<Rightarrow> (io_error, handle) prog" where
  "sys_open p =
     syscall (\<lambda>d. case node_at d p of
         None \<Rightarrow> Inl NotFound
       | Some NDir \<Rightarrow> Inr (HDir, d)
       | Some NSymlink \<Rightarrow> Inl OtherIo
       | Some (NFile i) \<Rightarrow> Inr (HFile i, d)) (\<lambda>_ d. d)"

definition sys_lstat :: "path \<Rightarrow> (io_error, node) prog" where
  "sys_lstat p =
     syscall (\<lambda>d. case node_at d p of None \<Rightarrow> Inl NotFound | Some n \<Rightarrow> Inr (n, d)) (\<lambda>_ d. d)"

text \<open>\<open>metadata\<close> of a handle: whether it is a regular file, its links and its permissions.\<close>

record metadata =
  md_is_file :: bool
  md_links :: nat
  md_readonly :: bool
  md_size :: nat

definition sys_metadata :: "handle \<Rightarrow> (io_error, metadata) prog" where
  "sys_metadata h =
     syscall (\<lambda>d. case h of
         HDir \<Rightarrow> Inr (\<lparr>md_is_file = False, md_links = 1, md_readonly = False, md_size = 0\<rparr>, d)
       | HFile i \<Rightarrow>
           (case bt_get (dk_inodes d) i of
              None \<Rightarrow> Inl OtherIo
            | Some n \<Rightarrow> Inr (\<lparr>md_is_file = True, md_links = link_count d i,
                md_readonly = in_readonly n, md_size = length (in_bytes n)\<rparr>, d))) (\<lambda>_ d. d)"

definition sys_read :: "handle \<Rightarrow> (io_error, bytes) prog" where
  "sys_read h =
     syscall (\<lambda>d. case h of
         HDir \<Rightarrow> Inl OtherIo
       | HFile i \<Rightarrow>
           (case bt_get (dk_inodes d) i of None \<Rightarrow> Inl OtherIo | Some n \<Rightarrow> Inr (in_bytes n, d))) (\<lambda>_ d. d)"

definition new_file :: "path \<Rightarrow> disk \<Rightarrow> disk" where
  "new_file p d =
     d\<lparr>dk_names := bt_insert p (NFile (dk_next d)) (dk_names d),
       dk_inodes := bt_insert (dk_next d) \<lparr>in_bytes = [], in_readonly = False\<rparr> (dk_inodes d),
       dk_next := Suc (dk_next d)\<rparr>"

definition sys_create_new :: "path \<Rightarrow> (io_error, handle) prog" where
  "sys_create_new p =
     syscall (\<lambda>d. add_name p d (Inr (HFile (dk_next d), new_file p d))) (\<lambda>_ d. d)"

definition append_bytes :: "nat \<Rightarrow> bytes \<Rightarrow> disk \<Rightarrow> disk" where
  "append_bytes i bs d =
     d\<lparr>dk_inodes := bt_modify i (\<lambda>n. n\<lparr>in_bytes := in_bytes n @ bs\<rparr>) (dk_inodes d)\<rparr>"

definition sys_write_all :: "handle \<Rightarrow> bytes \<Rightarrow> (io_error, unit) prog" where
  "sys_write_all h bs =
     (case h of
        HDir \<Rightarrow> syscall (\<lambda>d. Inl OtherIo) (\<lambda>_ d. d)
      | HFile i \<Rightarrow> syscall (\<lambda>d. Inr ((), append_bytes i bs d)) (\<lambda>pg. append_bytes i (take (pg_written pg) bs)))"

definition sys_sync :: "(io_error, unit) prog" where
  "sys_sync = syscall (\<lambda>d. Inr ((), d)) (\<lambda>_ d. d)"

definition sys_hard_link :: "path \<Rightarrow> path \<Rightarrow> (io_error, unit) prog" where
  "sys_hard_link p q =
     syscall (\<lambda>d. case node_at d p of
         None \<Rightarrow> Inl NotFound
       | Some (NFile i) \<Rightarrow> add_name q d (Inr ((), d\<lparr>dk_names := bt_insert q (NFile i) (dk_names d)\<rparr>))
       | Some _ \<Rightarrow> Inl OtherIo) (\<lambda>_ d. d)"

definition sys_unlink :: "path \<Rightarrow> (io_error, unit) prog" where
  "sys_unlink p =
     syscall (\<lambda>d. case node_at d p of
         None \<Rightarrow> Inl NotFound
       | Some NDir \<Rightarrow> Inl OtherIo
       | Some _ \<Rightarrow> Inr ((), d\<lparr>dk_names := bt_remove p (dk_names d)\<rparr>)) (\<lambda>_ d. d)"

definition sys_rename :: "path \<Rightarrow> path \<Rightarrow> (io_error, unit) prog" where
  "sys_rename p q =
     syscall (\<lambda>d. case node_at d p of
         Some (NFile i) \<Rightarrow>
           if node_at d (butlast q) \<noteq> Some NDir then Inl NotFound
           else if node_at d q = Some NDir then Inl OtherIo
           else Inr ((), d\<lparr>dk_names := bt_insert q (NFile i) (bt_remove p (dk_names d))\<rparr>)
       | None \<Rightarrow> Inl NotFound
       | Some _ \<Rightarrow> Inl OtherIo) (\<lambda>_ d. d)"

text \<open>
  Recursive removal of the names at and below a directory. An interrupted removal has removed some of
  them, in any order but a directory only after what it holds.
\<close>

definition below :: "path \<Rightarrow> path \<Rightarrow> bool" where
  "below p q \<longleftrightarrow> take (length p) q = p"

definition remove_names :: "(path \<Rightarrow> bool) \<Rightarrow> disk \<Rightarrow> disk" where
  "remove_names P d = d\<lparr>dk_names := bt_retain (\<lambda>q _. \<not> P q) (dk_names d)\<rparr>"

definition sys_remove_tree :: "path \<Rightarrow> (io_error, unit) prog" where
  "sys_remove_tree p =
     syscall (\<lambda>d. case node_at d p of
         None \<Rightarrow> Inl NotFound
       | Some NDir \<Rightarrow> Inr ((), remove_names (below p) d)
       | Some _ \<Rightarrow> Inl OtherIo)
       (\<lambda>pg d. remove_names (\<lambda>q. below p q
          \<and> list_all (\<lambda>(q', _). below q q' \<longrightarrow> q' \<in> set (pg_removed pg)) (dk_names d)) d)"

definition sys_entries :: "path \<Rightarrow> (io_error, (string \<times> node) list) prog" where
  "sys_entries p =
     syscall (\<lambda>d. Inr (map (\<lambda>(q, n). (last q, n)) (filter (\<lambda>(q, _). q \<noteq> [] \<and> butlast q = p) (dk_names d)), d))
       (\<lambda>_ d. d)"

section \<open>Crash triples\<close>

text \<open>
  \<open>triple R P m Q E K\<close>: from a disk that satisfies \<open>P\<close>, under replies that satisfy \<open>R\<close>, the program
  ends with a value and a disk in \<open>Q\<close>, or fails with an error and a disk in \<open>E\<close>, or is killed and
  leaves a disk in \<open>K\<close>.
\<close>

definition triple ::
  "((nat \<Rightarrow> reply) \<Rightarrow> bool) \<Rightarrow> (disk \<Rightarrow> bool) \<Rightarrow> ('e, 'a) prog \<Rightarrow> ('a \<Rightarrow> disk \<Rightarrow> bool) \<Rightarrow> ('e \<Rightarrow> disk \<Rightarrow> bool)
    \<Rightarrow> (disk \<Rightarrow> bool) \<Rightarrow> bool" where
  "triple R P m Q E K \<longleftrightarrow>
     (\<forall>w. R (w_replies w) \<and> P (w_disk w) \<longrightarrow>
        w_replies (fst (m w)) = w_replies w
        \<and> (case snd (m w) of
             Done x \<Rightarrow> Q x (w_disk (fst (m w)))
           | Failed e \<Rightarrow> E e (w_disk (fst (m w)))
           | Killed \<Rightarrow> K (w_disk (fst (m w)))))"

text \<open>Replies report a missing name only for names that are missing.\<close>

definition honest :: "(nat \<Rightarrow> reply) \<Rightarrow> bool" where
  "honest replies \<longleftrightarrow> (\<forall>n pg. replies n \<noteq> Refuse NotFound pg)"

lemma tripleD:
  assumes "triple R P m Q E K" "R (w_replies w)" "P (w_disk w)" "m w = (w', r)"
  shows "w_replies w' = w_replies w"
    and "case r of Done x \<Rightarrow> Q x (w_disk w') | Failed e \<Rightarrow> E e (w_disk w') | Killed \<Rightarrow> K (w_disk w')"
  using assms unfolding triple_def by (metis fst_conv snd_conv)+

lemma tripleI:
  assumes "\<And>w w' r. R (w_replies w) \<Longrightarrow> P (w_disk w) \<Longrightarrow> m w = (w', r) \<Longrightarrow>
      w_replies w' = w_replies w
      \<and> (case r of Done x \<Rightarrow> Q x (w_disk w') | Failed e \<Rightarrow> E e (w_disk w') | Killed \<Rightarrow> K (w_disk w'))"
  shows "triple R P m Q E K"
  using assms unfolding triple_def by (metis prod.collapse)

lemma triple_conseq:
  assumes "triple R P m Q E K" "\<And>d. P' d \<Longrightarrow> P d" "\<And>x d. Q x d \<Longrightarrow> Q' x d"
    "\<And>e d. E e d \<Longrightarrow> E' e d" "\<And>d. K d \<Longrightarrow> K' d"
  shows "triple R P' m Q' E' K'"
proof (rule tripleI)
  fix w w' r assume "R (w_replies w)" "P' (w_disk w)" "m w = (w', r)"
  from tripleD [OF assms(1) this(1) assms(2) [OF this(2)] this(3)] assms(3-5)
  show "w_replies w' = w_replies w
      \<and> (case r of Done x \<Rightarrow> Q' x (w_disk w') | Failed e \<Rightarrow> E' e (w_disk w') | Killed \<Rightarrow> K' (w_disk w'))"
    by (simp split: exit.splits)
qed

lemma triple_return: "(\<And>d. P d \<Longrightarrow> Q x d) \<Longrightarrow> triple R P (pr_return x) Q E K"
  by (simp add: triple_def pr_return_def)

lemma triple_fail: "(\<And>d. P d \<Longrightarrow> E e d) \<Longrightarrow> triple R P (pr_fail e) Q E K"
  by (simp add: triple_def pr_fail_def)

lemma triple_bind:
  assumes "triple R P m M E K" "\<And>x. triple R (M x) (f x) Q E K"
  shows "triple R P (pr_bind m f) Q E K"
proof (rule tripleI)
  fix w w' r assume w: "R (w_replies w)" "P (w_disk w)" and run: "pr_bind m f w = (w', r)"
  obtain w1 r1 where m: "m w = (w1, r1)" by force
  note first = tripleD [OF assms(1) w m]
  show "w_replies w' = w_replies w
      \<and> (case r of Done x \<Rightarrow> Q x (w_disk w') | Failed e \<Rightarrow> E e (w_disk w') | Killed \<Rightarrow> K (w_disk w'))"
  proof (cases r1)
    case (Done x)
    then have "f x w1 = (w', r)" using run m by (simp add: pr_bind_def)
    from tripleD [OF assms(2) _ _ this] w first Done show ?thesis by simp
  qed (use run m first in \<open>auto simp: pr_bind_def\<close>)
qed

lemma triple_attempt:
  fixes m :: "('e, 'a) prog" and E :: "'f \<Rightarrow> disk \<Rightarrow> bool"
  assumes "triple R P m (\<lambda>x. Q (Inr x)) (\<lambda>e. Q (Inl e)) K"
  shows "triple R P (pr_attempt m) Q E K"
proof (rule tripleI)
  fix w w' and r :: "('f, 'e + 'a) exit" assume w: "R (w_replies w)" "P (w_disk w)" and run: "pr_attempt m w = (w', r)"
  obtain w1 r1 where m: "m w = (w1, r1)" by force
  from tripleD [OF assms w m] run m
  show "w_replies w' = w_replies w
      \<and> (case r of Done x \<Rightarrow> Q x (w_disk w') | Failed e \<Rightarrow> E e (w_disk w') | Killed \<Rightarrow> K (w_disk w'))"
    by (auto simp: pr_attempt_def split: exit.splits)
qed

lemma triple_map_err: "triple R P m Q (\<lambda>e. E (f e)) K \<Longrightarrow> triple R P (pr_map_err f m) Q E K"
proof (rule tripleI)
  fix w w' r assume t: "triple R P m Q (\<lambda>e. E (f e)) K" and w: "R (w_replies w)" "P (w_disk w)"
    and run: "pr_map_err f m w = (w', r)"
  obtain w1 r1 where m: "m w = (w1, r1)" by force
  from tripleD [OF t w m] run m
  show "w_replies w' = w_replies w
      \<and> (case r of Done x \<Rightarrow> Q x (w_disk w') | Failed e \<Rightarrow> E e (w_disk w') | Killed \<Rightarrow> K (w_disk w'))"
    by (auto simp: pr_map_err_def split: exit.splits)
qed

lemma triple_uuid: "(\<And>d u. P d \<Longrightarrow> Q u d) \<Longrightarrow> triple R P pr_uuid Q E K"
  by (simp add: triple_def pr_uuid_def)

lemma triple_mtime: "(\<And>d t. P d \<Longrightarrow> Q t d) \<Longrightarrow> triple R P pr_mtime Q E K"
  by (simp add: triple_def pr_mtime_def)

text \<open>A precondition can be split into the disks that satisfy it, or into its cases.\<close>

lemma triple_each: "(\<And>d. P d \<Longrightarrow> triple R (\<lambda>e. e = d) m Q E K) \<Longrightarrow> triple R P m Q E K"
  unfolding triple_def by blast

lemma triple_ex: "(\<And>x. triple R (P x) m Q E K) \<Longrightarrow> triple R (\<lambda>d. \<exists>x. P x d) m Q E K"
  unfolding triple_def by blast

lemma triple_pure: "(b \<Longrightarrow> triple R P m Q E K) \<Longrightarrow> triple R (\<lambda>d. b \<and> P d) m Q E K"
  unfolding triple_def by blast

lemma triple_pure_snd: "(b \<Longrightarrow> triple R P m Q E K) \<Longrightarrow> triple R (\<lambda>d. P d \<and> b) m Q E K"
  unfolding triple_def by blast

lemma triple_disj: "triple R P m Q E K \<Longrightarrow> triple R P' m Q E K \<Longrightarrow> triple R (\<lambda>d. P d \<or> P' d) m Q E K"
  unfolding triple_def by blast

lemma triple_syscall:
  assumes "\<And>d x d'. P d \<Longrightarrow> work d = Inr (x, d') \<Longrightarrow> Q x d'"
    and "\<And>d e. P d \<Longrightarrow> work d = Inl e \<Longrightarrow> E e d"
    and "\<And>d pg e. P d \<Longrightarrow> e \<noteq> NotFound \<Longrightarrow> E e (part pg d)" "\<And>d pg. P d \<Longrightarrow> K (part pg d)"
  shows "triple honest P (syscall work part) Q E K"
proof (rule tripleI)
  fix w w' r assume w: "honest (w_replies w)" "P (w_disk w)" and run: "syscall work part w = (w', r)"
  have "e \<noteq> NotFound" if "w_replies w n = Refuse e pg" for n e pg using w(1) that by (auto simp: honest_def)
  then show "w_replies w' = w_replies w
      \<and> (case r of Done x \<Rightarrow> Q x (w_disk w') | Failed e \<Rightarrow> E e (w_disk w') | Killed \<Rightarrow> K (w_disk w'))"
    using run assms [of "w_disk w", OF w(2)]
    by (auto simp: syscall_def Let_def split: reply.splits sum.splits prod.splits)
qed

text \<open>Calls that only look at the disk.\<close>

lemma triple_look:
  assumes "\<And>d x. P d \<Longrightarrow> look d = Inr x \<Longrightarrow> Q x d" "\<And>d e. P d \<Longrightarrow> look d = Inl e \<Longrightarrow> E e d"
    and "\<And>d e. P d \<Longrightarrow> e \<noteq> NotFound \<Longrightarrow> E e d" "\<And>d. P d \<Longrightarrow> K d"
  shows "triple honest P (syscall (\<lambda>d. map_sum id (\<lambda>x. (x, d)) (look d)) (\<lambda>_ d. d)) Q E K"
  using assms by (intro triple_syscall) (auto simp: map_sum_def split: sum.splits)

section \<open>Well-formed disks\<close>

text \<open>
  Every file name has an inode, new inodes are fresh, and every name but the root lies in a
  directory.
\<close>

definition wf_disk :: "disk \<Rightarrow> bool" where
  "wf_disk d \<longleftrightarrow> bt_wf (dk_names d)
     \<and> (\<forall>p i. node_at d p = Some (NFile i) \<longrightarrow> i < dk_next d \<and> bt_get (dk_inodes d) i \<noteq> None)
     \<and> (\<forall>p n. p \<noteq> [] \<longrightarrow> node_at d p = Some n \<longrightarrow> node_at d (butlast p) = Some NDir)"

lemma file_at_Some:
  "wf_disk d \<Longrightarrow> file_at d p \<noteq> None \<longleftrightarrow> (\<exists>i. node_at d p = Some (NFile i))"
  by (cases "(dk_inodes d, node_at d p)" rule: node_content.cases) (auto simp: file_at_def wf_disk_def)

lemma wf_parent: "wf_disk d \<Longrightarrow> p \<noteq> [] \<Longrightarrow> node_at d p \<noteq> None \<Longrightarrow> node_at d (butlast p) = Some NDir"
  unfolding wf_disk_def by blast

lemma wf_prefix: "wf_disk d \<Longrightarrow> node_at d (p @ q) \<noteq> None \<Longrightarrow> q \<noteq> [] \<Longrightarrow> node_at d p = Some NDir"
proof (induction q rule: rev_induct)
  case (snoc c q)
  have "node_at d (p @ q) = Some NDir" using wf_parent [OF snoc.prems(1), of "p @ q @ [c]"] snoc.prems by (simp add: butlast_append)
  then show ?case using snoc.IH snoc.prems(1) by (cases "q = []") simp_all
qed simp

text \<open>The effects of the calls on names and contents.\<close>

lemma add_name_Inr: "add_name p d r = Inr x \<longleftrightarrow> (p = [] \<or> node_at d (butlast p) = Some NDir) \<and> node_at d p = None \<and> r = Inr x"
  by (auto simp: add_name_def)

lemma node_at_root [simp]: "node_at d [] = Some NDir"
  by (simp add: node_at_def)

definition set_name :: "path \<Rightarrow> node \<Rightarrow> disk \<Rightarrow> disk" where
  "set_name p n d = d\<lparr>dk_names := bt_insert p n (dk_names d)\<rparr>"

lemma node_at_set_name: "p \<noteq> [] \<Longrightarrow> node_at (set_name p n d) q = (if q = p then Some n else node_at d q)"
  by (simp add: node_at_def set_name_def)

lemma file_at_cong: "node_at d' q = node_at d q \<Longrightarrow> dk_inodes d' = dk_inodes d \<Longrightarrow> file_at d' q = file_at d q"
  by (simp add: file_at_def)

lemma set_name_proj [simp]: "dk_inodes (set_name p n d) = dk_inodes d" "dk_next (set_name p n d) = dk_next d"
  "bt_wf (dk_names d) \<Longrightarrow> bt_wf (dk_names (set_name p n d))"
  by (simp_all add: set_name_def)

lemma not_parent_of_name:
  "wf_disk d \<Longrightarrow> node_at d p \<noteq> Some NDir \<Longrightarrow> node_at d q \<noteq> None \<Longrightarrow> q \<noteq> [] \<Longrightarrow> butlast q \<noteq> p"
  using wf_parent by metis

lemma wf_diskI:
  assumes "bt_wf (dk_names d)" "\<And>p i. node_at d p = Some (NFile i) \<Longrightarrow> i < dk_next d \<and> bt_get (dk_inodes d) i \<noteq> None"
    "\<And>p n. p \<noteq> [] \<Longrightarrow> node_at d p = Some n \<Longrightarrow> node_at d (butlast p) = Some NDir"
  shows "wf_disk d"
  using assms unfolding wf_disk_def by blast

lemma wf_diskD:
  assumes "wf_disk d"
  shows "bt_wf (dk_names d)" "node_at d p = Some (NFile i) \<Longrightarrow> i < dk_next d"
    "node_at d p = Some (NFile i) \<Longrightarrow> bt_get (dk_inodes d) i \<noteq> None"
  using assms unfolding wf_disk_def by blast+

lemma wf_set_name:
  assumes wf: "wf_disk d" and p: "p \<noteq> []" "node_at d (butlast p) = Some NDir" "node_at d p \<noteq> Some NDir"
    and n: "\<And>i. n = NFile i \<Longrightarrow> i < dk_next d \<and> bt_get (dk_inodes d) i \<noteq> None"
  shows "wf_disk (set_name p n d)"
proof (rule wf_diskI)
  show "bt_wf (dk_names (set_name p n d))" using wf_diskD(1) [OF wf] by simp
  fix q i assume "node_at (set_name p n d) q = Some (NFile i)"
  then show "i < dk_next (set_name p n d) \<and> bt_get (dk_inodes (set_name p n d)) i \<noteq> None"
    using n wf_diskD [OF wf] by (auto simp: node_at_set_name [OF p(1)] split: if_splits)
next
  fix q m assume q: "q \<noteq> []" "node_at (set_name p n d) q = Some m"
  show "node_at (set_name p n d) (butlast q) = Some NDir"
  proof (cases "q = p")
    case True
    then have "butlast q \<noteq> p" using p(1) by (metis append_butlast_last_id not_Cons_self2 self_append_conv)
    then show ?thesis using p(2) True by (simp add: node_at_set_name [OF p(1)])
  next
    case False
    then have "node_at d q \<noteq> None" using q by (simp add: node_at_set_name [OF p(1)])
    then show ?thesis using wf_parent [OF wf q(1)] not_parent_of_name [OF wf p(3) _ q(1)]
      by (simp add: node_at_set_name [OF p(1)])
  qed
qed

lemma mkdir_effect:
  assumes "wf_disk d" "p \<noteq> []" "node_at d (butlast p) = Some NDir" "node_at d p = None"
  shows "wf_disk (set_name p NDir d)" "file_at (set_name p NDir d) = file_at d"
proof -
  show "wf_disk (set_name p NDir d)" by (rule wf_set_name) (use assms in auto)
  show "file_at (set_name p NDir d) = file_at d"
  proof
    fix q show "file_at (set_name p NDir d) q = file_at d q"
      using assms by (cases "q = p") (simp_all add: file_at_def node_at_set_name)
  qed
qed

lemma new_file_effect:
  assumes "wf_disk d" "p \<noteq> []" "node_at d (butlast p) = Some NDir" "node_at d p = None"
  shows "wf_disk (new_file p d)" "file_at (new_file p d) = (file_at d)(p := Some [])"
    "node_at (new_file p d) = (node_at d)(p := Some (NFile (dk_next d)))"
    "node_at (new_file p d) q = Some (NFile (dk_next d)) \<Longrightarrow> q = p"
proof -
  let ?e = "d\<lparr>dk_inodes := bt_insert (dk_next d) \<lparr>in_bytes = [], in_readonly = False\<rparr> (dk_inodes d), dk_next := Suc (dk_next d)\<rparr>"
  have eq: "new_file p d = set_name p (NFile (dk_next d)) ?e" by (simp add: new_file_def set_name_def)
  have nodes: "node_at ?e = node_at d" by (simp add: fun_eq_iff node_at_def)
  show at: "node_at (new_file p d) = (node_at d)(p := Some (NFile (dk_next d)))"
    by (simp add: fun_eq_iff eq node_at_set_name [OF assms(2)] nodes)
  have old: "i < dk_next d" if "node_at d q = Some (NFile i)" for q i using wf_diskD(2) [OF assms(1) that] .
  then show "node_at (new_file p d) q = Some (NFile (dk_next d)) \<Longrightarrow> q = p" by (auto simp: at split: if_splits)
  have "wf_disk ?e" using wf_diskD [OF assms(1)] wf_parent [OF assms(1)]
    by (auto simp: wf_disk_def nodes less_Suc_eq)
  then show "wf_disk (new_file p d)" unfolding eq by (rule wf_set_name) (use assms nodes in simp_all)
  show "file_at (new_file p d) = (file_at d)(p := Some [])"
  proof
    fix q show "file_at (new_file p d) q = ((file_at d)(p := Some [])) q"
    proof (cases "q = p")
      case False
      then have "node_at (new_file p d) q = node_at d q" by (simp add: at)
      then show ?thesis using False old [of q]
        by (cases "(dk_inodes d, node_at d q)" rule: node_content.cases) (auto simp: file_at_def new_file_def)
    qed (simp add: file_at_def at, simp add: new_file_def)
  qed
qed

lemma append_bytes_effect:
  assumes "wf_disk d" "node_at d p = Some (NFile i)" "\<And>q. node_at d q = Some (NFile i) \<Longrightarrow> q = p"
  shows "wf_disk (append_bytes i bs d)" "file_at (append_bytes i bs d) = (file_at d)(p := map_option (\<lambda>b. b @ bs) (file_at d p))"
    "node_at (append_bytes i bs d) = node_at d"
proof -
  show nodes: "node_at (append_bytes i bs d) = node_at d"
    by (simp add: fun_eq_iff node_at_def append_bytes_def)
  have inodes: "dk_inodes (append_bytes i bs d) = bt_modify i (\<lambda>n. n\<lparr>in_bytes := in_bytes n @ bs\<rparr>) (dk_inodes d)"
    by (simp add: append_bytes_def)
  show "wf_disk (append_bytes i bs d)" using assms(1) unfolding wf_disk_def nodes by (simp add: append_bytes_def)
  show "file_at (append_bytes i bs d) = (file_at d)(p := map_option (\<lambda>b. b @ bs) (file_at d p))"
  proof
    fix q show "file_at (append_bytes i bs d) q = ((file_at d)(p := map_option (\<lambda>b. b @ bs) (file_at d p))) q"
    proof (cases "q = p")
      case True
      then show ?thesis using assms(2)
        by (simp add: file_at_def nodes inodes option.map_comp comp_def)
    next
      case False
      then have "node_at d q \<noteq> Some (NFile i)" using assms(3) by blast
      then show ?thesis using False
        unfolding file_at_def nodes inodes by (cases "(dk_inodes d, node_at d q)" rule: node_content.cases) auto
    qed
  qed
qed

lemma hard_link_effect:
  assumes "wf_disk d" "p \<noteq> []" "node_at d (butlast p) = Some NDir" "node_at d p = None" "node_at d q = Some (NFile i)"
  shows "wf_disk (set_name p (NFile i) d)" "file_at (set_name p (NFile i) d) = (file_at d)(p := file_at d q)"
proof -
  show "wf_disk (set_name p (NFile i) d)" by (rule wf_set_name) (use assms wf_diskD [OF assms(1)] in auto)
  show "file_at (set_name p (NFile i) d) = (file_at d)(p := file_at d q)"
  proof
    fix r show "file_at (set_name p (NFile i) d) r = ((file_at d)(p := file_at d q)) r"
      using assms(5) by (cases "r = p") (simp_all add: file_at_def node_at_set_name [OF assms(2)])
  qed
qed

lemma remove_names_node: "node_at (remove_names P d) q = (if q \<noteq> [] \<and> P q then None else node_at d q)" if "wf_disk d"
  using wf_diskD(1) [OF that] by (auto simp: node_at_def remove_names_def split: option.splits)

lemma remove_names_effect:
  assumes "wf_disk d" "\<And>q. q \<noteq> [] \<Longrightarrow> P (butlast q) \<Longrightarrow> butlast q \<noteq> [] \<Longrightarrow> node_at d q \<noteq> None \<Longrightarrow> P q"
  shows "wf_disk (remove_names P d)" "file_at (remove_names P d) q = (if P q then None else file_at d q)"
proof -
  note nodes = remove_names_node [OF assms(1)]
  show "wf_disk (remove_names P d)"
  proof (rule wf_diskI)
    show "bt_wf (dk_names (remove_names P d))" using wf_diskD(1) [OF assms(1)] by (simp add: remove_names_def)
    show "i < dk_next (remove_names P d) \<and> bt_get (dk_inodes (remove_names P d)) i \<noteq> None"
      if "node_at (remove_names P d) p = Some (NFile i)" for p i
      using that wf_diskD [OF assms(1)] unfolding nodes by (simp add: remove_names_def split: if_splits)
    show "node_at (remove_names P d) (butlast p) = Some NDir" if "p \<noteq> []" "node_at (remove_names P d) p = Some n" for p n
      using that wf_parent [OF assms(1)] assms(2) [of p] by (auto simp: nodes split: if_splits)
  qed
  show "file_at (remove_names P d) q = (if P q then None else file_at d q)"
    by (cases "q = []") (simp_all add: file_at_def nodes, simp add: remove_names_def)
qed

end
