(* ===== verification/Collection_Root.thy ===== *)
theory Collection_Root
  imports Disk Rust_Text
begin

text \<open>
  The file operations of a held collection directory (\<open>collection_root.rs\<close>, on a Unix platform):
  every path is resolved component by component without following links, files are published
  through a private temporary name, and regular files with a second hard link are refused.
\<close>

section \<open>Directories\<close>

definition split_parent :: "path \<Rightarrow> (io_error, path \<times> string) prog" where
  "split_parent p = (if p = [] then pr_fail InvalidInput else pr_return (butlast p, last p))"

fun open_components :: "path \<Rightarrow> string list \<Rightarrow> (io_error, path) prog" where
  "open_components dir [] = pr_return dir"
| "open_components dir (part # parts) =
     pr_bind (sys_open_dir (dir @ [part])) (\<lambda>next. open_components next parts)"

definition open_dir :: "path \<Rightarrow> (io_error, path) prog" where
  "open_dir relative = pr_bind sys_clone (\<lambda>_. open_components [] relative)"

text \<open>\<open>create_dir_all\<close> waits for a created directory to become visible, in up to 21 attempts.\<close>

fun open_created :: "nat \<Rightarrow> path \<Rightarrow> (io_error, path) prog" where
  "open_created attempts p =
     pr_bind (pr_attempt (sys_open_dir p)) (\<lambda>opened.
     case opened of
       Inr dir \<Rightarrow> pr_return dir
     | Inl e \<Rightarrow>
         (case attempts of
            Suc n \<Rightarrow> if e = NotFound then open_created n p else pr_fail e
          | 0 \<Rightarrow> pr_fail e))"

definition create_component :: "path \<Rightarrow> (io_error, path) prog" where
  "create_component p =
     pr_bind (pr_attempt (sys_open_dir p)) (\<lambda>opened.
     case opened of
       Inr dir \<Rightarrow> pr_return dir
     | Inl e \<Rightarrow>
         if e \<noteq> NotFound then pr_fail e
         else
           pr_bind (pr_attempt (sys_mkdir p)) (\<lambda>made.
           case made of
             Inl e \<Rightarrow> if e = AlreadyExists then open_created 20 p else pr_fail e
           | Inr _ \<Rightarrow> open_created 20 p))"

fun create_components :: "path \<Rightarrow> string list \<Rightarrow> (io_error, path) prog" where
  "create_components dir [] = pr_return dir"
| "create_components dir (part # parts) =
     pr_bind (create_component (dir @ [part])) (\<lambda>next. create_components next parts)"

definition create_dir_all :: "path \<Rightarrow> (io_error, path) prog" where
  "create_dir_all relative = pr_bind sys_clone (\<lambda>_. create_components [] relative)"

definition sync_directory :: "(io_error, unit) prog" where
  "sync_directory = pr_bind sys_clone (\<lambda>_. sys_sync)"

definition root_sync_dir :: "path \<Rightarrow> (io_error, unit) prog" where
  "root_sync_dir relative = pr_bind (open_dir relative) (\<lambda>_. sync_directory)"

fun check_directories :: "path \<Rightarrow> (string \<times> node) list \<Rightarrow> (io_error, path list) prog" where
  "check_directories relative [] = pr_return []"
| "check_directories relative ((name, node) # entries) =
     (if node = NDir then
        pr_bind (sys_open_dir (relative @ [name])) (\<lambda>_.
        pr_bind (check_directories relative entries) (\<lambda>rest. pr_return ((relative @ [name]) # rest)))
      else check_directories relative entries)"

definition child_directories :: "path \<Rightarrow> (io_error, path list) prog" where
  "child_directories relative =
     pr_bind (pr_attempt (open_dir relative)) (\<lambda>opened.
     case opened of
       Inl e \<Rightarrow> if e = NotFound then pr_return [] else pr_fail e
     | Inr dir \<Rightarrow>
         pr_bind (sys_entries dir) (\<lambda>entries.
         pr_bind (check_directories relative entries) (\<lambda>result. pr_return (sort result))))"

definition root_remove_dir_all :: "path \<Rightarrow> (io_error, unit) prog" where
  "root_remove_dir_all relative =
     pr_bind (split_parent relative) (\<lambda>(parent, leaf).
     pr_bind (open_dir parent) (\<lambda>dir. sys_remove_tree (dir @ [leaf])))"

section \<open>Reading\<close>

definition root_open_file :: "path \<Rightarrow> (io_error, handle) prog" where
  "root_open_file relative =
     pr_bind (split_parent relative) (\<lambda>(parent, leaf).
     pr_bind (open_dir parent) (\<lambda>dir.
     pr_bind (sys_open (dir @ [leaf])) (\<lambda>file.
     pr_bind (sys_metadata file) (\<lambda>metadata.
     if \<not> md_is_file metadata \<or> 1 < md_links metadata then pr_fail PermissionDenied
     else pr_return file))))"

definition root_read :: "path \<Rightarrow> (io_error, bytes) prog" where
  "root_read relative = pr_bind (root_open_file relative) sys_read"

section \<open>Publishing and removing\<close>

definition is_ok_prog :: "('e, 'a) prog \<Rightarrow> ('f, bool) prog" where
  "is_ok_prog m = pr_bind (pr_attempt m) (\<lambda>r. pr_return (case r of Inl _ \<Rightarrow> False | Inr _ \<Rightarrow> True))"

fun exists_within :: "nat \<Rightarrow> path \<Rightarrow> ('e, bool) prog" where
  "exists_within attempts p =
     pr_bind (is_ok_prog (sys_lstat p)) (\<lambda>exists.
     if exists then pr_return True
     else (case attempts of Suc n \<Rightarrow> exists_within n p | 0 \<Rightarrow> pr_return False))"

definition check_replaceable :: "path \<Rightarrow> (io_error, unit) prog" where
  "check_replaceable target =
     pr_bind (pr_attempt (sys_open target)) (\<lambda>opened.
     case opened of
       Inl e \<Rightarrow> if e = NotFound then pr_return () else pr_fail e
     | Inr file \<Rightarrow>
         pr_bind (sys_metadata file) (\<lambda>metadata.
         if \<not> md_is_file metadata \<or> 1 < md_links metadata then pr_fail PermissionDenied
         else
           pr_bind (sys_metadata file) (\<lambda>metadata.
           if md_readonly metadata then pr_fail PermissionDenied else pr_return ())))"

definition check_target :: "bool \<Rightarrow> path \<Rightarrow> (io_error, unit) prog" where
  "check_target create_only target =
     (if create_only then
        pr_bind (is_ok_prog (sys_lstat target)) (\<lambda>exists.
        if exists then pr_fail AlreadyExists else pr_return ())
      else check_replaceable target)"

text \<open>Failures of the removal of the temporary name are ignored.\<close>

definition discard :: "path \<Rightarrow> ('e, unit) prog" where
  "discard temp = pr_bind (pr_attempt (sys_unlink temp :: (io_error, unit) prog)) (\<lambda>_. pr_return ())"

definition failing_discard :: "path \<Rightarrow> (io_error, unit) prog \<Rightarrow> (io_error, unit) prog" where
  "failing_discard temp m =
     pr_bind (pr_attempt m) (\<lambda>r.
     case r of Inr _ \<Rightarrow> pr_return () | Inl e \<Rightarrow> pr_bind (discard temp) (\<lambda>_. pr_fail e))"

text \<open>
  With \<open>create_only\<close> the temporary file is linked to its final name, which does not replace a file
  that another program created, and then loses its temporary name; otherwise it is renamed.
\<close>

definition publish_link :: "path \<Rightarrow> path \<Rightarrow> (io_error, unit) prog" where
  "publish_link temp target =
     pr_bind (pr_attempt (sys_hard_link temp target)) (\<lambda>linked.
     case linked of
       Inr _ \<Rightarrow> sys_unlink temp
     | Inl e \<Rightarrow>
         pr_bind (exists_within 20 target) (\<lambda>conflict.
         pr_fail (if conflict then AlreadyExists else e)))"

definition temp_name :: "string \<Rightarrow> string" where
  "temp_name uuid = ''.mdbase-publish-'' @ uuid"

definition atomic_publish :: "path \<Rightarrow> bytes \<Rightarrow> bool \<Rightarrow> (io_error, unit) prog" where
  "atomic_publish relative bytes create_only =
     pr_bind (split_parent relative) (\<lambda>(parent, leaf).
     pr_bind (create_dir_all parent) (\<lambda>dir.
     pr_bind (check_target create_only (dir @ [leaf])) (\<lambda>_.
     pr_bind pr_uuid (\<lambda>uuid.
     let temp = dir @ [temp_name uuid] in
     pr_bind (sys_create_new temp) (\<lambda>file.
     pr_bind (failing_discard temp (pr_bind (sys_write_all file bytes) (\<lambda>_. sys_sync))) (\<lambda>_.
     pr_bind (failing_discard temp
       (if create_only then publish_link temp (dir @ [leaf]) else sys_rename temp (dir @ [leaf]))) (\<lambda>_.
     sync_directory)))))))"

definition atomic_create :: "path \<Rightarrow> bytes \<Rightarrow> (io_error, unit) prog" where
  "atomic_create relative bytes = atomic_publish relative bytes True"

definition atomic_write :: "path \<Rightarrow> bytes \<Rightarrow> (io_error, unit) prog" where
  "atomic_write relative bytes = atomic_publish relative bytes False"

definition root_remove_file :: "path \<Rightarrow> (io_error, unit) prog" where
  "root_remove_file relative =
     pr_bind (split_parent relative) (\<lambda>(parent, leaf).
     pr_bind (open_dir parent) (\<lambda>dir.
     pr_bind (sys_open (dir @ [leaf])) (\<lambda>file.
     pr_bind (sys_metadata file) (\<lambda>metadata.
     if \<not> md_is_file metadata \<or> 1 < md_links metadata then pr_fail PermissionDenied
     else pr_bind (sys_unlink (dir @ [leaf])) (\<lambda>_. sync_directory)))))"

definition write_new_synced :: "path \<Rightarrow> bytes \<Rightarrow> (io_error, unit) prog" where
  "write_new_synced relative bytes =
     pr_bind (split_parent relative) (\<lambda>(parent, leaf).
     pr_bind (create_dir_all parent) (\<lambda>dir.
     pr_bind (sys_create_new (dir @ [leaf])) (\<lambda>file.
     pr_bind (sys_write_all file bytes) (\<lambda>_. sys_sync))))"

text \<open>The lock file is opened or created, in up to 21 attempts when its directory disappears.\<close>

definition sys_open_or_create :: "path \<Rightarrow> (io_error, handle) prog" where
  "sys_open_or_create p =
     pr_bind (pr_attempt (sys_open p)) (\<lambda>opened.
     case opened of
       Inr file \<Rightarrow> pr_return file
     | Inl e \<Rightarrow> if e = NotFound then sys_create_new p else pr_fail e)"

fun lock_attempts :: "nat \<Rightarrow> path \<Rightarrow> string \<Rightarrow> (io_error, handle) prog" where
  "lock_attempts attempts parent leaf =
     pr_bind (pr_attempt (pr_bind (create_dir_all parent) (\<lambda>dir. sys_open_or_create (dir @ [leaf])))) (\<lambda>opened.
     case opened of
       Inr file \<Rightarrow> pr_return file
     | Inl e \<Rightarrow>
         (case attempts of
            Suc n \<Rightarrow> if e = NotFound then lock_attempts n parent leaf else pr_fail e
          | 0 \<Rightarrow> pr_fail e))"

definition open_lock_file :: "path \<Rightarrow> (io_error, handle) prog" where
  "open_lock_file relative =
     pr_bind (split_parent relative) (\<lambda>(parent, leaf).
     pr_bind (lock_attempts 20 parent leaf) (\<lambda>file.
     pr_bind (sys_metadata file) (\<lambda>metadata.
     if \<not> md_is_file metadata \<or> 1 < md_links metadata then pr_fail PermissionDenied
     else pr_return file)))"

end
