(* ===== verification/Root_Triples.thy ===== *)
theory Root_Triples
  imports Collection_Root
begin

text \<open>
  What the file operations of a collection root do to the files of a disk, when any call may be
  refused and the process may be killed at any call: reads find what is there, a publication leaves
  the file as it was or as it should be, and nothing else changes but private temporary names.
\<close>

section \<open>Views of a disk\<close>

definition is_temp :: "path \<Rightarrow> bool" where
  "is_temp p \<longleftrightarrow> p \<noteq> [] \<and> starts_with (last p) ''.mdbase-publish-''"

text \<open>
  \<open>view D F d\<close>: the disk is well formed, the files apart from temporary ones are those of \<open>F\<close>, and
  every directory satisfies \<open>D\<close>.
\<close>

definition view :: "(path \<Rightarrow> bool) \<Rightarrow> (path \<Rightarrow> bytes option) \<Rightarrow> disk \<Rightarrow> bool" where
  "view D F d \<longleftrightarrow> wf_disk d \<and> (\<forall>q. \<not> is_temp q \<longrightarrow> file_at d q = F q) \<and> (\<forall>q. node_at d q = Some NDir \<longrightarrow> D q)"

definition put :: "path \<Rightarrow> bytes option \<Rightarrow> (path \<Rightarrow> bytes option) \<Rightarrow> path \<Rightarrow> bytes option" where
  "put p b F = (if is_temp p then F else F(p := b))"

text \<open>A file that this program has just created: its only name is \<open>p\<close>.\<close>

definition own_file :: "(path \<Rightarrow> bool) \<Rightarrow> (path \<Rightarrow> bytes option) \<Rightarrow> path \<Rightarrow> nat \<Rightarrow> bytes \<Rightarrow> disk \<Rightarrow> bool" where
  "own_file D F p i b d \<longleftrightarrow> view D (put p (Some b) F) d \<and> node_at d p = Some (NFile i)
     \<and> (\<forall>q. node_at d q = Some (NFile i) \<longrightarrow> q = p) \<and> file_at d p = Some b"

lemma view_wf: "view D F d \<Longrightarrow> wf_disk d"
  by (simp add: view_def)

lemma view_file: "view D F d \<Longrightarrow> \<not> is_temp q \<Longrightarrow> file_at d q = F q"
  by (simp add: view_def)

lemma view_dir: "view D F d \<Longrightarrow> node_at d q = Some NDir \<Longrightarrow> D q"
  by (simp add: view_def)

lemma viewI:
  "wf_disk d \<Longrightarrow> (\<And>q. \<not> is_temp q \<Longrightarrow> file_at d q = F q) \<Longrightarrow> (\<And>q. node_at d q = Some NDir \<Longrightarrow> D q) \<Longrightarrow> view D F d"
  by (simp add: view_def)

text \<open>One file of a viewed disk changes.\<close>

lemma view_put:
  assumes "view D F d" "wf_disk d'" "file_at d' = (file_at d)(p := b)"
    and "\<And>q. node_at d' q = Some NDir \<Longrightarrow> node_at d q = Some NDir"
  shows "view D (put p b F) d'"
proof (rule viewI)
  show "file_at d' q = put p b F q" if "\<not> is_temp q" for q
    using that by (cases "q = p") (simp_all add: assms(3) put_def view_file [OF assms(1)])
qed (use assms(2,4) view_dir [OF assms(1)] in auto)

lemma own_fileI:
  "view D (put p (Some b) F) d \<Longrightarrow> node_at d p = Some (NFile i) \<Longrightarrow> (\<And>q. node_at d q = Some (NFile i) \<Longrightarrow> q = p)
     \<Longrightarrow> file_at d p = Some b \<Longrightarrow> own_file D F p i b d"
  unfolding own_file_def by blast

lemma own_file_view: "own_file D F p i b d \<Longrightarrow> view D (put p (Some b) F) d"
  by (simp add: own_file_def)

section \<open>Calls that do not change the disk\<close>

lemma triple_stable:
  assumes "\<And>d x d'. work d = Inr (x, d') \<Longrightarrow> d' = d"
  shows "triple honest P (syscall work (\<lambda>_ d. d)) (\<lambda>_. P) (\<lambda>_. P) P"
  using assms by (intro triple_syscall) auto

lemma stable_calls:
  "triple honest P sys_clone (\<lambda>_. P) (\<lambda>_. P) P"
  "triple honest P (sys_open_dir p) (\<lambda>_. P) (\<lambda>_. P) P"
  "triple honest P (sys_open p) (\<lambda>_. P) (\<lambda>_. P) P"
  "triple honest P (sys_lstat p) (\<lambda>_. P) (\<lambda>_. P) P"
  "triple honest P (sys_metadata fl) (\<lambda>_. P) (\<lambda>_. P) P"
  "triple honest P (sys_read fl) (\<lambda>_. P) (\<lambda>_. P) P"
  "triple honest P sys_sync (\<lambda>_. P) (\<lambda>_. P) P"
  "triple honest P (sys_entries p) (\<lambda>_. P) (\<lambda>_. P) P"
  unfolding sys_clone_def sys_open_dir_def sys_open_def sys_lstat_def sys_metadata_def sys_read_def
    sys_sync_def sys_entries_def
  by (rule triple_stable; auto split: option.splits node.splits handle.splits)+

lemma stable_bind:
  assumes "triple honest P m (\<lambda>_. P) (\<lambda>_. P) P" "\<And>x. triple honest P (f x) (\<lambda>_. P) (\<lambda>_. P) P"
  shows "triple honest P (pr_bind m f) (\<lambda>_. P) (\<lambda>_. P) P"
  using assms by (rule triple_bind)

lemma stable_attempt:
  "triple honest P m (\<lambda>_. P) (\<lambda>_. P) P \<Longrightarrow> triple honest P (pr_attempt m) (\<lambda>_. P) (\<lambda>_. P) P"
  by (rule triple_attempt)

lemma stable_basic:
  "triple honest P (pr_return x) (\<lambda>_. P) (\<lambda>_. P) P" "triple honest P (pr_fail e) (\<lambda>_. P) (\<lambda>_. P) P"
  "triple honest P pr_uuid (\<lambda>_. P) (\<lambda>_. P) P" "triple honest P pr_mtime (\<lambda>_. P) (\<lambda>_. P) P"
  by (simp_all add: triple_return triple_fail triple_uuid triple_mtime)

lemma stable_map_err:
  "triple honest P m (\<lambda>_. P) (\<lambda>_. P) P \<Longrightarrow> triple honest P (pr_map_err f m) (\<lambda>_. P) (\<lambda>_. P) P"
  by (rule triple_map_err)

lemma stable_open_components: "triple honest P (open_components dir parts) (\<lambda>_. P) (\<lambda>_. P) P"
  by (induction parts arbitrary: dir) (auto intro!: stable_bind stable_calls stable_basic)

lemma stable_open_dir: "triple honest P (open_dir p) (\<lambda>_. P) (\<lambda>_. P) P"
  unfolding open_dir_def by (intro stable_bind stable_calls stable_open_components)

lemma stable_split_parent: "triple honest P (split_parent p) (\<lambda>_. P) (\<lambda>_. P) P"
  by (simp add: split_parent_def stable_basic)

lemma stable_sync_directory: "triple honest P sync_directory (\<lambda>_. P) (\<lambda>_. P) P"
  unfolding sync_directory_def by (intro stable_bind stable_calls)

lemma stable_root_sync_dir: "triple honest P (root_sync_dir p) (\<lambda>_. P) (\<lambda>_. P) P"
  unfolding root_sync_dir_def by (intro stable_bind stable_open_dir stable_sync_directory)

lemma stable_root_open_file: "triple honest P (root_open_file p) (\<lambda>_. P) (\<lambda>_. P) P"
  unfolding root_open_file_def
  by (auto intro!: stable_bind stable_calls stable_basic stable_open_dir stable_split_parent)

lemma stable_is_ok_prog:
  "triple honest P m (\<lambda>_. P) (\<lambda>_. P) P \<Longrightarrow> triple honest P (is_ok_prog m) (\<lambda>_. P) (\<lambda>_. P) P"
  unfolding is_ok_prog_def by (intro stable_bind stable_attempt stable_basic)

lemma stable_exists_within: "triple honest P (exists_within n p) (\<lambda>_. P) (\<lambda>_. P) P"
  by (induction n)
     (subst exists_within.simps; auto intro!: stable_bind stable_is_ok_prog stable_calls stable_basic)+

lemma stable_check_target: "triple honest P (check_target create_only p) (\<lambda>_. P) (\<lambda>_. P) P"
  unfolding check_target_def check_replaceable_def
  by (auto intro!: stable_bind stable_is_ok_prog stable_attempt stable_calls stable_basic split: sum.split)

lemma stable_check_directories: "triple honest P (check_directories p es) (\<lambda>_. P) (\<lambda>_. P) P"
  by (induction es rule: check_directories.induct [of "\<lambda>_ es. triple honest P (check_directories p es) (\<lambda>_. P) (\<lambda>_. P) P"])
     (auto intro!: stable_bind stable_calls stable_basic)

lemma stable_child_directories: "triple honest P (child_directories p) (\<lambda>_. P) (\<lambda>_. P) P"
  unfolding child_directories_def
  by (auto intro!: stable_bind stable_attempt stable_calls stable_basic stable_open_dir stable_check_directories split: sum.split)

lemmas stable = stable_bind stable_attempt stable_basic stable_map_err stable_calls stable_open_dir
  stable_split_parent stable_sync_directory stable_root_sync_dir stable_root_open_file stable_is_ok_prog
  stable_exists_within stable_check_target stable_child_directories

declare exists_within.simps [simp del] open_created.simps [simp del] lock_attempts.simps [simp del]

section \<open>Reading\<close>

lemma missing_below:
  assumes "wf_disk d" "node_at d p = None"
  shows "file_at d (p @ rest) = None"
proof (cases "rest = []")
  case False
  then have "node_at d (p @ rest) = None" using wf_prefix [OF assms(1), of p rest] assms(2) by (metis option.distinct(1))
  then show ?thesis by (simp add: file_at_def)
qed (use assms in \<open>simp add: file_at_def\<close>)

lemma read_open_components:
  assumes "wf_disk d"
  shows "triple honest (\<lambda>e. e = d) (open_components dir parts) (\<lambda>r e. e = d \<and> r = dir @ parts)
    (\<lambda>x e. e = d \<and> (x = NotFound \<longrightarrow> (\<forall>rest. file_at d (dir @ parts @ rest) = None))) (\<lambda>e. e = d)"
proof (induction parts arbitrary: dir)
  case Nil
  show ?case by (simp add: triple_return)
next
  case (Cons part parts)
  have none: "node_at d (dir @ [part]) = None \<Longrightarrow> file_at d (dir @ part # parts @ rest) = None" for rest
    using missing_below [OF assms, of "dir @ [part]" "parts @ rest"] by simp
  have "triple honest (\<lambda>e. e = d) (sys_open_dir (dir @ [part])) (\<lambda>r e. e = d \<and> r = dir @ [part])
      (\<lambda>x e. e = d \<and> (x = NotFound \<longrightarrow> (\<forall>rest. file_at d (dir @ (part # parts) @ rest) = None))) (\<lambda>e. e = d)"
    unfolding sys_open_dir_def
    by (rule triple_syscall) (auto split: option.splits node.splits simp: none)
  then show ?case
    unfolding open_components.simps
    by (rule triple_bind) (rule triple_pure_snd, use Cons.IH [of "dir @ [part]"] in simp)
qed

lemma read_open_dir:
  assumes "wf_disk d"
  shows "triple honest (\<lambda>e. e = d) (open_dir p) (\<lambda>r e. e = d \<and> r = p)
    (\<lambda>x e. e = d \<and> (x = NotFound \<longrightarrow> (\<forall>rest. file_at d (p @ rest) = None))) (\<lambda>e. e = d)"
  unfolding open_dir_def
proof (rule triple_bind)
  show "triple honest (\<lambda>e. e = d) sys_clone (\<lambda>_ e. e = d)
      (\<lambda>x e. e = d \<and> (x = NotFound \<longrightarrow> (\<forall>rest. file_at d (p @ rest) = None))) (\<lambda>e. e = d)"
    unfolding sys_clone_def by (rule triple_syscall) auto
  show "triple honest (\<lambda>e. e = d) (open_components [] p) (\<lambda>r e. e = d \<and> r = p)
      (\<lambda>x e. e = d \<and> (x = NotFound \<longrightarrow> (\<forall>rest. file_at d (p @ rest) = None))) (\<lambda>e. e = d)"
    using read_open_components [OF assms, of "[]" p] by simp
qed

text \<open>Reading a file gives its contents, and a missing file is reported only when it is missing.\<close>

abbreviation found :: "disk \<Rightarrow> path \<Rightarrow> io_error \<Rightarrow> disk \<Rightarrow> bool" where
  "found d p x e \<equiv> e = d \<and> (x = NotFound \<longrightarrow> file_at d p = None)"

lemma split_parent_bind:
  "p \<noteq> [] \<Longrightarrow> pr_bind (split_parent p) f = f (butlast p, last p)" "pr_bind (split_parent []) f = pr_fail InvalidInput"
  by (simp_all add: split_parent_def)

lemma read_root_open_file:
  assumes "wf_disk d"
  shows "triple honest (\<lambda>e. e = d) (root_open_file p) (\<lambda>f e. e = d \<and> (\<exists>i. f = HFile i \<and> node_at d p = Some (NFile i)))
    (found d p) (\<lambda>e. e = d)"
proof (cases "p = []")
  case True
  then show ?thesis unfolding root_open_file_def by (simp add: split_parent_bind triple_fail)
next
  case False
  then have p: "butlast p @ [last p] = p" by simp
  have dir: "triple honest (\<lambda>e. e = d) (open_dir (butlast p)) (\<lambda>r e. e = d \<and> r = butlast p) (found d p) (\<lambda>e. e = d)"
    by (rule triple_conseq [OF read_open_dir [OF assms]]) (use p in metis)+
  have opened: "triple honest (\<lambda>e. e = d) (sys_open p)
      (\<lambda>f e. e = d \<and> (f = HDir \<or> (\<exists>i. f = HFile i \<and> node_at d p = Some (NFile i)))) (found d p) (\<lambda>e. e = d)"
    unfolding sys_open_def by (rule triple_syscall) (auto simp: file_at_def split: option.splits node.splits)
  have meta: "triple honest (\<lambda>e. e = d) (sys_metadata f) (\<lambda>m e. e = d \<and> (md_is_file m \<longrightarrow> f \<noteq> HDir)) (found d p) (\<lambda>e. e = d)" for f
    unfolding sys_metadata_def by (rule triple_syscall) (auto split: handle.splits option.splits)
  show ?thesis
    unfolding root_open_file_def split_parent_bind(1) [OF False] prod.case
  proof (rule triple_bind [OF dir], rule triple_pure_snd, simp only: p, rule triple_bind [OF opened], rule triple_pure_snd)
    fix f assume f: "f = HDir \<or> (\<exists>i. f = HFile i \<and> node_at d p = Some (NFile i))"
    show "triple honest (\<lambda>e. e = d) (pr_bind (sys_metadata f) (\<lambda>metadata.
        if \<not> md_is_file metadata \<or> 1 < md_links metadata then pr_fail PermissionDenied else pr_return f))
      (\<lambda>f e. e = d \<and> (\<exists>i. f = HFile i \<and> node_at d p = Some (NFile i))) (found d p) (\<lambda>e. e = d)"
      using f by (intro triple_bind [OF meta] triple_pure_snd) (auto intro!: triple_fail triple_return)
  qed
qed

lemma read_root_read:
  assumes "wf_disk d"
  shows "triple honest (\<lambda>e. e = d) (root_read p) (\<lambda>b e. e = d \<and> file_at d p = Some b) (found d p) (\<lambda>e. e = d)"
  unfolding root_read_def
proof (rule triple_bind [OF read_root_open_file [OF assms]], rule triple_pure_snd, elim exE conjE)
  fix f i assume f: "f = HFile i" "node_at d p = Some (NFile i)"
  show "triple honest (\<lambda>e. e = d) (sys_read f) (\<lambda>b e. e = d \<and> file_at d p = Some b) (found d p) (\<lambda>e. e = d)"
    unfolding sys_read_def f(1) by (rule triple_syscall) (use f(2) in \<open>auto simp: file_at_def split: option.splits\<close>)
qed

lemma view_root_read:
  assumes "\<not> is_temp p"
  shows "triple honest (view D F) (root_read p) (\<lambda>b d. F p = Some b \<and> view D F d)
    (\<lambda>x d. (x = NotFound \<longrightarrow> F p = None) \<and> view D F d) (view D F)"
proof (rule triple_each)
  fix d assume d: "view D F d"
  show "triple honest (\<lambda>e. e = d) (root_read p) (\<lambda>b d. F p = Some b \<and> view D F d)
      (\<lambda>x d. (x = NotFound \<longrightarrow> F p = None) \<and> view D F d) (view D F)"
    by (rule triple_conseq [OF read_root_read [OF view_wf [OF d]]]) (use d view_file [OF d assms] in auto)
qed

section \<open>Creating and removing names\<close>

lemma view_mkdir:
  assumes "D p"
  shows "triple honest (view D F) (sys_mkdir p) (\<lambda>_. view D F) (\<lambda>_. view D F) (view D F)"
  unfolding sys_mkdir_def
proof (rule triple_syscall)
  fix d x d' assume d: "view D F d" and "add_name p d (Inr ((), d\<lparr>dk_names := bt_insert p NDir (dk_names d)\<rparr>)) = Inr (x, d')"
  then have p: "p \<noteq> []" "node_at d (butlast p) = Some NDir" "node_at d p = None" "d' = set_name p NDir d"
    by (auto simp: add_name_Inr set_name_def)
  show "view D F d'"
    using d mkdir_effect [OF view_wf [OF d] p(1-3)] assms by (auto simp: view_def p(4) node_at_set_name [OF p(1)])
qed

lemma attempt_open_dir: "triple honest P (pr_attempt (sys_open_dir p)) (\<lambda>r d. (\<forall>q. r = Inr q \<longrightarrow> q = p) \<and> P d) E P"
proof (rule triple_attempt)
  show "triple honest P (sys_open_dir p) (\<lambda>x d. (\<forall>q. Inr x = Inr q \<longrightarrow> q = p) \<and> P d)
      (\<lambda>e d. (\<forall>q. Inl e = Inr q \<longrightarrow> q = p) \<and> P d) P"
    unfolding sys_open_dir_def by (rule triple_syscall) (auto split: option.splits node.splits)
qed

lemma view_open_created: "triple honest P (open_created n p) (\<lambda>r d. r = p \<and> P d) (\<lambda>_. P) P"
proof (induction n)
  case 0
  show ?case
    by (subst open_created.simps, rule triple_bind [OF attempt_open_dir], rule triple_pure)
       (auto intro!: triple_return triple_fail split: sum.split)
next
  case (Suc n)
  show ?case
    by (subst open_created.simps, rule triple_bind [OF attempt_open_dir], rule triple_pure)
       (auto intro!: triple_return triple_fail Suc.IH split: sum.split)
qed

lemma view_create_component:
  assumes "D p"
  shows "triple honest (view D F) (create_component p) (\<lambda>r d. r = p \<and> view D F d) (\<lambda>_. view D F) (view D F)"
proof -
  have "triple honest (view D F) (pr_attempt (sys_mkdir p)) (\<lambda>_. view D F) (\<lambda>_. view D F) (view D F)"
    by (rule triple_attempt) (rule view_mkdir [of D p F, OF assms])
  then have made: "triple honest (view D F) (pr_bind (pr_attempt (sys_mkdir p)) (\<lambda>made.
        case made of Inl e \<Rightarrow> if e = AlreadyExists then open_created 20 p else pr_fail e | Inr _ \<Rightarrow> open_created 20 p))
      (\<lambda>r d. r = p \<and> view D F d) (\<lambda>_. view D F) (view D F)"
    by (rule triple_bind) (auto intro!: triple_fail view_open_created split: sum.split)
  show ?thesis
    unfolding create_component_def
    by (rule triple_bind [OF attempt_open_dir], rule triple_pure)
       (use made in \<open>auto intro!: triple_return triple_fail split: sum.split\<close>)
qed

lemma view_create_components:
  assumes "\<And>n. D (dir @ take n parts)"
  shows "triple honest (view D F) (create_components dir parts) (\<lambda>r d. r = dir @ parts \<and> view D F d) (\<lambda>_. view D F) (view D F)"
  using assms
proof (induction parts arbitrary: dir)
  case (Cons part parts)
  have here: "D (dir @ [part])" using Cons.prems [of 1] by simp
  have rest: "D ((dir @ [part]) @ take n parts)" for n using Cons.prems [of "Suc n"] by simp
  show ?case
    unfolding create_components.simps
    by (rule triple_bind [OF view_create_component [of D "dir @ [part]" F, OF here]], rule triple_pure) (use Cons.IH [OF rest] in simp)
qed (simp add: triple_return)

lemma view_create_dir_all:
  assumes "\<And>n. D (take n p)"
  shows "triple honest (view D F) (create_dir_all p) (\<lambda>r d. r = p \<and> view D F d) (\<lambda>_. view D F) (view D F)"
  unfolding create_dir_all_def
  by (rule triple_bind [OF stable_calls(1)]) (use view_create_components [of D "[]" p F] assms in simp)

lemma view_create_new:
  "triple honest (view D F) (sys_create_new p) (\<lambda>f d. \<exists>i. f = HFile i \<and> own_file D F p i [] d) (\<lambda>_. view D F) (view D F)"
  unfolding sys_create_new_def
proof (rule triple_syscall)
  fix d x d' assume d: "view D F d" and "add_name p d (Inr (HFile (dk_next d), new_file p d)) = Inr (x, d')"
  then have p: "p \<noteq> []" "node_at d (butlast p) = Some NDir" "node_at d p = None" "d' = new_file p d" "x = HFile (dk_next d)"
    by (auto simp: add_name_Inr)
  note effect = new_file_effect [OF view_wf [OF d] p(1-3)]
  have "view D (put p (Some []) F) d'"
    unfolding p(4) by (rule view_put [OF d effect(1,2)]) (simp add: effect(3) split: if_splits)
  then have "own_file D F p (dk_next d) [] d'"
    unfolding p(4)
  proof (rule own_fileI)
    show "node_at (new_file p d) p = Some (NFile (dk_next d))" "file_at (new_file p d) p = Some []"
      by (simp_all add: effect(2,3))
  qed (rule effect(4))
  then show "\<exists>i. x = HFile i \<and> own_file D F p i [] d'" using p(5) by blast
qed

lemma own_append:
  assumes "own_file D F p i b d"
  shows "own_file D F p i (b @ bs) (append_bytes i bs d)"
proof -
  from assms have o: "view D (put p (Some b) F) d" "node_at d p = Some (NFile i)"
    "\<And>q. node_at d q = Some (NFile i) \<Longrightarrow> q = p" "file_at d p = Some b"
    by (auto simp: own_file_def)
  note effect = append_bytes_effect [OF view_wf [OF o(1)] o(2,3)]
  have "view D (put p (Some (b @ bs)) (put p (Some b) F)) (append_bytes i bs d)"
    by (rule view_put [OF o(1) effect(1)]) (simp_all add: effect(2,3) o(4))
  then have "view D (put p (Some (b @ bs)) F) (append_bytes i bs d)" by (simp add: put_def split: if_splits)
  then show ?thesis
  proof (rule own_fileI)
    show "file_at (append_bytes i bs d) p = Some (b @ bs)" by (simp add: effect(2) o(4))
    show "node_at (append_bytes i bs d) p = Some (NFile i)" by (simp add: effect(3) o(2))
    show "q = p" if "node_at (append_bytes i bs d) q = Some (NFile i)" for q
      by (rule o(3)) (use that in \<open>simp only: effect(3)\<close>)
  qed
qed

lemma view_write_all:
  "triple honest (own_file D F p i []) (sys_write_all (HFile i) bs) (\<lambda>_. own_file D F p i bs)
    (\<lambda>_ d. \<exists>b. own_file D F p i b d) (\<lambda>d. \<exists>b. own_file D F p i b d)"
  unfolding sys_write_all_def handle.case
  by (rule triple_syscall) (auto dest: own_append)

lemma unlink_effect:
  assumes "wf_disk d" "node_at d p \<noteq> Some NDir" "p \<noteq> []"
  shows "wf_disk (d\<lparr>dk_names := bt_remove p (dk_names d)\<rparr>)"
    "node_at (d\<lparr>dk_names := bt_remove p (dk_names d)\<rparr>) = (node_at d)(p := None)"
    "file_at (d\<lparr>dk_names := bt_remove p (dk_names d)\<rparr>) = (file_at d)(p := None)"
proof -
  let ?d = "d\<lparr>dk_names := bt_remove p (dk_names d)\<rparr>"
  show nodes: "node_at ?d = (node_at d)(p := None)" using assms(3) by (simp add: fun_eq_iff node_at_def)
  show "wf_disk ?d"
    using wf_diskD [OF assms(1)] wf_parent [OF assms(1)] not_parent_of_name [OF assms(1,2)]
    by (intro wf_diskI) (auto simp: nodes split: if_splits)
  show "file_at ?d = (file_at d)(p := None)" by (simp add: fun_eq_iff file_at_def nodes)
qed

lemma view_unlink:
  "triple honest (view D F) (sys_unlink p) (\<lambda>_. view D (put p None F)) (\<lambda>_. view D F) (view D F)"
  unfolding sys_unlink_def
proof (rule triple_syscall)
  fix d x d' assume d: "view D F d" and r: "(case node_at d p of None \<Rightarrow> Inl NotFound | Some NDir \<Rightarrow> Inl OtherIo
      | Some _ \<Rightarrow> Inr ((), d\<lparr>dk_names := bt_remove p (dk_names d)\<rparr>)) = Inr (x, d')"
  then have p: "node_at d p \<noteq> Some NDir" "p \<noteq> []" "d' = d\<lparr>dk_names := bt_remove p (dk_names d)\<rparr>"
    by (auto split: option.splits node.splits)
  note effect = unlink_effect [OF view_wf [OF d] p(1,2)]
  show "view D (put p None F) d'"
    unfolding p(3) by (rule view_put [OF d effect(1,3)]) (simp add: effect(2) split: if_splits)
qed

lemma view_discard:
  assumes "is_temp p"
  shows "triple honest (view D F) (discard p) (\<lambda>_. view D F) E (view D F)"
proof -
  have "triple honest (view D F) (sys_unlink p) (\<lambda>_. view D F) (\<lambda>_. view D F) (view D F)"
    using view_unlink [of D F p] assms by (simp add: put_def)
  then show ?thesis
    unfolding discard_def by (intro triple_bind [OF triple_attempt]) (auto intro: triple_return)
qed

section \<open>Publishing\<close>

lemma triple_or_left: "triple R P m Q (\<lambda>_. C) C \<Longrightarrow> triple R P m Q (\<lambda>_ d. C d \<or> C' d) (\<lambda>d. C d \<or> C' d)"
  by (erule triple_conseq) auto

lemma triple_or_right: "triple R P m Q (\<lambda>_. C') C' \<Longrightarrow> triple R P m Q (\<lambda>_ d. C d \<or> C' d) (\<lambda>d. C d \<or> C' d)"
  by (erule triple_conseq) auto

text \<open>The new contents get their name, and the temporary name goes.\<close>

lemma own_temp_view: "own_file D F t i b d \<Longrightarrow> is_temp t \<Longrightarrow> view D F d"
  by (simp add: own_file_def put_def)

lemma view_hard_link:
  assumes "is_temp t"
  shows "triple honest (own_file D F t i b) (sys_hard_link t p) (\<lambda>_. view D (put p (Some b) F)) (\<lambda>_. view D F) (view D F)"
  unfolding sys_hard_link_def
proof (rule triple_syscall)
  fix d x d' assume o: "own_file D F t i b d" and r: "(case node_at d t of None \<Rightarrow> Inl NotFound
      | Some (NFile i) \<Rightarrow> add_name p d (Inr ((), d\<lparr>dk_names := bt_insert p (NFile i) (dk_names d)\<rparr>))
      | Some _ \<Rightarrow> Inl OtherIo) = Inr (x, d')"
  have t: "node_at d t = Some (NFile i)" "file_at d t = Some b" using o by (auto simp: own_file_def)
  from r t have p: "p \<noteq> []" "node_at d (butlast p) = Some NDir" "node_at d p = None" "d' = set_name p (NFile i) d"
    by (auto simp: add_name_Inr set_name_def)
  note d = own_temp_view [OF o assms]
  note effect = hard_link_effect [OF view_wf [OF d] p(1-3) t(1)]
  show "view D (put p (Some b) F) d'"
    unfolding p(4) by (rule view_put [OF d effect(1)]) (simp_all add: effect(2) t(2) node_at_set_name [OF p(1)] split: if_splits)
qed (use own_temp_view [OF _ assms] in blast)+

lemma view_rename:
  assumes t: "is_temp t" and q: "\<not> is_temp q" "q \<noteq> []"
  shows "triple honest (own_file D F t i b) (sys_rename t q) (\<lambda>_. view D (put q (Some b) F)) (\<lambda>_. view D F) (view D F)"
  unfolding sys_rename_def
proof (rule triple_syscall)
  fix d x d' assume o: "own_file D F t i b d" and r: "(case node_at d t of
        Some (NFile i) \<Rightarrow>
          if node_at d (butlast q) \<noteq> Some NDir then Inl NotFound
          else if node_at d q = Some NDir then Inl OtherIo
          else Inr ((), d\<lparr>dk_names := bt_insert q (NFile i) (bt_remove t (dk_names d))\<rparr>)
      | None \<Rightarrow> Inl NotFound | Some _ \<Rightarrow> Inl OtherIo) = Inr (x, d')"
  have at: "node_at d t = Some (NFile i)" "file_at d t = Some b" using o by (auto simp: own_file_def)
  let ?e = "d\<lparr>dk_names := bt_remove t (dk_names d)\<rparr>"
  from r at have p: "node_at d (butlast q) = Some NDir" "node_at d q \<noteq> Some NDir" "d' = set_name q (NFile i) ?e"
    by (auto simp: set_name_def split: if_splits)
  note d = own_temp_view [OF o t]
  have nt: "t \<noteq> []" "t \<noteq> q" using t q by (auto simp: is_temp_def)
  have u: "wf_disk ?e" "node_at ?e = (node_at d)(t := None)" "file_at ?e = (file_at d)(t := None)"
    using unlink_effect [OF view_wf [OF d], of t] at(1) nt(1) by simp_all
  have parent: "butlast q \<noteq> t" using p(1) at(1) by auto
  have wf: "wf_disk d'"
    unfolding p(3) by (rule wf_set_name [OF u(1) q(2)])
      (use p parent nt wf_diskD [OF view_wf [OF d]] at(1) in \<open>auto simp: u(2)\<close>)
  have files: "file_at d' = (file_at ?e)(q := Some b)"
  proof
    fix r show "file_at d' r = ((file_at ?e)(q := Some b)) r"
      using at by (cases "r = q") (simp_all add: file_at_def p(3) node_at_set_name [OF q(2)])
  qed
  have "view D (put t None F) ?e" by (rule view_put [OF d u(1,3)]) (simp add: u(2) split: if_splits)
  then have "view D F ?e" using t by (simp add: put_def)
  from this wf files show "view D (put q (Some b) F) d'"
    by (rule view_put) (simp add: p(3) node_at_set_name [OF q(2)] split: if_splits)
qed (use own_temp_view [OF _ t] in blast)+

lemma view_failing_discard:
  assumes "is_temp t" "triple honest P m (\<lambda>_. Q) (\<lambda>_ d. view D F d \<or> view D F' d) (\<lambda>d. view D F d \<or> view D F' d)"
  shows "triple honest P (failing_discard t m) (\<lambda>_. Q) (\<lambda>_ d. view D F d \<or> view D F' d) (\<lambda>d. view D F d \<or> view D F' d)"
proof -
  let ?C = "\<lambda>d. view D F d \<or> view D F' d"
  have "triple honest (view D G) (discard t) (\<lambda>_. ?C) (\<lambda>_. ?C) ?C" if "\<And>d. view D G d \<Longrightarrow> ?C d" for G
    by (rule triple_conseq [OF view_discard [OF assms(1), of D G "\<lambda>_. ?C"]]) (use that in auto)
  then have keep: "triple honest ?C (discard t) (\<lambda>_. ?C) (\<lambda>_. ?C) ?C" by (intro triple_disj) auto
  have clean: "triple honest ?C (pr_bind (discard t) (\<lambda>_. pr_fail e)) (\<lambda>_. Q) (\<lambda>_. ?C) ?C" for e
    by (rule triple_bind [OF keep]) (simp add: triple_fail)
  have "triple honest P (pr_attempt m) (\<lambda>r d. case r of Inr _ \<Rightarrow> Q d | Inl _ \<Rightarrow> ?C d) (\<lambda>_. ?C) ?C"
    by (rule triple_attempt) (use assms(2) in simp)
  then show ?thesis
    unfolding failing_discard_def by (rule triple_bind) (auto split: sum.split intro!: triple_return clean)
qed

lemma view_publish_link:
  assumes "is_temp t" "\<not> is_temp p"
  shows "triple honest (own_file D F t i b) (publish_link t p) (\<lambda>_. view D (put p (Some b) F))
    (\<lambda>_ d. view D F d \<or> view D (put p (Some b) F) d) (\<lambda>d. view D F d \<or> view D (put p (Some b) F) d)"
proof -
  let ?G = "put p (Some b) F" let ?C = "\<lambda>d. view D F d \<or> view D ?G d"
  have unlink: "triple honest (view D ?G) (sys_unlink t) (\<lambda>_. view D ?G) (\<lambda>_. ?C) ?C"
    using triple_or_right [OF view_unlink [of D ?G t], where C = "view D F"] assms(1)
    by (simp add: put_def [of t])
  have lost: "triple honest (view D F) (pr_bind (exists_within 20 p) (\<lambda>c. pr_fail (if c then AlreadyExists else e)))
      (\<lambda>_. view D ?G) (\<lambda>_. ?C) ?C" for e
    by (rule triple_bind [OF triple_or_left [OF stable_exists_within]]) (simp add: triple_fail)
  have "triple honest (own_file D F t i b) (pr_attempt (sys_hard_link t p))
      (\<lambda>r d. case r of Inr _ \<Rightarrow> view D ?G d | Inl _ \<Rightarrow> view D F d) (\<lambda>_. ?C) ?C"
    by (rule triple_attempt, rule triple_conseq [OF view_hard_link [OF assms(1)]]) auto
  then show ?thesis
    unfolding publish_link_def by (rule triple_bind) (auto split: sum.split intro!: unlink lost)
qed

text \<open>A published file has its old contents or the new ones, whatever happens.\<close>

theorem view_atomic_publish:
  assumes "\<not> is_temp p" "\<And>n. D (take n (butlast p))"
  shows "triple honest (view D F) (atomic_publish p b create_only) (\<lambda>_. view D (F(p := Some b)))
    (\<lambda>_ d. view D F d \<or> view D (F(p := Some b)) d) (\<lambda>d. view D F d \<or> view D (F(p := Some b)) d)"
proof (cases "p = []")
  case True
  then show ?thesis unfolding atomic_publish_def by (simp add: split_parent_bind triple_fail)
next
  case False
  let ?G = "F(p := Some b)" let ?C = "\<lambda>d. view D F d \<or> view D ?G d"
  have put: "put p (Some b) F = ?G" using assms(1) by (simp add: put_def)
  have p: "butlast p @ [last p] = p" using False by simp
  have temp: "is_temp (butlast p @ [temp_name u])" for u by (simp add: is_temp_def temp_name_def starts_with_iff)
  have written: "triple honest (own_file D F t i []) (failing_discard t (pr_bind (sys_write_all (HFile i) b) (\<lambda>_. sys_sync)))
      (\<lambda>_. own_file D F t i b) (\<lambda>_. ?C) ?C" if "is_temp t" for t i
  proof (rule view_failing_discard [OF that])
    have "triple honest (own_file D F t i []) (sys_write_all (HFile i) b) (\<lambda>_. own_file D F t i b) (\<lambda>_. view D F) (view D F)"
      by (rule triple_conseq [OF view_write_all]) (auto dest: own_temp_view [OF _ that])
    moreover have "triple honest (own_file D F t i b) sys_sync (\<lambda>_. own_file D F t i b) (\<lambda>_. view D F) (view D F)"
      by (rule triple_conseq [OF stable_calls(7) [of "own_file D F t i b"]]) (auto dest: own_temp_view [OF _ that])
    ultimately show "triple honest (own_file D F t i []) (pr_bind (sys_write_all (HFile i) b) (\<lambda>_. sys_sync))
        (\<lambda>_. own_file D F t i b) (\<lambda>_. ?C) ?C"
      by (intro triple_or_left triple_bind)
  qed
  have named: "triple honest (own_file D F t i b)
      (failing_discard t (if create_only then publish_link t p else sys_rename t p)) (\<lambda>_. view D ?G) (\<lambda>_. ?C) ?C"
    if "is_temp t" for t i
    using view_publish_link [OF that assms(1), of D F i b, unfolded put]
      triple_or_left [OF view_rename [OF that assms(1) False, of D F i b, unfolded put], of "view D ?G"]
    by (intro view_failing_discard [OF that]) simp
  have created: "triple honest (view D F) (sys_create_new t) (\<lambda>f d. \<exists>i. f = HFile i \<and> own_file D F t i [] d) (\<lambda>_. ?C) ?C" for t
    by (rule triple_or_left [OF view_create_new])
  show ?thesis
    unfolding atomic_publish_def split_parent_bind(1) [OF False] prod.case
  proof (rule triple_bind [OF triple_or_left [OF view_create_dir_all [of D "butlast p" F, OF assms(2)]]], rule triple_pure, simp only: p Let_def,
      rule triple_bind [OF triple_or_left [OF stable_check_target]], rule triple_bind [OF triple_or_left [OF stable_basic(3)]],
      rule triple_bind [OF created], rule triple_ex, rule triple_pure)
    fix u f i assume f: "f = HFile i"
    note t = temp [of u]
    show "triple honest (own_file D F (butlast p @ [temp_name u]) i [])
       (pr_bind (failing_discard (butlast p @ [temp_name u]) (pr_bind (sys_write_all f b) (\<lambda>_. sys_sync))) (\<lambda>_.
        pr_bind (failing_discard (butlast p @ [temp_name u])
          (if create_only then publish_link (butlast p @ [temp_name u]) p else sys_rename (butlast p @ [temp_name u]) p)) (\<lambda>_.
        sync_directory))) (\<lambda>_. view D ?G) (\<lambda>_. ?C) ?C"
      unfolding f by (rule triple_bind [OF written [OF t]], rule triple_bind [OF named [OF t]],
          rule triple_or_right, rule stable_sync_directory)
  qed
qed

section \<open>Payloads, removals and the lock file\<close>

text \<open>A new file that is written in place may be left with any contents.\<close>

lemma view_write_new_synced:
  assumes "\<not> is_temp p" "\<And>n. D (take n (butlast p))"
  shows "triple honest (view D F) (write_new_synced p b) (\<lambda>_. view D (F(p := Some b)))
    (\<lambda>_ d. \<exists>c. view D (F(p := c)) d) (\<lambda>d. \<exists>c. view D (F(p := c)) d)"
proof (cases "p = []")
  case True
  then show ?thesis
    unfolding write_new_synced_def by (auto simp: split_parent_bind intro!: triple_fail exI [of _ "F []"])
next
  case False
  let ?C = "\<lambda>d. \<exists>c. view D (F(p := c)) d"
  have start: "view D F d \<Longrightarrow> ?C d" for d by (rule exI [of _ "F p"]) simp
  have put: "put p c F = F(p := c)" for c using assms(1) by (simp add: put_def)
  have own: "own_file D F p i c d \<Longrightarrow> view D (F(p := Some c)) d" for i c d by (simp add: own_file_def put)
  have "triple honest (own_file D F p i []) (sys_write_all (HFile i) b) (\<lambda>_. view D (F(p := Some b))) (\<lambda>_. ?C) ?C" for i
    by (rule triple_conseq [OF view_write_all]) (use own in blast)+
  then have wrote: "triple honest (own_file D F p i []) (pr_bind (sys_write_all (HFile i) b) (\<lambda>_. sys_sync))
      (\<lambda>_. view D (F(p := Some b))) (\<lambda>_. ?C) ?C" for i
    by (rule triple_bind) (rule triple_conseq [OF stable_calls(7) [of "view D (F(p := Some b))"]]; blast)
  have p: "butlast p @ [last p] = p" using False by simp
  have created: "triple honest (view D F) (sys_create_new p) (\<lambda>f d. \<exists>i. f = HFile i \<and> own_file D F p i [] d) (\<lambda>_. ?C) ?C"
    by (rule triple_conseq [OF view_create_new]) (use start in auto)
  have dirs: "triple honest (view D F) (create_dir_all (butlast p)) (\<lambda>r d. r = butlast p \<and> view D F d) (\<lambda>_. ?C) ?C"
    by (rule triple_conseq [OF view_create_dir_all [of D "butlast p" F, OF assms(2)]]) (use start in auto)
  show ?thesis
    unfolding write_new_synced_def split_parent_bind(1) [OF False] prod.case
    by (rule triple_bind [OF dirs], rule triple_pure, simp only: p,
        rule triple_bind [OF created], rule triple_ex, rule triple_pure, simp only: wrote)
qed

lemma view_root_remove_file:
  assumes "\<not> is_temp p"
  shows "triple honest (view D F) (root_remove_file p) (\<lambda>_. view D (F(p := None)))
    (\<lambda>_ d. view D F d \<or> view D (F(p := None)) d) (\<lambda>d. view D F d \<or> view D (F(p := None)) d)"
proof (cases "p = []")
  case True
  then show ?thesis unfolding root_remove_file_def by (simp add: split_parent_bind triple_fail)
next
  case False
  let ?G = "F(p := None)" let ?C = "\<lambda>d. view D F d \<or> view D ?G d"
  have p: "butlast p @ [last p] = p" using False by simp
  have "triple honest (view D F) (sys_unlink p) (\<lambda>_. view D ?G) (\<lambda>_. ?C) ?C"
    using triple_or_left [OF view_unlink [of D F p], of "view D ?G"] assms by (simp add: put_def)
  then have unlink: "triple honest (view D F) (pr_bind (sys_unlink p) (\<lambda>_. sync_directory)) (\<lambda>_. view D ?G) (\<lambda>_. ?C) ?C"
    by (rule triple_bind) (rule triple_or_right [OF stable_sync_directory])
  have dir: "triple honest (view D F) (open_dir (butlast p)) (\<lambda>r d. r = butlast p \<and> view D F d) (\<lambda>_. ?C) ?C"
  proof (rule triple_each)
    fix d assume "view D F d"
    then show "triple honest (\<lambda>e. e = d) (open_dir (butlast p)) (\<lambda>r d. r = butlast p \<and> view D F d) (\<lambda>_. ?C) ?C"
      by (intro triple_conseq [OF read_open_dir [OF view_wf]]) auto
  qed
  show ?thesis
    unfolding root_remove_file_def split_parent_bind(1) [OF False] prod.case
    by (rule triple_bind [OF dir], rule triple_pure, simp only: p,
        rule triple_bind [OF triple_or_left [OF stable_calls(3)]], rule triple_bind [OF triple_or_left [OF stable_calls(5)]])
       (auto intro!: triple_fail unlink)
qed

text \<open>Removing a directory removes some of the files below it, and all of them when it succeeds.\<close>

definition pruned :: "path \<Rightarrow> (path \<Rightarrow> bytes option) \<Rightarrow> (path \<Rightarrow> bytes option) \<Rightarrow> bool" where
  "pruned p F G \<longleftrightarrow> (\<forall>q. G q = F q \<or> (below p q \<and> G q = None))"

lemma below_iff: "below p q \<longleftrightarrow> (\<exists>r. q = p @ r)"
  unfolding below_def by (metis append_eq_conv_conj append_take_drop_id)

lemma below_trans: "below p q \<Longrightarrow> below q r \<Longrightarrow> below p r"
  by (auto simp: below_iff)

lemma below_butlast: "below (butlast q) q"
  unfolding below_iff by (cases "q = []") (auto intro: exI [of _ "[last q]"])

lemma below_parent: "below p (butlast q) \<Longrightarrow> below p q"
  using below_trans below_butlast by blast

lemma below_self [simp]: "below p p"
  by (simp add: below_def)

lemma view_remove_names:
  assumes d: "view D F d" and P: "\<And>q. P q \<Longrightarrow> below p q"
    "\<And>q. q \<noteq> [] \<Longrightarrow> P (butlast q) \<Longrightarrow> butlast q \<noteq> [] \<Longrightarrow> node_at d q \<noteq> None \<Longrightarrow> P q"
  shows "view D (\<lambda>q. if P q then None else F q) (remove_names P d)"
proof (rule viewI)
  note effect = remove_names_effect [OF view_wf [OF d], of P, OF P(2)]
  show "wf_disk (remove_names P d)" by (rule effect(1))
  show "file_at (remove_names P d) q = (if P q then None else F q)" if "\<not> is_temp q" for q
    by (simp add: effect(2) view_file [OF d that])
  show "D q" if "node_at (remove_names P d) q = Some NDir" for q
    using that view_dir [OF d] by (auto simp: remove_names_node [OF view_wf [OF d]] split: if_splits)
qed

lemma view_remove_tree:
  "triple honest (view D F) (sys_remove_tree p) (\<lambda>_ d. view D (\<lambda>q. if below p q then None else F q) d)
    (\<lambda>_ d. \<exists>G. pruned p F G \<and> view D G d) (\<lambda>d. \<exists>G. pruned p F G \<and> view D G d)"
proof -
  have part: "\<exists>G. pruned p F G \<and> view D G (remove_names (\<lambda>q. below p q
      \<and> list_all (\<lambda>(q', _). below q q' \<longrightarrow> q' \<in> set xs) (dk_names d)) d)" if "view D F d" for d xs
  proof (intro exI conjI)
    let ?P = "\<lambda>q. below p q \<and> list_all (\<lambda>(q', _). below q q' \<longrightarrow> q' \<in> set xs) (dk_names d)"
    show "pruned p F (\<lambda>q. if ?P q then None else F q)" by (simp add: pruned_def)
    show "view D (\<lambda>q. if ?P q then None else F q) (remove_names ?P d)"
      by (rule view_remove_names [OF that]) (auto simp: list_all_iff dest: below_parent below_trans [OF below_butlast])
  qed
  have unchanged: "view D F d \<Longrightarrow> \<exists>G. pruned p F G \<and> view D G d" for d
    by (auto simp: pruned_def)
  show ?thesis
    unfolding sys_remove_tree_def
  proof (rule triple_syscall)
    fix d x d' assume "view D F d" "(case node_at d p of None \<Rightarrow> Inl NotFound
      | Some NDir \<Rightarrow> Inr ((), remove_names (below p) d) | Some _ \<Rightarrow> Inl OtherIo) = Inr (x, d')"
    then show "view D (\<lambda>q. if below p q then None else F q) d'"
      using view_remove_names [of D F d "below p" p] below_parent by (auto split: option.splits node.splits)
  qed (use part unchanged in auto)
qed

lemma view_root_remove_dir_all:
  "triple honest (view D F) (root_remove_dir_all p) (\<lambda>_ d. view D (\<lambda>q. if below p q then None else F q) d)
    (\<lambda>_ d. \<exists>G. pruned p F G \<and> view D G d) (\<lambda>d. \<exists>G. pruned p F G \<and> view D G d)"
proof (cases "p = []")
  case True
  then show ?thesis unfolding root_remove_dir_all_def by (auto simp: split_parent_bind pruned_def intro!: triple_fail)
next
  case False
  let ?C = "\<lambda>d. \<exists>G. pruned p F G \<and> view D G d"
  have p: "butlast p @ [last p] = p" using False by simp
  have dir: "triple honest (view D F) (open_dir (butlast p)) (\<lambda>r d. r = butlast p \<and> view D F d) (\<lambda>_. ?C) ?C"
  proof (rule triple_each)
    fix d assume "view D F d"
    then show "triple honest (\<lambda>e. e = d) (open_dir (butlast p)) (\<lambda>r d. r = butlast p \<and> view D F d) (\<lambda>_. ?C) ?C"
      by (intro triple_conseq [OF read_open_dir [OF view_wf]]) (auto simp: pruned_def)
  qed
  show ?thesis
    unfolding root_remove_dir_all_def split_parent_bind(1) [OF False] prod.case
    by (rule triple_bind [OF dir], rule triple_pure, simp only: p view_remove_tree)
qed

text \<open>The lock file is created when it is missing.\<close>

lemma view_lock_attempts:
  assumes "\<And>k. D (take k parent)" "\<not> is_temp (parent @ [leaf])"
  shows "triple honest (\<lambda>d. \<exists>c. view D (F(parent @ [leaf] := c)) d) (lock_attempts n parent leaf)
    (\<lambda>_ d. \<exists>c. view D (F(parent @ [leaf] := c)) d) (\<lambda>_ d. \<exists>c. view D (F(parent @ [leaf] := c)) d)
    (\<lambda>d. \<exists>c. view D (F(parent @ [leaf] := c)) d)"
proof -
  let ?p = "parent @ [leaf]" let ?C = "\<lambda>d. \<exists>c. view D (F(?p := c)) d"
  have weak: "triple honest P m (\<lambda>r d. r = x \<and> ?C d) (\<lambda>_. ?C) ?C"
    if "triple honest P m (\<lambda>r d. r = x \<and> view D (F(?p := c)) d) (\<lambda>_. view D (F(?p := c))) (view D (F(?p := c)))"
    for P x c and m :: "(io_error, path) prog"
    by (rule triple_conseq [OF that]) auto
  have dirs: "triple honest ?C (create_dir_all parent) (\<lambda>r d. r = parent \<and> ?C d) (\<lambda>_. ?C) ?C"
    by (rule triple_ex, rule weak, rule view_create_dir_all) (rule assms(1))
  have created: "triple honest ?C (sys_create_new ?p) (\<lambda>_. ?C) (\<lambda>_. ?C) ?C"
  proof (rule triple_ex)
    fix c
    have own: "own_file D (F(?p := c)) ?p i b d \<Longrightarrow> ?C d" for i b d
      using own_file_view [of D "F(?p := c)" ?p i b d] assms(2) by (auto simp: put_def)
    show "triple honest (view D (F(?p := c))) (sys_create_new ?p) (\<lambda>_. ?C) (\<lambda>_. ?C) ?C"
      by (rule triple_conseq [OF view_create_new [of D "F(?p := c)" ?p]]) (use own in blast)+
  qed
  have opened: "triple honest ?C (sys_open_or_create ?p) (\<lambda>_. ?C) (\<lambda>_. ?C) ?C"
    unfolding sys_open_or_create_def
    by (rule triple_bind [OF stable_attempt [OF stable_calls(3)]]) (auto intro!: stable_basic created split: sum.split)
  have one: "triple honest ?C (pr_attempt (pr_bind (create_dir_all parent) (\<lambda>dir. sys_open_or_create (dir @ [leaf]))))
      (\<lambda>_. ?C) (\<lambda>_. ?C) ?C"
    by (rule stable_attempt, rule triple_bind [OF dirs], rule triple_pure, simp only: opened)
  show ?thesis
  proof (induction n)
    case 0
    show ?case by (subst lock_attempts.simps, rule triple_bind [OF one]) (auto intro!: stable_basic split: sum.split)
  next
    case (Suc n)
    show ?case
      by (subst lock_attempts.simps, rule triple_bind [OF one]) (auto intro!: stable_basic Suc.IH split: sum.split)
  qed
qed

lemma view_open_lock_file:
  assumes "p \<noteq> []" "\<And>k. D (take k (butlast p))" "\<not> is_temp p"
  shows "triple honest (view D F) (open_lock_file p) (\<lambda>_ d. \<exists>c. view D (F(p := c)) d)
    (\<lambda>_ d. \<exists>c. view D (F(p := c)) d) (\<lambda>d. \<exists>c. view D (F(p := c)) d)"
proof -
  let ?C = "\<lambda>d. \<exists>c. view D (F(p := c)) d"
  have p: "butlast p @ [last p] = p" using assms(1) by simp
  have start: "view D F d \<Longrightarrow> ?C d" for d by (rule exI [of _ "F p"]) simp
  have "triple honest ?C (lock_attempts 20 (butlast p) (last p)) (\<lambda>_. ?C) (\<lambda>_. ?C) ?C"
    by (rule view_lock_attempts [of D "butlast p" "last p" F 20, unfolded p, OF assms(2,3)])
  then have lock: "triple honest (view D F) (lock_attempts 20 (butlast p) (last p)) (\<lambda>_. ?C) (\<lambda>_. ?C) ?C"
    by (rule triple_conseq) (use start in auto)
  show ?thesis
    unfolding open_lock_file_def split_parent_bind(1) [OF assms(1)] prod.case
    by (rule triple_bind [OF lock], rule triple_bind [OF stable_calls(5)]) (auto intro!: stable_basic)
qed

end
