(* ===== verification/File_Transactions.thy ===== *)
theory File_Transactions
  imports Collection_Root Collection_Path
begin

text \<open>
  Crash-recoverable transactions over several files (\<open>transactions.rs\<close>). A transaction stages the
  new contents and backups of the changed files in a directory of its own, makes a journal durable,
  checks that the files still have their expected revisions, applies the entries one by one and
  removes its directory; opening a collection recovers what it finds. SHA-256, the JSON encoding of
  a journal and the journals of the collection runtime, which recovery hands over, are parameters.
\<close>

section \<open>Journals and errors\<close>

datatype tx_phase = PhasePrepared | PhaseCommitting | PhaseCommitted

datatype tx_scope = ScopeRecords | ScopeResources | ScopeSystemMigration

record journal_entry =
  je_path :: string
  je_before_revision :: "string option"
  je_after_revision :: "string option"
  je_stage_file :: "string option"
  je_backup_file :: "string option"

record journal =
  jn_version :: nat
  jn_id :: string
  jn_scope :: tx_scope
  jn_phase :: tx_phase
  jn_applied :: nat
  jn_entries :: "journal_entry list"

datatype tx_error =
    TxIo path io_error
  | TxInvalidJournal string
  | TxUnsafePath string
  | TxConcurrentModification string
  | TxManualRecovery string
  | TxClaimMismatch
  | TxCapacityExhausted
  | TxOperationBoundary string

fun tx_error_code :: "tx_error \<Rightarrow> string" where
  "tx_error_code (TxIo _ _) = ''transaction_io_failed''"
| "tx_error_code (TxInvalidJournal _) = ''transaction_journal_invalid''"
| "tx_error_code (TxUnsafePath _) = ''path_traversal''"
| "tx_error_code (TxConcurrentModification _) = ''concurrent_modification''"
| "tx_error_code (TxManualRecovery _) = ''manual_recovery_required''"
| "tx_error_code TxClaimMismatch = ''claim_mismatch''"
| "tx_error_code TxCapacityExhausted = ''runtime_capacity_exhausted''"
| "tx_error_code (TxOperationBoundary code) = code"

record tx_host =
  th_sha256 :: "bytes \<Rightarrow> string"
  th_to_vec :: "journal \<Rightarrow> string + bytes"
  th_version :: "bytes \<Rightarrow> nat option"
  th_from_slice :: "bytes \<Rightarrow> string + journal"
  th_json_text :: "json \<Rightarrow> string"
  th_recover_runtime :: "path \<Rightarrow> bytes \<Rightarrow> (tx_error, bool) prog"
  th_entry_exists :: root_entries

definition v03_revision :: "tx_host \<Rightarrow> bytes \<Rightarrow> string" where
  "v03_revision h bytes = ''sha256:'' @ th_sha256 h bytes"

definition pr_lift :: "('e, 'a) res \<Rightarrow> ('e, 'a) prog" where
  "pr_lift r = (case r of Ok x \<Rightarrow> pr_return x | Err e \<Rightarrow> pr_fail e | Panic \<Rightarrow> (\<lambda>w. (w, Killed)))"

definition pr_lift_sum :: "('e \<Rightarrow> 'f) \<Rightarrow> 'e + 'a \<Rightarrow> ('f, 'a) prog" where
  "pr_lift_sum f r = (case r of Inr x \<Rightarrow> pr_return x | Inl e \<Rightarrow> pr_fail (f e))"

text \<open>An ignored result.\<close>

definition pr_ignore :: "('e, 'a) prog \<Rightarrow> ('f, unit) prog" where
  "pr_ignore m = pr_bind (pr_attempt m) (\<lambda>_. pr_return ())"

definition quoted :: "string \<Rightarrow> string" where
  "quoted s = [CHR 0x27] @ s @ [CHR 0x27]"

section \<open>Paths of entries\<close>

definition TRANSACTIONS_DIR :: path where
  "TRANSACTIONS_DIR = [''.mdbase'', ''transactions'']"

definition JOURNAL_FILE :: string where
  "JOURNAL_FILE = ''journal.json''"

definition join_path :: "path \<Rightarrow> string \<Rightarrow> path" where
  "join_path directory name = directory @ split_on CHR ''/'' name"

fun record_path_message :: "record_path_error \<Rightarrow> string" where
  "record_path_message (RecordInvalidPath e) = path_error_message e"
| "record_path_message RecordHiddenComponent = ''record paths must not use hidden filesystem components''"
| "record_path_message RecordReserved = ''path is reserved or excluded from ordinary collection records''"
| "record_path_message RecordUnsupportedExtension = ''path does not use a configured record extension''"

definition ensure_safe_relative_path :: "string \<Rightarrow> spec_profile \<Rightarrow> (json, unit) res" where
  "ensure_safe_relative_path path spec_profile =
     (if path = [] then Err (op_error ''invalid_path'' ''Path must not be empty'')
      else if CHR 0x00 \<in> set path then Err (op_error ''invalid_path'' ''Path contains null bytes'')
      else if starts_with path ''/'' \<or> starts_with path [backslash] \<or> windows_prefix path
        then Err (op_error ''invalid_path'' ''Absolute paths are not allowed'')
      else if ''..'' \<in> set (split_on CHR ''/'' (slashes path))
        then Err (op_error (if spec_profile = V03 then ''path_traversal'' else ''invalid_path'')
               ''Path contains path traversal'')
      else Ok ())"

definition collection_path_checked :: "string \<Rightarrow> (tx_error, collection_path) res" where
  "collection_path_checked path = map_err_path (TxUnsafePath \<circ> path_error_message) (collection_path_from_str path)"

definition hidden_or_reserved :: "string \<Rightarrow> bool" where
  "hidden_or_reserved resource =
     list_ex (\<lambda>c. starts_with c ''.'' \<or> c = ''node_modules'' \<or> c = ''target'') (std_components resource)"

definition managed_resource :: "collection \<Rightarrow> string \<Rightarrow> bool" where
  "managed_resource col resource \<longleftrightarrow>
     resource \<in> set [''mdbase.yaml'', ''mdbase.lock.yaml'', ''mdbase.provisions.yaml'']
     \<or> path_starts_with resource (st_types_folder (col_settings col))
     \<or> path_starts_with resource (st_contracts_folder (col_settings col))
     \<or> path_extension resource = Some ''base'' \<or> path_extension resource = Some ''md''
     \<or> (path_extension resource = Some ''json''
        \<and> list_ex (\<lambda>c. c = ''schemas'' \<or> c = ''_schemas'') (std_components resource))"

definition logical_entry_path :: "tx_host \<Rightarrow> collection \<Rightarrow> string \<Rightarrow> tx_scope \<Rightarrow> (tx_error, collection_path) res" where
  "logical_entry_path h col path scope =
     (case scope of
        ScopeRecords \<Rightarrow>
          map_err_path (TxUnsafePath \<circ> record_path_message) (validate_record_path (th_entry_exists h) col path)
      | ScopeResources \<Rightarrow>
          bind_res (collection_path_checked path) (\<lambda>logical.
          if hidden_or_reserved (as_path logical) \<or> \<not> managed_resource col (as_path logical)
          then Err (TxUnsafePath (quoted path @ '' is not a managed collection resource''))
          else Ok logical)
      | ScopeSystemMigration \<Rightarrow> collection_path_checked path)"

definition validate_entry_path :: "tx_host \<Rightarrow> collection \<Rightarrow> string \<Rightarrow> tx_scope \<Rightarrow> (tx_error, unit) res" where
  "validate_entry_path h col path scope =
     bind_res (logical_entry_path h col path scope) (\<lambda>logical.
     map_err_path (TxUnsafePath \<circ> th_json_text h) (ensure_safe_relative_path (as_path logical) V03))"

text \<open>The components of \<open>CollectionPath::new(path)?.to_path_buf()\<close>.\<close>

definition entry_path :: "string \<Rightarrow> (tx_error, path) res" where
  "entry_path path =
     bind_res (collection_path_checked path) (\<lambda>logical. Ok (std_components (to_path_buf logical)))"

section \<open>Files of a transaction\<close>

definition read_regular_file :: "path \<Rightarrow> (tx_error, bytes) prog" where
  "read_regular_file p =
     pr_map_err (\<lambda>source. if source = PermissionDenied
         then TxInvalidJournal (quoted (join_with ''/'' p) @ '' is not a safe regular transaction payload'')
         else TxIo p source) (root_read p)"

definition current_revision :: "tx_host \<Rightarrow> path \<Rightarrow> (tx_error, string option) prog" where
  "current_revision h p =
     pr_bind (pr_attempt (root_read p)) (\<lambda>r.
     case r of
       Inr bytes \<Rightarrow> pr_return (Some (v03_revision h bytes))
     | Inl e \<Rightarrow> if e = NotFound then pr_return None else pr_fail (TxIo p e))"

definition tx_sync_dir :: "path \<Rightarrow> (tx_error, unit) prog" where
  "tx_sync_dir p = pr_map_err (TxIo p) (root_sync_dir p)"

definition cleanup_transaction :: "path \<Rightarrow> (tx_error, unit) prog" where
  "cleanup_transaction directory =
     pr_bind (pr_attempt (root_remove_dir_all directory)) (\<lambda>r.
     case r of Inr _ \<Rightarrow> pr_ignore (tx_sync_dir (butlast directory)) | Inl _ \<Rightarrow> pr_return ())"

definition persist_journal :: "tx_host \<Rightarrow> path \<Rightarrow> journal \<Rightarrow> (tx_error, unit) prog" where
  "persist_journal h directory journal =
     pr_bind (pr_lift_sum TxInvalidJournal (th_to_vec h journal)) (\<lambda>bytes.
     pr_map_err (TxIo (directory @ [JOURNAL_FILE])) (atomic_write (directory @ [JOURNAL_FILE]) bytes))"

definition write_synced :: "path \<Rightarrow> bytes \<Rightarrow> (tx_error, unit) prog" where
  "write_synced p bytes = pr_map_err (TxIo p) (write_new_synced p bytes)"

definition ensure_transaction_root :: "(tx_error, unit) prog" where
  "ensure_transaction_root =
     pr_map_err (TxIo TRANSACTIONS_DIR) (pr_bind (create_dir_all TRANSACTIONS_DIR) (\<lambda>_. pr_return ()))"

text \<open>\<open>WriteLock::acquire\<close>: the lock file is opened and locked; waiting for the lock is one call.\<close>

definition write_lock_path :: path where
  "write_lock_path = [''.mdbase'', ''write.lock'']"

definition acquire_write_lock :: "(tx_error, unit) prog" where
  "acquire_write_lock =
     pr_map_err (TxIo write_lock_path) (pr_bind (open_lock_file write_lock_path) (\<lambda>_. sys_sync))"

record file_facts =
  ff_size :: nat
  ff_mtime :: "string option"

definition record_file_facts :: "string \<Rightarrow> (tx_error, file_facts) prog" where
  "record_file_facts path =
     pr_bind (pr_lift (entry_path path)) (\<lambda>relative.
     pr_bind (pr_map_err (TxIo relative) (pr_bind (root_open_file relative) sys_metadata)) (\<lambda>metadata.
     pr_bind pr_mtime (\<lambda>mtime. pr_return \<lparr>ff_size = md_size metadata, ff_mtime = mtime\<rparr>)))"

definition apply_entry :: "tx_host \<Rightarrow> collection \<Rightarrow> path \<Rightarrow> journal_entry \<Rightarrow> tx_scope \<Rightarrow> (tx_error, unit) prog" where
  "apply_entry h col directory entry scope =
     pr_bind (pr_lift (validate_entry_path h col (je_path entry) scope)) (\<lambda>_.
     pr_bind (pr_lift (entry_path (je_path entry))) (\<lambda>p.
     case je_stage_file entry of
       Some stage_file \<Rightarrow>
         pr_bind (read_regular_file (join_path directory stage_file)) (\<lambda>bytes.
         if v03_revision h bytes \<noteq> (case je_after_revision entry of Some r \<Rightarrow> r | None \<Rightarrow> '''')
         then pr_fail (TxInvalidJournal (''staged contents for '' @ quoted (je_path entry) @ '' do not match the journal''))
         else pr_map_err (TxIo p)
           (if je_before_revision entry = None then atomic_create p bytes else atomic_write p bytes))
     | None \<Rightarrow> pr_map_err (TxIo p) (root_remove_file p)))"

fun recheck_preconditions :: "tx_host \<Rightarrow> journal_entry list \<Rightarrow> (tx_error, unit) prog" where
  "recheck_preconditions h [] = pr_return ()"
| "recheck_preconditions h (entry # entries) =
     pr_bind (pr_lift (entry_path (je_path entry))) (\<lambda>p.
     pr_bind (current_revision h p) (\<lambda>current.
     if current \<noteq> je_before_revision entry then pr_fail (TxConcurrentModification (je_path entry))
     else recheck_preconditions h entries))"

section \<open>Committing\<close>

definition payload_name :: "string \<Rightarrow> nat \<Rightarrow> string" where
  "payload_name kind index = kind @ ''/'' @ show_nat index"

definition write_payload :: "path \<Rightarrow> string \<Rightarrow> nat \<Rightarrow> bytes option \<Rightarrow> (tx_error, string option) prog" where
  "write_payload directory kind index contents =
     (case contents of
        None \<Rightarrow> pr_return None
      | Some bytes \<Rightarrow>
          pr_bind (write_synced (join_path directory (payload_name kind index)) bytes) (\<lambda>_.
          pr_return (Some (payload_name kind index))))"

type_synonym baseline = "(string, bytes) btree"

fun stage_entries ::
  "tx_host \<Rightarrow> collection \<Rightarrow> tx_scope \<Rightarrow> path \<Rightarrow> baseline \<Rightarrow> baseline \<Rightarrow> nat \<Rightarrow> string list
    \<Rightarrow> (tx_error, journal_entry list) prog" where
  "stage_entries h col scope directory before_files after_files index [] = pr_return []"
| "stage_entries h col scope directory before_files after_files index (path # paths) =
     (let prior = bt_get before_files path; after = bt_get after_files path in
      if prior = after then stage_entries h col scope directory before_files after_files index paths
      else
        pr_bind (pr_lift (validate_entry_path h col path scope)) (\<lambda>_.
        pr_bind (write_payload directory ''stage'' index after) (\<lambda>stage_file.
        pr_bind (write_payload directory ''backup'' index prior) (\<lambda>backup_file.
        pr_bind (stage_entries h col scope directory before_files after_files (Suc index) paths) (\<lambda>rest.
        pr_return (\<lparr>je_path = path, je_before_revision = map_option (v03_revision h) prior,
          je_after_revision = map_option (v03_revision h) after, je_stage_file = stage_file,
          je_backup_file = backup_file\<rparr> # rest))))))"

text \<open>
  The part of \<open>commit_shadow_controlled\<close> that the staging guard covers: it gives the journal once
  that is durable, or nothing when there is nothing to do.
\<close>

definition stage_transaction ::
  "tx_host \<Rightarrow> collection \<Rightarrow> tx_scope \<Rightarrow> string \<Rightarrow> path \<Rightarrow> baseline \<Rightarrow> baseline \<Rightarrow> (tx_error, journal option) prog" where
  "stage_transaction h col scope ident directory baseline desired =
     pr_bind (pr_map_err (TxIo (directory @ [''backup''])) (create_dir_all (directory @ [''backup'']))) (\<lambda>_.
     pr_bind (stage_entries h col scope directory baseline desired 0
       (sort_dedup (bt_keys baseline @ bt_keys desired))) (\<lambda>entries.
     if entries = [] then pr_bind (cleanup_transaction directory) (\<lambda>_. pr_return None)
     else
       pr_bind (tx_sync_dir (directory @ [''stage''])) (\<lambda>_.
       pr_bind (tx_sync_dir (directory @ [''backup''])) (\<lambda>_.
       let journal = \<lparr>jn_version = 1, jn_id = ident, jn_scope = scope, jn_phase = PhasePrepared,
         jn_applied = 0, jn_entries = entries\<rparr> in
       pr_bind (persist_journal h directory journal) (\<lambda>_. pr_return (Some journal))))))"

text \<open>\<open>StagingGuard\<close>: its drop removes the directory unless the journal is durable.\<close>

definition staging_guard :: "path \<Rightarrow> (tx_error, journal option) prog \<Rightarrow> (tx_error, journal option) prog" where
  "staging_guard directory m =
     pr_bind (pr_attempt m) (\<lambda>r.
     case r of
       Inr (Some journal) \<Rightarrow> pr_return (Some journal)
     | Inr None \<Rightarrow> pr_bind (pr_ignore (root_remove_dir_all directory)) (\<lambda>_. pr_return None)
     | Inl e \<Rightarrow> pr_bind (pr_ignore (root_remove_dir_all directory)) (\<lambda>_. pr_fail e))"

record commit_outcome =
  co_cleanup_deferred :: bool
  co_file_facts :: "(string, file_facts) btree"

definition entry_facts :: "journal_entry \<Rightarrow> (string, file_facts) btree \<Rightarrow> (tx_error, (string, file_facts) btree) prog" where
  "entry_facts entry facts =
     (if je_after_revision entry = None then pr_return facts
      else pr_bind (record_file_facts (je_path entry)) (\<lambda>f. pr_return (bt_insert (je_path entry) f facts)))"

fun apply_entries ::
  "tx_host \<Rightarrow> collection \<Rightarrow> path \<Rightarrow> journal \<Rightarrow> nat \<Rightarrow> journal_entry list \<Rightarrow> (string, file_facts) btree
    \<Rightarrow> (tx_error, (string, file_facts) btree) prog" where
  "apply_entries h col directory journal index [] facts = pr_return facts"
| "apply_entries h col directory journal index (entry # entries) facts =
     pr_bind (apply_entry h col directory entry (jn_scope journal)) (\<lambda>_.
     pr_bind (entry_facts entry facts) (\<lambda>facts.
     pr_bind (persist_journal h directory (journal\<lparr>jn_applied := Suc index\<rparr>)) (\<lambda>_.
     apply_entries h col directory journal (Suc index) entries facts)))"

definition publish_transaction ::
  "tx_host \<Rightarrow> collection \<Rightarrow> path \<Rightarrow> journal \<Rightarrow> (tx_error, commit_outcome) prog" where
  "publish_transaction h col directory journal =
     pr_bind (pr_attempt (recheck_preconditions h (jn_entries journal))) (\<lambda>r.
     case r of
       Inl e \<Rightarrow> pr_bind (cleanup_transaction directory) (\<lambda>_. pr_fail e)
     | Inr _ \<Rightarrow>
         (let committing = journal\<lparr>jn_phase := PhaseCommitting\<rparr> in
          pr_bind (persist_journal h directory committing) (\<lambda>_.
          pr_bind (apply_entries h col directory committing 0 (jn_entries journal) []) (\<lambda>facts.
          pr_bind (persist_journal h directory (committing\<lparr>jn_applied := length (jn_entries journal),
            jn_phase := PhaseCommitted\<rparr>)) (\<lambda>_.
          pr_bind (pr_attempt (root_remove_dir_all directory)) (\<lambda>removed.
          case removed of
            Inl _ \<Rightarrow> pr_return \<lparr>co_cleanup_deferred = True, co_file_facts = facts\<rparr>
          | Inr _ \<Rightarrow>
              pr_bind (pr_ignore (tx_sync_dir TRANSACTIONS_DIR)) (\<lambda>_.
              pr_return \<lparr>co_cleanup_deferred = False, co_file_facts = facts\<rparr>)))))))"

definition commit_shadow_controlled ::
  "tx_host \<Rightarrow> collection \<Rightarrow> baseline \<Rightarrow> baseline \<Rightarrow> tx_scope \<Rightarrow> (tx_error, commit_outcome) prog" where
  "commit_shadow_controlled h col baseline desired scope =
     pr_bind acquire_write_lock (\<lambda>_.
     pr_bind ensure_transaction_root (\<lambda>_.
     pr_bind pr_uuid (\<lambda>ident.
     let directory = TRANSACTIONS_DIR @ [ident] in
     pr_bind (pr_map_err (TxIo (directory @ [''stage''])) (create_dir_all (directory @ [''stage'']))) (\<lambda>_.
     pr_bind (staging_guard directory (stage_transaction h col scope ident directory baseline desired)) (\<lambda>staged.
     case staged of
       None \<Rightarrow> pr_return \<lparr>co_cleanup_deferred = False, co_file_facts = []\<rparr>
     | Some journal \<Rightarrow> publish_transaction h col directory journal)))))"

definition commit_shadow ::
  "tx_host \<Rightarrow> collection \<Rightarrow> baseline \<Rightarrow> baseline \<Rightarrow> (tx_error, commit_outcome) prog" where
  "commit_shadow h col baseline desired = commit_shadow_controlled h col baseline desired ScopeRecords"

definition commit_migration ::
  "tx_host \<Rightarrow> collection \<Rightarrow> baseline \<Rightarrow> baseline \<Rightarrow> (tx_error, commit_outcome) prog" where
  "commit_migration h col baseline desired = commit_shadow_controlled h col baseline desired ScopeSystemMigration"

section \<open>Recovery\<close>

fun check_entries_from :: "tx_host \<Rightarrow> collection \<Rightarrow> tx_scope \<Rightarrow> nat \<Rightarrow> journal_entry list \<Rightarrow> (tx_error, unit) res" where
  "check_entries_from h col scope index [] = Ok ()"
| "check_entries_from h col scope index (entry # entries) =
     bind_res (validate_entry_path h col (je_path entry) scope) (\<lambda>_.
     if je_stage_file entry \<noteq> map_option (\<lambda>_. payload_name ''stage'' index) (je_after_revision entry)
        \<or> je_backup_file entry \<noteq> map_option (\<lambda>_. payload_name ''backup'' index) (je_before_revision entry)
     then Err (TxInvalidJournal (''payload paths for '' @ quoted (je_path entry) @ '' do not match its journal position''))
     else check_entries_from h col scope (Suc index) entries)"

definition check_payload ::
  "tx_host \<Rightarrow> path \<Rightarrow> string \<Rightarrow> string \<Rightarrow> string option \<Rightarrow> string option \<Rightarrow> (tx_error, unit) prog" where
  "check_payload h directory what path payload_file revision =
     (case payload_file of
        None \<Rightarrow> pr_return ()
      | Some name \<Rightarrow>
          pr_bind (read_regular_file (join_path directory name)) (\<lambda>bytes.
          if Some (v03_revision h bytes) \<noteq> revision
          then pr_fail (TxInvalidJournal (what @ '' contents for '' @ quoted path @ '' do not match the journal''))
          else pr_return ()))"

fun check_payloads :: "tx_host \<Rightarrow> path \<Rightarrow> journal_entry list \<Rightarrow> (tx_error, unit) prog" where
  "check_payloads h directory [] = pr_return ()"
| "check_payloads h directory (entry # entries) =
     pr_bind (check_payload h directory ''staged'' (je_path entry) (je_stage_file entry) (je_after_revision entry)) (\<lambda>_.
     pr_bind (check_payload h directory ''backup'' (je_path entry) (je_backup_file entry) (je_before_revision entry)) (\<lambda>_.
     check_payloads h directory entries))"

fun roll_forward ::
  "tx_host \<Rightarrow> collection \<Rightarrow> path \<Rightarrow> journal \<Rightarrow> nat \<Rightarrow> journal_entry list \<Rightarrow> (tx_error, journal) prog" where
  "roll_forward h col directory journal index [] = pr_return journal"
| "roll_forward h col directory journal index (entry # entries) =
     pr_bind (pr_lift (entry_path (je_path entry))) (\<lambda>p.
     pr_bind (current_revision h p) (\<lambda>current.
     if current = je_after_revision entry then
       (let journal = journal\<lparr>jn_applied := max (jn_applied journal) (Suc index)\<rparr> in
        pr_bind (persist_journal h directory journal) (\<lambda>_.
        roll_forward h col directory journal (Suc index) entries))
     else if current \<noteq> je_before_revision entry then
       pr_fail (TxManualRecovery (quoted (je_path entry) @ '' matches neither its before nor intended revision''))
     else
       pr_bind (apply_entry h col directory entry (jn_scope journal)) (\<lambda>_.
       let journal = journal\<lparr>jn_applied := Suc index\<rparr> in
       pr_bind (persist_journal h directory journal) (\<lambda>_.
       roll_forward h col directory journal (Suc index) entries))))"

definition recover_journal :: "tx_host \<Rightarrow> collection \<Rightarrow> path \<Rightarrow> journal \<Rightarrow> (tx_error, bool) prog" where
  "recover_journal h col directory journal =
     (if jn_phase journal = PhaseCommitted \<or> (jn_phase journal = PhasePrepared \<and> jn_applied journal = 0)
      then pr_bind (cleanup_transaction directory) (\<lambda>_. pr_return True)
      else
        pr_bind (check_payloads h directory (jn_entries journal)) (\<lambda>_.
        let committing = journal\<lparr>jn_phase := PhaseCommitting\<rparr> in
        pr_bind (persist_journal h directory committing) (\<lambda>_.
        pr_bind (roll_forward h col directory committing 0 (jn_entries journal)) (\<lambda>applied.
        pr_bind (persist_journal h directory (applied\<lparr>jn_phase := PhaseCommitted\<rparr>)) (\<lambda>_.
        pr_bind (cleanup_transaction directory) (\<lambda>_. pr_return True))))))"

definition recover_bytes :: "tx_host \<Rightarrow> collection \<Rightarrow> path \<Rightarrow> bytes \<Rightarrow> (tx_error, bool) prog" where
  "recover_bytes h col directory bytes =
     pr_bind (pr_lift_sum TxInvalidJournal (th_from_slice h bytes)) (\<lambda>journal.
     if jn_version journal \<noteq> 1 \<or> last directory \<noteq> jn_id journal
     then pr_fail (TxInvalidJournal (''identity mismatch in '' @ quoted (join_with ''/'' (directory @ [JOURNAL_FILE]))))
     else if length (jn_entries journal) < jn_applied journal
     then pr_fail (TxInvalidJournal ''applied entry count exceeds journal length'')
     else
       pr_bind (pr_lift (check_entries_from h col (jn_scope journal) 0 (jn_entries journal))) (\<lambda>_.
       recover_journal h col directory journal))"

definition recover_one :: "tx_host \<Rightarrow> collection \<Rightarrow> path \<Rightarrow> (tx_error, bool) prog" where
  "recover_one h col directory =
     pr_bind (pr_map_err (TxIo (directory @ [JOURNAL_FILE])) (root_read (directory @ [JOURNAL_FILE]))) (\<lambda>bytes.
     if (case th_version h bytes of Some v \<Rightarrow> 2 \<le> v \<and> v \<le> 4 | None \<Rightarrow> False)
     then th_recover_runtime h directory bytes
     else recover_bytes h col directory bytes)"

fun recover_all :: "tx_host \<Rightarrow> collection \<Rightarrow> path list \<Rightarrow> bool \<Rightarrow> (tx_error, bool) prog" where
  "recover_all h col [] changed = pr_return changed"
| "recover_all h col (directory # directories) changed =
     pr_bind (recover_one h col directory) (\<lambda>c. recover_all h col directories (changed \<or> c))"

definition recover_pending :: "tx_host \<Rightarrow> collection \<Rightarrow> (tx_error, bool) prog" where
  "recover_pending h col =
     pr_bind (pr_attempt (open_dir TRANSACTIONS_DIR)) (\<lambda>opened.
     case opened of
       Inl e \<Rightarrow> if e = NotFound then pr_return False else pr_fail (TxIo TRANSACTIONS_DIR e)
     | Inr _ \<Rightarrow>
         pr_bind acquire_write_lock (\<lambda>_.
         pr_bind (pr_map_err (TxIo TRANSACTIONS_DIR) (child_directories TRANSACTIONS_DIR)) (\<lambda>directories.
         recover_all h col directories False)))"

end
