(* ===== verification/Transaction_States.thy ===== *)
theory Transaction_States
  imports Root_Triples File_Transactions Path_Properties
begin

text \<open>
  The states of the files that a transaction can leave behind: nothing applied yet, everything
  applied, or a durable journal in its committing phase with some of the files changed.
\<close>

section \<open>Files of users and of transactions\<close>

definition user_path :: "path \<Rightarrow> bool" where
  "user_path q \<longleftrightarrow> q \<noteq> [] \<and> \<not> is_temp q \<and> \<not> below TRANSACTIONS_DIR q \<and> q \<noteq> write_lock_path"

definition user_files_are :: "(path \<Rightarrow> bytes option) \<Rightarrow> (path \<Rightarrow> bytes option) \<Rightarrow> bool" where
  "user_files_are F f \<longleftrightarrow> (\<forall>q. user_path q \<longrightarrow> F q = f q)"

definition tx_dirs :: "string \<Rightarrow> path \<Rightarrow> bool" where
  "tx_dirs ident q \<longleftrightarrow> (\<forall>x. q = TRANSACTIONS_DIR @ [x] \<longrightarrow> x = ident)"

definition tx_dir :: "string \<Rightarrow> path" where
  "tx_dir ident = TRANSACTIONS_DIR @ [ident]"

definition journal_path :: "string \<Rightarrow> path" where
  "journal_path ident = tx_dir ident @ [JOURNAL_FILE]"

definition codec_ok :: "tx_host \<Rightarrow> bool" where
  "codec_ok h \<longleftrightarrow>
     (\<forall>j b. th_to_vec h j = Inr b \<longrightarrow> th_from_slice h b = Inr j \<and> th_version h b = Some (jn_version j))"

lemma user_path_facts:
  assumes "user_path p"
  shows "\<not> is_temp p" "p \<noteq> journal_path ident" "p \<noteq> tx_dir ident @ q" "\<And>n. tx_dirs ident (take n (butlast p))"
proof -
  have out: "\<not> below TRANSACTIONS_DIR p" using assms by (simp add: user_path_def)
  show "\<not> is_temp p" using assms by (simp add: user_path_def)
  show "p \<noteq> tx_dir ident @ q" for q using out by (auto simp: below_iff tx_dir_def)
  then show "p \<noteq> journal_path ident" by (auto simp: journal_path_def)
  show "tx_dirs ident (take n (butlast p))" for n
    unfolding tx_dirs_def
  proof (intro allI impI)
    fix x assume "take n (butlast p) = TRANSACTIONS_DIR @ [x]"
    then have "butlast p = TRANSACTIONS_DIR @ [x] @ drop n (butlast p)" by (metis append_assoc append_take_drop_id)
    then have "below TRANSACTIONS_DIR (butlast p)" by (auto simp: below_iff)
    then show "x = ident" using out below_parent by blast
  qed
qed

lemma tx_path_facts:
  "\<not> is_temp (journal_path ident)" "\<not> is_temp (tx_dir ident @ [kind, show_nat i])"
  "tx_dirs ident (take n (tx_dir ident @ q))"
proof -
  show "\<not> is_temp (journal_path ident)" by (simp add: is_temp_def journal_path_def JOURNAL_FILE_def)
  have "\<not> starts_with (show_nat i) (CHR ''.'' # s)" for s
    using show_nat_digits [of i] by (cases "show_nat i") (auto simp: is_ascii_digit_def)
  then show "\<not> is_temp (tx_dir ident @ [kind, show_nat i])" by (simp add: is_temp_def)
  show "tx_dirs ident (take n (tx_dir ident @ q))"
    unfolding tx_dirs_def
  proof (intro allI impI)
    fix x assume "take n (tx_dir ident @ q) = TRANSACTIONS_DIR @ [x]"
    then have "tx_dir ident @ q = TRANSACTIONS_DIR @ [x] @ drop n (tx_dir ident @ q)" by (metis append_assoc append_take_drop_id)
    then show "x = ident" by (simp add: tx_dir_def)
  qed
qed

section \<open>States of a transaction\<close>

text \<open>
  The targets \<open>ts\<close> of a transaction are the paths it changes with their intended contents. A
  journal fits them when its entries name them in order, with the revisions of the intended contents
  and the files that hold these. Distinct contents of one target have distinct revisions.
\<close>

type_synonym targets = "(path \<times> bytes option) list"

definition after_files :: "(path \<Rightarrow> bytes option) \<Rightarrow> targets \<Rightarrow> path \<Rightarrow> bytes option" where
  "after_files f ts q = (case map_of ts q of Some b \<Rightarrow> b | None \<Rightarrow> f q)"

definition entry_fits :: "tx_host \<Rightarrow> nat \<Rightarrow> journal_entry \<Rightarrow> path \<times> bytes option \<Rightarrow> bool" where
  "entry_fits h i e t \<longleftrightarrow> entry_path (je_path e) = Ok (fst t)
     \<and> je_after_revision e = map_option (v03_revision h) (snd t)
     \<and> je_stage_file e = map_option (\<lambda>_. payload_name ''stage'' i) (snd t)"

definition targets_ok :: "tx_host \<Rightarrow> (path \<Rightarrow> bytes option) \<Rightarrow> targets \<Rightarrow> bool" where
  "targets_ok h f ts \<longleftrightarrow> distinct (map fst ts) \<and> (\<forall>t \<in> set ts. user_path (fst t)
     \<and> (map_option (v03_revision h) (f (fst t)) = map_option (v03_revision h) (snd t) \<longrightarrow> f (fst t) = snd t))"

definition entries_fit :: "tx_host \<Rightarrow> journal_entry list \<Rightarrow> targets \<Rightarrow> bool" where
  "entries_fit h es ts \<longleftrightarrow> length es = length ts \<and> (\<forall>i < length es. entry_fits h i (es ! i) (ts ! i))"

definition staged :: "string \<Rightarrow> targets \<Rightarrow> (path \<Rightarrow> bytes option) \<Rightarrow> bool" where
  "staged ident ts F \<longleftrightarrow>
     (\<forall>i < length ts. snd (ts ! i) \<noteq> None \<longrightarrow> F (tx_dir ident @ [''stage'', show_nat i]) = snd (ts ! i))"

definition journal_is :: "tx_host \<Rightarrow> string \<Rightarrow> journal \<Rightarrow> (path \<Rightarrow> bytes option) \<Rightarrow> bool" where
  "journal_is h ident j F \<longleftrightarrow> (\<exists>b. th_to_vec h j = Inr b \<and> F (journal_path ident) = Some b)"

text \<open>Nothing has been applied, everything has been, or a committing journal and some files are.\<close>

definition untouched :: "tx_host \<Rightarrow> string \<Rightarrow> (path \<Rightarrow> bytes option) \<Rightarrow> (path \<Rightarrow> bytes option) \<Rightarrow> bool" where
  "untouched h ident f F \<longleftrightarrow> user_files_are F f
     \<and> (F (journal_path ident) = None
        \<or> (\<exists>j. journal_is h ident j F \<and> jn_version j = 1 \<and> jn_phase j = PhasePrepared \<and> jn_applied j = 0))"

definition completed :: "tx_host \<Rightarrow> string \<Rightarrow> (path \<Rightarrow> bytes option) \<Rightarrow> targets \<Rightarrow> (path \<Rightarrow> bytes option) \<Rightarrow> bool" where
  "completed h ident f ts F \<longleftrightarrow> user_files_are F (after_files f ts)
     \<and> (F (journal_path ident) = None
        \<or> (\<exists>j. journal_is h ident j F \<and> jn_version j = 1 \<and> jn_phase j = PhaseCommitted))"

definition committing ::
  "tx_host \<Rightarrow> string \<Rightarrow> (path \<Rightarrow> bytes option) \<Rightarrow> targets \<Rightarrow> nat \<Rightarrow> journal \<Rightarrow> (path \<Rightarrow> bytes option) \<Rightarrow> bool" where
  "committing h ident f ts i j F \<longleftrightarrow>
     (\<forall>q. user_path q \<longrightarrow> F q = f q \<or> F q = after_files f ts q) \<and> staged ident ts F
     \<and> (\<forall>k < i. k < length ts \<longrightarrow> F (fst (ts ! k)) = snd (ts ! k))
     \<and> journal_is h ident j F \<and> entries_fit h (jn_entries j) ts \<and> jn_version j = 1 \<and> jn_phase j = PhaseCommitting"

definition tx_state :: "tx_host \<Rightarrow> string \<Rightarrow> (path \<Rightarrow> bytes option) \<Rightarrow> targets \<Rightarrow> (path \<Rightarrow> bytes option) \<Rightarrow> bool" where
  "tx_state h ident f ts F \<longleftrightarrow>
     untouched h ident f F \<or> completed h ident f ts F \<or> (\<exists>j. committing h ident f ts 0 j F)"

text \<open>Disks whose files satisfy a predicate, and whose only transaction directory is the given one.\<close>

definition files_in :: "string \<Rightarrow> ((path \<Rightarrow> bytes option) \<Rightarrow> bool) \<Rightarrow> disk \<Rightarrow> bool" where
  "files_in ident S d \<longleftrightarrow> (\<exists>F. view (tx_dirs ident) F d \<and> S F)"

lemma files_inI: "view (tx_dirs ident) F d \<Longrightarrow> S F \<Longrightarrow> files_in ident S d"
  unfolding files_in_def by blast

lemma triple_files_in:
  "(\<And>F. S F \<Longrightarrow> triple R (view (tx_dirs ident) F) m Q E K) \<Longrightarrow> triple R (files_in ident S) m Q E K"
  unfolding files_in_def triple_def by blast

lemma after_files_at:
  "distinct (map fst ts) \<Longrightarrow> i < length ts \<Longrightarrow> after_files f ts (fst (ts ! i)) = snd (ts ! i)"
  unfolding after_files_def by (metis map_of_eq_Some_iff nth_mem option.simps(5) prod.collapse)

lemma after_files_elsewhere: "q \<notin> fst ` set ts \<Longrightarrow> after_files f ts q = f q"
  unfolding after_files_def by (metis map_of_eq_None_iff option.simps(4))

lemma committing_weaken: "committing h ident f ts i j F \<Longrightarrow> tx_state h ident f ts F"
  unfolding tx_state_def committing_def by blast

lemma committing_all_applied:
  assumes "committing h ident f ts (length ts) j F" "distinct (map fst ts)"
  shows "user_files_are F (after_files f ts)"
  unfolding user_files_are_def
proof (intro allI impI)
  fix q assume q: "user_path q"
  show "F q = after_files f ts q"
  proof (cases "q \<in> fst ` set ts")
    case True
    then obtain k where "k < length ts" "q = fst (ts ! k)" by (auto simp: in_set_conv_nth)
    then show ?thesis using assms after_files_at [OF assms(2)] unfolding committing_def by auto
  next
    case False
    then show ?thesis using assms(1) q unfolding committing_def by (auto simp: after_files_elsewhere)
  qed
qed

text \<open>Changing the journal leaves everything else.\<close>

lemma committing_journal:
  assumes "committing h ident f ts i j F" "th_to_vec h j' = Inr b" "jn_entries j' = jn_entries j"
    "jn_version j' = 1" "jn_phase j' = PhaseCommitting" "targets_ok h f ts"
  shows "committing h ident f ts i j' (F(journal_path ident := Some b))"
proof -
  have other: "user_path q \<Longrightarrow> (F(journal_path ident := Some b)) q = F q" for q using user_path_facts(2) by auto
  have "fst (ts ! k) \<noteq> journal_path ident" if "k < length ts" for k
    using assms(6) that user_path_facts(2) by (auto simp: targets_ok_def)
  moreover have "tx_dir ident @ [''stage'', show_nat k] \<noteq> journal_path ident" for k by (simp add: journal_path_def)
  ultimately show ?thesis
    using assms(1-5) other unfolding committing_def staged_def journal_is_def by auto
qed

lemma committing_apply:
  assumes "committing h ident f ts i j F" "i < length ts" "targets_ok h f ts" "ts ! i = (p, b)"
  shows "committing h ident f ts (Suc i) j (F(p := b))"
proof -
  have ok: "distinct (map fst ts)" "user_path p" using assms(2-4) nth_mem [OF assms(2)] by (auto simp: targets_ok_def)
  have "(F(p := b)) q = f q \<or> (F(p := b)) q = after_files f ts q" if "user_path q" for q
    using assms(1,4) that after_files_at [OF ok(1) assms(2), of f] unfolding committing_def by auto
  moreover have "tx_dir ident @ [''stage'', show_nat k] \<noteq> p" "journal_path ident \<noteq> p" for k
    using user_path_facts(2,3) [OF ok(2)] by metis+
  moreover have "(F(p := b)) (fst (ts ! k)) = snd (ts ! k)" if "k < Suc i" "k < length ts" for k
  proof (cases "k = i")
    case False
    then have "fst (ts ! k) \<noteq> p" using ok(1) that assms(2,4) by (metis distinct_conv_nth fst_conv length_map nth_map)
    then show ?thesis using assms(1) that False unfolding committing_def by auto
  qed (use assms(4) in simp)
  ultimately show ?thesis
    using assms(1) unfolding committing_def staged_def journal_is_def by auto
qed

lemma committing_skip:
  assumes "committing h ident f ts i j F" "i < length ts" "F (fst (ts ! i)) = snd (ts ! i)"
  shows "committing h ident f ts (Suc i) j F"
  using assms unfolding committing_def less_Suc_eq by blast

end
