(* ===== verification/Transaction_Recovery.thy ===== *)
theory Transaction_Recovery
  imports Transaction_States
begin

text \<open>
  Recovery of file transactions: whatever calls are refused and wherever the process is killed, a
  recovery leaves a state of the transaction again, and when it succeeds the files are all as before
  or all as intended.
\<close>

section \<open>Steps of a transaction\<close>

abbreviation tview :: "string \<Rightarrow> (path \<Rightarrow> bytes option) \<Rightarrow> disk \<Rightarrow> bool" where
  "tview ident \<equiv> view (tx_dirs ident)"

lemma persist_triple:
  "triple honest (tview ident F) (persist_journal h (tx_dir ident) j)
    (\<lambda>_ d. \<exists>b. th_to_vec h j = Inr b \<and> tview ident (F(journal_path ident := Some b)) d)
    (\<lambda>_ d. tview ident F d \<or> (\<exists>b. th_to_vec h j = Inr b \<and> tview ident (F(journal_path ident := Some b)) d))
    (\<lambda>d. tview ident F d \<or> (\<exists>b. th_to_vec h j = Inr b \<and> tview ident (F(journal_path ident := Some b)) d))"
proof (cases "th_to_vec h j")
  case (Inl e)
  then show ?thesis by (simp add: persist_journal_def pr_lift_sum_def triple_fail)
next
  case (Inr b)
  have dirs: "tx_dirs ident (take n (butlast (journal_path ident)))" for n
    using tx_path_facts(3) [of ident n "[]"] by (simp add: journal_path_def)
  from Inr show ?thesis
    unfolding persist_journal_def pr_lift_sum_def journal_path_def [symmetric] atomic_write_def
    by (simp, intro triple_map_err) (rule triple_conseq [OF view_atomic_publish [of "journal_path ident" "tx_dirs ident", OF tx_path_facts(1) dirs]]; simp)
qed

lemma current_revision_triple:
  assumes "\<not> is_temp p"
  shows "triple honest (tview ident F) (current_revision h p)
    (\<lambda>r d. r = map_option (v03_revision h) (F p) \<and> tview ident F d) (\<lambda>_. tview ident F) (tview ident F)"
proof -
  have "triple honest (tview ident F) (pr_attempt (root_read p))
      (\<lambda>r d. (case r of Inr b \<Rightarrow> F p = Some b | Inl e \<Rightarrow> e = NotFound \<longrightarrow> F p = None) \<and> tview ident F d)
      (\<lambda>_. tview ident F) (tview ident F)"
    by (rule triple_attempt) (use view_root_read [OF assms] in simp)
  then show ?thesis
    unfolding current_revision_def
    by (rule triple_bind) (auto intro!: triple_pure triple_return triple_fail split: sum.split)
qed

lemma read_regular_file_triple:
  assumes "\<not> is_temp p"
  shows "triple honest (tview ident F) (read_regular_file p) (\<lambda>b d. F p = Some b \<and> tview ident F d)
    (\<lambda>_. tview ident F) (tview ident F)"
  unfolding read_regular_file_def
  by (rule triple_map_err, rule triple_conseq [OF view_root_read [OF assms]]) auto

lemma cleanup_triple:
  "triple honest (tview ident F) (cleanup_transaction (tx_dir ident))
    (\<lambda>_ d. \<exists>G. pruned (tx_dir ident) F G \<and> tview ident G d) E (\<lambda>d. \<exists>G. pruned (tx_dir ident) F G \<and> tview ident G d)"
proof -
  let ?C = "\<lambda>d. \<exists>G. pruned (tx_dir ident) F G \<and> tview ident G d"
  have gone: "pruned (tx_dir ident) F (\<lambda>q. if below (tx_dir ident) q then None else F q)" by (simp add: pruned_def)
  have removed: "triple honest (tview ident F) (pr_attempt (root_remove_dir_all (tx_dir ident))) (\<lambda>_. ?C) E ?C"
    by (rule triple_attempt, rule triple_conseq [OF view_root_remove_dir_all]) (use gone in blast)+
  have sync: "triple honest ?C (pr_ignore (tx_sync_dir p)) (\<lambda>_. ?C) E ?C" for p
    unfolding pr_ignore_def tx_sync_dir_def
    by (rule triple_bind [OF triple_attempt]) (rule stable_map_err, rule stable_root_sync_dir, simp add: triple_return)
  show ?thesis
    unfolding cleanup_transaction_def
    by (rule triple_bind [OF removed]) (auto intro!: triple_return sync split: sum.split)
qed

lemma payload_path:
  "join_path dir (payload_name ''stage'' i) = dir @ [''stage'', show_nat i]"
  "join_path dir (payload_name ''backup'' i) = dir @ [''backup'', show_nat i]"
proof -
  have "CHR ''/'' \<notin> set (show_nat i)"
    using show_nat_digits [of i] by (auto simp: list_all_iff is_ascii_digit_def)
  then show "join_path dir (payload_name ''stage'' i) = dir @ [''stage'', show_nat i]"
    "join_path dir (payload_name ''backup'' i) = dir @ [''backup'', show_nat i]"
    by (simp_all add: join_path_def payload_name_def split_on_plain)
qed

lemma stable_lift: "triple honest P (pr_lift r) (\<lambda>x d. r = Ok x \<and> P d) (\<lambda>_. P) P"
  by (cases r) (simp_all add: pr_lift_def triple_def pr_return_def pr_fail_def)

text \<open>Applying an entry changes its target to the intended contents, or leaves it.\<close>

lemma apply_entry_triple:
  assumes fits: "entry_fits h i e (p, b)" and user: "user_path p"
    and staged: "b \<noteq> None \<Longrightarrow> F (tx_dir ident @ [''stage'', show_nat i]) = b"
  shows "triple honest (tview ident F) (apply_entry h col (tx_dir ident) e scope) (\<lambda>_. tview ident (F(p := b)))
    (\<lambda>_ d. tview ident F d \<or> tview ident (F(p := b)) d) (\<lambda>d. tview ident F d \<or> tview ident (F(p := b)) d)"
proof -
  let ?C = "\<lambda>d. tview ident F d \<or> tview ident (F(p := b)) d"
  from fits have e: "entry_path (je_path e) = Ok p" "je_after_revision e = map_option (v03_revision h) b"
    "je_stage_file e = map_option (\<lambda>_. payload_name ''stage'' i) b" by (simp_all add: entry_fits_def)
  note up = user_path_facts [OF user]
  have publish: "triple honest (tview ident F) (pr_map_err (TxIo p) (if create then atomic_create p c else atomic_write p c))
      (\<lambda>_. tview ident (F(p := Some c))) (\<lambda>_ d. tview ident F d \<or> tview ident (F(p := Some c)) d)
      (\<lambda>d. tview ident F d \<or> tview ident (F(p := Some c)) d)" for create c
    unfolding atomic_create_def atomic_write_def
    by (rule triple_map_err) (use view_atomic_publish [of p "tx_dirs ident", OF up(1,4)] in simp)
  show ?thesis
    unfolding apply_entry_def
  proof (rule triple_bind [OF triple_or_left [OF stable_lift]], rule triple_pure,
      rule triple_bind [OF triple_or_left [OF stable_lift]], rule triple_pure)
    fix q assume "entry_path (je_path e) = Ok q"
    then have q: "q = p" using e(1) by simp
    show "triple honest (tview ident F) (case je_stage_file e of
       None \<Rightarrow> pr_map_err (TxIo q) (root_remove_file q)
     | Some stage_file \<Rightarrow>
         pr_bind (read_regular_file (join_path (tx_dir ident) stage_file)) (\<lambda>bytes.
         if v03_revision h bytes \<noteq> (case je_after_revision e of None \<Rightarrow> '''' | Some r \<Rightarrow> r)
         then pr_fail (TxInvalidJournal (''staged contents for '' @ quoted (je_path e) @ '' do not match the journal''))
         else pr_map_err (TxIo q) (if je_before_revision e = None then atomic_create q bytes else atomic_write q bytes)))
       (\<lambda>_. tview ident (F(p := b))) (\<lambda>_. ?C) ?C"
    proof (cases b)
      case None
      then show ?thesis by (simp add: e(3) q) (rule triple_map_err, rule view_root_remove_file [OF up(1)])
    next
      case (Some c)
      have read: "triple honest (tview ident F) (read_regular_file (tx_dir ident @ [''stage'', show_nat i]))
          (\<lambda>x d. x = c \<and> tview ident F d) (\<lambda>_. ?C) ?C"
        by (rule triple_conseq [OF read_regular_file_triple [OF tx_path_facts(2)]]) (use staged Some in auto)
      show ?thesis
        unfolding e(3) q by (simp add: Some payload_path(1), rule triple_bind [OF read [unfolded Some]], rule triple_pure)
           (use publish in \<open>auto intro!: triple_fail\<close>)
    qed
  qed
qed

section \<open>Rolling forward\<close>

text \<open>Writing a journal of the same entries keeps a committing state.\<close>

lemma persist_committing:
  assumes "committing h ident f ts i j F" "targets_ok h f ts"
    and j': "jn_entries j' = jn_entries j" "jn_version j' = 1" "jn_phase j' = PhaseCommitting"
  shows "triple honest (tview ident F) (persist_journal h (tx_dir ident) j')
    (\<lambda>_. files_in ident (committing h ident f ts i j')) (\<lambda>_. files_in ident (tx_state h ident f ts)) (files_in ident (tx_state h ident f ts))"
proof -
  have old: "tview ident F d \<Longrightarrow> files_in ident (tx_state h ident f ts) d" for d
    by (erule files_inI) (rule committing_weaken [OF assms(1)])
  have new: "files_in ident (committing h ident f ts i j') d"
    if "th_to_vec h j' = Inr b" "tview ident (F(journal_path ident := Some b)) d" for b d
    using that(2) committing_journal [OF assms(1) that(1) j' assms(2)] by (rule files_inI)
  then have state: "files_in ident (tx_state h ident f ts) d"
    if "th_to_vec h j' = Inr b" "tview ident (F(journal_path ident := Some b)) d" for b d
    using that committing_weaken unfolding files_in_def by blast
  show ?thesis by (rule triple_conseq [OF persist_triple]) (use old new state in blast)+
qed

lemma targets_at:
  assumes "targets_ok h f ts" "i < length ts" "ts ! i = (p, b)"
  shows "user_path p" "\<not> is_temp p"
    "map_option (v03_revision h) (f p) = map_option (v03_revision h) b \<Longrightarrow> f p = b"
proof -
  have "(p, b) \<in> set ts" using nth_mem [OF assms(2)] assms(3) by simp
  then have t: "user_path p" "map_option (v03_revision h) (f p) = map_option (v03_revision h) b \<longrightarrow> f p = b"
    using assms(1) unfolding targets_ok_def by fastforce+
  show "user_path p" by (rule t(1))
  then show "\<not> is_temp p" by (rule user_path_facts(1))
  show "map_option (v03_revision h) (f p) = map_option (v03_revision h) b \<Longrightarrow> f p = b" using t(2) by blast
qed

text \<open>
  A target of a committing state that does not have the intended revision has its old contents.
\<close>

lemma committing_target:
  assumes "committing h ident f ts i j F" "targets_ok h f ts" "i < length ts" "ts ! i = (p, b)"
    and "map_option (v03_revision h) (F p) = map_option (v03_revision h) b"
  shows "F p = b"
proof -
  have "distinct (map fst ts)" using assms(2) by (simp add: targets_ok_def)
  then have "after_files f ts p = b" using after_files_at [OF _ assms(3), of f] assms(4) by simp
  then have "F p = f p \<or> F p = b"
    using assms(1) targets_at(1) [OF assms(2-4)] unfolding committing_def by auto
  then show ?thesis using targets_at(3) [OF assms(2-4)] assms(5) by auto
qed

lemma roll_forward_triple:
  assumes "targets_ok h f ts" "i \<le> length ts" "entries = drop i (jn_entries j)"
  shows "triple honest (files_in ident (committing h ident f ts i j)) (roll_forward h col (tx_dir ident) j i entries)
    (\<lambda>j' d. \<exists>k. files_in ident (committing h ident f ts (length ts) (j\<lparr>jn_applied := k\<rparr>)) d \<and> j' = j\<lparr>jn_applied := k\<rparr>)
    (\<lambda>_. files_in ident (tx_state h ident f ts)) (files_in ident (tx_state h ident f ts))"
  using assms(2,3)
proof (induction entries arbitrary: i j)
  case Nil
  have "length ts \<le> i" if "committing h ident f ts i j F" for F
    using that Nil.prems by (auto simp: committing_def entries_fit_def)
  then show ?case
    using Nil.prems(1) unfolding roll_forward.simps files_in_def
    by (intro triple_return) (auto intro!: exI [of _ "jn_applied j"])
next
  case (Cons e entries)
  let ?S = "files_in ident (tx_state h ident f ts)"
  let ?Q = "\<lambda>j' d. \<exists>k. files_in ident (committing h ident f ts (length ts) (j\<lparr>jn_applied := k\<rparr>)) d \<and> j' = j\<lparr>jn_applied := k\<rparr>"
  show ?case
  proof (rule triple_files_in)
    fix F assume F: "committing h ident f ts i j F"
    then have j: "entries_fit h (jn_entries j) ts" "jn_version j = 1" "jn_phase j = PhaseCommitting"
      by (simp_all add: committing_def)
    have len: "i < length (jn_entries j)" using Cons.prems(2) by (metis drop_all leI list.distinct(1))
    then have i: "i < length ts" and e: "jn_entries j ! i = e" and rest: "entries = drop (Suc i) (jn_entries j)"
      using Cons.prems(2) j(1) by (auto simp: entries_fit_def Cons_nth_drop_Suc [symmetric])
    obtain p b where t: "ts ! i = (p, b)" by force
    have fits: "entry_fits h i e (p, b)" using j(1) i e t by (auto simp: entries_fit_def)
    note up = targets_at [OF assms(1) i t]
    have state: "tview ident F d \<Longrightarrow> ?S d" for d by (erule files_inI) (rule committing_weaken [OF F])
    have staged: "b \<noteq> None \<Longrightarrow> F (tx_dir ident @ [''stage'', show_nat i]) = b"
      using F i t unfolding committing_def staged_def by (metis snd_conv)
    txt \<open>Writing the journal after the entry and going on with the rest.\<close>
    have next_entry: "triple honest (tview ident G)
        (pr_bind (persist_journal h (tx_dir ident) (j\<lparr>jn_applied := k\<rparr>)) (\<lambda>_. roll_forward h col (tx_dir ident) (j\<lparr>jn_applied := k\<rparr>) (Suc i) entries))
        ?Q (\<lambda>_. ?S) ?S" if G: "committing h ident f ts (Suc i) j G" for G k
    proof (rule triple_bind)
      show "triple honest (tview ident G) (persist_journal h (tx_dir ident) (j\<lparr>jn_applied := k\<rparr>))
          (\<lambda>_. files_in ident (committing h ident f ts (Suc i) (j\<lparr>jn_applied := k\<rparr>))) (\<lambda>_. ?S) ?S"
        by (rule persist_committing [OF G assms(1)]) (simp_all add: j)
      show "triple honest (files_in ident (committing h ident f ts (Suc i) (j\<lparr>jn_applied := k\<rparr>)))
          (roll_forward h col (tx_dir ident) (j\<lparr>jn_applied := k\<rparr>) (Suc i) entries) ?Q (\<lambda>_. ?S) ?S"
        by (rule triple_conseq [OF Cons.IH]) (use i rest in auto)
    qed
    have applied: "committing h ident f ts (Suc i) j (F(p := b))" by (rule committing_apply [OF F i assms(1) t])
    then have state': "tview ident (F(p := b)) d \<Longrightarrow> ?S d" for d using committing_weaken by (blast intro: files_inI)
    have perform: "triple honest (tview ident F) (pr_bind (apply_entry h col (tx_dir ident) e (jn_scope j)) (\<lambda>_.
        let journal = j\<lparr>jn_applied := Suc i\<rparr> in pr_bind (persist_journal h (tx_dir ident) journal) (\<lambda>_.
        roll_forward h col (tx_dir ident) journal (Suc i) entries))) ?Q (\<lambda>_. ?S) ?S"
      unfolding Let_def
      by (rule triple_bind [OF triple_conseq [OF apply_entry_triple [of h i e p b F ident col "jn_scope j", OF fits up(1) staged]] next_entry [OF applied]])
         (use state state' in blast)+
    have skip: "triple honest (tview ident F) (let journal = j\<lparr>jn_applied := max (jn_applied j) (Suc i)\<rparr> in
        pr_bind (persist_journal h (tx_dir ident) journal) (\<lambda>_. roll_forward h col (tx_dir ident) journal (Suc i) entries))
        ?Q (\<lambda>_. ?S) ?S" if "map_option (v03_revision h) (F p) = je_after_revision e"
    proof -
      have "F p = b" using committing_target [OF F assms(1) i t] that fits by (simp add: entry_fits_def)
      then have "committing h ident f ts (Suc i) j F" using committing_skip [OF F i] t by simp
      from next_entry [OF this] show ?thesis by (simp add: Let_def)
    qed
    show "triple honest (tview ident F) (roll_forward h col (tx_dir ident) j i (e # entries)) ?Q (\<lambda>_. ?S) ?S"
      unfolding roll_forward.simps
    proof (rule triple_bind [OF triple_conseq [OF stable_lift]], assumption, assumption, rule state, assumption, rule state, assumption,
        rule triple_pure)
      fix q assume "entry_path (je_path e) = Ok q"
      then have q: "q = p" using fits by (simp add: entry_fits_def)
      have current: "triple honest (tview ident F) (current_revision h q)
          (\<lambda>r d. r = map_option (v03_revision h) (F p) \<and> tview ident F d) (\<lambda>_. ?S) ?S"
        unfolding q by (rule triple_conseq [OF current_revision_triple [OF up(2)]]) (use state in auto)
      show "triple honest (tview ident F) (pr_bind (current_revision h q) (\<lambda>current.
         if current = je_after_revision e then
           (let journal = j\<lparr>jn_applied := max (jn_applied j) (Suc i)\<rparr> in
            pr_bind (persist_journal h (tx_dir ident) journal) (\<lambda>_. roll_forward h col (tx_dir ident) journal (Suc i) entries))
         else if current \<noteq> je_before_revision e then
           pr_fail (TxManualRecovery (quoted (je_path e) @ '' matches neither its before nor intended revision''))
         else
           pr_bind (apply_entry h col (tx_dir ident) e (jn_scope j)) (\<lambda>_.
           let journal = j\<lparr>jn_applied := Suc i\<rparr> in
           pr_bind (persist_journal h (tx_dir ident) journal) (\<lambda>_. roll_forward h col (tx_dir ident) journal (Suc i) entries))))
        ?Q (\<lambda>_. ?S) ?S"
        by (rule triple_bind [OF current], rule triple_pure) (use skip perform state in \<open>auto intro!: triple_fail\<close>)
    qed
  qed
qed

section \<open>Recovery\<close>

definition settled :: "tx_host \<Rightarrow> string \<Rightarrow> (path \<Rightarrow> bytes option) \<Rightarrow> targets \<Rightarrow> (path \<Rightarrow> bytes option) \<Rightarrow> bool" where
  "settled h ident f ts F \<longleftrightarrow> untouched h ident f F \<or> completed h ident f ts F"

lemma settled_state: "settled h ident f ts F \<Longrightarrow> tx_state h ident f ts F"
  by (auto simp: settled_def tx_state_def)

lemma files_in_mono: "files_in ident S d \<Longrightarrow> (\<And>F. S F \<Longrightarrow> T F) \<Longrightarrow> files_in ident T d"
  unfolding files_in_def by blast

lemma pruned_files:
  assumes "pruned (tx_dir ident) F G"
  shows "user_path q \<Longrightarrow> G q = F q" "G (journal_path ident) = F (journal_path ident) \<or> G (journal_path ident) = None"
proof -
  show "G q = F q" if "user_path q"
  proof -
    have "\<not> below (tx_dir ident) q" using that by (auto simp: user_path_def below_iff tx_dir_def)
    then show ?thesis using assms unfolding pruned_def by blast
  qed
  show "G (journal_path ident) = F (journal_path ident) \<or> G (journal_path ident) = None"
    using spec [OF assms [unfolded pruned_def], of "journal_path ident"] by auto
qed

lemma pruned_settled:
  assumes "pruned (tx_dir ident) F G"
  shows "untouched h ident f F \<Longrightarrow> untouched h ident f G" "completed h ident f ts F \<Longrightarrow> completed h ident f ts G"
proof -
  have user: "user_files_are G f" if "user_files_are F f" for f
    using that pruned_files(1) [OF assms] by (simp add: user_files_are_def)
  have journal: "journal_is h ident j G" if "journal_is h ident j F" "G (journal_path ident) \<noteq> None" for j
    using that pruned_files(2) [OF assms] by (auto simp: journal_is_def)
  have absent: "G (journal_path ident) = None" if "F (journal_path ident) = None"
    using that pruned_files(2) [OF assms] by auto
  show "untouched h ident f F \<Longrightarrow> untouched h ident f G" "completed h ident f ts F \<Longrightarrow> completed h ident f ts G"
    unfolding untouched_def completed_def using user journal absent by blast+
qed

lemma cleanup_settled:
  assumes "untouched h ident f F \<or> completed h ident f ts F"
  shows "triple honest (tview ident F) (cleanup_transaction (tx_dir ident)) (\<lambda>_. files_in ident (settled h ident f ts)) E
    (files_in ident (tx_state h ident f ts))"
proof -
  have *: "files_in ident (settled h ident f ts) d" if "pruned (tx_dir ident) F G" "tview ident G d" for G d
    using that(2) by (rule files_inI) (use assms pruned_settled [OF that(1)] in \<open>auto simp: settled_def\<close>)
  then have "files_in ident (tx_state h ident f ts) d" if "pruned (tx_dir ident) F G" "tview ident G d" for G d
    using that settled_state files_in_mono by metis
  with * show ?thesis by (intro triple_conseq [OF cleanup_triple]) blast+
qed

lemma stable_root_read: "triple honest P (root_read p) (\<lambda>_. P) (\<lambda>_. P) P"
  unfolding root_read_def by (intro stable)

lemma stable_check_payloads: "triple honest P (check_payloads h dir es) (\<lambda>_. P) (\<lambda>_. P) P"
proof (induction es)
  case (Cons e es)
  have "triple honest P (check_payload h dir what p fl r) (\<lambda>_. P) (\<lambda>_. P) P" for what p fl r
    unfolding check_payload_def read_regular_file_def
    by (auto intro!: stable_bind stable_basic stable_map_err stable_root_read split: option.split)
  then show ?case using Cons.IH by (auto intro!: stable_bind)
qed (simp add: stable_basic)

text \<open>Once every entry is applied, the journal is closed and the directory removed.\<close>

lemma finish_triple:
  assumes F: "committing h ident f ts (length ts) j F" and ok: "targets_ok h f ts"
    and j': "jn_version j' = 1" "jn_phase j' = PhaseCommitted"
  shows "triple honest (tview ident F) (persist_journal h (tx_dir ident) j')
    (\<lambda>_. files_in ident (completed h ident f ts)) (\<lambda>_. files_in ident (tx_state h ident f ts)) (files_in ident (tx_state h ident f ts))"
proof -
  have "completed h ident f ts (F(journal_path ident := Some b))" if "th_to_vec h j' = Inr b" for b
  proof -
    have "user_files_are F (after_files f ts)"
      using committing_all_applied [OF F] ok by (simp add: targets_ok_def)
    then have "user_files_are (F(journal_path ident := Some b)) (after_files f ts)"
      unfolding user_files_are_def using user_path_facts(2) by auto
    then show ?thesis using that j' by (auto simp: completed_def journal_is_def)
  qed
  then have new: "files_in ident (completed h ident f ts) d"
    if "th_to_vec h j' = Inr b" "tview ident (F(journal_path ident := Some b)) d" for b d
    using that by (blast intro: files_inI)
  then have state: "files_in ident (tx_state h ident f ts) d"
    if "th_to_vec h j' = Inr b" "tview ident (F(journal_path ident := Some b)) d" for b d
    using that by (metis files_in_mono tx_state_def)
  have old: "tview ident F d \<Longrightarrow> files_in ident (tx_state h ident f ts) d" for d
    by (erule files_inI) (rule committing_weaken [OF F])
  show ?thesis by (rule triple_conseq [OF persist_triple]) (use old new state in blast)+
qed

lemma recover_journal_triple:
  assumes ok: "targets_ok h f ts" and codec: "codec_ok h" and F: "tx_state h ident f ts F" "journal_is h ident j F"
  shows "triple honest (tview ident F) (recover_journal h col (tx_dir ident) j) (\<lambda>_. files_in ident (settled h ident f ts))
    (\<lambda>_. files_in ident (tx_state h ident f ts)) (files_in ident (tx_state h ident f ts))"
proof -
  let ?S = "files_in ident (tx_state h ident f ts)" and ?Q = "files_in ident (settled h ident f ts)"
  have unique: "j' = j" if "journal_is h ident j' F" for j'
    using that F(2) codec unfolding journal_is_def codec_ok_def by (metis option.inject sum.inject(2))
  have present: "F (journal_path ident) \<noteq> None" using F(2) by (auto simp: journal_is_def)
  have cases: "(untouched h ident f F \<and> jn_phase j = PhasePrepared \<and> jn_applied j = 0)
      \<or> (completed h ident f ts F \<and> jn_phase j = PhaseCommitted) \<or> committing h ident f ts 0 j F"
    using F(1) present unique unfolding tx_state_def untouched_def completed_def committing_def by blast
  have close: "triple honest (tview ident F) (pr_bind (cleanup_transaction (tx_dir ident)) (\<lambda>_. pr_return True)) (\<lambda>_. ?Q) (\<lambda>_. ?S) ?S"
    if "untouched h ident f F \<or> completed h ident f ts F" for F
    by (rule triple_bind [OF cleanup_settled [OF that]]) (simp add: triple_return)
  show ?thesis
  proof (cases "committing h ident f ts 0 j F")
    case False
    then show ?thesis using cases close [of F] by (auto simp: recover_journal_def)
  next
    case True
    then have j: "jn_version j = 1" "jn_phase j = PhaseCommitting" by (simp_all add: committing_def)
    let ?j = "j\<lparr>jn_phase := PhaseCommitting\<rparr>"
    have state: "tview ident F d \<Longrightarrow> ?S d" for d using F(1) by (blast intro: files_inI)
    have payloads: "triple honest (tview ident F) (check_payloads h (tx_dir ident) (jn_entries j)) (\<lambda>_. tview ident F) (\<lambda>_. ?S) ?S"
      by (rule triple_conseq [OF stable_check_payloads [of "tview ident F"]]) (use state in auto)
    have persist: "triple honest (tview ident F) (persist_journal h (tx_dir ident) ?j)
        (\<lambda>_. files_in ident (committing h ident f ts 0 ?j)) (\<lambda>_. ?S) ?S"
      by (rule persist_committing [OF True ok]) (simp_all add: j)
    note roll = roll_forward_triple [OF ok le0, of "jn_entries j" ?j ident col, simplified]
    have finish: "triple honest (files_in ident (committing h ident f ts (length ts) (?j\<lparr>jn_applied := k\<rparr>)))
        (pr_bind (persist_journal h (tx_dir ident) (?j\<lparr>jn_applied := k\<rparr>\<lparr>jn_phase := PhaseCommitted\<rparr>))
          (\<lambda>_. pr_bind (cleanup_transaction (tx_dir ident)) (\<lambda>_. pr_return True))) (\<lambda>_. ?Q) (\<lambda>_. ?S) ?S" for k
    proof (rule triple_files_in)
      fix G assume G: "committing h ident f ts (length ts) (?j\<lparr>jn_applied := k\<rparr>) G"
      show "triple honest (tview ident G) (pr_bind (persist_journal h (tx_dir ident) (?j\<lparr>jn_applied := k\<rparr>\<lparr>jn_phase := PhaseCommitted\<rparr>))
          (\<lambda>_. pr_bind (cleanup_transaction (tx_dir ident)) (\<lambda>_. pr_return True))) (\<lambda>_. ?Q) (\<lambda>_. ?S) ?S"
        by (rule triple_bind [OF finish_triple [OF G ok]]) (auto simp: j intro!: triple_files_in close)
    qed
    show ?thesis
      unfolding recover_journal_def Let_def using j
      by (simp, intro triple_bind [OF payloads] triple_bind [OF persist] triple_bind [OF roll] triple_ex triple_pure_snd) (simp add: finish [simplified])
  qed
qed

lemma recover_one_triple:
  assumes ok: "targets_ok h f ts" and codec: "codec_ok h"
  shows "triple honest (files_in ident (tx_state h ident f ts)) (recover_one h col (tx_dir ident))
    (\<lambda>_. files_in ident (settled h ident f ts)) (\<lambda>_. files_in ident (tx_state h ident f ts)) (files_in ident (tx_state h ident f ts))"
proof (rule triple_files_in)
  fix F assume F: "tx_state h ident f ts F"
  let ?S = "files_in ident (tx_state h ident f ts)" and ?Q = "files_in ident (settled h ident f ts)"
  have state: "tview ident F d \<Longrightarrow> ?S d" for d using F by (blast intro: files_inI)
  have read: "triple honest (tview ident F) (pr_map_err (TxIo (journal_path ident)) (root_read (journal_path ident)))
      (\<lambda>b d. F (journal_path ident) = Some b \<and> tview ident F d) (\<lambda>_. ?S) ?S"
    by (rule triple_map_err, rule triple_conseq [OF view_root_read [OF tx_path_facts(1)]]) (use state in auto)
  have journal: "\<exists>j. th_to_vec h j = Inr b \<and> jn_version j = 1" if "F (journal_path ident) = Some b" for b
    using F that unfolding tx_state_def untouched_def completed_def committing_def journal_is_def by auto
  have bytes: "triple honest (tview ident F) (recover_bytes h col (tx_dir ident) b) (\<lambda>_. ?Q) (\<lambda>_. ?S) ?S"
    if b: "F (journal_path ident) = Some b" for b
  proof -
    from journal [OF b] obtain j where j: "th_to_vec h j = Inr b" by blast
    then have slice: "th_from_slice h b = Inr j" using codec by (simp add: codec_ok_def)
    have at: "journal_is h ident j F" using j b by (auto simp: journal_is_def)
    have checked: "triple honest (tview ident F) (pr_lift r) (\<lambda>_. tview ident F) (\<lambda>_. ?S) ?S" for r :: "(tx_error, unit) res"
      by (rule triple_conseq [OF stable_lift [of "tview ident F"]]) (use state in auto)
    show ?thesis
      unfolding recover_bytes_def slice pr_lift_sum_def
      by (auto intro!: triple_fail state triple_bind [OF checked] recover_journal_triple [OF ok codec F at])
  qed
  show "triple honest (tview ident F) (recover_one h col (tx_dir ident)) (\<lambda>_. ?Q) (\<lambda>_. ?S) ?S"
    unfolding recover_one_def journal_path_def [symmetric]
  proof (rule triple_bind [OF read], rule triple_pure)
    fix b assume b: "F (journal_path ident) = Some b"
    with journal codec have "th_version h b = Some 1" unfolding codec_ok_def by metis
    then show "triple honest (tview ident F)
       (if case th_version h b of None \<Rightarrow> False | Some v \<Rightarrow> 2 \<le> v \<and> v \<le> 4 then th_recover_runtime h (tx_dir ident) b
        else recover_bytes h col (tx_dir ident) b) (\<lambda>_. ?Q) (\<lambda>_. ?S) ?S"
      using bytes [OF b] by simp
  qed
qed

lemma recover_all_triple:
  assumes ok: "targets_ok h f ts" and codec: "codec_ok h"
    and "\<forall>q \<in> set dirs. q = tx_dir ident" "\<And>F. S F \<Longrightarrow> tx_state h ident f ts F" "\<And>F. dirs = [] \<Longrightarrow> S F \<Longrightarrow> settled h ident f ts F"
  shows "triple honest (files_in ident S) (recover_all h col dirs changed) (\<lambda>_. files_in ident (settled h ident f ts))
    (\<lambda>_. files_in ident (tx_state h ident f ts)) (files_in ident (tx_state h ident f ts))"
  using assms(3-5)
proof (induction dirs arbitrary: changed S)
  case Nil
  then show ?case by (auto intro!: triple_return elim: files_in_mono)
next
  case (Cons q dirs)
  have first: "triple honest (files_in ident S) (recover_one h col (tx_dir ident)) (\<lambda>_. files_in ident (settled h ident f ts))
      (\<lambda>_. files_in ident (tx_state h ident f ts)) (files_in ident (tx_state h ident f ts))"
    by (rule triple_conseq [OF recover_one_triple [OF ok codec]]) (use Cons.prems(2) in \<open>blast intro: files_in_mono\<close>)+
  have q: "q = tx_dir ident" using Cons.prems(1) by simp
  show ?case
    unfolding recover_all.simps q
    by (rule triple_bind [OF first], rule Cons.IH) (use Cons.prems(1) settled_state in auto)
qed

text \<open>The directories found are those that exist, so a journal is not overlooked.\<close>

lemma check_directories_exact:
  "triple honest (\<lambda>e. e = d) (check_directories p es)
    (\<lambda>ds e. e = d \<and> (\<forall>q \<in> set ds. \<exists>x. q = p @ [x] \<and> node_at d q = Some NDir) \<and> (\<forall>x. (x, NDir) \<in> set es \<longrightarrow> ds \<noteq> []))
    (\<lambda>_ e. e = d) (\<lambda>e. e = d)"
proof (induction es)
  case (Cons entry es)
  obtain x n where en: "entry = (x, n)" by force
  have opened: "triple honest (\<lambda>e. e = d) (sys_open_dir (p @ [x])) (\<lambda>_ e. node_at d (p @ [x]) = Some NDir \<and> e = d) (\<lambda>_ e. e = d) (\<lambda>e. e = d)"
    unfolding sys_open_dir_def by (rule triple_syscall) (auto split: option.splits node.splits)
  show ?case
  proof (cases "n = NDir")
    case True
    show ?thesis
      unfolding en check_directories.simps using True
      by (simp, intro triple_bind [OF opened] triple_pure triple_bind [OF Cons.IH] triple_return) auto
  next
    case False
    then show ?thesis unfolding en by (simp, intro triple_conseq [OF Cons.IH]) auto
  qed
qed (simp add: triple_return)

lemma sort_empty: "sort xs = [] \<longleftrightarrow> xs = []"
  by (metis set_empty set_sort)

lemma child_directories_exact:
  assumes wf: "wf_disk d"
  shows "triple honest (\<lambda>e. e = d) (child_directories p)
    (\<lambda>ds e. e = d \<and> (\<forall>q \<in> set ds. \<exists>x. q = p @ [x] \<and> node_at d q = Some NDir)
      \<and> (ds = [] \<longrightarrow> (\<forall>x r. r \<noteq> [] \<longrightarrow> file_at d (p @ x # r) = None)))
    (\<lambda>_ e. e = d) (\<lambda>e. e = d)"
proof -
  let ?Q = "\<lambda>ds e. e = d \<and> (\<forall>q \<in> set ds. \<exists>x. q = p @ [x] \<and> node_at d q = Some NDir)
      \<and> (ds = [] \<longrightarrow> (\<forall>x r. r \<noteq> [] \<longrightarrow> file_at d (p @ x # r) = None))"
  have opened: "triple honest (\<lambda>e. e = d) (pr_attempt (open_dir p))
      (\<lambda>r e. (case r of Inr q \<Rightarrow> q = p | Inl x \<Rightarrow> x = NotFound \<longrightarrow> (\<forall>rest. file_at d (p @ rest) = None)) \<and> e = d) (\<lambda>_ e. e = d) (\<lambda>e. e = d)"
    by (rule triple_attempt, rule triple_conseq [OF read_open_dir [OF wf]]) auto
  have listed: "(x, NDir) \<in> set (map (\<lambda>(q, n). (last q, n)) (filter (\<lambda>(q, _). q \<noteq> [] \<and> butlast q = p) (dk_names d)))"
    if "file_at d (p @ x # r) \<noteq> None" "r \<noteq> []" for x r
  proof -
    have "node_at d ((p @ [x]) @ r) \<noteq> None" using that(1) unfolding file_at_def by (metis append.assoc append_Cons append_Nil node_content.simps(4))
    then have "node_at d (p @ [x]) = Some NDir" by (rule wf_prefix [OF wf _ that(2)])
    then have "(p @ [x], NDir) \<in> set (dk_names d)" by (auto simp: node_at_def dest: bt_get_in_set)
    then show ?thesis by (force intro!: image_eqI [where x = "(p @ [x], NDir)"])
  qed
  have entries: "triple honest (\<lambda>e. e = d) (sys_entries p)
      (\<lambda>es e. (\<forall>x r. r \<noteq> [] \<longrightarrow> file_at d (p @ x # r) \<noteq> None \<longrightarrow> (x, NDir) \<in> set es) \<and> e = d) (\<lambda>_ e. e = d) (\<lambda>e. e = d)"
    unfolding sys_entries_def by (rule triple_syscall) (use listed in auto)
  show ?thesis
    unfolding child_directories_def
  proof (rule triple_bind [OF opened], rule triple_pure)
    fix r assume r: "case r of Inr q \<Rightarrow> q = p | Inl x \<Rightarrow> x = NotFound \<longrightarrow> (\<forall>rest. file_at d (p @ rest) = None)"
    show "triple honest (\<lambda>e. e = d) (case r of Inl e \<Rightarrow> if e = NotFound then pr_return [] else pr_fail e
        | Inr dir \<Rightarrow> pr_bind (sys_entries dir) (\<lambda>entries. pr_bind (check_directories p entries) (\<lambda>result. pr_return (sort result))))
        ?Q (\<lambda>_ e. e = d) (\<lambda>e. e = d)"
    proof (cases r)
      case (Inl x)
      then show ?thesis using r by (auto intro!: triple_return triple_fail)
    next
      case (Inr q)
      then have q: "q = p" using r by simp
      show ?thesis
        unfolding Inr q sum.case
        by (rule triple_bind [OF entries], rule triple_pure, rule triple_bind [OF check_directories_exact], rule triple_return)
           (auto simp: sort_empty)
    qed
  qed
qed

text \<open>The lock file is of no concern to the states of a transaction.\<close>

lemma state_without_lock:
  assumes "targets_ok h f ts"
  shows "tx_state h ident f ts F \<Longrightarrow> tx_state h ident f ts (F(write_lock_path := c))"
proof -
  have lock: "\<not> user_path write_lock_path" by (simp add: user_path_def)
  have j: "journal_path ident \<noteq> write_lock_path" "tx_dir ident @ q \<noteq> write_lock_path" for q
    by (simp_all add: journal_path_def tx_dir_def TRANSACTIONS_DIR_def write_lock_path_def)
  have t: "fst (ts ! k) \<noteq> write_lock_path" if "k < length ts" for k
    using targets_at(1) [OF assms that, of "fst (ts ! k)" "snd (ts ! k)"] lock by auto
  have user: "user_files_are (F(write_lock_path := c)) g" if "user_files_are F g" for g
    using that lock by (auto simp: user_files_are_def)
  have journal: "journal_is h ident i (F(write_lock_path := c)) = journal_is h ident i F" for i
    using j by (simp add: journal_is_def)
  have comm: "committing h ident f ts 0 i (F(write_lock_path := c))" if "committing h ident f ts 0 i F" for i
    using that j t lock unfolding committing_def journal staged_def by auto
  show "tx_state h ident f ts F \<Longrightarrow> tx_state h ident f ts (F(write_lock_path := c))"
    unfolding tx_state_def untouched_def completed_def journal using user comm j by (auto simp del: fun_upd_apply simp: fun_upd_other)
qed

lemma acquire_write_lock_triple:
  assumes "targets_ok h f ts"
  shows "triple honest (files_in ident (tx_state h ident f ts)) acquire_write_lock (\<lambda>_. files_in ident (tx_state h ident f ts))
    (\<lambda>_. files_in ident (tx_state h ident f ts)) (files_in ident (tx_state h ident f ts))"
proof (rule triple_files_in)
  fix F assume F: "tx_state h ident f ts F"
  let ?S = "files_in ident (tx_state h ident f ts)"
  have dirs: "tx_dirs ident (take k (butlast write_lock_path))" for k
    by (cases k) (auto simp: tx_dirs_def write_lock_path_def TRANSACTIONS_DIR_def take_Cons' split: if_splits)
  have temp: "write_lock_path \<noteq> []" "\<not> is_temp write_lock_path" by (simp_all add: write_lock_path_def is_temp_def)
  have weak: "\<exists>c. tview ident (F(write_lock_path := c)) d \<Longrightarrow> ?S d" for d
    using state_without_lock [OF assms F] by (blast intro: files_inI)
  have opened: "triple honest (tview ident F) (open_lock_file write_lock_path) (\<lambda>_. ?S) (\<lambda>_. ?S) ?S"
    by (rule triple_conseq [OF view_open_lock_file [of write_lock_path "tx_dirs ident" F, OF temp(1) dirs temp(2)]]) (use weak in auto)
  show "triple honest (tview ident F) acquire_write_lock (\<lambda>_. ?S) (\<lambda>_. ?S) ?S"
    unfolding acquire_write_lock_def by (rule triple_map_err, rule triple_bind [OF opened], rule stable_calls(7))
qed

lemma recover_pending_triple:
  assumes ok: "targets_ok h f ts" and codec: "codec_ok h"
  shows "triple honest (files_in ident (tx_state h ident f ts)) (recover_pending h col) (\<lambda>_. files_in ident (settled h ident f ts))
    (\<lambda>_. files_in ident (tx_state h ident f ts)) (files_in ident (tx_state h ident f ts))"
proof -
  let ?S = "files_in ident (tx_state h ident f ts)" and ?Q = "files_in ident (settled h ident f ts)"
  have absent: "settled h ident f ts F" if "tx_state h ident f ts F" "F (journal_path ident) = None" for F
    using that by (auto simp: tx_state_def settled_def committing_def journal_is_def)
  have jpath: "journal_path ident = TRANSACTIONS_DIR @ ident # [JOURNAL_FILE]" by (simp add: journal_path_def tx_dir_def)
  have opened: "triple honest ?S (pr_attempt (open_dir TRANSACTIONS_DIR)) (\<lambda>r d. ?S d \<and> (r = Inl NotFound \<longrightarrow> ?Q d)) (\<lambda>_. ?S) ?S"
  proof (rule triple_files_in, rule triple_each)
    fix F d assume F: "tx_state h ident f ts F" and d: "tview ident F d"
    have S: "?S d" using d F by (rule files_inI)
    have Q: "?Q d" if "\<forall>rest. file_at d (TRANSACTIONS_DIR @ rest) = None"
      using d by (rule files_inI, intro absent [OF F]) (use that view_file [OF d tx_path_facts(1), of ident] in \<open>simp add: jpath\<close>)
    show "triple honest (\<lambda>e. e = d) (pr_attempt (open_dir TRANSACTIONS_DIR)) (\<lambda>r d. ?S d \<and> (r = Inl NotFound \<longrightarrow> ?Q d)) (\<lambda>_. ?S) ?S"
      by (rule triple_attempt, rule triple_conseq [OF read_open_dir [OF view_wf [OF d]]]) (use S Q in auto)
  qed
  have children: "triple honest ?S (pr_map_err (TxIo TRANSACTIONS_DIR) (child_directories TRANSACTIONS_DIR))
      (\<lambda>ds d. (\<forall>q \<in> set ds. q = tx_dir ident) \<and> ?S d \<and> (ds = [] \<longrightarrow> ?Q d)) (\<lambda>_. ?S) ?S"
  proof (rule triple_files_in, rule triple_each)
    fix F d assume F: "tx_state h ident f ts F" and d: "tview ident F d"
    have S: "?S d" using d F by (rule files_inI)
    have Q: "?Q d" if "\<forall>x r. r \<noteq> [] \<longrightarrow> file_at d (TRANSACTIONS_DIR @ x # r) = None"
      using d by (rule files_inI, intro absent [OF F]) (use that view_file [OF d tx_path_facts(1), of ident] in \<open>simp add: jpath\<close>)
    have D: "q = tx_dir ident" if "q = TRANSACTIONS_DIR @ [x]" "node_at d q = Some NDir" for q x
      using view_dir [OF d that(2)] that(1) by (auto simp: tx_dirs_def tx_dir_def)
    show "triple honest (\<lambda>e. e = d) (pr_map_err (TxIo TRANSACTIONS_DIR) (child_directories TRANSACTIONS_DIR))
      (\<lambda>ds d. (\<forall>q \<in> set ds. q = tx_dir ident) \<and> ?S d \<and> (ds = [] \<longrightarrow> ?Q d)) (\<lambda>_. ?S) ?S"
      by (rule triple_map_err, rule triple_conseq [OF child_directories_exact [OF view_wf [OF d]]]) (use S Q D in blast)+
  qed
  have all: "triple honest (\<lambda>d. ?S d \<and> (ds = [] \<longrightarrow> ?Q d)) (recover_all h col ds changed) (\<lambda>_. ?Q) (\<lambda>_. ?S) ?S"
    if "\<forall>q \<in> set ds. q = tx_dir ident" for ds changed
  proof (cases "ds = []")
    case True
    then show ?thesis by (auto intro!: triple_return)
  next
    case False
    then show ?thesis
      by (intro triple_conseq [OF recover_all_triple [OF ok codec that, of "tx_state h ident f ts"]]) auto
  qed
  have locked: "triple honest ?S (pr_bind acquire_write_lock (\<lambda>_.
         pr_bind (pr_map_err (TxIo TRANSACTIONS_DIR) (child_directories TRANSACTIONS_DIR)) (\<lambda>directories.
         recover_all h col directories False))) (\<lambda>_. ?Q) (\<lambda>_. ?S) ?S"
    by (rule triple_bind [OF acquire_write_lock_triple [OF ok]], rule triple_bind [OF children], rule triple_pure, rule all)
  have after: "triple honest (\<lambda>d. ?S d \<and> (r = Inl NotFound \<longrightarrow> ?Q d)) (case r of
       Inl e \<Rightarrow> if e = NotFound then pr_return False else pr_fail (TxIo TRANSACTIONS_DIR e)
     | Inr _ \<Rightarrow> pr_bind acquire_write_lock (\<lambda>_.
         pr_bind (pr_map_err (TxIo TRANSACTIONS_DIR) (child_directories TRANSACTIONS_DIR)) (\<lambda>directories.
         recover_all h col directories False))) (\<lambda>_. ?Q) (\<lambda>_. ?S) ?S" for r :: "io_error + path"
  proof (cases r)
    case (Inl e)
    then show ?thesis by (auto intro!: triple_return triple_fail)
  next
    case (Inr q)
    then show ?thesis using triple_conseq [OF locked, of ?S] by simp
  qed
  show ?thesis
    unfolding recover_pending_def by (rule triple_bind [OF opened after])
qed

end
