(* ===== verification/Transaction_Properties.thy ===== *)
theory Transaction_Properties
  imports Transaction_Recovery
begin

text \<open>
  File transactions as a whole: committing leaves one of the states that recovery handles whatever
  happens on the way, so that together they change all files of a transaction or none.
\<close>

section \<open>Staging\<close>

definition changed_paths :: "baseline \<Rightarrow> baseline \<Rightarrow> string list \<Rightarrow> string list" where
  "changed_paths b a ps = filter (\<lambda>s. bt_get b s \<noteq> bt_get a s) ps"

definition targets_of :: "baseline \<Rightarrow> string list \<Rightarrow> targets" where
  "targets_of a ps = map (\<lambda>s. (split_on CHR ''/'' s, bt_get a s)) ps"

lemma entry_path_canonical:
  assumes "canonical_path s"
  shows "entry_path s = Ok (split_on CHR ''/'' s)"
proof -
  have p: "collection_path_from_str s = Ok (CollectionPath s)" using assms by (simp add: canonical_path_def)
  have comps: "portable_component c" if "c \<in> set (split_on CHR ''/'' s)" for c
    using from_str_components [OF p] that by simp
  have keep: "filter (\<lambda>c. c \<noteq> [] \<and> c \<noteq> ''.'') (split_on CHR ''/'' s) = split_on CHR ''/'' s"
    using comps by (auto simp: filter_id_conv portable_component_def)
  have "hd (split_on CHR ''/'' s) \<noteq> ''.''" using comps [of "hd (split_on CHR ''/'' s)"] by (auto simp: portable_component_def)
  moreover have "\<not> starts_with s ''/''"
  proof
    assume "starts_with s ''/''"
    then have "[] \<in> set (split_on CHR ''/'' s)" by (auto simp: starts_with_iff)
    with comps show False by (auto simp: portable_component_def)
  qed
  ultimately have "std_components s = split_on CHR ''/'' s" using keep by (simp add: std_components_def)
  then show ?thesis using p to_path_buf_id [OF p] by (simp add: entry_path_def collection_path_checked_def)
qed

lemma show_nat_inject [simp]: "show_nat i = show_nat k \<longleftrightarrow> i = k"
  by (metis decimal_value_show)

text \<open>Staging from an index on touches only payloads of this index and later ones.\<close>

definition staging_frame :: "string \<Rightarrow> nat \<Rightarrow> (path \<Rightarrow> bytes option) \<Rightarrow> (path \<Rightarrow> bytes option) \<Rightarrow> bool" where
  "staging_frame ident i F G \<longleftrightarrow>
     (\<forall>q. (\<forall>k kind. i \<le> k \<longrightarrow> q \<noteq> tx_dir ident @ [kind, show_nat k]) \<longrightarrow> G q = F q)"

lemma staging_frame_refl: "staging_frame ident i F F"
  by (simp add: staging_frame_def)

lemma staging_frame_write:
  assumes "staging_frame ident i F G" "i \<le> k"
  shows "staging_frame ident i F (G(tx_dir ident @ [kind, show_nat k] := c))"
  using assms by (auto simp: staging_frame_def)

lemma staging_frame_trans:
  assumes "staging_frame ident i F G" "staging_frame ident (Suc i) G H"
  shows "staging_frame ident i F H" "k \<le> i \<Longrightarrow> H (tx_dir ident @ [kind, show_nat k]) = G (tx_dir ident @ [kind, show_nat k])"
  using assms by (auto simp: staging_frame_def)

lemma write_payload_triple:
  assumes "kind = ''stage'' \<or> kind = ''backup''"
  shows "triple honest (tview ident F) (write_payload (tx_dir ident) kind i contents)
    (\<lambda>r d. r = map_option (\<lambda>_. payload_name kind i) contents
       \<and> (\<exists>G. tview ident G d \<and> (\<forall>q. q \<noteq> tx_dir ident @ [kind, show_nat i] \<longrightarrow> G q = F q)
            \<and> (contents \<noteq> None \<longrightarrow> G (tx_dir ident @ [kind, show_nat i]) = contents)))
    (\<lambda>_ d. \<exists>c. tview ident (F(tx_dir ident @ [kind, show_nat i] := c)) d) (\<lambda>d. \<exists>c. tview ident (F(tx_dir ident @ [kind, show_nat i] := c)) d)"
proof (cases contents)
  case None
  then show ?thesis by (auto simp: write_payload_def intro!: triple_return)
next
  case (Some b)
  have dirs: "tx_dirs ident (take n (butlast (tx_dir ident @ [kind, show_nat i])))" for n
    using tx_path_facts(3) [of ident n "[kind]"] by (simp add: butlast_append)
  have join: "join_path (tx_dir ident) (payload_name kind i) = tx_dir ident @ [kind, show_nat i]"
    using assms payload_path by auto
  have new: "triple honest (tview ident F) (pr_map_err (TxIo (tx_dir ident @ [kind, show_nat i])) (write_new_synced (tx_dir ident @ [kind, show_nat i]) b))
      (\<lambda>_. tview ident (F(tx_dir ident @ [kind, show_nat i] := Some b)))
      (\<lambda>_ d. \<exists>c. tview ident (F(tx_dir ident @ [kind, show_nat i] := c)) d) (\<lambda>d. \<exists>c. tview ident (F(tx_dir ident @ [kind, show_nat i] := c)) d)"
    by (rule triple_map_err, rule view_write_new_synced [OF tx_path_facts(2)]) (rule dirs)
  show ?thesis
    unfolding write_payload_def Some option.case join write_synced_def
    by (rule triple_bind [OF new])
       (auto intro!: triple_return exI [of _ "F(tx_dir ident @ [kind, show_nat i] := Some b)"])
qed

definition staged_entries :: "tx_host \<Rightarrow> string \<Rightarrow> baseline \<Rightarrow> nat \<Rightarrow> journal_entry list \<Rightarrow> string list \<Rightarrow> targets \<Rightarrow> (path \<Rightarrow> bytes option) \<Rightarrow> bool" where
  "staged_entries h ident b i es ps ts G \<longleftrightarrow> length es = length ts \<and> map je_path es = ps
     \<and> map je_before_revision es = map (\<lambda>s. map_option (v03_revision h) (bt_get b s)) ps
     \<and> (\<forall>k < length ts. entry_fits h (i + k) (es ! k) (ts ! k)
          \<and> (snd (ts ! k) \<noteq> None \<longrightarrow> G (tx_dir ident @ [''stage'', show_nat (i + k)]) = snd (ts ! k)))"

lemma stage_entries_triple:
  assumes "\<forall>s \<in> set (changed_paths b a ps). canonical_path s"
  shows "triple honest (tview ident F) (stage_entries h col scope (tx_dir ident) b a i ps)
    (\<lambda>es d. \<exists>G. tview ident G d \<and> staging_frame ident i F G
       \<and> staged_entries h ident b i es (changed_paths b a ps) (targets_of a (changed_paths b a ps)) G)
    (\<lambda>_ d. \<exists>G. tview ident G d \<and> staging_frame ident i F G) (\<lambda>d. \<exists>G. tview ident G d \<and> staging_frame ident i F G)"
  using assms
proof (induction ps arbitrary: F i)
  case Nil
  then show ?case
    by (auto simp: changed_paths_def targets_of_def staged_entries_def intro!: triple_return exI [of _ F] staging_frame_refl)
next
  case (Cons s ps)
  show ?case
  proof (cases "bt_get b s = bt_get a s")
    case True
    then show ?thesis using Cons.IH [of F i] Cons.prems by (simp add: changed_paths_def)
  next
    case False
    let ?C = "\<lambda>d. \<exists>G. tview ident G d \<and> staging_frame ident i F G"
    let ?cs = "changed_paths b a ps" and ?p = "tx_dir ident @ [''stage'', show_nat i]" and ?q = "tx_dir ident @ [''backup'', show_nat i]"
    have cs: "changed_paths b a (s # ps) = s # ?cs" using False by (simp add: changed_paths_def)
    have canon: "canonical_path s" "\<forall>s \<in> set ?cs. canonical_path s" using Cons.prems by (simp_all add: cs)
    have frame: "staging_frame ident i F (G(tx_dir ident @ [kind, show_nat i] := c))"
      if "\<forall>q. q \<noteq> ?p \<longrightarrow> G q = F q" for G kind c
      using that by (auto simp: staging_frame_def)
    have checked: "triple honest (tview ident F) (pr_lift r) (\<lambda>_. tview ident F) (\<lambda>_. ?C) ?C" for r :: "(tx_error, unit) res"
      by (rule triple_conseq [OF stable_lift [of "tview ident F"]]) (use staging_frame_refl in auto)
    have stage: "triple honest (tview ident F) (write_payload (tx_dir ident) ''stage'' i (bt_get a s))
        (\<lambda>r d. r = map_option (\<lambda>_. payload_name ''stage'' i) (bt_get a s)
           \<and> (\<exists>G. tview ident G d \<and> (\<forall>q. q \<noteq> ?p \<longrightarrow> G q = F q) \<and> (bt_get a s \<noteq> None \<longrightarrow> G ?p = bt_get a s))) (\<lambda>_. ?C) ?C"
      by (rule triple_conseq [OF write_payload_triple]) (use frame [of F] in auto)
    show ?thesis
      unfolding cs stage_entries.simps Let_def if_not_P [OF False]
    proof (rule triple_bind [OF checked], rule triple_bind [OF stage], rule triple_pure, unfold conj_assoc [symmetric], rule triple_ex)
      fix sf G assume sf: "sf = map_option (\<lambda>_. payload_name ''stage'' i) (bt_get a s)"
      show "triple honest (\<lambda>d. (tview ident G d \<and> (\<forall>q. q \<noteq> ?p \<longrightarrow> G q = F q)) \<and> (bt_get a s \<noteq> None \<longrightarrow> G ?p = bt_get a s))
        (pr_bind (write_payload (tx_dir ident) ''backup'' i (bt_get b s)) (\<lambda>backup_file.
         pr_bind (stage_entries h col scope (tx_dir ident) b a (Suc i) ps) (\<lambda>rest.
         pr_return (\<lparr>je_path = s, je_before_revision = map_option (v03_revision h) (bt_get b s),
          je_after_revision = map_option (v03_revision h) (bt_get a s), je_stage_file = sf, je_backup_file = backup_file\<rparr> # rest))))
        (\<lambda>es d. \<exists>G. (tview ident G d \<and> staging_frame ident i F G)
          \<and> staged_entries h ident b i es (s # ?cs) (targets_of a (s # ?cs)) G) (\<lambda>_. ?C) ?C"
      proof (rule triple_pure_snd, rule triple_pure_snd)
        assume G: "\<forall>q. q \<noteq> ?p \<longrightarrow> G q = F q" "bt_get a s \<noteq> None \<longrightarrow> G ?p = bt_get a s"
        have backup: "triple honest (tview ident G) (write_payload (tx_dir ident) ''backup'' i (bt_get b s))
            (\<lambda>_ d. \<exists>H. tview ident H d \<and> (\<forall>q. q \<noteq> ?q \<longrightarrow> H q = G q)) (\<lambda>_. ?C) ?C"
          by (rule triple_conseq [OF write_payload_triple]) (use frame [OF G(1)] in auto)
        show "triple honest (tview ident G)
          (pr_bind (write_payload (tx_dir ident) ''backup'' i (bt_get b s)) (\<lambda>backup_file.
           pr_bind (stage_entries h col scope (tx_dir ident) b a (Suc i) ps) (\<lambda>rest.
           pr_return (\<lparr>je_path = s, je_before_revision = map_option (v03_revision h) (bt_get b s),
            je_after_revision = map_option (v03_revision h) (bt_get a s), je_stage_file = sf, je_backup_file = backup_file\<rparr> # rest))))
          (\<lambda>es d. \<exists>G. (tview ident G d \<and> staging_frame ident i F G)
            \<and> staged_entries h ident b i es (s # ?cs) (targets_of a (s # ?cs)) G) (\<lambda>_. ?C) ?C"
        proof (rule triple_bind [OF backup], rule triple_ex, rule triple_pure_snd)
          fix bf H assume H: "\<forall>q. q \<noteq> ?q \<longrightarrow> H q = G q"
          have FH: "staging_frame ident i F H" using G(1) H by (auto simp: staging_frame_def)
          have rest: "triple honest (tview ident H) (stage_entries h col scope (tx_dir ident) b a (Suc i) ps)
              (\<lambda>es d. \<exists>K. tview ident K d \<and> staging_frame ident (Suc i) H K \<and> staged_entries h ident b (Suc i) es ?cs (targets_of a ?cs) K)
              (\<lambda>_. ?C) ?C"
            by (rule triple_conseq [OF Cons.IH [OF canon(2), of H "Suc i"]]) (use staging_frame_trans(1) [OF FH] in blast)+
          have add: "staged_entries h ident b i (\<lparr>je_path = s, je_before_revision = map_option (v03_revision h) (bt_get b s),
                je_after_revision = map_option (v03_revision h) (bt_get a s), je_stage_file = sf, je_backup_file = bf\<rparr> # es)
              (s # ?cs) (targets_of a (s # ?cs)) K"
            if "staging_frame ident (Suc i) H K" "staged_entries h ident b (Suc i) es ?cs (targets_of a ?cs) K" for es K
            using that(2) staging_frame_trans(2) [OF FH that(1), of i "''stage''"] G(2) H entry_path_canonical [OF canon(1)]
            unfolding staged_entries_def by (auto simp: targets_of_def entry_fits_def sf nth_Cons split: nat.splits)
          show "triple honest (tview ident H) (pr_bind (stage_entries h col scope (tx_dir ident) b a (Suc i) ps) (\<lambda>rest.
             pr_return (\<lparr>je_path = s, je_before_revision = map_option (v03_revision h) (bt_get b s),
              je_after_revision = map_option (v03_revision h) (bt_get a s), je_stage_file = sf, je_backup_file = bf\<rparr> # rest)))
            (\<lambda>es d. \<exists>G. (tview ident G d \<and> staging_frame ident i F G)
              \<and> staged_entries h ident b i es (s # ?cs) (targets_of a (s # ?cs)) G) (\<lambda>_. ?C) ?C"
            by (rule triple_bind [OF rest], rule triple_return) (use add staging_frame_trans(1) [OF FH] in blast)
        qed
      qed
    qed
  qed
qed

lemma staging_frame_untouched:
  assumes "staging_frame ident i F G"
  shows "user_path q \<Longrightarrow> G q = F q" "G (journal_path ident) = F (journal_path ident)"
proof -
  show "G q = F q" if "user_path q"
    using assms user_path_facts(3) [OF that] unfolding staging_frame_def by blast
  have "\<forall>k kind. i \<le> k \<longrightarrow> journal_path ident \<noteq> tx_dir ident @ [kind, show_nat k]" by (simp add: journal_path_def)
  then show "G (journal_path ident) = F (journal_path ident)" using assms unfolding staging_frame_def by blast
qed

definition prepared ::
  "tx_host \<Rightarrow> string \<Rightarrow> (path \<Rightarrow> bytes option) \<Rightarrow> baseline \<Rightarrow> string list \<Rightarrow> targets \<Rightarrow> journal \<Rightarrow> (path \<Rightarrow> bytes option) \<Rightarrow> bool" where
  "prepared h ident f b ps ts j G \<longleftrightarrow> user_files_are G f \<and> staged ident ts G \<and> journal_is h ident j G
     \<and> entries_fit h (jn_entries j) ts \<and> jn_version j = 1 \<and> jn_phase j = PhasePrepared \<and> jn_applied j = 0
     \<and> map je_path (jn_entries j) = ps
     \<and> map je_before_revision (jn_entries j) = map (\<lambda>s. map_option (v03_revision h) (bt_get b s)) ps"

lemma prepared_untouched: "prepared h ident f b ps ts j G \<Longrightarrow> untouched h ident f G"
  by (auto simp: prepared_def untouched_def)

lemma prune_untouched:
  "triple honest (files_in ident (untouched h ident f)) (pr_attempt (root_remove_dir_all (tx_dir ident)))
    (\<lambda>_. files_in ident (untouched h ident f)) E (files_in ident (untouched h ident f))"
proof (rule triple_files_in)
  fix F assume F: "untouched h ident f F"
  have part: "pruned (tx_dir ident) F G \<Longrightarrow> tview ident G d \<Longrightarrow> files_in ident (untouched h ident f) d" for G d
    using pruned_settled(1) [OF _ F] by (blast intro: files_inI)
  have gone: "pruned (tx_dir ident) F (\<lambda>q. if below (tx_dir ident) q then None else F q)" by (simp add: pruned_def)
  show "triple honest (tview ident F) (pr_attempt (root_remove_dir_all (tx_dir ident)))
      (\<lambda>_. files_in ident (untouched h ident f)) E (files_in ident (untouched h ident f))"
    by (rule triple_attempt, rule triple_conseq [OF view_root_remove_dir_all]) (use part gone in blast)+
qed

lemma cleanup_untouched:
  "triple honest (files_in ident (untouched h ident f)) (cleanup_transaction (tx_dir ident))
    (\<lambda>_. files_in ident (untouched h ident f)) E (files_in ident (untouched h ident f))"
proof -
  let ?U = "files_in ident (untouched h ident f)"
  have sync: "triple honest ?U (pr_ignore (tx_sync_dir p)) (\<lambda>_. ?U) E ?U" for p
    unfolding pr_ignore_def tx_sync_dir_def
    by (rule triple_bind [OF triple_attempt]) (rule stable_map_err, rule stable_root_sync_dir, simp add: triple_return)
  show ?thesis
    unfolding cleanup_transaction_def
    by (rule triple_bind [OF prune_untouched]) (auto intro!: triple_return sync split: sum.split)
qed

lemma stage_transaction_triple:
  fixes b a :: baseline
  defines "ps \<equiv> changed_paths b a (sort_dedup (bt_keys b @ bt_keys a))"
  assumes canon: "\<forall>s \<in> set ps. canonical_path s" and F: "user_files_are F f" "F (journal_path ident) = None"
  shows "triple honest (tview ident F) (stage_transaction h col scope ident (tx_dir ident) b a)
    (\<lambda>r d. case r of Some j \<Rightarrow> files_in ident (prepared h ident f b ps (targets_of a ps) j) d
       | None \<Rightarrow> ps = [] \<and> files_in ident (untouched h ident f) d)
    (\<lambda>_. files_in ident (untouched h ident f)) (files_in ident (untouched h ident f))"
proof -
  let ?U = "files_in ident (untouched h ident f)"
  let ?Q = "\<lambda>r d. case r of Some j \<Rightarrow> files_in ident (prepared h ident f b ps (targets_of a ps) j) d | None \<Rightarrow> ps = [] \<and> ?U d"
  have unt: "?U d" if "tview ident G d" "staging_frame ident i F G" for G d i
    using that(1) by (rule files_inI)
      (use F staging_frame_untouched [OF that(2)] in \<open>auto simp: untouched_def user_files_are_def\<close>)
  have dirs: "triple honest (tview ident F) (pr_map_err (TxIo p) (create_dir_all (tx_dir ident @ [''backup'']))) (\<lambda>_. tview ident F) (\<lambda>_. ?U) ?U" for p
    by (rule triple_map_err, rule triple_conseq [OF view_create_dir_all [of "tx_dirs ident" "tx_dir ident @ [''backup'']" F, OF tx_path_facts(3)]])
       (use unt [OF _ staging_frame_refl] in auto)
  have entries: "triple honest (tview ident F) (stage_entries h col scope (tx_dir ident) b a 0 (sort_dedup (bt_keys b @ bt_keys a)))
      (\<lambda>es d. \<exists>G. staged_entries h ident b 0 es ps (targets_of a ps) G \<and> staging_frame ident 0 F G \<and> tview ident G d) (\<lambda>_. ?U) ?U"
    unfolding ps_def by (rule triple_conseq [OF stage_entries_triple [OF canon [unfolded ps_def]]]) (use unt in blast)+
  have persist: "triple honest (tview ident G) (pr_bind (persist_journal h (tx_dir ident) j) (\<lambda>_. pr_return (Some j))) ?Q (\<lambda>_. ?U) ?U"
    if G: "staged_entries h ident b 0 es ps (targets_of a ps) G" "staging_frame ident 0 F G"
      and j: "j = \<lparr>jn_version = 1, jn_id = ident, jn_scope = scope, jn_phase = PhasePrepared, jn_applied = 0, jn_entries = es\<rparr>" for G es j
  proof -
    have prep: "prepared h ident f b ps (targets_of a ps) j (G(journal_path ident := Some c))" if "th_to_vec h j = Inr c" for c
    proof -
      have "user_files_are (G(journal_path ident := Some c)) f"
        using F(1) staging_frame_untouched(1) [OF G(2)] user_path_facts(2) unfolding user_files_are_def by auto
      moreover have "tx_dir ident @ [''stage'', show_nat k] \<noteq> journal_path ident" for k by (simp add: journal_path_def)
      ultimately show ?thesis
        using G(1) that by (auto simp: prepared_def staged_entries_def staged_def journal_is_def entries_fit_def j)
    qed
    then have finished: "files_in ident (prepared h ident f b ps (targets_of a ps) j) d"
      if "th_to_vec h j = Inr c" "tview ident (G(journal_path ident := Some c)) d" for c d
      using that by (blast intro: files_inI)
    then have part: "?U d" if "th_to_vec h j = Inr c" "tview ident (G(journal_path ident := Some c)) d" for c d
      using that prepared_untouched files_in_mono by metis
    have "triple honest (tview ident G) (persist_journal h (tx_dir ident) j)
        (\<lambda>_. files_in ident (prepared h ident f b ps (targets_of a ps) j)) (\<lambda>_. ?U) ?U"
      by (rule triple_conseq [OF persist_triple]) (use finished part unt [OF _ G(2)] in blast)+
    then show ?thesis by (rule triple_bind) (simp add: triple_return)
  qed
  show ?thesis
    unfolding stage_transaction_def
  proof (rule triple_bind [OF dirs], rule triple_bind [OF entries], rule triple_ex, rule triple_pure, rule triple_pure)
    fix es G assume G: "staged_entries h ident b 0 es ps (targets_of a ps) G" "staging_frame ident 0 F G"
    have sync: "triple honest (tview ident G) (tx_sync_dir p) (\<lambda>_. tview ident G) (\<lambda>_. ?U) ?U" for p
      unfolding tx_sync_dir_def
      by (rule triple_conseq [OF stable_map_err [OF stable_root_sync_dir [of "tview ident G"]]]) (use unt [OF _ G(2)] in auto)
    have empty: "triple honest (tview ident G) (pr_bind (cleanup_transaction (tx_dir ident)) (\<lambda>_. pr_return None)) ?Q (\<lambda>_. ?U) ?U"
      if "ps = []"
    proof (rule triple_bind)
      show "triple honest (tview ident G) (cleanup_transaction (tx_dir ident)) (\<lambda>_. ?U) (\<lambda>_. ?U) ?U"
        by (rule triple_conseq [OF cleanup_untouched]) (use unt [OF _ G(2)] in auto)
    qed (use that in \<open>auto intro!: triple_return\<close>)
    have "es = [] \<Longrightarrow> ps = []" using G(1) by (simp add: staged_entries_def)
    then show "triple honest (tview ident G) (if es = [] then pr_bind (cleanup_transaction (tx_dir ident)) (\<lambda>_. pr_return None)
       else pr_bind (tx_sync_dir (tx_dir ident @ [''stage''])) (\<lambda>_. pr_bind (tx_sync_dir (tx_dir ident @ [''backup''])) (\<lambda>_.
         let journal = \<lparr>jn_version = 1, jn_id = ident, jn_scope = scope, jn_phase = PhasePrepared, jn_applied = 0, jn_entries = es\<rparr> in
         pr_bind (persist_journal h (tx_dir ident) journal) (\<lambda>_. pr_return (Some journal))))) ?Q (\<lambda>_. ?U) ?U"
    proof (cases "es = []")
      case False
      show ?thesis unfolding if_not_P [OF False] Let_def
        by (rule triple_bind [OF sync], rule triple_bind [OF sync], rule persist [OF G refl])
    qed (use empty in simp)
  qed
qed

lemma staging_guard_triple:
  assumes "triple honest P m (\<lambda>r d. case r of Some j \<Rightarrow> Q j d | None \<Rightarrow> e \<and> files_in ident (untouched h ident f) d)
    (\<lambda>_. files_in ident (untouched h ident f)) (files_in ident (untouched h ident f))"
  shows "triple honest P (staging_guard (tx_dir ident) m)
    (\<lambda>r d. case r of Some j \<Rightarrow> Q j d | None \<Rightarrow> e \<and> files_in ident (untouched h ident f) d)
    (\<lambda>_. files_in ident (untouched h ident f)) (files_in ident (untouched h ident f))"
proof -
  let ?U = "files_in ident (untouched h ident f)" and ?Q = "\<lambda>r d. case r of Some j \<Rightarrow> Q j d | None \<Rightarrow> e \<and> files_in ident (untouched h ident f) d"
  have drop: "triple honest ?U (pr_ignore (root_remove_dir_all (tx_dir ident))) (\<lambda>_. ?U) E ?U" for E
    unfolding pr_ignore_def by (rule triple_bind [OF prune_untouched]) (simp add: triple_return)
  have "triple honest P (pr_attempt m) (\<lambda>r d. case r of Inr x \<Rightarrow> ?Q x d | Inl _ \<Rightarrow> ?U d) (\<lambda>_. ?U) ?U"
    by (rule triple_attempt) (use assms in simp)
  then show ?thesis
    unfolding staging_guard_def
  proof (rule triple_bind)
    fix r :: "tx_error + journal option"
    show "triple honest (\<lambda>d. case r of Inr x \<Rightarrow> ?Q x d | Inl _ \<Rightarrow> ?U d) (case r of
        Inl e \<Rightarrow> pr_bind (pr_ignore (root_remove_dir_all (tx_dir ident))) (\<lambda>_. pr_fail e)
      | Inr None \<Rightarrow> pr_bind (pr_ignore (root_remove_dir_all (tx_dir ident))) (\<lambda>_. pr_return None)
      | Inr (Some journal) \<Rightarrow> pr_return (Some journal)) ?Q (\<lambda>_. ?U) ?U"
      by (cases r) (auto intro!: triple_bind [OF drop] triple_fail triple_return triple_pure split: option.split)
  qed
qed

section \<open>Publishing\<close>

lemma recheck_triple:
  assumes "\<forall>e \<in> set es. \<forall>p. entry_path (je_path e) = Ok p \<longrightarrow> \<not> is_temp p"
  shows "triple honest (tview ident F) (recheck_preconditions h es)
    (\<lambda>_ d. (\<forall>e \<in> set es. \<forall>p. entry_path (je_path e) = Ok p \<longrightarrow> je_before_revision e = map_option (v03_revision h) (F p)) \<and> tview ident F d)
    (\<lambda>_. tview ident F) (tview ident F)"
  using assms
proof (induction es)
  case (Cons e es)
  show ?case
    unfolding recheck_preconditions.simps
  proof (rule triple_bind [OF stable_lift], rule triple_pure)
    fix p assume p: "entry_path (je_path e) = Ok p"
    then have "\<not> is_temp p" using Cons.prems by simp
    from current_revision_triple [OF this]
    show "triple honest (tview ident F) (pr_bind (current_revision h p) (\<lambda>current.
        if current \<noteq> je_before_revision e then pr_fail (TxConcurrentModification (je_path e)) else recheck_preconditions h es))
      (\<lambda>_ d. (\<forall>e \<in> set (e # es). \<forall>p. entry_path (je_path e) = Ok p \<longrightarrow> je_before_revision e = map_option (v03_revision h) (F p)) \<and> tview ident F d)
      (\<lambda>_. tview ident F) (tview ident F)"
      by (rule triple_bind, intro triple_pure)
         (use Cons p in \<open>auto intro!: triple_fail elim!: triple_conseq\<close>)
  qed
qed (simp add: triple_return)

lemma stable_entry_facts: "triple honest P (entry_facts e facts) (\<lambda>_. P) (\<lambda>_. P) P"
proof -
  have "triple honest P (record_file_facts s) (\<lambda>_. P) (\<lambda>_. P) P" for s
    unfolding record_file_facts_def
    by (rule triple_bind [OF stable_lift], rule triple_pure) (auto intro!: stable)
  then show ?thesis unfolding entry_facts_def by (auto intro!: stable_bind stable_basic)
qed

lemma apply_entries_triple:
  assumes ok: "targets_ok h f ts" and "i \<le> length ts" "entries = drop i (jn_entries j)" "jn_version j = 1" "jn_phase j = PhaseCommitting"
  shows "triple honest (files_in ident (committing h ident f ts i (j\<lparr>jn_applied := n\<rparr>))) (apply_entries h col (tx_dir ident) j i entries facts)
    (\<lambda>_ d. \<exists>k. files_in ident (committing h ident f ts (length ts) (j\<lparr>jn_applied := k\<rparr>)) d)
    (\<lambda>_. files_in ident (tx_state h ident f ts)) (files_in ident (tx_state h ident f ts))"
  using assms(2,3)
proof (induction entries arbitrary: i n facts)
  case Nil
  have "length ts \<le> i" if "committing h ident f ts i (j\<lparr>jn_applied := n\<rparr>) F" for F
    using that Nil.prems by (auto simp: committing_def entries_fit_def)
  then show ?case using Nil.prems(1) by (auto simp: files_in_def intro!: triple_return)
next
  case (Cons e entries)
  let ?S = "files_in ident (tx_state h ident f ts)"
  let ?Q = "\<lambda>_ d. \<exists>k. files_in ident (committing h ident f ts (length ts) (j\<lparr>jn_applied := k\<rparr>)) d"
  show ?case
  proof (rule triple_files_in)
    fix F assume F: "committing h ident f ts i (j\<lparr>jn_applied := n\<rparr>) F"
    then have fit: "entries_fit h (jn_entries j) ts" by (simp add: committing_def)
    have len: "i < length (jn_entries j)" using Cons.prems(2) by (metis drop_all leI list.distinct(1))
    then have i: "i < length ts" and e: "jn_entries j ! i = e" and rest: "entries = drop (Suc i) (jn_entries j)"
      using Cons.prems(2) fit by (auto simp: entries_fit_def Cons_nth_drop_Suc [symmetric])
    obtain p b where t: "ts ! i = (p, b)" by force
    have fits: "entry_fits h i e (p, b)" using fit i e t by (auto simp: entries_fit_def)
    have staged: "b \<noteq> None \<Longrightarrow> F (tx_dir ident @ [''stage'', show_nat i]) = b"
      using F i t unfolding committing_def staged_def by (metis snd_conv)
    have G: "committing h ident f ts (Suc i) (j\<lparr>jn_applied := n\<rparr>) (F(p := b))" by (rule committing_apply [OF F i ok t])
    have state: "tview ident F d \<Longrightarrow> ?S d" "tview ident (F(p := b)) d \<Longrightarrow> ?S d" for d
      using committing_weaken [OF F] committing_weaken [OF G] by (blast intro: files_inI)+
    have applied: "triple honest (tview ident F) (apply_entry h col (tx_dir ident) e (jn_scope j)) (\<lambda>_. tview ident (F(p := b))) (\<lambda>_. ?S) ?S"
      by (rule triple_conseq [OF apply_entry_triple [of h i e p b F ident, OF fits targets_at(1) [OF ok i t] staged]]) (use state in auto)
    have facts: "triple honest (tview ident (F(p := b))) (entry_facts e facts) (\<lambda>_. tview ident (F(p := b))) (\<lambda>_. ?S) ?S"
      by (rule triple_conseq [OF stable_entry_facts [of "tview ident (F(p := b))"]]) (use state in auto)
    have persist: "triple honest (tview ident (F(p := b))) (persist_journal h (tx_dir ident) (j\<lparr>jn_applied := Suc i\<rparr>))
        (\<lambda>_. files_in ident (committing h ident f ts (Suc i) (j\<lparr>jn_applied := Suc i\<rparr>))) (\<lambda>_. ?S) ?S"
      by (rule persist_committing [OF G ok]) (simp_all add: assms(4,5))
    show "triple honest (tview ident F) (apply_entries h col (tx_dir ident) j i (e # entries) facts) ?Q (\<lambda>_. ?S) ?S"
      unfolding apply_entries.simps
      by (rule triple_bind [OF applied], rule triple_bind [OF facts], rule triple_bind [OF persist], rule Cons.IH)
         (use i rest in auto)
  qed
qed

text \<open>A committed transaction found every file at the revision it was prepared for.\<close>

definition baseline_matches :: "tx_host \<Rightarrow> (path \<Rightarrow> bytes option) \<Rightarrow> baseline \<Rightarrow> string list \<Rightarrow> bool" where
  "baseline_matches h f b ps \<longleftrightarrow>
     (\<forall>s \<in> set ps. map_option (v03_revision h) (f (split_on CHR ''/'' s)) = map_option (v03_revision h) (bt_get b s))"

lemma prepared_commits:
  assumes "prepared h ident f b ps ts j F"
    and that: "th_to_vec h j' = Inr c" "jn_entries j' = jn_entries j" "jn_version j' = 1" "jn_phase j' = PhaseCommitting"
  shows "committing h ident f ts 0 j' (F(journal_path ident := Some c))"
proof -
  have "tx_dir ident @ [''stage'', show_nat k] \<noteq> journal_path ident" for k by (simp add: journal_path_def)
  moreover have "user_path q \<Longrightarrow> (F(journal_path ident := Some c)) q = f q" for q
    using assms user_path_facts(2) by (auto simp: prepared_def user_files_are_def)
  ultimately show ?thesis
    using assms that by (auto simp: prepared_def committing_def staged_def journal_is_def)
qed

lemma prepared_matches:
  assumes prep: "prepared h ident f b ps (targets_of a ps) j F" and ok: "targets_ok h f (targets_of a ps)"
    and canon: "\<forall>s \<in> set ps. canonical_path s"
    and "\<forall>e \<in> set (jn_entries j). \<forall>p. entry_path (je_path e) = Ok p \<longrightarrow> je_before_revision e = map_option (v03_revision h) (F p)"
  shows "baseline_matches h f b ps"
  unfolding baseline_matches_def
proof
  fix s assume s: "s \<in> set ps"
  let ?p = "split_on CHR ''/'' s"
  have paths: "map je_path (jn_entries j) = ps" and
    revs: "map je_before_revision (jn_entries j) = map (\<lambda>s. map_option (v03_revision h) (bt_get b s)) ps"
    using prep by (simp_all add: prepared_def)
  obtain k where k: "k < length (jn_entries j)" "ps ! k = s"
    using s paths by (metis in_set_conv_nth length_map)
  have e: "je_path (jn_entries j ! k) = s" using paths k by (metis nth_map)
  have "je_before_revision (jn_entries j ! k) = map_option (v03_revision h) (bt_get b s)"
    using arg_cong [OF revs, of "\<lambda>l. l ! k"] k paths by (metis length_map nth_map)
  moreover have "je_before_revision (jn_entries j ! k) = map_option (v03_revision h) (F ?p)"
    using assms(4) e k(1) entry_path_canonical canon s by (metis nth_mem)
  moreover have "F ?p = f ?p"
  proof -
    have "(?p, bt_get a s) \<in> set (targets_of a ps)" using s by (auto simp: targets_of_def)
    then have "user_path ?p" using ok by (force simp: targets_ok_def)
    then show ?thesis using prep by (simp add: prepared_def user_files_are_def)
  qed
  ultimately show "map_option (v03_revision h) (f ?p) = map_option (v03_revision h) (bt_get b s)" by simp
qed

lemma publish_transaction_triple:
  assumes ok: "targets_ok h f (targets_of a ps)" and canon: "\<forall>s \<in> set ps. canonical_path s"
  shows "triple honest (files_in ident (prepared h ident f b ps (targets_of a ps) j)) (publish_transaction h col (tx_dir ident) j)
    (\<lambda>_ d. files_in ident (completed h ident f (targets_of a ps)) d \<and> baseline_matches h f b ps)
    (\<lambda>_. files_in ident (tx_state h ident f (targets_of a ps))) (files_in ident (tx_state h ident f (targets_of a ps)))"
proof (rule triple_files_in)
  fix F assume F: "prepared h ident f b ps (targets_of a ps) j F"
  let ?ts = "targets_of a ps" let ?S = "files_in ident (tx_state h ident f ?ts)"
  let ?Q = "\<lambda>_ d. files_in ident (completed h ident f ?ts) d \<and> baseline_matches h f b ps"
  have unt: "files_in ident (untouched h ident f) d \<Longrightarrow> ?S d" for d by (erule files_in_mono) (simp add: tx_state_def)
  have state: "tview ident F d \<Longrightarrow> files_in ident (untouched h ident f) d" for d
    by (erule files_inI) (rule prepared_untouched [OF F])
  let ?j = "j\<lparr>jn_phase := PhaseCommitting\<rparr>"
  have j: "jn_version j = 1" using F by (simp add: prepared_def)
  have temp: "\<forall>e \<in> set (jn_entries j). \<forall>p. entry_path (je_path e) = Ok p \<longrightarrow> \<not> is_temp p"
  proof (intro ballI allI impI)
    fix e p assume "e \<in> set (jn_entries j)" "entry_path (je_path e) = Ok p"
    then obtain k where "k < length ?ts" "fst (?ts ! k) = p"
      using F by (metis (no_types, lifting) prepared_def entries_fit_def entry_fits_def in_set_conv_nth res.inject(1))
    then show "\<not> is_temp p" using targets_at(2) [OF ok] by (metis prod.collapse)
  qed
  have recheck: "triple honest (tview ident F) (pr_attempt (recheck_preconditions h (jn_entries j)))
      (\<lambda>r d. (case r of Inr _ \<Rightarrow> baseline_matches h f b ps | Inl _ \<Rightarrow> True) \<and> tview ident F d) (\<lambda>_. ?S) ?S"
    by (rule triple_attempt, rule triple_conseq [OF recheck_triple [OF temp]])
       (use prepared_matches [OF F ok canon] state unt in auto)
  have abort: "triple honest (tview ident F) (pr_bind (cleanup_transaction (tx_dir ident)) (\<lambda>_. pr_fail e)) ?Q (\<lambda>_. ?S) ?S" for e
  proof (rule triple_bind)
    show "triple honest (tview ident F) (cleanup_transaction (tx_dir ident)) (\<lambda>_. ?S) (\<lambda>_. ?S) ?S"
      by (rule triple_conseq [OF cleanup_untouched]) (use state unt in auto)
  qed (simp add: triple_fail)
  have start: "triple honest (tview ident F) (persist_journal h (tx_dir ident) ?j) (\<lambda>_. files_in ident (committing h ident f ?ts 0 ?j)) (\<lambda>_. ?S) ?S"
  proof -
    have new: "files_in ident (committing h ident f ?ts 0 ?j) d"
      if "th_to_vec h ?j = Inr c" "tview ident (F(journal_path ident := Some c)) d" for c d
      using that(2) by (rule files_inI) (rule prepared_commits [OF F that(1)], simp_all add: j)
    then have "?S d" if "th_to_vec h ?j = Inr c" "tview ident (F(journal_path ident := Some c)) d" for c d
      using that files_in_mono committing_weaken by metis
    then show ?thesis by (intro triple_conseq [OF persist_triple]) (use new state unt in blast)+
  qed
  have loop: "triple honest (files_in ident (committing h ident f ?ts 0 ?j)) (apply_entries h col (tx_dir ident) ?j 0 (jn_entries j) [])
      (\<lambda>_ d. \<exists>k. files_in ident (committing h ident f ?ts (length ?ts) (?j\<lparr>jn_applied := k\<rparr>)) d) (\<lambda>_. ?S) ?S"
    using apply_entries_triple [OF ok le0, of "jn_entries j" ?j ident "jn_applied j" col "[]"] j by simp
  have close: "triple honest (files_in ident (committing h ident f ?ts (length ?ts) (?j\<lparr>jn_applied := k\<rparr>)))
      (persist_journal h (tx_dir ident) (?j\<lparr>jn_applied := n, jn_phase := PhaseCommitted\<rparr>))
      (\<lambda>_. files_in ident (completed h ident f ?ts)) (\<lambda>_. ?S) ?S" for k n
    by (rule triple_files_in, rule finish_triple [OF _ ok]) (simp_all add: j)
  have rest: "triple honest (files_in ident (completed h ident f ?ts)) (pr_bind (pr_attempt (root_remove_dir_all (tx_dir ident))) (\<lambda>removed.
      case removed of
        Inl _ \<Rightarrow> pr_return \<lparr>co_cleanup_deferred = True, co_file_facts = facts\<rparr>
      | Inr _ \<Rightarrow> pr_bind (pr_ignore (tx_sync_dir TRANSACTIONS_DIR)) (\<lambda>_. pr_return \<lparr>co_cleanup_deferred = False, co_file_facts = facts\<rparr>)))
      ?Q (\<lambda>_. ?S) ?S" if m: "baseline_matches h f b ps" for facts
  proof (rule triple_files_in)
    fix G assume G: "completed h ident f ?ts G"
    let ?D = "files_in ident (completed h ident f ?ts)"
    have part: "pruned (tx_dir ident) G H \<Longrightarrow> tview ident H d \<Longrightarrow> ?D d" for H d
      using pruned_settled(2) [OF _ G] by (blast intro: files_inI)
    have D: "?D d \<Longrightarrow> ?S d" for d by (erule files_in_mono) (simp add: tx_state_def)
    have gone: "pruned (tx_dir ident) G (\<lambda>q. if below (tx_dir ident) q then None else G q)" by (simp add: pruned_def)
    have remove: "triple honest (tview ident G) (pr_attempt (root_remove_dir_all (tx_dir ident))) (\<lambda>_. ?D) (\<lambda>_. ?S) ?S"
      by (rule triple_attempt, rule triple_conseq [OF view_root_remove_dir_all]) (use part gone D in blast)+
    have sync: "triple honest ?D (pr_ignore (tx_sync_dir TRANSACTIONS_DIR)) (\<lambda>_. ?D) (\<lambda>_. ?S) ?S"
      unfolding pr_ignore_def tx_sync_dir_def
      by (rule triple_conseq [OF stable_bind [OF stable_attempt [OF stable_map_err [OF stable_root_sync_dir [of ?D]]] stable_basic(1)]]) (use D in auto)
    show "triple honest (tview ident G) (pr_bind (pr_attempt (root_remove_dir_all (tx_dir ident))) (\<lambda>removed.
      case removed of
        Inl _ \<Rightarrow> pr_return \<lparr>co_cleanup_deferred = True, co_file_facts = facts\<rparr>
      | Inr _ \<Rightarrow> pr_bind (pr_ignore (tx_sync_dir TRANSACTIONS_DIR)) (\<lambda>_. pr_return \<lparr>co_cleanup_deferred = False, co_file_facts = facts\<rparr>)))
      ?Q (\<lambda>_. ?S) ?S"
      by (rule triple_bind [OF remove]) (auto intro!: triple_return triple_bind [OF sync] simp: m split: sum.split)
  qed
  show "triple honest (tview ident F) (publish_transaction h col (tx_dir ident) j) ?Q (\<lambda>_. ?S) ?S"
    unfolding publish_transaction_def
  proof (rule triple_bind [OF recheck], rule triple_pure)
    fix r :: "tx_error + unit" assume r: "case r of Inr _ \<Rightarrow> baseline_matches h f b ps | Inl _ \<Rightarrow> True"
    show "triple honest (tview ident F) (case r of
       Inl e \<Rightarrow> pr_bind (cleanup_transaction (tx_dir ident)) (\<lambda>_. pr_fail e)
     | Inr _ \<Rightarrow>
         (let committing = j\<lparr>jn_phase := PhaseCommitting\<rparr> in
          pr_bind (persist_journal h (tx_dir ident) committing) (\<lambda>_.
          pr_bind (apply_entries h col (tx_dir ident) committing 0 (jn_entries j) []) (\<lambda>facts.
          pr_bind (persist_journal h (tx_dir ident) (committing\<lparr>jn_applied := length (jn_entries j), jn_phase := PhaseCommitted\<rparr>)) (\<lambda>_.
          pr_bind (pr_attempt (root_remove_dir_all (tx_dir ident))) (\<lambda>removed.
          case removed of
            Inl _ \<Rightarrow> pr_return \<lparr>co_cleanup_deferred = True, co_file_facts = facts\<rparr>
          | Inr _ \<Rightarrow> pr_bind (pr_ignore (tx_sync_dir TRANSACTIONS_DIR)) (\<lambda>_.
              pr_return \<lparr>co_cleanup_deferred = False, co_file_facts = facts\<rparr>))))))) ?Q (\<lambda>_. ?S) ?S"
    proof (cases r)
      case (Inr u)
      then have m: "baseline_matches h f b ps" using r by simp
      show ?thesis unfolding Inr sum.case Let_def
        by (rule triple_bind [OF start], rule triple_bind [OF loop], rule triple_ex, rule triple_bind [OF close], rule rest [OF m])
    qed (use abort in simp)
  qed
qed

section \<open>Whole transactions\<close>

definition no_tx_dirs :: "path \<Rightarrow> bool" where
  "no_tx_dirs q \<longleftrightarrow> (\<forall>x. q \<noteq> TRANSACTIONS_DIR @ [x])"

definition all_changed :: "baseline \<Rightarrow> baseline \<Rightarrow> string list" where
  "all_changed b a = changed_paths b a (sort_dedup (bt_keys b @ bt_keys a))"

definition intended_files :: "baseline \<Rightarrow> baseline \<Rightarrow> (path \<Rightarrow> bytes option) \<Rightarrow> path \<Rightarrow> bytes option" where
  "intended_files b a f = after_files f (targets_of a (all_changed b a))"

definition user_files :: "disk \<Rightarrow> path \<Rightarrow> bytes option" where
  "user_files d q = (if user_path q then file_at d q else None)"

lemma no_journal_without_dirs:
  assumes "view no_tx_dirs F d"
  shows "F (journal_path ident) = None"
proof -
  have "node_at d (tx_dir ident) \<noteq> Some NDir"
    using view_dir [OF assms, of "tx_dir ident"] by (auto simp: no_tx_dirs_def tx_dir_def)
  then have "node_at d (tx_dir ident @ [JOURNAL_FILE]) = None"
    using wf_prefix [OF view_wf [OF assms], of "tx_dir ident" "[JOURNAL_FILE]"] by blast
  then show ?thesis
    using view_file [OF assms tx_path_facts(1), of ident] by (simp add: file_at_def journal_path_def)
qed

lemma after_files_twice: "after_files (after_files f ts) ts = after_files f ts"
  by (auto simp: after_files_def fun_eq_iff split: option.split)

lemma view_no_tx_dirs: "view no_tx_dirs F d \<Longrightarrow> tview ident F d"
  by (auto simp: view_def no_tx_dirs_def tx_dirs_def)

lemma commit_triple:
  assumes ok: "targets_ok h f (targets_of a (all_changed b a))" and canon: "\<forall>s \<in> set (all_changed b a). canonical_path s"
    and F: "user_files_are F f"
  shows "triple honest (view no_tx_dirs F) (commit_shadow_controlled h col b a scope)
    (\<lambda>_ d. \<exists>ident. files_in ident (\<lambda>G. user_files_are G (intended_files b a f) \<and> tx_state h ident (intended_files b a f) (targets_of a (all_changed b a)) G) d
       \<and> baseline_matches h f b (all_changed b a))
    (\<lambda>_ d. \<exists>ident. files_in ident (tx_state h ident f (targets_of a (all_changed b a))) d)
    (\<lambda>d. \<exists>ident. files_in ident (tx_state h ident f (targets_of a (all_changed b a))) d)"
proof -
  let ?ps = "all_changed b a" let ?ts = "targets_of a ?ps"
  let ?S = "\<lambda>d. \<exists>ident. files_in ident (tx_state h ident f ?ts) d"
  let ?Q = "\<lambda>d. \<exists>ident. files_in ident (\<lambda>G. user_files_are G (intended_files b a f) \<and> tx_state h ident (intended_files b a f) ?ts G) d \<and> baseline_matches h f b ?ps"
  let ?V = "\<lambda>d. \<exists>G. user_files_are G f \<and> view no_tx_dirs G d"
  have V: "?V d \<Longrightarrow> ?S d" for d
    using view_no_tx_dirs no_journal_without_dirs unfolding files_in_def tx_state_def untouched_def by blast
  have locked: "triple honest (view no_tx_dirs F) acquire_write_lock (\<lambda>_. ?V) (\<lambda>_. ?S) ?S"
  proof -
    have dirs: "no_tx_dirs (take k (butlast write_lock_path))" for k
      by (cases k) (auto simp: no_tx_dirs_def write_lock_path_def TRANSACTIONS_DIR_def take_Cons' split: if_splits)
    have lp: "write_lock_path \<noteq> []" "\<not> is_temp write_lock_path" by (simp_all add: write_lock_path_def is_temp_def)
    have weak: "\<exists>c. view no_tx_dirs (F(write_lock_path := c)) d \<Longrightarrow> ?V d" for d
    proof -
      assume "\<exists>c. view no_tx_dirs (F(write_lock_path := c)) d"
      then obtain c where c: "view no_tx_dirs (F(write_lock_path := c)) d" by blast
      have "user_files_are (F(write_lock_path := c)) f" using F by (auto simp: user_files_are_def user_path_def)
      with c show "?V d" by blast
    qed
    have opened: "triple honest (view no_tx_dirs F) (open_lock_file write_lock_path) (\<lambda>_. ?V) (\<lambda>_. ?S) ?S"
      by (rule triple_conseq [OF view_open_lock_file [of write_lock_path no_tx_dirs F, OF lp(1) dirs lp(2)]]) (use weak V in blast)+
    show ?thesis
      unfolding acquire_write_lock_def
      by (rule triple_map_err, rule triple_bind [OF opened], rule triple_conseq [OF stable_calls(7) [of ?V]]) (use V in auto)
  qed
  show ?thesis
    unfolding commit_shadow_controlled_def
  proof (rule triple_bind [OF locked], rule triple_ex, rule triple_pure)
    fix G assume G: "user_files_are G f"
    have VG: "view no_tx_dirs G d \<Longrightarrow> ?S d" for d using G V by blast
    have dirs: "no_tx_dirs (take n TRANSACTIONS_DIR)" for n
      by (cases n) (auto simp: no_tx_dirs_def TRANSACTIONS_DIR_def take_Cons' split: if_splits)
    have root: "triple honest (view no_tx_dirs G) ensure_transaction_root (\<lambda>_. view no_tx_dirs G) (\<lambda>_. ?S) ?S"
      unfolding ensure_transaction_root_def
      by (rule triple_map_err, rule triple_bind [OF triple_conseq [OF view_create_dir_all [of no_tx_dirs TRANSACTIONS_DIR G, OF dirs], where Q' = "\<lambda>_. view no_tx_dirs G"]])
         (use VG in \<open>auto intro!: triple_return\<close>)
    have body: "triple honest (view no_tx_dirs G)
       (let directory = TRANSACTIONS_DIR @ [ident] in
        pr_bind (pr_map_err (TxIo (directory @ [''stage''])) (create_dir_all (directory @ [''stage'']))) (\<lambda>_.
        pr_bind (staging_guard directory (stage_transaction h col scope ident directory b a)) (\<lambda>staged.
        case staged of
          None \<Rightarrow> pr_return \<lparr>co_cleanup_deferred = False, co_file_facts = []\<rparr>
        | Some journal \<Rightarrow> publish_transaction h col directory journal))) (\<lambda>_. ?Q) (\<lambda>_. ?S) ?S" for ident
    proof -
      let ?T = "files_in ident (tx_state h ident f ?ts)" let ?J = "\<lambda>G. G (journal_path ident) = None"
      have T: "?T d \<Longrightarrow> ?S d" for d by blast
      have unt: "files_in ident (untouched h ident f) d \<Longrightarrow> ?T d" for d by (erule files_in_mono) (simp add: tx_state_def)
      have dirs: "triple honest (tview ident G) (pr_map_err e (create_dir_all (tx_dir ident @ [''stage'']))) (\<lambda>_. tview ident G) (\<lambda>_. ?S) ?S"
        if J: "?J G" for e
      proof -
        have "tview ident G d \<Longrightarrow> ?S d" for d using G J unfolding files_in_def tx_state_def untouched_def by blast
        then show ?thesis
          by (intro triple_map_err triple_conseq [OF view_create_dir_all [of "tx_dirs ident" "tx_dir ident @ [''stage'']" G, OF tx_path_facts(3)]]) auto
      qed
      have stage: "triple honest (tview ident G) (staging_guard (tx_dir ident) (stage_transaction h col scope ident (tx_dir ident) b a))
          (\<lambda>r d. case r of Some j \<Rightarrow> files_in ident (prepared h ident f b ?ps ?ts j) d
             | None \<Rightarrow> ?ps = [] \<and> files_in ident (untouched h ident f) d) (\<lambda>_. ?S) ?S" if J: "?J G"
        using staging_guard_triple [OF stage_transaction_triple [OF canon [unfolded all_changed_def] G J], folded all_changed_def]
        by (rule triple_conseq) (use unt in blast)+
      have publish: "triple honest (files_in ident (prepared h ident f b ?ps ?ts j)) (publish_transaction h col (tx_dir ident) j) (\<lambda>_. ?Q) (\<lambda>_. ?S) ?S" for j
      proof (rule triple_conseq [OF publish_transaction_triple [OF ok canon]])
        show "?Q d" if "files_in ident (completed h ident f ?ts) d \<and> baseline_matches h f b ?ps" for d
          using that unfolding files_in_def by (auto simp: completed_def intended_files_def tx_state_def after_files_twice)
      qed auto
      have unchanged: "?Q d" if "?ps = []" "files_in ident (untouched h ident f) d" for d
        using that unfolding files_in_def
        by (auto simp: untouched_def intended_files_def tx_state_def targets_of_def after_files_def baseline_matches_def user_files_are_def)
      have main: "triple honest (tview ident G) (pr_bind (pr_map_err (TxIo (tx_dir ident @ [''stage''])) (create_dir_all (tx_dir ident @ [''stage'']))) (\<lambda>_.
          pr_bind (staging_guard (tx_dir ident) (stage_transaction h col scope ident (tx_dir ident) b a)) (\<lambda>staged.
          case staged of
            None \<Rightarrow> pr_return \<lparr>co_cleanup_deferred = False, co_file_facts = []\<rparr>
          | Some journal \<Rightarrow> publish_transaction h col (tx_dir ident) journal))) (\<lambda>_. ?Q) (\<lambda>_. ?S) ?S" if J: "?J G"
      proof (rule triple_bind [OF dirs [OF J]], rule triple_bind [OF stage [OF J]])
        fix r
        show "triple honest (\<lambda>d. case r of Some j \<Rightarrow> files_in ident (prepared h ident f b ?ps ?ts j) d
             | None \<Rightarrow> ?ps = [] \<and> files_in ident (untouched h ident f) d)
          (case r of None \<Rightarrow> pr_return \<lparr>co_cleanup_deferred = False, co_file_facts = []\<rparr>
          | Some journal \<Rightarrow> publish_transaction h col (tx_dir ident) journal) (\<lambda>_. ?Q) (\<lambda>_. ?S) ?S"
        proof (cases r)
          case None
          show ?thesis unfolding None option.case by (rule triple_return) (erule conjE, erule unchanged, assumption)
        next
          case (Some j)
          show ?thesis unfolding Some option.case by (rule publish)
        qed
      qed
      show ?thesis
        unfolding Let_def tx_dir_def [symmetric]
      proof (rule triple_each)
        fix d assume d: "view no_tx_dirs G d"
        show "triple honest (\<lambda>e. e = d) (pr_bind (pr_map_err (TxIo (tx_dir ident @ [''stage''])) (create_dir_all (tx_dir ident @ [''stage'']))) (\<lambda>_.
            pr_bind (staging_guard (tx_dir ident) (stage_transaction h col scope ident (tx_dir ident) b a)) (\<lambda>staged.
            case staged of
              None \<Rightarrow> pr_return \<lparr>co_cleanup_deferred = False, co_file_facts = []\<rparr>
            | Some journal \<Rightarrow> publish_transaction h col (tx_dir ident) journal))) (\<lambda>_. ?Q) (\<lambda>_. ?S) ?S"
          by (rule triple_conseq [OF main [OF no_journal_without_dirs [OF d]]]) (use view_no_tx_dirs [OF d] in auto)
      qed
    qed
    have uuid: "triple honest (view no_tx_dirs G) pr_uuid (\<lambda>_. view no_tx_dirs G) (\<lambda>_. ?S) ?S" by (simp add: triple_uuid)
    show "triple honest (view no_tx_dirs G) (pr_bind ensure_transaction_root (\<lambda>_. pr_bind pr_uuid (\<lambda>ident.
       let directory = TRANSACTIONS_DIR @ [ident] in
        pr_bind (pr_map_err (TxIo (directory @ [''stage''])) (create_dir_all (directory @ [''stage'']))) (\<lambda>_.
        pr_bind (staging_guard directory (stage_transaction h col scope ident directory b a)) (\<lambda>staged.
        case staged of
          None \<Rightarrow> pr_return \<lparr>co_cleanup_deferred = False, co_file_facts = []\<rparr>
        | Some journal \<Rightarrow> publish_transaction h col directory journal))))) (\<lambda>_. ?Q) (\<lambda>_. ?S) ?S"
      by (rule triple_bind [OF root], rule triple_bind [OF uuid], rule body)
  qed
qed

end
