(* ===== verification/Transaction_Atomic.thy ===== *)
theory Transaction_Atomic
  imports Transaction_Properties
begin

text \<open>
  Transactions are all or nothing: whatever call of the operating system fails and wherever the
  process is killed, a completed recovery leaves the files of users either as they were before the
  transaction or as the transaction intends them.
\<close>

section \<open>Commits and recoveries\<close>

text \<open>The intended files of users: the desired contents at the paths that change.\<close>

definition intended :: "baseline \<Rightarrow> baseline \<Rightarrow> disk \<Rightarrow> path \<Rightarrow> bytes option" where
  "intended b a d q = (if user_path q then intended_files b a (file_at d) q else None)"

text \<open>
  A commit is well posed when the disk holds no transaction directory, and the paths that change are
  canonical paths of users on whose contents the revisions tell the file from its intended content.
\<close>

definition commit_ready :: "tx_host \<Rightarrow> baseline \<Rightarrow> baseline \<Rightarrow> disk \<Rightarrow> bool" where
  "commit_ready h b a d \<longleftrightarrow> codec_ok h \<and> wf_disk d \<and> (\<forall>x. node_at d (TRANSACTIONS_DIR @ [x]) \<noteq> Some NDir)
     \<and> (\<forall>s \<in> set (all_changed b a). canonical_path s \<and> user_path (split_on CHR ''/'' s)
          \<and> (map_option (v03_revision h) (file_at d (split_on CHR ''/'' s)) = map_option (v03_revision h) (bt_get a s)
             \<longrightarrow> file_at d (split_on CHR ''/'' s) = bt_get a s))"

text \<open>One attempt of recovery, by any process and with any outcome, a kill included.\<close>

definition recovery_step :: "tx_host \<Rightarrow> collection \<Rightarrow> disk \<Rightarrow> disk \<Rightarrow> bool" where
  "recovery_step h col d d' \<longleftrightarrow> (\<exists>w. honest (w_replies w) \<and> w_disk w = d \<and> w_disk (fst (recover_pending h col w)) = d')"

definition recoverable :: "tx_host \<Rightarrow> string \<Rightarrow> (path \<Rightarrow> bytes option) \<Rightarrow> targets \<Rightarrow> disk \<Rightarrow> bool" where
  "recoverable h ident f ts d \<longleftrightarrow> codec_ok h \<and> targets_ok h f ts \<and> files_in ident (tx_state h ident f ts) d"

lemma recover_pending_exit:
  assumes "recoverable h ident f ts (w_disk w)" "honest (w_replies w)" "recover_pending h col w = (w', r)"
  shows "recoverable h ident f ts (w_disk w')"
    and "r = Done c \<Longrightarrow> files_in ident (settled h ident f ts) (w_disk w')"
proof -
  have ok: "codec_ok h" "targets_ok h f ts" "files_in ident (tx_state h ident f ts) (w_disk w)"
    using assms(1) by (auto simp: recoverable_def)
  note exit = tripleD(2) [OF recover_pending_triple [OF ok(2,1)] assms(2) ok(3) assms(3)]
  from exit show "r = Done c \<Longrightarrow> files_in ident (settled h ident f ts) (w_disk w')" by simp
  from exit have "files_in ident (tx_state h ident f ts) (w_disk w')"
    by (cases r) (auto elim!: files_in_mono intro: settled_state)
  with ok show "recoverable h ident f ts (w_disk w')" by (simp add: recoverable_def)
qed

interpretation recovery: invariant_machine "recovery_step h col" "recoverable h ident f ts" for h col ident f ts
  by unfold_locales (metis recover_pending_exit(1) recovery_step_def surjective_pairing)

lemma settled_user_files:
  assumes "files_in ident (settled h ident f ts) d"
  shows "(\<forall>q. user_path q \<longrightarrow> file_at d q = f q) \<or> (\<forall>q. user_path q \<longrightarrow> file_at d q = after_files f ts q)"
proof -
  from assms obtain F where F: "view (tx_dirs ident) F d" "settled h ident f ts F" by (auto simp: files_in_def)
  have "file_at d q = F q" if "user_path q" for q using view_file [OF F(1)] that by (simp add: user_path_def)
  with F(2) show ?thesis unfolding settled_def untouched_def completed_def user_files_are_def by metis
qed

lemma targets_of_changed_ok:
  assumes "commit_ready h b a d"
  shows "targets_ok h (file_at d) (targets_of a (all_changed b a))"
proof -
  have "inj_on (split_on CHR ''/'') A" for A by (rule inj_on_inverseI [where g = "join_with ''/''"]) (simp add: join_split)
  then have "distinct (map fst (targets_of a (all_changed b a)))"
    by (simp add: targets_of_def all_changed_def changed_paths_def distinct_map comp_def)
  then show ?thesis
    using assms by (auto simp: targets_ok_def commit_ready_def targets_of_def)
qed

lemma view_of_disk:
  assumes "commit_ready h b a d"
  shows "view no_tx_dirs (file_at d) d"
  using assms by (auto simp: view_def commit_ready_def no_tx_dirs_def)

lemma intended_targets_ok:
  assumes "targets_ok h f ts"
  shows "targets_ok h (after_files f ts) ts"
  using assms by (auto simp: targets_ok_def after_files_def)


text \<open>
  C10: A transaction is atomic. Take any commit of the difference between a baseline and the desired
  files, in which any call of the operating system may fail or the process may be killed at any
  call, then any number of recoveries that may themselves fail or be killed, and then a recovery
  that returns. If the commit reported success, the baseline had matched the files and the files of
  users are exactly the intended ones, at once and after recovery. Otherwise the files of users
  after recovery are either all as before the commit or all as intended, never a mixture.
\<close>
theorem transaction_atomic:
  assumes ready: "commit_ready h b a (w_disk w)" "honest (w_replies w)"
    and commit: "commit_shadow_controlled h col b a scope w = (w1, r)"
    and attempts: "(recovery_step h col)\<^sup>*\<^sup>* (w_disk w1) (w_disk w2)"
    and recovered: "honest (w_replies w2)" "recover_pending h col w2 = (w3, Done changed)"
  shows "case r of
      Done _ \<Rightarrow> baseline_matches h (file_at (w_disk w)) b (all_changed b a)
        \<and> user_files (w_disk w1) = intended b a (w_disk w) \<and> user_files (w_disk w3) = intended b a (w_disk w)
    | _ \<Rightarrow> user_files (w_disk w3) = user_files (w_disk w) \<or> user_files (w_disk w3) = intended b a (w_disk w)"
proof -
  let ?f = "file_at (w_disk w)" let ?ts = "targets_of a (all_changed b a)"
  note ok = targets_of_changed_ok [OF ready(1)]
  have codec: "codec_ok h" and canon: "\<forall>s \<in> set (all_changed b a). canonical_path s"
    using ready(1) by (auto simp: commit_ready_def)
  note exit = tripleD(2) [OF commit_triple [OF ok canon] ready(2) view_of_disk [OF ready(1)] commit]
  have same: "user_files_are ?f ?f" by (simp add: user_files_are_def)
  have later: "(\<forall>q. user_path q \<longrightarrow> file_at (w_disk w3) q = f q) \<or> (\<forall>q. user_path q \<longrightarrow> file_at (w_disk w3) q = after_files f ?ts q)"
    if "targets_ok h f ?ts" "files_in ident (tx_state h ident f ?ts) (w_disk w1)" for ident f
  proof -
    have "recoverable h ident f ?ts (w_disk w2)"
      using recovery.steps_inv [OF attempts] that codec by (simp add: recoverable_def)
    then show ?thesis by (intro settled_user_files) (rule recover_pending_exit(2) [OF _ recovered], auto)
  qed
  have files: "user_files d = intended b a (w_disk w) \<longleftrightarrow> (\<forall>q. user_path q \<longrightarrow> file_at d q = after_files ?f ?ts q)"
    "user_files d = user_files (w_disk w) \<longleftrightarrow> (\<forall>q. user_path q \<longrightarrow> file_at d q = ?f q)" for d
    by (auto simp: user_files_def intended_def intended_files_def fun_eq_iff)
  show ?thesis
  proof (cases r)
    case (Done x)
    then obtain ident G where st: "view (tx_dirs ident) G (w_disk w1)" "user_files_are G (after_files ?f ?ts)"
        "files_in ident (tx_state h ident (after_files ?f ?ts) ?ts) (w_disk w1)" and "baseline_matches h ?f b (all_changed b a)"
      using exit [OF same] unfolding files_in_def intended_files_def by auto
    moreover have "file_at (w_disk w1) q = after_files ?f ?ts q" if "user_path q" for q
      using view_file [OF st(1)] st(2) that by (simp add: user_path_def user_files_are_def)
    ultimately show ?thesis
      using Done later [OF intended_targets_ok [OF ok] st(3)] by (simp add: files after_files_twice)
  qed (use exit [OF same] later [OF ok] files in auto)
qed

section \<open>A collection with one record\<close>

text \<open>
  A commit that changes one record and creates another, run on a concrete disk: killed between the
  two, it is recovered; killed at other calls, it blocks every recovery. The codec writes the
  phase and the count of applied entries of the journal of this transaction, and refuses other
  journals.
\<close>

definition toy_entries :: "journal_entry list" where
  "toy_entries =
     [\<lparr>je_path = ''a.md'', je_before_revision = Some ''sha256:1'', je_after_revision = Some ''sha256:2'',
        je_stage_file = Some ''stage/0'', je_backup_file = Some ''backup/0''\<rparr>,
      \<lparr>je_path = ''b.md'', je_before_revision = None, je_after_revision = Some ''sha256:3'',
        je_stage_file = Some ''stage/1'', je_backup_file = None\<rparr>]"

fun toy_phase :: "tx_phase \<Rightarrow> 8 word" where
  "toy_phase PhasePrepared = 0"
| "toy_phase PhaseCommitting = 1"
| "toy_phase PhaseCommitted = 2"

definition toy_journal :: "tx_phase \<Rightarrow> nat \<Rightarrow> journal" where
  "toy_journal p n = \<lparr>jn_version = 1, jn_id = ''t'', jn_scope = ScopeRecords, jn_phase = p, jn_applied = n, jn_entries = toy_entries\<rparr>"

definition toy_to_vec :: "journal \<Rightarrow> string + bytes" where
  "toy_to_vec j =
     (if j = toy_journal (jn_phase j) (jn_applied j) then Inr (toy_phase (jn_phase j) # replicate (jn_applied j) 0)
      else Inl ''unsupported'')"

fun toy_from_slice :: "bytes \<Rightarrow> string + journal" where
  "toy_from_slice [] = Inl ''empty''"
| "toy_from_slice (c # cs) =
     Inr (toy_journal (if c = 0 then PhasePrepared else if c = 1 then PhaseCommitting else PhaseCommitted) (length cs))"

definition toy_host :: tx_host where
  "toy_host = \<lparr>th_sha256 = (\<lambda>b. if b = [1] then ''1'' else if b = [2] then ''2'' else ''3''), th_to_vec = toy_to_vec,
     th_version = (\<lambda>_. Some 1), th_from_slice = toy_from_slice, th_json_text = (\<lambda>_. ''''),
     th_recover_runtime = (\<lambda>_ _. pr_return False), th_entry_exists = (\<lambda>_. Some False)\<rparr>"

definition toy_disk :: disk where
  "toy_disk = \<lparr>dk_names = [([''a.md''], NFile 0)], dk_inodes = [(0, \<lparr>in_bytes = [1], in_readonly = False\<rparr>)], dk_next = 1\<rparr>"

definition toy_world :: "string \<Rightarrow> disk \<Rightarrow> (nat \<Rightarrow> reply) \<Rightarrow> world" where
  "toy_world u d rs = \<lparr>w_disk = d, w_replies = rs, w_uuids = (\<lambda>_. u), w_mtimes = (\<lambda>_. None), w_time = 0\<rparr>"

definition killed_at :: "nat \<Rightarrow> nat \<Rightarrow> reply" where
  "killed_at k n = (if n = k then Kill \<lparr>pg_written = 0, pg_removed = []\<rparr> else Proceed)"

definition toy_before :: baseline where "toy_before = [(''a.md'', [1])]"
definition toy_after :: baseline where "toy_after = [(''a.md'', [2]), (''b.md'', [3])]"


definition toy_commit :: "nat \<Rightarrow> world \<times> (tx_error, commit_outcome) exit" where
  "toy_commit k = commit_shadow_controlled toy_host ex_collection toy_before toy_after ScopeRecords (toy_world ''t'' toy_disk (killed_at k))"

definition toy_recovery :: "disk \<Rightarrow> world \<times> (tx_error, bool) exit" where
  "toy_recovery d = recover_pending toy_host ex_collection (toy_world ''r'' d (\<lambda>_. Proceed))"

text \<open>A process killed after it has replaced \<open>a.md\<close> and before it creates \<open>b.md\<close>.\<close>

definition half_disk :: disk where
  "half_disk = \<lparr>dk_names = [([''.mdbase''], NDir), ([''.mdbase'', ''transactions''], NDir), ([''.mdbase'', ''transactions'', ''t''], NDir),
       ([''.mdbase'', ''transactions'', ''t'', ''backup''], NDir), ([''.mdbase'', ''transactions'', ''t'', ''backup'', ''0''], NFile 3),
       ([''.mdbase'', ''transactions'', ''t'', ''journal.json''], NFile 6), ([''.mdbase'', ''transactions'', ''t'', ''stage''], NDir),
       ([''.mdbase'', ''transactions'', ''t'', ''stage'', ''0''], NFile 2), ([''.mdbase'', ''transactions'', ''t'', ''stage'', ''1''], NFile 4),
       ([''.mdbase'', ''write.lock''], NFile 1), ([''a.md''], NFile 7)],
     dk_inodes = [(0, \<lparr>in_bytes = [1], in_readonly = False\<rparr>), (1, \<lparr>in_bytes = [], in_readonly = False\<rparr>),
       (2, \<lparr>in_bytes = [2], in_readonly = False\<rparr>), (3, \<lparr>in_bytes = [1], in_readonly = False\<rparr>), (4, \<lparr>in_bytes = [3], in_readonly = False\<rparr>),
       (5, \<lparr>in_bytes = [0], in_readonly = False\<rparr>), (6, \<lparr>in_bytes = [1], in_readonly = False\<rparr>), (7, \<lparr>in_bytes = [2], in_readonly = False\<rparr>)],
     dk_next = 8\<rparr>"

lemma toy_killed: "case toy_commit 124 of (w, r) \<Rightarrow> w_disk w = half_disk \<and> r = Killed"
  by code_simp

lemma toy_recovered:
  "case toy_recovery half_disk of (w, r) \<Rightarrow> r = Done True \<and> file_at (w_disk w) [''a.md''] = Some [2]"
  by code_simp

lemma toy_host_simps [simp]: "th_to_vec toy_host = toy_to_vec" "th_version toy_host b = Some 1" "th_from_slice toy_host = toy_from_slice"
  by (simp_all add: toy_host_def)

lemma toy_codec: "codec_ok toy_host"
  unfolding codec_ok_def
proof (intro allI impI)
  fix j b assume "th_to_vec toy_host j = Inr b"
  then have b: "b = toy_phase (jn_phase j) # replicate (jn_applied j) 0" and j: "j = toy_journal (jn_phase j) (jn_applied j)"
    by (auto simp: toy_to_vec_def split: if_splits)
  have "jn_version j = 1" by (subst j) (simp add: toy_journal_def)
  moreover have "toy_from_slice b = Inr (toy_journal (jn_phase j) (jn_applied j))" by (cases "jn_phase j") (simp_all add: b)
  ultimately show "th_from_slice toy_host b = Inr j \<and> th_version toy_host b = Some (jn_version j)"
    using j by simp
qed

lemma toy_ready: "commit_ready toy_host toy_before toy_after toy_disk"
proof -
  have changed: "all_changed toy_before toy_after = [''a.md'', ''b.md'']" by code_simp
  have canon: "canonical_path ''a.md''" "canonical_path ''b.md''" unfolding canonical_path_def by code_simp+
  have wf: "wf_disk toy_disk"
    by (auto simp: wf_disk_def toy_disk_def node_at_def bt_wf_def split: if_splits)
  have user: "user_path (split_on CHR ''/'' ''a.md'')" "user_path (split_on CHR ''/'' ''b.md'')" by code_simp+
  have rev: "v03_revision toy_host [1] \<noteq> v03_revision toy_host [2]" by code_simp
  have dirs: "node_at toy_disk (TRANSACTIONS_DIR @ [x]) \<noteq> Some NDir" for x
    by (simp add: node_at_def toy_disk_def TRANSACTIONS_DIR_def)
  have files: "file_at toy_disk (split_on CHR ''/'' ''a.md'') = Some [1]" "file_at toy_disk (split_on CHR ''/'' ''b.md'') = None"
    "bt_get toy_after ''a.md'' = Some [2]" "bt_get toy_after ''b.md'' = Some [3]" by code_simp+
  show ?thesis unfolding commit_ready_def changed using toy_codec canon wf user rev dirs files
    by (simp del: split_on.simps)
qed

lemma killed_at_honest: "honest (killed_at k)" "honest (\<lambda>_. Proceed)"
  by (simp_all add: honest_def killed_at_def)

theorem transaction_atomic_witness:
  "user_files (w_disk (fst (toy_recovery half_disk))) = intended toy_before toy_after toy_disk
   \<and> commit_ready toy_host toy_before toy_after toy_disk \<and> honest (killed_at 124)"
proof -
  obtain w1 where w1: "toy_commit 124 = (w1, Killed)" "w_disk w1 = half_disk" using toy_killed by (cases "toy_commit 124") auto
  obtain w3 where w3: "toy_recovery half_disk = (w3, Done True)" "file_at (w_disk w3) [''a.md''] = Some [2]"
    using toy_recovered by (cases "toy_recovery half_disk") auto
  have w: "w_disk (toy_world u d rs) = d" "w_replies (toy_world u d rs) = rs" for u d rs by (simp_all add: toy_world_def)
  have "user_files (w_disk w3) = user_files toy_disk \<or> user_files (w_disk w3) = intended toy_before toy_after toy_disk"
    using transaction_atomic [of toy_host toy_before toy_after "toy_world ''t'' toy_disk (killed_at 124)" ex_collection ScopeRecords
        w1 Killed "toy_world ''r'' half_disk (\<lambda>_. Proceed)" w3 True]
      w1 w3(1) toy_ready killed_at_honest by (simp add: w toy_commit_def toy_recovery_def)
  moreover have "user_files (w_disk w3) [''a.md''] \<noteq> user_files toy_disk [''a.md'']"
  proof -
    have "user_path [''a.md'']" "file_at toy_disk [''a.md''] = Some [1]" by code_simp+
    then show ?thesis using w3(2) by (simp add: user_files_def)
  qed
  ultimately show ?thesis using w3(1) toy_ready killed_at_honest by auto
qed

section \<open>Kills that block recovery\<close>

text \<open>
  A process killed between the hard link that publishes a created file and the removal of its
  temporary name leaves the file with two names. Recovery refuses to read such a file and reports that
  permission is denied; it never removes the temporary name, so that a second recovery in a new process
  fails in the same way.
\<close>
theorem interrupted_publication_blocks_recovery:
  "case toy_commit 153 of (w, r) \<Rightarrow> r = Killed \<and> file_at (w_disk w) [''b.md''] = Some [3]
     \<and> (case toy_recovery (w_disk w) of (w', r') \<Rightarrow>
          r' = Failed (TxIo [''b.md''] PermissionDenied) \<and> link_count (w_disk w') 9 = 2
          \<and> node_at (w_disk w') [''b.md''] = Some (NFile 9)
          \<and> snd (toy_recovery (w_disk w')) = Failed (TxIo [''b.md''] PermissionDenied))"
  by code_simp

end
