(* ===== verification/Transaction_Blocked.thy ===== *)
theory Transaction_Blocked
  imports Transaction_Atomic
begin

text \<open>
  A transaction directory without a journal blocks recovery for good: no recovery succeeds, whatever
  the operating system replies, and none removes the directory.
\<close>

section \<open>Directories stay\<close>

lemma triple_both:
  assumes "triple R P m Q E K" "triple R P' m Q' E' K'"
  shows "triple R (\<lambda>d. P d \<and> P' d) m (\<lambda>x d. Q x d \<and> Q' x d) (\<lambda>e d. E e d \<and> E' e d) (\<lambda>d. K d \<and> K' d)"
  using assms unfolding triple_def by (auto split: exit.splits)

text \<open>The calls that take the lock add names and remove none.\<close>

abbreviation keeps_dir :: "path \<Rightarrow> ('e, 'a) prog \<Rightarrow> bool" where
  "keeps_dir q m \<equiv> triple honest (\<lambda>d. node_at d q = Some NDir) m (\<lambda>_ d. node_at d q = Some NDir)
     (\<lambda>_ d. node_at d q = Some NDir) (\<lambda>d. node_at d q = Some NDir)"

lemma keeps_dir_calls: "keeps_dir q (sys_mkdir p)" "keeps_dir q (sys_create_new p)"
  unfolding sys_mkdir_def sys_create_new_def
  by (rule triple_syscall; auto simp: add_name_Inr node_at_def new_file_def split: if_splits)+

lemma keeps_dir_open_created: "keeps_dir q (open_created n p)"
proof (induction n)
  case 0
  show ?case by (subst open_created.simps) (auto intro!: stable_bind stable_attempt stable_calls stable_basic split: sum.split)
next
  case (Suc n)
  then show ?case by (subst open_created.simps) (auto intro!: stable_bind stable_attempt stable_calls stable_basic split: sum.split)
qed

lemma keeps_dir_create_components: "keeps_dir q (create_components dir parts)"
proof (induction parts arbitrary: dir)
  case (Cons part parts)
  have "keeps_dir q (create_component p)" for p
    unfolding create_component_def
    by (auto intro!: stable_bind stable_attempt stable_calls stable_basic keeps_dir_calls keeps_dir_open_created split: sum.split)
  then show ?case using Cons.IH by (auto intro!: stable_bind)
qed (simp add: stable_basic)

lemma keeps_dir_lock_attempts: "keeps_dir q (lock_attempts n parent leaf)"
proof -
  have "keeps_dir q (sys_open_or_create p)" for p
    unfolding sys_open_or_create_def by (auto intro!: stable_bind stable_attempt stable_calls stable_basic keeps_dir_calls split: sum.split)
  then have one: "keeps_dir q (pr_attempt (pr_bind (create_dir_all parent) (\<lambda>dir. sys_open_or_create (dir @ [leaf]))) :: (io_error, io_error + handle) prog)"
    unfolding create_dir_all_def by (auto intro!: stable_bind stable_attempt stable_calls keeps_dir_create_components)
  show ?thesis
  proof (induction n)
    case 0
    show ?case by (subst lock_attempts.simps, rule stable_bind [OF one]) (auto intro!: stable_basic split: sum.split)
  next
    case (Suc n)
    then show ?case by (subst lock_attempts.simps, intro stable_bind [OF one]) (auto intro!: stable_basic split: sum.split)
  qed
qed

lemma keeps_dir_open_lock_file: "keeps_dir q (open_lock_file p)"
proof -
  have "keeps_dir q (pr_bind (sys_metadata h) (\<lambda>metadata.
      if \<not> md_is_file metadata \<or> 1 < md_links metadata then pr_fail PermissionDenied else pr_return h))" for h
    by (auto intro!: stable_bind stable_calls stable_basic)
  then show ?thesis
    unfolding open_lock_file_def split_def
    by (intro stable_bind [OF stable_split_parent] stable_bind [OF keeps_dir_lock_attempts])
qed

section \<open>Directories are found\<close>

lemma open_dir_there:
  assumes wf: "wf_disk d" and p: "node_at d p = Some NDir"
  shows "triple honest (\<lambda>e. e = d) (open_dir p) (\<lambda>r e. e = d \<and> r = p) (\<lambda>x e. e = d \<and> x \<noteq> NotFound) (\<lambda>e. e = d)"
proof -
  have parts: "triple honest (\<lambda>e. e = d) (open_components dir parts) (\<lambda>r e. e = d \<and> r = dir @ parts)
      (\<lambda>x e. e = d \<and> x \<noteq> NotFound) (\<lambda>e. e = d)" if "node_at d (dir @ parts) = Some NDir" for dir parts
    using that
  proof (induction parts arbitrary: dir)
    case (Cons part parts)
    have "node_at d (dir @ [part]) = Some NDir"
      using Cons.prems wf_prefix [OF wf, of "dir @ [part]" parts] by (cases "parts = []") simp_all
    then have opened: "triple honest (\<lambda>e. e = d) (sys_open_dir (dir @ [part])) (\<lambda>r e. e = d \<and> r = dir @ [part])
        (\<lambda>x e. e = d \<and> x \<noteq> NotFound) (\<lambda>e. e = d)"
      unfolding sys_open_dir_def by (intro triple_syscall) auto
    show ?case
      unfolding open_components.simps
      by (rule triple_bind [OF opened], rule triple_pure_snd) (use Cons.IH [of "dir @ [part]"] Cons.prems in simp)
  qed (simp add: triple_return)
  have clone: "triple honest (\<lambda>e. e = d) sys_clone (\<lambda>_ e. e = d) (\<lambda>x e. e = d \<and> x \<noteq> NotFound) (\<lambda>e. e = d)"
    unfolding sys_clone_def by (rule triple_syscall) auto
  show ?thesis unfolding open_dir_def by (rule triple_bind [OF clone]) (use parts [of "[]" p] p in simp)
qed

lemma child_directories_there:
  assumes wf: "wf_disk d" and x: "node_at d (p @ [x]) = Some NDir"
  shows "triple honest (\<lambda>e. e = d) (child_directories p)
    (\<lambda>ds e. e = d \<and> ds \<noteq> [] \<and> (\<forall>q \<in> set ds. \<exists>y. q = p @ [y] \<and> node_at d q = Some NDir)) (\<lambda>_ e. e = d) (\<lambda>e. e = d)"
proof -
  have p: "node_at d p = Some NDir" using wf_prefix [OF wf, of p "[x]"] x by simp
  have opened: "triple honest (\<lambda>e. e = d) (pr_attempt (open_dir p)) (\<lambda>r e. (r = Inr p \<or> (\<exists>y. r = Inl y \<and> y \<noteq> NotFound)) \<and> e = d)
      (\<lambda>_ e. e = d) (\<lambda>e. e = d)"
    by (rule triple_attempt, rule triple_conseq [OF open_dir_there [OF wf p]]) auto
  have "(p @ [x], NDir) \<in> set (dk_names d)" using x by (auto simp: node_at_def dest: bt_get_in_set)
  then have "(x, NDir) \<in> set (map (\<lambda>(q, n). (last q, n)) (filter (\<lambda>(q, _). q \<noteq> [] \<and> butlast q = p) (dk_names d)))"
    by (force intro!: image_eqI [where x = "(p @ [x], NDir)"])
  then have entries: "triple honest (\<lambda>e. e = d) (sys_entries p) (\<lambda>es e. (x, NDir) \<in> set es \<and> e = d) (\<lambda>_ e. e = d) (\<lambda>e. e = d)"
    unfolding sys_entries_def by (intro triple_syscall) auto
  show ?thesis
    unfolding child_directories_def
  proof (rule triple_bind [OF opened], rule triple_pure)
    fix r :: "io_error + path" assume r: "r = Inr p \<or> (\<exists>y. r = Inl y \<and> y \<noteq> NotFound)"
    have listed: "triple honest (\<lambda>e. e = d) (pr_bind (sys_entries p) (\<lambda>entries. pr_bind (check_directories p entries) (\<lambda>result. pr_return (sort result))))
        (\<lambda>ds e. e = d \<and> ds \<noteq> [] \<and> (\<forall>q \<in> set ds. \<exists>y. q = p @ [y] \<and> node_at d q = Some NDir)) (\<lambda>_ e. e = d) (\<lambda>e. e = d)"
      by (rule triple_bind [OF entries], rule triple_pure, rule triple_bind [OF check_directories_exact], rule triple_return)
         (auto simp: sort_empty)
    show "triple honest (\<lambda>e. e = d) (case r of Inl e \<Rightarrow> if e = NotFound then pr_return [] else pr_fail e
        | Inr dir \<Rightarrow> pr_bind (sys_entries dir) (\<lambda>entries. pr_bind (check_directories p entries) (\<lambda>result. pr_return (sort result))))
        (\<lambda>ds e. e = d \<and> ds \<noteq> [] \<and> (\<forall>q \<in> set ds. \<exists>y. q = p @ [y] \<and> node_at d q = Some NDir)) (\<lambda>_ e. e = d) (\<lambda>e. e = d)"
      using r listed by (auto intro!: triple_fail)
  qed
qed

section \<open>Recovery of a directory without journal\<close>

definition blocked :: "string \<Rightarrow> (path \<Rightarrow> bytes option) \<Rightarrow> disk \<Rightarrow> bool" where
  "blocked ident F d \<longleftrightarrow>
     (\<exists>c. view (tx_dirs ident) (F(write_lock_path := c)) d) \<and> node_at d (tx_dir ident) = Some NDir"

lemma blocked_wf: "blocked ident F d \<Longrightarrow> wf_disk d"
  by (auto simp: blocked_def dest: view_wf)

lemma blocked_lock: "triple honest (blocked ident F) acquire_write_lock (\<lambda>_. blocked ident F) (\<lambda>_. blocked ident F) (blocked ident F)"
proof -
  have dirs: "tx_dirs ident (take k (butlast write_lock_path))" for k
    by (cases k) (auto simp: tx_dirs_def write_lock_path_def TRANSACTIONS_DIR_def take_Cons' split: if_splits)
  have temp: "write_lock_path \<noteq> []" "\<not> is_temp write_lock_path" by (simp_all add: write_lock_path_def is_temp_def)
  let ?V = "\<lambda>d. \<exists>c. view (tx_dirs ident) (F(write_lock_path := c)) d"
  have "triple honest ?V (open_lock_file write_lock_path) (\<lambda>_. ?V) (\<lambda>_. ?V) ?V"
  proof (rule triple_ex)
    fix c
    show "triple honest (view (tx_dirs ident) (F(write_lock_path := c))) (open_lock_file write_lock_path) (\<lambda>_. ?V) (\<lambda>_. ?V) ?V"
      using view_open_lock_file [of write_lock_path "tx_dirs ident" "F(write_lock_path := c)", OF temp(1) dirs temp(2)] by simp
  qed
  from triple_both [OF this keeps_dir_open_lock_file [of "tx_dir ident"]]
  have opened: "triple honest (blocked ident F) (open_lock_file write_lock_path) (\<lambda>_. blocked ident F) (\<lambda>_. blocked ident F) (blocked ident F)"
    unfolding blocked_def [abs_def] .
  show ?thesis
    unfolding acquire_write_lock_def by (intro stable_map_err stable_bind opened stable_calls)
qed

lemma blocked_recover_one:
  assumes "F (journal_path ident) = None"
  shows "triple honest (blocked ident F) (recover_one h col (tx_dir ident)) (\<lambda>_ _. False) (\<lambda>_. blocked ident F) (blocked ident F)"
proof -
  have j: "journal_path ident \<noteq> write_lock_path"
    by (simp add: journal_path_def tx_dir_def TRANSACTIONS_DIR_def write_lock_path_def)
  have "triple honest (\<lambda>d. \<exists>c. view (tx_dirs ident) (F(write_lock_path := c)) d) (root_read (journal_path ident)) (\<lambda>_ _. False)
      (\<lambda>_ d. \<exists>c. view (tx_dirs ident) (F(write_lock_path := c)) d) (\<lambda>d. \<exists>c. view (tx_dirs ident) (F(write_lock_path := c)) d)"
    by (rule triple_ex, rule triple_conseq [OF view_root_read [OF tx_path_facts(1)]]) (use assms j in auto)
  from triple_both [OF this stable_root_read [of "\<lambda>d. node_at d (tx_dir ident) = Some NDir"]]
  have "triple honest (blocked ident F) (root_read (journal_path ident)) (\<lambda>_ _. False) (\<lambda>_. blocked ident F) (blocked ident F)"
    unfolding blocked_def [abs_def] by simp
  then have read: "triple honest (blocked ident F) (pr_map_err (TxIo (journal_path ident)) (root_read (journal_path ident))) (\<lambda>_ _. False)
      (\<lambda>_. blocked ident F) (blocked ident F)" by (rule triple_map_err)
  show ?thesis
    unfolding recover_one_def journal_path_def [symmetric] by (rule triple_bind [OF read]) (simp add: triple_def)
qed

lemma blocked_recover_pending:
  assumes F: "F (journal_path ident) = None"
  shows "triple honest (blocked ident F) (recover_pending h col) (\<lambda>_ _. False) (\<lambda>_. blocked ident F) (blocked ident F)"
proof -
  let ?B = "blocked ident F"
  have opened: "triple honest ?B (pr_attempt (open_dir TRANSACTIONS_DIR)) (\<lambda>r d. r \<noteq> Inl NotFound \<and> ?B d) (\<lambda>_. ?B) ?B"
  proof (rule triple_each)
    fix d assume d: "?B d"
    have "node_at d TRANSACTIONS_DIR = Some NDir"
      using wf_prefix [OF blocked_wf [OF d], of TRANSACTIONS_DIR "[ident]"] d by (simp add: blocked_def tx_dir_def)
    then show "triple honest (\<lambda>e. e = d) (pr_attempt (open_dir TRANSACTIONS_DIR)) (\<lambda>r d. r \<noteq> Inl NotFound \<and> ?B d) (\<lambda>_. ?B) ?B"
      using d by (intro triple_attempt triple_conseq [OF open_dir_there [OF blocked_wf [OF d]]]) auto
  qed
  have children: "triple honest ?B (pr_map_err (TxIo TRANSACTIONS_DIR) (child_directories TRANSACTIONS_DIR))
      (\<lambda>ds d. (ds \<noteq> [] \<and> (\<forall>q \<in> set ds. q = tx_dir ident)) \<and> ?B d) (\<lambda>_. ?B) ?B"
  proof (rule triple_each)
    fix d assume d: "?B d"
    have there: "node_at d (TRANSACTIONS_DIR @ [ident]) = Some NDir" using d by (simp add: blocked_def tx_dir_def)
    have "q = tx_dir ident" if "q = TRANSACTIONS_DIR @ [y]" "node_at d q = Some NDir" for q y
      using d that view_dir [of "tx_dirs ident" _ d q] by (auto simp: blocked_def tx_dirs_def tx_dir_def)
    with d show "triple honest (\<lambda>e. e = d) (pr_map_err (TxIo TRANSACTIONS_DIR) (child_directories TRANSACTIONS_DIR))
        (\<lambda>ds d. (ds \<noteq> [] \<and> (\<forall>q \<in> set ds. q = tx_dir ident)) \<and> ?B d) (\<lambda>_. ?B) ?B"
      by (intro triple_map_err triple_conseq [OF child_directories_there [OF blocked_wf [OF d] there]]) blast+
  qed
  have all: "triple honest ?B (recover_all h col ds changed) (\<lambda>_ _. False) (\<lambda>_. ?B) ?B"
    if "ds \<noteq> []" "\<forall>q \<in> set ds. q = tx_dir ident" for ds changed
  proof (cases ds)
    case (Cons q qs)
    then have q: "q = tx_dir ident" using that by simp
    show ?thesis
      unfolding Cons recover_all.simps q by (rule triple_bind [OF blocked_recover_one [where F = F and ident = ident, OF F]]) (simp add: triple_def)
  qed (use that in simp)
  have locked: "triple honest ?B (pr_bind acquire_write_lock (\<lambda>_.
         pr_bind (pr_map_err (TxIo TRANSACTIONS_DIR) (child_directories TRANSACTIONS_DIR)) (\<lambda>directories.
         recover_all h col directories False))) (\<lambda>_ _. False) (\<lambda>_. ?B) ?B"
    by (rule triple_bind [OF blocked_lock], rule triple_bind [OF children], rule triple_pure, rule all) blast+
  show ?thesis
    unfolding recover_pending_def
    by (rule triple_bind [OF opened], rule triple_pure) (use locked in \<open>auto intro!: triple_fail split: sum.split\<close>)
qed

lemma recovery_step_blocked:
  assumes "F (journal_path ident) = None"
  shows "invariant_machine (recovery_step h col) (blocked ident F)"
proof
  fix d d' assume d: "blocked ident F d" and "recovery_step h col d d'"
  then obtain w where w: "honest (w_replies w)" "w_disk w = d" "w_disk (fst (recover_pending h col w)) = d'"
    by (auto simp: recovery_step_def)
  obtain w' r where run: "recover_pending h col w = (w', r)" by force
  from tripleD(2) [OF blocked_recover_pending [where F = F and ident = ident, OF assms] w(1) _ run] d w run show "blocked ident F d'"
    by (cases r) auto
qed

text \<open>
  C31: A transaction directory without a journal blocks the collection for good. Suppose a commit ends,
  in whatever way, with the directory of its transaction on the disk and no journal in it, which is what
  a kill leaves that comes after the directory is created and before the journal is written. Then no
  recovery ever succeeds: after any number of attempts with any faults and kills the next one fails or is
  killed too, the directory is still there without a journal, and the files of users are as the commit
  left them.
\<close>
theorem interrupted_staging_blocks_recovery:
  assumes ready: "commit_ready h b a (w_disk w)" "honest (w_replies w)"
    and commit: "commit_shadow_controlled h col b a scope w = (w1, r)"
    and window: "node_at (w_disk w1) (tx_dir ident) = Some NDir" "file_at (w_disk w1) (journal_path ident) = None"
    and attempts: "(recovery_step h col)\<^sup>*\<^sup>* (w_disk w1) (w_disk w2)"
    and recovery: "honest (w_replies w2)" "recover_pending h col w2 = (w3, r3)"
  shows "(\<nexists>changed. r3 = Done changed) \<and> node_at (w_disk w3) (tx_dir ident) = Some NDir
    \<and> file_at (w_disk w3) (journal_path ident) = None \<and> user_files (w_disk w3) = user_files (w_disk w1)"
proof -
  let ?f = "file_at (w_disk w)"
  have canon: "\<forall>s \<in> set (all_changed b a). canonical_path s" using ready(1) by (auto simp: commit_ready_def)
  have same: "user_files_are ?f ?f" by (simp add: user_files_are_def)
  from tripleD(2) [OF commit_triple [OF targets_of_changed_ok [OF ready(1)] canon same] ready(2) view_of_disk [OF ready(1)] commit]
  obtain ident' G where G: "view (tx_dirs ident') G (w_disk w1)" by (cases r) (auto simp: files_in_def)
  have "ident' = ident" using view_dir [OF G window(1)] by (simp add: tx_dirs_def tx_dir_def)
  with G have G: "view (tx_dirs ident) G (w_disk w1)" by simp
  have j: "G (journal_path ident) = None" using view_file [OF G tx_path_facts(1)] window(2) by simp
  have "blocked ident G (w_disk w1)"
    unfolding blocked_def using window(1) G by (metis fun_upd_triv)
  then have w2: "blocked ident G (w_disk w2)"
    using invariant_machine.steps_inv [OF recovery_step_blocked [where F = G and ident = ident, OF j] attempts] by blast
  from tripleD(2) [OF blocked_recover_pending [where F = G and ident = ident, OF j] recovery(1) w2 recovery(2)]
  have exit: "(\<nexists>changed. r3 = Done changed) \<and> blocked ident G (w_disk w3)" by (cases r3) auto
  then obtain c where c: "view (tx_dirs ident) (G(write_lock_path := c)) (w_disk w3)" "node_at (w_disk w3) (tx_dir ident) = Some NDir"
    by (auto simp: blocked_def)
  have "journal_path ident \<noteq> write_lock_path"
    by (simp add: journal_path_def tx_dir_def TRANSACTIONS_DIR_def write_lock_path_def)
  then have "file_at (w_disk w3) (journal_path ident) = None" using view_file [OF c(1) tx_path_facts(1)] j by simp
  moreover have "user_files (w_disk w3) = user_files (w_disk w1)"
    using view_file [OF c(1)] view_file [OF G] by (auto simp: user_files_def user_path_def fun_eq_iff)
  ultimately show ?thesis using exit c(2) by blast
qed

text \<open>
  A commit killed while it stages, at its thirtieth call, and the recovery of a healthy system: it
  reports that the journal is not found.
\<close>

lemma toy_window:
  "case toy_commit 30 of (w, r) \<Rightarrow> r = Killed \<and> node_at (w_disk w) (tx_dir ''t'') = Some NDir
     \<and> file_at (w_disk w) (journal_path ''t'') = None \<and> file_at (w_disk w) [''a.md''] = Some [1]
     \<and> snd (toy_recovery (w_disk w)) = Failed (TxIo (journal_path ''t'') NotFound)"
  by code_simp

theorem interrupted_staging_blocks_recovery_witness:
  "\<exists>w. toy_commit 30 = (w, Killed) \<and> (\<nexists>changed. snd (toy_recovery (w_disk w)) = Done changed)
     \<and> user_files (w_disk (fst (toy_recovery (w_disk w)))) = user_files (w_disk w)"
proof -
  obtain w1 where w1: "toy_commit 30 = (w1, Killed)" "node_at (w_disk w1) (tx_dir ''t'') = Some NDir"
    "file_at (w_disk w1) (journal_path ''t'') = None" using toy_window by (cases "toy_commit 30") auto
  obtain w3 r3 where w3: "toy_recovery (w_disk w1) = (w3, r3)" by force
  have w: "w_disk (toy_world u d rs) = d" "w_replies (toy_world u d rs) = rs" for u d rs by (simp_all add: toy_world_def)
  have "(\<nexists>changed. r3 = Done changed) \<and> node_at (w_disk w3) (tx_dir ''t'') = Some NDir
    \<and> file_at (w_disk w3) (journal_path ''t'') = None \<and> user_files (w_disk w3) = user_files (w_disk w1)"
    using interrupted_staging_blocks_recovery [of toy_host toy_before toy_after "toy_world ''t'' toy_disk (killed_at 30)" ex_collection ScopeRecords
        w1 Killed "''t''" "toy_world ''r'' (w_disk w1) (\<lambda>_. Proceed)" w3 r3]
      w1 w3 toy_ready killed_at_honest by (simp add: w toy_commit_def toy_recovery_def)
  with w1(1) w3 show ?thesis by auto
qed

end
