(* ===== verification/Float64.thy ===== *)
theory Float64
  imports Rust_Text
begin

text \<open>
  The doubles of the Rust standard library as far as the expression language reads them:
  \<open>str::parse::<f64>\<close>. A finite double is \<open>m * 2 ^ e\<close> with a sign, in lowest terms (\<open>m\<close> odd, or both
  parts zero), so that equal doubles are equal values of the datatype.
\<close>

datatype f64 = F64NaN | F64Inf bool | F64Fin bool int int

function power_of :: "int \<Rightarrow> int \<Rightarrow> int" where
  "power_of b e = (if e \<le> 0 then 1 else b * power_of b (e - 1))"
  by pat_completeness auto
termination by (relation "measure (\<lambda>(b, e). nat e)") auto

function lowest_terms :: "int \<Rightarrow> int \<Rightarrow> int \<times> int" where
  "lowest_terms m e =
     (if m \<le> 0 then (0, 0) else if m mod 2 = 0 then lowest_terms (m div 2) (e + 1) else (m, e))"
  by pat_completeness auto
termination by (relation "measure (\<lambda>(m, e). nat m)") auto

function bit_length :: "int \<Rightarrow> int" where
  "bit_length n = (if n \<le> 0 then 0 else 1 + bit_length (n div 2))"
  by pat_completeness auto
termination by (relation "measure nat") auto

declare power_of.simps [simp del] lowest_terms.simps [simp del] bit_length.simps [simp del]

text \<open>\<open>n / d * 2 ^ - e\<close> as a fraction.\<close>

definition scaled :: "int \<Rightarrow> int \<Rightarrow> int \<Rightarrow> int \<times> int" where
  "scaled n d e = (if 0 \<le> e then (n, d * power_of 2 e) else (n * power_of 2 (- e), d))"

text \<open>The exponent of the last place of the double nearest to \<open>n / d\<close>: 53 bits, not below \<open>2 ^ -1074\<close>.\<close>

definition last_place :: "int \<Rightarrow> int \<Rightarrow> int" where
  "last_place n d =
     (let k = bit_length n - bit_length d;
          (a, b) = scaled n d k;
          top = (if a < b then k - 1 else k)
      in max (top - 52) (- 1074))"

text \<open>Round to nearest, ties to even; what reaches \<open>2 ^ 1024\<close> is infinite.\<close>

definition round_f64 :: "bool \<Rightarrow> int \<Rightarrow> int \<Rightarrow> f64" where
  "round_f64 neg n d =
     (if n \<le> 0 then F64Fin neg 0 0
      else
        let e = last_place n d; (a, b) = scaled n d e; q = a div b; r = a mod b;
            m = (if b < 2 * r \<or> (2 * r = b \<and> q mod 2 = 1) then q + 1 else q)
        in if 971 < e \<or> (e = 971 \<and> power_of 2 53 \<le> m) then F64Inf neg
           else (case lowest_terms m e of (m', e') \<Rightarrow> F64Fin neg m' e'))"

section \<open>Parsing\<close>

text \<open>
  The grammar of \<open>f64::from_str\<close>: an optional sign, then \<open>inf\<close>, \<open>infinity\<close> or \<open>nan\<close> in any case, or
  digits with an optional point (and a digit on one side of it) and an optional exponent.
\<close>

definition take_sign :: "string \<Rightarrow> bool \<times> string" where
  "take_sign s =
     (case s of
        c # cs \<Rightarrow> if c = CHR ''-'' then (True, cs) else if c = CHR ''+'' then (False, cs) else (False, s)
      | [] \<Rightarrow> (False, s))"

definition decimal_int :: "string \<Rightarrow> int" where
  "decimal_int s = foldl (\<lambda>acc c. acc * 10 + of_char c - 48) 0 s"

definition digits :: "string \<Rightarrow> string" where
  "digits s = takeWhile is_ascii_digit s"

definition after_digits :: "string \<Rightarrow> string" where
  "after_digits s = dropWhile is_ascii_digit s"

definition parse_exponent :: "string \<Rightarrow> int option" where
  "parse_exponent s =
     (case s of
        [] \<Rightarrow> Some 0
      | c # cs \<Rightarrow>
          if c = CHR ''e'' \<or> c = CHR ''E'' then
            (case take_sign cs of
               (neg, ds) \<Rightarrow>
                 if ds = [] \<or> after_digits ds \<noteq> [] then None
                 else Some (if neg then - decimal_int ds else decimal_int ds))
          else None)"

definition fraction_digits :: "string \<Rightarrow> string \<times> string" where
  "fraction_digits s =
     (case s of
        c # cs \<Rightarrow> if c = CHR ''.'' then (digits cs, after_digits cs) else ([], s)
      | [] \<Rightarrow> ([], []))"

definition parse_finite :: "bool \<Rightarrow> string \<Rightarrow> f64 option" where
  "parse_finite neg s =
     (let whole = digits s; (fraction, rest) = fraction_digits (after_digits s) in
      if whole = [] \<and> fraction = [] then None
      else
        map_option (\<lambda>e.
          let n = decimal_int (whole @ fraction); k = e - int (length fraction) in
          if 0 \<le> k then round_f64 neg (n * power_of 10 k) 1 else round_f64 neg n (power_of 10 (- k)))
        (parse_exponent rest))"

definition parse_f64 :: "string \<Rightarrow> f64 option" where
  "parse_f64 s =
     (case take_sign s of
        (neg, r) \<Rightarrow>
          let u = to_ascii_uppercase r in
          if u = ''INF'' \<or> u = ''INFINITY'' then Some (F64Inf neg)
          else if u = ''NAN'' then Some F64NaN
          else parse_finite neg r)"

lemma parse_f64_examples:
  "parse_f64 ''0.5'' = Some (F64Fin False 1 (- 1))"
  "parse_f64 ''12'' = Some (F64Fin False 3 2)"
  "parse_f64 ''-.25e1'' = Some (F64Fin True 5 (- 1))"
  "parse_f64 ''1.2.3'' = None"
  "parse_f64 ''9007199254740993'' = Some (F64Fin False 1 53)"
  by code_simp+

end
