(* ===== verification/Expression_Syntax.thy ===== *)
theory Expression_Syntax
  imports Float64
begin

text \<open>
  The expression language of computed fields and queries: its abstract syntax
  (\<open>expressions/ast.rs\<close>), the lexer and the recursive descent parser (\<open>expressions/parser.rs\<close>) and the
  tests on expressions of \<open>expressions/mod.rs\<close>. The lexer reads the UTF-8 bytes of the source: outside
  ASCII a character is white space, part of a string, or an error, so that bytes and characters give
  the same tokens.
\<close>

section \<open>Abstract syntax\<close>

datatype bin_op = OpAdd | OpSub | OpMul | OpDiv | OpMod | OpEq | OpNeq | OpLt | OpGt | OpLte | OpGte | OpIn | OpAnd | OpOr

datatype unary_op = OpNot | OpNeg

datatype expr =
    ENull
  | EBool bool
  | ENumber f64
  | EStr string
  | EIdent string
  | EDot expr string
  | EIndex expr expr
  | EBinOp expr bin_op expr
  | EUnaryOp unary_op expr
  | ENullCoalesce expr expr
  | EArray "expr list"
  | ECall expr "expr list"
  | EConditional expr expr expr

fun expr_contains_ident :: "expr \<Rightarrow> string \<Rightarrow> bool" where
  "expr_contains_ident (EIdent s) name = (s = name)"
| "expr_contains_ident (EDot obj _) name = expr_contains_ident obj name"
| "expr_contains_ident (EIndex obj idx) name = (expr_contains_ident obj name \<or> expr_contains_ident idx name)"
| "expr_contains_ident (EBinOp l _ r) name = (expr_contains_ident l name \<or> expr_contains_ident r name)"
| "expr_contains_ident (EUnaryOp _ e) name = expr_contains_ident e name"
| "expr_contains_ident (ENullCoalesce l r) name = (expr_contains_ident l name \<or> expr_contains_ident r name)"
| "expr_contains_ident (EArray elements) name = list_ex (\<lambda>e. expr_contains_ident e name) elements"
| "expr_contains_ident (ECall f args) name = (expr_contains_ident f name \<or> list_ex (\<lambda>a. expr_contains_ident a name) args)"
| "expr_contains_ident (EConditional c t e) name =
     (expr_contains_ident c name \<or> expr_contains_ident t name \<or> expr_contains_ident e name)"
| "expr_contains_ident _ name = False"

fun expr_reads_body_prose :: "expr \<Rightarrow> bool" where
  "expr_reads_body_prose (EDot object field) =
     ((field = ''body'' \<and> object = EIdent ''file'') \<or> expr_reads_body_prose object)"
| "expr_reads_body_prose (EIndex object index) =
     ((object = EIdent ''file'' \<and> index = EStr ''body'') \<or> expr_reads_body_prose object \<or> expr_reads_body_prose index)"
| "expr_reads_body_prose (EBinOp l _ r) = (expr_reads_body_prose l \<or> expr_reads_body_prose r)"
| "expr_reads_body_prose (ENullCoalesce l r) = (expr_reads_body_prose l \<or> expr_reads_body_prose r)"
| "expr_reads_body_prose (EUnaryOp _ e) = expr_reads_body_prose e"
| "expr_reads_body_prose (EArray elements) = list_ex expr_reads_body_prose elements"
| "expr_reads_body_prose (ECall f args) = (expr_reads_body_prose f \<or> list_ex expr_reads_body_prose args)"
| "expr_reads_body_prose (EConditional c t e) =
     (expr_reads_body_prose c \<or> expr_reads_body_prose t \<or> expr_reads_body_prose e)"
| "expr_reads_body_prose _ = False"

section \<open>Lexer\<close>

datatype token =
    TNull | TBool bool | TNumber f64 | TStr string | TIdent string
  | TPlus | TMinus | TStar | TSlash | TPercent | TEq | TNeq | TLt | TGt | TLte | TGte | TIn | TAnd | TOr | TNot
  | TQuestionQuestion | TQuestion | TColon
  | TLParen | TRParen | TLBracket | TRBracket | TDot | TComma
  | TEof

definition esc_char :: char where
  "esc_char = CHR 0x5C"

definition escaped :: "char \<Rightarrow> char \<Rightarrow> string" where
  "escaped quote c =
     (if c = CHR ''n'' then [CHR 0x0A] else if c = CHR ''t'' then [CHR 0x09]
      else if c = esc_char then [esc_char] else if c = quote then [c] else [esc_char, c])"

fun lex_string :: "char \<Rightarrow> string \<Rightarrow> (string, string \<times> string) res" where
  "lex_string quote [] = Err ''Unterminated string''"
| "lex_string quote [c] = (if c = quote then Ok ([], []) else Err ''Unterminated string'')"
| "lex_string quote (c # d # cs) =
     (if c = esc_char then bind_res (lex_string quote cs) (\<lambda>(s, rest). Ok (escaped quote d @ s, rest))
      else if c = quote then Ok ([], d # cs)
      else bind_res (lex_string quote (d # cs)) (\<lambda>(s, rest). Ok (c # s, rest)))"

definition number_token :: "string \<Rightarrow> string \<Rightarrow> string \<Rightarrow> (string, token \<times> string) res" where
  "number_token message num_str rest =
     (case parse_f64 num_str of Some n \<Rightarrow> Ok (TNumber n, rest) | None \<Rightarrow> Err message)"

definition lex_point :: "string \<Rightarrow> (string, token \<times> string) res" where
  "lex_point cs =
     (if digits cs \<noteq> [] then number_token ''Invalid number'' (''0.'' @ digits cs) (after_digits cs)
      else Ok (TDot, cs))"

definition exponent_part :: "string \<Rightarrow> string \<times> string" where
  "exponent_part s =
     (case s of
        c # cs \<Rightarrow>
          if c = CHR ''e'' \<or> c = CHR ''E'' then
            (case cs of
               d # ds \<Rightarrow>
                 if d = CHR ''+'' \<or> d = CHR ''-'' then (c # d # digits ds, after_digits ds)
                 else (c # digits cs, after_digits cs)
             | [] \<Rightarrow> ([c], []))
          else ([], s)
      | [] \<Rightarrow> ([], []))"

definition lex_number :: "string \<Rightarrow> (string, token \<times> string) res" where
  "lex_number s =
     (let p = (\<lambda>c. is_ascii_digit c \<or> c = CHR ''.'');
          (exponent, rest) = exponent_part (dropWhile p s);
          num_str = takeWhile p s @ exponent
      in number_token (''Invalid number: '' @ num_str) num_str rest)"

definition ident_char :: "char \<Rightarrow> bool" where
  "ident_char c \<longleftrightarrow> is_ascii_alphabetic c \<or> is_ascii_digit c \<or> c = CHR ''_''"

definition word_token :: "string \<Rightarrow> token" where
  "word_token ident =
     (if ident = ''true'' then TBool True else if ident = ''false'' then TBool False
      else if ident = ''null'' then TNull else if ident = ''in'' then TIn else TIdent ident)"

definition lex_word :: "string \<Rightarrow> token \<times> string" where
  "lex_word s =
     (let ident = takeWhile ident_char s; rest = dropWhile ident_char s in
      if ident = ''ext'' \<and> starts_with rest ''::''
      then (TIdent (''ext::'' @ takeWhile ident_char (drop 2 rest)), dropWhile ident_char (drop 2 rest))
      else (word_token ident, rest))"

text \<open>A character that may be followed by a second one of the same token.\<close>

definition lex_pair :: "char \<Rightarrow> token \<Rightarrow> (string, token) res \<Rightarrow> string \<Rightarrow> (string, token \<times> string) res" where
  "lex_pair second double single cs =
     (case cs of
        c # r \<Rightarrow> if c = second then Ok (double, r) else bind_res single (\<lambda>t. Ok (t, cs))
      | [] \<Rightarrow> bind_res single (\<lambda>t. Ok (t, cs)))"

definition single_tokens :: "(char \<times> token) list" where
  "single_tokens =
     [(CHR ''+'', TPlus), (CHR ''*'', TStar), (CHR ''/'', TSlash), (CHR ''%'', TPercent), (CHR ''('', TLParen),
      (CHR '')'', TRParen), (CHR ''['', TLBracket), (CHR '']'', TRBracket), (CHR '','', TComma), (CHR '':'', TColon),
      (CHR ''-'', TMinus)]"

definition unexpected :: "string \<Rightarrow> string" where
  "unexpected s = utf8_encode (hd (utf8_chars s))"

fun lex_token :: "string \<Rightarrow> (string, token \<times> string) res" where
  "lex_token [] = Ok (TEof, [])"
| "lex_token (c # cs) =
     (case map_of single_tokens c of
        Some t \<Rightarrow> Ok (t, cs)
      | None \<Rightarrow>
          if c = CHR ''.'' then lex_point cs
          else if c = CHR ''?'' then lex_pair (CHR ''?'') TQuestionQuestion (Ok TQuestion) cs
          else if c = CHR ''='' then lex_pair (CHR ''='') TEq (Err (''Unexpected '' @ [CHR 0x27] @ ''='' @ [CHR 0x27])) cs
          else if c = CHR ''!'' then lex_pair (CHR ''='') TNeq (Ok TNot) cs
          else if c = CHR ''<'' then lex_pair (CHR ''='') TLte (Ok TLt) cs
          else if c = CHR ''>'' then lex_pair (CHR ''='') TGte (Ok TGt) cs
          else if c = CHR ''&'' then lex_pair (CHR ''&'') TAnd (Err (''Unexpected '' @ [CHR 0x27] @ ''&'' @ [CHR 0x27])) cs
          else if c = CHR ''|'' then lex_pair (CHR ''|'') TOr (Err (''Unexpected '' @ [CHR 0x27] @ ''|'' @ [CHR 0x27])) cs
          else if c = CHR 0x22 \<or> c = CHR 0x27 then bind_res (lex_string c cs) (\<lambda>(s, rest). Ok (TStr s, rest))
          else if is_ascii_digit c then lex_number (c # cs)
          else if is_ascii_alphabetic c \<or> c = CHR ''_'' then Ok (lex_word (c # cs))
          else Err (''Unexpected character: '' @ [CHR 0x27] @ unexpected (c # cs) @ [CHR 0x27]))"

text \<open>Every token takes at least one byte.\<close>

lemma drop_while_shorter: "length (dropWhile p s) \<le> length s"
  by (simp add: length_dropWhile_le)

lemma after_digits_shorter: "length (after_digits s) \<le> length s"
  by (simp add: after_digits_def drop_while_shorter)

lemma lex_string_shorter: "lex_string q s = Ok (t, r) \<Longrightarrow> length r < length s"
  by (induction q s arbitrary: t r rule: lex_string.induct) (fastforce split: if_splits simp: bind_res_eq_Ok)+

lemma exponent_part_shorter: "length (snd (exponent_part s)) \<le> length s"
  using after_digits_shorter [of "tl s"] after_digits_shorter [of "tl (tl s)"]
  by (auto simp: exponent_part_def split: list.splits)

lemma lex_number_shorter:
  assumes "lex_number (c # cs) = Ok (t, r)" "is_ascii_digit c"
  shows "length r < length (c # cs)"
proof -
  let ?p = "\<lambda>c. is_ascii_digit c \<or> c = CHR ''.''"
  have "r = snd (exponent_part (dropWhile ?p cs))"
    using assms by (auto simp: lex_number_def number_token_def Let_def split: prod.splits option.splits)
  then show ?thesis
    using exponent_part_shorter [of "dropWhile ?p cs"] drop_while_shorter [of ?p cs] by (simp del: length_dropWhile_le)
qed

lemma lex_word_shorter:
  assumes "ident_char c"
  shows "length (snd (lex_word (c # cs))) < length (c # cs)"
  using assms drop_while_shorter [of ident_char cs] drop_while_shorter [of ident_char "drop 2 (dropWhile ident_char cs)"]
  by (auto simp: lex_word_def Let_def)

lemma lex_token_shorter:
  assumes "lex_token (c # cs) = Ok (t, r)"
  shows "length r < length (c # cs)"
proof -
  define P where "P X \<longleftrightarrow> (\<forall>t r. X = Ok (t, r) \<longrightarrow> length r < length (c # cs))" for X :: "(string, token \<times> string) res"
  have P_if: "(q \<Longrightarrow> P X) \<Longrightarrow> (\<not> q \<Longrightarrow> P Y) \<Longrightarrow> P (if q then X else Y)" for q X Y by simp
  have pair: "P (lex_pair x d sg cs)" for x d sg
    by (auto simp: P_def lex_pair_def bind_res_eq_Ok split: list.splits if_splits)
  have point: "P (lex_point cs)"
    using after_digits_shorter [of cs] by (auto simp: P_def lex_point_def number_token_def split: if_splits option.splits)
  have word: "is_ascii_alphabetic c \<or> c = CHR ''_'' \<Longrightarrow> P (Ok (lex_word (c # cs)))"
    using lex_word_shorter [of c cs] by (cases "lex_word (c # cs)") (auto simp: P_def ident_char_def)
  have number: "is_ascii_digit c \<Longrightarrow> P (lex_number (c # cs))"
    unfolding P_def using lex_number_shorter by blast
  have str: "P (bind_res (lex_string c cs) (\<lambda>(s, rest). Ok (TStr s, rest)))"
    using lex_string_shorter by (fastforce simp: P_def bind_res_eq_Ok)
  have err: "P (Err e)" for e by (simp add: P_def)
  have "P (lex_token (c # cs))"
  proof (cases "map_of single_tokens c")
    case (Some t)
    then show ?thesis by (simp add: P_def)
  next
    case None
    show ?thesis unfolding lex_token.simps None option.case by (intro P_if pair point word number str err)
  qed
  with assms show ?thesis by (simp add: P_def)
qed

definition skip_whitespace :: "string \<Rightarrow> string" where
  "skip_whitespace s = strip_leading white_space_texts s"

lemma strip_leading_shorter: "length (strip_leading ws s) \<le> length s"
proof (induction ws s rule: strip_leading.induct)
  case (1 ws s)
  then show ?case by (subst strip_leading.simps) (fastforce split: option.split)
qed

function tokenize :: "string \<Rightarrow> (string, token list) res" where
  "tokenize s =
     (case skip_whitespace s of
        [] \<Rightarrow> Ok [TEof]
      | c # cs \<Rightarrow>
          bind_res (lex_token (c # cs)) (\<lambda>(t, rest). bind_res (tokenize rest) (\<lambda>ts. Ok (t # ts))))"
  by pat_completeness auto
termination
proof (relation "measure length")
  fix s c cs y x rest
  assume "skip_whitespace s = c # cs" "lex_token (c # cs) = Ok y" "(x, rest) = y"
  then show "(rest, s) \<in> measure length"
    using lex_token_shorter [of c cs x rest] strip_leading_shorter [of white_space_texts s]
    by (auto simp: skip_whitespace_def)
qed simp

declare tokenize.simps [simp del]

end
