(* ===== verification/Expression_Parser.thy ===== *)
theory Expression_Parser
  imports Expression_Syntax "HOL-Library.Word"
begin

text \<open>
  The recursive descent parser of \<open>expressions/parser.rs\<close>. Its state is the tokens from the current
  position on and the nesting depth. The methods call one another through nested expressions, so they
  carry fuel and \<open>None\<close> means that it did not suffice; enough fuel always exists. The messages of
  the errors are the constructors of a type.
\<close>

section \<open>State and errors\<close>

datatype parse_error =
    LexError string
  | EmptyExpression
  | DepthExceeded
  | ExpectedToken token token
  | ExpectedIdentifier token
  | UnexpectedToken token

type_synonym parser_state = "token list \<times> nat"
type_synonym 'a parsed = "(parse_error, 'a \<times> parser_state) res option"

definition peek :: "parser_state \<Rightarrow> token" where
  "peek st = (case fst st of [] \<Rightarrow> TEof | t # _ \<Rightarrow> t)"

definition advance_token :: "parser_state \<Rightarrow> parser_state" where
  "advance_token st = (tl (fst st), snd st)"

definition pdone :: "'a \<Rightarrow> parser_state \<Rightarrow> 'a parsed" where
  "pdone x st = Some (Ok (x, st))"

definition pfail :: "parse_error \<Rightarrow> 'a parsed" where
  "pfail e = Some (Err e)"

definition pbind :: "'a parsed \<Rightarrow> ('a \<Rightarrow> parser_state \<Rightarrow> 'b parsed) \<Rightarrow> 'b parsed" where
  "pbind m f =
     (case m of
        None \<Rightarrow> None
      | Some (Ok (x, st)) \<Rightarrow> f x st
      | Some (Err e) \<Rightarrow> Some (Err e)
      | Some Panic \<Rightarrow> Some Panic)"

text \<open>
  The depth is a \<open>u32\<close>: counting it beyond its range, or below zero, panics, as it does with overflow
  checks.
\<close>

definition u32_max :: nat where
  "u32_max = 4294967295"

definition parser_check_depth :: "nat \<Rightarrow> parser_state \<Rightarrow> (parser_state \<Rightarrow> 'a parsed) \<Rightarrow> 'a parsed" where
  "parser_check_depth max_depth st f =
     (if snd st = u32_max then Some Panic
      else if max_depth < Suc (snd st) then pfail DepthExceeded else f (fst st, Suc (snd st)))"

definition dec_depth :: "parser_state \<Rightarrow> (parser_state \<Rightarrow> 'a parsed) \<Rightarrow> 'a parsed" where
  "dec_depth st f = (if snd st = 0 then Some Panic else f (fst st, snd st - 1))"

definition expect :: "token \<Rightarrow> parser_state \<Rightarrow> (parser_state \<Rightarrow> 'a parsed) \<Rightarrow> 'a parsed" where
  "expect t st f = (if peek st = t then f (advance_token st) else pfail (ExpectedToken t (peek st)))"

section \<open>Levels of precedence\<close>

text \<open>
  The seven methods from \<open>parse_null_coalesce\<close> to \<open>parse_multiplicative\<close> have one shape: an operand of the
  next level, then a loop over the operators of this level, which associate to the left.
\<close>

datatype level = NullCoalesce | LogicalOr | LogicalAnd | Equality | Comparison | Additive | Multiplicative

fun next_level :: "level \<Rightarrow> level option" where
  "next_level NullCoalesce = Some LogicalOr"
| "next_level LogicalOr = Some LogicalAnd"
| "next_level LogicalAnd = Some Equality"
| "next_level Equality = Some Comparison"
| "next_level Comparison = Some Additive"
| "next_level Additive = Some Multiplicative"
| "next_level Multiplicative = None"

datatype operator = Coalesce | Binary bin_op

definition level_ops :: "level \<Rightarrow> (token \<times> operator) list" where
  "level_ops l =
     (case l of
        NullCoalesce \<Rightarrow> [(TQuestionQuestion, Coalesce)]
      | LogicalOr \<Rightarrow> [(TOr, Binary OpOr)]
      | LogicalAnd \<Rightarrow> [(TAnd, Binary OpAnd)]
      | Equality \<Rightarrow> [(TEq, Binary OpEq), (TNeq, Binary OpNeq)]
      | Comparison \<Rightarrow> [(TLt, Binary OpLt), (TGt, Binary OpGt), (TLte, Binary OpLte), (TGte, Binary OpGte), (TIn, Binary OpIn)]
      | Additive \<Rightarrow> [(TPlus, Binary OpAdd), (TMinus, Binary OpSub)]
      | Multiplicative \<Rightarrow> [(TStar, Binary OpMul), (TSlash, Binary OpDiv), (TPercent, Binary OpMod)])"

fun combine :: "operator \<Rightarrow> expr \<Rightarrow> expr \<Rightarrow> expr" where
  "combine Coalesce l r = ENullCoalesce l r"
| "combine (Binary op) l r = EBinOp l op r"

fun literal :: "token \<Rightarrow> expr option" where
  "literal TNull = Some ENull"
| "literal (TBool b) = Some (EBool b)"
| "literal (TNumber n) = Some (ENumber n)"
| "literal (TStr s) = Some (EStr s)"
| "literal (TIdent s) = Some (EIdent s)"
| "literal _ = None"

fun ident_of :: "token \<Rightarrow> string option" where
  "ident_of (TIdent s) = Some s"
| "ident_of _ = None"

definition prefix_op :: "token \<Rightarrow> unary_op option" where
  "prefix_op t = (if t = TNot then Some OpNot else if t = TMinus then Some OpNeg else None)"

section \<open>The methods\<close>

function (sequential) parse_ternary :: "nat \<Rightarrow> nat \<Rightarrow> parser_state \<Rightarrow> expr parsed"
  and parse_operand :: "nat \<Rightarrow> nat \<Rightarrow> level option \<Rightarrow> parser_state \<Rightarrow> expr parsed"
  and level_loop :: "nat \<Rightarrow> nat \<Rightarrow> level \<Rightarrow> expr \<Rightarrow> parser_state \<Rightarrow> expr parsed"
  and parse_postfix :: "nat \<Rightarrow> nat \<Rightarrow> parser_state \<Rightarrow> expr parsed"
  and postfix_loop :: "nat \<Rightarrow> nat \<Rightarrow> expr \<Rightarrow> parser_state \<Rightarrow> expr parsed"
  and parse_primary :: "nat \<Rightarrow> nat \<Rightarrow> parser_state \<Rightarrow> expr parsed"
  and elements_loop :: "nat \<Rightarrow> nat \<Rightarrow> expr list \<Rightarrow> parser_state \<Rightarrow> expr list parsed"
  and parse_args :: "nat \<Rightarrow> nat \<Rightarrow> parser_state \<Rightarrow> expr list parsed"
  and args_loop :: "nat \<Rightarrow> nat \<Rightarrow> expr list \<Rightarrow> parser_state \<Rightarrow> expr list parsed" where
  "parse_ternary m fuel st =
     (case fuel of 0 \<Rightarrow> None | Suc n \<Rightarrow>
     pbind (parse_operand m n (Some NullCoalesce) st) (\<lambda>c st.
     if peek st = TQuestion then
       parser_check_depth m st (\<lambda>st.
       pbind (parse_ternary m n (advance_token st)) (\<lambda>t st.
       expect TColon st (\<lambda>st.
       pbind (parse_ternary m n st) (\<lambda>e st. dec_depth st (pdone (EConditional c t e))))))
     else pdone c st))"
| "parse_operand m fuel l st =
     (case fuel of 0 \<Rightarrow> None | Suc n \<Rightarrow>
     (case l of
        Some level \<Rightarrow> pbind (parse_operand m n (next_level level) st) (\<lambda>left st. level_loop m n level left st)
      | None \<Rightarrow>
          (case prefix_op (peek st) of
             Some op \<Rightarrow> pbind (parse_operand m n None (advance_token st)) (\<lambda>e st. pdone (EUnaryOp op e) st)
           | None \<Rightarrow> parse_postfix m n st)))"
| "level_loop m fuel level left st =
     (case fuel of 0 \<Rightarrow> None | Suc n \<Rightarrow>
     (case map_of (level_ops level) (peek st) of
        None \<Rightarrow> pdone left st
      | Some op \<Rightarrow>
          pbind (parse_operand m n (next_level level) (advance_token st)) (\<lambda>right st.
          level_loop m n level (combine op left right) st)))"
| "parse_postfix m fuel st =
     (case fuel of 0 \<Rightarrow> None | Suc n \<Rightarrow>
     pbind (parse_primary m n st) (\<lambda>e st. postfix_loop m n e st))"
| "postfix_loop m fuel e st =
     (case fuel of 0 \<Rightarrow> None | Suc n \<Rightarrow>
     (if peek st = TDot then
        (case ident_of (peek (advance_token st)) of
           None \<Rightarrow> pfail (ExpectedIdentifier (peek (advance_token st)))
         | Some name \<Rightarrow>
             if peek (advance_token (advance_token st)) = TLParen then
               parser_check_depth m (advance_token (advance_token st)) (\<lambda>st.
               pbind (parse_args m n (advance_token st)) (\<lambda>args st.
               expect TRParen st (\<lambda>st. dec_depth st (postfix_loop m n (ECall (EDot e name) args)))))
             else postfix_loop m n (EDot e name) (advance_token (advance_token st)))
      else if peek st = TLBracket then
        pbind (parse_ternary m n (advance_token st)) (\<lambda>index st.
        expect TRBracket st (\<lambda>st. postfix_loop m n (EIndex e index) st))
      else if peek st = TLParen then
        parser_check_depth m st (\<lambda>st.
        pbind (parse_args m n (advance_token st)) (\<lambda>args st.
        expect TRParen st (\<lambda>st. dec_depth st (postfix_loop m n (ECall e args)))))
      else pdone e st))"
| "parse_primary m fuel st =
     (case fuel of 0 \<Rightarrow> None | Suc n \<Rightarrow>
     (case literal (peek st) of
        Some e \<Rightarrow> pdone e (advance_token st)
      | None \<Rightarrow>
          if peek st = TLParen then
            parser_check_depth m st (\<lambda>st.
            pbind (parse_ternary m n (advance_token st)) (\<lambda>e st.
            expect TRParen st (\<lambda>st. dec_depth st (pdone e))))
          else if peek st = TLBracket then
            (if peek (advance_token st) = TRBracket then pdone (EArray []) (advance_token (advance_token st))
             else
               pbind (parse_ternary m n (advance_token st)) (\<lambda>e st.
               pbind (elements_loop m n [e] st) (\<lambda>es st.
               expect TRBracket st (\<lambda>st. pdone (EArray es) st))))
          else pfail (UnexpectedToken (peek st))))"
| "elements_loop m fuel es st =
     (case fuel of 0 \<Rightarrow> None | Suc n \<Rightarrow>
     (if peek st = TComma then
        (if peek (advance_token st) = TRBracket then pdone es (advance_token st)
         else pbind (parse_ternary m n (advance_token st)) (\<lambda>e st. elements_loop m n (es @ [e]) st))
      else pdone es st))"
| "parse_args m fuel st =
     (case fuel of 0 \<Rightarrow> None | Suc n \<Rightarrow>
     (if peek st = TRParen then pdone [] st
      else pbind (parse_ternary m n st) (\<lambda>e st. args_loop m n [e] st)))"
| "args_loop m fuel es st =
     (case fuel of 0 \<Rightarrow> None | Suc n \<Rightarrow>
     (if peek st = TComma then pbind (parse_ternary m n (advance_token st)) (\<lambda>e st. args_loop m n (es @ [e]) st)
      else pdone es st))"
  by pat_completeness auto
termination
  by (relation "measure (case_sum (case_sum (case_sum (\<lambda>(m, n, _). n) (\<lambda>(m, n, _). n)) (case_sum (\<lambda>(m, n, _). n) (\<lambda>(m, n, _). n)))
    (case_sum (case_sum (\<lambda>(m, n, _). n) (\<lambda>(m, n, _). n)) (case_sum (\<lambda>(m, n, _). n) (case_sum (\<lambda>(m, n, _). n) (\<lambda>(m, n, _). n)))))") auto

declare parse_ternary.simps [simp del] parse_operand.simps [simp del] level_loop.simps [simp del]
  parse_postfix.simps [simp del] postfix_loop.simps [simp del] parse_primary.simps [simp del]
  elements_loop.simps [simp del] parse_args.simps [simp del] args_loop.simps [simp del]

text \<open>One unfolding of every method when there is fuel.\<close>

lemmas parser_steps =
  parse_ternary.simps [of _ "Suc n" for n, unfolded nat.case] parse_operand.simps [of _ "Suc n" for n, unfolded nat.case]
  level_loop.simps [of _ "Suc n" for n, unfolded nat.case] parse_postfix.simps [of _ "Suc n" for n, unfolded nat.case]
  postfix_loop.simps [of _ "Suc n" for n, unfolded nat.case] parse_primary.simps [of _ "Suc n" for n, unfolded nat.case]
  elements_loop.simps [of _ "Suc n" for n, unfolded nat.case] parse_args.simps [of _ "Suc n" for n, unfolded nat.case]
  args_loop.simps [of _ "Suc n" for n, unfolded nat.case]

section \<open>Parsing a text\<close>

type_synonym u32 = "32 word"

definition MAX_PARSE_DEPTH :: u32 where
  "MAX_PARSE_DEPTH = 64"

text \<open>Tokens that may follow a complete expression.\<close>

fun trailing :: "token \<Rightarrow> bool" where
  "trailing TRParen = True"
| "trailing TComma = True"
| "trailing TEof = True"
| "trailing (TNumber _) = True"
| "trailing _ = False"

definition remaining_significant :: "token list \<Rightarrow> bool" where
  "remaining_significant ts \<longleftrightarrow> list_ex (\<lambda>t. t \<noteq> TComma \<and> t \<noteq> TEof) ts"

definition parse_fuel :: "token list \<Rightarrow> nat" where
  "parse_fuel ts = 12 * length ts + 12"

definition close_parens :: "token list \<Rightarrow> int" where
  "close_parens ts = int (length (filter (\<lambda>t. t = TRParen) ts)) mod 4294967296"

definition parse_tokens :: "u32 \<Rightarrow> token list \<Rightarrow> (parse_error, expr) res option" where
  "parse_tokens max_depth tokens =
     (if int (unat max_depth) < close_parens tokens then Some (Err DepthExceeded)
      else
        (case parse_ternary (unat max_depth) (parse_fuel tokens) (tokens, 0) of
           None \<Rightarrow> None
         | Some (Ok (e, st)) \<Rightarrow>
             if peek st \<noteq> TEof \<and> remaining_significant (fst st) \<and> \<not> list_all trailing (fst st)
             then Some (Err (UnexpectedToken (peek st))) else Some (Ok e)
         | Some (Err e) \<Rightarrow> Some (Err e)
         | Some Panic \<Rightarrow> Some Panic))"

definition parse_with_max_depth :: "string \<Rightarrow> u32 \<Rightarrow> (parse_error, expr) res option" where
  "parse_with_max_depth input max_depth =
     (if trim input = [] then Some (Err EmptyExpression)
      else
        (case tokenize input of
           Ok tokens \<Rightarrow> parse_tokens max_depth tokens
         | Err message \<Rightarrow> Some (Err (LexError message))
         | Panic \<Rightarrow> Some Panic))"

definition parse :: "string \<Rightarrow> (parse_error, expr) res option" where
  "parse input = parse_with_max_depth input MAX_PARSE_DEPTH"

end
