(* ===== verification/Expression_Complete.thy ===== *)
theory Expression_Complete
  imports Expression_Grammar
begin

text \<open>
  The parser reads every phrase of the grammar as the grammar does, when the nesting limit allows its
  parentheses and conditionals. More fuel does not change a result, so that the statements speak of the
  result for all sufficiently large fuel.
\<close>

section \<open>More fuel\<close>

definition refines :: "'a parsed \<Rightarrow> 'a parsed \<Rightarrow> bool" where
  "refines r s \<longleftrightarrow> r = None \<or> r = s"

lemma refines_basic: "refines r r" "refines None r"
  "refines (f (fst st, Suc (snd st))) (g (fst st, Suc (snd st))) \<Longrightarrow> refines (parser_check_depth m st f) (parser_check_depth m st g)"
  "refines (f (advance_token st)) (g (advance_token st)) \<Longrightarrow> refines (expect t st f) (expect t st g)"
  "refines (f (fst st, snd st - 1)) (g (fst st, snd st - 1)) \<Longrightarrow> refines (dec_depth st f) (dec_depth st g)"
  by (auto simp: refines_def parser_check_depth_def expect_def dec_depth_def)

lemma refines_bind:
  "refines r s \<Longrightarrow> (\<And>x st. refines (f x st) (g x st)) \<Longrightarrow> refines (pbind r f) (pbind s g)"
  by (auto simp: refines_def pbind_def split: option.splits res.splits)

lemma refines_if: "(c \<Longrightarrow> refines r s) \<Longrightarrow> (\<not> c \<Longrightarrow> refines r' s') \<Longrightarrow> refines (if c then r else r') (if c then s else s')"
  by simp

lemma refines_option:
  "refines r s \<Longrightarrow> (\<And>x. refines (f x) (g x)) \<Longrightarrow> refines (case v of None \<Rightarrow> r | Some x \<Rightarrow> f x) (case v of None \<Rightarrow> s | Some x \<Rightarrow> g x)"
  by (cases v) auto

lemmas refines_intros = refines_basic(1,3,4,5) refines_bind refines_if refines_option

lemma methods_refine:
  "(\<forall>st. refines (parse_ternary m n st) (parse_ternary m (Suc n) st))
   \<and> (\<forall>lo st. refines (parse_operand m n lo st) (parse_operand m (Suc n) lo st))
   \<and> (\<forall>l e st. refines (level_loop m n l e st) (level_loop m (Suc n) l e st))
   \<and> (\<forall>st. refines (parse_postfix m n st) (parse_postfix m (Suc n) st))
   \<and> (\<forall>e st. refines (postfix_loop m n e st) (postfix_loop m (Suc n) e st))
   \<and> (\<forall>st. refines (parse_primary m n st) (parse_primary m (Suc n) st))
   \<and> (\<forall>es st. refines (elements_loop m n es st) (elements_loop m (Suc n) es st))
   \<and> (\<forall>st. refines (parse_args m n st) (parse_args m (Suc n) st))
   \<and> (\<forall>es st. refines (args_loop m n es st) (args_loop m (Suc n) es st))"
proof (induction n)
  case 0
  show ?case
    by (simp add: refines_def parse_ternary.simps [of _ 0] parse_operand.simps [of _ 0] level_loop.simps [of _ 0] parse_postfix.simps [of _ 0]
        postfix_loop.simps [of _ 0] parse_primary.simps [of _ 0] elements_loop.simps [of _ 0] parse_args.simps [of _ 0] args_loop.simps [of _ 0])
next
  case (Suc n)
  note IH = Suc.IH [THEN conjunct1, rule_format] Suc.IH [THEN conjunct2, THEN conjunct1, rule_format]
    Suc.IH [THEN conjunct2, THEN conjunct2, THEN conjunct1, rule_format]
    Suc.IH [THEN conjunct2, THEN conjunct2, THEN conjunct2, THEN conjunct1, rule_format]
    Suc.IH [THEN conjunct2, THEN conjunct2, THEN conjunct2, THEN conjunct2, THEN conjunct1, rule_format]
    Suc.IH [THEN conjunct2, THEN conjunct2, THEN conjunct2, THEN conjunct2, THEN conjunct2, THEN conjunct1, rule_format]
    Suc.IH [THEN conjunct2, THEN conjunct2, THEN conjunct2, THEN conjunct2, THEN conjunct2, THEN conjunct2, THEN conjunct1, rule_format]
    Suc.IH [THEN conjunct2, THEN conjunct2, THEN conjunct2, THEN conjunct2, THEN conjunct2, THEN conjunct2, THEN conjunct2, THEN conjunct1, rule_format]
    Suc.IH [THEN conjunct2, THEN conjunct2, THEN conjunct2, THEN conjunct2, THEN conjunct2, THEN conjunct2, THEN conjunct2, THEN conjunct2, rule_format]
  show ?case
    apply (intro conjI allI)
    subgoal by (subst (1 2) parser_steps(1)) (intro refines_intros IH)
    subgoal by (subst (1 2) parser_steps(2)) (intro refines_intros IH)
    subgoal by (subst (1 2) parser_steps(3)) (intro refines_intros IH)
    subgoal by (subst (1 2) parser_steps(4)) (intro refines_intros IH)
    subgoal by (subst (1 2) parser_steps(5)) (intro refines_intros IH)
    subgoal by (subst (1 2) parser_steps(6)) (intro refines_intros IH)
    subgoal by (subst (1 2) parser_steps(7)) (intro refines_intros IH)
    subgoal by (subst (1 2) parser_steps(8)) (intro refines_intros IH)
    subgoal by (subst (1 2) parser_steps(9)) (intro refines_intros IH)
    done
qed

lemma more_fuel:
  assumes "parse_ternary m n st = Some r" "n \<le> k"
  shows "parse_ternary m k st = Some r"
  using assms(2)
proof (induction rule: dec_induct)
  case (step i)
  then show ?case using methods_refine [of m i, THEN conjunct1, rule_format, of st] by (auto simp: refines_def)
qed (rule assms(1))

section \<open>Results for large fuel\<close>

definition gives :: "(nat \<Rightarrow> 'a parsed) \<Rightarrow> 'a \<times> parser_state \<Rightarrow> bool" where
  "gives f r \<longleftrightarrow> (\<exists>k. \<forall>n \<ge> k. f n = Some (Ok r))"

lemma gives_done: "gives (\<lambda>n. pdone x st) (x, st)"
  by (simp add: gives_def pdone_def)

lemma gives_Suc:
  assumes "gives (\<lambda>n. f (Suc n)) r"
  shows "gives f r"
proof -
  from assms obtain k where k: "\<And>n. k \<le> n \<Longrightarrow> f (Suc n) = Some (Ok r)" by (auto simp: gives_def)
  have "f n = Some (Ok r)" if "Suc k \<le> n" for n using k [of "n - 1"] that by (cases n) auto
  then show ?thesis by (auto simp: gives_def)
qed

lemma gives_Suc_iff: "gives (\<lambda>n. f (Suc n)) r \<longleftrightarrow> gives f r"
proof
  assume "gives f r"
  then obtain k where "\<And>n. k \<le> n \<Longrightarrow> f n = Some (Ok r)" by (auto simp: gives_def)
  then show "gives (\<lambda>n. f (Suc n)) r" by (auto simp: gives_def intro!: exI [of _ k])
qed (rule gives_Suc)

lemma gives_bind:
  assumes "gives f (x, st)" "gives (\<lambda>n. g n x st) r"
  shows "gives (\<lambda>n. pbind (f n) (g n)) r"
proof -
  from assms obtain j k where "\<And>n. j \<le> n \<Longrightarrow> f n = Some (Ok (x, st))" "\<And>n. k \<le> n \<Longrightarrow> g n x st = Some (Ok r)"
    unfolding gives_def by blast
  then have "pbind (f n) (g n) = Some (Ok r)" if "max j k \<le> n" for n using that by (simp add: pbind_def)
  then show ?thesis unfolding gives_def by blast
qed

text \<open>A nested phrase is within the limit when the tokens that open a level are few enough.\<close>

definition opens :: "token list \<Rightarrow> nat" where
  "opens a = length (filter (\<lambda>t. t = TLParen \<or> t = TQuestion) a)"

lemma opens_simps [simp]: "opens [] = 0" "opens (a @ b) = opens a + opens b"
  "opens (t # a) = (if t = TLParen \<or> t = TQuestion then Suc (opens a) else opens a)"
  by (simp_all add: opens_def)

lemma gives_check: "Suc (snd st) \<le> min m u32_max \<Longrightarrow> gives (\<lambda>n. f n (fst st, Suc (snd st))) r \<Longrightarrow> gives (\<lambda>n. parser_check_depth m st (f n)) r"
  by (simp add: parser_check_depth_def)

lemma gives_expect: "peek st = t \<Longrightarrow> gives (\<lambda>n. f n (advance_token st)) r \<Longrightarrow> gives (\<lambda>n. expect t st (f n)) r"
  by (simp add: expect_def)

lemma peek_Cons [simp]: "peek (t # ts, d) = t" and peek_depth: "peek (ts, d) = peek (ts, d')"
  by (simp_all add: peek_def)

text \<open>Which tokens may follow.\<close>

definition postfix_start :: "token \<Rightarrow> bool" where
  "postfix_start t \<longleftrightarrow> t = TDot \<or> t = TLBracket \<or> t = TLParen"

definition binds_tighter :: "level option \<Rightarrow> level \<Rightarrow> bool" where
  "binds_tighter lo l \<longleftrightarrow> rank (Some l) < rank lo"

definition may_follow :: "level option \<Rightarrow> token \<Rightarrow> bool" where
  "may_follow lo t \<longleftrightarrow> \<not> postfix_start t \<and> (\<forall>l. binds_tighter lo l \<longrightarrow> map_of (level_ops l) t = None)"

definition closing :: "token \<Rightarrow> bool" where
  "closing t \<longleftrightarrow> t = TColon \<or> t = TRBracket \<or> t = TRParen \<or> t = TComma \<or> t = TEof \<or> (\<exists>n. t = TNumber n)"

lemma closing_follows:
  assumes "closing t"
  shows "may_follow lo t" "t \<noteq> TQuestion" "map_of (level_ops l) t = None" "\<not> postfix_start t"
proof -
  show none: "map_of (level_ops l) t = None" for l using assms by (auto simp: closing_def level_ops_def split: level.splits)
  show "t \<noteq> TQuestion" "\<not> postfix_start t" using assms by (auto simp: closing_def postfix_start_def)
  then show "may_follow lo t" using none by (simp add: may_follow_def)
qed

lemma question_follows: "may_follow lo TQuestion" "map_of (level_ops l) TQuestion = None"
  by (auto simp: may_follow_def postfix_start_def level_ops_def split: level.splits)

lemma operator_follows:
  assumes "map_of (level_ops l) t = Some op"
  shows "may_follow (Some l) t" "may_follow (next_level l) t"
proof -
  have "map_of (level_ops l') t = None" if "l' \<noteq> l" for l'
    using assms that by (cases l; cases l') (auto simp: level_ops_def split: if_splits)
  then show "may_follow (Some l) t" "may_follow (next_level l) t"
    using assms rank_next [of l]
    by (auto simp: may_follow_def binds_tighter_def postfix_start_def level_ops_def split: level.splits if_splits)
qed

lemma follows_next:
  assumes "may_follow (Some l) t"
  shows "may_follow (next_level l) t" "next_level l = Some l' \<Longrightarrow> map_of (level_ops l') t = None"
  using assms rank_next [of l] unfolding may_follow_def binds_tighter_def by (auto intro: less_trans)

section \<open>Phrases are read\<close>

definition reads_fully :: "nat \<Rightarrow> sort \<Rightarrow> token list \<Rightarrow> expr \<Rightarrow> bool" where
  "reads_fully m s a e \<longleftrightarrow> (\<forall>rest d. d + opens a \<le> min m u32_max \<longrightarrow>
     (case s of
        Ternary \<Rightarrow> closing (peek (rest, d)) \<longrightarrow> gives (\<lambda>n. parse_ternary m n (a @ rest, d)) (e, (rest, d))
      | Operand None \<Rightarrow> \<not> postfix_start (peek (rest, d)) \<longrightarrow> gives (\<lambda>n. parse_operand m n None (a @ rest, d)) (e, (rest, d))
      | Operand (Some l) \<Rightarrow> may_follow (Some l) (peek (rest, d)) \<longrightarrow>
          (\<forall>r. gives (\<lambda>n. level_loop m n l e (rest, d)) r \<longrightarrow> gives (\<lambda>n. parse_operand m n (Some l) (a @ rest, d)) r)
      | Postfix \<Rightarrow> \<forall>r. gives (\<lambda>n. postfix_loop m n e (rest, d)) r \<longrightarrow> gives (\<lambda>n. parse_postfix m n (a @ rest, d)) r
      | Primary \<Rightarrow> gives (\<lambda>n. parse_primary m n (a @ rest, d)) (e, (rest, d))))"

definition items_fully :: "nat \<Rightarrow> token list \<Rightarrow> expr list \<Rightarrow> bool" where
  "items_fully m b es \<longleftrightarrow> (\<forall>rest d r. d + opens b \<le> min m u32_max \<longrightarrow> closing (peek (rest, d)) \<longrightarrow>
     (gives (\<lambda>n. args_loop m n es (rest, d)) r \<longrightarrow>
        gives (\<lambda>n. pbind (parse_ternary m n (b @ rest, d)) (\<lambda>e st. args_loop m n [e] st)) r)
     \<and> (gives (\<lambda>n. elements_loop m n es (rest, d)) r \<longrightarrow>
        gives (\<lambda>n. pbind (parse_ternary m n (b @ rest, d)) (\<lambda>e st. elements_loop m n [e] st)) r))"

lemma ternary_fullyD:
  "reads_fully m Ternary a e \<Longrightarrow> d + opens a \<le> min m u32_max \<Longrightarrow> closing (peek (rest, d)) \<Longrightarrow> gives (\<lambda>n. parse_ternary m n (a @ rest, d)) (e, (rest, d))"
  by (simp add: reads_fully_def)

lemma postfix_fullyD:
  "reads_fully m Postfix a e \<Longrightarrow> d + opens a \<le> min m u32_max \<Longrightarrow> gives (\<lambda>n. postfix_loop m n e (rest, d)) r \<Longrightarrow> gives (\<lambda>n. parse_postfix m n (a @ rest, d)) r"
  by (cases r) (simp add: reads_fully_def)

lemma level_fullyD:
  "reads_fully m (Operand (Some l)) a e \<Longrightarrow> d + opens a \<le> min m u32_max \<Longrightarrow> may_follow (Some l) (peek (rest, d))
    \<Longrightarrow> gives (\<lambda>n. level_loop m n l e (rest, d)) r \<Longrightarrow> gives (\<lambda>n. parse_operand m n (Some l) (a @ rest, d)) r"
  by (cases r) (simp add: reads_fully_def)

text \<open>An operand is read as a whole when no operator of its own level follows.\<close>

lemma level_ends: "map_of (level_ops l) (peek (rest, d)) = None \<Longrightarrow> gives (\<lambda>n. level_loop m n l e (rest, d)) (e, (rest, d))"
  by (rule gives_Suc) (simp add: parser_steps gives_done)

lemma operand_value:
  assumes "reads_fully m (Operand lo) a e" "d + opens a \<le> min m u32_max" "may_follow lo (peek (rest, d))"
    and "\<And>l. lo = Some l \<Longrightarrow> map_of (level_ops l) (peek (rest, d)) = None"
  shows "gives (\<lambda>n. parse_operand m n lo (a @ rest, d)) (e, (rest, d))"
proof (cases lo)
  case (Some l)
  then show ?thesis using assms level_ends [of l rest d m e] level_fullyD [of m l a e d rest] by simp
qed (use assms in \<open>simp add: reads_fully_def may_follow_def\<close>)

lemma next_value:
  assumes "reads_fully m (Operand (next_level l)) a e" "d + opens a \<le> min m u32_max" "may_follow (Some l) (peek (rest, d))"
  shows "gives (\<lambda>n. parse_operand m n (next_level l) (a @ rest, d)) (e, (rest, d))"
  using operand_value [OF assms(1,2)] follows_next [OF assms(3)] by blast

text \<open>How phrases begin.\<close>

lemma phrase_start:
  "phrase s a e \<Longrightarrow> a \<noteq> [] \<and> hd a \<noteq> TRParen \<and> hd a \<noteq> TRBracket \<and> (s = Postfix \<or> s = Primary \<longrightarrow> prefix_op (hd a) = None)"
  "items b es \<Longrightarrow> b \<noteq> [] \<and> hd b \<noteq> TRParen \<and> hd b \<noteq> TRBracket"
proof (induction rule: phrase_items.inducts)
  case (unary t op b e)
  then show ?case by (auto simp: prefix_op_def)
next
  case (literal t e)
  then show ?case by (cases t) (auto simp: prefix_op_def)
qed (auto simp: prefix_op_def)

lemma peek_append: "a \<noteq> [] \<Longrightarrow> peek (a @ ts, d) = hd a"
  by (cases a) auto

lemma full_plain:
  assumes "reads_fully m (Operand (Some NullCoalesce)) a c"
  shows "reads_fully m Ternary a c"
  unfolding reads_fully_def sort.case
proof (intro allI impI)
  fix rest d assume d: "d + opens a \<le> min m u32_max" and c: "closing (peek (rest, d))"
  have 1: "gives (\<lambda>n. parse_operand m n (Some NullCoalesce) (a @ rest, d)) (c, (rest, d))"
    by (rule operand_value [OF assms d]) (simp_all add: closing_follows [OF c])
  show "gives (\<lambda>n. parse_ternary m n (a @ rest, d)) (c, (rest, d))"
    by (rule gives_Suc, unfold parser_steps, rule gives_bind [OF 1]) (simp add: closing_follows [OF c] gives_done)
qed

lemma full_conditional:
  assumes a: "reads_fully m (Operand (Some NullCoalesce)) a c" and b: "reads_fully m Ternary b t" and e: "reads_fully m Ternary f e"
  shows "reads_fully m Ternary (a @ TQuestion # b @ TColon # f) (EConditional c t e)"
  unfolding reads_fully_def sort.case
proof (intro allI impI)
  fix rest d assume d: "d + opens (a @ TQuestion # b @ TColon # f) \<le> min m u32_max" and c: "closing (peek (rest, d))"
  have 1: "gives (\<lambda>n. parse_operand m n (Some NullCoalesce) (a @ TQuestion # b @ TColon # f @ rest, d)) (c, (TQuestion # b @ TColon # f @ rest, d))"
    using operand_value [OF a, of d "TQuestion # b @ TColon # f @ rest"] d question_follows by simp
  have 2: "gives (\<lambda>n. parse_ternary m n (b @ TColon # f @ rest, Suc d)) (t, (TColon # f @ rest, Suc d))"
    using ternary_fullyD [OF b, of "Suc d" "TColon # f @ rest"] d by (simp add: closing_def)
  have 3: "gives (\<lambda>n. parse_ternary m n (f @ rest, Suc d)) (e, (rest, Suc d))"
    using ternary_fullyD [OF e, of "Suc d" rest] d c peek_depth [of rest d "Suc d"] by simp
  show "gives (\<lambda>n. parse_ternary m n ((a @ TQuestion # b @ TColon # f) @ rest, d)) (EConditional c t e, (rest, d))"
    unfolding append_assoc append_Cons
    by (rule gives_Suc, unfold parser_steps, rule gives_bind [OF 1], simp, rule gives_check)
       (use d in \<open>auto intro!: gives_bind [OF 2] gives_expect gives_bind [OF 3] gives_done\<close>)
qed

lemma full_tighter:
  assumes "reads_fully m (Operand (next_level l)) a e"
  shows "reads_fully m (Operand (Some l)) a e"
  unfolding reads_fully_def sort.case option.case
proof (intro allI impI)
  fix rest d r assume d: "d + opens a \<le> min m u32_max" "may_follow (Some l) (peek (rest, d))" and r: "gives (\<lambda>n. level_loop m n l e (rest, d)) r"
  show "gives (\<lambda>n. parse_operand m n (Some l) (a @ rest, d)) r"
    by (rule gives_Suc, unfold parser_steps option.case, rule gives_bind [OF next_value [OF assms d]], rule r)
qed

lemma full_binary:
  assumes a: "reads_fully m (Operand (Some l)) a x" and t: "map_of (level_ops l) t = Some op" and b: "reads_fully m (Operand (next_level l)) b y"
  shows "reads_fully m (Operand (Some l)) (a @ t # b) (combine op x y)"
  unfolding reads_fully_def sort.case option.case
proof (intro allI impI)
  fix rest d r assume d: "d + opens (a @ t # b) \<le> min m u32_max" and f: "may_follow (Some l) (peek (rest, d))"
    and r: "gives (\<lambda>n. level_loop m n l (combine op x y) (rest, d)) r"
  have db: "d + opens b \<le> min m u32_max" and da: "d + opens a \<le> min m u32_max" using d by (simp_all split: if_splits)
  have loop: "gives (\<lambda>n. level_loop m n l x (t # b @ rest, d)) r"
    by (rule gives_Suc, unfold parser_steps peek_Cons t option.case advance_pair list.sel, rule gives_bind [OF next_value [OF b db f]], rule r)
  show "gives (\<lambda>n. parse_operand m n (Some l) ((a @ t # b) @ rest, d)) r"
    unfolding append_assoc append_Cons by (rule level_fullyD [OF a da _ loop]) (simp add: operator_follows(1) [OF t])
qed

lemma follows_prefix: "may_follow None t \<longleftrightarrow> \<not> postfix_start t"
proof -
  have "\<not> binds_tighter None l" for l using rank_pos [of "Some l"] by (simp add: binds_tighter_def)
  then show ?thesis by (simp add: may_follow_def)
qed

lemma full_unary:
  assumes t: "prefix_op t = Some op" and b: "reads_fully m (Operand None) b e"
  shows "reads_fully m (Operand None) (t # b) (EUnaryOp op e)"
  unfolding reads_fully_def sort.case option.case
proof (intro allI impI)
  fix rest d assume d: "d + opens (t # b) \<le> min m u32_max" and f: "\<not> postfix_start (peek (rest, d))"
  have 1: "gives (\<lambda>n. parse_operand m n None (b @ rest, d)) (e, (rest, d))"
    by (rule operand_value [OF b]) (use d f in \<open>auto simp: follows_prefix split: if_splits\<close>)
  show "gives (\<lambda>n. parse_operand m n None ((t # b) @ rest, d)) (EUnaryOp op e, (rest, d))"
    unfolding append_Cons
    by (rule gives_Suc, unfold parser_steps option.case peek_Cons t advance_pair list.sel, rule gives_bind [OF 1], rule gives_done)
qed

lemma full_postfix:
  assumes a: "reads_fully m Postfix a e" and start: "a \<noteq> []" "prefix_op (hd a) = None"
  shows "reads_fully m (Operand None) a e"
  unfolding reads_fully_def sort.case option.case
proof (intro allI impI)
  fix rest d assume d: "d + opens a \<le> min m u32_max" and f: "\<not> postfix_start (peek (rest, d))"
  have loop: "gives (\<lambda>n. postfix_loop m n e (rest, d)) (e, (rest, d))"
    using f by (subst gives_Suc_iff [symmetric]) (simp add: parser_steps postfix_start_def gives_done)
  show "gives (\<lambda>n. parse_operand m n None (a @ rest, d)) (e, (rest, d))"
    by (rule gives_Suc, unfold parser_steps option.case peek_append [OF start(1)] start(2), rule postfix_fullyD [OF a d loop])
qed

lemma full_primary:
  assumes a: "reads_fully m Primary a e"
  shows "reads_fully m Postfix a e"
  unfolding reads_fully_def sort.case
proof (intro allI impI)
  fix rest d r assume d: "d + opens a \<le> min m u32_max" and r: "gives (\<lambda>n. postfix_loop m n e (rest, d)) r"
  have 1: "gives (\<lambda>n. parse_primary m n (a @ rest, d)) (e, (rest, d))" using a d by (simp add: reads_fully_def)
  show "gives (\<lambda>n. parse_postfix m n (a @ rest, d)) r"
    by (rule gives_Suc, unfold parser_steps, rule gives_bind [OF 1], rule r)
qed

text \<open>A postfix extends a postfix phrase when the loop takes it up.\<close>

lemma full_extend:
  assumes a: "reads_fully m Postfix a e"
    and loop: "\<And>rest d r. d + opens b \<le> min m u32_max \<Longrightarrow> gives (\<lambda>n. postfix_loop m n e' (rest, d)) r \<Longrightarrow> gives (\<lambda>n. postfix_loop m n e (b @ rest, d)) r"
  shows "reads_fully m Postfix (a @ b) e'"
  unfolding reads_fully_def sort.case
proof (intro allI impI)
  fix rest d r assume d: "d + opens (a @ b) \<le> min m u32_max" and r: "gives (\<lambda>n. postfix_loop m n e' (rest, d)) r"
  then show "gives (\<lambda>n. parse_postfix m n ((a @ b) @ rest, d)) r"
    unfolding append_assoc by (intro postfix_fullyD [OF a] loop) auto
qed

lemma full_dot:
  assumes a: "reads_fully m Postfix a e"
  shows "reads_fully m Postfix (a @ [TDot, TIdent s]) (EDot e s)"
proof (rule full_extend [OF a])
  fix rest d r assume r: "gives (\<lambda>n. postfix_loop m n (EDot e s) (rest, d)) r"
  have "postfix_loop m (Suc n) e (TDot # TIdent s # rest, d)
      = (if peek (rest, d) = TLParen then postfix_loop m (Suc n) (EDot e s) (rest, d) else postfix_loop m n (EDot e s) (rest, d))" for n
    by (simp add: parser_steps)
  moreover have "gives (\<lambda>n. postfix_loop m (Suc n) (EDot e s) (rest, d)) r" using iffD2 [OF gives_Suc_iff [of "\<lambda>n. postfix_loop m n (EDot e s) (rest, d)"] r] .
  ultimately show "gives (\<lambda>n. postfix_loop m n e ([TDot, TIdent s] @ rest, d)) r"
    using r by (cases "peek (rest, d) = TLParen"; subst gives_Suc_iff [symmetric]) simp_all
qed

lemma full_index:
  assumes a: "reads_fully m Postfix a e" and b: "reads_fully m Ternary b i"
  shows "reads_fully m Postfix (a @ TLBracket # b @ [TRBracket]) (EIndex e i)"
proof (rule full_extend [OF a])
  fix rest d r assume d: "d + opens (TLBracket # b @ [TRBracket]) \<le> min m u32_max" and r: "gives (\<lambda>n. postfix_loop m n (EIndex e i) (rest, d)) r"
  have 1: "gives (\<lambda>n. parse_ternary m n (b @ TRBracket # rest, d)) (i, (TRBracket # rest, d))"
    using d by (intro ternary_fullyD [OF b]) (simp_all add: closing_def)
  show "gives (\<lambda>n. postfix_loop m n e ((TLBracket # b @ [TRBracket]) @ rest, d)) r"
    by (rule gives_Suc) (simp add: parser_steps, rule gives_bind [OF 1], rule gives_expect, simp_all add: r)
qed

text \<open>The arguments of a call, given what \<open>parse_args\<close> makes of them.\<close>

lemma full_call:
  assumes a: "reads_fully m Postfix a e"
    and args: "\<And>rest d. d + opens b \<le> min m u32_max \<Longrightarrow> gives (\<lambda>n. parse_args m n (b @ TRParen # rest, d)) (es, (TRParen # rest, d))"
  shows "reads_fully m Postfix (a @ TLParen # b @ [TRParen]) (ECall e es)"
proof (rule full_extend [OF a])
  fix rest d r assume d: "d + opens (TLParen # b @ [TRParen]) \<le> min m u32_max" and r: "gives (\<lambda>n. postfix_loop m n (ECall e es) (rest, d)) r"
  then have 1: "gives (\<lambda>n. parse_args m n (b @ TRParen # rest, Suc d)) (es, (TRParen # rest, Suc d))" by (intro args) simp
  show "gives (\<lambda>n. postfix_loop m n e ((TLParen # b @ [TRParen]) @ rest, d)) r"
    by (rule gives_Suc) (simp add: parser_steps, rule gives_check, use d in simp, simp, rule gives_bind [OF 1], rule gives_expect, simp_all add: r)
qed

lemma full_literal:
  assumes "literal t = Some e"
  shows "reads_fully m Primary [t] e"
  unfolding reads_fully_def sort.case
proof (intro allI impI)
  fix rest d
  show "gives (\<lambda>n. parse_primary m n ([t] @ rest, d)) (e, (rest, d))"
    by (subst gives_Suc_iff [symmetric]) (simp add: parser_steps assms gives_done)
qed

lemma full_parens:
  assumes b: "reads_fully m Ternary b e"
  shows "reads_fully m Primary (TLParen # b @ [TRParen]) e"
  unfolding reads_fully_def sort.case
proof (intro allI impI)
  fix rest d assume d: "d + opens (TLParen # b @ [TRParen]) \<le> min m u32_max"
  have 1: "gives (\<lambda>n. parse_ternary m n (b @ TRParen # rest, Suc d)) (e, (TRParen # rest, Suc d))"
    using d by (intro ternary_fullyD [OF b]) (simp_all add: closing_def)
  show "gives (\<lambda>n. parse_primary m n ((TLParen # b @ [TRParen]) @ rest, d)) (e, (rest, d))"
    by (rule gives_Suc) (simp add: parser_steps, rule gives_check, use d in simp, simp, rule gives_bind [OF 1], rule gives_expect, simp_all add: gives_done)
qed

lemma full_array_empty: "reads_fully m Primary [TLBracket, TRBracket] (EArray [])"
  unfolding reads_fully_def sort.case
proof (intro allI impI)
  fix rest d
  show "gives (\<lambda>n. parse_primary m n ([TLBracket, TRBracket] @ rest, d)) (EArray [], (rest, d))"
    by (subst gives_Suc_iff [symmetric]) (simp add: parser_steps gives_done)
qed

lemma array_elements:
  assumes b: "items_fully m b es" and start: "b \<noteq> []" "hd b \<noteq> TRBracket" and d: "d + opens b \<le> min m u32_max"
    and c: "closing (peek (ts, d))" "gives (\<lambda>n. elements_loop m n es (ts, d)) (es, (TRBracket # rest, d))"
  shows "gives (\<lambda>n. parse_primary m n (TLBracket # b @ ts, d)) (EArray es, (rest, d))"
proof -
  have 1: "gives (\<lambda>n. pbind (parse_ternary m n (b @ ts, d)) (\<lambda>e st. elements_loop m n [e] st)) (es, (TRBracket # rest, d))"
    using b d c by (simp add: items_fully_def)
  have "pbind f (\<lambda>e st. pbind (g e st) h) = pbind (pbind f g) h"
    for f :: "expr parsed" and g :: "expr \<Rightarrow> parser_state \<Rightarrow> expr list parsed" and h :: "expr list \<Rightarrow> parser_state \<Rightarrow> expr parsed"
    by (simp add: pbind_def split: option.splits res.splits prod.splits)
  then have step: "parse_primary m (Suc n) (TLBracket # b @ ts, d)
      = pbind (pbind (parse_ternary m n (b @ ts, d)) (\<lambda>e st. elements_loop m n [e] st)) (\<lambda>es st. expect TRBracket st (pdone (EArray es)))" for n
    by (simp add: parser_steps peek_append [OF start(1)] start(2))
  show ?thesis
    by (rule gives_Suc, unfold step, rule gives_bind [OF 1], rule gives_expect, simp, simp add: gives_done)
qed

lemma full_array:
  assumes b: "items_fully m b es" and start: "b \<noteq> []" "hd b \<noteq> TRBracket"
  shows "reads_fully m Primary (TLBracket # b @ [TRBracket]) (EArray es)" "reads_fully m Primary (TLBracket # b @ [TComma, TRBracket]) (EArray es)"
proof -
  have 1: "gives (\<lambda>n. elements_loop m n es (TRBracket # rest, d)) (es, (TRBracket # rest, d))"
    and 2: "gives (\<lambda>n. elements_loop m n es (TComma # TRBracket # rest, d)) (es, (TRBracket # rest, d))" for rest d
    by (subst gives_Suc_iff [symmetric], simp add: parser_steps gives_done)+
  show "reads_fully m Primary (TLBracket # b @ [TRBracket]) (EArray es)" "reads_fully m Primary (TLBracket # b @ [TComma, TRBracket]) (EArray es)"
    unfolding reads_fully_def sort.case
    using array_elements [OF b start _ _ 1] array_elements [OF b start _ _ 2] by (simp_all add: closing_def)
qed

lemma full_args:
  assumes b: "items_fully m b es" and start: "b \<noteq> []" "hd b \<noteq> TRParen" and d: "d + opens b \<le> min m u32_max"
  shows "gives (\<lambda>n. parse_args m n (b @ TRParen # rest, d)) (es, (TRParen # rest, d))"
proof -
  have "gives (\<lambda>n. args_loop m n es (TRParen # rest, d)) (es, (TRParen # rest, d))"
    by (subst gives_Suc_iff [symmetric], simp add: parser_steps gives_done)
  then have "gives (\<lambda>n. pbind (parse_ternary m n (b @ TRParen # rest, d)) (\<lambda>e st. args_loop m n [e] st)) (es, (TRParen # rest, d))"
    using b d by (simp add: items_fully_def closing_def)
  then show ?thesis by (subst gives_Suc_iff [symmetric]) (simp add: parser_steps peek_append [OF start(1)] start(2))
qed

lemma full_no_args: "gives (\<lambda>n. parse_args m n ([] @ TRParen # rest, d)) ([], (TRParen # rest, d))"
  by (subst gives_Suc_iff [symmetric]) (simp add: parser_steps gives_done)

lemma full_item:
  assumes b: "reads_fully m Ternary b e"
  shows "items_fully m b [e]"
  unfolding items_fully_def
proof (intro allI impI conjI)
  fix rest d r assume d: "d + opens b \<le> min m u32_max" and c: "closing (peek (rest, d))"
  note 1 = ternary_fullyD [OF b d c]
  { assume r: "gives (\<lambda>n. args_loop m n [e] (rest, d)) r"
    show "gives (\<lambda>n. pbind (parse_ternary m n (b @ rest, d)) (\<lambda>e st. args_loop m n [e] st)) r"
      by (rule gives_bind [OF 1]) (rule r) }
  assume r: "gives (\<lambda>n. elements_loop m n [e] (rest, d)) r"
  show "gives (\<lambda>n. pbind (parse_ternary m n (b @ rest, d)) (\<lambda>e st. elements_loop m n [e] st)) r"
    by (rule gives_bind [OF 1]) (rule r)
qed

lemma full_more:
  assumes b: "items_fully m b es" and c: "reads_fully m Ternary c e" and start: "c \<noteq> []" "hd c \<noteq> TRBracket"
  shows "items_fully m (b @ TComma # c) (es @ [e])"
  unfolding items_fully_def
proof (intro allI impI conjI)
  fix rest d r assume d: "d + opens (b @ TComma # c) \<le> min m u32_max" and cl: "closing (peek (rest, d))"
  have 1: "gives (\<lambda>n. parse_ternary m n (c @ rest, d)) (e, (rest, d))" using d cl by (intro ternary_fullyD [OF c]) simp_all
  { assume r: "gives (\<lambda>n. args_loop m n (es @ [e]) (rest, d)) r"
    have "gives (\<lambda>n. args_loop m n es (TComma # c @ rest, d)) r"
      by (rule gives_Suc, simp add: parser_steps, rule gives_bind [OF 1], rule r)
    then show "gives (\<lambda>n. pbind (parse_ternary m n ((b @ TComma # c) @ rest, d)) (\<lambda>e st. args_loop m n [e] st)) r"
      using b d by (cases r) (simp add: items_fully_def closing_def) }
  assume r: "gives (\<lambda>n. elements_loop m n (es @ [e]) (rest, d)) r"
  have "gives (\<lambda>n. elements_loop m n es (TComma # c @ rest, d)) r"
    by (rule gives_Suc, simp add: parser_steps peek_append [OF start(1)] start(2), rule gives_bind [OF 1], rule r)
  then show "gives (\<lambda>n. pbind (parse_ternary m n ((b @ TComma # c) @ rest, d)) (\<lambda>e st. elements_loop m n [e] st)) r"
    using b d by (cases r) (simp add: items_fully_def closing_def)
qed

lemma phrases_read: "phrase s a e \<Longrightarrow> reads_fully m s a e" and items_read: "items b es \<Longrightarrow> items_fully m b es"
proof (induction rule: phrase_items.inducts)
  case (plain a c)
  then show ?case by (intro full_plain)
next
  case (conditional a c b t d e)
  then show ?case by (intro full_conditional)
next
  case (tighter l a e)
  then show ?case by (intro full_tighter)
next
  case (binary l a x t op b y)
  then show ?case by (intro full_binary)
next
  case (unary t op b e)
  then show ?case by (intro full_unary)
next
  case (postfix a e)
  then show ?case using phrase_start(1) [of Postfix a e] by (intro full_postfix) auto
next
  case (primary a e)
  then show ?case by (intro full_primary)
next
  case (dot a e s)
  then show ?case by (intro full_dot)
next
  case (index a e b i)
  then show ?case by (intro full_index)
next
  case (call_empty a e)
  then show ?case using full_call [OF _ full_no_args, of m a e] by simp
next
  case (call a e b es)
  then show ?case using phrase_start(2) [of b es] by (intro full_call full_args) auto
next
  case (literal t e)
  then show ?case by (intro full_literal)
next
  case (parens b e)
  then show ?case by (intro full_parens)
next
  case array_empty
  show ?case by (rule full_array_empty)
next
  case (array b es)
  then show ?case using phrase_start(2) [of b es] by (intro full_array) auto
next
  case (array_comma b es)
  then show ?case using phrase_start(2) [of b es] by (intro full_array) auto
next
  case (item b e)
  then show ?case by (intro full_item)
next
  case (more b es c e)
  then show ?case using phrase_start(1) [of Ternary c e] by (intro full_more) auto
qed

end
