(* ===== verification/Expression_Properties.thy ===== *)
theory Expression_Properties
  imports Expression_Complete
begin

text \<open>
  What the parser of expressions guarantees: it returns, it accepts exactly the phrases of the grammar
  up to the trailing tokens it tolerates, every abstract expression has a text that it reads back, and
  its nesting limit does not see brackets.
\<close>

section \<open>Totality\<close>

lemma lex_string_no_panic: "lex_string q s \<noteq> Panic"
  by (induction q s rule: lex_string.induct) (auto simp: bind_res_eq_Panic)

lemma lex_token_no_panic: "lex_token s \<noteq> Panic"
proof (cases s)
  case (Cons c cs)
  define P where "P X \<longleftrightarrow> X \<noteq> Panic" for X :: "(string, token \<times> string) res"
  have P_if: "P X \<Longrightarrow> P Y \<Longrightarrow> P (if q then X else Y)" for q X Y by simp
  have pair: "P (lex_pair x dbl (Ok t) cs)" "P (lex_pair x dbl (Err e) cs)" for x dbl t e
    by (auto simp: P_def lex_pair_def split: list.splits)
  have point: "P (lex_point cs)" by (auto simp: P_def lex_point_def number_token_def split: option.splits)
  have number: "P (lex_number (c # cs))" by (auto simp: P_def lex_number_def number_token_def Let_def split: prod.splits option.splits)
  have str: "P (bind_res (lex_string c cs) (\<lambda>(s, rest). Ok (TStr s, rest)))"
    using lex_string_no_panic by (auto simp: P_def bind_res_eq_Panic)
  have basic: "P (Ok x)" "P (Err e)" for x e by (simp_all add: P_def)
  have "P (lex_token (c # cs))"
    by (cases "map_of single_tokens c") (simp_all only: lex_token.simps option.case basic, intro P_if pair point number str basic)
  then show ?thesis by (simp add: P_def Cons)
qed simp

lemma tokenize_no_panic: "tokenize s \<noteq> Panic"
proof (induction s rule: tokenize.induct)
  case (1 s)
  show ?case
  proof (cases "skip_whitespace s")
    case (Cons c cs)
    note IH = 1 [OF Cons]
    show ?thesis
    proof (cases "lex_token (c # cs)")
      case (Ok x)
      obtain t rest where x: "x = (t, rest)" by force
      have "tokenize rest \<noteq> Panic" using IH [OF Ok] x by blast
      then show ?thesis by (subst tokenize.simps) (simp add: Cons Ok x bind_res_eq_Panic del: lex_token.simps)
    qed (use lex_token_no_panic [of "c # cs"] in \<open>simp_all add: tokenize.simps [of s] Cons del: lex_token.simps\<close>)
  qed (simp add: tokenize.simps [of s])
qed

lemma parse_ternary_returns: "returns m (length ts - 1) 0 (parse_ternary m (parse_fuel ts) (ts, 0))"
  using methods_return [of "parse_fuel ts" m, THEN conjunct1, rule_format, of "(ts, 0)"] by (simp add: parse_fuel_def)

lemma parse_tokens_returns:
  assumes "unat m < u32_max"
  shows "\<exists>r. parse_tokens m ts = Some r \<and> r \<noteq> Panic"
  using parse_ternary_returns [of "unat m" ts] assms
  by (auto simp: parse_tokens_def returns_def split: option.splits res.splits)

text \<open>
  C39: Parsing never runs away and never panics. Every call of a parsing method inside another uses up one
  unit of fuel, so the fuel that \<open>parse_tokens\<close> starts with bounds the depth of nested calls by twelve
  for each token and twelve more; it always suffices: for every text and every nesting limit below the
  largest \<open>u32\<close> the parser gives an abstract syntax tree or an error, and its depth counter neither
  overflows nor falls below zero. (Stack space for that many calls is assumed.)
\<close>
theorem expression_parser_returns:
  assumes "unat m < u32_max"
  shows "\<exists>r. parse_with_max_depth input m = Some r \<and> r \<noteq> Panic"
  using parse_tokens_returns [OF assms] tokenize_no_panic [of input]
  by (auto simp: parse_with_max_depth_def split: res.splits)

theorem expression_parser_returns_witness: "\<exists>r. parse ''(a'' = Some r \<and> r \<noteq> Panic"
  unfolding parse_def by (rule expression_parser_returns) (simp add: MAX_PARSE_DEPTH_def u32_max_def)

section \<open>Exactness\<close>

lemma phrase_no_eof: "phrase s a e \<Longrightarrow> TEof \<notin> set a" "items b es \<Longrightarrow> TEof \<notin> set b"
  by (induction rule: phrase_items.inducts) (auto simp: prefix_op_def dest: op_not_eof literal_not_eof split: if_splits)

lemma u32_bound: "unat (m :: u32) \<le> u32_max"
  using unsigned_less [of m, where ?'a = nat] by (simp add: u32_max_def)

lemma parse_ternary_reads:
  assumes "phrase Ternary a e" "opens a \<le> min m u32_max" "closing (peek (rest, 0))"
  shows "parse_ternary m (parse_fuel (a @ rest)) (a @ rest, 0) = Some (Ok (e, (rest, 0)))"
proof -
  have "gives (\<lambda>n. parse_ternary m n (a @ rest, 0)) (e, (rest, 0))"
    using ternary_fullyD [OF phrases_read [OF assms(1)], of 0 m rest] assms(2,3) by simp
  then obtain k where k: "\<And>n. k \<le> n \<Longrightarrow> parse_ternary m n (a @ rest, 0) = Some (Ok (e, (rest, 0)))" by (auto simp: gives_def)
  obtain r where r: "parse_ternary m (parse_fuel (a @ rest)) (a @ rest, 0) = Some r"
    using parse_ternary_returns [of m "a @ rest"] by (auto simp: returns_def split: option.splits)
  from more_fuel [OF r, of "max k (parse_fuel (a @ rest))"] k [of "max k (parse_fuel (a @ rest))"] r show ?thesis by simp
qed

lemma trailing_closing: "trailing t \<Longrightarrow> closing t"
  by (cases t) (simp_all add: closing_def)

lemma significant_trailing: "\<not> remaining_significant ts \<Longrightarrow> list_all trailing ts"
proof -
  assume "\<not> remaining_significant ts"
  then have "\<forall>t \<in> set ts. t = TComma \<or> t = TEof" by (auto simp: remaining_significant_def list_ex_iff)
  then show ?thesis by (auto simp: list_all_iff)
qed

text \<open>
  C37: The parser decides the grammar. On tokens within the nesting limit it returns an expression exactly
  when the tokens are a phrase of the grammar that denotes it, followed by any number of closing
  parentheses, commas and numbers, which it ignores.
\<close>
theorem expression_parser_exact:
  assumes "TEof \<notin> set ts" "opens ts \<le> unat m" "close_parens ts \<le> int (unat m)"
  shows "parse_tokens m (ts @ [TEof]) = Some (Ok e) \<longleftrightarrow>
    (\<exists>a rest. ts = a @ rest \<and> phrase Ternary a e \<and> list_all trailing rest)"
proof
  let ?P = "parse_ternary (unat m) (parse_fuel (ts @ [TEof])) (ts @ [TEof], 0)"
  assume "parse_tokens m (ts @ [TEof]) = Some (Ok e)"
  then obtain rest d where p: "?P = Some (Ok (e, (rest, d)))" and t: "peek (rest, d) = TEof \<or> \<not> remaining_significant rest \<or> list_all trailing rest"
    by (auto simp: parse_tokens_def split: option.splits res.splits if_splits)
  from readsD [OF sound_ternary [OF methods_sound] p] obtain a where a: "ts @ [TEof] = a @ rest" "phrase Ternary a e" by auto
  then obtain c where c: "rest = c @ [TEof]" "ts = a @ c"
    using phrase_no_eof(1) [OF a(2)] by (cases rest rule: rev_cases) auto
  have "list_all trailing c"
  proof (cases c)
    case (Cons x xs)
    then have "peek (rest, d) \<noteq> TEof" using c assms(1) by auto
    then show ?thesis using t significant_trailing [of rest] c by auto
  qed simp
  with a c show "\<exists>a rest. ts = a @ rest \<and> phrase Ternary a e \<and> list_all trailing rest" by blast
next
  assume "\<exists>a rest. ts = a @ rest \<and> phrase Ternary a e \<and> list_all trailing rest"
  then obtain a rest where a: "ts = a @ rest" "phrase Ternary a e" "list_all trailing rest" by blast
  have "closing (peek (rest @ [TEof], 0))" using a(3) trailing_closing by (cases rest) (auto simp: closing_def)
  then have "parse_ternary (unat m) (parse_fuel (ts @ [TEof])) (ts @ [TEof], 0) = Some (Ok (e, (rest @ [TEof], 0)))"
    using parse_ternary_reads [OF a(2), of "unat m" "rest @ [TEof]"] a(1) assms(2) u32_bound [of m] by simp
  then show "parse_tokens m (ts @ [TEof]) = Some (Ok e)"
    using assms(3) a(3) by (simp add: parse_tokens_def close_parens_def)
qed

definition ex_tokens :: "token list" where
  "ex_tokens = [TIdent ''x'', TPlus, TIdent ''y'', TStar, TIdent ''z'', TRParen]"

definition ex_expr :: expr where
  "ex_expr = EBinOp (EIdent ''x'') OpAdd (EBinOp (EIdent ''y'') OpMul (EIdent ''z''))"

theorem expression_parser_exact_witness:
  "\<exists>a rest. ex_tokens = a @ rest \<and> phrase Ternary a ex_expr \<and> list_all trailing rest"
proof -
  have "TEof \<notin> set ex_tokens" "opens ex_tokens \<le> unat (64 :: u32)" "close_parens ex_tokens \<le> int (unat (64 :: u32))" by code_simp+
  moreover have "parse_tokens 64 (ex_tokens @ [TEof]) = Some (Ok ex_expr)" by code_simp
  ultimately show ?thesis using expression_parser_exact [of ex_tokens 64 ex_expr] by blast
qed

section \<open>Printing\<close>

text \<open>Every expression has a primary phrase: compound parts are put in parentheses.\<close>

fun op_token :: "bin_op \<Rightarrow> token" where
  "op_token OpAdd = TPlus" | "op_token OpSub = TMinus" | "op_token OpMul = TStar" | "op_token OpDiv = TSlash"
| "op_token OpMod = TPercent" | "op_token OpEq = TEq" | "op_token OpNeq = TNeq" | "op_token OpLt = TLt"
| "op_token OpGt = TGt" | "op_token OpLte = TLte" | "op_token OpGte = TGte" | "op_token OpIn = TIn"
| "op_token OpAnd = TAnd" | "op_token OpOr = TOr"

fun op_level :: "bin_op \<Rightarrow> level" where
  "op_level OpAdd = Additive" | "op_level OpSub = Additive" | "op_level OpMul = Multiplicative" | "op_level OpDiv = Multiplicative"
| "op_level OpMod = Multiplicative" | "op_level OpEq = Equality" | "op_level OpNeq = Equality" | "op_level OpLt = Comparison"
| "op_level OpGt = Comparison" | "op_level OpLte = Comparison" | "op_level OpGte = Comparison" | "op_level OpIn = Comparison"
| "op_level OpAnd = LogicalAnd" | "op_level OpOr = LogicalOr"

fun separated :: "token list list \<Rightarrow> token list" where
  "separated [] = []"
| "separated [a] = a"
| "separated (a # b # cs) = a @ TComma # separated (b # cs)"

fun print_expr :: "expr \<Rightarrow> token list" where
  "print_expr ENull = [TNull]"
| "print_expr (EBool b) = [TBool b]"
| "print_expr (ENumber n) = [TNumber n]"
| "print_expr (EStr s) = [TStr s]"
| "print_expr (EIdent s) = [TIdent s]"
| "print_expr (EDot e s) = TLParen # print_expr e @ [TDot, TIdent s, TRParen]"
| "print_expr (EIndex e i) = TLParen # print_expr e @ TLBracket # print_expr i @ [TRBracket, TRParen]"
| "print_expr (EBinOp l op r) = TLParen # print_expr l @ op_token op # print_expr r @ [TRParen]"
| "print_expr (EUnaryOp op e) = TLParen # (case op of OpNot \<Rightarrow> TNot | OpNeg \<Rightarrow> TMinus) # print_expr e @ [TRParen]"
| "print_expr (ENullCoalesce l r) = TLParen # print_expr l @ TQuestionQuestion # print_expr r @ [TRParen]"
| "print_expr (EArray es) = TLBracket # separated (map print_expr es) @ [TRBracket]"
| "print_expr (ECall f args) = TLParen # print_expr f @ TLParen # separated (map print_expr args) @ [TRParen, TRParen]"
| "print_expr (EConditional c t e) =
     TLParen # print_expr c @ TQuestion # print_expr t @ TColon # print_expr e @ [TRParen]"

lemma operand_ternary: "phrase (Operand (Some l)) a e \<Longrightarrow> phrase Ternary a e"
proof -
  have up: "phrase (Operand (Some l')) a e" if "phrase (Operand (Some l)) a e" "next_level l' = Some l" for l l'
    using tighter [of l' a e] that by simp
  assume "phrase (Operand (Some l)) a e"
  then have "phrase (Operand (Some NullCoalesce)) a e"
    by (cases l) (auto intro: up [of LogicalOr] up [of LogicalAnd, THEN up [of LogicalOr]]
      up [of Equality, THEN up [of LogicalAnd], THEN up [of LogicalOr]]
      up [of Comparison, THEN up [of Equality], THEN up [of LogicalAnd], THEN up [of LogicalOr]]
      up [of Additive, THEN up [of Comparison], THEN up [of Equality], THEN up [of LogicalAnd], THEN up [of LogicalOr]]
      up [of Multiplicative, THEN up [of Additive], THEN up [of Comparison], THEN up [of Equality], THEN up [of LogicalAnd], THEN up [of LogicalOr]])
  then show ?thesis by (rule plain)
qed

lemma prefix_operand: "phrase (Operand None) a e \<Longrightarrow> phrase (Operand lo) a e"
proof -
  assume n: "phrase (Operand None) a e"
  have m: "phrase (Operand (Some Multiplicative)) a e" using tighter [of Multiplicative] n by simp
  have ad: "phrase (Operand (Some Additive)) a e" using tighter [of Additive] m by simp
  have c: "phrase (Operand (Some Comparison)) a e" using tighter [of Comparison] ad by simp
  have q: "phrase (Operand (Some Equality)) a e" using tighter [of Equality] c by simp
  have d: "phrase (Operand (Some LogicalAnd)) a e" using tighter [of LogicalAnd] q by simp
  have r: "phrase (Operand (Some LogicalOr)) a e" using tighter [of LogicalOr] d by simp
  have z: "phrase (Operand (Some NullCoalesce)) a e" using tighter [of NullCoalesce] r by simp
  show ?thesis using n m ad c q d r z by (cases lo rule: rank.cases) auto
qed

lemma primary_phrases:
  assumes "phrase Primary a e"
  shows "phrase Postfix a e" "phrase (Operand lo) a e" "phrase Ternary a e"
  using assms prefix_operand [OF postfix [OF primary [OF assms]]] operand_ternary by (blast intro: primary)+

lemma op_token_level: "map_of (level_ops (op_level op)) (op_token op) = Some (Binary op)"
  by (cases op) (simp_all add: level_ops_def)

lemma items_cons_aux: "phrase s a' e' \<Longrightarrow> True" "items b es \<Longrightarrow> phrase Ternary a e \<longrightarrow> items (a @ TComma # b) (e # es)"
proof (induction rule: phrase_items.inducts)
  case (item b e')
  then show ?case using phrase_items.more [OF phrase_items.item, of a e b e'] by simp
next
  case (more b es c e')
  then show ?case using phrase_items.more [of "a @ TComma # b" "e # es" c e'] by simp
qed simp_all

lemmas items_cons = items_cons_aux(2) [rule_format]

lemma separated_items:
  "es \<noteq> [] \<Longrightarrow> (\<And>e. e \<in> set es \<Longrightarrow> phrase Ternary (f e) e) \<Longrightarrow> items (separated (map f es)) es"
  by (induction es rule: induct_list012) (auto intro: item items_cons)

lemma prefix_ternary: "phrase (Operand None) a e \<Longrightarrow> phrase Ternary a e"
  using operand_ternary [OF prefix_operand [of a e "Some NullCoalesce"]] by blast

lemma print_phrase: "phrase Primary (print_expr e) e"
proof (induction e)
  case (EDot e s)
  from parens [OF prefix_ternary [OF postfix [OF dot [OF primary_phrases(1) [OF EDot]]]]] show ?case by simp
next
  case (EIndex e i)
  from parens [OF prefix_ternary [OF postfix [OF index [OF primary_phrases(1) [OF EIndex(1)] primary_phrases(3) [OF EIndex(2)]]]]]
  show ?case by simp
next
  case (EBinOp l op r)
  from parens [OF operand_ternary [OF binary [OF primary_phrases(2) [OF EBinOp(1)] op_token_level primary_phrases(2) [OF EBinOp(2)]]]]
  show ?case by simp
next
  case (EUnaryOp op e)
  have "prefix_op (case op of OpNot \<Rightarrow> TNot | OpNeg \<Rightarrow> TMinus) = Some op" by (cases op) (simp_all add: prefix_op_def)
  from parens [OF prefix_ternary [OF unary [OF this primary_phrases(2) [OF EUnaryOp]]]] show ?case by simp
next
  case (ENullCoalesce l r)
  have "map_of (level_ops NullCoalesce) TQuestionQuestion = Some Coalesce" by (simp add: level_ops_def)
  from parens [OF operand_ternary [OF binary [OF primary_phrases(2) [OF ENullCoalesce(1)] this primary_phrases(2) [OF ENullCoalesce(2)]]]]
  show ?case by simp
next
  case (EArray es)
  show ?case
  proof (cases "es = []")
    case False
    from array [OF separated_items [OF False, of print_expr, OF primary_phrases(3) [OF EArray]]] show ?thesis by simp
  qed (simp add: array_empty)
next
  case (ECall f args)
  have "arguments (separated (map print_expr args)) args"
  proof (cases "args = []")
    case False
    from separated_items [OF False, of print_expr, OF primary_phrases(3) [OF ECall(2)]] show ?thesis by (simp add: arguments_def)
  qed (simp add: arguments_def)
  from parens [OF prefix_ternary [OF postfix [OF call_arguments [OF primary_phrases(1) [OF ECall(1)] this]]]] show ?case by simp
next
  case (EConditional c t e)
  from parens [OF conditional [OF primary_phrases(2) [OF EConditional(1)] primary_phrases(3) [OF EConditional(2)] primary_phrases(3) [OF EConditional(3)]]]
  show ?case by simp
qed (auto intro: phrase_items.literal)

text \<open>
  C38: Every abstract expression can be written so that the parser reads it back: printing with
  parentheses around the compound parts and parsing within a sufficient nesting limit is the identity.
\<close>
theorem expression_print_parse:
  assumes "opens (print_expr e) \<le> unat m" "close_parens (print_expr e) \<le> int (unat m)"
  shows "parse_tokens m (print_expr e @ [TEof]) = Some (Ok e)"
proof -
  have "closing (peek ([TEof], 0))" by (simp add: closing_def)
  then have "parse_ternary (unat m) (parse_fuel (print_expr e @ [TEof])) (print_expr e @ [TEof], 0) = Some (Ok (e, ([TEof], 0)))"
    using parse_ternary_reads [OF primary_phrases(3) [OF print_phrase], of e "unat m" "[TEof]"] assms(1) u32_bound [of m] by simp
  then show ?thesis using assms(2) by (simp add: parse_tokens_def close_parens_def)
qed

theorem expression_print_parse_witness:
  "parse_tokens 64 (print_expr ex_expr @ [TEof]) = Some (Ok ex_expr)"
  by (rule expression_print_parse) code_simp+

section \<open>The nesting limit\<close>

fun nested_array :: "nat \<Rightarrow> expr" where
  "nested_array 0 = EIdent ''x''"
| "nested_array (Suc k) = EArray [nested_array k]"

definition nested_text :: "nat \<Rightarrow> string" where
  "nested_text k = replicate k CHR ''['' @ ''x'' @ replicate k CHR '']''"

definition nested_tokens :: "nat \<Rightarrow> token list" where
  "nested_tokens k = replicate k TLBracket @ TIdent ''x'' # replicate k TRBracket"

lemma nested_phrase: "phrase Primary (nested_tokens k) (nested_array k)"
proof (induction k)
  case (Suc k)
  have "nested_tokens (Suc k) = TLBracket # nested_tokens k @ [TRBracket]"
    by (simp add: nested_tokens_def replicate_append_same)
  with array [OF item [OF primary_phrases(3) [OF Suc]]] show ?case by simp
qed (auto simp: nested_tokens_def intro: phrase_items.literal)

lemma strip_plain:
  assumes "list_all (\<lambda>w. w \<noteq> [] \<longrightarrow> hd w \<noteq> c) ws"
  shows "strip_leading ws (c # cs) = c # cs"
proof -
  have "List.find (\<lambda>w. w \<noteq> [] \<and> starts_with (c # cs) w) ws = None"
    using assms by (auto simp: find_None_iff list_all_iff starts_with_iff Cons_eq_append_conv)
  then show ?thesis by (subst strip_leading.simps) simp
qed

lemma skip_brackets: "skip_whitespace (CHR ''['' # cs) = CHR ''['' # cs" "skip_whitespace (CHR '']'' # cs) = CHR '']'' # cs"
  "skip_whitespace (CHR ''x'' # cs) = CHR ''x'' # cs" "skip_whitespace [] = []"
  unfolding skip_whitespace_def
  by (rule strip_plain, simp add: white_space_texts_def)+
     (simp add: strip_leading.simps white_space_texts_def)

lemma tokenize_closing: "tokenize (replicate k CHR '']'') = Ok (replicate k TRBracket @ [TEof])"
  by (induction k) (simp_all add: tokenize.simps skip_brackets single_tokens_def)

lemma tokenize_nested: "tokenize (nested_text k) = Ok (nested_tokens k @ [TEof])"
proof -
  have word: "lex_token (CHR ''x'' # replicate j CHR '']'') = Ok (TIdent ''x'', replicate j CHR '']'')" for j
    by (cases j) (simp_all add: single_tokens_def lex_word_def ident_char_def is_ascii_alphabetic_def is_ascii_digit_def word_token_def Let_def)
  have "tokenize (replicate i CHR ''['' @ CHR ''x'' # replicate j CHR '']'')
      = Ok (replicate i TLBracket @ TIdent ''x'' # replicate j TRBracket @ [TEof])" for i j
  proof (induction i)
    case 0
    show ?case by (subst tokenize.simps) (simp add: skip_brackets word tokenize_closing del: lex_token.simps)
  next
    case (Suc i)
    then show ?case by (subst tokenize.simps) (simp add: skip_brackets single_tokens_def)
  qed
  from this [of k k] show ?thesis by (simp add: nested_text_def nested_tokens_def)
qed

lemma trim_nested: "trim (nested_text k) \<noteq> []"
proof -
  have first: "strip_leading white_space_texts (nested_text k) = nested_text k"
    using skip_brackets unfolding skip_whitespace_def by (cases k) (simp_all add: nested_text_def)
  obtain c cs where c: "replicate k CHR '']'' @ CHR ''x'' # replicate k CHR ''['' = c # cs" "c = CHR '']'' \<or> c = CHR ''x''"
    by (cases k) auto
  have reversed: "rev (nested_text k) = c # cs" unfolding c(1) [symmetric] by (simp add: nested_text_def)
  have "strip_leading (map rev white_space_texts) (c # cs) = c # cs"
    using c(2) by (intro strip_plain) (auto simp: white_space_texts_def)
  then show ?thesis by (simp add: trim_def first reversed)
qed

text \<open>
  C40: The nesting limit does not bound the nesting of brackets: under every limit the parser accepts
  array literals nested to every depth, each of which costs it a chain of nested calls.
\<close>
theorem nesting_limit_ignores_brackets:
  "parse_with_max_depth (nested_text k) m = Some (Ok (nested_array k))"
proof -
  have opens: "opens (nested_tokens k) = 0" by (simp add: nested_tokens_def opens_def)
  have parens: "close_parens (nested_tokens k @ [TEof]) = 0" by (simp add: nested_tokens_def close_parens_def)
  have "closing (peek ([TEof], 0))" by (simp add: closing_def)
  then have "parse_ternary (unat m) (parse_fuel (nested_tokens k @ [TEof])) (nested_tokens k @ [TEof], 0) = Some (Ok (nested_array k, ([TEof], 0)))"
    using parse_ternary_reads [OF primary_phrases(3) [OF nested_phrase], of k "unat m" "[TEof]"] opens by simp
  then show ?thesis
    by (simp add: parse_with_max_depth_def trim_nested tokenize_nested parse_tokens_def parens)
qed

end
