(* ===== verification/Spec2Isabelle.thy ===== *)
theory Spec2Isabelle
  imports Store_Admission Timer_Properties Engine_Properties Service_Properties Path_Properties
    Resolution_Properties Change_Properties Feed_Properties Runtime_Gate
    Cursor_Properties Watch_Properties Transaction_Blocked Expression_Properties
begin

text \<open>
  A verification library for \<open>mdbase-rs\<close>, a store for collections of Markdown records with a durable
  workflow runtime on top of it.

  \<^bold>\<open>The program.\<close> The repository has two halves. The library crate (\<open>src/\<close>) reads and writes
  collections on disk: a record is a file below a collection root, records link to one another, a
  mutation is a transaction over several files, and a collection runtime hands out pinned reads,
  computes what changed between two snapshots, keeps a durable feed of changes and watches the disk.
  The crate \<open>crates/mdbase-runtime\<close> turns events, such as the changes of a collection, into runs of
  workflows: a catalog decides which workflows an event starts, the planner makes runs of them, a
  store makes events, runs and timers durable and hands them to workers under leases, and the engine
  executes a claimed run step by step against action providers.

  \<^bold>\<open>Shared vocabulary.\<close> \<open>Prelude\<close> has the result type of fallible Rust code (\<open>Ok\<close>, \<open>Err\<close> and
  \<open>Panic\<close>), time, strings as UTF-8 bytes and the locale \<open>invariant_machine\<close> for invariants of step
  relations; \<open>BTree_Map\<close> the ordered map with the locale \<open>ordered_map\<close>, interpreted on the
  association lists of the model; \<open>Json\<close> the values of \<open>serde_json\<close>; \<open>Rust_Text\<close> the text functions of
  the standard library; \<open>Effects\<close> the world of the workflow runtime and \<open>Disk\<close> the world of the file
  operations.

  \<^bold>\<open>Workflow runtime\<close> (\<open>src/crates/mdbase-runtime/src\<close>). \<open>Runtime_Model\<close> has the data of \<open>model.rs\<close>,
  \<open>store.rs\<close> and \<open>error.rs\<close>. \<open>Memory_Store\<close> is \<open>memory.rs\<close>: the state behind the mutex is the record
  \<open>mem_state\<close> and every method is one atomic transition \<open>mem_*\<close>, \<open>with_lock\<close> adding the poisoning of
  the mutex by a panic. \<open>store_step\<close> is the relation of all transitions by any number of workers.
  \<open>Store_Invariant\<close> proves that every reachable state satisfies the store invariant, and
  \<open>Store_Properties\<close>, \<open>Store_Fencing\<close>, \<open>Store_Admission\<close> and \<open>Timer_Properties\<close> what clients get from
  it: events are admitted once even after pruning, runs of a serialised group exclude one another and
  go in order, a worker whose lease was taken over never commits again, a finished run never changes, a
  replacing run stops its group, journal pages are complete, a generation of a timer fires at most
  once. \<open>Store_Rely\<close> states what one worker may rely on while others act.

  \<open>Cel\<close> (\<open>cel.rs\<close>), \<open>Provider\<close> (\<open>provider.rs\<close>, \<open>clock.rs\<close>), \<open>Timer_Rules\<close> (\<open>timer.rs\<close>) and \<open>Engine\<close>
  (\<open>engine.rs\<close>) are the execution of a claimed run, in state passing style over a world whose store
  other workers change between any two calls and whose clock moves. \<open>Engine_Contract\<close> states the
  interface of the store as the locale \<open>run_store\<close> and the discipline of the engine in the locale
  \<open>engine\<close>; \<open>Engine_Correct\<close> and \<open>Engine_Run\<close> prove the methods inside it, \<open>Engine_Memory\<close> interprets
  both locales on the in-memory store, and \<open>Engine_Properties\<close> draws the conclusions: an execution ends,
  calls a provider only for an attempt that is already durable, never repeats an interrupted call that
  is not idempotent, and is a sequence of transitions of the store.

  \<open>Admission\<close> (\<open>admission.rs\<close>, \<open>schemas.rs\<close>) and \<open>Planner\<close> (\<open>planner.rs\<close>) are the way from an event to
  planned runs; their properties are the well-formedness of a catalog, that admitted workflows only
  use granted capabilities, the order of variables, and that two workflows can share a run id.
  \<open>Service\<close> has the public methods of the runtime (delivery, worker, draining, reads, cancellation,
  timers) and the activities of \<open>activity.rs\<close>; \<open>Service_Properties\<close> shows that draining returns.

  \<^bold>\<open>Paths and links\<close> (\<open>src/src\<close>). \<open>Glob\<close> is \<open>matching/glob.rs\<close>, \<open>Collection_Path\<close> the logical paths of
  \<open>api/collection_path.rs\<close> with the settings of \<open>lib.rs\<close> and the namespaces of \<open>record_path.rs\<close> and
  \<open>file_path.rs\<close>; \<open>Path_Properties\<close> shows that accepted paths are canonical and stay below the root and
  that the glob matcher accepts exactly the paths of its declarative definition. \<open>Link_Paths\<close>
  (\<open>links/parser.rs\<close>, \<open>links/resolver.rs\<close>, \<open>links/resolution_keys.rs\<close>), \<open>Record_Structure\<close>
  (\<open>runtime/record_structure.rs\<close>) and \<open>Record_Resolution\<close> (\<open>runtime/record_resolution.rs\<close>) find the
  links of a record and resolve them; the properties are the round trip of relative paths, the
  documented ranking of candidates, and that the evidence of a resolution is accepted by the
  independent validator for plain targets with the extensions it knows, but not for the anchored links
  that \<open>anchored_link_evidence_rejected\<close> exhibits.

  \<^bold>\<open>Collection runtime\<close> (\<open>src/src/runtime\<close>, \<open>src/src/watch\<close>). \<open>Operation_Context\<close> has cancellation,
  deadlines and capture budgets (\<open>context.rs\<close>, \<open>cancellation.rs\<close>) and \<open>Runtime_Gate\<close> the gate of readers
  and writers as a step relation over threads, with exclusion and the priority of writers.
  \<open>Change_Sets\<close> (\<open>outcome.rs\<close>) and \<open>Change_Diff\<close> (\<open>diff.rs\<close>) compute canonical changes: the changed
  fields are exactly the outermost differences and replaying the changes on one snapshot gives the
  other. \<open>Change_Feed\<close> (\<open>feed.rs\<close>) is the durable journal with the faults of its file, whose
  writes may fail before or after the new file is in place; an event stays until it is acknowledged
  and a handle is fenced by any newer one, unless \<open>reset_for_fork\<close> removes the journal; pages have no
  gaps and reconciliation is idempotent. \<open>Read_Cursors\<close> (\<open>cursor.rs\<close>, \<open>canonical_operation.rs\<close>) pins results and pages them within
  bounds, with authenticated tokens and pages that can be asked for again, under the same limit, while
  the read is pinned. \<open>Watch_Events\<close> has the events
  of \<open>watch/real.rs\<close> and their normalisation in \<open>external.rs\<close>, which agree with the snapshot difference when
  both see the same renames and readable frontmatter.

  \<^bold>\<open>File transactions\<close> (\<open>src/src/transactions.rs\<close>, \<open>src/src/collection_root.rs\<close>). \<open>Disk\<close> models names and
  inodes and programs whose every system call may take place, be refused or be the last of the
  process, with partial effects for writes and recursive removals. \<open>Collection_Root\<close> has the file
  operations of the collection root and \<open>File_Transactions\<close> staging, commit and recovery.
  \<open>Root_Triples\<close> gives crash triples for the file operations, \<open>Transaction_States\<close> the states a
  transaction can leave, \<open>Transaction_Recovery\<close> and \<open>Transaction_Properties\<close> the triples of recovery and
  commit, and \<open>Transaction_Atomic\<close> the result: whatever fails and wherever the process is killed, a
  recovery that succeeds leaves all files as before or all as intended. \<open>Transaction_Blocked\<close> shows that
  a transaction directory which is left without a journal keeps every later recovery from succeeding;
  \<open>interrupted_publication_blocks_recovery\<close> runs one kill inside a publication with the same effect.

  \<^bold>\<open>Expressions\<close> (\<open>src/src/expressions\<close>). \<open>Float64\<close> has the floating point numbers a literal can denote and
  \<open>str::parse\<close> for them, \<open>Expression_Syntax\<close> the abstract syntax (\<open>ast.rs\<close>), the tests of \<open>mod.rs\<close> and the
  lexer, \<open>Expression_Parser\<close> the recursive descent parser (\<open>parser.rs\<close>). \<open>Expression_Grammar\<close> is a
  declarative grammar, an inductive relation between token sequences and trees, with the soundness of
  the methods, and \<open>Expression_Complete\<close> their completeness; \<open>Expression_Properties\<close> concludes that the
  parser gives a result for every text without overflow of its \<open>u32\<close> depth counter, that it accepts exactly the phrases of the grammar followed by the trailing
  tokens it tolerates, that printing and parsing round trip, and that the nesting limit does not see
  brackets.

  \<^bold>\<open>Locales.\<close> \<open>ordered_map\<close> is interpreted on the ordered association lists, \<open>run_store\<close> and \<open>engine\<close> on
  the in-memory store, and \<open>invariant_machine\<close> on the gate, the cursor store and the recovery of
  transactions; the properties rest on the facts of these interpretations.

  \<^bold>\<open>Bounds and fuel.\<close> The loop over the steps of a run has fuel: a step is left for good in each
  iteration, so one more than the number of planned steps is enough, and \<open>execute_claim_terminates\<close>
  proves it. The mutually recursive methods of the expression parser have twelve units of fuel for a
  token and twelve more, the length of the chain of methods between two tokens, which
  \<open>expression_parser_returns\<close> proves to be enough; one unit is one nested call, so the fuel also bounds
  the depth of the recursion. Every other loop is structural or has a termination proof. Counters that can overflow are
  words of their width (\<open>u64\<close> generations and watermarks) with the checked operations of the source,
  and durations are integers with the limits of \<open>i64\<close> written out. The retries of the file operations are the 21 attempts of the source.

  \<^bold>\<open>Parameters.\<close> Third-party code and code of the host is an argument of the definitions that use it:
  SHA-256, the JSON and YAML codecs, JSON Schema, SemVer, the CEL language, regular expressions, UUIDs
  and random bytes, providers and authorizers, the replies of the operating system. Where a property
  needs something of them it is a named hypothesis, such as \<open>codec_ok\<close> (a written journal is read back)
  or \<open>honest\<close> (the system does not report an existing file as absent), and the witness of the
  property has an instance. The disk model is that of a process crash: what a completed call
  wrote is still there, and the loss of data that was not synchronised is not modelled.

  \<^bold>\<open>Not modelled.\<close> The SQLite and PostgreSQL stores and the cache, whose behaviour is that of SQL; the
  evaluation of expressions, queries and views; types, matching rules and validation by JSON Schema; the
  record operations over YAML text; set-up, migration and type packs; the hosted runtime and the
  journals of \<open>transactions/runtime.rs\<close>; the threads of the file watcher; the command line.
\<close>

end
